(* ===== verification/Prelude.thy ===== *)
theory Prelude
  imports Main "HOL-Library.Monad_Syntax" "HOL-Library.Word"
begin

section \<open>Shared vocabulary of the development\<close>

text \<open>
  This theory holds what every component of the model uses: the result type of
  fallible Rust functions (a sum whose left side is the error), collecting a list of
  results, the duplicate check of a \<open>HashSet\<close> loop, decimal rendering of unsigned
  integers, and the generic list lemmas the component proofs share.

  A Rust \<open>&str\<close> or \<open>String\<close> is modelled by its UTF-8 bytes: a \<^typ>\<open>string\<close> is a list
  of \<^typ>\<open>char\<close>, and a \<^typ>\<open>char\<close> is one byte.
\<close>

named_theorems result_simps \<open>evaluation of the result combinators\<close>
named_theorems model_defs \<open>definitions that the component proofs unfold together\<close>

type_synonym ('e, 'a) result = "'e + 'a"

abbreviation Ok :: "'a \<Rightarrow> ('e, 'a) result" where
  "Ok \<equiv> Inr"

abbreviation Err :: "'e \<Rightarrow> ('e, 'a) result" where
  "Err \<equiv> Inl"

text \<open>The \<open>?\<close> operator: an error returns early, a value continues.\<close>

definition rbind :: "('e, 'a) result \<Rightarrow> ('a \<Rightarrow> ('e, 'b) result) \<Rightarrow> ('e, 'b) result" where
  "rbind r f = (case r of Inl e \<Rightarrow> Inl e | Inr x \<Rightarrow> f x)"

definition rmap :: "('a \<Rightarrow> 'b) \<Rightarrow> ('e, 'a) result \<Rightarrow> ('e, 'b) result" where
  "rmap f r = (case r of Inl e \<Rightarrow> Inl e | Inr x \<Rightarrow> Inr (f x))"

definition map_err :: "('e \<Rightarrow> 'f) \<Rightarrow> ('e, 'a) result \<Rightarrow> ('f, 'a) result" where
  "map_err f r = (case r of Inl e \<Rightarrow> Inl (f e) | Inr x \<Rightarrow> Inr x)"

definition ok_or :: "'a option \<Rightarrow> 'e \<Rightarrow> ('e, 'a) result" where
  "ok_or x e = (case x of None \<Rightarrow> Inl e | Some v \<Rightarrow> Inr v)"

definition is_ok :: "('e, 'a) result \<Rightarrow> bool" where
  "is_ok r = (case r of Inl _ \<Rightarrow> False | Inr _ \<Rightarrow> True)"

text \<open>\<open>collect::<Result<Vec<_>, _>>()\<close>: the first error, or every value in order.\<close>

fun traverse :: "('a \<Rightarrow> ('e, 'b) result) \<Rightarrow> 'a list \<Rightarrow> ('e, 'b list) result" where
  "traverse f [] = Inr []"
| "traverse f (x # xs) =
     (case f x of Inl e \<Rightarrow> Inl e
      | Inr y \<Rightarrow> (case traverse f xs of Inl e \<Rightarrow> Inl e | Inr ys \<Rightarrow> Inr (y # ys)))"

lemma rbind_simps [simp, result_simps]:
  "rbind (Inl e) f = Inl e" "rbind (Inr x) f = f x"
  by (simp_all add: rbind_def)

lemma rmap_simps [simp, result_simps]:
  "rmap f (Inl e) = Inl e" "rmap f (Inr x) = Inr (f x)"
  by (simp_all add: rmap_def)

lemma map_err_simps [simp, result_simps]:
  "map_err f (Inl e) = Inl (f e)" "map_err f (Inr x) = Inr x"
  by (simp_all add: map_err_def)

lemma ok_or_simps [simp, result_simps]:
  "ok_or None e = Inl e" "ok_or (Some v) e = Inr v"
  by (simp_all add: ok_or_def)

lemma is_ok_simps [simp, result_simps]:
  "\<not> is_ok (Inl e)" "is_ok (Inr x)"
  by (simp_all add: is_ok_def)

lemma rbind_eq_Inr_iff:
  "rbind r f = Inr y \<longleftrightarrow> (\<exists>x. r = Inr x \<and> f x = Inr y)"
  by (cases r) simp_all

lemma rbind_eq_Inl_iff:
  "rbind r f = Inl e \<longleftrightarrow> r = Inl e \<or> (\<exists>x. r = Inr x \<and> f x = Inl e)"
  by (cases r) simp_all

lemma rmap_eq_Inr_iff: "rmap f r = Inr y \<longleftrightarrow> (\<exists>x. r = Inr x \<and> y = f x)"
  by (cases r) auto

lemma map_err_eq_Inr_iff [simp]: "map_err f r = Inr y \<longleftrightarrow> r = Inr y"
  by (cases r) simp_all

lemma is_ok_iff: "is_ok r \<longleftrightarrow> (\<exists>x. r = Inr x)"
  by (cases r) simp_all

lemma traverse_ok_iff: "is_ok (traverse f xs) \<longleftrightarrow> (\<forall>x\<in>set xs. is_ok (f x))"
  by (induction xs) (auto split: sum.splits simp: is_ok_def)

lemma traverse_Inr_iff:
  "traverse f xs = Inr ys \<longleftrightarrow> list_all2 (\<lambda>x y. f x = Inr y) xs ys"
proof (induction xs arbitrary: ys)
  case (Cons x xs)
  show ?case
  proof (cases "f x")
    case (Inr y)
    then show ?thesis
      by (cases "traverse f xs") (auto simp: list_all2_Cons1 Cons.IH [symmetric])
  qed (auto simp: list_all2_Cons1)
qed auto

lemma traverse_map_Inr [simp]: "traverse (\<lambda>x. Inr (f x)) xs = Inr (map f xs)"
  by (induction xs) simp_all

lemma traverse_cong:
  "(\<And>x. x \<in> set xs \<Longrightarrow> f x = g x) \<Longrightarrow> traverse f xs = traverse g xs"
  by (induction xs) (simp_all cong: sum.case_cong)

section \<open>Duplicates, as a \<open>HashSet\<close> loop finds them\<close>

text \<open>
  \<open>for x in xs { if !seen.insert(key(x)) { return Err(..x..) } }\<close>: the first element whose
  key an earlier element already had.
\<close>

fun first_dup_from :: "'k list \<Rightarrow> ('a \<Rightarrow> 'k) \<Rightarrow> 'a list \<Rightarrow> 'a option" where
  "first_dup_from seen key [] = None"
| "first_dup_from seen key (x # xs) =
     (if key x \<in> set seen then Some x else first_dup_from (key x # seen) key xs)"

definition first_dup :: "('a \<Rightarrow> 'k) \<Rightarrow> 'a list \<Rightarrow> 'a option" where
  "first_dup = first_dup_from []"

lemma first_dup_from_None_iff:
  "first_dup_from seen key xs = None \<longleftrightarrow> distinct (map key xs) \<and> set seen \<inter> key ` set xs = {}"
  by (induction xs arbitrary: seen) auto

lemma first_dup_None_iff [simp]: "first_dup key xs = None \<longleftrightarrow> distinct (map key xs)"
  by (simp add: first_dup_def first_dup_from_None_iff)

lemma first_dup_from_case_Inr_iff:
  "(case first_dup_from seen key xs of Some x \<Rightarrow> Inl (f x) | None \<Rightarrow> r) = Inr y \<longleftrightarrow>
     distinct (map key xs) \<and> set seen \<inter> key ` set xs = {} \<and> r = Inr y"
  using first_dup_from_None_iff [of seen key xs] by (cases "first_dup_from seen key xs") auto

lemma first_dup_case_Inr_iff:
  "(case first_dup key xs of Some x \<Rightarrow> Inl (f x) | None \<Rightarrow> r) = Inr y \<longleftrightarrow> distinct (map key xs) \<and> r = Inr y"
  by (simp add: first_dup_def first_dup_from_case_Inr_iff)

section \<open>Lists and lookups\<close>

lemma find_Some_iff':
  "List.find P xs = Some x \<Longrightarrow> x \<in> set xs \<and> P x"
  by (induction xs) (auto split: if_splits)

lemma find_case_Inr_iff:
  "(case List.find P xs of Some x \<Rightarrow> Inl (f x) | None \<Rightarrow> r) = Inr y \<longleftrightarrow> (\<forall>x\<in>set xs. \<not> P x) \<and> r = Inr y"
  by (induction xs) auto

lemma find_distinct:
  "distinct (map key xs) \<Longrightarrow> x \<in> set xs \<Longrightarrow> List.find (\<lambda>y. key y = key x) xs = Some x"
  by (induction xs) auto

lemma find_key_None_iff: "List.find (\<lambda>y. key y = k) xs = None \<longleftrightarrow> k \<notin> key ` set xs"
  by (induction xs) auto

lemma distinct_map_eqD:
  "distinct (map key xs) \<Longrightarrow> x \<in> set xs \<Longrightarrow> y \<in> set xs \<Longrightarrow> key x = key y \<Longrightarrow> x = y"
  by (auto simp: distinct_map inj_on_def)

lemma foldl_snoc_map: "foldl (\<lambda>acc x. acc @ [f x]) ys xs = ys @ map f xs"
  by (induction xs arbitrary: ys) simp_all

lemma list_ex_set_cong: "set xs = set ys \<Longrightarrow> list_ex P xs = list_ex P ys"
  by (simp add: list_ex_iff)

section \<open>Decimal rendering\<close>

definition digit_char :: "nat \<Rightarrow> char" where
  "digit_char d = char_of (48 + d)"

function show_nat :: "nat \<Rightarrow> string" where
  "show_nat n = (if n < 10 then [digit_char n] else show_nat (n div 10) @ [digit_char (n mod 10)])"
  by pat_completeness auto
termination
  by (relation "measure id") auto

declare show_nat.simps [simp del]

definition join :: "string \<Rightarrow> string list \<Rightarrow> string" where
  "join sep xs = (case xs of [] \<Rightarrow> [] | y # ys \<Rightarrow> y @ concat (map (\<lambda>s. sep @ s) ys))"

end
