(* ===== verification/Std_Text.thy ===== *)
theory Std_Text
  imports Prelude
begin

section \<open>The string and number parsing of the Rust standard library\<close>

text \<open>
  What \<open>src/schema.rs\<close> uses of \<open>str\<close>, \<open>i64\<close>, \<open>u8\<close> and \<open>f64\<close>: byte tests,
  \<open>strip_prefix\<close>, \<open>strip_suffix\<close>, \<open>split_once\<close>, \<open>split\<close>, \<open>trim().is_empty()\<close>,
  \<open>parse::<i64>()\<close>, \<open>parse::<u8>()\<close> and \<open>parse::<f64>()\<close>. These are the model's
  account of the standard library and have no line in the repository.
\<close>

subsection \<open>Bytes\<close>

definition byte :: "char \<Rightarrow> nat" where
  "byte c = of_char c"

definition is_ascii_digit :: "char \<Rightarrow> bool" where
  "is_ascii_digit c \<longleftrightarrow> 48 \<le> byte c \<and> byte c \<le> 57"

definition digit_value :: "char \<Rightarrow> nat" where
  "digit_value c = byte c - 48"

definition all_digits :: "string \<Rightarrow> bool" where
  "all_digits s \<longleftrightarrow> list_all is_ascii_digit s"

lemma all_digits_simps [simp]:
  "all_digits []" "all_digits (c # s) \<longleftrightarrow> is_ascii_digit c \<and> all_digits s"
  "all_digits (s @ t) \<longleftrightarrow> all_digits s \<and> all_digits t"
  by (auto simp: all_digits_def)

lemma digit_value_less: "is_ascii_digit c \<Longrightarrow> digit_value c < 10"
  by (auto simp: is_ascii_digit_def digit_value_def)

lemma byte_char_of [simp]: "n < 256 \<Longrightarrow> byte (char_of n) = n"
  by (simp add: byte_def)

lemma byte_inject: "byte c = byte d \<longleftrightarrow> c = d"
  by (simp add: byte_def)

lemma digit_char_props [simp]:
  "d < 10 \<Longrightarrow> is_ascii_digit (digit_char d)"
  "d < 10 \<Longrightarrow> digit_value (digit_char d) = d"
  by (simp_all add: digit_char_def is_ascii_digit_def digit_value_def)

lemma digit_char_digit_value: "is_ascii_digit c \<Longrightarrow> digit_char (digit_value c) = c"
  by (simp add: digit_char_def is_ascii_digit_def digit_value_def byte_def)

text \<open>The value of a digit string, most significant digit first.\<close>

fun digits_value_from :: "nat \<Rightarrow> string \<Rightarrow> nat" where
  "digits_value_from acc [] = acc"
| "digits_value_from acc (c # s) = digits_value_from (10 * acc + digit_value c) s"

definition digits_value :: "string \<Rightarrow> nat" where
  "digits_value = digits_value_from 0"

lemma digits_value_from_eq:
  "digits_value_from acc s = acc * 10 ^ length s + digits_value_from 0 s"
proof (induction s arbitrary: acc)
  case (Cons c s)
  have "digits_value_from acc (c # s) = (10 * acc + digit_value c) * 10 ^ length s + digits_value_from 0 s"
    using Cons.IH [of "10 * acc + digit_value c"] by simp
  moreover have "digits_value_from 0 (c # s) = digit_value c * 10 ^ length s + digits_value_from 0 s"
    using Cons.IH [of "digit_value c"] by simp
  ultimately show ?case by (simp add: algebra_simps)
qed simp

lemma digits_value_Nil [simp]: "digits_value [] = 0"
  by (simp add: digits_value_def)

lemma digits_value_Cons: "digits_value (c # s) = digit_value c * 10 ^ length s + digits_value s"
  using digits_value_from_eq [of "digit_value c" s] by (simp add: digits_value_def)

lemma digits_value_append:
  "digits_value (s @ t) = digits_value s * 10 ^ length t + digits_value t"
proof (induction s)
  case (Cons c s)
  then show ?case by (simp add: digits_value_Cons power_add algebra_simps)
qed simp

lemma digits_value_bound: "all_digits s \<Longrightarrow> digits_value s < 10 ^ length s"
proof (induction s)
  case (Cons c s)
  then have "digit_value c \<le> 9" "digits_value s < 10 ^ length s"
    using digit_value_less [of c] by auto
  then have "digit_value c * 10 ^ length s + digits_value s < 9 * 10 ^ length s + 10 ^ length s"
    by (intro add_le_less_mono mult_right_mono) auto
  then show ?case by (simp add: digits_value_Cons)
qed simp

lemma show_nat_digits [simp]: "all_digits (show_nat n)"
proof (induction n rule: show_nat.induct)
  case (1 n)
  then show ?case by (subst show_nat.simps) (simp add: all_digits_def)
qed

lemma show_nat_nonempty [simp]: "show_nat n \<noteq> []"
  by (subst show_nat.simps) simp

lemma digits_value_show_nat [simp]: "digits_value (show_nat n) = n"
proof (induction n rule: show_nat.induct)
  case (1 n)
  show ?case
  proof (cases "n < 10")
    case True
    then show ?thesis by (simp add: show_nat.simps [of n] digits_value_Cons)
  next
    case False
    with 1 show ?thesis
      by (simp add: show_nat.simps [of n] digits_value_append digits_value_Cons)
  qed
qed

lemma hd_show_nat: "hd (show_nat n) = digit_char 0 \<longleftrightarrow> n = 0"
proof (induction n rule: show_nat.induct)
  case (1 n)
  show ?case
  proof (cases "n < 10")
    case True
    moreover from True have "digit_char n = digit_char 0 \<longleftrightarrow> n = 0"
      by (metis digit_char_props(2) zero_less_numeral)
    ultimately show ?thesis by (simp add: show_nat.simps [of n])
  next
    case False
    with 1 show ?thesis by (simp add: show_nat.simps [of n] hd_append)
  qed
qed

subsection \<open>Splitting\<close>

definition strip_prefix :: "string \<Rightarrow> string \<Rightarrow> string option" where
  "strip_prefix p s = (if take (length p) s = p then Some (drop (length p) s) else None)"

definition strip_suffix_char :: "char \<Rightarrow> string \<Rightarrow> string option" where
  "strip_suffix_char c s = (if s \<noteq> [] \<and> last s = c then Some (butlast s) else None)"

fun split_once :: "char \<Rightarrow> string \<Rightarrow> (string \<times> string) option" where
  "split_once c [] = None"
| "split_once c (x # s) =
     (if x = c then Some ([], s)
      else map_option (\<lambda>(a, b). (x # a, b)) (split_once c s))"

fun split_on :: "char \<Rightarrow> string \<Rightarrow> string list" where
  "split_on c [] = [[]]"
| "split_on c (x # s) =
     (if x = c then [] # split_on c s
      else (case split_on c s of [] \<Rightarrow> [[x]] | y # ys \<Rightarrow> (x # y) # ys))"

lemma strip_prefix_Some: "strip_prefix p s = Some r \<Longrightarrow> s = p @ r"
  unfolding strip_prefix_def by (metis append_take_drop_id option.distinct(1) option.inject)

lemma strip_prefix_append [simp]: "strip_prefix p (p @ r) = Some r"
  by (simp add: strip_prefix_def)

lemma strip_suffix_char_Some: "strip_suffix_char c s = Some r \<Longrightarrow> s = r @ [c]"
  unfolding strip_suffix_char_def
  by (metis append_butlast_last_id option.distinct(1) option.inject)

lemma split_once_Some: "split_once c s = Some (a, b) \<Longrightarrow> s = a @ c # b \<and> c \<notin> set a"
  by (induction s arbitrary: a) (auto split: if_splits)

lemma split_once_append: "c \<notin> set a \<Longrightarrow> split_once c (a @ c # b) = Some (a, b)"
  by (induction a) auto

lemma split_once_None_iff: "split_once c s = None \<longleftrightarrow> c \<notin> set s"
  by (induction s) auto

lemma split_on_nonempty [simp]: "split_on c s \<noteq> []"
  by (induction s) (auto split: list.splits)

lemma split_on_segments: "seg \<in> set (split_on c s) \<Longrightarrow> c \<notin> set seg"
  by (induction s arbitrary: seg) (auto split: if_splits list.splits)

lemma join_split_on: "join [c] (split_on c s) = s"
proof (induction s)
  case (Cons x s)
  then show ?case
    by (cases "split_on c s") (auto simp: join_def split: list.splits)
qed (simp add: join_def)

lemma split_on_append: "c \<notin> set a \<Longrightarrow> split_on c (a @ c # s) = a # split_on c s"
  by (induction a) auto

lemma split_on_no_sep: "c \<notin> set a \<Longrightarrow> split_on c a = [a]"
  by (induction a) auto

lemma join_Cons: "join sep (a # b # xs) = a @ sep @ join sep (b # xs)"
  by (simp add: join_def)

lemma split_on_join:
  "xs \<noteq> [] \<Longrightarrow> \<forall>x\<in>set xs. c \<notin> set x \<Longrightarrow> split_on c (join [c] xs) = xs"
proof (induction xs rule: induct_list012)
  case (2 x)
  then show ?case by (simp add: join_def split_on_no_sep)
next
  case (3 x y zs)
  then show ?case by (simp add: join_Cons split_on_append)
qed simp

subsection \<open>\<open>str::trim().is_empty()\<close>\<close>

text \<open>
  \<open>trim\<close> removes Unicode white space; a string trims to nothing iff it is a sequence of
  white-space code points, here in their UTF-8 encodings.
\<close>

fun all_whitespace :: "string \<Rightarrow> bool" where
  "all_whitespace [] = True"
| "all_whitespace (a # s) =
     (let x = byte a in
      if (9 \<le> x \<and> x \<le> 13) \<or> x = 32 then all_whitespace s
      else (case s of
              [] \<Rightarrow> False
            | b # s2 \<Rightarrow>
                let y = byte b in
                if x = 0xC2 \<and> (y = 0x85 \<or> y = 0xA0) then all_whitespace s2
                else (case s2 of
                        [] \<Rightarrow> False
                      | c # s3 \<Rightarrow>
                          let z = byte c in
                          if (x = 0xE1 \<and> y = 0x9A \<and> z = 0x80)
                           \<or> (x = 0xE2 \<and> y = 0x80
                               \<and> ((0x80 \<le> z \<and> z \<le> 0x8A) \<or> z = 0xA8 \<or> z = 0xA9 \<or> z = 0xAF))
                           \<or> (x = 0xE2 \<and> y = 0x81 \<and> z = 0x9F)
                           \<or> (x = 0xE3 \<and> y = 0x80 \<and> z = 0x80)
                          then all_whitespace s3 else False)))"

subsection \<open>Integers\<close>

definition i64_min :: int where "i64_min = - (2 ^ 63)"
definition i64_max :: int where "i64_max = 2 ^ 63 - 1"
definition i128_min :: int where "i128_min = - (2 ^ 127)"
definition i128_max :: int where "i128_max = 2 ^ 127 - 1"

definition in_i64 :: "int \<Rightarrow> bool" where
  "in_i64 v \<longleftrightarrow> i64_min \<le> v \<and> v \<le> i64_max"

definition in_i128 :: "int \<Rightarrow> bool" where
  "in_i128 v \<longleftrightarrow> i128_min \<le> v \<and> v \<le> i128_max"

definition checked_i64 :: "int \<Rightarrow> int option" where
  "checked_i64 v = (if in_i64 v then Some v else None)"

definition checked_i128 :: "int \<Rightarrow> int option" where
  "checked_i128 v = (if in_i128 v then Some v else None)"

lemma checked_i128_Some_iff: "checked_i128 v = Some w \<longleftrightarrow> w = v \<and> in_i128 v"
  by (auto simp: checked_i128_def)

text \<open>An optional leading sign, as \<open>from_str\<close> of the signed types and of \<open>f64\<close> takes it.\<close>

fun split_sign :: "string \<Rightarrow> bool \<times> string" where
  "split_sign [] = (False, [])"
| "split_sign (c # s) =
     (if c = CHR ''-'' then (True, s) else if c = CHR ''+'' then (False, s) else (False, c # s))"

definition parse_i64 :: "string \<Rightarrow> int option" where
  "parse_i64 s =
     (let (neg, ds) = split_sign s in
      if ds = [] \<or> \<not> all_digits ds then None
      else checked_i64 (if neg then - int (digits_value ds) else int (digits_value ds)))"

text \<open>\<open>parse::<u8>()\<close> on a string that is already known to be ASCII digits.\<close>

definition parse_u8_digits :: "string \<Rightarrow> nat option" where
  "parse_u8_digits s =
     (if s = [] \<or> \<not> all_digits s then None
      else if digits_value s \<le> 255 then Some (digits_value s) else None)"

lemma parse_i64_shape:
  "parse_i64 s = Some v \<Longrightarrow> \<exists>neg ds. split_sign s = (neg, ds) \<and> ds \<noteq> [] \<and> all_digits ds
     \<and> v = (if neg then - int (digits_value ds) else int (digits_value ds)) \<and> in_i64 v"
  by (auto simp: parse_i64_def checked_i64_def split: prod.splits if_splits)

end
