(* ===== verification/Std_Float.thy ===== *)
theory Std_Float
  imports Std_Text
begin

section \<open>\<open>f64\<close>: values and \<open>parse::<f64>()\<close>\<close>

text \<open>
  A finite binary64 value is a sign, a significand below \<open>2 ^ 53\<close> and a binary exponent
  of at least \<open>-1074\<close>: \<open>F64_Finite neg m e\<close> stands for \<open>(-1)^neg * m * 2 powi e\<close>. Parsing
  and the integer casts round to nearest, ties to even, and overflow to infinity, as the
  standard library documents for \<open>f64::from_str\<close> and \<open>as f64\<close>.
\<close>

datatype f64 = F64_NaN | F64_Inf bool | F64_Finite bool nat int

definition f64_is_finite :: "f64 \<Rightarrow> bool" where
  "f64_is_finite x = (case x of F64_Finite _ _ _ \<Rightarrow> True | _ \<Rightarrow> False)"

function nlog2 :: "nat \<Rightarrow> nat" where
  "nlog2 n = (if n < 2 then 0 else Suc (nlog2 (n div 2)))"
  by pat_completeness auto
termination
  by (relation "measure id") auto

declare nlog2.simps [simp del]

text \<open>\<open>n / d\<close> scaled by \<open>2 powi (- e)\<close>, as a numerator and a denominator.\<close>

definition scale_ratio :: "nat \<Rightarrow> nat \<Rightarrow> int \<Rightarrow> nat \<times> nat" where
  "scale_ratio n d e = (if 0 \<le> e then (n, d * 2 ^ nat e) else (n * 2 ^ nat (- e), d))"

text \<open>
  The exponent of the last place for \<open>n / d\<close>: the one that leaves a 53-bit integer part,
  or the subnormal minimum.
\<close>

definition ulp_exponent :: "nat \<Rightarrow> nat \<Rightarrow> int" where
  "ulp_exponent n d =
     (let e0 = int (nlog2 n) - int (nlog2 d) - 52;
          (p, q) = scale_ratio n d e0;
          e1 = (if p < q * 2 ^ 52 then e0 - 1 else e0)
      in max e1 (- 1074))"

definition round_half_even :: "nat \<Rightarrow> nat \<Rightarrow> nat" where
  "round_half_even p q =
     (let m = p div q; r = p mod q in
      if q < 2 * r \<or> (2 * r = q \<and> odd m) then m + 1 else m)"

definition f64_of_ratio :: "bool \<Rightarrow> nat \<Rightarrow> nat \<Rightarrow> f64" where
  "f64_of_ratio neg n d =
     (if n = 0 then F64_Finite neg 0 0
      else
        let e = ulp_exponent n d;
            (p, q) = scale_ratio n d e;
            m = round_half_even p q;
            (m', e') = (if m = 2 ^ 53 then (2 ^ 52, e + 1) else (m, e))
        in if 971 < e' then F64_Inf neg else F64_Finite neg m' e')"

text \<open>\<open>n as f64\<close> for an integer \<open>n\<close>.\<close>

definition f64_of_int :: "int \<Rightarrow> f64" where
  "f64_of_int v = f64_of_ratio (v < 0) (nat \<bar>v\<bar>) 1"

subsection \<open>The accepted grammar\<close>

text \<open>
  An optional sign; then digits with at most one point and at least one digit in all, with
  an optional exponent; or, in any letter case, \<open>inf\<close>, \<open>infinity\<close> or \<open>nan\<close>. The
  accumulated exponent stops growing once it reaches \<open>0x10000\<close>.
\<close>

definition exponent_value :: "string \<Rightarrow> int" where
  "exponent_value ds =
     int (fold (\<lambda>c acc. if acc < 65536 then 10 * acc + digit_value c else acc) ds 0)"

fun parse_exponent :: "string \<Rightarrow> int option" where
  "parse_exponent [] = Some 0"
| "parse_exponent (c # s) =
     (if c = CHR ''e'' \<or> c = CHR ''E''
      then (let (neg, ds) = split_sign s in
            if ds = [] \<or> \<not> all_digits ds then None
            else Some (if neg then - exponent_value ds else exponent_value ds))
      else None)"

definition f64_of_decimal :: "bool \<Rightarrow> nat \<Rightarrow> int \<Rightarrow> f64" where
  "f64_of_decimal neg digits e10 =
     (if 0 \<le> e10 then f64_of_ratio neg (digits * 10 ^ nat e10) 1
      else f64_of_ratio neg digits (10 ^ nat (- e10)))"

definition to_ascii_lowercase :: "char \<Rightarrow> char" where
  "to_ascii_lowercase c = (if 65 \<le> byte c \<and> byte c \<le> 90 then char_of (byte c + 32) else c)"

definition parse_f64 :: "string \<Rightarrow> f64 option" where
  "parse_f64 s =
     (let (neg, body) = split_sign s;
          int_part = takeWhile is_ascii_digit body;
          rest = dropWhile is_ascii_digit body;
          (frac_part, tail) =
            (case rest of
               [] \<Rightarrow> ([], [])
             | c # r \<Rightarrow> if c = CHR ''.'' then (takeWhile is_ascii_digit r, dropWhile is_ascii_digit r)
                       else ([], rest));
          lower = map to_ascii_lowercase body
      in case (if int_part = [] \<and> frac_part = [] then None else parse_exponent tail) of
           Some e \<Rightarrow> Some (f64_of_decimal neg (digits_value (int_part @ frac_part)) (e - int (length frac_part)))
         | None \<Rightarrow>
             if lower = ''nan'' then Some F64_NaN
             else if lower = ''inf'' \<or> lower = ''infinity'' then Some (F64_Inf neg)
             else None)"

text \<open>\<open>parse::<f64>().ok().filter(|v| v.is_finite())\<close>\<close>

definition parse_finite_f64 :: "string \<Rightarrow> f64 option" where
  "parse_finite_f64 s =
     (case parse_f64 s of Some x \<Rightarrow> if f64_is_finite x then Some x else None | None \<Rightarrow> None)"

subsection \<open>Every 64-bit integer is a finite \<open>f64\<close>\<close>

lemma nlog2_less: "n < 2 ^ k \<Longrightarrow> 0 < k \<Longrightarrow> nlog2 n < k"
proof (induction n arbitrary: k rule: nlog2.induct)
  case (1 n)
  show ?case
  proof (cases "n < 2")
    case True
    then show ?thesis using 1 by (simp add: nlog2.simps [of n])
  next
    case False
    then obtain j where k: "k = Suc j" using 1(3) by (cases k) auto
    have "0 < j" using 1(2) False k by (cases j) auto
    moreover have "n div 2 < 2 ^ j" using 1(2) k by (simp add: less_mult_imp_div_less mult.commute)
    ultimately show ?thesis using False k 1(1) [of j] by (simp add: nlog2.simps [of n])
  qed
qed

lemma ulp_exponent_le: "n < 2 ^ 64 \<Longrightarrow> ulp_exponent n 1 \<le> 11"
  using nlog2_less [of n 64] by (auto simp: ulp_exponent_def Let_def split: prod.splits)

lemma f64_of_ratio_finite: "n < 2 ^ 64 \<Longrightarrow> f64_is_finite (f64_of_ratio neg n 1)"
  using ulp_exponent_le [of n]
  by (auto simp: f64_of_ratio_def f64_is_finite_def Let_def split: prod.splits if_splits)

lemma takeWhile_all_digits [simp]: "all_digits s \<Longrightarrow> takeWhile is_ascii_digit s = s"
  by (simp add: all_digits_def list_all_iff)

lemma dropWhile_all_digits [simp]: "all_digits s \<Longrightarrow> dropWhile is_ascii_digit s = []"
  by (simp add: all_digits_def list_all_iff)

lemma parse_i64_parse_f64:
  assumes "parse_i64 s = Some v"
  shows "\<exists>neg. parse_f64 s = Some (f64_of_ratio neg (nat \<bar>v\<bar>) 1)"
proof -
  obtain neg ds where sh: "split_sign s = (neg, ds)" "ds \<noteq> []" "all_digits ds"
    "v = (if neg then - int (digits_value ds) else int (digits_value ds))"
    using parse_i64_shape [OF assms] by auto
  then have "parse_f64 s = Some (f64_of_ratio neg (digits_value ds) 1)"
    by (simp add: parse_f64_def f64_of_decimal_def)
  moreover have "nat \<bar>v\<bar> = digits_value ds" using sh(4) by auto
  ultimately show ?thesis by auto
qed

lemma parse_i64_parse_finite_f64:
  assumes "parse_i64 s = Some v"
  shows "\<exists>x. parse_finite_f64 s = Some x"
proof -
  have "in_i64 v" using parse_i64_shape [OF assms] by auto
  then have "nat \<bar>v\<bar> < 2 ^ 64"
    by (auto simp: in_i64_def i64_min_def i64_max_def)
  then show ?thesis
    using parse_i64_parse_f64 [OF assms] f64_of_ratio_finite
    by (auto simp: parse_finite_f64_def)
qed

end
