(* ===== verification/Json.thy ===== *)
theory Json
  imports Std_Float
begin

section \<open>JSON values\<close>

text \<open>
  \<open>serde_json::Value\<close> as \<open>src/\<close> takes it apart: the six kinds its \<open>match\<close>es name, a
  number that is an unsigned, a negative or a floating value, and an object that keeps
  insertion order (the \<open>preserve_order\<close> feature of \<open>Cargo.toml\<close>), modelled as an
  association list with distinct keys. The integer payloads are 64-bit words, so no
  number outside the ranges of \<open>u64\<close> and \<open>i64\<close> can be written down.
\<close>

datatype number = PosInt "64 word" | NegInt "64 word" | Float f64

datatype json =
    JNull
  | JBool bool
  | JNum number
  | JStr string
  | JArr "json list"
  | JObj "(string \<times> json) list"

type_synonym json_object = "(string \<times> json) list"

subsection \<open>Numbers\<close>

fun as_i64 :: "number \<Rightarrow> int option" where
  "as_i64 (PosInt w) = (if uint w \<le> i64_max then Some (uint w) else None)"
| "as_i64 (NegInt w) = Some (sint w)"
| "as_i64 (Float _) = None"

fun as_u64 :: "number \<Rightarrow> int option" where
  "as_u64 (PosInt w) = Some (uint w)"
| "as_u64 (NegInt _) = None"
| "as_u64 (Float _) = None"

fun as_f64 :: "number \<Rightarrow> f64 option" where
  "as_f64 (PosInt w) = Some (f64_of_int (uint w))"
| "as_f64 (NegInt w) = Some (f64_of_int (sint w))"
| "as_f64 (Float x) = Some x"

definition is_i64 :: "number \<Rightarrow> bool" where
  "is_i64 n = (as_i64 n \<noteq> None)"

definition json_nat :: "nat \<Rightarrow> json" where
  "json_nat n = JNum (PosInt (of_nat n))"

lemma as_f64_total: "\<exists>x. as_f64 n = Some x"
  by (cases n) auto

lemma as_u64_json_nat: "n < 2 ^ 64 \<Longrightarrow> as_u64 (PosInt (of_nat n)) = Some (int n)"
  by (simp add: uint_nat unat_of_nat)

subsection \<open>Objects\<close>

definition obj_get :: "json_object \<Rightarrow> string \<Rightarrow> json option" where
  "obj_get = map_of"

text \<open>\<open>Map::insert\<close>: an existing key keeps its place and takes the new value.\<close>

fun obj_insert :: "string \<Rightarrow> json \<Rightarrow> json_object \<Rightarrow> json_object" where
  "obj_insert k v [] = [(k, v)]"
| "obj_insert k v ((k', v') # o') = (if k = k' then (k, v) # o' else (k', v') # obj_insert k v o')"

definition obj_of_list :: "(string \<times> json) list \<Rightarrow> json_object" where
  "obj_of_list kvs = fold (\<lambda>(k, v). obj_insert k v) kvs []"

text \<open>\<open>value[key] = v\<close> on an object (a null becomes an object first; other kinds panic).\<close>

fun json_set :: "json \<Rightarrow> string \<Rightarrow> json \<Rightarrow> json" where
  "json_set (JObj kvs) k v = JObj (obj_insert k v kvs)"
| "json_set JNull k v = JObj [(k, v)]"
| "json_set other k v = other"

fun json_get :: "json \<Rightarrow> string \<Rightarrow> json option" where
  "json_get (JObj kvs) k = obj_get kvs k"
| "json_get other k = None"

definition json_opt :: "('a \<Rightarrow> json) \<Rightarrow> 'a option \<Rightarrow> json" where
  "json_opt f x = (case x of None \<Rightarrow> JNull | Some v \<Rightarrow> f v)"

lemma obj_get_insert: "obj_get (obj_insert k v kvs) k' = (if k = k' then Some v else obj_get kvs k')"
  by (induction kvs) (auto simp: obj_get_def)

lemma fst_obj_insert: "map fst (obj_insert k v kvs) = map fst kvs @ (if k \<in> set (map fst kvs) then [] else [k])"
  by (induction kvs) (auto simp del: set_map)

lemma distinct_obj_insert: "distinct (map fst kvs) \<Longrightarrow> distinct (map fst (obj_insert k v kvs))"
  by (simp add: fst_obj_insert)

lemma distinct_obj_fold:
  "distinct (map fst o') \<Longrightarrow> distinct (map fst (fold (\<lambda>(k, v). obj_insert k v) kvs o'))"
  by (induction kvs arbitrary: o') (auto simp: distinct_obj_insert)

lemma obj_get_fold:
  "obj_get (fold (\<lambda>(k, v). obj_insert k v) kvs o') k =
     (case map_of (rev kvs) k of Some v \<Rightarrow> Some v | None \<Rightarrow> obj_get o' k)"
  by (induction kvs arbitrary: o')
     (auto simp: obj_get_insert map_add_def split: option.splits)

lemma obj_get_of_list: "obj_get (obj_of_list kvs) k = map_of (rev kvs) k"
  by (simp add: obj_of_list_def obj_get_fold) (simp add: obj_get_def split: option.splits)

lemma json_get_set:
  "json_get (json_set (JObj kvs) k v) k' = (if k = k' then Some v else obj_get kvs k')"
  by (simp add: obj_get_insert)

subsection \<open>Messages\<close>

text \<open>
  A message that the code builds with \<open>format!\<close> is the list of its parts: literal text,
  a string shown with \<open>{}\<close>, a string shown with \<open>{:?}\<close>, an unsigned number, and the
  \<open>Display\<close> of a JSON value.
\<close>

datatype piece = Lit string | Txt string | Dbg string | Num nat | Jsn json

type_synonym msg = "piece list"

text \<open>\<open>[..].join(sep)\<close> of messages.\<close>

definition join_msgs :: "string \<Rightarrow> msg list \<Rightarrow> msg" where
  "join_msgs sep ms = (case ms of [] \<Rightarrow> [] | m # rest \<Rightarrow> m @ concat (map (\<lambda>x. Lit sep # x) rest))"

definition hex_digit :: "nat \<Rightarrow> char" where
  "hex_digit d = (if d < 10 then char_of (48 + d) else char_of (87 + d))"

fun show_hex :: "nat \<Rightarrow> string" where
  "show_hex n = (if n < 16 then [hex_digit n] else [hex_digit (n div 16 mod 16), hex_digit (n mod 16)])"

text \<open>
  \<open>Debug\<close> of a byte of a string: the escapes of \<open>char::escape_debug\<close> for ASCII; the
  bytes of a non-ASCII character pass through, as they do for printable characters.
\<close>

definition debug_byte :: "char \<Rightarrow> string" where
  "debug_byte c =
     (let n = byte c in
      if n = 34 then [char_of (92::nat), c]
      else if n = 92 then [c, c]
      else if n = 10 then [char_of (92::nat), CHR ''n'']
      else if n = 13 then [char_of (92::nat), CHR ''r'']
      else if n = 9 then [char_of (92::nat), CHR ''t'']
      else if n = 0 then [char_of (92::nat), CHR ''0'']
      else if n < 32 \<or> n = 127 then [char_of (92::nat)] @ ''u{'' @ show_hex n @ ''}''
      else [c])"

definition debug_str :: "string \<Rightarrow> string" where
  "debug_str s = [char_of (34::nat)] @ concat (map debug_byte s) @ [char_of (34::nat)]"

fun render_piece :: "(json \<Rightarrow> string) \<Rightarrow> piece \<Rightarrow> string" where
  "render_piece show_json (Lit s) = s"
| "render_piece show_json (Txt s) = s"
| "render_piece show_json (Dbg s) = debug_str s"
| "render_piece show_json (Num n) = show_nat n"
| "render_piece show_json (Jsn j) = show_json j"

definition render_msg :: "(json \<Rightarrow> string) \<Rightarrow> msg \<Rightarrow> string" where
  "render_msg show_json m = concat (map (render_piece show_json) m)"

end
