(* ===== verification/Schema_Types.thy ===== *)
theory Schema_Types
  imports Json
begin

section \<open>The observation lattice and the field types\<close>

text \<open>
  \<open>InferredType\<close> and \<open>FieldType\<close> of \<open>src/schema.rs\<close>: the lattice that folds a
  column's observed values, the vocabulary of materialized column types, their
  canonical names and the parser of those names, and the observation rules of CSV text
  and JSON values.
\<close>

datatype inferred_type = I_Null | I_Boolean | I_Int64 | I_Float64 | I_Utf8

datatype field_type =
    Boolean | Int64 | Float64 | Utf8 | Timestamp | Timestamptz
  | Decimal (precision: nat) (scale: nat)

subsection \<open>The lattice\<close>

fun merge_types :: "inferred_type \<Rightarrow> inferred_type \<Rightarrow> inferred_type" where
  "merge_types I_Null other = other"
| "merge_types current I_Null = current"
| "merge_types current other =
     (if current = other then current
      else if current = I_Int64 \<and> other = I_Float64 then I_Float64
      else if current = I_Float64 \<and> other = I_Int64 then I_Float64
      else I_Utf8)"

fun inferred_field_type :: "inferred_type \<Rightarrow> field_type" where
  "inferred_field_type I_Null = Utf8"
| "inferred_field_type I_Utf8 = Utf8"
| "inferred_field_type I_Boolean = Boolean"
| "inferred_field_type I_Int64 = Int64"
| "inferred_field_type I_Float64 = Float64"

fun lattice_type :: "field_type \<Rightarrow> inferred_type option" where
  "lattice_type Boolean = Some I_Boolean"
| "lattice_type Int64 = Some I_Int64"
| "lattice_type Float64 = Some I_Float64"
| "lattice_type Utf8 = Some I_Utf8"
| "lattice_type Timestamp = None"
| "lattice_type Timestamptz = None"
| "lattice_type (Decimal _ _) = None"

definition fits_expected_type :: "inferred_type \<Rightarrow> field_type \<Rightarrow> bool" where
  "fits_expected_type observed expected =
     (case lattice_type expected of
        Some lattice_expected \<Rightarrow> merge_types observed lattice_expected = lattice_expected
      | None \<Rightarrow> False)"

lemma merge_types_Null_right [simp]: "merge_types t I_Null = t"
  by (cases t) auto

lemma merge_types_idem [simp]: "merge_types t t = t"
  by (cases t) auto

lemma merge_types_comm: "merge_types s t = merge_types t s"
  by (cases s; cases t) auto

lemma merge_types_assoc: "merge_types (merge_types s t) u = merge_types s (merge_types t u)"
  by (cases s; cases t; cases u) auto

interpretation merge_lattice: semilattice_neutr merge_types I_Null
  by unfold_locales
    (rule merge_types_assoc merge_types_comm merge_types_idem merge_types_Null_right)+

text \<open>The order of the lattice: \<open>s\<close> widens to \<open>t\<close>.\<close>

definition widens :: "inferred_type \<Rightarrow> inferred_type \<Rightarrow> bool" where
  "widens s t \<longleftrightarrow> merge_types s t = t"

lemma widens_refl [simp]: "widens t t"
  by (simp add: widens_def)

lemma widens_trans: "widens s t \<Longrightarrow> widens t u \<Longrightarrow> widens s u"
  by (cases s; cases t; cases u) (auto simp: widens_def)

lemma widens_merge_left [simp]: "widens s (merge_types s t)"
  by (cases s; cases t) (auto simp: widens_def)

lemma widens_merge_right [simp]: "widens t (merge_types s t)"
  by (cases s; cases t) (auto simp: widens_def)

lemma widens_lub: "widens s u \<Longrightarrow> widens t u \<Longrightarrow> widens (merge_types s t) u"
  by (cases s; cases t; cases u) (auto simp: widens_def)

lemma merge_types_left_comm: "merge_types s (merge_types t u) = merge_types t (merge_types s u)"
  by (metis merge_types_assoc merge_types_comm)

lemma widens_antisym: "widens s t \<Longrightarrow> widens t s \<Longrightarrow> s = t"
  by (metis merge_types_comm widens_def)

lemma widens_Null [simp]: "widens I_Null t"
  by (simp add: widens_def)

text \<open>The lattice as an instance of the library's semilattices.\<close>

instantiation inferred_type :: bounded_semilattice_sup_bot
begin

definition bot_inferred_type where "bot_inferred_type = I_Null"
definition sup_inferred_type where "sup_inferred_type = merge_types"
definition less_eq_inferred_type where "less_eq_inferred_type = widens"
definition less_inferred_type where "less_inferred_type s t \<longleftrightarrow> widens s t \<and> \<not> widens t s"

instance
  by standard (auto simp: bot_inferred_type_def sup_inferred_type_def less_eq_inferred_type_def
      less_inferred_type_def widens_lub intro: widens_trans widens_antisym)

end

lemma fits_inferred_field_type: "widens s t \<Longrightarrow> t \<noteq> I_Null \<Longrightarrow> fits_expected_type s (inferred_field_type t)"
  by (cases s; cases t) (auto simp: widens_def fits_expected_type_def)

lemma fits_expected_Some:
  "fits_expected_type s ft \<longleftrightarrow> (\<exists>t. lattice_type ft = Some t \<and> widens s t)"
  by (cases ft) (auto simp: fits_expected_type_def widens_def)

subsection \<open>Type names\<close>

definition parse_canonical_u8 :: "string \<Rightarrow> nat option" where
  "parse_canonical_u8 text =
     (if text = [] \<or> \<not> all_digits text then None
      else if 1 < length text \<and> hd text = CHR ''0'' then None
      else parse_u8_digits text)"

definition parse_decimal_type_name :: "string \<Rightarrow> field_type option" where
  "parse_decimal_type_name name = do {
     rest \<leftarrow> strip_prefix ''decimal('' name;
     parameters \<leftarrow> strip_suffix_char (CHR '')'') rest;
     (precision_text, scale_text) \<leftarrow> split_once (CHR '','') parameters;
     p \<leftarrow> parse_canonical_u8 precision_text;
     s \<leftarrow> parse_canonical_u8 scale_text;
     (if \<not> (1 \<le> p \<and> p \<le> 38) \<or> p < s then None else Some (Decimal p s))
   }"

definition parse_type_name :: "string \<Rightarrow> field_type option" where
  "parse_type_name name =
     (if name = ''boolean'' then Some Boolean
      else if name = ''int64'' then Some Int64
      else if name = ''float64'' then Some Float64
      else if name = ''utf8'' then Some Utf8
      else if name = ''timestamp'' then Some Timestamp
      else if name = ''timestamptz'' then Some Timestamptz
      else parse_decimal_type_name name)"

fun type_name :: "field_type \<Rightarrow> string" where
  "type_name Boolean = ''boolean''"
| "type_name Int64 = ''int64''"
| "type_name Float64 = ''float64''"
| "type_name Utf8 = ''utf8''"
| "type_name Timestamp = ''timestamp''"
| "type_name Timestamptz = ''timestamptz''"
| "type_name (Decimal p s) = ''decimal('' @ show_nat p @ '','' @ show_nat s @ '')''"

text \<open>The types a declaration can spell (ADR-0044).\<close>

fun field_type_ok :: "field_type \<Rightarrow> bool" where
  "field_type_ok (Decimal p s) = (1 \<le> p \<and> p \<le> 38 \<and> s \<le> p)"
| "field_type_ok _ = True"

lemma inferred_field_type_ok [simp]: "field_type_ok (inferred_field_type t)"
  by (cases t) auto

lemma not_digit_comma [simp]: "\<not> is_ascii_digit (CHR '','')"
  by (simp add: is_ascii_digit_def byte_def)

lemma digits_no_comma: "all_digits s \<Longrightarrow> CHR '','' \<notin> set s"
  by (auto simp: all_digits_def list_all_iff)

lemma zero_char: "CHR ''0'' = digit_char 0"
  by (simp add: byte_inject [symmetric] digit_char_def) (simp add: byte_def)

lemma parse_canonical_show_nat:
  assumes "n \<le> 255"
  shows "parse_canonical_u8 (show_nat n) = Some n"
proof -
  have "length (show_nat n) = 1" if "hd (show_nat n) = CHR ''0''"
    using that hd_show_nat [of n] by (simp add: zero_char show_nat.simps [of 0])
  then show ?thesis
    using assms by (auto simp: parse_canonical_u8_def parse_u8_digits_def)
qed

lemma show_nat_digits_value:
  "all_digits s \<Longrightarrow> s \<noteq> [] \<Longrightarrow> (1 < length s \<longrightarrow> hd s \<noteq> CHR ''0'') \<Longrightarrow> show_nat (digits_value s) = s"
proof (induction s rule: rev_induct)
  case (snoc c s)
  have dc: "is_ascii_digit c" and ds: "all_digits s" using snoc.prems by auto
  have c10: "digit_value c < 10" by (rule digit_value_less [OF dc])
  have v: "digits_value (s @ [c]) = 10 * digits_value s + digit_value c"
    by (simp add: digits_value_append digits_value_Cons)
  show ?case
  proof (cases "s = []")
    case True
    then show ?thesis using c10 v digit_char_digit_value [OF dc]
      by (simp add: show_nat.simps [of "digit_value c"])
  next
    case False
    then have IH: "show_nat (digits_value s) = s"
      using snoc ds by (cases s) auto
    have "digits_value s \<noteq> 0"
    proof
      assume "digits_value s = 0"
      then have "s = [digit_char 0]" using IH by (simp add: show_nat.simps [of 0])
      then show False using snoc.prems(3) by (simp add: zero_char)
    qed
    then have "\<not> digits_value (s @ [c]) < 10" using v by simp
    then show ?thesis
      using v c10 IH digit_char_digit_value [OF dc]
        show_nat.simps [of "10 * digits_value s + digit_value c"]
      by simp
  qed
qed simp

lemma parse_canonical_SomeD:
  "parse_canonical_u8 s = Some n \<Longrightarrow> show_nat n = s \<and> n \<le> 255"
  by (auto simp: parse_canonical_u8_def parse_u8_digits_def show_nat_digits_value split: if_splits)

lemma parse_decimal_type_name_show:
  "field_type_ok (Decimal p s) \<Longrightarrow> parse_decimal_type_name (type_name (Decimal p s)) = Some (Decimal p s)"
  by (auto simp: parse_decimal_type_name_def strip_prefix_def strip_suffix_char_def butlast_append
      split_once_append digits_no_comma parse_canonical_show_nat)

lemma parse_type_name_type_name:
  "field_type_ok ft \<Longrightarrow> parse_type_name (type_name ft) = Some ft"
proof (cases ft)
  case (Decimal p s)
  assume "field_type_ok ft"
  then show ?thesis using Decimal parse_decimal_type_name_show [of p s]
    by (simp add: parse_type_name_def)
qed (simp_all add: parse_type_name_def)

lemma parse_decimal_type_nameD:
  assumes "parse_decimal_type_name name = Some ft"
  shows "type_name ft = name \<and> field_type_ok ft"
proof -
  obtain rest params pt st p s where
    1: "strip_prefix ''decimal('' name = Some rest" and
    2: "strip_suffix_char (CHR '')'') rest = Some params" and
    3: "split_once (CHR '','') params = Some (pt, st)" and
    4: "parse_canonical_u8 pt = Some p" "parse_canonical_u8 st = Some s" and
    5: "1 \<le> p" "p \<le> 38" "s \<le> p" "ft = Decimal p s"
    using assms by (auto simp: parse_decimal_type_name_def split: bind_splits if_splits)
  have "name = ''decimal('' @ rest"
    by (rule strip_prefix_Some [OF 1])
  moreover have "rest = params @ '')''"
    by (rule strip_suffix_char_Some [OF 2])
  moreover have "params = pt @ '','' @ st"
    using split_once_Some [OF 3] by simp
  moreover have "show_nat p = pt" "show_nat s = st"
    using parse_canonical_SomeD [OF 4(1)] parse_canonical_SomeD [OF 4(2)] by blast+
  ultimately show ?thesis
    using 5 by simp
qed

lemma parse_type_nameD:
  "parse_type_name name = Some ft \<Longrightarrow> type_name ft = name \<and> field_type_ok ft"
  by (auto simp: parse_type_name_def split: if_splits dest: parse_decimal_type_nameD)

subsection \<open>Observing values\<close>

definition parse_bool :: "string \<Rightarrow> bool option" where
  "parse_bool value =
     (if value = ''true'' \<or> value = ''TRUE'' \<or> value = ''True'' then Some True
      else if value = ''false'' \<or> value = ''FALSE'' \<or> value = ''False'' then Some False
      else None)"

definition is_zero_padded :: "string \<Rightarrow> bool" where
  "is_zero_padded value =
     (case snd (split_sign value) of
        a # b # _ \<Rightarrow> a = CHR ''0'' \<and> is_ascii_digit b
      | _ \<Rightarrow> False)"

definition infer_text_type :: "string \<Rightarrow> inferred_type" where
  "infer_text_type value =
     (if parse_bool value \<noteq> None then I_Boolean
      else if is_zero_padded value then I_Utf8
      else if parse_i64 value \<noteq> None then I_Int64
      else if parse_finite_f64 value \<noteq> None then I_Float64
      else I_Utf8)"

fun infer_json_type :: "json \<Rightarrow> inferred_type" where
  "infer_json_type JNull = I_Null"
| "infer_json_type (JBool _) = I_Boolean"
| "infer_json_type (JNum n) = (if is_i64 n then I_Int64 else I_Float64)"
| "infer_json_type (JStr _) = I_Utf8"
| "infer_json_type (JArr _) = I_Utf8"
| "infer_json_type (JObj _) = I_Utf8"

lemma infer_text_not_null [simp]: "infer_text_type value \<noteq> I_Null"
  by (simp add: infer_text_type_def)

text \<open>What an observation promises the column builders.\<close>

lemma infer_text_Boolean: "infer_text_type v = I_Boolean \<Longrightarrow> parse_bool v \<noteq> None"
  by (auto simp: infer_text_type_def split: if_splits)

lemma infer_text_Int64: "infer_text_type v = I_Int64 \<Longrightarrow> parse_i64 v \<noteq> None"
  by (auto simp: infer_text_type_def split: if_splits)

lemma infer_text_Float64: "infer_text_type v = I_Float64 \<Longrightarrow> parse_finite_f64 v \<noteq> None"
  by (auto simp: infer_text_type_def split: if_splits)

lemma infer_text_numeric:
  "infer_text_type v = I_Int64 \<or> infer_text_type v = I_Float64 \<Longrightarrow> parse_finite_f64 v \<noteq> None"
  using infer_text_Float64 infer_text_Int64 parse_i64_parse_finite_f64 by fastforce

end
