(* ===== verification/Declared_Parse.thy ===== *)
theory Declared_Parse
  imports Schema_Types
begin

section \<open>Parsing the declared-only types\<close>

text \<open>
  The strict timestamp and decimal parsers of \<open>src/schema.rs\<close> (ADR-0043, ADR-0044).
  Calendar validity comes from the \<open>chrono\<close> crate, which is a parameter: the record
  \<open>chrono\<close> holds the three functions the code calls, over dates and times that the
  code passes through without looking inside.
\<close>

record ('d, 't) chrono =
  from_ymd_opt :: "nat \<Rightarrow> nat \<Rightarrow> nat \<Rightarrow> 'd option"
  from_hms_micro_opt :: "nat \<Rightarrow> nat \<Rightarrow> nat \<Rightarrow> nat \<Rightarrow> 't option"
  timestamp_micros :: "'d \<Rightarrow> 't \<Rightarrow> int"

subsection \<open>Timestamps\<close>

fun parse_fixed_digits_from :: "nat \<Rightarrow> string \<Rightarrow> nat option" where
  "parse_fixed_digits_from value [] = Some value"
| "parse_fixed_digits_from value (c # bytes) =
     (if \<not> is_ascii_digit c then None
      else parse_fixed_digits_from (value * 10 + digit_value c) bytes)"

definition parse_fixed_digits :: "string \<Rightarrow> nat option" where
  "parse_fixed_digits bytes = parse_fixed_digits_from 0 bytes"

text \<open>\<open>&bytes[a..b]\<close>\<close>

definition byte_slice :: "nat \<Rightarrow> nat \<Rightarrow> string \<Rightarrow> string" where
  "byte_slice a b s = take (b - a) (drop a s)"

definition parse_fraction :: "string \<Rightarrow> (nat \<times> nat) option" where
  "parse_fraction bytes =
     (if 19 < length bytes \<and> bytes ! 19 = CHR ''.'' then
        let digit_count = length (takeWhile is_ascii_digit (drop 20 bytes)) in
        if digit_count = 0 \<or> 6 < digit_count then None
        else do {
          fraction \<leftarrow> parse_fixed_digits (byte_slice 20 (20 + digit_count) bytes);
          Some (fraction * 10 ^ (6 - digit_count), 20 + digit_count)
        }
      else Some (0, 19))"

definition parse_datetime_prefix :: "('d, 't) chrono \<Rightarrow> string \<Rightarrow> (int \<times> string) option" where
  "parse_datetime_prefix C text =
     (if length text < 19 then None
      else do {
        year \<leftarrow> parse_fixed_digits (byte_slice 0 4 text);
        month \<leftarrow> parse_fixed_digits (byte_slice 5 7 text);
        day \<leftarrow> parse_fixed_digits (byte_slice 8 10 text);
        hour \<leftarrow> parse_fixed_digits (byte_slice 11 13 text);
        minute \<leftarrow> parse_fixed_digits (byte_slice 14 16 text);
        second \<leftarrow> parse_fixed_digits (byte_slice 17 19 text);
        (if text ! 4 \<noteq> CHR ''-'' \<or> text ! 7 \<noteq> CHR ''-''
             \<or> \<not> (text ! 10 = CHR '' '' \<or> text ! 10 = CHR ''T'' \<or> text ! 10 = CHR ''t'')
             \<or> text ! 13 \<noteq> CHR '':'' \<or> text ! 16 \<noteq> CHR '':''
         then None
         else do {
           (fraction_micros, offset_start) \<leftarrow> parse_fraction text;
           date \<leftarrow> from_ymd_opt C year month day;
           time \<leftarrow> from_hms_micro_opt C hour minute second fraction_micros;
           Some (timestamp_micros C date time, drop offset_start text)
         })
      })"

definition parse_offset_seconds :: "string \<Rightarrow> int option" where
  "parse_offset_seconds text =
     (if text = ''Z'' \<or> text = ''z'' then Some 0
      else if length text \<noteq> 6 \<or> text ! 3 \<noteq> CHR '':'' then None
      else do {
        sign \<leftarrow> (if text ! 0 = CHR ''+'' then Some (1::int)
                 else if text ! 0 = CHR ''-'' then Some (- 1) else None);
        hours \<leftarrow> parse_fixed_digits (byte_slice 1 3 text);
        minutes \<leftarrow> parse_fixed_digits (byte_slice 4 6 text);
        (if 23 < hours \<or> 59 < minutes then None
         else Some (sign * int (hours * 3600 + minutes * 60)))
      })"

definition parse_timestamp_micros :: "('d, 't) chrono \<Rightarrow> string \<Rightarrow> int option" where
  "parse_timestamp_micros C text = do {
     (micros, offset_text) \<leftarrow> parse_datetime_prefix C text;
     (if offset_text = [] then Some micros else None)
   }"

definition parse_timestamptz_micros :: "('d, 't) chrono \<Rightarrow> string \<Rightarrow> int option" where
  "parse_timestamptz_micros C text = do {
     (micros, offset_text) \<leftarrow> parse_datetime_prefix C text;
     offset_seconds \<leftarrow> parse_offset_seconds offset_text;
     offset_micros \<leftarrow> checked_i64 (offset_seconds * 1000000);
     checked_i64 (micros - offset_micros)
   }"

definition parse_declared_timestamp :: "('d, 't) chrono \<Rightarrow> string \<Rightarrow> field_type \<Rightarrow> int option" where
  "parse_declared_timestamp C value ft =
     (case ft of Timestamp \<Rightarrow> parse_timestamp_micros C value
      | Timestamptz \<Rightarrow> parse_timestamptz_micros C value
      | _ \<Rightarrow> None)"

subsection \<open>Decimals\<close>

fun accumulate_digits :: "int \<Rightarrow> string \<Rightarrow> int option" where
  "accumulate_digits scaled [] = Some scaled"
| "accumulate_digits scaled (c # s) = do {
     m \<leftarrow> checked_i128 (scaled * 10);
     a \<leftarrow> checked_i128 (m + int (digit_value c));
     accumulate_digits a s
   }"

fun scale_up :: "int \<Rightarrow> nat \<Rightarrow> int option" where
  "scale_up scaled 0 = Some scaled"
| "scale_up scaled (Suc n) = do { m \<leftarrow> checked_i128 (scaled * 10); scale_up m n }"

definition split_plain_decimal :: "string \<Rightarrow> (bool \<times> string \<times> string) option" where
  "split_plain_decimal text =
     (if text = [] then None
      else
        let (negative, unsigned) = split_sign text in
        (case (case split_once (CHR ''.'') unsigned of
                 Some (i, f) \<Rightarrow> if f = [] then None else Some (i, f)
               | None \<Rightarrow> Some (unsigned, [])) of
           None \<Rightarrow> None
         | Some (integer_digits, fraction_digits) \<Rightarrow>
             if integer_digits = [] \<or> \<not> all_digits integer_digits \<or> \<not> all_digits fraction_digits
             then None
             else Some (negative, integer_digits, fraction_digits)))"

definition bounded_decimal :: "int \<Rightarrow> nat \<Rightarrow> int option" where
  "bounded_decimal scaled prec =
     (let bound = 10 ^ prec in if - bound < scaled \<and> scaled < bound then Some scaled else None)"

definition parse_decimal_scaled :: "string \<Rightarrow> nat \<Rightarrow> nat \<Rightarrow> int option" where
  "parse_decimal_scaled text prec sc = do {
     (negative, integer_digits, fraction_digits) \<leftarrow> split_plain_decimal text;
     (if sc < length fraction_digits then None
      else do {
        digits \<leftarrow> accumulate_digits 0 (integer_digits @ fraction_digits);
        scaled \<leftarrow> scale_up digits (sc - length fraction_digits);
        bounded_decimal (if negative then - scaled else scaled) prec
      })
   }"

definition rescale_decimal_integer :: "int \<Rightarrow> nat \<Rightarrow> nat \<Rightarrow> int option" where
  "rescale_decimal_integer value prec sc = do {
     factor \<leftarrow> checked_i128 (10 ^ sc);
     scaled \<leftarrow> checked_i128 (value * factor);
     bounded_decimal scaled prec
   }"

subsection \<open>Digit runs\<close>

lemma parse_fixed_digits_eq:
  "parse_fixed_digits s = (if all_digits s then Some (digits_value s) else None)"
proof -
  have "parse_fixed_digits_from acc s =
          (if all_digits s then Some (digits_value_from acc s) else None)" for acc
    by (induction s arbitrary: acc) (auto simp: mult.commute)
  then show ?thesis by (simp add: parse_fixed_digits_def digits_value_def)
qed

text \<open>Zero-padded decimal text of a fixed width.\<close>

fun fixed_digits :: "nat \<Rightarrow> nat \<Rightarrow> string" where
  "fixed_digits 0 n = []"
| "fixed_digits (Suc w) n = fixed_digits w (n div 10) @ [digit_char (n mod 10)]"

lemma length_fixed_digits [simp]: "length (fixed_digits w n) = w"
  by (induction w arbitrary: n) auto

lemma all_digits_fixed [simp]: "all_digits (fixed_digits w n)"
  by (induction w arbitrary: n) auto

lemma digits_value_fixed: "n < 10 ^ w \<Longrightarrow> digits_value (fixed_digits w n) = n"
proof (induction w arbitrary: n)
  case (Suc w)
  then have "n div 10 < 10 ^ w" by (simp add: less_mult_imp_div_less mult.commute)
  with Suc show ?case by (simp add: digits_value_append digits_value_Cons)
qed simp

lemma fixed_digits_value: "all_digits s \<Longrightarrow> fixed_digits (length s) (digits_value s) = s"
proof (induction s rule: rev_induct)
  case (snoc c s)
  then have "is_ascii_digit c" "all_digits s" by auto
  with snoc show ?case
    using digit_value_less [of c]
    by (simp add: digits_value_append digits_value_Cons digit_char_digit_value)
qed simp

lemma all_digits_eq_fixed: "all_digits s \<Longrightarrow> length s = w \<Longrightarrow> s = fixed_digits w (digits_value s)"
  using fixed_digits_value by auto

subsection \<open>Decimal text is read exactly\<close>

lemma accumulate_digits_eq:
  "accumulate_digits (int a) s =
     (if int (digits_value_from a s) \<le> i128_max \<or> s = [] then Some (int (digits_value_from a s)) else None)"
proof (induction s arbitrary: a)
  case (Cons c s)
  let ?a' = "10 * a + digit_value c"
  have mono: "?a' \<le> digits_value_from ?a' s"
    using digits_value_from_eq [of ?a' s] by (simp add: le_add1 order_trans [of _ "?a' * 10 ^ length s"])
  have nn: "i128_min \<le> int x" for x by (simp add: i128_min_def)
  show ?case
  proof (cases "int ?a' \<le> i128_max")
    case True
    then have "checked_i128 (int a * 10) = Some (int a * 10)"
      "checked_i128 (int a * 10 + int (digit_value c)) = Some (int ?a')"
      using nn [of "10 * a"] nn [of ?a'] by (auto simp: checked_i128_def in_i128_def)
    then show ?thesis using Cons.IH [of ?a'] True by (cases s) auto
  next
    case False
    then have "accumulate_digits (int a) (c # s) = None"
      by (auto simp: checked_i128_def in_i128_def split: bind_splits)
    moreover have "\<not> int (digits_value_from ?a' s) \<le> i128_max" using False mono by linarith
    ultimately show ?thesis by simp
  qed
qed simp

lemma scale_up_eq:
  "scale_up (int a) n = (if int (a * 10 ^ n) \<le> i128_max \<or> n = 0 then Some (int (a * 10 ^ n)) else None)"
proof (induction n arbitrary: a)
  case (Suc n)
  have nn: "i128_min \<le> int x" for x by (simp add: i128_min_def)
  have mono: "a * 10 \<le> a * 10 * 10 ^ n" by simp
  show ?case
  proof (cases "int (a * 10) \<le> i128_max")
    case True
    then have "checked_i128 (int a * 10) = Some (int (a * 10))"
      using nn [of "a * 10"] by (auto simp: checked_i128_def in_i128_def)
    then show ?thesis using Suc.IH [of "a * 10"] True
      by (cases n) (auto simp: algebra_simps)
  next
    case False
    then have "scale_up (int a) (Suc n) = None"
      by (auto simp: checked_i128_def in_i128_def)
    moreover have "int (a * 10) \<le> int (a * 10 ^ Suc n)"
      by (rule of_nat_mono) (use mono in \<open>simp add: algebra_simps\<close>)
    then have "\<not> int (a * 10 ^ Suc n) \<le> i128_max" using False by linarith
    ultimately show ?thesis by simp
  qed
qed simp

lemma pow10_i128: "p \<le> 38 \<Longrightarrow> (10::int) ^ p \<le> i128_max"
proof -
  assume "p \<le> 38"
  then have "(10::int) ^ p \<le> 10 ^ 38" by (rule power_increasing) simp
  also have "\<dots> \<le> i128_max" by (simp add: i128_max_def)
  finally show ?thesis .
qed

lemma bounded_decimal_Some_iff: "bounded_decimal v p = Some w \<longleftrightarrow> w = v \<and> \<bar>v\<bar> < 10 ^ p"
  by (auto simp: bounded_decimal_def Let_def abs_less_iff)

lemma digits_scaled_eq:
  assumes "p \<le> 38"
  shows "(do { d \<leftarrow> accumulate_digits 0 ds; s \<leftarrow> scale_up d n;
               bounded_decimal (if neg then - s else s) p }) =
         bounded_decimal ((if neg then - 1 else 1) * int (digits_value ds * 10 ^ n)) p"
proof (cases "int (digits_value ds * 10 ^ n) \<le> i128_max")
  case True
  have "int (digits_value ds) \<le> int (digits_value ds * 10 ^ n)" by (rule of_nat_mono) simp
  then have "int (digits_value ds) \<le> i128_max" using True by linarith
  then have "accumulate_digits 0 ds = Some (int (digits_value ds))"
    using accumulate_digits_eq [of 0 ds] by (simp add: digits_value_def)
  with True show ?thesis using scale_up_eq [of "digits_value ds" n] by auto
next
  case False
  then have big: "\<not> \<bar>(if neg then - 1 else 1) * int (digits_value ds * 10 ^ n)\<bar> < 10 ^ p"
    using pow10_i128 [OF assms] by (auto simp: abs_mult)
  then have r: "bounded_decimal ((if neg then - 1 else 1) * int (digits_value ds * 10 ^ n)) p = None"
    by (metis bounded_decimal_Some_iff option.exhaust)
  have big': "\<not> \<bar>if neg then - int (digits_value ds * 10 ^ n) else int (digits_value ds * 10 ^ n)\<bar> < 10 ^ p"
    using big by (auto split: if_splits)
  have "accumulate_digits 0 ds = None \<or> accumulate_digits 0 ds = Some (int (digits_value ds))"
    using accumulate_digits_eq [of 0 ds] by (auto simp: digits_value_def split: if_splits)
  moreover have "scale_up (int (digits_value ds)) n = None \<or>
      scale_up (int (digits_value ds)) n = Some (int (digits_value ds * 10 ^ n))"
    using scale_up_eq [of "digits_value ds" n] by (auto split: if_splits)
  moreover have "bounded_decimal (if neg then - int (digits_value ds * 10 ^ n) else int (digits_value ds * 10 ^ n)) p = None"
    using big' by (metis bounded_decimal_Some_iff option.exhaust)
  ultimately show ?thesis using r by (auto simp del: of_nat_mult of_nat_power)
qed

lemma parse_decimal_scaled_eq:
  assumes "p \<le> 38"
  shows "parse_decimal_scaled text p s =
    (case split_plain_decimal text of
       None \<Rightarrow> None
     | Some (neg, i, f) \<Rightarrow>
         if s < length f then None
         else bounded_decimal ((if neg then - 1 else 1) * int (digits_value (i @ f) * 10 ^ (s - length f))) p)"
proof (cases "split_plain_decimal text")
  case (Some r)
  then obtain neg i f where r: "split_plain_decimal text = Some (neg, i, f)" by (cases r) auto
  show ?thesis
    using digits_scaled_eq [OF assms, where ds = "i @ f" and n = "s - length f" and neg = neg] r
    by (cases neg) (simp_all add: parse_decimal_scaled_def)
qed (simp add: parse_decimal_scaled_def)

lemma parse_decimal_scaled_bound:
  "p \<le> 38 \<Longrightarrow> parse_decimal_scaled text p s = Some v \<Longrightarrow> \<bar>v\<bar> < 10 ^ p"
  by (auto simp: parse_decimal_scaled_eq bounded_decimal_Some_iff split: option.splits if_splits)

lemma rescale_decimal_integer_eq:
  assumes "p \<le> 38" "s \<le> p"
  shows "rescale_decimal_integer v p s = bounded_decimal (v * 10 ^ s) p"
proof -
  have f: "checked_i128 (10 ^ s) = Some (10 ^ s)"
    using pow10_i128 [of s] assms
    by (auto simp: checked_i128_def in_i128_def i128_min_def intro: order_trans [of _ 0])
  show ?thesis
  proof (cases "\<bar>v * 10 ^ s\<bar> < 10 ^ p")
    case True
    then have "in_i128 (v * 10 ^ s)"
      using pow10_i128 [OF assms(1)] by (auto simp: in_i128_def i128_min_def i128_max_def abs_less_iff)
    then show ?thesis using f by (simp add: rescale_decimal_integer_def checked_i128_def)
  next
    case False
    then have "bounded_decimal (v * 10 ^ s) p = None"
      by (metis bounded_decimal_Some_iff option.exhaust)
    then show ?thesis using f by (simp add: rescale_decimal_integer_def checked_i128_def)
  qed
qed

subsection \<open>The clock menu\<close>

text \<open>
  Reference text of a clock reading: fixed-width fields, a separator, and a fraction when
  there is one. The parser accepts exactly these texts followed by an offset text, and
  reads back the fields they spell.
\<close>

definition clock_text ::
  "nat \<Rightarrow> nat \<Rightarrow> nat \<Rightarrow> char \<Rightarrow> nat \<Rightarrow> nat \<Rightarrow> nat \<Rightarrow> string \<Rightarrow> string" where
  "clock_text y mo d sep h mi s frac =
     fixed_digits 4 y @ ''-'' @ fixed_digits 2 mo @ ''-'' @ fixed_digits 2 d @ [sep]
     @ fixed_digits 2 h @ '':'' @ fixed_digits 2 mi @ '':'' @ fixed_digits 2 s
     @ (if frac = [] then [] else ''.'' @ frac)"

definition clock_fields_ok ::
  "nat \<Rightarrow> nat \<Rightarrow> nat \<Rightarrow> char \<Rightarrow> nat \<Rightarrow> nat \<Rightarrow> nat \<Rightarrow> string \<Rightarrow> string \<Rightarrow> bool" where
  "clock_fields_ok y mo d sep h mi s frac rest \<longleftrightarrow>
     y < 10000 \<and> mo < 100 \<and> d < 100 \<and> h < 100 \<and> mi < 100 \<and> s < 100
     \<and> (sep = CHR '' '' \<or> sep = CHR ''T'' \<or> sep = CHR ''t'')
     \<and> all_digits frac \<and> length frac \<le> 6
     \<and> (if frac = [] then rest = [] \<or> hd rest \<noteq> CHR ''.'' else rest = [] \<or> \<not> is_ascii_digit (hd rest))"

definition clock_value :: "('d, 't) chrono \<Rightarrow> nat \<Rightarrow> nat \<Rightarrow> nat \<Rightarrow> nat \<Rightarrow> nat \<Rightarrow> nat \<Rightarrow> string \<Rightarrow> int option" where
  "clock_value C y mo d h mi s frac = do {
     date \<leftarrow> from_ymd_opt C y mo d;
     time \<leftarrow> from_hms_micro_opt C h mi s (digits_value frac * 10 ^ (6 - length frac));
     Some (timestamp_micros C date time)
   }"

lemma takeWhile_digits_append:
  "all_digits f \<Longrightarrow> rest = [] \<or> \<not> is_ascii_digit (hd rest) \<Longrightarrow> takeWhile is_ascii_digit (f @ rest) = f"
  by (cases rest) (auto simp: all_digits_def list_all_iff takeWhile_append)

lemma parse_fraction_clock:
  assumes "length p = 19" "all_digits f" "length f \<le> 6"
    "if f = [] then rest = [] \<or> hd rest \<noteq> CHR ''.'' else rest = [] \<or> \<not> is_ascii_digit (hd rest)"
  shows "parse_fraction (p @ (if f = [] then [] else ''.'' @ f) @ rest) =
    Some (digits_value f * 10 ^ (6 - length f), 19 + (if f = [] then 0 else Suc (length f)))"
proof (cases "f = []")
  case True
  then show ?thesis using assms by (cases rest) (auto simp: parse_fraction_def nth_append)
next
  case False
  then have tw: "takeWhile is_ascii_digit (f @ rest) = f"
    using assms by (intro takeWhile_digits_append) auto
  have "byte_slice 20 (20 + length f) (p @ CHR ''.'' # f @ rest) = f"
    using assms(1) by (simp add: byte_slice_def)
  then show ?thesis
    using False assms(1-3) tw by (simp add: parse_fraction_def Let_def nth_append parse_fixed_digits_eq)
qed

lemma drop_append_append: "length p = a \<Longrightarrow> length f = b \<Longrightarrow> drop (a + b) (p @ f @ rest) = rest"
  by simp

lemma parse_datetime_prefix_clock:
  assumes "clock_fields_ok y mo d sep h mi s frac rest"
  shows "parse_datetime_prefix C (clock_text y mo d sep h mi s frac @ rest) =
    map_option (\<lambda>m. (m, rest)) (clock_value C y mo d h mi s frac)"
proof -
  let ?p = "fixed_digits 4 y @ ''-'' @ fixed_digits 2 mo @ ''-'' @ fixed_digits 2 d @ [sep]
     @ fixed_digits 2 h @ '':'' @ fixed_digits 2 mi @ '':'' @ fixed_digits 2 s"
  let ?text = "clock_text y mo d sep h mi s frac @ rest"
  have ok: "y < 10 ^ 4" "mo < 10 ^ 2" "d < 10 ^ 2" "h < 10 ^ 2" "mi < 10 ^ 2" "s < 10 ^ 2"
    using assms by (simp_all add: clock_fields_ok_def)
  have tx: "?text = ?p @ (if frac = [] then [] else ''.'' @ frac) @ rest"
    by (simp add: clock_text_def)
  have frac: "parse_fraction ?text =
      Some (digits_value frac * 10 ^ (6 - length frac), 19 + (if frac = [] then 0 else Suc (length frac)))"
    unfolding tx by (rule parse_fraction_clock) (use assms in \<open>auto simp: clock_fields_ok_def\<close>)
  have rest: "drop (19 + (if frac = [] then 0 else Suc (length frac))) ?text = rest"
    unfolding tx by (rule drop_append_append) simp_all
  have slices: "byte_slice 0 4 ?text = fixed_digits 4 y" "byte_slice 5 7 ?text = fixed_digits 2 mo"
      "byte_slice 8 10 ?text = fixed_digits 2 d" "byte_slice 11 13 ?text = fixed_digits 2 h"
      "byte_slice 14 16 ?text = fixed_digits 2 mi" "byte_slice 17 19 ?text = fixed_digits 2 s"
    by (simp_all add: clock_text_def byte_slice_def)
  have seps: "?text ! 4 = CHR ''-''" "?text ! 7 = CHR ''-''" "?text ! 10 = sep"
      "?text ! 13 = CHR '':''" "?text ! 16 = CHR '':''" "\<not> length ?text < 19"
    by (simp_all add: clock_text_def nth_append)
  have sep: "sep = CHR '' '' \<or> sep = CHR ''T'' \<or> sep = CHR ''t''"
    using assms by (simp add: clock_fields_ok_def)
  show ?thesis
    unfolding parse_datetime_prefix_def slices seps frac
    using ok sep rest seps(6)
    by (cases "from_ymd_opt C y mo d";
        cases "from_hms_micro_opt C h mi s (digits_value frac * 10 ^ (6 - length frac))")
      (simp_all add: parse_fixed_digits_eq digits_value_fixed clock_value_def)
qed

lemma digit_run_split:
  "\<exists>f rest. t = f @ rest \<and> f = takeWhile is_ascii_digit t \<and> all_digits f
     \<and> (rest = [] \<or> \<not> is_ascii_digit (hd rest))"
proof (intro exI conjI)
  show "t = takeWhile is_ascii_digit t @ dropWhile is_ascii_digit t" by simp
  show "all_digits (takeWhile is_ascii_digit t)"
    by (auto simp: all_digits_def list_all_iff dest: set_takeWhileD)
  show "dropWhile is_ascii_digit t = [] \<or> \<not> is_ascii_digit (hd (dropWhile is_ascii_digit t))"
    using hd_dropWhile [of is_ascii_digit t] by blast
qed simp

lemma parse_fractionD:
  assumes "parse_fraction (p @ t) = Some (fm, off)" "length p = 19"
  shows "\<exists>f rest. t = (if f = [] then [] else ''.'' @ f) @ rest \<and> drop off (p @ t) = rest
     \<and> all_digits f \<and> length f \<le> 6 \<and> fm = digits_value f * 10 ^ (6 - length f)
     \<and> (if f = [] then rest = [] \<or> hd rest \<noteq> CHR ''.'' else rest = [] \<or> \<not> is_ascii_digit (hd rest))"
proof (cases "t \<noteq> [] \<and> hd t = CHR ''.''")
  case True
  then obtain t' where t: "t = CHR ''.'' # t'" by (cases t) auto
  obtain f rest where f: "t' = f @ rest" "f = takeWhile is_ascii_digit t'" "all_digits f"
      "rest = [] \<or> \<not> is_ascii_digit (hd rest)"
    using digit_run_split [of t'] by blast
  have dr: "drop 20 (p @ t) = t'" using t assms(2) by simp
  have sl: "byte_slice 20 (20 + length f) (p @ t) = f"
    using t f(1) assms(2) by (simp add: byte_slice_def)
  have dot: "19 < length (p @ t) \<and> (p @ t) ! 19 = CHR ''.''" using t assms(2) by (simp add: nth_append)
  have "parse_fraction (p @ t) = (if length f = 0 \<or> 6 < length f then None
      else Some (digits_value f * 10 ^ (6 - length f), 20 + length f))"
    unfolding parse_fraction_def dr f(2) [symmetric] Let_def sl using dot f(3)
    by (simp add: parse_fixed_digits_eq)
  then have "f \<noteq> []" "length f \<le> 6" "fm = digits_value f * 10 ^ (6 - length f)" "off = 20 + length f"
    using assms(1) by (auto split: if_splits)
  moreover have "drop (20 + length f) (p @ t) = rest" using t f(1) assms(2) by simp
  ultimately show ?thesis
    using t f(1,3,4) by (intro exI [of _ f] exI [of _ rest]) simp
next
  case False
  then have "\<not> (19 < length (p @ t) \<and> (p @ t) ! 19 = CHR ''.'')"
    using assms(2) by (cases t) (auto simp: nth_append)
  then have "parse_fraction (p @ t) = Some (0, 19)"
    unfolding parse_fraction_def by (rule if_not_P)
  then have "fm = 0" "off = 19" using assms(1) by simp_all
  with False assms(2) show ?thesis
    by (intro exI [of _ "[]"] exI [of _ t]) auto
qed

lemma parse_fixed_digits_SomeD:
  "parse_fixed_digits s = Some n \<Longrightarrow> length s = w \<Longrightarrow> s = fixed_digits w n \<and> n < 10 ^ w"
  using all_digits_eq_fixed [of s w] digits_value_bound [of s]
  by (auto simp: parse_fixed_digits_eq split: if_splits)

lemma split_at_19:
  assumes "19 \<le> length x"
  shows "x = byte_slice 0 4 x @ [x ! 4] @ byte_slice 5 7 x @ [x ! 7] @ byte_slice 8 10 x @ [x ! 10]
     @ byte_slice 11 13 x @ [x ! 13] @ byte_slice 14 16 x @ [x ! 16] @ byte_slice 17 19 x @ drop 19 x"
proof -
  obtain p t where x: "x = p @ t" "length p = 19"
    using assms by (metis append_take_drop_id length_take min.absorb2)
  then show ?thesis
    by (auto simp: byte_slice_def numeral_eq_Suc length_Suc_conv)
qed

lemma parse_datetime_prefixD:
  assumes "parse_datetime_prefix C txt = Some (m, rest)"
  shows "\<exists>y mo d sep h mi s frac. txt = clock_text y mo d sep h mi s frac @ rest
     \<and> clock_fields_ok y mo d sep h mi s frac rest \<and> clock_value C y mo d h mi s frac = Some m"
proof -
  have len: "19 \<le> length txt" using assms by (auto simp: parse_datetime_prefix_def split: if_splits)
  obtain y mo d h mi s fm off date time where
    p: "parse_fixed_digits (byte_slice 0 4 txt) = Some y" "parse_fixed_digits (byte_slice 5 7 txt) = Some mo"
       "parse_fixed_digits (byte_slice 8 10 txt) = Some d" "parse_fixed_digits (byte_slice 11 13 txt) = Some h"
       "parse_fixed_digits (byte_slice 14 16 txt) = Some mi" "parse_fixed_digits (byte_slice 17 19 txt) = Some s"
    and seps: "txt ! 4 = CHR ''-''" "txt ! 7 = CHR ''-''" "txt ! 13 = CHR '':''" "txt ! 16 = CHR '':''"
       "txt ! 10 = CHR '' '' \<or> txt ! 10 = CHR ''T'' \<or> txt ! 10 = CHR ''t''"
    and fr: "parse_fraction txt = Some (fm, off)"
    and v: "from_ymd_opt C y mo d = Some date" "from_hms_micro_opt C h mi s fm = Some time"
       "m = timestamp_micros C date time" "rest = drop off txt"
    using assms by (auto simp: parse_datetime_prefix_def split: bind_splits if_splits)
  have "length (byte_slice 0 4 txt) = 4" "length (byte_slice 5 7 txt) = 2" "length (byte_slice 8 10 txt) = 2"
    "length (byte_slice 11 13 txt) = 2" "length (byte_slice 14 16 txt) = 2" "length (byte_slice 17 19 txt) = 2"
    using len by (simp_all add: byte_slice_def)
  then have f: "byte_slice 0 4 txt = fixed_digits 4 y \<and> y < 10 ^ 4"
    "byte_slice 5 7 txt = fixed_digits 2 mo \<and> mo < 10 ^ 2" "byte_slice 8 10 txt = fixed_digits 2 d \<and> d < 10 ^ 2"
    "byte_slice 11 13 txt = fixed_digits 2 h \<and> h < 10 ^ 2" "byte_slice 14 16 txt = fixed_digits 2 mi \<and> mi < 10 ^ 2"
    "byte_slice 17 19 txt = fixed_digits 2 s \<and> s < 10 ^ 2"
    using p by (blast dest: parse_fixed_digits_SomeD)+
  have "parse_fraction (take 19 txt @ drop 19 txt) = Some (fm, off)" using fr by simp
  then obtain frac r where r: "drop 19 txt = (if frac = [] then [] else ''.'' @ frac) @ r"
      "drop off txt = r" "all_digits frac" "length frac \<le> 6" "fm = digits_value frac * 10 ^ (6 - length frac)"
      "if frac = [] then r = [] \<or> hd r \<noteq> CHR ''.'' else r = [] \<or> \<not> is_ascii_digit (hd r)"
    using parse_fractionD [of "take 19 txt" "drop 19 txt" fm off] len by auto
  have "txt = clock_text y mo d (txt ! 10) h mi s frac @ rest"
    using split_at_19 [OF len] f r(1,2) v(4) seps by (simp add: clock_text_def)
  moreover have "clock_fields_ok y mo d (txt ! 10) h mi s frac rest"
    using f r seps v(4) by (simp add: clock_fields_ok_def)
  moreover have "clock_value C y mo d h mi s frac = Some m"
    using v r(5) by (simp add: clock_value_def)
  ultimately show ?thesis by blast
qed

end
