(* ===== verification/Declared_Facts.thy ===== *)
theory Declared_Facts
  imports Declared_Parse
begin

section \<open>The texts the declared-type parsers accept\<close>

text \<open>
  The decimal and timestamp parsers of \<open>src/schema.rs\<close> against the texts they read: a reader
  accepts exactly the texts spelled by some fields, with the value those fields have.
\<close>

subsection \<open>The text of a declared decimal\<close>

definition decimal_text :: "string \<Rightarrow> string \<Rightarrow> string \<Rightarrow> string" where
  "decimal_text sign i f = sign @ i @ (if f = [] then [] else CHR ''.'' # f)"

lemma digits_no_dot: "all_digits s \<Longrightarrow> CHR ''.'' \<notin> set s"
  by (auto simp: all_digits_def list_all_iff is_ascii_digit_def byte_def)

lemma digit_not_sign: "is_ascii_digit c \<Longrightarrow> c \<noteq> CHR ''-'' \<and> c \<noteq> CHR ''+''"
  by (auto simp: is_ascii_digit_def byte_def)

lemma split_sign_append:
  assumes "sign = [] \<or> sign = ''+'' \<or> sign = ''-''" "i \<noteq> []" "all_digits i"
  shows "split_sign (sign @ i @ r) = (sign = ''-'', i @ r)"
  using assms digit_not_sign [of "hd i"] by (cases i) (auto simp: all_digits_def)

lemma split_signD:
  "split_sign t = (neg, u) \<Longrightarrow>
   \<exists>sign. t = sign @ u \<and> (sign = [] \<or> sign = ''+'' \<or> sign = ''-'') \<and> neg = (sign = ''-'')"
  by (cases t) (auto split: if_splits)

lemma split_plain_decimal_text:
  assumes "sign = [] \<or> sign = ''+'' \<or> sign = ''-''" "i \<noteq> []" "all_digits i" "all_digits f"
  shows "split_plain_decimal (decimal_text sign i f) = Some (sign = ''-'', i, f)"
proof -
  let ?u = "i @ (if f = [] then [] else CHR ''.'' # f)"
  have "split_sign (decimal_text sign i f) = (sign = ''-'', ?u)"
    using split_sign_append [OF assms(1-3)] by (simp add: decimal_text_def)
  moreover have "split_once (CHR ''.'') ?u = (if f = [] then None else Some (i, f))"
    using digits_no_dot [OF assms(3)] by (simp add: split_once_append split_once_None_iff)
  ultimately show ?thesis
    using assms by (auto simp: split_plain_decimal_def decimal_text_def Let_def)
qed

lemma split_plain_decimalD:
  assumes "split_plain_decimal txt = Some (neg, i, f)"
  shows "\<exists>sign. txt = decimal_text sign i f \<and> (sign = [] \<or> sign = ''+'' \<or> sign = ''-'') \<and> neg = (sign = ''-'')
        \<and> i \<noteq> [] \<and> all_digits i \<and> all_digits f"
proof -
  obtain n u where u: "split_sign txt = (n, u)" by fastforce
  have r: "n = neg" "i \<noteq> []" "all_digits i" "all_digits f"
    "(split_once (CHR ''.'') u = Some (i, f) \<and> f \<noteq> []) \<or> (split_once (CHR ''.'') u = None \<and> u = i \<and> f = [])"
    using assms u by (auto simp: split_plain_decimal_def Let_def split: if_splits option.splits)
  then have "u = i @ (if f = [] then [] else CHR ''.'' # f)" using split_once_Some by auto
  then show ?thesis using split_signD [OF u] r by (auto simp: decimal_text_def)
qed

lemma parse_decimal_scaled_Some_iff:
  assumes "p \<le> 38"
  shows "parse_decimal_scaled txt p s = Some v \<longleftrightarrow>
    (\<exists>sign i f. txt = decimal_text sign i f \<and> (sign = [] \<or> sign = ''+'' \<or> sign = ''-'')
       \<and> i \<noteq> [] \<and> all_digits i \<and> all_digits f \<and> length f \<le> s
       \<and> v = (if sign = ''-'' then - 1 else 1) * int (digits_value (i @ f) * 10 ^ (s - length f)) \<and> \<bar>v\<bar> < 10 ^ p)"
  (is "_ \<longleftrightarrow> ?R")
proof
  assume "parse_decimal_scaled txt p s = Some v"
  then obtain neg i f where d: "split_plain_decimal txt = Some (neg, i, f)" and l: "length f \<le> s"
    and v: "v = (if neg then - 1 else 1) * int (digits_value (i @ f) * 10 ^ (s - length f))" "\<bar>v\<bar> < 10 ^ p"
    unfolding parse_decimal_scaled_eq [OF assms]
    by (auto simp: bounded_decimal_Some_iff split: option.splits if_splits)
  from split_plain_decimalD [OF d] l v show ?R by blast
next
  assume ?R
  then obtain sign i f where "txt = decimal_text sign i f" "sign = [] \<or> sign = ''+'' \<or> sign = ''-''"
    "i \<noteq> []" "all_digits i" "all_digits f" "length f \<le> s"
    "v = (if sign = ''-'' then - 1 else 1) * int (digits_value (i @ f) * 10 ^ (s - length f))" "\<bar>v\<bar> < 10 ^ p"
    by blast
  then show "parse_decimal_scaled txt p s = Some v"
    unfolding parse_decimal_scaled_eq [OF assms] by (simp add: split_plain_decimal_text bounded_decimal_Some_iff)
qed

lemma parse_timestamp_micros_Some_iff:
  "parse_timestamp_micros C txt = Some m \<longleftrightarrow>
     (\<exists>y mo d sep h mi s frac. txt = clock_text y mo d sep h mi s frac
        \<and> clock_fields_ok y mo d sep h mi s frac [] \<and> clock_value C y mo d h mi s frac = Some m)"
proof
  assume "parse_timestamp_micros C txt = Some m"
  then have "parse_datetime_prefix C txt = Some (m, [])"
    by (auto simp: parse_timestamp_micros_def split: bind_splits if_splits)
  from parse_datetime_prefixD [OF this]
  show "\<exists>y mo d sep h mi s frac. txt = clock_text y mo d sep h mi s frac
        \<and> clock_fields_ok y mo d sep h mi s frac [] \<and> clock_value C y mo d h mi s frac = Some m"
    by simp
next
  assume "\<exists>y mo d sep h mi s frac. txt = clock_text y mo d sep h mi s frac
        \<and> clock_fields_ok y mo d sep h mi s frac [] \<and> clock_value C y mo d h mi s frac = Some m"
  then obtain y mo d sep h mi s frac where t: "txt = clock_text y mo d sep h mi s frac"
    "clock_fields_ok y mo d sep h mi s frac []" "clock_value C y mo d h mi s frac = Some m" by blast
  show "parse_timestamp_micros C txt = Some m"
    using parse_datetime_prefix_clock [OF t(2), of C] t by (simp add: parse_timestamp_micros_def)
qed

lemma offset_seconds_bound:
  assumes "parse_offset_seconds s = Some off"
  shows "\<bar>off\<bar> < 86400"
  using assms by (auto simp: parse_offset_seconds_def split: if_splits bind_splits)

lemma parse_timestamptz_micros_Some_iff:
  "parse_timestamptz_micros C txt = Some m \<longleftrightarrow>
     (\<exists>y mo d sep h mi s frac offset l off. txt = clock_text y mo d sep h mi s frac @ offset
        \<and> clock_fields_ok y mo d sep h mi s frac offset \<and> clock_value C y mo d h mi s frac = Some l
        \<and> parse_offset_seconds offset = Some off \<and> m = l - off * 1000000 \<and> in_i64 m)"
proof -
  have off: "checked_i64 (off * 1000000) = Some (off * 1000000)" if "parse_offset_seconds s = Some off" for s off
    using offset_seconds_bound [OF that] by (auto simp: checked_i64_def in_i64_def i64_min_def i64_max_def)
  show ?thesis (is "_ \<longleftrightarrow> ?R")
  proof
    assume "parse_timestamptz_micros C txt = Some m"
    then obtain l rest o' where "parse_datetime_prefix C txt = Some (l, rest)" "parse_offset_seconds rest = Some o'"
      "m = l - o' * 1000000" "in_i64 m"
      using off by (auto simp: parse_timestamptz_micros_def checked_i64_def split: bind_splits if_splits)
    then show ?R using parse_datetime_prefixD [of C "txt" l rest] by blast
  next
    assume ?R
    then obtain y mo d sep h mi s frac offset l o' where
      t: "txt = clock_text y mo d sep h mi s frac @ offset" "clock_fields_ok y mo d sep h mi s frac offset"
        "clock_value C y mo d h mi s frac = Some l" "parse_offset_seconds offset = Some o'"
        "m = l - o' * 1000000" "in_i64 m" by blast
    show "parse_timestamptz_micros C txt = Some m"
      using parse_datetime_prefix_clock [OF t(2), of C] t off [OF t(4)]
      by (simp add: parse_timestamptz_micros_def checked_i64_def)
  qed
qed
end
