(* ===== verification/Load_Types.thy ===== *)
theory Load_Types
  imports Schema_Types
begin

section \<open>Failures, facts and report counts\<close>

text \<open>
  The value types the components hand to each other: \<open>LoadFailure\<close>,
  \<open>ExecutionFailure\<close> and \<open>CommittedExecution\<close> of \<open>src/lib.rs\<close> with their
  operations, \<open>DestinationWriteFacts\<close> of \<open>src/connector.rs\<close>, \<open>RejectedRecord\<close> of
  \<open>src/rejection.rs\<close> and the record types of \<open>src/schema.rs\<close>. Line numbers and counters
  (\<open>u64\<close>) are naturals: they count lines and records of one file.
\<close>

record load_failure =
  lf_code :: string
  lf_message :: msg

definition failure :: "string \<Rightarrow> msg \<Rightarrow> load_failure" where
  "failure code message = \<lparr>lf_code = code, lf_message = message\<rparr>"

lemma failure_sel [simp]: "lf_code (failure c m) = c" "lf_message (failure c m) = m"
  by (simp_all add: failure_def)

subsection \<open>Source records and rejected records\<close>

record text_record =
  tx_line :: nat
  tx_cells :: "string option list"

record json_record =
  js_line :: nat
  js_object :: json_object

record rejected_record =
  rj_line :: nat
  rj_code :: string
  rj_field :: "string option"
  rj_source_field :: "string option"
  rj_message :: msg
  rj_record :: json

definition MALFORMED_CSV_RECORD :: string where
  "MALFORMED_CSV_RECORD = ''malformed_csv_record''"
definition MALFORMED_JSONL_RECORD :: string where
  "MALFORMED_JSONL_RECORD = ''malformed_jsonl_record''"
definition TYPE_COERCION_FAILED :: string where
  "TYPE_COERCION_FAILED = ''type_coercion_failed''"
definition MISSING_REQUIRED_FIELD :: string where
  "MISSING_REQUIRED_FIELD = ''missing_required_field''"
definition NULL_MERGE_KEY :: string where
  "NULL_MERGE_KEY = ''null_merge_key''"

subsection \<open>Destination write facts\<close>

record merge_write_counts =
  mw_updated :: nat
  mw_inserted :: nat

record write_facts =
  wf_atomicity :: string
  wf_strategy :: "string option"
  wf_merge :: "merge_write_counts option"

definition facts_not_applicable :: write_facts where
  "facts_not_applicable = \<lparr>wf_atomicity = ''not_applicable'', wf_strategy = None, wf_merge = None\<rparr>"

definition facts_atomic :: "string \<Rightarrow> write_facts" where
  "facts_atomic strategy = \<lparr>wf_atomicity = ''atomic'', wf_strategy = Some strategy, wf_merge = None\<rparr>"

definition facts_best_effort :: "string \<Rightarrow> write_facts" where
  "facts_best_effort strategy = \<lparr>wf_atomicity = ''best_effort'', wf_strategy = Some strategy, wf_merge = None\<rparr>"

definition with_merge_counts :: "write_facts \<Rightarrow> nat \<Rightarrow> nat \<Rightarrow> write_facts" where
  "with_merge_counts self updated inserted =
     self\<lparr>wf_merge := Some \<lparr>mw_updated = updated, mw_inserted = inserted\<rparr>\<rparr>"

definition facts_report_value :: "write_facts \<Rightarrow> json" where
  "facts_report_value self =
     (let facts = obj_insert ''atomicity'' (JStr (wf_atomicity self)) [];
          facts = (case wf_strategy self of None \<Rightarrow> facts
                   | Some strategy \<Rightarrow> obj_insert ''strategy'' (JStr strategy) facts);
          facts = (case wf_merge self of None \<Rightarrow> facts
                   | Some merge \<Rightarrow> obj_insert ''merge''
                       (JObj [(''updated'', json_nat (mw_updated merge)),
                              (''inserted'', json_nat (mw_inserted merge))]) facts)
      in JObj facts)"

record destination_write =
  dw_bytes_written :: "nat option"
  dw_facts :: write_facts

subsection \<open>Execution failures\<close>

record committed_execution =
  ce_committed_chunks :: nat
  ce_chunk_rows :: nat
  ce_parallelism :: nat
  ce_connector_parallelism_limit :: nat
  ce_retry :: json

record execution_failure =
  ef_failure :: load_failure
  ef_schema_decision :: "json option"
  ef_source_rows :: "nat option"
  ef_written_records :: nat
  ef_rejected_count :: nat
  ef_committed_execution :: "committed_execution option"
  ef_retry :: "json option"
  ef_destination_write :: write_facts

definition reject_threshold_failure :: "nat \<Rightarrow> nat \<Rightarrow> nat \<Rightarrow> load_failure" where
  "reject_threshold_failure rejected_count source_rows reject_threshold =
     failure ''reject_threshold_exceeded''
       [Lit ''rejected '', Num rejected_count, Lit '' of '', Num source_rows,
        Lit '' records, exceeding the reject threshold of '', Num reject_threshold]"

definition apply_pending_reject_threshold :: "nat \<Rightarrow> execution_failure \<Rightarrow> execution_failure" where
  "apply_pending_reject_threshold reject_threshold self =
     (if ef_schema_decision self = None \<and> reject_threshold < ef_rejected_count self then
        let source_rows = (case ef_source_rows self of Some n \<Rightarrow> n | None \<Rightarrow> ef_rejected_count self)
        in self\<lparr>ef_failure := reject_threshold_failure (ef_rejected_count self) source_rows reject_threshold,
                ef_source_rows := Some source_rows\<rparr>
      else self)"

definition with_rejected_count :: "nat \<Rightarrow> execution_failure \<Rightarrow> execution_failure" where
  "with_rejected_count rejected_count self = self\<lparr>ef_rejected_count := rejected_count\<rparr>"

definition execution_failure_from :: "load_failure \<Rightarrow> execution_failure" where
  "execution_failure_from fail =
     \<lparr>ef_failure = fail, ef_schema_decision = None, ef_source_rows = None, ef_written_records = 0,
      ef_rejected_count = 0, ef_committed_execution = None, ef_retry = None,
      ef_destination_write = facts_not_applicable\<rparr>"

text \<open>A schema-resolution failure before anything materialized (\<open>src/schema.rs\<close>).\<close>

definition pre_materialization_failure :: "load_failure \<Rightarrow> json \<Rightarrow> execution_failure" where
  "pre_materialization_failure fail decision =
     \<lparr>ef_failure = fail, ef_schema_decision = Some decision, ef_source_rows = None,
      ef_written_records = 0, ef_rejected_count = 0, ef_committed_execution = None, ef_retry = None,
      ef_destination_write = facts_not_applicable\<rparr>"

lemma pre_materialization_failure_sel [simp]:
  "ef_failure (pre_materialization_failure f d) = f"
  "ef_schema_decision (pre_materialization_failure f d) = Some d"
  "ef_source_rows (pre_materialization_failure f d) = None"
  "ef_rejected_count (pre_materialization_failure f d) = 0"
  by (simp_all add: pre_materialization_failure_def)

end
