(* ===== verification/Schema_Config.thy ===== *)
theory Schema_Config
  imports Load_Types
begin

section \<open>Schema configuration: overrides, transform, pinned schema, directive\<close>

text \<open>
  The validated configuration a load resolves its schema under (\<open>src/schema.rs\<close>, lines
  125 to 996): \<open>SchemaOverrides::from_entries\<close>, \<open>SchemaTransform::from_config\<close>,
  \<open>PinnedSchema::from_yaml\<close> and \<open>to_yaml\<close>, and \<open>SchemaDirective\<close> with the echoes
  they stamp on a schema decision. The YAML text of a pinned schema file is read and
  written by \<open>serde_yaml\<close>, which is a parameter.
\<close>

subsection \<open>Overrides\<close>

record override_entry =
  oe_name :: string
  oe_field_type :: "string option"
  oe_nullable :: "bool option"

record field_override =
  ov_name :: string
  ov_field_type :: "field_type option"
  ov_nullable :: "bool option"

type_synonym schema_overrides = "field_override list"

definition override_field_type :: "override_entry \<Rightarrow> (load_failure, field_type option) result" where
  "override_field_type entry =
     (case oe_field_type entry of
        None \<Rightarrow> Inr None
      | Some type_text \<Rightarrow>
          rmap Some (ok_or (parse_type_name type_text)
            (failure ''unsupported_override_type''
               [Lit ''unsupported schema override type for field '', Dbg (oe_name entry),
                Lit '': '', Txt type_text])))"

fun overrides_from :: "string list \<Rightarrow> override_entry list \<Rightarrow> (load_failure, schema_overrides) result" where
  "overrides_from seen_names [] = Inr []"
| "overrides_from seen_names (entry # entries) =
     (if oe_name entry \<in> set seen_names then
        Inl (failure ''invalid_schema_config''
          [Lit ''schema override for field '', Dbg (oe_name entry), Lit '' is declared more than once''])
      else if oe_field_type entry = None \<and> oe_nullable entry = None then
        Inl (failure ''invalid_schema_config''
          [Lit ''schema override for field '', Dbg (oe_name entry),
           Lit '' must set at least one of type or nullable''])
      else rbind (override_field_type entry)
        (\<lambda>field_type. rmap
           (Cons \<lparr>ov_name = oe_name entry, ov_field_type = field_type, ov_nullable = oe_nullable entry\<rparr>)
           (overrides_from (oe_name entry # seen_names) entries)))"

definition from_entries :: "override_entry list \<Rightarrow> (load_failure, schema_overrides) result" where
  "from_entries entries = overrides_from [] entries"

definition override_get :: "schema_overrides \<Rightarrow> string \<Rightarrow> field_override option" where
  "override_get self name = List.find (\<lambda>ov. ov_name ov = name) self"

definition unknown_names :: "schema_overrides \<Rightarrow> string list \<Rightarrow> string list" where
  "unknown_names self dataset_names =
     filter (\<lambda>name. name \<notin> set dataset_names) (map ov_name self)"

definition override_echo_entry :: "field_override \<Rightarrow> json" where
  "override_echo_entry ov =
     (let entry = obj_insert ''name'' (JStr (ov_name ov)) [];
          entry = (case ov_field_type ov of None \<Rightarrow> entry
                   | Some t \<Rightarrow> obj_insert ''type'' (JStr (type_name t)) entry);
          entry = (case ov_nullable ov of None \<Rightarrow> entry
                   | Some b \<Rightarrow> obj_insert ''nullable'' (JBool b) entry)
      in JObj entry)"

definition overrides_echo :: "schema_overrides \<Rightarrow> json" where
  "overrides_echo self = JArr (map override_echo_entry self)"

definition overrides_stamp :: "schema_overrides \<Rightarrow> json \<Rightarrow> json" where
  "overrides_stamp self decision =
     (if self \<noteq> [] then json_set decision ''overrides'' (overrides_echo self) else decision)"

text \<open>What validation establishes of the overrides.\<close>

definition override_ok :: "field_override \<Rightarrow> bool" where
  "override_ok ov \<longleftrightarrow>
     (case ov_field_type ov of Some t \<Rightarrow> field_type_ok t | None \<Rightarrow> ov_nullable ov \<noteq> None)"

definition overrides_ok :: "schema_overrides \<Rightarrow> bool" where
  "overrides_ok self \<longleftrightarrow> distinct (map ov_name self) \<and> (\<forall>ov\<in>set self. override_ok ov)"

text \<open>The entry a validated override was written as.\<close>

definition entry_of :: "field_override \<Rightarrow> override_entry" where
  "entry_of ov = \<lparr>oe_name = ov_name ov, oe_field_type = map_option type_name (ov_field_type ov),
     oe_nullable = ov_nullable ov\<rparr>"

lemma override_field_type_Inr_iff:
  "override_field_type e = Inr ft \<longleftrightarrow>
     oe_field_type e = map_option type_name ft \<and> (\<forall>t. ft = Some t \<longrightarrow> field_type_ok t)"
proof (cases "oe_field_type e")
  case None
  then show ?thesis by (cases ft) (auto simp: override_field_type_def)
next
  case (Some tt)
  then show ?thesis
    by (cases ft; cases "parse_type_name tt")
      (auto simp: override_field_type_def parse_type_name_type_name dest: parse_type_nameD)
qed

lemma entry_of_eq_iff:
  "e = entry_of ov \<longleftrightarrow> oe_name e = ov_name ov \<and> oe_field_type e = map_option type_name (ov_field_type ov)
     \<and> oe_nullable e = ov_nullable ov"
  by (cases e) (auto simp: entry_of_def)

lemma overrides_from_Inr_iff:
  "overrides_from seen entries = Inr ovs \<longleftrightarrow>
     entries = map entry_of ovs \<and> distinct (map ov_name ovs)
     \<and> set seen \<inter> ov_name ` set ovs = {} \<and> (\<forall>ov\<in>set ovs. override_ok ov)"
proof (induction entries arbitrary: seen ovs)
  case Nil
  then show ?case by auto
next
  case (Cons e es)
  show ?case
  proof (cases ovs)
    case Nil
    then show ?thesis
      by (auto simp: rbind_eq_Inr_iff rmap_eq_Inr_iff)
  next
    case (Cons ov ovs')
    have "overrides_from seen (e # es) = Inr (ov # ovs') \<longleftrightarrow>
        oe_name e \<notin> set seen \<and> e = entry_of ov \<and> override_ok ov
        \<and> overrides_from (oe_name e # seen) es = Inr ovs'"
      by (cases ov)
        (auto simp: rbind_eq_Inr_iff rmap_eq_Inr_iff override_field_type_Inr_iff entry_of_eq_iff override_ok_def
          split: option.splits)
    then show ?thesis
      using Cons Cons.IH [of "oe_name e # seen" ovs'] by (auto simp: entry_of_def)
  qed
qed

lemma from_entries_Inr_iff:
  "from_entries entries = Inr ovs \<longleftrightarrow> entries = map entry_of ovs \<and> overrides_ok ovs"
  by (auto simp: from_entries_def overrides_from_Inr_iff overrides_ok_def)

lemma override_get_Some: "override_get ovs n = Some ov \<Longrightarrow> ov \<in> set ovs \<and> ov_name ov = n"
  unfolding override_get_def by (rule find_Some_iff')

lemma override_get_None_iff: "override_get ovs n = None \<longleftrightarrow> n \<notin> ov_name ` set ovs"
  by (simp add: override_get_def find_key_None_iff)

lemma unknown_names_Nil_iff: "unknown_names ovs names = [] \<longleftrightarrow> ov_name ` set ovs \<subseteq> set names"
  by (auto simp: unknown_names_def filter_empty_conv)

subsection \<open>Maps of a load definition, in declaration order\<close>

text \<open>
  \<open>deserialize_ordered_unique_map\<close>: the entries in declaration order; a repeated key is an
  error. An entry the YAML reader cannot decode is a \<open>Inl\<close> of the stream.
\<close>

fun ordered_unique_map_from ::
  "string \<Rightarrow> string list \<Rightarrow> (msg, string \<times> string) result list \<Rightarrow> (msg, (string \<times> string) list) result" where
  "ordered_unique_map_from map_label seen_keys [] = Inr []"
| "ordered_unique_map_from map_label seen_keys (Inl error # rest) = Inl error"
| "ordered_unique_map_from map_label seen_keys (Inr (key, v) # rest) =
     (if key \<in> set seen_keys then
        Inl [Lit ''duplicate '', Txt map_label, Lit '' key '', Dbg key]
      else rmap (Cons (key, v)) (ordered_unique_map_from map_label (key # seen_keys) rest))"

definition ordered_unique_map ::
  "string \<Rightarrow> (msg, string \<times> string) result list \<Rightarrow> (msg, (string \<times> string) list) result" where
  "ordered_unique_map map_label access = ordered_unique_map_from map_label [] access"

definition rename_map :: "(msg, string \<times> string) result list \<Rightarrow> (msg, (string \<times> string) list) result" where
  "rename_map = ordered_unique_map ''transform.rename''"

definition flatten_map :: "(msg, string \<times> string) result list \<Rightarrow> (msg, (string \<times> string) list) result" where
  "flatten_map = ordered_unique_map ''transform.flatten''"

lemma ordered_unique_map_from_Inr_iff:
  "ordered_unique_map_from label seen access = Inr entries \<longleftrightarrow>
     access = map Inr entries \<and> distinct (map fst entries) \<and> set seen \<inter> fst ` set entries = {}"
proof (induction label seen access arbitrary: entries rule: ordered_unique_map_from.induct)
  case (3 label seen key v rest)
  show ?case
  proof (cases "key \<in> set seen")
    case True
    then show ?thesis by auto
  next
    case False
    then show ?thesis
      by (cases entries) (auto simp: rmap_eq_Inr_iff 3 image_iff)
  qed
qed auto

lemma ordered_unique_map_Inr_iff:
  "ordered_unique_map label access = Inr entries \<longleftrightarrow> access = map Inr entries \<and> distinct (map fst entries)"
  by (simp add: ordered_unique_map_def ordered_unique_map_from_Inr_iff)

subsection \<open>Transform\<close>

record transform_config =
  tc_flatten :: "(string \<times> string) list option"
  tc_select :: "string list option"
  tc_rename :: "(string \<times> string) list option"

record flatten_entry =
  fl_segments :: "string list"
  fl_output :: string

record schema_transform =
  tr_flatten :: "flatten_entry list"
  tr_select :: "string list option"
  tr_rename :: "(string \<times> string) list"

definition flatten_path :: "flatten_entry \<Rightarrow> string" where
  "flatten_path self = join ''.'' (fl_segments self)"

definition transform_none :: schema_transform where
  "transform_none = \<lparr>tr_flatten = [], tr_select = None, tr_rename = []\<rparr>"

definition invalid_transform :: "msg \<Rightarrow> load_failure" where
  "invalid_transform message = failure ''invalid_transform_config'' message"

fun flatten_entries ::
  "string list \<Rightarrow> (string \<times> string) list \<Rightarrow> (load_failure, flatten_entry list) result" where
  "flatten_entries seen_outputs [] = Inr []"
| "flatten_entries seen_outputs ((path, out) # rest) =
     (let segments = split_on (CHR ''.'') path in
      if length segments < 2 then
        Inl (invalid_transform [Lit ''transform.flatten path '', Dbg path,
          Lit '' must have at least two dot-separated segments''])
      else if list_ex (\<lambda>segment. segment = []) segments then
        Inl (invalid_transform [Lit ''transform.flatten path '', Dbg path,
          Lit '' must not contain empty segments''])
      else if all_whitespace out then
        Inl (invalid_transform [Lit ''transform.flatten output name for path '', Dbg path,
          Lit '' must not be empty''])
      else if out \<in> set seen_outputs then
        Inl (invalid_transform [Lit ''transform.flatten maps more than one path to '', Dbg out])
      else rmap (Cons \<lparr>fl_segments = segments, fl_output = out\<rparr>)
             (flatten_entries (out # seen_outputs) rest))"

definition config_flatten ::
  "(string \<times> string) list option \<Rightarrow> string \<Rightarrow> (load_failure, flatten_entry list) result" where
  "config_flatten flatten source_format =
     (case flatten of
        None \<Rightarrow> Inr []
      | Some entries \<Rightarrow>
          if source_format = ''csv'' then
            Inl (invalid_transform [Lit ''transform.flatten requires a JSONL source format; the resolved source format is csv''])
          else if entries = [] then
            Inl (invalid_transform [Lit ''transform.flatten must map at least one path''])
          else flatten_entries [] entries)"

definition config_select :: "string list option \<Rightarrow> (load_failure, unit) result" where
  "config_select select =
     (case select of
        None \<Rightarrow> Inr ()
      | Some names \<Rightarrow>
          if names = [] then Inl (invalid_transform [Lit ''transform.select must name at least one field''])
          else (case first_dup id names of
                  Some name \<Rightarrow> Inl (invalid_transform
                    [Lit ''transform.select names field '', Dbg name, Lit '' more than once''])
                | None \<Rightarrow> Inr ()))"

definition config_rename ::
  "(string \<times> string) list option \<Rightarrow> (load_failure, (string \<times> string) list) result" where
  "config_rename rename =
     (case rename of
        None \<Rightarrow> Inr []
      | Some entries \<Rightarrow>
          if entries = [] then Inl (invalid_transform [Lit ''transform.rename must map at least one field''])
          else Inr entries)"

fun check_renames ::
  "string list option \<Rightarrow> string list \<Rightarrow> (string \<times> string) list \<Rightarrow> (load_failure, unit) result" where
  "check_renames select seen_targets [] = Inr ()"
| "check_renames select seen_targets ((source, target) # rest) =
     (if all_whitespace target then
        Inl (invalid_transform [Lit ''transform.rename target for field '', Dbg source, Lit '' must not be empty''])
      else if source = target then
        Inl (invalid_transform [Lit ''transform.rename maps field '', Dbg source, Lit '' to itself''])
      else if target \<in> set seen_targets then
        Inl (invalid_transform [Lit ''transform.rename maps more than one field to '', Dbg target])
      else if (case select of Some names \<Rightarrow> source \<notin> set names | None \<Rightarrow> False) then
        Inl (invalid_transform [Lit ''transform.rename key '', Dbg source, Lit '' is not in transform.select''])
      else check_renames select (target # seen_targets) rest)"

definition final_dataset_name :: "(string \<times> string) list \<Rightarrow> string \<Rightarrow> string" where
  "final_dataset_name rename name =
     (case List.find (\<lambda>(key, _). key = name) rename of Some (_, target) \<Rightarrow> target | None \<Rightarrow> name)"

definition check_select_names ::
  "flatten_entry list \<Rightarrow> string list \<Rightarrow> (string \<times> string) list \<Rightarrow> (load_failure, unit) result" where
  "check_select_names flatten select rename =
     (case List.find (\<lambda>entry. fl_output entry \<notin> set select) flatten of
        Some entry \<Rightarrow> Inl (invalid_transform
          [Lit ''transform.flatten output '', Dbg (fl_output entry), Lit '' is not in transform.select''])
      | None \<Rightarrow>
          (case first_dup (final_dataset_name rename) select of
             Some source \<Rightarrow> Inl (invalid_transform
               [Lit ''transform.select and transform.rename map more than one field to the dataset name '',
                Dbg (final_dataset_name rename source)])
           | None \<Rightarrow> Inr ()))"

definition check_flatten_names ::
  "flatten_entry list \<Rightarrow> (string \<times> string) list \<Rightarrow> (load_failure, unit) result" where
  "check_flatten_names flatten rename =
     (let flatten_outputs = map fl_output flatten;
          seen_config_names = map snd (filter (\<lambda>(source, _). source \<notin> set flatten_outputs) rename)
      in case first_dup_from seen_config_names (\<lambda>entry. final_dataset_name rename (fl_output entry)) flatten of
           Some entry \<Rightarrow> Inl (invalid_transform
             [Lit ''transform.flatten and transform.rename map more than one field to the dataset name '',
              Dbg (final_dataset_name rename (fl_output entry))])
         | None \<Rightarrow> Inr ())"

definition from_config :: "transform_config \<Rightarrow> string \<Rightarrow> (load_failure, schema_transform) result" where
  "from_config config source_format =
     (if tc_flatten config = None \<and> tc_select config = None \<and> tc_rename config = None then
        Inl (invalid_transform
          [Lit ''a transform block must set transform.flatten, transform.select, or transform.rename''])
      else rbind (config_flatten (tc_flatten config) source_format) (\<lambda>flatten.
           rbind (config_select (tc_select config)) (\<lambda>_.
           rbind (config_rename (tc_rename config)) (\<lambda>rename.
           rbind (check_renames (tc_select config) [] rename) (\<lambda>_.
           rbind (case tc_select config of
                    Some select \<Rightarrow> check_select_names flatten select rename
                  | None \<Rightarrow> if flatten \<noteq> [] then check_flatten_names flatten rename else Inr ()) (\<lambda>_.
           Inr \<lparr>tr_flatten = flatten, tr_select = tc_select config, tr_rename = rename\<rparr>))))))"

definition transform_is_empty :: "schema_transform \<Rightarrow> bool" where
  "transform_is_empty self \<longleftrightarrow> tr_flatten self = [] \<and> tr_select self = None \<and> tr_rename self = []"

definition dataset_name :: "schema_transform \<Rightarrow> string \<Rightarrow> string" where
  "dataset_name self source_name =
     (case List.find (\<lambda>(source, _). source = source_name) (tr_rename self) of
        Some (_, target) \<Rightarrow> target | None \<Rightarrow> source_name)"

definition transform_echo :: "schema_transform \<Rightarrow> json" where
  "transform_echo self =
     (let entry = [];
          entry = (if tr_flatten self \<noteq> [] then
              obj_insert ''flatten''
                (JObj (obj_of_list (map (\<lambda>fe. (flatten_path fe, JStr (fl_output fe))) (tr_flatten self)))) entry
            else entry);
          entry = (case tr_select self of None \<Rightarrow> entry
                   | Some select \<Rightarrow> obj_insert ''select'' (JArr (map JStr select)) entry);
          entry = (if tr_rename self \<noteq> [] then
              obj_insert ''rename''
                (JObj (obj_of_list (map (\<lambda>(source, target). (source, JStr target)) (tr_rename self)))) entry
            else entry)
      in JObj entry)"

definition transform_stamp :: "schema_transform \<Rightarrow> json \<Rightarrow> json" where
  "transform_stamp self decision =
     (if \<not> transform_is_empty self then json_set decision ''transform'' (transform_echo self) else decision)"

subsubsection \<open>What validation establishes\<close>

text \<open>
  A transform that validation accepts, and the \<open>transform\<close> block it was written as: the two
  determine each other.
\<close>

definition flatten_entry_ok :: "flatten_entry \<Rightarrow> bool" where
  "flatten_entry_ok fe \<longleftrightarrow> 2 \<le> length (fl_segments fe) \<and> [] \<notin> set (fl_segments fe)
     \<and> (\<forall>seg\<in>set (fl_segments fe). CHR ''.'' \<notin> set seg) \<and> \<not> all_whitespace (fl_output fe)"

definition renames_ok :: "schema_transform \<Rightarrow> bool" where
  "renames_ok tr \<longleftrightarrow>
     (\<forall>rn\<in>set (tr_rename tr). \<not> all_whitespace (snd rn) \<and> fst rn \<noteq> snd rn
        \<and> (case tr_select tr of Some select \<Rightarrow> fst rn \<in> set select | None \<Rightarrow> True))
     \<and> distinct (map snd (tr_rename tr))"

definition config_names_ok :: "schema_transform \<Rightarrow> bool" where
  "config_names_ok tr \<longleftrightarrow>
     (case tr_select tr of
        Some select \<Rightarrow> select \<noteq> [] \<and> distinct select \<and> fl_output ` set (tr_flatten tr) \<subseteq> set select
          \<and> distinct (map (dataset_name tr) select)
      | None \<Rightarrow> distinct (map (\<lambda>fe. dataset_name tr (fl_output fe)) (tr_flatten tr))
          \<and> (\<forall>fe\<in>set (tr_flatten tr). \<forall>rn\<in>set (tr_rename tr).
              fst rn \<notin> fl_output ` set (tr_flatten tr) \<longrightarrow> snd rn \<noteq> dataset_name tr (fl_output fe)))"

definition transform_ok :: "string \<Rightarrow> schema_transform \<Rightarrow> bool" where
  "transform_ok source_format tr \<longleftrightarrow> \<not> transform_is_empty tr
     \<and> (source_format = ''csv'' \<longrightarrow> tr_flatten tr = [])
     \<and> (\<forall>fe\<in>set (tr_flatten tr). flatten_entry_ok fe) \<and> distinct (map fl_output (tr_flatten tr))
     \<and> renames_ok tr \<and> config_names_ok tr"

definition config_of :: "schema_transform \<Rightarrow> transform_config" where
  "config_of tr =
     \<lparr>tc_flatten = (if tr_flatten tr = [] then None
        else Some (map (\<lambda>fe. (flatten_path fe, fl_output fe)) (tr_flatten tr))),
      tc_select = tr_select tr,
      tc_rename = (if tr_rename tr = [] then None else Some (tr_rename tr))\<rparr>"

lemma dataset_name_eq: "dataset_name tr = final_dataset_name (tr_rename tr)"
  by (simp add: fun_eq_iff dataset_name_def final_dataset_name_def)

lemma flatten_segments_iff:
  "fl_segments fe = split_on (CHR ''.'') path \<and> 2 \<le> length (fl_segments fe) \<and> [] \<notin> set (fl_segments fe)
     \<and> \<not> all_whitespace (fl_output fe)
   \<longleftrightarrow> path = flatten_path fe \<and> flatten_entry_ok fe"
proof
  assume a: "fl_segments fe = split_on (CHR ''.'') path \<and> 2 \<le> length (fl_segments fe)
     \<and> [] \<notin> set (fl_segments fe) \<and> \<not> all_whitespace (fl_output fe)"
  then have "path = flatten_path fe" by (simp add: flatten_path_def join_split_on)
  with a show "path = flatten_path fe \<and> flatten_entry_ok fe"
    using split_on_segments by (auto simp: flatten_entry_ok_def)
next
  assume a: "path = flatten_path fe \<and> flatten_entry_ok fe"
  then have "fl_segments fe \<noteq> []" "\<forall>x\<in>set (fl_segments fe). CHR ''.'' \<notin> set x"
    by (auto simp: flatten_entry_ok_def)
  with a show "fl_segments fe = split_on (CHR ''.'') path \<and> 2 \<le> length (fl_segments fe)
     \<and> [] \<notin> set (fl_segments fe) \<and> \<not> all_whitespace (fl_output fe)"
    by (simp add: flatten_path_def split_on_join flatten_entry_ok_def)
qed

lemma flatten_entries_Inr_iff:
  "flatten_entries seen entries = Inr fes \<longleftrightarrow>
     entries = map (\<lambda>fe. (flatten_path fe, fl_output fe)) fes \<and> (\<forall>fe\<in>set fes. flatten_entry_ok fe)
     \<and> distinct (map fl_output fes) \<and> set seen \<inter> fl_output ` set fes = {}"
proof (induction entries arbitrary: seen fes)
  case (Cons e rest)
  obtain path out where e: "e = (path, out)" by (cases e)
  show ?case
  proof (cases fes)
    case Nil
    then show ?thesis by (simp add: e Let_def rmap_eq_Inr_iff)
  next
    case fes: (Cons fe fes')
    have "flatten_entries seen (e # rest) = Inr fes \<longleftrightarrow>
        (fl_segments fe = split_on (CHR ''.'') path \<and> 2 \<le> length (fl_segments fe)
          \<and> [] \<notin> set (fl_segments fe) \<and> \<not> all_whitespace (fl_output fe))
        \<and> fl_output fe = out \<and> out \<notin> set seen \<and> flatten_entries (out # seen) rest = Inr fes'"
      by (cases fe) (auto simp: e fes Let_def rmap_eq_Inr_iff list_ex_iff)
    then show ?thesis
      unfolding flatten_segments_iff Cons.IH by (simp add: e fes) (blast intro: rev_image_eqI sym)
  qed
qed auto

lemma config_flatten_Inr_iff:
  "config_flatten flatten fmt = Inr fes \<longleftrightarrow>
     flatten = (if fes = [] then None else Some (map (\<lambda>fe. (flatten_path fe, fl_output fe)) fes))
     \<and> (fmt = ''csv'' \<longrightarrow> fes = []) \<and> (\<forall>fe\<in>set fes. flatten_entry_ok fe) \<and> distinct (map fl_output fes)"
  by (cases flatten) (auto simp: config_flatten_def flatten_entries_Inr_iff)

lemma config_select_Inr_iff:
  "config_select select = Inr u \<longleftrightarrow> (\<forall>names. select = Some names \<longrightarrow> names \<noteq> [] \<and> distinct names)"
  by (cases select) (simp_all add: config_select_def first_dup_case_Inr_iff)

lemma config_rename_Inr_iff:
  "config_rename rename = Inr renames \<longleftrightarrow> rename = (if renames = [] then None else Some renames)"
  by (cases rename) (auto simp: config_rename_def)

lemma check_renames_Inr_iff:
  "check_renames select seen renames = Inr u \<longleftrightarrow>
     (\<forall>rn\<in>set renames. \<not> all_whitespace (snd rn) \<and> fst rn \<noteq> snd rn
        \<and> (\<forall>names. select = Some names \<longrightarrow> fst rn \<in> set names))
     \<and> distinct (map snd renames) \<and> set seen \<inter> snd ` set renames = {}"
  by (induction select seen renames rule: check_renames.induct)
    (auto split: option.splits)

lemma check_select_names_Inr_iff:
  "check_select_names flatten select rename = Inr u \<longleftrightarrow>
     fl_output ` set flatten \<subseteq> set select \<and> distinct (map (final_dataset_name rename) select)"
  by (auto simp: check_select_names_def find_case_Inr_iff first_dup_case_Inr_iff)

lemma check_flatten_names_Inr_iff:
  "check_flatten_names flatten rename = Inr u \<longleftrightarrow>
     distinct (map (\<lambda>fe. final_dataset_name rename (fl_output fe)) flatten)
     \<and> (\<forall>fe\<in>set flatten. \<forall>rn\<in>set rename. fst rn \<notin> fl_output ` set flatten \<longrightarrow>
          snd rn \<noteq> final_dataset_name rename (fl_output fe))"
  by (auto simp: check_flatten_names_def Let_def first_dup_from_case_Inr_iff disjoint_iff case_prod_unfold)

text \<open>
  Validation accepts exactly the blocks that spell a valid transform, and returns that
  transform.
\<close>

lemma config_of_eq_iff:
  "config = config_of tr \<longleftrightarrow>
     tc_flatten config = (if tr_flatten tr = [] then None
        else Some (map (\<lambda>fe. (flatten_path fe, fl_output fe)) (tr_flatten tr)))
     \<and> tc_select config = tr_select tr
     \<and> tc_rename config = (if tr_rename tr = [] then None else Some (tr_rename tr))"
  by (cases config) (simp add: config_of_def)

lemma from_config_steps:
  "from_config config fmt = Inr tr \<longleftrightarrow>
      \<not> (tc_flatten config = None \<and> tc_select config = None \<and> tc_rename config = None)
      \<and> config_flatten (tc_flatten config) fmt = Inr (tr_flatten tr)
      \<and> config_select (tc_select config) = Inr ()
      \<and> config_rename (tc_rename config) = Inr (tr_rename tr)
      \<and> check_renames (tc_select config) [] (tr_rename tr) = Inr ()
      \<and> (case tc_select config of
           Some select \<Rightarrow> check_select_names (tr_flatten tr) select (tr_rename tr) = Inr ()
         | None \<Rightarrow> tr_flatten tr \<noteq> [] \<longrightarrow> check_flatten_names (tr_flatten tr) (tr_rename tr) = Inr ())
      \<and> tc_select config = tr_select tr"
  by (cases "tc_select config"; cases tr rule: schema_transform.cases)
    (auto simp: from_config_def rbind_eq_Inr_iff)

lemma from_config_Inr_iff:
  "from_config config fmt = Inr tr \<longleftrightarrow> config = config_of tr \<and> transform_ok fmt tr"
  unfolding from_config_steps config_of_eq_iff config_flatten_Inr_iff config_select_Inr_iff
    config_rename_Inr_iff check_renames_Inr_iff check_select_names_Inr_iff check_flatten_names_Inr_iff
    transform_ok_def transform_is_empty_def renames_ok_def config_names_ok_def dataset_name_eq
  by (cases "tc_select config = tr_select tr"; cases "tr_select tr"; cases "tr_flatten tr = []";
      cases "tr_rename tr = []") auto

lemma transform_none_simps [simp]:
  "tr_flatten transform_none = []" "tr_select transform_none = None" "tr_rename transform_none = []"
  "transform_is_empty transform_none" "dataset_name transform_none = id"
  by (simp_all add: transform_none_def transform_is_empty_def dataset_name_def fun_eq_iff)

lemma dataset_name_cases:
  "dataset_name tr n = n \<or> (\<exists>target. (n, target) \<in> set (tr_rename tr) \<and> dataset_name tr n = target)"
  by (auto simp: dataset_name_def split: option.splits dest: find_Some_iff')

subsection \<open>Pinned schema files\<close>

record pinned_field =
  pf_name :: string
  pf_field_type :: field_type
  pf_nullable :: bool

type_synonym pinned_schema = "pinned_field list"

record pinned_field_file =
  ff_name :: string
  ff_field_type :: string
  ff_nullable :: "bool option"

record pinned_schema_file =
  sf_version :: "nat option"
  sf_fields :: "pinned_field_file list option"

text \<open>
  \<open>serde_yaml::from_str::<PinnedSchemaFile>\<close> (an error is its message) and
  \<open>serde_yaml::to_string\<close>.
\<close>

record yaml =
  yaml_parse :: "string \<Rightarrow> (string, pinned_schema_file) result"
  yaml_emit :: "pinned_schema_file \<Rightarrow> string"

definition PINNED_SCHEMA_VERSION :: nat where "PINNED_SCHEMA_VERSION = 1"

definition invalid_pinned_schema :: "msg \<Rightarrow> load_failure" where
  "invalid_pinned_schema message = failure ''invalid_pinned_schema'' message"

fun pinned_fields_from ::
  "string list \<Rightarrow> pinned_field_file list \<Rightarrow> (load_failure, pinned_schema) result" where
  "pinned_fields_from seen_names [] = Inr []"
| "pinned_fields_from seen_names (raw # rest) =
     (if ff_name raw \<in> set seen_names then
        Inl (invalid_pinned_schema
          [Lit ''pinned schema field '', Dbg (ff_name raw), Lit '' is declared more than once''])
      else rbind
        (ok_or (parse_type_name (ff_field_type raw))
          (invalid_pinned_schema [Lit ''unsupported pinned schema field type: '', Txt (ff_field_type raw)]))
        (\<lambda>t. rmap
          (Cons \<lparr>pf_name = ff_name raw, pf_field_type = t,
                 pf_nullable = (case ff_nullable raw of Some b \<Rightarrow> b | None \<Rightarrow> True)\<rparr>)
          (pinned_fields_from (ff_name raw # seen_names) rest)))"

definition from_yaml :: "yaml \<Rightarrow> string \<Rightarrow> (load_failure, pinned_schema) result" where
  "from_yaml Y txt =
     rbind (map_err (\<lambda>error. invalid_pinned_schema [Lit ''failed to parse pinned schema: '', Txt error])
              (yaml_parse Y txt)) (\<lambda>file.
     case sf_version file of
       Some version \<Rightarrow>
         if version = PINNED_SCHEMA_VERSION then
           (let raw_fields = (case sf_fields file of Some fs \<Rightarrow> fs | None \<Rightarrow> []) in
            if raw_fields = [] then
              Inl (invalid_pinned_schema [Lit ''pinned schema must declare at least one field''])
            else pinned_fields_from [] raw_fields)
         else Inl (invalid_pinned_schema [Lit ''unsupported pinned schema version: '', Num version])
     | None \<Rightarrow> Inl (invalid_pinned_schema [Lit ''pinned schema version is required'']))"

definition pin_file :: "pinned_schema \<Rightarrow> pinned_schema_file" where
  "pin_file self =
     \<lparr>sf_version = Some PINNED_SCHEMA_VERSION,
      sf_fields = Some (map (\<lambda>field. \<lparr>ff_name = pf_name field, ff_field_type = type_name (pf_field_type field),
                                     ff_nullable = Some (pf_nullable field)\<rparr>) self)\<rparr>"

definition to_yaml :: "yaml \<Rightarrow> pinned_schema \<Rightarrow> string" where
  "to_yaml Y self = yaml_emit Y (pin_file self)"

definition pin_ok :: "pinned_schema \<Rightarrow> bool" where
  "pin_ok pin \<longleftrightarrow> pin \<noteq> [] \<and> distinct (map pf_name pin) \<and> (\<forall>f\<in>set pin. field_type_ok (pf_field_type f))"

lemma pinned_fields_from_Inr:
  "pinned_fields_from seen raws = Inr pin \<Longrightarrow>
     map pf_name pin = map ff_name raws \<and> map (type_name \<circ> pf_field_type) pin = map ff_field_type raws
     \<and> distinct (map pf_name pin) \<and> set seen \<inter> pf_name ` set pin = {}
     \<and> (\<forall>f\<in>set pin. field_type_ok (pf_field_type f))"
proof (induction raws arbitrary: seen pin)
  case (Cons raw raws)
  then obtain t pin' where t: "parse_type_name (ff_field_type raw) = Some t"
    and rest: "pinned_fields_from (ff_name raw # seen) raws = Inr pin'" "ff_name raw \<notin> set seen"
    and pin: "pin = \<lparr>pf_name = ff_name raw, pf_field_type = t,
        pf_nullable = (case ff_nullable raw of Some b \<Rightarrow> b | None \<Rightarrow> True)\<rparr> # pin'"
    by (cases "parse_type_name (ff_field_type raw)")
      (auto simp: rbind_eq_Inr_iff rmap_eq_Inr_iff split: if_splits)
  show ?case
    using Cons.IH [OF rest(1)] parse_type_nameD [OF t] rest(2) unfolding pin
    by (simp add: comp_def) (metis image_set distinct_map)
qed simp

lemma from_yaml_ok: "from_yaml Y txt = Inr pin \<Longrightarrow> pin_ok pin"
  by (auto simp: from_yaml_def rbind_eq_Inr_iff pin_ok_def Let_def split: option.splits if_splits
      dest!: pinned_fields_from_Inr)

lemma pinned_fields_from_pin_file:
  "distinct (map pf_name pin) \<Longrightarrow> set seen \<inter> pf_name ` set pin = {} \<Longrightarrow>
   \<forall>f\<in>set pin. field_type_ok (pf_field_type f) \<Longrightarrow>
   pinned_fields_from seen (map (\<lambda>field. \<lparr>ff_name = pf_name field,
     ff_field_type = type_name (pf_field_type field), ff_nullable = Some (pf_nullable field)\<rparr>) pin) = Inr pin"
  by (induction pin arbitrary: seen) (auto simp: parse_type_name_type_name)

lemma from_yaml_to_yaml:
  "pin_ok pin \<Longrightarrow> yaml_parse Y (yaml_emit Y (pin_file pin)) = Inr (pin_file pin) \<Longrightarrow>
   from_yaml Y (to_yaml Y pin) = Inr pin"
  by (simp add: from_yaml_def to_yaml_def pin_file_def pin_ok_def pinned_fields_from_pin_file)

subsection \<open>The schema directive\<close>

datatype drift_policy = Drift_Fail | Allow_Additive_Nullable

datatype schema_directive =
    Inferred schema_transform schema_overrides
  | Pin_Inferred string schema_transform schema_overrides
  | Pinned string pinned_schema drift_policy schema_transform schema_overrides

type_synonym merge_keys = "string list"

fun dir_transform :: "schema_directive \<Rightarrow> schema_transform" where
  "dir_transform (Inferred tr ovs) = tr"
| "dir_transform (Pin_Inferred path tr ovs) = tr"
| "dir_transform (Pinned path pin policy tr ovs) = tr"

fun dir_overrides :: "schema_directive \<Rightarrow> schema_overrides" where
  "dir_overrides (Inferred tr ovs) = ovs"
| "dir_overrides (Pin_Inferred path tr ovs) = ovs"
| "dir_overrides (Pinned path pin policy tr ovs) = ovs"

definition dir_stamp :: "schema_directive \<Rightarrow> json \<Rightarrow> json" where
  "dir_stamp self decision =
     transform_stamp (dir_transform self) (overrides_stamp (dir_overrides self) decision)"

record pinned_schema_write =
  pw_pinned_path :: string
  pw_yaml :: string

text \<open>
  What the configuration layer establishes of a transform and of a directive: rename keys are
  map keys, so they are distinct, and the transform is absent or validated.
\<close>

definition transform_wf :: "schema_transform \<Rightarrow> bool" where
  "transform_wf tr \<longleftrightarrow> distinct (map fst (tr_rename tr))
     \<and> (tr = transform_none \<or> transform_ok ''csv'' tr \<or> transform_ok ''jsonl'' tr)"

definition dir_ok :: "schema_directive \<Rightarrow> bool" where
  "dir_ok d \<longleftrightarrow> overrides_ok (dir_overrides d) \<and> transform_wf (dir_transform d)
     \<and> (case d of Pinned _ pin _ _ _ \<Rightarrow> pin_ok pin | _ \<Rightarrow> True)"

lemma transform_ok_format: "transform_ok fmt tr \<Longrightarrow> transform_ok ''csv'' tr \<or> transform_ok ''jsonl'' tr"
  by (auto simp: transform_ok_def)

lemma transform_wf_from_config:
  "from_config config fmt = Inr tr \<Longrightarrow>
   (case tc_rename config of Some entries \<Rightarrow> distinct (map fst entries) | None \<Rightarrow> True) \<Longrightarrow> transform_wf tr"
  using transform_ok_format [of fmt tr]
  by (auto simp: from_config_Inr_iff transform_wf_def config_of_def split: if_splits)

lemma transform_wfD:
  assumes "transform_wf tr"
  shows "distinct (map fst (tr_rename tr))" "distinct (map snd (tr_rename tr))"
    "distinct (map fl_output (tr_flatten tr))"
    "\<And>e. e \<in> set (tr_flatten tr) \<Longrightarrow> fl_segments e \<noteq> []"
    "distinct (map (\<lambda>fe. dataset_name tr (fl_output fe)) (tr_flatten tr))"
    "\<And>sel. tr_select tr = Some sel \<Longrightarrow> distinct (map (dataset_name tr) sel) \<and> distinct sel
       \<and> fl_output ` set (tr_flatten tr) \<subseteq> set sel \<and> fst ` set (tr_rename tr) \<subseteq> set sel"
proof -
  have base: "distinct (map snd (tr_rename tr))" "distinct (map fl_output (tr_flatten tr))"
    "\<And>e. e \<in> set (tr_flatten tr) \<Longrightarrow> fl_segments e \<noteq> []"
    "\<And>sel. tr_select tr = Some sel \<Longrightarrow> distinct (map (dataset_name tr) sel) \<and> distinct sel
       \<and> fl_output ` set (tr_flatten tr) \<subseteq> set sel \<and> fst ` set (tr_rename tr) \<subseteq> set sel"
    using assms
    by (auto simp: transform_wf_def transform_ok_def renames_ok_def flatten_entry_ok_def config_names_ok_def)
  have "distinct (map (\<lambda>fe. dataset_name tr (fl_output fe)) (tr_flatten tr))"
  proof (cases "tr_select tr")
    case None
    then show ?thesis
      using assms by (auto simp: transform_wf_def transform_ok_def config_names_ok_def)
  next
    case (Some sel)
    then have "inj_on (dataset_name tr) (set sel)" using base(4) by (simp add: distinct_map)
    then have "inj_on (dataset_name tr) (fl_output ` set (tr_flatten tr))"
      using base(4) [OF Some] by (meson inj_on_subset)
    then have "inj_on (dataset_name tr \<circ> fl_output) (set (tr_flatten tr))"
      using base(2) by (intro comp_inj_on) (simp_all add: distinct_map)
    then show ?thesis using base(2) by (simp add: distinct_map comp_def)
  qed
  with assms base show "distinct (map fst (tr_rename tr))" "distinct (map snd (tr_rename tr))"
    "distinct (map fl_output (tr_flatten tr))"
    "\<And>e. e \<in> set (tr_flatten tr) \<Longrightarrow> fl_segments e \<noteq> []"
    "distinct (map (\<lambda>fe. dataset_name tr (fl_output fe)) (tr_flatten tr))"
    "\<And>sel. tr_select tr = Some sel \<Longrightarrow> distinct (map (dataset_name tr) sel) \<and> distinct sel
       \<and> fl_output ` set (tr_flatten tr) \<subseteq> set sel \<and> fst ` set (tr_rename tr) \<subseteq> set sel"
    by (auto simp: transform_wf_def)
qed

lemma dataset_name_rename:
  "distinct (map fst (tr_rename tr)) \<Longrightarrow> (s, t) \<in> set (tr_rename tr) \<Longrightarrow> dataset_name tr s = t"
  using find_distinct [of fst "tr_rename tr" "(s, t)"]
  by (simp add: dataset_name_def case_prod_unfold)

lemma dataset_name_no_rename: "s \<notin> fst ` set (tr_rename tr) \<Longrightarrow> dataset_name tr s = s"
  by (auto simp: dataset_name_def image_iff split: option.splits dest!: find_Some_iff')

end
