(* ===== verification/Schema_Checks.thy ===== *)
theory Schema_Checks
  imports Schema_Config Declared_Parse
begin

section \<open>Per-record checks\<close>

text \<open>
  \<open>src/schema.rs\<close>, lines 1321 to 1330, 1526 to 1566 and 2042 to 2496: how a field
  reads its value from a source record, the checks a record must pass, the value fits the
  checks decide by, the rejection a failed check renders, and the two validators of CSV and
  JSONL records.
\<close>

subsection \<open>Source addresses\<close>

datatype source_address = Field string | Path "string list"

fun as_written :: "source_address \<Rightarrow> string" where
  "as_written (Field name) = name"
| "as_written (Path segments) = join ''.'' segments"

fun json_walk :: "json \<Rightarrow> string list \<Rightarrow> json option" where
  "json_walk v [] = Some v"
| "json_walk v (segment # segments) =
     (case v of
        JObj kvs \<Rightarrow> (case obj_get kvs segment of Some v' \<Rightarrow> json_walk v' segments | None \<Rightarrow> None)
      | _ \<Rightarrow> None)"

text \<open>
  \<open>segments[0]\<close> panics on an empty path; configuration only builds paths of two segments
  or more.
\<close>

definition json_path_value :: "string list \<Rightarrow> json_object \<Rightarrow> json option" where
  "json_path_value segments object =
     (case obj_get object (hd segments) of Some v \<Rightarrow> json_walk v (tl segments) | None \<Rightarrow> None)"

fun json_value :: "source_address \<Rightarrow> json_object \<Rightarrow> json option" where
  "json_value (Field name) object = obj_get object name"
| "json_value (Path segments) object = json_path_value segments object"

lemma json_path_value_walk: "segments \<noteq> [] \<Longrightarrow> json_path_value segments object = json_walk (JObj object) segments"
  by (cases segments) (simp_all add: json_path_value_def split: option.split)

subsection \<open>Field checks\<close>

datatype non_null_requirement = Req_Schema | Req_MergeKey
datatype type_origin = Origin_Pinned | Origin_Overridden

fun wording :: "type_origin \<Rightarrow> string" where
  "wording Origin_Pinned = ''pinned''"
| "wording Origin_Overridden = ''overridden''"

record field_check =
  fc_name :: string
  fc_source :: source_address
  fc_observed_index :: nat
  fc_expected_type :: "(field_type \<times> type_origin) option"
  fc_required :: "non_null_requirement option"

definition source_field :: "field_check \<Rightarrow> string option" where
  "source_field self =
     (case fc_source self of
        Field source_name \<Rightarrow> (if fc_name self \<noteq> source_name then Some source_name else None)
      | Path _ \<Rightarrow> Some (as_written (fc_source self)))"

subsection \<open>Value fits\<close>

definition text_value_fits :: "('d, 't) chrono \<Rightarrow> string \<Rightarrow> field_type \<Rightarrow> bool" where
  "text_value_fits C v expected =
     (case expected of
        Timestamp \<Rightarrow> parse_timestamp_micros C v \<noteq> None
      | Timestamptz \<Rightarrow> parse_timestamptz_micros C v \<noteq> None
      | Decimal prec sc \<Rightarrow> parse_decimal_scaled v prec sc \<noteq> None
      | _ \<Rightarrow> fits_expected_type (infer_text_type v) expected)"

definition json_integer :: "number \<Rightarrow> int option" where
  "json_integer number =
     (case as_i64 number of Some v \<Rightarrow> Some v | None \<Rightarrow> as_u64 number)"

definition json_value_fits :: "('d, 't) chrono \<Rightarrow> json \<Rightarrow> field_type \<Rightarrow> bool" where
  "json_value_fits C v expected =
     (case expected of
        Timestamp \<Rightarrow> (case v of JStr txt \<Rightarrow> parse_timestamp_micros C txt \<noteq> None | _ \<Rightarrow> False)
      | Timestamptz \<Rightarrow> (case v of JStr txt \<Rightarrow> parse_timestamptz_micros C txt \<noteq> None | _ \<Rightarrow> False)
      | Decimal prec sc \<Rightarrow>
          (case v of
             JStr txt \<Rightarrow> parse_decimal_scaled txt prec sc \<noteq> None
           | JNum number \<Rightarrow>
               (case json_integer number of
                  Some i \<Rightarrow> rescale_decimal_integer i prec sc \<noteq> None
                | None \<Rightarrow> False)
           | _ \<Rightarrow> False)
      | _ \<Rightarrow> fits_expected_type (infer_json_type v) expected)"

subsection \<open>Misfit causes\<close>

text \<open>The two bytes of the UTF-8 plus-minus sign.\<close>

definition plus_minus :: string where
  "plus_minus = [char_of (0xC2 :: nat), char_of (0xB1 :: nat)]"

definition fraction_exceeds_six_digits :: "('d, 't) chrono \<Rightarrow> string \<Rightarrow> bool" where
  "fraction_exceeds_six_digits C v \<longleftrightarrow>
     19 < length v \<and> v ! 19 = CHR ''.''
     \<and> 6 < length (takeWhile is_ascii_digit (drop 20 v))
     \<and> parse_timestamp_micros C (take 19 v) \<noteq> None"

definition clock_misfit_cause :: "('d, 't) chrono \<Rightarrow> string \<Rightarrow> msg" where
  "clock_misfit_cause C v =
     (if v \<noteq> [] \<and> all_digits v then [Lit ''epoch numbers are not accepted as timestamp text'']
      else if parse_timestamp_micros C (v @ '' 00:00:00'') \<noteq> None then [Lit ''date-only text has no time part'']
      else if fraction_exceeds_six_digits C v then
        [Lit ''the fraction has more than 6 digits and is never truncated'']
      else [Lit ''the text does not match YYYY-MM-DD HH:MM:SS with an optional fraction of 1 to 6 digits''])"

definition decimal_overflow_cause :: "nat \<Rightarrow> nat \<Rightarrow> msg" where
  "decimal_overflow_cause prec sc =
     [Lit ''the value overflows decimal('', Num prec, Lit '','', Num sc,
      Lit ''): the integer part allows at most '', Num (prec - sc), Lit '' digits'']"

definition decimal_misfit_cause :: "string \<Rightarrow> nat \<Rightarrow> nat \<Rightarrow> msg" where
  "decimal_misfit_cause v prec sc =
     (case split_plain_decimal v of
        Some (_, _, fraction_digits) \<Rightarrow>
          if sc < length fraction_digits then
            [Lit ''the value has '', Num (length fraction_digits), Lit '' fractional digits, more than scale '',
             Num sc, Lit '' allows; values are never rounded'']
          else decimal_overflow_cause prec sc
      | None \<Rightarrow>
          if (CHR ''e'' \<in> set v \<or> CHR ''E'' \<in> set v) \<and> parse_f64 v \<noteq> None then
            [Lit ''exponent notation is not accepted as decimal text'']
          else if CHR '','' \<in> set v \<and> split_plain_decimal (filter (\<lambda>c. c \<noteq> CHR '','') v) \<noteq> None then
            [Lit ''thousands separators are not accepted as decimal text'']
          else [Lit ''the text is not plain decimal digits with an optional sign and decimal point''])"

definition timestamp_misfit_cause :: "('d, 't) chrono \<Rightarrow> string \<Rightarrow> msg" where
  "timestamp_misfit_cause C v =
     (case parse_datetime_prefix C v of
        Some (_, offset_text) \<Rightarrow>
          if offset_text \<noteq> [] then
            if parse_offset_seconds offset_text \<noteq> None then
              [Lit ''the text carries a UTC offset, which wall-clock timestamp text must not'']
            else [Lit ''the text continues after the clock reading, which wall-clock timestamp text must not'']
          else clock_misfit_cause C v
      | None \<Rightarrow> clock_misfit_cause C v)"

definition timestamptz_misfit_cause :: "('d, 't) chrono \<Rightarrow> string \<Rightarrow> msg" where
  "timestamptz_misfit_cause C v =
     (case parse_datetime_prefix C v of
        Some (_, offset_text) \<Rightarrow>
          if offset_text = [] then
            [Lit (''the text is missing its mandatory UTC offset (Z or '' @ plus_minus @ ''hh:mm)'')]
          else if parse_offset_seconds offset_text = None then
            [Lit (''the UTC offset is malformed; an instant timestamp needs Z, z, or '' @ plus_minus @ ''hh:mm'')]
          else clock_misfit_cause C v
      | None \<Rightarrow> clock_misfit_cause C v)"

definition text_misfit_cause :: "('d, 't) chrono \<Rightarrow> string \<Rightarrow> field_type \<Rightarrow> msg option" where
  "text_misfit_cause C v expected =
     (case expected of
        Timestamp \<Rightarrow> Some (timestamp_misfit_cause C v)
      | Timestamptz \<Rightarrow> Some (timestamptz_misfit_cause C v)
      | Decimal prec sc \<Rightarrow> Some (decimal_misfit_cause v prec sc)
      | _ \<Rightarrow> None)"

fun json_kind :: "json \<Rightarrow> string" where
  "json_kind JNull = ''null''"
| "json_kind (JBool _) = ''boolean''"
| "json_kind (JNum _) = ''number''"
| "json_kind (JStr _) = ''string''"
| "json_kind (JArr _) = ''array''"
| "json_kind (JObj _) = ''object''"

definition json_timestamp_cause :: "('d, 't) chrono \<Rightarrow> json \<Rightarrow> field_type \<Rightarrow> msg option" where
  "json_timestamp_cause C v expected =
     (case v of
        JStr txt \<Rightarrow> text_misfit_cause C txt expected
      | JNum _ \<Rightarrow> Some [Lit ''JSON numbers do not fit a declared '', Txt (type_name expected),
                        Lit '' field: epoch numbers are not accepted'']
      | _ \<Rightarrow> Some [Lit ''JSON '', Txt (json_kind v), Lit '' values do not fit a declared '',
                   Txt (type_name expected), Lit '' field; only JSON strings parse as timestamps''])"

definition json_misfit_cause :: "('d, 't) chrono \<Rightarrow> json \<Rightarrow> field_type \<Rightarrow> msg option" where
  "json_misfit_cause C v expected =
     (case expected of
        Timestamp \<Rightarrow> json_timestamp_cause C v expected
      | Timestamptz \<Rightarrow> json_timestamp_cause C v expected
      | Decimal prec sc \<Rightarrow> Some
          (case v of
             JStr txt \<Rightarrow> decimal_misfit_cause txt prec sc
           | JNum number \<Rightarrow>
               (if json_integer number \<noteq> None then decimal_overflow_cause prec sc
                else [Lit ''JSON floats do not fit a declared decimal field: their exact digits were already lost to IEEE parsing''])
           | _ \<Rightarrow> [Lit ''JSON '', Txt (json_kind v),
                   Lit '' values do not fit a declared decimal field; only JSON strings and integers fit''])
      | _ \<Rightarrow> None)"

subsection \<open>Rejections\<close>

definition null_value_rejection :: "nat \<Rightarrow> field_check \<Rightarrow> non_null_requirement \<Rightarrow> json \<Rightarrow> rejected_record" where
  "null_value_rejection line check requirement rec =
     (let (code, message) =
        (case requirement of
           Req_Schema \<Rightarrow> (MISSING_REQUIRED_FIELD,
             [Lit ''required field '', Dbg (fc_name check), Lit '' is null''])
         | Req_MergeKey \<Rightarrow> (NULL_MERGE_KEY, [Lit ''merge key '', Dbg (fc_name check), Lit '' is null'']))
      in \<lparr>rj_line = line, rj_code = code, rj_field = Some (fc_name check),
          rj_source_field = source_field check, rj_message = message, rj_record = rec\<rparr>)"

definition type_rejection ::
  "nat \<Rightarrow> field_check \<Rightarrow> field_type \<Rightarrow> type_origin \<Rightarrow> json \<Rightarrow> msg option \<Rightarrow> json \<Rightarrow> rejected_record" where
  "type_rejection line check expected_type origin v cause rec =
     (let cause_suffix = (case cause of Some m \<Rightarrow> Lit '': '' # m | None \<Rightarrow> [])
      in \<lparr>rj_line = line, rj_code = TYPE_COERCION_FAILED, rj_field = Some (fc_name check),
          rj_source_field = source_field check,
          rj_message = [Lit ''value '', Jsn v, Lit '' does not fit '', Txt (wording origin), Lit '' type '',
            Txt (type_name expected_type), Lit '' for field '', Dbg (fc_name check)] @ cause_suffix,
          rj_record = rec\<rparr>)"

definition text_record_json :: "string list \<Rightarrow> string option list \<Rightarrow> json" where
  "text_record_json field_names cells =
     JObj (obj_of_list (map (\<lambda>(name, cell). (name, case cell of None \<Rightarrow> JNull | Some v \<Rightarrow> JStr v))
       (zip field_names cells)))"

subsection \<open>The validators\<close>

text \<open>\<open>record.cells[check.observed_index]\<close> panics out of range; see the property on index safety.\<close>

fun validate_text_record ::
  "('d, 't) chrono \<Rightarrow> text_record \<Rightarrow> field_check list \<Rightarrow> string list \<Rightarrow> rejected_record option" where
  "validate_text_record C rec [] field_names = None"
| "validate_text_record C rec (check # checks) field_names =
     (case tx_cells rec ! fc_observed_index check of
        None \<Rightarrow>
          (case fc_required check of
             Some requirement \<Rightarrow> Some (null_value_rejection (tx_line rec) check requirement
               (text_record_json field_names (tx_cells rec)))
           | None \<Rightarrow> validate_text_record C rec checks field_names)
      | Some v \<Rightarrow>
          (case fc_expected_type check of
             Some (expected_type, origin) \<Rightarrow>
               if \<not> text_value_fits C v expected_type then
                 Some (type_rejection (tx_line rec) check expected_type origin (JStr v)
                   (text_misfit_cause C v expected_type) (text_record_json field_names (tx_cells rec)))
               else validate_text_record C rec checks field_names
           | None \<Rightarrow> validate_text_record C rec checks field_names))"

text \<open>\<open>None | Some(Value::Null)\<close>: an absent address reads as null.\<close>

definition present :: "json option \<Rightarrow> json option" where
  "present v = (case v of None \<Rightarrow> None | Some JNull \<Rightarrow> None | Some x \<Rightarrow> Some x)"

fun validate_json_record ::
  "('d, 't) chrono \<Rightarrow> json_record \<Rightarrow> field_check list \<Rightarrow> rejected_record option" where
  "validate_json_record C rec [] = None"
| "validate_json_record C rec (check # checks) =
     (case present (json_value (fc_source check) (js_object rec)) of
        None \<Rightarrow>
          (case fc_required check of
             Some requirement \<Rightarrow> Some (null_value_rejection (js_line rec) check requirement (JObj (js_object rec)))
           | None \<Rightarrow> validate_json_record C rec checks)
      | Some v \<Rightarrow>
          (case fc_expected_type check of
             Some (expected_type, origin) \<Rightarrow>
               if \<not> json_value_fits C v expected_type then
                 Some (type_rejection (js_line rec) check expected_type origin v
                   (json_misfit_cause C v expected_type) (JObj (js_object rec)))
               else validate_json_record C rec checks
           | None \<Rightarrow> validate_json_record C rec checks))"

definition json_check_violated :: "('d, 't) chrono \<Rightarrow> json_object \<Rightarrow> field_check \<Rightarrow> bool" where
  "json_check_violated C object check =
     (case present (json_value (fc_source check) object) of
        None \<Rightarrow> fc_required check \<noteq> None
      | Some v \<Rightarrow> (case fc_expected_type check of
                    Some (expected_type, _) \<Rightarrow> \<not> json_value_fits C v expected_type
                  | None \<Rightarrow> False))"

definition json_record_violates :: "('d, 't) chrono \<Rightarrow> json_record \<Rightarrow> field_check list \<Rightarrow> bool" where
  "json_record_violates C rec checks = list_ex (json_check_violated C (js_object rec)) checks"

subsection \<open>Validation and violation agree\<close>

definition text_check_violated :: "('d, 't) chrono \<Rightarrow> string option list \<Rightarrow> field_check \<Rightarrow> bool" where
  "text_check_violated C cells check =
     (case cells ! fc_observed_index check of
        None \<Rightarrow> fc_required check \<noteq> None
      | Some v \<Rightarrow> (case fc_expected_type check of
                    Some (expected_type, _) \<Rightarrow> \<not> text_value_fits C v expected_type
                  | None \<Rightarrow> False))"

lemma validate_json_iff_violates:
  "validate_json_record C rec checks \<noteq> None \<longleftrightarrow> json_record_violates C rec checks"
  by (induction checks)
    (auto simp: json_record_violates_def json_check_violated_def split: option.splits)

lemma validate_text_iff:
  "validate_text_record C rec checks names \<noteq> None \<longleftrightarrow> list_ex (text_check_violated C (tx_cells rec)) checks"
  by (induction checks) (auto simp: text_check_violated_def split: option.splits)

lemma validate_json_line:
  "validate_json_record C rec checks = Some rj \<Longrightarrow> rj_line rj = js_line rec \<and> rj_record rj = JObj (js_object rec)"
  by (induction checks)
    (auto simp: null_value_rejection_def type_rejection_def Let_def
      split: option.splits if_splits prod.splits)

lemma validate_text_line:
  "validate_text_record C rec checks names = Some rj \<Longrightarrow>
     rj_line rj = tx_line rec \<and> rj_record rj = text_record_json names (tx_cells rec)"
  by (induction checks)
    (auto simp: null_value_rejection_def type_rejection_def Let_def
      split: option.splits if_splits prod.splits)

end
