(* ===== verification/Schema_Plan.thy ===== *)
theory Schema_Plan
  imports Schema_Checks
begin

section \<open>Resolving the schema of a load\<close>

text \<open>
  \<open>src/schema.rs\<close>, lines 1240 to 2032, 2093 to 2134 and 2497 to 2770: the checks a
  directive fixes before the input is read, the transform resolved against the observed
  names, the override and merge-key verdicts, the pin comparison, and the field plan,
  decision, checks and pin write they end in.
\<close>

subsection \<open>Checks known from the directive alone\<close>

definition json_source_address :: "schema_transform \<Rightarrow> string \<Rightarrow> source_address" where
  "json_source_address tr name =
     (case List.find (\<lambda>entry. dataset_name tr (fl_output entry) = name) (tr_flatten tr) of
        Some entry \<Rightarrow> Path (fl_segments entry)
      | None \<Rightarrow>
          (case List.find (\<lambda>(_, target). target = name) (tr_rename tr) of
             Some (source_name, _) \<Rightarrow> Field source_name
           | None \<Rightarrow> Field name))"

definition schema_required :: "bool \<Rightarrow> non_null_requirement option" where
  "schema_required b = (if b then Some Req_Schema else None)"

definition override_type_check :: "field_override \<Rightarrow> (field_type \<times> type_origin) option" where
  "override_type_check ov = map_option (\<lambda>t. (t, Origin_Overridden)) (ov_field_type ov)"

fun directive_pin :: "schema_directive \<Rightarrow> pinned_schema" where
  "directive_pin (Pinned _ pin _ _ _) = pin"
| "directive_pin _ = []"

definition directive_checks :: "schema_directive \<Rightarrow> merge_keys \<Rightarrow> field_check list" where
  "directive_checks directive merge_keys =
     (let transform = dir_transform directive;
          overrides = dir_overrides directive;
          checks = map (\<lambda>key.
            \<lparr>fc_name = key, fc_source = json_source_address transform key, fc_observed_index = 0,
             fc_expected_type = None, fc_required = Some Req_MergeKey\<rparr>) merge_keys;
          pin_named = map pf_name (directive_pin directive);
          checks = checks @ map (\<lambda>pin_field.
            \<lparr>fc_name = pf_name pin_field, fc_source = json_source_address transform (pf_name pin_field),
             fc_observed_index = 0, fc_expected_type = Some (pf_field_type pin_field, Origin_Pinned),
             fc_required = schema_required (\<not> pf_nullable pin_field)\<rparr>) (directive_pin directive)
      in checks @ map (\<lambda>ov.
            \<lparr>fc_name = ov_name ov, fc_source = json_source_address transform (ov_name ov),
             fc_observed_index = 0, fc_expected_type = override_type_check ov,
             fc_required = schema_required (ov_nullable ov = Some False)\<rparr>)
           (filter (\<lambda>ov. ov_name ov \<notin> set pin_named) overrides))"

subsection \<open>Dataset columns and planned fields\<close>

record dataset_column =
  dc_dataset_name :: string
  dc_source :: source_address
  dc_observed_index :: nat

definition name_changed :: "dataset_column \<Rightarrow> bool" where
  "name_changed self =
     (case dc_source self of Field source_name \<Rightarrow> dc_dataset_name self \<noteq> source_name | Path _ \<Rightarrow> True)"

record planned_field =
  pl_name :: string
  pl_source :: source_address
  pl_materialized_type :: field_type
  pl_nullable :: bool
  pl_observed_index :: nat

datatype arrow_type =
    Arrow_Boolean | Arrow_Int64 | Arrow_Float64 | Arrow_Utf8
  | Arrow_Timestamp_Micros "string option" | Arrow_Decimal128 nat nat

fun data_type :: "field_type \<Rightarrow> arrow_type" where
  "data_type Boolean = Arrow_Boolean"
| "data_type Int64 = Arrow_Int64"
| "data_type Float64 = Arrow_Float64"
| "data_type Utf8 = Arrow_Utf8"
| "data_type Timestamp = Arrow_Timestamp_Micros None"
| "data_type Timestamptz = Arrow_Timestamp_Micros (Some ''UTC'')"
| "data_type (Decimal prec sc) = Arrow_Decimal128 prec sc"

record arrow_field =
  af_name :: string
  af_type :: arrow_type
  af_nullable :: bool

record chunk_plan =
  cp_fields :: "planned_field list"
  cp_schema :: "arrow_field list"

definition chunk_plan_new :: "planned_field list \<Rightarrow> chunk_plan" where
  "chunk_plan_new planned_fields =
     \<lparr>cp_fields = planned_fields,
      cp_schema = map (\<lambda>planned. \<lparr>af_name = pl_name planned, af_type = data_type (pl_materialized_type planned),
                                 af_nullable = pl_nullable planned\<rparr>) planned_fields\<rparr>"

record resolution =
  rs_plan :: chunk_plan
  rs_checks :: "field_check list"
  rs_decision :: json
  rs_pinned_schema_write :: "pinned_schema_write option"

definition rejection_for :: "('d, 't) chrono \<Rightarrow> resolution \<Rightarrow> json_record \<Rightarrow> rejected_record option" where
  "rejection_for C self rec = validate_json_record C rec (rs_checks self)"

record field_plan =
  fp_fields :: "planned_field list"
  fp_decision :: json
  fp_pinned_schema_write :: "pinned_schema_write option"

subsection \<open>Rendered decisions\<close>

definition field_json :: "string \<Rightarrow> field_type \<Rightarrow> bool \<Rightarrow> json" where
  "field_json name t nullable =
     JObj [(''name'', JStr name), (''type'', JStr (type_name t)), (''nullable'', JBool nullable)]"

definition pinned_fields_json :: "pinned_schema \<Rightarrow> json" where
  "pinned_fields_json pin = JArr (map (\<lambda>f. field_json (pf_name f) (pf_field_type f) (pf_nullable f)) pin)"

definition fields_json :: "planned_field list \<Rightarrow> json" where
  "fields_json planned_fields =
     JArr (map (\<lambda>p. field_json (pl_name p) (pl_materialized_type p) (pl_nullable p)) planned_fields)"

definition pin_of_fields :: "planned_field list \<Rightarrow> pinned_schema" where
  "pin_of_fields planned_fields = map (\<lambda>p. \<lparr>pf_name = pl_name p, pf_field_type = pl_materialized_type p,
     pf_nullable = pl_nullable p\<rparr>) planned_fields"

definition pin_yaml :: "yaml \<Rightarrow> planned_field list \<Rightarrow> string" where
  "pin_yaml Y planned_fields = to_yaml Y (pin_of_fields planned_fields)"

fun configured_posture_decision :: "schema_directive \<Rightarrow> json" where
  "configured_posture_decision (Inferred tr ovs) =
     JObj [(''mode'', JStr ''inferred''), (''drift_status'', JStr ''not_applicable'')]"
| "configured_posture_decision (Pin_Inferred pinned_path tr ovs) =
     JObj [(''mode'', JStr ''inferred''), (''drift_status'', JStr ''not_applicable''),
           (''pinned_schema_path'', JStr pinned_path)]"
| "configured_posture_decision (Pinned pinned_path pin policy tr ovs) =
     JObj [(''mode'', JStr ''pinned''), (''fields'', pinned_fields_json pin),
           (''drift_status'', JStr ''not_applicable''), (''pinned_schema_path'', JStr pinned_path)]"

subsection \<open>The transform against the observed names\<close>

definition push_new :: "string list \<Rightarrow> string \<Rightarrow> string list" where
  "push_new unknown name = (if name \<in> set unknown then unknown else unknown @ [name])"

definition observed_indexes :: "string list \<Rightarrow> string \<Rightarrow> nat option" where
  "observed_indexes observed_names = map_of (zip observed_names [0..<length observed_names])"

text \<open>\<open>collect\<close> into a \<open>HashMap\<close>: a later duplicate key replaces an earlier one.\<close>

definition flatten_positions :: "flatten_entry list \<Rightarrow> string \<Rightarrow> nat option" where
  "flatten_positions flatten = map_of (rev (zip (map fl_output flatten) [0..<length flatten]))"

definition transform_unknown :: "schema_transform \<Rightarrow> string list \<Rightarrow> string list" where
  "transform_unknown transform observed_names =
     (let names = (case tr_select transform of None \<Rightarrow> [] | Some select \<Rightarrow> select)
            @ map fst (tr_rename transform);
          unknown = foldl push_new []
            (filter (\<lambda>name. observed_indexes observed_names name = None
                          \<and> flatten_positions (tr_flatten transform) name = None) names)
      in foldl push_new unknown
           (map flatten_path
             (filter (\<lambda>entry. observed_indexes observed_names (hd (fl_segments entry)) = None)
               (tr_flatten transform))))"

definition flatten_column :: "schema_transform \<Rightarrow> string list \<Rightarrow> nat \<Rightarrow> dataset_column" where
  "flatten_column transform observed_names position =
     (let entry = tr_flatten transform ! position in
      \<lparr>dc_dataset_name = dataset_name transform (fl_output entry),
       dc_source = Path (fl_segments entry),
       dc_observed_index = length observed_names + position\<rparr>)"

definition field_column :: "schema_transform \<Rightarrow> string \<Rightarrow> nat \<Rightarrow> dataset_column" where
  "field_column transform source_name index =
     \<lparr>dc_dataset_name = dataset_name transform source_name, dc_source = Field source_name,
      dc_observed_index = index\<rparr>"

text \<open>\<open>observed_indexes[name]\<close> panics on an absent name; the unknown-field verdict excludes it.\<close>

definition select_column :: "schema_transform \<Rightarrow> string list \<Rightarrow> string \<Rightarrow> dataset_column" where
  "select_column transform observed_names source_name =
     (case flatten_positions (tr_flatten transform) source_name of
        Some position \<Rightarrow> flatten_column transform observed_names position
      | None \<Rightarrow> field_column transform source_name (the (observed_indexes observed_names source_name)))"

definition transform_columns :: "schema_transform \<Rightarrow> string list \<Rightarrow> dataset_column list" where
  "transform_columns transform observed_names =
     (case tr_select transform of
        Some select \<Rightarrow> map (select_column transform observed_names) select
      | None \<Rightarrow>
          map (\<lambda>(index, source_name). field_column transform source_name index)
            (zip [0..<length observed_names] observed_names)
          @ map (flatten_column transform observed_names) [0..<length (tr_flatten transform)])"

definition columns_named :: "dataset_column list \<Rightarrow> string \<Rightarrow> dataset_column list" where
  "columns_named columns name = filter (\<lambda>c. dc_dataset_name c = name) columns"

definition column_collides :: "dataset_column list \<Rightarrow> dataset_column \<Rightarrow> bool" where
  "column_collides columns column =
     (let colliding = columns_named columns (dc_dataset_name column)
      in 1 < length colliding \<and> list_ex name_changed colliding)"

definition resolve_transform ::
  "schema_directive \<Rightarrow> string list \<Rightarrow> (execution_failure, dataset_column list) result" where
  "resolve_transform directive observed_names =
     (let transform = dir_transform directive;
          posture = configured_posture_decision directive;
          unknown = transform_unknown transform observed_names;
          columns = transform_columns transform observed_names
      in if unknown \<noteq> [] then
           Inl (pre_materialization_failure
             (failure ''unknown_transform_field''
               [Lit ''transform selects, renames, or flattens fields absent from the observed source shape: '',
                Txt (join '', '' unknown)]) posture)
         else (case List.find (\<lambda>entry. observed_indexes observed_names (fl_output entry) \<noteq> None)
                 (tr_flatten transform) of
             Some entry \<Rightarrow>
               Inl (pre_materialization_failure
                 (failure ''transform_name_collision''
                   [Lit ''transform flatten collides on dataset field '', Dbg (fl_output entry),
                    Lit '': source path '', Txt (flatten_path entry),
                    Lit '' shadows an observed source field'']) posture)
           | None \<Rightarrow>
               (case List.find (column_collides columns) columns of
                  Some column \<Rightarrow>
                    Inl (pre_materialization_failure
                      (failure ''transform_name_collision''
                        [Lit ''transform rename collides on dataset field '', Dbg (dc_dataset_name column),
                         Lit '': source fields '',
                         Txt (join '', '' (map (\<lambda>other. as_written (dc_source other))
                           (columns_named columns (dc_dataset_name column)))),
                         Lit '' map to the same name'']) posture)
                | None \<Rightarrow> Inr columns)))"

subsection \<open>Override names, merge keys and override conflicts\<close>

definition check_override_names ::
  "schema_directive \<Rightarrow> dataset_column list \<Rightarrow> (execution_failure, unit) result" where
  "check_override_names directive columns =
     (let unknown = unknown_names (dir_overrides directive) (map dc_dataset_name columns)
      in if unknown = [] then Inr ()
         else Inl (pre_materialization_failure
           (failure ''unknown_override_field''
             [Lit ''schema overrides name fields absent from the observed source shape: '',
              Txt (join '', '' unknown)])
           (configured_posture_decision directive)))"

definition merge_key_check :: "dataset_column \<Rightarrow> field_check" where
  "merge_key_check column =
     \<lparr>fc_name = dc_dataset_name column, fc_source = dc_source column,
      fc_observed_index = dc_observed_index column, fc_expected_type = None,
      fc_required = Some Req_MergeKey\<rparr>"

fun scan_merge_keys ::
  "dataset_column list \<Rightarrow> field_check list \<Rightarrow> string list \<Rightarrow> merge_keys \<Rightarrow> field_check list \<times> string list" where
  "scan_merge_keys columns checks unknown [] = (checks, unknown)"
| "scan_merge_keys columns checks unknown (key # keys) =
     (case List.find (\<lambda>column. dc_dataset_name column = key) columns of
        Some column \<Rightarrow> scan_merge_keys columns (checks @ [merge_key_check column]) unknown keys
      | None \<Rightarrow> scan_merge_keys columns checks (unknown @ [key]) keys)"

definition merge_key_checks ::
  "schema_directive \<Rightarrow> merge_keys \<Rightarrow> dataset_column list \<Rightarrow> (execution_failure, field_check list) result" where
  "merge_key_checks directive merge_keys columns =
     (let (checks, unknown) = scan_merge_keys columns [] [] merge_keys
      in if unknown = [] then Inr checks
         else Inl (pre_materialization_failure
           (failure ''unknown_merge_key_field''
             [Lit ''merge keys name fields absent from the resolved dataset schema: '',
              Txt (join '', '' unknown)])
           (configured_posture_decision directive)))"

definition show_bool :: "bool \<Rightarrow> string" where
  "show_bool b = (if b then ''true'' else ''false'')"

definition conflict_segments :: "field_override \<Rightarrow> pinned_field \<Rightarrow> msg list" where
  "conflict_segments ov pin_field =
     (case ov_field_type ov of
        Some t \<Rightarrow> (if t \<noteq> pf_field_type pin_field then
            [[Lit ''pinned type '', Txt (type_name (pf_field_type pin_field)),
              Lit '', override type '', Txt (type_name t)]] else [])
      | None \<Rightarrow> [])
     @ (case ov_nullable ov of
        Some nullable \<Rightarrow> (if nullable \<noteq> pf_nullable pin_field then
            [[Lit ''pinned nullable '', Txt (show_bool (pf_nullable pin_field)),
              Lit '', override nullable '', Txt (show_bool nullable)]] else [])
      | None \<Rightarrow> [])"

definition override_json :: "field_override \<Rightarrow> json_object" where
  "override_json ov =
     (let o1 = (case ov_field_type ov of Some t \<Rightarrow> obj_insert ''type'' (JStr (type_name t)) [] | None \<Rightarrow> [])
      in (case ov_nullable ov of Some b \<Rightarrow> obj_insert ''nullable'' (JBool b) o1 | None \<Rightarrow> o1))"

fun check_override_conflicts ::
  "string \<Rightarrow> pinned_schema \<Rightarrow> schema_overrides \<Rightarrow> (execution_failure, unit) result" where
  "check_override_conflicts pinned_path pin [] = Inr ()"
| "check_override_conflicts pinned_path pin (ov # ovs) =
     (case List.find (\<lambda>f. pf_name f = ov_name ov) pin of
        None \<Rightarrow> check_override_conflicts pinned_path pin ovs
      | Some pin_field \<Rightarrow>
          (let segments = conflict_segments ov pin_field in
           if segments = [] then check_override_conflicts pinned_path pin ovs
           else Inl (pre_materialization_failure
             (failure ''schema_override_conflict''
               ([Lit ''schema override for field '', Dbg (ov_name ov), Lit '' contradicts pinned schema '',
                 Txt pinned_path, Lit '': ''] @ join_msgs ''; '' segments))
             (JObj [(''mode'', JStr ''pinned''), (''fields'', pinned_fields_json pin),
                (''drift_status'', JStr ''not_applicable''),
                (''conflict'', JObj [(''field'', JStr (ov_name ov)),
                   (''pinned'', JObj [(''type'', JStr (type_name (pf_field_type pin_field))),
                                     (''nullable'', JBool (pf_nullable pin_field))]),
                   (''override'', JObj (override_json ov))]),
                (''pinned_schema_path'', JStr pinned_path)]))))"

subsection \<open>Checks of matched fields and overridden columns\<close>

definition pinned_checks :: "planned_field list \<Rightarrow> field_check list" where
  "pinned_checks matched =
     map (\<lambda>planned. \<lparr>fc_name = pl_name planned, fc_source = pl_source planned,
       fc_observed_index = pl_observed_index planned,
       fc_expected_type = Some (pl_materialized_type planned, Origin_Pinned),
       fc_required = schema_required (\<not> pl_nullable planned)\<rparr>) matched"

definition override_check :: "dataset_column \<Rightarrow> field_override \<Rightarrow> field_check" where
  "override_check column ov =
     \<lparr>fc_name = dc_dataset_name column, fc_source = dc_source column,
      fc_observed_index = dc_observed_index column, fc_expected_type = override_type_check ov,
      fc_required = schema_required (ov_nullable ov = Some False)\<rparr>"

definition override_checks :: "schema_overrides \<Rightarrow> dataset_column list \<Rightarrow> field_check list" where
  "override_checks overrides columns =
     List.map_filter (\<lambda>column. map_option (override_check column)
       (override_get overrides (dc_dataset_name column))) columns"

subsection \<open>Inference-driven plans\<close>

definition override_or ::
  "schema_overrides \<Rightarrow> (field_override \<Rightarrow> 'a option) \<Rightarrow> string \<Rightarrow> 'a \<Rightarrow> 'a" where
  "override_or overrides property name dflt =
     (case Option.bind (override_get overrides name) property of Some v \<Rightarrow> v | None \<Rightarrow> dflt)"

definition inferred_field ::
  "schema_overrides \<Rightarrow> inferred_type list \<Rightarrow> dataset_column \<Rightarrow> planned_field" where
  "inferred_field overrides observed_types column =
     \<lparr>pl_name = dc_dataset_name column, pl_source = dc_source column,
      pl_materialized_type = override_or overrides ov_field_type (dc_dataset_name column)
        (inferred_field_type (observed_types ! dc_observed_index column)),
      pl_nullable = override_or overrides ov_nullable (dc_dataset_name column) True,
      pl_observed_index = dc_observed_index column\<rparr>"

definition inferred_plan ::
  "yaml \<Rightarrow> dataset_column list \<Rightarrow> inferred_type list \<Rightarrow> string option \<Rightarrow> schema_overrides \<Rightarrow> field_plan" where
  "inferred_plan Y columns observed_types pinned_path overrides =
     (let planned_fields = map (inferred_field overrides observed_types) columns;
          decision = JObj [(''mode'', JStr ''inferred''), (''fields'', fields_json planned_fields),
                           (''drift_status'', JStr ''not_applicable'')]
      in (case pinned_path of
            None \<Rightarrow> \<lparr>fp_fields = planned_fields, fp_decision = decision, fp_pinned_schema_write = None\<rparr>
          | Some path \<Rightarrow>
              \<lparr>fp_fields = planned_fields,
               fp_decision = json_set (json_set decision ''pinned_schema_path'' (JStr path))
                 ''pinned_schema_persisted'' (JBool True),
               fp_pinned_schema_write = Some \<lparr>pw_pinned_path = path, pw_yaml = pin_yaml Y planned_fields\<rparr>\<rparr>))"

definition inferred_resolution ::
  "yaml \<Rightarrow> dataset_column list \<Rightarrow> inferred_type list \<Rightarrow> string option \<Rightarrow> schema_overrides \<Rightarrow> resolution" where
  "inferred_resolution Y columns survivor_types pinned_path overrides =
     (let plan = inferred_plan Y columns survivor_types pinned_path overrides
      in \<lparr>rs_plan = chunk_plan_new (fp_fields plan), rs_checks = override_checks overrides columns,
          rs_decision = fp_decision plan, rs_pinned_schema_write = fp_pinned_schema_write plan\<rparr>)"

end
