(* ===== verification/Schema_Resolve.thy ===== *)
theory Schema_Resolve
  imports Schema_Plan
begin

section \<open>The pin comparison and the whole-input resolution\<close>

text \<open>
  \<open>src/schema.rs\<close>, lines 1340 to 1494, 1961 to 2032 and 2497 to 2702: shape matching
  against a pinned schema, added fields, declared-type overrides, the drift failure, and
  \<open>resolve_plan\<close> with the echoes stamped on its decision.
\<close>

subsection \<open>Shape matching\<close>

definition drift_failure :: "string \<Rightarrow> pinned_schema \<Rightarrow> msg \<Rightarrow> json \<Rightarrow> execution_failure" where
  "drift_failure pinned_path pin detail drift =
     pre_materialization_failure
       (failure ''schema_drift''
         ([Lit ''schema drift against pinned schema '', Txt pinned_path, Lit '': ''] @ detail))
       (JObj [(''mode'', JStr ''pinned''), (''fields'', pinned_fields_json pin),
              (''drift_status'', JStr ''failed_on_drift''), (''drift'', drift),
              (''pinned_schema_path'', JStr pinned_path)])"

record shape_match =
  sm_matched :: "planned_field list"
  sm_added :: "dataset_column list"

definition column_named :: "dataset_column list \<Rightarrow> string \<Rightarrow> dataset_column option" where
  "column_named columns name = List.find (\<lambda>c. dc_dataset_name c = name) columns"

definition pinned_planned :: "pinned_field \<Rightarrow> dataset_column \<Rightarrow> planned_field" where
  "pinned_planned pin_field column =
     \<lparr>pl_name = pf_name pin_field, pl_source = dc_source column,
      pl_materialized_type = pf_field_type pin_field, pl_nullable = pf_nullable pin_field,
      pl_observed_index = dc_observed_index column\<rparr>"

definition matched_fields :: "pinned_schema \<Rightarrow> dataset_column list \<Rightarrow> planned_field list" where
  "matched_fields pin columns =
     List.map_filter (\<lambda>pin_field. map_option (pinned_planned pin_field) (column_named columns (pf_name pin_field))) pin"

definition missing_fields :: "pinned_schema \<Rightarrow> dataset_column list \<Rightarrow> string list" where
  "missing_fields pin columns =
     map pf_name (filter (\<lambda>pin_field. column_named columns (pf_name pin_field) = None) pin)"

definition added_columns :: "pinned_schema \<Rightarrow> dataset_column list \<Rightarrow> dataset_column list" where
  "added_columns pin columns = filter (\<lambda>c. dc_dataset_name c \<notin> set (map pf_name pin)) columns"

definition match_shape ::
  "string \<Rightarrow> pinned_schema \<Rightarrow> drift_policy \<Rightarrow> dataset_column list \<Rightarrow> (execution_failure, shape_match) result" where
  "match_shape pinned_path pin drift_policy columns =
     (case first_dup dc_dataset_name columns of
        Some column \<Rightarrow> Inl (drift_failure pinned_path pin
          [Lit ''source field '', Dbg (dc_dataset_name column),
           Lit '' appears more than once, so records cannot be validated against the pinned schema'']
          (JObj [(''duplicate_fields'', JArr [JStr (dc_dataset_name column)])]))
      | None \<Rightarrow>
          let missing = missing_fields pin columns;
              matched = matched_fields pin columns;
              added = added_columns pin columns;
              additive_allowed = (drift_policy = Allow_Additive_Nullable);
              added_names = map dc_dataset_name added
          in if missing \<noteq> [] \<or> (added \<noteq> [] \<and> \<not> additive_allowed) then
               Inl (drift_failure pinned_path pin
                 (join_msgs ''; ''
                   ((if missing \<noteq> [] then [[Lit ''missing fields: '', Txt (join '', '' missing)]] else [])
                    @ (if added_names \<noteq> [] then [[Lit ''added fields: '', Txt (join '', '' added_names)]] else [])))
                 (JObj [(''missing_fields'', JArr (map JStr missing)),
                        (''added_fields'', JArr (map JStr added_names))]))
             else Inr \<lparr>sm_matched = matched, sm_added = added\<rparr>)"

definition planned_added_fields ::
  "dataset_column list \<Rightarrow> inferred_type list \<Rightarrow> schema_overrides \<Rightarrow> planned_field list" where
  "planned_added_fields added survivor_types overrides =
     map (\<lambda>column.
       \<lparr>pl_name = dc_dataset_name column, pl_source = dc_source column,
        pl_materialized_type = override_or overrides ov_field_type (dc_dataset_name column)
          (inferred_field_type (survivor_types ! dc_observed_index column)),
        pl_nullable = override_or overrides ov_nullable (dc_dataset_name column) True,
        pl_observed_index = dc_observed_index column\<rparr>) added"

definition assemble_pinned_plan ::
  "yaml \<Rightarrow> string \<Rightarrow> planned_field list \<Rightarrow> planned_field list \<Rightarrow> field_plan" where
  "assemble_pinned_plan Y pinned_path matched added =
     (if added = [] then
        \<lparr>fp_fields = matched,
         fp_decision = JObj [(''mode'', JStr ''pinned''), (''fields'', fields_json matched),
           (''drift_status'', JStr ''none''), (''pinned_schema_path'', JStr pinned_path)],
         fp_pinned_schema_write = None\<rparr>
      else
        let all_fields = matched @ added in
        \<lparr>fp_fields = all_fields,
         fp_decision = JObj [(''mode'', JStr ''pinned''), (''fields'', fields_json all_fields),
           (''drift_status'', JStr ''additive_fields_added''), (''added_fields'', fields_json added),
           (''pinned_schema_path'', JStr pinned_path), (''pinned_schema_persisted'', JBool True)],
         fp_pinned_schema_write = Some \<lparr>pw_pinned_path = pinned_path, pw_yaml = pin_yaml Y all_fields\<rparr>\<rparr>)"

text \<open>The three bytes of the UTF-8 em dash.\<close>

definition em_dash :: string where
  "em_dash = [char_of (0xE2 :: nat), char_of (0x80 :: nat), char_of (0x94 :: nat)]"

definition undeclared_fields :: "planned_field list \<Rightarrow> schema_overrides \<Rightarrow> planned_field list" where
  "undeclared_fields matched overrides =
     filter (\<lambda>p. Option.bind (override_get overrides (pl_name p)) ov_field_type = None)
       (filter (\<lambda>p. lattice_type (pl_materialized_type p) = None) matched)"

definition check_declared_type_overrides ::
  "string \<Rightarrow> pinned_schema \<Rightarrow> planned_field list \<Rightarrow> schema_overrides \<Rightarrow> inferred_type list
   \<Rightarrow> (execution_failure, unit) result" where
  "check_declared_type_overrides pinned_path pin matched overrides observed_types =
     (let undeclared = undeclared_fields matched overrides in
      if undeclared = [] then Inr ()
      else
        let effective_name = (\<lambda>p. type_name (inferred_field_type (observed_types ! pl_observed_index p)));
            detail = join_msgs ''; '' (map (\<lambda>p. [Lit ''field '', Dbg (pl_name p), Lit '' is pinned as '',
                Txt (type_name (pl_materialized_type p)), Lit '' but its effective type is '',
                Txt (effective_name p)]) undeclared)
              @ [Lit ''; declared types take effect only through schema.overrides '',
                 Lit em_dash, Lit '' the override may be missing''];
            drift = JObj [(''undeclared_fields'', JArr (map (\<lambda>p. JObj [(''name'', JStr (pl_name p)),
                (''pinned_type'', JStr (type_name (pl_materialized_type p))),
                (''effective_type'', JStr (effective_name p))]) undeclared))]
        in Inl (drift_failure pinned_path pin detail drift))"

subsection \<open>The resolution\<close>

definition stamped_resolution ::
  "schema_directive \<Rightarrow> (execution_failure, resolution) result \<Rightarrow> (execution_failure, resolution) result" where
  "stamped_resolution directive resolved =
     (case resolved of
        Inr rs \<Rightarrow> Inr (rs\<lparr>rs_decision := dir_stamp directive (rs_decision rs)\<rparr>)
      | Inl fail \<Rightarrow> Inl (fail\<lparr>ef_schema_decision := map_option (dir_stamp directive) (ef_schema_decision fail)\<rparr>))"

definition pinned_resolution ::
  "yaml \<Rightarrow> string \<Rightarrow> pinned_schema \<Rightarrow> drift_policy \<Rightarrow> schema_overrides \<Rightarrow> dataset_column list
   \<Rightarrow> inferred_type list \<Rightarrow> inferred_type list \<Rightarrow> (execution_failure, resolution) result" where
  "pinned_resolution Y pinned_path pin drift_policy overrides columns all_types survivor_types =
     rbind (check_override_conflicts pinned_path pin overrides) (\<lambda>_.
     rbind (match_shape pinned_path pin drift_policy columns) (\<lambda>sm.
     rbind (check_declared_type_overrides pinned_path pin (sm_matched sm) overrides all_types) (\<lambda>_.
       let checks = pinned_checks (sm_matched sm) @ override_checks overrides (sm_added sm);
           added = planned_added_fields (sm_added sm) survivor_types overrides;
           plan = assemble_pinned_plan Y pinned_path (sm_matched sm) added
       in Inr \<lparr>rs_plan = chunk_plan_new (fp_fields plan), rs_checks = checks,
               rs_decision = fp_decision plan, rs_pinned_schema_write = fp_pinned_schema_write plan\<rparr>)))"

definition directive_resolution ::
  "yaml \<Rightarrow> schema_directive \<Rightarrow> dataset_column list \<Rightarrow> inferred_type list \<Rightarrow> inferred_type list
   \<Rightarrow> (execution_failure, resolution) result" where
  "directive_resolution Y directive columns all_types survivor_types =
     (case directive of
        Inferred _ overrides \<Rightarrow> Inr (inferred_resolution Y columns survivor_types None overrides)
      | Pin_Inferred pinned_path _ overrides \<Rightarrow>
          Inr (inferred_resolution Y columns survivor_types (Some pinned_path) overrides)
      | Pinned pinned_path pin drift_policy _ overrides \<Rightarrow>
          pinned_resolution Y pinned_path pin drift_policy overrides columns all_types survivor_types)"

definition prepend_checks :: "field_check list \<Rightarrow> resolution \<Rightarrow> resolution" where
  "prepend_checks merge_checks rs =
     (if merge_checks \<noteq> [] then rs\<lparr>rs_checks := merge_checks @ rs_checks rs\<rparr> else rs)"

definition resolve_plan ::
  "yaml \<Rightarrow> schema_directive \<Rightarrow> merge_keys \<Rightarrow> string list \<Rightarrow> inferred_type list \<Rightarrow> inferred_type list
   \<Rightarrow> (execution_failure, resolution) result" where
  "resolve_plan Y directive merge_keys field_names all_types survivor_types =
     stamped_resolution directive
       (rbind (resolve_transform directive field_names) (\<lambda>columns.
        rbind (check_override_names directive columns) (\<lambda>_.
        rbind (merge_key_checks directive merge_keys columns) (\<lambda>merge_checks.
        rbind (directive_resolution Y directive columns all_types survivor_types) (\<lambda>rs.
          Inr (prepend_checks merge_checks rs))))))"

end
