(* ===== verification/Resolve_Facts.thy ===== *)
theory Resolve_Facts
  imports Schema_Resolve
begin

section \<open>What a successful resolution establishes\<close>

text \<open>
  Lemmas about \<open>resolve_transform\<close>, \<open>match_shape\<close> and \<open>resolve_plan\<close> of
  \<open>src/schema.rs\<close>: the sources, names and indexes of the dataset columns, the checks
  a directive fixes before the input is read against the checks the resolution ends in,
  and the plan against the pin.
\<close>

subsection \<open>Dataset columns\<close>

lemma set_foldl_push_new: "set (foldl push_new unknown names) = set unknown \<union> set names"
  by (induction names arbitrary: unknown) (auto simp: push_new_def)

lemma foldl_push_new_Nil_iff: "foldl push_new unknown names = [] \<longleftrightarrow> unknown = [] \<and> names = []"
  using set_foldl_push_new [of unknown names] by (metis Un_empty set_empty)

lemma fst_zip_index: "length xs = n \<Longrightarrow> fst ` set (zip xs [0..<n]) = set xs"
  by (simp flip: set_map)

lemma observed_indexes_None_iff [simp]: "observed_indexes names n = None \<longleftrightarrow> n \<notin> set names"
  by (simp add: observed_indexes_def map_of_eq_None_iff fst_zip_index)

lemma observed_indexes_Some: "observed_indexes names n = Some i \<Longrightarrow> i < length names \<and> names ! i = n"
  by (auto simp: observed_indexes_def in_set_zip dest!: map_of_SomeD)

lemma flatten_positions_None_iff [simp]: "flatten_positions fl n = None \<longleftrightarrow> n \<notin> fl_output ` set fl"
  by (simp add: flatten_positions_def map_of_eq_None_iff fst_zip_index)

lemma flatten_positions_Some: "flatten_positions fl n = Some p \<Longrightarrow> p < length fl \<and> fl_output (fl ! p) = n"
  by (auto simp: flatten_positions_def in_set_zip dest!: map_of_SomeD)

lemma transform_unknown_Nil_iff:
  "transform_unknown tr names = [] \<longleftrightarrow>
     (\<forall>n\<in>set (case tr_select tr of None \<Rightarrow> [] | Some sel \<Rightarrow> sel) \<union> fst ` set (tr_rename tr).
        n \<in> set names \<or> n \<in> fl_output ` set (tr_flatten tr))
     \<and> (\<forall>e\<in>set (tr_flatten tr). hd (fl_segments e) \<in> set names)"
  by (auto simp: transform_unknown_def Let_def foldl_push_new_Nil_iff filter_empty_conv)

lemma resolve_transform_Inr_iff:
  "resolve_transform d names = Inr columns \<longleftrightarrow>
     transform_unknown (dir_transform d) names = []
     \<and> (\<forall>e\<in>set (tr_flatten (dir_transform d)). fl_output e \<notin> set names)
     \<and> columns = transform_columns (dir_transform d) names
     \<and> (\<forall>c\<in>set columns. \<not> column_collides columns c)"
  by (auto simp: resolve_transform_def Let_def find_case_Inr_iff)

definition is_flatten_column :: "schema_transform \<Rightarrow> string list \<Rightarrow> nat \<Rightarrow> dataset_column \<Rightarrow> bool" where
  "is_flatten_column tr names p c \<longleftrightarrow> p < length (tr_flatten tr) \<and> c = flatten_column tr names p"

definition is_field_column :: "schema_transform \<Rightarrow> string list \<Rightarrow> string \<Rightarrow> dataset_column \<Rightarrow> bool" where
  "is_field_column tr names s c \<longleftrightarrow>
     (\<exists>i < length names. names ! i = s \<and> c = field_column tr s i) \<and> s \<notin> fl_output ` set (tr_flatten tr)
     \<and> (\<forall>sel. tr_select tr = Some sel \<longrightarrow> s \<in> set sel)"

lemma transform_columns_cases:
  assumes "resolve_transform d names = Inr columns" "c \<in> set columns"
  shows "(\<exists>p. is_flatten_column (dir_transform d) names p c) \<or> (\<exists>s. is_field_column (dir_transform d) names s c)"
proof -
  let ?tr = "dir_transform d"
  note r = assms(1) [unfolded resolve_transform_Inr_iff]
  show ?thesis
  proof (cases "tr_select ?tr")
    case None
    then consider (field) i where "i < length names" "c = field_column ?tr (names ! i) i"
      | (flat) p where "p < length (tr_flatten ?tr)" "c = flatten_column ?tr names p"
      using r assms(2) by (auto simp: transform_columns_def set_zip)
    then show ?thesis
    proof cases
      case field
      then have "is_field_column ?tr names (names ! i) c"
        using r None nth_mem [of i names] unfolding is_field_column_def by (metis imageE option.discI)
      then show ?thesis by blast
    qed (auto simp: is_flatten_column_def)
  next
    case (Some sel)
    then obtain s where s: "s \<in> set sel" "c = select_column ?tr names s"
      using r assms(2) by (auto simp: transform_columns_def)
    show ?thesis
    proof (cases "flatten_positions (tr_flatten ?tr) s")
      case None
      then have "s \<in> set names"
        using r s Some by (auto simp: transform_unknown_Nil_iff)
      then obtain i where i: "observed_indexes names s = Some i"
        by (cases "observed_indexes names s") auto
      then have "c = field_column ?tr s i"
        using None s by (simp add: select_column_def del: flatten_positions_None_iff)
      then have "is_field_column ?tr names s c"
        using None s(1) Some observed_indexes_Some [OF i] by (auto simp: is_field_column_def)
      then show ?thesis by blast
    next
      case (Some p)
      then show ?thesis
        using s flatten_positions_Some [OF Some] by (auto simp: is_flatten_column_def select_column_def)
    qed
  qed
qed

lemma column_index_bound:
  assumes "resolve_transform d names = Inr columns" "c \<in> set columns"
  shows "dc_observed_index c < length names + length (tr_flatten (dir_transform d))"
  using transform_columns_cases [OF assms]
  by (auto simp: is_flatten_column_def is_field_column_def flatten_column_def field_column_def Let_def)

lemma column_collision:
  assumes "resolve_transform d names = Inr columns" "c \<in> set columns" "c' \<in> set columns"
    "dc_dataset_name c = dc_dataset_name c'" "name_changed c \<or> name_changed c'"
  shows "c = c'"
proof (rule ccontr)
  assume ne: "c \<noteq> c'"
  let ?f = "columns_named columns (dc_dataset_name c)"
  have "{c, c'} \<subseteq> set ?f" using assms by (auto simp: columns_named_def)
  then have "card {c, c'} \<le> length ?f" by (meson List.finite_set card_length card_mono le_trans)
  then have "1 < length ?f" using ne by simp
  moreover have "list_ex name_changed ?f"
    using assms by (auto simp: columns_named_def list_ex_iff)
  ultimately have "column_collides columns c" by (simp add: column_collides_def)
  then show False using assms(1,2) by (auto simp: resolve_transform_Inr_iff)
qed

lemma field_column_exists:
  assumes "resolve_transform d names = Inr columns" "tr_select (dir_transform d) = None" "s \<in> set names"
  shows "\<exists>c\<in>set columns. dc_source c = Field s \<and> dc_dataset_name c = dataset_name (dir_transform d) s"
proof -
  obtain i where "i < length names" "names ! i = s" using assms(3) by (auto simp: in_set_conv_nth)
  then have "(i, s) \<in> set (zip [0..<length names] names)"
    unfolding in_set_zip by (intro exI [of _ i]) simp
  then have "field_column (dir_transform d) s i \<in> set columns"
    using assms(1,2) by (force simp: resolve_transform_Inr_iff transform_columns_def)
  then show ?thesis by (intro bexI [of _ "field_column (dir_transform d) s i"]) (simp_all add: field_column_def)
qed

lemma flatten_column_exists:
  assumes "resolve_transform d names = Inr columns" "tr_select (dir_transform d) = None"
    "e \<in> set (tr_flatten (dir_transform d))"
  shows "\<exists>c\<in>set columns. dc_source c = Path (fl_segments e)
     \<and> dc_dataset_name c = dataset_name (dir_transform d) (fl_output e)"
proof -
  obtain p where "p < length (tr_flatten (dir_transform d))" "tr_flatten (dir_transform d) ! p = e"
    using assms(3) by (auto simp: in_set_conv_nth)
  then have "flatten_column (dir_transform d) names p \<in> set columns"
    using assms(1,2) by (simp add: resolve_transform_Inr_iff transform_columns_def)
  moreover have "dc_source (flatten_column (dir_transform d) names p) = Path (fl_segments e)
      \<and> dc_dataset_name (flatten_column (dir_transform d) names p) = dataset_name (dir_transform d) (fl_output e)"
    using \<open>tr_flatten (dir_transform d) ! p = e\<close> by (simp add: flatten_column_def Let_def)
  ultimately show ?thesis by blast
qed

subsection \<open>The reverse lookup of a dataset name\<close>

text \<open>
  \<open>json_source_address\<close> knows only the configuration. For every column of a resolved
  transform it returns the address the column really reads.
\<close>

lemma rename_source_column:
  assumes res: "resolve_transform d names = Inr columns" and wf: "transform_wf (dir_transform d)"
    and sel: "tr_select (dir_transform d) = None" and rn: "(s, t) \<in> set (tr_rename (dir_transform d))"
  shows "\<exists>c\<in>set columns. dc_dataset_name c = t \<and> (dc_source c = Field s \<or> (\<exists>p. dc_source c = Path p))"
proof -
  let ?tr = "dir_transform d"
  have t: "dataset_name ?tr s = t"
    by (rule dataset_name_rename [OF transform_wfD(1) [OF wf] rn])
  have "s \<in> fst ` set (tr_rename ?tr)" using rn by force
  then have "s \<in> set names \<or> s \<in> fl_output ` set (tr_flatten ?tr)"
    using res unfolding resolve_transform_Inr_iff transform_unknown_Nil_iff by blast
  then show ?thesis
  proof
    assume "s \<in> set names"
    then show ?thesis using field_column_exists [OF res sel] t by blast
  next
    assume "s \<in> fl_output ` set (tr_flatten ?tr)"
    then obtain e where "e \<in> set (tr_flatten ?tr)" "s = fl_output e" by blast
    then show ?thesis using flatten_column_exists [OF res sel] t by blast
  qed
qed

lemma flatten_address:
  assumes wf: "transform_wf tr" and e: "e \<in> set (tr_flatten tr)"
  shows "json_source_address tr (dataset_name tr (fl_output e)) = Path (fl_segments e)"
  using find_distinct [OF transform_wfD(5) [OF wf] e]
  by (simp add: json_source_address_def)

lemma field_address:
  assumes wf: "transform_wf tr"
    and no_flat: "\<And>e. e \<in> set (tr_flatten tr) \<Longrightarrow> dataset_name tr (fl_output e) \<noteq> dataset_name tr s"
    and no_rename: "s \<notin> fst ` set (tr_rename tr) \<Longrightarrow> s \<notin> snd ` set (tr_rename tr)"
  shows "json_source_address tr (dataset_name tr s) = Field s"
proof -
  have nf: "List.find (\<lambda>entry. dataset_name tr (fl_output entry) = dataset_name tr s) (tr_flatten tr) = None"
    using no_flat by (simp add: find_None_iff)
  show ?thesis
  proof (cases "s \<in> fst ` set (tr_rename tr)")
    case True
    then obtain t where t: "(s, t) \<in> set (tr_rename tr)" by auto
    then have "List.find (\<lambda>x. snd x = snd (s, t)) (tr_rename tr) = Some (s, t)"
      by (rule find_distinct [OF transform_wfD(2) [OF wf]])
    then show ?thesis
      using nf dataset_name_rename [OF transform_wfD(1) [OF wf] t]
      by (simp add: json_source_address_def case_prod_unfold)
  next
    case False
    then have "dataset_name tr s = s" by (rule dataset_name_no_rename)
    moreover have "List.find (\<lambda>x. snd x = s) (tr_rename tr) = None"
      using no_rename [OF False] by (simp add: find_key_None_iff)
    ultimately show ?thesis using nf by (simp add: json_source_address_def case_prod_unfold)
  qed
qed

lemma column_address:
  assumes res: "resolve_transform d names = Inr columns" and wf: "transform_wf (dir_transform d)"
    and c: "c \<in> set columns"
  shows "json_source_address (dir_transform d) (dc_dataset_name c) = dc_source c"
proof -
  let ?tr = "dir_transform d"
  from transform_columns_cases [OF res c] show ?thesis
  proof (elim disjE exE)
    fix p assume "is_flatten_column ?tr names p c"
    then show ?thesis
      using flatten_address [OF wf, of "tr_flatten ?tr ! p"]
      by (simp add: is_flatten_column_def flatten_column_def Let_def)
  next
    fix s assume f: "is_field_column ?tr names s c"
    then have cs: "dc_dataset_name c = dataset_name ?tr s" "dc_source c = Field s"
      by (auto simp: is_field_column_def field_column_def)
    have "json_source_address ?tr (dataset_name ?tr s) = Field s"
    proof (rule field_address [OF wf])
      fix e assume e: "e \<in> set (tr_flatten ?tr)"
      show "dataset_name ?tr (fl_output e) \<noteq> dataset_name ?tr s"
      proof (cases "tr_select ?tr")
        case None
        then obtain c' where "c' \<in> set columns" "dc_source c' = Path (fl_segments e)"
            "dc_dataset_name c' = dataset_name ?tr (fl_output e)"
          using flatten_column_exists [OF res None e] by blast
        then show ?thesis
          using column_collision [OF res c, of c'] cs by (auto simp: name_changed_def)
      next
        case (Some sel)
        have "fl_output e \<in> set sel" using transform_wfD(6) [OF wf Some] e by blast
        moreover have "s \<in> set sel" "fl_output e \<noteq> s" using f e Some unfolding is_field_column_def by blast+
        moreover have "inj_on (dataset_name ?tr) (set sel)"
          using transform_wfD(6) [OF wf Some] by (simp add: distinct_map)
        ultimately show ?thesis by (metis inj_onD)
      qed
    next
      assume nr: "s \<notin> fst ` set (tr_rename ?tr)"
      then have ns: "dataset_name ?tr s = s" by (rule dataset_name_no_rename)
      show "s \<notin> snd ` set (tr_rename ?tr)"
      proof
        assume "s \<in> snd ` set (tr_rename ?tr)"
        then obtain s' where s': "(s', s) \<in> set (tr_rename ?tr)" by auto
        then have ne: "s' \<noteq> s" using nr by force
        have ds': "dataset_name ?tr s' = s"
          by (rule dataset_name_rename [OF transform_wfD(1) [OF wf] s'])
        show False
        proof (cases "tr_select ?tr")
          case None
          obtain c' where "c' \<in> set columns" "dc_dataset_name c' = s"
              "dc_source c' = Field s' \<or> (\<exists>p. dc_source c' = Path p)"
            using rename_source_column [OF res wf None s'] by blast
          then show ?thesis
            using column_collision [OF res c, of c'] cs ns ne by (auto simp: name_changed_def)
        next
          case (Some sel)
          have "s' \<in> fst ` set (tr_rename ?tr)" using s' by force
          then have "s' \<in> set sel" using transform_wfD(6) [OF wf Some] by blast
          moreover have "s \<in> set sel" using f Some by (simp add: is_field_column_def)
          moreover have "inj_on (dataset_name ?tr) (set sel)"
            using transform_wfD(6) [OF wf Some] by (simp add: distinct_map)
          ultimately show ?thesis using ds' ns ne by (metis inj_onD)
        qed
      qed
    qed
    then show ?thesis using cs by simp
  qed
qed

text \<open>Distinct observed names give distinct dataset names.\<close>

lemma column_names_inj:
  assumes res: "resolve_transform d names = Inr columns" and dn: "distinct names"
    and c: "c \<in> set columns" "c' \<in> set columns" and eq: "dc_dataset_name c = dc_dataset_name c'"
  shows "c = c'"
proof (rule ccontr)
  assume ne: "c \<noteq> c'"
  then have nc: "\<not> name_changed c" "\<not> name_changed c'"
    using column_collision [OF res c eq] by blast+
  have "\<exists>i < length names. c = field_column (dir_transform d) (names ! i) i \<and> dc_dataset_name c = names ! i"
    if "c \<in> set columns" "\<not> name_changed c" for c
    using transform_columns_cases [OF res that(1)] that(2)
    by (auto simp: is_flatten_column_def is_field_column_def flatten_column_def field_column_def
        name_changed_def Let_def)
  then obtain i j where "i < length names" "j < length names" "c = field_column (dir_transform d) (names ! i) i"
      "c' = field_column (dir_transform d) (names ! j) j" "names ! i = names ! j"
    using c nc eq by metis
  then show False using ne dn by (simp add: nth_eq_iff_index_eq)
qed

lemma transform_columns_distinct:
  assumes res: "resolve_transform d names = Inr columns" and wf: "transform_wf (dir_transform d)"
    and dn: "distinct names"
  shows "distinct (map dc_dataset_name columns)"
proof (cases "tr_select (dir_transform d)")
  case (Some sel)
  have nm: "dc_dataset_name (select_column (dir_transform d) names s) = dataset_name (dir_transform d) s" for s
    by (auto simp: select_column_def flatten_column_def field_column_def Let_def
        split: option.split dest: flatten_positions_Some)
  have "columns = map (select_column (dir_transform d) names) sel"
    using res Some by (simp add: resolve_transform_Inr_iff transform_columns_def)
  then have "map dc_dataset_name columns = map (dataset_name (dir_transform d)) sel"
    by (simp add: comp_def nm)
  then show ?thesis using transform_wfD(6) [OF wf Some] by simp
next
  case None
  then have cs: "columns = map (\<lambda>(i, s). field_column (dir_transform d) s i) (zip [0..<length names] names)
      @ map (flatten_column (dir_transform d) names) [0..<length (tr_flatten (dir_transform d))]"
    using res by (simp add: resolve_transform_Inr_iff transform_columns_def)
  have "map dc_observed_index columns =
      [0..<length names] @ map (\<lambda>p. length names + p) [0..<length (tr_flatten (dir_transform d))]"
    unfolding cs by (simp add: case_prod_unfold field_column_def flatten_column_def Let_def comp_def)
  moreover have "distinct \<dots>" by (auto simp: distinct_map inj_on_def)
  ultimately have "distinct (map dc_observed_index columns)" by simp
  then have "distinct columns" by (simp add: distinct_map)
  then show ?thesis
    using column_names_inj [OF res dn] by (auto simp: distinct_map inj_on_def)
qed

subsection \<open>The steps of a successful resolution\<close>

lemma scan_merge_keys_eq:
  "scan_merge_keys columns checks unknown keys =
     (checks @ List.map_filter (\<lambda>k. map_option merge_key_check (column_named columns k)) keys,
      unknown @ filter (\<lambda>k. column_named columns k = None) keys)"
  by (induction keys arbitrary: checks unknown)
    (auto simp: column_named_def map_filter_simps split: option.splits)

lemma map_filter_all_Some:
  "\<forall>x\<in>set xs. f x \<noteq> None \<Longrightarrow> List.map_filter (\<lambda>x. map_option (g x) (f x)) xs = map (\<lambda>x. g x (the (f x))) xs"
  by (induction xs) (auto simp: map_filter_simps)

lemma set_map_filter: "set (List.map_filter f xs) = {y. \<exists>x\<in>set xs. f x = Some y}"
  by (induction xs) (auto simp: map_filter_simps split: option.splits)

lemma merge_key_checks_Inr_iff:
  "merge_key_checks d keys columns = Inr checks \<longleftrightarrow>
     (\<forall>k\<in>set keys. column_named columns k \<noteq> None)
     \<and> checks = map (\<lambda>k. merge_key_check (the (column_named columns k))) keys"
proof -
  have "merge_key_checks d keys columns = Inr checks \<longleftrightarrow>
      (\<forall>k\<in>set keys. column_named columns k \<noteq> None)
      \<and> checks = List.map_filter (\<lambda>k. map_option merge_key_check (column_named columns k)) keys"
    by (auto simp: merge_key_checks_def scan_merge_keys_eq filter_empty_conv)
  then show ?thesis using map_filter_all_Some [of keys "column_named columns"] by auto
qed

lemma column_named_Some: "column_named columns n = Some c \<Longrightarrow> c \<in> set columns \<and> dc_dataset_name c = n"
  unfolding column_named_def by (rule find_Some_iff')

lemma column_named_None_iff: "column_named columns n = None \<longleftrightarrow> n \<notin> dc_dataset_name ` set columns"
  by (simp add: column_named_def find_key_None_iff)

lemma column_named_distinct:
  "distinct (map dc_dataset_name columns) \<Longrightarrow> c \<in> set columns \<Longrightarrow>
   column_named columns (dc_dataset_name c) = Some c"
  unfolding column_named_def by (rule find_distinct)

lemma check_override_names_Inr_iff:
  "check_override_names d columns = Inr u \<longleftrightarrow> ov_name ` set (dir_overrides d) \<subseteq> dc_dataset_name ` set columns"
  by (auto simp: check_override_names_def Let_def unknown_names_Nil_iff)

lemma match_shape_Inr_iff:
  "match_shape path pin policy columns = Inr sm \<longleftrightarrow>
     distinct (map dc_dataset_name columns)
     \<and> pf_name ` set pin \<subseteq> dc_dataset_name ` set columns
     \<and> (policy = Drift_Fail \<longrightarrow> dc_dataset_name ` set columns \<subseteq> pf_name ` set pin)
     \<and> sm = \<lparr>sm_matched = map (\<lambda>f. pinned_planned f (the (column_named columns (pf_name f)))) pin,
            sm_added = added_columns pin columns\<rparr>"
proof -
  have m: "missing_fields pin columns = [] \<longleftrightarrow> pf_name ` set pin \<subseteq> dc_dataset_name ` set columns"
    by (auto simp: missing_fields_def filter_empty_conv column_named_None_iff)
  have a: "added_columns pin columns = [] \<longleftrightarrow> dc_dataset_name ` set columns \<subseteq> pf_name ` set pin"
    by (auto simp: added_columns_def filter_empty_conv)
  have mt: "matched_fields pin columns = map (\<lambda>f. pinned_planned f (the (column_named columns (pf_name f)))) pin"
    if "pf_name ` set pin \<subseteq> dc_dataset_name ` set columns"
    unfolding matched_fields_def using that
    by (intro map_filter_all_Some) (auto simp: column_named_None_iff simp del: not_None_eq)
  show ?thesis
    unfolding match_shape_def first_dup_case_Inr_iff Let_def
    using m a mt by (cases policy) auto
qed

definition plan_steps ::
  "yaml \<Rightarrow> schema_directive \<Rightarrow> merge_keys \<Rightarrow> string list \<Rightarrow> inferred_type list \<Rightarrow> inferred_type list
   \<Rightarrow> dataset_column list \<Rightarrow> resolution \<Rightarrow> bool" where
  "plan_steps Y d keys names all_types survivor_types columns rs \<longleftrightarrow>
     resolve_transform d names = Inr columns
     \<and> ov_name ` set (dir_overrides d) \<subseteq> dc_dataset_name ` set columns
     \<and> (\<forall>k\<in>set keys. column_named columns k \<noteq> None)
     \<and> directive_resolution Y d columns all_types survivor_types = Inr rs"

lemma resolve_plan_Inr_iff:
  "resolve_plan Y d keys names all_types survivor_types = Inr rs \<longleftrightarrow>
     (\<exists>columns rs0. plan_steps Y d keys names all_types survivor_types columns rs0
        \<and> rs = rs0\<lparr>rs_checks := map (\<lambda>k. merge_key_check (the (column_named columns k))) keys @ rs_checks rs0,
                  rs_decision := dir_stamp d (rs_decision rs0)\<rparr>)"
proof -
  have st: "stamped_resolution d r = Inr rs \<longleftrightarrow>
      (\<exists>rs0. r = Inr rs0 \<and> rs = rs0\<lparr>rs_decision := dir_stamp d (rs_decision rs0)\<rparr>)" for r
    by (cases r) (auto simp: stamped_resolution_def)
  have pc: "prepend_checks cs rs0 = rs0\<lparr>rs_checks := cs @ rs_checks rs0\<rparr>" for cs and rs0 :: resolution
    by (simp add: prepend_checks_def)
  show ?thesis
    unfolding resolve_plan_def st plan_steps_def
    by (auto simp: rbind_eq_Inr_iff check_override_names_Inr_iff merge_key_checks_Inr_iff pc)
qed

lemma pinned_resolution_Inr_iff:
  "pinned_resolution Y path pin policy overrides columns all_types survivor_types = Inr rs \<longleftrightarrow>
     (\<exists>sm. check_override_conflicts path pin overrides = Inr () \<and> match_shape path pin policy columns = Inr sm
        \<and> undeclared_fields (sm_matched sm) overrides = []
        \<and> (let plan = assemble_pinned_plan Y path (sm_matched sm)
               (planned_added_fields (sm_added sm) survivor_types overrides)
           in rs = \<lparr>rs_plan = chunk_plan_new (fp_fields plan),
               rs_checks = pinned_checks (sm_matched sm) @ override_checks overrides (sm_added sm),
               rs_decision = fp_decision plan, rs_pinned_schema_write = fp_pinned_schema_write plan\<rparr>))"
proof -
  have "check_declared_type_overrides path pin matched overrides types = Inr () \<longleftrightarrow>
      undeclared_fields matched overrides = []" for matched and types
    by (simp add: check_declared_type_overrides_def Let_def)
  then show ?thesis
    by (auto simp: pinned_resolution_def rbind_eq_Inr_iff Let_def)
qed

subsection \<open>Checks before and after the input is read\<close>

definition unindexed :: "field_check \<Rightarrow> field_check" where
  "unindexed check = check\<lparr>fc_observed_index := 0\<rparr>"

lemma unindexed_violated [simp]:
  "json_check_violated C object (unindexed check) = json_check_violated C object check"
  by (simp add: json_check_violated_def unindexed_def split: option.split prod.split)

lemma violates_unindexed:
  assumes "set (map unindexed checks) = set (map unindexed checks')"
  shows "json_record_violates C rec checks \<longleftrightarrow> json_record_violates C rec checks'"
proof -
  have "json_record_violates C rec cs \<longleftrightarrow> (\<exists>c\<in>unindexed ` set cs. json_check_violated C (js_object rec) c)" for cs
    by (auto simp: json_record_violates_def list_ex_iff)
  from this [of checks] this [of checks'] show ?thesis using assms by (simp only: set_map)
qed

text \<open>The check a directive fixes for a merge key, a pinned field and an override.\<close>

definition key_check_of :: "schema_transform \<Rightarrow> string \<Rightarrow> field_check" where
  "key_check_of tr key =
     \<lparr>fc_name = key, fc_source = json_source_address tr key, fc_observed_index = 0,
      fc_expected_type = None, fc_required = Some Req_MergeKey\<rparr>"

definition pin_check_of :: "schema_transform \<Rightarrow> pinned_field \<Rightarrow> field_check" where
  "pin_check_of tr f =
     \<lparr>fc_name = pf_name f, fc_source = json_source_address tr (pf_name f), fc_observed_index = 0,
      fc_expected_type = Some (pf_field_type f, Origin_Pinned), fc_required = schema_required (\<not> pf_nullable f)\<rparr>"

definition override_check_of :: "schema_transform \<Rightarrow> field_override \<Rightarrow> field_check" where
  "override_check_of tr ov =
     \<lparr>fc_name = ov_name ov, fc_source = json_source_address tr (ov_name ov), fc_observed_index = 0,
      fc_expected_type = override_type_check ov, fc_required = schema_required (ov_nullable ov = Some False)\<rparr>"

lemma directive_checks_eq:
  "directive_checks d keys =
     map (key_check_of (dir_transform d)) keys @ map (pin_check_of (dir_transform d)) (directive_pin d)
     @ map (override_check_of (dir_transform d))
         (filter (\<lambda>ov. ov_name ov \<notin> pf_name ` set (directive_pin d)) (dir_overrides d))"
  by (simp add: directive_checks_def Let_def key_check_of_def [abs_def] pin_check_of_def [abs_def]
      override_check_of_def [abs_def])

lemma set_override_checks:
  "set (override_checks overrides columns) =
     {override_check c ov | c ov. c \<in> set columns \<and> override_get overrides (dc_dataset_name c) = Some ov}"
  by (force simp: override_checks_def set_map_filter)

lemma override_checks_unindexed:
  assumes res: "resolve_transform d names = Inr columns" and wf: "transform_wf (dir_transform d)"
    and ovs: "overrides_ok ovs" and sub: "set cols \<subseteq> set columns"
  shows "unindexed ` set (override_checks ovs cols) =
    override_check_of (dir_transform d) ` {ov \<in> set ovs. ov_name ov \<in> dc_dataset_name ` set cols}"
proof -
  have one: "unindexed (override_check c ov) = override_check_of (dir_transform d) ov"
    if "c \<in> set cols" "ov_name ov = dc_dataset_name c" for c ov
    using column_address [OF res wf, of c] that sub
    by (auto simp: unindexed_def override_check_def override_check_of_def)
  have get: "override_get ovs (ov_name ov) = Some ov" if "ov \<in> set ovs" for ov
    unfolding override_get_def using ovs that by (intro find_distinct) (auto simp: overrides_ok_def)
  show ?thesis (is "?L = ?R")
  proof
    show "?L \<subseteq> ?R"
      unfolding set_override_checks using one by (auto dest!: override_get_Some)
    show "?R \<subseteq> ?L"
    proof
      fix x assume "x \<in> ?R"
      then obtain ov c where "ov \<in> set ovs" "c \<in> set cols" "ov_name ov = dc_dataset_name c"
          "x = override_check_of (dir_transform d) ov" by auto
      then show "x \<in> ?L"
        unfolding set_override_checks using one [of c ov] get [of ov]
        by (intro image_eqI [of _ _ "override_check c ov"]) auto
    qed
  qed
qed

lemma merge_key_check_unindexed:
  assumes res: "resolve_transform d names = Inr columns" and wf: "transform_wf (dir_transform d)"
    and k: "column_named columns k \<noteq> None"
  shows "unindexed (merge_key_check (the (column_named columns k))) = key_check_of (dir_transform d) k"
proof -
  obtain c where c: "column_named columns k = Some c" using k by blast
  then show ?thesis
    using column_named_Some [OF c] column_address [OF res wf, of c]
    by (auto simp: unindexed_def merge_key_check_def key_check_of_def)
qed

lemma pinned_check_unindexed:
  assumes res: "resolve_transform d names = Inr columns" and wf: "transform_wf (dir_transform d)"
    and f: "pf_name f \<in> dc_dataset_name ` set columns"
  shows "map unindexed (pinned_checks [pinned_planned f (the (column_named columns (pf_name f)))])
    = [pin_check_of (dir_transform d) f]"
proof -
  obtain c where c: "column_named columns (pf_name f) = Some c"
    using f column_named_None_iff [of columns "pf_name f"] by blast
  then show ?thesis
    using column_named_Some [OF c] column_address [OF res wf, of c]
    by (simp add: pinned_checks_def pinned_planned_def unindexed_def pin_check_of_def)
qed

lemma image_filter_out: "f ` {x \<in> A. f x \<notin> B} = f ` A - B"
  by blast

lemma added_names: "dc_dataset_name ` set (added_columns pin columns) = dc_dataset_name ` set columns - pf_name ` set pin"
  by (simp add: added_columns_def image_filter_out)

lemma pinned_checks_unindexed:
  assumes "resolve_transform d names = Inr columns" "transform_wf (dir_transform d)"
    "pf_name ` set pin \<subseteq> dc_dataset_name ` set columns"
  shows "map unindexed (pinned_checks (map (\<lambda>f. pinned_planned f (the (column_named columns (pf_name f)))) pin))
    = map (pin_check_of (dir_transform d)) pin"
  using assms(3)
proof (induction pin)
  case (Cons f pin)
  then show ?case
    using pinned_check_unindexed [OF assms(1,2), of f] by (simp add: pinned_checks_def)
qed (simp add: pinned_checks_def)

lemma directive_resolution_checks:
  assumes res: "resolve_transform d names = Inr columns" and ok: "dir_ok d"
    and sub: "ov_name ` set (dir_overrides d) \<subseteq> dc_dataset_name ` set columns"
    and rs: "directive_resolution Y d columns all_types survivor_types = Inr rs"
  shows "set (map unindexed (rs_checks rs)) =
     set (map (pin_check_of (dir_transform d)) (directive_pin d)
       @ map (override_check_of (dir_transform d))
           (filter (\<lambda>ov. ov_name ov \<notin> pf_name ` set (directive_pin d)) (dir_overrides d)))"
proof -
  have wf: "transform_wf (dir_transform d)" and ovs: "overrides_ok (dir_overrides d)"
    using ok by (simp_all add: dir_ok_def)
  note oc = override_checks_unindexed [OF res wf ovs]
  show ?thesis
  proof (cases d)
    case (Pinned path pin policy tr overrides)
    then obtain sm where sm: "match_shape path pin policy columns = Inr sm"
      and checks: "rs_checks rs = pinned_checks (sm_matched sm) @ override_checks overrides (sm_added sm)"
      using rs by (auto simp: directive_resolution_def pinned_resolution_Inr_iff Let_def)
    have m: "sm_matched sm = map (\<lambda>f. pinned_planned f (the (column_named columns (pf_name f)))) pin"
      and a: "sm_added sm = added_columns pin columns"
      and p: "pf_name ` set pin \<subseteq> dc_dataset_name ` set columns"
      using sm by (auto simp: match_shape_Inr_iff)
    have "{ov \<in> set overrides. ov_name ov \<in> dc_dataset_name ` set (added_columns pin columns)} =
        {ov \<in> set overrides. ov_name ov \<notin> pf_name ` set pin}"
      using sub Pinned unfolding added_names by (simp add: subset_iff) blast
    then have "unindexed ` set (override_checks overrides (added_columns pin columns)) =
        override_check_of tr ` {ov \<in> set overrides. ov_name ov \<notin> pf_name ` set pin}"
      using oc [of "added_columns pin columns"] Pinned by (auto simp: added_columns_def)
    moreover have "map unindexed (pinned_checks (sm_matched sm)) = map (pin_check_of tr) pin"
      using pinned_checks_unindexed [OF res wf p] m Pinned by simp
    ultimately have "set (map unindexed (rs_checks rs)) = set (map (pin_check_of tr) pin)
        \<union> override_check_of tr ` {ov \<in> set overrides. ov_name ov \<notin> pf_name ` set pin}"
      unfolding checks a map_append set_append by (simp only: set_map)
    then show ?thesis by (simp add: Pinned)
  next
    case (Inferred tr overrides)
    then show ?thesis
      using rs oc [of columns] sub
      by (auto simp: directive_resolution_def inferred_resolution_def Let_def image_subset_iff)
  next
    case (Pin_Inferred path tr overrides)
    then show ?thesis
      using rs oc [of columns] sub
      by (auto simp: directive_resolution_def inferred_resolution_def Let_def image_subset_iff)
  qed
qed

lemma resolve_plan_checks:
  assumes ok: "dir_ok d" and rs: "resolve_plan Y d keys names all_types survivor_types = Inr rs"
  shows "set (map unindexed (rs_checks rs)) = set (map unindexed (directive_checks d keys))"
proof -
  obtain columns rs0 where st: "plan_steps Y d keys names all_types survivor_types columns rs0"
    and rs: "rs = rs0\<lparr>rs_checks := map (\<lambda>k. merge_key_check (the (column_named columns k))) keys @ rs_checks rs0,
        rs_decision := dir_stamp d (rs_decision rs0)\<rparr>"
    using rs by (auto simp: resolve_plan_Inr_iff)
  have res: "resolve_transform d names = Inr columns" and wf: "transform_wf (dir_transform d)"
    using st ok by (simp_all add: plan_steps_def dir_ok_def)
  have keys: "map (unindexed \<circ> (\<lambda>k. merge_key_check (the (column_named columns k)))) keys
      = map (key_check_of (dir_transform d)) keys"
    using st merge_key_check_unindexed [OF res wf] by (simp add: plan_steps_def)
  have sel: "rs_checks rs = map (\<lambda>k. merge_key_check (the (column_named columns k))) keys @ rs_checks rs0"
    using rs by simp
  have un: "unindexed \<circ> key_check_of tr = key_check_of tr" "unindexed \<circ> pin_check_of tr = pin_check_of tr"
    "unindexed \<circ> override_check_of tr = override_check_of tr" for tr
    by (simp_all add: fun_eq_iff unindexed_def key_check_of_def pin_check_of_def override_check_of_def)
  have "set (map unindexed (rs_checks rs0)) =
     set (map (pin_check_of (dir_transform d)) (directive_pin d)
       @ map (override_check_of (dir_transform d))
           (filter (\<lambda>ov. ov_name ov \<notin> pf_name ` set (directive_pin d)) (dir_overrides d)))"
    by (rule directive_resolution_checks [OF res ok, where Y = Y and all_types = all_types
        and survivor_types = survivor_types]) (use st in \<open>simp_all add: plan_steps_def\<close>)
  then show ?thesis
    unfolding sel directive_checks_eq map_append map_map un
    by (simp only: keys set_append)
qed

end
