(* ===== verification/Schema_Chunks.thy ===== *)
theory Schema_Chunks
  imports Schema_Plan
begin

section \<open>Chunks of surviving records\<close>

text \<open>
  \<open>src/schema.rs\<close>, lines 2704 to 3078: the columns pass 2 builds from surviving
  records, cell by cell, and their assembly into a record batch. The Arrow array and batch
  constructors that can fail are parameters; a batch is the schema and the columns it was
  made of. \<open>Display\<close> of a JSON value (\<open>serde_json\<close>) is the parameter \<open>show_json\<close>.
\<close>

subsection \<open>Columns\<close>

datatype column =
    Col_Boolean "bool option list"
  | Col_Int64 "int option list"
  | Col_Float64 "f64 option list"
  | Col_Utf8 "string option list"
  | Col_Timestamp "string option" "int option list"
  | Col_Decimal nat nat "int option list"

fun column_type :: "column \<Rightarrow> arrow_type" where
  "column_type (Col_Boolean _) = Arrow_Boolean"
| "column_type (Col_Int64 _) = Arrow_Int64"
| "column_type (Col_Float64 _) = Arrow_Float64"
| "column_type (Col_Utf8 _) = Arrow_Utf8"
| "column_type (Col_Timestamp tz _) = Arrow_Timestamp_Micros tz"
| "column_type (Col_Decimal prec sc _) = Arrow_Decimal128 prec sc"

fun column_nulls :: "column \<Rightarrow> bool list" where
  "column_nulls (Col_Boolean xs) = map (\<lambda>x. x = None) xs"
| "column_nulls (Col_Int64 xs) = map (\<lambda>x. x = None) xs"
| "column_nulls (Col_Float64 xs) = map (\<lambda>x. x = None) xs"
| "column_nulls (Col_Utf8 xs) = map (\<lambda>x. x = None) xs"
| "column_nulls (Col_Timestamp _ xs) = map (\<lambda>x. x = None) xs"
| "column_nulls (Col_Decimal _ _ xs) = map (\<lambda>x. x = None) xs"

record record_batch =
  rb_schema :: "arrow_field list"
  rb_columns :: "column list"

definition rb_rows :: "record_batch \<Rightarrow> nat" where
  "rb_rows b = (case rb_columns b of [] \<Rightarrow> 0 | c # _ \<Rightarrow> length (column_nulls c))"

text \<open>
  \<open>Decimal128Array::with_precision_and_scale\<close> and \<open>RecordBatch::try_new\<close>: the error text, or
  nothing to add.
\<close>

record arrow =
  ar_with_precision_and_scale :: "nat \<Rightarrow> nat \<Rightarrow> (string, unit) result"
  ar_try_new :: "arrow_field list \<Rightarrow> column list \<Rightarrow> (string, unit) result"

definition coercion_failure :: "nat \<Rightarrow> string \<Rightarrow> string \<Rightarrow> load_failure" where
  "coercion_failure column_index v tname =
     failure ''schema_coercion_failed''
       [Lit ''failed to coerce column '', Num (column_index + 1), Lit '' value '', Dbg v,
        Lit '' to '', Txt tname]"

definition timestamp_array :: "int option list \<Rightarrow> field_type \<Rightarrow> (load_failure, column) result" where
  "timestamp_array values ft =
     (case ft of Timestamptz \<Rightarrow> Inr (Col_Timestamp (Some ''UTC'') values)
      | _ \<Rightarrow> Inr (Col_Timestamp None values))"

definition decimal_array ::
  "arrow \<Rightarrow> int option list \<Rightarrow> nat \<Rightarrow> nat \<Rightarrow> nat \<Rightarrow> (load_failure, column) result" where
  "decimal_array A values prec sc column_index =
     map_err (\<lambda>error. coercion_failure column_index error (type_name (Decimal prec sc)))
       (rmap (\<lambda>_. Col_Decimal prec sc values) (ar_with_precision_and_scale A prec sc))"

subsection \<open>CSV cells\<close>

definition text_cell ::
  "nat \<Rightarrow> string \<Rightarrow> (string \<Rightarrow> 'a option) \<Rightarrow> text_record \<Rightarrow> (load_failure, 'a option) result" where
  "text_cell column_index tname parse rec =
     (case tx_cells rec ! column_index of
        None \<Rightarrow> Inr None
      | Some v \<Rightarrow> rmap Some (ok_or (parse v) (coercion_failure column_index v tname)))"

definition build_text_array ::
  "('d, 't) chrono \<Rightarrow> arrow \<Rightarrow> field_type \<Rightarrow> text_record list \<Rightarrow> nat \<Rightarrow> (load_failure, column) result" where
  "build_text_array C A ft records column_index =
     (case ft of
        Utf8 \<Rightarrow> Inr (Col_Utf8 (map (\<lambda>rec. tx_cells rec ! column_index) records))
      | Boolean \<Rightarrow> rmap Col_Boolean (traverse (text_cell column_index ''boolean'' parse_bool) records)
      | Int64 \<Rightarrow> rmap Col_Int64 (traverse (text_cell column_index ''int64'' parse_i64) records)
      | Float64 \<Rightarrow> rmap Col_Float64 (traverse (text_cell column_index ''float64'' parse_finite_f64) records)
      | Decimal prec sc \<Rightarrow>
          rbind (traverse (text_cell column_index (type_name ft) (\<lambda>v. parse_decimal_scaled v prec sc)) records)
            (\<lambda>values. decimal_array A values prec sc column_index)
      | _ \<Rightarrow>
          rbind (traverse (text_cell column_index (type_name ft) (\<lambda>v. parse_declared_timestamp C v ft)) records)
            (\<lambda>values. timestamp_array values ft))"

subsection \<open>JSON cells\<close>

fun json_scalar_to_string :: "(json \<Rightarrow> string) \<Rightarrow> json option \<Rightarrow> string option" where
  "json_scalar_to_string show_json None = None"
| "json_scalar_to_string show_json (Some JNull) = None"
| "json_scalar_to_string show_json (Some (JStr txt)) = Some txt"
| "json_scalar_to_string show_json (Some (JBool flag)) = Some (show_bool flag)"
| "json_scalar_to_string show_json (Some other) = Some (show_json other)"

fun json_boolean :: "json \<Rightarrow> bool option" where
  "json_boolean (JBool flag) = Some flag"
| "json_boolean other = None"

fun json_int64 :: "json \<Rightarrow> int option" where
  "json_int64 (JNum number) = as_i64 number"
| "json_int64 other = None"

fun json_float64 :: "json \<Rightarrow> f64 option" where
  "json_float64 (JNum number) = as_f64 number"
| "json_float64 other = None"

fun json_timestamp :: "('d, 't) chrono \<Rightarrow> field_type \<Rightarrow> json \<Rightarrow> int option" where
  "json_timestamp C ft (JStr txt) = parse_declared_timestamp C txt ft"
| "json_timestamp C ft other = None"

fun json_decimal :: "nat \<Rightarrow> nat \<Rightarrow> json \<Rightarrow> int option" where
  "json_decimal prec sc (JStr txt) = parse_decimal_scaled txt prec sc"
| "json_decimal prec sc (JNum number) =
     Option.bind (json_integer number) (\<lambda>i. rescale_decimal_integer i prec sc)"
| "json_decimal prec sc other = None"

text \<open>The value a coercion failure shows: a string as it is, anything else as JSON text.\<close>

definition failing_value :: "(json \<Rightarrow> string) \<Rightarrow> bool \<Rightarrow> json \<Rightarrow> string" where
  "failing_value show_json raw_strings v =
     (case v of JStr txt \<Rightarrow> (if raw_strings then txt else show_json v) | _ \<Rightarrow> show_json v)"

definition json_cell ::
  "(json \<Rightarrow> string) \<Rightarrow> bool \<Rightarrow> nat \<Rightarrow> string \<Rightarrow> (json \<Rightarrow> 'a option) \<Rightarrow> source_address \<Rightarrow> json_record
   \<Rightarrow> (load_failure, 'a option) result" where
  "json_cell show_json raw_strings column_index tname take_value source rec =
     (case present (json_value source (js_object rec)) of
        None \<Rightarrow> Inr None
      | Some v \<Rightarrow> rmap Some (ok_or (take_value v)
          (coercion_failure column_index (failing_value show_json raw_strings v) tname)))"

definition build_json_array ::
  "('d, 't) chrono \<Rightarrow> arrow \<Rightarrow> (json \<Rightarrow> string) \<Rightarrow> field_type \<Rightarrow> json_record list \<Rightarrow> source_address \<Rightarrow> nat
   \<Rightarrow> (load_failure, column) result" where
  "build_json_array C A show_json ft records source column_index =
     (case ft of
        Utf8 \<Rightarrow> Inr (Col_Utf8 (map (\<lambda>rec. json_scalar_to_string show_json (json_value source (js_object rec))) records))
      | Boolean \<Rightarrow> rmap Col_Boolean
          (traverse (json_cell show_json False column_index ''boolean'' json_boolean source) records)
      | Int64 \<Rightarrow> rmap Col_Int64
          (traverse (json_cell show_json False column_index ''int64'' json_int64 source) records)
      | Float64 \<Rightarrow> rmap Col_Float64
          (traverse (json_cell show_json False column_index ''float64'' json_float64 source) records)
      | Decimal prec sc \<Rightarrow>
          rbind (traverse (json_cell show_json True column_index (type_name ft) (json_decimal prec sc) source) records)
            (\<lambda>values. decimal_array A values prec sc column_index)
      | _ \<Rightarrow>
          rbind (traverse (json_cell show_json True column_index (type_name ft) (json_timestamp C ft) source) records)
            (\<lambda>values. timestamp_array values ft))"

subsection \<open>Assembly\<close>

definition assemble :: "arrow \<Rightarrow> chunk_plan \<Rightarrow> column list \<Rightarrow> (load_failure, record_batch) result" where
  "assemble A self columns =
     map_err (\<lambda>error. failure ''record_batch_creation_failed''
         [Lit ''failed to create Arrow record batch: '', Txt error])
       (rmap (\<lambda>_. \<lparr>rb_schema = cp_schema self, rb_columns = columns\<rparr>) (ar_try_new A (cp_schema self) columns))"

definition build_text_chunk ::
  "('d, 't) chrono \<Rightarrow> arrow \<Rightarrow> chunk_plan \<Rightarrow> text_record list \<Rightarrow> (load_failure, record_batch) result" where
  "build_text_chunk C A self records =
     rbind (traverse (\<lambda>planned. build_text_array C A (pl_materialized_type planned) records
              (pl_observed_index planned)) (cp_fields self))
       (assemble A self)"

definition build_json_chunk ::
  "('d, 't) chrono \<Rightarrow> arrow \<Rightarrow> (json \<Rightarrow> string) \<Rightarrow> chunk_plan \<Rightarrow> json_record list
   \<Rightarrow> (load_failure, record_batch) result" where
  "build_json_chunk C A show_json self records =
     rbind (traverse (\<lambda>(column_index, planned). build_json_array C A show_json (pl_materialized_type planned)
              records (pl_source planned) column_index) (zip [0..<length (cp_fields self)] (cp_fields self)))
       (assemble A self)"

subsection \<open>What fits a type builds a cell of it\<close>

text \<open>
  The documented behaviour of the two constructors: a decimal with \<open>1 \<le> precision \<le> 38\<close> and
  \<open>scale \<le> precision\<close> is accepted, and a batch of at least one column is accepted when the
  columns have the types of the schema and one length and no null sits in a non-nullable field.
\<close>

definition arrow_contract :: "arrow \<Rightarrow> bool" where
  "arrow_contract A \<longleftrightarrow>
     (\<forall>prec sc. field_type_ok (Decimal prec sc) \<longrightarrow> ar_with_precision_and_scale A prec sc = Inr ())
     \<and> (\<forall>schema columns n. schema \<noteq> [] \<longrightarrow>
          list_all2 (\<lambda>f c. af_type f = column_type c \<and> length (column_nulls c) = n
             \<and> (af_nullable f \<or> True \<notin> set (column_nulls c))) schema columns
          \<longrightarrow> ar_try_new A schema columns = Inr ())"

text \<open>An instance of the contract, for witnesses.\<close>

definition reference_arrow :: arrow where
  "reference_arrow =
     \<lparr>ar_with_precision_and_scale = (\<lambda>prec sc. if field_type_ok (Decimal prec sc) then Inr () else Inl ''out of range''),
      ar_try_new = (\<lambda>schema columns.
        if schema \<noteq> [] \<and> list_all2 (\<lambda>f c. af_type f = column_type c
             \<and> length (column_nulls c) = length (column_nulls (hd columns))
             \<and> (af_nullable f \<or> True \<notin> set (column_nulls c))) schema columns
        then Inr () else Inl ''invalid batch'')\<rparr>"

lemma reference_arrow_contract: "arrow_contract reference_arrow"
proof -
  have "list_all2 (\<lambda>f c. af_type f = column_type c \<and> length (column_nulls c) = length (column_nulls (hd columns))
        \<and> (af_nullable f \<or> True \<notin> set (column_nulls c))) schema columns"
    if "schema \<noteq> []" "list_all2 (\<lambda>f c. af_type f = column_type c \<and> length (column_nulls c) = n
        \<and> (af_nullable f \<or> True \<notin> set (column_nulls c))) schema columns" for schema columns n
  proof -
    have "length (column_nulls (hd columns)) = n" using that by (cases schema) (auto simp: list_all2_Cons1)
    then show ?thesis using that(2) by simp
  qed
  then show ?thesis by (auto simp: arrow_contract_def reference_arrow_def simp del: field_type_ok.simps)
qed

end
