(* ===== verification/Schema_Observers.thy ===== *)
theory Schema_Observers
  imports Resolve_Facts Schema_Chunks
begin

section \<open>The pass-1 observers\<close>

text \<open>
  \<open>TextObserver\<close> and \<open>JsonObserver\<close> of \<open>src/schema.rs\<close>, lines 1044 to 1237: the
  state each keeps, \<open>new\<close>, \<open>observe\<close> and \<open>finish\<close>. The borrowed directive, merge keys
  and field names are arguments. A \<open>HashMap\<close> of observed types is a partial function.
\<close>

subsection \<open>CSV\<close>

record text_observer =
  to_checks :: "field_check list option"
  to_all_types :: "inferred_type list"
  to_survivor_types :: "inferred_type list"

text \<open>\<open>types[column_index]\<close> panics past the header; a CSV record has the header's length.\<close>

fun merge_text_from :: "nat \<Rightarrow> inferred_type list \<Rightarrow> string option list \<Rightarrow> inferred_type list" where
  "merge_text_from column_index types [] = types"
| "merge_text_from column_index types (cell # cells) =
     merge_text_from (Suc column_index)
       (case cell of
          Some v \<Rightarrow> types[column_index := merge_types (types ! column_index) (infer_text_type v)]
        | None \<Rightarrow> types) cells"

definition merge_text_observations :: "inferred_type list \<Rightarrow> text_record \<Rightarrow> inferred_type list" where
  "merge_text_observations types rec = merge_text_from 0 types (tx_cells rec)"

definition text_observer_new ::
  "yaml \<Rightarrow> schema_directive \<Rightarrow> merge_keys \<Rightarrow> string list \<Rightarrow> text_observer" where
  "text_observer_new Y directive merge_keys field_names =
     (let placeholder = replicate (length field_names) I_Null;
          checks = (case resolve_plan Y directive merge_keys field_names placeholder placeholder of
                      Inr rs \<Rightarrow> Some (rs_checks rs) | Inl _ \<Rightarrow> None)
      in \<lparr>to_checks = checks, to_all_types = replicate (length field_names) I_Null,
          to_survivor_types = replicate (length field_names) I_Null\<rparr>)"

definition text_observe ::
  "('d, 't) chrono \<Rightarrow> string list \<Rightarrow> text_observer \<Rightarrow> text_record \<Rightarrow> text_observer \<times> rejected_record option" where
  "text_observe C field_names self rec =
     (let self = self\<lparr>to_all_types := merge_text_observations (to_all_types self) rec\<rparr> in
      case to_checks self of
        None \<Rightarrow> (self, None)
      | Some checks \<Rightarrow>
          (case validate_text_record C rec checks field_names of
             Some rejection \<Rightarrow> (self, Some rejection)
           | None \<Rightarrow>
               (self\<lparr>to_survivor_types := merge_text_observations (to_survivor_types self) rec\<rparr>, None)))"

definition text_finish ::
  "yaml \<Rightarrow> schema_directive \<Rightarrow> merge_keys \<Rightarrow> string list \<Rightarrow> text_observer
   \<Rightarrow> (execution_failure, resolution) result" where
  "text_finish Y directive merge_keys field_names self =
     resolve_plan Y directive merge_keys field_names (to_all_types self) (to_survivor_types self)"

text \<open>Observing a sequence of records: the observer after it and the rejections in order.\<close>

fun text_observe_all ::
  "('d, 't) chrono \<Rightarrow> string list \<Rightarrow> text_observer \<Rightarrow> text_record list
   \<Rightarrow> text_observer \<times> rejected_record list" where
  "text_observe_all C names obs [] = (obs, [])"
| "text_observe_all C names obs (rec # recs) =
     (let (obs', rejection) = text_observe C names obs rec;
          (obs'', rejections) = text_observe_all C names obs' recs
      in (obs'', (case rejection of Some rj \<Rightarrow> [rj] | None \<Rightarrow> []) @ rejections))"

subsection \<open>JSONL\<close>

record json_observer =
  jo_checks :: "field_check list"
  jo_all_types :: "string \<rightharpoonup> inferred_type"
  jo_survivor_types :: "string \<rightharpoonup> inferred_type"
  jo_flatten_all :: "inferred_type list"
  jo_flatten_survivors :: "inferred_type list"

datatype json_outcome = Survived | Rejected

definition merge_entry :: "(string \<rightharpoonup> inferred_type) \<Rightarrow> string \<times> json \<Rightarrow> (string \<rightharpoonup> inferred_type)" where
  "merge_entry types entry =
     (let observed = (case types (fst entry) of Some t \<Rightarrow> t | None \<Rightarrow> I_Null)
      in types(fst entry \<mapsto> merge_types observed (infer_json_type (snd entry))))"

definition merge_flatten_entry :: "json_object \<Rightarrow> inferred_type \<Rightarrow> flatten_entry \<Rightarrow> inferred_type" where
  "merge_flatten_entry object t entry =
     (case json_path_value (fl_segments entry) object of
        Some v \<Rightarrow> merge_types t (infer_json_type v) | None \<Rightarrow> t)"

text \<open>The flatten observations are one per flatten entry, so the positional update is a zip.\<close>

definition merge_json_observations ::
  "(string \<rightharpoonup> inferred_type) \<Rightarrow> inferred_type list \<Rightarrow> schema_directive \<Rightarrow> json_record
   \<Rightarrow> (string \<rightharpoonup> inferred_type) \<times> inferred_type list" where
  "merge_json_observations types flatten_types directive rec =
     (foldl merge_entry types (js_object rec),
      map (\<lambda>(t, entry). merge_flatten_entry (js_object rec) t entry)
        (zip flatten_types (tr_flatten (dir_transform directive))))"

definition json_observer_new :: "schema_directive \<Rightarrow> merge_keys \<Rightarrow> json_observer" where
  "json_observer_new directive merge_keys =
     (let flatten_count = length (tr_flatten (dir_transform directive))
      in \<lparr>jo_checks = directive_checks directive merge_keys, jo_all_types = Map.empty,
          jo_survivor_types = Map.empty, jo_flatten_all = replicate flatten_count I_Null,
          jo_flatten_survivors = replicate flatten_count I_Null\<rparr>)"

definition json_observe ::
  "('d, 't) chrono \<Rightarrow> schema_directive \<Rightarrow> json_observer \<Rightarrow> json_record \<Rightarrow> json_observer \<times> json_outcome" where
  "json_observe C directive self rec =
     (let (all_types, flatten_all) =
            merge_json_observations (jo_all_types self) (jo_flatten_all self) directive rec;
          self = self\<lparr>jo_all_types := all_types, jo_flatten_all := flatten_all\<rparr>
      in if json_record_violates C rec (jo_checks self) then (self, Rejected)
         else
           let (survivor_types, flatten_survivors) =
                 merge_json_observations (jo_survivor_types self) (jo_flatten_survivors self) directive rec
           in (self\<lparr>jo_survivor_types := survivor_types, jo_flatten_survivors := flatten_survivors\<rparr>, Survived))"

definition observed_or_null :: "(string \<rightharpoonup> inferred_type) \<Rightarrow> string \<Rightarrow> inferred_type" where
  "observed_or_null types name = (case types name of Some t \<Rightarrow> t | None \<Rightarrow> I_Null)"

definition json_finish ::
  "yaml \<Rightarrow> schema_directive \<Rightarrow> merge_keys \<Rightarrow> string list \<Rightarrow> json_observer
   \<Rightarrow> (execution_failure, resolution) result" where
  "json_finish Y directive merge_keys field_names self =
     resolve_plan Y directive merge_keys field_names
       (map (observed_or_null (jo_all_types self)) field_names @ jo_flatten_all self)
       (map (observed_or_null (jo_survivor_types self)) field_names @ jo_flatten_survivors self)"

fun json_observe_all ::
  "('d, 't) chrono \<Rightarrow> schema_directive \<Rightarrow> json_observer \<Rightarrow> json_record list
   \<Rightarrow> json_observer \<times> json_outcome list" where
  "json_observe_all C directive obs [] = (obs, [])"
| "json_observe_all C directive obs (rec # recs) =
     (let (obs', outcome) = json_observe C directive obs rec;
          (obs'', outcomes) = json_observe_all C directive obs' recs
      in (obs'', outcome # outcomes))"

subsection \<open>What the observations bound\<close>

lemma merge_text_from_nth:
  assumes "i < length types"
  shows "merge_text_from n types cells ! i =
    (if n \<le> i \<and> i < n + length cells then
       (case cells ! (i - n) of Some v \<Rightarrow> merge_types (types ! i) (infer_text_type v) | None \<Rightarrow> types ! i)
     else types ! i) \<and> length (merge_text_from n types cells) = length types"
  using assms
proof (induction cells arbitrary: n types)
  case (Cons cell cells)
  let ?types = "case cell of Some v \<Rightarrow> types[n := merge_types (types ! n) (infer_text_type v)] | None \<Rightarrow> types"
  have len: "length ?types = length types" by (simp split: option.split)
  have "merge_text_from n types (cell # cells) ! i = merge_text_from (Suc n) ?types cells ! i"
    by simp
  then show ?case
    using Cons.IH [of ?types "Suc n"] Cons.prems len
    by (cases "i = n") (auto simp: nth_Cons' Suc_diff_le split: option.split)
qed auto

lemma length_merge_text_from: "length (merge_text_from n types cells) = length types"
  by (induction n types cells rule: merge_text_from.induct) (simp_all split: option.split)

lemma length_merge_text [simp]: "length (merge_text_observations types rec) = length types"
  by (simp add: merge_text_observations_def length_merge_text_from)

lemma merge_text_cell:
  "i < length types \<Longrightarrow> merge_text_observations types rec ! i =
     (if i < length (tx_cells rec) then
        (case tx_cells rec ! i of Some v \<Rightarrow> merge_types (types ! i) (infer_text_type v) | None \<Rightarrow> types ! i)
      else types ! i)"
  using merge_text_from_nth [of i types 0 "tx_cells rec"] by (simp add: merge_text_observations_def)

lemma merge_text_nth:
  "i < length types \<Longrightarrow> length (tx_cells rec) = length types \<Longrightarrow>
   merge_text_observations types rec ! i =
     (case tx_cells rec ! i of Some v \<Rightarrow> merge_types (types ! i) (infer_text_type v) | None \<Rightarrow> types ! i)"
  by (simp add: merge_text_cell)

text \<open>Observations of two records commute.\<close>

lemma merge_text_commute:
  "merge_text_observations (merge_text_observations types r) q
   = merge_text_observations (merge_text_observations types q) r"
  by (rule nth_equalityI) (simp_all add: merge_text_cell merge_types_assoc merge_types_comm
      merge_types_left_comm split: option.split)

text \<open>Every cell of the records folded into \<open>types\<close> widens to the observation of its column.\<close>

definition text_bounded :: "inferred_type list \<Rightarrow> text_record \<Rightarrow> bool" where
  "text_bounded types rec \<longleftrightarrow> length (tx_cells rec) = length types
     \<and> (\<forall>i < length types. \<forall>v. tx_cells rec ! i = Some v \<longrightarrow> widens (infer_text_type v) (types ! i))"

lemma text_bounded_self:
  "length (tx_cells rec) = length types \<Longrightarrow> text_bounded (merge_text_observations types rec) rec"
  by (auto simp: text_bounded_def merge_text_nth)

lemma text_bounded_mono:
  assumes "text_bounded types rec" "length (tx_cells rec') = length types"
  shows "text_bounded (merge_text_observations types rec') rec"
proof -
  have "widens (types ! i) (merge_text_observations types rec' ! i)" if "i < length types" for i
    using that assms(2) by (simp add: merge_text_nth split: option.split)
  then show ?thesis
    using assms widens_trans by (fastforce simp: text_bounded_def)
qed

end
