(* ===== verification/Chunk_Facts.thy ===== *)
theory Chunk_Facts
  imports Schema_Observers
begin

section \<open>Surviving records always materialise\<close>

text \<open>
  Lemmas about the chunk builders of \<open>src/schema.rs\<close>: a value that fits a type builds a
  cell of it, every field of a resolved plan is guarded by a check or by the observation of
  its column, and a batch of surviving records is therefore always built.
\<close>

subsection \<open>Cells\<close>

lemma cells_ok:
  assumes "\<And>r v. r \<in> set records \<Longrightarrow> get r = Some v \<Longrightarrow> parse v \<noteq> None"
    and f: "\<And>r. f r = (case get r of None \<Rightarrow> Inr None | Some v \<Rightarrow> rmap Some (ok_or (parse v) (err v)))"
  shows "\<exists>values. traverse f records = Inr values
     \<and> map (\<lambda>x. x = None) values = map (\<lambda>r. get r = None) records"
  using assms(1)
proof (induction records)
  case (Cons r records)
  have "\<exists>values. traverse f records = Inr values
     \<and> map (\<lambda>x. x = None) values = map (\<lambda>r. get r = None) records"
    using Cons.IH Cons.prems by (meson list.set_intros(2))
  moreover have "\<exists>x. f r = Inr x \<and> (x = None \<longleftrightarrow> get r = None)"
    using Cons.prems [of r] by (cases "get r") (auto simp: f)
  ultimately show ?case by auto
qed simp

lemma text_cells_ok:
  assumes "\<And>r v. r \<in> set records \<Longrightarrow> tx_cells r ! i = Some v \<Longrightarrow> parse v \<noteq> None"
  shows "\<exists>values. traverse (text_cell i tname parse) records = Inr values
     \<and> map (\<lambda>x. x = None) values = map (\<lambda>r. tx_cells r ! i = None) records"
  by (rule cells_ok [where parse = parse and err = "\<lambda>v. coercion_failure i v tname"])
    (use assms in \<open>auto simp: text_cell_def\<close>)

lemma widens_Boolean: "widens t I_Boolean \<Longrightarrow> t = I_Null \<or> t = I_Boolean"
  by (cases t) (auto simp: widens_def)

lemma widens_Int64: "widens t I_Int64 \<Longrightarrow> t = I_Null \<or> t = I_Int64"
  by (cases t) (auto simp: widens_def)

lemma widens_Float64: "widens t I_Float64 \<Longrightarrow> t = I_Null \<or> t = I_Int64 \<or> t = I_Float64"
  by (cases t) (auto simp: widens_def)

lemma text_fits_Boolean: "text_value_fits C v Boolean \<Longrightarrow> parse_bool v \<noteq> None"
  by (auto simp: text_value_fits_def fits_expected_Some dest!: widens_Boolean dest: infer_text_Boolean)

lemma text_fits_Int64: "text_value_fits C v Int64 \<Longrightarrow> parse_i64 v \<noteq> None"
  by (auto simp: text_value_fits_def fits_expected_Some dest!: widens_Int64 dest: infer_text_Int64)

lemma text_fits_Float64: "text_value_fits C v Float64 \<Longrightarrow> parse_finite_f64 v \<noteq> None"
  using infer_text_numeric [of v]
  by (auto simp: text_value_fits_def fits_expected_Some dest!: widens_Float64)

definition column_ok :: "field_type \<Rightarrow> bool list \<Rightarrow> (load_failure, column) result \<Rightarrow> bool" where
  "column_ok ft nulls r \<longleftrightarrow> (\<exists>c. r = Inr c \<and> column_type c = data_type ft \<and> column_nulls c = nulls)"

lemma decimal_array_ok:
  "arrow_contract A \<Longrightarrow> field_type_ok (Decimal prec sc) \<Longrightarrow>
   decimal_array A values prec sc i = Inr (Col_Decimal prec sc values)"
  by (simp add: arrow_contract_def decimal_array_def del: field_type_ok.simps)

lemma build_text_array_ok:
  assumes A: "arrow_contract A" and ft: "field_type_ok ft"
    and fits: "\<And>r v. r \<in> set records \<Longrightarrow> tx_cells r ! i = Some v \<Longrightarrow> text_value_fits C v ft"
  shows "column_ok ft (map (\<lambda>r. tx_cells r ! i = None) records) (build_text_array C A ft records i)"
proof (cases ft)
  case Boolean
  then show ?thesis
    using text_cells_ok [of records i parse_bool "''boolean''"] fits text_fits_Boolean
    by (fastforce simp: column_ok_def build_text_array_def)
next
  case Int64
  then show ?thesis
    using text_cells_ok [of records i parse_i64 "''int64''"] fits text_fits_Int64
    by (fastforce simp: column_ok_def build_text_array_def)
next
  case Float64
  then show ?thesis
    using text_cells_ok [of records i parse_finite_f64 "''float64''"] fits text_fits_Float64
    by (fastforce simp: column_ok_def build_text_array_def)
next
  case Utf8
  then show ?thesis by (simp add: column_ok_def build_text_array_def comp_def)
next
  case Timestamp
  then show ?thesis
    using text_cells_ok [of records i "\<lambda>v. parse_declared_timestamp C v ft" "type_name ft"] fits
    by (fastforce simp: column_ok_def build_text_array_def timestamp_array_def text_value_fits_def
        parse_declared_timestamp_def)
next
  case Timestamptz
  then show ?thesis
    using text_cells_ok [of records i "\<lambda>v. parse_declared_timestamp C v ft" "type_name ft"] fits
    by (fastforce simp: column_ok_def build_text_array_def timestamp_array_def text_value_fits_def
        parse_declared_timestamp_def)
next
  case (Decimal prec sc)
  then show ?thesis
    using text_cells_ok [of records i "\<lambda>v. parse_decimal_scaled v prec sc" "type_name ft"] fits
      decimal_array_ok [OF A, of prec sc] ft
    by (fastforce simp: column_ok_def build_text_array_def text_value_fits_def simp del: type_name.simps)
qed

lemma json_cells_ok:
  assumes "\<And>r v. r \<in> set records \<Longrightarrow> present (json_value src (js_object r)) = Some v \<Longrightarrow> take_value v \<noteq> None"
  shows "\<exists>values. traverse (json_cell J raw i tname take_value src) records = Inr values
     \<and> map (\<lambda>x. x = None) values = map (\<lambda>r. present (json_value src (js_object r)) = None) records"
  by (rule cells_ok [where parse = take_value
        and err = "\<lambda>v. coercion_failure i (failing_value J raw v) tname"])
    (use assms in \<open>auto simp: json_cell_def\<close>)

lemma json_fits_Boolean: "json_value_fits C v Boolean \<Longrightarrow> v \<noteq> JNull \<Longrightarrow> json_boolean v \<noteq> None"
  by (cases v) (auto simp: json_value_fits_def fits_expected_Some dest!: widens_Boolean split: if_splits)

lemma json_fits_Int64: "json_value_fits C v Int64 \<Longrightarrow> v \<noteq> JNull \<Longrightarrow> json_int64 v \<noteq> None"
  by (cases v) (auto simp: json_value_fits_def fits_expected_Some is_i64_def dest!: widens_Int64 split: if_splits)

lemma json_fits_Float64: "json_value_fits C v Float64 \<Longrightarrow> v \<noteq> JNull \<Longrightarrow> json_float64 v \<noteq> None"
  using as_f64_total
  by (cases v) (auto simp: json_value_fits_def fits_expected_Some dest!: widens_Float64 split: if_splits)

lemma json_fits_Timestamp:
  "json_value_fits C v ft \<Longrightarrow> ft = Timestamp \<or> ft = Timestamptz \<Longrightarrow> json_timestamp C ft v \<noteq> None"
  by (cases v) (auto simp: json_value_fits_def parse_declared_timestamp_def)

lemma json_fits_Decimal: "json_value_fits C v (Decimal prec sc) \<Longrightarrow> json_decimal prec sc v \<noteq> None"
  by (cases v) (auto simp: json_value_fits_def split: option.splits)

lemma present_not_null: "present x = Some v \<Longrightarrow> v \<noteq> JNull"
  by (auto simp: present_def split: option.splits json.splits)

lemma json_scalar_None_iff: "json_scalar_to_string J x = None \<longleftrightarrow> present x = None"
  by (cases x; cases "the x") (auto simp: present_def)

lemma build_json_array_ok:
  assumes A: "arrow_contract A" and ft: "field_type_ok ft"
    and fits: "\<And>r v. r \<in> set records \<Longrightarrow> present (json_value src (js_object r)) = Some v \<Longrightarrow> json_value_fits C v ft"
  shows "column_ok ft (map (\<lambda>r. present (json_value src (js_object r)) = None) records)
    (build_json_array C A J ft records src i)"
proof (cases ft)
  case Boolean
  then show ?thesis
    using json_cells_ok [of records src json_boolean J False i "''boolean''"]
      fits json_fits_Boolean present_not_null
    by (fastforce simp: column_ok_def build_json_array_def)
next
  case Int64
  then show ?thesis
    using json_cells_ok [of records src json_int64 J False i "''int64''"]
      fits json_fits_Int64 present_not_null
    by (fastforce simp: column_ok_def build_json_array_def)
next
  case Float64
  then show ?thesis
    using json_cells_ok [of records src json_float64 J False i "''float64''"]
      fits json_fits_Float64 present_not_null
    by (fastforce simp: column_ok_def build_json_array_def)
next
  case Utf8
  then show ?thesis by (simp add: column_ok_def build_json_array_def comp_def json_scalar_None_iff)
next
  case Timestamp
  then show ?thesis
    using json_cells_ok [of records src "json_timestamp C ft" J True i "type_name ft"]
      fits json_fits_Timestamp
    by (fastforce simp: column_ok_def build_json_array_def timestamp_array_def)
next
  case Timestamptz
  then show ?thesis
    using json_cells_ok [of records src "json_timestamp C ft" J True i "type_name ft"]
      fits json_fits_Timestamp
    by (fastforce simp: column_ok_def build_json_array_def timestamp_array_def)
next
  case (Decimal prec sc)
  then show ?thesis
    using json_cells_ok [of records src "json_decimal prec sc" J True i "type_name ft"]
      fits json_fits_Decimal decimal_array_ok [OF A, of prec sc] ft
    by (fastforce simp: column_ok_def build_json_array_def simp del: type_name.simps)
qed

subsection \<open>Every planned field is guarded\<close>

text \<open>
  A planned field is guarded when its type is the expected type of a check on the same
  source, or comes from the observation of its column, and a non-nullable field has a
  required check.
\<close>

definition same_source :: "planned_field \<Rightarrow> field_check \<Rightarrow> bool" where
  "same_source p fc \<longleftrightarrow> fc_source fc = pl_source p \<and> fc_observed_index fc = pl_observed_index p"

definition guarded :: "field_check list \<Rightarrow> inferred_type list \<Rightarrow> planned_field \<Rightarrow> bool" where
  "guarded checks types p \<longleftrightarrow> field_type_ok (pl_materialized_type p)
     \<and> ((\<exists>fc\<in>set checks. same_source p fc
            \<and> map_option fst (fc_expected_type fc) = Some (pl_materialized_type p))
        \<or> pl_materialized_type p = inferred_field_type (types ! pl_observed_index p))
     \<and> (\<not> pl_nullable p \<longrightarrow> (\<exists>fc\<in>set checks. same_source p fc \<and> fc_required fc \<noteq> None))"

definition plan_of_columns :: "dataset_column list \<Rightarrow> planned_field \<Rightarrow> bool" where
  "plan_of_columns columns p \<longleftrightarrow>
     (\<exists>c\<in>set columns. pl_source p = dc_source c \<and> pl_observed_index p = dc_observed_index c)"

lemma guarded_mono: "set checks \<subseteq> set checks' \<Longrightarrow> guarded checks types p \<Longrightarrow> guarded checks' types p"
  unfolding guarded_def by blast

lemma planned_added_eq: "planned_added_fields added types ovs = map (inferred_field ovs types) added"
  by (simp add: planned_added_fields_def inferred_field_def [abs_def])

lemma inferred_field_guarded:
  assumes c: "c \<in> set cols" and ovs: "overrides_ok ovs"
  shows "guarded (override_checks ovs cols) types (inferred_field ovs types c)
     \<and> plan_of_columns cols (inferred_field ovs types c)"
proof (cases "override_get ovs (dc_dataset_name c)")
  case None
  then show ?thesis
    using c by (auto simp: guarded_def plan_of_columns_def inferred_field_def override_or_def)
next
  case (Some ov)
  have fc: "override_check c ov \<in> set (override_checks ovs cols)"
    using c Some by (auto simp: set_override_checks)
  have "override_ok ov" using ovs override_get_Some [OF Some] by (auto simp: overrides_ok_def)
  with fc c Some show ?thesis
    by (cases "ov_field_type ov"; cases "ov_nullable ov")
      (auto simp: guarded_def plan_of_columns_def inferred_field_def override_or_def same_source_def
        override_ok_def override_check_def override_type_check_def schema_required_def
        intro!: bexI [of _ "override_check c ov"])
qed

lemma pinned_planned_guarded:
  assumes "f \<in> set pin" "pin_ok pin"
  shows "guarded (pinned_checks (map (\<lambda>f. pinned_planned f (col f)) pin)) types (pinned_planned f (col f))"
  using assms
  by (auto simp: guarded_def pinned_checks_def pinned_planned_def same_source_def pin_ok_def schema_required_def)

definition plan_guarded :: "dataset_column list \<Rightarrow> inferred_type list \<Rightarrow> resolution \<Rightarrow> bool" where
  "plan_guarded columns types rs \<longleftrightarrow>
     rs_plan rs = chunk_plan_new (cp_fields (rs_plan rs))
     \<and> (\<forall>p\<in>set (cp_fields (rs_plan rs)). guarded (rs_checks rs) types p \<and> plan_of_columns columns p)"

lemma inferred_resolution_guarded:
  "overrides_ok ovs \<Longrightarrow> plan_guarded columns types (inferred_resolution Y columns types path ovs)"
  using inferred_field_guarded
  by (cases path)
    (auto simp: plan_guarded_def inferred_resolution_def inferred_plan_def Let_def chunk_plan_new_def)

lemma pinned_resolution_guarded:
  assumes rs: "pinned_resolution Y path pin policy ovs columns all_types types = Inr rs"
    and ovs: "overrides_ok ovs" and pin: "pin_ok pin"
  shows "plan_guarded columns types rs"
proof -
  obtain sm where sm: "match_shape path pin policy columns = Inr sm"
    and checks: "rs_checks rs = pinned_checks (sm_matched sm) @ override_checks ovs (sm_added sm)"
    and plan: "rs_plan rs = chunk_plan_new (fp_fields (assemble_pinned_plan Y path (sm_matched sm)
        (planned_added_fields (sm_added sm) types ovs)))"
    using rs by (auto simp: pinned_resolution_Inr_iff Let_def)
  let ?col = "\<lambda>f. the (column_named columns (pf_name f))"
  have m: "sm_matched sm = map (\<lambda>f. pinned_planned f (?col f)) pin"
    and a: "sm_added sm = added_columns pin columns"
    and p: "pf_name ` set pin \<subseteq> dc_dataset_name ` set columns"
    using sm by (auto simp: match_shape_Inr_iff)
  have flds: "cp_fields (rs_plan rs) = sm_matched sm @ map (inferred_field ovs types) (sm_added sm)"
    unfolding plan by (simp add: chunk_plan_new_def assemble_pinned_plan_def Let_def planned_added_eq)
  have new: "rs_plan rs = chunk_plan_new (cp_fields (rs_plan rs))"
    unfolding plan by (simp add: chunk_plan_new_def)
  have "guarded (rs_checks rs) types q \<and> plan_of_columns columns q" if q: "q \<in> set (sm_matched sm)" for q
  proof -
    obtain f where f: "f \<in> set pin" "q = pinned_planned f (?col f)" using q m by auto
    then obtain c where "column_named columns (pf_name f) = Some c" "c \<in> set columns"
      using p column_named_None_iff [of columns "pf_name f"] column_named_Some by blast
    then have "plan_of_columns columns q" by (auto simp: f plan_of_columns_def pinned_planned_def)
    moreover have "guarded (rs_checks rs) types q"
      unfolding f(2) by (rule guarded_mono [OF _ pinned_planned_guarded [OF f(1) pin]]) (simp add: checks m)
    ultimately show ?thesis by simp
  qed
  moreover have "guarded (rs_checks rs) types q \<and> plan_of_columns columns q"
    if q: "q \<in> set (map (inferred_field ovs types) (sm_added sm))" for q
  proof -
    obtain c where c: "c \<in> set (sm_added sm)" "q = inferred_field ovs types c" using q by auto
    have "guarded (rs_checks rs) types q"
      unfolding c(2) by (rule guarded_mono [OF _ inferred_field_guarded [OF c(1) ovs, THEN conjunct1]])
        (simp add: checks)
    moreover have "plan_of_columns columns q"
      using c by (auto simp: a added_columns_def plan_of_columns_def inferred_field_def)
    ultimately show ?thesis by simp
  qed
  ultimately show ?thesis
    using new unfolding plan_guarded_def flds set_append by blast
qed

lemma resolve_plan_guarded:
  assumes "resolve_plan Y d keys names all_types types = Inr rs" "dir_ok d"
  shows "\<exists>columns. resolve_transform d names = Inr columns \<and> plan_guarded columns types rs"
proof -
  obtain columns rs0 where st: "plan_steps Y d keys names all_types types columns rs0"
    and rs: "rs = rs0\<lparr>rs_checks := map (\<lambda>k. merge_key_check (the (column_named columns k))) keys @ rs_checks rs0,
        rs_decision := dir_stamp d (rs_decision rs0)\<rparr>"
    using assms(1) by (auto simp: resolve_plan_Inr_iff)
  have "plan_guarded columns types rs0"
    using st assms(2) inferred_resolution_guarded pinned_resolution_guarded
    by (cases d) (auto simp: plan_steps_def directive_resolution_def dir_ok_def)
  then have "plan_guarded columns types rs"
    using guarded_mono [of "rs_checks rs0" "rs_checks rs"] by (auto simp: plan_guarded_def rs)
  then show ?thesis using st by (auto simp: plan_steps_def)
qed

subsection \<open>Batches\<close>

lemma traverse_column_ok:
  assumes "\<And>x. x \<in> set xs \<Longrightarrow> column_ok (pl_materialized_type (pf x)) (map (nul (pf x)) records) (build x)"
  shows "\<exists>cols. traverse build xs = Inr cols \<and> list_all2 (\<lambda>x c. column_type c = data_type (pl_materialized_type (pf x))
     \<and> column_nulls c = map (nul (pf x)) records) xs cols"
  using assms
proof (induction xs)
  case (Cons x xs)
  then obtain c cols where "build x = Inr c" "column_type c = data_type (pl_materialized_type (pf x))"
      "column_nulls c = map (nul (pf x)) records" "traverse build xs = Inr cols"
      "list_all2 (\<lambda>x c. column_type c = data_type (pl_materialized_type (pf x))
         \<and> column_nulls c = map (nul (pf x)) records) xs cols"
    by (force simp: column_ok_def)
  then show ?case by simp
qed simp

definition batch_of :: "chunk_plan \<Rightarrow> nat \<Rightarrow> record_batch \<Rightarrow> bool" where
  "batch_of plan n b \<longleftrightarrow> rb_schema b = cp_schema plan \<and> length (rb_columns b) = length (cp_fields plan)
     \<and> map column_type (rb_columns b) = map af_type (cp_schema plan) \<and> rb_rows b = n
     \<and> (\<forall>c\<in>set (rb_columns b). length (column_nulls c) = n)"

lemma chunk_ok:
  assumes A: "arrow_contract A" and plan: "plan = chunk_plan_new (map pf xs)" and ne: "xs \<noteq> []"
    and cols: "\<And>x. x \<in> set xs \<Longrightarrow> column_ok (pl_materialized_type (pf x)) (map (nul (pf x)) records) (build x)"
    and nn: "\<And>x r. x \<in> set xs \<Longrightarrow> \<not> pl_nullable (pf x) \<Longrightarrow> r \<in> set records \<Longrightarrow> \<not> nul (pf x) r"
  shows "\<exists>b. rbind (traverse build xs) (assemble A plan) = Inr b \<and> batch_of plan (length records) b"
proof -
  obtain cs where cs: "traverse build xs = Inr cs"
    and l2: "list_all2 (\<lambda>x c. column_type c = data_type (pl_materialized_type (pf x))
         \<and> column_nulls c = map (nul (pf x)) records) xs cs"
    using traverse_column_ok [of xs pf nul records build] cols by blast
  have "list_all2 (\<lambda>f c. af_type f = column_type c \<and> length (column_nulls c) = length records
      \<and> (af_nullable f \<or> True \<notin> set (column_nulls c))) (cp_schema plan) cs"
    unfolding plan chunk_plan_new_def using l2 nn
    by (auto simp: list_all2_conv_all_nth image_iff)
  moreover have "cp_schema plan \<noteq> []" using ne by (simp add: plan chunk_plan_new_def)
  ultimately have new: "ar_try_new A (cp_schema plan) cs = Inr ()"
    using A unfolding arrow_contract_def by blast
  have "rb_rows \<lparr>rb_schema = cp_schema plan, rb_columns = cs\<rparr> = length records"
    using l2 ne by (cases xs) (auto simp: rb_rows_def list_all2_Cons1)
  moreover have "length cs = length xs" "map column_type cs = map af_type (cp_schema plan)"
    using l2 by (auto simp: plan chunk_plan_new_def list_all2_conv_all_nth intro: nth_equalityI)
  moreover have "\<forall>c\<in>set cs. length (column_nulls c) = length records"
    using l2 by (auto simp: list_all2_conv_all_nth in_set_conv_nth)
  ultimately show ?thesis
    using new cs by (simp add: assemble_def batch_of_def) (simp add: plan chunk_plan_new_def)
qed

lemma resolve_plan_nonempty:
  assumes rs: "resolve_plan Y d keys names all_types types = Inr rs" and ok: "dir_ok d" and ne: "names \<noteq> []"
  shows "cp_fields (rs_plan rs) \<noteq> []"
proof -
  obtain columns rs0 where st: "plan_steps Y d keys names all_types types columns rs0"
    and plan: "rs_plan rs = rs_plan rs0"
    using rs by (auto simp: resolve_plan_Inr_iff)
  have cols: "columns \<noteq> []"
  proof (cases "tr_select (dir_transform d)")
    case None
    then show ?thesis
      using st ne by (auto simp: plan_steps_def resolve_transform_Inr_iff transform_columns_def)
  next
    case (Some sel)
    then have "sel \<noteq> []"
      using ok by (auto simp: dir_ok_def transform_wf_def transform_ok_def config_names_ok_def)
    then show ?thesis
      using st Some by (simp add: plan_steps_def resolve_transform_Inr_iff transform_columns_def)
  qed
  show ?thesis
  proof (cases d)
    case (Pinned path pin policy tr ovs)
    then have "pin \<noteq> []" using ok by (simp add: dir_ok_def pin_ok_def)
    then show ?thesis
      using st Pinned unfolding plan
      by (auto simp: plan_steps_def directive_resolution_def pinned_resolution_Inr_iff Let_def
          match_shape_Inr_iff assemble_pinned_plan_def chunk_plan_new_def)
  qed (use st cols plan in \<open>auto simp: plan_steps_def directive_resolution_def inferred_resolution_def
         inferred_plan_def Let_def chunk_plan_new_def\<close>)
qed

subsection \<open>CSV survivors\<close>

definition text_survives :: "('d, 't) chrono \<Rightarrow> field_check list \<Rightarrow> string list \<Rightarrow> text_record \<Rightarrow> bool" where
  "text_survives C checks names rec \<longleftrightarrow> validate_text_record C rec checks names = None"

lemma widens_not_null: "widens s t \<Longrightarrow> s \<noteq> I_Null \<Longrightarrow> t \<noteq> I_Null"
  by (cases s) (auto simp: widens_def)

lemma text_fits_observed:
  assumes "widens (infer_text_type v) t"
  shows "text_value_fits C v (inferred_field_type t)"
  using fits_inferred_field_type [OF assms widens_not_null [OF assms]]
  by (cases t) (simp_all add: text_value_fits_def)

lemma text_survives_check:
  assumes "text_survives C checks names r" "fc \<in> set checks"
  shows "\<not> text_check_violated C (tx_cells r) fc"
  using assms validate_text_iff [of C r checks names] by (auto simp: text_survives_def list_ex_iff)

lemma text_cell_fits:
  assumes g: "guarded checks types p" and s: "text_survives C checks names r"
    and b: "text_bounded types r" "pl_observed_index p < length types"
    and v: "tx_cells r ! pl_observed_index p = Some v"
  shows "text_value_fits C v (pl_materialized_type p)"
proof -
  consider (check) fc where "fc \<in> set checks" "same_source p fc"
      "map_option fst (fc_expected_type fc) = Some (pl_materialized_type p)"
    | (observed) "pl_materialized_type p = inferred_field_type (types ! pl_observed_index p)"
    using g by (auto simp: guarded_def)
  then show ?thesis
  proof cases
    case check
    then show ?thesis
      using text_survives_check [OF s check(1)] v by (auto simp: text_check_violated_def same_source_def)
  next
    case observed
    have "widens (infer_text_type v) (types ! pl_observed_index p)"
      using b v by (simp add: text_bounded_def)
    then show ?thesis unfolding observed by (rule text_fits_observed)
  qed
qed

lemma text_cell_required:
  assumes g: "guarded checks types p" and s: "text_survives C checks names r" and nn: "\<not> pl_nullable p"
  shows "tx_cells r ! pl_observed_index p \<noteq> None"
proof -
  obtain fc where fc: "fc \<in> set checks" "same_source p fc" "fc_required fc \<noteq> None"
    using g nn unfolding guarded_def by blast
  then show ?thesis
    using text_survives_check [OF s fc(1)]
    by (auto simp: text_check_violated_def same_source_def split: option.splits)
qed

lemma build_text_chunk_ok:
  assumes A: "arrow_contract A" and ok: "dir_ok d" and csv: "tr_flatten (dir_transform d) = []"
    and rs: "resolve_plan Y d keys names all_types types = Inr rs" and ne: "names \<noteq> []"
    and len: "length types = length names"
    and surv: "\<And>r. r \<in> set records \<Longrightarrow> text_bounded types r \<and> text_survives C (rs_checks rs) names r"
  shows "\<exists>b. build_text_chunk C A (rs_plan rs) records = Inr b \<and> batch_of (rs_plan rs) (length records) b"
proof -
  obtain columns where cols: "resolve_transform d names = Inr columns" "plan_guarded columns types rs"
    using resolve_plan_guarded [OF rs ok] by blast
  have idx: "pl_observed_index p < length types" if "p \<in> set (cp_fields (rs_plan rs))" for p
    using cols that column_index_bound [OF cols(1)] csv len
    by (fastforce simp: plan_guarded_def plan_of_columns_def)
  show ?thesis
    unfolding build_text_chunk_def
  proof (rule chunk_ok [OF A, where pf = id and nul = "\<lambda>p r. tx_cells r ! pl_observed_index p = None"])
    show "rs_plan rs = chunk_plan_new (map id (cp_fields (rs_plan rs)))"
      using cols(2) by (simp add: plan_guarded_def)
    show "cp_fields (rs_plan rs) \<noteq> []" by (rule resolve_plan_nonempty [OF rs ok ne])
  next
    fix p assume p: "p \<in> set (cp_fields (rs_plan rs))"
    then have g: "guarded (rs_checks rs) types p" using cols(2) by (simp add: plan_guarded_def)
    show "column_ok (pl_materialized_type (id p)) (map (\<lambda>r. tx_cells r ! pl_observed_index (id p) = None) records)
        (build_text_array C A (pl_materialized_type p) records (pl_observed_index p))"
      unfolding id_apply
    proof (rule build_text_array_ok [OF A])
      show "field_type_ok (pl_materialized_type p)" using g by (simp add: guarded_def)
      show "text_value_fits C v (pl_materialized_type p)"
        if r: "r \<in> set records" "tx_cells r ! pl_observed_index p = Some v" for r v
        using surv [OF r(1)] by (intro text_cell_fits [OF g _ _ idx [OF p] r(2)]) blast+
    qed
  next
    fix p r assume "p \<in> set (cp_fields (rs_plan rs))" "\<not> pl_nullable (id p)" "r \<in> set records"
    then show "\<not> tx_cells r ! pl_observed_index (id p) = None"
      using text_cell_required surv cols(2) by (fastforce simp: plan_guarded_def)
  qed
qed

subsection \<open>JSONL survivors\<close>

definition json_survives :: "('d, 't) chrono \<Rightarrow> field_check list \<Rightarrow> json_record \<Rightarrow> bool" where
  "json_survives C checks rec \<longleftrightarrow> \<not> json_record_violates C rec checks"

text \<open>
  Every value of the record, at the observed names and at the flatten paths, widens to the
  observation of its slot.
\<close>

definition json_bounded :: "schema_transform \<Rightarrow> string list \<Rightarrow> inferred_type list \<Rightarrow> json_record \<Rightarrow> bool" where
  "json_bounded tr names types rec \<longleftrightarrow>
     (\<forall>i < length names. \<forall>v. obj_get (js_object rec) (names ! i) = Some v \<longrightarrow> widens (infer_json_type v) (types ! i))
     \<and> (\<forall>p < length (tr_flatten tr). \<forall>v.
          json_path_value (fl_segments (tr_flatten tr ! p)) (js_object rec) = Some v \<longrightarrow>
          widens (infer_json_type v) (types ! (length names + p)))"

lemma json_fits_observed:
  assumes "widens (infer_json_type v) t" "v \<noteq> JNull"
  shows "json_value_fits C v (inferred_field_type t)"
proof -
  have "infer_json_type v \<noteq> I_Null" using assms(2) by (cases v) auto
  then show ?thesis
    using fits_inferred_field_type [OF assms(1) widens_not_null [OF assms(1)]]
    by (cases t) (simp_all add: json_value_fits_def)
qed

lemma json_survives_check:
  "json_survives C checks r \<Longrightarrow> fc \<in> set checks \<Longrightarrow> \<not> json_check_violated C (js_object r) fc"
  by (auto simp: json_survives_def json_record_violates_def list_ex_iff)

lemma present_Some: "present x = Some v \<Longrightarrow> x = Some v"
  by (auto simp: present_def split: option.splits json.splits)

lemma json_cell_fits:
  assumes res: "resolve_transform d names = Inr columns" and pc: "plan_of_columns columns p"
    and g: "guarded checks types p" and s: "json_survives C checks r"
    and b: "json_bounded (dir_transform d) names types r"
    and v: "present (json_value (pl_source p) (js_object r)) = Some v"
  shows "json_value_fits C v (pl_materialized_type p)"
proof -
  consider (check) fc where "fc \<in> set checks" "same_source p fc"
      "map_option fst (fc_expected_type fc) = Some (pl_materialized_type p)"
    | (observed) "pl_materialized_type p = inferred_field_type (types ! pl_observed_index p)"
    using g by (auto simp: guarded_def)
  then show ?thesis
  proof cases
    case check
    then show ?thesis
      using json_survives_check [OF s check(1)] v by (auto simp: json_check_violated_def same_source_def)
  next
    case observed
    obtain c where c: "c \<in> set columns" "pl_source p = dc_source c" "pl_observed_index p = dc_observed_index c"
      using pc by (auto simp: plan_of_columns_def)
    have "widens (infer_json_type v) (types ! pl_observed_index p)"
      using transform_columns_cases [OF res c(1)] present_Some [OF v] b c(2,3)
      by (auto simp: json_bounded_def is_flatten_column_def is_field_column_def flatten_column_def
          field_column_def Let_def)
    then show ?thesis unfolding observed by (rule json_fits_observed [OF _ present_not_null [OF v]])
  qed
qed

lemma json_cell_required:
  assumes g: "guarded checks types p" and s: "json_survives C checks r" and nn: "\<not> pl_nullable p"
  shows "present (json_value (pl_source p) (js_object r)) \<noteq> None"
proof -
  obtain fc where fc: "fc \<in> set checks" "same_source p fc" "fc_required fc \<noteq> None"
    using g nn unfolding guarded_def by blast
  then show ?thesis
    using json_survives_check [OF s fc(1)]
    by (auto simp: json_check_violated_def same_source_def split: option.splits)
qed

lemma build_json_chunk_ok:
  assumes A: "arrow_contract A" and ok: "dir_ok d"
    and rs: "resolve_plan Y d keys names all_types types = Inr rs" and ne: "names \<noteq> []"
    and surv: "\<And>r. r \<in> set records \<Longrightarrow>
      json_bounded (dir_transform d) names types r \<and> json_survives C (rs_checks rs) r"
  shows "\<exists>b. build_json_chunk C A J (rs_plan rs) records = Inr b \<and> batch_of (rs_plan rs) (length records) b"
proof -
  obtain columns where cols: "resolve_transform d names = Inr columns" "plan_guarded columns types rs"
    using resolve_plan_guarded [OF rs ok] by blast
  let ?xs = "zip [0..<length (cp_fields (rs_plan rs))] (cp_fields (rs_plan rs))"
  have fields: "p \<in> set (cp_fields (rs_plan rs))" if "(i, p) \<in> set ?xs" for i p
    using that by (rule set_zip_rightD)
  show ?thesis
    unfolding build_json_chunk_def
  proof (rule chunk_ok [OF A, where pf = snd
        and nul = "\<lambda>p r. present (json_value (pl_source p) (js_object r)) = None"])
    show "rs_plan rs = chunk_plan_new (map snd ?xs)"
      using cols(2) by (simp add: plan_guarded_def)
    show "?xs \<noteq> []" using resolve_plan_nonempty [OF rs ok ne]
      by (metis length_0_conv length_zip length_upt min.idem diff_zero)
  next
    fix x assume x: "x \<in> set ?xs"
    obtain i p where xp: "x = (i, p)" by (cases x)
    then have p: "guarded (rs_checks rs) types p" "plan_of_columns columns p"
      using fields x cols(2) by (auto simp: plan_guarded_def)
    show "column_ok (pl_materialized_type (snd x))
        (map (\<lambda>r. present (json_value (pl_source (snd x)) (js_object r)) = None) records)
        (case x of (column_index, planned) \<Rightarrow>
          build_json_array C A J (pl_materialized_type planned) records (pl_source planned) column_index)"
      unfolding xp snd_conv prod.case
    proof (rule build_json_array_ok [OF A])
      show "field_type_ok (pl_materialized_type p)" using p(1) by (simp add: guarded_def)
      show "json_value_fits C v (pl_materialized_type p)"
        if r: "r \<in> set records" "present (json_value (pl_source p) (js_object r)) = Some v" for r v
        using surv [OF r(1)] by (intro json_cell_fits [OF cols(1) p(2,1) _ _ r(2)]) blast+
    qed
  next
    fix x r assume x: "x \<in> set ?xs" "\<not> pl_nullable (snd x)" "r \<in> set records"
    then have "guarded (rs_checks rs) types (snd x)"
      using fields [of "fst x" "snd x"] cols(2) by (simp add: plan_guarded_def)
    then show "\<not> present (json_value (pl_source (snd x)) (js_object r)) = None"
      using json_cell_required x surv by blast
  qed
qed

end
