(* ===== verification/Observer_Facts.thy ===== *)
theory Observer_Facts
  imports Chunk_Facts "HOL-Library.Multiset"
begin

section \<open>Pass 1 and pass 2 agree\<close>

text \<open>
  Lemmas that join the observers of \<open>src/schema.rs\<close> to the resolution they finish in: the
  CSV probe fixes the final checks, the outcomes pass 1 gave are those of the resolved
  checks, and what survived pass 1 is bounded by the observations the plan was made from.
\<close>

subsection \<open>The verdict and the checks do not depend on the observed types\<close>

lemma resolve_plan_types_irrelevant:
  assumes "resolve_plan Y d keys names t1 t2 = Inr rs"
  shows "\<exists>rs'. resolve_plan Y d keys names t1' t2' = Inr rs' \<and> rs_checks rs' = rs_checks rs"
proof -
  obtain columns rs0 where st: "plan_steps Y d keys names t1 t2 columns rs0"
    and rs: "rs_checks rs = map (\<lambda>k. merge_key_check (the (column_named columns k))) keys @ rs_checks rs0"
    using assms by (auto simp: resolve_plan_Inr_iff)
  have "\<exists>rs0'. directive_resolution Y d columns t1' t2' = Inr rs0' \<and> rs_checks rs0' = rs_checks rs0"
  proof (cases d)
    case (Pinned path pin policy tr ovs)
    then obtain sm where "check_override_conflicts path pin ovs = Inr ()"
        "match_shape path pin policy columns = Inr sm" "undeclared_fields (sm_matched sm) ovs = []"
        "rs_checks rs0 = pinned_checks (sm_matched sm) @ override_checks ovs (sm_added sm)"
      using st by (auto simp: plan_steps_def directive_resolution_def pinned_resolution_Inr_iff Let_def)
    then show ?thesis
      using Pinned by (auto simp: directive_resolution_def pinned_resolution_Inr_iff Let_def)
  qed (use st in \<open>auto simp: plan_steps_def directive_resolution_def inferred_resolution_def Let_def\<close>)
  then obtain rs0' where rs0': "directive_resolution Y d columns t1' t2' = Inr rs0'" "rs_checks rs0' = rs_checks rs0"
    by blast
  let ?rs' = "rs0'\<lparr>rs_checks := map (\<lambda>k. merge_key_check (the (column_named columns k))) keys @ rs_checks rs0',
      rs_decision := dir_stamp d (rs_decision rs0')\<rparr>"
  have "plan_steps Y d keys names t1' t2' columns rs0'"
    using st rs0'(1) by (simp add: plan_steps_def)
  then have "resolve_plan Y d keys names t1' t2' = Inr ?rs'"
    by (auto simp: resolve_plan_Inr_iff)
  moreover have "rs_checks ?rs' = rs_checks rs" by (simp add: rs rs0'(2))
  ultimately show ?thesis by blast
qed

subsection \<open>CSV\<close>

lemma text_observer_new_checks:
  assumes "resolve_plan Y d keys names all_types types = Inr rs"
  shows "to_checks (text_observer_new Y d keys names) = Some (rs_checks rs)"
  using resolve_plan_types_irrelevant [OF assms, of "replicate (length names) I_Null" "replicate (length names) I_Null"]
  by (auto simp: text_observer_new_def Let_def)

lemma text_observe_checks: "to_checks (fst (text_observe C names obs r)) = to_checks obs"
  by (simp add: text_observe_def Let_def split: option.split)

lemma text_observe_all_checks:
  "to_checks (fst (text_observe_all C names obs recs)) = to_checks obs"
  by (induction recs arbitrary: obs) (simp_all add: case_prod_unfold Let_def text_observe_checks)

text \<open>Under a healthy verdict the rejections are the validator's, in order.\<close>

lemma text_observe_all_rejections:
  "to_checks obs = Some checks \<Longrightarrow>
   snd (text_observe_all C names obs recs) = List.map_filter (\<lambda>r. validate_text_record C r checks names) recs"
proof (induction recs arbitrary: obs)
  case (Cons r recs)
  have "to_checks (fst (text_observe C names obs r)) = Some checks"
    using Cons.prems by (simp add: text_observe_def Let_def split: option.split)
  moreover have "snd (text_observe C names obs r) = validate_text_record C r checks names"
    using Cons.prems by (simp add: text_observe_def Let_def split: option.split)
  ultimately show ?case
    using Cons.IH [of "fst (text_observe C names obs r)"]
    by (simp add: map_filter_simps case_prod_unfold Let_def split: option.split)
qed (simp add: map_filter_simps)

lemma text_observe_survivors:
  assumes "to_checks obs = Some checks"
  shows "to_survivor_types (fst (text_observe C names obs r)) =
    (if text_survives C checks names r then merge_text_observations (to_survivor_types obs) r
     else to_survivor_types obs)"
  using assms by (simp add: text_observe_def Let_def text_survives_def split: option.split)

lemma text_observe_all_bounded:
  assumes "to_checks obs = Some checks"
    "\<forall>r\<in>set recs. length (tx_cells r) = length (to_survivor_types obs)"
  shows "length (to_survivor_types (fst (text_observe_all C names obs recs))) = length (to_survivor_types obs)
     \<and> (\<forall>r. length (tx_cells r) = length (to_survivor_types obs) \<longrightarrow>
           text_bounded (to_survivor_types obs) r \<longrightarrow>
           text_bounded (to_survivor_types (fst (text_observe_all C names obs recs))) r)
     \<and> (\<forall>r\<in>set recs. text_survives C checks names r \<longrightarrow>
           text_bounded (to_survivor_types (fst (text_observe_all C names obs recs))) r)"
  using assms
proof (induction recs arbitrary: obs)
  case (Cons r recs)
  let ?obs = "fst (text_observe C names obs r)"
  have c: "to_checks ?obs = Some checks"
    using Cons.prems(1) by (simp add: text_observe_def Let_def split: option.split)
  have t: "to_survivor_types ?obs = (if text_survives C checks names r
      then merge_text_observations (to_survivor_types obs) r else to_survivor_types obs)"
    by (rule text_observe_survivors [OF Cons.prems(1)])
  have lr: "length (tx_cells r) = length (to_survivor_types obs)" using Cons.prems(2) by simp
  then have l: "length (to_survivor_types ?obs) = length (to_survivor_types obs)"
    by (simp add: t)
  have all: "fst (text_observe_all C names obs (r # recs)) = fst (text_observe_all C names ?obs recs)"
    by (simp add: case_prod_unfold Let_def)
  have IH: "length (to_survivor_types (fst (text_observe_all C names ?obs recs))) = length (to_survivor_types ?obs)
     \<and> (\<forall>r. length (tx_cells r) = length (to_survivor_types ?obs) \<longrightarrow>
           text_bounded (to_survivor_types ?obs) r \<longrightarrow>
           text_bounded (to_survivor_types (fst (text_observe_all C names ?obs recs))) r)
     \<and> (\<forall>r\<in>set recs. text_survives C checks names r \<longrightarrow>
           text_bounded (to_survivor_types (fst (text_observe_all C names ?obs recs))) r)"
    by (rule Cons.IH [OF c]) (use Cons.prems(2) l in simp)
  moreover have "text_bounded (to_survivor_types ?obs) q"
    if "text_bounded (to_survivor_types obs) q" for q
    using that text_bounded_mono [OF that lr] by (simp add: t)
  moreover have "text_bounded (to_survivor_types ?obs) r" if "text_survives C checks names r"
    using that text_bounded_self [OF lr] by (simp add: t)
  ultimately show ?case unfolding all using l lr by simp
qed simp

subsection \<open>JSONL\<close>

lemma merge_entry_widens:
  "widens (observed_or_null types k) (observed_or_null (merge_entry types e) k)"
  by (auto simp: merge_entry_def observed_or_null_def Let_def split: option.split)

lemma merge_entries_widen:
  "widens (observed_or_null types k) (observed_or_null (foldl merge_entry types kvs) k)"
  by (induction kvs arbitrary: types) (use merge_entry_widens widens_trans in \<open>fastforce+\<close>)

lemma merge_entries_bound:
  "(k, v) \<in> set kvs \<Longrightarrow> widens (infer_json_type v) (observed_or_null (foldl merge_entry types kvs) k)"
proof (induction kvs arbitrary: types)
  case (Cons e kvs)
  show ?case
  proof (cases "e = (k, v)")
    case True
    then have "widens (infer_json_type v) (observed_or_null (merge_entry types e) k)"
      by (simp add: merge_entry_def observed_or_null_def Let_def)
    then show ?thesis using merge_entries_widen widens_trans by fastforce
  qed (use Cons in auto)
qed simp

definition json_slots :: "schema_transform \<Rightarrow> (string \<rightharpoonup> inferred_type) \<Rightarrow> inferred_type list \<Rightarrow> json_record \<Rightarrow> bool" where
  "json_slots tr types flatten rec \<longleftrightarrow> length flatten = length (tr_flatten tr)
     \<and> (\<forall>k v. obj_get (js_object rec) k = Some v \<longrightarrow> widens (infer_json_type v) (observed_or_null types k))
     \<and> (\<forall>p < length (tr_flatten tr). \<forall>v.
          json_path_value (fl_segments (tr_flatten tr ! p)) (js_object rec) = Some v \<longrightarrow>
          widens (infer_json_type v) (flatten ! p))"

lemma json_slots_bounded:
  "json_slots tr types flatten rec \<Longrightarrow>
   json_bounded tr names (map (observed_or_null types) names @ flatten) rec"
  by (auto simp: json_slots_def json_bounded_def nth_append)

lemma merge_json_length:
  "merge_json_observations types flatten d rec = (types', flatten') \<Longrightarrow>
   length flatten = length (tr_flatten (dir_transform d)) \<Longrightarrow> length flatten' = length flatten"
  by (auto simp: merge_json_observations_def)

lemma json_slots_self:
  "merge_json_observations types flatten d rec = (types', flatten') \<Longrightarrow>
   length flatten = length (tr_flatten (dir_transform d)) \<Longrightarrow> json_slots (dir_transform d) types' flatten' rec"
  by (auto simp: merge_json_observations_def json_slots_def obj_get_def merge_flatten_entry_def
      intro!: merge_entries_bound dest: map_of_SomeD)

lemma json_slots_mono:
  assumes "merge_json_observations types flatten d rec' = (types', flatten')"
    "json_slots (dir_transform d) types flatten rec"
  shows "json_slots (dir_transform d) types' flatten' rec"
proof -
  have len: "length flatten = length (tr_flatten (dir_transform d))"
    using assms(2) by (simp add: json_slots_def)
  have t: "widens (observed_or_null types k) (observed_or_null types' k)" for k
    using assms(1) merge_entries_widen by (auto simp: merge_json_observations_def)
  have f: "widens (flatten ! p) (flatten' ! p)" if "p < length flatten" for p
    using assms(1) that len
    by (auto simp: merge_json_observations_def merge_flatten_entry_def split: option.split)
  show ?thesis
    using assms(2) merge_json_length [OF assms(1) len] t f widens_trans
    unfolding json_slots_def by metis
qed

lemma json_observe_all_outcomes:
  "snd (json_observe_all C d obs recs) =
     map (\<lambda>r. if json_record_violates C r (jo_checks obs) then Rejected else Survived) recs
   \<and> jo_checks (fst (json_observe_all C d obs recs)) = jo_checks obs"
proof (induction recs arbitrary: obs)
  case (Cons r recs)
  have "jo_checks (fst (json_observe C d obs r)) = jo_checks obs"
    "snd (json_observe C d obs r) = (if json_record_violates C r (jo_checks obs) then Rejected else Survived)"
    by (auto simp: json_observe_def Let_def case_prod_unfold)
  then show ?case using Cons.IH [of "fst (json_observe C d obs r)"]
    by (simp add: case_prod_unfold Let_def)
qed simp

definition obs_slots :: "schema_transform \<Rightarrow> json_observer \<Rightarrow> json_record \<Rightarrow> bool" where
  "obs_slots tr obs rec \<longleftrightarrow> json_slots tr (jo_survivor_types obs) (jo_flatten_survivors obs) rec"

lemma json_observe_slots:
  assumes len: "length (jo_flatten_survivors obs) = length (tr_flatten (dir_transform d))"
  shows "length (jo_flatten_survivors (fst (json_observe C d obs r))) = length (tr_flatten (dir_transform d))
    \<and> (\<forall>q. obs_slots (dir_transform d) obs q \<longrightarrow> obs_slots (dir_transform d) (fst (json_observe C d obs r)) q)
    \<and> (json_survives C (jo_checks obs) r \<longrightarrow> obs_slots (dir_transform d) (fst (json_observe C d obs r)) r)"
proof -
  obtain t f where tf: "merge_json_observations (jo_survivor_types obs) (jo_flatten_survivors obs) d r = (t, f)"
    by fastforce
  show ?thesis
    using merge_json_length [OF tf len] json_slots_self [OF tf len] json_slots_mono [OF tf] len
    by (auto simp: json_observe_def Let_def case_prod_unfold tf obs_slots_def json_survives_def)
qed

lemma json_observe_all_slots:
  assumes "length (jo_flatten_survivors obs) = length (tr_flatten (dir_transform d))"
  shows "(\<forall>q. obs_slots (dir_transform d) obs q \<longrightarrow>
        obs_slots (dir_transform d) (fst (json_observe_all C d obs recs)) q)
    \<and> (\<forall>r\<in>set recs. json_survives C (jo_checks obs) r \<longrightarrow>
        obs_slots (dir_transform d) (fst (json_observe_all C d obs recs)) r)"
  using assms
proof (induction recs arbitrary: obs)
  case (Cons r recs)
  have "jo_checks (fst (json_observe C d obs r)) = jo_checks obs"
    by (auto simp: json_observe_def Let_def case_prod_unfold)
  moreover have "fst (json_observe_all C d obs (r # recs)) = fst (json_observe_all C d (fst (json_observe C d obs r)) recs)"
    by (simp add: case_prod_unfold Let_def)
  ultimately show ?case
    using json_observe_slots [OF Cons.prems, of C r] Cons.IH [of "fst (json_observe C d obs r)"]
    by simp
qed simp

subsection \<open>The order of the records does not matter\<close>

lemma foldl_mset_cong:
  assumes "\<And>x y z. f (f z x) y = f (f z y) x" "mset xs = mset ys"
  shows "foldl f z xs = foldl f z ys"
proof -
  have "fold (\<lambda>x z. f z x) xs = fold (\<lambda>x z. f z x) ys"
    using assms by (intro fold_multiset_equiv) (auto simp: fun_eq_iff)
  then show ?thesis by (simp add: foldl_conv_fold)
qed

lemma text_observe_all_types:
  "to_all_types (fst (text_observe_all C names obs recs)) = foldl merge_text_observations (to_all_types obs) recs"
proof (induction recs arbitrary: obs)
  case (Cons r recs)
  have "to_all_types (fst (text_observe C names obs r)) = merge_text_observations (to_all_types obs) r"
    by (simp add: text_observe_def Let_def split: option.split)
  with Cons.IH show ?case by (simp add: case_prod_unfold Let_def)
qed simp

lemma text_observe_survivor_types:
  assumes "to_checks obs = Some checks"
  shows "to_survivor_types (fst (text_observe_all C names obs recs)) =
    foldl merge_text_observations (to_survivor_types obs) (filter (text_survives C checks names) recs)"
  using assms
proof (induction recs arbitrary: obs)
  case (Cons r recs)
  have "to_checks (fst (text_observe C names obs r)) = Some checks"
    using Cons.prems by (simp add: text_observe_checks)
  from Cons.IH [OF this] show ?case
    using text_observe_survivors [OF Cons.prems, of C names r] by (simp add: case_prod_unfold Let_def)
qed simp

lemma text_observe_unhealthy:
  "to_checks obs = None \<Longrightarrow>
   to_survivor_types (fst (text_observe_all C names obs recs)) = to_survivor_types obs"
proof (induction recs arbitrary: obs)
  case (Cons r recs)
  have "to_checks (fst (text_observe C names obs r)) = None"
    "to_survivor_types (fst (text_observe C names obs r)) = to_survivor_types obs"
    using Cons.prems by (simp_all add: text_observe_def Let_def)
  then show ?case using Cons.IH by (simp add: case_prod_unfold Let_def)
qed simp

lemma merge_entry_commute: "merge_entry (merge_entry types e) f = merge_entry (merge_entry types f) e"
  by (cases "fst e = fst f")
    (auto simp: merge_entry_def Let_def fun_upd_twist merge_types_left_comm merge_types_comm merge_types_assoc
      split: option.split)

lemma merge_entries_commute1: "merge_entry (foldl merge_entry types es) f = foldl merge_entry (merge_entry types f) es"
  by (induction es arbitrary: types) (simp_all add: merge_entry_commute)

lemma merge_entries_commute:
  "foldl merge_entry (foldl merge_entry types es) fs = foldl merge_entry (foldl merge_entry types fs) es"
  by (induction fs arbitrary: types) (simp_all add: merge_entries_commute1)

lemma merge_flatten_entry_commute:
  "merge_flatten_entry a (merge_flatten_entry b t e) e = merge_flatten_entry b (merge_flatten_entry a t e) e"
  by (auto simp: merge_flatten_entry_def merge_types_left_comm merge_types_comm merge_types_assoc split: option.split)

definition merge_json_pair ::
  "schema_directive \<Rightarrow> (string \<rightharpoonup> inferred_type) \<times> inferred_type list \<Rightarrow> json_record
   \<Rightarrow> (string \<rightharpoonup> inferred_type) \<times> inferred_type list" where
  "merge_json_pair d p rec = merge_json_observations (fst p) (snd p) d rec"

lemma merge_json_pair_commute:
  "merge_json_pair d (merge_json_pair d p a) b = merge_json_pair d (merge_json_pair d p b) a"
  by (auto simp: merge_json_pair_def merge_json_observations_def merge_entries_commute
      intro!: nth_equalityI merge_flatten_entry_commute)

lemma json_observe_all_types:
  "(jo_all_types (fst (json_observe_all C d obs recs)), jo_flatten_all (fst (json_observe_all C d obs recs)))
     = foldl (merge_json_pair d) (jo_all_types obs, jo_flatten_all obs) recs
   \<and> (jo_survivor_types (fst (json_observe_all C d obs recs)), jo_flatten_survivors (fst (json_observe_all C d obs recs)))
     = foldl (merge_json_pair d) (jo_survivor_types obs, jo_flatten_survivors obs)
         (filter (json_survives C (jo_checks obs)) recs)"
proof (induction recs arbitrary: obs)
  case (Cons r recs)
  let ?obs = "fst (json_observe C d obs r)"
  have "jo_checks ?obs = jo_checks obs"
    "(jo_all_types ?obs, jo_flatten_all ?obs) = merge_json_pair d (jo_all_types obs, jo_flatten_all obs) r"
    "(jo_survivor_types ?obs, jo_flatten_survivors ?obs) =
       (if json_survives C (jo_checks obs) r
        then merge_json_pair d (jo_survivor_types obs, jo_flatten_survivors obs) r
        else (jo_survivor_types obs, jo_flatten_survivors obs))"
    by (auto simp: json_observe_def Let_def case_prod_unfold merge_json_pair_def json_survives_def)
  then show ?case using Cons.IH [of ?obs] by (simp add: case_prod_unfold Let_def)
qed simp

lemma json_fold_order: "mset recs = mset recs' \<Longrightarrow> foldl (merge_json_pair d) p recs = foldl (merge_json_pair d) p recs'"
  by (rule foldl_mset_cong [where f = "merge_json_pair d"]) (rule merge_json_pair_commute)

lemma text_fold_order:
  "mset recs = mset recs' \<Longrightarrow> foldl merge_text_observations types recs = foldl merge_text_observations types recs'"
  by (rule foldl_mset_cong [where f = merge_text_observations]) (rule merge_text_commute)

lemma accepted_iff: "rejection_for C rs r = None \<longleftrightarrow> \<not> json_record_violates C r (rs_checks rs)"
  using validate_json_iff_violates [of C r "rs_checks rs"] by (auto simp: rejection_for_def)

lemma observer_verdict:
  assumes "dir_ok d" "json_finish Y d keys names obs = Inr rs"
  shows "json_record_violates C r (jo_checks (json_observer_new d keys)) \<longleftrightarrow> rejection_for C rs r \<noteq> None"
  using violates_unindexed [OF resolve_plan_checks [OF assms(1) assms(2) [unfolded json_finish_def]], of C r]
  by (simp add: accepted_iff json_observer_new_def Let_def)

subsection \<open>What pass 1 accepted builds\<close>

lemma json_chunk_builds:
  assumes A: "arrow_contract A" and ok: "dir_ok d" and ne: "names \<noteq> []"
    and fin: "json_finish Y d keys names (fst (json_observe_all C d (json_observer_new d keys) recs)) = Inr rs"
    and sub: "set chunk \<subseteq> set recs" and acc: "\<forall>r\<in>set chunk. rejection_for C rs r = None"
  shows "\<exists>b. build_json_chunk C A J (rs_plan rs) chunk = Inr b \<and> batch_of (rs_plan rs) (length chunk) b"
proof (rule build_json_chunk_ok [OF A ok fin [unfolded json_finish_def] ne])
  fix r assume r: "r \<in> set chunk"
  have v: "\<not> json_record_violates C r (rs_checks rs)" using acc r by (simp add: accepted_iff)
  have s: "json_survives C (jo_checks (json_observer_new d keys)) r"
    using acc r observer_verdict [OF ok fin, of C r] by (simp add: json_survives_def)
  have len: "length (jo_flatten_survivors (json_observer_new d keys)) = length (tr_flatten (dir_transform d))"
    by (simp add: json_observer_new_def Let_def)
  show "json_bounded (dir_transform d) names
      (map (observed_or_null (jo_survivor_types (fst (json_observe_all C d (json_observer_new d keys) recs)))) names
        @ jo_flatten_survivors (fst (json_observe_all C d (json_observer_new d keys) recs))) r
    \<and> json_survives C (rs_checks rs) r"
    using json_observe_all_slots [OF len, of C recs] s r sub v json_slots_bounded
    by (auto simp: obs_slots_def json_survives_def)
qed

lemma text_chunk_builds:
  assumes A: "arrow_contract A" and ok: "dir_ok d" and csv: "tr_flatten (dir_transform d) = []" and ne: "names \<noteq> []"
    and len: "\<forall>r\<in>set recs. length (tx_cells r) = length names"
    and fin: "text_finish Y d keys names (fst (text_observe_all C names (text_observer_new Y d keys names) recs)) = Inr rs"
    and sub: "set chunk \<subseteq> set recs" and acc: "\<forall>r\<in>set chunk. validate_text_record C r (rs_checks rs) names = None"
  shows "\<exists>b. build_text_chunk C A (rs_plan rs) chunk = Inr b \<and> batch_of (rs_plan rs) (length chunk) b"
proof -
  let ?obs = "text_observer_new Y d keys names"
  have c: "to_checks ?obs = Some (rs_checks rs)"
    using text_observer_new_checks [OF fin [unfolded text_finish_def]] .
  have l: "length (to_survivor_types ?obs) = length names"
    by (simp add: text_observer_new_def Let_def)
  note bounded = text_observe_all_bounded [OF c, of recs C names, unfolded l, OF len]
  show ?thesis
    using bounded sub acc
    by (intro build_text_chunk_ok [OF A ok csv fin [unfolded text_finish_def] ne])
      (auto simp: text_survives_def)
qed

end
