(* ===== verification/Pin_Facts.thy ===== *)
theory Pin_Facts
  imports Chunk_Facts
begin

section \<open>Pins are stable\<close>

text \<open>
  A pin written by a load, at bootstrap or when a drift policy extends it, is a pin the same
  columns satisfy: a later load of them under it plans the same fields, whatever it observes
  and whatever its drift policy, and writes no pin.
\<close>

subsection \<open>Fields a pin can be made of\<close>

definition named_by :: "dataset_column list \<Rightarrow> planned_field \<Rightarrow> bool" where
  "named_by columns p \<longleftrightarrow> (\<exists>c\<in>set columns. dc_dataset_name c = pl_name p
     \<and> pl_source p = dc_source c \<and> pl_observed_index p = dc_observed_index c)"

definition settled :: "schema_overrides \<Rightarrow> planned_field \<Rightarrow> bool" where
  "settled ovs p \<longleftrightarrow>
     (\<forall>ov. override_get ovs (pl_name p) = Some ov \<longrightarrow>
        ov_field_type ov \<in> {None, Some (pl_materialized_type p)} \<and> ov_nullable ov \<in> {None, Some (pl_nullable p)})
     \<and> (lattice_type (pl_materialized_type p) = None \<longrightarrow>
          Option.bind (override_get ovs (pl_name p)) ov_field_type \<noteq> None)"

definition pinnable :: "schema_overrides \<Rightarrow> dataset_column list \<Rightarrow> planned_field list \<Rightarrow> bool" where
  "pinnable ovs columns ps \<longleftrightarrow> distinct (map pl_name ps) \<and> pl_name ` set ps = dc_dataset_name ` set columns
     \<and> (\<forall>p\<in>set ps. named_by columns p \<and> settled ovs p)"

lemma conflict_segments_Nil_iff:
  "conflict_segments ov f = [] \<longleftrightarrow>
     ov_field_type ov \<in> {None, Some (pf_field_type f)} \<and> ov_nullable ov \<in> {None, Some (pf_nullable f)}"
  by (auto simp: conflict_segments_def split: option.splits)

lemma check_override_conflicts_Inr_iff:
  "check_override_conflicts path pin ovs = Inr () \<longleftrightarrow>
     (\<forall>ov\<in>set ovs. \<forall>f. List.find (\<lambda>f. pf_name f = ov_name ov) pin = Some f \<longrightarrow> conflict_segments ov f = [])"
  by (induction ovs) (auto simp: Let_def split: option.split)

lemma override_get_distinct:
  "overrides_ok ovs \<Longrightarrow> ov \<in> set ovs \<Longrightarrow> override_get ovs (ov_name ov) = Some ov"
  unfolding override_get_def overrides_ok_def by (rule find_distinct) auto

lemma pin_of_fields_name [simp]: "map pf_name (pin_of_fields ps) = map pl_name ps"
  by (simp add: pin_of_fields_def)

lemma pinnable_resolves:
  assumes p: "pinnable ovs columns ps" and ovs: "overrides_ok ovs" and dn: "distinct (map dc_dataset_name columns)"
  shows "check_override_conflicts path (pin_of_fields ps) ovs = Inr ()"
    "match_shape path (pin_of_fields ps) policy columns = Inr \<lparr>sm_matched = ps, sm_added = []\<rparr>"
    "undeclared_fields ps ovs = []"
proof -
  show "check_override_conflicts path (pin_of_fields ps) ovs = Inr ()"
    unfolding check_override_conflicts_Inr_iff
  proof (intro ballI allI impI)
    fix ov f assume ov: "ov \<in> set ovs" and f: "List.find (\<lambda>f. pf_name f = ov_name ov) (pin_of_fields ps) = Some f"
    from find_Some_iff' [OF f] obtain q where q: "q \<in> set ps" "pl_name q = ov_name ov"
      "pf_field_type f = pl_materialized_type q" "pf_nullable f = pl_nullable q"
      by (auto simp: pin_of_fields_def)
    with p override_get_distinct [OF ovs ov] show "conflict_segments ov f = []"
      by (simp add: pinnable_def settled_def conflict_segments_Nil_iff)
  qed
  have names: "pf_name ` set (pin_of_fields ps) = pl_name ` set ps"
    by (metis pin_of_fields_name set_map)
  have matched: "map (\<lambda>f. pinned_planned f (the (column_named columns (pf_name f)))) (pin_of_fields ps) = ps"
    unfolding pin_of_fields_def map_map comp_def
  proof (rule map_idI)
    fix q assume "q \<in> set ps"
    then obtain c where "c \<in> set columns" "dc_dataset_name c = pl_name q"
      "pl_source q = dc_source c" "pl_observed_index q = dc_observed_index c"
      using p by (auto simp: pinnable_def named_by_def)
    then show "pinned_planned \<lparr>pf_name = pl_name q, pf_field_type = pl_materialized_type q, pf_nullable = pl_nullable q\<rparr>
        (the (column_named columns (pf_name \<lparr>pf_name = pl_name q, pf_field_type = pl_materialized_type q,
          pf_nullable = pl_nullable q\<rparr>))) = q"
      using column_named_distinct [OF dn, of c] by (simp add: pinned_planned_def)
  qed
  have "added_columns (pin_of_fields ps) columns = []"
    using p by (auto simp: pinnable_def added_columns_def filter_empty_conv)
  then show "match_shape path (pin_of_fields ps) policy columns = Inr \<lparr>sm_matched = ps, sm_added = []\<rparr>"
    using p dn by (auto simp: match_shape_Inr_iff names matched pinnable_def)
  show "undeclared_fields ps ovs = []"
    using p by (auto simp: undeclared_fields_def filter_empty_conv pinnable_def settled_def)
qed

subsection \<open>What a load pins is pinnable\<close>

lemma lattice_inferred [simp]: "lattice_type (inferred_field_type t) \<noteq> None"
  by (cases t) simp_all

lemma inferred_field_pinnable:
  "c \<in> set columns \<Longrightarrow> pl_name (inferred_field ovs types c) = dc_dataset_name c
     \<and> named_by columns (inferred_field ovs types c) \<and> settled ovs (inferred_field ovs types c)"
  by (auto simp: inferred_field_def named_by_def settled_def override_or_def simp del: not_None_eq split: bind_splits option.splits)

lemma inferred_pinnable:
  "distinct (map dc_dataset_name columns) \<Longrightarrow> pinnable ovs columns (map (inferred_field ovs types) columns)"
  using inferred_field_pinnable
  by (auto simp: pinnable_def comp_def inferred_field_def image_image cong: map_cong)

lemma extended_pinnable:
  assumes conf: "check_override_conflicts path pin ovs = Inr ()" and shape: "match_shape path pin policy columns = Inr sm"
    and und: "undeclared_fields (sm_matched sm) ovs = []" and pin: "pin_ok pin"
  shows "pinnable ovs columns (sm_matched sm @ planned_added_fields (sm_added sm) types ovs)"
proof -
  have dn: "distinct (map dc_dataset_name columns)" and sub: "pf_name ` set pin \<subseteq> dc_dataset_name ` set columns"
    and m: "sm_matched sm = map (\<lambda>f. pinned_planned f (the (column_named columns (pf_name f)))) pin"
    and a: "sm_added sm = added_columns pin columns"
    using shape by (auto simp: match_shape_Inr_iff)
  have mn: "map pl_name (sm_matched sm) = map pf_name pin" by (simp add: m pinned_planned_def)
  have an: "map pl_name (planned_added_fields (sm_added sm) types ovs) = map dc_dataset_name (added_columns pin columns)"
    by (simp add: planned_added_eq a inferred_field_def)
  have names: "pl_name ` set (sm_matched sm) = pf_name ` set pin"
    "pl_name ` set (planned_added_fields (sm_added sm) types ovs) = dc_dataset_name ` set columns - pf_name ` set pin"
    using mn an added_names [of pin columns] by (metis set_map)+
  have fm: "named_by columns p \<and> settled ovs p" if p: "p \<in> set (sm_matched sm)" for p
  proof -
    obtain f where f: "f \<in> set pin" "p = pinned_planned f (the (column_named columns (pf_name f)))"
      using p m by auto
    obtain c where c: "column_named columns (pf_name f) = Some c"
      using f(1) sub column_named_None_iff [of columns "pf_name f"] by blast
    have "List.find (\<lambda>g. pf_name g = pf_name f) pin = Some f"
      using pin f(1) find_distinct [of pf_name pin f] by (simp add: pin_ok_def)
    then have "conflict_segments ov f = []" if "override_get ovs (pf_name f) = Some ov" for ov
      using conf override_get_Some [OF that] by (auto simp: check_override_conflicts_Inr_iff)
    moreover have "lattice_type (pl_materialized_type p) = None \<longrightarrow>
        Option.bind (override_get ovs (pl_name p)) ov_field_type \<noteq> None"
      using und p by (auto simp: undeclared_fields_def filter_empty_conv)
    ultimately show ?thesis
      using f c column_named_Some [OF c]
      by (auto simp: named_by_def settled_def pinned_planned_def conflict_segments_Nil_iff)
  qed
  have fa: "named_by columns p \<and> settled ovs p" if p: "p \<in> set (planned_added_fields (sm_added sm) types ovs)" for p
  proof -
    obtain c where "c \<in> set columns" "p = inferred_field ovs types c"
      using p a by (auto simp: planned_added_eq added_columns_def)
    then show ?thesis using inferred_field_pinnable [of c columns ovs types] by simp
  qed
  have "distinct (map pl_name (sm_matched sm))" "distinct (map pl_name (planned_added_fields (sm_added sm) types ovs))"
    using pin dn by (simp_all only: mn an) (simp_all add: pin_ok_def added_columns_def distinct_map inj_on_def)
  moreover have "pl_name ` set (sm_matched sm @ planned_added_fields (sm_added sm) types ovs) = dc_dataset_name ` set columns"
    unfolding set_append image_Un names using sub by blast
  moreover have "set (map pl_name (sm_matched sm)) \<inter> set (map pl_name (planned_added_fields (sm_added sm) types ovs)) = {}"
    unfolding set_map names by blast
  moreover have "\<forall>p\<in>set (sm_matched sm @ planned_added_fields (sm_added sm) types ovs). named_by columns p \<and> settled ovs p"
    using fm fa by auto
  ultimately show ?thesis
    unfolding pinnable_def map_append distinct_append by blast
qed

subsection \<open>The load after one that wrote a pin\<close>

definition repinned :: "schema_directive \<Rightarrow> pinned_schema \<Rightarrow> drift_policy \<Rightarrow> schema_directive" where
  "repinned d pin policy =
     (case d of
        Inferred tr ovs \<Rightarrow> d
      | Pin_Inferred path tr ovs \<Rightarrow> Pinned path pin policy tr ovs
      | Pinned path _ _ tr ovs \<Rightarrow> Pinned path pin policy tr ovs)"

lemma repinned_simps [simp]:
  "dir_transform (repinned d pin policy) = dir_transform d" "dir_overrides (repinned d pin policy) = dir_overrides d"
  by (cases d; simp add: repinned_def)+

lemma resolve_transform_cong:
  "dir_transform d' = dir_transform d \<Longrightarrow> resolve_transform d names = Inr columns \<Longrightarrow>
   resolve_transform d' names = Inr columns"
  unfolding resolve_transform_Inr_iff by auto

text \<open>The pin a resolution writes, and that its fields can be pinned.\<close>

lemma pin_write_fields:
  assumes rs: "resolve_plan Y d keys names all_types types = Inr rs" and ok: "dir_ok d" and dn: "distinct names"
    and w: "rs_pinned_schema_write rs = Some pw"
  shows "pw_yaml pw = to_yaml Y (pin_of_fields (cp_fields (rs_plan rs)))
    \<and> (\<exists>columns. resolve_transform d names = Inr columns \<and> distinct (map dc_dataset_name columns)
        \<and> (\<forall>k\<in>set keys. column_named columns k \<noteq> None)
        \<and> ov_name ` set (dir_overrides d) \<subseteq> dc_dataset_name ` set columns
        \<and> pinnable (dir_overrides d) columns (cp_fields (rs_plan rs))) \<and> (\<forall>tr ovs. d \<noteq> Inferred tr ovs)"
proof -
  obtain columns rs0 where st: "plan_steps Y d keys names all_types types columns rs0"
    and plan: "rs_plan rs = rs_plan rs0" "rs_pinned_schema_write rs0 = Some pw"
    using rs w by (auto simp: resolve_plan_Inr_iff)
  have res: "resolve_transform d names = Inr columns" using st by (simp add: plan_steps_def)
  have dc: "distinct (map dc_dataset_name columns)"
    using transform_columns_distinct [OF res _ dn] ok by (simp add: dir_ok_def)
  have "pw_yaml pw = to_yaml Y (pin_of_fields (cp_fields (rs_plan rs0)))
      \<and> pinnable (dir_overrides d) columns (cp_fields (rs_plan rs0)) \<and> (\<forall>tr ovs. d \<noteq> Inferred tr ovs)"
  proof (cases d)
    case (Inferred tr ovs)
    then show ?thesis
      using st plan(2) by (simp add: plan_steps_def directive_resolution_def inferred_resolution_def
          inferred_plan_def Let_def) (metis option.distinct(1) resolution.select_convs(4))
  next
    case (Pin_Inferred path tr ovs)
    then show ?thesis
      using st plan(2) inferred_pinnable [OF dc]
      by (auto simp: plan_steps_def directive_resolution_def inferred_resolution_def inferred_plan_def Let_def
          chunk_plan_new_def pin_yaml_def)
  next
    case (Pinned path pin policy tr ovs)
    then obtain sm where sm: "check_override_conflicts path pin ovs = Inr ()" "match_shape path pin policy columns = Inr sm"
      "undeclared_fields (sm_matched sm) ovs = []"
      and rs0: "rs_plan rs0 = chunk_plan_new (fp_fields (assemble_pinned_plan Y path (sm_matched sm)
          (planned_added_fields (sm_added sm) types ovs)))"
        "rs_pinned_schema_write rs0 = fp_pinned_schema_write (assemble_pinned_plan Y path (sm_matched sm)
          (planned_added_fields (sm_added sm) types ovs))"
      using st by (auto simp: plan_steps_def directive_resolution_def pinned_resolution_Inr_iff Let_def)
    have "pinnable ovs columns (sm_matched sm @ planned_added_fields (sm_added sm) types ovs)"
      using extended_pinnable [OF sm] ok Pinned by (simp add: dir_ok_def)
    then show ?thesis
      using rs0 plan(2) Pinned
      by (auto simp: assemble_pinned_plan_def chunk_plan_new_def pin_yaml_def Let_def split: if_splits)
  qed
  then show ?thesis using res dc st plan(1) by (auto simp: plan_steps_def)
qed

lemma repinned_stable:
  assumes rs: "resolve_plan Y d keys names all_types types = Inr rs" and ok: "dir_ok d" and dn: "distinct names"
    and w: "rs_pinned_schema_write rs = Some pw"
  shows "\<exists>rs'. resolve_plan Y (repinned d (pin_of_fields (cp_fields (rs_plan rs))) policy) keys names all_types' types' = Inr rs'
    \<and> rs_plan rs' = rs_plan rs \<and> rs_pinned_schema_write rs' = None"
proof -
  let ?fs = "cp_fields (rs_plan rs)"
  let ?d = "repinned d (pin_of_fields ?fs) policy"
  from pin_write_fields [OF assms] obtain columns where
    c: "resolve_transform d names = Inr columns" "distinct (map dc_dataset_name columns)"
      "\<forall>k\<in>set keys. column_named columns k \<noteq> None" "ov_name ` set (dir_overrides d) \<subseteq> dc_dataset_name ` set columns"
      "pinnable (dir_overrides d) columns ?fs" and ni: "\<forall>tr ovs. d \<noteq> Inferred tr ovs" by blast
  have plan: "rs_plan rs = chunk_plan_new ?fs"
    using resolve_plan_guarded [OF rs ok] by (auto simp: plan_guarded_def)
  have ovs: "overrides_ok (dir_overrides d)" using ok by (simp add: dir_ok_def)
  note r = pinnable_resolves [OF c(5) ovs c(2)]
  obtain path where d: "?d = Pinned path (pin_of_fields ?fs) policy (dir_transform d) (dir_overrides d)"
    using ni by (cases d) (auto simp: repinned_def)
  obtain rs0 where rs0: "directive_resolution Y ?d columns all_types' types' = Inr rs0"
    "rs_plan rs0 = rs_plan rs" "rs_pinned_schema_write rs0 = None"
    using r plan unfolding d
    by (auto simp: directive_resolution_def pinned_resolution_Inr_iff Let_def planned_added_fields_def
        assemble_pinned_plan_def)
  have "plan_steps Y ?d keys names all_types' types' columns rs0"
    using rs0(1) c(3,4) resolve_transform_cong [OF _ c(1), of ?d] by (simp add: plan_steps_def)
  then have "resolve_plan Y ?d keys names all_types' types' = Inr (rs0\<lparr>rs_checks :=
      map (\<lambda>k. merge_key_check (the (column_named columns k))) keys @ rs_checks rs0,
      rs_decision := dir_stamp ?d (rs_decision rs0)\<rparr>)"
    by (auto simp only: resolve_plan_Inr_iff)
  then show ?thesis using rs0(2,3) by auto
qed

lemma planned_pin_ok:
  assumes rs: "resolve_plan Y d keys names all_types types = Inr rs" and ok: "dir_ok d" and dn: "distinct names"
    and w: "rs_pinned_schema_write rs = Some pw" and ne: "names \<noteq> []"
  shows "pin_ok (pin_of_fields (cp_fields (rs_plan rs)))"
proof -
  obtain columns where "pinnable (dir_overrides d) columns (cp_fields (rs_plan rs))"
    using pin_write_fields [OF rs ok dn w] by blast
  moreover have "\<forall>p\<in>set (cp_fields (rs_plan rs)). field_type_ok (pl_materialized_type p)"
    using resolve_plan_guarded [OF rs ok] by (auto simp: plan_guarded_def guarded_def)
  ultimately show ?thesis
    using resolve_plan_nonempty [OF rs ok ne]
    by (auto simp: pin_ok_def pinnable_def pin_of_fields_def comp_def)
qed

subsection \<open>Loads that fail on drift\<close>

lemma pinned_field_eta [simp]: "\<lparr>pf_name = pf_name f, pf_field_type = pf_field_type f, pf_nullable = pf_nullable f\<rparr> = f"
  by (cases f) simp

lemma fail_policy_keeps_pin:
  assumes rs: "resolve_plan Y (Pinned path pin Drift_Fail tr ovs) keys names all_types types = Inr rs"
  shows "pin_of_fields (cp_fields (rs_plan rs)) = pin \<and> rs_pinned_schema_write rs = None"
proof -
  obtain columns sm where sm: "match_shape path pin Drift_Fail columns = Inr sm"
    and p: "rs_plan rs = chunk_plan_new (fp_fields (assemble_pinned_plan Y path (sm_matched sm)
          (planned_added_fields (sm_added sm) types ovs)))"
        "rs_pinned_schema_write rs = fp_pinned_schema_write (assemble_pinned_plan Y path (sm_matched sm)
          (planned_added_fields (sm_added sm) types ovs))"
    using rs by (auto simp: resolve_plan_Inr_iff plan_steps_def directive_resolution_def pinned_resolution_Inr_iff Let_def)
  have "added_columns pin columns = []"
    using sm by (auto simp: match_shape_Inr_iff added_columns_def filter_empty_conv)
  then show ?thesis
    using sm p by (auto simp: match_shape_Inr_iff planned_added_fields_def assemble_pinned_plan_def
        chunk_plan_new_def pin_of_fields_def pinned_planned_def comp_def)
qed

lemma additive_policy_extends_pin:
  assumes rs: "resolve_plan Y (Pinned path pin policy tr ovs) keys names all_types types = Inr rs"
  shows "\<exists>added. pin_of_fields (cp_fields (rs_plan rs)) = pin @ added
    \<and> (\<forall>f\<in>set added. pf_name f \<notin> pf_name ` set pin)
    \<and> (rs_pinned_schema_write rs = None \<longleftrightarrow> added = [])"
proof -
  obtain columns sm where sm: "match_shape path pin policy columns = Inr sm"
    and p: "rs_plan rs = chunk_plan_new (fp_fields (assemble_pinned_plan Y path (sm_matched sm)
          (planned_added_fields (sm_added sm) types ovs)))"
        "rs_pinned_schema_write rs = fp_pinned_schema_write (assemble_pinned_plan Y path (sm_matched sm)
          (planned_added_fields (sm_added sm) types ovs))"
    using rs by (auto simp: resolve_plan_Inr_iff plan_steps_def directive_resolution_def pinned_resolution_Inr_iff Let_def)
  have "pin_of_fields (sm_matched sm) = pin"
    using sm by (simp add: match_shape_Inr_iff pin_of_fields_def pinned_planned_def comp_def)
  moreover have "\<forall>f\<in>set (pin_of_fields (planned_added_fields (sm_added sm) types ovs)). pf_name f \<notin> pf_name ` set pin"
    using sm by (auto simp: match_shape_Inr_iff pin_of_fields_def planned_added_fields_def added_columns_def)
  ultimately show ?thesis
    using p by (intro exI [of _ "pin_of_fields (planned_added_fields (sm_added sm) types ovs)"])
      (auto simp: assemble_pinned_plan_def chunk_plan_new_def pin_of_fields_def Let_def split: if_splits)
qed

end
