(* ===== verification/Retry.thy ===== *)
theory Retry
  imports Load_Types "HOL-Library.Product_Lexorder"
begin

section \<open>The retry engine\<close>

text \<open>
  \<open>src/retry.rs\<close>, lines 17 to 217, and the write failures of \<open>src/connector.rs\<close>, lines
  155 to 228: the policy, the loop that re-attempts one retry unit, the saturating backoff,
  and the report of the recorded attempts. The world an operation acts on is threaded
  through; the sleeper's waits are recorded. \<open>u64\<close> values are naturals up to \<open>u64_max\<close>, with
  the saturation of the code written out.
\<close>

subsection \<open>Write failures\<close>

datatype transience = Transient | Terminal

record write_failure =
  wx_failure :: load_failure
  wx_facts :: write_facts
  wx_written_records :: nat
  wx_committed_chunks :: nat
  wx_transience :: transience

definition write_failure_atomic :: "load_failure \<Rightarrow> string \<Rightarrow> nat \<Rightarrow> write_failure" where
  "write_failure_atomic fail strategy written_records =
     \<lparr>wx_failure = fail, wx_facts = facts_atomic strategy, wx_written_records = written_records,
      wx_committed_chunks = 0, wx_transience = Terminal\<rparr>"

definition write_failure_best_effort :: "load_failure \<Rightarrow> string \<Rightarrow> nat \<Rightarrow> write_failure" where
  "write_failure_best_effort fail strategy written_records =
     \<lparr>wx_failure = fail, wx_facts = facts_best_effort strategy, wx_written_records = written_records,
      wx_committed_chunks = 0, wx_transience = Terminal\<rparr>"

definition write_failure_from :: "load_failure \<Rightarrow> write_failure" where
  "write_failure_from fail =
     \<lparr>wx_failure = fail, wx_facts = facts_not_applicable, wx_written_records = 0,
      wx_committed_chunks = 0, wx_transience = Terminal\<rparr>"

subsection \<open>Policy and backoff\<close>

definition u64_max :: nat where "u64_max = 2 ^ 64 - 1"
definition u32_max :: nat where "u32_max = 2 ^ 32 - 1"

definition saturating_mul :: "nat \<Rightarrow> nat \<Rightarrow> nat" where
  "saturating_mul a b = min (a * b) u64_max"

definition saturating_pow :: "nat \<Rightarrow> nat \<Rightarrow> nat" where
  "saturating_pow a n = min (a ^ n) u64_max"

record retry_policy =
  rp_max_attempts :: nat
  rp_initial_delay_ms :: nat
  rp_max_delay_ms :: nat

definition default_policy :: retry_policy where
  "default_policy = \<lparr>rp_max_attempts = 3, rp_initial_delay_ms = 200, rp_max_delay_ms = 5000\<rparr>"

text \<open>\<open>NonZeroU64\<close> and \<open>u64\<close> fields.\<close>

definition policy_ok :: "retry_policy \<Rightarrow> bool" where
  "policy_ok p \<longleftrightarrow> 1 \<le> rp_max_attempts p \<and> rp_max_attempts p \<le> u64_max
     \<and> rp_initial_delay_ms p \<le> u64_max \<and> rp_max_delay_ms p \<le> u64_max"

text \<open>\<open>u32::try_from(attempt.saturating_sub(2)).unwrap_or(u32::MAX)\<close>: truncated subtraction saturates.\<close>

definition delay_before_attempt_ms :: "retry_policy \<Rightarrow> nat \<Rightarrow> nat" where
  "delay_before_attempt_ms policy attempt =
     (let doublings = (if attempt - 2 \<le> u32_max then attempt - 2 else u32_max)
      in min (saturating_mul (saturating_pow 2 doublings) (rp_initial_delay_ms policy)) (rp_max_delay_ms policy))"

subsection \<open>The loop\<close>

datatype retry_unit = Unit_Begin | Unit_Write_Chunk nat

record retry_attempt =
  ra_unit :: retry_unit
  ra_attempt :: nat
  ra_code :: string
  ra_message :: msg
  ra_delay_before_retry_ms :: "nat option"

text \<open>The operation's world, the attempt log and the recorded waits.\<close>

record 's unit_state =
  us_world :: 's
  us_attempts :: "retry_attempt list"
  us_sleeps :: "nat list"

type_synonym ('s, 'a) operation = "'s \<Rightarrow> (write_failure, 'a) result \<times> 's"

definition record_attempt ::
  "retry_unit \<Rightarrow> nat \<Rightarrow> write_failure \<Rightarrow> nat option \<Rightarrow> retry_attempt" where
  "record_attempt unt attempt fail delay =
     \<lparr>ra_unit = unt, ra_attempt = attempt, ra_code = lf_code (wx_failure fail),
      ra_message = lf_message (wx_failure fail), ra_delay_before_retry_ms = delay\<rparr>"

function run_unit_from ::
  "retry_policy \<Rightarrow> retry_unit \<Rightarrow> ('s, 'a) operation \<Rightarrow> nat \<Rightarrow> 's unit_state
   \<Rightarrow> (write_failure, 'a) result \<times> 's unit_state" where
  "run_unit_from policy unt operation attempt st =
     (case operation (us_world st) of
        (Inr v, world) \<Rightarrow> (Inr v, st\<lparr>us_world := world\<rparr>)
      | (Inl fail, world) \<Rightarrow>
          if wx_transience fail = Transient \<and> attempt < rp_max_attempts policy then
            let delay_ms = delay_before_attempt_ms policy (attempt + 1) in
            run_unit_from policy unt operation (attempt + 1)
              (st\<lparr>us_world := world,
                  us_attempts := us_attempts st @ [record_attempt unt attempt fail (Some delay_ms)],
                  us_sleeps := us_sleeps st @ [delay_ms]\<rparr>)
          else
            (Inl fail,
             st\<lparr>us_world := world,
                us_attempts := us_attempts st
                  @ (if 1 < attempt then [record_attempt unt attempt fail None] else [])\<rparr>))"
  by pat_completeness auto
termination
  by (relation "measure (\<lambda>(policy, _, _, attempt, _). rp_max_attempts policy - attempt)") auto

declare run_unit_from.simps [simp del]

definition run_unit ::
  "retry_policy \<Rightarrow> retry_unit \<Rightarrow> ('s, 'a) operation \<Rightarrow> 's unit_state
   \<Rightarrow> (write_failure, 'a) result \<times> 's unit_state" where
  "run_unit policy unt operation st = run_unit_from policy unt operation 1 st"

subsection \<open>Reports\<close>

definition unit_order :: "retry_attempt \<Rightarrow> nat \<times> nat \<times> nat" where
  "unit_order self =
     (case ra_unit self of Unit_Begin \<Rightarrow> (0, 0, ra_attempt self)
      | Unit_Write_Chunk chunk_index \<Rightarrow> (1, chunk_index, ra_attempt self))"

definition attempt_report_value :: "(json \<Rightarrow> string) \<Rightarrow> retry_attempt \<Rightarrow> json" where
  "attempt_report_value show_json self =
     (let (op_name, chunk_index) = (case ra_unit self of Unit_Begin \<Rightarrow> (''begin'', None)
            | Unit_Write_Chunk i \<Rightarrow> (''write_chunk'', Some i));
          entry = obj_insert ''operation'' (JStr op_name) [];
          entry = (case chunk_index of Some i \<Rightarrow> obj_insert ''chunk_index'' (json_nat i) entry | None \<Rightarrow> entry);
          entry = obj_insert ''attempt'' (json_nat (ra_attempt self)) entry;
          entry = obj_insert ''error''
            (JObj [(''code'', JStr (ra_code self)), (''message'', JStr (render_msg show_json (ra_message self)))]) entry;
          entry = (case ra_delay_before_retry_ms self of
                     Some delay_ms \<Rightarrow> obj_insert ''delay_before_retry_ms'' (json_nat delay_ms) entry
                   | None \<Rightarrow> entry)
      in JObj entry)"

definition retry_report_value :: "(json \<Rightarrow> string) \<Rightarrow> retry_policy \<Rightarrow> retry_attempt list \<Rightarrow> json" where
  "retry_report_value show_json policy attempts =
     JObj [(''max_attempts'', json_nat (rp_max_attempts policy)),
           (''initial_delay_ms'', json_nat (rp_initial_delay_ms policy)),
           (''max_delay_ms'', json_nat (rp_max_delay_ms policy)),
           (''attempts'', JArr (map (attempt_report_value show_json) (sort_key unit_order attempts)))]"

definition report_when_attempted :: "(json \<Rightarrow> string) \<Rightarrow> retry_policy \<Rightarrow> retry_attempt list \<Rightarrow> json option" where
  "report_when_attempted show_json policy attempts =
     (if attempts \<noteq> [] then Some (retry_report_value show_json policy attempts) else None)"

subsection \<open>The backoff formula\<close>

lemma two_pow_ge_u64_max: "u32_max < k \<or> k = u32_max \<Longrightarrow> u64_max \<le> 2 ^ k"
proof -
  assume "u32_max < k \<or> k = u32_max"
  then have "64 \<le> k" by (auto simp: u32_max_def)
  then have "(2::nat) ^ 64 \<le> 2 ^ k" by (rule power_increasing) simp
  then show ?thesis by (simp add: u64_max_def)
qed

lemma min_big: "d \<le> b \<Longrightarrow> b \<le> x \<Longrightarrow> 0 < i \<Longrightarrow> min (x * i) (d::nat) = d"
  by (metis dual_order.trans le_add1 min.absorb2 mult.commute mult_eq_if not_gr_zero)

lemma saturating_product:
  "d \<le> u64_max \<Longrightarrow> min (saturating_mul (saturating_pow 2 n) i) d = min (2 ^ n * i) d"
proof (cases "2 ^ n \<le> u64_max \<or> i = 0")
  case False
  assume d: "d \<le> u64_max"
  from False have "saturating_pow 2 n = u64_max" "u64_max \<le> 2 ^ n" "0 < i" by (simp_all add: saturating_pow_def)
  then show ?thesis
    using min_big [OF d, of "2 ^ n" i] min_big [OF d, of u64_max i] d by (simp add: saturating_mul_def min.assoc)
next
  case True
  assume "d \<le> u64_max"
  then show ?thesis using True
    by (auto simp: saturating_mul_def saturating_pow_def min.assoc min.absorb1)
qed

lemma delay_formula:
  assumes "policy_ok policy"
  shows "delay_before_attempt_ms policy attempt =
    min (2 ^ (attempt - 2) * rp_initial_delay_ms policy) (rp_max_delay_ms policy)"
proof -
  have d: "rp_max_delay_ms policy \<le> u64_max" using assms by (simp add: policy_ok_def)
  show ?thesis
  proof (cases "attempt - 2 \<le> u32_max")
    case True
    then show ?thesis by (simp add: delay_before_attempt_ms_def saturating_product [OF d])
  next
    case False
    have "u64_max \<le> 2 ^ u32_max" "u64_max \<le> 2 ^ (attempt - 2)"
      using False by (auto intro!: two_pow_ge_u64_max)
    then have "min (2 ^ u32_max * i) (rp_max_delay_ms policy)
        = min (2 ^ (attempt - 2) * i) (rp_max_delay_ms policy)" for i :: nat
      using min_big [OF d, of "2 ^ u32_max" i] min_big [OF d, of "2 ^ (attempt - 2)" i] by (cases "i = 0") auto
    then show ?thesis
      using False by (simp add: delay_before_attempt_ms_def saturating_product [OF d])
  qed
qed

subsection \<open>What the loop does\<close>

text \<open>The world after \<open>n\<close> calls of the operation, and the result of the call after them.\<close>

fun world_after :: "('s, 'a) operation \<Rightarrow> nat \<Rightarrow> 's \<Rightarrow> 's" where
  "world_after operation 0 s = s"
| "world_after operation (Suc n) s = world_after operation n (snd (operation s))"

definition nth_result :: "('s, 'a) operation \<Rightarrow> nat \<Rightarrow> 's \<Rightarrow> (write_failure, 'a) result" where
  "nth_result operation n s = fst (operation (world_after operation n s))"

fun is_transient :: "(write_failure, 'a) result \<Rightarrow> bool" where
  "is_transient (Inl fail) = (wx_transience fail = Transient)"
| "is_transient (Inr _) = False"

text \<open>
  The run of a unit: it makes \<open>calls\<close> calls, all but the last transient failures, and stops
  at the first result that is not one or when the budget is used up. The waits are the
  backoff of the attempts that followed.
\<close>

definition unit_run ::
  "retry_policy \<Rightarrow> ('s, 'a) operation \<Rightarrow> nat \<Rightarrow> 's \<Rightarrow> nat \<Rightarrow> bool" where
  "unit_run policy operation attempt s calls \<longleftrightarrow>
     1 \<le> calls \<and> (\<forall>i < calls - 1. is_transient (nth_result operation i s))
     \<and> (attempt + calls \<le> rp_max_attempts policy + 1 \<or> calls = 1)
     \<and> (is_transient (nth_result operation (calls - 1) s) \<longrightarrow> rp_max_attempts policy < attempt + calls)"

lemma all_less_Suc_shift: "(\<forall>i < Suc n. P i) \<longleftrightarrow> P 0 \<and> (\<forall>i < n. P (Suc i))"
  by (metis Suc_less_eq gr0_conv_Suc not0_implies_Suc zero_less_Suc)

text \<open>The entries such a run appends to the attempt log.\<close>

definition unit_log ::
  "retry_policy \<Rightarrow> retry_unit \<Rightarrow> ('s, 'a) operation \<Rightarrow> nat \<Rightarrow> 's \<Rightarrow> nat \<Rightarrow> retry_attempt list" where
  "unit_log policy unt operation attempt s calls =
     map (\<lambda>i. record_attempt unt (attempt + i) (projl (nth_result operation i s))
            (Some (delay_before_attempt_ms policy (attempt + i + 1)))) [0..<calls - 1]
     @ (case nth_result operation (calls - 1) s of
          Inl fail \<Rightarrow> (if 1 < attempt + (calls - 1)
            then [record_attempt unt (attempt + (calls - 1)) fail None] else [])
        | Inr _ \<Rightarrow> [])"

lemma map_upt_Suc_shift: "map f [0..<Suc n] = f 0 # map (\<lambda>i. f (Suc i)) [0..<n]"
  by (simp add: map_upt_Suc del: upt_Suc)

lemma run_unit_from_spec:
  "\<exists>calls. unit_run policy operation attempt (us_world st) calls
     \<and> run_unit_from policy unt operation attempt st =
         (nth_result operation (calls - 1) (us_world st),
          st\<lparr>us_world := world_after operation calls (us_world st),
             us_attempts := us_attempts st @ unit_log policy unt operation attempt (us_world st) calls,
             us_sleeps := us_sleeps st @ map (delay_before_attempt_ms policy) [attempt + 1..<attempt + calls]\<rparr>)"
proof (induction policy unt operation attempt st rule: run_unit_from.induct)
  case (1 policy unt operation attempt st)
  obtain r w where rw: "operation (us_world st) = (r, w)" by fastforce
  show ?case
  proof (cases "is_transient r \<and> attempt < rp_max_attempts policy")
    case False
    then show ?thesis
      by (intro exI [of _ 1]; cases r)
        (auto simp: unit_run_def unit_log_def nth_result_def run_unit_from.simps [of policy unt operation attempt st] rw)
  next
    case True
    then obtain fail where r: "r = Inl fail" by (cases r) auto
    let ?delay = "delay_before_attempt_ms policy (attempt + 1)"
    let ?entry = "record_attempt unt attempt fail (Some ?delay)"
    let ?st = "st\<lparr>us_world := w, us_attempts := us_attempts st @ [?entry],
        us_sleeps := us_sleeps st @ [?delay]\<rparr>"
    have step: "run_unit_from policy unt operation attempt st = run_unit_from policy unt operation (attempt + 1) ?st"
      using True r by (simp add: run_unit_from.simps [of policy unt operation attempt st] rw Let_def)
    have "\<exists>calls. unit_run policy operation (attempt + 1) (us_world ?st) calls
     \<and> run_unit_from policy unt operation (attempt + 1) ?st =
         (nth_result operation (calls - 1) (us_world ?st),
          ?st\<lparr>us_world := world_after operation calls (us_world ?st),
             us_attempts := us_attempts ?st @ unit_log policy unt operation (attempt + 1) (us_world ?st) calls,
             us_sleeps := us_sleeps ?st @ map (delay_before_attempt_ms policy) [attempt + 1 + 1..<attempt + 1 + calls]\<rparr>)"
      by (rule 1 [OF rw [symmetric] r _ refl]) (use True r in auto)
    then obtain calls where c: "unit_run policy operation (attempt + 1) w calls"
      and run: "run_unit_from policy unt operation (attempt + 1) ?st =
         (nth_result operation (calls - 1) w,
          st\<lparr>us_world := world_after operation calls w,
             us_attempts := us_attempts st @ ?entry # unit_log policy unt operation (attempt + 1) w calls,
             us_sleeps := us_sleeps st @ ?delay # map (delay_before_attempt_ms policy) [attempt + 1 + 1..<attempt + 1 + calls]\<rparr>)"
      by auto
    obtain m where m: "calls = Suc m" using c by (cases calls) (auto simp: unit_run_def)
    have nr: "nth_result operation (Suc i) (us_world st) = nth_result operation i w" for i
      by (simp add: nth_result_def rw)
    have n0: "nth_result operation 0 (us_world st) = Inl fail" "is_transient (nth_result operation 0 (us_world st))"
      using True r by (simp_all add: nth_result_def rw)
    have u: "unit_run policy operation attempt (us_world st) (Suc calls)"
      using c n0(2) nr True m by (auto simp: unit_run_def all_less_Suc_shift)
    have upt: "[attempt + 1..<attempt + Suc calls] = (attempt + 1) # [attempt + 1 + 1..<attempt + 1 + calls]"
      using m by (simp add: upt_conv_Cons)
    have log: "unit_log policy unt operation attempt (us_world st) (Suc calls)
        = ?entry # unit_log policy unt operation (attempt + 1) w calls"
      using m n0(1) nr by (simp add: unit_log_def map_upt_Suc_shift del: upt_Suc split: sum.split)
    have res: "nth_result operation (Suc calls - 1) (us_world st) = nth_result operation (calls - 1) w"
      "world_after operation (Suc calls) (us_world st) = world_after operation calls w"
      using m nr by (simp_all add: rw)
    show ?thesis
      by (rule exI [of _ "Suc calls"], intro conjI, rule u) (simp only: step run res log upt list.map)
  qed
qed

end
