(* ===== verification/Destination_Port.thy ===== *)
theory Destination_Port
  imports Retry Schema_Chunks
begin

section \<open>The destination port\<close>

text \<open>
  Load modes, the mode support a destination declares, and the operations of a write session
  (\<open>src/connector.rs\<close>, lines 230 to 390), over a world the session acts on. The locales
  state what the dispatcher relies on of a session.
\<close>

datatype load_mode = Full_Refresh | Append | Merge

definition parse_load_mode :: "string \<Rightarrow> (load_failure, load_mode) result" where
  "parse_load_mode load_mode =
     (if load_mode = ''full_refresh'' then Inr Full_Refresh
      else if load_mode = ''append'' then Inr Append
      else if load_mode = ''merge'' then Inr Merge
      else Inl (failure ''unsupported_load_mode'' [Lit ''unsupported load mode: '', Txt load_mode]))"

fun load_mode_str :: "load_mode \<Rightarrow> string" where
  "load_mode_str Full_Refresh = ''full_refresh''"
| "load_mode_str Append = ''append''"
| "load_mode_str Merge = ''merge''"

definition validate_mode :: "string \<Rightarrow> load_mode list \<Rightarrow> load_mode \<Rightarrow> (load_failure, unit) result" where
  "validate_mode connector_name supported_load_modes mode =
     (if mode \<in> set supported_load_modes then Inr ()
      else
        let supported = join '', '' (map load_mode_str supported_load_modes);
            supported_clause = (if supported = [] then
                [Lit ''no load modes are supported for this destination yet'']
              else [Lit ''supported load modes: '', Txt supported])
        in Inl (failure ''unsupported_load_mode_for_destination''
             ([Txt connector_name, Lit '' destination does not support load mode: '',
               Txt (load_mode_str mode), Lit '' (''] @ supported_clause @ [Lit '')''])))"

lemma parse_load_mode_str: "parse_load_mode (load_mode_str mode) = Inr mode"
  by (cases mode) (simp_all add: parse_load_mode_def)

record abandoned_write =
  aw_committed_chunks :: nat
  aw_written_records :: nat
  aw_facts :: write_facts

text \<open>
  The operations of one destination: opening a session and the session's own, with the
  destructor that runs when the caller lets the session go (\<open>commit\<close> and \<open>abandon\<close> consume it).
\<close>

record 's destination_ops =
  d_begin :: "load_mode \<Rightarrow> ('s, unit) operation"
  d_write_chunk :: "record_batch \<Rightarrow> ('s, unit) operation"
  d_commit :: "('s, destination_write) operation"
  d_abandon :: "'s \<Rightarrow> abandoned_write \<times> 's"
  d_drop :: "'s \<Rightarrow> 's"

text \<open>
  What every session promises: it keeps \<open>inv\<close>, a failed write changes nothing that is
  visible, and a failure and an abandonment state the visible chunks.
\<close>

locale write_session =
  fixes write_op :: "record_batch \<Rightarrow> ('s, unit) operation"
    and abandon :: "'s \<Rightarrow> abandoned_write \<times> 's"
    and drop_op :: "'s \<Rightarrow> 's"
    and inv :: "'s \<Rightarrow> bool"
    and visible :: "'s \<Rightarrow> nat"
  assumes write_inv: "inv s \<Longrightarrow> inv (snd (write_op b s))"
    and write_failed: "inv s \<Longrightarrow> write_op b s = (Inl fail, s') \<Longrightarrow>
      visible s' = visible s \<and> wx_committed_chunks fail = visible s"
    and abandon_states: "inv s \<Longrightarrow> aw_committed_chunks (fst (abandon s)) = visible s
      \<and> visible (snd (abandon s)) = visible s"
    and drop_hidden: "inv s \<Longrightarrow> visible (drop_op s) = visible s"

text \<open>An append session commits every chunk it writes; a staged session shows none.\<close>

locale append_session = write_session +
  assumes write_commits: "inv s \<Longrightarrow> write_op b s = (Inr (), s') \<Longrightarrow> visible s' = visible s + 1"

locale staged_session = write_session +
  assumes write_hidden: "inv s \<Longrightarrow> write_op b s = (Inr (), s') \<Longrightarrow> visible s' = visible s"

text \<open>A retry unit over a session: its final result is the one result that counts.\<close>

context write_session
begin

lemma world_after_failures:
  "inv s \<Longrightarrow> \<forall>i < n. is_transient (nth_result (write_op b) i s) \<Longrightarrow>
   inv (world_after (write_op b) n s) \<and> visible (world_after (write_op b) n s) = visible s"
proof (induction n arbitrary: s)
  case (Suc n)
  then obtain fail where f: "write_op b s = (Inl fail, snd (write_op b s))"
    by (cases "fst (write_op b s)") (force simp: nth_result_def all_less_Suc_shift prod_eq_iff)+
  have nr: "nth_result (write_op b) (Suc i) s = nth_result (write_op b) i (snd (write_op b s))" for i
    by (simp add: nth_result_def)
  show ?case
    using Suc.IH [of "snd (write_op b s)"] Suc.prems write_inv write_failed [OF _ f] nr
    by (auto simp: all_less_Suc_shift)
qed simp

lemma unit_result:
  assumes "inv (us_world st)" "run_unit policy unt (write_op b) st = (r, st')"
  shows "inv (us_world st')
    \<and> (\<forall>fail. r = Inl fail \<longrightarrow> visible (us_world st') = visible (us_world st)
         \<and> wx_committed_chunks fail = visible (us_world st))
    \<and> (r = Inr () \<longrightarrow> (\<exists>s. inv s \<and> visible s = visible (us_world st) \<and> write_op b s = (Inr (), us_world st')))"
proof -
  obtain calls where c: "unit_run policy (write_op b) 1 (us_world st) calls"
    and r: "r = nth_result (write_op b) (calls - 1) (us_world st)"
    and w: "us_world st' = world_after (write_op b) calls (us_world st)"
    using run_unit_from_spec [of policy "write_op b" 1 st unt] assms(2) by (auto simp: run_unit_def)
  obtain m where m: "calls = Suc m" using c by (cases calls) (auto simp: unit_run_def)
  let ?s = "world_after (write_op b) m (us_world st)"
  have s: "inv ?s \<and> visible ?s = visible (us_world st)"
    using c m assms(1) by (intro world_after_failures) (auto simp: unit_run_def)
  have wa: "world_after f (Suc n) x = snd (f (world_after f n x))" for f :: "('s, unit) operation" and n x
    by (induction n arbitrary: x) simp_all
  have step: "write_op b ?s = (r, us_world st')"
    using r w m wa by (simp add: nth_result_def prod_eq_iff del: world_after.simps)
  show ?thesis
    using write_inv [of ?s b] s step write_failed [of ?s b] by (metis snd_conv)
qed

end

end
