(* ===== verification/Dispatch.thy ===== *)
theory Dispatch
  imports Destination_Port
begin

section \<open>The write-phase dispatcher\<close>

text \<open>
  \<open>src/dispatch.rs\<close>, lines 28 to 301. The source's chunk iterator is the list of what it
  yields. The serial phase is a function; the bounded-window phase, whose slots run on
  threads of their own, is a step relation: every step is one pull, one call of
  \<open>write_chunk\<close> by one slot, or one received completion.
\<close>

record write_phase_outcome =
  wo_bytes_written :: "nat option"
  wo_facts :: write_facts
  wo_chunk_count :: nat

datatype write_phase_failure = Before_Session write_failure | In_Session write_failure

definition abandon_in_session ::
  "'s destination_ops \<Rightarrow> load_failure \<Rightarrow> 's unit_state \<Rightarrow> write_phase_failure \<times> 's unit_state" where
  "abandon_in_session D fail st =
     (let (abandoned, world) = d_abandon D (us_world st)
      in (In_Session \<lparr>wx_failure = fail, wx_facts = aw_facts abandoned,
            wx_written_records = aw_written_records abandoned,
            wx_committed_chunks = aw_committed_chunks abandoned, wx_transience = Terminal\<rparr>,
          st\<lparr>us_world := world\<rparr>))"

definition commit_session ::
  "'s destination_ops \<Rightarrow> nat \<Rightarrow> 's unit_state
   \<Rightarrow> (write_phase_failure, write_phase_outcome) result \<times> 's unit_state" where
  "commit_session D chunk_count st =
     (case d_commit D (us_world st) of
        (Inl fail, world) \<Rightarrow> (Inl (In_Session fail), st\<lparr>us_world := world\<rparr>)
      | (Inr write, world) \<Rightarrow>
          (Inr \<lparr>wo_bytes_written = dw_bytes_written write, wo_facts = dw_facts write,
                wo_chunk_count = chunk_count\<rparr>, st\<lparr>us_world := world\<rparr>))"

definition drop_session :: "'s destination_ops \<Rightarrow> 's unit_state \<Rightarrow> 's unit_state" where
  "drop_session D st = st\<lparr>us_world := d_drop D (us_world st)\<rparr>"

subsection \<open>The serial phase\<close>

text \<open>A failed unit returns, which drops the session.\<close>

fun run_serial_from ::
  "retry_policy \<Rightarrow> 's destination_ops \<Rightarrow> nat \<Rightarrow> (load_failure, record_batch) result list \<Rightarrow> 's unit_state
   \<Rightarrow> (write_phase_failure, write_phase_outcome) result \<times> 's unit_state" where
  "run_serial_from policy D chunk_count [] st = commit_session D chunk_count st"
| "run_serial_from policy D chunk_count (Inr batch # chunks) st =
     (case run_unit policy (Unit_Write_Chunk chunk_count) (d_write_chunk D batch) st of
        (Inl fail, st') \<Rightarrow> (Inl (In_Session fail), drop_session D st')
      | (Inr _, st') \<Rightarrow> run_serial_from policy D (chunk_count + 1) chunks st')"
| "run_serial_from policy D chunk_count (Inl source_failure # chunks) st =
     (let (fail, st') = abandon_in_session D source_failure st in (Inl fail, st'))"

definition run_serial_write_phase ::
  "retry_policy \<Rightarrow> 's destination_ops \<Rightarrow> (load_failure, record_batch) result list \<Rightarrow> 's unit_state
   \<Rightarrow> (write_phase_failure, write_phase_outcome) result \<times> 's unit_state" where
  "run_serial_write_phase policy D chunks st = run_serial_from policy D 0 chunks st"

subsection \<open>The bounded window\<close>

text \<open>
  A slot is a dispatched unit that has not reported yet: its chunk index, its batch, the
  number of its next attempt and the failed attempts its retries recorded. A completion is
  what it sends.
\<close>

record slot =
  sl_chunk_index :: nat
  sl_batch :: record_batch
  sl_attempt :: nat
  sl_attempts :: "retry_attempt list"

datatype slot_outcome = Slot_Ok | Slot_Write write_failure | Slot_Panicked

record slot_completion =
  sc_chunk_index :: nat
  sc_attempts :: "retry_attempt list"
  sc_outcome :: slot_outcome

record 's window_state =
  ws_chunks :: "(load_failure, record_batch) result list"
  ws_world :: 's
  ws_running :: "slot list"
  ws_channel :: "slot_completion list"
  ws_dispatched :: nat
  ws_in_flight :: nat
  ws_source_done :: bool
  ws_halted :: bool
  ws_write_failures :: "(nat \<times> write_failure) list"
  ws_source_failure :: "load_failure option"
  ws_writer_panic :: bool
  ws_retry_attempts :: "retry_attempt list"
  ws_sleeps :: "nat list"

definition window_start ::
  "(load_failure, record_batch) result list \<Rightarrow> 's unit_state \<Rightarrow> 's window_state" where
  "window_start chunks st =
     \<lparr>ws_chunks = chunks, ws_world = us_world st, ws_running = [], ws_channel = [], ws_dispatched = 0,
      ws_in_flight = 0, ws_source_done = False, ws_halted = False, ws_write_failures = [],
      ws_source_failure = None, ws_writer_panic = False, ws_retry_attempts = us_attempts st,
      ws_sleeps = us_sleeps st\<rparr>"

definition can_pull :: "nat \<Rightarrow> 's window_state \<Rightarrow> bool" where
  "can_pull window w \<longleftrightarrow> \<not> ws_halted w \<and> \<not> ws_source_done w \<and> ws_in_flight w < window"

text \<open>One \<open>chunks.next()\<close> of the dispatching thread.\<close>

definition pull :: "'s window_state \<Rightarrow> 's window_state" where
  "pull w =
     (case ws_chunks w of
        [] \<Rightarrow> w\<lparr>ws_source_done := True\<rparr>
      | Inr batch # chunks \<Rightarrow>
          w\<lparr>ws_chunks := chunks, ws_dispatched := ws_dispatched w + 1, ws_in_flight := ws_in_flight w + 1,
            ws_running := ws_running w @ [\<lparr>sl_chunk_index = ws_dispatched w, sl_batch = batch,
               sl_attempt = 1, sl_attempts = []\<rparr>]\<rparr>
      | Inl fail # chunks \<Rightarrow>
          w\<lparr>ws_chunks := chunks, ws_source_failure := Some fail, ws_halted := True\<rparr>)"

text \<open>
  One call of \<open>write_chunk\<close> by a slot, and the body of \<open>run_unit\<close> around it: the slot goes
  on with its next attempt, or sends its completion.
\<close>

definition slot_call ::
  "retry_policy \<Rightarrow> 's destination_ops \<Rightarrow> slot \<Rightarrow> 's \<Rightarrow> (slot_completion, slot) result \<times> 's" where
  "slot_call policy D sl world =
     (case d_write_chunk D (sl_batch sl) world of
        (Inr _, world') \<Rightarrow>
          (Inl \<lparr>sc_chunk_index = sl_chunk_index sl, sc_attempts = sl_attempts sl, sc_outcome = Slot_Ok\<rparr>, world')
      | (Inl fail, world') \<Rightarrow>
          if wx_transience fail = Transient \<and> sl_attempt sl < rp_max_attempts policy then
            (Inr (sl\<lparr>sl_attempt := sl_attempt sl + 1,
                     sl_attempts := sl_attempts sl @ [record_attempt (Unit_Write_Chunk (sl_chunk_index sl))
                       (sl_attempt sl) fail (Some (delay_before_attempt_ms policy (sl_attempt sl + 1)))]\<rparr>), world')
          else
            (Inl \<lparr>sc_chunk_index = sl_chunk_index sl,
                  sc_attempts = sl_attempts sl @ (if 1 < sl_attempt sl then
                    [record_attempt (Unit_Write_Chunk (sl_chunk_index sl)) (sl_attempt sl) fail None] else []),
                  sc_outcome = Slot_Write fail\<rparr>, world'))"

definition panicked :: "slot \<Rightarrow> slot_completion" where
  "panicked sl = \<lparr>sc_chunk_index = sl_chunk_index sl, sc_attempts = sl_attempts sl, sc_outcome = Slot_Panicked\<rparr>"

definition receive :: "slot_completion \<Rightarrow> slot_completion list \<Rightarrow> 's window_state \<Rightarrow> 's window_state" where
  "receive completion rest w =
     (let w = w\<lparr>ws_channel := rest, ws_in_flight := ws_in_flight w - 1,
                ws_retry_attempts := ws_retry_attempts w @ sc_attempts completion\<rparr>
      in case sc_outcome completion of
           Slot_Ok \<Rightarrow> w
         | Slot_Write fail \<Rightarrow>
             w\<lparr>ws_write_failures := ws_write_failures w @ [(sc_chunk_index completion, fail)], ws_halted := True\<rparr>
         | Slot_Panicked \<Rightarrow> w\<lparr>ws_writer_panic := True, ws_halted := True\<rparr>)"

inductive window_step ::
  "retry_policy \<Rightarrow> 's destination_ops \<Rightarrow> nat \<Rightarrow> 's window_state \<Rightarrow> 's window_state \<Rightarrow> bool"
  for policy D window where
  step_pull: "can_pull window w \<Longrightarrow> window_step policy D window w (pull w)"
| step_retry: "ws_running w = before @ sl # after \<Longrightarrow> slot_call policy D sl (ws_world w) = (Inr sl', world') \<Longrightarrow>
    window_step policy D window w (w\<lparr>ws_running := before @ sl' # after, ws_world := world',
      ws_sleeps := ws_sleeps w @ [delay_before_attempt_ms policy (sl_attempt sl + 1)]\<rparr>)"
| step_complete: "ws_running w = before @ sl # after \<Longrightarrow> slot_call policy D sl (ws_world w) = (Inl done, world') \<Longrightarrow>
    window_step policy D window w
      (w\<lparr>ws_running := before @ after, ws_channel := ws_channel w @ [done], ws_world := world'\<rparr>)"
| step_panic: "ws_running w = before @ sl # after \<Longrightarrow>
    window_step policy D window w
      (w\<lparr>ws_running := before @ after, ws_channel := ws_channel w @ [panicked sl], ws_world := world'\<rparr>)"
| step_receive: "\<not> can_pull window w \<Longrightarrow> ws_in_flight w \<noteq> 0 \<Longrightarrow> ws_channel w = completion # rest \<Longrightarrow>
    window_step policy D window w (receive completion rest w)"

definition window_drained :: "nat \<Rightarrow> 's window_state \<Rightarrow> bool" where
  "window_drained window w \<longleftrightarrow> \<not> can_pull window w \<and> ws_in_flight w = 0"

text \<open>\<open>min_by_key\<close>: the first entry with the least index.\<close>

fun min_failure :: "(nat \<times> write_failure) list \<Rightarrow> (nat \<times> write_failure) option" where
  "min_failure [] = None"
| "min_failure (f # fs) =
     (case min_failure fs of None \<Rightarrow> Some f | Some g \<Rightarrow> if fst g < fst f then Some g else Some f)"

text \<open>
  The code after the scope: a caught panic is raised again (\<open>None\<close>), a clean run commits,
  and a halted one abandons with the failure of the lowest chunk index. The \<open>expect\<close> on a
  window that halted without a failure is \<open>the None\<close>; a drained window has one.
\<close>

definition window_end ::
  "'s destination_ops \<Rightarrow> 's window_state
   \<Rightarrow> ((write_phase_failure, write_phase_outcome) result \<times> 's unit_state) option" where
  "window_end D w =
     (let st = \<lparr>us_world = ws_world w, us_attempts = ws_retry_attempts w, us_sleeps = ws_sleeps w\<rparr> in
      if ws_writer_panic w then None
      else if ws_write_failures w = [] \<and> ws_source_failure w = None then
        Some (commit_session D (ws_dispatched w) st)
      else
        let fail = (case min_failure (ws_write_failures w) of
                      Some (_, f) \<Rightarrow> wx_failure f | None \<Rightarrow> the (ws_source_failure w));
            (phase_failure, st') = abandon_in_session D fail st
        in Some (Inl phase_failure, st'))"

inductive_cases window_stepE: "window_step policy D window w w'"

subsection \<open>The write phase\<close>

text \<open>
  \<open>run_write_phase\<close>: opening the session is a retry unit of its own; parallelism 1 is the
  serial phase, and any other the window, whose end states are those its steps reach.
\<close>

inductive write_phase ::
  "retry_policy \<Rightarrow> 's destination_ops \<Rightarrow> load_mode \<Rightarrow> nat \<Rightarrow> (load_failure, record_batch) result list
   \<Rightarrow> 's unit_state \<Rightarrow> (write_phase_failure, write_phase_outcome) result \<Rightarrow> 's unit_state \<Rightarrow> bool"
  for policy D mode parallelism chunks where
  phase_begin_failed: "run_unit policy Unit_Begin (d_begin D mode) st = (Inl fail, st') \<Longrightarrow>
    write_phase policy D mode parallelism chunks st (Inl (Before_Session fail)) st'"
| phase_serial: "run_unit policy Unit_Begin (d_begin D mode) st = (Inr u, st') \<Longrightarrow> parallelism = 1 \<Longrightarrow>
    run_serial_write_phase policy D chunks st' = (r, st'') \<Longrightarrow>
    write_phase policy D mode parallelism chunks st r st''"
| phase_windowed: "run_unit policy Unit_Begin (d_begin D mode) st = (Inr u, st') \<Longrightarrow> parallelism \<noteq> 1 \<Longrightarrow>
    (window_step policy D parallelism)\<^sup>*\<^sup>* (window_start chunks st') w \<Longrightarrow> window_drained parallelism w \<Longrightarrow>
    window_end D w = Some (r, st'') \<Longrightarrow>
    write_phase policy D mode parallelism chunks st r st''"

subsection \<open>Serial runs over an append session\<close>

context append_session
begin

text \<open>
  The session holds exactly the chunks before the one that stopped the run, and the failure
  states that number; a run without a failure commits after all of them.
\<close>

lemma serial_append:
  assumes "d_write_chunk D = write_op" "d_abandon D = abandon" "d_drop D = drop_op" "inv (us_world st)"
    "run_serial_from policy D n chunks st = (r, st')"
  shows "(\<exists>k fail. k < length chunks \<and> list_all is_ok (take k chunks) \<and> r = Inl (In_Session fail)
        \<and> wx_committed_chunks fail = visible (us_world st) + k \<and> visible (us_world st') = visible (us_world st) + k)
     \<or> (\<exists>st''. list_all is_ok chunks \<and> inv (us_world st'') \<and> visible (us_world st'') = visible (us_world st) + length chunks
        \<and> (r, st') = commit_session D (n + length chunks) st'')"
  using assms(4,5)
proof (induction chunks arbitrary: n st)
  case Nil
  then show ?case by auto
next
  case (Cons c chunks)
  show ?case
  proof (cases c)
    case (Inl source_failure)
    then have "r = Inl (fst (abandon_in_session D source_failure st))" "st' = snd (abandon_in_session D source_failure st)"
      using Cons.prems(2) by (auto simp: case_prod_unfold Let_def)
    then show ?thesis
      using abandon_states [OF Cons.prems(1)] assms(2)
      by (intro disjI1 exI [of _ 0]) (auto simp: abandon_in_session_def case_prod_unfold Let_def)
  next
    case (Inr batch)
    obtain u st1 where u: "run_unit policy (Unit_Write_Chunk n) (write_op batch) st = (u, st1)" by fastforce
    note ur = unit_result [OF Cons.prems(1) u]
    show ?thesis
    proof (cases u)
      case (Inl fail)
      then show ?thesis
        using ur Cons.prems(2) u Inr assms(1,3) drop_hidden
        by (intro disjI1 exI [of _ 0]) (auto simp: drop_session_def)
    next
      case (Inr ok)
      then have "visible (us_world st1) = visible (us_world st) + 1"
        using ur write_commits by (metis unit.exhaust)
      moreover have "run_serial_from policy D (n + 1) chunks st1 = (r, st')"
        using Cons.prems(2) u Inr assms(1) \<open>c = Inr batch\<close> by simp
      ultimately have v: "visible (us_world st1) = visible (us_world st) + 1"
        "run_serial_from policy D (n + 1) chunks st1 = (r, st')" "inv (us_world st1)" using ur by blast+
      from Cons.IH [OF v(3,2)] show ?thesis
      proof (elim disjE exE conjE)
        fix k fail
        assume "k < length chunks" "list_all is_ok (take k chunks)" "r = Inl (In_Session fail)"
          "wx_committed_chunks fail = visible (us_world st1) + k" "visible (us_world st') = visible (us_world st1) + k"
        then show ?thesis
          using v(1) \<open>c = Inr batch\<close> by (intro disjI1 exI [of _ "Suc k"] exI [of _ fail]) simp
      next
        fix st''
        assume "list_all is_ok chunks" "inv (us_world st'')" "visible (us_world st'') = visible (us_world st1) + length chunks"
          "(r, st') = commit_session D (n + 1 + length chunks) st''"
        then show ?thesis
          using v(1) \<open>c = Inr batch\<close> by (intro disjI2 exI [of _ st'']) simp
      qed
    qed
  qed
qed

end

subsection \<open>Serial runs over a staged session\<close>

context staged_session
begin

text \<open>A run that stops before the commit shows what was there; only the commit can change it.\<close>

lemma serial_staged:
  assumes "d_write_chunk D = write_op" "d_abandon D = abandon" "d_drop D = drop_op" "inv (us_world st)"
    "run_serial_from policy D n chunks st = (r, st')"
  shows "(\<exists>fail. r = Inl (In_Session fail) \<and> wx_committed_chunks fail = visible (us_world st)
        \<and> visible (us_world st') = visible (us_world st))
     \<or> (\<exists>st''. list_all is_ok chunks \<and> inv (us_world st'') \<and> visible (us_world st'') = visible (us_world st)
        \<and> (r, st') = commit_session D (n + length chunks) st'')"
  using assms(4,5)
proof (induction chunks arbitrary: n st)
  case (Cons c chunks)
  show ?case
  proof (cases c)
    case (Inl source_failure)
    then have "r = Inl (fst (abandon_in_session D source_failure st))" "st' = snd (abandon_in_session D source_failure st)"
      using Cons.prems(2) by (auto simp: case_prod_unfold Let_def)
    then show ?thesis
      using abandon_states [OF Cons.prems(1)] assms(2)
      by (intro disjI1) (auto simp: abandon_in_session_def case_prod_unfold Let_def)
  next
    case (Inr batch)
    obtain u st1 where u: "run_unit policy (Unit_Write_Chunk n) (write_op batch) st = (u, st1)" by fastforce
    note ur = unit_result [OF Cons.prems(1) u]
    show ?thesis
    proof (cases u)
      case (Inl fail)
      then show ?thesis
        using ur Cons.prems(2) u \<open>c = Inr batch\<close> assms(1,3) drop_hidden
        by (intro disjI1) (auto simp: drop_session_def)
    next
      case (Inr ok)
      then have "visible (us_world st1) = visible (us_world st)"
        using ur write_hidden by (metis unit.exhaust)
      moreover have "run_serial_from policy D (n + 1) chunks st1 = (r, st')"
        using Cons.prems(2) u Inr assms(1) \<open>c = Inr batch\<close> by simp
      ultimately have "visible (us_world st1) = visible (us_world st)"
        "run_serial_from policy D (n + 1) chunks st1 = (r, st')" "inv (us_world st1)" using ur by blast+
      with Cons.IH [of st1 "n + 1"] show ?thesis using \<open>c = Inr batch\<close> by simp
    qed
  qed
qed auto

end

end
