(* ===== verification/Dispatch_Window.thy ===== *)
theory Dispatch_Window
  imports Dispatch
begin

section \<open>The bounded window: invariants, termination, outcome\<close>

text \<open>
  Lemmas about the step relation of \<open>run_windowed_write_phase\<close> (\<open>src/dispatch.rs\<close>): the
  window bound, the accounting of dispatched chunks, that every run ends drained, and which
  failure it surfaces.
\<close>

definition slot_indexes :: "'s window_state \<Rightarrow> nat list" where
  "slot_indexes w = map sl_chunk_index (ws_running w) @ map sc_chunk_index (ws_channel w)"

text \<open>
  The invariant, for a run over \<open>chunks\<close> with the given window: \<open>batches\<close> are the chunks
  pulled so far, one per dispatched index.
\<close>

definition pulled_ok ::
  "(load_failure, record_batch) result list \<Rightarrow> record_batch list \<Rightarrow> 's window_state \<Rightarrow> bool" where
  "pulled_ok chunks batches w \<longleftrightarrow> length batches = ws_dispatched w
     \<and> chunks = map Inr batches @ (case ws_source_failure w of None \<Rightarrow> [] | Some fail \<Rightarrow> [Inl fail]) @ ws_chunks w
     \<and> (\<forall>sl\<in>set (ws_running w). sl_chunk_index sl < ws_dispatched w
          \<and> sl_batch sl = batches ! sl_chunk_index sl)"

definition accounts_ok :: "nat \<Rightarrow> 's window_state \<Rightarrow> bool" where
  "accounts_ok window w \<longleftrightarrow>
     ws_in_flight w = length (ws_running w) + length (ws_channel w) \<and> ws_in_flight w \<le> window
     \<and> distinct (slot_indexes w) \<and> (\<forall>i\<in>set (slot_indexes w). i < ws_dispatched w)
     \<and> (\<forall>f\<in>set (ws_write_failures w). fst f < ws_dispatched w \<and> fst f \<notin> set (slot_indexes w))
     \<and> distinct (map fst (ws_write_failures w))
     \<and> (ws_source_done w \<longrightarrow> ws_chunks w = [])
     \<and> (ws_halted w \<longleftrightarrow> ws_write_failures w \<noteq> [] \<or> ws_source_failure w \<noteq> None \<or> ws_writer_panic w)"

definition window_inv ::
  "nat \<Rightarrow> (load_failure, record_batch) result list \<Rightarrow> 's window_state \<Rightarrow> bool" where
  "window_inv window chunks w \<longleftrightarrow> accounts_ok window w \<and> (\<exists>batches. pulled_ok chunks batches w)"

lemma pulled_ok_step:
  assumes "pulled_ok chunks batches w" "ws_dispatched w' = ws_dispatched w"
    "ws_source_failure w' = ws_source_failure w" "ws_chunks w' = ws_chunks w"
    "\<And>sl'. sl' \<in> set (ws_running w') \<Longrightarrow>
       \<exists>sl\<in>set (ws_running w). sl_chunk_index sl' = sl_chunk_index sl \<and> sl_batch sl' = sl_batch sl"
  shows "pulled_ok chunks batches w'"
  using assms unfolding pulled_ok_def by (metis (no_types, lifting))

lemma window_inv_start: "window_inv window chunks (window_start chunks st)"
  by (auto simp: window_inv_def accounts_ok_def pulled_ok_def slot_indexes_def window_start_def)

lemma window_inv_pull:
  assumes "window_inv window chunks w" "can_pull window w"
  shows "window_inv window chunks (pull w)"
proof -
  obtain batches where b: "pulled_ok chunks batches w" and a: "accounts_ok window w"
    using assms by (auto simp: window_inv_def)
  have ns: "ws_source_failure w = None" using a assms(2) by (auto simp: accounts_ok_def can_pull_def)
  show ?thesis
  proof (cases "ws_chunks w")
    case Nil
    then have "pull w = w\<lparr>ws_source_done := True\<rparr>" by (simp add: pull_def)
    moreover have "accounts_ok window (w\<lparr>ws_source_done := True\<rparr>)"
      using a Nil by (simp add: accounts_ok_def slot_indexes_def)
    moreover have "pulled_ok chunks batches (w\<lparr>ws_source_done := True\<rparr>)"
      by (rule pulled_ok_step [OF b]) auto
    ultimately show ?thesis by (auto simp: window_inv_def)
  next
    case (Cons c cs)
    show ?thesis
    proof (cases c)
      case (Inl fail)
      then have p: "pull w = w\<lparr>ws_chunks := cs, ws_source_failure := Some fail, ws_halted := True\<rparr>"
        using Cons by (simp add: pull_def)
      have "pulled_ok chunks batches (pull w)" "accounts_ok window (pull w)"
        unfolding p using a b Cons Inl ns assms(2)
        by (auto simp: accounts_ok_def pulled_ok_def slot_indexes_def can_pull_def)
      then show ?thesis by (auto simp: window_inv_def)
    next
      case (Inr batch)
      let ?sl = "\<lparr>sl_chunk_index = ws_dispatched w, sl_batch = batch, sl_attempt = 1, sl_attempts = []\<rparr>"
      have p: "pull w = w\<lparr>ws_chunks := cs, ws_dispatched := ws_dispatched w + 1,
          ws_in_flight := ws_in_flight w + 1, ws_running := ws_running w @ [?sl]\<rparr>"
        using Cons Inr by (simp add: pull_def)
      have "pulled_ok chunks (batches @ [batch]) (pull w)"
        unfolding p using b Cons Inr ns by (auto simp: pulled_ok_def nth_append)
      moreover have "accounts_ok window (pull w)"
        unfolding p using a assms(2)
        by (auto simp: accounts_ok_def slot_indexes_def can_pull_def less_Suc_eq)
      ultimately show ?thesis by (auto simp: window_inv_def)
    qed
  qed
qed

lemma slot_call_retry:
  "slot_call policy D sl world = (Inr sl', world') \<Longrightarrow>
   sl_chunk_index sl' = sl_chunk_index sl \<and> sl_batch sl' = sl_batch sl
   \<and> sl_attempt sl' = sl_attempt sl + 1 \<and> sl_attempt sl < rp_max_attempts policy"
  by (auto simp: slot_call_def split: prod.splits sum.splits if_splits)

lemma slot_call_done:
  "slot_call policy D sl world = (Inl done, world') \<Longrightarrow> sc_chunk_index done = sl_chunk_index sl"
  by (auto simp: slot_call_def split: prod.splits sum.splits if_splits)

lemma window_inv_keep:
  assumes "window_inv window chunks w" "accounts_ok window w'" "ws_dispatched w' = ws_dispatched w"
    "ws_source_failure w' = ws_source_failure w" "ws_chunks w' = ws_chunks w"
    "\<And>sl'. sl' \<in> set (ws_running w') \<Longrightarrow>
       \<exists>sl\<in>set (ws_running w). sl_chunk_index sl' = sl_chunk_index sl \<and> sl_batch sl' = sl_batch sl"
  shows "window_inv window chunks w'"
  using assms pulled_ok_step [of chunks _ w w'] unfolding window_inv_def by blast

lemma window_inv_retry:
  assumes "window_inv window chunks w" "ws_running w = before @ sl # after"
    "sl_chunk_index sl' = sl_chunk_index sl" "sl_batch sl' = sl_batch sl"
  shows "window_inv window chunks (w\<lparr>ws_running := before @ sl' # after, ws_world := world', ws_sleeps := s\<rparr>)"
  by (rule window_inv_keep [OF assms(1)])
    (use assms in \<open>auto simp: window_inv_def accounts_ok_def slot_indexes_def\<close>)

lemma window_inv_complete:
  assumes "window_inv window chunks w" "ws_running w = before @ sl # after"
    "sc_chunk_index c = sl_chunk_index sl"
  shows "window_inv window chunks
    (w\<lparr>ws_running := before @ after, ws_channel := ws_channel w @ [c], ws_world := world'\<rparr>)"
  by (rule window_inv_keep [OF assms(1)])
    (use assms in \<open>auto simp: window_inv_def accounts_ok_def slot_indexes_def\<close>)

lemma receive_accounts:
  assumes "accounts_ok window w" "ws_channel w = c # rest"
  shows "accounts_ok window (receive c rest w)"
proof (cases "sc_outcome c")
  case (Slot_Write fail)
  then show ?thesis
    using assms by (auto simp: accounts_ok_def slot_indexes_def receive_def Let_def)
qed (use assms in \<open>auto simp: accounts_ok_def slot_indexes_def receive_def Let_def\<close>)

lemma receive_keeps:
  "ws_dispatched (receive c rest w) = ws_dispatched w" "ws_source_failure (receive c rest w) = ws_source_failure w"
  "ws_chunks (receive c rest w) = ws_chunks w" "ws_running (receive c rest w) = ws_running w"
  by (simp_all add: receive_def Let_def split: slot_outcome.split)

lemma window_inv_receive:
  assumes "window_inv window chunks w" "ws_channel w = c # rest"
  shows "window_inv window chunks (receive c rest w)"
  by (rule window_inv_keep [OF assms(1) receive_accounts])
    (use assms in \<open>auto simp: window_inv_def receive_keeps\<close>)

lemma window_inv_step:
  "window_step policy D window w w' \<Longrightarrow> window_inv window chunks w \<Longrightarrow> window_inv window chunks w'"
proof (induction rule: window_step.induct)
  case (step_retry w before sl after sl' world')
  then show ?case using slot_call_retry [OF step_retry(2)] by (intro window_inv_retry) auto
next
  case (step_complete w before sl after done' world')
  then show ?case using slot_call_done [OF step_complete(2)] by (intro window_inv_complete) auto
next
  case (step_panic w before sl after world')
  then show ?case by (intro window_inv_complete) (auto simp: panicked_def)
qed (simp_all add: window_inv_pull window_inv_receive)

lemma window_inv_reach:
  "(window_step policy D window)\<^sup>*\<^sup>* w w' \<Longrightarrow> window_inv window chunks w \<Longrightarrow> window_inv window chunks w'"
  by (induction rule: rtranclp_induct) (auto intro: window_inv_step)

subsection \<open>Every run ends, and ends drained\<close>

definition slot_weight :: "nat \<Rightarrow> slot \<Rightarrow> nat" where
  "slot_weight max_attempts sl = max_attempts - sl_attempt sl + 2"

definition window_weight :: "nat \<Rightarrow> 's window_state \<Rightarrow> nat" where
  "window_weight max_attempts w =
     (length (ws_chunks w) + (if ws_source_done w then 0 else 1)) * (max_attempts + 3)
     + sum_list (map (slot_weight max_attempts) (ws_running w)) + length (ws_channel w)"

lemma window_weight_step:
  "window_step policy D window w w' \<Longrightarrow> window_weight (rp_max_attempts policy) w' < window_weight (rp_max_attempts policy) w"
proof (induction rule: window_step.induct)
  case (step_pull w)
  then show ?case
    by (auto simp: pull_def can_pull_def window_weight_def slot_weight_def split: list.split sum.split)
next
  case (step_retry w before sl after sl' world')
  show ?case
  proof -
    have "slot_weight (rp_max_attempts policy) sl' < slot_weight (rp_max_attempts policy) sl"
      using slot_call_retry [OF step_retry(2)] by (simp add: slot_weight_def diff_less_mono2)
    then show ?thesis using step_retry(1) by (simp add: window_weight_def)
  qed
next
  case (step_complete w before sl after done' world')
  then show ?case by (simp add: window_weight_def slot_weight_def)
next
  case (step_panic w before sl after world')
  then show ?case by (simp add: window_weight_def slot_weight_def)
next
  case (step_receive w completion rest)
  then show ?case
    by (cases "sc_outcome completion") (simp_all add: window_weight_def receive_def Let_def)
qed

lemma window_terminates: "wfP (\<lambda>w' w. window_step policy D window w w')"
  by (rule wfp_if_convertible_to_nat [where f = "window_weight (rp_max_attempts policy)"])
    (rule window_weight_step)

lemma window_progress:
  assumes "window_inv window chunks w" "\<not> window_drained window w"
  shows "\<exists>w'. window_step policy D window w w'"
proof (cases "can_pull window w")
  case True
  then show ?thesis by (blast intro: step_pull)
next
  case False
  then have nf: "ws_in_flight w \<noteq> 0" using assms(2) by (simp add: window_drained_def)
  show ?thesis
  proof (cases "ws_channel w")
    case (Cons c rest)
    then show ?thesis using False nf by (blast intro: step_receive)
  next
    case Nil
    then obtain sl after where "ws_running w = [] @ sl # after"
      using nf assms(1) by (cases "ws_running w") (auto simp: window_inv_def accounts_ok_def)
    then show ?thesis by (blast intro: step_panic)
  qed
qed

text \<open>The progress step that needs no panic: a slot that is running can make its next call.\<close>

lemma slot_call_total:
  "(\<exists>sl' world'. slot_call policy D sl world = (Inr sl', world')) \<or> (\<exists>c world'. slot_call policy D sl world = (Inl c, world'))"
  by (metis surj_pair sum.exhaust)

subsection \<open>What a drained window surfaces\<close>

lemma min_failure_None_iff: "min_failure fs = None \<longleftrightarrow> fs = []"
  by (cases fs) (auto split: option.split)

lemma min_failure_least:
  "min_failure fs = Some f \<Longrightarrow> f \<in> set fs \<and> (\<forall>g\<in>set fs. fst f \<le> fst g)"
proof (induction fs arbitrary: f)
  case (Cons a fs)
  then show ?case
    by (cases "min_failure fs") (force simp: min_failure_None_iff split: if_splits)+
qed simp

lemma drained_success:
  assumes inv: "window_inv window chunks w" and dr: "window_drained window w" and win: "0 < window"
    and ok: "ws_write_failures w = []" "ws_source_failure w = None" "\<not> ws_writer_panic w"
  shows "\<exists>batches. chunks = map Inr batches \<and> ws_dispatched w = length chunks"
proof -
  obtain batches where b: "pulled_ok chunks batches w" and a: "accounts_ok window w"
    using inv by (auto simp: window_inv_def)
  have "ws_chunks w = []"
    using a dr win ok by (auto simp: accounts_ok_def window_drained_def can_pull_def)
  then show ?thesis using b ok(2) by (auto simp: pulled_ok_def)
qed

lemma drained_failure:
  assumes inv: "window_inv window chunks w" and f: "min_failure (ws_write_failures w) = Some (i, fail)"
  shows "i < ws_dispatched w \<and> (i, fail) \<in> set (ws_write_failures w)
    \<and> (\<forall>j g. (j, g) \<in> set (ws_write_failures w) \<longrightarrow> i \<le> j \<and> (j = i \<longrightarrow> g = fail))"
proof -
  have a: "accounts_ok window w" using inv by (simp add: window_inv_def)
  note m = min_failure_least [OF f]
  have "g = fail" if "(i, g) \<in> set (ws_write_failures w)" for g
    using a m that distinct_map_eqD [of fst "ws_write_failures w" "(i, g)" "(i, fail)"]
    by (auto simp: accounts_ok_def)
  moreover have "i < ws_dispatched w" "(i, fail) \<in> set (ws_write_failures w)"
    using a m by (auto simp: accounts_ok_def)
  moreover have "i \<le> j" if "(j, g) \<in> set (ws_write_failures w)" for j g
    using m that by fastforce
  ultimately show ?thesis by blast
qed

end
