(* ===== verification/File_System.thy ===== *)
theory File_System
  imports Prelude
begin

section \<open>The file system under the Parquet destination\<close>

text \<open>
  A file system maps a directory path to its files; a file holds what a finished writer put
  there, or is partial. Every operation first asks an oracle whether it fails, so a statement
  about all file systems covers every failure: a failing removal of a directory leaves the
  files a second oracle names, a failing removal of a file leaves the file, and any other
  failing operation changes nothing. Paths carry no \<open>.\<close> components and no trailing separator.
\<close>

datatype 'b file_content = Complete 'b | Partial

type_synonym 'b directory = "string \<rightharpoonup> 'b file_content"

record 'b fs =
  fs_dirs :: "string \<rightharpoonup> 'b directory"
  fs_fault :: "nat \<Rightarrow> string option"
  fs_left :: "nat \<Rightarrow> string list"
  fs_clock :: nat

definition tick :: "'b fs \<Rightarrow> string option \<times> 'b fs" where
  "tick f = (fs_fault f (fs_clock f), f\<lparr>fs_clock := fs_clock f + 1\<rparr>)"

definition fs_create_dir_all :: "string \<Rightarrow> 'b fs \<Rightarrow> (string, unit) result \<times> 'b fs" where
  "fs_create_dir_all path f =
     (case tick f of
        (Some error, f) \<Rightarrow> (Inl error, f)
      | (None, f) \<Rightarrow> (Inr (), case fs_dirs f path of
            Some _ \<Rightarrow> f | None \<Rightarrow> f\<lparr>fs_dirs := (fs_dirs f)(path \<mapsto> Map.empty)\<rparr>))"

text \<open>\<open>remove_path_if_exists\<close> of \<open>src/connector.rs\<close>, on a directory and on a file.\<close>

definition remove_path_if_exists :: "string \<Rightarrow> 'b fs \<Rightarrow> (string, unit) result \<times> 'b fs" where
  "remove_path_if_exists path f =
     (case fs_dirs f path of
        None \<Rightarrow> (Inr (), f)
      | Some files \<Rightarrow>
          let left = fs_left f (fs_clock f) in
          (case tick f of
             (Some error, f) \<Rightarrow>
               (Inl error, f\<lparr>fs_dirs := (fs_dirs f)(path \<mapsto> (\<lambda>n. if n \<in> set left then files n else None))\<rparr>)
           | (None, f) \<Rightarrow> (Inr (), f\<lparr>fs_dirs := (fs_dirs f)(path := None)\<rparr>)))"

definition put_file :: "string \<Rightarrow> string \<Rightarrow> 'b file_content option \<Rightarrow> 'b fs \<Rightarrow> 'b fs" where
  "put_file dir name content f =
     (case fs_dirs f dir of
        Some files \<Rightarrow> f\<lparr>fs_dirs := (fs_dirs f)(dir \<mapsto> files(name := content))\<rparr>
      | None \<Rightarrow> f)"

definition file_at :: "string \<Rightarrow> string \<Rightarrow> 'b fs \<Rightarrow> 'b file_content option" where
  "file_at dir name f = (case fs_dirs f dir of Some files \<Rightarrow> files name | None \<Rightarrow> None)"

definition remove_file_if_exists :: "string \<Rightarrow> string \<Rightarrow> 'b fs \<Rightarrow> (string, unit) result \<times> 'b fs" where
  "remove_file_if_exists dir name f =
     (if file_at dir name f = None then (Inr (), f)
      else (case tick f of
        (Some error, f) \<Rightarrow> (Inl error, f)
      | (None, f) \<Rightarrow> (Inr (), put_file dir name None f)))"

definition fs_rename_file :: "string \<Rightarrow> string \<Rightarrow> string \<Rightarrow> 'b fs \<Rightarrow> (string, unit) result \<times> 'b fs" where
  "fs_rename_file dir from_name to_name f =
     (case tick f of
        (Some error, f) \<Rightarrow> (Inl error, f)
      | (None, f) \<Rightarrow>
          (case file_at dir from_name f of
             None \<Rightarrow> (Inl ''no such file'', f)
           | Some content \<Rightarrow> (Inr (), put_file dir to_name (Some content) (put_file dir from_name None f))))"

definition fs_rename_dir :: "string \<Rightarrow> string \<Rightarrow> 'b fs \<Rightarrow> (string, unit) result \<times> 'b fs" where
  "fs_rename_dir from_path to_path f =
     (case tick f of
        (Some error, f) \<Rightarrow> (Inl error, f)
      | (None, f) \<Rightarrow>
          if fs_dirs f to_path \<noteq> None then (Inl ''directory not empty'', f)
          else (case fs_dirs f from_path of
             None \<Rightarrow> (Inl ''no such directory'', f)
           | Some files \<Rightarrow> (Inr (), f\<lparr>fs_dirs := (fs_dirs f)(from_path := None, to_path \<mapsto> files)\<rparr>)))"

definition path_join :: "string \<Rightarrow> string \<Rightarrow> string" where
  "path_join dir name = (if dir = [] then name else if last dir = CHR ''/'' then dir @ name else dir @ ''/'' @ name)"

text \<open>The last component of a path, and \<open>Path::file_name\<close>: none where it is \<open>..\<close>.\<close>

definition path_last :: "string \<Rightarrow> string" where
  "path_last path = rev (takeWhile (\<lambda>c. c \<noteq> CHR ''/'') (rev path))"

definition path_file_name :: "string \<Rightarrow> string" where
  "path_file_name path = (if path_last path = ''..'' then [] else path_last path)"

definition path_parent :: "string \<Rightarrow> string" where
  "path_parent path =
     (let dir = rev (dropWhile (\<lambda>c. c \<noteq> CHR ''/'') (rev path))
      in if dir = ''/'' \<or> dir = [] then dir else butlast dir)"

subsection \<open>What the operations change\<close>

lemma tick_eq: "tick f = (r, f') \<longleftrightarrow> r = fs_fault f (fs_clock f) \<and> f' = f\<lparr>fs_clock := fs_clock f + 1\<rparr>"
  by (auto simp: tick_def)

lemma put_file_dirs:
  "fs_dirs f dir = Some files \<Longrightarrow> fs_dirs (put_file dir name c f) dir = Some (files(name := c))"
  by (simp add: put_file_def)

lemma put_file_other [simp]: "d \<noteq> dir \<Longrightarrow> fs_dirs (put_file dir name c f) d = fs_dirs f d"
  by (simp add: put_file_def split: option.split)

lemma remove_file_effect:
  assumes "fs_dirs f dir = Some files"
  shows "\<exists>c. fs_dirs (snd (remove_file_if_exists dir name f)) dir = Some (files(name := c))"
proof -
  have "files = files(name := files name)" by simp
  then show ?thesis
    using assms
    by (fastforce simp: remove_file_if_exists_def file_at_def put_file_dirs tick_eq
        split: prod.splits option.splits)
qed

lemma rename_file_effect:
  assumes "fs_dirs f dir = Some files" "fs_rename_file dir a b f = (r, f')"
  shows "if is_ok r then files a \<noteq> None \<and> fs_dirs f' dir = Some (files(a := None, b := files a))
    else fs_dirs f' dir = Some files"
  using assms
  by (auto simp: fs_rename_file_def file_at_def put_file_dirs tick_eq split: prod.splits option.splits)

lemma create_dir_all_effect:
  "fs_create_dir_all path f = (r, f') \<Longrightarrow>
     (d \<noteq> path \<longrightarrow> fs_dirs f' d = fs_dirs f d) \<and> (fs_dirs f path \<noteq> None \<longrightarrow> fs_dirs f' path = fs_dirs f path)
     \<and> (is_ok r \<longrightarrow> fs_dirs f' path \<noteq> None)"
  by (auto simp: fs_create_dir_all_def tick_eq split: prod.splits option.splits)

lemma remove_path_effect:
  "remove_path_if_exists path f = (r, f') \<Longrightarrow>
     (d \<noteq> path \<longrightarrow> fs_dirs f' d = fs_dirs f d) \<and> (is_ok r \<longrightarrow> fs_dirs f' path = None)"
  by (auto simp: remove_path_if_exists_def tick_eq Let_def split: prod.splits option.splits)

lemma rename_dir_effect:
  "fs_rename_dir a b f = (r, f') \<Longrightarrow>
     (if is_ok r then fs_dirs f a \<noteq> None \<and> fs_dirs f' b = fs_dirs f a \<and> (a \<noteq> b \<longrightarrow> fs_dirs f' a = None)
      else fs_dirs f' = fs_dirs f)"
  by (auto simp: fs_rename_dir_def tick_eq split: prod.splits option.splits if_splits)

end
