(* ===== verification/Parquet.thy ===== *)
theory Parquet
  imports Dispatch File_System "HOL-Library.List_Lexorder" "HOL-Library.Char_ord"
begin

section \<open>The Parquet destination\<close>

text \<open>
  \<open>src/connector.rs\<close>, lines 745 to 1190: the append and the full-refresh session of the
  Parquet destination over a file system, with the schema a destination already has and the
  alignment of a batch to it. The steps of the Parquet writer ask the file system's oracle
  like its own operations do, and a failing step leaves a partial file.
  \<open>Uuid::new_v4\<close> is a stream of tokens.
\<close>

definition destination_write_failed :: "msg \<Rightarrow> load_failure" where
  "destination_write_failed message = failure ''destination_write_failed'' message"

subsection \<open>Writing one part\<close>

text \<open>The four steps of \<open>write_parquet_batch\<close>; \<open>encoded_size\<close> is the writer's byte count.\<close>

definition write_parquet_batch ::
  "(record_batch \<Rightarrow> nat) \<Rightarrow> string \<Rightarrow> string \<Rightarrow> record_batch \<Rightarrow> record_batch fs \<Rightarrow> (load_failure, nat) result \<times> record_batch fs" where
  "write_parquet_batch encoded_size dir name batch f =
     (case tick f of
        (Some error, f) \<Rightarrow> (Inl (destination_write_failed
          [Lit ''failed to create Parquet file '', Txt (path_join dir name), Lit '': '', Txt error]), f)
      | (None, f) \<Rightarrow>
     (case tick (put_file dir name (Some Partial) f) of
        (Some error, f) \<Rightarrow> (Inl (destination_write_failed
          [Lit ''failed to initialize Parquet writer: '', Txt error]), f)
      | (None, f) \<Rightarrow>
     (case tick f of
        (Some error, f) \<Rightarrow> (Inl (destination_write_failed
          [Lit ''failed to write Parquet records: '', Txt error]), f)
      | (None, f) \<Rightarrow>
     (case tick f of
        (Some error, f) \<Rightarrow> (Inl (destination_write_failed
          [Lit ''failed to finish Parquet writer: '', Txt error]), f)
      | (None, f) \<Rightarrow> (Inr (encoded_size batch), put_file dir name (Some (Complete batch)) f)))))"

subsection \<open>Alignment to the destination's schema\<close>

definition parquet_schema_mismatch :: "string \<Rightarrow> load_failure" where
  "parquet_schema_mismatch destination_path =
     destination_write_failed [Lit ''append schema does not match Parquet destination '', Txt destination_path]"

definition index_of :: "arrow_field list \<Rightarrow> string \<Rightarrow> nat option" where
  "index_of schema name = map_of (zip (map af_name schema) [0..<length schema]) name"

definition align_field ::
  "string \<Rightarrow> record_batch \<Rightarrow> arrow_field \<Rightarrow> (load_failure, column) result" where
  "align_field destination_path batch destination_field =
     (case index_of (rb_schema batch) (af_name destination_field) of
        None \<Rightarrow> Inl (parquet_schema_mismatch destination_path)
      | Some source_index \<Rightarrow>
          let source_field = rb_schema batch ! source_index;
              column = rb_columns batch ! source_index
          in if af_type source_field \<noteq> af_type destination_field
                \<or> (\<not> af_nullable destination_field \<and> True \<in> set (column_nulls column))
             then Inl (parquet_schema_mismatch destination_path)
             else Inr column)"

definition align_batch_to_destination_schema ::
  "arrow \<Rightarrow> string \<Rightarrow> record_batch \<Rightarrow> arrow_field list \<Rightarrow> (load_failure, record_batch) result" where
  "align_batch_to_destination_schema A destination_path batch destination_schema =
     (if length (rb_schema batch) \<noteq> length destination_schema then
        Inl (parquet_schema_mismatch destination_path)
      else rbind (traverse (align_field destination_path batch) destination_schema) (\<lambda>columns.
        map_err (\<lambda>error. destination_write_failed
            [Lit ''failed to align append records with Parquet destination '', Txt destination_path,
             Lit '': '', Txt error])
          (rmap (\<lambda>_. \<lparr>rb_schema = destination_schema, rb_columns = columns\<rparr>)
            (ar_try_new A destination_schema columns))))"

text \<open>
  \<open>existing_parquet_schema\<close>: the schemas of the destination's \<open>.parquet\<close> files in path
  order; they must agree. A partial file is no Parquet file. \<open>read_dir\<close> lists the names of a
  directory in the order the file system yields them.
\<close>

fun common_schema ::
  "string \<Rightarrow> (string \<Rightarrow> record_batch file_content option) \<Rightarrow> arrow_field list option \<Rightarrow> string list
   \<Rightarrow> record_batch fs \<Rightarrow> (load_failure, arrow_field list option) result \<times> record_batch fs" where
  "common_schema destination_path files destination_schema [] f = (Inr destination_schema, f)"
| "common_schema destination_path files destination_schema (name # names) f =
     (case tick f of
        (Some error, f) \<Rightarrow> (Inl (destination_write_failed [Lit ''failed to open existing Parquet file '',
          Txt (path_join destination_path name), Lit '': '', Txt error]), f)
      | (None, f) \<Rightarrow>
          (case files name of
             Some (Complete batch) \<Rightarrow>
               (case destination_schema of
                  Some expected \<Rightarrow>
                    if expected \<noteq> rb_schema batch then
                      (Inl (destination_write_failed [Lit ''Parquet destination '', Txt destination_path,
                        Lit '' contains inconsistent schemas'']), f)
                    else common_schema destination_path files destination_schema names f
                | None \<Rightarrow> common_schema destination_path files (Some (rb_schema batch)) names f)
           | _ \<Rightarrow> (Inl (destination_write_failed [Lit ''failed to read existing Parquet schema '',
                    Txt (path_join destination_path name), Lit '': '', Txt ''invalid Parquet file'']), f)))"

definition is_parquet_name :: "string \<Rightarrow> bool" where
  "is_parquet_name name \<longleftrightarrow> drop (length name - 8) name = ''.parquet'' \<and> 8 < length name"

definition existing_parquet_schema ::
  "(record_batch directory \<Rightarrow> string list) \<Rightarrow> string \<Rightarrow> record_batch fs
   \<Rightarrow> (load_failure, arrow_field list option) result \<times> record_batch fs" where
  "existing_parquet_schema read_dir destination_path f =
     (case tick f of
        (Some error, f) \<Rightarrow> (Inl (destination_write_failed
          [Lit ''failed to inspect Parquet destination '', Txt destination_path, Lit '': '', Txt error]), f)
      | (None, f) \<Rightarrow>
          let files = (case fs_dirs f destination_path of Some d \<Rightarrow> d | None \<Rightarrow> Map.empty)
          in common_schema destination_path files None (sort (filter is_parquet_name (read_dir files))) f)"

subsection \<open>The append session\<close>

text \<open>
  \<open>ParquetAppendWriter\<close> with its \<open>ParquetAppendProgress\<close>, the file system it works on and the
  stream of tokens; \<open>pa_next\<close> is the number of tokens drawn.
\<close>

record append_world =
  pa_destination_path :: string
  pa_destination_schema :: "arrow_field list option"
  pa_committed_chunks :: nat
  pa_written_records :: nat
  pa_bytes_written :: nat
  pa_fs :: "record_batch fs"
  pa_token :: "nat \<Rightarrow> string"
  pa_next :: nat

definition chunk_failure :: "append_world \<Rightarrow> load_failure \<Rightarrow> write_failure" where
  "chunk_failure self fail =
     (if 0 < pa_committed_chunks self then
        \<lparr>wx_failure = fail, wx_facts = facts_best_effort ''staged_part_append'',
         wx_written_records = pa_written_records self, wx_committed_chunks = pa_committed_chunks self,
         wx_transience = Terminal\<rparr>
      else write_failure_from fail)"

definition append_begin ::
  "(record_batch directory \<Rightarrow> string list) \<Rightarrow> (append_world, unit) operation" where
  "append_begin read_dir w =
     (case fs_create_dir_all (pa_destination_path w) (pa_fs w) of
        (Inl error, f) \<Rightarrow> (Inl (write_failure_from (destination_write_failed
          [Lit ''failed to prepare Parquet destination '', Txt (pa_destination_path w), Lit '': '', Txt error])),
          w\<lparr>pa_fs := f\<rparr>)
      | (Inr _, f) \<Rightarrow>
          (case existing_parquet_schema read_dir (pa_destination_path w) f of
             (Inl fail, f) \<Rightarrow> (Inl (write_failure_from fail), w\<lparr>pa_fs := f\<rparr>)
           | (Inr schema, f) \<Rightarrow>
               (Inr (), w\<lparr>pa_destination_schema := schema, pa_committed_chunks := 0,
                          pa_written_records := 0, pa_bytes_written := 0, pa_fs := f\<rparr>)))"

definition staging_name :: "string \<Rightarrow> string" where
  "staging_name token = ''.part-'' @ token @ ''.data-spark-staging.tmp''"

definition part_name :: "string \<Rightarrow> string" where
  "part_name token = ''part-'' @ token @ ''.parquet''"

definition append_batch ::
  "arrow \<Rightarrow> append_world \<Rightarrow> record_batch \<Rightarrow> (load_failure, record_batch) result" where
  "append_batch A w batch =
     (case pa_destination_schema w of
        None \<Rightarrow> Inr batch
      | Some schema \<Rightarrow> align_batch_to_destination_schema A (pa_destination_path w) batch schema)"

definition append_write_chunk ::
  "arrow \<Rightarrow> (record_batch \<Rightarrow> nat) \<Rightarrow> record_batch \<Rightarrow> (append_world, unit) operation" where
  "append_write_chunk A encoded_size batch w =
     (case append_batch A w batch of
        Inl fail \<Rightarrow> (Inl (chunk_failure w fail), w)
      | Inr aligned \<Rightarrow>
          let part_token = pa_token w (pa_next w);
              w = w\<lparr>pa_next := pa_next w + 1\<rparr>;
              dir = pa_destination_path w
          in (case write_parquet_batch encoded_size dir (staging_name part_token) aligned (pa_fs w) of
                (Inl fail, f) \<Rightarrow>
                  (Inl (chunk_failure w fail),
                   w\<lparr>pa_fs := snd (remove_file_if_exists dir (staging_name part_token) f)\<rparr>)
              | (Inr bytes_written, f) \<Rightarrow>
                  (case fs_rename_file dir (staging_name part_token) (part_name part_token) f of
                     (Inl error, f) \<Rightarrow>
                       (Inl \<lparr>wx_failure = destination_write_failed
                           [Lit ''failed to commit Parquet part '', Txt (path_join dir (part_name part_token)),
                            Lit '': '', Txt error],
                          wx_facts = facts_best_effort ''staged_part_append'',
                          wx_written_records = pa_written_records w,
                          wx_committed_chunks = pa_committed_chunks w, wx_transience = Terminal\<rparr>,
                        w\<lparr>pa_fs := snd (remove_file_if_exists dir (staging_name part_token) f)\<rparr>)
                   | (Inr _, f) \<Rightarrow>
                       (Inr (), w\<lparr>pa_fs := f, pa_committed_chunks := pa_committed_chunks w + 1,
                                  pa_written_records := pa_written_records w + rb_rows aligned,
                                  pa_bytes_written := pa_bytes_written w + bytes_written\<rparr>))))"

definition append_commit :: "(append_world, destination_write) operation" where
  "append_commit w =
     (Inr \<lparr>dw_bytes_written = Some (pa_bytes_written w),
           dw_facts = facts_best_effort ''staged_part_append''\<rparr>, w)"

definition append_abandoned :: "string \<Rightarrow> nat \<Rightarrow> nat \<Rightarrow> abandoned_write" where
  "append_abandoned strategy committed_chunks written_records =
     \<lparr>aw_committed_chunks = committed_chunks, aw_written_records = written_records,
      aw_facts = (if 0 < committed_chunks then facts_best_effort strategy else facts_not_applicable)\<rparr>"

definition append_abandon :: "append_world \<Rightarrow> abandoned_write \<times> append_world" where
  "append_abandon w =
     (append_abandoned ''staged_part_append'' (pa_committed_chunks w) (pa_written_records w), w)"

definition parquet_append_ops ::
  "arrow \<Rightarrow> (record_batch \<Rightarrow> nat) \<Rightarrow> (record_batch directory \<Rightarrow> string list) \<Rightarrow> append_world destination_ops" where
  "parquet_append_ops A encoded_size read_dir =
     \<lparr>d_begin = (\<lambda>_. append_begin read_dir), d_write_chunk = append_write_chunk A encoded_size,
      d_commit = append_commit, d_abandon = append_abandon, d_drop = (\<lambda>w. w)\<rparr>"

subsection \<open>The append session keeps its promise\<close>

lemma write_parquet_effect:
  assumes "fs_dirs f dir = Some files" "write_parquet_batch e dir name batch f = (r, f')"
  shows "\<exists>c. fs_dirs f' dir = Some (files(name := c)) \<and> (is_ok r \<longrightarrow> c = Some (Complete batch))"
proof -
  have "files = files(name := files name)" by simp
  then show ?thesis
    using assms
    by (fastforce simp: write_parquet_batch_def put_file_dirs tick_eq split: prod.splits option.splits)
qed

text \<open>The parts of this session that a reader of the destination sees.\<close>

definition dest_files :: "append_world \<Rightarrow> record_batch directory" where
  "dest_files w = (case fs_dirs (pa_fs w) (pa_destination_path w) of Some files \<Rightarrow> files | None \<Rightarrow> Map.empty)"

definition part_visible :: "append_world \<Rightarrow> nat \<Rightarrow> bool" where
  "part_visible w i \<longleftrightarrow> dest_files w (part_name (pa_token w i)) \<noteq> None"

definition append_visible :: "append_world \<Rightarrow> nat" where
  "append_visible w = length (filter (part_visible w) [0..<pa_next w])"

definition append_inv :: "append_world \<Rightarrow> bool" where
  "append_inv w \<longleftrightarrow> inj (pa_token w) \<and> fs_dirs (pa_fs w) (pa_destination_path w) \<noteq> None
     \<and> pa_committed_chunks w = append_visible w \<and> (\<forall>i. part_visible w i \<longrightarrow> i < pa_next w)"

lemma part_name_inject [simp]: "part_name a = part_name b \<longleftrightarrow> a = b"
  by (simp add: part_name_def)

lemma staging_not_part [simp]: "staging_name a \<noteq> part_name b" "part_name b \<noteq> staging_name a"
  by (simp_all add: staging_name_def part_name_def)

text \<open>A call that fails after drawing a token leaves every part as it was.\<close>

lemma append_step_hidden:
  assumes "append_inv w" "pa_next w' = pa_next w + 1" "pa_token w' = pa_token w"
    "pa_destination_path w' = pa_destination_path w" "pa_committed_chunks w' = pa_committed_chunks w"
    "fs_dirs (pa_fs w') (pa_destination_path w) = Some ((dest_files w)(staging_name t := c))"
  shows "append_inv w' \<and> append_visible w' = append_visible w"
proof -
  have pv: "part_visible w' = part_visible w"
    using assms(3,4,6) by (auto simp: part_visible_def dest_files_def)
  have "\<not> part_visible w (pa_next w)" using assms(1) by (auto simp: append_inv_def)
  then have "append_visible w' = append_visible w" by (simp add: append_visible_def assms(2) pv)
  then show ?thesis using assms pv by (auto simp: append_inv_def less_Suc_eq)
qed

lemma append_step_commits:
  assumes "append_inv w" "pa_next w' = pa_next w + 1" "pa_token w' = pa_token w"
    "pa_destination_path w' = pa_destination_path w" "pa_committed_chunks w' = pa_committed_chunks w + 1"
    "fs_dirs (pa_fs w') (pa_destination_path w) =
      Some ((dest_files w)(staging_name t := c, part_name (pa_token w (pa_next w)) := Some content))"
  shows "append_inv w' \<and> append_visible w' = append_visible w + 1"
proof -
  have inj: "pa_token w i = pa_token w j \<longleftrightarrow> i = j" for i j
    using assms(1) by (auto simp: append_inv_def dest: injD)
  have pv: "part_visible w' i \<longleftrightarrow> part_visible w i \<or> i = pa_next w" for i
    using assms(3,4,6) inj by (simp add: part_visible_def dest_files_def)
  have "filter (part_visible w') [0..<pa_next w] = filter (part_visible w) [0..<pa_next w]"
    by (rule filter_cong) (auto simp: pv)
  then have "append_visible w' = append_visible w + 1" by (simp add: append_visible_def assms(2) pv)
  then show ?thesis using assms pv by (auto simp: append_inv_def less_Suc_eq)
qed

lemma append_dest_some: "append_inv w \<Longrightarrow> fs_dirs (pa_fs w) (pa_destination_path w) = Some (dest_files w)"
  by (auto simp: append_inv_def dest_files_def)

text \<open>
  One write: a refused batch changes nothing, a failed one leaves the parts and the progress,
  and a finished one adds its part.
\<close>

lemma append_write_chunk_step:
  assumes inv: "append_inv w" and step: "append_write_chunk A e b w = (r, w')"
  shows "append_inv w' \<and> (case r of
      Inl fail \<Rightarrow> append_visible w' = append_visible w \<and> wx_committed_chunks fail = append_visible w
    | Inr _ \<Rightarrow> append_visible w' = append_visible w + 1)"
proof -
  have committed: "pa_committed_chunks w = append_visible w" using inv by (simp add: append_inv_def)
  show ?thesis
  proof (cases "append_batch A w b")
    case (Inl fail)
    then show ?thesis
      using inv step committed by (auto simp: append_write_chunk_def chunk_failure_def write_failure_from_def)
  next
    case (Inr aligned)
    let ?dir = "pa_destination_path w" and ?t = "pa_token w (pa_next w)"
    obtain wr f1 where wp: "write_parquet_batch e ?dir (staging_name ?t) aligned (pa_fs w) = (wr, f1)" by fastforce
    obtain c where c: "fs_dirs f1 ?dir = Some ((dest_files w)(staging_name ?t := c))"
      and cc: "is_ok wr \<longrightarrow> c = Some (Complete aligned)"
      using write_parquet_effect [OF append_dest_some [OF inv] wp] by auto
    show ?thesis
    proof (cases wr)
      case (Inl fail)
      obtain c' where "fs_dirs (snd (remove_file_if_exists ?dir (staging_name ?t) f1)) ?dir =
          Some ((dest_files w)(staging_name ?t := c'))"
        using remove_file_effect [OF c, of "staging_name ?t"] by auto
      then show ?thesis
        using append_step_hidden [OF inv, of w' ?t c'] step \<open>append_batch A w b = Inr aligned\<close> wp Inl committed
        by (auto simp: append_write_chunk_def chunk_failure_def write_failure_from_def Let_def)
    next
      case (Inr bytes)
      obtain rr f2 where rn: "fs_rename_file ?dir (staging_name ?t) (part_name ?t) f1 = (rr, f2)" by fastforce
      note effect = rename_file_effect [OF c rn]
      show ?thesis
      proof (cases rr)
        case (Inl error)
        then have "fs_dirs f2 ?dir = Some ((dest_files w)(staging_name ?t := c))" using effect by simp
        then obtain c' where "fs_dirs (snd (remove_file_if_exists ?dir (staging_name ?t) f2)) ?dir =
            Some ((dest_files w)(staging_name ?t := c'))"
          using remove_file_effect [of f2 ?dir _ "staging_name ?t"] by fastforce
        then show ?thesis
          using append_step_hidden [OF inv, of w' ?t c'] step \<open>append_batch A w b = Inr aligned\<close> wp \<open>wr = Inr bytes\<close> rn Inl committed
          by (auto simp: append_write_chunk_def Let_def)
      next
        case (Inr u)
        then have "fs_dirs f2 ?dir =
            Some ((dest_files w)(staging_name ?t := None, part_name ?t := Some (Complete aligned)))"
          using effect cc \<open>wr = Inr bytes\<close> by simp
        then show ?thesis
          using append_step_commits [OF inv, of w' ?t None] step \<open>append_batch A w b = Inr aligned\<close> wp \<open>wr = Inr bytes\<close> rn Inr committed
          by (auto simp: append_write_chunk_def Let_def)
      qed
    qed
  qed
qed

interpretation pq_append: append_session
  "append_write_chunk A e" append_abandon "\<lambda>w. w" append_inv append_visible
  for A e
proof (unfold_locales, goal_cases)
  case (1 s b)
  then show ?case using append_write_chunk_step [of s A e b] by (metis prod.collapse)
next
  case (2 s b fail s')
  then show ?case using append_write_chunk_step [of s A e b] by fastforce
next
  case (3 s)
  then show ?case by (simp add: append_abandon_def append_abandoned_def append_inv_def)
next
  case (5 s b s')
  then show ?case using append_write_chunk_step [of s A e b] by fastforce
qed simp

end
