(* ===== verification/Parquet_Full_Refresh.thy ===== *)
theory Parquet_Full_Refresh
  imports Parquet
begin

section \<open>The Parquet full-refresh session\<close>

text \<open>
  \<open>ParquetFullRefreshWriter\<close> of \<open>src/connector.rs\<close>, lines 780 to 913: chunks become part
  files of a staging directory, the commit replaces the destination by it, and a session that
  goes away uncommitted removes it.
\<close>

record full_refresh_world =
  fr_destination_path :: string
  fr_staging_path :: string
  fr_parts :: nat
  fr_bytes_written :: nat
  fr_committed :: bool
  fr_fs :: "record_batch fs"
  fr_token :: "nat \<Rightarrow> string"
  fr_next :: nat

definition staging_path_of :: "string \<Rightarrow> string \<Rightarrow> string" where
  "staging_path_of destination_path staging_token =
     path_join (path_parent destination_path)
       (''.'' @ (if path_file_name destination_path = [] then ''dataset'' else path_file_name destination_path)
        @ ''.data-spark-staging-'' @ staging_token)"

definition full_refresh_begin :: "(full_refresh_world, unit) operation" where
  "full_refresh_begin w =
     (case fs_create_dir_all (path_parent (fr_destination_path w)) (fr_fs w) of
        (Inl error, f) \<Rightarrow> (Inl (write_failure_from (destination_write_failed
          [Lit ''failed to prepare destination parent '', Txt (path_parent (fr_destination_path w)),
           Lit '': '', Txt error])), w\<lparr>fr_fs := f\<rparr>)
      | (Inr _, f) \<Rightarrow>
          let staging_path = staging_path_of (fr_destination_path w) (fr_token w (fr_next w));
              w = w\<lparr>fr_next := fr_next w + 1\<rparr>
          in (case remove_path_if_exists staging_path f of
                (Inl error, f) \<Rightarrow> (Inl (write_failure_from (destination_write_failed
                  [Lit ''failed to clear staging destination '', Txt staging_path, Lit '': '', Txt error])),
                  w\<lparr>fr_fs := f\<rparr>)
              | (Inr _, f) \<Rightarrow>
                  (case fs_create_dir_all staging_path f of
                     (Inl error, f) \<Rightarrow> (Inl (write_failure_from (destination_write_failed
                       [Lit ''failed to create staging destination '', Txt staging_path, Lit '': '', Txt error])),
                       w\<lparr>fr_fs := f\<rparr>)
                   | (Inr _, f) \<Rightarrow>
                       (Inr (), w\<lparr>fr_staging_path := staging_path, fr_parts := 0, fr_bytes_written := 0,
                                  fr_committed := False, fr_fs := f\<rparr>))))"

text \<open>\<open>part-{:05}.parquet\<close>.\<close>

definition part_file :: "nat \<Rightarrow> string" where
  "part_file n = ''part-'' @ replicate (5 - length (show_nat n)) (CHR ''0'') @ show_nat n @ ''.parquet''"

definition full_refresh_write_chunk ::
  "(record_batch \<Rightarrow> nat) \<Rightarrow> record_batch \<Rightarrow> (full_refresh_world, unit) operation" where
  "full_refresh_write_chunk encoded_size batch w =
     (case write_parquet_batch encoded_size (fr_staging_path w) (part_file (fr_parts w)) batch (fr_fs w) of
        (Inl fail, f) \<Rightarrow> (Inl (write_failure_from fail), w\<lparr>fr_fs := f\<rparr>)
      | (Inr bytes_written, f) \<Rightarrow>
          (Inr (), w\<lparr>fr_parts := fr_parts w + 1, fr_bytes_written := fr_bytes_written w + bytes_written,
                     fr_fs := f\<rparr>))"

definition full_refresh_drop :: "full_refresh_world \<Rightarrow> full_refresh_world" where
  "full_refresh_drop w =
     (if fr_committed w then w
      else w\<lparr>fr_fs := snd (remove_path_if_exists (fr_staging_path w) (fr_fs w))\<rparr>)"

definition full_refresh_commit :: "(full_refresh_world, destination_write) operation" where
  "full_refresh_commit w =
     (case remove_path_if_exists (fr_destination_path w) (fr_fs w) of
        (Inl error, f) \<Rightarrow> (Inl (write_failure_best_effort (destination_write_failed
          [Lit ''failed to replace existing destination '', Txt (fr_destination_path w), Lit '': '', Txt error])
          ''staging_then_replace'' 0), full_refresh_drop (w\<lparr>fr_fs := f\<rparr>))
      | (Inr _, f) \<Rightarrow>
          (case fs_rename_dir (fr_staging_path w) (fr_destination_path w) f of
             (Inl error, f) \<Rightarrow> (Inl (write_failure_best_effort (destination_write_failed
               [Lit ''failed to commit Parquet destination '', Txt (fr_destination_path w), Lit '': '', Txt error])
               ''staging_then_replace'' 0), full_refresh_drop (w\<lparr>fr_fs := f\<rparr>))
           | (Inr _, f) \<Rightarrow>
               (Inr \<lparr>dw_bytes_written = Some (fr_bytes_written w), dw_facts = facts_best_effort ''staging_then_replace''\<rparr>,
                full_refresh_drop (w\<lparr>fr_fs := f, fr_committed := True\<rparr>))))"

definition full_refresh_abandon :: "full_refresh_world \<Rightarrow> abandoned_write \<times> full_refresh_world" where
  "full_refresh_abandon w =
     (\<lparr>aw_committed_chunks = 0, aw_written_records = 0, aw_facts = facts_not_applicable\<rparr>, full_refresh_drop w)"

text \<open>\<open>begin\<close> of the destination in this mode; the merge mode is declined before a session opens.\<close>

definition parquet_supported_load_modes :: "load_mode list" where
  "parquet_supported_load_modes = [Full_Refresh, Append]"

definition full_refresh_ops :: "(record_batch \<Rightarrow> nat) \<Rightarrow> full_refresh_world destination_ops" where
  "full_refresh_ops encoded_size =
     \<lparr>d_begin = (\<lambda>_. full_refresh_begin), d_write_chunk = full_refresh_write_chunk encoded_size,
      d_commit = full_refresh_commit, d_abandon = full_refresh_abandon, d_drop = full_refresh_drop\<rparr>"

subsection \<open>Nothing is visible before the commit\<close>

text \<open>
  \<open>old\<close> is the destination when the session began; a reader who still finds it sees no chunk
  of the session.
\<close>

definition destination_dir :: "full_refresh_world \<Rightarrow> record_batch directory option" where
  "destination_dir w = fs_dirs (fr_fs w) (fr_destination_path w)"

definition changed_from :: "record_batch directory option \<Rightarrow> full_refresh_world \<Rightarrow> nat" where
  "changed_from old w = (if destination_dir w = old then 0 else 1)"

definition full_refresh_inv :: "record_batch directory option \<Rightarrow> full_refresh_world \<Rightarrow> bool" where
  "full_refresh_inv old w \<longleftrightarrow> fr_staging_path w \<noteq> fr_destination_path w \<and> destination_dir w = old"

lemma write_parquet_other:
  "write_parquet_batch e dir name batch f = (r, f') \<Longrightarrow> d \<noteq> dir \<Longrightarrow> fs_dirs f' d = fs_dirs f d"
  by (auto simp: write_parquet_batch_def tick_eq split: prod.splits option.splits)

lemma remove_path_other [simp]:
  "d \<noteq> path \<Longrightarrow> fs_dirs (snd (remove_path_if_exists path f)) d = fs_dirs f d"
  by (metis prod.collapse remove_path_effect)

lemma full_refresh_write_step:
  assumes "full_refresh_inv old w" "full_refresh_write_chunk e b w = (r, w')"
  shows "full_refresh_inv old w' \<and> (\<forall>fail. r = Inl fail \<longrightarrow> wx_committed_chunks fail = 0 \<and> wx_transience fail = Terminal)"
  using assms write_parquet_other [of e "fr_staging_path w" _ b "fr_fs w" _ _ "fr_destination_path w"]
  by (auto simp: full_refresh_write_chunk_def full_refresh_inv_def destination_dir_def write_failure_from_def
      split: prod.splits sum.splits)

lemma full_refresh_drop_dest:
  "full_refresh_inv old w \<Longrightarrow> destination_dir (full_refresh_drop w) = old"
  by (auto simp: full_refresh_drop_def full_refresh_inv_def destination_dir_def)

interpretation pq_refresh: staged_session
  "full_refresh_write_chunk e" full_refresh_abandon full_refresh_drop "full_refresh_inv old" "changed_from old"
  for e old
proof (unfold_locales, goal_cases)
  case (1 s b)
  then show ?case using full_refresh_write_step [of old s e b] by (metis prod.collapse)
next
  case (2 s b fail s')
  then show ?case using full_refresh_write_step [of old s e b] by (auto simp: changed_from_def full_refresh_inv_def)
next
  case (3 s)
  then show ?case
    using full_refresh_drop_dest [of old s] by (auto simp: full_refresh_abandon_def changed_from_def full_refresh_inv_def)
next
  case (4 s)
  then show ?case using full_refresh_drop_dest [of old s] by (auto simp: changed_from_def full_refresh_inv_def)
next
  case (5 s b s')
  then show ?case using full_refresh_write_step [of old s e b] by (auto simp: changed_from_def full_refresh_inv_def)
qed

subsection \<open>What a committed refresh leaves\<close>

text \<open>The directory whose part files are the chunks in order.\<close>

definition parts_of :: "record_batch list \<Rightarrow> record_batch directory" where
  "parts_of batches = map_of (zip (map part_file [0..<length batches]) (map Complete batches))"

definition staged :: "record_batch list \<Rightarrow> full_refresh_world \<Rightarrow> bool" where
  "staged batches w \<longleftrightarrow> fr_staging_path w \<noteq> fr_destination_path w \<and> fr_parts w = length batches
     \<and> fs_dirs (fr_fs w) (fr_staging_path w) = Some (parts_of batches)"

lemma part_file_inject [simp]: "part_file m = part_file n \<longleftrightarrow> m = n"
proof
  assume "part_file m = part_file n"
  then have "replicate (5 - length (show_nat m)) (CHR ''0'') @ show_nat m
      = replicate (5 - length (show_nat n)) (CHR ''0'') @ show_nat n"
    by (simp add: part_file_def flip: append_assoc)
  moreover have "digits_value (replicate k (CHR ''0'') @ s) = digits_value s" for k s
    by (induction k) (simp_all add: digits_value_Cons digit_value_def byte_def)
  ultimately show "m = n" by (metis digits_value_show_nat)
qed simp

lemma inj_part_file: "inj part_file" by (simp add: inj_def)

lemma parts_of_snoc: "parts_of (batches @ [b]) = (parts_of batches)(part_file (length batches) \<mapsto> Complete b)"
proof -
  have "part_file (length batches) \<notin> dom (parts_of batches)"
    by (auto simp: parts_of_def)
  then have "[part_file (length batches) \<mapsto> Complete b] ++ parts_of batches
      = parts_of batches ++ [part_file (length batches) \<mapsto> Complete b]"
    by (intro map_add_comm) auto
  then show ?thesis by (simp add: parts_of_def)
qed

lemma full_refresh_write_staged:
  assumes "staged batches w" "full_refresh_write_chunk e b w = (Inr (), w')"
  shows "staged (batches @ [b]) w'"
proof -
  obtain n f where w: "write_parquet_batch e (fr_staging_path w) (part_file (fr_parts w)) b (fr_fs w) = (Inr n, f)"
    using assms(2) by (auto simp: full_refresh_write_chunk_def split: prod.splits sum.splits)
  with assms show ?thesis
    using write_parquet_effect [OF _ w]
    by (fastforce simp: staged_def full_refresh_write_chunk_def parts_of_snoc)
qed

lemma terminal_unit:
  assumes "\<And>fail w. fst (f w) = Inl fail \<Longrightarrow> wx_transience fail = Terminal"
  shows "run_unit policy unt f st = (Inr v, st') \<Longrightarrow> f (us_world st) = (Inr v, us_world st')"
  using assms [of "us_world st"] unfolding run_unit_def
  by (subst (asm) run_unit_from.simps) (auto split: prod.splits sum.splits)

lemma full_refresh_terminal:
  "fst (full_refresh_write_chunk e b w) = Inl fail \<Longrightarrow> wx_transience fail = Terminal"
  by (auto simp: full_refresh_write_chunk_def write_failure_from_def split: prod.splits sum.splits)

lemma serial_staged_parts:
  assumes "run_serial_from policy (full_refresh_ops e) n chunks st = (Inr outcome, st')" "staged batches (us_world st)"
  shows "\<exists>st'' bs. chunks = map Inr bs \<and> staged (batches @ bs) (us_world st'')
    \<and> (Inr outcome, st') = commit_session (full_refresh_ops e) (n + length chunks) st''"
  using assms
proof (induction chunks arbitrary: n st batches)
  case Nil
  then show ?case by auto
next
  case (Cons c chunks)
  then obtain b where b: "c = Inr b"
    by (cases c) (auto simp: case_prod_unfold Let_def)
  obtain u st1 where u: "run_unit policy (Unit_Write_Chunk n) (full_refresh_write_chunk e b) st = (u, st1)" by fastforce
  with Cons.prems(1) b have ok: "u = Inr ()" and
    rest: "run_serial_from policy (full_refresh_ops e) (n + 1) chunks st1 = (Inr outcome, st')"
    by (auto simp: full_refresh_ops_def split: sum.splits)
  have "full_refresh_write_chunk e b (us_world st) = (Inr (), us_world st1)"
    using terminal_unit [of "full_refresh_write_chunk e b"] full_refresh_terminal u ok by blast
  from Cons.IH [OF rest full_refresh_write_staged [OF Cons.prems(2) this]] obtain st'' bs where
    "chunks = map Inr bs" "staged ((batches @ [b]) @ bs) (us_world st'')"
    "(Inr outcome, st') = commit_session (full_refresh_ops e) (n + 1 + length chunks) st''" by blast
  then show ?case using b by (intro exI [of _ st''] exI [of _ "b # bs"]) simp
qed

lemma full_refresh_commit_replaces:
  assumes "staged batches w" "full_refresh_commit w = (Inr write, w')"
  shows "destination_dir w' = Some (parts_of batches) \<and> fs_dirs (fr_fs w') (fr_staging_path w) = None"
proof -
  obtain r1 f1 where 1: "remove_path_if_exists (fr_destination_path w) (fr_fs w) = (r1, f1)" by fastforce
  obtain r2 f2 where 2: "fs_rename_dir (fr_staging_path w) (fr_destination_path w) f1 = (r2, f2)" by fastforce
  have ok: "is_ok r1" "is_ok r2" "w' = full_refresh_drop (w\<lparr>fr_fs := f2, fr_committed := True\<rparr>)"
    using assms(2) 1 2 by (auto simp: full_refresh_commit_def split: sum.splits)
  have "fs_dirs f1 (fr_staging_path w) = Some (parts_of batches)"
    using remove_path_effect [OF 1, of "fr_staging_path w"] assms(1) by (simp add: staged_def)
  then show ?thesis
    using rename_dir_effect [OF 2] ok assms(1) by (simp add: staged_def destination_dir_def full_refresh_drop_def)
qed

lemma staging_path_other:
  assumes "path_file_name p \<noteq> []"
  shows "staging_path_of p t \<noteq> p \<and> path_parent p \<noteq> p \<and> staging_path_of p t \<noteq> path_parent p"
proof -
  let ?dir = "rev (dropWhile (\<lambda>c. c \<noteq> CHR ''/'') (rev p))"
  have "rev p = takeWhile (\<lambda>c. c \<noteq> CHR ''/'') (rev p) @ dropWhile (\<lambda>c. c \<noteq> CHR ''/'') (rev p)" by simp
  then have "length p = length (takeWhile (\<lambda>c. c \<noteq> CHR ''/'') (rev p)) + length (dropWhile (\<lambda>c. c \<noteq> CHR ''/'') (rev p))"
    by (metis length_append length_rev)
  then have p: "length p = length ?dir + length (path_file_name p)"
    using assms by (simp add: path_file_name_def path_last_def split: if_splits)
  have parent: "length ?dir \<le> length (path_parent p) + 1" "length (path_parent p) \<le> length ?dir"
    by (auto simp: path_parent_def Let_def)
  have join: "length a + length b \<le> length (path_join a b)" for a b by (simp add: path_join_def)
  have "length (path_parent p) + length (path_file_name p) + 2 \<le> length (staging_path_of p t)"
    using join [of "path_parent p" "''.'' @ path_file_name p @ ''.data-spark-staging-'' @ t"] assms
    by (simp add: staging_path_of_def)
  then have "length p < length (staging_path_of p t)" "length (path_parent p) < length p"
    "length (path_parent p) < length (staging_path_of p t)"
    using p parent assms by (auto simp: length_greater_0_conv [symmetric] simp del: length_greater_0_conv)
  then show ?thesis by auto
qed

lemma full_refresh_begin_staged:
  assumes "full_refresh_begin w = (r, w')" "path_file_name (fr_destination_path w) \<noteq> []"
  shows "destination_dir w' = destination_dir w \<and> (is_ok r \<longrightarrow> staged [] w' \<and> full_refresh_inv (destination_dir w) w')"
proof -
  let ?d = "fr_destination_path w"
  let ?s = "staging_path_of ?d (fr_token w (fr_next w))"
  note other = staging_path_other [OF assms(2), of "fr_token w (fr_next w)"]
  obtain r1 f1 where 1: "fs_create_dir_all (path_parent ?d) (fr_fs w) = (r1, f1)" by fastforce
  obtain r2 f2 where 2: "remove_path_if_exists ?s f1 = (r2, f2)" by fastforce
  obtain r3 f3 where 3: "fs_create_dir_all ?s f2 = (r3, f3)" by fastforce
  have d: "fs_dirs f1 ?d = fs_dirs (fr_fs w) ?d" "fs_dirs f2 ?d = fs_dirs f1 ?d" "fs_dirs f3 ?d = fs_dirs f2 ?d"
    using other create_dir_all_effect [OF 1, of ?d] remove_path_effect [OF 2, of ?d] create_dir_all_effect [OF 3, of ?d]
    by auto
  have "is_ok r2 \<Longrightarrow> is_ok r3 \<Longrightarrow> fs_dirs f3 ?s = Some Map.empty"
    using remove_path_effect [OF 2] 3 by (auto simp: fs_create_dir_all_def tick_eq split: prod.splits option.splits)
  then show ?thesis
    using assms(1) 1 2 3 d other
    by (auto simp: full_refresh_begin_def destination_dir_def staged_def full_refresh_inv_def parts_of_def Let_def
        split: sum.splits)
qed

lemma serial_full_refresh:
  assumes opened: "full_refresh_begin w = (Inr (), us_world st)" and name: "path_file_name (fr_destination_path w) \<noteq> []"
    and run: "run_serial_write_phase policy (full_refresh_ops encoded_size) chunks st = (r, st')"
  shows "case r of
      Inr outcome \<Rightarrow> \<exists>batches. chunks = map Inr batches \<and> destination_dir (us_world st') = Some (parts_of batches)
    | Inl (In_Session fail) \<Rightarrow> wx_committed_chunks fail = 0
        \<and> (destination_dir (us_world st') = destination_dir w \<or> list_all is_ok chunks)
    | Inl (Before_Session fail) \<Rightarrow> False"
proof -
  let ?old = "destination_dir w" and ?D = "full_refresh_ops encoded_size"
  have b: "staged [] (us_world st)" "full_refresh_inv ?old (us_world st)"
    using full_refresh_begin_staged [OF opened name] by (simp_all add: is_ok_def)
  have run': "run_serial_from policy ?D 0 chunks st = (r, st')" using run by (simp add: run_serial_write_phase_def)
  show ?thesis
  proof (cases r)
    case (Inr outcome)
    obtain st'' bs where "chunks = map Inr bs" "staged bs (us_world st'')"
      "(Inr outcome, st') = commit_session ?D (length chunks) st''"
      using serial_staged_parts [OF run' [unfolded Inr] b(1)] by auto
    then show ?thesis
      using full_refresh_commit_replaces [of bs "us_world st''"] Inr
      by (auto simp: commit_session_def full_refresh_ops_def split: prod.splits sum.splits)
  next
    case (Inl fail)
    have v: "changed_from ?old (us_world st) = 0" using b(2) by (simp add: changed_from_def full_refresh_inv_def)
    consider f where "r = Inl (In_Session f)" "wx_committed_chunks f = 0" "changed_from ?old (us_world st') = 0"
      | st'' where "list_all is_ok chunks" "(r, st') = commit_session ?D (0 + length chunks) st''"
      using pq_refresh.serial_staged [OF _ _ _ b(2) run', of encoded_size] v
      by (auto simp: full_refresh_ops_def)
    then show ?thesis
    proof cases
      case 1
      then show ?thesis by (auto simp: changed_from_def split: if_splits)
    next
      case 2
      then show ?thesis
        using Inl by (auto simp: commit_session_def full_refresh_ops_def full_refresh_commit_def
            write_failure_best_effort_def split: prod.splits sum.splits)
    qed
  qed
qed

end
