(* ===== verification/Utf8.thy ===== *)
theory Utf8
  imports Std_Text
begin

section \<open>\<open>str::from_utf8\<close> and \<open>String::from_utf8_lossy\<close>\<close>

text \<open>
  What \<open>jsonl_line_record\<close> of \<open>src/connector.rs\<close> uses of Rust's UTF-8 validation: the
  index of the first invalid byte, the length of the invalid sequence (none when the text ends
  inside a sequence), and the lossy decoding that puts U+FFFD for each invalid sequence. These
  are the model's account of the standard library.
\<close>

definition is_continuation :: "char \<Rightarrow> bool" where
  "is_continuation c \<longleftrightarrow> 128 \<le> byte c \<and> byte c < 192"

text \<open>The number of bytes a first byte announces; 0 for a byte that starts no character.\<close>

definition utf8_width :: "char \<Rightarrow> nat" where
  "utf8_width c =
     (let n = byte c in
      if n < 128 then 1 else if n < 194 then 0 else if n < 224 then 2 else if n < 240 then 3
      else if n < 245 then 4 else 0)"

text \<open>The second bytes allowed after a first byte.\<close>

definition second_ok :: "char \<Rightarrow> char \<Rightarrow> bool" where
  "second_ok first second \<longleftrightarrow>
     (if byte first = 224 then 160 \<le> byte second \<and> byte second < 192
      else if byte first = 237 then 128 \<le> byte second \<and> byte second < 160
      else if byte first = 240 then 144 \<le> byte second \<and> byte second < 192
      else if byte first = 244 then 128 \<le> byte second \<and> byte second < 144
      else is_continuation second)"

text \<open>
  One step at the start of a text: a character of some bytes, an invalid sequence of some
  bytes, or a text that ends inside a character.
\<close>

datatype utf8_step = Utf8_Char nat | Utf8_Bad nat | Utf8_Incomplete

definition utf8_step :: "string \<Rightarrow> utf8_step" where
  "utf8_step s =
     (let first = hd s; w = utf8_width first in
      if w = 0 then Utf8_Bad 1
      else if w = 1 then Utf8_Char 1
      else if length s < 2 then Utf8_Incomplete
      else if \<not> second_ok first (s ! 1) then Utf8_Bad 1
      else if w = 2 then Utf8_Char 2
      else if length s < 3 then Utf8_Incomplete
      else if \<not> is_continuation (s ! 2) then Utf8_Bad 2
      else if w = 3 then Utf8_Char 3
      else if length s < 4 then Utf8_Incomplete
      else if \<not> is_continuation (s ! 3) then Utf8_Bad 3
      else Utf8_Char 4)"

lemma utf8_step_pos:
  "utf8_step s = Utf8_Char n \<Longrightarrow> 0 < n" "utf8_step s = Utf8_Bad n \<Longrightarrow> 0 < n"
  by (auto simp: utf8_step_def Let_def split: if_splits)

text \<open>\<open>Utf8Error\<close>: \<open>valid_up_to\<close> and \<open>error_len\<close>.\<close>

record utf8_error =
  ue_valid_up_to :: nat
  ue_error_len :: "nat option"

function from_utf8_at :: "nat \<Rightarrow> string \<Rightarrow> (utf8_error, unit) result" where
  "from_utf8_at i s =
     (if s = [] then Inr ()
      else (case utf8_step s of
          Utf8_Char n \<Rightarrow> from_utf8_at (i + n) (drop n s)
        | Utf8_Bad n \<Rightarrow> Inl \<lparr>ue_valid_up_to = i, ue_error_len = Some n\<rparr>
        | Utf8_Incomplete \<Rightarrow> Inl \<lparr>ue_valid_up_to = i, ue_error_len = None\<rparr>))"
  by pat_completeness auto
termination
  by (relation "measure (\<lambda>(i, s). length s)") (auto dest: utf8_step_pos)

declare from_utf8_at.simps [simp del]

definition from_utf8 :: "string \<Rightarrow> (utf8_error, string) result" where
  "from_utf8 s = rmap (\<lambda>_. s) (from_utf8_at 0 s)"

text \<open>The \<open>Display\<close> of a \<open>Utf8Error\<close>.\<close>

definition utf8_error_text :: "utf8_error \<Rightarrow> string" where
  "utf8_error_text e =
     (case ue_error_len e of
        Some n \<Rightarrow> ''invalid utf-8 sequence of '' @ show_nat n @ '' bytes from index '' @ show_nat (ue_valid_up_to e)
      | None \<Rightarrow> ''incomplete utf-8 byte sequence from index '' @ show_nat (ue_valid_up_to e))"

definition replacement_character :: string where
  "replacement_character = [char_of (239 :: nat), char_of (191 :: nat), char_of (189 :: nat)]"

function from_utf8_lossy :: "string \<Rightarrow> string" where
  "from_utf8_lossy s =
     (if s = [] then []
      else (case utf8_step s of
          Utf8_Char n \<Rightarrow> take n s @ from_utf8_lossy (drop n s)
        | Utf8_Bad n \<Rightarrow> replacement_character @ from_utf8_lossy (drop n s)
        | Utf8_Incomplete \<Rightarrow> replacement_character))"
  by pat_completeness auto
termination
  by (relation "measure length") (auto dest: utf8_step_pos)

declare from_utf8_lossy.simps [simp del]

definition valid_utf8 :: "string \<Rightarrow> bool" where
  "valid_utf8 s \<longleftrightarrow> is_ok (from_utf8_at 0 s)"

subsection \<open>Facts\<close>

lemma from_utf8_at_ok_iff: "is_ok (from_utf8_at i s) \<longleftrightarrow> valid_utf8 s"
proof -
  have "is_ok (from_utf8_at i s) = is_ok (from_utf8_at j s)" for j
  proof (induction i s arbitrary: j rule: from_utf8_at.induct)
    case (1 i s)
    show ?case
    proof (cases "s = []")
      case True
      then show ?thesis by (simp add: from_utf8_at.simps)
    next
      case False
      then show ?thesis
        using 1 [OF False, of _ "j + _"]
        by (subst (1 2) from_utf8_at.simps) (auto split: utf8_step.splits)
    qed
  qed
  then show ?thesis by (simp add: valid_utf8_def)
qed

lemma valid_utf8_Nil [simp]: "valid_utf8 []"
  by (simp add: valid_utf8_def from_utf8_at.simps)

lemma valid_utf8_step:
  "s \<noteq> [] \<Longrightarrow> valid_utf8 s \<longleftrightarrow> (\<exists>n. utf8_step s = Utf8_Char n \<and> valid_utf8 (drop n s))"
  by (subst valid_utf8_def, subst from_utf8_at.simps)
    (auto simp: from_utf8_at_ok_iff split: utf8_step.splits)

lemma from_utf8_Inr_iff: "from_utf8 s = Inr t \<longleftrightarrow> valid_utf8 s \<and> t = s"
  by (auto simp: from_utf8_def valid_utf8_def is_ok_iff rmap_eq_Inr_iff)

lemma from_utf8_cases:
  obtains "valid_utf8 s" "from_utf8 s = Inr s" | e where "\<not> valid_utf8 s" "from_utf8 s = Inl e"
  by (cases "from_utf8 s") (use from_utf8_Inr_iff [of s] in auto)

text \<open>A text of ASCII bytes is valid, and what the lossy decoding gives for a valid text is the text.\<close>

lemma valid_utf8_ascii_Cons: "byte c < 128 \<Longrightarrow> valid_utf8 (c # s) \<longleftrightarrow> valid_utf8 s"
  by (subst valid_utf8_step) (simp_all add: utf8_step_def utf8_width_def Let_def)

lemma valid_utf8_ascii: "\<forall>c\<in>set s. byte c < 128 \<Longrightarrow> valid_utf8 s"
  by (induction s) (auto simp: valid_utf8_ascii_Cons)

lemma from_utf8_lossy_valid: "valid_utf8 s \<Longrightarrow> from_utf8_lossy s = s"
proof (induction s rule: from_utf8_lossy.induct)
  case (1 s)
  then show ?case
    by (cases "s = []") (auto simp: from_utf8_lossy.simps [of s] from_utf8_lossy.simps [of "[]"] valid_utf8_step)
qed

lemma utf8_step_length: "s \<noteq> [] \<Longrightarrow> utf8_step s = Utf8_Char n \<Longrightarrow> n \<le> length s"
  by (cases s) (auto simp: utf8_step_def Let_def Suc_le_eq split: if_splits)

lemma utf8_step_append: "s \<noteq> [] \<Longrightarrow> utf8_step s = Utf8_Char n \<Longrightarrow> utf8_step (s @ t) = Utf8_Char n"
  by (cases s) (auto simp: utf8_step_def Let_def nth_append split: if_splits)

lemma utf8_step_take:
  assumes "s \<noteq> []" "utf8_step s = Utf8_Char n"
  shows "utf8_step (take n s) = Utf8_Char n"
  using assms utf8_step_length [OF assms]
  by (cases s) (auto simp: utf8_step_def Let_def nth_append hd_take min_def split: if_splits)

lemma valid_utf8_append: "valid_utf8 s \<Longrightarrow> valid_utf8 (s @ t) \<longleftrightarrow> valid_utf8 t"
proof (induction s rule: from_utf8_lossy.induct)
  case (1 s)
  show ?case
  proof (cases "s = []")
    case False
    then obtain n where n: "utf8_step s = Utf8_Char n" "valid_utf8 (drop n s)"
      using 1 valid_utf8_step by blast
    then show ?thesis
      using 1 False utf8_step_append [OF False n(1), of t] utf8_step_length [OF False n(1)]
      by (simp add: valid_utf8_step [of "s @ t"])
  qed simp
qed

lemma valid_utf8_char: "s \<noteq> [] \<Longrightarrow> utf8_step s = Utf8_Char n \<Longrightarrow> valid_utf8 (take n s)"
  using utf8_step_take [of s n] utf8_step_length [of s n] utf8_step_pos(1) [of s n]
  by (subst valid_utf8_step) (auto simp: take_eq_Nil)

lemma valid_replacement_character: "valid_utf8 replacement_character"
  by code_simp

text \<open>The lossy decoding always gives a valid text.\<close>

lemma from_utf8_lossy_is_valid: "valid_utf8 (from_utf8_lossy s)"
proof (induction s rule: from_utf8_lossy.induct)
  case (1 s)
  then show ?case
    by (subst from_utf8_lossy.simps)
      (auto simp: valid_utf8_append valid_utf8_char valid_replacement_character split: utf8_step.split)
qed

section \<open>Lines of a buffered reader\<close>

text \<open>
  \<open>BufRead::read_until(b'\n')\<close> on what is left of a stream: the bytes up to and with the
  first newline, or all of them; and what \<open>BufRead::lines\<close> strips from such a line.
\<close>

definition newline :: char where
  "newline = char_of (10 :: nat)"

definition carriage_return :: char where
  "carriage_return = char_of (13 :: nat)"

fun take_line :: "string \<Rightarrow> string \<times> string" where
  "take_line [] = ([], [])"
| "take_line (c # s) =
     (if c = newline then ([c], s) else (let (line, rest) = take_line s in (c # line, rest)))"

definition strip_last :: "char \<Rightarrow> string \<Rightarrow> string" where
  "strip_last c s = (if s \<noteq> [] \<and> last s = c then butlast s else s)"

definition strip_line_end :: "string \<Rightarrow> string" where
  "strip_line_end line =
     (if line \<noteq> [] \<and> last line = newline then strip_last carriage_return (butlast line) else line)"

lemma take_line_append: "fst (take_line s) @ snd (take_line s) = s"
  by (induction s) (auto simp: case_prod_unfold Let_def)

lemma take_line_nonempty: "s \<noteq> [] \<Longrightarrow> fst (take_line s) \<noteq> []"
  by (cases s) (auto simp: case_prod_unfold Let_def)

lemma take_line_shorter: "s \<noteq> [] \<Longrightarrow> take_line s = (line, rest) \<Longrightarrow> length rest < length s"
  using arg_cong [OF take_line_append [of s], of length] take_line_nonempty [of s]
  by (cases line) simp_all

lemma take_line_newline: "newline \<notin> set t \<Longrightarrow> take_line (t @ newline # s) = (t @ [newline], s)"
  by (induction t) auto

lemma take_line_last: "newline \<notin> set t \<Longrightarrow> take_line t = (t, [])"
  by (induction t) auto

lemma strip_line_end_newline:
  "t = [] \<or> last t \<noteq> carriage_return \<Longrightarrow> strip_line_end (t @ [newline]) = t"
  by (auto simp: strip_line_end_def strip_last_def)

end
