(* ===== verification/Text_Files.thy ===== *)
theory Text_Files
  imports Utf8
begin

section \<open>Text files and their failures\<close>

text \<open>
  The files under the rejected-record artifact of \<open>src/rejection.rs\<close>. A file is its bytes, and
  bytes a \<open>BufWriter\<close> accepted count as written; whether an operation fails is an oracle's
  choice, and a write or a flush that fails leaves any prefix of the file, as a second oracle
  says. What \<open>std::fs\<close> and \<open>std::io\<close> do is the model's account of the standard library.
\<close>

record text_fs =
  tf_files :: "string \<rightharpoonup> string"
  tf_fault :: "nat \<Rightarrow> string option"
  tf_kept :: "nat \<Rightarrow> nat"
  tf_clock :: nat

type_synonym 'a io = "text_fs \<Rightarrow> (string, 'a) result \<times> text_fs"

definition io_bind :: "'a io \<Rightarrow> ('a \<Rightarrow> 'b io) \<Rightarrow> 'b io" where
  "io_bind m k f = (case m f of (Inl e, f') \<Rightarrow> (Inl e, f') | (Inr x, f') \<Rightarrow> k x f')"

definition io_return :: "'a \<Rightarrow> 'a io" where
  "io_return x f = (Inr x, f)"

definition tf_set :: "string \<Rightarrow> string option \<Rightarrow> text_fs \<Rightarrow> text_fs" where
  "tf_set path content f = f\<lparr>tf_files := (tf_files f)(path := content)\<rparr>"

definition tf_next :: "text_fs \<Rightarrow> text_fs" where
  "tf_next f = f\<lparr>tf_clock := tf_clock f + 1\<rparr>"

text \<open>An operation that the oracle may fail, leaving \<open>on_error\<close> of the files.\<close>

definition tf_try :: "(text_fs \<Rightarrow> text_fs) \<Rightarrow> 'a io \<Rightarrow> 'a io" where
  "tf_try on_error act f =
     (case tf_fault f (tf_clock f) of
        Some e \<Rightarrow> (Inl e, tf_next (on_error f)) | None \<Rightarrow> act (tf_next f))"

text \<open>\<open>OpenOptions::new().create(true).append(true).open\<close> and \<open>File::create\<close>.\<close>

definition tf_open_append :: "string \<Rightarrow> unit io" where
  "tf_open_append path = tf_try id (\<lambda>f. (Inr (), case tf_files f path of
     None \<Rightarrow> tf_set path (Some []) f | Some _ \<Rightarrow> f))"

definition tf_create :: "string \<Rightarrow> unit io" where
  "tf_create path = tf_try id (\<lambda>f. (Inr (), tf_set path (Some []) f))"

definition tf_keep :: "string \<Rightarrow> string \<Rightarrow> text_fs \<Rightarrow> text_fs" where
  "tf_keep path bytes f = (case tf_files f path of
     None \<Rightarrow> f | Some old \<Rightarrow> tf_set path (Some (take (tf_kept f (tf_clock f)) (old @ bytes))) f)"

text \<open>\<open>write_all\<close> and \<open>flush\<close> of a writer at the end of the file at \<open>path\<close>.\<close>

definition tf_write :: "string \<Rightarrow> string \<Rightarrow> unit io" where
  "tf_write path bytes = tf_try (tf_keep path bytes) (\<lambda>f. (Inr (), case tf_files f path of
     None \<Rightarrow> f | Some old \<Rightarrow> tf_set path (Some (old @ bytes)) f))"

definition tf_flush :: "string \<Rightarrow> unit io" where
  "tf_flush path = tf_try (tf_keep path []) (\<lambda>f. (Inr (), f))"

text \<open>\<open>File::open\<close>: a file that does not exist is told apart from other errors.\<close>

definition tf_open :: "string \<Rightarrow> string option io" where
  "tf_open path = tf_try id (\<lambda>f. (Inr (tf_files f path), f))"

definition not_found :: string where
  "not_found = ''No such file or directory (os error 2)''"

definition tf_open_existing :: "string \<Rightarrow> string io" where
  "tf_open_existing path = io_bind (tf_open path) (\<lambda>content f. (ok_or content not_found, f))"

definition tf_remove :: "string \<Rightarrow> unit io" where
  "tf_remove path = tf_try id (\<lambda>f. case tf_files f path of
     None \<Rightarrow> (Inl not_found, f) | Some _ \<Rightarrow> (Inr (), tf_set path None f))"

definition tf_rename :: "string \<Rightarrow> string \<Rightarrow> unit io" where
  "tf_rename from_path to_path = tf_try id (\<lambda>f. case tf_files f from_path of
     None \<Rightarrow> (Inl not_found, f)
   | Some content \<Rightarrow> (Inr (), tf_set to_path (Some content) (tf_set from_path None f)))"

text \<open>\<open>io::Lines::next\<close> on what is left of a file that was opened for reading.\<close>

definition tf_next_line :: "string \<Rightarrow> (string option \<times> string) io" where
  "tf_next_line rest = tf_try id (\<lambda>f.
     if rest = [] then (Inr (None, []), f)
     else let (line, rest') = take_line rest in
       if valid_utf8 line then (Inr (Some (strip_line_end line), rest'), f)
       else (Inl ''stream did not contain valid UTF-8'', f))"

text \<open>
  \<open>fs::read_to_string\<close>, where \<open>None\<close> is the \<open>NotFound\<close> of the open; \<open>fs::create_dir_all\<close>, which
  changes no file; \<open>fs::write\<close>.
\<close>

definition tf_read_to_string :: "string \<Rightarrow> string option io" where
  "tf_read_to_string path = io_bind (tf_open path) (\<lambda>content. case content of
     None \<Rightarrow> io_return None
   | Some bytes \<Rightarrow> tf_try id (\<lambda>f.
       if valid_utf8 bytes then (Inr (Some bytes), f) else (Inl ''stream did not contain valid UTF-8'', f)))"

definition tf_create_dir_all :: "string \<Rightarrow> unit io" where
  "tf_create_dir_all path = tf_try id (\<lambda>f. (Inr (), f))"

definition tf_write_file :: "string \<Rightarrow> string \<Rightarrow> unit io" where
  "tf_write_file path bytes = io_bind (tf_create path) (\<lambda>_. tf_write path bytes)"

subsection \<open>What an operation that did not fail has done\<close>

lemma io_bind_Inr:
  "io_bind m k f = (Inr y, f'') \<longleftrightarrow> (\<exists>x f'. m f = (Inr x, f') \<and> k x f' = (Inr y, f''))"
  by (auto simp: io_bind_def split: prod.splits sum.splits)

lemma tf_next_sel [simp]: "tf_files (tf_next f) = tf_files f"
  by (simp add: tf_next_def)

lemma tf_set_files [simp]: "tf_files (tf_set path c f) = (tf_files f)(path := c)"
  by (simp add: tf_set_def)

lemma tf_try_Inr:
  "tf_try g act f = (Inr x, f') \<longleftrightarrow> tf_fault f (tf_clock f) = None \<and> act (tf_next f) = (Inr x, f')"
  by (simp add: tf_try_def split: option.split)

lemma tf_open_append_files:
  "tf_open_append path f = (Inr u, f') \<Longrightarrow>
   tf_files f' = (tf_files f)(path := Some (case tf_files f path of None \<Rightarrow> [] | Some old \<Rightarrow> old))"
  by (auto simp: tf_open_append_def tf_try_Inr split: option.splits)

lemma tf_create_files: "tf_create path f = (Inr u, f') \<Longrightarrow> tf_files f' = (tf_files f)(path := Some [])"
  by (auto simp: tf_create_def tf_try_Inr)

lemma tf_write_files:
  "tf_write path bytes f = (Inr u, f') \<Longrightarrow> tf_files f path = Some old \<Longrightarrow>
   tf_files f' = (tf_files f)(path := Some (old @ bytes))"
  by (auto simp: tf_write_def tf_try_Inr)

lemma tf_flush_files: "tf_flush path f = (Inr u, f') \<Longrightarrow> tf_files f' = tf_files f"
  by (auto simp: tf_flush_def tf_try_Inr)

lemma tf_open_Inr: "tf_open path f = (Inr c, f') \<Longrightarrow> c = tf_files f path \<and> tf_files f' = tf_files f"
  by (auto simp: tf_open_def tf_try_Inr)

lemma tf_open_existing_Inr:
  "tf_open_existing path f = (Inr c, f') \<Longrightarrow> tf_files f path = Some c \<and> tf_files f' = tf_files f"
  by (auto simp: tf_open_existing_def io_bind_Inr ok_or_def split: option.splits dest!: tf_open_Inr)

lemma tf_read_to_string_files: "tf_files (snd (tf_read_to_string path f)) = tf_files f"
  by (auto simp: tf_read_to_string_def tf_open_def tf_try_def io_bind_def io_return_def tf_next_def split: option.splits)

lemma tf_create_dir_all_files: "tf_files (snd (tf_create_dir_all path f)) = tf_files f"
  by (simp add: tf_create_dir_all_def tf_try_def split: option.split)

lemma tf_write_file_files:
  "tf_write_file path bytes f = (Inr u, f') \<Longrightarrow> tf_files f' = (tf_files f)(path := Some bytes)"
  by (auto simp: tf_write_file_def io_bind_Inr dest!: tf_create_files tf_write_files)

lemma tf_write_file_other: "p \<noteq> path \<Longrightarrow> tf_files (snd (tf_write_file path bytes f)) p = tf_files f p"
  by (simp add: tf_write_file_def tf_create_def tf_write_def tf_try_def tf_keep_def io_bind_def split: option.split)

lemma tf_remove_files:
  "tf_remove path f = (Inr u, f') \<Longrightarrow> tf_files f' = (tf_files f)(path := None)"
  by (auto simp: tf_remove_def tf_try_Inr split: option.splits)

lemma tf_remove_other: "p \<noteq> path \<Longrightarrow> tf_files (snd (tf_remove path f)) p = tf_files f p"
  by (simp add: tf_remove_def tf_try_def split: option.split)

lemma tf_rename_files:
  "tf_rename a b f = (Inr u, f') \<Longrightarrow>
   tf_files f a \<noteq> None \<and> tf_files f' = (tf_files f)(a := None, b := tf_files f a)"
  by (auto simp: tf_rename_def tf_try_Inr split: option.splits)

lemma tf_next_line_Inr:
  "tf_next_line rest f = (Inr (r, rest'), f') \<Longrightarrow> tf_files f' = tf_files f \<and>
     (if rest = [] then r = None \<and> rest' = []
      else rest' = snd (take_line rest) \<and> r = Some (strip_line_end (fst (take_line rest))))"
  by (auto simp: tf_next_line_def tf_try_Inr split: if_splits prod.splits)

lemma tf_next_line_shorter:
  "tf_next_line rest f = (Inr (Some line, rest'), f') \<Longrightarrow> length rest' < length rest"
  using tf_next_line_Inr [of rest f "Some line" rest' f'] take_line_shorter [of rest]
  by (cases "take_line rest") (auto split: if_splits)

text \<open>
  The text a sequence of lines is written as, and the lines a reader gets back from it: those
  that hold no newline and do not end in a carriage return.
\<close>

definition lines_text :: "string list \<Rightarrow> string" where
  "lines_text ls = concat (map (\<lambda>l. l @ [newline]) ls)"

definition line_safe :: "string \<Rightarrow> bool" where
  "line_safe l \<longleftrightarrow> newline \<notin> set l \<and> (l = [] \<or> last l \<noteq> carriage_return)"

lemma lines_text_simps [simp]:
  "lines_text [] = []" "lines_text (l # ls) = l @ newline # lines_text ls"
  "lines_text (ls @ ms) = lines_text ls @ lines_text ms"
  by (simp_all add: lines_text_def)

lemma lines_text_Nil_iff [simp]: "lines_text ls = [] \<longleftrightarrow> ls = []"
  by (cases ls) simp_all

lemma tf_next_line_text:
  assumes "line_safe l" "tf_next_line (l @ newline # s) f = (Inr r, f')"
  shows "r = (Some l, s) \<and> tf_files f' = tf_files f"
  using assms tf_next_line_Inr [of "l @ newline # s" f "fst r" "snd r" f'] take_line_newline [of l s]
  by (cases r) (simp add: line_safe_def strip_line_end_newline)

end
