(* ===== verification/Rejection.thy ===== *)
theory Rejection
  imports Text_Files File_System Load_Types
begin

section \<open>The rejected-record artifact\<close>

text \<open>
  \<open>src/rejection.rs\<close>, lines 64 to 384: the artifact line, the sink that streams rejections
  into the artifact, the spill of rejections that await the verdict, and the merge of the spill
  into the artifact. The JSON text library is a parameter: how a value prints, and what a text
  parses to.
\<close>

record json_text =
  jt_print :: "json \<Rightarrow> string"
  jt_parse :: "string \<Rightarrow> (string, json) result"

definition REJECTED_RECORDS_FILENAME :: string where
  "REJECTED_RECORDS_FILENAME = ''rejected-records.jsonl''"

definition artifact_value :: "json_text \<Rightarrow> rejected_record \<Rightarrow> json" where
  "artifact_value T rejected = JObj
     [(''line'', json_nat (rj_line rejected)),
      (''code'', JStr (rj_code rejected)),
      (''field'', json_opt JStr (rj_field rejected)),
      (''source_field'', json_opt JStr (rj_source_field rejected)),
      (''message'', JStr (render_msg (jt_print T) (rj_message rejected))),
      (''record'', rj_record rejected)]"

definition artifact_line :: "json_text \<Rightarrow> rejected_record \<Rightarrow> string" where
  "artifact_line T rejected = jt_print T (artifact_value T rejected)"

subsection \<open>The sink\<close>

record rejection_sink =
  sk_artifact_path :: string
  sk_spill_path :: string
  sk_writer :: bool
  sk_count :: nat
  sk_lines :: "nat list"
  sk_io_error :: "string option"

definition sink_new :: "string \<Rightarrow> rejection_sink" where
  "sink_new artifact_dir =
     \<lparr>sk_artifact_path = path_join artifact_dir REJECTED_RECORDS_FILENAME,
      sk_spill_path = path_join artifact_dir ''.rejected-records.spill'',
      sk_writer = False, sk_count = 0, sk_lines = [], sk_io_error = None\<rparr>"

text \<open>
  The writer of a path, opened on its first line, and one line through it. The result says
  whether the writer is open now, also when the line failed.
\<close>

definition write_through ::
  "unit io \<Rightarrow> string \<Rightarrow> bool \<Rightarrow> string \<Rightarrow> text_fs \<Rightarrow> (string, unit) result \<times> bool \<times> text_fs" where
  "write_through open_writer path opened line f =
     (case (if opened then (Inr (), f) else open_writer f) of
        (Inl e, f) \<Rightarrow> (Inl e, opened, f)
      | (Inr _, f) \<Rightarrow>
          (case io_bind (tf_write path line) (\<lambda>_. tf_write path [newline]) f of (r, f) \<Rightarrow> (r, True, f)))"

definition sink_write_line :: "string \<Rightarrow> rejection_sink \<Rightarrow> text_fs \<Rightarrow> (string, unit) result \<times> rejection_sink \<times> text_fs" where
  "sink_write_line line self f =
     (case write_through (tf_open_append (sk_artifact_path self)) (sk_artifact_path self) (sk_writer self) line f of
        (r, opened, f) \<Rightarrow> (r, self\<lparr>sk_writer := opened\<rparr>, f))"

definition sink_record :: "json_text \<Rightarrow> rejected_record \<Rightarrow> rejection_sink \<Rightarrow> text_fs \<Rightarrow> rejection_sink \<times> text_fs" where
  "sink_record T rejected self f =
     (let self = self\<lparr>sk_count := sk_count self + 1, sk_lines := sk_lines self @ [rj_line rejected]\<rparr> in
      if sk_io_error self \<noteq> None then (self, f)
      else (case sink_write_line (artifact_line T rejected) self f of
          (Inl error, self, f) \<Rightarrow> (self\<lparr>sk_io_error := Some error\<rparr>, f)
        | (Inr _, self, f) \<Rightarrow> (self, f)))"

subsection \<open>The spill\<close>

record validation_spill =
  vs_path :: string
  vs_writer :: bool
  vs_entries :: nat
  vs_io_error :: "string option"

definition sink_spill :: "rejection_sink \<Rightarrow> validation_spill" where
  "sink_spill self = \<lparr>vs_path = sk_spill_path self, vs_writer = False, vs_entries = 0, vs_io_error = None\<rparr>"

definition spill_value :: "nat \<Rightarrow> json_object \<Rightarrow> json" where
  "spill_value line object = JObj [(''line'', json_nat line), (''record'', JObj object)]"

definition spill_write_entry ::
  "json_text \<Rightarrow> nat \<Rightarrow> json_object \<Rightarrow> validation_spill \<Rightarrow> text_fs \<Rightarrow> (string, unit) result \<times> validation_spill \<times> text_fs" where
  "spill_write_entry T line object self f =
     (case write_through (tf_create (vs_path self)) (vs_path self) (vs_writer self) (jt_print T (spill_value line object)) f of
        (r, opened, f) \<Rightarrow> (r, self\<lparr>vs_writer := opened\<rparr>, f))"

definition spill_record ::
  "json_text \<Rightarrow> nat \<Rightarrow> json_object \<Rightarrow> validation_spill \<Rightarrow> text_fs \<Rightarrow> validation_spill \<times> text_fs" where
  "spill_record T line object self f =
     (let self = self\<lparr>vs_entries := vs_entries self + 1\<rparr> in
      if vs_io_error self \<noteq> None then (self, f)
      else (case spill_write_entry T line object self f of
          (Inl error, self, f) \<Rightarrow> (self\<lparr>vs_io_error := Some error\<rparr>, f)
        | (Inr _, self, f) \<Rightarrow> (self, f)))"

text \<open>Taking the writer and flushing it: an error is kept unless an earlier one is there.\<close>

definition close_writer :: "string \<Rightarrow> bool \<Rightarrow> string option \<Rightarrow> text_fs \<Rightarrow> string option \<times> text_fs" where
  "close_writer path opened io_error f =
     (if opened then
        (case tf_flush path f of
           (Inl error, f) \<Rightarrow> ((if io_error = None then Some error else io_error), f)
         | (Inr _, f) \<Rightarrow> (io_error, f))
      else (io_error, f))"

definition spill_finish :: "validation_spill \<Rightarrow> text_fs \<Rightarrow> string option \<times> text_fs" where
  "spill_finish self f = close_writer (vs_path self) (vs_writer self) (vs_io_error self) f"

definition spill_discard :: "validation_spill \<Rightarrow> rejection_sink \<Rightarrow> text_fs \<Rightarrow> rejection_sink \<times> text_fs" where
  "spill_discard self sink f =
     (let (error, f) = spill_finish self f;
          sink = (if sk_io_error sink = None then sink\<lparr>sk_io_error := error\<rparr> else sink)
      in (sink, snd (tf_remove (vs_path self) f)))"

text \<open>\<open>take_io_error\<close> flushes the artifact and hands out the first error.\<close>

definition take_io_error :: "rejection_sink \<Rightarrow> text_fs \<Rightarrow> string option \<times> rejection_sink \<times> text_fs" where
  "take_io_error self f =
     (case close_writer (sk_artifact_path self) (sk_writer self) (sk_io_error self) f of
        (error, f) \<Rightarrow> (error, self\<lparr>sk_writer := False, sk_io_error := None\<rparr>, f))"

subsection \<open>The merge\<close>

text \<open>
  A failure inside the merge is an I/O error, or the panic of indexing an object by a key it
  does not have.
\<close>

datatype merge_fault = Io_Error string | Panicked

definition lift_io :: "(string, 'a) result \<Rightarrow> (merge_fault, 'a) result" where
  "lift_io r = map_err Io_Error r"

definition json_as_u64 :: "json \<Rightarrow> nat option" where
  "json_as_u64 value = (case value of JNum n \<Rightarrow> map_option nat (as_u64 n) | _ \<Rightarrow> None)"

text \<open>\<open>value["line"].as_u64()\<close> of a line that parses; indexing a value that has no such key is null.\<close>

definition artifact_line_number :: "json_text \<Rightarrow> string \<Rightarrow> nat option" where
  "artifact_line_number T line = (case jt_parse T line of
     Inl _ \<Rightarrow> None
   | Inr value \<Rightarrow> (case json_get value ''line'' of None \<Rightarrow> None | Some v \<Rightarrow> json_as_u64 v))"

definition next_artifact_line ::
  "json_text \<Rightarrow> string option \<Rightarrow> ((nat \<times> string) option \<times> string option) io" where
  "next_artifact_line T lines = (case lines of
     None \<Rightarrow> io_return (None, None)
   | Some rest \<Rightarrow> io_bind (tf_next_line rest) (\<lambda>(entry, rest') f.
       case entry of None \<Rightarrow> (Inr (None, Some rest'), f)
       | Some entry \<Rightarrow>
           (case artifact_line_number T entry of
              Some line \<Rightarrow> (Inr (Some (line, entry), Some rest'), f)
            | None \<Rightarrow> (Inl ''rejected-records artifact line without a line number'', f))))"

definition spill_invalid :: string where
  "spill_invalid = ''rejected-records spill line without a line number and record''"

text \<open>One spill line taken apart; the first entry of the key \<open>record\<close> is the one removed.\<close>

definition parse_spill_entry :: "json_text \<Rightarrow> string \<Rightarrow> (merge_fault, nat \<times> json_object) result" where
  "parse_spill_entry T text = (case jt_parse T text of
     Inr (JObj entry) \<Rightarrow>
       (case obj_get entry ''line'' of
          None \<Rightarrow> Inl Panicked
        | Some value \<Rightarrow>
            (case json_as_u64 value of
               None \<Rightarrow> Inl (Io_Error spill_invalid)
             | Some line \<Rightarrow>
                 (case obj_get entry ''record'' of
                    Some (JObj object) \<Rightarrow> Inr (line, object)
                  | _ \<Rightarrow> Inl (Io_Error spill_invalid))))
   | _ \<Rightarrow> Inl (Io_Error spill_invalid))"

type_synonym render = "nat \<Rightarrow> json_object \<Rightarrow> rejected_record option"

function next_spill_rejection ::
  "json_text \<Rightarrow> render \<Rightarrow> string \<Rightarrow> text_fs \<Rightarrow> (merge_fault, rejected_record option \<times> string) result \<times> text_fs" where
  "next_spill_rejection T render rest f =
     (case tf_next_line rest f of
        (Inl e, f) \<Rightarrow> (Inl (Io_Error e), f)
      | (Inr (None, rest'), f) \<Rightarrow> (Inr (None, rest'), f)
      | (Inr (Some text, rest'), f) \<Rightarrow>
          (case parse_spill_entry T text of
             Inl fault \<Rightarrow> (Inl fault, f)
           | Inr (line, object) \<Rightarrow>
               (case render line object of
                  Some rejection \<Rightarrow> (Inr (Some rejection, rest'), f)
                | None \<Rightarrow> next_spill_rejection T render rest' f)))"
  by pat_completeness auto
termination
  by (relation "measure (\<lambda>(T, render, rest, f). length rest)") (auto dest: tf_next_line_shorter [OF sym])

declare next_spill_rejection.simps [simp del]

lemma next_spill_rejection_shorter:
  "next_spill_rejection T render rest f = (Inr (Some rejection, rest'), f') \<Longrightarrow> length rest' < length rest"
proof (induction T render rest f rule: next_spill_rejection.induct)
  case (1 T render rest f)
  from 1(2) obtain entry rest1 f1 line object where
    n: "tf_next_line rest f = (Inr (Some entry, rest1), f1)" "parse_spill_entry T entry = Inr (line, object)"
      "case render line object of
         Some rj \<Rightarrow> rj = rejection \<and> rest1 = rest' \<and> f1 = f'
       | None \<Rightarrow> next_spill_rejection T render rest1 f1 = (Inr (Some rejection, rest'), f')"
    by (subst (asm) next_spill_rejection.simps) (fastforce split: prod.splits sum.splits option.splits)
  have "length rest1 < length rest" by (rule tf_next_line_shorter [OF n(1)])
  with n(3) 1(1) [OF n(1) [symmetric] refl refl refl n(2) refl] show ?case
    by (cases "render line object") auto
qed

text \<open>
  The loop of the merge: what is next on either side, what is left of either file, and the
  lines merged so far with their count. The artifact's side goes first on equal lines.
\<close>

definition artifact_turn :: "(nat \<times> string) option \<Rightarrow> rejected_record option \<Rightarrow> bool option" where
  "artifact_turn next_artifact next_spill = (case (next_artifact, next_spill) of
     (None, None) \<Rightarrow> None
   | (Some _, None) \<Rightarrow> Some True
   | (None, Some _) \<Rightarrow> Some False
   | (Some (line, _), Some rejection) \<Rightarrow> Some (line \<le> rj_line rejection))"

type_synonym artifact_side = "(nat \<times> string) option \<times> string option"
type_synonym spill_side = "rejected_record option \<times> string"

definition write_merged :: "string \<Rightarrow> string \<Rightarrow> unit io" where
  "write_merged path text = io_bind (tf_write path text) (\<lambda>_. tf_write path [newline])"

function merge_loop ::
  "json_text \<Rightarrow> render \<Rightarrow> string \<Rightarrow> artifact_side \<Rightarrow> spill_side \<Rightarrow> nat list \<Rightarrow> nat \<Rightarrow> text_fs
   \<Rightarrow> (merge_fault, nat list \<times> nat) result \<times> text_fs" where
  "merge_loop T render path (next_artifact, artifact) (next_spill, spill) merged_lines merged_count f =
     (case artifact_turn next_artifact next_spill of
        None \<Rightarrow> (Inr (merged_lines, merged_count), f)
      | Some True \<Rightarrow>
          (case next_artifact_line T artifact f of
             (Inl e, f) \<Rightarrow> (Inl (Io_Error e), f)
           | (Inr side, f) \<Rightarrow>
               let (line, text) = the next_artifact in
               (case write_merged path text f of
                  (Inl e, f) \<Rightarrow> (Inl (Io_Error e), f)
                | (Inr _, f) \<Rightarrow> merge_loop T render path side (next_spill, spill) (merged_lines @ [line]) (merged_count + 1) f))
      | Some False \<Rightarrow>
          (case next_spill_rejection T render spill f of
             (Inl fault, f) \<Rightarrow> (Inl fault, f)
           | (Inr side, f) \<Rightarrow>
               let rejection = the next_spill in
               (case write_merged path (artifact_line T rejection) f of
                  (Inl e, f) \<Rightarrow> (Inl (Io_Error e), f)
                | (Inr _, f) \<Rightarrow> merge_loop T render path (next_artifact, artifact) side
                    (merged_lines @ [rj_line rejection]) (merged_count + 1) f)))"
  by pat_completeness auto

definition side_size :: "'a option \<Rightarrow> string option \<Rightarrow> nat" where
  "side_size item rest = (case item of None \<Rightarrow> 0
     | Some _ \<Rightarrow> Suc (case rest of None \<Rightarrow> 0 | Some s \<Rightarrow> length s))"

lemma next_artifact_line_cases:
  assumes "next_artifact_line T lines f = (Inr (item, lines'), f')"
  obtains "lines = None" "item = None" "lines' = None" "f' = f"
  | rest rest' where "lines = Some rest" "lines' = Some rest'" "item = None" "tf_next_line rest f = (Inr (None, rest'), f')"
  | rest rest' entry line where "lines = Some rest" "lines' = Some rest'" "item = Some (line, entry)"
      "tf_next_line rest f = (Inr (Some entry, rest'), f')" "artifact_line_number T entry = Some line"
proof (cases lines)
  case None
  then show ?thesis using assms that(1) by (simp add: next_artifact_line_def io_return_def)
next
  case (Some rest)
  then obtain entry rest' f1 where n: "tf_next_line rest f = (Inr (entry, rest'), f1)"
    using assms by (auto simp: next_artifact_line_def io_bind_Inr)
  show ?thesis
  proof (cases entry)
    case None
    then show ?thesis using assms n Some that(2) [of rest rest'] by (auto simp: next_artifact_line_def io_bind_def)
  next
    case (Some e)
    then show ?thesis
      using assms n \<open>lines = Some rest\<close> that(3) [of rest rest' "the (artifact_line_number T e)" e]
      by (cases "artifact_line_number T e") (auto simp: next_artifact_line_def io_bind_def)
  qed
qed

lemma next_artifact_line_size:
  "(Inr (item, lines'), f') = next_artifact_line T lines f \<Longrightarrow> side_size item lines' < Suc (case lines of None \<Rightarrow> 0 | Some s \<Rightarrow> length s)"
  by (drule sym, erule next_artifact_line_cases)
    (auto simp: side_size_def dest: tf_next_line_shorter)

lemma next_spill_size:
  "(Inr (item, rest'), f') = next_spill_rejection T render rest f \<Longrightarrow> side_size item (Some rest') < Suc (length rest)"
  by (cases item) (auto simp: side_size_def dest!: sym [of _ "next_spill_rejection T render rest f"]
      dest: next_spill_rejection_shorter)

termination merge_loop
proof (relation "measure (\<lambda>(T, render, path, (na, a), (ns, s), ls, c, f). side_size na a + side_size ns (Some s))")
qed (auto simp: artifact_turn_def side_size_def split: option.splits if_splits
      dest!: next_artifact_line_size next_spill_size)

declare merge_loop.simps [simp del]

text \<open>\<open>merge_spill_file\<close>: both files opened and their first items read, then the loop and the flush.\<close>

definition lift_fault :: "(string, 'a) result \<times> text_fs \<Rightarrow> (merge_fault, 'a) result \<times> text_fs" where
  "lift_fault = apfst (map_err Io_Error)"

definition open_and_merge ::
  "json_text \<Rightarrow> render \<Rightarrow> string \<Rightarrow> string \<Rightarrow> string \<Rightarrow> text_fs \<Rightarrow> (merge_fault, nat list \<times> nat) result \<times> text_fs" where
  "open_and_merge T render merged_path artifact_path spill_path f =
     (case io_bind (tf_create merged_path) (\<lambda>_. io_bind (tf_open artifact_path) (\<lambda>artifact.
             io_bind (tf_open_existing spill_path) (\<lambda>spill.
             io_bind (next_artifact_line T artifact) (\<lambda>side. io_return (side, spill))))) f of
        (Inl e, f) \<Rightarrow> (Inl (Io_Error e), f)
      | (Inr (side, spill), f) \<Rightarrow>
          (case next_spill_rejection T render spill f of
             (Inl fault, f) \<Rightarrow> (Inl fault, f)
           | (Inr spill_side, f) \<Rightarrow>
               (case merge_loop T render merged_path side spill_side [] 0 f of
                  (Inl fault, f) \<Rightarrow> (Inl fault, f)
                | (Inr merged, f) \<Rightarrow> lift_fault (io_bind (tf_flush merged_path) (\<lambda>_. io_return merged) f))))"

definition replace_artifact :: "string \<Rightarrow> string \<Rightarrow> nat \<Rightarrow> unit io" where
  "replace_artifact merged_path artifact_path merged_count =
     (if merged_count = 0 then
        io_bind (tf_remove merged_path) (\<lambda>_ f.
          if tf_files f artifact_path \<noteq> None then tf_remove artifact_path f else (Inr (), f))
      else tf_rename merged_path artifact_path)"

definition merged_path :: "rejection_sink \<Rightarrow> string" where
  "merged_path self = path_join (path_parent (sk_artifact_path self)) ''.rejected-records.merged''"

definition merge_spill_file ::
  "json_text \<Rightarrow> render \<Rightarrow> rejection_sink \<Rightarrow> text_fs \<Rightarrow> (merge_fault, unit) result \<times> rejection_sink \<times> text_fs" where
  "merge_spill_file T render self f =
     (case (if sk_writer self then lift_fault (tf_flush (sk_artifact_path self) f) else (Inr (), f)) of
        (Inl fault, f) \<Rightarrow> (Inl fault, self\<lparr>sk_writer := False\<rparr>, f)
      | (Inr _, f) \<Rightarrow>
          let self = self\<lparr>sk_writer := False\<rparr> in
          (case open_and_merge T render (merged_path self) (sk_artifact_path self) (sk_spill_path self) f of
             (Inl fault, f) \<Rightarrow> (Inl fault, self, f)
           | (Inr (merged_lines, merged_count), f) \<Rightarrow>
               (case lift_fault (replace_artifact (merged_path self) (sk_artifact_path self) merged_count f) of
                  (Inl fault, f) \<Rightarrow> (Inl fault, self, f)
                | (Inr _, f) \<Rightarrow> (Inr (), self\<lparr>sk_lines := merged_lines, sk_count := merged_count\<rparr>, f))))"

text \<open>No value stands for the panic of the merge, which unwinds the load.\<close>

definition merge_spill ::
  "json_text \<Rightarrow> render \<Rightarrow> validation_spill \<Rightarrow> rejection_sink \<Rightarrow> text_fs \<Rightarrow> (rejection_sink \<times> text_fs) option" where
  "merge_spill T render spill self f =
     (let (spill_error, f) = spill_finish spill f;
          self = (if sk_io_error self = None then self\<lparr>sk_io_error := spill_error\<rparr> else self)
      in if sk_io_error self \<noteq> None \<or> vs_entries spill = 0
         then Some (self, snd (tf_remove (sk_spill_path self) f))
         else (case merge_spill_file T render self f of
             (Inl Panicked, self, f) \<Rightarrow> None
           | (Inl (Io_Error error), self, f) \<Rightarrow>
               Some (self\<lparr>sk_io_error := Some error\<rparr>,
                     snd (tf_remove (sk_spill_path self) (snd (tf_remove (merged_path self) f))))
           | (Inr _, self, f) \<Rightarrow> Some (self, snd (tf_remove (sk_spill_path self) f))))"

end
