(* ===== verification/Rejection_Facts.thy ===== *)
theory Rejection_Facts
  imports Rejection "HOL-Library.Multiset"
begin

section \<open>What the rejected-record artifact holds\<close>

text \<open>
  The contents of the artifact after a run of the sink of \<open>src/rejection.rs\<close> that surrenders
  no I/O error, whatever operations could have failed: the rejections in source-line order, one
  line each, also when spilled rejections were merged in.
\<close>

subsection \<open>Texts that read back\<close>

text \<open>
  What the code relies on of a JSON text: a printed value holds no line break and parses back.
\<close>

definition text_ok :: "json_text \<Rightarrow> json \<Rightarrow> bool" where
  "text_ok T v \<longleftrightarrow> line_safe (jt_print T v) \<and> jt_parse T (jt_print T v) = Inr v"

definition spill_text :: "json_text \<Rightarrow> nat \<times> json_object \<Rightarrow> string" where
  "spill_text T e = jt_print T (spill_value (fst e) (snd e))"

definition rejection_text_ok :: "json_text \<Rightarrow> rejected_record \<Rightarrow> bool" where
  "rejection_text_ok T r \<longleftrightarrow> rj_line r < 2 ^ 64 \<and> text_ok T (artifact_value T r)"

definition spill_text_ok :: "json_text \<Rightarrow> nat \<times> json_object \<Rightarrow> bool" where
  "spill_text_ok T e \<longleftrightarrow> fst e < 2 ^ 64 \<and> text_ok T (spill_value (fst e) (snd e))"

lemma json_as_u64_json_nat: "n < 2 ^ 64 \<Longrightarrow> json_as_u64 (json_nat n) = Some n"
  by (simp add: json_as_u64_def json_nat_def as_u64_json_nat del: as_u64.simps)

lemma artifact_line_reads_back:
  "rejection_text_ok T r \<Longrightarrow> line_safe (artifact_line T r) \<and> artifact_line_number T (artifact_line T r) = Some (rj_line r)"
  by (simp add: rejection_text_ok_def text_ok_def artifact_line_def artifact_line_number_def
      artifact_value_def obj_get_def json_as_u64_json_nat)

lemma spill_text_reads_back:
  "spill_text_ok T e \<Longrightarrow> line_safe (spill_text T e) \<and> parse_spill_entry T (spill_text T e) = Inr e"
  by (cases e) (simp add: spill_text_ok_def text_ok_def spill_text_def parse_spill_entry_def
      spill_value_def obj_get_def json_as_u64_json_nat)

subsection \<open>The two sides of the merge\<close>

definition artifact_text :: "json_text \<Rightarrow> rejected_record list \<Rightarrow> string" where
  "artifact_text T rs = lines_text (map (artifact_line T) rs)"

definition spill_file_text :: "json_text \<Rightarrow> (nat \<times> json_object) list \<Rightarrow> string" where
  "spill_file_text T es = lines_text (map (spill_text T) es)"

definition rendered :: "render \<Rightarrow> (nat \<times> json_object) list \<Rightarrow> rejected_record list" where
  "rendered render es = List.map_filter (\<lambda>e. render (fst e) (snd e)) es"

definition holds_artifact :: "json_text \<Rightarrow> artifact_side \<Rightarrow> rejected_record list \<Rightarrow> bool" where
  "holds_artifact T side ps \<longleftrightarrow> (case ps of
     [] \<Rightarrow> fst side = None
   | p # ps' \<Rightarrow> side = (Some (rj_line p, artifact_line T p), Some (artifact_text T ps')))"

definition holds_spill :: "json_text \<Rightarrow> render \<Rightarrow> spill_side \<Rightarrow> rejected_record list \<Rightarrow> bool" where
  "holds_spill T render side rs \<longleftrightarrow> (case rs of
     [] \<Rightarrow> fst side = None
   | r # rs' \<Rightarrow> fst side = Some r \<and> (\<exists>es. snd side = spill_file_text T es
       \<and> (\<forall>e\<in>set es. spill_text_ok T e) \<and> rs' = rendered render es))"

lemma rendered_simps [simp]:
  "rendered render [] = []"
  "rendered render (e # es) = (case render (fst e) (snd e) of Some r \<Rightarrow> r # rendered render es | None \<Rightarrow> rendered render es)"
  by (simp_all add: rendered_def map_filter_simps split: option.split)

lemma text_simps [simp]:
  "artifact_text T [] = []" "artifact_text T (r # rs) = artifact_line T r @ newline # artifact_text T rs"
  "artifact_text T (rs @ qs) = artifact_text T rs @ artifact_text T qs"
  "spill_file_text T [] = []" "spill_file_text T (e # es) = spill_text T e @ newline # spill_file_text T es"
  "spill_file_text T (es @ ds) = spill_file_text T es @ spill_file_text T ds"
  by (simp_all add: artifact_text_def spill_file_text_def)

lemma next_artifact_holds:
  assumes ok: "\<forall>p\<in>set ps. rejection_text_ok T p"
    and n: "next_artifact_line T (Some (artifact_text T ps)) f = (Inr side, f')"
  shows "holds_artifact T side ps \<and> tf_files f' = tf_files f"
proof (cases ps)
  case Nil
  obtain item lines' where side: "side = (item, lines')" by fastforce
  from n show ?thesis
    unfolding side Nil
    by (rule next_artifact_line_cases) (auto simp: holds_artifact_def dest: tf_next_line_Inr)
next
  case (Cons p ps')
  then have r: "line_safe (artifact_line T p)" "artifact_line_number T (artifact_line T p) = Some (rj_line p)"
    using ok artifact_line_reads_back by auto
  obtain x f1 where x: "tf_next_line (artifact_text T ps) f = (Inr x, f1)"
    using n by (auto simp: next_artifact_line_def io_bind_Inr)
  then have "x = (Some (artifact_line T p), artifact_text T ps') \<and> tf_files f1 = tf_files f"
    using tf_next_line_text [OF r(1)] Cons by simp
  then show ?thesis
    using n x r(2) Cons by (auto simp: next_artifact_line_def io_bind_def holds_artifact_def)
qed

lemma next_spill_holds:
  "\<forall>e\<in>set es. spill_text_ok T e \<Longrightarrow> next_spill_rejection T render (spill_file_text T es) f = (Inr side, f') \<Longrightarrow>
   holds_spill T render side (rendered render es) \<and> tf_files f' = tf_files f"
proof (induction es arbitrary: f)
  case Nil
  then obtain x f1 where x: "tf_next_line [] f = (Inr x, f1)"
    by (subst (asm) next_spill_rejection.simps) (auto split: prod.splits sum.splits)
  then have "x = (None, []) \<and> tf_files f1 = tf_files f"
    using tf_next_line_Inr [of "[]" f "fst x" "snd x" f1] by (cases x) simp
  then show ?case
    using Nil x by (subst (asm) next_spill_rejection.simps) (auto simp: holds_spill_def)
next
  case (Cons e es)
  then have r: "line_safe (spill_text T e)" "parse_spill_entry T (spill_text T e) = Inr e"
    using spill_text_reads_back by auto
  obtain x f1 where x: "tf_next_line (spill_file_text T (e # es)) f = (Inr x, f1)"
    using Cons.prems(2) by (subst (asm) next_spill_rejection.simps) (auto split: prod.splits sum.splits)
  then have xe: "x = (Some (spill_text T e), spill_file_text T es)" and f1: "tf_files f1 = tf_files f"
    using tf_next_line_text [OF r(1)] by auto
  show ?case
  proof (cases "render (fst e) (snd e)")
    case None
    then have "next_spill_rejection T render (spill_file_text T es) f1 = (Inr side, f')"
      using Cons.prems(2) x xe r(2) by (subst (asm) next_spill_rejection.simps) (cases e, simp)
    then show ?thesis using Cons None f1 by auto
  next
    case (Some rj)
    then show ?thesis
      using Cons.prems x xe f1 r(2)
      by (subst (asm) next_spill_rejection.simps) (cases e, auto simp: holds_spill_def)
  qed
qed

text \<open>The merge of two lists of rejections by line, the first list winning ties.\<close>

fun merge_rejections :: "rejected_record list \<Rightarrow> rejected_record list \<Rightarrow> rejected_record list" where
  "merge_rejections [] rs = rs"
| "merge_rejections ps [] = ps"
| "merge_rejections (p # ps) (r # rs) =
     (if rj_line p \<le> rj_line r then p # merge_rejections ps (r # rs) else r # merge_rejections (p # ps) rs)"

lemma merge_rejections_Nil [simp]: "merge_rejections ps [] = ps"
  by (cases ps) simp_all

lemma mset_merge_rejections: "mset (merge_rejections ps rs) = mset ps + mset rs"
  by (induction ps rs rule: merge_rejections.induct) auto

lemma set_merge_rejections [simp]: "set (merge_rejections ps rs) = set ps \<union> set rs"
  using mset_merge_rejections [of ps rs] by (metis set_mset_mset set_mset_union)

lemma sorted_merge_rejections:
  "sorted (map rj_line ps) \<Longrightarrow> sorted (map rj_line rs) \<Longrightarrow> sorted (map rj_line (merge_rejections ps rs))"
  by (induction ps rs rule: merge_rejections.induct) auto

subsection \<open>The merge\<close>

lemma write_merged_files:
  "write_merged path l f = (Inr u, f') \<Longrightarrow> tf_files f path = Some old \<Longrightarrow>
   tf_files f' = (tf_files f)(path := Some (old @ l @ [newline]))"
  by (auto simp: write_merged_def io_bind_Inr dest!: tf_write_files)

lemma holds_Nil [simp]:
  "holds_artifact T side [] \<longleftrightarrow> fst side = None" "holds_spill T render side' [] \<longleftrightarrow> fst side' = None"
  by (simp_all add: holds_artifact_def holds_spill_def)

lemma merge_step_artifact:
  assumes "merge_loop T render path side sside ls n f = (Inr res, f')" "holds_artifact T side (p # ps)"
    "artifact_turn (fst side) (fst sside) = Some True" "\<forall>p\<in>set ps. rejection_text_ok T p"
    "tf_files f path = Some old"
  shows "\<exists>side' f1. holds_artifact T side' ps
    \<and> merge_loop T render path side' sside (ls @ [rj_line p]) (n + 1) f1 = (Inr res, f')
    \<and> tf_files f1 = (tf_files f)(path := Some (old @ artifact_line T p @ [newline]))"
proof -
  obtain ns sp where ss: "sside = (ns, sp)" by fastforce
  have side: "side = (Some (rj_line p, artifact_line T p), Some (artifact_text T ps))"
    using assms(2) by (simp add: holds_artifact_def)
  have turn: "artifact_turn (Some (rj_line p, artifact_line T p)) ns = Some True"
    using assms(3) side ss by simp
  obtain side' f2 where a: "next_artifact_line T (Some (artifact_text T ps)) f = (Inr side', f2)"
    using assms(1) unfolding side ss
    by (subst (asm) merge_loop.simps) (auto simp: turn split: prod.splits sum.splits)
  obtain f1 where w: "write_merged path (artifact_line T p) f2 = (Inr (), f1)"
    using assms(1) unfolding side ss
    by (subst (asm) merge_loop.simps) (auto simp: turn a split: prod.splits sum.splits)
  have h: "holds_artifact T side' ps" "tf_files f2 = tf_files f"
    using next_artifact_holds [OF assms(4) a] by auto
  have "merge_loop T render path side' sside (ls @ [rj_line p]) (n + 1) f1 = (Inr res, f')"
    using assms(1) unfolding side ss
    by (subst (asm) merge_loop.simps) (simp add: turn a w)
  then show ?thesis
    using h write_merged_files [OF w] assms(5) by (metis (no_types))
qed

lemma merge_step_spill:
  assumes "merge_loop T render path side sside ls n f = (Inr res, f')" "holds_spill T render sside (r # rs)"
    "artifact_turn (fst side) (fst sside) = Some False" "tf_files f path = Some old"
  shows "\<exists>sside' f1. holds_spill T render sside' rs
    \<and> merge_loop T render path side sside' (ls @ [rj_line r]) (n + 1) f1 = (Inr res, f')
    \<and> tf_files f1 = (tf_files f)(path := Some (old @ artifact_line T r @ [newline]))"
proof -
  obtain na ar where s: "side = (na, ar)" by fastforce
  obtain es where ss: "sside = (Some r, spill_file_text T es)" and es: "\<forall>e\<in>set es. spill_text_ok T e"
    and rs: "rs = rendered render es"
    using assms(2) by (cases sside) (auto simp: holds_spill_def)
  have turn: "artifact_turn na (Some r) = Some False"
    using assms(3) s ss by simp
  obtain sside' f2 where a: "next_spill_rejection T render (spill_file_text T es) f = (Inr sside', f2)"
    using assms(1) unfolding s ss
    by (subst (asm) merge_loop.simps) (auto simp: turn split: prod.splits sum.splits)
  obtain f1 where w: "write_merged path (artifact_line T r) f2 = (Inr (), f1)"
    using assms(1) unfolding s ss
    by (subst (asm) merge_loop.simps) (auto simp: turn a split: prod.splits sum.splits)
  have h: "holds_spill T render sside' rs" "tf_files f2 = tf_files f"
    using next_spill_holds [OF es a] rs by auto
  have "merge_loop T render path side sside' (ls @ [rj_line r]) (n + 1) f1 = (Inr res, f')"
    using assms(1) unfolding s ss
    by (subst (asm) merge_loop.simps) (simp add: turn a w)
  then show ?thesis
    using h write_merged_files [OF w] assms(4) by (metis (no_types))
qed

lemma merge_rejections_Cons:
  assumes "merge_rejections ps rs = x # m"
  obtains ps' where "ps = x # ps'" "m = merge_rejections ps' rs" "rs = [] \<or> rj_line x \<le> rj_line (hd rs)"
  | rs' where "rs = x # rs'" "m = merge_rejections ps rs'" "ps = [] \<or> rj_line x < rj_line (hd ps)"
  using assms by (cases "(ps, rs)" rule: merge_rejections.cases) (auto split: if_splits)

lemma merge_rejections_eq_Nil [simp]: "merge_rejections ps rs = [] \<longleftrightarrow> ps = [] \<and> rs = []"
  by (cases "(ps, rs)" rule: merge_rejections.cases) auto

lemma turn_artifact:
  "holds_artifact T side (x # ps) \<Longrightarrow> holds_spill T render sside rs \<Longrightarrow> rs = [] \<or> rj_line x \<le> rj_line (hd rs) \<Longrightarrow>
   artifact_turn (fst side) (fst sside) = Some True"
  by (cases rs) (auto simp: artifact_turn_def holds_artifact_def holds_spill_def)

lemma turn_spill:
  "holds_artifact T side ps \<Longrightarrow> holds_spill T render sside (x # rs) \<Longrightarrow> ps = [] \<or> rj_line x < rj_line (hd ps) \<Longrightarrow>
   artifact_turn (fst side) (fst sside) = Some False"
  by (cases ps) (auto simp: artifact_turn_def holds_artifact_def holds_spill_def)

lemma merge_loop_ok:
  assumes "merge_rejections ps rs = m" "merge_loop T render path side sside ls n f = (Inr res, f')"
    "holds_artifact T side ps" "holds_spill T render sside rs" "\<forall>p\<in>set ps. rejection_text_ok T p"
    "tf_files f path = Some old"
  shows "res = (ls @ map rj_line m, n + length m)
    \<and> tf_files f' = (tf_files f)(path := Some (old @ artifact_text T m))"
  using assms
proof (induction m arbitrary: ps rs side sside ls n f old)
  case Nil
  then have "fst side = None" "fst sside = None" by auto
  then show ?case
    using Nil.prems(2,6)
    by (cases side; cases sside) (auto simp: merge_loop.simps artifact_turn_def fun_upd_idem)
next
  case (Cons x m)
  let ?old = "old @ artifact_line T x @ [newline]"
  obtain ps' rs' side' sside' f1 where
    next': "merge_rejections ps' rs' = m" "\<forall>p\<in>set ps'. rejection_text_ok T p"
      "holds_artifact T side' ps'" "holds_spill T render sside' rs'"
      "merge_loop T render path side' sside' (ls @ [rj_line x]) (n + 1) f1 = (Inr res, f')"
      "tf_files f1 = (tf_files f)(path := Some ?old)"
    using Cons.prems(1)
  proof (cases rule: merge_rejections_Cons)
    case c: (1 ps')
    have ok: "\<forall>p\<in>set ps'. rejection_text_ok T p" using Cons.prems(5) c(1) by simp
    show ?thesis
      using merge_step_artifact [OF Cons.prems(2) Cons.prems(3) [unfolded c(1)]
          turn_artifact [OF Cons.prems(3) [unfolded c(1)] Cons.prems(4) c(3)] ok Cons.prems(6)]
        that [OF c(2) [symmetric] ok] Cons.prems(4) by blast
  next
    case c: (2 rs')
    show ?thesis
      using merge_step_spill [OF Cons.prems(2) Cons.prems(4) [unfolded c(1)]
          turn_spill [OF Cons.prems(3) Cons.prems(4) [unfolded c(1)] c(3)] Cons.prems(6)]
        that [OF c(2) [symmetric] Cons.prems(5) Cons.prems(3)] by blast
  qed
  have "tf_files f1 path = Some ?old" using next'(6) by simp
  from Cons.IH [OF next'(1,5,3,4,2) this] show ?case using next'(6) by (auto simp: fun_eq_iff)
qed

text \<open>A spill the code wrote never makes the merge panic.\<close>

lemma next_spill_no_panic:
  "\<forall>e\<in>set es. spill_text_ok T e \<Longrightarrow> next_spill_rejection T render (spill_file_text T es) f \<noteq> (Inl Panicked, f')"
proof (induction es arbitrary: f)
  case Nil
  then show ?case
    by (subst next_spill_rejection.simps)
      (auto split: prod.splits sum.splits option.splits dest: tf_next_line_Inr)
next
  case (Cons e es)
  then have r: "line_safe (spill_text T e)" "parse_spill_entry T (spill_text T e) = Inr e"
    using spill_text_reads_back by auto
  have "x = (Some (spill_text T e), spill_file_text T es)"
    if "tf_next_line (spill_file_text T (e # es)) f = (Inr x, f1)" for x f1
    using tf_next_line_text [OF r(1)] that by auto
  then show ?case
    using Cons r(2)
    by (subst next_spill_rejection.simps) (auto split: prod.splits sum.splits option.splits)
qed

lemma merge_loop_no_panic:
  "holds_spill T render sside rs \<Longrightarrow> fst (merge_loop T render path side sside ls n f) \<noteq> Inl Panicked"
proof (induction T render path side sside ls n f arbitrary: rs rule: merge_loop.induct)
  case (1 T render path na ar ns sp ls n f)
  consider "artifact_turn na ns = None" | "artifact_turn na ns = Some True" | "artifact_turn na ns = Some False"
    by (cases "artifact_turn na ns") auto
  then show ?case
  proof cases
    case 1
    then show ?thesis by (simp add: merge_loop.simps)
  next
    case turn: 2
    show ?thesis
    proof (cases "next_artifact_line T ar f")
      case a: (Pair a f1)
      obtain line l where nal: "the na = (line, l)" by fastforce
      show ?thesis
      proof (cases a)
        case (Inl e)
        then show ?thesis by (subst merge_loop.simps) (simp add: turn a)
      next
        case (Inr side)
        obtain w f2 where w: "write_merged path l f1 = (w, f2)" by fastforce
        show ?thesis
        proof (cases w)
          case (Inr u)
          have "fst (merge_loop T render path side (ns, sp) (ls @ [line]) (n + 1) f2) \<noteq> Inl Panicked"
            using 1(1) [OF turn _ a [symmetric] \<open>a = Inr side\<close> nal [symmetric] refl w [symmetric] Inr 1(3)] by simp
          then show ?thesis
            using \<open>a = Inr side\<close> Inr by (subst merge_loop.simps) (simp add: turn a nal w)
        qed (use \<open>a = Inr side\<close> in \<open>subst merge_loop.simps, simp add: turn a nal w\<close>)
      qed
    qed
  next
    case turn: 3
    then obtain es where es: "sp = spill_file_text T es" "\<forall>e\<in>set es. spill_text_ok T e"
      using 1(3) by (cases rs) (auto simp: artifact_turn_def holds_spill_def split: option.splits)
    show ?thesis
    proof (cases "next_spill_rejection T render sp f")
      case a: (Pair a f1)
      show ?thesis
      proof (cases a)
        case (Inl fault)
        then have "fault \<noteq> Panicked" using next_spill_no_panic [OF es(2)] a es(1) by auto
        then show ?thesis using Inl by (subst merge_loop.simps) (simp add: turn a)
      next
        case (Inr side)
        then have h: "holds_spill T render side (rendered render es)"
          using next_spill_holds [OF es(2)] a es(1) by simp
        obtain w f2 where w: "write_merged path (artifact_line T (the ns)) f1 = (w, f2)" by fastforce
        show ?thesis
        proof (cases w)
          case (Inr u)
          have "fst (merge_loop T render path (na, ar) side (ls @ [rj_line (the ns)]) (n + 1) f2) \<noteq> Inl Panicked"
            using 1(2) [OF turn _ a [symmetric] \<open>a = Inr side\<close> refl w [symmetric] Inr h] by simp
          then show ?thesis
            using \<open>a = Inr side\<close> Inr by (subst merge_loop.simps) (simp add: turn a w)
        qed (use \<open>a = Inr side\<close> in \<open>subst merge_loop.simps, simp add: turn a w\<close>)
      qed
    qed
  qed
qed

subsection \<open>The sink and the spill hold what they were given\<close>

text \<open>
  What the sink holds of the rejections it was given: their number and lines whatever happened,
  and their artifact lines as long as no operation failed. The spill likewise.
\<close>

definition sink_holds :: "json_text \<Rightarrow> rejection_sink \<Rightarrow> text_fs \<Rightarrow> rejected_record list \<Rightarrow> bool" where
  "sink_holds T self f rs \<longleftrightarrow> sk_count self = length rs \<and> sk_lines self = map rj_line rs
     \<and> (sk_io_error self = None \<longrightarrow> (sk_writer self \<longrightarrow> rs \<noteq> [])
          \<and> tf_files f (sk_artifact_path self) = (if rs = [] then None else Some (artifact_text T rs)))"

definition spill_holds :: "json_text \<Rightarrow> validation_spill \<Rightarrow> text_fs \<Rightarrow> (nat \<times> json_object) list \<Rightarrow> bool" where
  "spill_holds T self f es \<longleftrightarrow> vs_entries self = length es
     \<and> (vs_io_error self = None \<longrightarrow> vs_writer self = (es \<noteq> [])
          \<and> (es \<noteq> [] \<longrightarrow> tf_files f (vs_path self) = Some (spill_file_text T es)))"

definition paths_ok :: "rejection_sink \<Rightarrow> bool" where
  "paths_ok self \<longleftrightarrow> distinct [sk_artifact_path self, sk_spill_path self, merged_path self]"

text \<open>A failing operation changes no file but its own.\<close>

lemma tf_try_other:
  assumes "\<And>f. tf_files (g f) p = tf_files f p" "\<And>f. tf_files (snd (act f)) p = tf_files f p"
  shows "tf_files (snd (tf_try g act f)) p = tf_files f p"
  using assms by (simp add: tf_try_def split: option.split)

lemma tf_other_files:
  assumes "p \<noteq> path"
  shows "tf_files (snd (tf_open_append path f)) p = tf_files f p"
    "tf_files (snd (tf_create path f)) p = tf_files f p"
    "tf_files (snd (tf_write path bytes f)) p = tf_files f p"
    "tf_files (snd (tf_flush path f)) p = tf_files f p"
  unfolding tf_open_append_def tf_create_def tf_write_def tf_flush_def
  using assms by (auto intro!: tf_try_other simp: tf_keep_def split: option.split)

lemma write_through_other:
  assumes "\<And>f. tf_files (snd (opener f)) p = tf_files f p" "p \<noteq> path"
  shows "tf_files (snd (snd (write_through opener path opened l f))) p = tf_files f p"
proof -
  have w: "tf_files g' p = tf_files g p" if "tf_write path bytes g = (r, g')" for bytes g r g'
    using tf_other_files(3) [OF assms(2), of bytes g] that by simp
  have o: "tf_files g' p = tf_files g p" if "opener g = (r, g')" for g r g'
    using assms(1) [of g] that by simp
  show ?thesis
    by (auto simp: write_through_def io_bind_def split: prod.splits sum.splits if_splits dest!: w o)
qed

lemma write_through_ok:
  assumes "write_through opener path opened l f = (Inr u, opened', f')"
    "\<And>u f1. opener f = (Inr u, f1) \<Longrightarrow> \<not> opened \<Longrightarrow> tf_files f1 path = Some old"
    "opened \<Longrightarrow> tf_files f path = Some old"
  shows "opened' \<and> tf_files f' path = Some (old @ l @ [newline])"
proof -
  obtain u f1 where o: "(if opened then (Inr (), f) else opener f) = (Inr u, f1)"
    using assms(1) by (auto simp: write_through_def split: prod.splits sum.splits)
  then have "tf_files f1 path = Some old" using assms(2,3) by (auto split: if_splits)
  moreover obtain v f2 where "tf_write path l f1 = (Inr v, f2)" "tf_write path [newline] f2 = (Inr u, f')" "opened'"
    using assms(1) by (auto simp: write_through_def o io_bind_Inr split: prod.splits)
  ultimately show ?thesis using tf_write_files by fastforce
qed

lemma sink_record_holds:
  assumes "sink_holds T self f rs" "sink_record T r self f = (self', f')"
  shows "sink_holds T self' f' (rs @ [r]) \<and> sk_artifact_path self' = sk_artifact_path self
    \<and> sk_spill_path self' = sk_spill_path self
    \<and> (\<forall>p. p \<noteq> sk_artifact_path self \<longrightarrow> tf_files f' p = tf_files f p)"
proof (cases "sk_io_error self")
  case (Some e)
  then show ?thesis using assms by (auto simp: sink_record_def sink_holds_def)
next
  case None
  let ?P = "sk_artifact_path self"
  obtain x opened f1 where w: "write_through (tf_open_append ?P) ?P (sk_writer self) (artifact_line T r) f = (x, opened, f1)"
    using prod_cases3 by blast
  have other: "tf_files f1 p = tf_files f p" if "p \<noteq> ?P" for p
    using write_through_other [of "tf_open_append ?P" p ?P "sk_writer self" "artifact_line T r" f] w tf_other_files(1) that
    by simp
  show ?thesis
  proof (cases x)
    case (Inl e)
    then show ?thesis
      using assms None w other by (auto simp: sink_record_def sink_write_line_def sink_holds_def)
  next
    case (Inr u)
    have held: "tf_files f ?P = (if rs = [] then None else Some (artifact_text T rs))" "sk_writer self \<longrightarrow> rs \<noteq> []"
      using assms(1) None by (auto simp: sink_holds_def)
    have "opened \<and> tf_files f1 ?P = Some (artifact_text T rs @ artifact_line T r @ [newline])"
    proof (rule write_through_ok [OF w [unfolded Inr]])
      show "tf_files g ?P = Some (artifact_text T rs)" if "tf_open_append ?P f = (Inr v, g)" for v g
        using tf_open_append_files [OF that] held by (cases "rs = []") auto
    qed (use held in auto)
    then show ?thesis
      using assms None w other Inr by (auto simp: sink_record_def sink_write_line_def sink_holds_def)
  qed
qed

lemma spill_record_holds:
  assumes "spill_holds T self f es" "spill_record T l ob self f = (self', f')"
  shows "spill_holds T self' f' (es @ [(l, ob)]) \<and> vs_path self' = vs_path self
    \<and> (\<forall>p. p \<noteq> vs_path self \<longrightarrow> tf_files f' p = tf_files f p)"
proof (cases "vs_io_error self")
  case (Some e)
  then show ?thesis using assms by (auto simp: spill_record_def spill_holds_def)
next
  case None
  let ?P = "vs_path self"
  let ?l = "jt_print T (spill_value l ob)"
  obtain x opened f1 where w: "write_through (tf_create ?P) ?P (vs_writer self) ?l f = (x, opened, f1)"
    using prod_cases3 by blast
  have other: "tf_files f1 p = tf_files f p" if "p \<noteq> ?P" for p
    using write_through_other [of "tf_create ?P" p ?P "vs_writer self" ?l f] w tf_other_files(2) that
    by simp
  show ?thesis
  proof (cases x)
    case (Inl e)
    then show ?thesis
      using assms None w other by (auto simp: spill_record_def spill_write_entry_def spill_holds_def)
  next
    case (Inr u)
    have held: "es \<noteq> [] \<longrightarrow> tf_files f ?P = Some (spill_file_text T es)" "vs_writer self = (es \<noteq> [])"
      using assms(1) None by (auto simp: spill_holds_def)
    have "opened \<and> tf_files f1 ?P = Some (spill_file_text T es @ ?l @ [newline])"
    proof (rule write_through_ok [OF w [unfolded Inr]])
      show "tf_files g ?P = Some (spill_file_text T es)" if "tf_create ?P f = (Inr v, g)" "\<not> vs_writer self" for v g
        using tf_create_files [OF that(1)] held that(2) by auto
    qed (use held in auto)
    then show ?thesis
      using assms None w other Inr
      by (auto simp: spill_record_def spill_write_entry_def spill_holds_def spill_text_def)
  qed
qed

lemma close_writer_files:
  "close_writer path opened None f = (None, f') \<Longrightarrow> tf_files f' = tf_files f"
  by (auto simp: close_writer_def tf_flush_files split: if_splits prod.splits sum.splits)

lemma close_writer_error: "close_writer path opened (Some e) f = (r, f') \<Longrightarrow> r = Some e"
  by (auto simp: close_writer_def split: if_splits prod.splits sum.splits)

lemma lift_fault_Inr [simp]: "lift_fault x = (Inr u, f) \<longleftrightarrow> x = (Inr u, f)"
  by (cases x) (auto simp: lift_fault_def)

lemma open_and_merge_ok:
  assumes "open_and_merge T render merged artifact spill f = (Inr res, f')" "distinct [artifact, spill, merged]"
    "tf_files f artifact = (if ps = [] then None else Some (artifact_text T ps))"
    "tf_files f spill = Some (spill_file_text T es)"
    "\<forall>p\<in>set ps. rejection_text_ok T p" "\<forall>e\<in>set es. spill_text_ok T e"
  shows "res = (map rj_line (merge_rejections ps (rendered render es)), length (merge_rejections ps (rendered render es)))
    \<and> tf_files f' = (tf_files f)(merged := Some (artifact_text T (merge_rejections ps (rendered render es))))"
proof -
  obtain side f1 where s: "io_bind (tf_create merged) (\<lambda>_. io_bind (tf_open artifact) (\<lambda>a.
       io_bind (tf_open_existing spill) (\<lambda>sp. io_bind (next_artifact_line T a) (\<lambda>side. io_return (side, sp))))) f
     = (Inr side, f1)"
    using assms(1) by (auto simp: open_and_merge_def split: prod.splits sum.splits)
  then obtain u g1 a g2 sp g3 aside where g: "tf_create merged f = (Inr u, g1)" "tf_open artifact g1 = (Inr a, g2)"
    "tf_open_existing spill g2 = (Inr sp, g3)" "next_artifact_line T a g3 = (Inr aside, f1)" "side = (aside, sp)"
    unfolding io_bind_Inr io_return_def by auto
  have files: "tf_files g3 = (tf_files f)(merged := Some [])" "sp = spill_file_text T es"
    "a = (if ps = [] then None else Some (artifact_text T ps))"
    using tf_create_files [OF g(1)] tf_open_Inr [OF g(2)] tf_open_existing_Inr [OF g(3)] assms(2,3,4) by auto
  have a: "holds_artifact T aside ps \<and> tf_files f1 = tf_files g3"
  proof (cases "ps = []")
    case True
    then show ?thesis using g(4) files(3) by (auto simp: next_artifact_line_def io_return_def)
  qed (use next_artifact_holds [OF assms(5)] g(4) files(3) in simp)
  obtain sside f2 where sp: "next_spill_rejection T render sp f1 = (Inr sside, f2)"
    using assms(1) unfolding open_and_merge_def s g(5) by (auto split: prod.splits sum.splits)
  have h: "holds_spill T render sside (rendered render es) \<and> tf_files f2 = tf_files f1"
    using next_spill_holds [OF assms(6)] sp files(2) by blast
  obtain merged_res f3 where m: "merge_loop T render merged aside sside [] 0 f2 = (Inr merged_res, f3)"
    using assms(1) unfolding open_and_merge_def s g(5) by (auto simp: sp split: prod.splits sum.splits)
  have "tf_flush merged f3 = (Inr (), f') \<and> res = merged_res"
    using assms(1) unfolding open_and_merge_def s g(5)
    by (auto simp: sp m io_bind_Inr io_return_def)
  moreover have "tf_files f2 merged = Some []" using h a files by simp
  ultimately show ?thesis
    using merge_loop_ok [OF refl m conjunct1 [OF a] conjunct1 [OF h] assms(5)] tf_flush_files h a files
    by (auto simp: fun_eq_iff)
qed

lemma replace_artifact_ok:
  assumes "replace_artifact merged artifact (length rs) f = (Inr u, f')" "artifact \<noteq> merged"
    "tf_files f merged = Some (artifact_text T rs)"
  shows "tf_files f' artifact = (if rs = [] then None else Some (artifact_text T rs))"
proof (cases "rs = []")
  case True
  then obtain v f1 where r: "tf_remove merged f = (Inr v, f1)"
    "(if tf_files f1 artifact \<noteq> None then tf_remove artifact f1 else (Inr (), f1)) = (Inr u, f')"
    using assms(1) by (auto simp: replace_artifact_def io_bind_Inr)
  have "tf_files f' artifact = None"
    using r(2) tf_remove_files [of artifact f1 u f'] by (cases "tf_files f1 artifact") auto
  then show ?thesis using True by simp
next
  case False
  then show ?thesis
    using assms by (auto simp: replace_artifact_def dest!: tf_rename_files)
qed

lemma merge_spill_file_ok:
  assumes "merge_spill_file T render self f = (Inr u, self', f')" "paths_ok self" "sk_io_error self = None"
    "sink_holds T self f ps" "tf_files f (sk_spill_path self) = Some (spill_file_text T es)"
    "\<forall>p\<in>set ps. rejection_text_ok T p" "\<forall>e\<in>set es. spill_text_ok T e"
  shows "sink_holds T self' f' (merge_rejections ps (rendered render es)) \<and> sk_io_error self' = None
    \<and> sk_artifact_path self' = sk_artifact_path self \<and> sk_spill_path self' = sk_spill_path self"
proof -
  let ?m = "merge_rejections ps (rendered render es)"
  let ?self = "self\<lparr>sk_writer := False\<rparr>"
  have mp: "merged_path ?self = merged_path self" by (simp add: merged_path_def)
  obtain v f1 where fl: "(if sk_writer self then lift_fault (tf_flush (sk_artifact_path self) f) else (Inr (), f)) = (Inr v, f1)"
    using assms(1) unfolding merge_spill_file_def by (auto split: prod.splits sum.splits)
  then have f1: "tf_files f1 = tf_files f"
    by (auto dest: tf_flush_files split: if_splits)
  obtain res f2 where om: "open_and_merge T render (merged_path self) (sk_artifact_path self) (sk_spill_path self) f1 = (Inr res, f2)"
    using assms(1) unfolding merge_spill_file_def fl Let_def mp by (auto split: prod.splits sum.splits)
  have d: "distinct [sk_artifact_path self, sk_spill_path self, merged_path self]"
    using assms(2) by (simp add: paths_ok_def)
  have a1: "tf_files f1 (sk_artifact_path self) = (if ps = [] then None else Some (artifact_text T ps))"
    using assms(3,4) f1 by (simp add: sink_holds_def)
  have m: "res = (map rj_line ?m, length ?m)" "tf_files f2 = (tf_files f1)(merged_path self := Some (artifact_text T ?m))"
    using open_and_merge_ok [OF om d a1 _ assms(6,7)] assms(5) f1 by simp_all
  obtain w where r: "replace_artifact (merged_path self) (sk_artifact_path self) (length ?m) f2 = (Inr w, f')"
    and self': "self' = ?self\<lparr>sk_lines := map rj_line ?m, sk_count := length ?m\<rparr>"
    using assms(1) unfolding merge_spill_file_def fl Let_def mp
    by (auto simp: om m(1) split: prod.splits sum.splits)
  have "tf_files f' (sk_artifact_path self) = (if ?m = [] then None else Some (artifact_text T ?m))"
    by (rule replace_artifact_ok [OF r]) (use d m(2) in auto)
  then show ?thesis using self' assms(3) by (simp add: sink_holds_def)
qed

lemma sink_holds_cong:
  "sink_holds T self f rs \<Longrightarrow> sk_artifact_path self' = sk_artifact_path self \<Longrightarrow> sk_writer self' = sk_writer self \<Longrightarrow>
   sk_count self' = sk_count self \<Longrightarrow> sk_lines self' = sk_lines self \<Longrightarrow>
   (sk_io_error self' = None \<Longrightarrow> sk_io_error self = None \<and> tf_files f' (sk_artifact_path self) = tf_files f (sk_artifact_path self)) \<Longrightarrow>
   sink_holds T self' f' rs"
  by (auto simp: sink_holds_def)

lemma spill_finish_None:
  "spill_finish spill f = (None, f') \<Longrightarrow> vs_io_error spill = None \<and> tf_files f' = tf_files f"
  by (cases "vs_io_error spill") (auto simp: spill_finish_def dest: close_writer_files close_writer_error)

lemma merge_spill_holds:
  assumes "merge_spill T render spill self f = Some (self', f')" "sk_io_error self' = None" "paths_ok self"
    "sink_holds T self f ps" "spill_holds T spill f es" "vs_path spill = sk_spill_path self"
    "\<forall>p\<in>set ps. rejection_text_ok T p" "\<forall>e\<in>set es. spill_text_ok T e"
  shows "sink_holds T self' f' (merge_rejections ps (rendered render es))"
proof -
  obtain err f1 where fin: "spill_finish spill f = (err, f1)" by fastforce
  define s where "s = (if sk_io_error self = None then self\<lparr>sk_io_error := err\<rparr> else self)"
  have "sk_io_error s = None"
    using assms(1,2) unfolding merge_spill_def fin Let_def prod.case s_def [symmetric]
    by (cases "sk_io_error s") auto
  then have none: "sk_io_error self = None" "err = None" by (auto simp: s_def split: if_splits)
  have s: "s = self" using none by (simp add: s_def)
  have f1: "tf_files f1 = tf_files f" and err: "vs_io_error spill = None"
    using spill_finish_None [of spill f f1] fin none by auto
  have ne: "sk_spill_path self \<noteq> sk_artifact_path self" using assms(3) by (auto simp: paths_ok_def)
  note ms = assms(1) [unfolded merge_spill_def fin Let_def prod.case, folded s_def, unfolded s]
  have sh: "sink_holds T self f1 ps" by (rule sink_holds_cong [OF assms(4)]) (simp_all add: f1)
  show ?thesis
  proof (cases "es = []")
    case True
    then have "self' = self \<and> f' = snd (tf_remove (sk_spill_path self) f1)"
      using ms assms(5) none True by (auto simp: spill_holds_def)
    then show ?thesis
      using True sink_holds_cong [OF sh, of self f'] tf_remove_other [OF ne [symmetric]] by simp
  next
    case False
    then have sp: "tf_files f1 (sk_spill_path self) = Some (spill_file_text T es)"
      using assms(5,6) err f1 by (simp add: spill_holds_def)
    have ent: "vs_entries spill \<noteq> 0" using False assms(5) by (simp add: spill_holds_def)
    obtain r s2 f2 where m: "merge_spill_file T render self f1 = (r, s2, f2)" using prod_cases3 by blast
    show ?thesis
    proof (cases r)
      case (Inr u)
      have h: "sink_holds T s2 f2 (merge_rejections ps (rendered render es)) \<and> sk_io_error s2 = None
          \<and> sk_artifact_path s2 = sk_artifact_path self \<and> sk_spill_path s2 = sk_spill_path self"
        by (rule merge_spill_file_ok [OF m [unfolded Inr] assms(3) none(1) sh sp assms(7,8)])
      have "self' = s2 \<and> f' = snd (tf_remove (sk_spill_path s2) f2)"
        using ms ent m Inr none by auto
      then show ?thesis
        using h sink_holds_cong [of T s2 f2 _ s2 f'] tf_remove_other [OF ne [symmetric]] by simp
    next
      case (Inl fault)
      then have "sk_io_error self' \<noteq> None"
        using ms ent m none by (cases fault) auto
      then show ?thesis using assms(2) by simp
    qed
  qed
qed

lemma lift_fault_no_panic [simp]: "fst (lift_fault x) \<noteq> Inl Panicked"
  by (cases x; cases "fst x") (simp_all add: lift_fault_def)

lemma open_and_merge_no_panic:
  assumes "spill \<noteq> merged" "tf_files f spill = Some (spill_file_text T es)" "\<forall>e\<in>set es. spill_text_ok T e"
  shows "fst (open_and_merge T render merged artifact spill f) \<noteq> Inl Panicked"
proof -
  obtain r f1 where s: "io_bind (tf_create merged) (\<lambda>_. io_bind (tf_open artifact) (\<lambda>a.
       io_bind (tf_open_existing spill) (\<lambda>sp. io_bind (next_artifact_line T a) (\<lambda>side. io_return (side, sp))))) f
     = (r, f1)"
    by fastforce
  show ?thesis
  proof (cases r)
    case (Inl e)
    then show ?thesis by (simp add: open_and_merge_def s)
  next
    case (Inr side)
    then obtain u g1 a g2 sp g3 aside where g: "tf_create merged f = (Inr u, g1)" "tf_open artifact g1 = (Inr a, g2)"
      "tf_open_existing spill g2 = (Inr sp, g3)" "side = (aside, sp)"
      using s unfolding Inr io_bind_Inr io_return_def by auto
    have sp: "sp = spill_file_text T es"
      using tf_create_files [OF g(1)] tf_open_Inr [OF g(2)] tf_open_existing_Inr [OF g(3)] assms(1,2) by auto
    obtain q f2 where n: "next_spill_rejection T render sp f1 = (q, f2)" by fastforce
    show ?thesis
    proof (cases q)
      case (Inl fault)
      then have "fault \<noteq> Panicked" using next_spill_no_panic [OF assms(3)] n sp by auto
      then show ?thesis using Inl by (simp add: open_and_merge_def s Inr g(4) n)
    next
      case q: (Inr sside)
      have "holds_spill T render sside (rendered render es)"
        using next_spill_holds [OF assms(3)] n sp q by blast
      then have "fst (merge_loop T render merged aside sside [] 0 f2) \<noteq> Inl Panicked"
        by (rule merge_loop_no_panic)
      then show ?thesis
        by (cases "merge_loop T render merged aside sside [] 0 f2"; cases "fst (merge_loop T render merged aside sside [] 0 f2)")
          (simp_all add: open_and_merge_def s Inr g(4) n q)
    qed
  qed
qed

lemma merge_spill_file_no_panic:
  assumes "paths_ok self" "tf_files f (sk_spill_path self) = Some (spill_file_text T es)" "\<forall>e\<in>set es. spill_text_ok T e"
  shows "fst (merge_spill_file T render self f) \<noteq> Inl Panicked"
proof -
  let ?fl = "if sk_writer self then lift_fault (tf_flush (sk_artifact_path self) f) else (Inr (), f)"
  have d: "sk_spill_path self \<noteq> sk_artifact_path self" "sk_spill_path self \<noteq> merged_path self"
    using assms(1) by (auto simp: paths_ok_def)
  have mp: "merged_path (self\<lparr>sk_writer := False\<rparr>) = merged_path self" by (simp add: merged_path_def)
  have fl: "fst ?fl \<noteq> Inl Panicked" by simp
  have f1: "tf_files (snd ?fl) (sk_spill_path self) = Some (spill_file_text T es)"
    using assms(2) tf_other_files(4) [OF d(1)] by (simp add: lift_fault_def)
  obtain x f1 where x: "?fl = (x, f1)" by fastforce
  show ?thesis
  proof (cases x)
    case (Inl fault)
    then show ?thesis using fl by (simp add: merge_spill_file_def x)
  next
    case (Inr u)
    have om: "fst (open_and_merge T render (merged_path self) (sk_artifact_path self) (sk_spill_path self) f1) \<noteq> Inl Panicked"
      by (rule open_and_merge_no_panic [OF d(2) _ assms(3)]) (use f1 x in simp)
    obtain y f2 where y: "open_and_merge T render (merged_path self) (sk_artifact_path self) (sk_spill_path self) f1 = (y, f2)"
      by fastforce
    show ?thesis
    proof (cases y)
      case (Inl fault)
      then show ?thesis using om y by (simp add: merge_spill_file_def x Inr mp)
    next
      case y': (Inr res)
      obtain ls n where res: "res = (ls, n)" by fastforce
      have "fst (lift_fault (replace_artifact (merged_path self) (sk_artifact_path self) n f2)) \<noteq> Inl Panicked" by simp
      then show ?thesis
        by (cases "lift_fault (replace_artifact (merged_path self) (sk_artifact_path self) n f2)")
          (auto simp: merge_spill_file_def Let_def x Inr mp y y' res split: sum.splits)
    qed
  qed
qed

lemma spill_finish_other:
  "p \<noteq> vs_path spill \<Longrightarrow> tf_files (snd (spill_finish spill f)) p = tf_files f p"
  using tf_other_files(4) [of p "vs_path spill" f]
  by (auto simp: spill_finish_def close_writer_def split: prod.splits sum.splits)

lemma merge_spill_no_panic:
  assumes "spill_holds T spill f es" "vs_path spill = sk_spill_path self" "paths_ok self"
    "\<forall>e\<in>set es. spill_text_ok T e"
  shows "merge_spill T render spill self f \<noteq> None"
proof -
  obtain err f1 where fin: "spill_finish spill f = (err, f1)" by fastforce
  define s where "s = (if sk_io_error self = None then self\<lparr>sk_io_error := err\<rparr> else self)"
  show ?thesis
  proof (cases "sk_io_error s = None \<and> vs_entries spill \<noteq> 0")
    case False
    then show ?thesis
      unfolding merge_spill_def fin Let_def prod.case s_def [symmetric] by auto
  next
    case True
    then have none: "sk_io_error self = None" "err = None" by (auto simp: s_def split: if_splits)
    then have "s = self" by (simp add: s_def)
    have "tf_files f1 = tf_files f" "vs_io_error spill = None" "es \<noteq> []"
      using spill_finish_None [of spill f f1] fin none True assms(1) by (auto simp: spill_holds_def)
    then have "tf_files f1 (sk_spill_path self) = Some (spill_file_text T es)"
      using assms(1,2) by (simp add: spill_holds_def)
    then have "fst (merge_spill_file T render self f1) \<noteq> Inl Panicked"
      by (rule merge_spill_file_no_panic [OF assms(3) _ assms(4)])
    then show ?thesis
      using True \<open>s = self\<close> unfolding merge_spill_def fin Let_def prod.case s_def [symmetric]
      by (auto split: prod.splits sum.splits merge_fault.splits)
  qed
qed

subsection \<open>The paths of a sink, and its last error\<close>

lemma path_file_name_join:
  assumes "CHR ''/'' \<notin> set name" "name \<noteq> ''..''"
  shows "path_file_name (path_join dir name) = name"
proof -
  have t: "takeWhile (\<lambda>c. c \<noteq> CHR ''/'') (rev name @ CHR ''/'' # d) = rev name" for d
    using assms(1) takeWhile_append2 [of "rev name" "\<lambda>c. c \<noteq> CHR ''/''" "CHR ''/'' # d"] by auto
  have t0: "takeWhile (\<lambda>c. c \<noteq> CHR ''/'') (rev name) = rev name"
    using assms(1) by (auto simp: takeWhile_eq_all_conv)
  consider "path_join dir name = name" | d where "path_join dir name = d @ CHR ''/'' # name"
  proof (cases "dir \<noteq> [] \<and> last dir = CHR ''/''")
    case True
    then have "dir = butlast dir @ [CHR ''/'']" by (metis append_butlast_last_id)
    then have "path_join dir name = butlast dir @ CHR ''/'' # name"
      using True by (simp add: path_join_def)
    then show ?thesis using that by blast
  next
    case False
    then have "path_join dir name = name \<or> path_join dir name = dir @ CHR ''/'' # name"
      by (auto simp: path_join_def)
    then show ?thesis using that by blast
  qed
  then show ?thesis
  proof cases
    case 1
    then have "path_last (path_join dir name) = name" by (simp only: path_last_def t0 rev_rev_ident)
    then show ?thesis using assms(2) by (simp add: path_file_name_def)
  next
    case 2
    then show ?thesis using assms(2) by (simp add: path_file_name_def path_last_def t)
  qed
qed

lemma sink_new_paths_ok: "paths_ok (sink_new dir)"
proof -
  have "path_file_name (sk_artifact_path (sink_new dir)) = ''rejected-records.jsonl''"
    "path_file_name (sk_spill_path (sink_new dir)) = ''.rejected-records.spill''"
    "path_file_name (merged_path (sink_new dir)) = ''.rejected-records.merged''"
    by (simp_all add: sink_new_def merged_path_def REJECTED_RECORDS_FILENAME_def path_file_name_join)
  then show ?thesis by (auto simp: paths_ok_def)
qed

lemma sink_new_holds:
  "tf_files f (sk_artifact_path (sink_new dir)) = None \<Longrightarrow> sink_holds T (sink_new dir) f []"
  by (simp add: sink_holds_def sink_new_def)

lemma sink_spill_holds: "spill_holds T (sink_spill self) f [] \<and> vs_path (sink_spill self) = sk_spill_path self"
  by (simp add: spill_holds_def sink_spill_def)

lemma take_io_error_None:
  "take_io_error self f = (None, self', f') \<Longrightarrow> sk_io_error self = None \<and> tf_files f' = tf_files f"
  by (cases "sk_io_error self")
    (auto simp: take_io_error_def dest: close_writer_files close_writer_error split: prod.splits)

end
