(* ===== verification/Source_Bytes.thy ===== *)
theory Source_Bytes
  imports Utf8 Load_Types
begin

section \<open>A source file as a pass reads it\<close>

text \<open>
  \<open>src/connector.rs\<close>, lines 2122 to 2347: opening the source, the byte hash both passes fold,
  the classification of one CSV record and of one JSONL line. A source file is what one pass
  meets at its path: the errors of opening and inspecting it, its bytes, and the read failure
  that may follow some of them. The CSV library is a parameter: what it makes of the bytes and
  of the failure after them.
\<close>

record source_file =
  so_open_error :: "string option"
  so_inspect :: "(string, nat) result"
  so_bytes :: string
  so_failure :: "(nat \<times> string) option"

definition delivered_bytes :: "source_file \<Rightarrow> string" where
  "delivered_bytes so = (case so_failure so of None \<Rightarrow> so_bytes so | Some (n, _) \<Rightarrow> take n (so_bytes so))"

definition read_error :: "source_file \<Rightarrow> string option" where
  "read_error so = map_option snd (so_failure so)"

definition source_read_failed :: "string \<Rightarrow> string \<Rightarrow> string \<Rightarrow> string \<Rightarrow> load_failure" where
  "source_read_failed doing format_label path error = failure ''source_read_failed''
     [Lit ''failed to '', Txt doing, Lit '' '', Txt format_label, Lit '' source '', Txt path, Lit '': '', Txt error]"

definition open_source_file :: "string \<Rightarrow> string \<Rightarrow> source_file \<Rightarrow> (load_failure, source_file \<times> nat) result" where
  "open_source_file path format_label so = (case so_open_error so of
     Some error \<Rightarrow> Inl (source_read_failed ''read'' format_label path error)
   | None \<Rightarrow>
       (case so_inspect so of
          Inl error \<Rightarrow> Inl (source_read_failed ''inspect'' format_label path error)
        | Inr len \<Rightarrow> Inr (so, len)))"

subsection \<open>The byte hash\<close>

definition FNV_OFFSET_BASIS :: "64 word" where
  "FNV_OFFSET_BASIS = 0xcbf29ce484222325"

definition FNV_PRIME :: "64 word" where
  "FNV_PRIME = 0x00000100000001b3"

definition hash_byte :: "64 word \<Rightarrow> char \<Rightarrow> 64 word" where
  "hash_byte hash c = xor hash (of_nat (byte c)) * FNV_PRIME"

definition hash_update :: "string \<Rightarrow> 64 word \<Rightarrow> 64 word" where
  "hash_update bytes hash = foldl hash_byte hash bytes"

lemma hash_update_append: "hash_update (s @ t) h = hash_update t (hash_update s h)"
  by (simp add: hash_update_def)

lemma hash_update_Nil [simp]: "hash_update [] h = h"
  by (simp add: hash_update_def)

text \<open>
  A buffered reader over a hashing reader: the bytes still to come, the failure after them, and
  the hash of the bytes taken so far. The hash is read only once all bytes are taken, when the
  buffer's reading ahead makes no difference.
\<close>

record byte_reader =
  br_rest :: string
  br_error :: "string option"
  br_hash :: "64 word"

definition byte_reader_new :: "source_file \<Rightarrow> byte_reader" where
  "byte_reader_new so = \<lparr>br_rest = delivered_bytes so, br_error = read_error so, br_hash = FNV_OFFSET_BASIS\<rparr>"

text \<open>\<open>read_until(b'\n')\<close>: an empty line is the end of the input.\<close>

definition read_until_newline :: "byte_reader \<Rightarrow> (string, string) result \<times> byte_reader" where
  "read_until_newline r =
     (let (line, rest) = take_line (br_rest r);
          r' = r\<lparr>br_rest := rest, br_hash := hash_update line (br_hash r)\<rparr>
      in case br_error r of
           Some error \<Rightarrow> if line \<noteq> [] \<and> last line = newline then (Inr line, r') else (Inl error, r')
         | None \<Rightarrow> (Inr line, r'))"

lemma read_until_shorter:
  "read_until_newline r = (Inr line, r') \<Longrightarrow> line \<noteq> [] \<Longrightarrow> length (br_rest r') < length (br_rest r)"
  using take_line_shorter [of "br_rest r"]
  by (cases "br_rest r") (auto simp: read_until_newline_def Let_def split: prod.splits option.splits if_splits)

subsection \<open>CSV records\<close>

record csv_error =
  ce_position :: "nat option"
  ce_text :: string

record csv_record =
  cr_position :: "nat option"
  cr_cells :: "string list"

record csv_reading =
  cv_headers :: "(csv_error, string list) result"
  cv_records :: "(csv_error, csv_record) result list"

text \<open>
  What the CSV reader of \<open>csv_source_reader\<close> (headers, flexible record lengths) makes of the
  bytes it is delivered and of the failure that ends them. Iterating its records to the end
  reads every byte delivered.
\<close>

type_synonym csv_library = "string \<Rightarrow> string option \<Rightarrow> csv_reading"

definition csv_source_reader :: "csv_library \<Rightarrow> source_file \<Rightarrow> csv_reading" where
  "csv_source_reader L so = L (delivered_bytes so) (read_error so)"

definition csv_pass_hash :: "source_file \<Rightarrow> 64 word" where
  "csv_pass_hash so = hash_update (delivered_bytes so) FNV_OFFSET_BASIS"

definition read_csv_header :: "csv_reading \<Rightarrow> string \<Rightarrow> (load_failure, string list) result" where
  "read_csv_header reader path = (case cv_headers reader of
     Inl error \<Rightarrow> Inl (failure ''malformed_csv''
       [Lit ''malformed CSV syntax in '', Txt path, Lit '': '', Txt (ce_text error)])
   | Inr field_names \<Rightarrow>
       if field_names = [] then Inl (failure ''malformed_csv''
         [Lit ''CSV source '', Txt path, Lit '' must include at least one header field''])
       else Inr field_names)"

definition position_line :: "nat option \<Rightarrow> nat" where
  "position_line p = (case p of Some line \<Rightarrow> line | None \<Rightarrow> 0)"

datatype csv_item = Csv_Record text_record | Csv_Rejected rejected_record

definition csv_item_of :: "(csv_error, csv_record) result \<Rightarrow> nat \<Rightarrow> csv_item" where
  "csv_item_of rec field_count = (case rec of
     Inl error \<Rightarrow> Csv_Rejected
       \<lparr>rj_line = position_line (ce_position error), rj_code = MALFORMED_CSV_RECORD, rj_field = None,
        rj_source_field = None, rj_message = [Txt (ce_text error)], rj_record = JNull\<rparr>
   | Inr rec \<Rightarrow>
       let line = position_line (cr_position rec) in
       if length (cr_cells rec) \<noteq> field_count then Csv_Rejected
         \<lparr>rj_line = line, rj_code = MALFORMED_CSV_RECORD, rj_field = None, rj_source_field = None,
          rj_message = [Lit ''expected '', Num field_count, Lit '' fields, found '', Num (length (cr_cells rec))],
          rj_record = JArr (map JStr (cr_cells rec))\<rparr>
       else Csv_Record \<lparr>tx_line = line,
         tx_cells = map (\<lambda>value. if value = [] then None else Some value) (cr_cells rec)\<rparr>)"

definition csv_item_line :: "csv_item \<Rightarrow> nat" where
  "csv_item_line item = (case item of Csv_Record rec \<Rightarrow> tx_line rec | Csv_Rejected rj \<Rightarrow> rj_line rj)"

lemma csv_item_cells: "csv_item_of rec n = Csv_Record r \<Longrightarrow> length (tx_cells r) = n"
  by (auto simp: csv_item_of_def Let_def split: sum.splits if_splits)

subsection \<open>JSONL lines\<close>

datatype jsonl_line = Blank_Line | Line_Record json_record | Line_Rejected rejected_record

definition malformed_jsonl :: "nat \<Rightarrow> string \<Rightarrow> string \<Rightarrow> jsonl_line" where
  "malformed_jsonl line_number message recovered = Line_Rejected
     \<lparr>rj_line = line_number, rj_code = MALFORMED_JSONL_RECORD, rj_field = None, rj_source_field = None,
      rj_message = [Txt message], rj_record = JStr recovered\<rparr>"

text \<open>The parser of JSON texts is the library's; its error is shown by its \<open>Display\<close>.\<close>

definition jsonl_line_record :: "(string \<Rightarrow> (string, json) result) \<Rightarrow> string \<Rightarrow> nat \<Rightarrow> jsonl_line" where
  "jsonl_line_record parse line_bytes line_number =
     (let line_bytes = strip_last carriage_return (strip_last newline line_bytes) in
      case from_utf8 line_bytes of
        Inl error \<Rightarrow> malformed_jsonl line_number (utf8_error_text error) (from_utf8_lossy line_bytes)
      | Inr line \<Rightarrow>
          if all_whitespace line then Blank_Line
          else (case parse line of
              Inr (JObj object) \<Rightarrow> Line_Record \<lparr>js_line = line_number, js_object = object\<rparr>
            | Inr _ \<Rightarrow> malformed_jsonl line_number ''each JSONL record must be a JSON object'' line
            | Inl error \<Rightarrow> malformed_jsonl line_number error line))"

lemma jsonl_line_number:
  "jsonl_line_record parse bytes n = Line_Record r \<Longrightarrow> js_line r = n"
  "jsonl_line_record parse bytes n = Line_Rejected rj \<Longrightarrow> rj_line rj = n"
  by (auto simp: jsonl_line_record_def malformed_jsonl_def Let_def split: sum.splits json.splits if_splits)

end
