(* ===== verification/Source_Reader.thy ===== *)
theory Source_Reader
  imports Source_Bytes Rejection Schema_Observers
begin

section \<open>Pass 1: the local file source\<close>

text \<open>
  \<open>src/connector.rs\<close>, lines 392 to 406 and 447 to 738: the source factory, the resolved format,
  and pass 1 over a CSV and over a JSONL source. Pass 1 observes every record, streams the
  rejections to the sink, resolves the load at the end of the input and hands back the facts of
  the load with the chunk stream of pass 2, here in its state before the first pull.
\<close>

record source_definition =
  sd_connector :: string
  sd_path :: string
  sd_format :: "string option"

record local_file_source =
  ls_path :: string
  ls_format :: "string option"

definition source_connector :: "source_definition \<Rightarrow> (load_failure, local_file_source) result" where
  "source_connector def =
     (if sd_connector def = ''local_file'' then Inr \<lparr>ls_path = sd_path def, ls_format = sd_format def\<rparr>
      else Inl (failure ''unsupported_source_connector''
        [Lit ''unsupported source connector: '', Txt (sd_connector def)]))"

text \<open>
  \<open>Path::extension\<close> and \<open>OsStr::to_str\<close>: what follows the last dot of the file name, unless
  that dot starts it or the name is \<open>..\<close>; nothing when it is not UTF-8.
\<close>

definition path_extension :: "string \<Rightarrow> string option" where
  "path_extension path =
     (let name = path_file_name path; ext = rev (takeWhile (\<lambda>c. c \<noteq> CHR ''.'') (rev name))
      in if name = ''..'' \<or> CHR ''.'' \<notin> set name \<or> length ext + 1 = length name then None else Some ext)"

definition resolved_source_format :: "string \<Rightarrow> string option \<Rightarrow> string" where
  "resolved_source_format path format = (case format of
     Some f \<Rightarrow> f
   | None \<Rightarrow> (case path_extension path of
       Some ext \<Rightarrow> (if valid_utf8 ext then ext else []) | None \<Rightarrow> []))"

subsection \<open>What pass 1 hands to pass 2\<close>

record pass_one_expectations =
  po_rejected_lines :: "nat list"
  po_records :: nat
  po_hash :: "64 word"

datatype chunk_phase = Not_Started | Streaming | Final_Check | Done

record csv_chunk_reading =
  cg_records :: "(csv_error, csv_record) result list"
  cg_hash :: "64 word"
  cg_seen :: nat
  cg_yielded_any :: bool

record csv_chunks =
  cc_path :: string
  cc_plan :: chunk_plan
  cc_checks :: "field_check list"
  cc_field_names :: "string list"
  cc_chunk_rows :: nat
  cc_expectations :: pass_one_expectations
  cc_reading :: "csv_chunk_reading option"
  cc_phase :: chunk_phase

record jsonl_chunk_reading =
  jg_reader :: byte_reader
  jg_line_number :: nat
  jg_seen :: nat
  jg_yielded_any :: bool

record jsonl_chunks =
  jc_path :: string
  jc_plan :: chunk_plan
  jc_checks :: "field_check list"
  jc_resolved_shape :: "string list"
  jc_chunk_rows :: nat
  jc_expectations :: pass_one_expectations
  jc_reading :: "jsonl_chunk_reading option"
  jc_phase :: chunk_phase

datatype source_chunks = Csv_Chunks csv_chunks | Jsonl_Chunks jsonl_chunks

record source_read =
  sr_schema_decision :: json
  sr_pinned_schema_write :: "pinned_schema_write option"
  sr_source_bytes :: nat
  sr_source_rows :: nat
  sr_rejected_count :: nat
  sr_chunks :: source_chunks

definition source_read_of :: "resolution \<Rightarrow> nat \<Rightarrow> nat \<Rightarrow> rejection_sink \<Rightarrow> source_chunks \<Rightarrow> source_read" where
  "source_read_of resolution source_bytes source_rows sink chunks =
     \<lparr>sr_schema_decision = rs_decision resolution,
      sr_pinned_schema_write = rs_pinned_schema_write resolution,
      sr_source_bytes = source_bytes, sr_source_rows = source_rows,
      sr_rejected_count = sk_count sink, sr_chunks = chunks\<rparr>"

subsection \<open>CSV\<close>

record csv_pass =
  cs_observer :: text_observer
  cs_sink :: rejection_sink
  cs_files :: text_fs
  cs_parsed_records :: nat
  cs_parse_rejected :: nat

definition csv_sink_record :: "json_text \<Rightarrow> rejected_record \<Rightarrow> csv_pass \<Rightarrow> csv_pass" where
  "csv_sink_record T rejection st =
     (case sink_record T rejection (cs_sink st) (cs_files st) of (sink, f) \<Rightarrow> st\<lparr>cs_sink := sink, cs_files := f\<rparr>)"

definition csv_pass_one_record ::
  "('d, 't) chrono \<Rightarrow> json_text \<Rightarrow> string list \<Rightarrow> csv_pass \<Rightarrow> (csv_error, csv_record) result \<Rightarrow> csv_pass" where
  "csv_pass_one_record C T field_names st rec = (case csv_item_of rec (length field_names) of
     Csv_Rejected rejection \<Rightarrow>
       csv_sink_record T rejection (st\<lparr>cs_parse_rejected := cs_parse_rejected st + 1\<rparr>)
   | Csv_Record text_rec \<Rightarrow>
       (case text_observe C field_names (cs_observer st) text_rec of
          (observer, rejection) \<Rightarrow>
            let st = st\<lparr>cs_parsed_records := cs_parsed_records st + 1, cs_observer := observer\<rparr> in
            (case rejection of None \<Rightarrow> st | Some rejection \<Rightarrow> csv_sink_record T rejection st)))"

definition read_csv ::
  "('d, 't) chrono \<Rightarrow> json_text \<Rightarrow> yaml \<Rightarrow> csv_library \<Rightarrow> source_file \<Rightarrow> local_file_source
   \<Rightarrow> schema_directive \<Rightarrow> merge_keys \<Rightarrow> nat \<Rightarrow> rejection_sink \<Rightarrow> text_fs
   \<Rightarrow> (execution_failure, source_read) result \<times> rejection_sink \<times> text_fs" where
  "read_csv C T Y L so self directive merge_keys chunk_rows sink f =
     (case open_source_file (ls_path self) ''CSV'' so of
        Inl fail \<Rightarrow> (Inl (execution_failure_from fail), sink, f)
      | Inr (opened, source_bytes) \<Rightarrow>
          let reader = csv_source_reader L opened in
          (case read_csv_header reader (ls_path self) of
             Inl fail \<Rightarrow> (Inl (execution_failure_from fail), sink, f)
           | Inr field_names \<Rightarrow>
               let st = foldl (csv_pass_one_record C T field_names)
                     \<lparr>cs_observer = text_observer_new Y directive merge_keys field_names, cs_sink = sink,
                      cs_files = f, cs_parsed_records = 0, cs_parse_rejected = 0\<rparr> (cv_records reader);
                   source_rows = cs_parsed_records st + cs_parse_rejected st;
                   sink = cs_sink st
               in (case text_finish Y directive merge_keys field_names (cs_observer st) of
                  Inl fail \<Rightarrow> (Inl (with_rejected_count (sk_count sink) fail), sink, cs_files st)
                | Inr resolution \<Rightarrow>
                    (Inr (source_read_of resolution source_bytes source_rows sink (Csv_Chunks
                       \<lparr>cc_path = ls_path self, cc_plan = rs_plan resolution, cc_checks = rs_checks resolution,
                        cc_field_names = field_names, cc_chunk_rows = chunk_rows,
                        cc_expectations = \<lparr>po_rejected_lines = sk_lines sink, po_records = source_rows,
                          po_hash = csv_pass_hash opened\<rparr>,
                        cc_reading = None, cc_phase = Not_Started\<rparr>)), sink, cs_files st))))"

subsection \<open>JSONL\<close>

text \<open>The key union is kept once, in the order the keys were first seen; \<open>seen_fields\<close> is its set.\<close>

record jsonl_pass =
  jp_observer :: json_observer
  jp_spill :: validation_spill
  jp_sink :: rejection_sink
  jp_files :: text_fs
  jp_field_names :: "string list"
  jp_parsed_records :: nat
  jp_parse_rejected :: nat

definition add_field :: "string list \<Rightarrow> string \<Rightarrow> string list" where
  "add_field field_names key = (if key \<in> set field_names then field_names else field_names @ [key])"

definition jsonl_pass_one_line ::
  "('d, 't) chrono \<Rightarrow> json_text \<Rightarrow> schema_directive \<Rightarrow> string \<Rightarrow> nat \<Rightarrow> jsonl_pass \<Rightarrow> jsonl_pass" where
  "jsonl_pass_one_line C T directive line_bytes line_number st =
     (case jsonl_line_record (jt_parse T) line_bytes line_number of
        Blank_Line \<Rightarrow> st
      | Line_Rejected rejection \<Rightarrow>
          (case sink_record T rejection (jp_sink st) (jp_files st) of (sink, f) \<Rightarrow>
             st\<lparr>jp_parse_rejected := jp_parse_rejected st + 1, jp_sink := sink, jp_files := f\<rparr>)
      | Line_Record rec \<Rightarrow>
          (case json_observe C directive (jp_observer st) rec of
             (observer, outcome) \<Rightarrow>
               let st = st\<lparr>jp_parsed_records := jp_parsed_records st + 1,
                     jp_field_names := foldl add_field (jp_field_names st) (map fst (js_object rec)),
                     jp_observer := observer\<rparr>
               in (case outcome of
                  Survived \<Rightarrow> st
                | Rejected \<Rightarrow>
                    (case spill_record T (js_line rec) (js_object rec) (jp_spill st) (jp_files st) of
                       (spill, f) \<Rightarrow> st\<lparr>jp_spill := spill, jp_files := f\<rparr>))))"

text \<open>The loop over the lines: the error that ended it with the lines read, or the hash.\<close>

function jsonl_pass_one ::
  "('d, 't) chrono \<Rightarrow> json_text \<Rightarrow> schema_directive \<Rightarrow> byte_reader \<Rightarrow> nat \<Rightarrow> jsonl_pass
   \<Rightarrow> (string \<times> nat, 64 word) result \<times> jsonl_pass" where
  "jsonl_pass_one C T directive reader line_number st =
     (case read_until_newline reader of
        (Inl error, reader) \<Rightarrow> (Inl (error, line_number), st)
      | (Inr line_bytes, reader) \<Rightarrow>
          if line_bytes = [] then (Inr (br_hash reader), st)
          else jsonl_pass_one C T directive reader (line_number + 1)
            (jsonl_pass_one_line C T directive line_bytes (line_number + 1) st))"
  by pat_completeness auto
termination
  by (relation "measure (\<lambda>(C, T, d, reader, n, st). length (br_rest reader))")
    (auto dest: read_until_shorter [OF sym])

declare jsonl_pass_one.simps [simp del]

definition jsonl_pass_start :: "schema_directive \<Rightarrow> merge_keys \<Rightarrow> rejection_sink \<Rightarrow> text_fs \<Rightarrow> jsonl_pass" where
  "jsonl_pass_start directive merge_keys sink f =
     \<lparr>jp_observer = json_observer_new directive merge_keys, jp_spill = sink_spill sink, jp_sink = sink,
      jp_files = f, jp_field_names = [], jp_parsed_records = 0, jp_parse_rejected = 0\<rparr>"

text \<open>A pass-1 failure that has a record count but no schema decision.\<close>

definition pass_one_failure :: "load_failure \<Rightarrow> nat \<Rightarrow> nat \<Rightarrow> execution_failure" where
  "pass_one_failure fail source_rows rejected_count =
     \<lparr>ef_failure = fail, ef_schema_decision = None, ef_source_rows = Some source_rows,
      ef_written_records = 0, ef_rejected_count = rejected_count, ef_committed_execution = None,
      ef_retry = None, ef_destination_write = facts_not_applicable\<rparr>"

text \<open>No value stands for the panic of the spill merge.\<close>

definition read_jsonl ::
  "('d, 't) chrono \<Rightarrow> json_text \<Rightarrow> yaml \<Rightarrow> source_file \<Rightarrow> local_file_source
   \<Rightarrow> schema_directive \<Rightarrow> merge_keys \<Rightarrow> nat \<Rightarrow> rejection_sink \<Rightarrow> text_fs
   \<Rightarrow> ((execution_failure, source_read) result \<times> rejection_sink \<times> text_fs) option" where
  "read_jsonl C T Y so self directive merge_keys chunk_rows sink f =
     (case open_source_file (ls_path self) ''JSONL'' so of
        Inl fail \<Rightarrow> Some (Inl (execution_failure_from fail), sink, f)
      | Inr (opened, source_bytes) \<Rightarrow>
          (case jsonl_pass_one C T directive (byte_reader_new opened) 0 (jsonl_pass_start directive merge_keys sink f) of
             (outcome, st) \<Rightarrow>
               let source_rows = jp_parsed_records st + jp_parse_rejected st;
                   discarded = spill_discard (jp_spill st) (jp_sink st) (jp_files st)
               in (case outcome of
                  Inl (error, line_number) \<Rightarrow>
                    Some (Inl (pass_one_failure (failure ''source_read_failed''
                        [Lit ''failed to read JSONL source '', Txt (ls_path self), Lit '' after line '',
                         Num line_number, Lit '': '', Txt error]) source_rows (sk_count (fst discarded))), discarded)
                | Inr hash \<Rightarrow>
                    if jp_field_names st = [] then
                      Some (Inl (pass_one_failure (failure ''malformed_jsonl''
                        [Lit ''JSONL source '', Txt (ls_path self), Lit '' must include at least one record with fields''])
                        source_rows (sk_count (fst discarded))), discarded)
                    else (case json_finish Y directive merge_keys (jp_field_names st) (jp_observer st) of
                      Inl fail \<Rightarrow> Some (Inl (with_rejected_count (sk_count (fst discarded)) fail), discarded)
                    | Inr resolution \<Rightarrow>
                        (case merge_spill T (\<lambda>line object. rejection_for C resolution \<lparr>js_line = line, js_object = object\<rparr>)
                                (jp_spill st) (jp_sink st) (jp_files st) of
                           None \<Rightarrow> None
                         | Some (sink, f) \<Rightarrow>
                             Some (Inr (source_read_of resolution source_bytes source_rows sink (Jsonl_Chunks
                               \<lparr>jc_path = ls_path self, jc_plan = rs_plan resolution, jc_checks = rs_checks resolution,
                                jc_resolved_shape = jp_field_names st, jc_chunk_rows = chunk_rows,
                                jc_expectations = \<lparr>po_rejected_lines = sk_lines sink, po_records = source_rows,
                                  po_hash = hash\<rparr>,
                                jc_reading = None, jc_phase = Not_Started\<rparr>)), sink, f))))))"

definition unsupported_source_format :: load_failure where
  "unsupported_source_format = failure ''unsupported_source_format''
     [Lit ''only local CSV and JSONL sources are supported by this load path'']"

definition read_source ::
  "('d, 't) chrono \<Rightarrow> json_text \<Rightarrow> yaml \<Rightarrow> csv_library \<Rightarrow> source_file \<Rightarrow> local_file_source
   \<Rightarrow> schema_directive \<Rightarrow> merge_keys \<Rightarrow> nat \<Rightarrow> rejection_sink \<Rightarrow> text_fs
   \<Rightarrow> ((execution_failure, source_read) result \<times> rejection_sink \<times> text_fs) option" where
  "read_source C T Y L so self directive merge_keys chunk_rows sink f =
     (let format = resolved_source_format (ls_path self) (ls_format self) in
      if format = ''csv'' then Some (read_csv C T Y L so self directive merge_keys chunk_rows sink f)
      else if format = ''jsonl'' then read_jsonl C T Y so self directive merge_keys chunk_rows sink f
      else Some (Inl (execution_failure_from unsupported_source_format), sink, f))"

end
