(* ===== verification/Source_Chunks.thy ===== *)
theory Source_Chunks
  imports Source_Reader
begin

section \<open>Pass 2: the chunk streams\<close>

text \<open>
  \<open>src/connector.rs\<close>, lines 2335 to 2694: the cross-check of pass 2 against pass 1 and the two
  chunk iterators. The file pass 2 opens is an argument: it may differ from the one of pass 1.
  \<open>expect\<close> on a reading that is not there does not happen: a stream outside \<open>NotStarted\<close> and
  \<open>Done\<close> holds one, and the functions keep that form.
\<close>

definition source_changed :: "string \<Rightarrow> msg \<Rightarrow> load_failure" where
  "source_changed path detail = failure ''source_changed_during_load''
     ([Lit ''source '', Txt path, Lit '' changed during the load: ''] @ detail)"

datatype record_disposition = Survives | Skips

definition cross_check ::
  "pass_one_expectations \<Rightarrow> string \<Rightarrow> nat \<Rightarrow> bool \<Rightarrow> (load_failure, record_disposition) result" where
  "cross_check self path line rejected_now =
     (case (rejected_now, line \<in> set (po_rejected_lines self)) of
        (True, True) \<Rightarrow> Inr Skips
      | (False, False) \<Rightarrow> Inr Survives
      | _ \<Rightarrow> Inl (source_changed path [Lit ''the record at line '', Num line,
               Lit '' no longer matches its first-pass outcome'']))"

definition verify_end_of_input ::
  "pass_one_expectations \<Rightarrow> string \<Rightarrow> nat \<Rightarrow> 64 word \<Rightarrow> (load_failure, unit) result" where
  "verify_end_of_input self path seen hash =
     (if seen \<noteq> po_records self then
        Inl (source_changed path [Lit ''it now has '', Num seen, Lit '' records instead of '', Num (po_records self)])
      else if hash \<noteq> po_hash self then
        Inl (source_changed path [Lit ''its bytes no longer match the first pass''])
      else Inr ())"

lemma cross_check_Inr_iff:
  "cross_check e path line rejected = Inr disposition \<longleftrightarrow>
     rejected = (line \<in> set (po_rejected_lines e)) \<and> disposition = (if rejected then Skips else Survives)"
  by (cases rejected) (auto simp: cross_check_def split: bool.split)

text \<open>
  How the inner loop of a pull ends: a failure, a full chunk, or the end of the input with the
  survivors left; with the reading after it.
\<close>

datatype 'r fill_end = Fill_Failed load_failure | Fill_Full "'r list" | Fill_Eof "'r list"

subsection \<open>CSV\<close>

definition csv_open :: "csv_library \<Rightarrow> source_file \<Rightarrow> csv_chunks \<Rightarrow> (load_failure, csv_chunk_reading) result" where
  "csv_open L so self =
     rbind (open_source_file (cc_path self) ''CSV'' so) (\<lambda>(opened, _).
       let reader = csv_source_reader L opened in
       rbind (map_err (\<lambda>_. source_changed (cc_path self) [Lit ''its CSV header no longer parses''])
               (read_csv_header reader (cc_path self))) (\<lambda>field_names.
         if field_names \<noteq> cc_field_names self then
           Inl (source_changed (cc_path self) [Lit ''its CSV header no longer matches the resolved schema''])
         else Inr \<lparr>cg_records = cv_records reader, cg_hash = csv_pass_hash opened, cg_seen = 0,
                    cg_yielded_any = False\<rparr>))"

text \<open>One record of pass 2: skipped, kept, or divergent.\<close>

definition csv_check_record ::
  "('d, 't) chrono \<Rightarrow> csv_chunks \<Rightarrow> (csv_error, csv_record) result \<Rightarrow> (load_failure, text_record option) result" where
  "csv_check_record C self rec = (case csv_item_of rec (length (cc_field_names self)) of
     Csv_Rejected rejection \<Rightarrow>
       rmap (\<lambda>_. None) (cross_check (cc_expectations self) (cc_path self) (rj_line rejection) True)
   | Csv_Record text_rec \<Rightarrow>
       rmap (\<lambda>disposition. case disposition of Skips \<Rightarrow> None | Survives \<Rightarrow> Some text_rec)
         (cross_check (cc_expectations self) (cc_path self) (tx_line text_rec)
           (validate_text_record C text_rec (cc_checks self) (cc_field_names self) \<noteq> None)))"

fun csv_fill ::
  "('d, 't) chrono \<Rightarrow> csv_chunks \<Rightarrow> (csv_error, csv_record) result list \<Rightarrow> nat \<Rightarrow> text_record list
   \<Rightarrow> text_record fill_end \<times> (csv_error, csv_record) result list \<times> nat" where
  "csv_fill C self [] seen survivors = (Fill_Eof survivors, [], seen)"
| "csv_fill C self (rec # recs) seen survivors =
     (case csv_check_record C self rec of
        Inl fail \<Rightarrow> (Fill_Failed fail, recs, seen + 1)
      | Inr kept \<Rightarrow>
          let survivors = survivors @ (case kept of None \<Rightarrow> [] | Some r \<Rightarrow> [r]) in
          if length survivors = cc_chunk_rows self then (Fill_Full survivors, recs, seen + 1)
          else csv_fill C self recs (seen + 1) survivors)"

text \<open>A pull while streaming: what it returns, if it returns, and the state after it.\<close>

definition csv_stream_pull ::
  "('d, 't) chrono \<Rightarrow> arrow \<Rightarrow> csv_chunks \<Rightarrow> csv_chunk_reading
   \<Rightarrow> (load_failure, record_batch option) result option \<times> csv_chunks" where
  "csv_stream_pull C A self reading =
     (case csv_fill C self (cg_records reading) (cg_seen reading) [] of
        (end_of_fill, recs, seen) \<Rightarrow>
          let reading = reading\<lparr>cg_records := recs, cg_seen := seen\<rparr> in
          (case end_of_fill of
             Fill_Failed fail \<Rightarrow> (Some (Inl fail), self\<lparr>cc_reading := Some reading\<rparr>)
           | Fill_Full survivors \<Rightarrow>
               (Some (rmap Some (build_text_chunk C A (cc_plan self) survivors)),
                self\<lparr>cc_reading := Some (reading\<lparr>cg_yielded_any := True\<rparr>)\<rparr>)
           | Fill_Eof survivors \<Rightarrow>
               let self = self\<lparr>cc_phase := Final_Check\<rparr> in
               if survivors = [] \<and> cg_yielded_any reading then (None, self\<lparr>cc_reading := Some reading\<rparr>)
               else (Some (rmap Some (build_text_chunk C A (cc_plan self) survivors)),
                     self\<lparr>cc_reading := Some (reading\<lparr>cg_yielded_any := True\<rparr>)\<rparr>)))"

definition csv_final_check :: "csv_chunks \<Rightarrow> (load_failure, record_batch option) result \<times> csv_chunks" where
  "csv_final_check self =
     (let reading = the (cc_reading self) in
      (rmap (\<lambda>_. None) (verify_end_of_input (cc_expectations self) (cc_path self) (cg_seen reading) (cg_hash reading)),
       self\<lparr>cc_phase := Done, cc_reading := None\<rparr>))"

definition phase_rank :: "chunk_phase \<Rightarrow> nat" where
  "phase_rank phase = (case phase of Not_Started \<Rightarrow> 3 | Streaming \<Rightarrow> 2 | Final_Check \<Rightarrow> 1 | Done \<Rightarrow> 0)"

lemma csv_stream_pull_None:
  "csv_stream_pull C A self reading = (None, self') \<Longrightarrow> cc_phase self' = Final_Check"
  by (auto simp: csv_stream_pull_def Let_def split: prod.splits fill_end.splits if_splits)

function csv_next_chunk ::
  "('d, 't) chrono \<Rightarrow> arrow \<Rightarrow> csv_library \<Rightarrow> source_file \<Rightarrow> csv_chunks
   \<Rightarrow> (load_failure, record_batch option) result \<times> csv_chunks" where
  "csv_next_chunk C A L so self = (case cc_phase self of
     Done \<Rightarrow> (Inr None, self)
   | Not_Started \<Rightarrow>
       (case csv_open L so self of
          Inl fail \<Rightarrow> (Inl fail, self)
        | Inr reading \<Rightarrow> csv_next_chunk C A L so (self\<lparr>cc_reading := Some reading, cc_phase := Streaming\<rparr>))
   | Final_Check \<Rightarrow> csv_final_check self
   | Streaming \<Rightarrow>
       (case csv_stream_pull C A self (the (cc_reading self)) of
          (Some r, self) \<Rightarrow> (r, self)
        | (None, self) \<Rightarrow> csv_next_chunk C A L so self))"
  by pat_completeness auto
termination
  by (relation "measure (\<lambda>(C, A, L, so, self). phase_rank (cc_phase self))")
    (auto simp: phase_rank_def dest: csv_stream_pull_None [OF sym])

declare csv_next_chunk.simps [simp del]

definition csv_next ::
  "('d, 't) chrono \<Rightarrow> arrow \<Rightarrow> csv_library \<Rightarrow> source_file \<Rightarrow> csv_chunks
   \<Rightarrow> (load_failure, record_batch) result option \<times> csv_chunks" where
  "csv_next C A L so self = (case csv_next_chunk C A L so self of
     (Inr (Some batch), self) \<Rightarrow> (Some (Inr batch), self)
   | (Inr None, self) \<Rightarrow> (None, self)
   | (Inl fail, self) \<Rightarrow> (Some (Inl fail), self\<lparr>cc_phase := Done\<rparr>))"

subsection \<open>JSONL\<close>

definition jsonl_open :: "source_file \<Rightarrow> jsonl_chunks \<Rightarrow> (load_failure, jsonl_chunk_reading) result" where
  "jsonl_open so self =
     rmap (\<lambda>(opened, _). \<lparr>jg_reader = byte_reader_new opened, jg_line_number = 0, jg_seen = 0, jg_yielded_any = False\<rparr>)
       (open_source_file (jc_path self) ''JSONL'' so)"

text \<open>One line of pass 2: not a record, skipped, kept, or divergent.\<close>

definition jsonl_check_line ::
  "('d, 't) chrono \<Rightarrow> json_text \<Rightarrow> jsonl_chunks \<Rightarrow> string \<Rightarrow> nat
   \<Rightarrow> (load_failure, json_record option) result \<times> bool" where
  "jsonl_check_line C T self line_bytes line_number =
     (case jsonl_line_record (jt_parse T) line_bytes line_number of
        Blank_Line \<Rightarrow> (Inr None, False)
      | Line_Rejected rejection \<Rightarrow>
          (rmap (\<lambda>_. None) (cross_check (jc_expectations self) (jc_path self) (rj_line rejection) True), True)
      | Line_Record rec \<Rightarrow>
          (case List.find (\<lambda>key. key \<notin> set (jc_resolved_shape self)) (map fst (js_object rec)) of
             Some key \<Rightarrow> Inl (source_changed (jc_path self) [Lit ''the record at line '', Num (js_line rec),
               Lit '' carries field '', Dbg key, Lit '' outside the resolved schema shape''])
           | None \<Rightarrow>
               rmap (\<lambda>disposition. case disposition of Skips \<Rightarrow> None | Survives \<Rightarrow> Some rec)
                 (cross_check (jc_expectations self) (jc_path self) (js_line rec)
                   (json_record_violates C rec (jc_checks self))), True))"

function jsonl_fill ::
  "('d, 't) chrono \<Rightarrow> json_text \<Rightarrow> jsonl_chunks \<Rightarrow> jsonl_chunk_reading \<Rightarrow> json_record list
   \<Rightarrow> json_record fill_end \<times> jsonl_chunk_reading" where
  "jsonl_fill C T self reading survivors =
     (case read_until_newline (jg_reader reading) of
        (Inl error, reader) \<Rightarrow>
          (Fill_Failed (failure ''source_read_failed'' [Lit ''failed to read JSONL source '', Txt (jc_path self),
             Lit '' after line '', Num (jg_line_number reading), Lit '': '', Txt error]), reading\<lparr>jg_reader := reader\<rparr>)
      | (Inr line_bytes, reader) \<Rightarrow>
          if line_bytes = [] then (Fill_Eof survivors, reading\<lparr>jg_reader := reader\<rparr>)
          else
            (case jsonl_check_line C T self line_bytes (jg_line_number reading + 1) of
               (outcome, is_record) \<Rightarrow>
                 let reading = reading\<lparr>jg_reader := reader, jg_line_number := jg_line_number reading + 1,
                       jg_seen := jg_seen reading + (if is_record then 1 else 0)\<rparr>
                 in (case outcome of
                    Inl fail \<Rightarrow> (Fill_Failed fail, reading)
                  | Inr kept \<Rightarrow>
                      let survivors = survivors @ (case kept of None \<Rightarrow> [] | Some r \<Rightarrow> [r]) in
                      if length survivors = jc_chunk_rows self then (Fill_Full survivors, reading)
                      else jsonl_fill C T self reading survivors)))"
  by pat_completeness auto
termination
  by (relation "measure (\<lambda>(C, T, self, reading, s). length (br_rest (jg_reader reading)))")
    (auto dest: read_until_shorter [OF sym])

declare jsonl_fill.simps [simp del]

definition jsonl_stream_pull ::
  "('d, 't) chrono \<Rightarrow> arrow \<Rightarrow> json_text \<Rightarrow> jsonl_chunks \<Rightarrow> jsonl_chunk_reading
   \<Rightarrow> (load_failure, record_batch option) result option \<times> jsonl_chunks" where
  "jsonl_stream_pull C A T self reading =
     (case jsonl_fill C T self reading [] of
        (Fill_Failed fail, reading) \<Rightarrow> (Some (Inl fail), self\<lparr>jc_reading := Some reading\<rparr>)
      | (Fill_Full survivors, reading) \<Rightarrow>
          (Some (rmap Some (build_json_chunk C A (jt_print T) (jc_plan self) survivors)),
           self\<lparr>jc_reading := Some (reading\<lparr>jg_yielded_any := True\<rparr>)\<rparr>)
      | (Fill_Eof survivors, reading) \<Rightarrow>
          let self = self\<lparr>jc_phase := Final_Check\<rparr> in
          if survivors = [] \<and> jg_yielded_any reading then (None, self\<lparr>jc_reading := Some reading\<rparr>)
          else (Some (rmap Some (build_json_chunk C A (jt_print T) (jc_plan self) survivors)),
                self\<lparr>jc_reading := Some (reading\<lparr>jg_yielded_any := True\<rparr>)\<rparr>))"

definition jsonl_final_check :: "jsonl_chunks \<Rightarrow> (load_failure, record_batch option) result \<times> jsonl_chunks" where
  "jsonl_final_check self =
     (let reading = the (jc_reading self) in
      (rmap (\<lambda>_. None) (verify_end_of_input (jc_expectations self) (jc_path self) (jg_seen reading) (br_hash (jg_reader reading))),
       self\<lparr>jc_phase := Done, jc_reading := None\<rparr>))"

lemma jsonl_stream_pull_None:
  "jsonl_stream_pull C A T self reading = (None, self') \<Longrightarrow> jc_phase self' = Final_Check"
  by (auto simp: jsonl_stream_pull_def Let_def split: prod.splits fill_end.splits if_splits)

function jsonl_next_chunk ::
  "('d, 't) chrono \<Rightarrow> arrow \<Rightarrow> json_text \<Rightarrow> source_file \<Rightarrow> jsonl_chunks
   \<Rightarrow> (load_failure, record_batch option) result \<times> jsonl_chunks" where
  "jsonl_next_chunk C A T so self = (case jc_phase self of
     Done \<Rightarrow> (Inr None, self)
   | Not_Started \<Rightarrow>
       (case jsonl_open so self of
          Inl fail \<Rightarrow> (Inl fail, self)
        | Inr reading \<Rightarrow> jsonl_next_chunk C A T so (self\<lparr>jc_reading := Some reading, jc_phase := Streaming\<rparr>))
   | Final_Check \<Rightarrow> jsonl_final_check self
   | Streaming \<Rightarrow>
       (case jsonl_stream_pull C A T self (the (jc_reading self)) of
          (Some r, self) \<Rightarrow> (r, self)
        | (None, self) \<Rightarrow> jsonl_next_chunk C A T so self))"
  by pat_completeness auto
termination
  by (relation "measure (\<lambda>(C, A, T, so, self). phase_rank (jc_phase self))")
    (auto simp: phase_rank_def dest: jsonl_stream_pull_None [OF sym])

declare jsonl_next_chunk.simps [simp del]

definition jsonl_next ::
  "('d, 't) chrono \<Rightarrow> arrow \<Rightarrow> json_text \<Rightarrow> source_file \<Rightarrow> jsonl_chunks
   \<Rightarrow> (load_failure, record_batch) result option \<times> jsonl_chunks" where
  "jsonl_next C A T so self = (case jsonl_next_chunk C A T so self of
     (Inr (Some batch), self) \<Rightarrow> (Some (Inr batch), self)
   | (Inr None, self) \<Rightarrow> (None, self)
   | (Inl fail, self) \<Rightarrow> (Some (Inl fail), self\<lparr>jc_phase := Done\<rparr>))"

end
