(* ===== verification/Stream_Spec.thy ===== *)
theory Stream_Spec
  imports Source_Chunks
begin

section \<open>A chunk stream over checked records\<close>

text \<open>
  The reference of both pass-2 streams of \<open>src/connector.rs\<close>: a list of checked records, each a
  failure, a record to keep or nothing, and whether it counts; a pull collects kept records up
  to the chunk size, and the stream ends in the end-of-input check. The lemmas say what a stream
  yields: without a failure it is the batches of the kept records, cut in order.
\<close>

type_synonym 'r checked = "(load_failure, 'r option) result \<times> bool"

fun fill_checked :: "nat \<Rightarrow> 'r checked list \<Rightarrow> nat \<Rightarrow> 'r list \<Rightarrow> 'r fill_end \<times> 'r checked list \<times> nat" where
  "fill_checked n [] seen acc = (Fill_Eof acc, [], seen)"
| "fill_checked n ((Inl fail, counts) # xs) seen acc = (Fill_Failed fail, xs, seen + of_bool counts)"
| "fill_checked n ((Inr kept, counts) # xs) seen acc =
     (let acc' = acc @ (case kept of None \<Rightarrow> [] | Some r \<Rightarrow> [r]) in
      if length acc' = n then (Fill_Full acc', xs, seen + of_bool counts)
      else fill_checked n xs (seen + of_bool counts) acc')"

lemma fill_checked_shorter:
  "fill_checked n xs seen acc = (Fill_Full acc', xs', seen') \<Longrightarrow> length xs' < length xs"
  by (induction n xs seen acc rule: fill_checked.induct) (fastforce simp: Let_def split: if_splits)+

definition end_items :: "(nat \<Rightarrow> (load_failure, unit) result) \<Rightarrow> nat \<Rightarrow> (load_failure, 'b) result list" where
  "end_items verify seen = (case verify seen of Inl fail \<Rightarrow> [Inl fail] | Inr _ \<Rightarrow> [])"

function checked_stream ::
  "('r list \<Rightarrow> (load_failure, 'b) result) \<Rightarrow> (nat \<Rightarrow> (load_failure, unit) result) \<Rightarrow> nat
   \<Rightarrow> 'r checked list \<Rightarrow> nat \<Rightarrow> bool \<Rightarrow> (load_failure, 'b) result list" where
  "checked_stream build verify n xs seen yielded =
     (case fill_checked n xs seen [] of
        (Fill_Failed fail, _, _) \<Rightarrow> [Inl fail]
      | (Fill_Full chunk, xs', seen') \<Rightarrow>
          (case build chunk of Inl fail \<Rightarrow> [Inl fail]
           | Inr b \<Rightarrow> Inr b # checked_stream build verify n xs' seen' True)
      | (Fill_Eof chunk, _, seen') \<Rightarrow>
          if chunk = [] \<and> yielded then end_items verify seen'
          else (case build chunk of Inl fail \<Rightarrow> [Inl fail] | Inr b \<Rightarrow> Inr b # end_items verify seen'))"
  by pat_completeness auto
termination
  by (relation "measure (\<lambda>(b, v, n, xs, seen, y). length xs)") (auto dest: fill_checked_shorter [OF sym])

declare checked_stream.simps [simp del]

subsection \<open>What is kept, and how it is cut\<close>

definition kept_records :: "'r checked list \<Rightarrow> 'r list" where
  "kept_records xs = concat (map (\<lambda>x. case fst x of Inr (Some r) \<Rightarrow> [r] | _ \<Rightarrow> []) xs)"

definition counted :: "'r checked list \<Rightarrow> nat" where
  "counted xs = length (filter snd xs)"

definition all_pass :: "'r checked list \<Rightarrow> bool" where
  "all_pass xs \<longleftrightarrow> list_all (\<lambda>x. is_ok (fst x)) xs"

lemma kept_simps [simp]:
  "kept_records [] = []"
  "kept_records ((Inr kept, c) # xs) = (case kept of None \<Rightarrow> [] | Some r \<Rightarrow> [r]) @ kept_records xs"
  "counted [] = 0" "counted ((k, c) # xs) = of_bool c + counted xs"
  "all_pass []" "all_pass ((k, c) # xs) \<longleftrightarrow> is_ok k \<and> all_pass xs"
  by (simp_all add: kept_records_def counted_def all_pass_def split: option.split)

text \<open>Records cut into chunks of \<open>n\<close>; no record at all is one empty chunk.\<close>

function chunks_of :: "nat \<Rightarrow> 'a list \<Rightarrow> 'a list list" where
  "chunks_of n xs = (if xs = [] \<or> n = 0 then [] else take n xs # chunks_of n (drop n xs))"
  by pat_completeness auto
termination
  by (relation "measure (\<lambda>(n, xs). length xs)") auto

declare chunks_of.simps [simp del]

definition stream_chunks :: "nat \<Rightarrow> 'a list \<Rightarrow> 'a list list" where
  "stream_chunks n xs = (if xs = [] then [[]] else chunks_of n xs)"

lemma chunks_of_Nil [simp]: "chunks_of n [] = []"
  by (simp add: chunks_of.simps)

lemma chunks_of_step: "0 < n \<Longrightarrow> xs \<noteq> [] \<Longrightarrow> chunks_of n xs = take n xs # chunks_of n (drop n xs)"
  by (simp add: chunks_of.simps [of n xs])

lemma concat_chunks_of: "0 < n \<Longrightarrow> concat (chunks_of n xs) = xs"
  by (induction n xs rule: chunks_of.induct) (simp add: chunks_of.simps)

lemma chunks_of_length: "c \<in> set (chunks_of n xs) \<Longrightarrow> 0 < length c \<and> length c \<le> n \<and> set c \<subseteq> set xs"
proof (induction n xs rule: chunks_of.induct)
  case (1 n xs)
  then show ?case
    by (subst (asm) (2) chunks_of.simps) (auto split: if_splits dest: in_set_takeD in_set_dropD)
qed

lemma stream_chunks_concat: "0 < n \<Longrightarrow> concat (stream_chunks n xs) = xs"
  by (simp add: stream_chunks_def concat_chunks_of)

lemma stream_chunks_bound: "c \<in> set (stream_chunks n xs) \<Longrightarrow> length c \<le> n \<and> set c \<subseteq> set xs"
  using chunks_of_length by (fastforce simp: stream_chunks_def split: if_splits)

text \<open>A fill takes the records it needs, in order.\<close>

lemma fill_checked_pass:
  assumes "all_pass xs" "length acc < n" "fill_checked n xs seen acc = (e, xs', seen')"
  shows "if length acc + length (kept_records xs) < n
    then e = Fill_Eof (acc @ kept_records xs) \<and> seen' = seen + counted xs
    else \<exists>ys. e = Fill_Full (take n (acc @ kept_records xs)) \<and> xs = ys @ xs' \<and> seen' + counted xs' = seen + counted xs
      \<and> kept_records xs' = drop n (acc @ kept_records xs)"
  using assms
proof (induction n xs seen acc rule: fill_checked.induct)
  case (3 n kept c xs seen acc)
  let ?acc = "acc @ (case kept of None \<Rightarrow> [] | Some r \<Rightarrow> [r])"
  show ?case
  proof (cases "length ?acc = n")
    case True
    then obtain r where r: "kept = Some r" using 3(3) by (cases kept) auto
    then have "e = Fill_Full ?acc" "xs' = xs" "seen' = seen + of_bool c" using 3(4) True by auto
    then show ?thesis using True r by auto
  next
    case False
    then have "length ?acc < n" using 3(3) by (cases kept) auto
    moreover have "fill_checked n xs (seen + of_bool c) ?acc = (e, xs', seen')" using 3(4) False by simp
    ultimately have "if length ?acc + length (kept_records xs) < n
      then e = Fill_Eof (?acc @ kept_records xs) \<and> seen' = seen + of_bool c + counted xs
      else \<exists>ys. e = Fill_Full (take n (?acc @ kept_records xs)) \<and> xs = ys @ xs'
        \<and> seen' + counted xs' = seen + of_bool c + counted xs \<and> kept_records xs' = drop n (?acc @ kept_records xs)"
      using 3(1) [OF refl False] 3(2) by simp
    then show ?thesis
      by (cases kept) (auto simp: algebra_simps split: if_splits)
  qed
qed auto

subsection \<open>What a stream yields\<close>

text \<open>Chunks built in order until one fails to build, then the end.\<close>

fun deliver :: "('c \<Rightarrow> (load_failure, 'b) result) \<Rightarrow> 'c list \<Rightarrow> (load_failure, 'b) result list \<Rightarrow> (load_failure, 'b) result list" where
  "deliver build [] rest = rest"
| "deliver build (c # cs) rest = (case build c of Inl fail \<Rightarrow> [Inl fail] | Inr b \<Rightarrow> Inr b # deliver build cs rest)"

theorem checked_stream_pass:
  assumes "all_pass xs" "0 < n"
  shows "checked_stream build verify n xs seen yielded =
    deliver build ((if yielded then chunks_of else stream_chunks) n (kept_records xs)) (end_items verify (seen + counted xs))"
  using assms
proof (induction build verify n xs seen yielded rule: checked_stream.induct)
  case (1 build verify n xs seen yielded)
  obtain e xs' seen' where f: "fill_checked n xs seen [] = (e, xs', seen')" using prod_cases3 by blast
  note spec = fill_checked_pass [OF 1(2) _ f, simplified, OF 1(3)]
  show ?case
  proof (cases "length (kept_records xs) < n")
    case True
    then have e: "e = Fill_Eof (kept_records xs)" "seen' = seen + counted xs" using spec by auto
    have "chunks_of n (kept_records xs) = (if kept_records xs = [] then [] else [kept_records xs])"
      using True 1(3) by (simp add: chunks_of_step)
    then show ?thesis
      using e by (subst checked_stream.simps) (auto simp: f stream_chunks_def split: sum.split)
  next
    case False
    then obtain ys where e: "e = Fill_Full (take n (kept_records xs))" "xs = ys @ xs'"
      "seen' + counted xs' = seen + counted xs" "kept_records xs' = drop n (kept_records xs)"
      using spec by auto
    have ne: "kept_records xs \<noteq> []" using False 1(3) by auto
    have pass: "all_pass xs'" using 1(2) e(2) by (simp add: all_pass_def)
    have cut: "(if yielded then chunks_of else stream_chunks) n (kept_records xs)
      = take n (kept_records xs) # chunks_of n (kept_records xs')"
      using ne 1(3) e(4) by (simp add: stream_chunks_def chunks_of_step)
    show ?thesis
    proof (cases "build (take n (kept_records xs))")
      case (Inl fail)
      then show ?thesis unfolding cut by (subst checked_stream.simps) (simp add: f e(1))
    next
      case (Inr b)
      have "checked_stream build verify n xs' seen' True = deliver build (chunks_of n (kept_records xs')) (end_items verify (seen' + counted xs'))"
        using 1(1) [OF f [symmetric] e(1) refl Inr pass 1(3)] by simp
      then show ?thesis unfolding cut using e(3) by (subst checked_stream.simps) (simp add: f e(1) Inr)
    qed
  qed
qed

lemma fill_checked_fail:
  "\<not> all_pass xs \<Longrightarrow> fill_checked n xs seen acc = (e, xs', seen') \<Longrightarrow>
   (\<exists>fail. e = Fill_Failed fail) \<or> (\<exists>chunk. e = Fill_Full chunk \<and> \<not> all_pass xs')"
  by (induction n xs seen acc rule: fill_checked.induct) (auto simp: Let_def split: if_splits)

text \<open>A stream without a failure had only records that pass and an end of input that verifies.\<close>

theorem checked_stream_ok:
  assumes "list_all is_ok (checked_stream build verify n xs seen yielded)" "0 < n"
  shows "all_pass xs \<and> verify (seen + counted xs) = Inr ()"
proof -
  have pass: "all_pass xs"
    using assms
  proof (induction build verify n xs seen yielded rule: checked_stream.induct)
    case (1 build verify n xs seen yielded)
    obtain e xs' seen' where f: "fill_checked n xs seen [] = (e, xs', seen')" using prod_cases3 by blast
    show ?case
    proof (rule ccontr)
      assume "\<not> all_pass xs"
      from fill_checked_fail [OF this f] show False
      proof (elim disjE exE conjE)
        fix fail assume "e = Fill_Failed fail"
        then show False using 1(2) by (subst (asm) checked_stream.simps) (simp add: f)
      next
        fix chunk assume e: "e = Fill_Full chunk" "\<not> all_pass xs'"
        then obtain b where b: "build chunk = Inr b" "list_all is_ok (checked_stream build verify n xs' seen' True)"
          using 1(2) by (subst (asm) checked_stream.simps) (auto simp: f split: sum.splits)
        show False using 1(1) [OF f [symmetric] e(1) refl b 1(3)] e(2) by simp
      qed
    qed
  qed
  have "list_all is_ok (deliver build cs (end_items verify m)) \<Longrightarrow> verify m = Inr ()" for cs m
  proof (induction cs)
    case Nil
    then show ?case by (cases "verify m") (simp_all add: end_items_def)
  next
    case (Cons c cs)
    then show ?case by (cases "build c") simp_all
  qed
  then show ?thesis
    using assms(1) pass unfolding checked_stream_pass [OF pass assms(2)] by blast
qed

lemma deliver_built:
  "traverse build cs = Inr bs \<Longrightarrow> deliver build cs rest = map Inr bs @ rest"
  by (induction cs arbitrary: bs) (auto split: sum.splits)

lemma deliver_ok:
  "list_all is_ok (deliver build cs rest) \<Longrightarrow> \<exists>bs. traverse build cs = Inr bs \<and> deliver build cs rest = map Inr bs @ rest"
proof (induction cs)
  case (Cons c cs)
  then show ?case by (cases "build c") auto
qed simp

lemma traverse_builds:
  assumes "\<And>c. c \<in> set cs \<Longrightarrow> \<exists>b. build c = Inr b \<and> rb_rows b = length c"
  shows "\<exists>bs. traverse build cs = Inr bs \<and> map rb_rows bs = map length cs"
  using assms
proof (induction cs)
  case (Cons c cs)
  obtain bs where "traverse build cs = Inr bs" "map rb_rows bs = map length cs"
    using Cons.IH [OF Cons.prems] by auto
  moreover obtain b where "build c = Inr b" "rb_rows b = length c"
    using Cons.prems [of c] by auto
  ultimately show ?case by simp
qed simp

text \<open>When every chunk builds, the stream is one batch per chunk.\<close>

lemma deliver_chunks:
  assumes "\<And>c. c \<in> set cs \<Longrightarrow> \<exists>b. build c = Inr b \<and> rb_rows b = length c"
  shows "\<exists>bs. deliver build cs [] = map Inr bs \<and> traverse build cs = Inr bs \<and> map rb_rows bs = map length cs"
  using traverse_builds [OF assms] deliver_built [of build cs _ "[]"] by fastforce

end
