(* ===== verification/Stream_Csv.thy ===== *)
theory Stream_Csv
  imports Stream_Spec
begin

section \<open>The CSV chunk stream is the reference stream\<close>

text \<open>
  Collecting the items of the CSV stream of \<open>src/connector.rs\<close> ends, and gives what the
  reference stream over the checked records of pass 2 gives.
\<close>

definition csv_size :: "csv_library \<Rightarrow> source_file \<Rightarrow> csv_chunks \<Rightarrow> nat" where
  "csv_size L so self = (case cc_phase self of
     Done \<Rightarrow> 0 | Final_Check \<Rightarrow> 1 | Streaming \<Rightarrow> 2 + length (cg_records (the (cc_reading self)))
   | Not_Started \<Rightarrow> 3 + length (cv_records (csv_source_reader L so)))"

definition csv_checked :: "('d, 't) chrono \<Rightarrow> csv_chunks \<Rightarrow> (csv_error, csv_record) result list \<Rightarrow> text_record checked list" where
  "csv_checked C self recs = map (\<lambda>r. (csv_check_record C self r, True)) recs"

lemma csv_check_record_update [simp]:
  "csv_check_record C (self\<lparr>cc_reading := x\<rparr>) = csv_check_record C self"
  "csv_check_record C (self\<lparr>cc_phase := y\<rparr>) = csv_check_record C self"
  by (simp_all add: csv_check_record_def fun_eq_iff split: csv_item.split)

lemma csv_checked_update [simp]:
  "csv_checked C (self\<lparr>cc_reading := x\<rparr>) = csv_checked C self"
  "csv_checked C (self\<lparr>cc_phase := y\<rparr>) = csv_checked C self"
  by (simp_all add: csv_checked_def fun_eq_iff)

lemma csv_fill_checked:
  "csv_fill C self recs seen acc = (e, recs', seen') \<Longrightarrow>
   fill_checked (cc_chunk_rows self) (csv_checked C self recs) seen acc = (e, csv_checked C self recs', seen')"
  by (induction C self recs seen acc rule: csv_fill.induct)
    (auto simp: csv_checked_def Let_def split: sum.splits if_splits)

lemma csv_fill_shorter:
  "csv_fill C self recs seen acc = (Fill_Full acc', recs', seen') \<Longrightarrow> length recs' < length recs"
  using fill_checked_shorter [OF csv_fill_checked] by (fastforce simp: csv_checked_def)

lemma csv_open_records:
  "csv_open L so self = Inr reading \<Longrightarrow> cg_records reading = cv_records (csv_source_reader L so)"
  by (auto simp: csv_open_def open_source_file_def Let_def rbind_eq_Inr_iff split: option.splits sum.splits if_splits prod.splits)

lemma csv_stream_pull_size:
  assumes "csv_stream_pull C A self reading = (Some (Inr b), self')" "cc_phase self = Streaming" "cc_reading self = Some reading"
  shows "b \<noteq> None \<and> csv_size L so self' < csv_size L so self"
  using assms
  by (auto simp: csv_stream_pull_def csv_size_def Let_def rmap_eq_Inr_iff split: prod.splits fill_end.splits if_splits
      dest: csv_fill_shorter)

text \<open>A stream that was opened holds a reading until it is done.\<close>

definition csv_form :: "csv_chunks \<Rightarrow> bool" where
  "csv_form self \<longleftrightarrow> (cc_phase self = Streaming \<or> cc_phase self = Final_Check \<longrightarrow> cc_reading self \<noteq> None)"

lemma csv_next_chunk_done: "cc_phase self = Done \<Longrightarrow> csv_next_chunk C A L so self = (Inr None, self)"
  by (simp add: csv_next_chunk.simps)

lemma csv_next_chunk_final: "cc_phase self = Final_Check \<Longrightarrow> csv_next_chunk C A L so self = csv_final_check self"
  by (simp add: csv_next_chunk.simps)

lemma csv_next_chunk_streaming:
  assumes "cc_phase self = Streaming" "cc_reading self = Some reading"
  shows "csv_next_chunk C A L so self = (case csv_stream_pull C A self reading of
     (Some r, self') \<Rightarrow> (r, self') | (None, self') \<Rightarrow> csv_final_check self')"
  using assms csv_stream_pull_None [of C A self reading]
  by (subst csv_next_chunk.simps) (auto split: prod.split option.split simp: csv_next_chunk_final)

lemma csv_next_chunk_start:
  assumes "cc_phase self = Not_Started"
  shows "csv_next_chunk C A L so self = (case csv_open L so self of
     Inl fail \<Rightarrow> (Inl fail, self)
   | Inr reading \<Rightarrow> csv_next_chunk C A L so (self\<lparr>cc_reading := Some reading, cc_phase := Streaming\<rparr>))"
  using assms by (subst csv_next_chunk.simps) simp

lemma csv_final_check_done: "csv_final_check self = (r, self') \<Longrightarrow> cc_phase self' = Done \<and> r \<noteq> Inr (Some b)"
  by (auto simp: csv_final_check_def Let_def rmap_eq_Inr_iff)

lemma csv_streaming_size:
  assumes "cc_phase self = Streaming" "cc_reading self = Some reading"
    "csv_next_chunk C A L so self = (Inr (Some b), self')"
  shows "csv_size L so self' < csv_size L so self"
proof -
  obtain r s where p: "csv_stream_pull C A self reading = (r, s)" by fastforce
  show ?thesis
  proof (cases r)
    case None
    then show ?thesis
      using assms(3) p csv_final_check_done by (fastforce simp: csv_next_chunk_streaming [OF assms(1,2)])
  next
    case (Some x)
    then have "x = Inr (Some b)" "s = self'"
      using assms(3) p by (simp_all add: csv_next_chunk_streaming [OF assms(1,2)])
    then show ?thesis using csv_stream_pull_size [of C A self reading "Some b" self' L so] p Some assms(1,2) by blast
  qed
qed

lemma csv_next_size:
  assumes "csv_next C A L so self = (Some item, self')" "csv_form self"
  shows "csv_size L so self' < csv_size L so self"
proof -
  obtain r s where n: "csv_next_chunk C A L so self = (r, s)" by fastforce
  show ?thesis
  proof (cases r)
    case (Inl fail)
    then have "cc_phase self' = Done" "self' = s\<lparr>cc_phase := Done\<rparr>" using assms(1) n by (auto simp: csv_next_def)
    moreover have "cc_phase self \<noteq> Done" using n Inl csv_next_chunk_done [of self C A L so] by auto
    ultimately show ?thesis by (cases "cc_phase self") (simp_all add: csv_size_def)
  next
    case (Inr ob)
    then obtain b where b: "r = Inr (Some b)" "s = self'" using assms(1) n by (auto simp: csv_next_def split: option.splits)
    show ?thesis
    proof (cases "cc_phase self")
      case Done
      then show ?thesis using n b csv_next_chunk_done [of self C A L so] by auto
    next
      case Final_Check
      then show ?thesis using n b csv_next_chunk_final [of self C A L so] csv_final_check_done [of self r s b] by simp
    next
      case Streaming
      then show ?thesis using assms(2) csv_streaming_size n b by (auto simp: csv_form_def)
    next
      case Not_Started
      then obtain reading where o: "csv_open L so self = Inr reading"
        "csv_next_chunk C A L so (self\<lparr>cc_reading := Some reading, cc_phase := Streaming\<rparr>) = (Inr (Some b), self')"
        using n b by (auto simp: csv_next_chunk_start split: sum.splits)
      have "csv_size L so self' < csv_size L so (self\<lparr>cc_reading := Some reading, cc_phase := Streaming\<rparr>)"
        by (rule csv_streaming_size [OF _ _ o(2)]) simp_all
      then show ?thesis using Not_Started csv_open_records [OF o(1)] by (simp add: csv_size_def)
    qed
  qed
qed

text \<open>The items of a stream; on a stream of no form the code could reach, none.\<close>

function csv_items ::
  "('d, 't) chrono \<Rightarrow> arrow \<Rightarrow> csv_library \<Rightarrow> source_file \<Rightarrow> csv_chunks \<Rightarrow> (load_failure, record_batch) result list" where
  "csv_items C A L so self =
     (if csv_form self then
        (case csv_next C A L so self of (None, _) \<Rightarrow> [] | (Some item, self') \<Rightarrow> item # csv_items C A L so self')
      else [])"
  by pat_completeness auto
termination
  by (relation "measure (\<lambda>(C, A, L, so, self). csv_size L so self)") (auto dest: csv_next_size [OF sym])

declare csv_items.simps [simp del]

definition csv_verify :: "csv_chunks \<Rightarrow> 64 word \<Rightarrow> nat \<Rightarrow> (load_failure, unit) result" where
  "csv_verify self hash seen = verify_end_of_input (cc_expectations self) (cc_path self) seen hash"

lemma csv_verify_update [simp]:
  "csv_verify (self\<lparr>cc_reading := x\<rparr>) = csv_verify self"
  "csv_verify (self\<lparr>cc_phase := y\<rparr>) = csv_verify self"
  by (simp_all add: csv_verify_def fun_eq_iff)

lemma csv_items_done: "cc_phase self = Done \<Longrightarrow> csv_items C A L so self = []"
  by (subst csv_items.simps) (simp add: csv_next_def csv_next_chunk_done)

lemma csv_items_fail:
  assumes "csv_form self" "csv_next_chunk C A L so self = (Inl fail, self')"
  shows "csv_items C A L so self = [Inl fail]"
  using assms by (subst csv_items.simps) (simp add: csv_next_def csv_items_done)

lemma csv_items_step:
  assumes "csv_form self" "csv_next_chunk C A L so self = (Inr (Some b), self')"
  shows "csv_items C A L so self = Inr b # csv_items C A L so self'"
  using assms by (subst csv_items.simps) (simp add: csv_next_def)

lemma csv_items_end:
  assumes "csv_form self" "csv_next_chunk C A L so self = (Inr None, self')"
  shows "csv_items C A L so self = []"
  using assms by (subst csv_items.simps) (simp add: csv_next_def)

lemma csv_items_final:
  assumes "cc_phase self = Final_Check" "cc_reading self = Some reading"
  shows "csv_items C A L so self = end_items (csv_verify self (cg_hash reading)) (cg_seen reading)"
proof (cases "csv_verify self (cg_hash reading) (cg_seen reading)")
  case (Inl fail)
  then show ?thesis
    using assms csv_items_fail [of self C A L so fail "snd (csv_final_check self)"]
    by (simp add: csv_form_def csv_next_chunk_final csv_final_check_def csv_verify_def end_items_def)
next
  case (Inr u)
  then show ?thesis
    using assms csv_items_end [of self C A L so "snd (csv_final_check self)"]
    by (simp add: csv_form_def csv_next_chunk_final csv_final_check_def csv_verify_def end_items_def)
qed

text \<open>While streaming, the items are those of the reference stream over the records left.\<close>

lemma csv_items_streaming:
  assumes "cc_phase self = Streaming" "cc_reading self = Some reading"
  shows "csv_items C A L so self = checked_stream (build_text_chunk C A (cc_plan self))
    (csv_verify self (cg_hash reading)) (cc_chunk_rows self) (csv_checked C self (cg_records reading))
    (cg_seen reading) (cg_yielded_any reading)"
  using assms
proof (induction "length (cg_records reading)" arbitrary: self reading rule: less_induct)
  case less
  obtain e recs seen where f: "csv_fill C self (cg_records reading) (cg_seen reading) [] = (e, recs, seen)"
    using prod_cases3 by blast
  note g = csv_fill_checked [OF f]
  have form: "csv_form self" using less.prems by (simp add: csv_form_def)
  note next' = csv_next_chunk_streaming [OF less.prems, of C A L so]
  show ?case
  proof (cases e)
    case (Fill_Failed fail)
    then have "csv_next_chunk C A L so self = (Inl fail, self\<lparr>cc_reading := Some (reading\<lparr>cg_records := recs, cg_seen := seen\<rparr>)\<rparr>)"
      by (simp add: next' csv_stream_pull_def f)
    then show ?thesis
      using Fill_Failed by (simp add: csv_items_fail [OF form] checked_stream.simps g)
  next
    case (Fill_Full chunk)
    let ?r = "reading\<lparr>cg_records := recs, cg_seen := seen, cg_yielded_any := True\<rparr>"
    let ?s = "self\<lparr>cc_reading := Some ?r\<rparr>"
    have n: "csv_next_chunk C A L so self = (rmap Some (build_text_chunk C A (cc_plan self) chunk), ?s)"
      using Fill_Full by (simp add: next' csv_stream_pull_def f)
    show ?thesis
    proof (cases "build_text_chunk C A (cc_plan self) chunk")
      case (Inl fail)
      then show ?thesis
        using Fill_Full n by (simp add: csv_items_fail [OF form] checked_stream.simps g)
    next
      case (Inr b)
      have "length (cg_records ?r) < length (cg_records reading)"
        using csv_fill_shorter [OF f [unfolded Fill_Full]] by simp
      from less.hyps [OF this, of ?s] show ?thesis
        using Fill_Full n Inr less.prems
        by (subst checked_stream.simps) (simp add: csv_items_step [OF form] g)
    qed
  next
    case (Fill_Eof chunk)
    let ?self = "self\<lparr>cc_phase := Final_Check\<rparr>"
    show ?thesis
    proof (cases "chunk = [] \<and> cg_yielded_any reading")
      case True
      let ?s = "?self\<lparr>cc_reading := Some (reading\<lparr>cg_records := recs, cg_seen := seen\<rparr>)\<rparr>"
      have n: "csv_next_chunk C A L so self = csv_final_check ?s"
        using True Fill_Eof by (simp add: next' csv_stream_pull_def f)
      have "csv_items C A L so self = csv_items C A L so ?s"
        using n form csv_next_chunk_final [of ?s C A L so]
        by (subst (1 2) csv_items.simps) (simp add: csv_next_def csv_form_def)
      also have "\<dots> = end_items (csv_verify self (cg_hash reading)) seen"
        by (subst csv_items_final) auto
      finally show ?thesis using True Fill_Eof by (subst checked_stream.simps) (simp add: g)
    next
      case False
      let ?s = "?self\<lparr>cc_reading := Some (reading\<lparr>cg_records := recs, cg_seen := seen, cg_yielded_any := True\<rparr>)\<rparr>"
      have n: "csv_next_chunk C A L so self = (rmap Some (build_text_chunk C A (cc_plan self) chunk), ?s)"
        using False Fill_Eof by (auto simp: next' csv_stream_pull_def f Let_def)
      have "csv_items C A L so ?s = end_items (csv_verify self (cg_hash reading)) seen"
        by (subst csv_items_final) auto
      then show ?thesis
        using False Fill_Eof n
        by (subst checked_stream.simps, cases "build_text_chunk C A (cc_plan self) chunk")
          (auto simp: csv_items_fail [OF form] csv_items_step [OF form] g)
    qed
  qed
qed

lemma csv_items_start:
  assumes "cc_phase self = Not_Started"
  shows "csv_items C A L so self = (case csv_open L so self of
      Inl fail \<Rightarrow> [Inl fail]
    | Inr reading \<Rightarrow> checked_stream (build_text_chunk C A (cc_plan self)) (csv_verify self (cg_hash reading))
        (cc_chunk_rows self) (csv_checked C self (cg_records reading)) (cg_seen reading) (cg_yielded_any reading))"
proof (cases "csv_open L so self")
  case (Inl fail)
  then show ?thesis
    using assms by (simp add: csv_items_fail [of self C A L so fail self] csv_form_def csv_next_chunk_start)
next
  case (Inr reading)
  let ?s = "self\<lparr>cc_reading := Some reading, cc_phase := Streaming\<rparr>"
  have "csv_items C A L so self = csv_items C A L so ?s"
    using assms Inr by (subst (1 2) csv_items.simps) (simp add: csv_form_def csv_next_def csv_next_chunk_start)
  then show ?thesis
    using Inr csv_items_streaming [of ?s reading C A L so] by simp
qed

end
