(* ===== verification/Pass_Csv.thy ===== *)
theory Pass_Csv
  imports Observer_Facts Rejection_Facts Stream_Csv
begin

section \<open>The two passes over a CSV source\<close>

text \<open>
  What pass 1 of \<open>LocalFileSource::read_csv\<close> (\<open>src/connector.rs\<close>) leaves behind, in terms of the
  records of the source: the observer, the counts, the rejections in the sink, and the state of
  the chunk stream; and what pass 2 then checks of the same and of another source.
\<close>

subsection \<open>The records of a source\<close>

definition csv_text_records :: "string list \<Rightarrow> (csv_error, csv_record) result list \<Rightarrow> text_record list" where
  "csv_text_records names recs = List.map_filter
     (\<lambda>r. case csv_item_of r (length names) of Csv_Record t \<Rightarrow> Some t | Csv_Rejected _ \<Rightarrow> None) recs"

text \<open>The rejection a record earns under the resolved checks: its own, or the validator's.\<close>

definition csv_rejection ::
  "('d, 't) chrono \<Rightarrow> field_check list \<Rightarrow> string list \<Rightarrow> (csv_error, csv_record) result \<Rightarrow> rejected_record option" where
  "csv_rejection C checks names r = (case csv_item_of r (length names) of
     Csv_Rejected rj \<Rightarrow> Some rj | Csv_Record t \<Rightarrow> validate_text_record C t checks names)"

definition csv_rejections ::
  "('d, 't) chrono \<Rightarrow> field_check list \<Rightarrow> string list \<Rightarrow> (csv_error, csv_record) result list \<Rightarrow> rejected_record list" where
  "csv_rejections C checks names recs = List.map_filter (csv_rejection C checks names) recs"

definition csv_survivors ::
  "('d, 't) chrono \<Rightarrow> field_check list \<Rightarrow> string list \<Rightarrow> (csv_error, csv_record) result list \<Rightarrow> text_record list" where
  "csv_survivors C checks names recs = filter (text_survives C checks names) (csv_text_records names recs)"

definition csv_record_line :: "string list \<Rightarrow> (csv_error, csv_record) result \<Rightarrow> nat" where
  "csv_record_line names r = csv_item_line (csv_item_of r (length names))"

lemma csv_records_simps [simp]:
  "csv_text_records names [] = []"
  "csv_text_records names (r # recs) = (case csv_item_of r (length names) of
     Csv_Record t \<Rightarrow> t # csv_text_records names recs | Csv_Rejected _ \<Rightarrow> csv_text_records names recs)"
  "csv_rejections C checks names [] = []"
  "csv_rejections C checks names (r # recs) = (case csv_rejection C checks names r of
     Some rj \<Rightarrow> rj # csv_rejections C checks names recs | None \<Rightarrow> csv_rejections C checks names recs)"
  by (simp_all add: csv_text_records_def csv_rejections_def map_filter_simps split: csv_item.split option.split)

lemma csv_text_records_length: "t \<in> set (csv_text_records names recs) \<Longrightarrow> length (tx_cells t) = length names"
  by (induction recs) (auto split: csv_item.splits dest: csv_item_cells)

lemma csv_rejection_line: "csv_rejection C checks names r = Some rj \<Longrightarrow> rj_line rj = csv_record_line names r"
  by (auto simp: csv_rejection_def csv_record_line_def csv_item_line_def split: csv_item.splits dest: validate_text_line)

lemma csv_rejections_lines:
  "rj_line ` set (csv_rejections C checks names recs)
     = csv_record_line names ` {r \<in> set recs. csv_rejection C checks names r \<noteq> None}"
  by (induction recs) (auto split: option.splits dest: csv_rejection_line)

subsection \<open>Pass 1\<close>

lemma csv_pass_one_record_effect:
  assumes "to_checks (cs_observer st) = Some checks" "sink_holds T (cs_sink st) (cs_files st) rs"
    "st' = csv_pass_one_record C T names st r"
  shows "cs_observer st' = fst (text_observe_all C names (cs_observer st) (csv_text_records names [r]))
    \<and> cs_parsed_records st' + cs_parse_rejected st' = Suc (cs_parsed_records st + cs_parse_rejected st)
    \<and> sink_holds T (cs_sink st') (cs_files st') (rs @ csv_rejections C checks names [r])"
proof -
  have sink: "sink_holds T (cs_sink (csv_sink_record T rj s)) (cs_files (csv_sink_record T rj s)) (rs @ [rj])"
    "cs_observer (csv_sink_record T rj s) = cs_observer s"
    "cs_parsed_records (csv_sink_record T rj s) = cs_parsed_records s"
    "cs_parse_rejected (csv_sink_record T rj s) = cs_parse_rejected s"
    if "cs_sink s = cs_sink st" "cs_files s = cs_files st" for s rj
    using sink_record_holds [OF assms(2), of rj] that
    by (auto simp: csv_sink_record_def split: prod.split)
  show ?thesis
  proof (cases "csv_item_of r (length names)")
    case (Csv_Rejected rj)
    then show ?thesis
      using sink [of "st\<lparr>cs_parse_rejected := cs_parse_rejected st + 1\<rparr>" rj]
      by (simp add: assms(3) csv_pass_one_record_def csv_rejection_def)
  next
    case (Csv_Record t)
    obtain obs rj where o: "text_observe C names (cs_observer st) t = (obs, rj)" by fastforce
    have rj: "rj = validate_text_record C t checks names"
      using o assms(1) by (auto simp: text_observe_def Let_def split: option.splits)
    show ?thesis
      using Csv_Record o rj assms(2)
        sink [of "st\<lparr>cs_parsed_records := cs_parsed_records st + 1, cs_observer := obs\<rparr>"]
      by (cases "validate_text_record C t checks names")
        (simp_all add: assms(3) csv_pass_one_record_def csv_rejection_def Let_def)
  qed
qed

lemma text_observe_all_append:
  "fst (text_observe_all C names obs (xs @ ys)) = fst (text_observe_all C names (fst (text_observe_all C names obs xs)) ys)"
  by (induction xs arbitrary: obs) (simp_all add: case_prod_unfold Let_def)

lemma csv_text_records_append: "csv_text_records names (xs @ ys) = csv_text_records names xs @ csv_text_records names ys"
  by (induction xs) (simp_all split: csv_item.split)

lemma csv_rejections_append:
  "csv_rejections C checks names (xs @ ys) = csv_rejections C checks names xs @ csv_rejections C checks names ys"
  by (induction xs) (simp_all split: option.split)

lemma csv_pass_one_effect:
  assumes "to_checks (cs_observer st) = Some checks" "sink_holds T (cs_sink st) (cs_files st) []"
    "st' = foldl (csv_pass_one_record C T names) st recs"
  shows "cs_observer st' = fst (text_observe_all C names (cs_observer st) (csv_text_records names recs))
    \<and> cs_parsed_records st' + cs_parse_rejected st' = length recs + cs_parsed_records st + cs_parse_rejected st
    \<and> sink_holds T (cs_sink st') (cs_files st') (csv_rejections C checks names recs)"
  using assms(3)
proof (induction recs arbitrary: st' rule: rev_induct)
  case Nil
  then show ?case using assms by simp
next
  case (snoc r recs)
  let ?m = "foldl (csv_pass_one_record C T names) st recs"
  note IH = snoc.IH [OF refl]
  have c: "to_checks (cs_observer ?m) = Some checks"
    using IH assms(1) by (simp add: text_observe_all_checks)
  have st': "st' = csv_pass_one_record C T names ?m r" using snoc.prems by simp
  show ?case
    using csv_pass_one_record_effect [OF c conjunct2 [OF conjunct2 [OF IH]] st'] IH
    by (simp add: csv_text_records_append csv_rejections_append text_observe_all_append del: csv_records_simps(2,4))
qed

text \<open>A CSV pass 1 that resolved: what it hands to pass 2 and leaves in the sink.\<close>

lemma read_csv_Inr:
  assumes "read_csv C T Y L so self d keys n sink f = (Inr sr, sink', f')" "sink_holds T sink f []"
  obtains names rs where
    "so_open_error so = None" "is_ok (so_inspect so)"
    "read_csv_header (csv_source_reader L so) (ls_path self) = Inr names" "names \<noteq> []"
    "text_finish Y d keys names (fst (text_observe_all C names (text_observer_new Y d keys names)
        (csv_text_records names (cv_records (csv_source_reader L so))))) = Inr rs"
    "sink_holds T sink' f' (csv_rejections C (rs_checks rs) names (cv_records (csv_source_reader L so)))"
    "sr_source_rows sr = length (cv_records (csv_source_reader L so))" "sr_rejected_count sr = sk_count sink'"
    "sr_chunks sr = Csv_Chunks
       \<lparr>cc_path = ls_path self, cc_plan = rs_plan rs, cc_checks = rs_checks rs, cc_field_names = names,
        cc_chunk_rows = n,
        cc_expectations = \<lparr>po_rejected_lines = sk_lines sink',
          po_records = length (cv_records (csv_source_reader L so)), po_hash = csv_pass_hash so\<rparr>,
        cc_reading = None, cc_phase = Not_Started\<rparr>"
proof -
  obtain len where o: "so_open_error so = None" "so_inspect so = Inr len"
    using assms(1) by (auto simp: read_csv_def open_source_file_def split: option.splits sum.splits)
  then have o': "open_source_file (ls_path self) ''CSV'' so = Inr (so, len)" by (simp add: open_source_file_def)
  let ?recs = "cv_records (csv_source_reader L so)"
  obtain names where h: "read_csv_header (csv_source_reader L so) (ls_path self) = Inr names"
    using assms(1) by (auto simp: read_csv_def o' Let_def split: sum.splits)
  have ne: "names \<noteq> []" using h by (auto simp: read_csv_header_def split: sum.splits if_splits)
  let ?st = "\<lparr>cs_observer = text_observer_new Y d keys names, cs_sink = sink, cs_files = f,
      cs_parsed_records = 0, cs_parse_rejected = 0\<rparr>"
  let ?last = "foldl (csv_pass_one_record C T names) ?st ?recs"
  obtain rs where fin: "text_finish Y d keys names (cs_observer ?last) = Inr rs"
    using assms(1) by (auto simp: read_csv_def o' h Let_def split: sum.splits)
  have c: "to_checks (cs_observer ?st) = Some (rs_checks rs)"
    using text_observer_new_checks [OF fin [unfolded text_finish_def]] by simp
  note e = csv_pass_one_effect [OF c _ refl, of T C names ?recs, simplified, OF assms(2)]
  have r: "sr = source_read_of rs len (cs_parsed_records ?last + cs_parse_rejected ?last) (cs_sink ?last) (Csv_Chunks
       \<lparr>cc_path = ls_path self, cc_plan = rs_plan rs, cc_checks = rs_checks rs, cc_field_names = names,
        cc_chunk_rows = n,
        cc_expectations = \<lparr>po_rejected_lines = sk_lines (cs_sink ?last),
          po_records = cs_parsed_records ?last + cs_parse_rejected ?last, po_hash = csv_pass_hash so\<rparr>,
        cc_reading = None, cc_phase = Not_Started\<rparr>)" "sink' = cs_sink ?last" "f' = cs_files ?last"
    using assms(1) by (auto simp: read_csv_def o' h Let_def fin)
  show ?thesis
    by (rule that [of names rs]) (use o h ne fin e r in \<open>simp_all add: source_read_of_def\<close>)
qed

subsection \<open>Pass 2\<close>

text \<open>A checked record passes iff its outcome is the one pass 1 gave to its line.\<close>

lemma csv_check_record_iff:
  "csv_check_record C chunks r = Inr kept \<longleftrightarrow>
     (csv_rejection C (cc_checks chunks) (cc_field_names chunks) r \<noteq> None)
       = (csv_record_line (cc_field_names chunks) r \<in> set (po_rejected_lines (cc_expectations chunks)))
     \<and> kept = (case csv_item_of r (length (cc_field_names chunks)) of
           Csv_Rejected _ \<Rightarrow> None
         | Csv_Record t \<Rightarrow> if text_survives C (cc_checks chunks) (cc_field_names chunks) t then Some t else None)"
  by (auto simp: csv_check_record_def csv_rejection_def csv_record_line_def csv_item_line_def rmap_eq_Inr_iff
      cross_check_Inr_iff text_survives_def split: csv_item.split if_splits)

definition csv_agrees :: "('d, 't) chrono \<Rightarrow> csv_chunks \<Rightarrow> (csv_error, csv_record) result list \<Rightarrow> bool" where
  "csv_agrees C chunks recs \<longleftrightarrow> (\<forall>r\<in>set recs.
     (csv_rejection C (cc_checks chunks) (cc_field_names chunks) r \<noteq> None)
       = (csv_record_line (cc_field_names chunks) r \<in> set (po_rejected_lines (cc_expectations chunks))))"

lemma csv_all_pass_iff: "all_pass (csv_checked C chunks recs) \<longleftrightarrow> csv_agrees C chunks recs"
  by (simp add: all_pass_def csv_checked_def csv_agrees_def list_all_iff is_ok_iff csv_check_record_iff)

lemma csv_kept:
  assumes "csv_agrees C chunks recs"
  shows "kept_records (csv_checked C chunks recs) = csv_survivors C (cc_checks chunks) (cc_field_names chunks) recs"
  using assms
proof (induction recs)
  case (Cons r recs)
  let ?kept = "case csv_item_of r (length (cc_field_names chunks)) of
      Csv_Rejected _ \<Rightarrow> None
    | Csv_Record t \<Rightarrow> if text_survives C (cc_checks chunks) (cc_field_names chunks) t then Some t else None"
  have "csv_check_record C chunks r = Inr ?kept"
    using Cons.prems by (simp add: csv_check_record_iff csv_agrees_def)
  moreover have "csv_agrees C chunks recs" using Cons.prems by (simp add: csv_agrees_def)
  ultimately show ?case
    using Cons.IH by (auto simp: csv_checked_def csv_survivors_def split: csv_item.split)
qed (simp_all add: csv_checked_def csv_survivors_def)

lemma csv_counted [simp]: "counted (csv_checked C chunks recs) = length recs"
  by (induction recs) (simp_all add: csv_checked_def)

lemma csv_open_Inr_iff:
  "csv_open L so chunks = Inr reading \<longleftrightarrow>
     so_open_error so = None \<and> is_ok (so_inspect so)
     \<and> read_csv_header (csv_source_reader L so) (cc_path chunks) = Inr (cc_field_names chunks)
     \<and> reading = \<lparr>cg_records = cv_records (csv_source_reader L so), cg_hash = csv_pass_hash so, cg_seen = 0, cg_yielded_any = False\<rparr>"
  by (auto simp: csv_open_def open_source_file_def Let_def rbind_eq_Inr_iff is_ok_iff split: option.splits sum.splits if_splits)

text \<open>
  A stream that ended without a failure met a source with the header, the number of records,
  the byte hash and, record by record, the outcomes of pass 1, and yielded its survivors.
\<close>

lemma csv_stream_ok:
  assumes "list_all is_ok (csv_items C A L so chunks)" "cc_phase chunks = Not_Started" "0 < cc_chunk_rows chunks"
  shows "read_csv_header (csv_source_reader L so) (cc_path chunks) = Inr (cc_field_names chunks)
    \<and> length (cv_records (csv_source_reader L so)) = po_records (cc_expectations chunks)
    \<and> csv_pass_hash so = po_hash (cc_expectations chunks)
    \<and> csv_agrees C chunks (cv_records (csv_source_reader L so))
    \<and> (\<exists>bs. csv_items C A L so chunks = map Inr bs
        \<and> traverse (build_text_chunk C A (cc_plan chunks))
            (stream_chunks (cc_chunk_rows chunks) (csv_survivors C (cc_checks chunks) (cc_field_names chunks)
              (cv_records (csv_source_reader L so)))) = Inr bs)"
proof -
  let ?recs = "cv_records (csv_source_reader L so)"
  obtain reading where o: "csv_open L so chunks = Inr reading"
    using assms(1) csv_items_start [OF assms(2), of C A L so] by (auto split: sum.splits)
  then have reading: "read_csv_header (csv_source_reader L so) (cc_path chunks) = Inr (cc_field_names chunks)"
    "reading = \<lparr>cg_records = ?recs, cg_hash = csv_pass_hash so, cg_seen = 0, cg_yielded_any = False\<rparr>"
    by (auto simp: csv_open_Inr_iff)
  let ?stream = "checked_stream (build_text_chunk C A (cc_plan chunks)) (csv_verify chunks (csv_pass_hash so))
      (cc_chunk_rows chunks) (csv_checked C chunks ?recs) 0 False"
  have items: "csv_items C A L so chunks = ?stream"
    using csv_items_start [OF assms(2), of C A L so] o reading(2) by simp
  have ok: "all_pass (csv_checked C chunks ?recs)" "csv_verify chunks (csv_pass_hash so) (length ?recs) = Inr ()"
    using checked_stream_ok [OF assms(1) [unfolded items] assms(3)] by simp_all
  have agrees: "csv_agrees C chunks ?recs" using ok(1) by (simp add: csv_all_pass_iff)
  have d: "?stream = deliver (build_text_chunk C A (cc_plan chunks))
      (stream_chunks (cc_chunk_rows chunks) (csv_survivors C (cc_checks chunks) (cc_field_names chunks) ?recs)) []"
    using checked_stream_pass [OF ok(1) assms(3), of "build_text_chunk C A (cc_plan chunks)" "csv_verify chunks (csv_pass_hash so)" 0 False]
      ok(2) csv_kept [OF agrees] by (simp add: end_items_def)
  have "\<exists>bs. traverse (build_text_chunk C A (cc_plan chunks))
      (stream_chunks (cc_chunk_rows chunks) (csv_survivors C (cc_checks chunks) (cc_field_names chunks) ?recs)) = Inr bs
      \<and> ?stream = map Inr bs"
    using deliver_ok [of "build_text_chunk C A (cc_plan chunks)" _ "[]"] assms(1) unfolding items d by fastforce
  then show ?thesis
    using reading(1) ok(2) agrees
    by (auto simp: items csv_verify_def verify_end_of_input_def split: if_splits)
qed

text \<open>A stream over a source that verifies and agrees with pass 1 delivers the survivors.\<close>

lemma csv_stream_agrees:
  assumes "csv_open L so chunks = Inr reading" "cc_phase chunks = Not_Started" "0 < cc_chunk_rows chunks"
    "csv_agrees C chunks (cv_records (csv_source_reader L so))"
    "length (cv_records (csv_source_reader L so)) = po_records (cc_expectations chunks)"
    "csv_pass_hash so = po_hash (cc_expectations chunks)"
  shows "csv_items C A L so chunks = deliver (build_text_chunk C A (cc_plan chunks))
    (stream_chunks (cc_chunk_rows chunks) (csv_survivors C (cc_checks chunks) (cc_field_names chunks)
      (cv_records (csv_source_reader L so)))) []"
proof -
  let ?recs = "cv_records (csv_source_reader L so)"
  have reading: "reading = \<lparr>cg_records = ?recs, cg_hash = csv_pass_hash so, cg_seen = 0, cg_yielded_any = False\<rparr>"
    using assms(1) by (simp add: csv_open_Inr_iff)
  have "csv_verify chunks (csv_pass_hash so) (length ?recs) = Inr ()"
    using assms(5,6) by (simp add: csv_verify_def verify_end_of_input_def)
  then show ?thesis
    using csv_items_start [OF assms(2), of C A L so] assms(1) reading
      checked_stream_pass [OF _ assms(3), of "csv_checked C chunks ?recs" "build_text_chunk C A (cc_plan chunks)"
        "csv_verify chunks (csv_pass_hash so)" 0 False]
      assms(4) csv_kept [OF assms(4)]
    by (simp add: csv_all_pass_iff end_items_def)
qed

subsection \<open>The stream of a pass 1\<close>

text \<open>The lines of two records tell their outcomes apart: no line has an accepted and a rejected record.\<close>

definition csv_lines_tell :: "('d, 't) chrono \<Rightarrow> csv_chunks \<Rightarrow> (csv_error, csv_record) result list \<Rightarrow> bool" where
  "csv_lines_tell C chunks recs \<longleftrightarrow> list_all (\<lambda>r. list_all (\<lambda>q.
     csv_record_line (cc_field_names chunks) r = csv_record_line (cc_field_names chunks) q \<longrightarrow>
     (csv_rejection C (cc_checks chunks) (cc_field_names chunks) r = None)
       = (csv_rejection C (cc_checks chunks) (cc_field_names chunks) q = None)) recs) recs"

text \<open>The chunk stream that pass 1 over the source \<open>so\<close> hands to pass 2, before its first pull.\<close>

definition csv_stream_of ::
  "('d, 't) chrono \<Rightarrow> yaml \<Rightarrow> csv_library \<Rightarrow> source_file \<Rightarrow> schema_directive \<Rightarrow> merge_keys \<Rightarrow> nat \<Rightarrow> resolution \<Rightarrow> csv_chunks \<Rightarrow> bool" where
  "csv_stream_of C Y L so d keys n rs chunks \<longleftrightarrow>
     cc_plan chunks = rs_plan rs \<and> cc_checks chunks = rs_checks rs \<and> cc_chunk_rows chunks = n
   \<and> cc_phase chunks = Not_Started \<and> cc_field_names chunks \<noteq> []
   \<and> text_finish Y d keys (cc_field_names chunks) (fst (text_observe_all C (cc_field_names chunks)
       (text_observer_new Y d keys (cc_field_names chunks))
       (csv_text_records (cc_field_names chunks) (cv_records (csv_source_reader L so))))) = Inr rs
   \<and> is_ok (csv_open L so chunks)
   \<and> po_records (cc_expectations chunks) = length (cv_records (csv_source_reader L so))
   \<and> po_hash (cc_expectations chunks) = csv_pass_hash so
   \<and> set (po_rejected_lines (cc_expectations chunks)) = csv_record_line (cc_field_names chunks) `
       {r \<in> set (cv_records (csv_source_reader L so)). csv_rejection C (cc_checks chunks) (cc_field_names chunks) r \<noteq> None}"

lemma csv_first_pass:
  assumes "read_csv C T Y L so self d keys n sink f = (Inr sr, sink', f')" "sink_holds T sink f []"
    "sr_chunks sr = Csv_Chunks chunks"
  obtains rs where "csv_stream_of C Y L so d keys n rs chunks"
    "sink_holds T sink' f' (csv_rejections C (cc_checks chunks) (cc_field_names chunks) (cv_records (csv_source_reader L so)))"
proof -
  let ?recs = "cv_records (csv_source_reader L so)"
  obtain names rs where r: "so_open_error so = None" "is_ok (so_inspect so)"
    "read_csv_header (csv_source_reader L so) (ls_path self) = Inr names" "names \<noteq> []"
    and fin: "text_finish Y d keys names (fst (text_observe_all C names (text_observer_new Y d keys names)
        (csv_text_records names ?recs))) = Inr rs"
    and sink: "sink_holds T sink' f' (csv_rejections C (rs_checks rs) names ?recs)"
    and c: "sr_chunks sr = Csv_Chunks \<lparr>cc_path = ls_path self, cc_plan = rs_plan rs, cc_checks = rs_checks rs,
        cc_field_names = names, cc_chunk_rows = n,
        cc_expectations = \<lparr>po_rejected_lines = sk_lines sink', po_records = length ?recs, po_hash = csv_pass_hash so\<rparr>,
        cc_reading = None, cc_phase = Not_Started\<rparr>"
    by (rule read_csv_Inr [OF assms(1,2)]) (rule that)
  note c = c [unfolded assms(3) source_chunks.inject]
  have "is_ok (csv_open L so chunks)"
    unfolding is_ok_iff [of "csv_open L so chunks"] csv_open_Inr_iff using r c by simp
  then have "csv_stream_of C Y L so d keys n rs chunks"
    using r(4) fin sink c csv_rejections_lines [of C "rs_checks rs" names ?recs]
    by (simp add: csv_stream_of_def sink_holds_def)
  then show ?thesis using that [of rs] sink c by simp
qed

lemma image_tells:
  "(\<forall>r\<in>S. P r = (h r \<in> h ` {r \<in> S. P r})) \<longleftrightarrow> (\<forall>r\<in>S. \<forall>q\<in>S. h r = h q \<longrightarrow> (\<not> P r) = (\<not> P q))"
  (is "?L \<longleftrightarrow> ?R")
proof
  assume L: ?L
  show ?R
  proof (intro ballI impI)
    fix r q assume rq: "r \<in> S" "q \<in> S" "h r = h q"
    then show "(\<not> P r) = (\<not> P q)" using L by simp
  qed
next
  assume R: ?R
  show ?L
  proof
    fix r assume r: "r \<in> S"
    show "P r = (h r \<in> h ` {r \<in> S. P r})"
    proof
      assume "h r \<in> h ` {r \<in> S. P r}"
      then obtain q where q: "q \<in> S" "P q" "h r = h q" by auto
      then show "P r" using R [rule_format, OF r q(1,3)] by blast
    qed (use r in auto)
  qed
qed

lemma csv_agrees_lines:
  assumes "set (po_rejected_lines (cc_expectations chunks)) = csv_record_line (cc_field_names chunks) `
     {r \<in> set recs. csv_rejection C (cc_checks chunks) (cc_field_names chunks) r \<noteq> None}"
  shows "csv_agrees C chunks recs \<longleftrightarrow> csv_lines_tell C chunks recs"
proof -
  let ?P = "\<lambda>r. csv_rejection C (cc_checks chunks) (cc_field_names chunks) r \<noteq> None"
  have "csv_agrees C chunks recs \<longleftrightarrow>
      (\<forall>r\<in>set recs. ?P r = (csv_record_line (cc_field_names chunks) r \<in> csv_record_line (cc_field_names chunks) ` {r \<in> set recs. ?P r}))"
    unfolding csv_agrees_def assms ..
  also have "\<dots> \<longleftrightarrow> csv_lines_tell C chunks recs"
    unfolding image_tells csv_lines_tell_def list_all_iff not_not ..
  finally show ?thesis .
qed

text \<open>Over the source of pass 1 every chunk of survivors builds.\<close>

lemma csv_stream_builds:
  assumes "csv_stream_of C Y L so d keys n rs chunks" "arrow_contract A" "dir_ok d" "tr_flatten (dir_transform d) = []"
    "set chunk \<subseteq> set (csv_survivors C (cc_checks chunks) (cc_field_names chunks) (cv_records (csv_source_reader L so)))"
  shows "\<exists>b. build_text_chunk C A (cc_plan chunks) chunk = Inr b \<and> batch_of (cc_plan chunks) (length chunk) b"
proof -
  have s: "cc_plan chunks = rs_plan rs" "cc_checks chunks = rs_checks rs" "cc_field_names chunks \<noteq> []"
    "text_finish Y d keys (cc_field_names chunks) (fst (text_observe_all C (cc_field_names chunks)
       (text_observer_new Y d keys (cc_field_names chunks))
       (csv_text_records (cc_field_names chunks) (cv_records (csv_source_reader L so))))) = Inr rs"
    using assms(1) by (simp_all add: csv_stream_of_def)
  have len: "\<forall>t\<in>set (csv_text_records (cc_field_names chunks) (cv_records (csv_source_reader L so))).
      length (tx_cells t) = length (cc_field_names chunks)"
    using csv_text_records_length by blast
  have sub: "set chunk \<subseteq> set (csv_text_records (cc_field_names chunks) (cv_records (csv_source_reader L so)))"
    "\<forall>t\<in>set chunk. validate_text_record C t (rs_checks rs) (cc_field_names chunks) = None"
    using assms(5) s(2) by (auto simp: csv_survivors_def text_survives_def)
  show ?thesis
    unfolding s(1) by (rule text_chunk_builds [OF assms(2,3,4) s(3) len s(4) sub])
qed

end
