(* ===== verification/Stream_Jsonl.thy ===== *)
theory Stream_Jsonl
  imports Stream_Spec
begin

section \<open>The JSONL chunk stream is the reference stream\<close>

text \<open>
  Collecting the items of the JSONL stream of \<open>src/connector.rs\<close> ends, and gives what the
  reference stream over the checked lines of pass 2 gives.
\<close>

definition total_hash :: "byte_reader \<Rightarrow> 64 word" where
  "total_hash r = hash_update (br_rest r) (br_hash r)"

lemma read_until_total: "read_until_newline r = (x, r') \<Longrightarrow> total_hash r' = total_hash r"
  using hash_update_append [of "fst (take_line (br_rest r))" "snd (take_line (br_rest r))" "br_hash r", symmetric]
    take_line_append [of "br_rest r"]
  by (auto simp: read_until_newline_def total_hash_def Let_def split: prod.splits option.splits if_splits)

lemma read_until_end:
  assumes "read_until_newline r = (Inr [], r')"
  shows "br_hash r' = total_hash r"
proof -
  have "fst (take_line (br_rest r)) = []"
    using assms by (auto simp: read_until_newline_def Let_def split: prod.splits option.splits if_splits)
  then have "br_rest r = []" using take_line_nonempty by blast
  then show ?thesis using assms by (auto simp: read_until_newline_def total_hash_def Let_def split: option.splits)
qed

definition jsonl_read_failed :: "string \<Rightarrow> nat \<Rightarrow> string \<Rightarrow> load_failure" where
  "jsonl_read_failed path line_number error = failure ''source_read_failed'' [Lit ''failed to read JSONL source '', Txt path,
     Lit '' after line '', Num line_number, Lit '': '', Txt error]"

text \<open>The checked lines left of a reader; a read failure is a last line that fails.\<close>

function jsonl_checked ::
  "('d, 't) chrono \<Rightarrow> json_text \<Rightarrow> jsonl_chunks \<Rightarrow> byte_reader \<Rightarrow> nat \<Rightarrow> json_record checked list" where
  "jsonl_checked C T self reader n = (case read_until_newline reader of
     (Inl error, _) \<Rightarrow> [(Inl (jsonl_read_failed (jc_path self) n error), False)]
   | (Inr line, reader') \<Rightarrow>
       if line = [] then [] else jsonl_check_line C T self line (n + 1) # jsonl_checked C T self reader' (n + 1))"
  by pat_completeness auto
termination
  by (relation "measure (\<lambda>(C, T, self, r, n). length (br_rest r))") (auto dest: read_until_shorter [OF sym])

declare jsonl_checked.simps [simp del]

lemma jsonl_check_line_update [simp]:
  "jsonl_check_line C T (self\<lparr>jc_reading := x\<rparr>) = jsonl_check_line C T self"
  "jsonl_check_line C T (self\<lparr>jc_phase := y\<rparr>) = jsonl_check_line C T self"
  by (simp_all add: jsonl_check_line_def fun_eq_iff split: jsonl_line.split option.split)

lemma jsonl_checked_update [simp]:
  "jsonl_checked C T (self\<lparr>jc_reading := x\<rparr>) r n = jsonl_checked C T self r n"
  "jsonl_checked C T (self\<lparr>jc_phase := y\<rparr>) r n = jsonl_checked C T self r n"
  by (induction C T self r n rule: jsonl_checked.induct)
    (subst (1 2) jsonl_checked.simps, auto split: prod.split sum.split)+

lemma jsonl_fill_checked:
  "jsonl_fill C T self reading acc = (e, reading') \<Longrightarrow>
   \<exists>xs seen. fill_checked (jc_chunk_rows self) (jsonl_checked C T self (jg_reader reading) (jg_line_number reading))
       (jg_seen reading) acc = (e, xs, seen)
     \<and> (case e of Fill_Failed fail \<Rightarrow> True
        | Fill_Full chunk \<Rightarrow> xs = jsonl_checked C T self (jg_reader reading') (jg_line_number reading')
            \<and> seen = jg_seen reading' \<and> length (br_rest (jg_reader reading')) < length (br_rest (jg_reader reading))
            \<and> total_hash (jg_reader reading') = total_hash (jg_reader reading)
        | Fill_Eof chunk \<Rightarrow> seen = jg_seen reading' \<and> br_hash (jg_reader reading') = total_hash (jg_reader reading)
            \<and> jg_yielded_any reading' = jg_yielded_any reading)"
proof (induction C T self reading acc rule: jsonl_fill.induct)
  case (1 C T self reading acc)
  obtain x reader where r: "read_until_newline (jg_reader reading) = (x, reader)" by fastforce
  show ?case
  proof (cases x)
    case (Inl error)
    then show ?thesis
      using 1(2) r by (auto simp: jsonl_fill.simps [of C T self reading] jsonl_checked.simps [of C T self "jg_reader reading"]
          jsonl_read_failed_def)
  next
    case (Inr line)
    show ?thesis
    proof (cases "line = []")
      case True
      then show ?thesis
        using 1(2) r Inr read_until_end [of "jg_reader reading" reader]
        by (auto simp: jsonl_fill.simps [of C T self reading] jsonl_checked.simps [of C T self "jg_reader reading"])
    next
      case False
      have shorter: "length (br_rest reader) < length (br_rest (jg_reader reading))"
        using read_until_shorter [of "jg_reader reading" line reader] r Inr False by simp
      have total: "total_hash reader = total_hash (jg_reader reading)" by (rule read_until_total [OF r])
      obtain k c where k: "jsonl_check_line C T self line (jg_line_number reading + 1) = (k, c)" by fastforce
      have checked: "jsonl_checked C T self (jg_reader reading) (jg_line_number reading)
          = (k, c) # jsonl_checked C T self reader (jg_line_number reading + 1)"
        using r Inr False k by (subst jsonl_checked.simps) simp
      let ?r = "reading\<lparr>jg_reader := reader, jg_line_number := jg_line_number reading + 1,
          jg_seen := jg_seen reading + (if c then 1 else 0)\<rparr>"
      show ?thesis
      proof (cases k)
        case (Inl fail)
        then show ?thesis
          using 1(2) r Inr False k checked by (auto simp: jsonl_fill.simps [of C T self reading])
      next
        case kept: (Inr kept)
        let ?acc = "acc @ (case kept of None \<Rightarrow> [] | Some r \<Rightarrow> [r])"
        show ?thesis
        proof (cases "length ?acc = jc_chunk_rows self")
          case True
          then have "e = Fill_Full ?acc" "reading' = ?r"
            using 1(2) r Inr False k kept by (simp_all add: jsonl_fill.simps [of C T self reading])
          then show ?thesis
            using True shorter total unfolding checked kept by (simp add: of_bool_def)
        next
          case more: False
          then have "jsonl_fill C T self ?r ?acc = (e, reading')"
            using 1(2) r Inr False k kept by (simp add: jsonl_fill.simps [of C T self reading] Let_def)
          from 1(1) [OF r [symmetric] Inr False k [symmetric] refl kept refl more this] obtain xs seen where
            h: "fill_checked (jc_chunk_rows self) (jsonl_checked C T self reader (jg_line_number reading + 1))
                (jg_seen ?r) ?acc = (e, xs, seen)"
              "case e of Fill_Failed fail \<Rightarrow> True
               | Fill_Full chunk \<Rightarrow> xs = jsonl_checked C T self (jg_reader reading') (jg_line_number reading')
                   \<and> seen = jg_seen reading' \<and> length (br_rest (jg_reader reading')) < length (br_rest reader)
                   \<and> total_hash (jg_reader reading') = total_hash reader
               | Fill_Eof chunk \<Rightarrow> seen = jg_seen reading' \<and> br_hash (jg_reader reading') = total_hash reader
                   \<and> jg_yielded_any reading' = jg_yielded_any reading"
            by (auto cong: fill_end.case_cong)
          show ?thesis
            unfolding checked kept
            by (rule exI [of _ xs], rule exI [of _ seen])
              (use h more shorter total in \<open>cases e; simp add: of_bool_def split: if_splits\<close>)
        qed
      qed
    qed
  qed
qed

subsection \<open>Pulls\<close>

definition jsonl_size :: "source_file \<Rightarrow> jsonl_chunks \<Rightarrow> nat" where
  "jsonl_size so self = (case jc_phase self of
     Done \<Rightarrow> 0 | Final_Check \<Rightarrow> 1 | Streaming \<Rightarrow> 2 + length (br_rest (jg_reader (the (jc_reading self))))
   | Not_Started \<Rightarrow> 3 + length (delivered_bytes so))"

definition jsonl_form :: "jsonl_chunks \<Rightarrow> bool" where
  "jsonl_form self \<longleftrightarrow> (jc_phase self = Streaming \<or> jc_phase self = Final_Check \<longrightarrow> jc_reading self \<noteq> None)"

lemma jsonl_open_reading:
  "jsonl_open so self = Inr reading \<Longrightarrow>
   reading = \<lparr>jg_reader = byte_reader_new so, jg_line_number = 0, jg_seen = 0, jg_yielded_any = False\<rparr>"
  by (auto simp: jsonl_open_def open_source_file_def rmap_eq_Inr_iff split: option.splits sum.splits)

lemma jsonl_stream_pull_size:
  assumes "jsonl_stream_pull C A T self reading = (Some (Inr b), self')" "jc_phase self = Streaming" "jc_reading self = Some reading"
  shows "b \<noteq> None \<and> jsonl_size so self' < jsonl_size so self"
proof -
  obtain e r where f: "jsonl_fill C T self reading [] = (e, r)" by fastforce
  show ?thesis
    using assms jsonl_fill_checked [OF f]
    by (cases e) (auto simp: jsonl_stream_pull_def f jsonl_size_def Let_def rmap_eq_Inr_iff split: if_splits)
qed

lemma jsonl_next_chunk_done: "jc_phase self = Done \<Longrightarrow> jsonl_next_chunk C A T so self = (Inr None, self)"
  by (simp add: jsonl_next_chunk.simps)

lemma jsonl_next_chunk_final: "jc_phase self = Final_Check \<Longrightarrow> jsonl_next_chunk C A T so self = jsonl_final_check self"
  by (simp add: jsonl_next_chunk.simps)

lemma jsonl_next_chunk_streaming:
  assumes "jc_phase self = Streaming" "jc_reading self = Some reading"
  shows "jsonl_next_chunk C A T so self = (case jsonl_stream_pull C A T self reading of
     (Some r, self') \<Rightarrow> (r, self') | (None, self') \<Rightarrow> jsonl_final_check self')"
  using assms jsonl_stream_pull_None [of C A T self reading]
  by (subst jsonl_next_chunk.simps) (auto split: prod.split option.split simp: jsonl_next_chunk_final)

lemma jsonl_next_chunk_start:
  assumes "jc_phase self = Not_Started"
  shows "jsonl_next_chunk C A T so self = (case jsonl_open so self of
     Inl fail \<Rightarrow> (Inl fail, self)
   | Inr reading \<Rightarrow> jsonl_next_chunk C A T so (self\<lparr>jc_reading := Some reading, jc_phase := Streaming\<rparr>))"
  using assms by (subst jsonl_next_chunk.simps) simp

lemma jsonl_final_check_done: "jsonl_final_check self = (r, self') \<Longrightarrow> jc_phase self' = Done \<and> r \<noteq> Inr (Some b)"
  by (auto simp: jsonl_final_check_def Let_def rmap_eq_Inr_iff)

lemma jsonl_streaming_size:
  assumes "jc_phase self = Streaming" "jc_reading self = Some reading"
    "jsonl_next_chunk C A T so self = (Inr (Some b), self')"
  shows "jsonl_size so self' < jsonl_size so self"
proof -
  obtain r s where p: "jsonl_stream_pull C A T self reading = (r, s)" by fastforce
  show ?thesis
  proof (cases r)
    case None
    then show ?thesis
      using assms(3) p jsonl_final_check_done by (fastforce simp: jsonl_next_chunk_streaming [OF assms(1,2)])
  next
    case (Some x)
    then have "x = Inr (Some b)" "s = self'"
      using assms(3) p by (simp_all add: jsonl_next_chunk_streaming [OF assms(1,2)])
    then show ?thesis using jsonl_stream_pull_size [of C A T self reading "Some b" self' so] p Some assms(1,2) by blast
  qed
qed

lemma jsonl_next_size:
  assumes "jsonl_next C A T so self = (Some item, self')" "jsonl_form self"
  shows "jsonl_size so self' < jsonl_size so self"
proof -
  obtain r s where n: "jsonl_next_chunk C A T so self = (r, s)" by fastforce
  show ?thesis
  proof (cases r)
    case (Inl fail)
    then have "jc_phase self' = Done" "self' = s\<lparr>jc_phase := Done\<rparr>" using assms(1) n by (auto simp: jsonl_next_def)
    moreover have "jc_phase self \<noteq> Done" using n Inl jsonl_next_chunk_done [of self C A T so] by auto
    ultimately show ?thesis by (cases "jc_phase self") (simp_all add: jsonl_size_def)
  next
    case (Inr ob)
    then obtain b where b: "r = Inr (Some b)" "s = self'" using assms(1) n by (auto simp: jsonl_next_def split: option.splits)
    show ?thesis
    proof (cases "jc_phase self")
      case Done
      then show ?thesis using n b jsonl_next_chunk_done [of self C A T so] by auto
    next
      case Final_Check
      then show ?thesis using n b jsonl_next_chunk_final [of self C A T so] jsonl_final_check_done [of self r s b] by simp
    next
      case Streaming
      then show ?thesis using assms(2) jsonl_streaming_size n b by (auto simp: jsonl_form_def)
    next
      case Not_Started
      then obtain reading where o: "jsonl_open so self = Inr reading"
        "jsonl_next_chunk C A T so (self\<lparr>jc_reading := Some reading, jc_phase := Streaming\<rparr>) = (Inr (Some b), self')"
        using n b by (auto simp: jsonl_next_chunk_start split: sum.splits)
      have "jsonl_size so self' < jsonl_size so (self\<lparr>jc_reading := Some reading, jc_phase := Streaming\<rparr>)"
        by (rule jsonl_streaming_size [OF _ _ o(2)]) simp_all
      then show ?thesis using Not_Started jsonl_open_reading [OF o(1)] by (simp add: jsonl_size_def byte_reader_new_def)
    qed
  qed
qed

text \<open>The items of a stream; on a stream of no form the code could reach, none.\<close>

function jsonl_items ::
  "('d, 't) chrono \<Rightarrow> arrow \<Rightarrow> json_text \<Rightarrow> source_file \<Rightarrow> jsonl_chunks \<Rightarrow> (load_failure, record_batch) result list" where
  "jsonl_items C A T so self =
     (if jsonl_form self then
        (case jsonl_next C A T so self of (None, _) \<Rightarrow> [] | (Some item, self') \<Rightarrow> item # jsonl_items C A T so self')
      else [])"
  by pat_completeness auto
termination
  by (relation "measure (\<lambda>(C, A, T, so, self). jsonl_size so self)") (auto dest: jsonl_next_size [OF sym])

declare jsonl_items.simps [simp del]

definition jsonl_verify :: "jsonl_chunks \<Rightarrow> 64 word \<Rightarrow> nat \<Rightarrow> (load_failure, unit) result" where
  "jsonl_verify self hash seen = verify_end_of_input (jc_expectations self) (jc_path self) seen hash"

lemma jsonl_verify_update [simp]:
  "jsonl_verify (self\<lparr>jc_reading := x\<rparr>) = jsonl_verify self"
  "jsonl_verify (self\<lparr>jc_phase := y\<rparr>) = jsonl_verify self"
  by (simp_all add: jsonl_verify_def fun_eq_iff)

lemma jsonl_items_done: "jc_phase self = Done \<Longrightarrow> jsonl_items C A T so self = []"
  by (subst jsonl_items.simps) (simp add: jsonl_next_def jsonl_next_chunk_done)

lemma jsonl_items_fail:
  assumes "jsonl_form self" "jsonl_next_chunk C A T so self = (Inl fail, self')"
  shows "jsonl_items C A T so self = [Inl fail]"
  using assms by (subst jsonl_items.simps) (simp add: jsonl_next_def jsonl_items_done)

lemma jsonl_items_step:
  assumes "jsonl_form self" "jsonl_next_chunk C A T so self = (Inr (Some b), self')"
  shows "jsonl_items C A T so self = Inr b # jsonl_items C A T so self'"
  using assms by (subst jsonl_items.simps) (simp add: jsonl_next_def)

lemma jsonl_items_end:
  assumes "jsonl_form self" "jsonl_next_chunk C A T so self = (Inr None, self')"
  shows "jsonl_items C A T so self = []"
  using assms by (subst jsonl_items.simps) (simp add: jsonl_next_def)

lemma jsonl_items_final:
  assumes "jc_phase self = Final_Check" "jc_reading self = Some reading"
  shows "jsonl_items C A T so self = end_items (jsonl_verify self (br_hash (jg_reader reading))) (jg_seen reading)"
proof (cases "jsonl_verify self (br_hash (jg_reader reading)) (jg_seen reading)")
  case (Inl fail)
  then show ?thesis
    using assms jsonl_items_fail [of self C A T so fail "snd (jsonl_final_check self)"]
    by (simp add: jsonl_form_def jsonl_next_chunk_final jsonl_final_check_def jsonl_verify_def end_items_def)
next
  case (Inr u)
  then show ?thesis
    using assms jsonl_items_end [of self C A T so "snd (jsonl_final_check self)"]
    by (simp add: jsonl_form_def jsonl_next_chunk_final jsonl_final_check_def jsonl_verify_def end_items_def)
qed

text \<open>While streaming, the items are those of the reference stream over the lines left.\<close>

lemma jsonl_items_streaming:
  assumes "jc_phase self = Streaming" "jc_reading self = Some reading"
  shows "jsonl_items C A T so self = checked_stream (build_json_chunk C A (jt_print T) (jc_plan self))
    (jsonl_verify self (total_hash (jg_reader reading))) (jc_chunk_rows self)
    (jsonl_checked C T self (jg_reader reading) (jg_line_number reading)) (jg_seen reading) (jg_yielded_any reading)"
  using assms
proof (induction "length (br_rest (jg_reader reading))" arbitrary: self reading rule: less_induct)
  case less
  obtain e r where f: "jsonl_fill C T self reading [] = (e, r)" by fastforce
  obtain xs seen where g: "fill_checked (jc_chunk_rows self) (jsonl_checked C T self (jg_reader reading) (jg_line_number reading))
       (jg_seen reading) [] = (e, xs, seen)"
    and g': "case e of Fill_Failed fail \<Rightarrow> True
        | Fill_Full chunk \<Rightarrow> xs = jsonl_checked C T self (jg_reader r) (jg_line_number r)
            \<and> seen = jg_seen r \<and> length (br_rest (jg_reader r)) < length (br_rest (jg_reader reading))
            \<and> total_hash (jg_reader r) = total_hash (jg_reader reading)
        | Fill_Eof chunk \<Rightarrow> seen = jg_seen r \<and> br_hash (jg_reader r) = total_hash (jg_reader reading)
            \<and> jg_yielded_any r = jg_yielded_any reading"
    using jsonl_fill_checked [OF f] by blast
  have form: "jsonl_form self" using less.prems by (simp add: jsonl_form_def)
  note next' = jsonl_next_chunk_streaming [OF less.prems, of C A T so]
  show ?case
  proof (cases e)
    case (Fill_Failed fail)
    then have "jsonl_next_chunk C A T so self = (Inl fail, self\<lparr>jc_reading := Some r\<rparr>)"
      by (simp add: next' jsonl_stream_pull_def f)
    then show ?thesis
      using Fill_Failed by (simp add: jsonl_items_fail [OF form] checked_stream.simps g)
  next
    case (Fill_Full chunk)
    let ?r = "r\<lparr>jg_yielded_any := True\<rparr>"
    let ?s = "self\<lparr>jc_reading := Some ?r\<rparr>"
    have n: "jsonl_next_chunk C A T so self = (rmap Some (build_json_chunk C A (jt_print T) (jc_plan self) chunk), ?s)"
      using Fill_Full by (simp add: next' jsonl_stream_pull_def f)
    show ?thesis
    proof (cases "build_json_chunk C A (jt_print T) (jc_plan self) chunk")
      case (Inl fail)
      then show ?thesis
        using Fill_Full n by (simp add: jsonl_items_fail [OF form] checked_stream.simps g)
    next
      case (Inr b)
      have "length (br_rest (jg_reader ?r)) < length (br_rest (jg_reader reading))"
        using g' Fill_Full by simp
      from less.hyps [OF this, of ?s] show ?thesis
        using Fill_Full n Inr less.prems g'
        by (subst checked_stream.simps) (simp add: jsonl_items_step [OF form] g)
    qed
  next
    case (Fill_Eof chunk)
    let ?self = "self\<lparr>jc_phase := Final_Check\<rparr>"
    show ?thesis
    proof (cases "chunk = [] \<and> jg_yielded_any reading")
      case True
      let ?s = "?self\<lparr>jc_reading := Some r\<rparr>"
      have n: "jsonl_next_chunk C A T so self = jsonl_final_check ?s"
        using True Fill_Eof g' by (simp add: next' jsonl_stream_pull_def f)
      have "jsonl_items C A T so self = jsonl_items C A T so ?s"
        using n form jsonl_next_chunk_final [of ?s C A T so]
        by (subst (1 2) jsonl_items.simps) (simp add: jsonl_next_def jsonl_form_def)
      also have "\<dots> = end_items (jsonl_verify self (total_hash (jg_reader reading))) seen"
        using g' Fill_Eof by (subst jsonl_items_final) auto
      finally show ?thesis using True Fill_Eof by (subst checked_stream.simps) (simp add: g)
    next
      case False
      let ?s = "?self\<lparr>jc_reading := Some (r\<lparr>jg_yielded_any := True\<rparr>)\<rparr>"
      have n: "jsonl_next_chunk C A T so self = (rmap Some (build_json_chunk C A (jt_print T) (jc_plan self) chunk), ?s)"
        using False Fill_Eof g' by (auto simp: next' jsonl_stream_pull_def f Let_def)
      have "jsonl_items C A T so ?s = end_items (jsonl_verify self (total_hash (jg_reader reading))) seen"
        using g' Fill_Eof by (subst jsonl_items_final) auto
      then show ?thesis
        using False Fill_Eof n
        by (subst checked_stream.simps, cases "build_json_chunk C A (jt_print T) (jc_plan self) chunk")
          (auto simp: jsonl_items_fail [OF form] jsonl_items_step [OF form] g)
    qed
  qed
qed

lemma jsonl_items_start:
  assumes "jc_phase self = Not_Started"
  shows "jsonl_items C A T so self = (case jsonl_open so self of
      Inl fail \<Rightarrow> [Inl fail]
    | Inr reading \<Rightarrow> checked_stream (build_json_chunk C A (jt_print T) (jc_plan self))
        (jsonl_verify self (hash_update (delivered_bytes so) FNV_OFFSET_BASIS))
        (jc_chunk_rows self) (jsonl_checked C T self (byte_reader_new so) 0) 0 False)"
proof (cases "jsonl_open so self")
  case (Inl fail)
  then show ?thesis
    using assms by (simp add: jsonl_items_fail [of self C A T so fail self] jsonl_form_def jsonl_next_chunk_start)
next
  case (Inr reading)
  let ?s = "self\<lparr>jc_reading := Some reading, jc_phase := Streaming\<rparr>"
  have "jsonl_items C A T so self = jsonl_items C A T so ?s"
    using assms Inr by (subst (1 2) jsonl_items.simps) (simp add: jsonl_form_def jsonl_next_def jsonl_next_chunk_start)
  then show ?thesis
    using Inr jsonl_items_streaming [of ?s reading C A T so] jsonl_open_reading [OF Inr]
    by (simp add: total_hash_def byte_reader_new_def)
qed

end
