(* ===== verification/Pass_Jsonl.thy ===== *)
theory Pass_Jsonl
  imports Observer_Facts Rejection_Facts Stream_Jsonl
begin

section \<open>The two passes over a JSONL source\<close>

text \<open>
  What pass 1 of \<open>LocalFileSource::read_jsonl\<close> (\<open>src/connector.rs\<close>) leaves behind, in terms of
  the lines of the source: the observer, the key union, the counts, the rejections of the sink
  and of the spill, and their merge; and what pass 2 then checks of the same and of another
  source.
\<close>

subsection \<open>The lines of a source\<close>

text \<open>The lines a reader takes with their numbers, and the failure that ends them.\<close>

function numbered_lines :: "byte_reader \<Rightarrow> nat \<Rightarrow> (nat \<times> string) list \<times> (string \<times> nat) option" where
  "numbered_lines r n = (case read_until_newline r of
     (Inl error, _) \<Rightarrow> ([], Some (error, n))
   | (Inr line, r') \<Rightarrow>
       if line = [] then ([], None)
       else ((n + 1, line) # fst (numbered_lines r' (n + 1)), snd (numbered_lines r' (n + 1))))"
  by pat_completeness auto
termination
  by (relation "measure (\<lambda>(r, n). length (br_rest r))") (auto dest: read_until_shorter [OF sym])

declare numbered_lines.simps [simp del]

definition source_lines :: "source_file \<Rightarrow> (nat \<times> string) list" where
  "source_lines so = fst (numbered_lines (byte_reader_new so) 0)"

lemma numbered_lines_sorted:
  "sorted_wrt (<) (map fst (fst (numbered_lines r n))) \<and> (\<forall>l\<in>set (fst (numbered_lines r n)). n < fst l)"
proof (induction r n rule: numbered_lines.induct)
  case (1 r n)
  obtain x r' where x: "read_until_newline r = (x, r')" by fastforce
  show ?case
  proof (cases x)
    case (Inr line)
    have "sorted_wrt (<) (map fst (fst (numbered_lines r' (n + 1)))) \<and> (\<forall>l\<in>set (fst (numbered_lines r' (n + 1))). n + 1 < fst l)"
      if "line \<noteq> []"
      using 1 [OF x [symmetric] Inr that] by simp
    then show ?thesis
      using x Inr by (cases "line = []") (auto simp: numbered_lines.simps [of r n])
  qed (use x in \<open>simp add: numbered_lines.simps [of r n]\<close>)
qed

lemma jsonl_pass_one_lines:
  "jsonl_pass_one C T d r n st =
     (case snd (numbered_lines r n) of None \<Rightarrow> Inr (total_hash r) | Some e \<Rightarrow> Inl e,
      foldl (\<lambda>st l. jsonl_pass_one_line C T d (snd l) (fst l) st) st (fst (numbered_lines r n)))"
proof (induction C T d r n st rule: jsonl_pass_one.induct)
  case (1 C T d r n st)
  obtain x r' where x: "read_until_newline r = (x, r')" by fastforce
  show ?case
  proof (cases x)
    case (Inl e)
    then show ?thesis using x by (simp add: jsonl_pass_one.simps [of C T d r] numbered_lines.simps [of r])
  next
    case (Inr line)
    show ?thesis
    proof (cases "line = []")
      case True
      then show ?thesis
        using x Inr read_until_end [of r r'] by (simp add: jsonl_pass_one.simps [of C T d r] numbered_lines.simps [of r])
    next
      case False
      then show ?thesis
        using 1 [OF x [symmetric] Inr False] x Inr read_until_total [OF x]
        by (simp add: jsonl_pass_one.simps [of C T d r] numbered_lines.simps [of r] split: option.split)
    qed
  qed
qed

lemma jsonl_checked_lines:
  "jsonl_checked C T self r n =
     map (\<lambda>l. jsonl_check_line C T self (snd l) (fst l)) (fst (numbered_lines r n))
     @ (case snd (numbered_lines r n) of None \<Rightarrow> [] | Some (e, k) \<Rightarrow> [(Inl (jsonl_read_failed (jc_path self) k e), False)])"
proof (induction r n rule: numbered_lines.induct)
  case (1 r n)
  obtain x r' where x: "read_until_newline r = (x, r')" by fastforce
  show ?case
  proof (cases x)
    case (Inl e)
    then show ?thesis using x by (simp add: jsonl_checked.simps [of C T self r] numbered_lines.simps [of r])
  next
    case (Inr line)
    then show ?thesis
      using 1 [OF x [symmetric] Inr] x
      by (cases "line = []") (simp_all add: jsonl_checked.simps [of C T self r] numbered_lines.simps [of r])
  qed
qed

subsection \<open>What pass 1 makes of the lines\<close>

definition line_item :: "json_text \<Rightarrow> nat \<times> string \<Rightarrow> jsonl_line" where
  "line_item T l = jsonl_line_record (jt_parse T) (snd l) (fst l)"

definition line_record :: "json_text \<Rightarrow> nat \<times> string \<Rightarrow> json_record option" where
  "line_record T l = (case line_item T l of Line_Record r \<Rightarrow> Some r | _ \<Rightarrow> None)"

definition parse_rejection :: "json_text \<Rightarrow> nat \<times> string \<Rightarrow> rejected_record option" where
  "parse_rejection T l = (case line_item T l of Line_Rejected rj \<Rightarrow> Some rj | _ \<Rightarrow> None)"

definition line_counts :: "json_text \<Rightarrow> nat \<times> string \<Rightarrow> bool" where
  "line_counts T l \<longleftrightarrow> line_item T l \<noteq> Blank_Line"

definition line_records :: "json_text \<Rightarrow> (nat \<times> string) list \<Rightarrow> json_record list" where
  "line_records T ls = List.map_filter (line_record T) ls"

definition parse_rejections :: "json_text \<Rightarrow> (nat \<times> string) list \<Rightarrow> rejected_record list" where
  "parse_rejections T ls = List.map_filter (parse_rejection T) ls"

text \<open>The entries of the spill: the records that violate the checks known before the input.\<close>

definition spilled :: "('d, 't) chrono \<Rightarrow> json_text \<Rightarrow> field_check list \<Rightarrow> (nat \<times> string) list \<Rightarrow> (nat \<times> json_object) list" where
  "spilled C T checks ls = map (\<lambda>r. (js_line r, js_object r))
     (filter (\<lambda>r. json_record_violates C r checks) (line_records T ls))"

lemma line_lists_simps [simp]:
  "line_records T [] = []" "line_records T (l # ls) = (case line_item T l of Line_Record r \<Rightarrow> r # line_records T ls | _ \<Rightarrow> line_records T ls)"
  "parse_rejections T [] = []"
  "parse_rejections T (l # ls) = (case line_item T l of Line_Rejected rj \<Rightarrow> rj # parse_rejections T ls | _ \<Rightarrow> parse_rejections T ls)"
  "spilled C T checks [] = []"
  "spilled C T checks (l # ls) = (case line_item T l of
     Line_Record r \<Rightarrow> (if json_record_violates C r checks then [(js_line r, js_object r)] else []) @ spilled C T checks ls
   | _ \<Rightarrow> spilled C T checks ls)"
  by (simp_all add: line_records_def parse_rejections_def spilled_def line_record_def parse_rejection_def map_filter_simps
      split: jsonl_line.split)

lemma line_lists_append:
  "line_records T (ls @ ms) = line_records T ls @ line_records T ms"
  "parse_rejections T (ls @ ms) = parse_rejections T ls @ parse_rejections T ms"
  "spilled C T checks (ls @ ms) = spilled C T checks ls @ spilled C T checks ms"
  by (induction ls) (simp_all split: jsonl_line.split)

text \<open>What a pass holds after some lines.\<close>

definition pass_holds ::
  "('d, 't) chrono \<Rightarrow> json_text \<Rightarrow> schema_directive \<Rightarrow> json_observer \<Rightarrow> (nat \<times> string) list \<Rightarrow> jsonl_pass \<Rightarrow> bool" where
  "pass_holds C T d obs ls st \<longleftrightarrow>
     jp_observer st = fst (json_observe_all C d obs (line_records T ls))
   \<and> jp_parsed_records st + jp_parse_rejected st = length (filter (line_counts T) ls)
   \<and> set (jp_field_names st) = (\<Union>r\<in>set (line_records T ls). fst ` set (js_object r))
   \<and> sink_holds T (jp_sink st) (jp_files st) (parse_rejections T ls)
   \<and> spill_holds T (jp_spill st) (jp_files st) (spilled C T (jo_checks obs) ls)
   \<and> vs_path (jp_spill st) = sk_spill_path (jp_sink st) \<and> paths_ok (jp_sink st)"

lemma json_observe_all_append:
  "fst (json_observe_all C d obs (xs @ ys)) = fst (json_observe_all C d (fst (json_observe_all C d obs xs)) ys)"
  by (induction xs arbitrary: obs) (simp_all add: case_prod_unfold Let_def)

lemma set_add_field: "set (add_field names key) = insert key (set names)"
  by (auto simp: add_field_def)

lemma set_add_fields: "set (foldl add_field names keys) = set names \<union> set keys"
  by (induction keys arbitrary: names) (simp_all add: set_add_field)

lemma spill_holds_cong:
  "spill_holds T spill f es \<Longrightarrow> tf_files f' (vs_path spill) = tf_files f (vs_path spill) \<Longrightarrow> spill_holds T spill f' es"
  by (simp add: spill_holds_def)

lemma pass_holds_step:
  assumes "pass_holds C T d obs ls st"
  shows "pass_holds C T d obs (ls @ [l]) (jsonl_pass_one_line C T d (snd l) (fst l) st)"
proof -
  have item: "jsonl_line_record (jt_parse T) (snd l) (fst l) = line_item T l" by (simp add: line_item_def)
  have paths: "sk_spill_path (jp_sink st) \<noteq> sk_artifact_path (jp_sink st)"
    using assms by (auto simp: pass_holds_def paths_ok_def)
  show ?thesis
  proof (cases "line_item T l")
    case Blank_Line
    then show ?thesis
      using assms by (simp add: jsonl_pass_one_line_def item pass_holds_def line_lists_append line_counts_def)
  next
    case (Line_Rejected rj)
    obtain sink f where s: "sink_record T rj (jp_sink st) (jp_files st) = (sink, f)" by fastforce
    have h: "sink_holds T sink f (parse_rejections T ls @ [rj]) \<and> sk_artifact_path sink = sk_artifact_path (jp_sink st)
        \<and> sk_spill_path sink = sk_spill_path (jp_sink st)
        \<and> (\<forall>p. p \<noteq> sk_artifact_path (jp_sink st) \<longrightarrow> tf_files f p = tf_files (jp_files st) p)"
      by (rule sink_record_holds [OF _ s]) (use assms in \<open>simp add: pass_holds_def\<close>)
    then have "spill_holds T (jp_spill st) f (spilled C T (jo_checks obs) ls)" "paths_ok sink"
      using assms paths by (auto simp: pass_holds_def paths_ok_def merged_path_def intro: spill_holds_cong)
    then show ?thesis
      using assms h Line_Rejected
      by (simp add: jsonl_pass_one_line_def item s pass_holds_def line_lists_append line_counts_def)
  next
    case (Line_Record r)
    obtain obs' outcome where o: "json_observe C d (jp_observer st) r = (obs', outcome)" by fastforce
    have checks: "jo_checks (jp_observer st) = jo_checks obs"
      using assms json_observe_all_outcomes [of C d obs "line_records T ls"] by (simp add: pass_holds_def)
    have out: "outcome = (if json_record_violates C r (jo_checks obs) then Rejected else Survived)"
      using o checks by (auto simp: json_observe_def Let_def case_prod_unfold split: if_splits)
    have obs': "obs' = fst (json_observe_all C d obs (line_records T (ls @ [l])))"
      using assms o Line_Record
      by (simp add: pass_holds_def line_lists_append json_observe_all_append case_prod_unfold Let_def)
    let ?st = "\<lambda>obs'. st\<lparr>jp_parsed_records := jp_parsed_records st + 1,
        jp_field_names := foldl add_field (jp_field_names st) (map fst (js_object r)), jp_observer := obs'\<rparr>"
    show ?thesis
    proof (cases outcome)
      case Survived
      then have "jsonl_pass_one_line C T d (snd l) (fst l) st = ?st obs'"
        by (simp add: jsonl_pass_one_line_def item Line_Record o)
      then show ?thesis
        using assms Line_Record out obs' Survived
        by (auto simp: pass_holds_def line_lists_append line_counts_def set_add_fields split: if_splits)
    next
      case Rejected
      obtain spill f where s: "spill_record T (js_line r) (js_object r) (jp_spill st) (jp_files st) = (spill, f)" by fastforce
      have h: "spill_holds T spill f (spilled C T (jo_checks obs) ls @ [(js_line r, js_object r)])
          \<and> vs_path spill = vs_path (jp_spill st)
          \<and> (\<forall>p. p \<noteq> vs_path (jp_spill st) \<longrightarrow> tf_files f p = tf_files (jp_files st) p)"
        by (rule spill_record_holds [OF _ s]) (use assms in \<open>simp add: pass_holds_def\<close>)
      have "sink_holds T (jp_sink st) f (parse_rejections T ls)"
        by (rule sink_holds_cong [of T "jp_sink st" "jp_files st"])
          (use assms h paths in \<open>simp_all add: pass_holds_def\<close>)
      moreover have "jsonl_pass_one_line C T d (snd l) (fst l) st = (?st obs')\<lparr>jp_spill := spill, jp_files := f\<rparr>"
        by (simp add: jsonl_pass_one_line_def item Line_Record o s Rejected)
      ultimately show ?thesis
        using assms Line_Record out obs' h Rejected
        by (auto simp: pass_holds_def line_lists_append line_counts_def set_add_fields split: if_splits)
    qed
  qed
qed

lemma pass_holds_all:
  assumes "pass_holds C T d obs [] st"
  shows "pass_holds C T d obs ls (foldl (\<lambda>st l. jsonl_pass_one_line C T d (snd l) (fst l) st) st ls)"
proof (induction ls rule: rev_induct)
  case (snoc l ls)
  then show ?case using pass_holds_step [OF snoc] by simp
qed (use assms in simp)

lemma pass_holds_start:
  assumes "sink_holds T sink f []" "paths_ok sink"
  shows "pass_holds C T d (json_observer_new d keys) [] (jsonl_pass_start d keys sink f)"
  using assms sink_spill_holds [of T sink f] by (simp add: pass_holds_def jsonl_pass_start_def)

subsection \<open>The merged rejections are in the order of the lines\<close>

text \<open>The rejection a line earns under the resolved checks: its own, or the validator's.\<close>

definition line_rejection :: "('d, 't) chrono \<Rightarrow> json_text \<Rightarrow> field_check list \<Rightarrow> nat \<times> string \<Rightarrow> rejected_record option" where
  "line_rejection C T checks l = (case line_item T l of
     Line_Rejected rj \<Rightarrow> Some rj | Line_Record r \<Rightarrow> validate_json_record C r checks | Blank_Line \<Rightarrow> None)"

definition jsonl_rejections :: "('d, 't) chrono \<Rightarrow> json_text \<Rightarrow> field_check list \<Rightarrow> (nat \<times> string) list \<Rightarrow> rejected_record list" where
  "jsonl_rejections C T checks ls = List.map_filter (line_rejection C T checks) ls"

definition jsonl_survivors :: "('d, 't) chrono \<Rightarrow> json_text \<Rightarrow> field_check list \<Rightarrow> (nat \<times> string) list \<Rightarrow> json_record list" where
  "jsonl_survivors C T checks ls = filter (\<lambda>r. \<not> json_record_violates C r checks) (line_records T ls)"

lemma merge_head_left:
  "\<forall>q\<in>set rs. rj_line r \<le> rj_line q \<Longrightarrow> merge_rejections (r # ps) rs = r # merge_rejections ps rs"
  by (cases rs) auto

lemma merge_head_right:
  "\<forall>p\<in>set ps. rj_line r < rj_line p \<Longrightarrow> merge_rejections ps (r # rs) = r # merge_rejections ps rs"
  by (cases ps) auto

lemma map_filter_line_above:
  assumes "\<And>l r. l \<in> set ls \<Longrightarrow> f l = Some r \<Longrightarrow> rj_line r = fst l" "\<forall>l\<in>set ls. n < fst l"
    "r \<in> set (List.map_filter f ls)"
  shows "n < rj_line r"
  using assms by (auto simp: List.map_filter_def)

lemma merge_map_filter:
  assumes "sorted_wrt (<) (map fst ls)"
    "\<And>l r. l \<in> set ls \<Longrightarrow> f l = Some r \<Longrightarrow> rj_line r = fst l"
    "\<And>l r. l \<in> set ls \<Longrightarrow> g l = Some r \<Longrightarrow> rj_line r = fst l"
    "\<And>l. l \<in> set ls \<Longrightarrow> f l = None \<or> g l = None"
  shows "merge_rejections (List.map_filter f ls) (List.map_filter g ls)
    = List.map_filter (\<lambda>l. case f l of Some r \<Rightarrow> Some r | None \<Rightarrow> g l) ls"
  using assms
proof (induction ls)
  case Nil
  then show ?case by (simp add: map_filter_simps)
next
  case (Cons l ls)
  have IH: "merge_rejections (List.map_filter f ls) (List.map_filter g ls)
      = List.map_filter (\<lambda>l. case f l of Some r \<Rightarrow> Some r | None \<Rightarrow> g l) ls"
    using Cons.prems by (intro Cons.IH) auto
  have above: "\<forall>k\<in>set ls. fst l < fst k" using Cons.prems(1) by auto
  have f: "fst l < rj_line r" if "r \<in> set (List.map_filter f ls)" for r
    by (rule map_filter_line_above [OF _ above that]) (use Cons.prems(2) in auto)
  have g: "fst l < rj_line r" if "r \<in> set (List.map_filter g ls)" for r
    by (rule map_filter_line_above [OF _ above that]) (use Cons.prems(3) in auto)
  show ?case
  proof (cases "f l")
    case (Some r)
    then have "g l = None" "rj_line r = fst l" using Cons.prems(2,4) [of l] by auto
    then have "merge_rejections (r # List.map_filter f ls) (List.map_filter g ls)
        = r # merge_rejections (List.map_filter f ls) (List.map_filter g ls)"
      using g by (intro merge_head_left) (auto intro: less_imp_le)
    then show ?thesis using Some \<open>g l = None\<close> IH by (simp add: map_filter_simps)
  next
    case None
    show ?thesis
    proof (cases "g l")
      case (Some r)
      then have "rj_line r = fst l" using Cons.prems(3) [of l] by simp
      then have "merge_rejections (List.map_filter f ls) (r # List.map_filter g ls)
          = r # merge_rejections (List.map_filter f ls) (List.map_filter g ls)"
        using f by (intro merge_head_right) auto
      then show ?thesis using Some None IH by (simp add: map_filter_simps)
    qed (use None IH in \<open>simp add: map_filter_simps\<close>)
  qed
qed

lemma line_rejection_line: "line_rejection C T checks l = Some rj \<Longrightarrow> rj_line rj = fst l"
  by (auto simp: line_rejection_def line_item_def split: jsonl_line.splits
      dest!: jsonl_line_number validate_json_line)

lemma line_record_line: "line_item T l = Line_Record r \<Longrightarrow> js_line r = fst l"
  by (simp add: line_item_def jsonl_line_number)

lemma json_record_eta [simp]: "\<lparr>js_line = js_line r, js_object = js_object r\<rparr> = r"
  by simp

lemma rendered_spilled:
  assumes "\<And>r. json_record_violates C r checks \<longleftrightarrow> rejection_for C rs r \<noteq> None"
  shows "rendered (\<lambda>line object. rejection_for C rs \<lparr>js_line = line, js_object = object\<rparr>) (spilled C T checks ls)
    = List.map_filter (\<lambda>l. case line_item T l of Line_Record r \<Rightarrow> rejection_for C rs r | _ \<Rightarrow> None) ls"
  using assms
  by (induction ls) (auto simp: map_filter_simps split: jsonl_line.split option.split)

lemma merged_rejections:
  assumes "\<And>r. json_record_violates C r checks \<longleftrightarrow> rejection_for C rs r \<noteq> None" "sorted_wrt (<) (map fst ls)"
  shows "merge_rejections (parse_rejections T ls)
      (rendered (\<lambda>line object. rejection_for C rs \<lparr>js_line = line, js_object = object\<rparr>) (spilled C T checks ls))
    = jsonl_rejections C T (rs_checks rs) ls"
proof -
  let ?g = "\<lambda>l. case line_item T l of Line_Record r \<Rightarrow> rejection_for C rs r | _ \<Rightarrow> None"
  have "merge_rejections (List.map_filter (parse_rejection T) ls) (List.map_filter ?g ls)
      = List.map_filter (\<lambda>l. case parse_rejection T l of Some r \<Rightarrow> Some r | None \<Rightarrow> ?g l) ls"
  proof (rule merge_map_filter [OF assms(2)])
    show "rj_line r = fst l" if "parse_rejection T l = Some r" for l r
      using that by (auto simp: parse_rejection_def line_item_def jsonl_line_number split: jsonl_line.splits)
    show "rj_line r = fst l" if "?g l = Some r" for l r
      using that by (auto simp: rejection_for_def line_record_line split: jsonl_line.splits dest: validate_json_line)
  qed (auto simp: parse_rejection_def split: jsonl_line.split)
  moreover have "(\<lambda>l. case parse_rejection T l of Some r \<Rightarrow> Some r | None \<Rightarrow> ?g l) = line_rejection C T (rs_checks rs)"
    by (auto simp: fun_eq_iff parse_rejection_def line_rejection_def rejection_for_def split: jsonl_line.split)
  ultimately show ?thesis
    by (simp add: rendered_spilled [OF assms(1)] parse_rejections_def jsonl_rejections_def)
qed

subsection \<open>Pass 1\<close>

definition source_end :: "source_file \<Rightarrow> (string \<times> nat) option" where
  "source_end so = snd (numbered_lines (byte_reader_new so) 0)"

definition jsonl_pass_hash :: "source_file \<Rightarrow> 64 word" where
  "jsonl_pass_hash so = hash_update (delivered_bytes so) FNV_OFFSET_BASIS"

lemma total_hash_new: "total_hash (byte_reader_new so) = jsonl_pass_hash so"
  by (simp add: total_hash_def byte_reader_new_def jsonl_pass_hash_def)

text \<open>
  What pass 1 relies on of the JSON texts of a source: the artifact lines of the lines it could
  not parse and the spill entries of its records print on one line and parse back.
\<close>

definition texts_read_back :: "json_text \<Rightarrow> (nat \<times> string) list \<Rightarrow> bool" where
  "texts_read_back T ls \<longleftrightarrow> (\<forall>p\<in>set (parse_rejections T ls). rejection_text_ok T p)
     \<and> (\<forall>r\<in>set (line_records T ls). spill_text_ok T (js_line r, js_object r))"

lemma texts_read_back_spilled:
  "texts_read_back T ls \<Longrightarrow> \<forall>e\<in>set (spilled C T checks ls). spill_text_ok T e"
  by (auto simp: texts_read_back_def spilled_def)

text \<open>A JSONL pass 1 that resolved: what it hands to pass 2.\<close>

lemma read_jsonl_Inr:
  assumes "read_jsonl C T Y so self d keys n sink f = Some (Inr sr, sink', f')"
    "sink_holds T sink f []" "paths_ok sink" "dir_ok d"
  obtains names rs where
    "so_open_error so = None" "is_ok (so_inspect so)" "source_end so = None" "names \<noteq> []"
    "set names = (\<Union>r\<in>set (line_records T (source_lines so)). fst ` set (js_object r))"
    "json_finish Y d keys names (fst (json_observe_all C d (json_observer_new d keys) (line_records T (source_lines so)))) = Inr rs"
    "sr_source_rows sr = length (filter (line_counts T) (source_lines so))" "sr_rejected_count sr = sk_count sink'"
    "sk_io_error sink' = None \<Longrightarrow> texts_read_back T (source_lines so) \<Longrightarrow>
       sink_holds T sink' f' (jsonl_rejections C T (rs_checks rs) (source_lines so))"
    "sr_chunks sr = Jsonl_Chunks
       \<lparr>jc_path = ls_path self, jc_plan = rs_plan rs, jc_checks = rs_checks rs, jc_resolved_shape = names,
        jc_chunk_rows = n,
        jc_expectations = \<lparr>po_rejected_lines = sk_lines sink',
          po_records = length (filter (line_counts T) (source_lines so)), po_hash = jsonl_pass_hash so\<rparr>,
        jc_reading = None, jc_phase = Not_Started\<rparr>"
proof -
  let ?ls = "source_lines so"
  obtain len where o: "so_open_error so = None" "so_inspect so = Inr len"
    using assms(1) by (auto simp: read_jsonl_def open_source_file_def split: option.splits sum.splits)
  then have o': "open_source_file (ls_path self) ''JSONL'' so = Inr (so, len)" by (simp add: open_source_file_def)
  let ?start = "jsonl_pass_start d keys sink f"
  define st where "st = foldl (\<lambda>st l. jsonl_pass_one_line C T d (snd l) (fst l) st) ?start ?ls"
  have pass: "jsonl_pass_one C T d (byte_reader_new so) 0 ?start
      = (case source_end so of None \<Rightarrow> Inr (jsonl_pass_hash so) | Some e \<Rightarrow> Inl e, st)"
    by (simp add: jsonl_pass_one_lines source_end_def source_lines_def st_def total_hash_new cong: option.case_cong)
  have h: "pass_holds C T d (json_observer_new d keys) ?ls st"
    unfolding st_def by (rule pass_holds_all [OF pass_holds_start [OF assms(2,3)]])
  have e: "source_end so = None"
    using assms(1) by (auto simp: read_jsonl_def o' pass Let_def split: option.splits)
  have ne: "jp_field_names st \<noteq> []"
    using assms(1) by (auto simp: read_jsonl_def o' pass e Let_def)
  obtain rs where fin: "json_finish Y d keys (jp_field_names st) (jp_observer st) = Inr rs"
    using assms(1) ne by (auto simp: read_jsonl_def o' pass e Let_def split: sum.splits)
  define render where "render = (\<lambda>line object. rejection_for C rs \<lparr>js_line = line, js_object = object\<rparr>)"
  have m: "merge_spill T render (jp_spill st) (jp_sink st) (jp_files st) = Some (sink', f')"
    and sr: "sr = source_read_of rs len (jp_parsed_records st + jp_parse_rejected st) sink' (Jsonl_Chunks
       \<lparr>jc_path = ls_path self, jc_plan = rs_plan rs, jc_checks = rs_checks rs, jc_resolved_shape = jp_field_names st,
        jc_chunk_rows = n,
        jc_expectations = \<lparr>po_rejected_lines = sk_lines sink',
          po_records = jp_parsed_records st + jp_parse_rejected st, po_hash = jsonl_pass_hash so\<rparr>,
        jc_reading = None, jc_phase = Not_Started\<rparr>)"
    using assms(1) ne fin by (auto simp: read_jsonl_def o' pass e Let_def render_def split: option.splits)
  have fin': "json_finish Y d keys (jp_field_names st)
      (fst (json_observe_all C d (json_observer_new d keys) (line_records T ?ls))) = Inr rs"
    using fin h by (simp add: pass_holds_def)
  have "sink_holds T sink' f' (jsonl_rejections C T (rs_checks rs) ?ls)"
    if io: "sk_io_error sink' = None" and texts: "texts_read_back T ?ls"
  proof -
    have "sink_holds T sink' f' (merge_rejections (parse_rejections T ?ls)
        (rendered render (spilled C T (jo_checks (json_observer_new d keys)) ?ls)))"
      by (rule merge_spill_holds [OF m io])
        (use h texts texts_read_back_spilled [OF texts] in \<open>auto simp: pass_holds_def texts_read_back_def\<close>)
    moreover have "sorted_wrt (<) (map fst ?ls)"
      using numbered_lines_sorted [of "byte_reader_new so" 0] by (simp add: source_lines_def)
    ultimately show ?thesis
      using merged_rejections [OF observer_verdict [where C = C, OF assms(4) fin'], of ?ls T] by (simp add: render_def)
  qed
  moreover have "sr_rejected_count sr = sk_count sink'" "sr_source_rows sr = length (filter (line_counts T) ?ls)"
    using sr h by (simp_all add: source_read_of_def pass_holds_def)
  ultimately show ?thesis
    by (intro that [of "jp_field_names st" rs]) (use o e ne h fin' sr in \<open>simp_all add: pass_holds_def source_read_of_def\<close>)
qed

text \<open>The merge of a pass 1 never panics, so a JSONL pass 1 always returns.\<close>

lemma read_jsonl_returns:
  assumes "sink_holds T sink f []" "paths_ok sink" "texts_read_back T (source_lines so)"
  shows "read_jsonl C T Y so self d keys n sink f \<noteq> None"
proof -
  let ?start = "jsonl_pass_start d keys sink f"
  obtain r st where pass: "jsonl_pass_one C T d (byte_reader_new so) 0 ?start = (r, st)" by fastforce
  have st: "st = foldl (\<lambda>st l. jsonl_pass_one_line C T d (snd l) (fst l) st) ?start (source_lines so)"
    using pass by (simp add: jsonl_pass_one_lines source_lines_def)
  have h: "pass_holds C T d (json_observer_new d keys) (source_lines so) st"
    unfolding st by (rule pass_holds_all [OF pass_holds_start [OF assms(1,2)]])
  have "merge_spill T render (jp_spill st) (jp_sink st) (jp_files st) \<noteq> None" for render
    by (rule merge_spill_no_panic)
      (use h texts_read_back_spilled [OF assms(3)] in \<open>auto simp: pass_holds_def\<close>)
  note np = this
  define g where "g render = the (merge_spill T render (jp_spill st) (jp_sink st) (jp_files st))" for render
  have m: "merge_spill T render (jp_spill st) (jp_sink st) (jp_files st) = Some (fst (g render), snd (g render))" for render
    using np [of render] by (cases "merge_spill T render (jp_spill st) (jp_sink st) (jp_files st)") (auto simp: g_def)
  show ?thesis
  proof (cases "open_source_file (ls_path self) ''JSONL'' so")
    case (Inr opened)
    have "fst opened = so"
      using Inr by (auto simp: open_source_file_def split: option.splits sum.splits)
    then show ?thesis
      using Inr pass m by (cases opened; cases r; cases "json_finish Y d keys (jp_field_names st) (jp_observer st)")
        (simp_all add: read_jsonl_def Let_def case_prod_unfold)
  qed (simp add: read_jsonl_def)
qed

subsection \<open>Pass 2\<close>

text \<open>A checked line passes iff its outcome is the one pass 1 gave it, under no new key.\<close>

definition line_agrees :: "('d, 't) chrono \<Rightarrow> json_text \<Rightarrow> jsonl_chunks \<Rightarrow> nat \<times> string \<Rightarrow> bool" where
  "line_agrees C T chunks l \<longleftrightarrow> (case line_item T l of
     Blank_Line \<Rightarrow> True
   | Line_Rejected rj \<Rightarrow> fst l \<in> set (po_rejected_lines (jc_expectations chunks))
   | Line_Record r \<Rightarrow> fst ` set (js_object r) \<subseteq> set (jc_resolved_shape chunks)
       \<and> json_record_violates C r (jc_checks chunks) = (fst l \<in> set (po_rejected_lines (jc_expectations chunks))))"

definition line_kept :: "('d, 't) chrono \<Rightarrow> json_text \<Rightarrow> jsonl_chunks \<Rightarrow> nat \<times> string \<Rightarrow> json_record option" where
  "line_kept C T chunks l = (case line_item T l of
     Line_Record r \<Rightarrow> if json_record_violates C r (jc_checks chunks) then None else Some r | _ \<Rightarrow> None)"

lemma jsonl_check_line_counts: "snd (jsonl_check_line C T chunks (snd l) (fst l)) = line_counts T l"
  by (simp add: jsonl_check_line_def line_counts_def line_item_def split: jsonl_line.split)

lemma jsonl_check_line_iff:
  "fst (jsonl_check_line C T chunks (snd l) (fst l)) = Inr kept \<longleftrightarrow> line_agrees C T chunks l \<and> kept = line_kept C T chunks l"
proof (cases "line_item T l")
  case (Line_Record r)
  then have item: "jsonl_line_record (jt_parse T) (snd l) (fst l) = Line_Record r" "js_line r = fst l"
    by (simp_all add: line_item_def jsonl_line_number)
  have "List.find (\<lambda>key. key \<notin> set (jc_resolved_shape chunks)) (map fst (js_object r)) = None
      \<longleftrightarrow> fst ` set (js_object r) \<subseteq> set (jc_resolved_shape chunks)"
    by (auto simp: find_None_iff)
  then show ?thesis
    using item Line_Record
    by (cases "List.find (\<lambda>key. key \<notin> set (jc_resolved_shape chunks)) (map fst (js_object r))")
      (auto simp: jsonl_check_line_def line_agrees_def line_kept_def rmap_eq_Inr_iff cross_check_Inr_iff split: if_splits)
next
  case (Line_Rejected rj)
  then have "jsonl_line_record (jt_parse T) (snd l) (fst l) = Line_Rejected rj" "rj_line rj = fst l"
    by (simp_all add: line_item_def jsonl_line_number)
  then show ?thesis
    using Line_Rejected
    by (auto simp: jsonl_check_line_def line_agrees_def line_kept_def rmap_eq_Inr_iff cross_check_Inr_iff)
qed (auto simp: jsonl_check_line_def line_agrees_def line_kept_def line_item_def)

definition jsonl_agrees :: "('d, 't) chrono \<Rightarrow> json_text \<Rightarrow> jsonl_chunks \<Rightarrow> (nat \<times> string) list \<Rightarrow> bool" where
  "jsonl_agrees C T chunks ls \<longleftrightarrow> list_all (line_agrees C T chunks) ls"

definition checked_lines :: "('d, 't) chrono \<Rightarrow> json_text \<Rightarrow> jsonl_chunks \<Rightarrow> (nat \<times> string) list \<Rightarrow> json_record checked list" where
  "checked_lines C T chunks ls = map (\<lambda>l. jsonl_check_line C T chunks (snd l) (fst l)) ls"

lemma checked_lines_pass: "all_pass (checked_lines C T chunks ls) \<longleftrightarrow> jsonl_agrees C T chunks ls"
  by (simp add: all_pass_def checked_lines_def jsonl_agrees_def list_all_iff is_ok_iff jsonl_check_line_iff)

lemma checked_lines_counted: "counted (checked_lines C T chunks ls) = length (filter (line_counts T) ls)"
  by (simp add: counted_def checked_lines_def filter_map o_def jsonl_check_line_counts)

lemma checked_lines_kept:
  assumes "jsonl_agrees C T chunks ls"
  shows "kept_records (checked_lines C T chunks ls) = jsonl_survivors C T (jc_checks chunks) ls"
  using assms
proof (induction ls)
  case Nil
  then show ?case by (simp add: checked_lines_def jsonl_survivors_def)
next
  case (Cons l ls)
  then have "fst (jsonl_check_line C T chunks (snd l) (fst l)) = Inr (line_kept C T chunks l)"
    by (simp add: jsonl_check_line_iff jsonl_agrees_def)
  then show ?case
    using Cons
    by (cases "jsonl_check_line C T chunks (snd l) (fst l)")
      (auto simp: checked_lines_def jsonl_survivors_def jsonl_agrees_def line_kept_def split: jsonl_line.split)
qed

lemma jsonl_checked_source:
  "source_end so = None \<Longrightarrow> jsonl_checked C T chunks (byte_reader_new so) 0 = checked_lines C T chunks (source_lines so)"
  by (simp add: jsonl_checked_lines checked_lines_def source_lines_def source_end_def)

lemma jsonl_open_Inr_iff: "is_ok (jsonl_open so chunks) \<longleftrightarrow> so_open_error so = None \<and> is_ok (so_inspect so)"
  by (auto simp: jsonl_open_def open_source_file_def is_ok_def split: option.splits sum.splits)

text \<open>
  A stream that ended without a failure met a source that ends without a read failure, with the
  number of records and the byte hash of pass 1 and, line by line, its outcomes under its keys,
  and yielded its survivors.
\<close>

lemma jsonl_stream_ok:
  assumes "list_all is_ok (jsonl_items C A T so chunks)" "jc_phase chunks = Not_Started" "0 < jc_chunk_rows chunks"
  shows "source_end so = None
    \<and> length (filter (line_counts T) (source_lines so)) = po_records (jc_expectations chunks)
    \<and> jsonl_pass_hash so = po_hash (jc_expectations chunks)
    \<and> jsonl_agrees C T chunks (source_lines so)
    \<and> (\<exists>bs. jsonl_items C A T so chunks = map Inr bs
        \<and> traverse (build_json_chunk C A (jt_print T) (jc_plan chunks))
            (stream_chunks (jc_chunk_rows chunks) (jsonl_survivors C T (jc_checks chunks) (source_lines so))) = Inr bs)"
proof -
  let ?build = "build_json_chunk C A (jt_print T) (jc_plan chunks)"
  let ?verify = "jsonl_verify chunks (jsonl_pass_hash so)"
  let ?xs = "jsonl_checked C T chunks (byte_reader_new so) 0"
  have items: "jsonl_items C A T so chunks = checked_stream ?build ?verify (jc_chunk_rows chunks) ?xs 0 False"
    using assms(1) jsonl_items_start [OF assms(2), of C A T so] by (auto simp: jsonl_pass_hash_def split: sum.splits)
  have ok: "all_pass ?xs" "?verify (counted ?xs) = Inr ()"
    using checked_stream_ok [OF assms(1) [unfolded items] assms(3)] by simp_all
  have e: "source_end so = None"
    using ok(1) by (auto simp: jsonl_checked_lines source_end_def all_pass_def split: option.splits)
  note xs = jsonl_checked_source [OF e, of C T chunks]
  have agrees: "jsonl_agrees C T chunks (source_lines so)" using ok(1) xs by (simp add: checked_lines_pass)
  have d: "jsonl_items C A T so chunks = deliver ?build
      (stream_chunks (jc_chunk_rows chunks) (jsonl_survivors C T (jc_checks chunks) (source_lines so))) []"
    using checked_stream_pass [OF ok(1) assms(3), of ?build ?verify 0 False] ok(2) checked_lines_kept [OF agrees]
    by (simp add: items xs end_items_def)
  have "\<exists>bs. traverse ?build (stream_chunks (jc_chunk_rows chunks) (jsonl_survivors C T (jc_checks chunks) (source_lines so))) = Inr bs
      \<and> jsonl_items C A T so chunks = map Inr bs"
    using deliver_ok [of ?build _ "[]"] assms(1) unfolding d by fastforce
  then show ?thesis
    using e ok(2) agrees
    by (auto simp: jsonl_verify_def verify_end_of_input_def xs checked_lines_counted split: if_splits)
qed

lemma jsonl_stream_agrees:
  assumes "is_ok (jsonl_open so chunks)" "jc_phase chunks = Not_Started" "0 < jc_chunk_rows chunks"
    "source_end so = None" "jsonl_agrees C T chunks (source_lines so)"
    "length (filter (line_counts T) (source_lines so)) = po_records (jc_expectations chunks)"
    "jsonl_pass_hash so = po_hash (jc_expectations chunks)"
  shows "jsonl_items C A T so chunks = deliver (build_json_chunk C A (jt_print T) (jc_plan chunks))
    (stream_chunks (jc_chunk_rows chunks) (jsonl_survivors C T (jc_checks chunks) (source_lines so))) []"
proof -
  note xs = jsonl_checked_source [OF assms(4), of C T chunks]
  have "jsonl_verify chunks (jsonl_pass_hash so) (counted (checked_lines C T chunks (source_lines so))) = Inr ()"
    using assms(6,7) by (simp add: jsonl_verify_def verify_end_of_input_def checked_lines_counted)
  then show ?thesis
    using jsonl_items_start [OF assms(2), of C A T so] assms(1) xs
      checked_stream_pass [of "checked_lines C T chunks (source_lines so)" "jc_chunk_rows chunks"
        "build_json_chunk C A (jt_print T) (jc_plan chunks)" "jsonl_verify chunks (jsonl_pass_hash so)" 0 False]
      assms(3,5) checked_lines_kept [OF assms(5)]
    by (auto simp: checked_lines_pass end_items_def jsonl_pass_hash_def is_ok_iff)
qed

subsection \<open>The stream of a pass 1\<close>

text \<open>The chunk stream that pass 1 over the source \<open>so\<close> hands to pass 2, before its first pull.\<close>

definition jsonl_stream_of ::
  "('d, 't) chrono \<Rightarrow> json_text \<Rightarrow> yaml \<Rightarrow> source_file \<Rightarrow> schema_directive \<Rightarrow> merge_keys \<Rightarrow> nat \<Rightarrow> resolution \<Rightarrow> jsonl_chunks \<Rightarrow> bool" where
  "jsonl_stream_of C T Y so d keys n rs chunks \<longleftrightarrow>
     jc_plan chunks = rs_plan rs \<and> jc_checks chunks = rs_checks rs \<and> jc_chunk_rows chunks = n
   \<and> jc_phase chunks = Not_Started \<and> jc_resolved_shape chunks \<noteq> []
   \<and> set (jc_resolved_shape chunks) = (\<Union>r\<in>set (line_records T (source_lines so)). fst ` set (js_object r))
   \<and> json_finish Y d keys (jc_resolved_shape chunks)
       (fst (json_observe_all C d (json_observer_new d keys) (line_records T (source_lines so)))) = Inr rs
   \<and> is_ok (jsonl_open so chunks) \<and> source_end so = None
   \<and> po_records (jc_expectations chunks) = length (filter (line_counts T) (source_lines so))
   \<and> po_hash (jc_expectations chunks) = jsonl_pass_hash so
   \<and> set (po_rejected_lines (jc_expectations chunks))
       = fst ` {l \<in> set (source_lines so). line_rejection C T (jc_checks chunks) l \<noteq> None}"

lemma jsonl_rejections_lines:
  "rj_line ` set (jsonl_rejections C T checks ls) = fst ` {l \<in> set ls. line_rejection C T checks l \<noteq> None}"
proof -
  have s: "set (List.map_filter g ls) = {r. \<exists>l\<in>set ls. g l = Some r}" for g :: "nat \<times> string \<Rightarrow> rejected_record option"
    by (induction ls) (auto simp: map_filter_simps split: option.splits)
  show ?thesis
    unfolding jsonl_rejections_def s using line_rejection_line by (force simp: image_iff)
qed

lemma jsonl_rejections_sorted: "sorted_wrt (<) (map rj_line (jsonl_rejections C T checks (source_lines so)))"
proof -
  have "sorted_wrt (<) (map fst ls) \<Longrightarrow> sorted_wrt (<) (map rj_line (jsonl_rejections C T checks ls))" for ls
  proof (induction ls)
    case (Cons l ls)
    have "rj_line r \<in> fst ` set ls" if "r \<in> set (jsonl_rejections C T checks ls)" for r
      using that jsonl_rejections_lines [of C T checks ls] by blast
    then show ?case
      using Cons line_rejection_line [of C T checks l]
      by (fastforce simp: jsonl_rejections_def map_filter_simps split: option.splits)
  qed (simp add: jsonl_rejections_def map_filter_simps)
  then show ?thesis
    using numbered_lines_sorted [of "byte_reader_new so" 0] by (simp add: source_lines_def)
qed

lemma jsonl_first_pass:
  assumes "read_jsonl C T Y so self d keys n (sink_new dir) f = Some (Inr sr, sink', f')"
    "tf_files f (sk_artifact_path (sink_new dir)) = None" "dir_ok d" "sr_chunks sr = Jsonl_Chunks chunks"
    "sk_io_error sink' = None" "texts_read_back T (source_lines so)"
  obtains rs where "jsonl_stream_of C T Y so d keys n rs chunks"
    "sink_holds T sink' f' (jsonl_rejections C T (jc_checks chunks) (source_lines so))"
proof -
  let ?ls = "source_lines so"
  obtain names rs where r: "so_open_error so = None" "is_ok (so_inspect so)" "source_end so = None" "names \<noteq> []"
    and names: "set names = (\<Union>r\<in>set (line_records T ?ls). fst ` set (js_object r))"
    and fin: "json_finish Y d keys names (fst (json_observe_all C d (json_observer_new d keys) (line_records T ?ls))) = Inr rs"
    and "sr_source_rows sr = length (filter (line_counts T) ?ls)" "sr_rejected_count sr = sk_count sink'"
    and sink: "sk_io_error sink' = None \<Longrightarrow> texts_read_back T ?ls \<Longrightarrow> sink_holds T sink' f' (jsonl_rejections C T (rs_checks rs) ?ls)"
    and c: "sr_chunks sr = Jsonl_Chunks
       \<lparr>jc_path = ls_path self, jc_plan = rs_plan rs, jc_checks = rs_checks rs, jc_resolved_shape = names,
        jc_chunk_rows = n,
        jc_expectations = \<lparr>po_rejected_lines = sk_lines sink',
          po_records = length (filter (line_counts T) ?ls), po_hash = jsonl_pass_hash so\<rparr>,
        jc_reading = None, jc_phase = Not_Started\<rparr>"
    by (rule read_jsonl_Inr [OF assms(1) sink_new_holds [OF assms(2)] sink_new_paths_ok assms(3)]) (rule that)
  note c = c [unfolded assms(4) source_chunks.inject]
  note sink = sink [OF assms(5,6)]
  have "set (sk_lines sink') = fst ` {l \<in> set ?ls. line_rejection C T (rs_checks rs) l \<noteq> None}"
    using sink jsonl_rejections_lines [of C T "rs_checks rs" ?ls] by (simp add: sink_holds_def)
  then have "jsonl_stream_of C T Y so d keys n rs chunks"
    using r names fin c by (simp add: jsonl_stream_of_def jsonl_open_Inr_iff)
  then show ?thesis using that [of rs] sink c by simp
qed

lemma line_records_member:
  "l \<in> set ls \<Longrightarrow> line_item T l = Line_Record r \<Longrightarrow> r \<in> set (line_records T ls)"
  by (induction ls) (auto split: jsonl_line.split)

text \<open>Every line has its own number, so the source of pass 1 agrees with its outcomes.\<close>

lemma line_violates: "line_item T l = Line_Record r \<Longrightarrow> line_rejection C T checks l \<noteq> None \<longleftrightarrow> json_record_violates C r checks"
  using validate_json_iff_violates [of C r checks] by (simp add: line_rejection_def)

lemma jsonl_stream_self_agrees:
  assumes "jsonl_stream_of C T Y so d keys n rs chunks"
  shows "jsonl_agrees C T chunks (source_lines so)"
proof -
  let ?ls = "source_lines so"
  have d: "distinct (map fst ?ls)"
    using numbered_lines_sorted [of "byte_reader_new so" 0]
    by (auto simp: source_lines_def strict_sorted_iff)
  have tells: "fst l \<in> set (po_rejected_lines (jc_expectations chunks)) \<longleftrightarrow> line_rejection C T (jc_checks chunks) l \<noteq> None"
    if "l \<in> set ?ls" for l
    using assms that d by (auto simp: jsonl_stream_of_def dest: distinct_map_eqD [of fst ?ls])
  show ?thesis
    unfolding jsonl_agrees_def list_all_iff
  proof
    fix l assume l: "l \<in> set ?ls"
    show "line_agrees C T chunks l"
    proof (cases "line_item T l")
      case (Line_Record r)
      then have "r \<in> set (line_records T ?ls)"
        by (rule line_records_member [OF l])
      then have "fst ` set (js_object r) \<subseteq> set (jc_resolved_shape chunks)"
        using assms by (auto simp: jsonl_stream_of_def)
      then show ?thesis
        using tells [OF l] line_violates [OF Line_Record, of C "jc_checks chunks"] Line_Record by (simp add: line_agrees_def)
    next
      case (Line_Rejected rj)
      then show ?thesis using tells [OF l] by (simp add: line_agrees_def line_rejection_def)
    qed (simp add: line_agrees_def)
  qed
qed

lemma jsonl_stream_builds:
  assumes "jsonl_stream_of C T Y so d keys n rs chunks" "arrow_contract A" "dir_ok d"
    "set chunk \<subseteq> set (jsonl_survivors C T (jc_checks chunks) (source_lines so))"
  shows "\<exists>b. build_json_chunk C A J (jc_plan chunks) chunk = Inr b \<and> batch_of (jc_plan chunks) (length chunk) b"
proof -
  have s: "jc_plan chunks = rs_plan rs" "jc_checks chunks = rs_checks rs" "jc_resolved_shape chunks \<noteq> []"
    "json_finish Y d keys (jc_resolved_shape chunks)
       (fst (json_observe_all C d (json_observer_new d keys) (line_records T (source_lines so)))) = Inr rs"
    using assms(1) by (simp_all add: jsonl_stream_of_def)
  have sub: "set chunk \<subseteq> set (line_records T (source_lines so))" "\<forall>r\<in>set chunk. rejection_for C rs r = None"
    using assms(4) s(2) by (auto simp: jsonl_survivors_def accepted_iff)
  show ?thesis
    unfolding s(1) by (rule json_chunk_builds [OF assms(2,3) s(3) s(4) sub])
qed

end
