(* ===== verification/Load_Definition.thy ===== *)
theory Load_Definition
  imports Source_Reader Destination_Port
begin

section \<open>The load definition\<close>

text \<open>
  \<open>src/lib.rs\<close>, lines 236 to 411, 791 to 830, 1018 to 1055 and 1078 to 1215: the blocks of a load
  definition as the YAML reader hands them over, how the definition is echoed, and how each block
  is validated and resolved before any source or destination is touched. \<open>NonZeroU64\<close> values are
  naturals that \<open>execution_ok\<close> bounds.
\<close>

record merge_config =
  mc_keys :: "string list"

record retry_config =
  rc_max_attempts :: "nat option"
  rc_initial_delay_ms :: "nat option"
  rc_max_delay_ms :: "nat option"

record execution_config =
  ec_chunk_rows :: "nat option"
  ec_parallelism :: "nat option"
  ec_retry :: "retry_config option"

record schema_config =
  sg_pinned_path :: "string option"
  sg_drift_policy :: "string option"
  sg_overrides :: "override_entry list option"

record file_destination_definition =
  fd_connector :: string
  fd_path :: string

record sqlserver_destination_definition =
  qd_connector :: string
  qd_host :: "string option"
  qd_port :: "nat option"
  qd_database :: "string option"
  qd_schema :: "string option"
  qd_user :: "string option"
  qd_password_env :: "string option"
  qd_encryption :: "string option"
  qd_trust_server_certificate :: "bool option"
  qd_accept_datetime_rounding :: "bool option"

datatype destination_definition =
    File_Destination file_destination_definition
  | Sql_Server_Definition sqlserver_destination_definition

record load_definition =
  ld_version :: "nat option"
  ld_source :: "source_definition option"
  ld_destination :: "destination_definition option"
  ld_dataset :: "string option"
  ld_load_mode :: "string option"
  ld_merge :: "merge_config option"
  ld_transform :: "transform_config option"
  ld_schema :: "schema_config option"
  ld_artifacts_dir :: "string option option"
  ld_execution :: "execution_config option"
  ld_reject_threshold :: "nat option"

definition retry_config_ok :: "retry_config \<Rightarrow> bool" where
  "retry_config_ok config \<longleftrightarrow> (\<forall>n. rc_max_attempts config = Some n \<longrightarrow> 1 \<le> n \<and> n \<le> u64_max)
     \<and> (\<forall>n. rc_initial_delay_ms config = Some n \<longrightarrow> n \<le> u64_max)
     \<and> (\<forall>n. rc_max_delay_ms config = Some n \<longrightarrow> n \<le> u64_max)"

definition execution_ok :: "execution_config option \<Rightarrow> bool" where
  "execution_ok execution \<longleftrightarrow> (\<forall>config. execution = Some config \<longrightarrow>
     (\<forall>n. ec_chunk_rows config = Some n \<longrightarrow> 1 \<le> n) \<and> (\<forall>n. ec_parallelism config = Some n \<longrightarrow> 1 \<le> n)
     \<and> (\<forall>retry. ec_retry config = Some retry \<longrightarrow> retry_config_ok retry))"

subsection \<open>The echo of the definition\<close>

text \<open>\<open>to_json\<close>: a path that is not UTF-8 does not serialize, and the echo is then empty.\<close>

definition json_string_option :: "string option \<Rightarrow> json" where
  "json_string_option = json_opt JStr"

definition source_echo :: "source_definition \<Rightarrow> json" where
  "source_echo def = (if valid_utf8 (sd_path def) then
     JObj [(''connector'', JStr (sd_connector def)), (''path'', JStr (sd_path def)),
           (''format'', json_string_option (sd_format def))] else JObj [])"

fun destination_echo :: "destination_definition \<Rightarrow> json" where
  "destination_echo (File_Destination def) = (if valid_utf8 (fd_path def) then
     JObj [(''connector'', JStr (fd_connector def)), (''path'', JStr (fd_path def))] else JObj [])"
| "destination_echo (Sql_Server_Definition def) =
     JObj [(''connector'', JStr (qd_connector def)), (''host'', json_string_option (qd_host def)),
           (''port'', json_opt json_nat (qd_port def)), (''database'', json_string_option (qd_database def)),
           (''schema'', json_string_option (qd_schema def)), (''user'', json_string_option (qd_user def)),
           (''password_env'', json_string_option (qd_password_env def)),
           (''encryption'', json_string_option (qd_encryption def)),
           (''trust_server_certificate'', json_opt JBool (qd_trust_server_certificate def)),
           (''accept_datetime_rounding'', json_opt JBool (qd_accept_datetime_rounding def))]"

definition merge_echo :: "merge_config option \<Rightarrow> json" where
  "merge_echo merge = (case merge of None \<Rightarrow> JNull
     | Some config \<Rightarrow> JObj [(''keys'', JArr (map JStr (mc_keys config)))])"

definition default_load_mode :: "string option \<Rightarrow> string" where
  "default_load_mode load_mode = (case load_mode of None \<Rightarrow> ''full_refresh'' | Some mode \<Rightarrow> mode)"

subsection \<open>The merge block\<close>

definition invalid_merge_config :: "msg \<Rightarrow> load_failure" where
  "invalid_merge_config message = failure ''invalid_merge_config'' message"

definition validate_merge_config :: "load_mode \<Rightarrow> merge_config option \<Rightarrow> (load_failure, string list) result" where
  "validate_merge_config mode merge =
     (case merge of
        None \<Rightarrow>
          if mode = Merge then
            Inl (failure ''missing_merge_keys''
              [Lit ''load definition merge.keys is required when load_mode is merge''])
          else Inr []
      | Some merge \<Rightarrow>
          if mode \<noteq> Merge then Inl (invalid_merge_config [Lit ''a merge block requires load_mode: merge''])
          else if mc_keys merge = [] then
            Inl (invalid_merge_config [Lit ''merge.keys must name at least one dataset field''])
          else (case first_dup id (mc_keys merge) of
              Some key \<Rightarrow> Inl (invalid_merge_config
                [Lit ''merge.keys names field '', Dbg key, Lit '' more than once''])
            | None \<Rightarrow> Inr (mc_keys merge)))"

lemma validate_merge_config_Inr_iff:
  "validate_merge_config mode merge = Inr keys \<longleftrightarrow>
     (if mode = Merge then merge = Some \<lparr>mc_keys = keys\<rparr> \<and> keys \<noteq> [] \<and> distinct keys else merge = None \<and> keys = [])"
  by (cases merge) (auto simp: validate_merge_config_def first_dup_case_Inr_iff)

subsection \<open>The execution block\<close>

definition DEFAULT_CHUNK_ROWS :: nat where
  "DEFAULT_CHUNK_ROWS = 65536"

definition resolve_chunk_rows :: "execution_config option \<Rightarrow> nat" where
  "resolve_chunk_rows execution =
     (case Option.bind execution ec_chunk_rows of Some n \<Rightarrow> n | None \<Rightarrow> DEFAULT_CHUNK_ROWS)"

definition knob :: "'a option \<Rightarrow> 'a \<Rightarrow> 'a" where
  "knob config fallback = (case config of Some x \<Rightarrow> x | None \<Rightarrow> fallback)"

definition resolve_retry_policy :: "execution_config option \<Rightarrow> retry_policy" where
  "resolve_retry_policy execution =
     (case Option.bind execution ec_retry of
        None \<Rightarrow> default_policy
      | Some config \<Rightarrow>
          \<lparr>rp_max_attempts = knob (rc_max_attempts config) (rp_max_attempts default_policy),
           rp_initial_delay_ms = knob (rc_initial_delay_ms config) (rp_initial_delay_ms default_policy),
           rp_max_delay_ms = knob (rc_max_delay_ms config) (rp_max_delay_ms default_policy)\<rparr>)"

definition resolve_parallelism :: "execution_config option \<Rightarrow> nat \<Rightarrow> nat" where
  "resolve_parallelism execution connector_parallelism_limit =
     (case Option.bind execution ec_parallelism of
        None \<Rightarrow> connector_parallelism_limit
      | Some configured \<Rightarrow> min configured connector_parallelism_limit)"

lemma resolve_chunk_rows_pos: "execution_ok execution \<Longrightarrow> 0 < resolve_chunk_rows execution"
  by (cases execution)
    (auto simp: resolve_chunk_rows_def execution_ok_def DEFAULT_CHUNK_ROWS_def Suc_le_eq split: option.splits)

lemma default_policy_ok: "policy_ok default_policy"
  by (simp add: policy_ok_def default_policy_def u64_max_def)

lemma resolve_retry_policy_ok: "execution_ok execution \<Longrightarrow> policy_ok (resolve_retry_policy execution)"
  using default_policy_ok
  by (cases execution)
    (auto simp: resolve_retry_policy_def execution_ok_def retry_config_ok_def policy_ok_def knob_def split: option.splits)

lemma resolve_parallelism_serial: "execution_ok execution \<Longrightarrow> resolve_parallelism execution 1 = 1"
  by (cases execution) (auto simp: resolve_parallelism_def execution_ok_def split: option.splits)

subsection \<open>The schema directive\<close>

definition invalid_schema_config :: "msg \<Rightarrow> load_failure" where
  "invalid_schema_config message = failure ''invalid_schema_config'' message"

definition resolve_transform_block :: "transform_config option \<Rightarrow> string \<Rightarrow> (load_failure, schema_transform) result" where
  "resolve_transform_block config source_format = (case config of
     None \<Rightarrow> Inr transform_none | Some config \<Rightarrow> from_config config source_format)"

definition check_schema_block :: "schema_config \<Rightarrow> (load_failure, unit) result" where
  "check_schema_block config =
     (if sg_pinned_path config = Some [] then
        Inl (invalid_schema_config [Lit ''schema.pinned_path must not be empty''])
      else if sg_overrides config = Some [] then
        Inl (invalid_schema_config [Lit ''schema.overrides must declare at least one override''])
      else if sg_pinned_path config = None \<and> sg_drift_policy config \<noteq> None then
        Inl (invalid_schema_config [Lit ''schema.drift_policy requires schema.pinned_path''])
      else if sg_pinned_path config = None \<and> sg_overrides config = None then
        Inl (invalid_schema_config [Lit ''a schema block must set schema.pinned_path or schema.overrides''])
      else Inr ())"

definition parse_drift_policy :: "string option \<Rightarrow> (load_failure, drift_policy) result" where
  "parse_drift_policy drift_policy = (case drift_policy of
     None \<Rightarrow> Inr Drift_Fail
   | Some text_value \<Rightarrow>
       if text_value = ''fail'' then Inr Drift_Fail
       else if text_value = ''allow_additive_nullable'' then Inr Allow_Additive_Nullable
       else Inl (failure ''unsupported_drift_policy'' [Lit ''unsupported drift policy: '', Txt text_value]))"

definition resolve_overrides :: "override_entry list option \<Rightarrow> (load_failure, schema_overrides) result" where
  "resolve_overrides overrides = (case overrides of None \<Rightarrow> Inr [] | Some entries \<Rightarrow> from_entries entries)"

text \<open>Reading the pin: a file that does not exist is bootstrapped.\<close>

definition read_pin ::
  "yaml \<Rightarrow> string \<Rightarrow> drift_policy \<Rightarrow> schema_transform \<Rightarrow> schema_overrides \<Rightarrow> text_fs
   \<Rightarrow> (load_failure, schema_directive) result \<times> text_fs" where
  "read_pin Y pinned_path policy transform overrides f =
     (case tf_read_to_string pinned_path f of
        (Inr (Some pin_text), f) \<Rightarrow>
          (rmap (\<lambda>pin. Pinned pinned_path pin policy transform overrides) (from_yaml Y pin_text), f)
      | (Inr None, f) \<Rightarrow> (Inr (Pin_Inferred pinned_path transform overrides), f)
      | (Inl error, f) \<Rightarrow>
          (Inl (failure ''pinned_schema_read_failed''
             [Lit ''failed to read pinned schema '', Txt pinned_path, Lit '': '', Txt error]), f))"

definition resolve_schema_directive ::
  "yaml \<Rightarrow> schema_config option \<Rightarrow> transform_config option \<Rightarrow> string \<Rightarrow> text_fs
   \<Rightarrow> (load_failure, schema_directive) result \<times> text_fs" where
  "resolve_schema_directive Y schema_config transform_config source_format f =
     (case resolve_transform_block transform_config source_format of
        Inl fail \<Rightarrow> (Inl fail, f)
      | Inr transform \<Rightarrow>
          (case schema_config of
             None \<Rightarrow> (Inr (Inferred transform []), f)
           | Some config \<Rightarrow>
               (case rbind (check_schema_block config) (\<lambda>_. rbind (parse_drift_policy (sg_drift_policy config)) (\<lambda>policy.
                       rmap (Pair policy) (resolve_overrides (sg_overrides config)))) of
                  Inl fail \<Rightarrow> (Inl fail, f)
                | Inr (policy, overrides) \<Rightarrow>
                    (case sg_pinned_path config of
                       None \<Rightarrow> (Inr (Inferred transform overrides), f)
                     | Some pinned_path \<Rightarrow> read_pin Y pinned_path policy transform overrides f))))"

text \<open>A resolved directive is the kind the definition asks for, and well formed.\<close>

definition rename_block_ok :: "transform_config option \<Rightarrow> bool" where
  "rename_block_ok config \<longleftrightarrow> (\<forall>c entries. config = Some c \<longrightarrow> tc_rename c = Some entries \<longrightarrow> distinct (map fst entries))"

lemma resolve_transform_wf:
  assumes "resolve_transform_block config fmt = Inr tr" "rename_block_ok config"
  shows "transform_wf tr"
proof (cases config)
  case None
  then show ?thesis using assms by (auto simp: resolve_transform_block_def transform_wf_def transform_none_def)
next
  case (Some c)
  then show ?thesis
    using assms transform_wf_from_config [of c fmt tr]
    by (auto simp: resolve_transform_block_def rename_block_ok_def split: option.splits)
qed

lemma resolve_overrides_ok: "resolve_overrides overrides = Inr ovs \<Longrightarrow> overrides_ok ovs"
  using from_entries_Inr_iff
  by (auto simp: resolve_overrides_def overrides_ok_def split: option.splits)

lemma read_pin_ok:
  assumes "read_pin Y path policy tr ovs f = (Inr d, f')" "transform_wf tr" "overrides_ok ovs"
  shows "dir_ok d \<and> dir_transform d = tr"
  using assms from_yaml_ok
  by (auto simp: read_pin_def dir_ok_def rmap_eq_Inr_iff split: prod.splits sum.splits option.splits)

lemma resolve_schema_directive_ok:
  assumes "resolve_schema_directive Y sc tc fmt f = (Inr d, f')" "rename_block_ok tc"
  shows "dir_ok d \<and> (fmt = ''csv'' \<longrightarrow> tr_flatten (dir_transform d) = [])"
proof -
  obtain tr where tr: "resolve_transform_block tc fmt = Inr tr"
    using assms(1) by (auto simp: resolve_schema_directive_def split: sum.splits)
  note wf = resolve_transform_wf [OF tr assms(2)]
  have flat: "fmt = ''csv'' \<longrightarrow> tr_flatten tr = []"
    using tr by (auto simp: resolve_transform_block_def transform_none_def from_config_def config_flatten_def
        rbind_eq_Inr_iff split: option.splits if_splits)
  have "dir_ok d \<and> dir_transform d = tr"
    using assms(1) tr wf resolve_overrides_ok read_pin_ok [of Y]
    by (auto simp: resolve_schema_directive_def dir_ok_def overrides_ok_def rbind_eq_Inr_iff rmap_eq_Inr_iff
        split: sum.splits option.splits)
  then show ?thesis using flat by simp
qed

lemma resolve_schema_directive_files: "tf_files (snd (resolve_schema_directive Y sc tc fmt f)) = tf_files f"
proof -
  have "tf_files (snd (read_pin Y path policy tr ovs f)) = tf_files f" for path policy tr ovs
    using tf_read_to_string_files [of path f]
    by (cases "tf_read_to_string path f") (auto simp: read_pin_def split: sum.splits option.splits)
  then show ?thesis
    by (auto simp: resolve_schema_directive_def split: sum.splits option.splits)
qed

subsection \<open>Persisting the pin\<close>

definition persist_pinned_schema :: "pinned_schema_write \<Rightarrow> text_fs \<Rightarrow> (load_failure, unit) result \<times> text_fs" where
  "persist_pinned_schema pin f =
     (let parent = path_parent (pw_pinned_path pin) in
      apfst (map_err (\<lambda>error. failure ''pinned_schema_write_failed''
               [Lit ''failed to persist pinned schema '', Txt (pw_pinned_path pin), Lit '': '', Txt error]))
        (io_bind (if parent \<noteq> [] then tf_create_dir_all parent else io_return ())
           (\<lambda>_. tf_write_file (pw_pinned_path pin) (pw_yaml pin)) f))"

lemma persist_pinned_schema_files:
  "persist_pinned_schema pin f = (Inr u, f') \<Longrightarrow> tf_files f' = (tf_files f)(pw_pinned_path pin := Some (pw_yaml pin))"
  using tf_create_dir_all_files [of "path_parent (pw_pinned_path pin)" f]
  by (auto simp: persist_pinned_schema_def Let_def apfst_def map_prod_def io_bind_def io_return_def
      split: if_splits prod.splits sum.splits dest!: tf_write_file_files)

end
