(* ===== verification/Destination_Factory.thy ===== *)
theory Destination_Factory
  imports Load_Definition Parquet_Full_Refresh
begin

section \<open>The destinations a load definition names\<close>

text \<open>
  \<open>src/connector.rs\<close>, lines 268 to 270, 311 to 313, 417 to 468, 1202 to 1217 and 1952 to 2117: the
  destination factory with everything a connector checks offline, and what each destination
  declares of itself. The process environment is an argument.
\<close>

datatype sqlserver_encryption = Encryption_Required | Encryption_Optional

record sqlserver_config =
  qc_host :: string
  qc_port :: nat
  qc_database :: string
  qc_schema :: string
  qc_user :: string
  qc_password_env :: string
  qc_encryption :: sqlserver_encryption
  qc_trust_server_certificate :: bool
  qc_accept_datetime_rounding :: bool
  qc_dataset :: string

record duckdb_table =
  dt_path :: string
  dt_dataset :: string

datatype destination =
    Parquet_Destination string
  | Duckdb_Destination duckdb_table "string list"
  | Sqlserver_Destination sqlserver_config "string list"

subsection \<open>The SQL Server block\<close>

definition invalid_destination_config :: "msg \<Rightarrow> load_failure" where
  "invalid_destination_config message = failure ''invalid_destination_config'' message"

definition required_key :: "string \<Rightarrow> string option \<Rightarrow> (load_failure, string) result" where
  "required_key key value = (case value of
     Some v \<Rightarrow> if v \<noteq> [] then Inr v else Inl (invalid_destination_config
       [Lit ''destination.'', Txt key, Lit '' is required for a sqlserver destination and must not be empty''])
   | None \<Rightarrow> Inl (invalid_destination_config
       [Lit ''destination.'', Txt key, Lit '' is required for a sqlserver destination and must not be empty'']))"

definition parse_encryption :: "string option \<Rightarrow> (load_failure, sqlserver_encryption) result" where
  "parse_encryption encryption = (case encryption of
     None \<Rightarrow> Inr Encryption_Required
   | Some other \<Rightarrow>
       if other = ''required'' then Inr Encryption_Required
       else if other = ''optional'' then Inr Encryption_Optional
       else Inl (invalid_destination_config
         [Lit ''destination.encryption must be \"required\" or \"optional\", got: '', Txt other]))"

definition resolve_schema_name :: "string option \<Rightarrow> (load_failure, string) result" where
  "resolve_schema_name schema = (case schema of
     None \<Rightarrow> Inr ''dbo''
   | Some name \<Rightarrow>
       if name = [] then Inl (invalid_destination_config
         [Lit ''destination.schema must not be empty for a sqlserver destination''])
       else if CHR ''.'' \<in> set name then Inl (invalid_destination_config
         [Lit ''destination.schema must be a single identifier without a dot, got: '', Txt name])
       else Inr name)"

definition require_dataset :: "string option \<Rightarrow> string \<Rightarrow> (load_failure, string) result" where
  "require_dataset dataset connector =
     (if dataset = None \<or> dataset = Some [] then
        Inl (failure ''missing_dataset''
          [Lit ''load definition dataset is required for a '', Txt connector, Lit '' destination''])
      else Inr (the dataset))"

definition check_dataset_name :: "string \<Rightarrow> (load_failure, unit) result" where
  "check_dataset_name dataset =
     (if CHR ''.'' \<in> set dataset then
        Inl (failure ''invalid_dataset_name''
          [Lit ''load definition dataset '', Dbg dataset, Lit '' must not contain a dot for a sqlserver destination: schema qualification lives in destination.schema''])
      else Inr ())"

definition sqlserver_config_from ::
  "sqlserver_destination_definition \<Rightarrow> string option \<Rightarrow> (load_failure, sqlserver_config) result" where
  "sqlserver_config_from def dataset =
     rbind (required_key ''host'' (qd_host def)) (\<lambda>host.
     rbind (required_key ''database'' (qd_database def)) (\<lambda>database.
     rbind (required_key ''user'' (qd_user def)) (\<lambda>user.
     rbind (required_key ''password_env'' (qd_password_env def)) (\<lambda>password_env.
     rbind (parse_encryption (qd_encryption def)) (\<lambda>encryption.
     rbind (resolve_schema_name (qd_schema def)) (\<lambda>schema.
     rbind (require_dataset dataset ''sqlserver'') (\<lambda>dataset.
     rbind (check_dataset_name dataset) (\<lambda>_.
       Inr \<lparr>qc_host = host, qc_port = knob (qd_port def) 1433, qc_database = database, qc_schema = schema,
            qc_user = user, qc_password_env = password_env, qc_encryption = encryption,
            qc_trust_server_certificate = knob (qd_trust_server_certificate def) False,
            qc_accept_datetime_rounding = knob (qd_accept_datetime_rounding def) False,
            qc_dataset = dataset\<rparr>))))))))"

text \<open>\<open>std::env::var_os\<close> is the argument \<open>env\<close>.\<close>

definition resolve_credential_reference :: "(string \<Rightarrow> string option) \<Rightarrow> string \<Rightarrow> (load_failure, unit) result" where
  "resolve_credential_reference env password_env = (case env password_env of
     None \<Rightarrow> Inl (failure ''unresolved_credential_reference''
       [Lit ''environment variable '', Txt password_env, Lit '' named by destination.password_env is not set''])
   | Some value \<Rightarrow>
       if value = [] then Inl (failure ''unresolved_credential_reference''
         [Lit ''environment variable '', Txt password_env, Lit '' named by destination.password_env is empty''])
       else Inr ())"

subsection \<open>The factory\<close>

definition file_destination_connector ::
  "file_destination_definition \<Rightarrow> string option \<Rightarrow> string list \<Rightarrow> (load_failure, destination) result" where
  "file_destination_connector def dataset merge_keys =
     (if fd_connector def = ''parquet'' then Inr (Parquet_Destination (fd_path def))
      else if fd_connector def = ''duckdb'' then
        rbind (require_dataset dataset ''duckdb'') (\<lambda>dataset.
          Inr (Duckdb_Destination \<lparr>dt_path = fd_path def, dt_dataset = dataset\<rparr> merge_keys))
      else Inl (failure ''unsupported_destination_connector''
        [Lit ''unsupported destination connector: '', Txt (fd_connector def)]))"

fun destination_connector ::
  "(string \<Rightarrow> string option) \<Rightarrow> destination_definition \<Rightarrow> string option \<Rightarrow> string list
   \<Rightarrow> (load_failure, destination) result" where
  "destination_connector env (File_Destination def) dataset merge_keys =
     file_destination_connector def dataset merge_keys"
| "destination_connector env (Sql_Server_Definition def) dataset merge_keys =
     rbind (sqlserver_config_from def dataset) (\<lambda>config.
     rbind (resolve_credential_reference env (qc_password_env config)) (\<lambda>_.
       Inr (Sqlserver_Destination config merge_keys)))"

subsection \<open>What a destination declares\<close>

fun connector_name :: "destination \<Rightarrow> string" where
  "connector_name (Parquet_Destination path) = ''parquet''"
| "connector_name (Duckdb_Destination table keys) = ''duckdb''"
| "connector_name (Sqlserver_Destination config keys) = ''sqlserver''"

definition ALL_LOAD_MODES :: "load_mode list" where
  "ALL_LOAD_MODES = [Full_Refresh, Append, Merge]"

fun supported_load_modes :: "destination \<Rightarrow> load_mode list" where
  "supported_load_modes (Parquet_Destination path) = parquet_supported_load_modes"
| "supported_load_modes (Duckdb_Destination table keys) = ALL_LOAD_MODES"
| "supported_load_modes (Sqlserver_Destination config keys) = ALL_LOAD_MODES"

text \<open>No destination overrides the serial default, and SQL Server states it.\<close>

definition parallelism_limit :: "destination \<Rightarrow> load_mode \<Rightarrow> nat" where
  "parallelism_limit destination mode = 1"

definition validate_destination_mode :: "destination \<Rightarrow> load_mode \<Rightarrow> (load_failure, unit) result" where
  "validate_destination_mode destination mode =
     validate_mode (connector_name destination) (supported_load_modes destination) mode"

subsection \<open>What an accepted destination is\<close>

lemma require_dataset_Inr_iff: "require_dataset dataset connector = Inr name \<longleftrightarrow> dataset = Some name \<and> name \<noteq> []"
  by (cases dataset) (auto simp: require_dataset_def)

lemma required_key_Inr_iff: "required_key key value = Inr v \<longleftrightarrow> value = Some v \<and> v \<noteq> []"
  by (auto simp: required_key_def split: option.split)

lemma parse_encryption_Inr_iff:
  "parse_encryption encryption = Inr e \<longleftrightarrow>
     (e = Encryption_Required \<and> (encryption = None \<or> encryption = Some ''required''))
     \<or> (e = Encryption_Optional \<and> encryption = Some ''optional'')"
  by (auto simp: parse_encryption_def split: option.split)

lemma resolve_schema_name_Inr_iff:
  "resolve_schema_name schema = Inr name \<longleftrightarrow>
     name \<noteq> [] \<and> CHR ''.'' \<notin> set name \<and> (schema = Some name \<or> schema = None \<and> name = ''dbo'')"
  by (auto simp: resolve_schema_name_def split: option.split)

definition sqlserver_config_ok :: "sqlserver_config \<Rightarrow> bool" where
  "sqlserver_config_ok config \<longleftrightarrow> qc_host config \<noteq> [] \<and> qc_database config \<noteq> [] \<and> qc_user config \<noteq> []
     \<and> qc_password_env config \<noteq> [] \<and> qc_schema config \<noteq> [] \<and> CHR ''.'' \<notin> set (qc_schema config)
     \<and> qc_dataset config \<noteq> [] \<and> CHR ''.'' \<notin> set (qc_dataset config)"

lemma sqlserver_config_from_ok: "sqlserver_config_from def dataset = Inr config \<Longrightarrow> sqlserver_config_ok config"
  by (auto simp: sqlserver_config_from_def rbind_eq_Inr_iff required_key_Inr_iff resolve_schema_name_Inr_iff
      require_dataset_Inr_iff check_dataset_name_def sqlserver_config_ok_def split: if_splits)

text \<open>The merge keys a destination is given are those of the definition, and its modes cover them.\<close>

lemma validate_destination_mode_iff: "validate_destination_mode destination mode = Inr () \<longleftrightarrow>
    (case destination of Parquet_Destination _ \<Rightarrow> mode \<noteq> Merge | _ \<Rightarrow> True)"
  by (cases destination; cases mode)
    (simp_all add: validate_destination_mode_def validate_mode_def ALL_LOAD_MODES_def parquet_supported_load_modes_def Let_def)

lemma destination_connector_keys:
  "destination_connector env def dataset keys = Inr destination \<Longrightarrow>
   (case destination of Parquet_Destination _ \<Rightarrow> True
    | Duckdb_Destination table keys' \<Rightarrow> keys' = keys \<and> dataset = Some (dt_dataset table) \<and> dt_dataset table \<noteq> []
    | Sqlserver_Destination config keys' \<Rightarrow> keys' = keys \<and> sqlserver_config_ok config
        \<and> (\<exists>secret. env (qc_password_env config) = Some secret \<and> secret \<noteq> []))"
  by (cases def)
    (auto simp: file_destination_connector_def rbind_eq_Inr_iff require_dataset_Inr_iff resolve_credential_reference_def
      dest!: sqlserver_config_from_ok split: if_splits option.splits)

end
