(* ===== verification/Duckdb.thy ===== *)
theory Duckdb
  imports Destination_Factory
begin

section \<open>The DuckDB destination\<close>

text \<open>
  \<open>src/connector.rs\<close>, lines 1219 to 1942: the SQL text of the three DuckDB sessions, the alignment
  of a batch to the destination table, and the sessions themselves. The DuckDB connection is a
  parameter: a record of the calls the source makes on it, over a state \<open>'c\<close> of the database
  and the connection. \<open>count(*)\<close> is a natural number. A writer and its connection are dropped
  where the source lets them go.
\<close>

record 'c duckdb =
  du_prepare_parent :: "string \<Rightarrow> 'c \<Rightarrow> (string, unit) result \<times> 'c"
  du_open :: "string \<Rightarrow> 'c \<Rightarrow> (string, unit) result \<times> 'c"
  du_register :: "'c \<Rightarrow> (string, unit) result \<times> 'c"
  du_schema :: "string \<Rightarrow> 'c \<Rightarrow> (string, arrow_field list) result \<times> 'c"
  du_execute :: "string \<Rightarrow> record_batch \<Rightarrow> 'c \<Rightarrow> (string, unit) result \<times> 'c"
  du_execute_batch :: "string \<Rightarrow> 'c \<Rightarrow> (string, unit) result \<times> 'c"
  du_count :: "string \<Rightarrow> 'c \<Rightarrow> (string, nat) result \<times> 'c"
  du_close :: "'c \<Rightarrow> (string, unit) result \<times> 'c"
  du_drop :: "'c \<Rightarrow> 'c"

subsection \<open>SQL text\<close>

definition quote_identifier :: "string \<Rightarrow> string" where
  "quote_identifier name =
     CHR 0x22 # concat (map (\<lambda>c. if c = CHR 0x22 then [CHR 0x22, CHR 0x22] else [c]) name) @ [CHR 0x22]"

definition quoted_dataset :: "duckdb_table \<Rightarrow> string" where
  "quoted_dataset table = quote_identifier (dt_dataset table)"

definition inspect_sql :: "string \<Rightarrow> string" where
  "inspect_sql target = ''SELECT * FROM '' @ target @ '' LIMIT 0''"

definition replace_sql :: "string \<Rightarrow> string" where
  "replace_sql target = ''CREATE OR REPLACE TABLE '' @ target @ '' AS SELECT * FROM arrow(?, ?)''"

definition insert_sql :: "string \<Rightarrow> string" where
  "insert_sql target = ''INSERT INTO '' @ target @ '' SELECT * FROM arrow(?, ?)''"

definition insert_by_name_sql :: "string \<Rightarrow> string" where
  "insert_by_name_sql target = ''INSERT INTO '' @ target @ '' BY NAME SELECT * FROM arrow(?, ?)''"

definition create_stage_sql :: "string \<Rightarrow> string \<Rightarrow> string" where
  "create_stage_sql stage target = ''CREATE TEMPORARY TABLE '' @ stage @ '' AS SELECT * FROM '' @ target @ '' LIMIT 0''"

definition stage_reference :: "string \<Rightarrow> string" where
  "stage_reference stage = ''temp.main.'' @ stage"

definition key_equality :: "string list \<Rightarrow> string" where
  "key_equality keys = join '' AND '' (map (\<lambda>key. ''merge_target.'' @ key @ '' = merge_source.'' @ key) keys)"

definition colliding_records_sql :: "string \<Rightarrow> string list \<Rightarrow> string" where
  "colliding_records_sql stage keys =
     ''SELECT count(*) FROM (SELECT count(*) OVER (PARTITION BY '' @ join '', '' keys @ '') AS key_tuple_records FROM ''
     @ stage_reference stage @ '') AS keyed WHERE key_tuple_records > 1''"

definition matched_records_sql :: "string \<Rightarrow> string \<Rightarrow> string list \<Rightarrow> string" where
  "matched_records_sql stage target keys =
     ''SELECT count(*) FROM '' @ stage_reference stage @ '' AS merge_source WHERE EXISTS (SELECT 1 FROM ''
     @ target @ '' AS merge_target WHERE '' @ key_equality keys @ '')''"

text \<open>The names are quoted; \<open>non_key_columns\<close> is empty when every column is a key.\<close>

definition merge_sql :: "string \<Rightarrow> string \<Rightarrow> string list \<Rightarrow> string list \<Rightarrow> string list \<Rightarrow> string" where
  "merge_sql target stage keys columns non_key_columns =
     (let matched_clause = (if non_key_columns = [] then []
            else '' WHEN MATCHED THEN UPDATE SET ''
              @ join '', '' (map (\<lambda>column. column @ '' = merge_source.'' @ column) non_key_columns))
      in ''MERGE INTO '' @ target @ '' AS merge_target USING '' @ stage_reference stage @ '' AS merge_source ON ''
         @ key_equality keys @ matched_clause
         @ '' WHEN NOT MATCHED THEN INSERT ('' @ join '', '' columns
         @ '') VALUES ('' @ join '', '' (map (\<lambda>column. ''merge_source.'' @ column) columns) @ '')'')"

subsection \<open>Opening and inspecting\<close>

definition in_table :: "string \<Rightarrow> duckdb_table \<Rightarrow> string \<Rightarrow> load_failure" where
  "in_table action table error = failure ''destination_write_failed''
     [Lit ''failed to '', Txt action, Lit '' DuckDB table '', Txt (dt_dataset table), Lit '' in '', Txt (dt_path table),
      Lit '': '', Txt error]"

definition open_arrow_connection :: "'c duckdb \<Rightarrow> duckdb_table \<Rightarrow> 'c \<Rightarrow> (load_failure, unit) result \<times> 'c" where
  "open_arrow_connection Q table c =
     (let parent = (if path_last (dt_path table) = [] then ''.'' else path_parent (dt_path table)) in
      case du_prepare_parent Q parent c of
        (Inl error, c) \<Rightarrow> (Inl (failure ''destination_write_failed''
          [Lit ''failed to prepare destination parent '', Txt parent, Lit '': '', Txt error]), c)
      | (Inr _, c) \<Rightarrow>
     (case du_open Q (dt_path table) c of
        (Inl error, c) \<Rightarrow> (Inl (failure ''destination_write_failed''
          [Lit ''failed to open DuckDB database '', Txt (dt_path table), Lit '': '', Txt error]), c)
      | (Inr _, c) \<Rightarrow>
     (case du_register Q c of
        (Inl error, c) \<Rightarrow> (Inl (failure ''destination_write_failed''
          [Lit ''failed to register the DuckDB Arrow table function: '', Txt error]), du_drop Q c)
      | (Inr _, c) \<Rightarrow> (Inr (), c))))"

definition inspect_schema ::
  "'c duckdb \<Rightarrow> duckdb_table \<Rightarrow> string \<Rightarrow> 'c \<Rightarrow> (load_failure, arrow_field list) result \<times> 'c" where
  "inspect_schema Q table op_name c =
     apfst (map_err (\<lambda>error. failure ''destination_write_failed''
       [Lit ''failed to inspect DuckDB table '', Txt (dt_dataset table), Lit '' in '', Txt (dt_path table),
        Lit '' before '', Txt op_name, Lit '': '', Txt error]))
       (du_schema Q (inspect_sql (quoted_dataset table)) c)"

definition close_failure :: "duckdb_table \<Rightarrow> string \<Rightarrow> load_failure" where
  "close_failure table error = failure ''destination_write_failed''
     [Lit ''failed to close DuckDB database '', Txt (dt_path table), Lit '': '', Txt error]"

subsection \<open>Alignment\<close>

definition duckdb_schema_mismatch :: "duckdb_table \<Rightarrow> string \<Rightarrow> load_failure" where
  "duckdb_schema_mismatch table op_name = failure ''destination_write_failed''
     [Txt op_name, Lit '' schema does not match DuckDB destination '', Txt (dt_dataset table), Lit '' in '', Txt (dt_path table)]"

definition align_duckdb_field ::
  "duckdb_table \<Rightarrow> string \<Rightarrow> record_batch \<Rightarrow> arrow_field \<Rightarrow> (load_failure, column) result" where
  "align_duckdb_field table op_name batch destination_field =
     (case index_of (rb_schema batch) (af_name destination_field) of
        None \<Rightarrow> Inl (duckdb_schema_mismatch table op_name)
      | Some source_index \<Rightarrow>
          let source_field = rb_schema batch ! source_index;
              column = rb_columns batch ! source_index
          in if af_type source_field \<noteq> af_type destination_field
                \<or> (\<not> af_nullable destination_field \<and> True \<in> set (column_nulls column))
             then Inl (duckdb_schema_mismatch table op_name)
             else Inr column)"

definition align_batch_to_duckdb_schema ::
  "arrow \<Rightarrow> duckdb_table \<Rightarrow> record_batch \<Rightarrow> arrow_field list \<Rightarrow> string \<Rightarrow> (load_failure, record_batch) result" where
  "align_batch_to_duckdb_schema A table batch destination_schema op_name =
     (if length (rb_schema batch) \<noteq> length destination_schema then Inl (duckdb_schema_mismatch table op_name)
      else rbind (traverse (align_duckdb_field table op_name batch) destination_schema) (\<lambda>columns.
        map_err (\<lambda>error. failure ''destination_write_failed''
            [Lit ''failed to align '', Txt op_name, Lit '' records with DuckDB destination '', Txt (dt_dataset table),
             Lit '' in '', Txt (dt_path table), Lit '': '', Txt error])
          (rmap (\<lambda>_. \<lparr>rb_schema = destination_schema, rb_columns = columns\<rparr>)
            (ar_try_new A destination_schema columns))))"

subsection \<open>Full refresh\<close>

record 'c duckdb_full_refresh =
  df_table :: duckdb_table
  df_db :: 'c
  df_written_chunks :: nat
  df_written_records :: nat

definition duckdb_replace_begin :: "'c duckdb \<Rightarrow> ('c duckdb_full_refresh, unit) operation" where
  "duckdb_replace_begin Q w =
     (case open_arrow_connection Q (df_table w) (df_db w) of
        (Inl fail, c) \<Rightarrow> (Inl (write_failure_from fail), w\<lparr>df_db := c\<rparr>)
      | (Inr _, c) \<Rightarrow>
          (case du_execute_batch Q ''BEGIN'' c of
             (Inl error, c) \<Rightarrow> (Inl (write_failure_from (failure ''destination_write_failed''
                 [Lit ''failed to begin the DuckDB replace transaction in '', Txt (dt_path (df_table w)),
                  Lit '': '', Txt error])), w\<lparr>df_db := du_drop Q c\<rparr>)
           | (Inr _, c) \<Rightarrow> (Inr (), w\<lparr>df_db := c, df_written_chunks := 0, df_written_records := 0\<rparr>)))"

definition duckdb_replace_write ::
  "'c duckdb \<Rightarrow> record_batch \<Rightarrow> ('c duckdb_full_refresh, unit) operation" where
  "duckdb_replace_write Q batch w =
     (let statement = (if df_written_chunks w = 0 then replace_sql (quoted_dataset (df_table w))
                       else insert_sql (quoted_dataset (df_table w)))
      in case du_execute Q statement batch (df_db w) of
           (Inl error, c) \<Rightarrow>
             (Inl (write_failure_atomic (in_table ''replace'' (df_table w) error) ''transactional_replace'' 0), w\<lparr>df_db := c\<rparr>)
         | (Inr _, c) \<Rightarrow>
             (Inr (), w\<lparr>df_db := c, df_written_chunks := df_written_chunks w + 1,
                       df_written_records := df_written_records w + rb_rows batch\<rparr>))"

definition duckdb_replace_commit :: "'c duckdb \<Rightarrow> ('c duckdb_full_refresh, destination_write) operation" where
  "duckdb_replace_commit Q w =
     (case du_execute_batch Q ''COMMIT'' (df_db w) of
        (Inl error, c) \<Rightarrow>
          (Inl (write_failure_atomic (failure ''destination_write_failed''
             [Lit ''failed to commit the DuckDB replace of table '', Txt (dt_dataset (df_table w)), Lit '' in '',
              Txt (dt_path (df_table w)), Lit '': '', Txt error]) ''transactional_replace'' 0), w\<lparr>df_db := du_drop Q c\<rparr>)
      | (Inr _, c) \<Rightarrow>
          (case du_close Q c of
             (Inl error, c) \<Rightarrow>
               (Inl \<lparr>wx_failure = close_failure (df_table w) error, wx_facts = facts_atomic ''transactional_replace'',
                     wx_written_records = df_written_records w, wx_committed_chunks = df_written_chunks w,
                     wx_transience = Terminal\<rparr>, w\<lparr>df_db := du_drop Q c\<rparr>)
           | (Inr _, c) \<Rightarrow>
               (Inr \<lparr>dw_bytes_written = None, dw_facts = facts_atomic ''transactional_replace''\<rparr>, w\<lparr>df_db := c\<rparr>)))"

definition nothing_written :: abandoned_write where
  "nothing_written = \<lparr>aw_committed_chunks = 0, aw_written_records = 0, aw_facts = facts_not_applicable\<rparr>"

definition duckdb_replace_drop :: "'c duckdb \<Rightarrow> 'c duckdb_full_refresh \<Rightarrow> 'c duckdb_full_refresh" where
  "duckdb_replace_drop Q w = w\<lparr>df_db := du_drop Q (df_db w)\<rparr>"

definition duckdb_replace_abandon ::
  "'c duckdb \<Rightarrow> 'c duckdb_full_refresh \<Rightarrow> abandoned_write \<times> 'c duckdb_full_refresh" where
  "duckdb_replace_abandon Q w = (nothing_written, duckdb_replace_drop Q w)"

definition duckdb_replace_ops :: "'c duckdb \<Rightarrow> 'c duckdb_full_refresh destination_ops" where
  "duckdb_replace_ops Q =
     \<lparr>d_begin = (\<lambda>_. duckdb_replace_begin Q), d_write_chunk = duckdb_replace_write Q,
      d_commit = duckdb_replace_commit Q, d_abandon = duckdb_replace_abandon Q, d_drop = duckdb_replace_drop Q\<rparr>"

subsection \<open>Append\<close>

record 'c duckdb_append =
  da_table :: duckdb_table
  da_db :: 'c
  da_destination_schema :: "arrow_field list"
  da_committed_chunks :: nat
  da_written_records :: nat

definition duckdb_append_begin :: "'c duckdb \<Rightarrow> ('c duckdb_append, unit) operation" where
  "duckdb_append_begin Q w =
     (case open_arrow_connection Q (da_table w) (da_db w) of
        (Inl fail, c) \<Rightarrow> (Inl (write_failure_from fail), w\<lparr>da_db := c\<rparr>)
      | (Inr _, c) \<Rightarrow>
          (case inspect_schema Q (da_table w) ''append'' c of
             (Inl fail, c) \<Rightarrow> (Inl (write_failure_from fail), w\<lparr>da_db := du_drop Q c\<rparr>)
           | (Inr schema, c) \<Rightarrow>
               (Inr (), w\<lparr>da_db := c, da_destination_schema := schema, da_committed_chunks := 0, da_written_records := 0\<rparr>)))"

definition duckdb_append_failure :: "'c duckdb_append \<Rightarrow> load_failure \<Rightarrow> write_failure" where
  "duckdb_append_failure w fail =
     \<lparr>wx_failure = fail, wx_facts = facts_best_effort ''insert'', wx_written_records = da_written_records w,
      wx_committed_chunks = da_committed_chunks w, wx_transience = Terminal\<rparr>"

definition duckdb_chunk_failure :: "'c duckdb_append \<Rightarrow> load_failure \<Rightarrow> write_failure" where
  "duckdb_chunk_failure w fail =
     (if 0 < da_committed_chunks w then duckdb_append_failure w fail else write_failure_from fail)"

definition duckdb_append_write ::
  "arrow \<Rightarrow> 'c duckdb \<Rightarrow> record_batch \<Rightarrow> ('c duckdb_append, unit) operation" where
  "duckdb_append_write A Q batch w =
     (case align_batch_to_duckdb_schema A (da_table w) batch (da_destination_schema w) ''append'' of
        Inl fail \<Rightarrow> (Inl (duckdb_chunk_failure w fail), w)
      | Inr aligned_batch \<Rightarrow>
          (case du_execute Q (insert_by_name_sql (quoted_dataset (da_table w))) aligned_batch (da_db w) of
             (Inl error, c) \<Rightarrow>
               (Inl (duckdb_append_failure w (in_table ''append to'' (da_table w) error)), w\<lparr>da_db := c\<rparr>)
           | (Inr _, c) \<Rightarrow>
               (Inr (), w\<lparr>da_db := c, da_committed_chunks := da_committed_chunks w + 1,
                         da_written_records := da_written_records w + rb_rows aligned_batch\<rparr>)))"

definition duckdb_append_commit :: "'c duckdb \<Rightarrow> ('c duckdb_append, destination_write) operation" where
  "duckdb_append_commit Q w =
     (case du_close Q (da_db w) of
        (Inl error, c) \<Rightarrow>
          (Inl (duckdb_append_failure w (close_failure (da_table w) error)), w\<lparr>da_db := du_drop Q c\<rparr>)
      | (Inr _, c) \<Rightarrow> (Inr \<lparr>dw_bytes_written = None, dw_facts = facts_best_effort ''insert''\<rparr>, w\<lparr>da_db := c\<rparr>))"

definition duckdb_append_drop :: "'c duckdb \<Rightarrow> 'c duckdb_append \<Rightarrow> 'c duckdb_append" where
  "duckdb_append_drop Q w = w\<lparr>da_db := du_drop Q (da_db w)\<rparr>"

definition duckdb_append_abandon :: "'c duckdb \<Rightarrow> 'c duckdb_append \<Rightarrow> abandoned_write \<times> 'c duckdb_append" where
  "duckdb_append_abandon Q w =
     (append_abandoned ''insert'' (da_committed_chunks w) (da_written_records w), duckdb_append_drop Q w)"

definition duckdb_append_ops :: "arrow \<Rightarrow> 'c duckdb \<Rightarrow> 'c duckdb_append destination_ops" where
  "duckdb_append_ops A Q =
     \<lparr>d_begin = (\<lambda>_. duckdb_append_begin Q), d_write_chunk = duckdb_append_write A Q,
      d_commit = duckdb_append_commit Q, d_abandon = duckdb_append_abandon Q, d_drop = duckdb_append_drop Q\<rparr>"

subsection \<open>Merge\<close>

text \<open>The stage's name ends in the UUID the session draws, an argument here.\<close>

record 'c duckdb_merge =
  dm_table :: duckdb_table
  dm_merge_keys :: "string list"
  dm_db :: 'c
  dm_destination_schema :: "arrow_field list"
  dm_stage :: string
  dm_staged_chunks :: nat
  dm_staged_records :: nat

definition merge_stage_name :: "string \<Rightarrow> string" where
  "merge_stage_name token = ''data_spark_merge_stage_'' @ token"

text \<open>The assertion on the keys is the caller's: the definition refuses a merge without keys.\<close>

definition duckdb_merge_begin :: "'c duckdb \<Rightarrow> string \<Rightarrow> ('c duckdb_merge, unit) operation" where
  "duckdb_merge_begin Q token w =
     (case open_arrow_connection Q (dm_table w) (dm_db w) of
        (Inl fail, c) \<Rightarrow> (Inl (write_failure_from fail), w\<lparr>dm_db := c\<rparr>)
      | (Inr _, c) \<Rightarrow>
          (case inspect_schema Q (dm_table w) ''merge'' c of
             (Inl fail, c) \<Rightarrow> (Inl (write_failure_from fail), w\<lparr>dm_db := du_drop Q c\<rparr>)
           | (Inr schema, c) \<Rightarrow>
               (case du_execute_batch Q ''BEGIN'' c of
                  (Inl error, c) \<Rightarrow> (Inl (write_failure_from (failure ''destination_write_failed''
                      [Lit ''failed to begin the DuckDB merge transaction in '', Txt (dt_path (dm_table w)),
                       Lit '': '', Txt error])), w\<lparr>dm_db := du_drop Q c\<rparr>)
                | (Inr _, c) \<Rightarrow>
                    let stage = merge_stage_name token in
                    (case du_execute_batch Q (create_stage_sql (quote_identifier stage) (quoted_dataset (dm_table w))) c of
                       (Inl error, c) \<Rightarrow> (Inl (write_failure_from (failure ''destination_write_failed''
                           [Lit ''failed to create the DuckDB merge stage for table '', Txt (dt_dataset (dm_table w)),
                            Lit '' in '', Txt (dt_path (dm_table w)), Lit '': '', Txt error])), w\<lparr>dm_db := du_drop Q c\<rparr>)
                     | (Inr _, c) \<Rightarrow>
                         (Inr (), w\<lparr>dm_db := c, dm_destination_schema := schema, dm_stage := stage,
                                   dm_staged_chunks := 0, dm_staged_records := 0\<rparr>)))))"

definition merge_failure :: "'c duckdb_merge \<Rightarrow> string \<Rightarrow> string \<Rightarrow> write_failure" where
  "merge_failure w action error = write_failure_atomic (in_table action (dm_table w) error) ''transactional_merge'' 0"

definition merge_stage_reference :: "'c duckdb_merge \<Rightarrow> string" where
  "merge_stage_reference w = quote_identifier (dm_stage w)"

definition merge_statement :: "'c duckdb_merge \<Rightarrow> string" where
  "merge_statement w =
     (let columns = map af_name (dm_destination_schema w) in
      merge_sql (quoted_dataset (dm_table w)) (merge_stage_reference w) (map quote_identifier (dm_merge_keys w))
        (map quote_identifier columns)
        (map quote_identifier (filter (\<lambda>column. column \<notin> set (dm_merge_keys w)) columns)))"

definition duckdb_merge_write ::
  "arrow \<Rightarrow> 'c duckdb \<Rightarrow> record_batch \<Rightarrow> ('c duckdb_merge, unit) operation" where
  "duckdb_merge_write A Q batch w =
     (case align_batch_to_duckdb_schema A (dm_table w) batch (dm_destination_schema w) ''merge'' of
        Inl fail \<Rightarrow> (Inl (write_failure_atomic fail ''transactional_merge'' 0), w)
      | Inr aligned_batch \<Rightarrow>
          (case du_execute Q (insert_by_name_sql (stage_reference (merge_stage_reference w))) aligned_batch (dm_db w) of
             (Inl error, c) \<Rightarrow> (Inl (merge_failure w ''stage merge records for'' error), w\<lparr>dm_db := c\<rparr>)
           | (Inr _, c) \<Rightarrow>
               (Inr (), w\<lparr>dm_db := c, dm_staged_chunks := dm_staged_chunks w + 1,
                         dm_staged_records := dm_staged_records w + rb_rows aligned_batch\<rparr>)))"

definition duplicate_keys_failure :: "'c duckdb_merge \<Rightarrow> nat \<Rightarrow> write_failure" where
  "duplicate_keys_failure w colliding = write_failure_atomic (failure ''duplicate_merge_keys''
     [Num colliding, Lit '' surviving records share a merge key tuple with another surviving record for DuckDB table '',
      Txt (dt_dataset (dm_table w)), Lit '' in '', Txt (dt_path (dm_table w))]) ''transactional_merge'' 0"

text \<open>What \<open>commit\<close> does on the connection, before the close; any failure drops the connection.\<close>

definition merge_transaction :: "'c duckdb \<Rightarrow> 'c duckdb_merge \<Rightarrow> (write_failure, nat) result \<times> 'c" where
  "merge_transaction Q w =
     (let keys = map quote_identifier (dm_merge_keys w) in
      case du_count Q (colliding_records_sql (merge_stage_reference w) keys) (dm_db w) of
        (Inl error, c) \<Rightarrow> (Inl (merge_failure w ''check merge key uniqueness for'' error), c)
      | (Inr colliding, c) \<Rightarrow>
          if 0 < colliding then (Inl (duplicate_keys_failure w colliding), c)
          else
     (case du_count Q (matched_records_sql (merge_stage_reference w) (quoted_dataset (dm_table w)) keys) c of
        (Inl error, c) \<Rightarrow> (Inl (merge_failure w ''count matched merge records for'' error), c)
      | (Inr updated, c) \<Rightarrow>
     (case du_execute_batch Q (merge_statement w) c of
        (Inl error, c) \<Rightarrow> (Inl (merge_failure w ''merge into'' error), c)
      | (Inr _, c) \<Rightarrow>
     (case du_execute_batch Q ''COMMIT'' c of
        (Inl error, c) \<Rightarrow> (Inl (merge_failure w ''commit the merge of'' error), c)
      | (Inr _, c) \<Rightarrow> (Inr updated, c)))))"

definition duckdb_merge_commit :: "'c duckdb \<Rightarrow> ('c duckdb_merge, destination_write) operation" where
  "duckdb_merge_commit Q w =
     (case merge_transaction Q w of
        (Inl fail, c) \<Rightarrow> (Inl fail, w\<lparr>dm_db := du_drop Q c\<rparr>)
      | (Inr updated, c) \<Rightarrow>
          (case du_close Q c of
             (Inl error, c) \<Rightarrow>
               (Inl \<lparr>wx_failure = close_failure (dm_table w) error, wx_facts = facts_atomic ''transactional_merge'',
                     wx_written_records = dm_staged_records w, wx_committed_chunks = dm_staged_chunks w,
                     wx_transience = Terminal\<rparr>, w\<lparr>dm_db := du_drop Q c\<rparr>)
           | (Inr _, c) \<Rightarrow>
               (Inr \<lparr>dw_bytes_written = None,
                     dw_facts = with_merge_counts (facts_atomic ''transactional_merge'') updated
                       (dm_staged_records w - updated)\<rparr>, w\<lparr>dm_db := c\<rparr>)))"

definition duckdb_merge_drop :: "'c duckdb \<Rightarrow> 'c duckdb_merge \<Rightarrow> 'c duckdb_merge" where
  "duckdb_merge_drop Q w = w\<lparr>dm_db := du_drop Q (dm_db w)\<rparr>"

definition duckdb_merge_abandon :: "'c duckdb \<Rightarrow> 'c duckdb_merge \<Rightarrow> abandoned_write \<times> 'c duckdb_merge" where
  "duckdb_merge_abandon Q w = (nothing_written, duckdb_merge_drop Q w)"

definition duckdb_merge_ops :: "arrow \<Rightarrow> 'c duckdb \<Rightarrow> string \<Rightarrow> 'c duckdb_merge destination_ops" where
  "duckdb_merge_ops A Q token =
     \<lparr>d_begin = (\<lambda>_. duckdb_merge_begin Q token), d_write_chunk = duckdb_merge_write A Q,
      d_commit = duckdb_merge_commit Q, d_abandon = duckdb_merge_abandon Q, d_drop = duckdb_merge_drop Q\<rparr>"

end
