(* ===== verification/Quoted_Text.thy ===== *)
theory Quoted_Text
  imports Std_Text
begin

section \<open>Quoted text\<close>

text \<open>
  How SQL reads quoted text: up to the closing character, which stands for itself where it is
  doubled. The reading is exact on a text with every closing character doubled.
\<close>

definition doubled :: "char \<Rightarrow> string \<Rightarrow> string" where
  "doubled q s = concat (map (\<lambda>c. if c = q then [q, q] else [c]) s)"

lemma doubled_simps [simp]:
  "doubled q [] = []" "doubled q (c # s) = (if c = q then [q, q] else [c]) @ doubled q s"
  by (simp_all add: doubled_def)

text \<open>The text before the closing character, and what follows it.\<close>

fun read_closed :: "char \<Rightarrow> string \<Rightarrow> (string \<times> string) option" where
  "read_closed q [] = None"
| "read_closed q [c] = (if c = q then Some ([], []) else None)"
| "read_closed q (c # d # s) =
     (if c \<noteq> q then map_option (apfst (Cons c)) (read_closed q (d # s))
      else if d = q then map_option (apfst (Cons q)) (read_closed q s) else Some ([], d # s))"

definition closes_at :: "char \<Rightarrow> string \<Rightarrow> bool" where
  "closes_at q rest \<longleftrightarrow> (case rest of [] \<Rightarrow> True | c # _ \<Rightarrow> c \<noteq> q)"

lemma closes_at_simps [simp]: "closes_at q []" "closes_at q (c # s) \<longleftrightarrow> c \<noteq> q"
  by (simp_all add: closes_at_def)

lemma read_closed_doubled: "closes_at q rest \<Longrightarrow> read_closed q (doubled q s @ q # rest) = Some (s, rest)"
proof (induction s)
  case Nil
  then show ?case by (cases rest) simp_all
next
  case (Cons c s)
  then show ?case by (cases "doubled q s @ q # rest") simp_all
qed

lemma read_closed_Some: "read_closed q t = Some (s, rest) \<Longrightarrow> t = doubled q s @ q # rest \<and> closes_at q rest"
proof (induction q t arbitrary: s rule: read_closed.induct)
  case (3 q c d t)
  then show ?case by (auto split: if_splits)
qed (auto split: if_splits)

lemma read_closed_iff: "read_closed q t = Some (s, rest) \<longleftrightarrow> t = doubled q s @ q # rest \<and> closes_at q rest"
  using read_closed_doubled read_closed_Some by blast

text \<open>A text that is one quoted name and nothing else.\<close>

definition unquoted :: "char \<Rightarrow> char \<Rightarrow> string \<Rightarrow> string option" where
  "unquoted left right t = (case t of
     [] \<Rightarrow> None
   | c # s \<Rightarrow> if c = left then (case read_closed right s of Some (name, []) \<Rightarrow> Some name | _ \<Rightarrow> None) else None)"

lemma unquoted_iff: "unquoted left right t = Some name \<longleftrightarrow> t = left # doubled right name @ [right]"
proof (cases t)
  case (Cons c s)
  then show ?thesis
    using read_closed_iff [of right s name "[]"]
    by (auto simp: unquoted_def split: option.splits list.splits)
qed (simp add: unquoted_def)

end
