(* ===== verification/Sql_Text.thy ===== *)
theory Sql_Text
  imports Quoted_Text "HOL-Library.Monad_Syntax"
begin

section \<open>Reading SQL\<close>

text \<open>
  A reader of the SQL that the two databases are sent, written from their documented grammar and
  without reference to the code that builds the texts: a lexer, and a reader of one statement
  into its parts. It reads a subset, with the keywords in the case the destinations use; every
  other text it refuses. Lists may be empty, which the databases refuse. Locking hints are read over.
\<close>

subsection \<open>Tokens\<close>

datatype sql_token = Word string | Named string | Quoted string | Symbol char | Unclosed

definition word_char :: "char \<Rightarrow> bool" where
  "word_char c = (let n = of_char c :: nat in
     48 \<le> n \<and> n \<le> 57 \<or> 65 \<le> n \<and> n \<le> 90 \<or> n = 95 \<or> 97 \<le> n \<and> n \<le> 122)"

lemma word_char_code [code]:
  "word_char (Char b0 b1 b2 b3 b4 b5 b6 b7) \<longleftrightarrow> \<not> b7 \<and>
     (if b6 then (\<not> b5 \<and> b4 \<and> b3 \<and> b2 \<and> b1 \<and> b0
           \<or> (b4 \<or> b3 \<or> b2 \<or> b1 \<or> b0) \<and> \<not> (b4 \<and> b3 \<and> (b2 \<or> b1 \<and> b0)))
      else b5 \<and> b4 \<and> \<not> (b3 \<and> (b2 \<or> b1)))"
  by (cases b0; cases b1; cases b2; cases b3; cases b4; cases b5; cases b6; cases b7) (simp_all add: word_char_def)

text \<open>Names stand between \<open>l\<close> and \<open>r\<close>, string literals between single quotes.\<close>

function tokens :: "char \<Rightarrow> char \<Rightarrow> string \<Rightarrow> sql_token list" where
  "tokens l r [] = []"
| "tokens l r (c # s) =
     (if c = CHR 0x20 then tokens l r s
      else if c = l then (case read_closed r s of None \<Rightarrow> [Unclosed] | Some (name, rest) \<Rightarrow> Named name # tokens l r rest)
      else if c = CHR 0x27 then
        (case read_closed (CHR 0x27) s of None \<Rightarrow> [Unclosed] | Some (name, rest) \<Rightarrow> Quoted name # tokens l r rest)
      else if word_char c then Word (c # takeWhile word_char s) # tokens l r (dropWhile word_char s)
      else Symbol c # tokens l r s)"
  by pat_completeness auto
termination
  by (relation "measure (\<lambda>(l, r, s). length s)")
    (auto dest!: read_closed_Some simp: less_Suc_eq_le length_dropWhile_le)

declare tokens.simps [simp del]

lemma tokens_Nil [simp]: "tokens l r [] = []"
  by (simp add: tokens.simps)

lemma tokens_name:
  "closes_at r rest \<Longrightarrow> l \<noteq> CHR 0x20 \<Longrightarrow> tokens l r (l # doubled r name @ r # rest) = Named name # tokens l r rest"
  by (simp add: tokens.simps read_closed_doubled)

lemma tokens_literal:
  "closes_at (CHR 0x27) rest \<Longrightarrow> l \<noteq> CHR 0x27 \<Longrightarrow>
     tokens l r (CHR 0x27 # doubled (CHR 0x27) t @ CHR 0x27 # rest) = Quoted t # tokens l r rest"
  by (simp add: tokens.simps read_closed_doubled)

text \<open>A text without quotes that ends between tokens is read for itself.\<close>

definition plain_text :: "char \<Rightarrow> string \<Rightarrow> bool" where
  "plain_text l p \<longleftrightarrow> l \<notin> set p \<and> CHR 0x27 \<notin> set p \<and> (p \<noteq> [] \<longrightarrow> \<not> word_char (last p))"

lemma tokens_plain: "plain_text l p \<Longrightarrow> tokens l r (p @ rest) = tokens l r p @ tokens l r rest"
proof (induction "length p" arbitrary: p rule: less_induct)
  case less
  show ?case
  proof (cases p)
    case (Cons c s)
    show ?thesis
    proof (cases "word_char c \<and> c \<noteq> CHR 0x20")
      case False
      have "plain_text l s" using less.prems Cons by (cases s) (auto simp: plain_text_def)
      then have "tokens l r (s @ rest) = tokens l r s @ tokens l r rest" using less.hyps Cons by simp
      then show ?thesis using less.prems Cons False by (auto simp: tokens.simps plain_text_def)
    next
      case True
      then have s: "s \<noteq> []" "\<not> word_char (last s)" using less.prems Cons by (auto simp: plain_text_def split: if_splits)
      then have stop: "last s \<in> set s" "\<not> word_char (last s)" by simp_all
      have "dropWhile word_char s \<noteq> []" using stop by (metis dropWhile_eq_Nil_conv)
      then have "last (dropWhile word_char s) = last s"
        by (metis last_appendR takeWhile_dropWhile_id)
      moreover have "set (dropWhile word_char s) \<subseteq> set s" by (meson set_dropWhileD subsetI)
      ultimately have "plain_text l (dropWhile word_char s)" using less.prems Cons s by (auto simp: plain_text_def)
      moreover have "length (dropWhile word_char s) < length p" using Cons by (simp add: le_imp_less_Suc length_dropWhile_le)
      ultimately have "tokens l r (dropWhile word_char s @ rest) = tokens l r (dropWhile word_char s) @ tokens l r rest"
        using less.hyps by blast
      then show ?thesis
        using less.prems Cons True stop
        by (auto simp: tokens.simps plain_text_def takeWhile_append1 dropWhile_append1)
    qed
  qed simp
qed

subsection \<open>Readers\<close>

type_synonym 'a reader = "sql_token list \<Rightarrow> ('a \<times> sql_token list) option"

fun exactly :: "sql_token list \<Rightarrow> unit reader" where
  "exactly [] ts = Some ((), ts)"
| "exactly (p # ps) [] = None"
| "exactly (p # ps) (t # ts) = (if p = t then exactly ps ts else None)"

definition spelt :: "string \<Rightarrow> unit reader" where
  "spelt t = exactly (tokens (CHR 0x22) (CHR 0x22) t)"

definition optional :: "'a reader \<Rightarrow> 'a option reader" where
  "optional item ts = (case item ts of None \<Rightarrow> Some (None, ts) | Some (x, rest) \<Rightarrow> Some (Some x, rest))"

fun either :: "'a reader list \<Rightarrow> 'a reader" where
  "either [] ts = None"
| "either (item # items) ts = (case item ts of None \<Rightarrow> either items ts | Some x \<Rightarrow> Some x)"

definition returning :: "'a \<Rightarrow> unit reader \<Rightarrow> 'a reader" where
  "returning x item ts = map_option (apfst (\<lambda>_. x)) (item ts)"

fun following :: "nat \<Rightarrow> 'a reader \<Rightarrow> unit reader \<Rightarrow> 'a list reader" where
  "following 0 item sep ts = None"
| "following (Suc n) item sep ts = (case sep ts of
     None \<Rightarrow> Some ([], ts)
   | Some (_, rest) \<Rightarrow> do { (x, ts) \<leftarrow> item rest; (xs, ts) \<leftarrow> following n item sep ts; Some (x # xs, ts) })"

definition separated :: "'a reader \<Rightarrow> unit reader \<Rightarrow> 'a list reader" where
  "separated item sep ts = (case item ts of
     None \<Rightarrow> Some ([], ts)
   | Some (x, ts) \<Rightarrow> do { (xs, ts) \<leftarrow> following (Suc (length ts)) item sep ts; Some (x # xs, ts) })"

definition a_word :: "string reader" where
  "a_word ts = (case ts of Word w # rest \<Rightarrow> Some (w, rest) | _ \<Rightarrow> None)"

definition a_name :: "string reader" where
  "a_name ts = (case ts of Named n # rest \<Rightarrow> Some (n, rest) | _ \<Rightarrow> None)"

definition decimal_digit :: "char \<Rightarrow> nat" where
  "decimal_digit c = of_char c - 48"

definition a_number :: "nat reader" where
  "a_number ts = (case ts of
     Word w # rest \<Rightarrow> if list_all (\<lambda>c. 48 \<le> (of_char c :: nat) \<and> (of_char c :: nat) \<le> 57) w
       then Some (foldl (\<lambda>n c. 10 * n + decimal_digit c) 0 w, rest) else None
   | _ \<Rightarrow> None)"

subsection \<open>Statements\<close>

text \<open>An object is named by the parts of its name, a field by the alias of its row and its column.\<close>

type_synonym sql_object = "string list"

type_synonym sql_field = "string \<times> string"

datatype comparison = Equal | Unequal | Less | Greater

text \<open>A condition is a disjunction of conjunctions.\<close>

type_synonym sql_condition = "(comparison \<times> sql_field \<times> sql_field) list list"

datatype sql_match = Matched | Not_Matched | Not_Matched_By_Source

datatype sql_action =
    Update_Set "(string \<times> sql_field) list"
  | Insert_Values "string list" "sql_field list"
  | Delete_Row

type_synonym sql_clause = "sql_match \<times> sql_action"

text \<open>\<open>arrow(?, ?)\<close> are the rows of the batch that the statement is given.\<close>

datatype sql_source = Arrow_Rows | Rows_Of sql_object "nat option"

datatype creation = Create_New | Create_Or_Replace | Create_If_Missing

datatype sql_statement =
    Begin_Transaction
  | Commit_Transaction
  | Rollback_Transaction
  | Select_Rows sql_source
  | Create_As creation bool sql_object sql_source
  | Create_Columns sql_object
  | Insert_Rows bool sql_object sql_source
  | Delete_Rows sql_object
  | Drop_Table sql_object
  | Identity_Insert sql_object bool
  | Merge_Rows sql_object string sql_object string sql_condition "sql_clause list"
  | Count_Peers "string list" sql_object comparison nat
  | Count_Related sql_object string sql_object string sql_condition
  | Select_Groups nat sql_object "string list" comparison nat
  | Count_Flagged sql_object string sql_object string sql_condition nat nat nat
  | Other_Select

fun only_looks :: "sql_statement \<Rightarrow> bool" where
  "only_looks (Count_Peers ns ob op n) = True"
| "only_looks (Count_Related ob a other b cond) = True"
| "only_looks (Count_Flagged ob a other b cond n x y) = True"
| "only_looks (Select_Groups m ob ns op n) = True"
| "only_looks (Select_Rows source) = True"
| "only_looks Other_Select = True"
| "only_looks st = False"

definition an_object :: "sql_object reader" where
  "an_object = separated (either [a_name, a_word]) (spelt ''.'')"

definition a_field :: "sql_field reader" where
  "a_field ts = do { (a, ts) \<leftarrow> a_word ts; (_, ts) \<leftarrow> spelt ''.'' ts; (n, ts) \<leftarrow> a_name ts; Some ((a, n), ts) }"

definition some_names :: "string list reader" where
  "some_names = separated a_name (spelt '','')"

definition some_fields :: "sql_field list reader" where
  "some_fields = separated a_field (spelt '','')"

definition an_equality :: "comparison reader" where
  "an_equality = either [returning Equal (spelt ''=''), returning Unequal (spelt ''<>'')]"

definition a_comparison :: "comparison reader" where
  "a_comparison = either [an_equality, returning Less (spelt ''<''), returning Greater (spelt ''>'')]"

definition a_test :: "(comparison \<times> sql_field \<times> sql_field) reader" where
  "a_test ts = do { (x, ts) \<leftarrow> a_field ts; (op, ts) \<leftarrow> an_equality ts; (y, ts) \<leftarrow> a_field ts; Some ((op, x, y), ts) }"

definition a_condition :: "sql_condition reader" where
  "a_condition = separated (separated a_test (spelt ''AND'')) (spelt ''OR'')"

definition an_assignment :: "(string \<times> sql_field) reader" where
  "an_assignment ts = do { (n, ts) \<leftarrow> a_name ts; (_, ts) \<leftarrow> spelt ''='' ts; (f, ts) \<leftarrow> a_field ts; Some ((n, f), ts) }"

definition some_assignments :: "(string \<times> sql_field) list reader" where
  "some_assignments = separated an_assignment (spelt '','')"

definition hints :: "unit reader" where
  "hints = either [\<lambda>ts. do { (_, ts) \<leftarrow> spelt ''WITH ('' ts; (_, ts) \<leftarrow> separated a_word (spelt '','') ts; spelt '')'' ts },
     \<lambda>ts. Some ((), ts)]"

definition aliased :: "(sql_object \<times> string) reader" where
  "aliased ts = do { (ob, ts) \<leftarrow> an_object ts; (_, ts) \<leftarrow> hints ts; (_, ts) \<leftarrow> spelt ''AS'' ts;
     (a, ts) \<leftarrow> a_word ts; (_, ts) \<leftarrow> hints ts; Some ((ob, a), ts) }"

subsubsection \<open>\<open>MERGE\<close>\<close>

definition a_match :: "sql_match reader" where
  "a_match = either [returning Matched (spelt ''WHEN MATCHED THEN''),
     returning Not_Matched_By_Source (spelt ''WHEN NOT MATCHED BY SOURCE THEN''),
     returning Not_Matched (spelt ''WHEN NOT MATCHED BY TARGET THEN''),
     returning Not_Matched (spelt ''WHEN NOT MATCHED THEN'')]"

definition an_action :: "sql_action reader" where
  "an_action = either
     [\<lambda>ts. do { (_, ts) \<leftarrow> spelt ''UPDATE SET'' ts; (as, ts) \<leftarrow> some_assignments ts; Some (Update_Set as, ts) },
      \<lambda>ts. do { (_, ts) \<leftarrow> spelt ''INSERT ('' ts; (ns, ts) \<leftarrow> some_names ts; (_, ts) \<leftarrow> spelt '') VALUES ('' ts;
                (fs, ts) \<leftarrow> some_fields ts; (_, ts) \<leftarrow> spelt '')'' ts; Some (Insert_Values ns fs, ts) },
      returning Delete_Row (spelt ''DELETE'')]"

definition a_clause :: "sql_clause reader" where
  "a_clause ts = do { (m, ts) \<leftarrow> a_match ts; (act, ts) \<leftarrow> an_action ts; Some ((m, act), ts) }"

fun clauses :: "nat \<Rightarrow> sql_clause list reader" where
  "clauses 0 ts = Some ([], ts)"
| "clauses (Suc n) ts = (case a_clause ts of
     None \<Rightarrow> Some ([], ts)
   | Some (c, ts) \<Rightarrow> do { (cs, ts) \<leftarrow> clauses n ts; Some (c # cs, ts) })"

definition a_merge :: "sql_statement reader" where
  "a_merge ts = do { (_, ts) \<leftarrow> spelt ''MERGE INTO'' ts; ((ob, a), ts) \<leftarrow> aliased ts; (_, ts) \<leftarrow> spelt ''USING'' ts;
     ((source, b), ts) \<leftarrow> aliased ts; (_, ts) \<leftarrow> spelt ''ON'' ts; (cond, ts) \<leftarrow> a_condition ts;
     (cs, ts) \<leftarrow> clauses 4 ts; (_, ts) \<leftarrow> optional (spelt '';'') ts; Some (Merge_Rows ob a source b cond cs, ts) }"

subsubsection \<open>Queries\<close>

definition a_source :: "sql_source reader" where
  "a_source = either
     [returning Arrow_Rows (spelt ''SELECT * FROM arrow(?, ?)''),
      \<lambda>ts. do { (_, ts) \<leftarrow> spelt ''SELECT * FROM'' ts; (ob, ts) \<leftarrow> an_object ts; (_, ts) \<leftarrow> spelt ''LIMIT'' ts;
                (n, ts) \<leftarrow> a_number ts; Some (Rows_Of ob (Some n), ts) },
      \<lambda>ts. do { (_, ts) \<leftarrow> spelt ''SELECT * FROM'' ts; (ob, ts) \<leftarrow> an_object ts; Some (Rows_Of ob None, ts) }]"

definition a_selection :: "sql_statement reader" where
  "a_selection ts = map_option (apfst Select_Rows) (a_source ts)"

definition a_peer_count :: "sql_statement reader" where
  "a_peer_count ts = do { (_, ts) \<leftarrow> spelt ''SELECT count(*) FROM (SELECT count(*) OVER (PARTITION BY'' ts;
     (ns, ts) \<leftarrow> some_names ts; (_, ts) \<leftarrow> spelt '') AS'' ts; (f, ts) \<leftarrow> a_word ts; (_, ts) \<leftarrow> spelt ''FROM'' ts;
     (ob, ts) \<leftarrow> an_object ts; (_, ts) \<leftarrow> spelt '') AS'' ts; (_, ts) \<leftarrow> a_word ts; (_, ts) \<leftarrow> spelt ''WHERE'' ts;
     (g, ts) \<leftarrow> a_word ts; (op, ts) \<leftarrow> a_comparison ts; (n, ts) \<leftarrow> a_number ts;
     if f = g then Some (Count_Peers ns ob op n, ts) else None }"

definition a_related_count :: "sql_statement reader" where
  "a_related_count ts = do { (_, ts) \<leftarrow> spelt ''SELECT count(*) FROM'' ts; ((ob, a), ts) \<leftarrow> aliased ts;
     (_, ts) \<leftarrow> spelt ''WHERE EXISTS (SELECT 1 FROM'' ts; ((other, b), ts) \<leftarrow> aliased ts; (_, ts) \<leftarrow> spelt ''WHERE'' ts;
     (cond, ts) \<leftarrow> a_condition ts; (_, ts) \<leftarrow> spelt '')'' ts; Some (Count_Related ob a other b cond, ts) }"

definition a_group_selection :: "sql_statement reader" where
  "a_group_selection ts = do { (_, ts) \<leftarrow> spelt ''SELECT TOP ('' ts; (m, ts) \<leftarrow> a_number ts; (_, ts) \<leftarrow> spelt '') 1 FROM'' ts;
     (ob, ts) \<leftarrow> an_object ts; (_, ts) \<leftarrow> spelt ''GROUP BY'' ts; (ns, ts) \<leftarrow> some_names ts;
     (_, ts) \<leftarrow> spelt ''HAVING COUNT_BIG(*)'' ts; (op, ts) \<leftarrow> a_comparison ts; (n, ts) \<leftarrow> a_number ts;
     Some (Select_Groups m ob ns op n, ts) }"

definition a_flagged_count :: "sql_statement reader" where
  "a_flagged_count ts = do { (_, ts) \<leftarrow> spelt ''SELECT COUNT_BIG(*), COUNT_BIG(CASE WHEN'' ts; (f, ts) \<leftarrow> a_word ts;
     (_, ts) \<leftarrow> spelt ''='' ts; (n, ts) \<leftarrow> a_number ts; (_, ts) \<leftarrow> spelt ''THEN 1 END) FROM (SELECT CASE WHEN EXISTS (SELECT 1 FROM'' ts;
     ((other, b), ts) \<leftarrow> aliased ts; (_, ts) \<leftarrow> spelt ''WHERE'' ts; (cond, ts) \<leftarrow> a_condition ts;
     (_, ts) \<leftarrow> spelt '') THEN'' ts; (x, ts) \<leftarrow> a_number ts; (_, ts) \<leftarrow> spelt ''ELSE'' ts; (y, ts) \<leftarrow> a_number ts;
     (_, ts) \<leftarrow> spelt ''END AS'' ts; (g, ts) \<leftarrow> a_word ts; (_, ts) \<leftarrow> spelt ''FROM'' ts; ((ob, a), ts) \<leftarrow> aliased ts;
     (_, ts) \<leftarrow> spelt '') AS'' ts; (_, ts) \<leftarrow> a_word ts;
     if f = g then Some (Count_Flagged ob a other b cond n x y, ts) else None }"

text \<open>Any other single \<open>SELECT\<close> that names no table to fill.\<close>

definition an_other_selection :: "sql_statement reader" where
  "an_other_selection ts = (if spelt ''SELECT'' ts \<noteq> None
       \<and> Word ''INTO'' \<notin> set ts \<and> Symbol (CHR '';'') \<notin> set ts \<and> Unclosed \<notin> set ts
     then Some (Other_Select, []) else None)"

subsubsection \<open>The other statements\<close>

definition a_transaction :: "sql_statement reader" where
  "a_transaction = either
     [returning Begin_Transaction (spelt ''BEGIN TRAN''), returning Begin_Transaction (spelt ''BEGIN''),
      returning Commit_Transaction (spelt ''COMMIT TRAN''), returning Commit_Transaction (spelt ''COMMIT''),
      returning Rollback_Transaction (spelt ''IF @@TRANCOUNT > 0 ROLLBACK TRAN'')]"

definition a_creation :: "sql_statement reader" where
  "a_creation ts = do { (_, ts) \<leftarrow> spelt ''CREATE'' ts; (replacing, ts) \<leftarrow> optional (spelt ''OR REPLACE'') ts;
     (temporary, ts) \<leftarrow> optional (spelt ''TEMPORARY'') ts; (_, ts) \<leftarrow> spelt ''TABLE'' ts;
     (missing, ts) \<leftarrow> optional (spelt ''IF NOT EXISTS'') ts; (ob, ts) \<leftarrow> an_object ts; (_, ts) \<leftarrow> spelt ''AS'' ts;
     (source, ts) \<leftarrow> a_source ts;
     Some (Create_As (if replacing \<noteq> None then Create_Or_Replace else if missing \<noteq> None then Create_If_Missing else Create_New)
       (temporary \<noteq> None) ob source, ts) }"

definition an_insertion :: "sql_statement reader" where
  "an_insertion ts = do { (_, ts) \<leftarrow> spelt ''INSERT INTO'' ts; (ob, ts) \<leftarrow> an_object ts;
     (named, ts) \<leftarrow> optional (spelt ''BY NAME'') ts; (source, ts) \<leftarrow> a_source ts; Some (Insert_Rows (named \<noteq> None) ob source, ts) }"

definition a_deletion :: "sql_statement reader" where
  "a_deletion ts = do { (_, ts) \<leftarrow> spelt ''DELETE FROM'' ts; (ob, ts) \<leftarrow> an_object ts; Some (Delete_Rows ob, ts) }"

definition a_drop :: "sql_statement reader" where
  "a_drop ts = do { (_, ts) \<leftarrow> spelt ''DROP TABLE'' ts; (ob, ts) \<leftarrow> an_object ts; Some (Drop_Table ob, ts) }"

definition an_identity :: "sql_statement reader" where
  "an_identity ts = do { (_, ts) \<leftarrow> spelt ''SET IDENTITY_INSERT'' ts; (ob, ts) \<leftarrow> an_object ts;
     (state, ts) \<leftarrow> either [returning True (spelt ''ON''), returning False (spelt ''OFF'')] ts; Some (Identity_Insert ob state, ts) }"

definition complete :: "'a reader \<Rightarrow> 'a reader" where
  "complete item ts = (case item ts of Some (x, []) \<Rightarrow> Some (x, []) | _ \<Rightarrow> None)"

definition a_statement :: "sql_statement reader" where
  "a_statement = either (map complete [a_transaction, a_creation, an_insertion, a_deletion, a_drop,
     an_identity, a_merge, a_selection, a_peer_count, a_related_count, a_group_selection, a_flagged_count, an_other_selection])"

definition read_sql :: "char \<Rightarrow> char \<Rightarrow> string \<Rightarrow> sql_statement option" where
  "read_sql l r sql = map_option fst (a_statement (tokens l r sql))"

subsection \<open>What the readers give\<close>

lemma looking:
  "only_looks (Count_Peers ns ob op n)" "only_looks (Count_Related ob a other b cond)"
  "only_looks (Count_Flagged ob a other b cond n x y)" "only_looks (Select_Groups m ob ns op n)"
  "only_looks Other_Select"
  by simp_all

text \<open>The tokens of every keyword sequence.\<close>

lemma spelt_eqs:
  "spelt ''.'' = exactly [Symbol (CHR ''.'')]"
  "spelt '','' = exactly [Symbol (CHR '','')]"
  "spelt ''='' = exactly [Symbol (CHR ''='')]"
  "spelt ''<>'' = exactly [Symbol (CHR ''<''), Symbol (CHR ''>'')]"
  "spelt ''<'' = exactly [Symbol (CHR ''<'')]"
  "spelt ''>'' = exactly [Symbol (CHR ''>'')]"
  "spelt ''AND'' = exactly [Word ''AND'']"
  "spelt ''OR'' = exactly [Word ''OR'']"
  "spelt ''WITH ('' = exactly [Word ''WITH'', Symbol (CHR ''('')]"
  "spelt '')'' = exactly [Symbol (CHR '')'')]"
  "spelt ''AS'' = exactly [Word ''AS'']"
  "spelt ''WHEN MATCHED THEN'' = exactly [Word ''WHEN'', Word ''MATCHED'', Word ''THEN'']"
  "spelt ''WHEN NOT MATCHED BY SOURCE THEN'' = exactly [Word ''WHEN'', Word ''NOT'', Word ''MATCHED'', Word ''BY'', Word ''SOURCE'', Word ''THEN'']"
  "spelt ''WHEN NOT MATCHED BY TARGET THEN'' = exactly [Word ''WHEN'', Word ''NOT'', Word ''MATCHED'', Word ''BY'', Word ''TARGET'', Word ''THEN'']"
  "spelt ''WHEN NOT MATCHED THEN'' = exactly [Word ''WHEN'', Word ''NOT'', Word ''MATCHED'', Word ''THEN'']"
  "spelt ''UPDATE SET'' = exactly [Word ''UPDATE'', Word ''SET'']"
  "spelt ''INSERT ('' = exactly [Word ''INSERT'', Symbol (CHR ''('')]"
  "spelt '') VALUES ('' = exactly [Symbol (CHR '')''), Word ''VALUES'', Symbol (CHR ''('')]"
  "spelt ''DELETE'' = exactly [Word ''DELETE'']"
  "spelt ''MERGE INTO'' = exactly [Word ''MERGE'', Word ''INTO'']"
  "spelt ''USING'' = exactly [Word ''USING'']"
  "spelt ''ON'' = exactly [Word ''ON'']"
  "spelt '';'' = exactly [Symbol (CHR '';'')]"
  "spelt ''SELECT * FROM arrow(?, ?)'' = exactly [Word ''SELECT'', Symbol (CHR ''*''), Word ''FROM'', Word ''arrow'', Symbol (CHR ''(''), Symbol (CHR ''?''), Symbol (CHR '',''), Symbol (CHR ''?''), Symbol (CHR '')'')]"
  "spelt ''SELECT * FROM'' = exactly [Word ''SELECT'', Symbol (CHR ''*''), Word ''FROM'']"
  "spelt ''LIMIT'' = exactly [Word ''LIMIT'']"
  "spelt ''SELECT count(*) FROM (SELECT count(*) OVER (PARTITION BY'' = exactly [Word ''SELECT'', Word ''count'', Symbol (CHR ''(''), Symbol (CHR ''*''), Symbol (CHR '')''), Word ''FROM'', Symbol (CHR ''(''), Word ''SELECT'', Word ''count'', Symbol (CHR ''(''), Symbol (CHR ''*''), Symbol (CHR '')''), Word ''OVER'', Symbol (CHR ''(''), Word ''PARTITION'', Word ''BY'']"
  "spelt '') AS'' = exactly [Symbol (CHR '')''), Word ''AS'']"
  "spelt ''FROM'' = exactly [Word ''FROM'']"
  "spelt ''WHERE'' = exactly [Word ''WHERE'']"
  "spelt ''SELECT count(*) FROM'' = exactly [Word ''SELECT'', Word ''count'', Symbol (CHR ''(''), Symbol (CHR ''*''), Symbol (CHR '')''), Word ''FROM'']"
  "spelt ''WHERE EXISTS (SELECT 1 FROM'' = exactly [Word ''WHERE'', Word ''EXISTS'', Symbol (CHR ''(''), Word ''SELECT'', Word ''1'', Word ''FROM'']"
  "spelt ''SELECT TOP ('' = exactly [Word ''SELECT'', Word ''TOP'', Symbol (CHR ''('')]"
  "spelt '') 1 FROM'' = exactly [Symbol (CHR '')''), Word ''1'', Word ''FROM'']"
  "spelt ''GROUP BY'' = exactly [Word ''GROUP'', Word ''BY'']"
  "spelt ''HAVING COUNT_BIG(*)'' = exactly [Word ''HAVING'', Word ''COUNT_BIG'', Symbol (CHR ''(''), Symbol (CHR ''*''), Symbol (CHR '')'')]"
  "spelt ''SELECT COUNT_BIG(*), COUNT_BIG(CASE WHEN'' = exactly [Word ''SELECT'', Word ''COUNT_BIG'', Symbol (CHR ''(''), Symbol (CHR ''*''), Symbol (CHR '')''), Symbol (CHR '',''), Word ''COUNT_BIG'', Symbol (CHR ''(''), Word ''CASE'', Word ''WHEN'']"
  "spelt ''THEN 1 END) FROM (SELECT CASE WHEN EXISTS (SELECT 1 FROM'' = exactly [Word ''THEN'', Word ''1'', Word ''END'', Symbol (CHR '')''), Word ''FROM'', Symbol (CHR ''(''), Word ''SELECT'', Word ''CASE'', Word ''WHEN'', Word ''EXISTS'', Symbol (CHR ''(''), Word ''SELECT'', Word ''1'', Word ''FROM'']"
  "spelt '') THEN'' = exactly [Symbol (CHR '')''), Word ''THEN'']"
  "spelt ''ELSE'' = exactly [Word ''ELSE'']"
  "spelt ''END AS'' = exactly [Word ''END'', Word ''AS'']"
  "spelt ''SELECT'' = exactly [Word ''SELECT'']"
  "spelt ''BEGIN TRAN'' = exactly [Word ''BEGIN'', Word ''TRAN'']"
  "spelt ''BEGIN'' = exactly [Word ''BEGIN'']"
  "spelt ''COMMIT TRAN'' = exactly [Word ''COMMIT'', Word ''TRAN'']"
  "spelt ''COMMIT'' = exactly [Word ''COMMIT'']"
  "spelt ''IF @@TRANCOUNT > 0 ROLLBACK TRAN'' = exactly [Word ''IF'', Symbol (CHR ''@''), Symbol (CHR ''@''), Word ''TRANCOUNT'', Symbol (CHR ''>''), Word ''0'', Word ''ROLLBACK'', Word ''TRAN'']"
  "spelt ''CREATE'' = exactly [Word ''CREATE'']"
  "spelt ''OR REPLACE'' = exactly [Word ''OR'', Word ''REPLACE'']"
  "spelt ''TEMPORARY'' = exactly [Word ''TEMPORARY'']"
  "spelt ''TABLE'' = exactly [Word ''TABLE'']"
  "spelt ''IF NOT EXISTS'' = exactly [Word ''IF'', Word ''NOT'', Word ''EXISTS'']"
  "spelt ''INSERT INTO'' = exactly [Word ''INSERT'', Word ''INTO'']"
  "spelt ''BY NAME'' = exactly [Word ''BY'', Word ''NAME'']"
  "spelt ''DELETE FROM'' = exactly [Word ''DELETE'', Word ''FROM'']"
  "spelt ''DROP TABLE'' = exactly [Word ''DROP'', Word ''TABLE'']"
  "spelt ''SET IDENTITY_INSERT'' = exactly [Word ''SET'', Word ''IDENTITY_INSERT'']"
  "spelt ''OFF'' = exactly [Word ''OFF'']"
  by (simp_all only: spelt_def) (rule arg_cong [of _ _ exactly], code_simp)+

lemmas reader_defs = a_word_def a_name_def a_number_def an_object_def a_field_def an_equality_def a_comparison_def
  a_test_def hints_def aliased_def a_match_def an_action_def a_clause_def a_merge_def a_source_def a_selection_def
  a_peer_count_def a_related_count_def a_group_selection_def a_flagged_count_def an_other_selection_def a_transaction_def
  a_creation_def an_insertion_def a_deletion_def a_drop_def an_identity_def complete_def a_statement_def separated_def
  optional_def returning_def decimal_digit_def

text \<open>For evaluation the keywords are tokens already.\<close>

lemmas evaluated_readers [code] = an_object_def [unfolded spelt_eqs] a_field_def [unfolded spelt_eqs]
  some_names_def [unfolded spelt_eqs] some_fields_def [unfolded spelt_eqs] an_equality_def [unfolded spelt_eqs]
  a_comparison_def [unfolded spelt_eqs] a_condition_def [unfolded spelt_eqs] an_assignment_def [unfolded spelt_eqs]
  some_assignments_def [unfolded spelt_eqs] hints_def [unfolded spelt_eqs] aliased_def [unfolded spelt_eqs]
  a_match_def [unfolded spelt_eqs] an_action_def [unfolded spelt_eqs] a_merge_def [unfolded spelt_eqs]
  a_source_def [unfolded spelt_eqs] a_peer_count_def [unfolded spelt_eqs] a_related_count_def [unfolded spelt_eqs]
  a_group_selection_def [unfolded spelt_eqs] a_flagged_count_def [unfolded spelt_eqs]
  an_other_selection_def [unfolded spelt_eqs] a_transaction_def [unfolded spelt_eqs] a_creation_def [unfolded spelt_eqs]
  an_insertion_def [unfolded spelt_eqs] a_deletion_def [unfolded spelt_eqs] a_drop_def [unfolded spelt_eqs]
  an_identity_def [unfolded spelt_eqs]

lemmas token_append = append.simps [where ?'a = sql_token] append_assoc

definition spread :: "'t list \<Rightarrow> 't list list \<Rightarrow> 't list" where
  "spread sep xs = (case xs of [] \<Rightarrow> [] | y # ys \<Rightarrow> y @ concat (map (\<lambda>t. sep @ t) ys))"

lemma spread_simps [simp]: "spread sep [] = []" "spread sep [x] = x"
  by (simp_all add: spread_def)

lemma tokens_piece: "plain_text l p \<Longrightarrow> tokens l r p = ts \<Longrightarrow> tokens l r (p @ rest) = ts @ tokens l r rest"
  by (simp add: tokens_plain)

lemma tokens_join:
  assumes item: "\<And>x rest. x \<in> set xs \<Longrightarrow> closes_at r rest \<Longrightarrow> tokens l r (f x @ rest) = g x @ tokens l r rest"
    and sep: "\<And>rest. tokens l r (sep @ rest) = gsep @ tokens l r rest" "\<And>rest. closes_at r (sep @ rest)"
    and rest: "closes_at r rest"
  shows "tokens l r (join sep (map f xs) @ rest) = spread gsep (map g xs) @ tokens l r rest"
proof -
  have more: "tokens l r (concat (map (\<lambda>s. sep @ s) (map f ys)) @ rest)
      = concat (map (\<lambda>t. gsep @ t) (map g ys)) @ tokens l r rest
      \<and> closes_at r (concat (map (\<lambda>s. sep @ s) (map f ys)) @ rest)" if "set ys \<subseteq> set xs" for ys
    using that
  proof (induction ys)
    case (Cons y ys)
    then show ?case by (simp add: item sep)
  qed (simp add: rest)
  show ?thesis
  proof (cases xs)
    case (Cons y ys)
    then have "set ys \<subseteq> set xs" by auto
    then show ?thesis using Cons more [of ys] item [of y] by (simp add: join_def spread_def)
  qed (simp add: join_def)
qed

lemma following_spread:
  assumes "\<And>x rest. x \<in> set xs \<Longrightarrow> item (g x @ rest) = Some (h x, rest)" "\<And>rest. sep (gsep @ rest) = Some ((), rest)"
    "sep rest = None" "length xs < n"
  shows "following n item sep (concat (map (\<lambda>x. gsep @ g x) xs) @ rest) = Some (map h xs, rest)"
  using assms(1,4)
proof (induction xs arbitrary: n)
  case Nil
  then show ?case using assms(3) by (cases n) simp_all
next
  case (Cons x xs)
  then show ?case by (cases n) (simp_all add: assms(2))
qed

lemma separated_spread:
  assumes "\<And>x rest. x \<in> set xs \<Longrightarrow> item (g x @ rest) = Some (h x, rest)" "\<And>rest. sep (gsep @ rest) = Some ((), rest)"
    "sep rest = None" "xs = [] \<Longrightarrow> item rest = None" "gsep \<noteq> []"
  shows "separated item sep (spread gsep (map g xs) @ rest) = Some (map h xs, rest)"
proof (cases xs)
  case (Cons y ys)
  let ?ts = "concat (map (\<lambda>x. gsep @ g x) ys) @ rest"
  have "length ys \<le> length (concat (map (\<lambda>x. gsep @ g x) ys))"
  proof (induction ys)
    case (Cons z zs)
    moreover have "1 \<le> length gsep" using assms(5) by (cases gsep) simp_all
    ultimately show ?case by simp
  qed simp
  then have "following (Suc (length ?ts)) item sep ?ts = Some (map h ys, rest)"
    using assms(1-3) Cons by (intro following_spread) simp_all
  then show ?thesis by (simp add: Cons assms(1) separated_def spread_def comp_def del: following.simps)
qed (simp add: separated_def assms(4))

lemma some_names_read:
  assumes "exactly [Symbol (CHR '','')] rest = None" "a_name rest = None"
  shows "some_names (spread [Symbol (CHR '','')] (map (\<lambda>n. [Named n]) ns) @ rest) = Some (ns, rest)"
  unfolding some_names_def spelt_eqs
  using separated_spread [of ns a_name "\<lambda>n. [Named n]" id] assms by (simp add: a_name_def)

lemma some_fields_read:
  assumes "exactly [Symbol (CHR '','')] rest = None" "a_field rest = None"
  shows "some_fields (spread [Symbol (CHR '','')] (map (\<lambda>n. [Word a, Symbol (CHR ''.''), Named n]) ns) @ rest) = Some (map (Pair a) ns, rest)"
  unfolding some_fields_def spelt_eqs
  using separated_spread [of ns a_field "\<lambda>n. [Word a, Symbol (CHR ''.''), Named n]" "Pair a"] assms
  by (simp add: a_field_def a_word_def a_name_def spelt_eqs)

lemma a_condition_read:
  assumes "exactly [Word ''AND''] rest = None" "exactly [Word ''OR''] rest = None" "a_test rest = None"
  shows "a_condition (spread [Word ''AND''] (map (\<lambda>n. [Word a, Symbol (CHR ''.''), Named n, Symbol (CHR ''=''),
      Word b, Symbol (CHR ''.''), Named n]) ns) @ rest) = Some ([map (\<lambda>n. (Equal, (a, n), (b, n))) ns], rest)"
proof -
  let ?g = "\<lambda>n. [Word a, Symbol (CHR ''.''), Named n, Symbol (CHR ''=''), Word b, Symbol (CHR ''.''), Named n]"
  have "separated a_test (exactly [Word ''AND'']) (spread [Word ''AND''] (map ?g ns) @ rest)
      = Some (map (\<lambda>n. (Equal, (a, n), (b, n))) ns, rest)"
    using assms by (intro separated_spread)
      (simp_all add: a_test_def a_field_def a_word_def a_name_def an_equality_def returning_def spelt_eqs)
  then show ?thesis using assms by (simp add: a_condition_def separated_def [of "separated _ _"] spelt_eqs)
qed

lemma some_assignments_read:
  assumes "exactly [Symbol (CHR '','')] rest = None" "an_assignment rest = None"
  shows "some_assignments
      (spread [Symbol (CHR '','')] (map (\<lambda>n. [Named n, Symbol (CHR ''=''), Word a, Symbol (CHR ''.''), Named n]) ns) @ rest)
    = Some (map (\<lambda>n. (n, (a, n))) ns, rest)"
  unfolding some_assignments_def spelt_eqs using assms by (intro separated_spread)
    (simp_all add: an_assignment_def a_field_def a_word_def a_name_def spelt_eqs)

end
