(* ===== verification/Duckdb_Statements.thy ===== *)
theory Duckdb_Statements
  imports Duckdb Sql_Text
begin

section \<open>The SQL text of the DuckDB destination, read back\<close>

text \<open>
  What the texts of \<open>src/connector.rs\<close> say to a reader of SQL, for every table, stage, key and
  column name: names are quoted so that they read back, and the statements are the ones meant.
\<close>

abbreviation duckdb_tokens :: "string \<Rightarrow> sql_token list" where
  "duckdb_tokens \<equiv> tokens (CHR 0x22) (CHR 0x22)"

definition read_duckdb :: "string \<Rightarrow> sql_statement option" where
  "read_duckdb = read_sql (CHR 0x22) (CHR 0x22)"

lemma quoted_tokens:
  "closes_at (CHR 0x22) rest \<Longrightarrow> duckdb_tokens (quote_identifier n @ rest) = Named n # duckdb_tokens rest"
  using tokens_name [of "CHR 0x22" rest "CHR 0x22" n] by (simp add: quote_identifier_def doubled_def)

lemma duckdb_pieces:
  "tokens (CHR 0x22) (CHR 0x22) (''SELECT * FROM '' @ rest) = [Word ''SELECT'', Symbol (CHR ''*''), Word ''FROM''] @ tokens (CHR 0x22) (CHR 0x22) rest"
  "tokens (CHR 0x22) (CHR 0x22) (''CREATE OR REPLACE TABLE '' @ rest) = [Word ''CREATE'', Word ''OR'', Word ''REPLACE'', Word ''TABLE''] @ tokens (CHR 0x22) (CHR 0x22) rest"
  "tokens (CHR 0x22) (CHR 0x22) ('' AS SELECT * FROM arrow(?, ?)'' @ rest) = [Word ''AS'', Word ''SELECT'', Symbol (CHR ''*''), Word ''FROM'', Word ''arrow'', Symbol (CHR ''(''), Symbol (CHR ''?''), Symbol (CHR '',''), Symbol (CHR ''?''), Symbol (CHR '')'')] @ tokens (CHR 0x22) (CHR 0x22) rest"
  "tokens (CHR 0x22) (CHR 0x22) (''INSERT INTO '' @ rest) = [Word ''INSERT'', Word ''INTO''] @ tokens (CHR 0x22) (CHR 0x22) rest"
  "tokens (CHR 0x22) (CHR 0x22) ('' SELECT * FROM arrow(?, ?)'' @ rest) = [Word ''SELECT'', Symbol (CHR ''*''), Word ''FROM'', Word ''arrow'', Symbol (CHR ''(''), Symbol (CHR ''?''), Symbol (CHR '',''), Symbol (CHR ''?''), Symbol (CHR '')'')] @ tokens (CHR 0x22) (CHR 0x22) rest"
  "tokens (CHR 0x22) (CHR 0x22) ('' BY NAME SELECT * FROM arrow(?, ?)'' @ rest) = [Word ''BY'', Word ''NAME'', Word ''SELECT'', Symbol (CHR ''*''), Word ''FROM'', Word ''arrow'', Symbol (CHR ''(''), Symbol (CHR ''?''), Symbol (CHR '',''), Symbol (CHR ''?''), Symbol (CHR '')'')] @ tokens (CHR 0x22) (CHR 0x22) rest"
  "tokens (CHR 0x22) (CHR 0x22) (''CREATE TEMPORARY TABLE '' @ rest) = [Word ''CREATE'', Word ''TEMPORARY'', Word ''TABLE''] @ tokens (CHR 0x22) (CHR 0x22) rest"
  "tokens (CHR 0x22) (CHR 0x22) ('' AS SELECT * FROM '' @ rest) = [Word ''AS'', Word ''SELECT'', Symbol (CHR ''*''), Word ''FROM''] @ tokens (CHR 0x22) (CHR 0x22) rest"
  "tokens (CHR 0x22) (CHR 0x22) (''temp.main.'' @ rest) = [Word ''temp'', Symbol (CHR ''.''), Word ''main'', Symbol (CHR ''.'')] @ tokens (CHR 0x22) (CHR 0x22) rest"
  "tokens (CHR 0x22) (CHR 0x22) ('' AND '' @ rest) = [Word ''AND''] @ tokens (CHR 0x22) (CHR 0x22) rest"
  "tokens (CHR 0x22) (CHR 0x22) (''merge_target.'' @ rest) = [Word ''merge_target'', Symbol (CHR ''.'')] @ tokens (CHR 0x22) (CHR 0x22) rest"
  "tokens (CHR 0x22) (CHR 0x22) ('' = merge_source.'' @ rest) = [Symbol (CHR ''=''), Word ''merge_source'', Symbol (CHR ''.'')] @ tokens (CHR 0x22) (CHR 0x22) rest"
  "tokens (CHR 0x22) (CHR 0x22) (''SELECT count(*) FROM (SELECT count(*) OVER (PARTITION BY '' @ rest) = [Word ''SELECT'', Word ''count'', Symbol (CHR ''(''), Symbol (CHR ''*''), Symbol (CHR '')''), Word ''FROM'', Symbol (CHR ''(''), Word ''SELECT'', Word ''count'', Symbol (CHR ''(''), Symbol (CHR ''*''), Symbol (CHR '')''), Word ''OVER'', Symbol (CHR ''(''), Word ''PARTITION'', Word ''BY''] @ tokens (CHR 0x22) (CHR 0x22) rest"
  "tokens (CHR 0x22) (CHR 0x22) ('', '' @ rest) = [Symbol (CHR '','')] @ tokens (CHR 0x22) (CHR 0x22) rest"
  "tokens (CHR 0x22) (CHR 0x22) ('') AS key_tuple_records FROM '' @ rest) = [Symbol (CHR '')''), Word ''AS'', Word ''key_tuple_records'', Word ''FROM''] @ tokens (CHR 0x22) (CHR 0x22) rest"
  "tokens (CHR 0x22) (CHR 0x22) (''SELECT count(*) FROM '' @ rest) = [Word ''SELECT'', Word ''count'', Symbol (CHR ''(''), Symbol (CHR ''*''), Symbol (CHR '')''), Word ''FROM''] @ tokens (CHR 0x22) (CHR 0x22) rest"
  "tokens (CHR 0x22) (CHR 0x22) ('' AS merge_source WHERE EXISTS (SELECT 1 FROM '' @ rest) = [Word ''AS'', Word ''merge_source'', Word ''WHERE'', Word ''EXISTS'', Symbol (CHR ''(''), Word ''SELECT'', Word ''1'', Word ''FROM''] @ tokens (CHR 0x22) (CHR 0x22) rest"
  "tokens (CHR 0x22) (CHR 0x22) ('' AS merge_target WHERE '' @ rest) = [Word ''AS'', Word ''merge_target'', Word ''WHERE''] @ tokens (CHR 0x22) (CHR 0x22) rest"
  "tokens (CHR 0x22) (CHR 0x22) ('')'' @ rest) = [Symbol (CHR '')'')] @ tokens (CHR 0x22) (CHR 0x22) rest"
  "tokens (CHR 0x22) (CHR 0x22) ('' WHEN MATCHED THEN UPDATE SET '' @ rest) = [Word ''WHEN'', Word ''MATCHED'', Word ''THEN'', Word ''UPDATE'', Word ''SET''] @ tokens (CHR 0x22) (CHR 0x22) rest"
  "tokens (CHR 0x22) (CHR 0x22) (''MERGE INTO '' @ rest) = [Word ''MERGE'', Word ''INTO''] @ tokens (CHR 0x22) (CHR 0x22) rest"
  "tokens (CHR 0x22) (CHR 0x22) ('' AS merge_target USING '' @ rest) = [Word ''AS'', Word ''merge_target'', Word ''USING''] @ tokens (CHR 0x22) (CHR 0x22) rest"
  "tokens (CHR 0x22) (CHR 0x22) ('' AS merge_source ON '' @ rest) = [Word ''AS'', Word ''merge_source'', Word ''ON''] @ tokens (CHR 0x22) (CHR 0x22) rest"
  "tokens (CHR 0x22) (CHR 0x22) ('' WHEN NOT MATCHED THEN INSERT ('' @ rest) = [Word ''WHEN'', Word ''NOT'', Word ''MATCHED'', Word ''THEN'', Word ''INSERT'', Symbol (CHR ''('')] @ tokens (CHR 0x22) (CHR 0x22) rest"
  "tokens (CHR 0x22) (CHR 0x22) ('') VALUES ('' @ rest) = [Symbol (CHR '')''), Word ''VALUES'', Symbol (CHR ''('')] @ tokens (CHR 0x22) (CHR 0x22) rest"
  "tokens (CHR 0x22) (CHR 0x22) (''merge_source.'' @ rest) = [Word ''merge_source'', Symbol (CHR ''.'')] @ tokens (CHR 0x22) (CHR 0x22) rest"
  by (rule tokens_piece; code_simp)+

lemma duckdb_ends:
  "duckdb_tokens '' LIMIT 0'' = [Word ''LIMIT'', Word ''0'']"
  "duckdb_tokens '') AS keyed WHERE key_tuple_records > 1'' = [Symbol (CHR '')''), Word ''AS'', Word ''keyed'', Word ''WHERE'', Word ''key_tuple_records'', Symbol (CHR ''>''), Word ''1'']"
  by code_simp+

lemma duckdb_closes:
  "closes_at (CHR 0x22) (''SELECT * FROM '' @ rest)"
  "closes_at (CHR 0x22) (''CREATE OR REPLACE TABLE '' @ rest)"
  "closes_at (CHR 0x22) ('' AS SELECT * FROM arrow(?, ?)'' @ rest)"
  "closes_at (CHR 0x22) (''INSERT INTO '' @ rest)"
  "closes_at (CHR 0x22) ('' SELECT * FROM arrow(?, ?)'' @ rest)"
  "closes_at (CHR 0x22) ('' BY NAME SELECT * FROM arrow(?, ?)'' @ rest)"
  "closes_at (CHR 0x22) (''CREATE TEMPORARY TABLE '' @ rest)"
  "closes_at (CHR 0x22) ('' AS SELECT * FROM '' @ rest)"
  "closes_at (CHR 0x22) (''temp.main.'' @ rest)"
  "closes_at (CHR 0x22) ('' AND '' @ rest)"
  "closes_at (CHR 0x22) (''merge_target.'' @ rest)"
  "closes_at (CHR 0x22) ('' = merge_source.'' @ rest)"
  "closes_at (CHR 0x22) (''SELECT count(*) FROM (SELECT count(*) OVER (PARTITION BY '' @ rest)"
  "closes_at (CHR 0x22) ('', '' @ rest)"
  "closes_at (CHR 0x22) ('') AS key_tuple_records FROM '' @ rest)"
  "closes_at (CHR 0x22) (''SELECT count(*) FROM '' @ rest)"
  "closes_at (CHR 0x22) ('' AS merge_source WHERE EXISTS (SELECT 1 FROM '' @ rest)"
  "closes_at (CHR 0x22) ('' AS merge_target WHERE '' @ rest)"
  "closes_at (CHR 0x22) ('')'' @ rest)"
  "closes_at (CHR 0x22) ('' WHEN MATCHED THEN UPDATE SET '' @ rest)"
  "closes_at (CHR 0x22) (''MERGE INTO '' @ rest)"
  "closes_at (CHR 0x22) ('' AS merge_target USING '' @ rest)"
  "closes_at (CHR 0x22) ('' AS merge_source ON '' @ rest)"
  "closes_at (CHR 0x22) ('' WHEN NOT MATCHED THEN INSERT ('' @ rest)"
  "closes_at (CHR 0x22) ('') VALUES ('' @ rest)"
  "closes_at (CHR 0x22) (''merge_source.'' @ rest)"
  "closes_at (CHR 0x22) '' LIMIT 0''"
  "closes_at (CHR 0x22) '') AS keyed WHERE key_tuple_records > 1''"
  "closes_at (CHR 0x22) []"
  by simp_all

lemma read_transaction [simp]:
  "read_duckdb ''BEGIN'' = Some Begin_Transaction" "read_duckdb ''COMMIT'' = Some Commit_Transaction"
  by code_simp+

subsection \<open>Lists of names\<close>

lemma names_tokens:
  assumes "closes_at (CHR 0x22) rest"
  shows "duckdb_tokens (join '', '' (map quote_identifier ns) @ rest)
      = spread [Symbol (CHR '','')] (map (\<lambda>n. [Named n]) ns) @ duckdb_tokens rest"
  using assms by (intro tokens_join) (simp_all only: quoted_tokens duckdb_pieces duckdb_closes token_append)

lemma key_tokens:
  assumes "closes_at (CHR 0x22) rest"
  shows "duckdb_tokens (key_equality (map quote_identifier ns) @ rest)
      = spread [Word ''AND''] (map (\<lambda>n. [Word ''merge_target'', Symbol (CHR ''.''), Named n, Symbol (CHR ''=''),
          Word ''merge_source'', Symbol (CHR ''.''), Named n]) ns) @ duckdb_tokens rest"
  unfolding key_equality_def map_map comp_def
  using assms by (intro tokens_join) (simp_all only: quoted_tokens duckdb_pieces duckdb_closes token_append)

lemma assignment_tokens:
  assumes "closes_at (CHR 0x22) rest"
  shows "duckdb_tokens (join '', '' (map (\<lambda>column. column @ '' = merge_source.'' @ column) (map quote_identifier ns)) @ rest)
      = spread [Symbol (CHR '','')] (map (\<lambda>n. [Named n, Symbol (CHR ''=''), Word ''merge_source'', Symbol (CHR ''.''), Named n]) ns)
        @ duckdb_tokens rest"
  unfolding map_map comp_def
  using assms by (intro tokens_join) (simp_all only: quoted_tokens duckdb_pieces duckdb_closes token_append)

lemma source_tokens:
  assumes "closes_at (CHR 0x22) rest"
  shows "duckdb_tokens (join '', '' (map (\<lambda>column. ''merge_source.'' @ column) (map quote_identifier ns)) @ rest)
      = spread [Symbol (CHR '','')] (map (\<lambda>n. [Word ''merge_source'', Symbol (CHR ''.''), Named n]) ns) @ duckdb_tokens rest"
  unfolding map_map comp_def
  using assms by (intro tokens_join) (simp_all only: quoted_tokens duckdb_pieces duckdb_closes token_append)

lemmas duckdb_reading = names_tokens key_tokens assignment_tokens source_tokens quoted_tokens duckdb_pieces duckdb_ends
  duckdb_closes token_append

lemmas statement_reading = read_duckdb_def read_sql_def reader_defs spelt_eqs

subsection \<open>Statements\<close>

lemma read_inspect: "read_duckdb (inspect_sql (quote_identifier x)) = Some (Select_Rows (Rows_Of [x] (Some 0)))"
proof -
  have "duckdb_tokens (inspect_sql (quote_identifier x))
      = [Word ''SELECT'', Symbol (CHR ''*''), Word ''FROM'', Named x, Word ''LIMIT'', Word ''0'']"
    unfolding inspect_sql_def by (simp only: duckdb_reading)
  then show ?thesis by (simp add: statement_reading)
qed

abbreviation arrow_tokens :: "sql_token list" where
  "arrow_tokens \<equiv> [Word ''SELECT'', Symbol (CHR ''*''), Word ''FROM'', Word ''arrow'', Symbol (CHR ''(''), Symbol (CHR ''?''),
     Symbol (CHR '',''), Symbol (CHR ''?''), Symbol (CHR '')'')]"

lemma read_replace: "read_duckdb (replace_sql (quote_identifier x)) = Some (Create_As Create_Or_Replace False [x] Arrow_Rows)"
proof -
  have "duckdb_tokens (replace_sql (quote_identifier x) @ [])
      = [Word ''CREATE'', Word ''OR'', Word ''REPLACE'', Word ''TABLE'', Named x, Word ''AS''] @ arrow_tokens"
    unfolding replace_sql_def by (simp only: duckdb_reading tokens_Nil)
  then show ?thesis by (simp add: statement_reading)
qed

lemma read_insert: "read_duckdb (insert_sql (quote_identifier x)) = Some (Insert_Rows False [x] Arrow_Rows)"
proof -
  have "duckdb_tokens (insert_sql (quote_identifier x) @ []) = [Word ''INSERT'', Word ''INTO'', Named x] @ arrow_tokens"
    unfolding insert_sql_def by (simp only: duckdb_reading tokens_Nil)
  then show ?thesis by (simp add: statement_reading)
qed

lemma read_insert_by_name:
  "read_duckdb (insert_by_name_sql (quote_identifier x)) = Some (Insert_Rows True [x] Arrow_Rows)"
  "read_duckdb (insert_by_name_sql (stage_reference (quote_identifier x))) = Some (Insert_Rows True [''temp'', ''main'', x] Arrow_Rows)"
proof -
  have "duckdb_tokens (insert_by_name_sql (quote_identifier x) @ [])
      = [Word ''INSERT'', Word ''INTO'', Named x, Word ''BY'', Word ''NAME''] @ arrow_tokens"
    unfolding insert_by_name_sql_def by (simp only: duckdb_reading tokens_Nil)
  then show "read_duckdb (insert_by_name_sql (quote_identifier x)) = Some (Insert_Rows True [x] Arrow_Rows)"
    by (simp add: statement_reading)
  have "duckdb_tokens (insert_by_name_sql (stage_reference (quote_identifier x)) @ [])
      = [Word ''INSERT'', Word ''INTO'', Word ''temp'', Symbol (CHR ''.''), Word ''main'', Symbol (CHR ''.''), Named x,
         Word ''BY'', Word ''NAME''] @ arrow_tokens"
    unfolding insert_by_name_sql_def stage_reference_def by (simp only: duckdb_reading tokens_Nil)
  then show "read_duckdb (insert_by_name_sql (stage_reference (quote_identifier x)))
      = Some (Insert_Rows True [''temp'', ''main'', x] Arrow_Rows)"
    by (simp add: statement_reading)
qed

lemma read_create_stage:
  "read_duckdb (create_stage_sql (quote_identifier s) (quote_identifier x))
     = Some (Create_As Create_New True [s] (Rows_Of [x] (Some 0)))"
proof -
  have "duckdb_tokens (create_stage_sql (quote_identifier s) (quote_identifier x))
      = [Word ''CREATE'', Word ''TEMPORARY'', Word ''TABLE'', Named s, Word ''AS'', Word ''SELECT'', Symbol (CHR ''*''),
         Word ''FROM'', Named x, Word ''LIMIT'', Word ''0'']"
    unfolding create_stage_sql_def by (simp only: duckdb_reading)
  then show ?thesis by (simp add: statement_reading)
qed

text \<open>The gate counts the staged rows whose key tuple occurs more than once.\<close>

lemma read_colliding:
  "read_duckdb (colliding_records_sql (quote_identifier s) (map quote_identifier ks))
     = Some (Count_Peers ks [''temp'', ''main'', s] Greater 1)"
proof -
  have "duckdb_tokens (colliding_records_sql (quote_identifier s) (map quote_identifier ks))
      = [Word ''SELECT'', Word ''count'', Symbol (CHR ''(''), Symbol (CHR ''*''), Symbol (CHR '')''), Word ''FROM'',
         Symbol (CHR ''(''), Word ''SELECT'', Word ''count'', Symbol (CHR ''(''), Symbol (CHR ''*''), Symbol (CHR '')''),
         Word ''OVER'', Symbol (CHR ''(''), Word ''PARTITION'', Word ''BY'']
        @ spread [Symbol (CHR '','')] (map (\<lambda>n. [Named n]) ks)
        @ [Symbol (CHR '')''), Word ''AS'', Word ''key_tuple_records'', Word ''FROM'', Word ''temp'', Symbol (CHR ''.''),
           Word ''main'', Symbol (CHR ''.''), Named s, Symbol (CHR '')''), Word ''AS'', Word ''keyed'', Word ''WHERE'',
           Word ''key_tuple_records'', Symbol (CHR ''>''), Word ''1'']"
    unfolding colliding_records_sql_def stage_reference_def by (simp only: duckdb_reading)
  then show ?thesis by (simp add: statement_reading some_names_read)
qed

lemma read_matched:
  "read_duckdb (matched_records_sql (quote_identifier s) (quote_identifier x) (map quote_identifier ks))
     = Some (Count_Related [''temp'', ''main'', s] ''merge_source'' [x] ''merge_target''
         [map (\<lambda>n. (Equal, (''merge_target'', n), (''merge_source'', n))) ks])"
proof -
  have "duckdb_tokens (matched_records_sql (quote_identifier s) (quote_identifier x) (map quote_identifier ks) @ [])
      = [Word ''SELECT'', Word ''count'', Symbol (CHR ''(''), Symbol (CHR ''*''), Symbol (CHR '')''), Word ''FROM'',
         Word ''temp'', Symbol (CHR ''.''), Word ''main'', Symbol (CHR ''.''), Named s, Word ''AS'', Word ''merge_source'',
         Word ''WHERE'', Word ''EXISTS'', Symbol (CHR ''(''), Word ''SELECT'', Word ''1'', Word ''FROM'', Named x, Word ''AS'',
         Word ''merge_target'', Word ''WHERE'']
        @ spread [Word ''AND''] (map (\<lambda>n. [Word ''merge_target'', Symbol (CHR ''.''), Named n, Symbol (CHR ''=''),
            Word ''merge_source'', Symbol (CHR ''.''), Named n]) ks)
        @ [Symbol (CHR '')'')]"
    unfolding matched_records_sql_def stage_reference_def by (simp only: duckdb_reading tokens_Nil)
  then show ?thesis by (simp add: statement_reading a_condition_read)
qed

text \<open>
  The merge updates the other columns of the rows with the keys of a staged row, where there are
  other columns, and inserts the staged rows without one.
\<close>

lemma read_merge:
  "read_duckdb (merge_sql (quote_identifier x) (quote_identifier s) (map quote_identifier ks) (map quote_identifier cs)
       (map quote_identifier us))
     = Some (Merge_Rows [x] ''merge_target'' [''temp'', ''main'', s] ''merge_source''
         [map (\<lambda>n. (Equal, (''merge_target'', n), (''merge_source'', n))) ks]
         ((if us = [] then [] else [(Matched, Update_Set (map (\<lambda>n. (n, (''merge_source'', n))) us))])
          @ [(Not_Matched, Insert_Values cs (map (Pair ''merge_source'') cs))]))"
proof -
  let ?insert = "[Word ''WHEN'', Word ''NOT'', Word ''MATCHED'', Word ''THEN'', Word ''INSERT'', Symbol (CHR ''('')]
        @ spread [Symbol (CHR '','')] (map (\<lambda>n. [Named n]) cs) @ [Symbol (CHR '')''), Word ''VALUES'', Symbol (CHR ''('')]
        @ spread [Symbol (CHR '','')] (map (\<lambda>n. [Word ''merge_source'', Symbol (CHR ''.''), Named n]) cs) @ [Symbol (CHR '')'')]"
  let ?on = "[Word ''MERGE'', Word ''INTO'', Named x, Word ''AS'', Word ''merge_target'', Word ''USING'', Word ''temp'',
         Symbol (CHR ''.''), Word ''main'', Symbol (CHR ''.''), Named s, Word ''AS'', Word ''merge_source'', Word ''ON'']"
  let ?keys = "spread [Word ''AND''] (map (\<lambda>n. [Word ''merge_target'', Symbol (CHR ''.''), Named n, Symbol (CHR ''=''),
            Word ''merge_source'', Symbol (CHR ''.''), Named n]) ks)"
  let ?update = "[Word ''WHEN'', Word ''MATCHED'', Word ''THEN'', Word ''UPDATE'', Word ''SET'']
        @ spread [Symbol (CHR '','')] (map (\<lambda>n. [Named n, Symbol (CHR ''=''), Word ''merge_source'', Symbol (CHR ''.''), Named n]) us)"
  have ts: "duckdb_tokens (merge_sql (quote_identifier x) (quote_identifier s) (map quote_identifier ks) (map quote_identifier cs)
       (map quote_identifier us) @ []) = ?on @ ?keys @ (if us = [] then [] else ?update) @ ?insert"
  proof (cases "us = []")
    case True
    show ?thesis unfolding True
      unfolding merge_sql_def stage_reference_def Let_def
      by (simp only: list.map if_True simp_thms duckdb_reading append.left_neutral tokens_Nil)
  next
    case False
    then have "map quote_identifier us \<noteq> []" by simp
    then show ?thesis unfolding merge_sql_def stage_reference_def Let_def
      by (simp only: False if_False simp_thms duckdb_reading tokens_Nil)
  qed
  show ?thesis
  proof (cases "us = []")
    case True
    then show ?thesis using ts
      by (simp add: statement_reading a_condition_read some_names_read some_fields_read eval_nat_numeral)
  next
    case False
    then show ?thesis using ts
      by (simp add: statement_reading a_condition_read some_names_read some_fields_read some_assignments_read an_assignment_def eval_nat_numeral)
  qed
qed

end
