(* ===== verification/Table_Rows.thy ===== *)
theory Table_Rows
  imports Parquet "HOL-Library.Multiset"
begin

section \<open>Rows of tables\<close>

text \<open>
  What the facts about the destinations say of tables: a table is a multiset of rows, a row maps
  a column name to what the cell holds. The rows of a batch, the effect of \<open>MERGE INTO\<close> on a
  table, and what a merge means for the rows.
\<close>

type_synonym 'x table_row = "string \<Rightarrow> 'x"

subsection \<open>Rows\<close>

datatype cell =
    Cell_Null
  | Cell_Boolean bool
  | Cell_Int64 int
  | Cell_Float64 f64
  | Cell_Utf8 string
  | Cell_Timestamp int
  | Cell_Decimal int

type_synonym row = "cell table_row"

definition cell_of :: "('a \<Rightarrow> cell) \<Rightarrow> 'a option \<Rightarrow> cell" where
  "cell_of f x = (case x of None \<Rightarrow> Cell_Null | Some v \<Rightarrow> f v)"

fun column_cells :: "column \<Rightarrow> cell list" where
  "column_cells (Col_Boolean xs) = map (cell_of Cell_Boolean) xs"
| "column_cells (Col_Int64 xs) = map (cell_of Cell_Int64) xs"
| "column_cells (Col_Float64 xs) = map (cell_of Cell_Float64) xs"
| "column_cells (Col_Utf8 xs) = map (cell_of Cell_Utf8) xs"
| "column_cells (Col_Timestamp _ xs) = map (cell_of Cell_Timestamp) xs"
| "column_cells (Col_Decimal _ _ xs) = map (cell_of Cell_Decimal) xs"

definition batch_row :: "record_batch \<Rightarrow> nat \<Rightarrow> row" where
  "batch_row b i name = (case index_of (rb_schema b) name of
     None \<Rightarrow> Cell_Null | Some j \<Rightarrow> column_cells (rb_columns b ! j) ! i)"

definition batch_rows :: "record_batch \<Rightarrow> row multiset" where
  "batch_rows b = mset (map (batch_row b) [0..<rb_rows b])"

definition batches_rows :: "record_batch list \<Rightarrow> row multiset" where
  "batches_rows bs = sum_list (map batch_rows bs)"

definition batch_columns :: "record_batch \<Rightarrow> string list" where
  "batch_columns b = map af_name (rb_schema b)"

lemma size_batch_rows [simp]: "size (batch_rows b) = rb_rows b"
  by (simp add: batch_rows_def)

lemma batches_rows_simps [simp]:
  "batches_rows [] = {#}" "batches_rows (bs @ [b]) = batches_rows bs + batch_rows b"
  by (simp_all add: batches_rows_def)

lemma size_batches_rows: "size (batches_rows bs) = sum_list (map rb_rows bs)"
  by (induction bs) (simp_all add: batches_rows_def)

text \<open>Arrow's invariant of a batch: a column for every field, all of one length.\<close>

definition rectangular :: "record_batch \<Rightarrow> bool" where
  "rectangular b \<longleftrightarrow> length (rb_columns b) = length (rb_schema b)
     \<and> (\<forall>c\<in>set (rb_columns b). length (column_nulls c) = rb_rows b)"

lemma index_of_Some: "index_of s name = Some i \<Longrightarrow> i < length s \<and> af_name (s ! i) = name"
  by (auto simp: index_of_def dest!: map_of_SomeD simp: in_set_zip)

lemma index_of_None_iff: "index_of s name = None \<longleftrightarrow> name \<notin> af_name ` set s"
proof -
  have "map fst (zip (map af_name s) [0..<length s]) = map af_name s" by (simp add: map_fst_zip)
  then show ?thesis by (metis index_of_def map_of_eq_None_iff image_set set_map)
qed

text \<open>Columns taken by name, one for each name of a schema of the same length, keep the rows.\<close>

lemma by_name_keeps_rows:
  assumes al: "rb_schema a = dest" "length (rb_schema b) = length dest" "length (rb_columns a) = length dest"
      "\<And>j. j < length dest \<Longrightarrow> \<exists>i. index_of (rb_schema b) (af_name (dest ! j)) = Some i \<and> rb_columns a ! j = rb_columns b ! i"
    and d: "distinct (map af_name dest)" and b: "rectangular b"
  shows "batch_rows a = batch_rows b \<and> batch_columns a = map af_name dest \<and> rb_rows a = rb_rows b
    \<and> set (batch_columns b) = af_name ` set dest"
proof -
  have sub: "af_name ` set dest \<subseteq> af_name ` set (rb_schema b)"
  proof
    fix name assume "name \<in> af_name ` set dest"
    then obtain j where j: "j < length dest" "af_name (dest ! j) = name" by (auto simp: in_set_conv_nth)
    then show "name \<in> af_name ` set (rb_schema b)" using al(4) [OF j(1)] index_of_None_iff [of "rb_schema b" name] by auto
  qed
  have "card (af_name ` set (rb_schema b)) \<le> card (af_name ` set dest)"
    using d al(2) card_length [of "map af_name (rb_schema b)"] by (simp add: distinct_card flip: set_map)
  then have names: "af_name ` set dest = af_name ` set (rb_schema b)"
    using sub by (intro card_seteq) simp_all
  have rows: "rb_rows a = rb_rows b"
  proof (cases dest)
    case Nil
    then have "rb_columns a = []" "rb_columns b = []" using al(2,3) b by (simp_all add: rectangular_def)
    then show ?thesis by (simp add: rb_rows_def)
  next
    case (Cons f fs)
    then obtain i where i: "index_of (rb_schema b) (af_name (dest ! 0)) = Some i" "rb_columns a ! 0 = rb_columns b ! i"
      using al(4) [of 0] by auto
    have "rb_columns b ! i \<in> set (rb_columns b)" using index_of_Some [OF i(1)] b by (simp add: rectangular_def)
    then have "length (column_nulls (rb_columns a ! 0)) = rb_rows b" using b i(2) by (simp add: rectangular_def)
    then show ?thesis using al(3) Cons by (cases "rb_columns a") (simp_all add: rb_rows_def)
  qed
  have "batch_row a i name = batch_row b i name" for i name
  proof (cases "index_of dest name")
    case None
    then have "index_of (rb_schema b) name = None" using names by (simp add: index_of_None_iff)
    then show ?thesis using None al(1) by (simp add: batch_row_def)
  next
    case (Some j)
    then show ?thesis
      using al(1) al(4) [of j] index_of_Some [OF Some] by (auto simp: batch_row_def)
  qed
  then have "batch_row a = batch_row b" by blast
  then show ?thesis using rows names al(1) by (simp add: batch_rows_def batch_columns_def)
qed

subsection \<open>Merges\<close>

text \<open>
  \<open>val\<close> gives the SQL value of a cell, \<open>None\<close> for a null: values that SQL's \<open>=\<close> takes as equal
  are equal. A null equals nothing, but \<open>PARTITION BY\<close> puts nulls together.
\<close>

definition key_tuple :: "('x \<Rightarrow> 'v option) \<Rightarrow> string list \<Rightarrow> 'x table_row \<Rightarrow> 'v option list" where
  "key_tuple val keys r = map (\<lambda>key. val (r key)) keys"

definition same_key :: "('x \<Rightarrow> 'v option) \<Rightarrow> string list \<Rightarrow> 'x table_row \<Rightarrow> 'x table_row \<Rightarrow> bool" where
  "same_key val keys t s \<longleftrightarrow> key_tuple val keys t = key_tuple val keys s \<and> None \<notin> set (key_tuple val keys s)"

definition colliding_rows :: "('x \<Rightarrow> 'v option) \<Rightarrow> string list \<Rightarrow> 'x table_row multiset \<Rightarrow> 'x table_row multiset" where
  "colliding_rows val keys incoming =
     filter_mset (\<lambda>r. 1 < count (image_mset (key_tuple val keys) incoming) (key_tuple val keys r)) incoming"

definition matched_rows ::
  "('x \<Rightarrow> 'v option) \<Rightarrow> string list \<Rightarrow> 'x table_row multiset \<Rightarrow> 'x table_row multiset \<Rightarrow> 'x table_row multiset" where
  "matched_rows val keys old incoming = filter_mset (\<lambda>s. \<exists>t. t \<in># old \<and> same_key val keys t s) incoming"

definition updated_row :: "string list \<Rightarrow> string list \<Rightarrow> 'x table_row \<Rightarrow> 'x table_row \<Rightarrow> 'x table_row" where
  "updated_row keys columns t s = (\<lambda>name. if name \<in> set columns \<and> name \<notin> set keys then s name else t name)"

text \<open>The rows after \<open>MERGE INTO\<close>: every old row keeps its key, updated where an incoming row has it.\<close>

definition merged_into ::
  "('x \<Rightarrow> 'v option) \<Rightarrow> string list \<Rightarrow> string list \<Rightarrow> 'x table_row multiset \<Rightarrow> 'x table_row multiset \<Rightarrow> 'x table_row multiset \<Rightarrow> bool" where
  "merged_into val keys columns old incoming new \<longleftrightarrow> (\<exists>update.
     (\<forall>t. t \<in># old \<longrightarrow> (if \<exists>s. s \<in># incoming \<and> same_key val keys t s
        then \<exists>s. s \<in># incoming \<and> same_key val keys t s \<and> update t = updated_row keys columns t s
        else update t = t))
     \<and> new = image_mset update old + (incoming - matched_rows val keys old incoming))"

definition merge_done ::
  "('x \<Rightarrow> 'v option) \<Rightarrow> string list \<Rightarrow> string list \<Rightarrow> 'x table_row multiset option \<Rightarrow> 'x table_row multiset \<Rightarrow> 'x table_row multiset option \<Rightarrow> bool" where
  "merge_done val keys columns old incoming new \<longleftrightarrow> colliding_rows val keys incoming = {#}
     \<and> (\<exists>rows rows'. old = Some rows \<and> new = Some rows' \<and> merged_into val keys columns rows incoming rows')"

lemma merge_done_columns: "set columns = set columns' \<Longrightarrow> merge_done val keys columns = merge_done val keys columns'"
  by (simp add: merge_done_def merged_into_def updated_row_def fun_eq_iff)

subsection \<open>What a merge means\<close>

text \<open>
  Without colliding keys every staged row is in the table afterwards, in its key's place, and
  the other rows are as they were; the counts partition the staged rows.
\<close>


lemma matched_size: "size (matched_rows val keys old incoming) \<le> size incoming"
  unfolding matched_rows_def by (rule size_mset_mono) simp

lemma no_collision_unique:
  assumes "colliding_rows val keys incoming = {#}" "s \<in># incoming" "s' \<in># incoming"
    "key_tuple val keys s = key_tuple val keys s'"
  shows "s = s'"
proof (rule ccontr)
  assume "s \<noteq> s'"
  then obtain rest where rest: "incoming = add_mset s (add_mset s' rest)"
    using assms(2,3) by (metis insert_noteq_member mset_add)
  then have "s \<in># colliding_rows val keys incoming" using assms(4) by (simp add: colliding_rows_def)
  then show False using assms(1) by simp
qed

lemma merge_done_rows:
  assumes "merge_done val keys columns (Some rows) incoming (Some rows')"
  shows "\<forall>s. s \<in># incoming \<longrightarrow> None \<notin> set (key_tuple val keys s) \<longrightarrow>
      (\<exists>r. r \<in># rows' \<and> key_tuple val keys r = key_tuple val keys s \<and> (\<forall>n\<in>set columns - set keys. r n = s n))"
    "\<forall>t. t \<in># rows \<longrightarrow> \<not> (\<exists>s. s \<in># incoming \<and> same_key val keys t s) \<longrightarrow> t \<in># rows'"
    "size rows' = size rows + (size incoming - size (matched_rows val keys rows incoming))"
proof -
  obtain update where u: "\<forall>t. t \<in># rows \<longrightarrow> (if \<exists>s. s \<in># incoming \<and> same_key val keys t s
        then \<exists>s. s \<in># incoming \<and> same_key val keys t s \<and> update t = updated_row keys columns t s else update t = t)"
    and r: "rows' = image_mset update rows + (incoming - matched_rows val keys rows incoming)"
    and c: "colliding_rows val keys incoming = {#}"
    using assms(1) by (auto simp: merge_done_def merged_into_def)
  have sub: "matched_rows val keys rows incoming \<subseteq># incoming" by (simp add: matched_rows_def)
  show "\<forall>s. s \<in># incoming \<longrightarrow> None \<notin> set (key_tuple val keys s) \<longrightarrow>
      (\<exists>r. r \<in># rows' \<and> key_tuple val keys r = key_tuple val keys s \<and> (\<forall>n\<in>set columns - set keys. r n = s n))"
  proof (intro allI impI)
    fix s assume s: "s \<in># incoming" "None \<notin> set (key_tuple val keys s)"
    show "\<exists>r. r \<in># rows' \<and> key_tuple val keys r = key_tuple val keys s \<and> (\<forall>n\<in>set columns - set keys. r n = s n)"
    proof (cases "\<exists>t. t \<in># rows \<and> same_key val keys t s")
      case True
      then obtain t where t: "t \<in># rows" "same_key val keys t s" by blast
      then obtain s' where s': "s' \<in># incoming" "same_key val keys t s'" "update t = updated_row keys columns t s'"
        using u s(1) by metis
      then have "s' = s" using no_collision_unique [OF c s(1) s'(1)] t(2) by (simp add: same_key_def)
      then have "key_tuple val keys (update t) = key_tuple val keys s" "\<forall>n\<in>set columns - set keys. update t n = s n"
        using t s' by (auto simp: updated_row_def same_key_def key_tuple_def)
      moreover have "update t \<in># rows'" using t(1) r by simp
      ultimately show ?thesis by blast
    next
      case False
      then have "s \<in># incoming - matched_rows val keys rows incoming"
        using s(1) by (simp add: matched_rows_def in_diff_count)
      then have "s \<in># rows'" using r by simp
      then show ?thesis by blast
    qed
  qed
  show "\<forall>t. t \<in># rows \<longrightarrow> \<not> (\<exists>s. s \<in># incoming \<and> same_key val keys t s) \<longrightarrow> t \<in># rows'"
  proof (intro allI impI)
    fix t assume t: "t \<in># rows" "\<not> (\<exists>s. s \<in># incoming \<and> same_key val keys t s)"
    then have "update t = t" using u by simp
    then show "t \<in># rows'" using r t(1) by (metis image_eqI set_image_mset union_iff)
  qed
  show "size rows' = size rows + (size incoming - size (matched_rows val keys rows incoming))"
    unfolding r size_union size_image_mset size_Diff_submset [OF sub] ..
qed

subsection \<open>A merge on lists\<close>

definition merge_lists ::
  "('x \<Rightarrow> 'v option) \<Rightarrow> string list \<Rightarrow> string list \<Rightarrow> 'x table_row list \<Rightarrow> 'x table_row list \<Rightarrow> 'x table_row list" where
  "merge_lists val keys columns old incoming =
     map (\<lambda>t. case List.find (same_key val keys t) incoming of None \<Rightarrow> t | Some s \<Rightarrow> updated_row keys columns t s) old
     @ filter (\<lambda>s. \<not> list_ex (\<lambda>t. same_key val keys t s) old) incoming"

lemma merge_lists_merged:
  "merged_into val keys columns (mset old) (mset incoming) (mset (merge_lists val keys columns old incoming))"
  unfolding merged_into_def
proof (intro exI conjI)
  let ?update = "\<lambda>t. case List.find (same_key val keys t) incoming of None \<Rightarrow> t | Some s \<Rightarrow> updated_row keys columns t s"
  show "\<forall>t. t \<in># mset old \<longrightarrow> (if \<exists>s. s \<in># mset incoming \<and> same_key val keys t s
      then \<exists>s. s \<in># mset incoming \<and> same_key val keys t s \<and> ?update t = updated_row keys columns t s
      else ?update t = t)"
    by (auto simp: find_None_iff split: option.splits dest: find_Some_iff')
  let ?P = "\<lambda>s. \<exists>t\<in>set old. same_key val keys t s" and ?M = "mset incoming"
  have m: "matched_rows val keys (mset old) ?M = filter_mset ?P ?M"
    by (simp add: matched_rows_def Bex_def)
  have "?M - filter_mset ?P ?M = (filter_mset ?P ?M + filter_mset (\<lambda>s. \<not> ?P s) ?M) - filter_mset ?P ?M"
    by (simp only: multiset_partition [of ?M ?P, symmetric])
  then have "?M - matched_rows val keys (mset old) ?M = filter_mset (\<lambda>s. \<not> ?P s) ?M" unfolding m by (simp only: add_diff_cancel_left')
  then show "mset (merge_lists val keys columns old incoming)
      = image_mset ?update (mset old) + (mset incoming - matched_rows val keys (mset old) (mset incoming))"
    by (simp add: merge_lists_def list_ex_iff)
qed

lemma reference_counts:
  "length (filter (\<lambda>r. 1 < length (filter (\<lambda>q. key_tuple val keys q = key_tuple val keys r) incoming)) incoming)
     = size (colliding_rows val keys (mset incoming))"
  "length (filter (\<lambda>r. list_ex (\<lambda>t. same_key val keys t r) old) incoming)
     = size (matched_rows val keys (mset old) (mset incoming))"
proof -
  have "count (image_mset (key_tuple val keys) (mset incoming)) k
      = length (filter (\<lambda>q. key_tuple val keys q = k) incoming)" for k
    by (simp add: count_mset length_filter_map o_def count_list_eq_length_filter eq_commute flip: mset_map)
  then show "length (filter (\<lambda>r. 1 < length (filter (\<lambda>q. key_tuple val keys q = key_tuple val keys r) incoming)) incoming)
     = size (colliding_rows val keys (mset incoming))"
    by (simp add: colliding_rows_def flip: mset_filter size_mset)
  show "length (filter (\<lambda>r. list_ex (\<lambda>t. same_key val keys t r) old) incoming)
     = size (matched_rows val keys (mset old) (mset incoming))"
    by (simp add: matched_rows_def list_ex_iff Bex_def flip: mset_filter size_mset)
qed

end
