(* ===== verification/Sql_Meaning.thy ===== *)
theory Sql_Meaning
  imports Sql_Text Table_Rows
begin

section \<open>What the statements mean\<close>

text \<open>
  The effect of the queries and of \<open>MERGE\<close> on tables as lists of rows, for any conditions, clauses
  and bounds: \<open>val\<close> gives the SQL value of a cell, \<open>None\<close> for a null, and \<open>null\<close> is the cell of a column
  that an insertion leaves out. Conditions have SQL's three truth values, \<open>None\<close> is unknown. The
  order of a list stands for the order in which a database happens to find the rows.
\<close>

subsection \<open>Conditions\<close>

type_synonym 'x row_names = "string \<Rightarrow> 'x table_row option"

definition field_value :: "('x \<Rightarrow> 'v option) \<Rightarrow> 'x row_names \<Rightarrow> sql_field \<Rightarrow> 'v option" where
  "field_value val env f = (case env (fst f) of None \<Rightarrow> None | Some r \<Rightarrow> val (r (snd f)))"

definition compared :: "comparison \<Rightarrow> 'v option \<Rightarrow> 'v option \<Rightarrow> bool option" where
  "compared op x y = (case (x, y) of
     (Some a, Some b) \<Rightarrow> (case op of Equal \<Rightarrow> Some (a = b) | Unequal \<Rightarrow> Some (a \<noteq> b) | _ \<Rightarrow> None)
   | _ \<Rightarrow> None)"

definition all_true :: "bool option list \<Rightarrow> bool option" where
  "all_true bs = (if Some False \<in> set bs then Some False else if None \<in> set bs then None else Some True)"

definition some_true :: "bool option list \<Rightarrow> bool option" where
  "some_true bs = (if Some True \<in> set bs then Some True else if None \<in> set bs then None else Some False)"

definition condition_value :: "('x \<Rightarrow> 'v option) \<Rightarrow> 'x row_names \<Rightarrow> sql_condition \<Rightarrow> bool option" where
  "condition_value val env cond = some_true (map (\<lambda>tests. all_true
     (map (\<lambda>(op, x, y). compared op (field_value val env x) (field_value val env y)) tests)) cond)"

definition two_rows :: "string \<Rightarrow> 'x table_row \<Rightarrow> string \<Rightarrow> 'x table_row \<Rightarrow> 'x row_names" where
  "two_rows a r b s = [a \<mapsto> r, b \<mapsto> s]"

definition related :: "('x \<Rightarrow> 'v option) \<Rightarrow> string \<Rightarrow> string \<Rightarrow> sql_condition \<Rightarrow> 'x table_row \<Rightarrow> 'x table_row \<Rightarrow> bool" where
  "related val a b cond r s \<longleftrightarrow> condition_value val (two_rows a r b s) cond = Some True"

fun bounded :: "comparison \<Rightarrow> nat \<Rightarrow> nat \<Rightarrow> bool" where
  "bounded Equal m n = (m = n)"
| "bounded Unequal m n = (m \<noteq> n)"
| "bounded Less m n = (m < n)"
| "bounded Greater m n = (n < m)"

subsection \<open>Queries\<close>

definition peers :: "('x \<Rightarrow> 'v option) \<Rightarrow> string list \<Rightarrow> 'x table_row list \<Rightarrow> 'v option list \<Rightarrow> nat" where
  "peers val ns rows k = length (filter (\<lambda>q. key_tuple val ns q = k) rows)"

text \<open>\<open>count(*) OVER (PARTITION BY ns)\<close>, the rows where it is in the bound.\<close>

definition peer_count :: "('x \<Rightarrow> 'v option) \<Rightarrow> string list \<Rightarrow> comparison \<Rightarrow> nat \<Rightarrow> 'x table_row list \<Rightarrow> nat" where
  "peer_count val ns op n rows = length (filter (\<lambda>r. bounded op (peers val ns rows (key_tuple val ns r)) n) rows)"

text \<open>\<open>GROUP BY ns HAVING COUNT_BIG(*)\<close> in the bound: one row a group.\<close>

definition group_count :: "('x \<Rightarrow> 'v option) \<Rightarrow> string list \<Rightarrow> comparison \<Rightarrow> nat \<Rightarrow> 'x table_row list \<Rightarrow> nat" where
  "group_count val ns op n rows = length (filter (\<lambda>k. bounded op (peers val ns rows k) n) (remdups (map (key_tuple val ns) rows)))"

definition related_count ::
  "('x \<Rightarrow> 'v option) \<Rightarrow> string \<Rightarrow> string \<Rightarrow> sql_condition \<Rightarrow> 'x table_row list \<Rightarrow> 'x table_row list \<Rightarrow> nat" where
  "related_count val a b cond rows others = length (filter (\<lambda>r. list_ex (\<lambda>t. related val a b cond r t) others) rows)"

text \<open>A row is flagged \<open>x\<close> where the condition relates it to another, and else \<open>y\<close>.\<close>

definition flagged_count ::
  "('x \<Rightarrow> 'v option) \<Rightarrow> string \<Rightarrow> string \<Rightarrow> sql_condition \<Rightarrow> nat \<Rightarrow> nat \<Rightarrow> nat \<Rightarrow> 'x table_row list \<Rightarrow> 'x table_row list \<Rightarrow> nat \<times> nat" where
  "flagged_count val a b cond n x y rows others =
     (length rows, length (filter (\<lambda>r. (if list_ex (\<lambda>t. related val a b cond r t) others then x else y) = n) rows))"

subsection \<open>\<open>MERGE\<close>\<close>

definition field_cell :: "'x \<Rightarrow> 'x row_names \<Rightarrow> sql_field \<Rightarrow> 'x" where
  "field_cell null env f = (case env (fst f) of None \<Rightarrow> null | Some r \<Rightarrow> r (snd f))"

definition assigned :: "'x \<Rightarrow> 'x row_names \<Rightarrow> (string \<times> sql_field) list \<Rightarrow> 'x table_row \<Rightarrow> 'x table_row" where
  "assigned null env assignments r = (\<lambda>name. case map_of assignments name of None \<Rightarrow> r name | Some f \<Rightarrow> field_cell null env f)"

text \<open>What becomes of a row of the table under the clause for it, and what a clause inserts.\<close>

definition kept_row :: "'x \<Rightarrow> 'x row_names \<Rightarrow> sql_action option \<Rightarrow> 'x table_row \<Rightarrow> 'x table_row list" where
  "kept_row null env act t = (case act of
     Some (Update_Set assignments) \<Rightarrow> [assigned null env assignments t]
   | Some Delete_Row \<Rightarrow> []
   | _ \<Rightarrow> [t])"

definition new_row :: "'x \<Rightarrow> 'x row_names \<Rightarrow> sql_action option \<Rightarrow> 'x table_row list" where
  "new_row null env act = (case act of
     Some (Insert_Values ns fs) \<Rightarrow> [assigned null env (zip ns fs) (\<lambda>_. null)]
   | _ \<Rightarrow> [])"

definition merge_rows ::
  "('x \<Rightarrow> 'v option) \<Rightarrow> 'x \<Rightarrow> string \<Rightarrow> string \<Rightarrow> sql_condition \<Rightarrow> sql_clause list \<Rightarrow> 'x table_row list \<Rightarrow> 'x table_row list \<Rightarrow> 'x table_row list" where
  "merge_rows val null a b cond cs rows incoming =
     concat (map (\<lambda>t. case List.find (related val a b cond t) incoming of
         Some s \<Rightarrow> kept_row null (two_rows a t b s) (map_of cs Matched) t
       | None \<Rightarrow> kept_row null [a \<mapsto> t] (map_of cs Not_Matched_By_Source) t) rows)
     @ concat (map (\<lambda>s. if list_ex (\<lambda>t. related val a b cond t s) rows then []
         else new_row null [b \<mapsto> s] (map_of cs Not_Matched)) incoming)"

subsection \<open>Merges on keys\<close>

text \<open>The equality of the keys relates the rows of one key tuple without nulls.\<close>

abbreviation keys_equal :: "string \<Rightarrow> string \<Rightarrow> string list \<Rightarrow> sql_condition" where
  "keys_equal a b ks \<equiv> [map (\<lambda>k. (Equal, (a, k), (b, k))) ks]"

lemma some_true_single [simp]: "some_true [x] = x"
  by (cases x) (auto simp: some_true_def)

lemma all_true_iff: "all_true bs = Some True \<longleftrightarrow> (\<forall>x\<in>set bs. x = Some True)"
proof
  assume "all_true bs = Some True"
  then have "None \<notin> set bs" "Some False \<notin> set bs" by (auto simp: all_true_def split: if_splits)
  then show "\<forall>x\<in>set bs. x = Some True" by (metis (full_types) option.exhaust)
qed (auto simp: all_true_def)

lemma keys_equal_value:
  assumes "env a = Some t" "env b = Some s"
  shows "condition_value val env (keys_equal a b ks) = Some True \<longleftrightarrow> same_key val ks t s"
proof -
  have "compared Equal x y = Some True \<longleftrightarrow> x = y \<and> y \<noteq> None" for x y :: "'v option"
    by (cases x; cases y) (simp_all add: compared_def)
  then show ?thesis
    using assms by (auto simp: condition_value_def all_true_iff field_value_def same_key_def key_tuple_def image_iff)
      (metis option.exhaust)
qed

lemma related_keys:
  assumes "a \<noteq> b"
  shows "related val a b (keys_equal a b ks) t s \<longleftrightarrow> same_key val ks t s"
    "related val b a (keys_equal a b ks) s t \<longleftrightarrow> same_key val ks t s"
  using assms by (simp_all add: related_def two_rows_def keys_equal_value)

lemma peer_count_colliding: "peer_count val ks Greater 1 rows = size (colliding_rows val ks (mset rows))"
  using reference_counts(1) [of val ks rows] by (simp add: peer_count_def peers_def)

lemma related_count_matched:
  "a \<noteq> b \<Longrightarrow> related_count val b a (keys_equal a b ks) incoming rows = size (matched_rows val ks (mset rows) (mset incoming))"
  using reference_counts(2) [of val ks rows incoming] by (simp add: related_count_def related_keys)

lemma flagged_count_matched:
  "a \<noteq> b \<Longrightarrow> flagged_count val b a (keys_equal a b ks) 1 1 0 incoming rows
     = (length incoming, size (matched_rows val ks (mset rows) (mset incoming)))"
  using reference_counts(2) [of val ks rows incoming] by (simp add: flagged_count_def related_keys if_distrib [of "\<lambda>n. n = _"] cong: if_cong)

lemma group_count_colliding: "group_count val ks Greater 1 rows = 0 \<longleftrightarrow> colliding_rows val ks (mset rows) = {#}"
proof -
  have "group_count val ks Greater 1 rows = 0 \<longleftrightarrow> (\<forall>r\<in>set rows. \<not> 1 < peers val ks rows (key_tuple val ks r))"
    by (auto simp: group_count_def filter_empty_conv)
  moreover have "peer_count val ks Greater 1 rows = 0 \<longleftrightarrow> (\<forall>r\<in>set rows. \<not> 1 < peers val ks rows (key_tuple val ks r))"
    by (auto simp: peer_count_def filter_empty_conv)
  ultimately show ?thesis unfolding peer_count_colliding by simp
qed

text \<open>
  With the key equality, an update of the other columns and an insertion of all, \<open>MERGE\<close> is the
  merge on lists; the staged rows hold nothing outside the columns.
\<close>

definition upsert_clauses :: "string \<Rightarrow> string list \<Rightarrow> string list \<Rightarrow> sql_clause list" where
  "upsert_clauses b columns updates =
     (if updates = [] then [] else [(Matched, Update_Set (map (\<lambda>n. (n, (b, n))) updates))])
     @ [(Not_Matched, Insert_Values columns (map (Pair b) columns))]"

lemma map_of_zip_pairs: "map_of (zip ns (map f ns)) n = (if n \<in> set ns then Some (f n) else None)"
  by (induction ns) auto

lemma map_of_map_pairs: "map_of (map (\<lambda>n. (n, f n)) ns) n = (if n \<in> set ns then Some (f n) else None)"
  by (induction ns) auto

lemma merge_rows_upsert:
  assumes "a \<noteq> b" "\<forall>s\<in>set incoming. \<forall>name. name \<notin> set columns \<longrightarrow> s name = null"
  shows "merge_rows val null a b (keys_equal a b ks) (upsert_clauses b columns (filter (\<lambda>n. n \<notin> set ks) columns)) rows incoming
    = merge_lists val ks columns rows incoming"
proof -
  let ?cs = "upsert_clauses b columns (filter (\<lambda>n. n \<notin> set ks) columns)"
  have matched: "kept_row null (two_rows a t b s) (map_of ?cs Matched) t = [updated_row ks columns t s]" for t s
  proof (cases "filter (\<lambda>n. n \<notin> set ks) columns = []")
    case True
    then have "updated_row ks columns t s = t" by (auto simp: updated_row_def filter_empty_conv fun_eq_iff)
    then show ?thesis using True by (simp add: upsert_clauses_def kept_row_def)
  next
    case False
    have "assigned null (two_rows a t b s) (map (\<lambda>n. (n, (b, n))) (filter (\<lambda>n. n \<notin> set ks) columns)) t = updated_row ks columns t s"
      by (auto simp: fun_eq_iff assigned_def map_of_map_pairs field_cell_def two_rows_def updated_row_def)
    then show ?thesis using False by (simp add: upsert_clauses_def kept_row_def)
  qed
  have kept: "kept_row null env (map_of ?cs Not_Matched_By_Source) t = [t]" for t env
    by (simp add: upsert_clauses_def kept_row_def)
  have new: "new_row null [b \<mapsto> s] (map_of ?cs Not_Matched) = [s]" if "s \<in> set incoming" for s
    using assms(2) that
    by (auto simp: upsert_clauses_def new_row_def assigned_def map_of_zip_pairs field_cell_def fun_eq_iff)
  have "related val a b (keys_equal a b ks) t = same_key val ks t" for t
    using related_keys(1) [OF assms(1), of val ks t] by blast
  then have old: "(case List.find (related val a b (keys_equal a b ks) t) incoming of
         Some s \<Rightarrow> kept_row null (two_rows a t b s) (map_of ?cs Matched) t
       | None \<Rightarrow> kept_row null [a \<mapsto> t] (map_of ?cs Not_Matched_By_Source) t)
     = [case List.find (same_key val ks t) incoming of None \<Rightarrow> t | Some s \<Rightarrow> updated_row ks columns t s]" for t
    by (simp add: matched kept split: option.split)
  have "concat (map (\<lambda>s. if list_ex (\<lambda>t. related val a b (keys_equal a b ks) t s) rows then []
         else new_row null [b \<mapsto> s] (map_of ?cs Not_Matched)) ss)
     = filter (\<lambda>s. \<not> list_ex (\<lambda>t. same_key val ks t s) rows) ss" if "set ss \<subseteq> set incoming" for ss
    using that by (induction ss) (simp_all add: new related_keys(1) [OF assms(1)])
  from this [of incoming] show ?thesis by (simp add: merge_rows_def merge_lists_def old)
qed

end
