(* ===== verification/Serial_Runs.thy ===== *)
theory Serial_Runs
  imports Dispatch
begin

section \<open>Serial runs over a session without transient failures\<close>

text \<open>
  No shipped destination declares a failure transient, so every retry unit calls its operation
  once. A serial run then is the session's calls one after the other: it either wrote every
  chunk and committed, or stopped at a source failure, which abandons the session, or at a
  failed write, which drops it.
\<close>

lemma terminal_unit_once:
  assumes "\<And>fail. fst (f (us_world st)) = Inl fail \<Longrightarrow> wx_transience fail = Terminal"
  shows "run_unit policy unt f st = (fst (f (us_world st)), st\<lparr>us_world := snd (f (us_world st))\<rparr>)"
proof (cases "f (us_world st)")
  case (Pair r w)
  then show ?thesis
    using assms unfolding run_unit_def
    by (cases r) (subst run_unit_from.simps, auto)+
qed

text \<open>What no operation changes, a run does not change.\<close>

lemma run_unit_keeps:
  assumes "\<And>w. f (snd (operation w)) = f w"
  shows "f (us_world (snd (run_unit policy unt operation st))) = f (us_world st)"
proof -
  have "f (us_world (snd (run_unit_from policy unt operation n st))) = f (us_world st)" for n
    using assms
  proof (induction policy unt operation n st rule: run_unit_from.induct)
    case (1 policy unt operation n st)
    obtain r w where o: "operation (us_world st) = (r, w)" by fastforce
    have "f w = f (us_world st)" using 1(2) [of "us_world st"] o by simp
    then show ?case
      using 1 o by (subst run_unit_from.simps) (auto simp: Let_def split: sum.split)
  qed
  then show ?thesis by (simp add: run_unit_def)
qed

lemma run_serial_keeps:
  assumes "\<And>b w. f (snd (d_write_chunk D b w)) = f w" "\<And>w. f (snd (d_commit D w)) = f w"
    "\<And>w. f (snd (d_abandon D w)) = f w" "\<And>w. f (d_drop D w) = f w"
  shows "f (us_world (snd (run_serial_from policy D n chunks st))) = f (us_world st)"
proof (induction chunks arbitrary: n st)
  case Nil
  show ?case
    using assms(2) [of "us_world st"] by (auto simp: commit_session_def split: prod.split sum.split)
next
  case (Cons c chunks)
  show ?case
  proof (cases c)
    case (Inl src)
    then show ?thesis
      using assms(3) [of "us_world st"] by (simp add: abandon_in_session_def Let_def case_prod_unfold)
  next
    case (Inr b)
    obtain r st1 where u: "run_unit policy (Unit_Write_Chunk n) (d_write_chunk D b) st = (r, st1)" by fastforce
    have "f (us_world st1) = f (us_world st)"
      using run_unit_keeps [of f "d_write_chunk D b" policy "Unit_Write_Chunk n" st, OF assms(1)] u by simp
    then show ?thesis using Inr u Cons.IH assms(4) by (cases r) (simp_all add: drop_session_def)
  qed
qed

text \<open>What \<open>P\<close> says of the batches written so far holds of the world in every outcome.\<close>

lemma serial_run_cases:
  assumes step: "\<And>bs b w w'. P bs w \<Longrightarrow> d_write_chunk D b w = (Inr (), w') \<Longrightarrow> P (bs @ [b]) w'"
    and terminal: "\<And>b w fail. fst (d_write_chunk D b w) = Inl fail \<Longrightarrow> wx_transience fail = Terminal"
    and run: "run_serial_from policy D n chunks st = (r, st')" and start: "P bs0 (us_world st)"
  obtains (committed) bs st'' where "chunks = map Inr bs" "P (bs0 @ bs) (us_world st'')"
      "(r, st') = commit_session D (n + length chunks) st''"
  | (source_failed) bs w src where "take (length bs + 1) chunks = map Inr bs @ [Inl src]" "P (bs0 @ bs) w"
      "r = Inl (In_Session \<lparr>wx_failure = src, wx_facts = aw_facts (fst (d_abandon D w)),
         wx_written_records = aw_written_records (fst (d_abandon D w)),
         wx_committed_chunks = aw_committed_chunks (fst (d_abandon D w)), wx_transience = Terminal\<rparr>)"
      "us_world st' = snd (d_abandon D w)"
  | (write_failed) bs b w w' fail where "take (length bs + 1) chunks = map Inr (bs @ [b])" "P (bs0 @ bs) w"
      "d_write_chunk D b w = (Inl fail, w')" "r = Inl (In_Session fail)" "us_world st' = d_drop D w'"
  using run start
proof (induction chunks arbitrary: n st bs0 thesis)
  case Nil
  then show ?case by simp
next
  case (Cons c chunks)
  show ?case
  proof (cases c)
    case (Inl src)
    then show ?thesis
      using Cons.prems(4,5) Cons.prems(2) [of "[]" src "us_world st"]
      by (auto simp: abandon_in_session_def case_prod_unfold Let_def)
  next
    case (Inr b)
    let ?w = "us_world st"
    have u: "run_unit policy (Unit_Write_Chunk n) (d_write_chunk D b) st
        = (fst (d_write_chunk D b ?w), st\<lparr>us_world := snd (d_write_chunk D b ?w)\<rparr>)"
      by (rule terminal_unit_once) (rule terminal)
    show ?thesis
    proof (cases "d_write_chunk D b ?w")
      case (Pair x w')
      show ?thesis
      proof (cases x)
        case (Inl fail)
        then show ?thesis
          using Cons.prems(4,5) Cons.prems(3) [of "[]" b ?w fail w'] \<open>c = Inr b\<close> u Pair by (auto simp: drop_session_def)
      next
        case (Inr y)
        let ?st1 = "st\<lparr>us_world := w'\<rparr>"
        have p: "P (bs0 @ [b]) (us_world ?st1)"
          using step [OF Cons.prems(5)] Pair Inr by simp
        have run': "run_serial_from policy D (n + 1) chunks ?st1 = (r, st')"
          using Cons.prems(4) \<open>c = Inr b\<close> u Pair Inr by simp
        show ?thesis
        proof (rule Cons.IH [OF _ _ _ run' p])
          fix bs st''
          assume "chunks = map Inr bs" "P ((bs0 @ [b]) @ bs) (us_world st'')"
            "(r, st') = commit_session D (n + 1 + length chunks) st''"
          then show ?thesis using Cons.prems(1) [of "b # bs" st''] \<open>c = Inr b\<close> by simp
        next
          fix bs w src
          assume "take (length bs + 1) chunks = map Inr bs @ [Inl src]" "P ((bs0 @ [b]) @ bs) w"
            "r = Inl (In_Session \<lparr>wx_failure = src, wx_facts = aw_facts (fst (d_abandon D w)),
               wx_written_records = aw_written_records (fst (d_abandon D w)),
               wx_committed_chunks = aw_committed_chunks (fst (d_abandon D w)), wx_transience = Terminal\<rparr>)"
            "us_world st' = snd (d_abandon D w)"
          then show ?thesis using Cons.prems(2) [of "b # bs" src w] \<open>c = Inr b\<close> by simp
        next
          fix bs b' w w' fail
          assume "take (length bs + 1) chunks = map Inr (bs @ [b'])" "P ((bs0 @ [b]) @ bs) w"
            "d_write_chunk D b' w = (Inl fail, w')" "r = Inl (In_Session fail)" "us_world st' = d_drop D w'"
          then show ?thesis using Cons.prems(3) [of "b # bs" b' w fail w'] \<open>c = Inr b\<close> by simp
        qed
      qed
    qed
  qed
qed

end
