(* ===== verification/Duckdb_Facts.thy ===== *)
theory Duckdb_Facts
  imports Duckdb_Statements Sql_Meaning Serial_Runs
begin

section \<open>What the DuckDB sessions do to the destination table\<close>

text \<open>
  A table is a multiset of rows, a row maps a column name to a cell. \<open>duckdb_contract\<close> is the
  documented behaviour of DuckDB that the sessions rely on. It speaks of the texts a connection is
  given only through \<open>read_duckdb\<close>: a call with a text that reads as a statement has, where it
  succeeds, that statement's effect (\<open>Sql_Meaning\<close>) on the tables whose names the statement holds,
  for any such text, whether the source spells it or not. Transactions: an uncommitted one is
  invisible and dropping its connection rolls it back; a failed call commits nothing. The lemmas
  run the three sessions over any connection that keeps the contract.
\<close>

subsection \<open>Tables and their places\<close>

text \<open>The destination table as committed and as the open transaction has it, its columns, and the stage.\<close>

record table_view =
  tv_committed :: "row multiset option"
  tv_working :: "row multiset option"
  tv_columns :: "string list"
  tv_stage :: "row multiset option"
  tv_open :: bool

datatype place = Target | Staged

text \<open>A temporary table \<open>stage\<close> is \<open>temp.main.stage\<close>; a table of its own name would be hidden by it.\<close>

definition duckdb_place :: "string \<Rightarrow> string \<Rightarrow> sql_object \<Rightarrow> place option" where
  "duckdb_place dataset stage ob =
     (if ob = [dataset] then Some Target
      else if stage \<noteq> dataset \<and> ob = [''temp'', ''main'', stage] then Some Staged else None)"

fun rows_at :: "place \<Rightarrow> table_view \<Rightarrow> row multiset option" where
  "rows_at Target v = (if tv_open v then tv_working v else tv_committed v)"
| "rows_at Staged v = tv_stage v"

fun with_rows :: "place \<Rightarrow> row multiset \<Rightarrow> table_view \<Rightarrow> table_view" where
  "with_rows Target rows v = (if tv_open v then v\<lparr>tv_working := Some rows\<rparr> else v\<lparr>tv_committed := Some rows\<rparr>)"
| "with_rows Staged rows v = v\<lparr>tv_stage := Some rows\<rparr>"

subsection \<open>The contract\<close>

text \<open>Calls that fail, and calls that only look, leave what is committed.\<close>

definition duckdb_keeps :: "'c duckdb \<Rightarrow> ('c \<Rightarrow> table_view) \<Rightarrow> bool" where
  "duckdb_keeps Q V \<longleftrightarrow>
     (\<forall>path c. tv_committed (V (snd (du_prepare_parent Q path c))) = tv_committed (V c))
   \<and> (\<forall>path c. tv_committed (V (snd (du_open Q path c))) = tv_committed (V c)
        \<and> (is_ok (fst (du_open Q path c)) \<longrightarrow> \<not> tv_open (V (snd (du_open Q path c)))))
   \<and> (\<forall>c. tv_committed (V (snd (du_register Q c))) = tv_committed (V c)
        \<and> tv_open (V (snd (du_register Q c))) = tv_open (V c))
   \<and> (\<forall>sql source c. read_duckdb sql = Some (Select_Rows source) \<longrightarrow>
        tv_committed (V (snd (du_schema Q sql c))) = tv_committed (V c)
        \<and> tv_open (V (snd (du_schema Q sql c))) = tv_open (V c))
   \<and> (\<forall>sql b c. read_duckdb sql \<noteq> None \<longrightarrow> \<not> is_ok (fst (du_execute Q sql b c)) \<longrightarrow>
        tv_committed (V (snd (du_execute Q sql b c))) = tv_committed (V c))
   \<and> (\<forall>sql c. read_duckdb sql \<noteq> None \<longrightarrow> \<not> is_ok (fst (du_execute_batch Q sql c)) \<longrightarrow>
        tv_committed (V (snd (du_execute_batch Q sql c))) = tv_committed (V c))
   \<and> (\<forall>sql st c. read_duckdb sql = Some st \<longrightarrow> only_looks st \<longrightarrow> tv_committed (V (snd (du_count Q sql c))) = tv_committed (V c)
        \<and> (is_ok (fst (du_count Q sql c)) \<longrightarrow> V (snd (du_count Q sql c)) = V c))
   \<and> (\<forall>c. tv_committed (V (snd (du_close Q c))) = tv_committed (V c))
   \<and> (\<forall>c. tv_committed (V (du_drop Q c)) = tv_committed (V c))"

text \<open>
  What a statement does that succeeded, where \<open>args\<close> is the batch it was given. Rows inserted by
  position go to the columns of the table in order, those by name to the columns they name.
\<close>

definition columns_fit :: "bool \<Rightarrow> string list \<Rightarrow> string list \<Rightarrow> bool" where
  "columns_fit by_name given columns \<longleftrightarrow> (if by_name then set given = set columns else given = columns)"

definition duckdb_creates ::
  "string \<Rightarrow> string \<Rightarrow> record_batch option \<Rightarrow> creation \<Rightarrow> bool \<Rightarrow> sql_object \<Rightarrow> sql_source \<Rightarrow> table_view \<Rightarrow> table_view \<Rightarrow> bool" where
  "duckdb_creates dataset stage args how temporary ob source v v' \<longleftrightarrow>
     (case source of
        Arrow_Rows \<Rightarrow> \<forall>b. args = Some b \<longrightarrow> \<not> temporary \<longrightarrow> ob = [dataset] \<longrightarrow>
          v' = (if how = Create_If_Missing \<and> rows_at Target v \<noteq> None then v
                else (with_rows Target (batch_rows b) v)\<lparr>tv_columns := batch_columns b\<rparr>)
      | Rows_Of other limit \<Rightarrow> temporary \<longrightarrow> stage \<noteq> dataset \<longrightarrow> ob = [stage] \<longrightarrow> other = [dataset] \<longrightarrow>
          (\<exists>every rows. rows_at Target v = Some every \<and> rows \<subseteq># every
             \<and> size rows = (case limit of None \<Rightarrow> size every | Some n \<Rightarrow> min n (size every))
             \<and> v' = (if how = Create_If_Missing \<and> tv_stage v \<noteq> None then v else with_rows Staged rows v)))"

definition duckdb_runs ::
  "(cell \<Rightarrow> 'v option) \<Rightarrow> string \<Rightarrow> string \<Rightarrow> record_batch option \<Rightarrow> sql_statement \<Rightarrow> table_view \<Rightarrow> table_view \<Rightarrow> bool" where
  "duckdb_runs val dataset stage args st v v' \<longleftrightarrow> (case st of
     Begin_Transaction \<Rightarrow> v' = v\<lparr>tv_working := tv_committed v, tv_open := True\<rparr>
   | Commit_Transaction \<Rightarrow> tv_open v \<longrightarrow> v' = v\<lparr>tv_committed := tv_working v, tv_open := False\<rparr>
   | Create_As how temporary ob source \<Rightarrow> duckdb_creates dataset stage args how temporary ob source v v'
   | Insert_Rows by_name ob source \<Rightarrow>
       \<forall>p b. duckdb_place dataset stage ob = Some p \<longrightarrow> source = Arrow_Rows \<longrightarrow> args = Some b \<longrightarrow>
         columns_fit by_name (batch_columns b) (tv_columns v) \<longrightarrow>
         (\<exists>old. rows_at p v = Some old \<and> v' = with_rows p (old + batch_rows b) v)
   | Merge_Rows ob a source b cond cs \<Rightarrow>
       \<forall>p q. duckdb_place dataset stage ob = Some p \<longrightarrow> duckdb_place dataset stage source = Some q \<longrightarrow>
         (\<exists>old incoming. rows_at p v = Some (mset old) \<and> rows_at q v = Some (mset incoming)
            \<and> v' = with_rows p (mset (merge_rows val Cell_Null a b cond cs old incoming)) v)
   | _ \<Rightarrow> True)"

definition duckdb_counts ::
  "(cell \<Rightarrow> 'v option) \<Rightarrow> string \<Rightarrow> string \<Rightarrow> sql_statement \<Rightarrow> table_view \<Rightarrow> nat \<Rightarrow> bool" where
  "duckdb_counts val dataset stage st v n \<longleftrightarrow> (case st of
     Count_Peers ns ob op k \<Rightarrow> \<forall>p. duckdb_place dataset stage ob = Some p \<longrightarrow>
       (\<exists>rows. rows_at p v = Some (mset rows) \<and> n = peer_count val ns op k rows)
   | Count_Related ob a other b cond \<Rightarrow> \<forall>p q. duckdb_place dataset stage ob = Some p \<longrightarrow> duckdb_place dataset stage other = Some q \<longrightarrow>
       (\<exists>rows others. rows_at p v = Some (mset rows) \<and> rows_at q v = Some (mset others)
          \<and> n = related_count val a b cond rows others)
   | _ \<Rightarrow> True)"

definition duckdb_understands ::
  "'c duckdb \<Rightarrow> ('c \<Rightarrow> table_view) \<Rightarrow> (cell \<Rightarrow> 'v option) \<Rightarrow> string \<Rightarrow> string \<Rightarrow> bool" where
  "duckdb_understands Q V val dataset stage \<longleftrightarrow> (\<forall>sql st. read_duckdb sql = Some st \<longrightarrow>
     (\<forall>ob limit schema c c'. st = Select_Rows (Rows_Of ob limit) \<longrightarrow> duckdb_place dataset stage ob = Some Target \<longrightarrow>
        du_schema Q sql c = (Inr schema, c') \<longrightarrow> tv_columns (V c') = map af_name schema \<and> distinct (map af_name schema))
   \<and> (\<forall>b c c'. du_execute Q sql b c = (Inr (), c') \<longrightarrow> duckdb_runs val dataset stage (Some b) st (V c) (V c'))
   \<and> (\<forall>c c'. du_execute_batch Q sql c = (Inr (), c') \<longrightarrow> duckdb_runs val dataset stage None st (V c) (V c'))
   \<and> (\<forall>n c c'. du_count Q sql c = (Inr n, c') \<longrightarrow> duckdb_counts val dataset stage st (V c) n))"

text \<open>The contract of a session on the table \<open>dataset\<close> with its stage.\<close>

definition duckdb_contract ::
  "'c duckdb \<Rightarrow> ('c \<Rightarrow> table_view) \<Rightarrow> (cell \<Rightarrow> 'v option) \<Rightarrow> string \<Rightarrow> string \<Rightarrow> bool" where
  "duckdb_contract Q V val dataset stage \<longleftrightarrow> duckdb_keeps Q V \<and> duckdb_understands Q V val dataset stage"

subsection \<open>What a call keeps\<close>

lemma keeps_calls:
  assumes "duckdb_keeps Q V"
  shows "du_prepare_parent Q path c = (x, c') \<Longrightarrow> tv_committed (V c') = tv_committed (V c)"
    "du_open Q path c = (y, c') \<Longrightarrow> tv_committed (V c') = tv_committed (V c)"
    "du_open Q path c = (Inr u, c') \<Longrightarrow> \<not> tv_open (V c')"
    "du_register Q c = (z, c') \<Longrightarrow> tv_committed (V c') = tv_committed (V c) \<and> tv_open (V c') = tv_open (V c)"
    "du_schema Q sql c = (s, c') \<Longrightarrow> read_duckdb sql = Some (Select_Rows source) \<Longrightarrow>
       tv_committed (V c') = tv_committed (V c) \<and> tv_open (V c') = tv_open (V c)"
    "du_execute Q sql b c = (Inl e, c') \<Longrightarrow> read_duckdb sql = Some st \<Longrightarrow> tv_committed (V c') = tv_committed (V c)"
    "du_execute_batch Q sql c = (Inl e, c') \<Longrightarrow> read_duckdb sql = Some st \<Longrightarrow> tv_committed (V c') = tv_committed (V c)"
    "du_count Q sql c = (n, c') \<Longrightarrow> read_duckdb sql = Some st \<Longrightarrow> only_looks st \<Longrightarrow> tv_committed (V c') = tv_committed (V c)"
    "du_count Q sql c = (Inr k, c') \<Longrightarrow> read_duckdb sql = Some st \<Longrightarrow> only_looks st \<Longrightarrow> V c' = V c"
    "du_close Q c = (x, c') \<Longrightarrow> tv_committed (V c') = tv_committed (V c)"
    "tv_committed (V (du_drop Q c)) = tv_committed (V c)"
  using assms unfolding duckdb_keeps_def
  by (metis fst_conv snd_conv is_ok_simps option.distinct(1))+

lemma understands_calls:
  assumes "duckdb_understands Q V val dataset stage" "read_duckdb sql = Some st"
  shows "st = Select_Rows (Rows_Of ob limit) \<Longrightarrow> duckdb_place dataset stage ob = Some Target \<Longrightarrow>
       du_schema Q sql c = (Inr schema, c') \<Longrightarrow> tv_columns (V c') = map af_name schema \<and> distinct (map af_name schema)"
    "du_execute Q sql b c = (Inr u, c') \<Longrightarrow> duckdb_runs val dataset stage (Some b) st (V c) (V c')"
    "du_execute_batch Q sql c = (Inr u, c') \<Longrightarrow> duckdb_runs val dataset stage None st (V c) (V c')"
    "du_count Q sql c = (Inr n, c') \<Longrightarrow> duckdb_counts val dataset stage st (V c) n"
  using assms(1) [unfolded duckdb_understands_def, rule_format, OF assms(2)] by (cases u; blast)+

lemma transacts_calls:
  assumes "duckdb_understands Q V val dataset stage"
  shows "du_execute_batch Q ''BEGIN'' c = (Inr u, c') \<Longrightarrow> V c' = (V c)\<lparr>tv_working := tv_committed (V c), tv_open := True\<rparr>"
    "du_execute_batch Q ''COMMIT'' c = (Inr u, c') \<Longrightarrow> tv_open (V c) \<Longrightarrow>
       V c' = (V c)\<lparr>tv_committed := tv_working (V c), tv_open := False\<rparr>"
  using understands_calls(3) [OF assms read_transaction(1)] understands_calls(3) [OF assms read_transaction(2)]
  by (auto simp: duckdb_runs_def)

text \<open>The statements of the source, read and run.\<close>

lemma duckdb_place_simps [simp]:
  "duckdb_place dataset stage [dataset] = Some Target"
  "stage \<noteq> dataset \<Longrightarrow> duckdb_place dataset stage [''temp'', ''main'', stage] = Some Staged"
  by (simp_all add: duckdb_place_def)

lemma writes_calls:
  assumes "duckdb_understands Q V val dataset stage"
  shows "du_schema Q (inspect_sql (quote_identifier dataset)) c = (Inr schema, c') \<Longrightarrow>
       tv_columns (V c') = map af_name schema \<and> distinct (map af_name schema)"
    "du_execute Q (replace_sql (quote_identifier dataset)) b c = (Inr u, c') \<Longrightarrow> tv_open (V c) \<Longrightarrow>
       V c' = (V c)\<lparr>tv_working := Some (batch_rows b), tv_columns := batch_columns b\<rparr>"
    "du_execute Q (insert_sql (quote_identifier dataset)) b c = (Inr u, c') \<Longrightarrow> tv_open (V c) \<Longrightarrow>
       batch_columns b = tv_columns (V c) \<Longrightarrow>
       \<exists>old. tv_working (V c) = Some old \<and> V c' = (V c)\<lparr>tv_working := Some (old + batch_rows b)\<rparr>"
    "du_execute Q (insert_by_name_sql (quote_identifier dataset)) b c = (Inr u, c') \<Longrightarrow> \<not> tv_open (V c) \<Longrightarrow>
       batch_columns b = tv_columns (V c) \<Longrightarrow>
       \<exists>old. tv_committed (V c) = Some old \<and> V c' = (V c)\<lparr>tv_committed := Some (old + batch_rows b)\<rparr>"
proof -
  note w = understands_calls [OF assms]
  show "du_schema Q (inspect_sql (quote_identifier dataset)) c = (Inr schema, c') \<Longrightarrow>
       tv_columns (V c') = map af_name schema \<and> distinct (map af_name schema)"
    by (rule w(1) [OF read_inspect refl duckdb_place_simps(1)])
  show "du_execute Q (replace_sql (quote_identifier dataset)) b c = (Inr u, c') \<Longrightarrow> tv_open (V c) \<Longrightarrow>
       V c' = (V c)\<lparr>tv_working := Some (batch_rows b), tv_columns := batch_columns b\<rparr>"
    using w(2) [OF read_replace] by (auto simp: duckdb_runs_def duckdb_creates_def)
  show "du_execute Q (insert_sql (quote_identifier dataset)) b c = (Inr u, c') \<Longrightarrow> tv_open (V c) \<Longrightarrow>
       batch_columns b = tv_columns (V c) \<Longrightarrow>
       \<exists>old. tv_working (V c) = Some old \<and> V c' = (V c)\<lparr>tv_working := Some (old + batch_rows b)\<rparr>"
    using w(2) [OF read_insert] by (fastforce simp: duckdb_runs_def columns_fit_def)
  show "du_execute Q (insert_by_name_sql (quote_identifier dataset)) b c = (Inr u, c') \<Longrightarrow> \<not> tv_open (V c) \<Longrightarrow>
       batch_columns b = tv_columns (V c) \<Longrightarrow>
       \<exists>old. tv_committed (V c) = Some old \<and> V c' = (V c)\<lparr>tv_committed := Some (old + batch_rows b)\<rparr>"
    using w(2) [OF read_insert_by_name(1)] by (fastforce simp: duckdb_runs_def columns_fit_def)
qed

lemma open_arrow_connection_keeps:
  assumes "duckdb_keeps Q V" "open_arrow_connection Q table c = (r, c')"
  shows "tv_committed (V c') = tv_committed (V c) \<and> (is_ok r \<longrightarrow> \<not> tv_open (V c'))"
  using assms(2) keeps_calls [OF assms(1)]
  by (auto simp: open_arrow_connection_def Let_def split: prod.splits sum.splits)

subsection \<open>Full refresh\<close>

definition replacing :: "('c \<Rightarrow> table_view) \<Rightarrow> duckdb_table \<Rightarrow> row multiset option \<Rightarrow> record_batch list \<Rightarrow> 'c duckdb_full_refresh \<Rightarrow> bool" where
  "replacing V table old bs w \<longleftrightarrow> df_table w = table \<and> tv_committed (V (df_db w)) = old \<and> tv_open (V (df_db w))
     \<and> df_written_chunks w = length bs \<and> df_written_records w = sum_list (map rb_rows bs)
     \<and> (bs \<noteq> [] \<longrightarrow> tv_working (V (df_db w)) = Some (batches_rows bs) \<and> tv_columns (V (df_db w)) = batch_columns (hd bs))"

lemma replace_begin_replacing:
  assumes "duckdb_keeps Q V" "duckdb_understands Q V val dataset stage" "duckdb_replace_begin Q w = (Inr (), w')"
  shows "replacing V (df_table w) (tv_committed (V (df_db w))) [] w'"
proof -
  obtain c1 c2 where c: "open_arrow_connection Q (df_table w) (df_db w) = (Inr (), c1)"
    "du_execute_batch Q ''BEGIN'' c1 = (Inr (), c2)" "w' = w\<lparr>df_db := c2, df_written_chunks := 0, df_written_records := 0\<rparr>"
    using assms(3) by (auto simp: duckdb_replace_begin_def split: prod.splits sum.splits)
  show ?thesis
    using open_arrow_connection_keeps [OF assms(1) c(1)] transacts_calls(1) [OF assms(2) c(2)] c(3)
    by (simp add: replacing_def)
qed

text \<open>Batches of one plan have the columns of the first.\<close>

definition same_columns :: "record_batch list \<Rightarrow> bool" where
  "same_columns bs \<longleftrightarrow> (\<exists>columns. \<forall>b\<in>set bs. batch_columns b = columns)"

lemma same_columns_snoc: "same_columns (bs @ [b]) \<Longrightarrow> bs \<noteq> [] \<Longrightarrow> batch_columns b = batch_columns (hd bs)"
  by (cases bs) (auto simp: same_columns_def)

lemma replace_write_replacing:
  assumes "duckdb_understands Q V val (dt_dataset table) stage" "replacing V table old bs w" "same_columns (bs @ [b])"
    "duckdb_replace_write Q b w = (Inr (), w')"
  shows "replacing V table old (bs @ [b]) w'"
proof -
  let ?q = "quote_identifier (dt_dataset table)"
  obtain c where c: "du_execute Q (if bs = [] then replace_sql ?q else insert_sql ?q) b (df_db w) = (Inr (), c)"
    "w' = w\<lparr>df_db := c, df_written_chunks := df_written_chunks w + 1,
            df_written_records := df_written_records w + rb_rows b\<rparr>"
    using assms(2,4) by (auto simp: duckdb_replace_write_def replacing_def quoted_dataset_def Let_def split: prod.splits sum.splits if_splits)
  have w: "tv_open (V (df_db w))" using assms(2) by (simp add: replacing_def)
  show ?thesis
  proof (cases "bs = []")
    case True
    then have "V c = (V (df_db w))\<lparr>tv_working := Some (batch_rows b), tv_columns := batch_columns b\<rparr>"
      using writes_calls(2) [OF assms(1) _ w] c(1) by simp
    then show ?thesis using True c(2) assms(2) by (simp add: replacing_def batches_rows_def)
  next
    case False
    then have "batch_columns b = tv_columns (V (df_db w))" using assms(2) same_columns_snoc [OF assms(3)] by (simp add: replacing_def)
    then obtain rows where "tv_working (V (df_db w)) = Some rows" "V c = (V (df_db w))\<lparr>tv_working := Some (rows + batch_rows b)\<rparr>"
      using writes_calls(3) [OF assms(1) _ w] c(1) False by auto
    then show ?thesis using False c(2) assms(2) by (simp add: replacing_def)
  qed
qed

lemma replace_terminal: "fst (duckdb_replace_write Q b w) = Inl fail \<Longrightarrow> wx_transience fail = Terminal"
  by (auto simp: duckdb_replace_write_def write_failure_atomic_def Let_def split: prod.splits sum.splits)

lemma replace_write_failed:
  assumes "duckdb_keeps Q V" "duckdb_replace_write Q b w = (Inl fail, w')"
  shows "tv_committed (V (df_db w')) = tv_committed (V (df_db w)) \<and> wx_committed_chunks fail = 0"
proof -
  have "\<exists>st. read_duckdb (if n = 0 then replace_sql (quoted_dataset t) else insert_sql (quoted_dataset t)) = Some st" for n :: nat and t
    by (simp add: quoted_dataset_def read_replace read_insert)
  then show ?thesis
    using assms(2) keeps_calls(6) [OF assms(1)]
    by (fastforce simp: duckdb_replace_write_def write_failure_atomic_def Let_def split: prod.splits sum.splits)
qed

lemma replace_commit_cases:
  assumes K: "duckdb_keeps Q V" "duckdb_understands Q V val dataset stage" and w: "replacing V table old bs w" "bs \<noteq> []"
    and c: "duckdb_replace_commit Q w = (r, w')"
  shows "(case r of
      Inr dw \<Rightarrow> tv_committed (V (df_db w')) = Some (batches_rows bs)
    | Inl fail \<Rightarrow> wx_committed_chunks fail = 0 \<and> tv_committed (V (df_db w')) = old
        \<or> wx_committed_chunks fail = length bs \<and> tv_committed (V (df_db w')) = Some (batches_rows bs))"
proof -
  obtain x c1 where x: "du_execute_batch Q ''COMMIT'' (df_db w) = (x, c1)" by fastforce
  show ?thesis
  proof (cases x)
    case (Inl e)
    then show ?thesis
      using c w x keeps_calls(7) [OF K(1) _ read_transaction(2)] keeps_calls(11) [OF K(1)] by (auto simp: duckdb_replace_commit_def replacing_def write_failure_atomic_def)
  next
    case (Inr u)
    then have v: "tv_committed (V c1) = Some (batches_rows bs)"
      using transacts_calls(2) [OF K(2), of "df_db w" u c1] x w by (simp add: replacing_def)
    obtain y c2 where y: "du_close Q c1 = (y, c2)" by fastforce
    show ?thesis
      using c w x y Inr v keeps_calls(10) [OF K(1) y] keeps_calls(11) [OF K(1), of c2]
      by (cases y) (auto simp: duckdb_replace_commit_def replacing_def)
  qed
qed

subsection \<open>Aligned batches\<close>

lemma align_columns:
  assumes "align_batch_to_duckdb_schema A table b dest op_name = Inr a"
  shows "rb_schema a = dest" "length (rb_schema b) = length dest" "length (rb_columns a) = length dest"
    "\<And>j. j < length dest \<Longrightarrow> \<exists>i. index_of (rb_schema b) (af_name (dest ! j)) = Some i \<and> rb_columns a ! j = rb_columns b ! i"
proof -
  obtain columns where c: "length (rb_schema b) = length dest" "traverse (align_duckdb_field table op_name b) dest = Inr columns"
    "a = \<lparr>rb_schema = dest, rb_columns = columns\<rparr>"
    using assms by (auto simp: align_batch_to_duckdb_schema_def rbind_eq_Inr_iff rmap_eq_Inr_iff split: if_splits)
  then show "rb_schema a = dest" "length (rb_schema b) = length dest" by simp_all
  have l: "list_all2 (\<lambda>x y. align_duckdb_field table op_name b x = Inr y) dest columns"
    using c(2) by (simp add: traverse_Inr_iff)
  then show "length (rb_columns a) = length dest" using c(3) by (simp add: list_all2_lengthD)
  fix j assume "j < length dest"
  then have "align_duckdb_field table op_name b (dest ! j) = Inr (rb_columns a ! j)"
    using l c(3) by (simp add: list_all2_conv_all_nth)
  then show "\<exists>i. index_of (rb_schema b) (af_name (dest ! j)) = Some i \<and> rb_columns a ! j = rb_columns b ! i"
    by (auto simp: align_duckdb_field_def Let_def split: option.splits if_splits)
qed

text \<open>Alignment reorders the columns of a batch and keeps its rows.\<close>

lemma align_keeps_rows:
  assumes a: "align_batch_to_duckdb_schema A table b dest op_name = Inr a" and d: "distinct (map af_name dest)"
    and b: "rectangular b"
  shows "batch_rows a = batch_rows b \<and> batch_columns a = map af_name dest \<and> rb_rows a = rb_rows b
    \<and> set (batch_columns b) = af_name ` set dest"
  using by_name_keeps_rows [OF align_columns [OF a] d b] .

end
