(* ===== verification/Duckdb_Runs.thy ===== *)
theory Duckdb_Runs
  imports Duckdb_Facts
begin

section \<open>Serial loads into a DuckDB table\<close>

text \<open>
  The serial write phase over the three sessions, against a connection that keeps
  \<open>duckdb_contract\<close>: what is committed to the destination table in every outcome.
\<close>

subsection \<open>Full refresh\<close>

lemma prefix_columns:
  assumes "\<forall>b. Inr b \<in> set chunks \<longrightarrow> batch_columns b = columns" "take k chunks = map Inr bs @ xs"
  shows "same_columns bs"
proof -
  have "batch_columns b = columns" if "b \<in> set bs" for b
  proof -
    have "Inr b \<in> set (take k chunks)" using that assms(2) by simp
    from in_set_takeD [OF this] show ?thesis using assms(1) by simp
  qed
  then show ?thesis unfolding same_columns_def by blast
qed

lemma same_columns_butlast: "same_columns (bs @ [b]) \<Longrightarrow> same_columns bs"
  by (auto simp: same_columns_def)

lemma duckdb_replace_run:
  assumes K: "duckdb_contract Q V val (dt_dataset (df_table w)) stage"
    and opened: "duckdb_replace_begin Q w = (Inr (), us_world st)"
    and run: "run_serial_write_phase policy (duckdb_replace_ops Q) chunks st = (r, st')"
    and columns: "\<forall>b. Inr b \<in> set chunks \<longrightarrow> batch_columns b = columns" and chunks: "chunks \<noteq> []"
  shows "case r of
      Inr outcome \<Rightarrow> \<exists>bs. chunks = map Inr bs \<and> tv_committed (V (df_db (us_world st'))) = Some (batches_rows bs)
    | Inl (In_Session fail) \<Rightarrow>
        wx_committed_chunks fail = 0 \<and> tv_committed (V (df_db (us_world st'))) = tv_committed (V (df_db w))
        \<or> (\<exists>bs. chunks = map Inr bs \<and> wx_committed_chunks fail = length bs
             \<and> tv_committed (V (df_db (us_world st'))) = Some (batches_rows bs))
    | Inl (Before_Session fail) \<Rightarrow> False"
proof -
  have K': "duckdb_keeps Q V" "duckdb_understands Q V val (dt_dataset (df_table w)) stage"
    using K by (simp_all add: duckdb_contract_def)
  let ?D = "duckdb_replace_ops Q" and ?old = "tv_committed (V (df_db w))"
  define P where "P bs w' \<longleftrightarrow> (same_columns bs \<longrightarrow> replacing V (df_table w) ?old bs w')" for bs w'
  have start: "P [] (us_world st)"
    using replace_begin_replacing [OF K'(1,2) opened] by (simp add: P_def)
  have step: "P (bs @ [b]) w''" if "P bs w'" "d_write_chunk ?D b w' = (Inr (), w'')" for bs b w' w''
    using that replace_write_replacing [OF K'(2)] same_columns_butlast [of bs b]
    by (auto simp: P_def duckdb_replace_ops_def)
  have terminal: "wx_transience fail = Terminal" if "fst (d_write_chunk ?D b w') = Inl fail" for b w' fail
    using that by (simp add: duckdb_replace_ops_def replace_terminal)
  have run': "run_serial_from policy ?D 0 chunks st = (r, st')" using run by (simp add: run_serial_write_phase_def)
  from step terminal run' start show ?thesis
  proof (rule serial_run_cases)
    fix bs st''
    assume c: "chunks = map Inr bs" "P ([] @ bs) (us_world st'')" "(r, st') = commit_session ?D (0 + length chunks) st''"
    have "same_columns bs" using prefix_columns [OF columns, of "length chunks" bs "[]"] c(1) by simp
    then have p: "replacing V (df_table w) ?old bs (us_world st'')" "bs \<noteq> []" using c(1,2) chunks by (auto simp: P_def)
    obtain x w' where x: "duckdb_replace_commit Q (us_world st'') = (x, w')" by fastforce
    show ?thesis
      using replace_commit_cases [OF K'(1,2) p x] c(1,3) x
      by (cases x) (auto simp: commit_session_def duckdb_replace_ops_def)
  next
    fix bs w' src
    assume c: "take (length bs + 1) chunks = map Inr bs @ [Inl src]" "P ([] @ bs) w'"
      "r = Inl (In_Session \<lparr>wx_failure = src, wx_facts = aw_facts (fst (d_abandon ?D w')),
         wx_written_records = aw_written_records (fst (d_abandon ?D w')),
         wx_committed_chunks = aw_committed_chunks (fst (d_abandon ?D w')), wx_transience = Terminal\<rparr>)"
      "us_world st' = snd (d_abandon ?D w')"
    then have "replacing V (df_table w) ?old bs w'" using prefix_columns [OF columns c(1)] by (simp add: P_def)
    then show ?thesis
      using c(3,4) keeps_calls(11) [OF K'(1)]
      by (simp add: duckdb_replace_ops_def duckdb_replace_abandon_def duckdb_replace_drop_def nothing_written_def replacing_def)
  next
    fix bs b w' w'' fail
    assume c: "take (length bs + 1) chunks = map Inr (bs @ [b])" "P ([] @ bs) w'" "d_write_chunk ?D b w' = (Inl fail, w'')"
      "r = Inl (In_Session fail)" "us_world st' = d_drop ?D w''"
    have "same_columns bs" using prefix_columns [OF columns, of "length bs + 1" bs "[Inr b]"] c(1) by simp
    then have "replacing V (df_table w) ?old bs w'" using c(2) by (simp add: P_def)
    then show ?thesis
      using c(3-5) replace_write_failed [OF K'(1), of b w' fail w''] keeps_calls(11) [OF K'(1)]
      by (simp add: duckdb_replace_ops_def duckdb_replace_drop_def replacing_def)
  qed
qed

subsection \<open>Append\<close>

definition appending :: "('c \<Rightarrow> table_view) \<Rightarrow> duckdb_table \<Rightarrow> row multiset option \<Rightarrow> record_batch list \<Rightarrow> 'c duckdb_append \<Rightarrow> bool" where
  "appending V table old bs w \<longleftrightarrow> da_table w = table \<and> \<not> tv_open (V (da_db w))
     \<and> tv_columns (V (da_db w)) = map af_name (da_destination_schema w) \<and> distinct (map af_name (da_destination_schema w))
     \<and> da_committed_chunks w = length bs \<and> da_written_records w = sum_list (map rb_rows bs)
     \<and> (if bs = [] then tv_committed (V (da_db w)) = old
        else \<exists>rows. old = Some rows \<and> tv_committed (V (da_db w)) = Some (rows + batches_rows bs))"

lemma append_begin_appending:
  assumes "duckdb_keeps Q V" "duckdb_understands Q V val (dt_dataset (da_table w)) stage" "duckdb_append_begin Q w = (Inr (), w')"
  shows "appending V (da_table w) (tv_committed (V (da_db w))) [] w'"
proof -
  obtain c1 c2 schema where c: "open_arrow_connection Q (da_table w) (da_db w) = (Inr (), c1)"
    "du_schema Q (inspect_sql (quoted_dataset (da_table w))) c1 = (Inr schema, c2)"
    "w' = w\<lparr>da_db := c2, da_destination_schema := schema, da_committed_chunks := 0, da_written_records := 0\<rparr>"
    using assms(3) by (auto simp: duckdb_append_begin_def inspect_schema_def apfst_def map_prod_def split: prod.splits sum.splits)
  show ?thesis
    using open_arrow_connection_keeps [OF assms(1) c(1)] keeps_calls(5) [OF assms(1) c(2) [unfolded quoted_dataset_def] read_inspect]
      writes_calls(1) [OF assms(2) c(2) [unfolded quoted_dataset_def]] c(3)
    by (simp add: appending_def)
qed

lemma append_write_appending:
  assumes "duckdb_understands Q V val (dt_dataset table) stage" "appending V table old bs w" "rectangular b"
    "duckdb_append_write A Q b w = (Inr (), w')"
  shows "appending V table old (bs @ [b]) w'"
proof -
  obtain a c where a: "align_batch_to_duckdb_schema A table b (da_destination_schema w) ''append'' = Inr a"
    "du_execute Q (insert_by_name_sql (quote_identifier (dt_dataset table))) a (da_db w) = (Inr (), c)"
    "w' = w\<lparr>da_db := c, da_committed_chunks := da_committed_chunks w + 1, da_written_records := da_written_records w + rb_rows a\<rparr>"
    using assms(2,4) by (auto simp: duckdb_append_write_def appending_def quoted_dataset_def split: prod.splits sum.splits)
  have w: "\<not> tv_open (V (da_db w))" "distinct (map af_name (da_destination_schema w))"
    using assms(2) by (simp_all add: appending_def)
  note rows = align_keeps_rows [OF a(1) w(2) assms(3)]
  then have "batch_columns a = tv_columns (V (da_db w))" using assms(2) by (simp add: appending_def)
  then obtain rs where "tv_committed (V (da_db w)) = Some rs" "V c = (V (da_db w))\<lparr>tv_committed := Some (rs + batch_rows b)\<rparr>"
    using writes_calls(4) [OF assms(1) a(2) w(1)] rows by auto
  then show ?thesis using assms(2) a(3) rows by (auto simp: appending_def batches_rows_def add.assoc split: if_splits)
qed

lemma append_terminal: "fst (duckdb_append_write A Q b w) = Inl fail \<Longrightarrow> wx_transience fail = Terminal"
  by (auto simp: duckdb_append_write_def duckdb_chunk_failure_def duckdb_append_failure_def write_failure_from_def
      split: prod.splits sum.splits if_splits)

lemma append_write_failed:
  assumes "duckdb_keeps Q V" "duckdb_append_write A Q b w = (Inl fail, w')"
  shows "tv_committed (V (da_db w')) = tv_committed (V (da_db w)) \<and> wx_committed_chunks fail = da_committed_chunks w"
  using assms(2) keeps_calls(6) [OF assms(1) _ read_insert_by_name(1)]
  by (auto simp: duckdb_append_write_def quoted_dataset_def duckdb_chunk_failure_def duckdb_append_failure_def write_failure_from_def
      split: prod.splits sum.splits if_splits)

lemma append_commit_cases:
  assumes "duckdb_keeps Q V" "duckdb_append_commit Q w = (r, w')"
  shows "tv_committed (V (da_db w')) = tv_committed (V (da_db w))
    \<and> (\<forall>fail. r = Inl fail \<longrightarrow> wx_committed_chunks fail = da_committed_chunks w)"
  using assms(2) keeps_calls(10,11) [OF assms(1)]
  by (auto simp: duckdb_append_commit_def duckdb_append_failure_def split: prod.splits sum.splits)

text \<open>Whatever stops an append, the table has the rows it had and those of a prefix of the chunks.\<close>

definition appended :: "row multiset option \<Rightarrow> record_batch list \<Rightarrow> row multiset option \<Rightarrow> bool" where
  "appended old bs new \<longleftrightarrow> (if bs = [] then new = old else \<exists>rows. old = Some rows \<and> new = Some (rows + batches_rows bs))"

lemma appending_appended: "appending V table old bs w \<Longrightarrow> appended old bs (tv_committed (V (da_db w)))"
  by (simp add: appending_def appended_def)

lemma duckdb_append_run:
  assumes K: "duckdb_contract Q V val (dt_dataset (da_table w)) stage"
    and opened: "duckdb_append_begin Q w = (Inr (), us_world st)"
    and run: "run_serial_write_phase policy (duckdb_append_ops A Q) chunks st = (r, st')"
    and batches: "\<forall>b. Inr b \<in> set chunks \<longrightarrow> rectangular b"
  shows "\<exists>bs rest. chunks = map Inr bs @ rest
    \<and> appended (tv_committed (V (da_db w))) bs (tv_committed (V (da_db (us_world st'))))
    \<and> (case r of Inr outcome \<Rightarrow> rest = [] | Inl (In_Session fail) \<Rightarrow> wx_committed_chunks fail = length bs
       | Inl (Before_Session fail) \<Rightarrow> False)"
proof -
  have K': "duckdb_keeps Q V" "duckdb_understands Q V val (dt_dataset (da_table w)) stage"
    using K by (simp_all add: duckdb_contract_def)
  let ?D = "duckdb_append_ops A Q" and ?old = "tv_committed (V (da_db w))"
  define P where "P bs w' \<longleftrightarrow> ((\<forall>b\<in>set bs. rectangular b) \<longrightarrow> appending V (da_table w) ?old bs w')" for bs w'
  have start: "P [] (us_world st)" using append_begin_appending [OF K' opened] by (simp add: P_def)
  have step: "P (bs @ [b]) w''" if "P bs w'" "d_write_chunk ?D b w' = (Inr (), w'')" for bs b w' w''
    using that append_write_appending [OF K'(2)] by (auto simp: P_def duckdb_append_ops_def)
  have terminal: "wx_transience fail = Terminal" if "fst (d_write_chunk ?D b w') = Inl fail" for b w' fail
    using that by (simp add: duckdb_append_ops_def append_terminal)
  have rect: "rectangular b" if "take k chunks = map Inr bs @ xs" "b \<in> set bs" for k bs xs b
  proof -
    have "Inr b \<in> set (take k chunks)" using that by simp
    from in_set_takeD [OF this] show ?thesis using batches by simp
  qed
  have split: "chunks = xs @ drop k chunks" if "take k chunks = xs" for k xs
    using append_take_drop_id [of k chunks] that by simp
  have run': "run_serial_from policy ?D 0 chunks st = (r, st')" using run by (simp add: run_serial_write_phase_def)
  from step terminal run' start show ?thesis
  proof (rule serial_run_cases)
    fix bs st''
    assume c: "chunks = map Inr bs" "P ([] @ bs) (us_world st'')" "(r, st') = commit_session ?D (0 + length chunks) st''"
    then have p: "appending V (da_table w) ?old bs (us_world st'')"
      using rect [of "length chunks" bs "[]"] by (auto simp: P_def)
    obtain x w' where x: "duckdb_append_commit Q (us_world st'') = (x, w')" by fastforce
    show ?thesis
      using append_commit_cases [OF K'(1) x] c(1,3) x appending_appended [OF p] p
      by (intro exI [of _ bs] exI [of _ "[]"], cases x)
        (auto simp: commit_session_def duckdb_append_ops_def appending_def)
  next
    fix bs w' src
    assume c: "take (length bs + 1) chunks = map Inr bs @ [Inl src]" "P ([] @ bs) w'"
      "r = Inl (In_Session \<lparr>wx_failure = src, wx_facts = aw_facts (fst (d_abandon ?D w')),
         wx_written_records = aw_written_records (fst (d_abandon ?D w')),
         wx_committed_chunks = aw_committed_chunks (fst (d_abandon ?D w')), wx_transience = Terminal\<rparr>)"
      "us_world st' = snd (d_abandon ?D w')"
    have p: "appending V (da_table w) ?old bs w'" using c(2) rect [OF c(1)] by (simp add: P_def)
    show ?thesis
      using split [OF c(1)] c(3,4) keeps_calls(11) [OF K'(1)] appending_appended [OF p] p
      by (intro exI [of _ bs] exI [of _ "Inl src # drop (length bs + 1) chunks"])
        (simp add: duckdb_append_ops_def duckdb_append_abandon_def duckdb_append_drop_def append_abandoned_def appending_def)
  next
    fix bs b w' w'' fail
    assume c: "take (length bs + 1) chunks = map Inr (bs @ [b])" "P ([] @ bs) w'" "d_write_chunk ?D b w' = (Inl fail, w'')"
      "r = Inl (In_Session fail)" "us_world st' = d_drop ?D w''"
    have p: "appending V (da_table w) ?old bs w'" using c(1,2) rect [of "length bs + 1" bs "[Inr b]"] by (simp add: P_def)
    show ?thesis
      using split [OF c(1)] c(3-5) append_write_failed [OF K'(1), of A b w' fail w''] keeps_calls(11) [OF K'(1)]
        appending_appended [OF p] p
      by (intro exI [of _ bs] exI [of _ "Inr b # drop (length bs + 1) chunks"])
        (simp add: duckdb_append_ops_def duckdb_append_drop_def appending_def)
  qed
qed

subsection \<open>Merge\<close>

definition merging ::
  "('c \<Rightarrow> table_view) \<Rightarrow> duckdb_table \<Rightarrow> string list \<Rightarrow> string \<Rightarrow> row multiset option \<Rightarrow> record_batch list \<Rightarrow> 'c duckdb_merge \<Rightarrow> bool" where
  "merging V table keys stage old bs w \<longleftrightarrow> dm_table w = table \<and> dm_merge_keys w = keys \<and> dm_stage w = stage
     \<and> tv_open (V (dm_db w)) \<and> tv_committed (V (dm_db w)) = old \<and> tv_working (V (dm_db w)) = old
     \<and> tv_columns (V (dm_db w)) = map af_name (dm_destination_schema w) \<and> distinct (map af_name (dm_destination_schema w))
     \<and> tv_stage (V (dm_db w)) = Some (batches_rows bs)
     \<and> dm_staged_chunks w = length bs \<and> dm_staged_records w = sum_list (map rb_rows bs)"

lemma stages_calls:
  assumes U: "duckdb_understands Q V val dataset stage" and name: "stage \<noteq> dataset"
  shows "du_execute_batch Q (create_stage_sql (quote_identifier stage) (quote_identifier dataset)) c = (Inr u, c') \<Longrightarrow>
       V c' = (V c)\<lparr>tv_stage := Some {#}\<rparr>"
    "du_execute Q (insert_by_name_sql (stage_reference (quote_identifier stage))) b c = (Inr u, c') \<Longrightarrow>
       batch_columns b = tv_columns (V c) \<Longrightarrow>
       \<exists>old. tv_stage (V c) = Some old \<and> V c' = (V c)\<lparr>tv_stage := Some (old + batch_rows b)\<rparr>"
  using understands_calls(3) [OF U read_create_stage] understands_calls(2) [OF U read_insert_by_name(2)] name
  by (fastforce simp: duckdb_runs_def duckdb_creates_def columns_fit_def)+

lemma merge_begin_merging:
  assumes K: "duckdb_keeps Q V" "duckdb_understands Q V val (dt_dataset (dm_table w)) (merge_stage_name token)"
    and name: "merge_stage_name token \<noteq> dt_dataset (dm_table w)"
    and opened: "duckdb_merge_begin Q token w = (Inr (), w')"
  shows "merging V (dm_table w) (dm_merge_keys w) (merge_stage_name token) (tv_committed (V (dm_db w))) [] w'"
proof -
  obtain c1 c2 c3 c4 schema where c: "open_arrow_connection Q (dm_table w) (dm_db w) = (Inr (), c1)"
    "du_schema Q (inspect_sql (quote_identifier (dt_dataset (dm_table w)))) c1 = (Inr schema, c2)"
    "du_execute_batch Q ''BEGIN'' c2 = (Inr (), c3)"
    "du_execute_batch Q (create_stage_sql (quote_identifier (merge_stage_name token)) (quote_identifier (dt_dataset (dm_table w)))) c3 = (Inr (), c4)"
    "w' = w\<lparr>dm_db := c4, dm_destination_schema := schema, dm_stage := merge_stage_name token, dm_staged_chunks := 0, dm_staged_records := 0\<rparr>"
    using opened
    by (auto simp: duckdb_merge_begin_def inspect_schema_def quoted_dataset_def apfst_def map_prod_def Let_def split: prod.splits sum.splits)
  show ?thesis
    using open_arrow_connection_keeps [OF K(1) c(1)] keeps_calls(5) [OF K(1) c(2) read_inspect] writes_calls(1) [OF K(2) c(2)]
      transacts_calls(1) [OF K(2) c(3)] stages_calls(1) [OF K(2) name c(4)] c(5)
    by (simp add: merging_def)
qed

lemma merge_write_merging:
  assumes S: "duckdb_understands Q V val (dt_dataset table) stage" "stage \<noteq> dt_dataset table" and w: "merging V table keys stage old bs w" and b: "rectangular b"
    and wr: "duckdb_merge_write A Q b w = (Inr (), w')"
  shows "merging V table keys stage old (bs @ [b]) w' \<and> set (batch_columns b) = af_name ` set (dm_destination_schema w)"
proof -
  obtain a c where a: "align_batch_to_duckdb_schema A table b (dm_destination_schema w) ''merge'' = Inr a"
    "du_execute Q (insert_by_name_sql (stage_reference (quote_identifier stage))) a (dm_db w) = (Inr (), c)"
    "w' = w\<lparr>dm_db := c, dm_staged_chunks := dm_staged_chunks w + 1, dm_staged_records := dm_staged_records w + rb_rows a\<rparr>"
    using w wr by (auto simp: duckdb_merge_write_def merging_def merge_stage_reference_def split: prod.splits sum.splits)
  have d: "distinct (map af_name (dm_destination_schema w))" using w by (simp add: merging_def)
  note rows = align_keeps_rows [OF a(1) d b]
  then have "batch_columns a = tv_columns (V (dm_db w))" using w by (simp add: merging_def)
  then have "V c = (V (dm_db w))\<lparr>tv_stage := Some (batches_rows bs + batch_rows b)\<rparr>"
    using stages_calls(2) [OF S a(2)] rows w by (auto simp: merging_def)
  then show ?thesis using w a(3) rows by (simp add: merging_def)
qed

lemma merge_write_failed:
  assumes "duckdb_keeps Q V" "duckdb_merge_write A Q b w = (Inl fail, w')"
  shows "tv_committed (V (dm_db w')) = tv_committed (V (dm_db w)) \<and> wx_committed_chunks fail = 0 \<and> wx_transience fail = Terminal"
  using assms(2) keeps_calls(6) [OF assms(1) _ read_insert_by_name(2)]
  by (auto simp: duckdb_merge_write_def merge_stage_reference_def merge_failure_def write_failure_atomic_def split: prod.splits sum.splits)

lemma merge_terminal: "fst (duckdb_merge_write A Q b w) = Inl fail \<Longrightarrow> wx_transience fail = Terminal"
  by (auto simp: duckdb_merge_write_def merge_failure_def write_failure_atomic_def split: prod.splits sum.splits)

text \<open>The transaction at the end: the gate, the count, the merge and the commit.\<close>

lemma merges_calls:
  assumes U: "duckdb_understands Q V val dataset stage" and name: "stage \<noteq> dataset"
  shows "du_count Q (colliding_records_sql (quote_identifier stage) (map quote_identifier keys)) c = (Inr n, c') \<Longrightarrow>
      \<exists>incoming. tv_stage (V c) = Some incoming \<and> n = size (colliding_rows val keys incoming)"
    "du_count Q (matched_records_sql (quote_identifier stage) (quote_identifier dataset) (map quote_identifier keys)) c = (Inr n, c') \<Longrightarrow>
      tv_open (V c) \<Longrightarrow> \<exists>old incoming. tv_working (V c) = Some old \<and> tv_stage (V c) = Some incoming
        \<and> n = size (matched_rows val keys old incoming)"
    "du_execute_batch Q (merge_sql (quote_identifier dataset) (quote_identifier stage) (map quote_identifier keys)
        (map quote_identifier columns) (map quote_identifier (filter (\<lambda>name. name \<notin> set keys) columns))) c = (Inr u, c') \<Longrightarrow>
      tv_open (V c) \<Longrightarrow> \<forall>incoming s name. tv_stage (V c) = Some incoming \<longrightarrow> s \<in># incoming \<longrightarrow> name \<notin> set columns \<longrightarrow> s name = Cell_Null \<Longrightarrow>
      \<exists>old incoming new. tv_working (V c) = Some old \<and> tv_stage (V c) = Some incoming
        \<and> merged_into val keys columns old incoming new \<and> V c' = (V c)\<lparr>tv_working := Some new\<rparr>"
proof -
  show "du_count Q (colliding_records_sql (quote_identifier stage) (map quote_identifier keys)) c = (Inr n, c') \<Longrightarrow>
      \<exists>incoming. tv_stage (V c) = Some incoming \<and> n = size (colliding_rows val keys incoming)"
    using understands_calls(4) [OF U read_colliding [of stage keys]] name
    by (fastforce simp: duckdb_counts_def peer_count_colliding [unfolded One_nat_def])
  show "du_count Q (matched_records_sql (quote_identifier stage) (quote_identifier dataset) (map quote_identifier keys)) c = (Inr n, c') \<Longrightarrow>
      tv_open (V c) \<Longrightarrow> \<exists>old incoming. tv_working (V c) = Some old \<and> tv_stage (V c) = Some incoming
        \<and> n = size (matched_rows val keys old incoming)"
    using understands_calls(4) [OF U read_matched] name
    by (fastforce simp: duckdb_counts_def related_count_matched)
  assume m: "du_execute_batch Q (merge_sql (quote_identifier dataset) (quote_identifier stage) (map quote_identifier keys)
        (map quote_identifier columns) (map quote_identifier (filter (\<lambda>name. name \<notin> set keys) columns))) c = (Inr u, c')"
    and o: "tv_open (V c)"
    and null: "\<forall>incoming s name. tv_stage (V c) = Some incoming \<longrightarrow> s \<in># incoming \<longrightarrow> name \<notin> set columns \<longrightarrow> s name = Cell_Null"
  obtain old incoming where rows: "tv_working (V c) = Some (mset old)" "tv_stage (V c) = Some (mset incoming)"
    and v: "V c' = (V c)\<lparr>tv_working := Some (mset (merge_rows val Cell_Null ''merge_target'' ''merge_source''
        (keys_equal ''merge_target'' ''merge_source'' keys)
        (upsert_clauses ''merge_source'' columns (filter (\<lambda>n. n \<notin> set keys) columns)) old incoming))\<rparr>"
    using understands_calls(3) [OF U read_merge [folded upsert_clauses_def] m] name o by (auto simp: duckdb_runs_def)
  have "merge_rows val Cell_Null ''merge_target'' ''merge_source'' (keys_equal ''merge_target'' ''merge_source'' keys)
        (upsert_clauses ''merge_source'' columns (filter (\<lambda>n. n \<notin> set keys) columns)) old incoming
      = merge_lists val keys columns old incoming"
    by (rule merge_rows_upsert) (use null rows(2) in auto)
  then show "\<exists>old incoming new. tv_working (V c) = Some old \<and> tv_stage (V c) = Some incoming
        \<and> merged_into val keys columns old incoming new \<and> V c' = (V c)\<lparr>tv_working := Some new\<rparr>"
    using rows v merge_lists_merged [of val keys columns old incoming] by auto
qed

text \<open>A row of a batch holds nothing outside the batch's columns.\<close>

lemma batch_row_null: "name \<notin> set (batch_columns b) \<Longrightarrow> batch_row b i name = Cell_Null"
  using index_of_None_iff [of "rb_schema b" name] by (simp add: batch_row_def batch_columns_def)

lemma batches_rows_null:
  assumes "s \<in># batches_rows bs" "\<forall>b\<in>set bs. set (batch_columns b) = names" "name \<notin> names"
  shows "s name = Cell_Null"
proof -
  have "\<exists>b\<in>set bs. s \<in># batch_rows b" using assms(1) by (induction bs) (auto simp: batches_rows_def)
  then show ?thesis using assms(2,3) batch_row_null [of name] by (auto simp: batch_rows_def)
qed

lemma merge_transaction_cases:
  assumes K: "duckdb_keeps Q V" "duckdb_understands Q V val (dt_dataset table) stage" and name: "stage \<noteq> dt_dataset table"
    and columns: "\<forall>b\<in>set bs. set (batch_columns b) = af_name ` set (dm_destination_schema w)"
    and w: "merging V table keys stage old bs w" and t: "merge_transaction Q w = (r, c)"
  shows "case r of
      Inl fail \<Rightarrow> wx_committed_chunks fail = 0 \<and> tv_committed (V c) = old
    | Inr updated \<Rightarrow> merge_done val keys (map af_name (dm_destination_schema w)) old (batches_rows bs) (tv_committed (V c))
        \<and> (\<exists>rows. old = Some rows \<and> updated = size (matched_rows val keys rows (batches_rows bs)))"
proof -
  let ?s = "quote_identifier stage" and ?q = "quote_identifier (dt_dataset table)" and ?ks = "map quote_identifier keys"
    and ?columns = "map af_name (dm_destination_schema w)"
  let ?zero = "\<lambda>fail c'. wx_committed_chunks fail = 0 \<and> tv_committed (V c') = old"
  have names: "merge_stage_reference w = ?s" "dm_merge_keys w = keys" "quoted_dataset (dm_table w) = ?q"
    and view: "tv_open (V (dm_db w))" "tv_committed (V (dm_db w)) = old" "tv_working (V (dm_db w)) = old"
      "tv_stage (V (dm_db w)) = Some (batches_rows bs)" "?columns = tv_columns (V (dm_db w))"
    using w by (simp_all add: merging_def merge_stage_reference_def quoted_dataset_def)
  have zero: "wx_committed_chunks (merge_failure w action e) = 0" "wx_committed_chunks (duplicate_keys_failure w n) = 0" for action e n
    by (simp_all add: merge_failure_def duplicate_keys_failure_def write_failure_atomic_def)
  obtain x c1 where x: "du_count Q (colliding_records_sql ?s ?ks) (dm_db w) = (x, c1)" by fastforce
  note x1 = keeps_calls(8) [OF K(1) x read_colliding looking(1)]
  show ?thesis
  proof (cases x)
    case (Inl e)
    then show ?thesis using t x x1 view(2) zero by (auto simp: merge_transaction_def names Let_def)
  next
    case (Inr n)
    have v1: "V c1 = V (dm_db w)" by (rule keeps_calls(9) [OF K(1) x [unfolded Inr] read_colliding looking(1)])
    have n: "n = size (colliding_rows val keys (batches_rows bs))"
      using merges_calls(1) [OF K(2) name x [unfolded Inr]] view(4) by simp
    show ?thesis
    proof (cases "n = 0")
      case False
      then show ?thesis using t x Inr v1 view(2) zero by (auto simp: merge_transaction_def names Let_def)
    next
      case True
      obtain y c2 where y: "du_count Q (matched_records_sql ?s ?q ?ks) c1 = (y, c2)" by fastforce
      note y1 = keeps_calls(8) [OF K(1) y read_matched looking(2)]
      show ?thesis
      proof (cases y)
        case (Inl e)
        then show ?thesis using t x y \<open>x = Inr n\<close> True y1 v1 view(2) zero by (auto simp: merge_transaction_def names Let_def)
      next
        case (Inr updated)
        have v2: "V c2 = V (dm_db w)" using keeps_calls(9) [OF K(1) y [unfolded Inr] read_matched looking(2)] v1 by simp
        obtain rows where rows: "old = Some rows" "updated = size (matched_rows val keys rows (batches_rows bs))"
          using merges_calls(2) [OF K(2) name y [unfolded Inr]] v1 view by auto
        have statement: "read_duckdb (merge_statement w) = Some (Merge_Rows [dt_dataset table] ''merge_target'' [''temp'', ''main'', stage]
            ''merge_source'' (keys_equal ''merge_target'' ''merge_source'' keys)
            (upsert_clauses ''merge_source'' ?columns (filter (\<lambda>n. n \<notin> set keys) ?columns)))"
          unfolding merge_statement_def Let_def names by (rule read_merge [folded upsert_clauses_def])
        obtain z c3 where z: "du_execute_batch Q (merge_statement w) c2 = (z, c3)" by fastforce
        show ?thesis
        proof (cases z)
          case (Inl e)
          then show ?thesis
            using t x y z \<open>x = Inr n\<close> True \<open>y = Inr updated\<close> keeps_calls(7) [OF K(1) z [unfolded Inl] statement] v2 view(2) zero
            by (auto simp: merge_transaction_def names Let_def)
        next
          case (Inr u)
          have "\<exists>old incoming new. tv_working (V c2) = Some old \<and> tv_stage (V c2) = Some incoming
              \<and> merged_into val keys ?columns old incoming new \<and> V c3 = (V c2)\<lparr>tv_working := Some new\<rparr>"
          proof (rule merges_calls(3) [OF K(2) name, of keys ?columns c2 u c3])
            show "du_execute_batch Q (merge_sql ?q ?s ?ks (map quote_identifier ?columns)
                (map quote_identifier (filter (\<lambda>name. name \<notin> set keys) ?columns))) c2 = (Inr u, c3)"
              using z Inr by (simp add: merge_statement_def names Let_def)
          qed (use v2 view(1,4) batches_rows_null [OF _ columns] in auto)
          then obtain new where new: "merged_into val keys ?columns rows (batches_rows bs) new" "V c3 = (V c2)\<lparr>tv_working := Some new\<rparr>"
            using v2 view rows n True by auto
          obtain a c4 where a: "du_execute_batch Q ''COMMIT'' c3 = (a, c4)" by fastforce
          show ?thesis
          proof (cases a)
            case (Inl e)
            then show ?thesis
              using t x y z a \<open>x = Inr n\<close> True \<open>y = Inr updated\<close> \<open>z = Inr u\<close> keeps_calls(7) [OF K(1) a [unfolded Inl] read_transaction(2)] v2 new(2) view(2) zero
              by (auto simp: merge_transaction_def names Let_def)
          next
            case (Inr u')
            have "tv_open (V c3)" using new(2) v2 view(1) by simp
            from transacts_calls(2) [OF K(2) a [unfolded Inr] this] have "tv_committed (V c4) = Some new" using new(2) by simp
            then have "merge_done val keys ?columns old (batches_rows bs) (tv_committed (V c4))"
              using new(1) rows(1) n True by (auto simp: merge_done_def)
            then show ?thesis
              using t x y z a \<open>x = Inr n\<close> True \<open>y = Inr updated\<close> \<open>z = Inr u\<close> Inr rows
              by (auto simp: merge_transaction_def names Let_def)
          qed
        qed
      qed
    qed
  qed
qed

lemma merge_commit_cases:
  assumes K: "duckdb_keeps Q V" "duckdb_understands Q V val (dt_dataset table) stage" and name: "stage \<noteq> dt_dataset table"
    and columns: "\<forall>b\<in>set bs. set (batch_columns b) = af_name ` set (dm_destination_schema w)"
    and w: "merging V table keys stage old bs w" and c: "duckdb_merge_commit Q w = (r, w')"
  shows "case r of
      Inr dw \<Rightarrow> merge_done val keys (map af_name (dm_destination_schema w)) old (batches_rows bs) (tv_committed (V (dm_db w')))
        \<and> (\<exists>rows updated. old = Some rows \<and> updated = size (matched_rows val keys rows (batches_rows bs))
             \<and> dw_facts dw = with_merge_counts (facts_atomic ''transactional_merge'') updated (size (batches_rows bs) - updated))
    | Inl fail \<Rightarrow> wx_committed_chunks fail = 0 \<and> tv_committed (V (dm_db w')) = old
        \<or> wx_committed_chunks fail = length bs
          \<and> merge_done val keys (map af_name (dm_destination_schema w)) old (batches_rows bs) (tv_committed (V (dm_db w')))"
proof -
  obtain x c1 where x: "merge_transaction Q w = (x, c1)" by fastforce
  note t = merge_transaction_cases [OF K name columns w x]
  show ?thesis
  proof (cases x)
    case (Inl fail)
    then show ?thesis using c x t keeps_calls(11) [OF K(1), of c1] by (auto simp: duckdb_merge_commit_def)
  next
    case (Inr updated)
    obtain y c2 where y: "du_close Q c1 = (y, c2)" by fastforce
    have k: "tv_committed (V c2) = tv_committed (V c1)" "tv_committed (V (du_drop Q c2)) = tv_committed (V c2)"
      using keeps_calls(10) [OF K(1) y] keeps_calls(11) [OF K(1), of c2] by simp_all
    show ?thesis
      using c x t Inr y k w by (cases y) (auto simp: duckdb_merge_commit_def merging_def size_batches_rows)
  qed
qed

lemma duckdb_merge_run:
  assumes K: "duckdb_contract Q V val (dt_dataset (dm_table w)) (merge_stage_name token)"
    and name: "merge_stage_name token \<noteq> dt_dataset (dm_table w)"
    and opened: "duckdb_merge_begin Q token w = (Inr (), us_world st)"
    and run: "run_serial_write_phase policy (duckdb_merge_ops A Q token) chunks st = (r, st')"
    and batches: "\<forall>b. Inr b \<in> set chunks \<longrightarrow> rectangular b"
  shows "let old = tv_committed (V (dm_db w)); new = tv_committed (V (dm_db (us_world st')));
      columns = map af_name (dm_destination_schema (us_world st)) in case r of
      Inr outcome \<Rightarrow> \<exists>bs rows updated. chunks = map Inr bs \<and> old = Some rows
        \<and> (\<forall>b\<in>set bs. set (batch_columns b) = set columns)
        \<and> merge_done val (dm_merge_keys w) columns old (batches_rows bs) new
        \<and> updated = size (matched_rows val (dm_merge_keys w) rows (batches_rows bs))
        \<and> wo_facts outcome = with_merge_counts (facts_atomic ''transactional_merge'') updated (size (batches_rows bs) - updated)
    | Inl (In_Session fail) \<Rightarrow> wx_committed_chunks fail = 0 \<and> new = old
        \<or> (\<exists>bs. chunks = map Inr bs \<and> wx_committed_chunks fail = length bs
             \<and> (\<forall>b\<in>set bs. set (batch_columns b) = set columns)
             \<and> merge_done val (dm_merge_keys w) columns old (batches_rows bs) new)
    | Inl (Before_Session fail) \<Rightarrow> False"
proof -
  let ?stage = "merge_stage_name token" and ?dataset = "dt_dataset (dm_table w)"
  have K': "duckdb_keeps Q V" "duckdb_understands Q V val ?dataset ?stage" using K by (simp_all add: duckdb_contract_def)
  let ?D = "duckdb_merge_ops A Q token" and ?old = "tv_committed (V (dm_db w))"
    and ?schema = "dm_destination_schema (us_world st)" and ?keys = "dm_merge_keys w"
  define P where "P bs w' \<longleftrightarrow> ((\<forall>b\<in>set bs. rectangular b) \<longrightarrow>
    merging V (dm_table w) ?keys ?stage ?old bs w' \<and> dm_destination_schema w' = ?schema
      \<and> (\<forall>b\<in>set bs. set (batch_columns b) = af_name ` set ?schema))" for bs w'
  have start: "P [] (us_world st)" using merge_begin_merging [OF K' name opened] by (simp add: P_def)
  have schema: "dm_destination_schema w'' = dm_destination_schema w'" if "duckdb_merge_write A Q b w' = (x, w'')" for b w' x w''
    using that by (auto simp: duckdb_merge_write_def split: prod.splits sum.splits)
  have step: "P (bs @ [b]) w''" if "P bs w'" "d_write_chunk ?D b w' = (Inr (), w'')" for bs b w' w''
    using that merge_write_merging [OF K'(2) name, of ?keys ?old bs w' b A w''] schema [of b w' "Inr ()" w'']
    by (auto simp: P_def duckdb_merge_ops_def)
  have terminal: "wx_transience fail = Terminal" if "fst (d_write_chunk ?D b w') = Inl fail" for b w' fail
    using that by (simp add: duckdb_merge_ops_def merge_terminal)
  have rect: "rectangular b" if "take k chunks = map Inr bs @ xs" "b \<in> set bs" for k bs xs b
  proof -
    have "Inr b \<in> set (take k chunks)" using that by simp
    from in_set_takeD [OF this] show ?thesis using batches by simp
  qed
  have run': "run_serial_from policy ?D 0 chunks st = (r, st')" using run by (simp add: run_serial_write_phase_def)
  from step terminal run' start show ?thesis
  proof (rule serial_run_cases)
    fix bs st''
    assume c: "chunks = map Inr bs" "P ([] @ bs) (us_world st'')" "(r, st') = commit_session ?D (0 + length chunks) st''"
    then have p: "merging V (dm_table w) ?keys ?stage ?old bs (us_world st'')" "dm_destination_schema (us_world st'') = ?schema"
      "\<forall>b\<in>set bs. set (batch_columns b) = af_name ` set ?schema"
      using rect [of "length chunks" bs "[]"] by (auto simp: P_def)
    obtain x w' where x: "duckdb_merge_commit Q (us_world st'') = (x, w')" by fastforce
    show ?thesis
      using merge_commit_cases [OF K' name _ p(1) x] c(1,3) x p(2,3)
      by (cases x) (auto simp: commit_session_def duckdb_merge_ops_def Let_def)
  next
    fix bs w' src
    assume c: "take (length bs + 1) chunks = map Inr bs @ [Inl src]" "P ([] @ bs) w'"
      "r = Inl (In_Session \<lparr>wx_failure = src, wx_facts = aw_facts (fst (d_abandon ?D w')),
         wx_written_records = aw_written_records (fst (d_abandon ?D w')),
         wx_committed_chunks = aw_committed_chunks (fst (d_abandon ?D w')), wx_transience = Terminal\<rparr>)"
      "us_world st' = snd (d_abandon ?D w')"
    have "merging V (dm_table w) ?keys ?stage ?old bs w'" using c(2) rect [OF c(1)] by (simp add: P_def)
    then show ?thesis
      using c(3,4) keeps_calls(11) [OF K'(1)]
      by (simp add: duckdb_merge_ops_def duckdb_merge_abandon_def duckdb_merge_drop_def nothing_written_def merging_def)
  next
    fix bs b w' w'' fail
    assume c: "take (length bs + 1) chunks = map Inr (bs @ [b])" "P ([] @ bs) w'" "d_write_chunk ?D b w' = (Inl fail, w'')"
      "r = Inl (In_Session fail)" "us_world st' = d_drop ?D w''"
    have "merging V (dm_table w) ?keys ?stage ?old bs w'" using c(1,2) rect [of "length bs + 1" bs "[Inr b]"] by (simp add: P_def)
    then show ?thesis
      using c(3-5) merge_write_failed [OF K'(1), of A b w' fail w''] keeps_calls(11) [OF K'(1)]
      by (simp add: duckdb_merge_ops_def duckdb_merge_drop_def merging_def)
  qed
qed

end
