(* ===== verification/Duckdb_Reference.thy ===== *)
theory Duckdb_Reference
  imports Duckdb_Facts
begin

section \<open>A connection that keeps the DuckDB contract\<close>

text \<open>
  One database with one table and one stage, as lists of rows: it reads every text it is given
  and runs what it reads on these two, by the meaning of the statements; a text or a statement it
  does not know it refuses. It keeps \<open>duckdb_contract\<close>, so the contract can hold.
\<close>

record table_lists =
  tl_committed :: "row list option"
  tl_working :: "row list option"
  tl_columns :: "string list"
  tl_stage :: "row list option"
  tl_open :: bool

definition lists_view :: "table_lists \<Rightarrow> table_view" where
  "lists_view s = \<lparr>tv_committed = map_option mset (tl_committed s), tv_working = map_option mset (tl_working s),
     tv_columns = tl_columns s, tv_stage = map_option mset (tl_stage s), tv_open = tl_open s\<rparr>"

definition batch_row_list :: "record_batch \<Rightarrow> row list" where
  "batch_row_list b = map (batch_row b) [0..<rb_rows b]"

definition refuse :: "'c \<Rightarrow> (string, 'a) result \<times> 'c" where
  "refuse s = (Inl ''refused'', s)"

definition lists_at :: "place \<Rightarrow> table_lists \<Rightarrow> row list option" where
  "lists_at p s = (case p of Target \<Rightarrow> if tl_open s then tl_working s else tl_committed s | Staged \<Rightarrow> tl_stage s)"

definition put_lists :: "place \<Rightarrow> row list \<Rightarrow> table_lists \<Rightarrow> table_lists" where
  "put_lists p rows s = (case p of
     Target \<Rightarrow> if tl_open s then s\<lparr>tl_working := Some rows\<rparr> else s\<lparr>tl_committed := Some rows\<rparr>
   | Staged \<Rightarrow> s\<lparr>tl_stage := Some rows\<rparr>)"

text \<open>A table named in a statement, and its rows.\<close>

definition found_lists :: "string \<Rightarrow> string \<Rightarrow> sql_object \<Rightarrow> table_lists \<Rightarrow> (place \<times> row list) option" where
  "found_lists dataset stage ob s = (case duckdb_place dataset stage ob of
     None \<Rightarrow> None | Some p \<Rightarrow> map_option (Pair p) (lists_at p s))"

definition finished :: "'c \<Rightarrow> (string, unit) result \<times> 'c" where
  "finished s = (Inr (), s)"

definition ref_creates ::
  "string \<Rightarrow> string \<Rightarrow> record_batch option \<Rightarrow> creation \<Rightarrow> bool \<Rightarrow> sql_object \<Rightarrow> sql_source \<Rightarrow> table_lists \<Rightarrow> (string, unit) result \<times> table_lists" where
  "ref_creates dataset stage args how temporary ob source s =
     (case (source, args) of
        (Arrow_Rows, Some b) \<Rightarrow>
          if how = Create_Or_Replace \<and> \<not> temporary \<and> ob = [dataset]
          then finished ((put_lists Target (batch_row_list b) s)\<lparr>tl_columns := batch_columns b\<rparr>) else refuse s
      | (Rows_Of other limit, None) \<Rightarrow>
          if how = Create_New \<and> temporary \<and> stage \<noteq> dataset \<and> ob = [stage] \<and> other = [dataset] then
            (case lists_at Target s of
               None \<Rightarrow> refuse s
             | Some rows \<Rightarrow> finished (put_lists Staged (case limit of None \<Rightarrow> rows | Some n \<Rightarrow> take n rows) s))
          else refuse s
      | _ \<Rightarrow> refuse s)"

definition ref_runs ::
  "(cell \<Rightarrow> 'v option) \<Rightarrow> string \<Rightarrow> string \<Rightarrow> record_batch option \<Rightarrow> sql_statement \<Rightarrow> table_lists \<Rightarrow> (string, unit) result \<times> table_lists" where
  "ref_runs val dataset stage args st s = (case st of
     Begin_Transaction \<Rightarrow> finished (s\<lparr>tl_working := tl_committed s, tl_open := True\<rparr>)
   | Commit_Transaction \<Rightarrow> if tl_open s then finished (s\<lparr>tl_committed := tl_working s, tl_open := False\<rparr>) else refuse s
   | Create_As how temporary ob source \<Rightarrow> ref_creates dataset stage args how temporary ob source s
   | Insert_Rows by_name ob source \<Rightarrow>
       (case (found_lists dataset stage ob s, args) of
          (Some (p, old), Some b) \<Rightarrow>
            if source = Arrow_Rows \<and> columns_fit by_name (batch_columns b) (tl_columns s)
            then finished (put_lists p (old @ batch_row_list b) s) else refuse s
        | _ \<Rightarrow> refuse s)
   | Merge_Rows ob a source b cond cs \<Rightarrow>
       (case (found_lists dataset stage ob s, found_lists dataset stage source s) of
          (Some (p, old), Some (_, incoming)) \<Rightarrow> finished (put_lists p (merge_rows val Cell_Null a b cond cs old incoming) s)
        | _ \<Rightarrow> refuse s)
   | _ \<Rightarrow> refuse s)"

definition ref_executes ::
  "(cell \<Rightarrow> 'v option) \<Rightarrow> string \<Rightarrow> string \<Rightarrow> record_batch option \<Rightarrow> string \<Rightarrow> table_lists \<Rightarrow> (string, unit) result \<times> table_lists" where
  "ref_executes val dataset stage args sql s = (case read_duckdb sql of
     None \<Rightarrow> refuse s | Some st \<Rightarrow> ref_runs val dataset stage args st s)"

definition ref_count ::
  "(cell \<Rightarrow> 'v option) \<Rightarrow> string \<Rightarrow> string \<Rightarrow> string \<Rightarrow> table_lists \<Rightarrow> (string, nat) result \<times> table_lists" where
  "ref_count val dataset stage sql s = (case read_duckdb sql of
     Some (Count_Peers ns ob op k) \<Rightarrow>
       (case found_lists dataset stage ob s of
          Some (_, rows) \<Rightarrow> (Inr (peer_count val ns op k rows), s) | None \<Rightarrow> refuse s)
   | Some (Count_Related ob a other b cond) \<Rightarrow>
       (case (found_lists dataset stage ob s, found_lists dataset stage other s) of
          (Some (_, rows), Some (_, others)) \<Rightarrow> (Inr (related_count val a b cond rows others), s)
        | _ \<Rightarrow> refuse s)
   | _ \<Rightarrow> refuse s)"

definition ref_schema ::
  "string \<Rightarrow> string \<Rightarrow> arrow_field list \<Rightarrow> string \<Rightarrow> table_lists \<Rightarrow> (string, arrow_field list) result \<times> table_lists" where
  "ref_schema dataset stage schema sql s = (case read_duckdb sql of
     Some (Select_Rows (Rows_Of ob _)) \<Rightarrow>
       if duckdb_place dataset stage ob = Some Target then (Inr schema, s\<lparr>tl_columns := map af_name schema\<rparr>) else refuse s
   | _ \<Rightarrow> refuse s)"

definition reference_duckdb ::
  "(cell \<Rightarrow> 'v option) \<Rightarrow> string \<Rightarrow> string \<Rightarrow> arrow_field list \<Rightarrow> table_lists duckdb" where
  "reference_duckdb val dataset stage schema =
     \<lparr>du_prepare_parent = (\<lambda>_ s. (Inr (), s)),
      du_open = (\<lambda>_ s. (Inr (), s\<lparr>tl_open := False\<rparr>)),
      du_register = (\<lambda>s. (Inr (), s)),
      du_schema = ref_schema dataset stage schema,
      du_execute = (\<lambda>sql b. ref_executes val dataset stage (Some b) sql),
      du_execute_batch = ref_executes val dataset stage None,
      du_count = ref_count val dataset stage,
      du_close = (\<lambda>s. (Inr (), s)),
      du_drop = (\<lambda>s. s\<lparr>tl_working := None, tl_stage := None, tl_open := False\<rparr>)\<rparr>"

subsection \<open>The contract\<close>

lemma mset_batch_row_list [simp]: "mset (batch_row_list b) = batch_rows b"
  by (simp add: batch_row_list_def batch_rows_def)

lemma lists_view_sel [simp]:
  "tv_committed (lists_view s) = map_option mset (tl_committed s)" "tv_working (lists_view s) = map_option mset (tl_working s)"
  "tv_columns (lists_view s) = tl_columns s" "tv_stage (lists_view s) = map_option mset (tl_stage s)"
  "tv_open (lists_view s) = tl_open s"
  by (simp_all add: lists_view_def)

lemma lists_view_updates:
  "lists_view (s\<lparr>tl_committed := c\<rparr>) = (lists_view s)\<lparr>tv_committed := map_option mset c\<rparr>"
  "lists_view (s\<lparr>tl_working := c\<rparr>) = (lists_view s)\<lparr>tv_working := map_option mset c\<rparr>"
  "lists_view (s\<lparr>tl_columns := cs\<rparr>) = (lists_view s)\<lparr>tv_columns := cs\<rparr>"
  "lists_view (s\<lparr>tl_stage := c\<rparr>) = (lists_view s)\<lparr>tv_stage := map_option mset c\<rparr>"
  "lists_view (s\<lparr>tl_open := o'\<rparr>) = (lists_view s)\<lparr>tv_open := o'\<rparr>"
  by (simp_all add: lists_view_def)

lemma reference_sel [simp]:
  "du_prepare_parent (reference_duckdb val dataset stage schema) path s = (Inr (), s)"
  "du_open (reference_duckdb val dataset stage schema) path s = (Inr (), s\<lparr>tl_open := False\<rparr>)"
  "du_register (reference_duckdb val dataset stage schema) s = (Inr (), s)"
  "du_schema (reference_duckdb val dataset stage schema) = ref_schema dataset stage schema"
  "du_execute (reference_duckdb val dataset stage schema) sql b = ref_executes val dataset stage (Some b) sql"
  "du_execute_batch (reference_duckdb val dataset stage schema) = ref_executes val dataset stage None"
  "du_count (reference_duckdb val dataset stage schema) = ref_count val dataset stage"
  "du_close (reference_duckdb val dataset stage schema) s = (Inr (), s)"
  "du_drop (reference_duckdb val dataset stage schema) s = s\<lparr>tl_working := None, tl_stage := None, tl_open := False\<rparr>"
  by (simp_all add: reference_duckdb_def)

lemma lists_view_at: "rows_at p (lists_view s) = map_option mset (lists_at p s)"
  by (cases p) (simp_all add: lists_at_def)

lemma lists_view_put: "lists_view (put_lists p rows s) = with_rows p (mset rows) (lists_view s)"
  by (cases p) (simp_all add: put_lists_def lists_view_updates)

lemma found_lists_Some: "found_lists dataset stage ob s = Some (p, rows) \<Longrightarrow>
    duckdb_place dataset stage ob = Some p \<and> rows_at p (lists_view s) = Some (mset rows)"
  by (auto simp: found_lists_def lists_view_at split: option.splits)

lemma ref_refuses: "\<not> is_ok (fst (ref_executes val dataset stage args sql s)) \<Longrightarrow> snd (ref_executes val dataset stage args sql s) = s"
  by (auto simp: ref_executes_def ref_runs_def ref_creates_def refuse_def finished_def split: option.splits sql_statement.splits sql_source.splits)

lemma reference_keeps: "duckdb_keeps (reference_duckdb val dataset stage schema) lists_view"
  by (auto simp: duckdb_keeps_def ref_refuses ref_schema_def ref_count_def refuse_def lists_view_def
      split: option.splits sql_statement.splits sql_source.splits)

lemma finished_iff [simp]: "finished s = (Inr (), s') \<longleftrightarrow> s' = s" "refuse s = (Inr x, s') \<longleftrightarrow> False"
  by (auto simp: finished_def refuse_def)

lemma mset_take_sub: "mset (take n xs) \<subseteq># mset xs"
  by (metis append_take_drop_id mset_append mset_subset_eq_add_left)

lemma ref_creates_creates:
  assumes "ref_creates dataset stage args how temporary ob source s = (Inr (), s')"
  shows "duckdb_creates dataset stage args how temporary ob source (lists_view s) (lists_view s')"
proof (cases source)
  case Arrow_Rows
  then show ?thesis
    using assms by (auto simp: ref_creates_def duckdb_creates_def lists_view_put lists_view_updates
        simp del: rows_at.simps with_rows.simps split: option.splits if_splits)
next
  case (Rows_Of other limit)
  then obtain rows where r: "lists_at Target s = Some rows" "how = Create_New"
    "s' = put_lists Staged (case limit of None \<Rightarrow> rows | Some n \<Rightarrow> take n rows) s"
    using assms by (auto simp: ref_creates_def split: option.splits if_splits)
  let ?taken = "mset (case limit of None \<Rightarrow> rows | Some n \<Rightarrow> take n rows)"
  have "?taken \<subseteq># mset rows" "size ?taken = (case limit of None \<Rightarrow> size (mset rows) | Some n \<Rightarrow> min n (size (mset rows)))"
    by (simp_all add: mset_take_sub min.commute split: option.split)
  then show ?thesis
    using Rows_Of r by (auto simp: duckdb_creates_def lists_view_put lists_view_at simp del: rows_at.simps with_rows.simps)
qed

lemma ref_runs_runs:
  assumes "ref_runs val dataset stage args st s = (Inr (), s')"
  shows "duckdb_runs val dataset stage args st (lists_view s) (lists_view s')"
proof (cases st)
  case (Create_As how temporary ob source)
  then show ?thesis using assms ref_creates_creates by (simp add: ref_runs_def duckdb_runs_def)
next
  case (Insert_Rows by_name ob source)
  then obtain p old b where f: "found_lists dataset stage ob s = Some (p, old)" "args = Some b"
    "s' = put_lists p (old @ batch_row_list b) s"
    using assms by (auto simp: ref_runs_def split: option.splits if_splits)
  then show ?thesis using Insert_Rows found_lists_Some [OF f(1)] by (simp add: duckdb_runs_def lists_view_put)
next
  case (Merge_Rows ob a source b cond cs)
  then obtain p old q incoming where f: "found_lists dataset stage ob s = Some (p, old)"
    "found_lists dataset stage source s = Some (q, incoming)"
    "s' = put_lists p (merge_rows val Cell_Null a b cond cs old incoming) s"
    using assms by (auto simp: ref_runs_def split: option.splits)
  then show ?thesis
    using Merge_Rows found_lists_Some [OF f(1)] found_lists_Some [OF f(2)] by (auto simp: duckdb_runs_def lists_view_put)
qed (use assms in \<open>auto simp: ref_runs_def duckdb_runs_def lists_view_updates split: if_splits\<close>)

lemma ref_count_counts:
  assumes "ref_count val dataset stage sql s = (Inr n, s')" "read_duckdb sql = Some st"
  shows "duckdb_counts val dataset stage st (lists_view s) n"
proof (cases st)
  case (Count_Related ob a other b cond)
  then obtain p rows q others where f: "found_lists dataset stage ob s = Some (p, rows)"
    "found_lists dataset stage other s = Some (q, others)" "n = related_count val a b cond rows others"
    using assms by (auto simp: ref_count_def split: option.splits)
  then show ?thesis
    using Count_Related found_lists_Some [OF f(1)] found_lists_Some [OF f(2)] by (auto simp: duckdb_counts_def)
qed (use assms in \<open>auto simp: ref_count_def duckdb_counts_def split: option.splits dest!: found_lists_Some\<close>)

lemma reference_duckdb_contract:
  assumes "distinct (map af_name schema)"
  shows "duckdb_contract (reference_duckdb val dataset stage schema) lists_view val dataset stage"
proof -
  have "duckdb_understands (reference_duckdb val dataset stage schema) lists_view val dataset stage"
    unfolding duckdb_understands_def
    using assms ref_runs_runs ref_count_counts
    by (auto simp: ref_schema_def ref_executes_def split: if_splits)
  then show ?thesis using reference_keeps by (simp add: duckdb_contract_def)
qed

end
