(* ===== verification/Load_Run.thy ===== *)
theory Load_Run
  imports Destination_Factory Stream_Csv Stream_Jsonl
begin

section \<open>A load, from its definition to its report\<close>

text \<open>
  \<open>src/lib.rs\<close>, lines 70 to 213, 389 to 460, 588 to 770, 843 to 1075 and 1217 to 1270: the
  orchestration of one load and its report. What a load reads of its surroundings is a record:
  the libraries of the other theories, the environment, the source file as pass 1 and as pass 2
  find it, and the session of each destination in each load mode over a world \<open>'s\<close>. Everything before the write
  phase is a function, the write phase a relation, and so is the load. \<open>None\<close> is the panic of
  the spill merge.
\<close>

record ('d, 't, 's) load_world =
  lw_chrono :: "('d, 't) chrono"
  lw_text :: json_text
  lw_yaml :: yaml
  lw_csv :: csv_library
  lw_arrow :: arrow
  lw_env :: "string \<Rightarrow> string option"
  lw_source :: "string \<Rightarrow> source_file"
  lw_source_again :: "string \<Rightarrow> source_file"
  lw_destination :: "destination \<Rightarrow> load_mode \<Rightarrow> 's destination_ops"
  lw_definition :: "string \<Rightarrow> (string, load_definition) result"
  lw_binary_version :: string

record row_counts =
  rw_source :: nat
  rw_written :: nat
  rw_rejected :: nat

record byte_counts =
  yc_source :: "nat option"
  yc_destination :: "nat option"

record execution_details =
  xd_source_summary :: json
  xd_destination_summary :: json
  xd_dataset :: "string option"
  xd_load_mode :: string
  xd_merge :: json
  xd_schema_decision :: json
  xd_row_counts :: row_counts
  xd_byte_counts :: byte_counts
  xd_rejected_count :: nat
  xd_destination_write :: write_facts
  xd_execution :: json

record reportable_failure =
  rf_source_summary :: json
  rf_destination_summary :: json
  rf_dataset :: "string option"
  rf_load_mode :: string
  rf_merge :: json
  rf_schema_decision :: json
  rf_source_rows :: nat
  rf_written_records :: nat
  rf_rejected_count :: nat
  rf_committed_execution :: "committed_execution option"
  rf_retry :: "json option"
  rf_destination_write :: write_facts
  rf_code :: string
  rf_message :: msg

subsection \<open>Validation, in the order of its precedence\<close>

record load_plan =
  lp_source :: source_definition
  lp_destination_definition :: destination_definition
  lp_port :: local_file_source
  lp_destination :: destination
  lp_mode :: load_mode
  lp_merge_keys :: "string list"

definition validate_definition ::
  "(string \<Rightarrow> string option) \<Rightarrow> load_definition \<Rightarrow> (load_failure, load_plan) result" where
  "validate_definition env def =
     rbind (ok_or (ld_source def) (failure ''missing_source'' [Lit ''load definition source is required''])) (\<lambda>source.
     rbind (ok_or (ld_destination def) (failure ''missing_destination'' [Lit ''load definition destination is required''])) (\<lambda>destination_def.
     rbind (parse_load_mode (default_load_mode (ld_load_mode def))) (\<lambda>mode.
     rbind (validate_merge_config mode (ld_merge def)) (\<lambda>merge_keys.
     rbind (source_connector source) (\<lambda>port.
     rbind (destination_connector env destination_def (ld_dataset def) merge_keys) (\<lambda>destination.
     rbind (validate_destination_mode destination mode) (\<lambda>_.
       Inr \<lparr>lp_source = source, lp_destination_definition = destination_def, lp_port = port,
            lp_destination = destination, lp_mode = mode, lp_merge_keys = merge_keys\<rparr>)))))))"

definition resolved_pre_write_failure :: "load_failure \<Rightarrow> json \<Rightarrow> nat \<Rightarrow> nat \<Rightarrow> execution_failure" where
  "resolved_pre_write_failure fail schema_decision source_rows rejected_count =
     \<lparr>ef_failure = fail, ef_schema_decision = Some schema_decision, ef_source_rows = Some source_rows,
      ef_written_records = 0, ef_rejected_count = rejected_count, ef_committed_execution = None,
      ef_retry = None, ef_destination_write = facts_not_applicable\<rparr>"

definition reject_threshold :: "load_definition \<Rightarrow> nat" where
  "reject_threshold def = knob (ld_reject_threshold def) 0"

text \<open>After the read: the threshold gate, then the pin.\<close>

definition gate_load ::
  "load_definition \<Rightarrow> source_read \<Rightarrow> text_fs \<Rightarrow> (execution_failure, unit) result \<times> text_fs" where
  "gate_load def sr f =
     (if reject_threshold def < sr_rejected_count sr then
        (Inl (resolved_pre_write_failure
           (reject_threshold_failure (sr_rejected_count sr) (sr_source_rows sr) (reject_threshold def))
           (sr_schema_decision sr) (sr_source_rows sr) (sr_rejected_count sr)), f)
      else
        (case sr_pinned_schema_write sr of
           None \<Rightarrow> (Inr (), f)
         | Some pin \<Rightarrow> apfst (map_err (\<lambda>fail. resolved_pre_write_failure fail (sr_schema_decision sr)
             (sr_source_rows sr) (sr_rejected_count sr))) (persist_pinned_schema pin f)))"

definition read_load ::
  "('d, 't, 's) load_world \<Rightarrow> load_definition \<Rightarrow> load_plan \<Rightarrow> schema_directive \<Rightarrow> rejection_sink \<Rightarrow> text_fs
   \<Rightarrow> ((execution_failure, source_read) result \<times> rejection_sink \<times> text_fs) option" where
  "read_load W def p directive sink f =
     read_source (lw_chrono W) (lw_text W) (lw_yaml W) (lw_csv W) (lw_source W (ls_path (lp_port p))) (lp_port p)
       directive (lp_merge_keys p) (resolve_chunk_rows (ld_execution def)) sink f"

text \<open>Everything before the write phase.\<close>

definition prepare_load ::
  "('d, 't, 's) load_world \<Rightarrow> load_definition \<Rightarrow> rejection_sink \<Rightarrow> text_fs
   \<Rightarrow> ((execution_failure, load_plan \<times> source_read) result \<times> rejection_sink \<times> text_fs) option" where
  "prepare_load W def sink f =
     (case validate_definition (lw_env W) def of
        Inl fail \<Rightarrow> Some (Inl (execution_failure_from fail), sink, f)
      | Inr p \<Rightarrow>
     (case resolve_schema_directive (lw_yaml W) (ld_schema def) (ld_transform def)
             (resolved_source_format (sd_path (lp_source p)) (sd_format (lp_source p))) f of
        (Inl fail, f) \<Rightarrow> Some (Inl (execution_failure_from fail), sink, f)
      | (Inr directive, f) \<Rightarrow>
     (case read_load W def p directive sink f of
        None \<Rightarrow> None
      | Some (Inl fail, sink, f) \<Rightarrow> Some (Inl (apply_pending_reject_threshold (reject_threshold def) fail), sink, f)
      | Some (Inr sr, sink, f) \<Rightarrow>
     (case gate_load def sr f of
        (Inl fail, f) \<Rightarrow> Some (Inl fail, sink, f)
      | (Inr _, f) \<Rightarrow> Some (Inr (p, sr), sink, f)))))"

subsection \<open>The write phase and what the load makes of it\<close>

definition source_items :: "('d, 't, 's) load_world \<Rightarrow> source_chunks \<Rightarrow> (load_failure, record_batch) result list" where
  "source_items W chunks = (case chunks of
     Csv_Chunks c \<Rightarrow> csv_items (lw_chrono W) (lw_arrow W) (lw_csv W) (lw_source_again W (cc_path c)) c
   | Jsonl_Chunks c \<Rightarrow> jsonl_items (lw_chrono W) (lw_arrow W) (lw_text W) (lw_source_again W (jc_path c)) c)"

definition load_parallelism :: "load_definition \<Rightarrow> load_plan \<Rightarrow> nat" where
  "load_parallelism def p = resolve_parallelism (ld_execution def) (parallelism_limit (lp_destination p) (lp_mode p))"

definition write_failure_report ::
  "('d, 't, 's) load_world \<Rightarrow> load_definition \<Rightarrow> load_plan \<Rightarrow> source_read \<Rightarrow> retry_attempt list \<Rightarrow> write_phase_failure
   \<Rightarrow> execution_failure" where
  "write_failure_report W def p sr attempts phase_failure =
     (let policy = resolve_retry_policy (ld_execution def); show_json = jt_print (lw_text W) in
      case phase_failure of
        Before_Session fail \<Rightarrow>
          \<lparr>ef_failure = wx_failure fail, ef_schema_decision = Some (sr_schema_decision sr),
           ef_source_rows = Some (sr_source_rows sr), ef_written_records = wx_written_records fail,
           ef_rejected_count = sr_rejected_count sr, ef_committed_execution = None,
           ef_retry = report_when_attempted show_json policy attempts, ef_destination_write = wx_facts fail\<rparr>
      | In_Session fail \<Rightarrow>
          \<lparr>ef_failure = wx_failure fail, ef_schema_decision = Some (sr_schema_decision sr),
           ef_source_rows = Some (sr_source_rows sr), ef_written_records = wx_written_records fail,
           ef_rejected_count = sr_rejected_count sr,
           ef_committed_execution = Some \<lparr>ce_committed_chunks = wx_committed_chunks fail,
             ce_chunk_rows = resolve_chunk_rows (ld_execution def), ce_parallelism = load_parallelism def p,
             ce_connector_parallelism_limit = parallelism_limit (lp_destination p) (lp_mode p),
             ce_retry = retry_report_value show_json policy attempts\<rparr>,
           ef_retry = None, ef_destination_write = wx_facts fail\<rparr>)"

definition success_details ::
  "('d, 't, 's) load_world \<Rightarrow> load_definition \<Rightarrow> load_plan \<Rightarrow> source_read \<Rightarrow> retry_attempt list \<Rightarrow> write_phase_outcome
   \<Rightarrow> execution_details" where
  "success_details W def p sr attempts outcome =
     \<lparr>xd_source_summary = source_echo (lp_source p), xd_destination_summary = destination_echo (lp_destination_definition p),
      xd_dataset = ld_dataset def, xd_load_mode = default_load_mode (ld_load_mode def), xd_merge = merge_echo (ld_merge def),
      xd_schema_decision = sr_schema_decision sr,
      xd_row_counts = \<lparr>rw_source = sr_source_rows sr, rw_written = sr_source_rows sr - sr_rejected_count sr,
        rw_rejected = sr_rejected_count sr\<rparr>,
      xd_byte_counts = \<lparr>yc_source = Some (sr_source_bytes sr), yc_destination = wo_bytes_written outcome\<rparr>,
      xd_rejected_count = sr_rejected_count sr, xd_destination_write = wo_facts outcome,
      xd_execution = JObj [(''record_format'', JStr ''arrow_record_batch''), (''batch_count'', json_nat (wo_chunk_count outcome)),
        (''chunk_rows'', json_nat (resolve_chunk_rows (ld_execution def))),
        (''parallelism'', json_nat (load_parallelism def p)),
        (''connector_parallelism_limit'', json_nat (parallelism_limit (lp_destination p) (lp_mode p))),
        (''retry'', retry_report_value (jt_print (lw_text W)) (resolve_retry_policy (ld_execution def)) attempts)]\<rparr>"

definition finish_load ::
  "('d, 't, 's) load_world \<Rightarrow> load_definition \<Rightarrow> load_plan \<Rightarrow> source_read \<Rightarrow> retry_attempt list
   \<Rightarrow> (write_phase_failure, write_phase_outcome) result \<Rightarrow> (execution_failure, execution_details) result" where
  "finish_load W def p sr attempts r = (case r of
     Inl phase_failure \<Rightarrow> Inl (write_failure_report W def p sr attempts phase_failure)
   | Inr outcome \<Rightarrow> Inr (success_details W def p sr attempts outcome))"

inductive execute_supported_load ::
  "('d, 't, 's) load_world \<Rightarrow> load_definition \<Rightarrow> rejection_sink \<Rightarrow> text_fs \<Rightarrow> 's
   \<Rightarrow> (execution_failure, execution_details) result \<Rightarrow> rejection_sink \<Rightarrow> text_fs \<Rightarrow> 's \<Rightarrow> bool"
  for W def sink f world where
  load_stopped: "prepare_load W def sink f = Some (Inl fail, sink', f') \<Longrightarrow>
    execute_supported_load W def sink f world (Inl fail) sink' f' world"
| load_written: "prepare_load W def sink f = Some (Inr (p, sr), sink', f') \<Longrightarrow>
    write_phase (resolve_retry_policy (ld_execution def)) (lw_destination W (lp_destination p) (lp_mode p)) (lp_mode p)
      (load_parallelism def p) (source_items W (sr_chunks sr))
      \<lparr>us_world = world, us_attempts = [], us_sleeps = []\<rparr> r st \<Longrightarrow>
    execute_supported_load W def sink f world (finish_load W def p sr (us_attempts st) r) sink' f' (us_world st)"

inductive_cases execute_supported_loadE: "execute_supported_load W def sink f world r sink' f' world'"
inductive_cases write_phaseE: "write_phase policy D mode parallelism chunks st r st'"

subsection \<open>The version gate and the context of a failure\<close>

definition SUPPORTED_LOAD_DEFINITION_VERSION :: nat where
  "SUPPORTED_LOAD_DEFINITION_VERSION = 1"

definition not_evaluated_schema_decision :: json where
  "not_evaluated_schema_decision = JObj [(''mode'', JStr ''not_evaluated'')]"

definition without_context :: "string \<Rightarrow> msg \<Rightarrow> reportable_failure" where
  "without_context code message =
     \<lparr>rf_source_summary = JObj [], rf_destination_summary = JObj [], rf_dataset = None,
      rf_load_mode = ''full_refresh'', rf_merge = JNull, rf_schema_decision = not_evaluated_schema_decision,
      rf_source_rows = 0, rf_written_records = 0, rf_rejected_count = 0, rf_committed_execution = None,
      rf_retry = None, rf_destination_write = facts_not_applicable, rf_code = code, rf_message = message\<rparr>"

text \<open>A failure with the definition's own context around it.\<close>

definition with_context :: "load_definition \<Rightarrow> execution_failure \<Rightarrow> reportable_failure" where
  "with_context def fail =
     \<lparr>rf_source_summary = (case ld_source def of None \<Rightarrow> JObj [] | Some source \<Rightarrow> source_echo source),
      rf_destination_summary = (case ld_destination def of None \<Rightarrow> JObj [] | Some destination \<Rightarrow> destination_echo destination),
      rf_dataset = ld_dataset def, rf_load_mode = default_load_mode (ld_load_mode def), rf_merge = merge_echo (ld_merge def),
      rf_schema_decision = knob (ef_schema_decision fail) not_evaluated_schema_decision,
      rf_source_rows = knob (ef_source_rows fail) 0, rf_written_records = ef_written_records fail,
      rf_rejected_count = ef_rejected_count fail, rf_committed_execution = ef_committed_execution fail,
      rf_retry = ef_retry fail, rf_destination_write = ef_destination_write fail,
      rf_code = lf_code (ef_failure fail), rf_message = lf_message (ef_failure fail)\<rparr>"

definition check_version :: "load_definition \<Rightarrow> (load_failure, unit) result" where
  "check_version def = (case ld_version def of
     None \<Rightarrow> Inl (failure ''missing_load_definition_version'' [Lit ''load definition version is required''])
   | Some version \<Rightarrow>
       if version = SUPPORTED_LOAD_DEFINITION_VERSION then Inr ()
       else Inl (failure ''unsupported_load_definition_version''
         [Lit ''unsupported load definition version: '', Num version]))"

inductive execute_load_definition ::
  "('d, 't, 's) load_world \<Rightarrow> load_definition \<Rightarrow> rejection_sink \<Rightarrow> text_fs \<Rightarrow> 's
   \<Rightarrow> (reportable_failure, execution_details) result \<Rightarrow> rejection_sink \<Rightarrow> text_fs \<Rightarrow> 's \<Rightarrow> bool"
  for W def sink f world where
  version_refused: "check_version def = Inl fail \<Longrightarrow>
    execute_load_definition W def sink f world (Inl (with_context def (execution_failure_from fail))) sink f world"
| version_supported: "check_version def = Inr () \<Longrightarrow> execute_supported_load W def sink f world r sink' f' world' \<Longrightarrow>
    execute_load_definition W def sink f world (map_err (with_context def) r) sink' f' world'"

inductive_cases execute_load_definitionE: "execute_load_definition W def sink f world r sink' f' world'"

end
