(* ===== verification/Load_Report.thy ===== *)
theory Load_Report
  imports Load_Run
begin

section \<open>The load report\<close>

text \<open>
  \<open>src/lib.rs\<close>, lines 70 to 213, 510 to 586, 588 to 660 and 1217 to 1270: the report of a load, how it
  is assembled from the details of a success or from a failure, the run around the load, and the
  summary it prints. The report is a record; its JSON text and the clock are arguments.
\<close>

record error_summary =
  er_code :: string
  er_message :: msg

record timings =
  ti_started_unix_ms :: nat
  ti_finished_unix_ms :: nat
  ti_duration_ms :: nat

record rejected_record_facts =
  rj_count :: nat
  rj_artifact :: "string option"

record load_report =
  lr_report_version :: nat
  lr_binary_version :: string
  lr_load_id :: string
  lr_artifact_dir :: string
  lr_source_summary :: json
  lr_destination_summary :: json
  lr_dataset :: "string option"
  lr_load_mode :: string
  lr_merge :: json
  lr_schema_decision :: json
  lr_row_counts :: row_counts
  lr_byte_counts :: byte_counts
  lr_rejected_records :: rejected_record_facts
  lr_destination_write :: json
  lr_execution :: json
  lr_timings :: timings
  lr_exit_status :: string
  lr_process_exit_code :: nat
  lr_error_summary :: "error_summary option"

definition LOAD_REPORT_VERSION :: nat where
  "LOAD_REPORT_VERSION = 1"

definition LOAD_REPORT_FILENAME :: string where
  "LOAD_REPORT_FILENAME = ''load-report.json''"

definition rejected_facts :: "nat \<Rightarrow> string \<Rightarrow> rejected_record_facts" where
  "rejected_facts n artifact_dir =
     \<lparr>rj_count = n, rj_artifact = (if 0 < n then Some (path_join artifact_dir REJECTED_RECORDS_FILENAME) else None)\<rparr>"

definition report_from_success ::
  "string \<Rightarrow> string \<Rightarrow> string \<Rightarrow> timings \<Rightarrow> execution_details \<Rightarrow> load_report" where
  "report_from_success version load_id artifact_dir clock details =
     \<lparr>lr_report_version = LOAD_REPORT_VERSION, lr_binary_version = version, lr_load_id = load_id,
      lr_artifact_dir = artifact_dir, lr_source_summary = xd_source_summary details,
      lr_destination_summary = xd_destination_summary details, lr_dataset = xd_dataset details,
      lr_load_mode = xd_load_mode details, lr_merge = xd_merge details,
      lr_schema_decision = xd_schema_decision details, lr_row_counts = xd_row_counts details,
      lr_byte_counts = xd_byte_counts details,
      lr_rejected_records = rejected_facts (xd_rejected_count details) artifact_dir,
      lr_destination_write = facts_report_value (xd_destination_write details), lr_execution = xd_execution details,
      lr_timings = clock, lr_exit_status = ''succeeded'', lr_process_exit_code = 0, lr_error_summary = None\<rparr>"

definition failure_execution :: "reportable_failure \<Rightarrow> json" where
  "failure_execution fail = (case rf_committed_execution fail of
     None \<Rightarrow>
       JObj ([(''record_format'', JStr ''not_started''), (''batch_count'', json_nat 0)]
         @ (case rf_retry fail of None \<Rightarrow> [] | Some retry \<Rightarrow> [(''retry'', retry)]))
   | Some committed \<Rightarrow>
       JObj [(''record_format'', JStr ''arrow_record_batch''), (''batch_count'', json_nat (ce_committed_chunks committed)),
         (''chunk_rows'', json_nat (ce_chunk_rows committed)), (''parallelism'', json_nat (ce_parallelism committed)),
         (''connector_parallelism_limit'', json_nat (ce_connector_parallelism_limit committed)),
         (''retry'', ce_retry committed)])"

definition report_from_failure ::
  "string \<Rightarrow> string \<Rightarrow> string \<Rightarrow> timings \<Rightarrow> reportable_failure \<Rightarrow> load_report" where
  "report_from_failure version load_id artifact_dir clock fail =
     \<lparr>lr_report_version = LOAD_REPORT_VERSION, lr_binary_version = version, lr_load_id = load_id,
      lr_artifact_dir = artifact_dir, lr_source_summary = rf_source_summary fail,
      lr_destination_summary = rf_destination_summary fail, lr_dataset = rf_dataset fail,
      lr_load_mode = rf_load_mode fail, lr_merge = rf_merge fail, lr_schema_decision = rf_schema_decision fail,
      lr_row_counts = \<lparr>rw_source = rf_source_rows fail, rw_written = rf_written_records fail,
        rw_rejected = rf_rejected_count fail\<rparr>,
      lr_byte_counts = \<lparr>yc_source = None, yc_destination = None\<rparr>,
      lr_rejected_records = rejected_facts (rf_rejected_count fail) artifact_dir,
      lr_destination_write = facts_report_value (rf_destination_write fail), lr_execution = failure_execution fail,
      lr_timings = clock, lr_exit_status = ''failed'', lr_process_exit_code = 1,
      lr_error_summary = Some \<lparr>er_code = rf_code fail, er_message = rf_message fail\<rparr>\<rparr>"

definition assemble_report ::
  "string \<Rightarrow> string \<Rightarrow> string \<Rightarrow> timings \<Rightarrow> (reportable_failure, execution_details) result \<Rightarrow> load_report" where
  "assemble_report version load_id artifact_dir clock r = (case r of
     Inr details \<Rightarrow> report_from_success version load_id artifact_dir clock details
   | Inl fail \<Rightarrow> report_from_failure version load_id artifact_dir clock fail)"

subsection \<open>The run\<close>

text \<open>A file that does not exist is an error like any other here.\<close>

definition read_load_definition ::
  "(string \<Rightarrow> (string, load_definition) result) \<Rightarrow> string \<Rightarrow> text_fs
   \<Rightarrow> (reportable_failure, load_definition) result \<times> text_fs" where
  "read_load_definition parse definition_path f =
     (case tf_read_to_string definition_path f of
        (Inl error, f) \<Rightarrow> (Inl (without_context ''load_definition_read_failed''
          [Lit ''failed to read load definition: '', Txt error]), f)
      | (Inr None, f) \<Rightarrow> (Inl (without_context ''load_definition_read_failed''
          [Lit ''failed to read load definition: '', Txt not_found]), f)
      | (Inr (Some definition_text), f) \<Rightarrow>
          (map_err (\<lambda>error. without_context ''invalid_load_definition_yaml''
             [Lit ''failed to parse load definition: '', Txt error]) (parse definition_text), f))"

definition artifact_root :: "string option \<Rightarrow> (reportable_failure, load_definition) result \<Rightarrow> string" where
  "artifact_root output_dir def = (case output_dir of
     Some dir \<Rightarrow> dir
   | None \<Rightarrow> (case def of
       Inr d \<Rightarrow> (case Option.bind (ld_artifacts_dir d) id of Some dir \<Rightarrow> dir | None \<Rightarrow> path_join ''.data-spark'' ''runs'')
     | Inl _ \<Rightarrow> path_join ''.data-spark'' ''runs''))"

definition timings_between :: "nat \<Rightarrow> nat \<Rightarrow> timings" where
  "timings_between started finished =
     \<lparr>ti_started_unix_ms = started, ti_finished_unix_ms = finished, ti_duration_ms = finished - started\<rparr>"

text \<open>The load of a definition that could be read, or the failure to read one.\<close>

inductive load_or_failure ::
  "('d, 't, 's) load_world \<Rightarrow> (reportable_failure, load_definition) result \<Rightarrow> rejection_sink \<Rightarrow> text_fs \<Rightarrow> 's
   \<Rightarrow> (reportable_failure, execution_details) result \<Rightarrow> rejection_sink \<Rightarrow> text_fs \<Rightarrow> 's \<Rightarrow> bool"
  for W where
  definition_unread: "load_or_failure W (Inl fail) sink f world (Inl fail) sink f world"
| definition_read: "execute_load_definition W def sink f world r sink' f' world' \<Longrightarrow>
    load_or_failure W (Inr def) sink f world r sink' f' world'"

inductive_cases load_or_failureE: "load_or_failure W def sink f world r sink' f' world'"

text \<open>
  \<open>run_load\<close>: the artifact directory, the load, the sink's error, and the report file. \<open>print\<close>
  is the report's JSON text.
\<close>

definition conclude_load ::
  "('d, 't, 's) load_world \<Rightarrow> (load_report \<Rightarrow> string) \<Rightarrow> string \<Rightarrow> string \<Rightarrow> timings
   \<Rightarrow> (reportable_failure, execution_details) result \<Rightarrow> rejection_sink \<Rightarrow> text_fs \<Rightarrow> (string, load_report) result \<times> text_fs" where
  "conclude_load W print load_id artifact_dir clock r sink f =
     (case take_io_error sink f of
        (Some error, sink, f) \<Rightarrow> (Inl error, f)
      | (None, sink, f) \<Rightarrow>
          let report = assemble_report (lw_binary_version W) load_id artifact_dir clock r in
          (case tf_write_file (path_join artifact_dir LOAD_REPORT_FILENAME) (print report) f of
             (Inl error, f) \<Rightarrow> (Inl error, f)
           | (Inr _, f) \<Rightarrow> (Inr report, f)))"

inductive run_load ::
  "('d, 't, 's) load_world \<Rightarrow> (load_report \<Rightarrow> string) \<Rightarrow> string \<Rightarrow> string option \<Rightarrow> string \<Rightarrow> timings \<Rightarrow> text_fs \<Rightarrow> 's
   \<Rightarrow> (string, load_report) result \<Rightarrow> text_fs \<Rightarrow> 's \<Rightarrow> bool"
  for W print load_id output_dir definition_path clock f world where
  directory_failed: "read_load_definition (lw_definition W) definition_path f = (def, f1) \<Longrightarrow>
    artifact_dir = path_join (artifact_root output_dir def) load_id \<Longrightarrow>
    tf_create_dir_all artifact_dir f1 = (Inl error, f2) \<Longrightarrow>
    run_load W print load_id output_dir definition_path clock f world (Inl error) f2 world"
| load_concluded: "read_load_definition (lw_definition W) definition_path f = (def, f1) \<Longrightarrow>
    artifact_dir = path_join (artifact_root output_dir def) load_id \<Longrightarrow>
    tf_create_dir_all artifact_dir f1 = (Inr u, f2) \<Longrightarrow>
    load_or_failure W def (sink_new artifact_dir) f2 world r sink f3 world' \<Longrightarrow>
    conclude_load W print load_id artifact_dir clock r sink f3 = (result, f4) \<Longrightarrow>
    run_load W print load_id output_dir definition_path clock f world result f4 world'"

inductive_cases run_loadE: "run_load W print load_id output_dir definition_path clock f world result f' world'"

subsection \<open>The printed summary\<close>

definition summary_text :: "(json \<Rightarrow> string) \<Rightarrow> json \<Rightarrow> string" where
  "summary_text show_json summary = (case summary of
     JObj entries \<Rightarrow>
       if entries = [] then ''not specified''
       else join '', '' (map (\<lambda>(key, v). key @ ''='' @ (case v of JStr s \<Rightarrow> s | other \<Rightarrow> show_json other)) entries)
   | other \<Rightarrow> show_json other)"

definition print_summary :: "(json \<Rightarrow> string) \<Rightarrow> load_report \<Rightarrow> string list" where
  "print_summary show_json report =
     [''Data Spark load '' @ lr_load_id report,
      ''Status: '' @ lr_exit_status report,
      ''Load mode: '' @ lr_load_mode report,
      ''Source: '' @ summary_text show_json (lr_source_summary report),
      ''Destination: '' @ summary_text show_json (lr_destination_summary report),
      ''Records read: '' @ show_nat (rw_source (lr_row_counts report)),
      ''Records written: '' @ show_nat (rw_written (lr_row_counts report)),
      ''Records rejected: '' @ show_nat (rw_rejected (lr_row_counts report)),
      ''Artifact directory: '' @ lr_artifact_dir report,
      ''Load report: '' @ path_join (lr_artifact_dir report) LOAD_REPORT_FILENAME]
     @ (case rj_artifact (lr_rejected_records report) of None \<Rightarrow> []
        | Some artifact \<Rightarrow> [''Rejected records artifact: '' @ artifact])
     @ (case lr_error_summary report of None \<Rightarrow> []
        | Some e \<Rightarrow> [''Error: '' @ render_msg show_json (er_message e)])"

text \<open>What the process exits with: the report's code, or 1 when there is no report.\<close>

definition exit_code :: "(string, load_report) result \<Rightarrow> nat" where
  "exit_code result = (case result of Inr report \<Rightarrow> lr_process_exit_code report | Inl _ \<Rightarrow> 1)"

end
