(* ===== verification/Load_Facts.thy ===== *)
theory Load_Facts
  imports Load_Report Pass_Csv Pass_Jsonl Parquet_Full_Refresh Serial_Runs
begin

section \<open>What a load leaves behind\<close>

text \<open>
  The composition of \<open>execute_supported_load\<close> (\<open>src/lib.rs\<close>): what the steps before the write phase
  established when it was reached, the serial write phase of the shipped destinations, and the
  outcome of a Parquet full refresh in terms of the source.
\<close>

subsection \<open>Before the write phase\<close>

lemma validate_definition_Inr:
  assumes "validate_definition env def = Inr p"
  shows "ld_source def = Some (lp_source p)" "ld_destination def = Some (lp_destination_definition p)"
    "parse_load_mode (default_load_mode (ld_load_mode def)) = Inr (lp_mode p)"
    "validate_merge_config (lp_mode p) (ld_merge def) = Inr (lp_merge_keys p)"
    "source_connector (lp_source p) = Inr (lp_port p)"
    "destination_connector env (lp_destination_definition p) (ld_dataset def) (lp_merge_keys p) = Inr (lp_destination p)"
    "validate_destination_mode (lp_destination p) (lp_mode p) = Inr ()"
  using assms by (auto simp: validate_definition_def rbind_eq_Inr_iff ok_or_def split: option.splits)

lemma source_connector_port: "source_connector s = Inr port \<Longrightarrow> ls_path port = sd_path s \<and> ls_format port = sd_format s"
  by (auto simp: source_connector_def split: if_splits)

lemma gate_load_Inr:
  assumes "gate_load def sr f = (Inr u, f')"
  shows "sr_rejected_count sr \<le> reject_threshold def"
    "(case sr_pinned_schema_write sr of None \<Rightarrow> tf_files f' = tf_files f
      | Some pin \<Rightarrow> tf_files f' = (tf_files f)(pw_pinned_path pin := Some (pw_yaml pin)))"
  using assms persist_pinned_schema_files
  by (auto simp: gate_load_def apfst_def map_prod_def split: if_splits option.splits prod.splits)

lemma prepare_load_Inr:
  assumes "prepare_load W def sink f = Some (Inr (p, sr), sink', f')"
  obtains directive f1 f2 where
    "validate_definition (lw_env W) def = Inr p"
    "resolve_schema_directive (lw_yaml W) (ld_schema def) (ld_transform def)
       (resolved_source_format (sd_path (lp_source p)) (sd_format (lp_source p))) f = (Inr directive, f1)"
    "tf_files f1 = tf_files f"
    "read_load W def p directive sink f1 = Some (Inr sr, sink', f2)" "gate_load def sr f2 = (Inr (), f')"
proof -
  obtain q where q: "validate_definition (lw_env W) def = Inr q"
    using assms by (auto simp: prepare_load_def split: sum.splits)
  let ?resolve = "resolve_schema_directive (lw_yaml W) (ld_schema def) (ld_transform def)
      (resolved_source_format (sd_path (lp_source q)) (sd_format (lp_source q))) f"
  obtain directive f1 where d: "?resolve = (Inr directive, f1)"
    using assms q by (cases ?resolve) (auto simp: prepare_load_def split: sum.splits)
  obtain sr' sink2 f2 where r: "read_load W def q directive sink f1 = Some (Inr sr', sink2, f2)"
    using assms q d by (auto simp: prepare_load_def split: option.splits prod.splits sum.splits)
  have g: "gate_load def sr' f2 = (Inr (), f')" "q = p" "sr' = sr" "sink2 = sink'"
    using assms q d r by (auto simp: prepare_load_def split: prod.splits sum.splits)
  show ?thesis
    by (rule that [of directive f1 f2])
      (use q d r g resolve_schema_directive_files [of "lw_yaml W" "ld_schema def" "ld_transform def" _ f] in \<open>metis snd_conv\<close>)+
qed

lemma load_parallelism_serial: "execution_ok (ld_execution def) \<Longrightarrow> load_parallelism def p = 1"
  by (simp add: load_parallelism_def parallelism_limit_def resolve_parallelism_serial del: One_nat_def)

subsection \<open>The serial write phase\<close>

lemma write_phase_serial:
  assumes "write_phase policy D mode 1 chunks st r st'"
    and "\<And>w fail. fst (d_begin D mode w) = Inl fail \<Longrightarrow> wx_transience fail = Terminal"
  obtains (begin_failed) fail where "d_begin D mode (us_world st) = (Inl fail, us_world st')" "r = Inl (Before_Session fail)"
  | (opened) st1 where "d_begin D mode (us_world st) = (Inr (), us_world st1)"
      "run_serial_write_phase policy D chunks st1 = (r, st')"
proof -
  have u: "run_unit policy Unit_Begin (d_begin D mode) st
      = (fst (d_begin D mode (us_world st)), st\<lparr>us_world := snd (d_begin D mode (us_world st))\<rparr>)"
    by (rule terminal_unit_once) (rule assms(2))
  show ?thesis
  proof (cases "d_begin D mode (us_world st)")
    case (Pair x w)
    have w: "w = us_world (st\<lparr>us_world := w\<rparr>)" by simp
    show ?thesis
      using assms(1)
      by (rule write_phaseE) (use u Pair begin_failed opened [OF _ , of "st\<lparr>us_world := w\<rparr>"] in auto)
  qed
qed

lemma write_phase_exists:
  "\<exists>r st'. write_phase policy D mode 1 chunks st r st'"
proof -
  obtain x st1 where u: "run_unit policy Unit_Begin (d_begin D mode) st = (x, st1)" by fastforce
  obtain r st' where "run_serial_write_phase policy D chunks st1 = (r, st')" by fastforce
  then show ?thesis
    using u phase_begin_failed [of policy D mode st _ st1] phase_serial [of policy D mode st _ st1 1] by (cases x) blast+
qed

lemma full_refresh_begin_terminal:
  "fst (d_begin (full_refresh_ops e) mode w) = Inl fail \<Longrightarrow> wx_transience fail = Terminal"
  by (auto simp: full_refresh_ops_def full_refresh_begin_def write_failure_from_def Let_def split: prod.splits sum.splits)

lemma full_refresh_write_phase:
  assumes "write_phase policy (full_refresh_ops e) mode 1 chunks st r st'"
    "path_file_name (fr_destination_path (us_world st)) \<noteq> []"
  shows "case r of
      Inr outcome \<Rightarrow> \<exists>bs. chunks = map Inr bs \<and> destination_dir (us_world st') = Some (parts_of bs)
    | Inl (In_Session fail) \<Rightarrow> wx_committed_chunks fail = 0
        \<and> (destination_dir (us_world st') = destination_dir (us_world st) \<or> list_all is_ok chunks)
    | Inl (Before_Session fail) \<Rightarrow> destination_dir (us_world st') = destination_dir (us_world st)"
  using assms(1)
proof (rule write_phase_serial [OF _ full_refresh_begin_terminal])
  fix fail
  assume "d_begin (full_refresh_ops e) mode (us_world st) = (Inl fail, us_world st')" "r = Inl (Before_Session fail)"
  then show ?thesis
    using full_refresh_begin_staged [OF _ assms(2), of _ "us_world st'"] by (simp add: full_refresh_ops_def)
next
  fix st1
  assume "d_begin (full_refresh_ops e) mode (us_world st) = (Inr (), us_world st1)"
    "run_serial_write_phase policy (full_refresh_ops e) chunks st1 = (r, st')"
  then show ?thesis
    using serial_full_refresh [of "us_world st" st1 policy e chunks r st'] assms(2)
    by (auto simp: full_refresh_ops_def split: sum.splits write_phase_failure.splits)
qed

subsection \<open>Counting\<close>

lemma csv_survivors_length:
  "length (csv_survivors C checks names recs) + length (csv_rejections C checks names recs) = length recs"
  by (induction recs) (auto simp: csv_survivors_def csv_rejection_def text_survives_def split: csv_item.split option.split)

lemma rows_of_cut:
  assumes "map rb_rows bs = map length (stream_chunks n xs)" "0 < n"
  shows "sum_list (map rb_rows bs) = length xs"
  using arg_cong [OF stream_chunks_concat [OF assms(2), of xs], of length] assms(1) by (simp add: length_concat)

lemma jsonl_survivors_length:
  "length (jsonl_survivors C T checks ls) + length (jsonl_rejections C T checks ls) = length (filter (line_counts T) ls)"
proof (induction ls)
  case (Cons l ls)
  then show ?case
    using line_violates [of T l _ C checks]
    by (cases "line_item T l")
      (auto simp: jsonl_survivors_def jsonl_rejections_def line_rejection_def line_counts_def map_filter_simps
        split: option.splits)
qed (simp add: jsonl_survivors_def jsonl_rejections_def map_filter_simps)

subsection \<open>A load into a Parquet dataset\<close>

text \<open>A definition of a full refresh of the Parquet dataset that the world is about.\<close>

definition parquet_full_refresh ::
  "('d, 't, full_refresh_world) load_world \<Rightarrow> (record_batch \<Rightarrow> nat) \<Rightarrow> load_definition \<Rightarrow> full_refresh_world \<Rightarrow> bool" where
  "parquet_full_refresh W encoded_size def world \<longleftrightarrow> execution_ok (ld_execution def) \<and> rename_block_ok (ld_transform def)
     \<and> ld_destination def = Some (File_Destination \<lparr>fd_connector = ''parquet'', fd_path = fr_destination_path world\<rparr>)
     \<and> default_load_mode (ld_load_mode def) = ''full_refresh''
     \<and> lw_destination W (Parquet_Destination (fr_destination_path world)) Full_Refresh = full_refresh_ops encoded_size
     \<and> path_file_name (fr_destination_path world) \<noteq> []"

lemma parquet_plan:
  assumes "parquet_full_refresh W e def world" "validate_definition env def = Inr p"
  shows "lw_destination W (lp_destination p) (lp_mode p) = full_refresh_ops e" "lp_merge_keys p = []"
proof -
  have "lp_mode p = Full_Refresh" "lp_destination p = Parquet_Destination (fr_destination_path world)"
    using assms validate_definition_Inr [OF assms(2)]
    by (auto simp: parquet_full_refresh_def parse_load_mode_def file_destination_connector_def)
  then show "lw_destination W (lp_destination p) (lp_mode p) = full_refresh_ops e" "lp_merge_keys p = []"
    using assms validate_definition_Inr(4) [OF assms(2)] by (simp_all add: parquet_full_refresh_def validate_merge_config_Inr_iff)
qed

text \<open>Whatever the source, a load fails before the write phase, or ends as the serial write phase does.\<close>

lemma parquet_load_cases:
  assumes P: "parquet_full_refresh W e def world"
    and load: "execute_supported_load W def sink f world r sink' f' world'"
  obtains (stopped) fail where "prepare_load W def sink f = Some (Inl fail, sink', f')" "r = Inl fail" "world' = world"
  | (written) p sr attempts outcome bs where "prepare_load W def sink f = Some (Inr (p, sr), sink', f')"
      "r = Inr (success_details W def p sr attempts outcome)" "source_items W (sr_chunks sr) = map Inr bs"
      "destination_dir world' = Some (parts_of bs)"
  | (failed) p sr attempts phase_failure where "prepare_load W def sink f = Some (Inr (p, sr), sink', f')"
      "r = Inl (write_failure_report W def p sr attempts phase_failure)"
      "destination_dir world' = destination_dir world \<or> list_all is_ok (source_items W (sr_chunks sr))"
      "\<And>fail. phase_failure = In_Session fail \<Longrightarrow> wx_committed_chunks fail = 0"
  using load
proof (rule execute_supported_loadE)
  fix fail
  assume "r = Inl fail" "world' = world" "prepare_load W def sink f = Some (Inl fail, sink', f')"
  then show ?thesis using stopped by blast
next
  fix p sr r1 st
  assume a: "r = finish_load W def p sr (us_attempts st) r1" "world' = us_world st"
    and prep: "prepare_load W def sink f = Some (Inr (p, sr), sink', f')"
    and phase: "write_phase (resolve_retry_policy (ld_execution def)) (lw_destination W (lp_destination p) (lp_mode p)) (lp_mode p)
      (load_parallelism def p) (source_items W (sr_chunks sr)) \<lparr>us_world = world, us_attempts = [], us_sleeps = []\<rparr> r1 st"
  obtain v: "validate_definition (lw_env W) def = Inr p" using prep by (rule prepare_load_Inr)
  have ops: "lw_destination W (lp_destination p) (lp_mode p) = full_refresh_ops e" by (rule parquet_plan [OF P v])
  have one: "load_parallelism def p = 1" using P load_parallelism_serial by (simp add: parquet_full_refresh_def)
  have out: "case r1 of
      Inr outcome \<Rightarrow> \<exists>bs. source_items W (sr_chunks sr) = map Inr bs \<and> destination_dir (us_world st) = Some (parts_of bs)
    | Inl (In_Session fail) \<Rightarrow> wx_committed_chunks fail = 0
        \<and> (destination_dir (us_world st) = destination_dir world \<or> list_all is_ok (source_items W (sr_chunks sr)))
    | Inl (Before_Session fail) \<Rightarrow> destination_dir (us_world st) = destination_dir world"
    using full_refresh_write_phase [OF phase [unfolded ops one]] P
    by (simp add: parquet_full_refresh_def cong: sum.case_cong write_phase_failure.case_cong)
  show ?thesis
  proof (cases r1)
    case (Inr outcome)
    then show ?thesis using out a prep written [of p sr "us_attempts st" outcome] by (auto simp: finish_load_def)
  next
    case (Inl phase_failure)
    then show ?thesis
      using out a prep failed [of p sr "us_attempts st" phase_failure]
      by (cases phase_failure) (auto simp: finish_load_def)
  qed
qed

subsection \<open>The stream of a load's source\<close>

abbreviation load_source :: "('d, 't, 's) load_world \<Rightarrow> load_plan \<Rightarrow> source_file" where
  "load_source W p \<equiv> lw_source W (sd_path (lp_source p))"

abbreviation load_format :: "load_plan \<Rightarrow> string" where
  "load_format p \<equiv> resolved_source_format (sd_path (lp_source p)) (sd_format (lp_source p))"

lemma csv_load_stream:
  assumes prep: "prepare_load W def (sink_new dir) f = Some (Inr (p, sr), sink', f')"
    and fresh: "tf_files f (sk_artifact_path (sink_new dir)) = None"
    and wf: "rename_block_ok (ld_transform def)" and csv: "load_format p = ''csv''"
  obtains d rs chunks where "dir_ok d" "tr_flatten (dir_transform d) = []" "sr_chunks sr = Csv_Chunks chunks"
    "csv_stream_of (lw_chrono W) (lw_yaml W) (lw_csv W) (load_source W p) d (lp_merge_keys p)
       (resolve_chunk_rows (ld_execution def)) rs chunks"
    "cc_path chunks = sd_path (lp_source p)"
    "sr_source_rows sr = length (cv_records (csv_source_reader (lw_csv W) (load_source W p)))"
    "sr_rejected_count sr = length (csv_rejections (lw_chrono W) (cc_checks chunks) (cc_field_names chunks)
       (cv_records (csv_source_reader (lw_csv W) (load_source W p))))"
proof -
  let ?so = "load_source W p"
  let ?recs = "cv_records (csv_source_reader (lw_csv W) ?so)"
  obtain d f1 f2 where v: "validate_definition (lw_env W) def = Inr p"
    and dir: "resolve_schema_directive (lw_yaml W) (ld_schema def) (ld_transform def) (load_format p) f = (Inr d, f1)"
    and f1: "tf_files f1 = tf_files f" and read: "read_load W def p d (sink_new dir) f1 = Some (Inr sr, sink', f2)"
    using prep by (rule prepare_load_Inr)
  note ok = resolve_schema_directive_ok [OF dir wf]
  have port: "ls_path (lp_port p) = sd_path (lp_source p)" "ls_format (lp_port p) = sd_format (lp_source p)"
    using source_connector_port [OF validate_definition_Inr(5) [OF v]] by simp_all
  have r: "read_csv (lw_chrono W) (lw_text W) (lw_yaml W) (lw_csv W) ?so (lp_port p) d (lp_merge_keys p)
      (resolve_chunk_rows (ld_execution def)) (sink_new dir) f1 = (Inr sr, sink', f2)"
    using read csv by (simp add: read_load_def read_source_def port Let_def)
  have holds: "sink_holds T (sink_new dir) f1 []" for T using fresh f1 by (simp add: sink_new_holds)
  obtain chunks where c: "sr_chunks sr = Csv_Chunks chunks" "cc_path chunks = sd_path (lp_source p)"
    "sr_source_rows sr = length ?recs" "sr_rejected_count sr = sk_count sink'"
    by (rule read_csv_Inr [OF r holds]) (simp add: port)
  obtain rs where s: "csv_stream_of (lw_chrono W) (lw_yaml W) (lw_csv W) ?so d (lp_merge_keys p)
       (resolve_chunk_rows (ld_execution def)) rs chunks"
    and sink: "sink_holds (lw_text W) sink' f2 (csv_rejections (lw_chrono W) (cc_checks chunks) (cc_field_names chunks) ?recs)"
    by (rule csv_first_pass [OF r holds c(1)]) (rule that)
  show ?thesis
    by (rule that [OF _ _ c(1) s c(2,3)]) (use ok csv sink c(4) in \<open>simp_all add: sink_holds_def\<close>)
qed

text \<open>What a complete serial pass 2 over the unchanged CSV source wrote, and the counts.\<close>

lemma csv_load_written:
  assumes s: "csv_stream_of C Y L so d keys n rs chunks" and n: "0 < n" and A: "arrow_contract A" and ok: "dir_ok d"
    and flat: "tr_flatten (dir_transform d) = []" and items: "csv_items C A L so chunks = map Inr bs"
  shows "traverse (build_text_chunk C A (cc_plan chunks)) (stream_chunks n
      (csv_survivors C (cc_checks chunks) (cc_field_names chunks) (cv_records (csv_source_reader L so)))) = Inr bs"
    "sum_list (map rb_rows bs)
       = length (csv_survivors C (cc_checks chunks) (cc_field_names chunks) (cv_records (csv_source_reader L so)))"
proof -
  let ?cut = "stream_chunks n (csv_survivors C (cc_checks chunks) (cc_field_names chunks) (cv_records (csv_source_reader L so)))"
  have c: "cc_phase chunks = Not_Started" "0 < cc_chunk_rows chunks" "cc_chunk_rows chunks = n"
    using s n by (simp_all add: csv_stream_of_def)
  have all: "list_all is_ok (csv_items C A L so chunks)" using items by (simp add: list_all_iff is_ok_def)
  show t: "traverse (build_text_chunk C A (cc_plan chunks)) ?cut = Inr bs"
    using csv_stream_ok [OF all c(1,2)] c(3) items by auto
  have "\<exists>b. build_text_chunk C A (cc_plan chunks) chunk = Inr b \<and> rb_rows b = length chunk" if "chunk \<in> set ?cut" for chunk
    using csv_stream_builds [OF s A ok flat, of chunk] stream_chunks_bound [OF that] by (auto simp: batch_of_def)
  from deliver_chunks [of ?cut, OF this] t have "map rb_rows bs = map length ?cut" by auto
  then show "sum_list (map rb_rows bs)
      = length (csv_survivors C (cc_checks chunks) (cc_field_names chunks) (cv_records (csv_source_reader L so)))"
    by (rule rows_of_cut [OF _ n])
qed

lemma jsonl_load_stream:
  assumes prep: "prepare_load W def (sink_new dir) f = Some (Inr (p, sr), sink', f')"
    and fresh: "tf_files f (sk_artifact_path (sink_new dir)) = None"
    and wf: "rename_block_ok (ld_transform def)" and jsonl: "load_format p = ''jsonl''"
    and io: "sk_io_error sink' = None" and texts: "texts_read_back (lw_text W) (source_lines (load_source W p))"
  obtains d rs chunks where "dir_ok d" "sr_chunks sr = Jsonl_Chunks chunks"
    "jsonl_stream_of (lw_chrono W) (lw_text W) (lw_yaml W) (load_source W p) d (lp_merge_keys p)
       (resolve_chunk_rows (ld_execution def)) rs chunks"
    "jc_path chunks = sd_path (lp_source p)"
    "sr_source_rows sr = length (filter (line_counts (lw_text W)) (source_lines (load_source W p)))"
    "sr_rejected_count sr = length (jsonl_rejections (lw_chrono W) (lw_text W) (jc_checks chunks)
       (source_lines (load_source W p)))"
proof -
  let ?so = "load_source W p"
  obtain d f1 f2 where v: "validate_definition (lw_env W) def = Inr p"
    and dir: "resolve_schema_directive (lw_yaml W) (ld_schema def) (ld_transform def) (load_format p) f = (Inr d, f1)"
    and f1: "tf_files f1 = tf_files f" and read: "read_load W def p d (sink_new dir) f1 = Some (Inr sr, sink', f2)"
    using prep by (rule prepare_load_Inr)
  have ok: "dir_ok d" using resolve_schema_directive_ok [OF dir wf] by simp
  have port: "ls_path (lp_port p) = sd_path (lp_source p)" "ls_format (lp_port p) = sd_format (lp_source p)"
    using source_connector_port [OF validate_definition_Inr(5) [OF v]] by simp_all
  have r: "read_jsonl (lw_chrono W) (lw_text W) (lw_yaml W) ?so (lp_port p) d (lp_merge_keys p)
      (resolve_chunk_rows (ld_execution def)) (sink_new dir) f1 = Some (Inr sr, sink', f2)"
    using read jsonl by (simp add: read_load_def read_source_def port Let_def)
  have fresh': "tf_files f1 (sk_artifact_path (sink_new dir)) = None" using fresh f1 by simp
  obtain chunks where c: "sr_chunks sr = Jsonl_Chunks chunks" "jc_path chunks = sd_path (lp_source p)"
    "sr_source_rows sr = length (filter (line_counts (lw_text W)) (source_lines ?so))" "sr_rejected_count sr = sk_count sink'"
    by (rule read_jsonl_Inr [OF r sink_new_holds [OF fresh'] sink_new_paths_ok ok]) (simp add: port)
  obtain rs where s: "jsonl_stream_of (lw_chrono W) (lw_text W) (lw_yaml W) ?so d (lp_merge_keys p)
       (resolve_chunk_rows (ld_execution def)) rs chunks"
    and sink: "sink_holds (lw_text W) sink' f2 (jsonl_rejections (lw_chrono W) (lw_text W) (jc_checks chunks) (source_lines ?so))"
    by (rule jsonl_first_pass [OF r fresh' ok c(1) io texts]) (rule that)
  show ?thesis
    by (rule that [OF ok c(1) s c(2,3)]) (use sink c(4) in \<open>simp add: sink_holds_def\<close>)
qed

lemma jsonl_load_written:
  assumes s: "jsonl_stream_of C T Y so d keys n rs chunks" and n: "0 < n" and A: "arrow_contract A" and ok: "dir_ok d"
    and items: "jsonl_items C A T so chunks = map Inr bs"
  shows "traverse (build_json_chunk C A (jt_print T) (jc_plan chunks))
      (stream_chunks n (jsonl_survivors C T (jc_checks chunks) (source_lines so))) = Inr bs"
    "sum_list (map rb_rows bs) = length (jsonl_survivors C T (jc_checks chunks) (source_lines so))"
proof -
  let ?cut = "stream_chunks n (jsonl_survivors C T (jc_checks chunks) (source_lines so))"
  let ?build = "build_json_chunk C A (jt_print T) (jc_plan chunks)"
  have c: "jc_phase chunks = Not_Started" "0 < jc_chunk_rows chunks" "jc_chunk_rows chunks = n"
    using s n by (simp_all add: jsonl_stream_of_def)
  have all: "list_all is_ok (jsonl_items C A T so chunks)" using items by (simp add: list_all_iff is_ok_def)
  show t: "traverse ?build ?cut = Inr bs"
    using jsonl_stream_ok [OF all c(1,2)] c(3) items by auto
  have "\<exists>b. ?build chunk = Inr b \<and> rb_rows b = length chunk" if "chunk \<in> set ?cut" for chunk
    using jsonl_stream_builds [OF s A ok, of chunk "jt_print T"] stream_chunks_bound [OF that] by (auto simp: batch_of_def)
  from deliver_chunks [of ?cut, OF this] t have "map rb_rows bs = map length ?cut" by auto
  then show "sum_list (map rb_rows bs) = length (jsonl_survivors C T (jc_checks chunks) (source_lines so))"
    by (rule rows_of_cut [OF _ n])
qed

subsection \<open>Failures before the write phase\<close>

text \<open>A failure of a load that has written nothing and says so.\<close>

definition unwritten :: "execution_failure \<Rightarrow> bool" where
  "unwritten fail \<longleftrightarrow> ef_committed_execution fail = None \<and> ef_written_records fail = 0 \<and> ef_retry fail = None
     \<and> ef_destination_write fail = facts_not_applicable"

lemma unwritten_simps [simp]:
  "unwritten (execution_failure_from lf)" "unwritten (pre_materialization_failure lf decision)"
  "unwritten (pass_one_failure lf n k)" "unwritten (resolved_pre_write_failure lf decision n k)"
  "unwritten (with_rejected_count k fail) = unwritten fail"
  "unwritten (apply_pending_reject_threshold k fail) = unwritten fail"
  "unwritten (drift_failure path pin detail drift)"
  by (simp_all add: unwritten_def execution_failure_from_def pre_materialization_failure_def pass_one_failure_def
      resolved_pre_write_failure_def with_rejected_count_def apply_pending_reject_threshold_def drift_failure_def Let_def)

lemma check_override_conflicts_unwritten: "check_override_conflicts path pin ovs = Inl fail \<Longrightarrow> unwritten fail"
  by (induction path pin ovs rule: check_override_conflicts.induct) (auto simp: Let_def split: option.splits if_splits)

lemma unwritten_stamped [simp]: "unwritten (fail\<lparr>ef_schema_decision := x\<rparr>) = unwritten fail"
  by (simp add: unwritten_def)

lemma match_shape_unwritten: "match_shape path pin policy columns = Inl fail \<Longrightarrow> unwritten fail"
  by (auto simp: match_shape_def Let_def split: option.splits if_splits)

lemma declared_type_overrides_unwritten:
  "check_declared_type_overrides path pin matched ovs ts = Inl fail \<Longrightarrow> unwritten fail"
  by (auto simp: check_declared_type_overrides_def Let_def split: if_splits)

lemma directive_resolution_unwritten: "directive_resolution Y d columns ts us = Inl fail \<Longrightarrow> unwritten fail"
  by (auto simp: directive_resolution_def pinned_resolution_def rbind_eq_Inl_iff Let_def
      split: schema_directive.splits
      dest: check_override_conflicts_unwritten match_shape_unwritten declared_type_overrides_unwritten)

lemma resolve_plan_unwritten: "resolve_plan Y d keys names ts us = Inl fail \<Longrightarrow> unwritten fail"
  by (auto simp: resolve_plan_def stamped_resolution_def rbind_eq_Inl_iff Let_def
      resolve_transform_def check_override_names_def merge_key_checks_def
      split: sum.splits option.splits if_splits prod.splits dest!: directive_resolution_unwritten)

lemma read_csv_unwritten: "read_csv C T Y L so self d keys n sink f = (Inl fail, r) \<Longrightarrow> unwritten fail"
  by (auto simp: read_csv_def text_finish_def Let_def split: sum.splits dest!: resolve_plan_unwritten)

lemma read_jsonl_unwritten: "read_jsonl C T Y so self d keys n sink f = Some (Inl fail, r) \<Longrightarrow> unwritten fail"
  by (auto simp: read_jsonl_def json_finish_def Let_def split: sum.splits option.splits prod.splits if_splits
      dest!: resolve_plan_unwritten)

lemma read_load_unwritten: "read_load W def p d sink f = Some (Inl fail, r) \<Longrightarrow> unwritten fail"
  by (auto simp: read_load_def read_source_def Let_def split: if_splits dest: read_csv_unwritten read_jsonl_unwritten)

text \<open>A failed schema decision, by its codes; it comes before any record is materialized.\<close>

definition schema_codes :: "string list" where
  "schema_codes = [''unknown_transform_field'', ''transform_name_collision'', ''unknown_override_field'',
     ''unknown_merge_key_field'', ''schema_override_conflict'', ''schema_drift'']"

definition schema_failure :: "execution_failure \<Rightarrow> bool" where
  "schema_failure fail \<longleftrightarrow> ef_schema_decision fail \<noteq> None \<and> ef_source_rows fail = None \<and> lf_code (ef_failure fail) \<in> set schema_codes"

lemma schema_failure_simps [simp]:
  "schema_failure (pre_materialization_failure (failure code message) decision) = (code \<in> set schema_codes)"
  "schema_failure (with_rejected_count k fail) = schema_failure fail"
  "schema_failure (fail\<lparr>ef_schema_decision := map_option g (ef_schema_decision fail)\<rparr>) = schema_failure fail"
  "schema_failure fail \<Longrightarrow> schema_failure (fail\<lparr>ef_schema_decision := Some decision\<rparr>)"
  by (simp_all add: schema_failure_def failure_def with_rejected_count_def)

lemma schema_failure_drift [simp]: "schema_failure (drift_failure path pin detail drift)"
  by (simp add: schema_failure_def drift_failure_def failure_def schema_codes_def)

lemma check_override_conflicts_schema: "check_override_conflicts path pin ovs = Inl fail \<Longrightarrow> schema_failure fail"
  by (induction path pin ovs rule: check_override_conflicts.induct)
    (auto simp: Let_def schema_codes_def split: option.splits if_splits)

lemma match_shape_schema: "match_shape path pin policy columns = Inl fail \<Longrightarrow> schema_failure fail"
  by (auto simp: match_shape_def Let_def split: option.splits if_splits)

lemma declared_type_overrides_schema:
  "check_declared_type_overrides path pin matched ovs ts = Inl fail \<Longrightarrow> schema_failure fail"
  by (auto simp: check_declared_type_overrides_def Let_def split: if_splits)

lemma directive_resolution_schema: "directive_resolution Y d columns ts us = Inl fail \<Longrightarrow> schema_failure fail"
  by (auto simp: directive_resolution_def pinned_resolution_def rbind_eq_Inl_iff Let_def
      split: schema_directive.splits
      dest: check_override_conflicts_schema match_shape_schema declared_type_overrides_schema)

lemma resolve_plan_schema: "resolve_plan Y d keys names ts us = Inl fail \<Longrightarrow> schema_failure fail"
proof -
  let ?steps = "rbind (resolve_transform d names) (\<lambda>columns. rbind (check_override_names d columns) (\<lambda>_.
        rbind (merge_key_checks d keys columns) (\<lambda>merge_checks.
        rbind (directive_resolution Y d columns ts us) (\<lambda>rs. Inr (prepend_checks merge_checks rs)))))"
  assume "resolve_plan Y d keys names ts us = Inl fail"
  then obtain e where e: "?steps = Inl e" "fail = e\<lparr>ef_schema_decision := map_option (dir_stamp d) (ef_schema_decision e)\<rparr>"
    unfolding resolve_plan_def stamped_resolution_def by (auto split: sum.splits)
  have "schema_failure e"
    using e(1) by (auto simp: rbind_eq_Inl_iff Let_def schema_codes_def resolve_transform_def check_override_names_def
        merge_key_checks_def split: option.splits if_splits prod.splits dest!: directive_resolution_schema)
  then show "schema_failure fail" using e(2) by simp
qed

lemma read_failures [simp]:
  "ef_schema_decision (execution_failure_from lf) = None" "ef_schema_decision (pass_one_failure lf n k) = None"
  by (simp_all add: execution_failure_from_def pass_one_failure_def)

lemma read_load_failure: "read_load W def p d sink f = Some (Inl fail, r) \<Longrightarrow> ef_schema_decision fail = None \<or> schema_failure fail"
  by (auto simp: read_load_def read_source_def read_csv_def text_finish_def read_jsonl_def json_finish_def Let_def
      split: sum.splits option.splits prod.splits if_splits dest!: resolve_plan_schema)

text \<open>What a failure states that counts more rejections than the threshold \<open>k\<close>.\<close>

definition threshold_named :: "nat \<Rightarrow> execution_failure \<Rightarrow> bool" where
  "threshold_named k fail \<longleftrightarrow> (\<exists>n. ef_source_rows fail = Some n \<and> ef_failure fail = reject_threshold_failure (ef_rejected_count fail) n k)"

lemma apply_pending_named:
  "ef_schema_decision fail = None \<or> schema_failure fail \<Longrightarrow> k < ef_rejected_count (apply_pending_reject_threshold k fail) \<Longrightarrow>
   threshold_named k (apply_pending_reject_threshold k fail) \<or> schema_failure (apply_pending_reject_threshold k fail)"
  by (auto simp: apply_pending_reject_threshold_def threshold_named_def Let_def split: if_splits)

lemma map_err_eq_Inl_iff: "map_err f r = Inl e \<longleftrightarrow> (\<exists>e'. r = Inl e' \<and> e = f e')"
  by (cases r) auto

text \<open>
  A load that stops before the write phase has written nothing and says so; when more records
  were rejected than the definition tolerates it names the threshold, or the schema decision that
  failed first.
\<close>

lemma prepare_load_stopped:
  assumes "prepare_load W def sink f = Some (Inl fail, sink', f')"
  shows "unwritten fail \<and> (reject_threshold def < ef_rejected_count fail \<longrightarrow>
    threshold_named (reject_threshold def) fail \<or> schema_failure fail)"
proof (cases "validate_definition (lw_env W) def")
  case (Inl e)
  then show ?thesis using assms by (auto simp: prepare_load_def execution_failure_from_def unwritten_def)
next
  case (Inr p)
  let ?resolve = "resolve_schema_directive (lw_yaml W) (ld_schema def) (ld_transform def) (load_format p) f"
  obtain x f1 where d: "?resolve = (x, f1)" by fastforce
  show ?thesis
  proof (cases x)
    case (Inl e)
    then show ?thesis using assms Inr d by (auto simp: prepare_load_def execution_failure_from_def unwritten_def)
  next
    case (Inr directive)
    obtain y s2 f2 where r: "read_load W def p directive sink f1 = Some (y, s2, f2)"
      using assms d Inr \<open>validate_definition _ _ = _\<close> by (auto simp: prepare_load_def split: option.splits)
    show ?thesis
    proof (cases y)
      case (Inl e)
      then have fail: "fail = apply_pending_reject_threshold (reject_threshold def) e"
        using assms d Inr r \<open>validate_definition _ _ = _\<close> by (simp add: prepare_load_def)
      have "unwritten e" using read_load_unwritten [of W def p directive sink f1 e] r Inl by simp
      moreover have "ef_schema_decision e = None \<or> schema_failure e"
        using read_load_failure [of W def p directive sink f1 e] r Inl by simp
      ultimately show ?thesis using apply_pending_named [of e "reject_threshold def"] fail by auto
    next
      case (Inr sr)
      then obtain f3 where "gate_load def sr f2 = (Inl fail, f3)"
        using assms d r \<open>x = _\<close> \<open>validate_definition _ _ = _\<close>
        by (cases "gate_load def sr f2") (auto simp: prepare_load_def split: sum.splits)
      then have "\<exists>lf. fail = resolved_pre_write_failure lf (sr_schema_decision sr) (sr_source_rows sr) (sr_rejected_count sr)
          \<and> (reject_threshold def < sr_rejected_count sr \<longrightarrow>
               lf = reject_threshold_failure (sr_rejected_count sr) (sr_source_rows sr) (reject_threshold def))"
        by (auto simp: gate_load_def apfst_def map_prod_def map_err_eq_Inl_iff split: if_splits option.splits prod.splits sum.splits)
      then show ?thesis by (auto simp: resolved_pre_write_failure_def unwritten_def threshold_named_def)
    qed
  qed
qed

subsection \<open>Every load ends\<close>

lemma prepare_load_returns:
  assumes fresh: "tf_files f (sk_artifact_path (sink_new dir)) = None"
    and texts: "\<And>path. texts_read_back (lw_text W) (source_lines (lw_source W path))"
  shows "prepare_load W def (sink_new dir) f \<noteq> None"
proof (cases "validate_definition (lw_env W) def")
  case (Inr p)
  let ?resolve = "resolve_schema_directive (lw_yaml W) (ld_schema def) (ld_transform def) (load_format p) f"
  obtain x f1 where d: "?resolve = (x, f1)" by fastforce
  have f1: "tf_files f1 = tf_files f"
    using resolve_schema_directive_files [of "lw_yaml W" "ld_schema def" "ld_transform def" "load_format p" f] d by simp
  have fresh': "tf_files f1 (sk_artifact_path (sink_new dir)) = None" using fresh f1 by simp
  have "read_load W def p directive (sink_new dir) f1 \<noteq> None" for directive
    using read_jsonl_returns [where C = "lw_chrono W", OF sink_new_holds [OF fresh'] sink_new_paths_ok texts]
    by (simp add: read_load_def read_source_def Let_def del: not_None_eq)
  then show ?thesis
    using Inr d
    by (cases x) (simp_all add: prepare_load_def del: not_None_eq split: option.split prod.split sum.split)
qed (simp add: prepare_load_def)

lemma execute_load_definition_ends:
  assumes "execution_ok (ld_execution def)" "prepare_load W def sink f \<noteq> None"
  shows "\<exists>r sink' f' world'. execute_load_definition W def sink f world r sink' f' world'"
proof (cases "check_version def")
  case (Inl fail)
  show ?thesis by (intro exI) (rule version_refused [OF Inl])
next
  case (Inr u)
  obtain x sink' f' where prep: "prepare_load W def sink f = Some (x, sink', f')" using assms(2) by (cases "prepare_load W def sink f") auto
  have "\<exists>r s' g' w'. execute_supported_load W def sink f world r s' g' w'"
  proof (cases x)
    case (Inl fail)
    show ?thesis by (intro exI) (rule load_stopped [OF prep [unfolded Inl]])
  next
    case x: (Inr psr)
    obtain p sr where p: "psr = (p, sr)" by fastforce
    show ?thesis
      using write_phase_exists [of "resolve_retry_policy (ld_execution def)" "lw_destination W (lp_destination p) (lp_mode p)"
          "lp_mode p" "source_items W (sr_chunks sr)" "\<lparr>us_world = world, us_attempts = [], us_sleeps = []\<rparr>"]
        load_written [OF prep [unfolded x p]] load_parallelism_serial [OF assms(1), of p] by metis
  qed
  then obtain r s' g' w' where "execute_supported_load W def sink f world r s' g' w'" by blast
  then show ?thesis using Inr by (intro exI) (rule version_supported, simp_all)
qed

lemma run_load_ends:
  assumes wf: "\<And>yaml def. lw_definition W yaml = Inr def \<Longrightarrow> execution_ok (ld_execution def)"
    and fresh: "\<And>root. tf_files f (sk_artifact_path (sink_new (path_join root load_id))) = None"
    and texts: "\<And>path. texts_read_back (lw_text W) (source_lines (lw_source W path))"
  shows "\<exists>result f' world'. run_load W print load_id output_dir definition_path clock f world result f' world'"
proof -
  obtain def f1 where d: "read_load_definition (lw_definition W) definition_path f = (def, f1)" by fastforce
  let ?dir = "path_join (artifact_root output_dir def) load_id"
  obtain x f2 where c: "tf_create_dir_all ?dir f1 = (x, f2)" by fastforce
  have files: "tf_files f2 = tf_files f"
  proof -
    obtain c g where g: "tf_read_to_string definition_path f = (c, g)" by fastforce
    then have "f1 = g" using d by (auto simp: read_load_definition_def split: sum.splits option.splits)
    then show ?thesis
      using tf_read_to_string_files [of definition_path f] tf_create_dir_all_files [of ?dir f1] c g by simp
  qed
  show ?thesis
  proof (cases x)
    case (Inl error)
    show ?thesis by (intro exI) (rule directory_failed [OF d refl c [unfolded Inl]])
  next
    case (Inr u)
    have "\<exists>r sink f3 world'. load_or_failure W def (sink_new ?dir) f2 world r sink f3 world'"
    proof (cases def)
      case (Inl fail)
      show ?thesis unfolding Inl by (intro exI) (rule definition_unread)
    next
      case def: (Inr def0)
      have "execution_ok (ld_execution def0)"
        using d wf unfolding def
        by (auto simp: read_load_definition_def map_err_eq_Inr_iff split: prod.splits sum.splits option.splits)
      moreover have "prepare_load W def0 (sink_new ?dir) f2 \<noteq> None"
        by (rule prepare_load_returns) (use fresh files texts in simp_all)
      ultimately show ?thesis
        using execute_load_definition_ends [of def0 W "sink_new ?dir" f2 world] definition_read def by metis
    qed
    then obtain r sink f3 world' where l: "load_or_failure W def (sink_new ?dir) f2 world r sink f3 world'" by blast
    obtain result f4 where "conclude_load W print load_id ?dir clock r sink f3 = (result, f4)" by fastforce
    from load_concluded [OF d refl c [unfolded Inr] l this] show ?thesis by blast
  qed
qed

text \<open>And in one way: with one unit at a time nothing of a load is left open.\<close>

lemma write_phase_once:
  "write_phase policy D mode 1 chunks st r s \<Longrightarrow> write_phase policy D mode 1 chunks st r' s' \<Longrightarrow> r' = r \<and> s' = s"
  by (auto elim!: write_phaseE)

lemma execute_supported_load_once:
  assumes "execution_ok (ld_execution def)" "execute_supported_load W def sink f world r s g w"
    "execute_supported_load W def sink f world r' s' g' w'"
  shows "r' = r \<and> s' = s \<and> g' = g \<and> w' = w"
  using assms(2)
proof (cases rule: execute_supported_load.cases)
  case (load_stopped fail)
  then show ?thesis using assms(3) by (auto elim: execute_supported_loadE)
next
  case (load_written p sr r1 st)
  note one = load_parallelism_serial [OF assms(1)]
  from assms(3) show ?thesis
  proof (cases rule: execute_supported_load.cases)
    case (load_written p' sr' r2 st2)
    then have "p' = p" "sr' = sr" "s' = s" "g' = g" using \<open>prepare_load W def sink f = Some (Inr (p, sr), s, g)\<close> by simp_all
    then show ?thesis
      using load_written write_phase_once [OF \<open>write_phase _ _ _ _ _ _ r1 st\<close> [unfolded one]] \<open>r = _\<close> \<open>w = _\<close> one by auto
  qed (use \<open>prepare_load W def sink f = Some (Inr (p, sr), s, g)\<close> in simp)
qed

lemma execute_load_definition_once:
  assumes "execution_ok (ld_execution def)" "execute_load_definition W def sink f world r s g w"
    "execute_load_definition W def sink f world r' s' g' w'"
  shows "r' = r \<and> s' = s \<and> g' = g \<and> w' = w"
  using assms(2)
proof (cases rule: execute_load_definition.cases)
  case (version_refused fail)
  then show ?thesis using assms(3) by (auto elim: execute_load_definitionE)
next
  case (version_supported r1)
  note first = this
  from assms(3) show ?thesis
  proof (cases rule: execute_load_definition.cases)
    case (version_supported r2)
    then show ?thesis using execute_supported_load_once [OF assms(1) first(3) version_supported(3)] first(1) version_supported(1) by simp
  qed (use first(2) in simp)
qed

lemma load_or_failure_once:
  assumes "\<And>d. def = Inr d \<Longrightarrow> execution_ok (ld_execution d)" "load_or_failure W def sink f world r s g w"
    "load_or_failure W def sink f world r' s' g' w'"
  shows "r' = r \<and> s' = s \<and> g' = g \<and> w' = w"
  using assms(2)
proof (cases rule: load_or_failure.cases)
  case (definition_unread fail)
  then show ?thesis using assms(3) by (auto elim: load_or_failureE)
next
  case (definition_read d)
  then show ?thesis
    using load_or_failureE [OF assms(3)] execute_load_definition_once [OF assms(1) definition_read(2)] by (metis Inl_Inr_False Inr_inject)
qed

lemma run_load_once:
  assumes wf: "\<And>yaml def. lw_definition W yaml = Inr def \<Longrightarrow> execution_ok (ld_execution def)"
    and run: "run_load W print load_id output_dir definition_path clock f world result g w"
      "run_load W print load_id output_dir definition_path clock f world result' g' w'"
  shows "result' = result \<and> g' = g \<and> w' = w"
proof -
  have ok: "execution_ok (ld_execution d)" if "read_load_definition (lw_definition W) definition_path f = (Inr d, f1)" for d f1
    using that wf by (auto simp: read_load_definition_def map_err_eq_Inr_iff split: prod.splits sum.splits option.splits)
  from run(1) show ?thesis
  proof (cases rule: run_load.cases)
    case (directory_failed def f1 dir error)
    then show ?thesis using run(2) by (auto elim!: run_loadE)
  next
    case (load_concluded def f1 dir u f2 r sink f3)
    note first = this
    from run(2) show ?thesis
    proof (cases rule: run_load.cases)
      case (load_concluded def' f1' dir' u' f2' r' sink' f3')
      then have same: "def' = def" "dir' = dir" "f2' = f2" using first(1-3) by auto
      have "r' = r \<and> sink' = sink \<and> f3' = f3 \<and> w' = w"
        by (rule load_or_failure_once [OF _ first(4) load_concluded(4) [unfolded same]]) (use first(1) ok in auto)
      then show ?thesis using first(5) load_concluded(5) same by simp
    qed (use first(1-3) in auto)
  qed
qed

subsection \<open>The report\<close>

lemma conclude_load_Inr:
  assumes "conclude_load W print load_id dir clock r sink f = (Inr report, f')"
  shows "report = assemble_report (lw_binary_version W) load_id dir clock r"
    "tf_files f' = (tf_files f)(path_join dir LOAD_REPORT_FILENAME := Some (print report))"
    "sk_io_error sink = None"
proof -
  obtain sink2 f2 where t: "take_io_error sink f = (None, sink2, f2)"
    using assms by (auto simp: conclude_load_def split: prod.splits option.splits)
  note t' = take_io_error_None [OF t]
  show "sk_io_error sink = None" using t' by simp
  show report: "report = assemble_report (lw_binary_version W) load_id dir clock r"
    using assms t by (auto simp: conclude_load_def Let_def split: prod.splits sum.splits)
  have "tf_write_file (path_join dir LOAD_REPORT_FILENAME) (print report) f2 = (Inr (), f')"
    using assms t report by (auto simp: conclude_load_def Let_def split: prod.splits sum.splits)
  then show "tf_files f' = (tf_files f)(path_join dir LOAD_REPORT_FILENAME := Some (print report))"
    using tf_write_file_files t' by metis
qed

lemma load_or_failure_counts:
  assumes "load_or_failure W def sink f world (Inr details) sink' f' world'"
  shows "xd_rejected_count details = rw_rejected (xd_row_counts details)
    \<and> rw_written (xd_row_counts details) = rw_source (xd_row_counts details) - rw_rejected (xd_row_counts details)"
  using assms
  by (auto elim!: load_or_failureE execute_load_definitionE execute_supported_loadE
      simp: finish_load_def success_details_def map_err_eq_Inr_iff split: sum.splits)

lemma serial_load_runs:
  assumes prep: "prepare_load W def sink f = Some (Inr (p, sr), sink', f')" and "load_parallelism def p = 1"
    and begun: "run_unit (resolve_retry_policy (ld_execution def)) Unit_Begin
      (d_begin (lw_destination W (lp_destination p) (lp_mode p)) (lp_mode p)) \<lparr>us_world = world, us_attempts = [], us_sleeps = []\<rparr>
      = (Inr u, st1)"
    and run: "run_serial_write_phase (resolve_retry_policy (ld_execution def)) (lw_destination W (lp_destination p) (lp_mode p))
      (source_items W (sr_chunks sr)) st1 = (Inr outcome, st2)"
  shows "execute_supported_load W def sink f world (Inr (success_details W def p sr (us_attempts st2) outcome)) sink' f' (us_world st2)"
  using load_written [OF prep phase_serial [OF begun assms(2) run]] by (simp add: finish_load_def)

end
