(* ===== verification/Sqlserver.thy ===== *)
theory Sqlserver
  imports Destination_Factory Quoted_Text
begin

section \<open>The SQL Server type mapping\<close>

text \<open>
  \<open>src/sqlserver.rs\<close>, lines 32 to 553: the column types of a dataset schema and its
  \<open>CREATE TABLE\<close> statement, the plan that reads a chunk's columns in the order of a table, and the
  wire values of its records. A driver value is what the source hands its constructor:
  \<open>Date::new\<close> a day count from 0001-01-01, \<open>Time::new\<close> increments and their scale. Arrow's
  \<open>Display\<close> of a type and chrono's calendar are parameters. The scale of a decimal type is a
  natural number here, so its conversion to \<open>u8\<close> cannot fail.
\<close>

record wall_clock =
  wc_year :: int
  wc_month :: nat
  wc_day :: nat
  wc_hour :: nat
  wc_minute :: nat
  wc_second :: nat
  wc_nanosecond :: nat

record sql_env =
  se_display :: "arrow_type \<Rightarrow> string"
  se_instant :: "int \<Rightarrow> wall_clock option"

definition sql_write_failure :: "msg \<Rightarrow> load_failure" where
  "sql_write_failure message = failure ''destination_write_failed'' message"

subsection \<open>The created shape\<close>

definition bracket_quote :: "string \<Rightarrow> string" where
  "bracket_quote name = CHR 0x5B # doubled (CHR 0x5D) name @ [CHR 0x5D]"

datatype sql_column_type =
    CT_BigInt | CT_Float53 | CT_Bit | CT_NvarcharMax | CT_DateTime2Micros
  | CT_Decimal (ct_precision: nat) (ct_scale: nat)

definition unmapped_field :: "sql_env \<Rightarrow> arrow_field \<Rightarrow> load_failure" where
  "unmapped_field E field = sql_write_failure
     [Lit ''dataset field '', Txt (af_name field), Lit '' has no SQL Server column type mapping: '',
      Txt (se_display E (af_type field))]"

definition from_arrow :: "sql_env \<Rightarrow> arrow_field \<Rightarrow> (load_failure, sql_column_type) result" where
  "from_arrow E field = (case af_type field of
     Arrow_Int64 \<Rightarrow> Inr CT_BigInt
   | Arrow_Float64 \<Rightarrow> Inr CT_Float53
   | Arrow_Boolean \<Rightarrow> Inr CT_Bit
   | Arrow_Utf8 \<Rightarrow> Inr CT_NvarcharMax
   | Arrow_Timestamp_Micros None \<Rightarrow> Inr CT_DateTime2Micros
   | Arrow_Timestamp_Micros (Some zone) \<Rightarrow>
       if zone = ''UTC'' then Inr CT_DateTime2Micros else Inl (unmapped_field E field)
   | Arrow_Decimal128 prec sc \<Rightarrow>
       if 1 \<le> prec \<and> prec \<le> 38 \<and> sc \<le> prec then Inr (CT_Decimal prec sc)
       else Inl (unmapped_field E field))"

fun ddl :: "sql_column_type \<Rightarrow> string" where
  "ddl CT_BigInt = ''BIGINT''"
| "ddl CT_Float53 = ''FLOAT(53)''"
| "ddl CT_Bit = ''BIT''"
| "ddl CT_NvarcharMax = ''NVARCHAR(MAX)''"
| "ddl CT_DateTime2Micros = ''DATETIME2(6)''"
| "ddl (CT_Decimal prec sc) = ''DECIMAL('' @ show_nat prec @ '','' @ show_nat sc @ '')''"

definition column_ddl :: "sql_env \<Rightarrow> arrow_field \<Rightarrow> (load_failure, string) result" where
  "column_ddl E field = rmap
     (\<lambda>ctype. bracket_quote (af_name field) @ '' '' @ ddl ctype @ '' ''
        @ (if af_nullable field then ''NULL'' else ''NOT NULL''))
     (from_arrow E field)"

definition qualified_name :: "string \<Rightarrow> string \<Rightarrow> string" where
  "qualified_name schema_name table_name = bracket_quote schema_name @ ''.'' @ bracket_quote table_name"

definition create_table_ddl ::
  "sql_env \<Rightarrow> arrow_field list \<Rightarrow> string \<Rightarrow> string \<Rightarrow> (load_failure, string) result" where
  "create_table_ddl E dataset schema_name table_name =
     (if dataset = [] then Inl (sql_write_failure
        [Lit ''cannot create SQL Server table '', Txt (qualified_name schema_name table_name),
         Lit '': the dataset schema has no fields''])
      else rmap (\<lambda>columns. ''CREATE TABLE '' @ qualified_name schema_name table_name @ '' ('' @ join '', '' columns @ '')'')
        (traverse (column_ddl E) dataset))"

subsection \<open>Wire values\<close>

record datetime2 =
  d2_days :: nat
  d2_increments :: nat
  d2_scale :: nat

record datetime =
  dt1_days :: int
  dt1_ticks :: nat

record numeric =
  nm_value :: int
  nm_scale :: nat

datatype column_data =
    CD_I64 "int option"
  | CD_I32 "int option"
  | CD_I16 "int option"
  | CD_U8 "int option"
  | CD_F64 "f64 option"
  | CD_Bit "bool option"
  | CD_String "string option"
  | CD_DateTime2 "datetime2 option"
  | CD_DateTime "datetime option"
  | CD_Numeric "numeric option"

definition MICROS_PER_DAY :: int where
  "MICROS_PER_DAY = 86400000000"

definition DAYS_FROM_DATETIME2_ORIGIN_TO_UNIX_EPOCH :: int where
  "DAYS_FROM_DATETIME2_ORIGIN_TO_UNIX_EPOCH = 719162"

definition LAST_DATETIME2_DAY :: int where
  "LAST_DATETIME2_DAY = 3652058"

definition datetime2_from_micros :: "int \<Rightarrow> datetime2 option" where
  "datetime2_from_micros micros_since_epoch =
     (let day = micros_since_epoch div MICROS_PER_DAY + DAYS_FROM_DATETIME2_ORIGIN_TO_UNIX_EPOCH in
      if \<not> (0 \<le> day \<and> day \<le> LAST_DATETIME2_DAY) then None
      else let micros_of_day = micros_since_epoch mod MICROS_PER_DAY in
        Some \<lparr>d2_days = nat day, d2_increments = nat micros_of_day, d2_scale = 6\<rparr>)"

definition show_int :: "int \<Rightarrow> string" where
  "show_int i = (if i < 0 then CHR ''-'' # show_nat (nat (- i)) else show_nat (nat i))"

text \<open>\<open>{:04}\<close> and its like: zeros after the sign, up to the width; a longer number is written whole.\<close>

definition zero_padded :: "nat \<Rightarrow> int \<Rightarrow> string" where
  "zero_padded width i =
     (let sign = (if i < 0 then ''-'' else ''''); digits = show_nat (nat \<bar>i\<bar>) in
      sign @ replicate (width - length sign - length digits) (CHR ''0'') @ digits)"

definition render_wall_clock :: "wall_clock \<Rightarrow> string" where
  "render_wall_clock v =
     zero_padded 4 (wc_year v) @ ''-'' @ zero_padded 2 (int (wc_month v)) @ ''-'' @ zero_padded 2 (int (wc_day v))
     @ ''T'' @ zero_padded 2 (int (wc_hour v)) @ '':'' @ zero_padded 2 (int (wc_minute v)) @ '':''
     @ zero_padded 2 (int (wc_second v)) @ ''.'' @ zero_padded 6 (int (wc_nanosecond v div 1000))"

definition datetime2_out_of_range :: "sql_env \<Rightarrow> string \<Rightarrow> nat \<Rightarrow> int \<Rightarrow> load_failure" where
  "datetime2_out_of_range E column rec micros_since_epoch =
     (let rendered = (case se_instant E micros_since_epoch of
            Some v \<Rightarrow> render_wall_clock v
          | None \<Rightarrow> show_int micros_since_epoch @ '' microseconds since 1970-01-01'')
      in sql_write_failure
        [Lit ''record '', Num rec, Lit '' of the chunk holds timestamp '', Txt rendered, Lit '' in dataset field '',
         Txt column, Lit '', outside the SQL Server DATETIME2 range 0001-01-01 to 9999-12-31''])"

text \<open>\<open>try_from\<close> within a range, under the null; \<open>adapt\<close> of a present value.\<close>

fun transposed :: "('a \<Rightarrow> ('e, 'b) result) \<Rightarrow> 'a option \<Rightarrow> ('e, 'b option) result" where
  "transposed f None = Inr None"
| "transposed f (Some v) = rmap Some (f v)"

definition within :: "load_failure \<Rightarrow> int \<Rightarrow> int \<Rightarrow> int \<Rightarrow> (load_failure, int) result" where
  "within out_of_range least most v = (if least \<le> v \<and> v \<le> most then Inr v else Inl out_of_range)"

definition to_datetime :: "load_failure \<Rightarrow> datetime2 \<Rightarrow> (load_failure, datetime) result" where
  "to_datetime out_of_range v =
     (let ticks = (d2_increments v * 300 + 500000) div 1000000;
          day = d2_days v + ticks div 25920000
      in if \<not> (639905 \<le> day \<and> day \<le> 3652058) then Inl out_of_range
         else Inr \<lparr>dt1_days = int day - 693595, dt1_ticks = ticks mod 25920000\<rparr>)"

definition to_scale :: "load_failure \<Rightarrow> nat \<Rightarrow> datetime2 \<Rightarrow> (load_failure, datetime2) result" where
  "to_scale out_of_range sc v =
     (let divisor = 10 ^ (6 - sc);
          ticks = (d2_increments v + divisor div 2) div divisor;
          per_day = 86400 * 10 ^ sc;
          day = d2_days v + ticks div per_day
      in if 3652058 < day then Inl out_of_range
         else Inr \<lparr>d2_days = day, d2_increments = ticks mod per_day, d2_scale = sc\<rparr>)"

definition adapt_value :: "column_data \<Rightarrow> string \<Rightarrow> string \<Rightarrow> nat \<Rightarrow> (load_failure, column_data) result" where
  "adapt_value value name tname sc =
     (let out_of_range = sql_write_failure
            [Lit ''dataset field '', Txt name, Lit '' is outside the SQL Server '', Txt tname, Lit '' range'']
      in case value of
           CD_I64 v \<Rightarrow>
             if tname = ''int'' then rmap CD_I32 (transposed (within out_of_range (- (2 ^ 31)) (2 ^ 31 - 1)) v)
             else if tname = ''smallint'' then rmap CD_I16 (transposed (within out_of_range (- (2 ^ 15)) (2 ^ 15 - 1)) v)
             else if tname = ''tinyint'' then rmap CD_U8 (transposed (within out_of_range 0 255) v)
             else Inr value
         | CD_DateTime2 v \<Rightarrow>
             if tname = ''datetime'' then rmap CD_DateTime (transposed (to_datetime out_of_range) v)
             else if tname = ''datetime2'' \<and> sc < 6 then
               rmap CD_DateTime2 (transposed (to_scale out_of_range sc) v)
             else Inr value
         | _ \<Rightarrow> Inr value)"

subsection \<open>The plan of a table's columns\<close>

record table_column =
  tc_name :: string
  tc_type_name :: string
  tc_precision :: nat
  tc_scale :: nat
  tc_max_length :: int
  tc_nullable :: bool
  tc_identity :: bool
  tc_has_default :: bool

type_synonym table_shape = "table_column list"

record planned_column =
  pc_name :: string
  pc_field_index :: nat
  pc_wire_type :: "(string \<times> nat) option"
  pc_column_type :: sql_column_type

record bulk_row_plan =
  bp_dataset :: "arrow_field list"
  bp_columns :: "planned_column list"

fun plan_columns ::
  "sql_env \<Rightarrow> arrow_field list \<Rightarrow> bool list \<Rightarrow> string list \<Rightarrow> (load_failure, bool list \<times> planned_column list) result" where
  "plan_columns E dataset planned [] = Inr (planned, [])"
| "plan_columns E dataset planned (name # names) = (case index_of dataset name of
     None \<Rightarrow> Inl (sql_write_failure
       [Lit ''SQL Server table column '', Txt name, Lit '' has no dataset field of that name''])
   | Some field_index \<Rightarrow>
       if planned ! field_index then Inl (sql_write_failure
         [Lit ''SQL Server table column '', Txt name, Lit '' is listed more than once''])
       else rbind (from_arrow E (dataset ! field_index)) (\<lambda>ctype.
         rmap (apsnd (Cons \<lparr>pc_name = name, pc_field_index = field_index, pc_wire_type = None,
                             pc_column_type = ctype\<rparr>))
           (plan_columns E dataset (planned[field_index := True]) names)))"

definition bulk_row_plan_new ::
  "sql_env \<Rightarrow> arrow_field list \<Rightarrow> string list \<Rightarrow> (load_failure, bulk_row_plan) result" where
  "bulk_row_plan_new E dataset table_columns =
     rbind (plan_columns E dataset (replicate (length dataset) False) table_columns) (\<lambda>(planned, columns).
       case List.find (\<lambda>index. \<not> planned ! index) [0..<length planned] of
         Some index \<Rightarrow> Inl (sql_write_failure
           [Lit ''dataset field '', Txt (af_name (dataset ! index)), Lit '' has no SQL Server table column''])
       | None \<Rightarrow> Inr \<lparr>bp_dataset = dataset, bp_columns = columns\<rparr>)"

definition bulk_row_plan_for_table ::
  "sql_env \<Rightarrow> arrow_field list \<Rightarrow> table_shape \<Rightarrow> (load_failure, bulk_row_plan) result" where
  "bulk_row_plan_for_table E dataset shape =
     (let mapped = filter (\<lambda>column. index_of dataset (tc_name column) \<noteq> None) shape in
      rmap (\<lambda>plan. plan\<lparr>bp_columns := map2 (\<lambda>planned column.
              planned\<lparr>pc_wire_type := Some (tc_type_name column, tc_scale column)\<rparr>) (bp_columns plan) mapped\<rparr>)
        (bulk_row_plan_new E dataset (map tc_name mapped)))"

definition plan_column_names :: "bulk_row_plan \<Rightarrow> string list" where
  "plan_column_names plan = map pc_name (bp_columns plan)"

subsection \<open>Readers\<close>

datatype column_reader =
    Adapted column_reader string string nat
  | Read_BigInt "int option list"
  | Read_Float53 "f64 option list"
  | Read_Bit "bool option list"
  | Read_NvarcharMax "string option list"
  | Read_DateTime2Micros string "int option list"
  | Read_Numeric nat "int option list"

definition not_that_array :: "planned_column \<Rightarrow> load_failure" where
  "not_that_array column = sql_write_failure
     [Lit ''chunk column '', Txt (pc_name column), Lit '' is not the '', Txt (ddl (pc_column_type column)),
      Lit '' array its dataset field materializes as'']"

definition column_reader_new :: "planned_column \<Rightarrow> column \<Rightarrow> (load_failure, column_reader) result" where
  "column_reader_new column array = (case pc_column_type column of
     CT_BigInt \<Rightarrow> (case array of Col_Int64 xs \<Rightarrow> Inr (Read_BigInt xs) | _ \<Rightarrow> Inl (not_that_array column))
   | CT_Float53 \<Rightarrow> (case array of Col_Float64 xs \<Rightarrow> Inr (Read_Float53 xs) | _ \<Rightarrow> Inl (not_that_array column))
   | CT_Bit \<Rightarrow> (case array of Col_Boolean xs \<Rightarrow> Inr (Read_Bit xs) | _ \<Rightarrow> Inl (not_that_array column))
   | CT_NvarcharMax \<Rightarrow> (case array of Col_Utf8 xs \<Rightarrow> Inr (Read_NvarcharMax xs) | _ \<Rightarrow> Inl (not_that_array column))
   | CT_DateTime2Micros \<Rightarrow> (case array of
        Col_Timestamp _ xs \<Rightarrow> Inr (Read_DateTime2Micros (pc_name column) xs) | _ \<Rightarrow> Inl (not_that_array column))
   | CT_Decimal _ sc \<Rightarrow> (case array of
        Col_Decimal _ _ xs \<Rightarrow> Inr (Read_Numeric sc xs) | _ \<Rightarrow> Inl (not_that_array column)))"

fun reader_value :: "sql_env \<Rightarrow> column_reader \<Rightarrow> nat \<Rightarrow> (load_failure, column_data) result" where
  "reader_value E (Adapted reader name tname sc) rec =
     rbind (reader_value E reader rec) (\<lambda>value. adapt_value value name tname sc)"
| "reader_value E (Read_BigInt array) rec = Inr (CD_I64 (array ! rec))"
| "reader_value E (Read_Float53 array) rec = Inr (CD_F64 (array ! rec))"
| "reader_value E (Read_Bit array) rec = Inr (CD_Bit (array ! rec))"
| "reader_value E (Read_NvarcharMax array) rec = Inr (CD_String (array ! rec))"
| "reader_value E (Read_DateTime2Micros name array) rec = rmap CD_DateTime2
     (transposed (\<lambda>micros. ok_or (datetime2_from_micros micros) (datetime2_out_of_range E name rec micros)) (array ! rec))"
| "reader_value E (Read_Numeric sc array) rec =
     Inr (CD_Numeric (map_option (\<lambda>value. \<lparr>nm_value = value, nm_scale = sc\<rparr>) (array ! rec)))"

definition plan_reader :: "record_batch \<Rightarrow> planned_column \<Rightarrow> (load_failure, column_reader) result" where
  "plan_reader batch column =
     rmap (\<lambda>reader. case pc_wire_type column of
             Some (tname, sc) \<Rightarrow> Adapted reader (pc_name column) tname sc
           | None \<Rightarrow> reader)
       (column_reader_new column (rb_columns batch ! pc_field_index column))"

subsection \<open>The rows of a chunk\<close>

record bulk_rows =
  br_readers :: "column_reader list"
  br_next :: nat
  br_len :: nat

definition plan_rows :: "bulk_row_plan \<Rightarrow> record_batch \<Rightarrow> (load_failure, bulk_rows) result" where
  "plan_rows plan batch =
     (if rb_schema batch \<noteq> bp_dataset plan then Inl (sql_write_failure
        [Lit ''chunk schema differs from the dataset schema the SQL Server bulk rows were planned for''])
      else rmap (\<lambda>readers. \<lparr>br_readers = readers, br_next = 0, br_len = rb_rows batch\<rparr>)
        (traverse (plan_reader batch) (bp_columns plan)))"

definition next_row ::
  "sql_env \<Rightarrow> bulk_rows \<Rightarrow> (load_failure, column_data list) result option \<times> bulk_rows" where
  "next_row E rows =
     (if br_len rows \<le> br_next rows then (None, rows)
      else let rec = br_next rows; rows = rows\<lparr>br_next := rec + 1\<rparr> in
        case traverse (\<lambda>reader. reader_value E reader rec) (br_readers rows) of
          Inr row \<Rightarrow> (Some (Inr row), rows)
        | Inl fail \<Rightarrow> (Some (Inl fail), rows\<lparr>br_next := br_len rows\<rparr>))"

lemma next_row_advances:
  "next_row E rows = (Some x, rows') \<Longrightarrow> br_len rows' = br_len rows \<and> br_len rows' - br_next rows' < br_len rows - br_next rows"
  by (auto simp: next_row_def Let_def split: if_splits sum.splits)

end
