(* ===== verification/Sqlserver_Table.thy ===== *)
theory Sqlserver_Table
  imports Sqlserver
begin

section \<open>Existing SQL Server tables\<close>

text \<open>
  \<open>src/sqlserver/table.rs\<close>, lines 8 to 154: the catalog query, the table shape its rows give, and
  the validation of a dataset schema against that shape.
\<close>

definition introspection_query :: "string \<Rightarrow> string \<Rightarrow> string" where
  "introspection_query schema_name table_name =
     ''SELECT c.name, COALESCE(t.name, TYPE_NAME(c.user_type_id)), c.precision, c.scale, c.max_length, ''
     @ ''c.is_nullable, c.is_identity, CAST(CASE WHEN c.default_object_id <> 0 THEN 1 ELSE 0 END AS bit) ''
     @ ''FROM sys.columns AS c LEFT JOIN sys.types AS t ON t.user_type_id = c.system_type_id ''
     @ ''WHERE c.object_id = OBJECT_ID(N'' @ [CHR 0x27] @ doubled (CHR 0x27) (qualified_name schema_name table_name) @ [CHR 0x27]
     @ '', N'' @ [CHR 0x27] @ ''U'' @ [CHR 0x27] @ '') ORDER BY c.column_id''"

fun string_cell :: "column_data \<Rightarrow> string option" where
  "string_cell (CD_String v) = v" | "string_cell _ = None"

fun u8_cell :: "column_data \<Rightarrow> int option" where
  "u8_cell (CD_U8 v) = v" | "u8_cell _ = None"

fun i16_cell :: "column_data \<Rightarrow> int option" where
  "i16_cell (CD_I16 v) = v" | "i16_cell _ = None"

fun bit_cell :: "column_data \<Rightarrow> bool option" where
  "bit_cell (CD_Bit v) = v" | "bit_cell _ = None"

definition invalid_metadata :: load_failure where
  "invalid_metadata = sql_write_failure [Lit ''invalid SQL Server catalog column metadata'']"

definition catalog_column :: "column_data list \<Rightarrow> (load_failure, table_column) result" where
  "catalog_column cells = (case cells of
     [c1, c2, c3, c4, c5, c6, c7, c8] \<Rightarrow>
       (case (string_cell c1, string_cell c2, u8_cell c3, u8_cell c4, i16_cell c5, bit_cell c6, bit_cell c7, bit_cell c8) of
          (Some name, Some tname, Some prec, Some sc, Some max_length, Some nullable, Some identity, Some has_default) \<Rightarrow>
            Inr \<lparr>tc_name = name, tc_type_name = tname, tc_precision = nat prec, tc_scale = nat sc,
                 tc_max_length = max_length, tc_nullable = nullable, tc_identity = identity, tc_has_default = has_default\<rparr>
        | _ \<Rightarrow> Inl invalid_metadata)
   | _ \<Rightarrow> Inl invalid_metadata)"

definition from_catalog_rows :: "column_data list list \<Rightarrow> (load_failure, table_shape) result" where
  "from_catalog_rows rows = traverse catalog_column rows"

subsection \<open>Validation\<close>

definition accepted_type :: "sql_env \<Rightarrow> bool \<Rightarrow> arrow_field \<Rightarrow> table_column \<Rightarrow> bool" where
  "accepted_type E accept_datetime_rounding field column = (case from_arrow E field of
     Inr CT_BigInt \<Rightarrow> tc_type_name column \<in> {''bigint'', ''int'', ''smallint'', ''tinyint''}
   | Inr CT_Float53 \<Rightarrow> tc_type_name column = ''float'' \<and> tc_precision column = 53
   | Inr CT_Bit \<Rightarrow> tc_type_name column = ''bit''
   | Inr CT_NvarcharMax \<Rightarrow> tc_type_name column = ''nvarchar''
   | Inr (CT_Decimal _ sc) \<Rightarrow> tc_type_name column \<in> {''decimal'', ''numeric''} \<and> tc_scale column = sc
   | Inr CT_DateTime2Micros \<Rightarrow>
       if tc_type_name column = ''datetime2'' then 6 \<le> tc_scale column \<or> accept_datetime_rounding
       else if tc_type_name column = ''datetime'' then accept_datetime_rounding
       else False
   | Inl _ \<Rightarrow> False)"

definition show_bool :: "bool \<Rightarrow> string" where
  "show_bool b = (if b then ''true'' else ''false'')"

definition field_violations ::
  "sql_env \<Rightarrow> table_shape \<Rightarrow> load_mode \<Rightarrow> string list \<Rightarrow> bool \<Rightarrow> arrow_field \<Rightarrow> msg list" where
  "field_violations E shape mode merge_keys accept_datetime_rounding field =
     (case List.find (\<lambda>column. tc_name column = af_name field) shape of
        None \<Rightarrow> [[Lit ''column '', Txt (af_name field), Lit '': missing destination column (names must match exactly)'']]
      | Some column \<Rightarrow>
          (if \<not> accepted_type E accept_datetime_rounding field column then
             [[Lit ''column '', Txt (tc_name column), Lit '': '', Txt (tc_type_name column), Lit '' is incompatible with '',
               Txt (se_display E (af_type field)), Lit '' (precision='', Num (tc_precision column), Lit '', scale='',
               Num (tc_scale column), Lit '', max_length='', Txt (show_int (tc_max_length column)),
               Lit ''; accept_datetime_rounding='', Txt (show_bool accept_datetime_rounding), Lit '')'']]
           else [])
          @ (if af_nullable field \<and> \<not> tc_nullable column then
               [[Lit ''column '', Txt (tc_name column), Lit '': NOT NULL cannot receive a nullable dataset field'']]
             else [])
          @ (if tc_identity column \<and> \<not> (mode = Merge \<and> af_name field \<in> set merge_keys) then
               [[Lit ''column '', Txt (tc_name column),
                 Lit '': mapped IDENTITY is allowed only as a merge key in merge mode'']]
             else [])
          @ (if tc_has_default column \<and> af_nullable field \<and> mode \<noteq> Merge then
               [[Lit ''column '', Txt (tc_name column),
                 Lit '': DEFAULT would replace explicit NULL in append or full refresh'']]
             else []))"

definition extra_column_violations :: "arrow_field list \<Rightarrow> table_column \<Rightarrow> msg list" where
  "extra_column_violations dataset column =
     (if index_of dataset (tc_name column) = None \<and> \<not> tc_nullable column \<and> \<not> tc_identity column
         \<and> \<not> tc_has_default column
      then [[Lit ''column '', Txt (tc_name column), Lit '': extra NOT NULL column has neither IDENTITY nor DEFAULT'']]
      else [])"

definition validate_shape ::
  "sql_env \<Rightarrow> table_shape \<Rightarrow> arrow_field list \<Rightarrow> load_mode \<Rightarrow> string list \<Rightarrow> bool \<Rightarrow> (load_failure, unit) result" where
  "validate_shape E shape dataset mode merge_keys accept_datetime_rounding =
     (let violations = concat (map (field_violations E shape mode merge_keys accept_datetime_rounding) dataset)
            @ concat (map (extra_column_violations dataset) shape)
      in if violations = [] then Inr ()
         else Inl (failure ''incompatible_destination_table'' (join_msgs ''; '' violations)))"

end
