(* ===== verification/Sqlserver_Session.thy ===== *)
theory Sqlserver_Session
  imports Sqlserver_Table Duckdb
begin

section \<open>The SQL Server session\<close>

text \<open>
  \<open>src/sqlserver/session.rs\<close>, lines 15 to 455: a session of one connection, in the three load modes.
  The driver and the runtime are a parameter: a record of the calls the source makes, over a
  state \<open>'c\<close> of the server and the connection. \<open>ss_query\<close> sends a text and reads its results to the
  end; \<open>ss_counts\<close> is a query whose one row holds two counts, on any other answer the source
  panics. The connecting calls run under one deadline: \<open>None\<close> is its expiry. \<open>ss_drop\<close> closes the
  connection, which the source does where it lets the client go. The writer and its locked
  session are one record.
\<close>

record client_config =
  cc_host :: string
  cc_port :: nat
  cc_database :: string
  cc_application_name :: string
  cc_user :: string
  cc_password :: string
  cc_encryption_off :: bool
  cc_trust_cert :: bool

record 'c sqlserver =
  ss_runtime :: "'c \<Rightarrow> (string, unit) result \<times> 'c"
  ss_variable :: "string \<Rightarrow> string option"
  ss_tcp_connect :: "string \<Rightarrow> nat \<Rightarrow> 'c \<Rightarrow> (string, unit) result option \<times> 'c"
  ss_set_nodelay :: "'c \<Rightarrow> (string, unit) result \<times> 'c"
  ss_client_connect :: "client_config \<Rightarrow> 'c \<Rightarrow> (string, unit) result option \<times> 'c"
  ss_query :: "string \<Rightarrow> 'c \<Rightarrow> (string, column_data list list) result \<times> 'c"
  ss_counts :: "string \<Rightarrow> 'c \<Rightarrow> (string, nat \<times> nat) result \<times> 'c"
  ss_bulk_insert :: "string \<Rightarrow> string list \<Rightarrow> 'c \<Rightarrow> (string, unit) result \<times> 'c"
  ss_send :: "column_data list \<Rightarrow> 'c \<Rightarrow> (string, unit) result \<times> 'c"
  ss_finalize :: "'c \<Rightarrow> (string, unit) result \<times> 'c"
  ss_drop :: "'c \<Rightarrow> 'c"

record 'c sql_writer =
  sw_address :: sqlserver_config
  sw_mode :: load_mode
  sw_merge_keys :: "string list"
  sw_stage :: string
  sw_client :: 'c
  sw_plan :: "bulk_row_plan option"
  sw_shape :: "table_shape option"
  sw_transaction :: bool
  sw_identity_insert :: bool
  sw_committed_chunks :: nat
  sw_written_records :: nat

subsection \<open>Calls in sequence\<close>

text \<open>The \<open>?\<close> of the source: the first failure ends the sequence, with the state it left.\<close>

definition op_bind ::
  "('s \<Rightarrow> ('e, 'a) result \<times> 's) \<Rightarrow> ('a \<Rightarrow> 's \<Rightarrow> ('e, 'b) result \<times> 's) \<Rightarrow> 's \<Rightarrow> ('e, 'b) result \<times> 's" where
  "op_bind m k s = (case m s of (Inl e, s') \<Rightarrow> (Inl e, s') | (Inr x, s') \<Rightarrow> k x s')"

definition op_lift :: "('e, 'a) result \<Rightarrow> 's \<Rightarrow> ('e, 'a) result \<times> 's" where
  "op_lift r s = (r, s)"

definition op_modify :: "('s \<Rightarrow> 's) \<Rightarrow> 's \<Rightarrow> ('e, unit) result \<times> 's" where
  "op_modify f s = (Inr (), f s)"

definition op_when :: "bool \<Rightarrow> ('s \<Rightarrow> ('e, unit) result \<times> 's) \<Rightarrow> 's \<Rightarrow> ('e, unit) result \<times> 's" where
  "op_when b m s = (if b then m s else (Inr (), s))"

definition session_failure :: "string \<Rightarrow> string \<Rightarrow> load_failure" where
  "session_failure op_name error = sql_write_failure [Lit ''SQL Server '', Txt op_name, Lit '' failed: '', Txt error]"

text \<open>A call on the writer's client, its error reported under a name.\<close>

definition on_client ::
  "string \<Rightarrow> ('c \<Rightarrow> (string, 'a) result \<times> 'c) \<Rightarrow> 'c sql_writer \<Rightarrow> (load_failure, 'a) result \<times> 'c sql_writer" where
  "on_client op_name call w = (case call (sw_client w) of (r, c) \<Rightarrow> (map_err (session_failure op_name) r, w\<lparr>sw_client := c\<rparr>))"

definition execute_sql :: "'c sqlserver \<Rightarrow> string \<Rightarrow> 'c sql_writer \<Rightarrow> (load_failure, unit) result \<times> 'c sql_writer" where
  "execute_sql S sql = op_bind (on_client ''statement'' (ss_query S sql)) (\<lambda>_. op_lift (Inr ()))"

definition inspect_table :: "'c sqlserver \<Rightarrow> 'c sql_writer \<Rightarrow> (load_failure, table_shape) result \<times> 'c sql_writer" where
  "inspect_table S w = op_bind
     (on_client ''introspection'' (ss_query S (introspection_query (qc_schema (sw_address w)) (qc_dataset (sw_address w)))))
     (\<lambda>rows. op_lift (from_catalog_rows rows)) w"

subsection \<open>Opening\<close>

definition client_config_of :: "sqlserver_config \<Rightarrow> string \<Rightarrow> client_config" where
  "client_config_of address password =
     \<lparr>cc_host = qc_host address, cc_port = qc_port address, cc_database = qc_database address,
      cc_application_name = ''data-spark'', cc_user = qc_user address, cc_password = password,
      cc_encryption_off = (qc_encryption address = Encryption_Optional),
      cc_trust_cert = qc_trust_server_certificate address\<rparr>"

definition connect_timed_out :: load_failure where
  "connect_timed_out = sql_write_failure [Lit ''SQL Server connect timed out after 15 seconds'']"

definition timed ::
  "('c \<Rightarrow> (string, unit) result option \<times> 'c) \<Rightarrow> 'c sql_writer \<Rightarrow> (load_failure, unit) result \<times> 'c sql_writer" where
  "timed call w = (case call (sw_client w) of
     (None, c) \<Rightarrow> (Inl connect_timed_out, w\<lparr>sw_client := c\<rparr>)
   | (Some r, c) \<Rightarrow> (map_err (session_failure ''connect'') r, w\<lparr>sw_client := c\<rparr>))"

definition read_password :: "'c sqlserver \<Rightarrow> sqlserver_config \<Rightarrow> (load_failure, string) result" where
  "read_password S address = (case ss_variable S (qc_password_env address) of
     Some value \<Rightarrow> if value \<noteq> [] then Inr value
       else Inl (sql_write_failure [Lit ''SQL Server credential reference is no longer available''])
   | None \<Rightarrow> Inl (sql_write_failure [Lit ''SQL Server credential reference is no longer available'']))"

definition table_name :: "'c sql_writer \<Rightarrow> string" where
  "table_name w = qualified_name (qc_schema (sw_address w)) (qc_dataset (sw_address w))"

definition stage_name :: "'c sql_writer \<Rightarrow> string" where
  "stage_name w = qualified_name (qc_schema (sw_address w)) (sw_stage w)"

definition connect_client :: "'c sqlserver \<Rightarrow> 'c sql_writer \<Rightarrow> (load_failure, unit) result \<times> 'c sql_writer" where
  "connect_client S w =
     op_bind (on_client ''runtime initialization'' (ss_runtime S)) (\<lambda>_.
     op_bind (op_lift (read_password S (sw_address w))) (\<lambda>password.
     op_bind (timed (ss_tcp_connect S (qc_host (sw_address w)) (qc_port (sw_address w)))) (\<lambda>_.
     op_bind (on_client ''connect'' (ss_set_nodelay S)) (\<lambda>_.
       timed (ss_client_connect S (client_config_of (sw_address w) password)))))) w"

definition existing_shape ::
  "'c sqlserver \<Rightarrow> 'c sql_writer \<Rightarrow> (load_failure, table_shape option) result \<times> 'c sql_writer" where
  "existing_shape S w =
     (if sw_mode w \<noteq> Full_Refresh then
        op_bind (inspect_table S) (\<lambda>shape.
          if shape = [] then op_lift (Inl (sql_write_failure
            [Lit ''SQL Server table '', Txt (table_name w), Lit '' must exist before '', Txt (load_mode_str (sw_mode w))]))
          else op_lift (Inr (Some shape))) w
      else (Inr None, w))"

text \<open>\<open>Writer::begin\<close>; the UUID of the stage's name is an argument.\<close>

definition drop_client :: "'c sqlserver \<Rightarrow> 'c sql_writer \<Rightarrow> 'c sql_writer" where
  "drop_client S w = w\<lparr>sw_client := ss_drop S (sw_client w)\<rparr>"

definition sql_begin :: "'c sqlserver \<Rightarrow> string \<Rightarrow> load_mode \<Rightarrow> ('c sql_writer, unit) operation" where
  "sql_begin S token mode w =
     (case connect_client S (w\<lparr>sw_mode := mode\<rparr>) of
        (Inl fail, w) \<Rightarrow> (Inl (write_failure_from fail), w)
      | (Inr _, w) \<Rightarrow>
          (case existing_shape S w of
             (Inl fail, w) \<Rightarrow> (Inl (write_failure_from fail), drop_client S w)
           | (Inr shape, w) \<Rightarrow>
               (Inr (), w\<lparr>sw_stage := merge_stage_name token, sw_plan := None, sw_shape := shape,
                         sw_transaction := False, sw_identity_insert := False, sw_committed_chunks := 0,
                         sw_written_records := 0\<rparr>)))"

subsection \<open>Preparing on the first chunk\<close>

definition take_shape :: "'c sqlserver \<Rightarrow> 'c sql_writer \<Rightarrow> (load_failure, table_shape) result \<times> 'c sql_writer" where
  "take_shape S w = (case sw_shape w of
     Some shape \<Rightarrow> (Inr shape, w\<lparr>sw_shape := None\<rparr>)
   | None \<Rightarrow> inspect_table S w)"

definition plan_load ::
  "sql_env \<Rightarrow> arrow_field list \<Rightarrow> 'c sql_writer \<Rightarrow> table_shape \<Rightarrow> (load_failure, bulk_row_plan) result" where
  "plan_load E dataset w shape =
     rbind (if shape \<noteq> [] then validate_shape E shape dataset (sw_mode w) (sw_merge_keys w)
              (qc_accept_datetime_rounding (sw_address w)) else Inr ()) (\<lambda>_.
       if shape = [] \<or> sw_mode w = Merge then bulk_row_plan_new E dataset (map af_name dataset)
       else bulk_row_plan_for_table E dataset shape)"

definition begin_transaction :: "'c sqlserver \<Rightarrow> 'c sql_writer \<Rightarrow> (load_failure, unit) result \<times> 'c sql_writer" where
  "begin_transaction S = op_bind (execute_sql S ''BEGIN TRAN'') (\<lambda>_. op_modify (sw_transaction_update (\<lambda>_. True)))"

definition create_table ::
  "sql_env \<Rightarrow> 'c sqlserver \<Rightarrow> arrow_field list \<Rightarrow> string \<Rightarrow> string \<Rightarrow> 'c sql_writer
   \<Rightarrow> (load_failure, unit) result \<times> 'c sql_writer" where
  "create_table E S dataset schema_name name =
     op_bind (op_lift (create_table_ddl E dataset schema_name name)) (execute_sql S)"

definition stage_merge ::
  "sql_env \<Rightarrow> 'c sqlserver \<Rightarrow> arrow_field list \<Rightarrow> table_shape \<Rightarrow> 'c sql_writer
   \<Rightarrow> (load_failure, unit) result \<times> 'c sql_writer" where
  "stage_merge E S dataset shape w =
     op_bind (begin_transaction S) (\<lambda>_.
     op_bind (create_table E S dataset (qc_schema (sw_address w)) (sw_stage w)) (\<lambda>_.
       op_modify (sw_identity_insert_update
         (\<lambda>_. list_ex (\<lambda>column. tc_identity column \<and> tc_name column \<in> set (sw_merge_keys w)) shape)))) w"

definition delete_sql :: "string \<Rightarrow> string" where
  "delete_sql target = ''DELETE FROM '' @ target"

definition open_refresh ::
  "sql_env \<Rightarrow> 'c sqlserver \<Rightarrow> arrow_field list \<Rightarrow> table_shape \<Rightarrow> 'c sql_writer
   \<Rightarrow> (load_failure, unit) result \<times> 'c sql_writer" where
  "open_refresh E S dataset shape w =
     op_bind (begin_transaction S) (\<lambda>_.
     op_bind (op_when (shape = [])
       (create_table E S dataset (qc_schema (sw_address w)) (qc_dataset (sw_address w)))) (\<lambda>_.
       execute_sql S (delete_sql (table_name w)))) w"

definition sql_prepare ::
  "sql_env \<Rightarrow> 'c sqlserver \<Rightarrow> record_batch \<Rightarrow> 'c sql_writer \<Rightarrow> (load_failure, unit) result \<times> 'c sql_writer" where
  "sql_prepare E S batch w =
     (let dataset = rb_schema batch in
      op_bind (take_shape S) (\<lambda>shape.
      op_bind (op_lift (plan_load E dataset w shape)) (\<lambda>plan.
      op_bind (op_when (sw_mode w = Merge) (stage_merge E S dataset shape)) (\<lambda>_.
      op_bind (op_when (sw_mode w = Full_Refresh) (open_refresh E S dataset shape)) (\<lambda>_.
        op_modify (sw_plan_update (\<lambda>_. Some plan)))))) w)"

subsection \<open>Writing a chunk\<close>

definition rollback_sql :: string where
  "rollback_sql = ''IF @@TRANCOUNT > 0 ROLLBACK TRAN''"

definition sql_rollback :: "'c sqlserver \<Rightarrow> 'c sql_writer \<Rightarrow> 'c sql_writer" where
  "sql_rollback S w =
     (if sw_transaction w then (snd (execute_sql S rollback_sql w))\<lparr>sw_transaction := False\<rparr> else w)"

definition sql_merge_failure :: "load_failure \<Rightarrow> write_failure" where
  "sql_merge_failure fail = write_failure_atomic fail ''transactional_merge'' 0"

function send_rows ::
  "sql_env \<Rightarrow> 'c sqlserver \<Rightarrow> bulk_rows \<Rightarrow> 'c sql_writer \<Rightarrow> (load_failure, unit) result \<times> 'c sql_writer" where
  "send_rows E S rows w = (case next_row E rows of
     (None, _) \<Rightarrow> (Inr (), w)
   | (Some (Inl fail), _) \<Rightarrow> (Inl fail, w)
   | (Some (Inr row), rows') \<Rightarrow> op_bind (on_client ''bulk send'' (ss_send S row)) (\<lambda>_. send_rows E S rows') w)"
  by pat_completeness auto
termination
  by (relation "measure (\<lambda>(E, S, rows, w). br_len rows - br_next rows)") (auto dest: next_row_advances [OF sym])

declare send_rows.simps [simp del]

definition bulk_chunk ::
  "sql_env \<Rightarrow> 'c sqlserver \<Rightarrow> record_batch \<Rightarrow> bulk_row_plan \<Rightarrow> 'c sql_writer
   \<Rightarrow> (load_failure, unit) result \<times> 'c sql_writer" where
  "bulk_chunk E S batch plan w =
     op_bind (op_lift (plan_rows plan batch)) (\<lambda>rows.
       op_when (rb_rows batch \<noteq> 0)
         (op_bind (on_client ''bulk begin'' (ss_bulk_insert S (if sw_mode w = Merge then stage_name w else table_name w)
            (plan_column_names plan))) (\<lambda>_.
          op_bind (send_rows E S rows) (\<lambda>_.
            on_client ''bulk finalize'' (ss_finalize S))))) w"

definition sql_append_failure :: "'c sql_writer \<Rightarrow> load_failure \<Rightarrow> write_failure" where
  "sql_append_failure w fail =
     \<lparr>wx_failure = fail, wx_facts = facts_best_effort ''bulk_insert'', wx_written_records = sw_written_records w,
      wx_committed_chunks = sw_committed_chunks w, wx_transience = Terminal\<rparr>"

definition sql_write_chunk :: "sql_env \<Rightarrow> 'c sqlserver \<Rightarrow> record_batch \<Rightarrow> ('c sql_writer, unit) operation" where
  "sql_write_chunk E S batch w =
     (case (if sw_plan w = None then sql_prepare E S batch w else (Inr (), w)) of
        (Inl error, w) \<Rightarrow>
          let staged_merge = (sw_mode w = Merge \<and> sw_transaction w)
          in (Inl (if staged_merge then sql_merge_failure error else write_failure_from error), sql_rollback S w)
      | (Inr _, w) \<Rightarrow>
          (case bulk_chunk E S batch (the (sw_plan w)) w of
             (Inl fail, w) \<Rightarrow>
               if sw_mode w = Append then (Inl (sql_append_failure w fail), w)
               else (Inl (if sw_mode w = Merge then sql_merge_failure fail else write_failure_from fail), sql_rollback S w)
           | (Inr _, w) \<Rightarrow>
               if sw_mode w = Append then
                 (Inr (), w\<lparr>sw_committed_chunks := sw_committed_chunks w + 1,
                           sw_written_records := sw_written_records w + rb_rows batch\<rparr>)
               else (Inr (), w)))"

subsection \<open>Committing\<close>

definition duplicate_gate_sql :: "string \<Rightarrow> string list \<Rightarrow> string" where
  "duplicate_gate_sql stage keys =
     ''SELECT TOP (1) 1 FROM '' @ stage @ '' GROUP BY '' @ join '', '' keys @ '' HAVING COUNT_BIG(*) > 1''"

definition key_predicate :: "string list \<Rightarrow> string" where
  "key_predicate keys = join '' AND '' (map (\<lambda>key. ''target.'' @ key @ '' = source.'' @ key) keys)"

definition merge_counts_sql :: "string \<Rightarrow> string \<Rightarrow> string list \<Rightarrow> string" where
  "merge_counts_sql stage target keys =
     ''SELECT COUNT_BIG(*), COUNT_BIG(CASE WHEN matched = 1 THEN 1 END) FROM ''
     @ ''(SELECT CASE WHEN EXISTS (SELECT 1 FROM '' @ target @ '' AS target WITH (UPDLOCK, HOLDLOCK) WHERE ''
     @ key_predicate keys @ '') THEN 1 ELSE 0 END AS matched FROM '' @ stage @ '' AS source) AS counted''"

text \<open>The names are quoted; \<open>updates\<close> are the columns that are no keys.\<close>

definition merge_into_sql :: "string \<Rightarrow> string \<Rightarrow> string list \<Rightarrow> string list \<Rightarrow> string list \<Rightarrow> string" where
  "merge_into_sql target stage keys columns updates =
     (let update_clause = (if updates = [] then []
            else ''WHEN MATCHED THEN UPDATE SET '' @ join '', '' (map (\<lambda>name. name @ '' = source.'' @ name) updates))
      in ''MERGE INTO '' @ target @ '' WITH (HOLDLOCK) AS target USING '' @ stage @ '' AS source ON ''
         @ key_predicate keys @ '' '' @ update_clause @ '' WHEN NOT MATCHED THEN INSERT ('' @ join '', '' columns
         @ '') VALUES ('' @ join '', '' (map (\<lambda>name. ''source.'' @ name) columns) @ '');'')"

definition identity_insert_sql :: "string \<Rightarrow> string \<Rightarrow> string" where
  "identity_insert_sql target state = ''SET IDENTITY_INSERT '' @ target @ '' '' @ state"

definition drop_table_sql :: "string \<Rightarrow> string" where
  "drop_table_sql stage = ''DROP TABLE '' @ stage"

definition duplicates_failure :: load_failure where
  "duplicates_failure = failure ''duplicate_merge_keys'' [Lit ''surviving records contain duplicate merge key tuples'']"

text \<open>The statements of \<open>merge\<close> after its gate and its counts.\<close>

definition merge_statements ::
  "'c sqlserver \<Rightarrow> 'c sql_writer \<Rightarrow> nat \<Rightarrow> nat \<Rightarrow> 'c sql_writer \<Rightarrow> (load_failure, write_facts) result \<times> 'c sql_writer" where
  "merge_statements S w staged_count updated =
     (let stage = stage_name w; target = table_name w; keys = map bracket_quote (sw_merge_keys w);
          columns = plan_column_names (the (sw_plan w));
          updates = map bracket_quote (filter (\<lambda>name. name \<notin> set (sw_merge_keys w)) columns)
      in
      op_bind (op_when (sw_identity_insert w) (execute_sql S (identity_insert_sql target ''ON''))) (\<lambda>_.
      op_bind (execute_sql S (merge_into_sql target stage keys (map bracket_quote columns) updates)) (\<lambda>_.
      op_bind (op_when (sw_identity_insert w) (execute_sql S (identity_insert_sql target ''OFF''))) (\<lambda>_.
      op_bind (execute_sql S (drop_table_sql stage)) (\<lambda>_.
        op_lift (Inr (with_merge_counts (facts_atomic ''transactional_merge'') updated (staged_count - updated))))))))"

definition sql_merge :: "'c sqlserver \<Rightarrow> 'c sql_writer \<Rightarrow> (load_failure, write_facts) result \<times> 'c sql_writer" where
  "sql_merge S w =
     (let stage = stage_name w; target = table_name w; keys = map bracket_quote (sw_merge_keys w) in
      op_bind (on_client ''duplicate-key gate'' (ss_query S (duplicate_gate_sql stage keys))) (\<lambda>duplicates.
      if duplicates \<noteq> [] then op_lift (Inl duplicates_failure)
      else op_bind (on_client ''merge counts'' (ss_counts S (merge_counts_sql stage target keys)))
        (\<lambda>(staged_count, updated). merge_statements S w staged_count updated)) w)"

definition commit_sql :: string where
  "commit_sql = ''COMMIT TRAN''"

definition commit_transaction ::
  "'c sqlserver \<Rightarrow> 'c sql_writer \<Rightarrow> (load_failure, write_facts) result \<times> 'c sql_writer" where
  "commit_transaction S w =
     op_bind (if sw_mode w = Merge then sql_merge S else op_lift (Inr (facts_atomic ''transactional_delete_insert'')))
       (\<lambda>facts. op_bind (execute_sql S commit_sql) (\<lambda>_. op_lift (Inr facts))) w"

definition sql_drop :: "'c sqlserver \<Rightarrow> 'c sql_writer \<Rightarrow> 'c sql_writer" where
  "sql_drop S w = drop_client S (sql_rollback S w)"

definition sql_commit :: "'c sqlserver \<Rightarrow> ('c sql_writer, destination_write) operation" where
  "sql_commit S w =
     (if sw_mode w = Append then
        (Inr \<lparr>dw_bytes_written = None, dw_facts = facts_best_effort ''bulk_insert''\<rparr>, sql_drop S w)
      else case commit_transaction S w of
        (Inr facts, w) \<Rightarrow> (Inr \<lparr>dw_bytes_written = None, dw_facts = facts\<rparr>, sql_drop S (w\<lparr>sw_transaction := False\<rparr>))
      | (Inl error, w) \<Rightarrow>
          (Inl (if sw_mode w = Merge then sql_merge_failure error else write_failure_from error),
           sql_drop S (sql_rollback S w)))"

definition sql_abandon :: "'c sqlserver \<Rightarrow> 'c sql_writer \<Rightarrow> abandoned_write \<times> 'c sql_writer" where
  "sql_abandon S w =
     (let w = sql_rollback S w in
      (\<lparr>aw_committed_chunks = sw_committed_chunks w, aw_written_records = sw_written_records w,
        aw_facts = (if 0 < sw_committed_chunks w then facts_best_effort ''bulk_insert'' else facts_not_applicable)\<rparr>,
       sql_drop S w))"

definition sqlserver_ops :: "sql_env \<Rightarrow> 'c sqlserver \<Rightarrow> string \<Rightarrow> 'c sql_writer destination_ops" where
  "sqlserver_ops E S token =
     \<lparr>d_begin = sql_begin S token, d_write_chunk = sql_write_chunk E S, d_commit = sql_commit S,
      d_abandon = sql_abandon S, d_drop = sql_drop S\<rparr>"

end
