(* ===== verification/Sqlserver_Text.thy ===== *)
theory Sqlserver_Text
  imports Sqlserver_Session
begin

section \<open>The SQL text a server reads\<close>

text \<open>
  A reader of bracket-quoted names, of a two-part object name and of \<open>CREATE TABLE\<close>, and what it
  makes of the text the source writes: every name comes back as it was, whatever it holds.
\<close>

subsection \<open>Names\<close>

definition read_name :: "string \<Rightarrow> (string \<times> string) option" where
  "read_name t = (case t of [] \<Rightarrow> None | c # s \<Rightarrow> if c = CHR 0x5B then read_closed (CHR 0x5D) s else None)"

lemma read_name_iff: "read_name t = Some (name, rest) \<longleftrightarrow> t = bracket_quote name @ rest \<and> closes_at (CHR 0x5D) rest"
  by (cases t) (auto simp: read_name_def bracket_quote_def read_closed_iff)

lemma read_name_quoted [simp]: "closes_at (CHR 0x5D) rest \<Longrightarrow> read_name (bracket_quote name @ rest) = Some (name, rest)"
  by (simp add: read_name_iff)

definition read_object :: "string \<Rightarrow> ((string \<times> string) \<times> string) option" where
  "read_object t = (case read_name t of
     Some (schema_name, c # s) \<Rightarrow>
       if c = CHR ''.'' then map_option (apfst (Pair schema_name)) (read_name s) else None
   | _ \<Rightarrow> None)"

lemma read_object_iff:
  "read_object t = Some ((schema_name, name), rest) \<longleftrightarrow> t = qualified_name schema_name name @ rest \<and> closes_at (CHR 0x5D) rest"
proof
  assume "read_object t = Some ((schema_name, name), rest)"
  then show "t = qualified_name schema_name name @ rest \<and> closes_at (CHR 0x5D) rest"
    by (auto simp: read_object_def qualified_name_def read_name_iff split: option.splits list.splits if_splits)
next
  assume t: "t = qualified_name schema_name name @ rest \<and> closes_at (CHR 0x5D) rest"
  then have "read_name t = Some (schema_name, CHR ''.'' # bracket_quote name @ rest)"
    by (simp add: qualified_name_def read_name_iff)
  then show "read_object t = Some ((schema_name, name), rest)" using t by (simp add: read_object_def)
qed

text \<open>The catalog query: the literal it compares with names the table.\<close>

lemma introspection_names_table:
  obtains before after where
    "introspection_query schema_name name = before @ CHR 0x27 # doubled (CHR 0x27) (qualified_name schema_name name) @ CHR 0x27 # after"
    "read_closed (CHR 0x27) (doubled (CHR 0x27) (qualified_name schema_name name) @ CHR 0x27 # after)
       = Some (qualified_name schema_name name, after)"
    "read_object (qualified_name schema_name name) = Some ((schema_name, name), [])"
proof
  let ?after = "'', N'' @ [CHR 0x27] @ ''U'' @ [CHR 0x27] @ '') ORDER BY c.column_id''"
  show "introspection_query schema_name name =
      (''SELECT c.name, COALESCE(t.name, TYPE_NAME(c.user_type_id)), c.precision, c.scale, c.max_length, ''
       @ ''c.is_nullable, c.is_identity, CAST(CASE WHEN c.default_object_id <> 0 THEN 1 ELSE 0 END AS bit) ''
       @ ''FROM sys.columns AS c LEFT JOIN sys.types AS t ON t.user_type_id = c.system_type_id ''
       @ ''WHERE c.object_id = OBJECT_ID(N'') @ CHR 0x27 # doubled (CHR 0x27) (qualified_name schema_name name) @ CHR 0x27 # ?after"
    by (simp add: introspection_query_def)
  show "read_closed (CHR 0x27) (doubled (CHR 0x27) (qualified_name schema_name name) @ CHR 0x27 # ?after)
       = Some (qualified_name schema_name name, ?after)"
    by (rule read_closed_doubled) simp
  show "read_object (qualified_name schema_name name) = Some ((schema_name, name), [])"
    by (simp add: read_object_iff)
qed

subsection \<open>Column types\<close>

lemma show_nat_inject [simp]: "show_nat a = show_nat b \<longleftrightarrow> a = b"
  by (metis digits_value_show_nat)

lemma show_nat_no_sep: "\<not> is_ascii_digit c \<Longrightarrow> c \<notin> set (show_nat n)"
  using show_nat_digits [of n] by (auto simp: all_digits_def list_all_iff)

lemma ddl_inject: "ddl a = ddl b \<longleftrightarrow> a = b"
proof (cases "\<exists>p s p' s'. a = CT_Decimal p s \<and> b = CT_Decimal p' s'")
  case True
  then obtain p s p' s' where ab: "a = CT_Decimal p s" "b = CT_Decimal p' s'" by blast
  have sep: "\<not> is_ascii_digit (CHR '','')" by code_simp
  have "p = p' \<and> s = s'" if "ddl a = ddl b"
  proof -
    have "show_nat p @ CHR '','' # show_nat s = show_nat p' @ CHR '','' # show_nat s'" using that by (simp add: ab)
    then have "(show_nat p, show_nat s) = (show_nat p', show_nat s')"
      by (metis split_once_append show_nat_no_sep sep option.inject)
    then show ?thesis by simp
  qed
  then show ?thesis using ab by auto
next
  case False
  then show ?thesis by (cases a; cases b) simp_all
qed

lemma ddl_no_space: "CHR '' '' \<notin> set (ddl t)"
proof -
  have "\<not> is_ascii_digit (CHR '' '')" by code_simp
  then show ?thesis by (cases t) (simp_all add: show_nat_no_sep)
qed

subsection \<open>The created shape reads back\<close>

definition read_column :: "string \<Rightarrow> ((string \<times> string \<times> bool) \<times> string) option" where
  "read_column t = (case read_name t of
     Some (name, c # s) \<Rightarrow>
       if c = CHR '' '' then
         (case split_once (CHR '' '') s of
            None \<Rightarrow> None
          | Some (ctype, s) \<Rightarrow>
              (case strip_prefix ''NOT NULL'' s of
                 Some rest \<Rightarrow> Some ((name, ctype, False), rest)
               | None \<Rightarrow> map_option (Pair (name, ctype, True)) (strip_prefix ''NULL'' s)))
       else None
   | _ \<Rightarrow> None)"

fun read_columns :: "nat \<Rightarrow> string \<Rightarrow> (string \<times> string \<times> bool) list option" where
  "read_columns 0 t = None"
| "read_columns (Suc n) t = (case read_column t of
     None \<Rightarrow> None
   | Some (column, rest) \<Rightarrow>
       if rest = '')'' then Some [column]
       else (case strip_prefix '', '' rest of
         None \<Rightarrow> None | Some others \<Rightarrow> map_option (Cons column) (read_columns n others)))"

definition read_create_table :: "string \<Rightarrow> ((string \<times> string) \<times> (string \<times> string \<times> bool) list) option" where
  "read_create_table sql = (case strip_prefix ''CREATE TABLE '' sql of
     None \<Rightarrow> None
   | Some t \<Rightarrow> (case read_object t of
       None \<Rightarrow> None
     | Some (name, t) \<Rightarrow> (case strip_prefix '' ('' t of
         None \<Rightarrow> None
       | Some t \<Rightarrow> map_option (Pair name) (read_columns (length sql) t))))"

definition shown_column :: "string \<times> string \<times> bool \<Rightarrow> string" where
  "shown_column c = (case c of (name, ctype, nullable) \<Rightarrow>
     bracket_quote name @ '' '' @ ctype @ '' '' @ (if nullable then ''NULL'' else ''NOT NULL''))"

lemma read_shown_column:
  "CHR '' '' \<notin> set ctype \<Longrightarrow> read_column (shown_column (name, ctype, nullable) @ rest) = Some ((name, ctype, nullable), rest)"
  using split_once_append [of "CHR '' ''" ctype "(if nullable then ''NULL'' else ''NOT NULL'') @ rest"]
  by (simp add: read_column_def shown_column_def strip_prefix_def)

lemma read_shown_columns:
  assumes "columns \<noteq> []" "length columns \<le> n" "\<forall>(name, ctype, nullable)\<in>set columns. CHR '' '' \<notin> set ctype"
  shows "read_columns n (join '', '' (map shown_column columns) @ '')'') = Some columns"
  using assms
proof (induction n arbitrary: columns)
  case (Suc n)
  then obtain c cs where columns: "columns = c # cs" by (cases columns) auto
  obtain name ctype nullable where c: "c = (name, ctype, nullable)" by (cases c)
  show ?case
  proof (cases cs)
    case Nil
    then show ?thesis using Suc.prems columns c by (simp add: read_shown_column join_def)
  next
    case (Cons d ds)
    have "read_columns n (join '', '' (map shown_column cs) @ '')'') = Some cs"
      using Suc.IH [of cs] Suc.prems columns Cons by simp
    moreover have "join '', '' (map shown_column columns) = shown_column c @ '', '' @ join '', '' (map shown_column cs)"
      using columns Cons by (simp add: join_Cons)
    ultimately show ?thesis using Suc.prems columns c by (simp add: read_shown_column strip_prefix_def)
  qed
qed simp

lemma length_join: "\<forall>x\<in>set xs. x \<noteq> [] \<Longrightarrow> length xs \<le> length (join sep xs)"
proof (induction xs rule: induct_list012)
  case (3 a b xs)
  then show ?case by (cases a) (auto simp: join_Cons)
next
  case (2 a)
  then show ?case by (cases a) (auto simp: join_def)
qed simp

lemma column_ddl_Inr_iff:
  "column_ddl E field = Inr t \<longleftrightarrow>
     (\<exists>ctype. from_arrow E field = Inr ctype \<and> t = shown_column (af_name field, ddl ctype, af_nullable field))"
  by (auto simp: column_ddl_def rmap_eq_Inr_iff shown_column_def)

text \<open>The table that the statement creates has the fields in their order, each with its type.\<close>

lemma create_table_ddl_reads_back:
  assumes "create_table_ddl E dataset schema_name name = Inr sql"
  shows "\<exists>types. list_all2 (\<lambda>field ctype. from_arrow E field = Inr ctype) dataset types
    \<and> read_create_table sql = Some ((schema_name, name),
        map2 (\<lambda>field ctype. (af_name field, ddl ctype, af_nullable field)) dataset types)"
proof -
  obtain texts where texts: "list_all2 (\<lambda>field t. column_ddl E field = Inr t) dataset texts" "dataset \<noteq> []"
    and sql: "sql = ''CREATE TABLE '' @ qualified_name schema_name name @ '' ('' @ join '', '' texts @ '')''"
    using assms by (auto simp: create_table_ddl_def rmap_eq_Inr_iff traverse_Inr_iff split: if_splits)
  define types where "types = map (\<lambda>field. case from_arrow E field of Inr ctype \<Rightarrow> ctype | Inl _ \<Rightarrow> CT_Bit) dataset"
  have types: "list_all2 (\<lambda>field ctype. from_arrow E field = Inr ctype) dataset types"
    using texts(1) unfolding types_def
    by (auto simp: list_all2_conv_all_nth column_ddl_Inr_iff)
  let ?columns = "map2 (\<lambda>field ctype. (af_name field, ddl ctype, af_nullable field)) dataset types"
  have len: "length types = length dataset" by (simp add: types_def)
  have "texts = map shown_column ?columns"
    using texts(1) types by (auto simp: list_all2_conv_all_nth column_ddl_Inr_iff intro!: nth_equalityI)
  moreover have "length ?columns \<le> length sql"
  proof -
    have "length (map shown_column ?columns) \<le> length (join '', '' (map shown_column ?columns))"
      by (rule length_join) (auto simp: shown_column_def bracket_quote_def)
    then show ?thesis using sql calculation by simp
  qed
  moreover have "\<forall>(n, t, b)\<in>set ?columns. CHR '' '' \<notin> set t" by (auto simp: ddl_no_space dest!: set_zip_rightD)
  moreover have "?columns \<noteq> []" using texts(2) len by (cases dataset; cases types) auto
  ultimately have "read_columns (length sql) (join '', '' texts @ '')'') = Some ?columns"
    using read_shown_columns [of ?columns "length sql"] by simp
  moreover have "read_object (qualified_name schema_name name @ '' ('' @ join '', '' texts @ '')'')
      = Some ((schema_name, name), '' ('' @ join '', '' texts @ '')'')"
    by (simp add: read_object_iff)
  moreover have "strip_prefix ''CREATE TABLE '' sql = Some (qualified_name schema_name name @ '' ('' @ join '', '' texts @ '')'')"
    unfolding sql by (rule strip_prefix_append)
  moreover have "strip_prefix '' ('' ('' ('' @ join '', '' texts @ '')'') = Some (join '', '' texts @ '')'')"
    by (rule strip_prefix_append)
  ultimately have "read_create_table sql = Some ((schema_name, name), ?columns)"
    unfolding read_create_table_def by (simp del: append_Cons)
  then show ?thesis using types by blast
qed

end
