(* ===== verification/Sqlserver_Values.thy ===== *)
theory Sqlserver_Values
  imports Sqlserver_Text Table_Rows
begin

section \<open>What the wire values hold\<close>

text \<open>
  The values a plan encodes: each holds the cell of its record exactly, or a timestamp rounded to
  its column's unit, and fits the column of the accepted table it goes to.
\<close>

subsection \<open>Timestamps\<close>

text \<open>A wire timestamp in microseconds of the Unix epoch, for a scale of at most six digits.\<close>

definition micros_of :: "datetime2 \<Rightarrow> int" where
  "micros_of d = (int (d2_days d) - DAYS_FROM_DATETIME2_ORIGIN_TO_UNIX_EPOCH) * MICROS_PER_DAY
     + int (d2_increments d) * 10 ^ (6 - d2_scale d)"

definition legal_datetime2 :: "datetime2 \<Rightarrow> bool" where
  "legal_datetime2 d \<longleftrightarrow> d2_days d \<le> 3652058 \<and> d2_increments d < 86400 * 10 ^ d2_scale d"

lemmas datetime2_consts = MICROS_PER_DAY_def DAYS_FROM_DATETIME2_ORIGIN_TO_UNIX_EPOCH_def LAST_DATETIME2_DAY_def

lemma datetime2_from_micros_Some:
  assumes "datetime2_from_micros t = Some d"
  shows "micros_of d = t" "legal_datetime2 d" "d2_scale d = 6"
proof -
  let ?day = "t div 86400000000 + 719162" and ?rest = "t mod 86400000000"
  have d: "d = \<lparr>d2_days = nat ?day, d2_increments = nat ?rest, d2_scale = 6\<rparr>" "0 \<le> ?day" "?day \<le> 3652058"
    using assms by (auto simp: datetime2_from_micros_def datetime2_consts Let_def split: if_splits)
  have r: "0 \<le> ?rest" "?rest < 86400000000" by simp_all
  show "micros_of d = t"
    using d r div_mult_mod_eq [of t 86400000000] by (simp add: micros_of_def datetime2_consts)
  show "legal_datetime2 d" using d r by (simp add: legal_datetime2_def nat_less_iff)
  show "d2_scale d = 6" using d by simp
qed

text \<open>The refused timestamps are those outside the years 1 to 9999.\<close>

lemma datetime2_from_micros_None_iff:
  "datetime2_from_micros t = None \<longleftrightarrow> t < - 62135596800000000 \<or> 253402300800000000 \<le> t"
proof -
  have "0 \<le> t div 86400000000 + 719162 \<longleftrightarrow> - 62135596800000000 \<le> t"
    using div_mult_mod_eq [of t 86400000000] pos_mod_bound [of 86400000000 t] pos_mod_sign [of 86400000000 t] by linarith
  moreover have "t div 86400000000 + 719162 \<le> 3652058 \<longleftrightarrow> t < 253402300800000000"
    using div_mult_mod_eq [of t 86400000000] pos_mod_bound [of 86400000000 t] pos_mod_sign [of 86400000000 t] by linarith
  ultimately show ?thesis by (auto simp: datetime2_from_micros_def datetime2_consts Let_def)
qed

text \<open>Rounding half up to a coarser scale, or to the ticks of \<open>DATETIME\<close>.\<close>

lemma round_half_up:
  assumes "0 < k"
  obtains q where "(n + k div 2) div k = q" "2 * \<bar>int n - int q * int k\<bar> \<le> int k"
proof -
  obtain q r where q: "(n + k div 2) div k = q" "(n + k div 2) mod k = r" by blast
  obtain h where h: "k div 2 = h" "2 * h \<le> k" "k \<le> 2 * h + 1" by (rule that [of "k div 2"]) linarith+
  have "n + h = q * k + r" "r < k" using assms q h(1) div_mult_mod_eq [of "n + k div 2" k] by (simp, metis mod_less_divisor)
  then have r: "int n + int h = int q * int k + int r" "int r < int k" by (metis of_nat_add of_nat_mult, simp)
  then have "int n - int q * int k = int r - int h" by simp
  moreover have "2 * (int r - int h) \<le> int k" "- (2 * (int r - int h)) \<le> int k"
  proof -
    have "2 * int h \<le> int k" "int k \<le> 2 * int h + 1" "0 \<le> int r" "int r + 1 \<le> int k"
      using h(2,3) r(2) by linarith+
    then show "2 * (int r - int h) \<le> int k" "- (2 * (int r - int h)) \<le> int k" by (simp_all add: algebra_simps)
  qed
  then have "2 * \<bar>int r - int h\<bar> \<le> int k" by (simp add: abs_if)
  ultimately have "2 * \<bar>int n - int q * int k\<bar> \<le> int k" by simp
  then show ?thesis using that q(1) by blast
qed

text \<open>A count of units that passes midnight: the whole days of it, and the rest.\<close>

lemma split_days:
  assumes "0 < (per :: nat)"
  obtains days rest where "ticks div per = days" "ticks mod per = rest" "int ticks = int days * int per + int rest" "rest < per"
proof -
  have "int ticks = int (ticks div per) * int per + int (ticks mod per)" by (metis div_mult_mod_eq of_nat_add of_nat_mult)
  then show ?thesis using that assms by simp
qed

text \<open>A day in units of a scale.\<close>

lemma units_per_day:
  assumes "sc < 6"
  shows "(86400 * 10 ^ sc) * 10 ^ (6 - sc) = (86400000000 :: nat)"
proof -
  have "(10 :: nat) ^ sc * 10 ^ (6 - sc) = 10 ^ 6" using assms by (simp flip: power_add)
  then show ?thesis by (simp only: mult.assoc) simp
qed

lemma to_scale_Inr:
  assumes v: "to_scale e sc d = Inr d'" and sc: "sc < 6" and d: "d2_scale d = 6"
  shows "d2_scale d' = sc" "legal_datetime2 d'" "2 * \<bar>micros_of d - micros_of d'\<bar> \<le> 10 ^ (6 - sc)"
proof -
  obtain k :: nat where k: "10 ^ (6 - sc) = k" by blast
  obtain per :: nat where per: "86400 * 10 ^ sc = per" by blast
  have pos: "0 < k" "0 < per" using k per by auto
  obtain ticks where ticks: "(d2_increments d + k div 2) div k = ticks"
    and near: "2 * \<bar>int (d2_increments d) - int ticks * int k\<bar> \<le> int k"
    using round_half_up [OF pos(1)] by blast
  obtain days rest where days: "ticks div per = days" "ticks mod per = rest" "int ticks = int days * int per + int rest" "rest < per"
    using split_days [OF pos(2)] by blast
  have d': "d' = \<lparr>d2_days = d2_days d + days, d2_increments = rest, d2_scale = sc\<rparr>" "d2_days d + days \<le> 3652058"
    using v by (auto simp: to_scale_def Let_def k per ticks days split: if_splits)
  show "d2_scale d' = sc" using d' by simp
  show "legal_datetime2 d'" using d' days(4) per by (simp add: legal_datetime2_def)
  have "per * k = 86400000000" using units_per_day [OF sc] by (simp only: k per)
  then have "int per * int k = 86400000000" by (metis of_nat_mult of_nat_numeral)
  then have "int ticks * int k = int days * 86400000000 + int rest * int k"
    by (simp only: days(3) distrib_right mult.assoc)
  moreover have "int k = 10 ^ (6 - sc)" using k by (metis of_nat_numeral of_nat_power)
  moreover have "micros_of d = (int (d2_days d) - 719162) * 86400000000 + int (d2_increments d)"
    using d by (simp add: micros_of_def datetime2_consts)
  moreover have "micros_of d' = (int (d2_days d) + int days - 719162) * 86400000000 + int rest * 10 ^ (6 - sc)"
    using d' by (simp add: micros_of_def datetime2_consts)
  ultimately have "micros_of d - micros_of d' = int (d2_increments d) - int ticks * int k" by (simp add: algebra_simps)
  then show "2 * \<bar>micros_of d - micros_of d'\<bar> \<le> 10 ^ (6 - sc)" using near k by auto
qed

text \<open>\<open>DATETIME\<close> counts days from 1900 and ticks of a 300th of a second: three microseconds are a 10000th of 300.\<close>

definition thirds_of :: "datetime \<Rightarrow> int" where
  "thirds_of d = (dt1_days d - 25567) * 259200000000 + int (dt1_ticks d) * 10000"

definition legal_datetime :: "datetime \<Rightarrow> bool" where
  "legal_datetime d \<longleftrightarrow> - 53690 \<le> dt1_days d \<and> dt1_days d \<le> 2958463 \<and> dt1_ticks d < 25920000"

lemma to_datetime_Inr:
  assumes v: "to_datetime e d = Inr d'" and d: "d2_scale d = 6"
  shows "legal_datetime d'" "\<bar>3 * micros_of d - thirds_of d'\<bar> \<le> 5000"
proof -
  obtain ticks where ticks: "(d2_increments d * 300 + 500000) div 1000000 = ticks"
    and near: "2 * \<bar>int (d2_increments d * 300) - int ticks * 1000000\<bar> \<le> 1000000"
    using round_half_up [of 1000000 "d2_increments d * 300"] by auto
  obtain days rest where days: "ticks div 25920000 = days" "ticks mod 25920000 = rest"
    "int ticks = int days * int 25920000 + int rest" "rest < 25920000"
    using split_days [of 25920000 ticks] by auto
  have d': "d' = \<lparr>dt1_days = int (d2_days d + days) - 693595, dt1_ticks = rest\<rparr>"
    "639905 \<le> d2_days d + days" "d2_days d + days \<le> 3652058"
    using v by (auto simp: to_datetime_def Let_def ticks days split: if_splits)
  show "legal_datetime d'" using d' days(4) by (simp add: legal_datetime_def)
  have "micros_of d = (int (d2_days d) - 719162) * 86400000000 + int (d2_increments d)"
    using d by (simp add: micros_of_def datetime2_consts)
  moreover have "thirds_of d' = (int (d2_days d) + int days - 719162) * 259200000000 + int rest * 10000"
    using d' by (simp add: thirds_of_def)
  ultimately have "3 * micros_of d - thirds_of d' = 3 * int (d2_increments d) - int ticks * 10000"
    using days(3) by (simp add: algebra_simps)
  moreover have "int (d2_increments d * 300) - int ticks * 1000000 = 100 * (3 * int (d2_increments d) - int ticks * 10000)" by simp
  ultimately have "2 * \<bar>100 * (3 * micros_of d - thirds_of d')\<bar> \<le> 1000000" using near by simp
  then show "\<bar>3 * micros_of d - thirds_of d'\<bar> \<le> 5000" by (simp add: abs_mult)
qed

text \<open>A conversion is refused only where rounding leaves the column's range.\<close>

lemma rounded_within:
  assumes "0 < (k :: nat)" "n \<le> m * k"
  shows "(n + k div 2) div k \<le> m" "(n + k div 2) div k = m \<Longrightarrow> 2 * (int m * int k - int n) \<le> int k"
proof -
  have "k div 2 < k" using assms(1) by simp
  then have "n + k div 2 < Suc m * k" using assms(2) unfolding mult_Suc by linarith
  then have "(n + k div 2) div k < Suc m" by (rule less_mult_imp_div_less)
  then show "(n + k div 2) div k \<le> m" by simp
  assume m: "(n + k div 2) div k = m"
  obtain q where "(n + k div 2) div k = q" "2 * \<bar>int n - int q * int k\<bar> \<le> int k" using round_half_up [OF assms(1)] .
  moreover have "int q * int k - int n \<le> \<bar>int n - int q * int k\<bar>" by (simp only: abs_minus_commute [of "int n"] abs_ge_self)
  ultimately show "2 * (int m * int k - int n) \<le> int k" using m by simp
qed

lemma to_scale_Inl:
  assumes v: "to_scale e sc d = Inl e'" and sc: "sc < 6" and d: "d2_scale d = 6" "legal_datetime2 d"
  shows "e' = e" "2 * (253402300800000000 - micros_of d) \<le> 10 ^ (6 - sc)"
proof -
  obtain k :: nat where k: "10 ^ (6 - sc) = k" by blast
  obtain per :: nat where per: "86400 * 10 ^ sc = per" by blast
  have pos: "0 < k" "0 < per" using k per by auto
  have pk: "per * k = 86400000000" using units_per_day [OF sc] by (simp only: k per)
  let ?ticks = "(d2_increments d + k div 2) div k"
  have v': "e' = e" "3652058 < d2_days d + ?ticks div per"
    using v by (auto simp: to_scale_def Let_def k per split: if_splits)
  have l: "d2_days d \<le> 3652058" "d2_increments d < per * k" using d by (simp_all add: legal_datetime2_def pk)
  have le: "?ticks \<le> per" using rounded_within(1) [OF pos(1)] l(2) by simp
  have "?ticks = per"
  proof (rule ccontr)
    assume "?ticks \<noteq> per"
    then have "?ticks div per = 0" using le by simp
    then show False using v'(2) l(1) by simp
  qed
  then have t: "2 * (int per * int k - int (d2_increments d)) \<le> int k" "d2_days d = 3652058"
    using rounded_within(2) [OF pos(1), of "d2_increments d" per] l v'(2) pos(2) by simp_all
  have "int per * int k = 86400000000" using pk by (metis of_nat_mult of_nat_numeral)
  moreover have "int k = 10 ^ (6 - sc)" using k by (metis of_nat_numeral of_nat_power)
  ultimately show "2 * (253402300800000000 - micros_of d) \<le> 10 ^ (6 - sc)"
    using t d(1) by (simp add: micros_of_def datetime2_consts)
  show "e' = e" by (rule v')
qed

lemma to_datetime_Inl:
  assumes v: "to_datetime e d = Inl e'" and d: "d2_scale d = 6" "legal_datetime2 d"
  shows "e' = e" "micros_of d < - 6847804800000000 \<or> 3 * (253402300800000000 - micros_of d) \<le> 5000"
proof -
  let ?ticks = "(d2_increments d * 300 + 500000) div 1000000"
  have v': "e' = e" "d2_days d + ?ticks div 25920000 < 639905 \<or> 3652058 < d2_days d + ?ticks div 25920000"
    using v by (auto simp: to_datetime_def Let_def split: if_splits)
  have l: "d2_days d \<le> 3652058" "d2_increments d < 86400000000" using d by (simp_all add: legal_datetime2_def)
  have m: "micros_of d = (int (d2_days d) - 719162) * 86400000000 + int (d2_increments d)"
    using d(1) by (simp add: micros_of_def datetime2_consts)
  have le: "?ticks \<le> 25920000" "?ticks = 25920000 \<Longrightarrow> 2 * (25920000 * 1000000 - int (d2_increments d * 300)) \<le> 1000000"
    using rounded_within [of 1000000 "d2_increments d * 300" 25920000] l(2) by simp_all
  have carry: "?ticks div 25920000 = (if ?ticks = 25920000 then 1 else 0)" using le(1) by auto
  show "micros_of d < - 6847804800000000 \<or> 3 * (253402300800000000 - micros_of d) \<le> 5000"
  proof (cases "d2_days d + ?ticks div 25920000 < 639905")
    case True
    then have "d2_days d < 639905" by (rule add_lessD1)
    then have "int (d2_days d) \<le> 639904" by simp
    then show ?thesis using m l(2) by simp
  next
    case False
    then have "?ticks = 25920000" "d2_days d = 3652058" using v'(2) carry l(1) by (auto split: if_splits)
    then show ?thesis using le(2) m by simp
  qed
  show "e' = e" by (rule v')
qed

subsection \<open>A value and its cell\<close>

fun holds :: "column_data \<Rightarrow> cell \<Rightarrow> bool" where
  "holds (CD_I64 v) c \<longleftrightarrow> c = cell_of Cell_Int64 v"
| "holds (CD_I32 v) c \<longleftrightarrow> c = cell_of Cell_Int64 v"
| "holds (CD_I16 v) c \<longleftrightarrow> c = cell_of Cell_Int64 v"
| "holds (CD_U8 v) c \<longleftrightarrow> c = cell_of Cell_Int64 v"
| "holds (CD_F64 v) c \<longleftrightarrow> c = cell_of Cell_Float64 v"
| "holds (CD_Bit v) c \<longleftrightarrow> c = cell_of Cell_Boolean v"
| "holds (CD_String v) c \<longleftrightarrow> c = cell_of Cell_Utf8 v"
| "holds (CD_Numeric v) c \<longleftrightarrow> c = cell_of Cell_Decimal (map_option nm_value v)"
| "holds (CD_DateTime2 None) c \<longleftrightarrow> c = Cell_Null"
| "holds (CD_DateTime2 (Some d)) c \<longleftrightarrow>
     (\<exists>t. c = Cell_Timestamp t \<and> 2 * \<bar>t - micros_of d\<bar> \<le> 10 ^ (6 - d2_scale d))"
| "holds (CD_DateTime None) c \<longleftrightarrow> c = Cell_Null"
| "holds (CD_DateTime (Some d)) c \<longleftrightarrow> (\<exists>t. c = Cell_Timestamp t \<and> \<bar>3 * t - thirds_of d\<bar> \<le> 5000)"

text \<open>The width of the wire value is the type of the column it goes to.\<close>

fun wire_fits :: "string \<Rightarrow> nat \<Rightarrow> column_data \<Rightarrow> bool" where
  "wire_fits tname sc (CD_I64 v) \<longleftrightarrow> tname = ''bigint''"
| "wire_fits tname sc (CD_I32 v) \<longleftrightarrow> tname = ''int'' \<and> pred_option (\<lambda>i. - (2 ^ 31) \<le> i \<and> i < 2 ^ 31) v"
| "wire_fits tname sc (CD_I16 v) \<longleftrightarrow> tname = ''smallint'' \<and> pred_option (\<lambda>i. - (2 ^ 15) \<le> i \<and> i < 2 ^ 15) v"
| "wire_fits tname sc (CD_U8 v) \<longleftrightarrow> tname = ''tinyint'' \<and> pred_option (\<lambda>i. 0 \<le> i \<and> i < 2 ^ 8) v"
| "wire_fits tname sc (CD_F64 v) \<longleftrightarrow> tname = ''float''"
| "wire_fits tname sc (CD_Bit v) \<longleftrightarrow> tname = ''bit''"
| "wire_fits tname sc (CD_String v) \<longleftrightarrow> tname = ''nvarchar''"
| "wire_fits tname sc (CD_Numeric v) \<longleftrightarrow> tname \<in> {''decimal'', ''numeric''} \<and> pred_option (\<lambda>n. nm_scale n = sc) v"
| "wire_fits tname sc (CD_DateTime2 v) \<longleftrightarrow>
     tname = ''datetime2'' \<and> pred_option (\<lambda>d. d2_scale d = min sc 6 \<and> legal_datetime2 d) v"
| "wire_fits tname sc (CD_DateTime v) \<longleftrightarrow> tname = ''datetime'' \<and> pred_option legal_datetime v"

text \<open>A value as the column's own reader gives it.\<close>

definition plain_value :: "column_data \<Rightarrow> bool" where
  "plain_value v = (case v of
     CD_I64 _ \<Rightarrow> True | CD_F64 _ \<Rightarrow> True | CD_Bit _ \<Rightarrow> True | CD_String _ \<Rightarrow> True | CD_Numeric _ \<Rightarrow> True
   | CD_DateTime2 d \<Rightarrow> pred_option (\<lambda>d. d2_scale d = 6 \<and> legal_datetime2 d) d
   | _ \<Rightarrow> False)"

lemma transposed_Inr_iff:
  "transposed f v = Inr w \<longleftrightarrow> (case v of None \<Rightarrow> w = None | Some x \<Rightarrow> \<exists>y. f x = Inr y \<and> w = Some y)"
  by (cases v) (auto simp: rmap_eq_Inr_iff)

lemma ok_or_Inr_iff: "ok_or x e = Inr y \<longleftrightarrow> x = Some y"
  by (cases x) auto

lemma length_column_cells [simp]: "length (column_cells c) = length (column_nulls c)"
  by (cases c) simp_all

lemma reader_plain:
  assumes "column_reader_new p array = Inr reader" "reader_value E reader i = Inr v"
  shows "plain_value v"
  using assms datetime2_from_micros_Some
  by (auto simp: column_reader_new_def plain_value_def transposed_Inr_iff rmap_eq_Inr_iff ok_or_Inr_iff
      split: sql_column_type.splits column.splits option.splits if_splits)

lemma reader_holds:
  assumes "column_reader_new p array = Inr reader" "reader_value E reader i = Inr v" "i < length (column_nulls array)"
  shows "holds v (column_cells array ! i)"
  using assms datetime2_from_micros_Some
  by (auto simp: column_reader_new_def cell_of_def transposed_Inr_iff rmap_eq_Inr_iff ok_or_Inr_iff
      split: sql_column_type.splits column.splits option.splits if_splits)

lemma adapted_holds:
  assumes "adapt_value v name tname sc = Inr w" "holds v c" "plain_value v"
  shows "holds w c"
proof (cases v)
  case (CD_DateTime2 d)
  show ?thesis
  proof (cases d)
    case (Some x)
    have zero: "t = u" if "2 * \<bar>t - u\<bar> \<le> 1" for t u :: int using that by arith
    have x: "c = Cell_Timestamp (micros_of x)" "d2_scale x = 6"
      using assms(2,3) CD_DateTime2 Some by (auto simp: plain_value_def dest: zero)
    show ?thesis
      using assms(1) CD_DateTime2 Some x(1) to_scale_Inr [OF _ _ x(2)] to_datetime_Inr(2) [OF _ x(2)]
      by (auto simp: adapt_value_def Let_def rmap_eq_Inr_iff split: if_splits)
  qed (use assms CD_DateTime2 in \<open>auto simp: adapt_value_def Let_def split: if_splits\<close>)
next
  case (CD_I64 x)
  then show ?thesis
    using assms
    by (cases x) (auto simp: adapt_value_def within_def Let_def rmap_eq_Inr_iff cell_of_def split: if_splits)
qed (use assms in \<open>auto simp: adapt_value_def plain_value_def Let_def\<close>)

end
