(* ===== verification/Sqlserver_Rows.thy ===== *)
theory Sqlserver_Rows
  imports Sqlserver_Values
begin

section \<open>Plans and the rows they encode\<close>

text \<open>
  A plan reads every field of its dataset once. What it encodes of a batch is one row for each
  record, whose values hold the record's cells and fit the accepted table.
\<close>

subsection \<open>Plans\<close>

definition plans_column :: "sql_env \<Rightarrow> arrow_field list \<Rightarrow> planned_column \<Rightarrow> bool" where
  "plans_column E dataset p \<longleftrightarrow> index_of dataset (pc_name p) = Some (pc_field_index p)
     \<and> from_arrow E (dataset ! pc_field_index p) = Inr (pc_column_type p)"

lemma plan_columns_Inr:
  assumes "plan_columns E dataset planned names = Inr (planned', columns)" "length planned = length dataset"
  shows "map pc_name columns = names \<and> (\<forall>p\<in>set columns. plans_column E dataset p \<and> pc_wire_type p = None)
    \<and> length planned' = length dataset
    \<and> (\<forall>i<length dataset. planned' ! i \<longleftrightarrow> planned ! i \<or> i \<in> pc_field_index ` set columns)
    \<and> distinct (map pc_field_index columns) \<and> (\<forall>p\<in>set columns. \<not> planned ! pc_field_index p)"
  using assms
proof (induction names arbitrary: planned planned' columns)
  case (Cons name names)
  obtain i ctype cs where i: "index_of dataset name = Some i" "\<not> planned ! i" "from_arrow E (dataset ! i) = Inr ctype"
    and cs: "plan_columns E dataset (planned[i := True]) names = Inr (planned', cs)"
    and columns: "columns = \<lparr>pc_name = name, pc_field_index = i, pc_wire_type = None, pc_column_type = ctype\<rparr> # cs"
    using Cons.prems(1) by (auto simp: rbind_eq_Inr_iff rmap_eq_Inr_iff split: option.splits if_splits)
  have i_lt: "i < length dataset" using index_of_Some [OF i(1)] by simp
  have "length (planned[i := True]) = length dataset" using Cons.prems(2) by simp
  note IH = Cons.IH [OF cs this]
  have others: "i \<noteq> pc_field_index p \<and> \<not> planned ! pc_field_index p" if "p \<in> set cs" for p
  proof -
    have "index_of dataset (pc_name p) = Some (pc_field_index p)" using IH that by (simp add: plans_column_def)
    then have "pc_field_index p < length planned" using index_of_Some Cons.prems(2) by simp
    moreover have "\<not> planned[i := True] ! pc_field_index p" using IH that by simp
    ultimately show ?thesis using i_lt Cons.prems(2) by (auto simp: nth_list_update split: if_splits)
  qed
  show ?case
    using IH i i_lt columns Cons.prems(2) by (auto simp: plans_column_def nth_list_update dest: others)
qed auto

text \<open>Every field of the dataset has its column, and no column comes twice.\<close>

definition covers :: "sql_env \<Rightarrow> arrow_field list \<Rightarrow> bulk_row_plan \<Rightarrow> bool" where
  "covers E dataset plan \<longleftrightarrow> bp_dataset plan = dataset \<and> (\<forall>p\<in>set (bp_columns plan). plans_column E dataset p)
     \<and> distinct (plan_column_names plan) \<and> set (plan_column_names plan) = af_name ` set dataset
     \<and> distinct (map af_name dataset)"

lemma plan_new_covers:
  assumes "bulk_row_plan_new E dataset names = Inr plan"
  shows "covers E dataset plan" "plan_column_names plan = names" "\<forall>p\<in>set (bp_columns plan). pc_wire_type p = None"
proof -
  obtain planned where p: "plan_columns E dataset (replicate (length dataset) False) names = Inr (planned, bp_columns plan)"
    and all: "\<forall>i<length planned. planned ! i" and d: "bp_dataset plan = dataset"
    using assms by (auto simp: bulk_row_plan_new_def rbind_eq_Inr_iff find_None_iff split: option.splits prod.splits)
  note c = plan_columns_Inr [OF p]
  show names: "plan_column_names plan = names" "\<forall>p\<in>set (bp_columns plan). pc_wire_type p = None"
    using c by (auto simp: plan_column_names_def)
  have len: "length planned = length dataset" using c by simp
  have lt: "pc_field_index p < length dataset \<and> af_name (dataset ! pc_field_index p) = pc_name p"
    if "p \<in> set (bp_columns plan)" for p
    using c that index_of_Some by (auto simp: plans_column_def)
  have each: "\<exists>p\<in>set (bp_columns plan). pc_field_index p = i" if "i < length dataset" for i
    using c all len that by fastforce
  have idx: "index_of dataset (af_name (dataset ! i)) = Some i" if "i < length dataset" for i
    using each [OF that] lt c by (metis (no_types, lifting) length_replicate plans_column_def)
  have "distinct (map af_name dataset)"
    by (auto simp: distinct_conv_nth) (metis idx option.inject)
  moreover have "distinct (map pc_name (bp_columns plan))"
  proof -
    have "map pc_field_index (bp_columns plan) = map (the \<circ> index_of dataset) (map pc_name (bp_columns plan))"
      using c by (auto simp: plans_column_def)
    then show ?thesis using c by (metis distinct_map length_replicate)
  qed
  moreover have "set (plan_column_names plan) = af_name ` set dataset"
  proof
    show "set (plan_column_names plan) \<subseteq> af_name ` set dataset"
      by (auto simp: plan_column_names_def) (metis lt image_eqI nth_mem)
    show "af_name ` set dataset \<subseteq> set (plan_column_names plan)"
      by (auto simp: plan_column_names_def in_set_conv_nth [of _ dataset]) (metis each lt image_eqI)
  qed
  ultimately show "covers E dataset plan" using c d by (auto simp: covers_def plan_column_names_def)
qed

definition typed_column :: "planned_column \<Rightarrow> table_column \<Rightarrow> planned_column" where
  "typed_column p column = p\<lparr>pc_wire_type := Some (tc_type_name column, tc_scale column)\<rparr>"

lemma typed_column_sel [simp]:
  "pc_name (typed_column p column) = pc_name p" "pc_field_index (typed_column p column) = pc_field_index p"
  "pc_column_type (typed_column p column) = pc_column_type p"
  "pc_wire_type (typed_column p column) = Some (tc_type_name column, tc_scale column)"
  "plans_column E dataset (typed_column p column) \<longleftrightarrow> plans_column E dataset p"
  by (simp_all add: typed_column_def plans_column_def)

lemma map2_typed:
  assumes "length ps = length ms"
  shows "map pc_name (map2 typed_column ps ms) = map pc_name ps"
    "(\<forall>p\<in>set ps. plans_column E dataset p) \<Longrightarrow> \<forall>p\<in>set (map2 typed_column ps ms). plans_column E dataset p"
  using assms by (induction ps ms rule: list_induct2) auto

lemma plan_for_table_covers:
  assumes "bulk_row_plan_for_table E dataset shape = Inr plan"
  shows "covers E dataset plan"
    "list_all2 (\<lambda>p column. pc_name p = tc_name column \<and> pc_wire_type p = Some (tc_type_name column, tc_scale column))
       (bp_columns plan) (filter (\<lambda>column. index_of dataset (tc_name column) \<noteq> None) shape)"
proof -
  let ?mapped = "filter (\<lambda>column. index_of dataset (tc_name column) \<noteq> None) shape"
  obtain mapped where m: "?mapped = mapped" by blast
  obtain plan0 where p0: "bulk_row_plan_new E dataset (map tc_name mapped) = Inr plan0"
    and plan: "plan = plan0\<lparr>bp_columns := map2 typed_column (bp_columns plan0) mapped\<rparr>"
    using assms unfolding bulk_row_plan_for_table_def Let_def m typed_column_def rmap_eq_Inr_iff by blast
  note c0 = plan_new_covers [OF p0]
  have names: "map pc_name (bp_columns plan0) = map tc_name mapped" using c0(2) by (simp add: plan_column_names_def)
  then have len: "length (bp_columns plan0) = length mapped" by (metis length_map)
  note typed = map2_typed [OF len]
  show "covers E dataset plan"
    using c0(1) typed plan by (simp add: covers_def plan_column_names_def del: map_map)
  have "list_all2 (\<lambda>p column. pc_name p = tc_name column) (bp_columns plan0) mapped"
    using names len by (simp add: list_all2_conv_all_nth) (metis nth_map)
  then show "list_all2 (\<lambda>p column. pc_name p = tc_name column \<and> pc_wire_type p = Some (tc_type_name column, tc_scale column))
       (bp_columns plan) ?mapped"
    unfolding m using plan len by (simp add: list_all2_conv_all_nth)
qed

subsection \<open>Encoded rows\<close>

definition remaining_rows :: "sql_env \<Rightarrow> bulk_rows \<Rightarrow> (load_failure, column_data list list) result" where
  "remaining_rows E rows =
     traverse (\<lambda>i. traverse (\<lambda>reader. reader_value E reader i) (br_readers rows)) [br_next rows..<br_len rows]"

definition encoded :: "sql_env \<Rightarrow> bulk_row_plan \<Rightarrow> record_batch \<Rightarrow> (load_failure, column_data list list) result" where
  "encoded E plan b = rbind (plan_rows plan b) (remaining_rows E)"

lemma encoded_Inr:
  assumes "encoded E plan b = Inr vs"
  shows "rb_schema b = bp_dataset plan" "length vs = rb_rows b"
    "\<And>i. i < rb_rows b \<Longrightarrow> list_all2 (\<lambda>p v. \<exists>reader. plan_reader b p = Inr reader \<and> reader_value E reader i = Inr v)
       (bp_columns plan) (vs ! i)"
proof -
  obtain readers where r: "rb_schema b = bp_dataset plan" "list_all2 (\<lambda>p reader. plan_reader b p = Inr reader) (bp_columns plan) readers"
    and v: "list_all2 (\<lambda>i row. traverse (\<lambda>reader. reader_value E reader i) readers = Inr row) [0..<rb_rows b] vs"
    using assms
    by (auto simp: encoded_def plan_rows_def remaining_rows_def rbind_eq_Inr_iff rmap_eq_Inr_iff traverse_Inr_iff split: if_splits)
  show "rb_schema b = bp_dataset plan" "length vs = rb_rows b"
    using r(1) v by (auto dest: list_all2_lengthD)
  fix i assume i: "i < rb_rows b"
  then have "list_all2 (\<lambda>reader v. reader_value E reader i = Inr v) readers (vs ! i)"
    using v by (auto simp: list_all2_conv_all_nth traverse_Inr_iff)
  then show "list_all2 (\<lambda>p v. \<exists>reader. plan_reader b p = Inr reader \<and> reader_value E reader i = Inr v) (bp_columns plan) (vs ! i)"
    using r(2) by (auto simp: list_all2_conv_all_nth)
qed

text \<open>A sent row as the table has it: a value for each column of the plan.\<close>

type_synonym sql_row = "column_data option table_row"

definition wire_row :: "string list \<Rightarrow> column_data list \<Rightarrow> sql_row" where
  "wire_row names vs = map_of (zip names vs)"

definition encoded_batch :: "sql_env \<Rightarrow> bulk_row_plan \<Rightarrow> record_batch \<Rightarrow> sql_row multiset" where
  "encoded_batch E plan b = (case encoded E plan b of
     Inr vs \<Rightarrow> mset (map (wire_row (plan_column_names plan)) vs) | Inl _ \<Rightarrow> {#})"

definition encoded_batches :: "sql_env \<Rightarrow> bulk_row_plan \<Rightarrow> record_batch list \<Rightarrow> sql_row multiset" where
  "encoded_batches E plan bs = sum_list (map (encoded_batch E plan) bs)"

lemma encoded_batches_simps [simp]:
  "encoded_batches E plan [] = {#}"
  "encoded_batches E plan (bs @ [b]) = encoded_batches E plan bs + encoded_batch E plan b"
  by (simp_all add: encoded_batches_def)

lemma size_encoded_batch: "is_ok (encoded E plan b) \<Longrightarrow> size (encoded_batch E plan b) = rb_rows b"
  using encoded_Inr(2) by (auto simp: encoded_batch_def is_ok_iff)

lemma size_encoded_batches:
  "\<forall>b\<in>set bs. is_ok (encoded E plan b) \<Longrightarrow> size (encoded_batches E plan bs) = sum_list (map rb_rows bs)"
  by (induction bs) (simp_all add: encoded_batches_def size_encoded_batch)

text \<open>The value of each column holds the cell of the record.\<close>

lemma plan_reader_holds:
  assumes p: "plans_column E dataset p" and b: "rb_schema b = dataset" "rectangular b"
    and r: "plan_reader b p = Inr reader" "reader_value E reader i = Inr v" and i: "i < rb_rows b"
  shows "holds v (batch_row b i (pc_name p))"
proof -
  let ?array = "rb_columns b ! pc_field_index p"
  have "pc_field_index p < length dataset" using p index_of_Some by (auto simp: plans_column_def)
  then have "?array \<in> set (rb_columns b)" using b by (simp add: rectangular_def)
  then have len: "i < length (column_nulls ?array)" using b(2) i by (simp add: rectangular_def)
  have cell: "batch_row b i (pc_name p) = column_cells ?array ! i"
    using p b(1) by (simp add: batch_row_def plans_column_def)
  obtain plain where plain: "column_reader_new p ?array = Inr plain"
    and reader: "reader = (case pc_wire_type p of Some (tname, sc) \<Rightarrow> Adapted plain (pc_name p) tname sc | None \<Rightarrow> plain)"
    using r(1) by (auto simp: plan_reader_def rmap_eq_Inr_iff)
  show ?thesis
  proof (cases "pc_wire_type p")
    case None
    then show ?thesis using reader_holds [OF plain _ len] r(2) reader cell by simp
  next
    case (Some w)
    then obtain v0 where "reader_value E plain i = Inr v0" "adapt_value v0 (pc_name p) (fst w) (snd w) = Inr v"
      using r(2) reader by (auto simp: rbind_eq_Inr_iff split: prod.splits)
    then show ?thesis using reader_holds [OF plain _ len] reader_plain [OF plain] adapted_holds cell by metis
  qed
qed

text \<open>The values that the plan's readers give for one record, column by column.\<close>

definition planned_row :: "sql_env \<Rightarrow> bulk_row_plan \<Rightarrow> record_batch \<Rightarrow> nat \<Rightarrow> column_data list \<Rightarrow> bool" where
  "planned_row E plan b i row \<longleftrightarrow>
     list_all2 (\<lambda>p v. \<exists>reader. plan_reader b p = Inr reader \<and> reader_value E reader i = Inr v) (bp_columns plan) row"

lemma planned_row_holds:
  assumes c: "covers E dataset plan" and l: "planned_row E plan b i row" and b: "rb_schema b = dataset" "rectangular b"
    and i: "i < rb_rows b" and f: "field \<in> set dataset"
  shows "\<exists>v. wire_row (plan_column_names plan) row (af_name field) = Some v \<and> holds v (batch_row b i (af_name field))"
proof -
  obtain p where p: "p \<in> set (bp_columns plan)" "pc_name p = af_name field"
    using c f by (auto simp: covers_def plan_column_names_def set_eq_iff image_iff) metis
  then obtain j where j: "j < length (bp_columns plan)" "bp_columns plan ! j = p" by (auto simp: in_set_conv_nth)
  then obtain reader where r: "plan_reader b p = Inr reader" "reader_value E reader i = Inr (row ! j)"
    using l by (auto simp: planned_row_def list_all2_conv_all_nth)
  have "holds (row ! j) (batch_row b i (pc_name p))"
    using plan_reader_holds [OF _ b r i] c p(1) by (simp add: covers_def)
  moreover have "wire_row (plan_column_names plan) row (af_name field) = Some (row ! j)"
  proof -
    have "length (plan_column_names plan) = length row"
      using l by (simp add: planned_row_def plan_column_names_def list_all2_lengthD)
    then show ?thesis
      using c j p map_of_zip_nth [of "plan_column_names plan" row j]
      by (simp add: wire_row_def covers_def plan_column_names_def)
  qed
  ultimately show ?thesis using p(2) by metis
qed

text \<open>It is what the source's iterator yields.\<close>

lemma next_row_planned:
  assumes "plan_rows plan b = Inr rows" "next_row E (rows\<lparr>br_next := i\<rparr>) = (Some (Inr row), rows')"
  shows "planned_row E plan b i row" "i < rb_rows b" "rb_schema b = bp_dataset plan"
proof -
  have r: "rb_schema b = bp_dataset plan" "br_len rows = rb_rows b" "list_all2 (\<lambda>p reader. plan_reader b p = Inr reader) (bp_columns plan) (br_readers rows)"
    using assms(1) by (auto simp: plan_rows_def rmap_eq_Inr_iff traverse_Inr_iff split: if_splits)
  have v: "list_all2 (\<lambda>reader v. reader_value E reader i = Inr v) (br_readers rows) row" "i < rb_rows b"
    using assms(2) r(2) by (auto simp: next_row_def Let_def traverse_Inr_iff [symmetric] split: if_splits sum.splits)
  show "planned_row E plan b i row" "i < rb_rows b" "rb_schema b = bp_dataset plan"
    using r v by (auto simp: planned_row_def list_all2_conv_all_nth)
qed

lemma encoded_row_holds:
  assumes "covers E dataset plan" "encoded E plan b = Inr vs" "rectangular b" "i < rb_rows b" "field \<in> set dataset"
  shows "\<exists>v. wire_row (plan_column_names plan) (vs ! i) (af_name field) = Some v \<and> holds v (batch_row b i (af_name field))"
  using assms encoded_Inr [OF assms(2)]
  by (intro planned_row_holds [of E dataset]) (simp_all add: planned_row_def covers_def)

subsection \<open>Accepted tables\<close>

text \<open>What validation accepts, as a predicate.\<close>

definition accepts_field :: "sql_env \<Rightarrow> load_mode \<Rightarrow> string list \<Rightarrow> bool \<Rightarrow> arrow_field \<Rightarrow> table_column \<Rightarrow> bool" where
  "accepts_field E mode keys rounding field column \<longleftrightarrow> accepted_type E rounding field column
     \<and> (af_nullable field \<longrightarrow> tc_nullable column)
     \<and> (tc_identity column \<longrightarrow> mode = Merge \<and> af_name field \<in> set keys)
     \<and> (tc_has_default column \<and> af_nullable field \<longrightarrow> mode = Merge)"

definition can_be_omitted :: "table_column \<Rightarrow> bool" where
  "can_be_omitted column \<longleftrightarrow> tc_nullable column \<or> tc_identity column \<or> tc_has_default column"

lemma field_violations_Nil_iff:
  "field_violations E shape mode keys rounding field = [] \<longleftrightarrow>
     (\<exists>column. List.find (\<lambda>column. tc_name column = af_name field) shape = Some column
        \<and> accepts_field E mode keys rounding field column)"
  by (auto simp: field_violations_def accepts_field_def split: option.splits)

lemma extra_column_violations_Nil_iff:
  "extra_column_violations dataset column = [] \<longleftrightarrow> tc_name column \<in> af_name ` set dataset \<or> can_be_omitted column"
  by (auto simp: extra_column_violations_def can_be_omitted_def index_of_None_iff)

lemma validate_shape_Inr_iff:
  "validate_shape E shape dataset mode keys rounding = Inr () \<longleftrightarrow>
     (\<forall>field\<in>set dataset. \<exists>column. List.find (\<lambda>column. tc_name column = af_name field) shape = Some column
        \<and> accepts_field E mode keys rounding field column)
     \<and> (\<forall>column\<in>set shape. tc_name column \<in> af_name ` set dataset \<or> can_be_omitted column)"
  by (auto simp: validate_shape_def Let_def field_violations_Nil_iff extra_column_violations_Nil_iff)

text \<open>The value an accepted column receives has its type.\<close>

lemma accepted_value_fits:
  assumes a: "accepted_type E rounding field column" and t: "from_arrow E field = Inr (pc_column_type p)"
    and r: "column_reader_new p array = Inr reader" "reader_value E reader i = Inr v"
    and w: "adapt_value v name (tc_type_name column) (tc_scale column) = Inr w"
  shows "wire_fits (tc_type_name column) (tc_scale column) w"
proof (cases "pc_column_type p")
  case CT_BigInt
  then obtain x where "v = CD_I64 x" using r by (auto simp: column_reader_new_def split: column.splits)
  then show ?thesis
    using a t w CT_BigInt
    by (cases x) (auto simp: accepted_type_def adapt_value_def within_def Let_def rmap_eq_Inr_iff split: if_splits)
next
  case CT_DateTime2Micros
  then obtain x where x: "v = CD_DateTime2 x"
    using r by (auto simp: column_reader_new_def rmap_eq_Inr_iff split: column.splits)
  have legal: "\<And>d. x = Some d \<Longrightarrow> d2_scale d = 6 \<and> legal_datetime2 d"
    using reader_plain [OF r] x by (simp add: plain_value_def)
  show ?thesis
  proof (cases x)
    case None
    then show ?thesis using a t w CT_DateTime2Micros x
      by (auto simp: accepted_type_def adapt_value_def Let_def split: if_splits)
  next
    case (Some d)
    have d: "d2_scale d = 6" "legal_datetime2 d" using legal Some by simp_all
    show ?thesis
      using a t w CT_DateTime2Micros x Some d to_scale_Inr [OF _ _ d(1)] to_datetime_Inr(1) [OF _ d(1)]
      by (auto simp: accepted_type_def adapt_value_def Let_def rmap_eq_Inr_iff split: if_splits)
  qed
qed (use assms in \<open>auto simp: accepted_type_def column_reader_new_def adapt_value_def Let_def option.pred_map o_def option.pred_True
    split: column.splits\<close>)

lemma planned_row_fits:
  assumes valid: "validate_shape E shape dataset mode keys rounding = Inr ()"
    and plan: "bulk_row_plan_for_table E dataset shape = Inr plan" and l: "planned_row E plan b i row"
  shows "list_all2 (\<lambda>column v. wire_fits (tc_type_name column) (tc_scale column) v)
    (filter (\<lambda>column. index_of dataset (tc_name column) \<noteq> None) shape) row"
proof -
  let ?mapped = "filter (\<lambda>column. index_of dataset (tc_name column) \<noteq> None) shape"
  note c = plan_for_table_covers [OF plan]
  have len: "length (bp_columns plan) = length ?mapped" using c(2) by (rule list_all2_lengthD)
  note l = l [unfolded planned_row_def]
  have "wire_fits (tc_type_name (?mapped ! j)) (tc_scale (?mapped ! j)) (row ! j)" if j: "j < length ?mapped" for j
  proof -
    let ?p = "bp_columns plan ! j" and ?column = "?mapped ! j"
    have w: "pc_name ?p = tc_name ?column" "pc_wire_type ?p = Some (tc_type_name ?column, tc_scale ?column)"
      using c(2) len j by (simp_all add: list_all2_conv_all_nth)
    have p: "plans_column E dataset ?p" using c(1) len j by (simp add: covers_def)
    obtain reader where r: "plan_reader b ?p = Inr reader" "reader_value E reader i = Inr (row ! j)"
      using l len j by (auto simp: list_all2_conv_all_nth)
    obtain plain v where plain: "column_reader_new ?p (rb_columns b ! pc_field_index ?p) = Inr plain"
      "reader_value E plain i = Inr v" "adapt_value v (pc_name ?p) (tc_type_name ?column) (tc_scale ?column) = Inr (row ! j)"
      using r w by (auto simp: plan_reader_def rmap_eq_Inr_iff rbind_eq_Inr_iff)
    have idx: "index_of dataset (pc_name ?p) = Some (pc_field_index ?p)" using p by (simp add: plans_column_def)
    have f: "dataset ! pc_field_index ?p \<in> set dataset" "af_name (dataset ! pc_field_index ?p) = tc_name ?column"
      using index_of_Some [OF idx] w(1) by simp_all
    obtain column where column: "List.find (\<lambda>column. tc_name column = tc_name ?column) shape = Some column"
      "accepted_type E rounding (dataset ! pc_field_index ?p) column"
      using valid [unfolded validate_shape_Inr_iff] f by (auto simp: accepts_field_def)
    have "map pc_name (bp_columns plan) = map tc_name ?mapped"
      using c(2) by (induction rule: list_all2_induct) simp_all
    then have "distinct (map tc_name ?mapped)" using c(1) by (simp add: covers_def plan_column_names_def)
    moreover have "column \<in> set ?mapped" "tc_name column = tc_name ?column"
      using find_Some_iff' [OF column(1)] idx w(1) by auto
    ultimately have "column = ?column" using j by (metis distinct_map_eqD nth_mem)
    then show ?thesis using accepted_value_fits [OF _ _ plain] column(2) p by (simp add: plans_column_def)
  qed
  then show ?thesis using l len by (auto simp: list_all2_conv_all_nth)
qed

end
