(* ===== verification/Sqlserver_Statements.thy ===== *)
theory Sqlserver_Statements
  imports Sqlserver_Text Sqlserver_Session Sql_Text
begin

section \<open>The SQL text of the SQL Server destination, read back\<close>

text \<open>
  What the texts of \<open>src/sqlserver/session.rs\<close> and \<open>src/sqlserver/table.rs\<close> say to a reader of SQL,
  for every schema, table, stage, key and column name. \<open>CREATE TABLE\<close> is read with its columns by
  \<open>read_create_table\<close>.
\<close>

abbreviation server_tokens :: "string \<Rightarrow> sql_token list" where
  "server_tokens \<equiv> tokens (CHR 0x5B) (CHR 0x5D)"

definition read_server :: "string \<Rightarrow> sql_statement option" where
  "read_server sql = (case read_create_table sql of
     Some ((s, t), _) \<Rightarrow> Some (Create_Columns [s, t]) | None \<Rightarrow> read_sql (CHR 0x5B) (CHR 0x5D) sql)"

lemma bracketed_tokens:
  "closes_at (CHR 0x5D) rest \<Longrightarrow> server_tokens (bracket_quote n @ rest) = Named n # server_tokens rest"
  using tokens_name [of "CHR 0x5D" rest "CHR 0x5B" n] by (simp add: bracket_quote_def doubled_def)

lemma server_pieces:
  "tokens (CHR 0x5B) (CHR 0x5D) (''DELETE FROM '' @ rest) = [Word ''DELETE'', Word ''FROM''] @ tokens (CHR 0x5B) (CHR 0x5D) rest"
  "tokens (CHR 0x5B) (CHR 0x5D) (''SET IDENTITY_INSERT '' @ rest) = [Word ''SET'', Word ''IDENTITY_INSERT''] @ tokens (CHR 0x5B) (CHR 0x5D) rest"
  "tokens (CHR 0x5B) (CHR 0x5D) ('' '' @ rest) = [] @ tokens (CHR 0x5B) (CHR 0x5D) rest"
  "tokens (CHR 0x5B) (CHR 0x5D) (''DROP TABLE '' @ rest) = [Word ''DROP'', Word ''TABLE''] @ tokens (CHR 0x5B) (CHR 0x5D) rest"
  "tokens (CHR 0x5B) (CHR 0x5D) (''SELECT TOP (1) 1 FROM '' @ rest) = [Word ''SELECT'', Word ''TOP'', Symbol (CHR ''(''), Word ''1'', Symbol (CHR '')''), Word ''1'', Word ''FROM''] @ tokens (CHR 0x5B) (CHR 0x5D) rest"
  "tokens (CHR 0x5B) (CHR 0x5D) ('' GROUP BY '' @ rest) = [Word ''GROUP'', Word ''BY''] @ tokens (CHR 0x5B) (CHR 0x5D) rest"
  "tokens (CHR 0x5B) (CHR 0x5D) ('', '' @ rest) = [Symbol (CHR '','')] @ tokens (CHR 0x5B) (CHR 0x5D) rest"
  "tokens (CHR 0x5B) (CHR 0x5D) (''SELECT COUNT_BIG(*), COUNT_BIG(CASE WHEN matched = 1 THEN 1 END) FROM '' @ rest) = [Word ''SELECT'', Word ''COUNT_BIG'', Symbol (CHR ''(''), Symbol (CHR ''*''), Symbol (CHR '')''), Symbol (CHR '',''), Word ''COUNT_BIG'', Symbol (CHR ''(''), Word ''CASE'', Word ''WHEN'', Word ''matched'', Symbol (CHR ''=''), Word ''1'', Word ''THEN'', Word ''1'', Word ''END'', Symbol (CHR '')''), Word ''FROM''] @ tokens (CHR 0x5B) (CHR 0x5D) rest"
  "tokens (CHR 0x5B) (CHR 0x5D) (''(SELECT CASE WHEN EXISTS (SELECT 1 FROM '' @ rest) = [Symbol (CHR ''(''), Word ''SELECT'', Word ''CASE'', Word ''WHEN'', Word ''EXISTS'', Symbol (CHR ''(''), Word ''SELECT'', Word ''1'', Word ''FROM''] @ tokens (CHR 0x5B) (CHR 0x5D) rest"
  "tokens (CHR 0x5B) (CHR 0x5D) ('' AS target WITH (UPDLOCK, HOLDLOCK) WHERE '' @ rest) = [Word ''AS'', Word ''target'', Word ''WITH'', Symbol (CHR ''(''), Word ''UPDLOCK'', Symbol (CHR '',''), Word ''HOLDLOCK'', Symbol (CHR '')''), Word ''WHERE''] @ tokens (CHR 0x5B) (CHR 0x5D) rest"
  "tokens (CHR 0x5B) (CHR 0x5D) ('') THEN 1 ELSE 0 END AS matched FROM '' @ rest) = [Symbol (CHR '')''), Word ''THEN'', Word ''1'', Word ''ELSE'', Word ''0'', Word ''END'', Word ''AS'', Word ''matched'', Word ''FROM''] @ tokens (CHR 0x5B) (CHR 0x5D) rest"
  "tokens (CHR 0x5B) (CHR 0x5D) (''MERGE INTO '' @ rest) = [Word ''MERGE'', Word ''INTO''] @ tokens (CHR 0x5B) (CHR 0x5D) rest"
  "tokens (CHR 0x5B) (CHR 0x5D) ('' WITH (HOLDLOCK) AS target USING '' @ rest) = [Word ''WITH'', Symbol (CHR ''(''), Word ''HOLDLOCK'', Symbol (CHR '')''), Word ''AS'', Word ''target'', Word ''USING''] @ tokens (CHR 0x5B) (CHR 0x5D) rest"
  "tokens (CHR 0x5B) (CHR 0x5D) ('' AS source ON '' @ rest) = [Word ''AS'', Word ''source'', Word ''ON''] @ tokens (CHR 0x5B) (CHR 0x5D) rest"
  "tokens (CHR 0x5B) (CHR 0x5D) (''WHEN MATCHED THEN UPDATE SET '' @ rest) = [Word ''WHEN'', Word ''MATCHED'', Word ''THEN'', Word ''UPDATE'', Word ''SET''] @ tokens (CHR 0x5B) (CHR 0x5D) rest"
  "tokens (CHR 0x5B) (CHR 0x5D) ('' WHEN NOT MATCHED THEN INSERT ('' @ rest) = [Word ''WHEN'', Word ''NOT'', Word ''MATCHED'', Word ''THEN'', Word ''INSERT'', Symbol (CHR ''('')] @ tokens (CHR 0x5B) (CHR 0x5D) rest"
  "tokens (CHR 0x5B) (CHR 0x5D) ('') VALUES ('' @ rest) = [Symbol (CHR '')''), Word ''VALUES'', Symbol (CHR ''('')] @ tokens (CHR 0x5B) (CHR 0x5D) rest"
  "tokens (CHR 0x5B) (CHR 0x5D) ('');'' @ rest) = [Symbol (CHR '')''), Symbol (CHR '';'')] @ tokens (CHR 0x5B) (CHR 0x5D) rest"
  "tokens (CHR 0x5B) (CHR 0x5D) (''target.'' @ rest) = [Word ''target'', Symbol (CHR ''.'')] @ tokens (CHR 0x5B) (CHR 0x5D) rest"
  "tokens (CHR 0x5B) (CHR 0x5D) ('' = source.'' @ rest) = [Symbol (CHR ''=''), Word ''source'', Symbol (CHR ''.'')] @ tokens (CHR 0x5B) (CHR 0x5D) rest"
  "tokens (CHR 0x5B) (CHR 0x5D) (''source.'' @ rest) = [Word ''source'', Symbol (CHR ''.'')] @ tokens (CHR 0x5B) (CHR 0x5D) rest"
  "tokens (CHR 0x5B) (CHR 0x5D) ('' AND '' @ rest) = [Word ''AND''] @ tokens (CHR 0x5B) (CHR 0x5D) rest"
  "tokens (CHR 0x5B) (CHR 0x5D) (''.'' @ rest) = [Symbol (CHR ''.'')] @ tokens (CHR 0x5B) (CHR 0x5D) rest"
  by (rule tokens_piece; code_simp)+

lemma server_ends:
  "server_tokens '' HAVING COUNT_BIG(*) > 1'' = [Word ''HAVING'', Word ''COUNT_BIG'', Symbol (CHR ''(''), Symbol (CHR ''*''), Symbol (CHR '')''), Symbol (CHR ''>''), Word ''1'']"
  "server_tokens '' AS source) AS counted'' = [Word ''AS'', Word ''source'', Symbol (CHR '')''), Word ''AS'', Word ''counted'']"
  "server_tokens ''ON'' = [Word ''ON'']"
  "server_tokens ''OFF'' = [Word ''OFF'']"
  by code_simp+

lemma server_closes:
  "closes_at (CHR 0x5D) (''DELETE FROM '' @ rest)"
  "closes_at (CHR 0x5D) (''SET IDENTITY_INSERT '' @ rest)"
  "closes_at (CHR 0x5D) ('' '' @ rest)"
  "closes_at (CHR 0x5D) (''DROP TABLE '' @ rest)"
  "closes_at (CHR 0x5D) (''SELECT TOP (1) 1 FROM '' @ rest)"
  "closes_at (CHR 0x5D) ('' GROUP BY '' @ rest)"
  "closes_at (CHR 0x5D) ('', '' @ rest)"
  "closes_at (CHR 0x5D) (''SELECT COUNT_BIG(*), COUNT_BIG(CASE WHEN matched = 1 THEN 1 END) FROM '' @ rest)"
  "closes_at (CHR 0x5D) (''(SELECT CASE WHEN EXISTS (SELECT 1 FROM '' @ rest)"
  "closes_at (CHR 0x5D) ('' AS target WITH (UPDLOCK, HOLDLOCK) WHERE '' @ rest)"
  "closes_at (CHR 0x5D) ('') THEN 1 ELSE 0 END AS matched FROM '' @ rest)"
  "closes_at (CHR 0x5D) (''MERGE INTO '' @ rest)"
  "closes_at (CHR 0x5D) ('' WITH (HOLDLOCK) AS target USING '' @ rest)"
  "closes_at (CHR 0x5D) ('' AS source ON '' @ rest)"
  "closes_at (CHR 0x5D) (''WHEN MATCHED THEN UPDATE SET '' @ rest)"
  "closes_at (CHR 0x5D) ('' WHEN NOT MATCHED THEN INSERT ('' @ rest)"
  "closes_at (CHR 0x5D) ('') VALUES ('' @ rest)"
  "closes_at (CHR 0x5D) ('');'' @ rest)"
  "closes_at (CHR 0x5D) (''target.'' @ rest)"
  "closes_at (CHR 0x5D) ('' = source.'' @ rest)"
  "closes_at (CHR 0x5D) (''source.'' @ rest)"
  "closes_at (CHR 0x5D) ('' AND '' @ rest)"
  "closes_at (CHR 0x5D) (''.'' @ rest)"
  "closes_at (CHR 0x5D) '' HAVING COUNT_BIG(*) > 1''"
  "closes_at (CHR 0x5D) '' AS source) AS counted''"
  "closes_at (CHR 0x5D) ''ON''"
  "closes_at (CHR 0x5D) ''OFF''"
  "closes_at (CHR 0x5D) []"
  by simp_all

lemma object_tokens:
  "closes_at (CHR 0x5D) rest \<Longrightarrow>
     server_tokens (qualified_name s t @ rest) = [Named s, Symbol (CHR ''.''), Named t] @ server_tokens rest"
  unfolding qualified_name_def append_assoc
  by (simp only: bracketed_tokens server_pieces server_closes token_append)

subsection \<open>Lists of names\<close>

lemma bracketed_names_tokens:
  assumes "closes_at (CHR 0x5D) rest"
  shows "server_tokens (join '', '' (map bracket_quote ns) @ rest)
      = spread [Symbol (CHR '','')] (map (\<lambda>n. [Named n]) ns) @ server_tokens rest"
  using assms by (intro tokens_join) (simp_all only: bracketed_tokens server_pieces server_closes token_append)

lemma key_predicate_tokens:
  assumes "closes_at (CHR 0x5D) rest"
  shows "server_tokens (key_predicate (map bracket_quote ns) @ rest)
      = spread [Word ''AND''] (map (\<lambda>n. [Word ''target'', Symbol (CHR ''.''), Named n, Symbol (CHR ''=''),
          Word ''source'', Symbol (CHR ''.''), Named n]) ns) @ server_tokens rest"
  unfolding key_predicate_def map_map comp_def
  using assms by (intro tokens_join) (simp_all only: bracketed_tokens server_pieces server_closes token_append)

lemma update_tokens:
  assumes "closes_at (CHR 0x5D) rest"
  shows "server_tokens (join '', '' (map (\<lambda>name. name @ '' = source.'' @ name) (map bracket_quote ns)) @ rest)
      = spread [Symbol (CHR '','')] (map (\<lambda>n. [Named n, Symbol (CHR ''=''), Word ''source'', Symbol (CHR ''.''), Named n]) ns)
        @ server_tokens rest"
  unfolding map_map comp_def
  using assms by (intro tokens_join) (simp_all only: bracketed_tokens server_pieces server_closes token_append)

lemma value_tokens:
  assumes "closes_at (CHR 0x5D) rest"
  shows "server_tokens (join '', '' (map (\<lambda>name. ''source.'' @ name) (map bracket_quote ns)) @ rest)
      = spread [Symbol (CHR '','')] (map (\<lambda>n. [Word ''source'', Symbol (CHR ''.''), Named n]) ns) @ server_tokens rest"
  unfolding map_map comp_def
  using assms by (intro tokens_join) (simp_all only: bracketed_tokens server_pieces server_closes token_append)

lemmas server_reading = bracketed_names_tokens key_predicate_tokens update_tokens value_tokens object_tokens bracketed_tokens
  server_pieces server_ends server_closes token_append

lemma read_server_other:
  "strip_prefix ''CREATE TABLE '' sql = None \<Longrightarrow> read_server sql = read_sql (CHR 0x5B) (CHR 0x5D) sql"
  by (simp add: read_server_def read_create_table_def)

subsection \<open>Statements\<close>

definition begin_sql :: string where
  "begin_sql = ''BEGIN TRAN''"

lemma read_control [simp]:
  "read_server begin_sql = Some Begin_Transaction" "read_server commit_sql = Some Commit_Transaction"
  "read_server rollback_sql = Some Rollback_Transaction"
  unfolding begin_sql_def commit_sql_def rollback_sql_def by code_simp+

text \<open>The text of \<open>create_table_ddl\<close> creates the table it is given.\<close>

lemma read_create: "create_table_ddl E dataset s t = Inr sql \<Longrightarrow> read_server sql = Some (Create_Columns [s, t])"
  using create_table_ddl_reads_back by (fastforce simp: read_server_def)

lemma read_delete: "read_server (delete_sql (qualified_name s t)) = Some (Delete_Rows [s, t])"
proof -
  have "server_tokens (delete_sql (qualified_name s t) @ []) = [Word ''DELETE'', Word ''FROM'', Named s, Symbol (CHR ''.''), Named t]"
    unfolding delete_sql_def append_assoc by (simp only: server_reading tokens_Nil)
  moreover have "strip_prefix ''CREATE TABLE '' (delete_sql (qualified_name s t)) = None"
    by (simp add: delete_sql_def strip_prefix_def)
  ultimately show ?thesis by (simp add: read_server_other read_sql_def reader_defs spelt_eqs)
qed

lemma read_drop: "read_server (drop_table_sql (qualified_name s t)) = Some (Drop_Table [s, t])"
proof -
  have "server_tokens (drop_table_sql (qualified_name s t) @ []) = [Word ''DROP'', Word ''TABLE'', Named s, Symbol (CHR ''.''), Named t]"
    unfolding drop_table_sql_def append_assoc by (simp only: server_reading tokens_Nil)
  moreover have "strip_prefix ''CREATE TABLE '' (drop_table_sql (qualified_name s t)) = None"
    by (simp add: drop_table_sql_def strip_prefix_def)
  ultimately show ?thesis by (simp add: read_server_other read_sql_def reader_defs spelt_eqs)
qed

lemma read_identity:
  "read_server (identity_insert_sql (qualified_name s t) ''ON'') = Some (Identity_Insert [s, t] True)"
  "read_server (identity_insert_sql (qualified_name s t) ''OFF'') = Some (Identity_Insert [s, t] False)"
proof -
  have "server_tokens (identity_insert_sql (qualified_name s t) ''ON'')
      = [Word ''SET'', Word ''IDENTITY_INSERT'', Named s, Symbol (CHR ''.''), Named t, Word ''ON'']"
    "server_tokens (identity_insert_sql (qualified_name s t) ''OFF'')
      = [Word ''SET'', Word ''IDENTITY_INSERT'', Named s, Symbol (CHR ''.''), Named t, Word ''OFF'']"
    unfolding identity_insert_sql_def append_assoc by (simp_all only: server_reading tokens_Nil)
  moreover have "strip_prefix ''CREATE TABLE '' (identity_insert_sql q state) = None" for q state
    by (simp add: identity_insert_sql_def strip_prefix_def)
  ultimately show "read_server (identity_insert_sql (qualified_name s t) ''ON'') = Some (Identity_Insert [s, t] True)"
    "read_server (identity_insert_sql (qualified_name s t) ''OFF'') = Some (Identity_Insert [s, t] False)"
    by (simp_all add: read_server_other read_sql_def reader_defs spelt_eqs)
qed

text \<open>The gate asks for one staged key tuple that occurs more than once.\<close>

lemma read_duplicate_gate:
  "read_server (duplicate_gate_sql (qualified_name s t) (map bracket_quote ks)) = Some (Select_Groups 1 [s, t] ks Greater 1)"
proof -
  have "server_tokens (duplicate_gate_sql (qualified_name s t) (map bracket_quote ks))
      = [Word ''SELECT'', Word ''TOP'', Symbol (CHR ''(''), Word ''1'', Symbol (CHR '')''), Word ''1'', Word ''FROM'',
         Named s, Symbol (CHR ''.''), Named t, Word ''GROUP'', Word ''BY'']
        @ spread [Symbol (CHR '','')] (map (\<lambda>n. [Named n]) ks)
        @ [Word ''HAVING'', Word ''COUNT_BIG'', Symbol (CHR ''(''), Symbol (CHR ''*''), Symbol (CHR '')''), Symbol (CHR ''>''), Word ''1'']"
    unfolding duplicate_gate_sql_def by (simp only: server_reading)
  moreover have "strip_prefix ''CREATE TABLE '' (duplicate_gate_sql (qualified_name s t) (map bracket_quote ks)) = None"
    by (simp add: duplicate_gate_sql_def strip_prefix_def)
  ultimately show ?thesis by (simp add: read_server_other read_sql_def reader_defs spelt_eqs some_names_read)
qed

lemma read_merge_counts:
  "read_server (merge_counts_sql (qualified_name s g) (qualified_name s t) (map bracket_quote ks))
     = Some (Count_Flagged [s, g] ''source'' [s, t] ''target'' [map (\<lambda>n. (Equal, (''target'', n), (''source'', n))) ks] 1 1 0)"
proof -
  have "server_tokens (merge_counts_sql (qualified_name s g) (qualified_name s t) (map bracket_quote ks))
      = [Word ''SELECT'', Word ''COUNT_BIG'', Symbol (CHR ''(''), Symbol (CHR ''*''), Symbol (CHR '')''), Symbol (CHR '',''), Word ''COUNT_BIG'', Symbol (CHR ''(''), Word ''CASE'', Word ''WHEN'', Word ''matched'', Symbol (CHR ''=''), Word ''1'', Word ''THEN'', Word ''1'', Word ''END'', Symbol (CHR '')''), Word ''FROM'', Symbol (CHR ''(''), Word ''SELECT'', Word ''CASE'', Word ''WHEN'', Word ''EXISTS'', Symbol (CHR ''(''), Word ''SELECT'', Word ''1'', Word ''FROM'']
        @ [Named s, Symbol (CHR ''.''), Named t, Word ''AS'', Word ''target'', Word ''WITH'', Symbol (CHR ''(''), Word ''UPDLOCK'',
           Symbol (CHR '',''), Word ''HOLDLOCK'', Symbol (CHR '')''), Word ''WHERE'']
        @ spread [Word ''AND''] (map (\<lambda>n. [Word ''target'', Symbol (CHR ''.''), Named n, Symbol (CHR ''=''),
            Word ''source'', Symbol (CHR ''.''), Named n]) ks)
        @ [Symbol (CHR '')''), Word ''THEN'', Word ''1'', Word ''ELSE'', Word ''0'', Word ''END'', Word ''AS'', Word ''matched'',
           Word ''FROM'', Named s, Symbol (CHR ''.''), Named g, Word ''AS'', Word ''source'', Symbol (CHR '')''), Word ''AS'', Word ''counted'']"
    unfolding merge_counts_sql_def append_assoc by (simp only: server_reading)
  moreover have "strip_prefix ''CREATE TABLE '' (merge_counts_sql (qualified_name s g) (qualified_name s t) (map bracket_quote ks)) = None"
    by (simp add: merge_counts_sql_def strip_prefix_def)
  ultimately show ?thesis
    by (simp add: read_server_other read_sql_def reader_defs spelt_eqs a_condition_read eval_nat_numeral)
qed

lemma read_merge_into:
  "read_server (merge_into_sql (qualified_name s t) (qualified_name s g) (map bracket_quote ks) (map bracket_quote cs)
       (map bracket_quote us))
     = Some (Merge_Rows [s, t] ''target'' [s, g] ''source'' [map (\<lambda>n. (Equal, (''target'', n), (''source'', n))) ks]
         ((if us = [] then [] else [(Matched, Update_Set (map (\<lambda>n. (n, (''source'', n))) us))])
          @ [(Not_Matched, Insert_Values cs (map (Pair ''source'') cs))]))"
proof -
  let ?insert = "[Word ''WHEN'', Word ''NOT'', Word ''MATCHED'', Word ''THEN'', Word ''INSERT'', Symbol (CHR ''('')]
        @ spread [Symbol (CHR '','')] (map (\<lambda>n. [Named n]) cs) @ [Symbol (CHR '')''), Word ''VALUES'', Symbol (CHR ''('')]
        @ spread [Symbol (CHR '','')] (map (\<lambda>n. [Word ''source'', Symbol (CHR ''.''), Named n]) cs)
        @ [Symbol (CHR '')''), Symbol (CHR '';'')]"
  let ?on = "[Word ''MERGE'', Word ''INTO'', Named s, Symbol (CHR ''.''), Named t, Word ''WITH'', Symbol (CHR ''(''),
         Word ''HOLDLOCK'', Symbol (CHR '')''), Word ''AS'', Word ''target'', Word ''USING'', Named s, Symbol (CHR ''.''), Named g,
         Word ''AS'', Word ''source'', Word ''ON'']"
  let ?keys = "spread [Word ''AND''] (map (\<lambda>n. [Word ''target'', Symbol (CHR ''.''), Named n, Symbol (CHR ''=''),
            Word ''source'', Symbol (CHR ''.''), Named n]) ks)"
  let ?update = "[Word ''WHEN'', Word ''MATCHED'', Word ''THEN'', Word ''UPDATE'', Word ''SET'']
        @ spread [Symbol (CHR '','')] (map (\<lambda>n. [Named n, Symbol (CHR ''=''), Word ''source'', Symbol (CHR ''.''), Named n]) us)"
  let ?sql = "merge_into_sql (qualified_name s t) (qualified_name s g) (map bracket_quote ks) (map bracket_quote cs)
       (map bracket_quote us)"
  have ts: "server_tokens (?sql @ []) = ?on @ ?keys @ (if us = [] then [] else ?update) @ ?insert"
  proof (cases "us = []")
    case True
    show ?thesis unfolding True
      unfolding merge_into_sql_def Let_def
      by (simp only: list.map if_True simp_thms server_reading append.left_neutral tokens_Nil)
  next
    case False
    then have "map bracket_quote us \<noteq> []" by simp
    then show ?thesis unfolding merge_into_sql_def Let_def
      by (simp only: False if_False simp_thms server_reading tokens_Nil)
  qed
  moreover have "strip_prefix ''CREATE TABLE '' ?sql = None"
    by (simp add: merge_into_sql_def strip_prefix_def Let_def)
  ultimately show ?thesis
    by (cases "us = []")
      (simp_all add: read_server_other read_sql_def reader_defs spelt_eqs a_condition_read some_names_read some_fields_read
        some_assignments_read an_assignment_def eval_nat_numeral)
qed

text \<open>The catalog query is a query.\<close>

lemma catalog_pieces:
  "server_tokens (''SELECT c.name, COALESCE(t.name, TYPE_NAME(c.user_type_id)), c.precision, c.scale, c.max_length, '' @ rest) = [Word ''SELECT'', Word ''c'', Symbol (CHR ''.''), Word ''name'', Symbol (CHR '',''), Word ''COALESCE'', Symbol (CHR ''(''), Word ''t'', Symbol (CHR ''.''), Word ''name'', Symbol (CHR '',''), Word ''TYPE_NAME'', Symbol (CHR ''(''), Word ''c'', Symbol (CHR ''.''), Word ''user_type_id'', Symbol (CHR '')''), Symbol (CHR '')''), Symbol (CHR '',''), Word ''c'', Symbol (CHR ''.''), Word ''precision'', Symbol (CHR '',''), Word ''c'', Symbol (CHR ''.''), Word ''scale'', Symbol (CHR '',''), Word ''c'', Symbol (CHR ''.''), Word ''max_length'', Symbol (CHR '','')] @ server_tokens rest"
  "server_tokens (''c.is_nullable, c.is_identity, CAST(CASE WHEN c.default_object_id <> 0 THEN 1 ELSE 0 END AS bit) '' @ rest) = [Word ''c'', Symbol (CHR ''.''), Word ''is_nullable'', Symbol (CHR '',''), Word ''c'', Symbol (CHR ''.''), Word ''is_identity'', Symbol (CHR '',''), Word ''CAST'', Symbol (CHR ''(''), Word ''CASE'', Word ''WHEN'', Word ''c'', Symbol (CHR ''.''), Word ''default_object_id'', Symbol (CHR ''<''), Symbol (CHR ''>''), Word ''0'', Word ''THEN'', Word ''1'', Word ''ELSE'', Word ''0'', Word ''END'', Word ''AS'', Word ''bit'', Symbol (CHR '')'')] @ server_tokens rest"
  "server_tokens (''FROM sys.columns AS c LEFT JOIN sys.types AS t ON t.user_type_id = c.system_type_id '' @ rest) = [Word ''FROM'', Word ''sys'', Symbol (CHR ''.''), Word ''columns'', Word ''AS'', Word ''c'', Word ''LEFT'', Word ''JOIN'', Word ''sys'', Symbol (CHR ''.''), Word ''types'', Word ''AS'', Word ''t'', Word ''ON'', Word ''t'', Symbol (CHR ''.''), Word ''user_type_id'', Symbol (CHR ''=''), Word ''c'', Symbol (CHR ''.''), Word ''system_type_id''] @ server_tokens rest"
  "server_tokens (''WHERE c.object_id = OBJECT_ID('' @ rest) = [Word ''WHERE'', Word ''c'', Symbol (CHR ''.''), Word ''object_id'', Symbol (CHR ''=''), Word ''OBJECT_ID'', Symbol (CHR ''('')] @ server_tokens rest"
  "server_tokens ('', '' @ rest) = [Symbol (CHR '','')] @ server_tokens rest"
  by (rule tokens_piece; code_simp)+

lemma read_introspection: "read_server (introspection_query s t) = Some Other_Select"
proof -
  let ?n = "Word ''N''" and ?name = "doubled (CHR 0x27) (qualified_name s t)"
  have n: "server_tokens (CHR ''N'' # CHR 0x27 # doubled (CHR 0x27) x @ CHR 0x27 # rest) = [?n, Quoted x] @ server_tokens rest"
    if "closes_at (CHR 0x27) rest" for x rest
    using that by (subst tokens.simps) (simp add: word_char_def tokens_literal)
  have built: "introspection_query s t = ''SELECT c.name, COALESCE(t.name, TYPE_NAME(c.user_type_id)), c.precision, c.scale, c.max_length, '' @ ''c.is_nullable, c.is_identity, CAST(CASE WHEN c.default_object_id <> 0 THEN 1 ELSE 0 END AS bit) '' @ ''FROM sys.columns AS c LEFT JOIN sys.types AS t ON t.user_type_id = c.system_type_id '' @ ''WHERE c.object_id = OBJECT_ID(''
      @ (CHR ''N'' # CHR 0x27 # ?name @ CHR 0x27 # ('', '' @ (CHR ''N'' # CHR 0x27 # doubled (CHR 0x27) ''U'' @ CHR 0x27
        # '') ORDER BY c.column_id'')))"
    by (simp add: introspection_query_def)
  have last: "server_tokens '') ORDER BY c.column_id'' = [Symbol (CHR '')''), Word ''ORDER'', Word ''BY'', Word ''c'', Symbol (CHR ''.''), Word ''column_id'']" by code_simp
  have closes: "closes_at (CHR 0x27) ('', '' @ rest)" "closes_at (CHR 0x27) '') ORDER BY c.column_id''" for rest by simp_all
  have "server_tokens (introspection_query s t) = [Word ''SELECT'', Word ''c'', Symbol (CHR ''.''), Word ''name'', Symbol (CHR '',''), Word ''COALESCE'', Symbol (CHR ''(''), Word ''t'', Symbol (CHR ''.''), Word ''name'', Symbol (CHR '',''), Word ''TYPE_NAME'', Symbol (CHR ''(''), Word ''c'', Symbol (CHR ''.''), Word ''user_type_id'', Symbol (CHR '')''), Symbol (CHR '')''), Symbol (CHR '',''), Word ''c'', Symbol (CHR ''.''), Word ''precision'', Symbol (CHR '',''), Word ''c'', Symbol (CHR ''.''), Word ''scale'', Symbol (CHR '',''), Word ''c'', Symbol (CHR ''.''), Word ''max_length'', Symbol (CHR '',''), Word ''c'', Symbol (CHR ''.''), Word ''is_nullable'', Symbol (CHR '',''), Word ''c'', Symbol (CHR ''.''), Word ''is_identity'', Symbol (CHR '',''), Word ''CAST'', Symbol (CHR ''(''), Word ''CASE'', Word ''WHEN'', Word ''c'', Symbol (CHR ''.''), Word ''default_object_id'', Symbol (CHR ''<''), Symbol (CHR ''>''), Word ''0'', Word ''THEN'', Word ''1'', Word ''ELSE'', Word ''0'', Word ''END'', Word ''AS'', Word ''bit'', Symbol (CHR '')''), Word ''FROM'', Word ''sys'', Symbol (CHR ''.''), Word ''columns'', Word ''AS'', Word ''c'', Word ''LEFT'', Word ''JOIN'', Word ''sys'', Symbol (CHR ''.''), Word ''types'', Word ''AS'', Word ''t'', Word ''ON'', Word ''t'', Symbol (CHR ''.''), Word ''user_type_id'', Symbol (CHR ''=''), Word ''c'', Symbol (CHR ''.''), Word ''system_type_id'', Word ''WHERE'', Word ''c'', Symbol (CHR ''.''), Word ''object_id'', Symbol (CHR ''=''), Word ''OBJECT_ID'', Symbol (CHR ''('')] @ [?n, Quoted (qualified_name s t)] @ [Symbol (CHR '',''), ?n, Quoted ''U'']
      @ [Symbol (CHR '')''), Word ''ORDER'', Word ''BY'', Word ''c'', Symbol (CHR ''.''), Word ''column_id'']"
    unfolding built by (simp only: catalog_pieces n closes last token_append)
  moreover have "strip_prefix ''CREATE TABLE '' (introspection_query s t) = None"
    by (simp add: introspection_query_def strip_prefix_def)
  ultimately show ?thesis by (simp add: read_server_other read_sql_def reader_defs spelt_eqs)
qed

end
