(* ===== verification/Sqlserver_Facts.thy ===== *)
theory Sqlserver_Facts
  imports Sqlserver_Rows Sqlserver_Statements Sql_Meaning Serial_Runs
begin

section \<open>What the SQL Server session does to the destination table\<close>

text \<open>
  The view of a table is the multiset of its rows through the columns of the dataset.
  \<open>sqlserver_contract\<close> is the documented behaviour of SQL Server and its driver that the session
  relies on. It speaks of the texts the server is sent only through \<open>read_server\<close>: a text that reads
  as a statement has, where the call succeeds, that statement's effect (\<open>Sql_Meaning\<close>) on the
  objects it names, for any such text, whether the source spells it or not. A bulk load is one
  statement of the rows sent, and a failed call commits nothing, except that a failed commit or a
  failed autocommit bulk load may have committed.
\<close>

record sql_view =
  sv_committed :: "sql_row multiset option"
  sv_working :: "sql_row multiset option"
  sv_stage :: "sql_row multiset option"
  sv_open :: bool
  sv_bulk :: "((string \<times> string) \<times> string list \<times> column_data list list) option"

definition add_rows :: "'r multiset \<Rightarrow> 'r multiset option \<Rightarrow> 'r multiset option" where
  "add_rows new = map_option (\<lambda>old. old + new)"

definition sent_rows :: "string list \<Rightarrow> column_data list list \<Rightarrow> sql_row multiset" where
  "sent_rows names vs = mset (map (wire_row names) vs)"

subsection \<open>The contract\<close>

text \<open>Calls that connect, look, or act in an open transaction leave what is committed.\<close>

definition sqlserver_keeps :: "'c sqlserver \<Rightarrow> ('c \<Rightarrow> sql_view) \<Rightarrow> bool" where
  "sqlserver_keeps S V \<longleftrightarrow>
     (\<forall>c. sv_committed (V (snd (ss_runtime S c))) = sv_committed (V c))
   \<and> (\<forall>host port c. sv_committed (V (snd (ss_tcp_connect S host port c))) = sv_committed (V c))
   \<and> (\<forall>c. sv_committed (V (snd (ss_set_nodelay S c))) = sv_committed (V c))
   \<and> (\<forall>config c. sv_committed (V (snd (ss_client_connect S config c))) = sv_committed (V c)
        \<and> (fst (ss_client_connect S config c) = Some (Inr ()) \<longrightarrow> \<not> sv_open (V (snd (ss_client_connect S config c)))))
   \<and> (\<forall>sql st c. read_server sql = Some st \<longrightarrow> st \<noteq> Commit_Transaction \<longrightarrow>
        sv_open (V c) \<or> st \<in> {Begin_Transaction, Rollback_Transaction} \<or> only_looks st \<longrightarrow>
        sv_committed (V (snd (ss_query S sql c))) = sv_committed (V c))
   \<and> (\<forall>sql st c. read_server sql = Some st \<longrightarrow> only_looks st \<longrightarrow> is_ok (fst (ss_query S sql c)) \<longrightarrow>
        V (snd (ss_query S sql c)) = V c)
   \<and> (\<forall>sql st c. read_server sql = Some st \<longrightarrow> only_looks st \<longrightarrow> sv_committed (V (snd (ss_counts S sql c))) = sv_committed (V c)
        \<and> (is_ok (fst (ss_counts S sql c)) \<longrightarrow> V (snd (ss_counts S sql c)) = V c))
   \<and> (\<forall>name columns c. sv_committed (V (snd (ss_bulk_insert S name columns c))) = sv_committed (V c))
   \<and> (\<forall>row c. sv_committed (V (snd (ss_send S row c))) = sv_committed (V c))
   \<and> (\<forall>c. sv_committed (V (ss_drop S c)) = sv_committed (V c))"

definition sqlserver_transacts :: "'c sqlserver \<Rightarrow> ('c \<Rightarrow> sql_view) \<Rightarrow> bool" where
  "sqlserver_transacts S V \<longleftrightarrow>
     (\<forall>sql c rs c'. read_server sql = Some Begin_Transaction \<longrightarrow> ss_query S sql c = (Inr rs, c') \<longrightarrow>
        V c' = (V c)\<lparr>sv_working := sv_committed (V c), sv_open := True\<rparr>)
   \<and> (\<forall>sql c rs c'. read_server sql = Some Commit_Transaction \<longrightarrow> ss_query S sql c = (Inr rs, c') \<longrightarrow> sv_open (V c) \<longrightarrow>
        V c' = (V c)\<lparr>sv_committed := sv_working (V c), sv_open := False\<rparr>)
   \<and> (\<forall>sql c e c'. read_server sql = Some Commit_Transaction \<longrightarrow> ss_query S sql c = (Inl e, c') \<longrightarrow>
        sv_committed (V c') = sv_committed (V c) \<or> sv_open (V c) \<and> sv_committed (V c') = sv_working (V c))"

text \<open>A bulk load collects the rows sent under the name and the columns it began with.\<close>

definition sqlserver_bulks :: "'c sqlserver \<Rightarrow> ('c \<Rightarrow> sql_view) \<Rightarrow> bool" where
  "sqlserver_bulks S V \<longleftrightarrow>
     (\<forall>q name columns c c'. read_object q = Some (name, []) \<longrightarrow> ss_bulk_insert S q columns c = (Inr (), c') \<longrightarrow>
        V c' = (V c)\<lparr>sv_bulk := Some (name, columns, [])\<rparr>)
   \<and> (\<forall>row name columns vs c c'. sv_bulk (V c) = Some (name, columns, vs) \<longrightarrow> ss_send S row c = (Inr (), c') \<longrightarrow>
        V c' = (V c)\<lparr>sv_bulk := Some (name, columns, vs @ [row])\<rparr>)"

text \<open>The statements and bulk loads on the destination table.\<close>

definition object_of :: "string \<times> string \<Rightarrow> sql_object" where
  "object_of table = [fst table, snd table]"

definition sqlserver_writes :: "'c sqlserver \<Rightarrow> ('c \<Rightarrow> sql_view) \<Rightarrow> string \<times> string \<Rightarrow> bool" where
  "sqlserver_writes S V table \<longleftrightarrow>
     (\<forall>sql st c rs c'. read_server sql = Some st \<longrightarrow> ss_query S sql c = (Inr rs, c') \<longrightarrow>
        (st = Create_Columns (object_of table) \<longrightarrow> sv_open (V c) \<longrightarrow> V c' = (V c)\<lparr>sv_working := Some {#}\<rparr>)
      \<and> (st = Delete_Rows (object_of table) \<longrightarrow> sv_open (V c) \<longrightarrow>
           sv_working (V c) \<noteq> None \<and> V c' = (V c)\<lparr>sv_working := Some {#}\<rparr>)
      \<and> (\<forall>state. st = Identity_Insert (object_of table) state \<longrightarrow> V c' = V c))
   \<and> (\<forall>columns vs c c'. sv_bulk (V c) = Some (table, columns, vs) \<longrightarrow> ss_finalize S c = (Inr (), c') \<longrightarrow>
        (if sv_open (V c) then sv_working (V c) \<noteq> None
           \<and> V c' = (V c)\<lparr>sv_working := add_rows (sent_rows columns vs) (sv_working (V c)), sv_bulk := None\<rparr>
         else sv_committed (V c) \<noteq> None
           \<and> V c' = (V c)\<lparr>sv_committed := add_rows (sent_rows columns vs) (sv_committed (V c)), sv_bulk := None\<rparr>))
   \<and> (\<forall>columns vs c e c'. sv_bulk (V c) = Some (table, columns, vs) \<longrightarrow> ss_finalize S c = (Inl e, c') \<longrightarrow>
        sv_committed (V c') = sv_committed (V c)
        \<or> \<not> sv_open (V c) \<and> sv_committed (V c') = add_rows (sent_rows columns vs) (sv_committed (V c)))"

text \<open>Those on the stage of a merge.\<close>

definition sqlserver_stages :: "'c sqlserver \<Rightarrow> ('c \<Rightarrow> sql_view) \<Rightarrow> string \<times> string \<Rightarrow> bool" where
  "sqlserver_stages S V stage \<longleftrightarrow>
     (\<forall>sql st c rs c'. read_server sql = Some st \<longrightarrow> ss_query S sql c = (Inr rs, c') \<longrightarrow>
        (st = Create_Columns (object_of stage) \<longrightarrow> sv_open (V c) \<longrightarrow> V c' = (V c)\<lparr>sv_stage := Some {#}\<rparr>)
      \<and> (st = Drop_Table (object_of stage) \<longrightarrow> V c' = (V c)\<lparr>sv_stage := None\<rparr>))
   \<and> (\<forall>columns vs c c'. sv_bulk (V c) = Some (stage, columns, vs) \<longrightarrow> ss_finalize S c = (Inr (), c') \<longrightarrow> sv_open (V c) \<longrightarrow>
        sv_stage (V c) \<noteq> None
        \<and> V c' = (V c)\<lparr>sv_stage := add_rows (sent_rows columns vs) (sv_stage (V c)), sv_bulk := None\<rparr>)
   \<and> (\<forall>columns vs c e c'. sv_bulk (V c) = Some (stage, columns, vs) \<longrightarrow> ss_finalize S c = (Inl e, c') \<longrightarrow> sv_open (V c) \<longrightarrow>
        sv_committed (V c') = sv_committed (V c))"

text \<open>
  The queries and the merge over the table and its stage. The table's columns take the staged
  values as they are: a coarser timestamp column, where the server rounds in the \<open>MERGE\<close>, is outside
  this contract.
\<close>

definition server_rows :: "string \<times> string \<Rightarrow> string \<times> string \<Rightarrow> sql_object \<Rightarrow> sql_view \<Rightarrow> sql_row multiset option" where
  "server_rows table stage ob v =
     (if ob = object_of table then (if sv_open v then sv_working v else sv_committed v)
      else if ob = object_of stage then sv_stage v else None)"

definition sqlserver_merges ::
  "'c sqlserver \<Rightarrow> ('c \<Rightarrow> sql_view) \<Rightarrow> (column_data option \<Rightarrow> 'v option) \<Rightarrow> string \<times> string \<Rightarrow> string \<times> string \<Rightarrow> bool" where
  "sqlserver_merges S V val table stage \<longleftrightarrow> (\<forall>sql st. read_server sql = Some st \<longrightarrow>
     (\<forall>m ob ns op k c rs c'. st = Select_Groups m ob ns op k \<longrightarrow> ob \<in> {object_of table, object_of stage} \<longrightarrow>
        ss_query S sql c = (Inr rs, c') \<longrightarrow>
        (\<exists>rows. server_rows table stage ob (V c) = Some (mset rows) \<and> length rs = min m (group_count val ns op k rows)))
   \<and> (\<forall>ob a other b cond k x y c counts c'. st = Count_Flagged ob a other b cond k x y \<longrightarrow>
        {ob, other} \<subseteq> {object_of table, object_of stage} \<longrightarrow> ss_counts S sql c = (Inr counts, c') \<longrightarrow>
        (\<exists>rows others. server_rows table stage ob (V c) = Some (mset rows) \<and> server_rows table stage other (V c) = Some (mset others)
           \<and> counts = flagged_count val a b cond k x y rows others))
   \<and> (\<forall>a b cond cs c rs c'. st = Merge_Rows (object_of table) a (object_of stage) b cond cs \<longrightarrow> sv_open (V c) \<longrightarrow>
        ss_query S sql c = (Inr rs, c') \<longrightarrow>
        (\<exists>old incoming. sv_working (V c) = Some (mset old) \<and> sv_stage (V c) = Some (mset incoming)
           \<and> V c' = (V c)\<lparr>sv_working := Some (mset (merge_rows val None a b cond cs old incoming))\<rparr>)))"

definition sqlserver_contract ::
  "'c sqlserver \<Rightarrow> ('c \<Rightarrow> sql_view) \<Rightarrow> (column_data option \<Rightarrow> 'v option) \<Rightarrow> string \<Rightarrow> string \<Rightarrow> string \<Rightarrow> bool" where
  "sqlserver_contract S V val schema_name name stage \<longleftrightarrow>
     sqlserver_keeps S V \<and> sqlserver_transacts S V \<and> sqlserver_bulks S V \<and> sqlserver_writes S V (schema_name, name)
     \<and> (stage \<noteq> name \<longrightarrow> sqlserver_stages S V (schema_name, stage)
          \<and> sqlserver_merges S V val (schema_name, name) (schema_name, stage))"

subsection \<open>Calls\<close>

lemma op_bind_Inr_iff: "op_bind m k s = (Inr y, s') \<longleftrightarrow> (\<exists>x s1. m s = (Inr x, s1) \<and> k x s1 = (Inr y, s'))"
  by (auto simp: op_bind_def split: prod.splits sum.splits)

lemma op_bind_Inl_iff:
  "op_bind m k s = (Inl e, s') \<longleftrightarrow> m s = (Inl e, s') \<or> (\<exists>x s1. m s = (Inr x, s1) \<and> k x s1 = (Inl e, s'))"
  by (auto simp: op_bind_def split: prod.splits sum.splits)

lemma op_iffs:
  "op_lift r s = (r', s') \<longleftrightarrow> r = r' \<and> s' = s"
  "op_modify f s = (r'', s') \<longleftrightarrow> r'' = Inr () \<and> s' = f s"
  by (auto simp: op_lift_def op_modify_def)

lemma op_when_simps [simp]: "op_when True m s = m s" "op_when False m s = (Inr (), s)"
  by (simp_all add: op_when_def)

lemma on_client_Inr_iff:
  "on_client name call w = (Inr x, w') \<longleftrightarrow> (\<exists>c. call (sw_client w) = (Inr x, c) \<and> w' = w\<lparr>sw_client := c\<rparr>)"
  by (auto simp: on_client_def split: prod.splits)

lemma on_client_Inl_iff:
  "on_client name call w = (Inl e, w') \<longleftrightarrow>
     (\<exists>c error. call (sw_client w) = (Inl error, c) \<and> w' = w\<lparr>sw_client := c\<rparr> \<and> e = session_failure name error)"
  by (auto simp: on_client_def map_err_def split: prod.splits sum.splits)

lemma execute_sql_Inr_iff:
  "execute_sql S sql w = (Inr u, w') \<longleftrightarrow> (\<exists>rs c. ss_query S sql (sw_client w) = (Inr rs, c) \<and> w' = w\<lparr>sw_client := c\<rparr>)"
  by (auto simp: execute_sql_def op_bind_Inr_iff on_client_Inr_iff op_iffs)

lemma execute_sql_Inl_iff:
  "execute_sql S sql w = (Inl e, w') \<longleftrightarrow>
     (\<exists>c error. ss_query S sql (sw_client w) = (Inl error, c) \<and> w' = w\<lparr>sw_client := c\<rparr> \<and> e = session_failure ''statement'' error)"
  by (auto simp: execute_sql_def op_bind_Inl_iff on_client_Inr_iff on_client_Inl_iff op_iffs)

lemmas call_iffs = op_bind_Inr_iff op_bind_Inl_iff op_iffs on_client_Inr_iff on_client_Inl_iff
  execute_sql_Inr_iff execute_sql_Inl_iff

lemma sql_keeps_calls:
  assumes "sqlserver_keeps S V"
  shows "ss_query S sql c = (r, c') \<Longrightarrow> read_server sql = Some st \<Longrightarrow> st \<noteq> Commit_Transaction \<Longrightarrow> sv_open (V c) \<Longrightarrow>
       sv_committed (V c') = sv_committed (V c)"
    "ss_query S begin_sql c = (r, c') \<Longrightarrow> sv_committed (V c') = sv_committed (V c)"
    "ss_query S rollback_sql c = (r, c') \<Longrightarrow> sv_committed (V c') = sv_committed (V c)"
    "ss_query S look c = (r, c') \<Longrightarrow> read_server look = Some st \<Longrightarrow> only_looks st \<Longrightarrow> sv_committed (V c') = sv_committed (V c)"
    "ss_query S look c = (Inr rs, c') \<Longrightarrow> read_server look = Some st \<Longrightarrow> only_looks st \<Longrightarrow> V c' = V c"
    "ss_counts S sql c = (n, c') \<Longrightarrow> read_server sql = Some st \<Longrightarrow> only_looks st \<Longrightarrow> sv_committed (V c') = sv_committed (V c)"
    "ss_counts S sql c = (Inr k, c') \<Longrightarrow> read_server sql = Some st \<Longrightarrow> only_looks st \<Longrightarrow> V c' = V c"
    "ss_bulk_insert S name columns c = (u, c') \<Longrightarrow> sv_committed (V c') = sv_committed (V c)"
    "ss_send S row c = (u, c') \<Longrightarrow> sv_committed (V c') = sv_committed (V c)"
    "sv_committed (V (ss_drop S c)) = sv_committed (V c)"
proof -
  note k = assms [unfolded sqlserver_keeps_def, THEN conjunct2, THEN conjunct2, THEN conjunct2, THEN conjunct2]
  have q: "sv_committed (V (snd (ss_query S sql c))) = sv_committed (V c)" if "read_server sql = Some st" "st \<noteq> Commit_Transaction"
    "sv_open (V c) \<or> st \<in> {Begin_Transaction, Rollback_Transaction} \<or> only_looks st" for sql st c
    using k that by blast
  show "ss_query S sql c = (r, c') \<Longrightarrow> read_server sql = Some st \<Longrightarrow> st \<noteq> Commit_Transaction \<Longrightarrow> sv_open (V c) \<Longrightarrow>
       sv_committed (V c') = sv_committed (V c)" using q by (metis snd_conv)
  show "ss_query S begin_sql c = (r, c') \<Longrightarrow> sv_committed (V c') = sv_committed (V c)"
    using q [OF read_control(1), of c] by simp
  show "ss_query S rollback_sql c = (r, c') \<Longrightarrow> sv_committed (V c') = sv_committed (V c)"
    using q [OF read_control(3), of c] by simp
  show "ss_query S look c = (r, c') \<Longrightarrow> read_server look = Some st \<Longrightarrow> only_looks st \<Longrightarrow> sv_committed (V c') = sv_committed (V c)"
    using q [of look st c] by (cases st) auto
  show "ss_query S look c = (Inr rs, c') \<Longrightarrow> read_server look = Some st \<Longrightarrow> only_looks st \<Longrightarrow> V c' = V c"
    using k by (metis fst_conv snd_conv is_ok_simps(2))
  show "ss_counts S sql c = (n, c') \<Longrightarrow> read_server sql = Some st \<Longrightarrow> only_looks st \<Longrightarrow> sv_committed (V c') = sv_committed (V c)"
    using k by (metis snd_conv)
  show "ss_counts S sql c = (Inr k, c') \<Longrightarrow> read_server sql = Some st \<Longrightarrow> only_looks st \<Longrightarrow> V c' = V c"
    using k by (metis fst_conv snd_conv is_ok_simps(2))
  show "ss_bulk_insert S name columns c = (u, c') \<Longrightarrow> sv_committed (V c') = sv_committed (V c)" using k by (metis snd_conv)
  show "ss_send S row c = (u, c') \<Longrightarrow> sv_committed (V c') = sv_committed (V c)" using k by (metis snd_conv)
  show "sv_committed (V (ss_drop S c)) = sv_committed (V c)" using k by blast
qed

lemma sql_transacts_calls:
  assumes "sqlserver_transacts S V"
  shows "ss_query S begin_sql c = (Inr rs, c') \<Longrightarrow> V c' = (V c)\<lparr>sv_working := sv_committed (V c), sv_open := True\<rparr>"
    "ss_query S commit_sql c = (Inr rs, c') \<Longrightarrow> sv_open (V c) \<Longrightarrow>
       V c' = (V c)\<lparr>sv_committed := sv_working (V c), sv_open := False\<rparr>"
    "ss_query S commit_sql c = (Inl e, c') \<Longrightarrow>
       sv_committed (V c') = sv_committed (V c) \<or> sv_open (V c) \<and> sv_committed (V c') = sv_working (V c)"
  using assms read_control unfolding sqlserver_transacts_def by blast+

lemma read_qualified [simp]: "read_object (qualified_name s t) = Some ((s, t), [])"
  by (simp add: read_object_iff)

lemma object_of_pair [simp]: "object_of (s, t) = [s, t]" "object_of a = object_of b \<longleftrightarrow> a = b"
  by (auto simp: object_of_def prod_eq_iff)

lemma sql_writes_calls:
  assumes "sqlserver_writes S V (s, t)"
  shows "create_table_ddl E dataset s t = Inr sql \<Longrightarrow> ss_query S sql c = (Inr rs, c') \<Longrightarrow> sv_open (V c) \<Longrightarrow>
       V c' = (V c)\<lparr>sv_working := Some {#}\<rparr>"
    "ss_query S (delete_sql (qualified_name s t)) c = (Inr rs, c') \<Longrightarrow> sv_open (V c) \<Longrightarrow> V c' = (V c)\<lparr>sv_working := Some {#}\<rparr>"
    "ss_query S (identity_insert_sql (qualified_name s t) ''ON'') c = (Inr rs, c') \<Longrightarrow> V c' = V c"
    "ss_query S (identity_insert_sql (qualified_name s t) ''OFF'') c = (Inr rs, c') \<Longrightarrow> V c' = V c"
proof -
  note w = assms [unfolded sqlserver_writes_def, THEN conjunct1, rule_format]
  show "create_table_ddl E dataset s t = Inr sql \<Longrightarrow> ss_query S sql c = (Inr rs, c') \<Longrightarrow> sv_open (V c) \<Longrightarrow>
       V c' = (V c)\<lparr>sv_working := Some {#}\<rparr>" using w [OF read_create] by simp
  show "ss_query S (delete_sql (qualified_name s t)) c = (Inr rs, c') \<Longrightarrow> sv_open (V c) \<Longrightarrow> V c' = (V c)\<lparr>sv_working := Some {#}\<rparr>"
    using w [OF read_delete] by simp
  show "ss_query S (identity_insert_sql (qualified_name s t) ''ON'') c = (Inr rs, c') \<Longrightarrow> V c' = V c"
    using w [OF read_identity(1)] by (auto simp: ex_bool_eq)
  show "ss_query S (identity_insert_sql (qualified_name s t) ''OFF'') c = (Inr rs, c') \<Longrightarrow> V c' = V c"
    using w [OF read_identity(2)] by (auto simp: ex_bool_eq)
qed

subsection \<open>One chunk through a bulk load\<close>

lemma remaining_rows_step:
  assumes "br_next rows < br_len rows"
  shows "remaining_rows E rows = rbind (traverse (\<lambda>reader. reader_value E reader (br_next rows)) (br_readers rows))
     (\<lambda>row. rmap (Cons row) (remaining_rows E (rows\<lparr>br_next := br_next rows + 1\<rparr>)))"
  using assms
  by (cases "traverse (\<lambda>reader. reader_value E reader (br_next rows)) (br_readers rows)")
    (auto simp: remaining_rows_def upt_conv_Cons rmap_def rbind_def split: sum.splits)

lemma send_rows_Inr:
  assumes "sqlserver_bulks S V" "send_rows E S rows w = (Inr (), w')" "sv_bulk (V (sw_client w)) = Some (name, columns, vs)"
  shows "\<exists>rs. remaining_rows E rows = Inr rs \<and> w' = w\<lparr>sw_client := sw_client w'\<rparr>
    \<and> V (sw_client w') = (V (sw_client w))\<lparr>sv_bulk := Some (name, columns, vs @ rs)\<rparr>"
  using assms
proof (induction "br_len rows - br_next rows" arbitrary: rows w vs rule: less_induct)
  case less
  show ?case
  proof (cases "br_next rows < br_len rows")
    case False
    then have "w' = w" using less.prems(2) by (subst (asm) send_rows.simps) (simp add: next_row_def)
    then show ?thesis using False less.prems(3) by (simp add: remaining_rows_def)
  next
    case True
    let ?rest = "rows\<lparr>br_next := br_next rows + 1\<rparr>"
    obtain row where row: "traverse (\<lambda>reader. reader_value E reader (br_next rows)) (br_readers rows) = Inr row"
      using less.prems(2) True
      by (subst (asm) send_rows.simps) (auto simp: next_row_def Let_def split: sum.splits)
    then have step: "next_row E rows = (Some (Inr row), ?rest)" using True by (simp add: next_row_def Let_def)
    then obtain c where c: "ss_send S row (sw_client w) = (Inr (), c)" "send_rows E S ?rest (w\<lparr>sw_client := c\<rparr>) = (Inr (), w')"
      using less.prems(2) by (subst (asm) send_rows.simps) (auto simp: call_iffs)
    have v: "V c = (V (sw_client w))\<lparr>sv_bulk := Some (name, columns, vs @ [row])\<rparr>"
      using less.prems(1,3) c(1) unfolding sqlserver_bulks_def by blast
    have "br_len ?rest - br_next ?rest < br_len rows - br_next rows" using True by simp
    from less.hyps [OF this less.prems(1) c(2)] v obtain rs where "remaining_rows E ?rest = Inr rs"
      "w' = (w\<lparr>sw_client := c\<rparr>)\<lparr>sw_client := sw_client w'\<rparr>"
      "V (sw_client w') = (V c)\<lparr>sv_bulk := Some (name, columns, (vs @ [row]) @ rs)\<rparr>" by fastforce
    then show ?thesis using row v remaining_rows_step [OF True, of E] by simp
  qed
qed

lemma send_rows_Inl:
  assumes "sqlserver_keeps S V" "send_rows E S rows w = (Inl e, w')"
  shows "w' = w\<lparr>sw_client := sw_client w'\<rparr> \<and> sv_committed (V (sw_client w')) = sv_committed (V (sw_client w))"
  using assms(2)
proof (induction "br_len rows - br_next rows" arbitrary: rows w rule: less_induct)
  case less
  obtain x rest where x: "next_row E rows = (x, rest)" by fastforce
  show ?case
  proof (cases "\<exists>row. x = Some (Inr row)")
    case True
    then obtain row where row: "x = Some (Inr row)" by blast
    have smaller: "br_len rest - br_next rest < br_len rows - br_next rows" using x row next_row_advances by blast
    from less.prems x row consider (sent) c where "ss_send S row (sw_client w) = (Inr (), c)"
        "send_rows E S rest (w\<lparr>sw_client := c\<rparr>) = (Inl e, w')"
      | (not_sent) c error where "ss_send S row (sw_client w) = (Inl error, c)" "w' = w\<lparr>sw_client := c\<rparr>"
      by (subst (asm) send_rows.simps) (auto simp: call_iffs)
    then show ?thesis
    proof cases
      case sent
      then show ?thesis using less.hyps [OF smaller sent(2)] sql_keeps_calls(9) [OF assms(1) sent(1)] by simp
    next
      case not_sent
      then show ?thesis using sql_keeps_calls(9) [OF assms(1) not_sent(1)] by simp
    qed
  next
    case False
    then have "w' = w" using less.prems x
      by (subst (asm) send_rows.simps) (auto split: option.splits sum.splits)
    then show ?thesis by simp
  qed
qed

definition bulk_name :: "'c sql_writer \<Rightarrow> string \<times> string" where
  "bulk_name w = (qc_schema (sw_address w), if sw_mode w = Merge then sw_stage w else qc_dataset (sw_address w))"

lemma read_bulk_name: "read_object (if sw_mode w = Merge then stage_name w else table_name w) = Some (bulk_name w, [])"
  by (simp add: bulk_name_def stage_name_def table_name_def)

lemma bulk_chunk_Inr:
  assumes K: "sqlserver_bulks S V" and r: "bulk_chunk E S b plan w = (Inr (), w')"
  obtains (empty) "rb_rows b = 0" "w' = w" "encoded E plan b = Inr []"
    | (loaded) vs c c' where "encoded E plan b = Inr vs" "w' = w\<lparr>sw_client := c'\<rparr>" "ss_finalize S c = (Inr (), c')"
        "V c = (V (sw_client w))\<lparr>sv_bulk := Some (bulk_name w, plan_column_names plan, vs)\<rparr>"
proof -
  let ?q = "if sw_mode w = Merge then stage_name w else table_name w"
  obtain rows where rows: "plan_rows plan b = Inr rows"
    and rest: "op_when (rb_rows b \<noteq> 0) (op_bind (on_client ''bulk begin'' (ss_bulk_insert S ?q (plan_column_names plan)))
      (\<lambda>_. op_bind (send_rows E S rows) (\<lambda>_. on_client ''bulk finalize'' (ss_finalize S)))) w = (Inr (), w')"
    using r unfolding bulk_chunk_def by (auto simp: op_bind_Inr_iff op_iffs)
  show ?thesis
  proof (cases "rb_rows b = 0")
    case True
    then have "br_len rows = 0" using rows by (auto simp: plan_rows_def rmap_eq_Inr_iff split: if_splits)
    then show ?thesis using empty True rest rows by (simp add: encoded_def remaining_rows_def)
  next
    case False
    then obtain c1 w2 where c1: "ss_bulk_insert S ?q (plan_column_names plan) (sw_client w) = (Inr (), c1)"
      and w2: "send_rows E S rows (w\<lparr>sw_client := c1\<rparr>) = (Inr (), w2)"
      and w': "on_client ''bulk finalize'' (ss_finalize S) w2 = (Inr (), w')"
      using rest by (simp add: op_bind_Inr_iff) (auto simp: on_client_Inr_iff)
    have v1: "V c1 = (V (sw_client w))\<lparr>sv_bulk := Some (bulk_name w, plan_column_names plan, [])\<rparr>"
      using K read_bulk_name c1 unfolding sqlserver_bulks_def by blast
    then obtain rs where rs: "remaining_rows E rows = Inr rs" "w2 = w\<lparr>sw_client := sw_client w2\<rparr>"
      "V (sw_client w2) = (V (sw_client w))\<lparr>sv_bulk := Some (bulk_name w, plan_column_names plan, rs)\<rparr>"
      using send_rows_Inr [OF K w2] by fastforce
    obtain c' where c': "ss_finalize S (sw_client w2) = (Inr (), c')" "w' = w2\<lparr>sw_client := c'\<rparr>"
      using w' by (auto simp: on_client_Inr_iff)
    have "w' = w\<lparr>sw_client := c'\<rparr>" using c'(2) rs(2) by (metis sql_writer.fold_congs(5) sql_writer.update_convs(5) sql_writer.surjective)
    then show ?thesis using loaded [of rs c' "sw_client w2"] rs c' rows by (simp add: encoded_def)
  qed
qed

lemma bulk_chunk_Inl:
  assumes K: "sqlserver_keeps S V" "sqlserver_bulks S V" and r: "bulk_chunk E S b plan w = (Inl e, w')"
  obtains (kept) c where "w' = w\<lparr>sw_client := c\<rparr>" "sv_committed (V c) = sv_committed (V (sw_client w))"
    | (in_doubt) vs c c' error where "encoded E plan b = Inr vs" "w' = w\<lparr>sw_client := c'\<rparr>" "ss_finalize S c = (Inl error, c')"
        "V c = (V (sw_client w))\<lparr>sv_bulk := Some (bulk_name w, plan_column_names plan, vs)\<rparr>"
proof -
  let ?q = "if sw_mode w = Merge then stage_name w else table_name w"
  show ?thesis
  proof (cases "plan_rows plan b")
    case (Inl f)
    then have "w' = w" using r by (auto simp: bulk_chunk_def op_bind_Inl_iff op_iffs op_lift_def)
    then show ?thesis using kept [of "sw_client w"] by simp
  next
    case (Inr rows)
    have nonempty: "rb_rows b \<noteq> 0"
      using r Inr by (auto simp: bulk_chunk_def op_bind_Inl_iff op_iffs op_when_def split: if_splits)
    then have rest: "op_bind (on_client ''bulk begin'' (ss_bulk_insert S ?q (plan_column_names plan)))
      (\<lambda>_. op_bind (send_rows E S rows) (\<lambda>_. on_client ''bulk finalize'' (ss_finalize S))) w = (Inl e, w')"
      using r Inr by (simp add: bulk_chunk_def op_bind_def op_lift_def)
    show ?thesis
    proof (cases "ss_bulk_insert S ?q (plan_column_names plan) (sw_client w)")
      case (Pair x c1)
      note keep1 = sql_keeps_calls(8) [OF K(1) Pair]
      show ?thesis
      proof (cases x)
        case (Inl error)
        then have "w' = w\<lparr>sw_client := c1\<rparr>" using rest Pair by (simp add: op_bind_def on_client_def)
        then show ?thesis using kept keep1 by blast
      next
        case (Inr u)
        have go: "op_bind (send_rows E S rows) (\<lambda>_. on_client ''bulk finalize'' (ss_finalize S)) (w\<lparr>sw_client := c1\<rparr>) = (Inl e, w')"
          using rest Pair Inr by (simp add: op_bind_def on_client_def)
        have v1: "V c1 = (V (sw_client w))\<lparr>sv_bulk := Some (bulk_name w, plan_column_names plan, [])\<rparr>"
          using K(2) read_bulk_name Pair Inr unfolding sqlserver_bulks_def by (cases u) blast
        from go consider (stopped) "send_rows E S rows (w\<lparr>sw_client := c1\<rparr>) = (Inl e, w')"
          | (finalized) w2 where "send_rows E S rows (w\<lparr>sw_client := c1\<rparr>) = (Inr (), w2)"
              "on_client ''bulk finalize'' (ss_finalize S) w2 = (Inl e, w')"
          by (auto simp: op_bind_Inl_iff)
        then show ?thesis
        proof cases
          case stopped
          then show ?thesis using send_rows_Inl [OF K(1) stopped] keep1 kept [of "sw_client w'"] by simp
        next
          case finalized
          obtain rs where rs: "remaining_rows E rows = Inr rs" "w2 = w\<lparr>sw_client := sw_client w2\<rparr>"
            "V (sw_client w2) = (V (sw_client w))\<lparr>sv_bulk := Some (bulk_name w, plan_column_names plan, rs)\<rparr>"
            using send_rows_Inr [OF K(2) finalized(1)] v1 by fastforce
          obtain c' error where c': "ss_finalize S (sw_client w2) = (Inl error, c')" "w' = w2\<lparr>sw_client := c'\<rparr>"
            using finalized(2) by (auto simp: on_client_Inl_iff)
          have "w' = w\<lparr>sw_client := c'\<rparr>" using c'(2) rs(2) by (metis sql_writer.surjective sql_writer.update_convs(5))
          then show ?thesis using in_doubt [of rs c' "sw_client w2"] rs c' \<open>plan_rows plan b = Inr rows\<close> by (simp add: encoded_def)
        qed
      qed
    qed
  qed
qed

end
