(* ===== verification/Sqlserver_Runs.thy ===== *)
theory Sqlserver_Runs
  imports Sqlserver_Facts
begin

section \<open>Serial loads into a SQL Server table\<close>

text \<open>
  The serial write phase over the session in its three modes, against a server that keeps
  \<open>sqlserver_contract\<close>: what is committed to the destination table in every outcome.
\<close>

subsection \<open>Rows that hold the rows of batches\<close>

definition row_holds :: "string list \<Rightarrow> sql_row \<Rightarrow> row \<Rightarrow> bool" where
  "row_holds names s r \<longleftrightarrow> (\<forall>name\<in>set names. \<exists>v. s name = Some v \<and> holds v (r name))"

lemma rel_mset_union: "rel_mset R a b \<Longrightarrow> rel_mset R a' b' \<Longrightarrow> rel_mset R (a + a') (b + b')"
proof -
  assume "rel_mset R a b" "rel_mset R a' b'"
  then obtain xs ys xs' ys' where "mset xs = a" "mset ys = b" "list_all2 R xs ys" "mset xs' = a'" "mset ys' = b'" "list_all2 R xs' ys'"
    unfolding rel_mset_def by blast
  then show ?thesis
    unfolding rel_mset_def by (intro exI [of _ "xs @ xs'"] exI [of _ "ys @ ys'"]) (auto intro: list_all2_appendI)
qed

lemma encoded_batch_holds:
  assumes "covers E dataset plan" "is_ok (encoded E plan b)" "rectangular b"
  shows "rel_mset (row_holds (map af_name dataset)) (encoded_batch E plan b) (batch_rows b)"
proof -
  obtain vs where vs: "encoded E plan b = Inr vs" using assms(2) by (auto simp: is_ok_iff)
  have "list_all2 (row_holds (map af_name dataset)) (map (wire_row (plan_column_names plan)) vs) (map (batch_row b) [0..<rb_rows b])"
    using encoded_Inr(2) [OF vs] encoded_row_holds [OF assms(1) vs assms(3)]
    by (auto simp: list_all2_conv_all_nth row_holds_def)
  then show ?thesis unfolding rel_mset_def encoded_batch_def batch_rows_def vs sum.case by blast
qed

lemma encoded_batches_hold:
  assumes "covers E dataset plan" "\<forall>b\<in>set bs. is_ok (encoded E plan b)" "\<forall>b\<in>set bs. rectangular b"
  shows "rel_mset (row_holds (map af_name dataset)) (encoded_batches E plan bs) (batches_rows bs)"
  using assms(2,3)
proof (induction bs rule: rev_induct)
  case Nil
  show ?case by (auto simp: batches_rows_def rel_mset_def)
next
  case (snoc b bs)
  then show ?case using encoded_batch_holds [OF assms(1), of b] by (simp add: rel_mset_union)
qed

subsection \<open>Ending a session\<close>

lemma rollback_keeps:
  assumes "sqlserver_keeps S V"
  shows "sv_committed (V (sw_client (sql_rollback S w))) = sv_committed (V (sw_client w))"
    "\<not> sw_transaction (sql_rollback S w)"
    "sw_mode (sql_rollback S w) = sw_mode w" "sw_committed_chunks (sql_rollback S w) = sw_committed_chunks w"
proof -
  obtain r c where q: "ss_query S rollback_sql (sw_client w) = (r, c)" by fastforce
  have e: "snd (execute_sql S rollback_sql w) = w\<lparr>sw_client := c\<rparr>"
    using q by (cases r) (simp_all add: execute_sql_def op_bind_def on_client_def op_lift_def)
  show "sv_committed (V (sw_client (sql_rollback S w))) = sv_committed (V (sw_client w))"
    "\<not> sw_transaction (sql_rollback S w)"
    "sw_mode (sql_rollback S w) = sw_mode w" "sw_committed_chunks (sql_rollback S w) = sw_committed_chunks w"
    using sql_keeps_calls(3) [OF assms q] by (simp_all add: sql_rollback_def e)
qed

lemma drop_keeps:
  assumes "sqlserver_keeps S V"
  shows "sv_committed (V (sw_client (sql_drop S w))) = sv_committed (V (sw_client w))"
    "sw_committed_chunks (sql_drop S w) = sw_committed_chunks w"
  using rollback_keeps [OF assms] sql_keeps_calls(10) [OF assms] by (simp_all add: sql_drop_def drop_client_def)

lemma write_chunk_terminal: "fst (sql_write_chunk E S b w) = Inl fail \<Longrightarrow> wx_transience fail = Terminal"
  by (auto simp: sql_write_chunk_def sql_append_failure_def write_failure_from_def sql_merge_failure_def
      write_failure_atomic_def Let_def split: prod.splits sum.splits if_splits)

subsection \<open>Preparing\<close>

lemma take_shape_Inr:
  assumes "sqlserver_keeps S V" "take_shape S w = (Inr shape, w')"
  shows "\<exists>c. w' = w\<lparr>sw_client := c, sw_shape := None\<rparr> \<and> V c = V (sw_client w)"
proof (cases "sw_shape w")
  case None
  then obtain rs c where "ss_query S (introspection_query (qc_schema (sw_address w)) (qc_dataset (sw_address w))) (sw_client w) = (Inr rs, c)"
    "w' = w\<lparr>sw_client := c\<rparr>"
    using assms(2) by (auto simp: take_shape_def inspect_table_def call_iffs)
  then show ?thesis using sql_keeps_calls(5) [OF assms(1) _ read_introspection looking(5)] None by (intro exI [of _ c]) simp
next
  case (Some s)
  then show ?thesis using assms(2) by (intro exI [of _ "sw_client w"]) (auto simp: take_shape_def)
qed

lemma take_shape_Inl:
  assumes "sqlserver_keeps S V" "take_shape S w = (Inl e, w')"
  shows "\<exists>c. w' = w\<lparr>sw_client := c\<rparr> \<and> sv_committed (V c) = sv_committed (V (sw_client w))"
  using assms(2) sql_keeps_calls(4) [OF assms(1) _ read_introspection looking(5)]
  by (auto simp: take_shape_def inspect_table_def call_iffs split: option.splits)

lemma plan_load_covers: "plan_load E dataset w shape = Inr plan \<Longrightarrow> covers E dataset plan"
  using plan_new_covers(1) plan_for_table_covers(1)
  by (auto simp: plan_load_def rbind_eq_Inr_iff split: if_splits)

lemma plan_load_merge:
  "plan_load E dataset w shape = Inr plan \<Longrightarrow> sw_mode w = Merge \<Longrightarrow> plan_column_names plan = map af_name dataset"
  using plan_new_covers(2) by (auto simp: plan_load_def rbind_eq_Inr_iff split: if_splits)

lemma begin_transaction_Inr:
  assumes "sqlserver_transacts S V" "begin_transaction S w = (Inr u, w')"
  shows "\<exists>c. w' = w\<lparr>sw_client := c, sw_transaction := True\<rparr>
    \<and> V c = (V (sw_client w))\<lparr>sv_working := sv_committed (V (sw_client w)), sv_open := True\<rparr>"
  using assms(2) sql_transacts_calls(1) [OF assms(1)]
  by (auto simp: begin_transaction_def call_iffs simp flip: begin_sql_def)

lemma begin_transaction_Inl:
  assumes "sqlserver_keeps S V" "begin_transaction S w = (Inl e, w')"
  shows "\<exists>c. w' = w\<lparr>sw_client := c\<rparr> \<and> sv_committed (V c) = sv_committed (V (sw_client w))"
  using assms(2) sql_keeps_calls(2) [OF assms(1)]
  by (auto simp: begin_transaction_def call_iffs simp flip: begin_sql_def)

lemma create_table_Inr:
  assumes "create_table E S dataset s t w = (Inr u, w')"
  obtains sql rs c where "create_table_ddl E dataset s t = Inr sql" "ss_query S sql (sw_client w) = (Inr rs, c)" "w' = w\<lparr>sw_client := c\<rparr>"
  using assms by (auto simp: create_table_def call_iffs)

lemma create_target:
  assumes "sqlserver_writes S V (s, t)" "create_table E S dataset s t w = (Inr u, w')" "sv_open (V (sw_client w))"
  obtains c where "w' = w\<lparr>sw_client := c\<rparr>" "V c = (V (sw_client w))\<lparr>sv_working := Some {#}\<rparr>"
proof -
  obtain sql rs c where c: "create_table_ddl E dataset s t = Inr sql" "ss_query S sql (sw_client w) = (Inr rs, c)" "w' = w\<lparr>sw_client := c\<rparr>"
    using create_table_Inr [OF assms(2)] by blast
  have "V c = (V (sw_client w))\<lparr>sv_working := Some {#}\<rparr>"
    using sql_writes_calls(1) [OF assms(1) c(1,2) assms(3)] .
  then show ?thesis using that c(3) by blast
qed

lemma delete_target:
  assumes "sqlserver_writes S V (s, t)" "execute_sql S (delete_sql (qualified_name s t)) w = (Inr u, w')" "sv_open (V (sw_client w))"
  obtains c where "w' = w\<lparr>sw_client := c\<rparr>" "V c = (V (sw_client w))\<lparr>sv_working := Some {#}\<rparr>"
proof -
  obtain rs c where c: "ss_query S (delete_sql (qualified_name s t)) (sw_client w) = (Inr rs, c)" "w' = w\<lparr>sw_client := c\<rparr>"
    using assms(2) by (auto simp: execute_sql_Inr_iff)
  have "V c = (V (sw_client w))\<lparr>sv_working := Some {#}\<rparr>"
    using sql_writes_calls(2) [OF assms(1) c(1) assms(3)] .
  then show ?thesis using that c(2) by blast
qed

lemma create_table_Inl:
  assumes "sqlserver_keeps S V" "create_table E S dataset s t w = (Inl e, w')" "sv_open (V (sw_client w))"
  shows "\<exists>c. w' = w\<lparr>sw_client := c\<rparr> \<and> sv_committed (V c) = sv_committed (V (sw_client w))"
proof -
  from assms(2) consider (no_sql) "w' = w"
    | (failed) sql c error where "create_table_ddl E dataset s t = Inr sql" "ss_query S sql (sw_client w) = (Inl error, c)" "w' = w\<lparr>sw_client := c\<rparr>"
    by (auto simp: create_table_def call_iffs)
  then show ?thesis
  proof cases
    case no_sql
    then show ?thesis by (intro exI [of _ "sw_client w"]) simp
  next
    case failed
    then show ?thesis using sql_keeps_calls(1) [OF assms(1) failed(2) read_create [OF failed(1)] _ assms(3)] by blast
  qed
qed

lemma prepare_refresh_Inr:
  assumes K: "sqlserver_keeps S V" "sqlserver_transacts S V"
      "sqlserver_writes S V (qc_schema (sw_address w), qc_dataset (sw_address w))"
    and mode: "sw_mode w = Full_Refresh" and p: "sql_prepare E S b w = (Inr (), w')"
  shows "\<exists>plan c. covers E (rb_schema b) plan
    \<and> w' = w\<lparr>sw_client := c, sw_shape := None, sw_transaction := True, sw_plan := Some plan\<rparr>
    \<and> V c = (V (sw_client w))\<lparr>sv_working := Some {#}, sv_open := True\<rparr>"
proof -
  obtain shape w1 plan w2 where t: "take_shape S w = (Inr shape, w1)" "plan_load E (rb_schema b) w shape = Inr plan"
    "open_refresh E S (rb_schema b) shape w1 = (Inr (), w2)" "w' = w2\<lparr>sw_plan := Some plan\<rparr>"
    using p mode by (auto simp: sql_prepare_def Let_def op_bind_Inr_iff op_iffs)
  obtain c1 where c1: "w1 = w\<lparr>sw_client := c1, sw_shape := None\<rparr>" "V c1 = V (sw_client w)"
    using take_shape_Inr [OF K(1) t(1)] by blast
  obtain w3 w4 where o: "begin_transaction S w1 = (Inr (), w3)"
    "op_when (shape = []) (create_table E S (rb_schema b) (qc_schema (sw_address w1)) (qc_dataset (sw_address w1))) w3 = (Inr (), w4)"
    "execute_sql S (delete_sql (table_name w1)) w4 = (Inr (), w2)"
    using t(3) by (auto simp: open_refresh_def op_bind_Inr_iff)
  obtain c3 where c3: "w3 = w1\<lparr>sw_client := c3, sw_transaction := True\<rparr>"
    "V c3 = (V c1)\<lparr>sv_working := sv_committed (V c1), sv_open := True\<rparr>"
    using begin_transaction_Inr [OF K(2) o(1)] c1(1) by auto
  have open3: "sv_open (V (sw_client w3))" using c3 by simp
  obtain c4 work where c4: "w4 = w3\<lparr>sw_client := c4\<rparr>" "V c4 = (V c3)\<lparr>sv_working := work\<rparr>"
  proof (cases "shape = []")
    case True
    then have create: "create_table E S (rb_schema b) (qc_schema (sw_address w)) (qc_dataset (sw_address w)) w3 = (Inr (), w4)"
      using o(2) c1(1) by simp
    show ?thesis using create_target [OF K(3) create open3] that c3(1) by auto
  next
    case False
    then have "w4 = w3" using o(2) by simp
    then have "w4 = w3\<lparr>sw_client := c3\<rparr>" "V c3 = (V c3)\<lparr>sv_working := sv_working (V c3)\<rparr>" unfolding c3(1) by simp_all
    then show ?thesis using that by blast
  qed
  have open4: "sv_open (V (sw_client w4))" using c4 c3(2) by simp
  have delete: "execute_sql S (delete_sql (qualified_name (qc_schema (sw_address w)) (qc_dataset (sw_address w)))) w4 = (Inr (), w2)"
    using o(3) c1(1) by (simp add: table_name_def)
  obtain c where "w2 = w4\<lparr>sw_client := c\<rparr>" "V c = (V (sw_client w4))\<lparr>sv_working := Some {#}\<rparr>"
    using delete_target [OF K(3) delete open4] by blast
  then show ?thesis
    using plan_load_covers [OF t(2)] t(4) c4 c3 c1 by (intro exI [of _ plan] exI [of _ c]) simp
qed

lemma prepare_Inl:
  assumes K: "sqlserver_keeps S V" "sqlserver_transacts S V"
      "sqlserver_writes S V (qc_schema (sw_address w), qc_dataset (sw_address w))"
    and p: "sql_prepare E S b w = (Inl e, w')"
  shows "sv_committed (V (sw_client w')) = sv_committed (V (sw_client w)) \<and> sw_mode w' = sw_mode w
    \<and> sw_committed_chunks w' = sw_committed_chunks w \<and> sw_written_records w' = sw_written_records w
    \<and> (sw_mode w = Append \<longrightarrow> sw_transaction w' = sw_transaction w)"
proof -
  from p consider (shape) "take_shape S w = (Inl e, w')"
    | (plan) shape where "take_shape S w = (Inr shape, w')"
    | (stage) shape w1 where "take_shape S w = (Inr shape, w1)" "sw_mode w = Merge" "stage_merge E S (rb_schema b) shape w1 = (Inl e, w')"
    | (refresh) shape w1 where "take_shape S w = (Inr shape, w1)" "sw_mode w = Full_Refresh"
        "open_refresh E S (rb_schema b) shape w1 = (Inl e, w')"
    by (cases "sw_mode w") (auto simp: sql_prepare_def Let_def op_bind_Inr_iff op_bind_Inl_iff op_iffs)
  then show ?thesis
  proof cases
    case shape
    then show ?thesis using take_shape_Inl [OF K(1)] by fastforce
  next
    case plan
    then show ?thesis using take_shape_Inr [OF K(1)] by fastforce
  next
    case stage
    obtain c1 where c1: "w1 = w\<lparr>sw_client := c1, sw_shape := None\<rparr>" "V c1 = V (sw_client w)"
      using take_shape_Inr [OF K(1) stage(1)] by blast
    from stage(3) consider "begin_transaction S w1 = (Inl e, w')"
      | w2 where "begin_transaction S w1 = (Inr (), w2)"
          "create_table E S (rb_schema b) (qc_schema (sw_address w1)) (sw_stage w1) w2 = (Inl e, w')"
      by (auto simp: stage_merge_def op_bind_Inl_iff op_iffs)
    then show ?thesis
    proof cases
      case 1
      then show ?thesis using begin_transaction_Inl [OF K(1)] c1 stage(2) by fastforce
    next
      case 2
      obtain c2 where c2: "w2 = w1\<lparr>sw_client := c2, sw_transaction := True\<rparr>"
        "V c2 = (V c1)\<lparr>sv_working := sv_committed (V c1), sv_open := True\<rparr>"
        using begin_transaction_Inr [OF K(2) 2(1)] c1(1) by auto
      then show ?thesis using create_table_Inl [OF K(1) 2(2)] c1 stage(2) by fastforce
    qed
  next
    case refresh
    obtain c1 where c1: "w1 = w\<lparr>sw_client := c1, sw_shape := None\<rparr>" "V c1 = V (sw_client w)"
      using take_shape_Inr [OF K(1) refresh(1)] by blast
    let ?create = "create_table E S (rb_schema b) (qc_schema (sw_address w1)) (qc_dataset (sw_address w1))"
    from refresh(3) consider "begin_transaction S w1 = (Inl e, w')"
      | w2 where "begin_transaction S w1 = (Inr (), w2)" "?create w2 = (Inl e, w')"
      | w2 w3 where "begin_transaction S w1 = (Inr (), w2)" "w3 = w2 \<or> ?create w2 = (Inr (), w3)"
          "execute_sql S (delete_sql (table_name w1)) w3 = (Inl e, w')"
      by (cases "shape = []") (auto simp: open_refresh_def op_bind_Inl_iff)
    then show ?thesis
    proof cases
      case 1
      then show ?thesis using begin_transaction_Inl [OF K(1)] c1 refresh(2) by fastforce
    next
      case 2
      obtain c2 where c2: "w2 = w1\<lparr>sw_client := c2, sw_transaction := True\<rparr>"
        "V c2 = (V c1)\<lparr>sv_working := sv_committed (V c1), sv_open := True\<rparr>"
        using begin_transaction_Inr [OF K(2) 2(1)] c1(1) by auto
      then show ?thesis using create_table_Inl [OF K(1) 2(2)] c1 refresh(2) by fastforce
    next
      case 3
      obtain c2 where c2: "w2 = w1\<lparr>sw_client := c2, sw_transaction := True\<rparr>"
        "V c2 = (V c1)\<lparr>sv_working := sv_committed (V c1), sv_open := True\<rparr>"
        using begin_transaction_Inr [OF K(2) 3(1)] c1(1) by auto
      obtain c3 where c3: "w3 = w2\<lparr>sw_client := c3\<rparr>" "sv_open (V c3)" "sv_committed (V c3) = sv_committed (V c2)"
        using 3(2)
      proof
        assume "w3 = w2"
        then show ?thesis using that [of c2] c2 by simp
      next
        assume "?create w2 = (Inr (), w3)"
        then have create: "create_table E S (rb_schema b) (qc_schema (sw_address w)) (qc_dataset (sw_address w)) w2 = (Inr (), w3)"
          using c1(1) by simp
        have open2: "sv_open (V (sw_client w2))" using c2 by simp
        obtain c where "w3 = w2\<lparr>sw_client := c\<rparr>" "V c = (V (sw_client w2))\<lparr>sv_working := Some {#}\<rparr>"
          using create_target [OF K(3) create open2] by blast
        then show ?thesis using that [of c] c2 by simp
      qed
      obtain c error where "ss_query S (delete_sql (table_name w1)) c3 = (Inl error, c)" "w' = w3\<lparr>sw_client := c\<rparr>"
        using 3(3) c3(1) by (auto simp: execute_sql_Inl_iff)
      then show ?thesis
        using sql_keeps_calls(1) [OF K(1) _ read_delete _ c3(2)] c3 c2 c1 refresh(2) by (simp add: table_name_def)
    qed
  qed
qed

subsection \<open>Opening\<close>

lemma timed_Inr_iff:
  "timed call w = (Inr u, w') \<longleftrightarrow> (\<exists>c. call (sw_client w) = (Some (Inr u), c) \<and> w' = w\<lparr>sw_client := c\<rparr>)"
  by (auto simp: timed_def split: prod.splits option.splits)

lemma connect_client_Inr:
  assumes K: "sqlserver_keeps S V" and c: "connect_client S w = (Inr (), w')"
  shows "\<exists>c. w' = w\<lparr>sw_client := c\<rparr> \<and> sv_committed (V c) = sv_committed (V (sw_client w)) \<and> \<not> sv_open (V c)"
proof -
  obtain c1 c2 c3 c4 password where s: "ss_runtime S (sw_client w) = (Inr (), c1)"
    "ss_tcp_connect S (qc_host (sw_address w)) (qc_port (sw_address w)) c1 = (Some (Inr ()), c2)"
    "ss_set_nodelay S c2 = (Inr (), c3)"
    "ss_client_connect S (client_config_of (sw_address w) password) c3 = (Some (Inr ()), c4)" "w' = w\<lparr>sw_client := c4\<rparr>"
    using c by (auto simp: connect_client_def op_bind_Inr_iff op_iffs on_client_Inr_iff timed_Inr_iff)
  have "sv_committed (V c1) = sv_committed (V (sw_client w))" "sv_committed (V c2) = sv_committed (V c1)"
    "sv_committed (V c3) = sv_committed (V c2)" "sv_committed (V c4) = sv_committed (V c3)" "\<not> sv_open (V c4)"
    using K s unfolding sqlserver_keeps_def by (metis snd_conv, metis snd_conv, metis snd_conv, metis snd_conv, metis fst_conv snd_conv)
  then show ?thesis using s(5) by (intro exI [of _ c4]) simp
qed

lemma begin_Inr:
  assumes K: "sqlserver_keeps S V" and b: "sql_begin S token mode w = (Inr (), w')"
  shows "sw_mode w' = mode \<and> sw_address w' = sw_address w \<and> sw_merge_keys w' = sw_merge_keys w
    \<and> sw_stage w' = merge_stage_name token \<and> sw_plan w' = None \<and> \<not> sw_transaction w' \<and> \<not> sw_identity_insert w'
    \<and> sw_committed_chunks w' = 0 \<and> sw_written_records w' = 0
    \<and> sv_committed (V (sw_client w')) = sv_committed (V (sw_client w)) \<and> \<not> sv_open (V (sw_client w'))"
proof -
  obtain w1 w2 shape where s: "connect_client S (w\<lparr>sw_mode := mode\<rparr>) = (Inr (), w1)" "existing_shape S w1 = (Inr shape, w2)"
    "w' = w2\<lparr>sw_stage := merge_stage_name token, sw_plan := None, sw_shape := shape, sw_transaction := False,
             sw_identity_insert := False, sw_committed_chunks := 0, sw_written_records := 0\<rparr>"
    using b by (auto simp: sql_begin_def split: prod.splits sum.splits)
  obtain c1 where c1: "w1 = w\<lparr>sw_mode := mode, sw_client := c1\<rparr>" "sv_committed (V c1) = sv_committed (V (sw_client w))"
    "\<not> sv_open (V c1)"
    using connect_client_Inr [OF K s(1)] by auto
  obtain c2 where c2: "w2 = w1\<lparr>sw_client := c2\<rparr>" "V c2 = V c1"
  proof (cases "sw_mode w1 = Full_Refresh")
    case True
    then have "w2 = w1" using s(2) by (simp add: existing_shape_def)
    then have "w2 = w1\<lparr>sw_client := c1\<rparr>" unfolding c1(1) by simp
    then show ?thesis using that by blast
  next
    case False
    then obtain rows c where "ss_query S (introspection_query (qc_schema (sw_address w1)) (qc_dataset (sw_address w1))) (sw_client w1) = (Inr rows, c)"
      "w2 = w1\<lparr>sw_client := c\<rparr>"
      using s(2) by (auto simp: existing_shape_def inspect_table_def call_iffs split: if_splits)
    then show ?thesis using sql_keeps_calls(5) [OF K _ read_introspection looking(5)] that c1(1) by auto
  qed
  then show ?thesis using s(3) c1 by simp
qed

subsection \<open>One chunk\<close>

definition loaded :: "sql_env \<Rightarrow> bulk_row_plan \<Rightarrow> record_batch list \<Rightarrow> bool" where
  "loaded E plan bs \<longleftrightarrow> bs \<noteq> [] \<and> covers E (rb_schema (hd bs)) plan \<and> (\<forall>b\<in>set bs. is_ok (encoded E plan b))"

lemma loaded_one: "covers E (rb_schema b) plan \<Longrightarrow> is_ok (encoded E plan b) \<Longrightarrow> loaded E plan [b]"
  by (simp add: loaded_def)

lemma loaded_snoc: "loaded E plan bs \<Longrightarrow> is_ok (encoded E plan b) \<Longrightarrow> loaded E plan (bs @ [b])"
  by (auto simp: loaded_def)

lemma sent_rows_encoded: "encoded E plan b = Inr vs \<Longrightarrow> sent_rows (plan_column_names plan) vs = encoded_batch E plan b"
  by (simp add: sent_rows_def encoded_batch_def)

definition target_of :: "'c sql_writer \<Rightarrow> string \<times> string" where
  "target_of w = (qc_schema (sw_address w), qc_dataset (sw_address w))"

definition stage_of :: "'c sql_writer \<Rightarrow> string \<times> string" where
  "stage_of w = (qc_schema (sw_address w), sw_stage w)"

lemma encoded_Nil: "encoded E plan b = Inr [] \<Longrightarrow> encoded_batch E plan b = {#}"
  by (simp add: encoded_batch_def)

lemma add_rows_empty [simp]: "add_rows {#} x = x"
  by (cases x) (simp_all add: add_rows_def)

lemma add_rows_Some [simp]: "add_rows new (Some old) = Some (old + new)"
  by (simp add: add_rows_def)

lemma bulk_target_Inr:
  assumes K: "sqlserver_bulks S V" "sqlserver_writes S V (target_of w)" and mode: "sw_mode w \<noteq> Merge"
    and r: "bulk_chunk E S b plan w = (Inr (), w')"
  shows "\<exists>c. w' = w\<lparr>sw_client := c\<rparr> \<and> is_ok (encoded E plan b) \<and> sv_open (V c) = sv_open (V (sw_client w))
    \<and> (if sv_open (V (sw_client w)) then sv_committed (V c) = sv_committed (V (sw_client w))
         \<and> sv_working (V c) = add_rows (encoded_batch E plan b) (sv_working (V (sw_client w)))
       else sv_committed (V c) = add_rows (encoded_batch E plan b) (sv_committed (V (sw_client w))))"
  using r
proof (cases rule: bulk_chunk_Inr [OF K(1) r])
  case 1
  then show ?thesis using encoded_Nil [OF 1(3)] by (intro exI [of _ "sw_client w"]) simp
next
  case (2 vs c c')
  have "bulk_name w = target_of w" using mode by (simp add: bulk_name_def target_of_def)
  then have bulk: "sv_bulk (V c) = Some (target_of w, plan_column_names plan, vs)" using 2(4) by simp
  have "if sv_open (V c) then V c' = (V c)\<lparr>sv_working := add_rows (sent_rows (plan_column_names plan) vs) (sv_working (V c)), sv_bulk := None\<rparr>
      else V c' = (V c)\<lparr>sv_committed := add_rows (sent_rows (plan_column_names plan) vs) (sv_committed (V c)), sv_bulk := None\<rparr>"
    using K(2) [unfolded sqlserver_writes_def, THEN conjunct2, THEN conjunct1, rule_format, OF bulk 2(3)] by (simp split: if_splits)
  then show ?thesis
    using 2 sent_rows_encoded [OF 2(1)] by (intro exI [of _ c']) (simp split: if_splits)
qed

lemma bulk_target_Inl:
  assumes K: "sqlserver_keeps S V" "sqlserver_bulks S V" "sqlserver_writes S V (target_of w)" and mode: "sw_mode w \<noteq> Merge"
    and r: "bulk_chunk E S b plan w = (Inl e, w')"
  shows "\<exists>c. w' = w\<lparr>sw_client := c\<rparr> \<and> (sv_committed (V c) = sv_committed (V (sw_client w))
    \<or> \<not> sv_open (V (sw_client w)) \<and> is_ok (encoded E plan b)
       \<and> sv_committed (V c) = add_rows (encoded_batch E plan b) (sv_committed (V (sw_client w))))"
  using r
proof (cases rule: bulk_chunk_Inl [OF K(1,2) r])
  case (1 c)
  then show ?thesis by (intro exI [of _ c]) simp
next
  case (2 vs c c' error)
  have "bulk_name w = target_of w" using mode by (simp add: bulk_name_def target_of_def)
  then have bulk: "sv_bulk (V c) = Some (target_of w, plan_column_names plan, vs)" using 2(4) by simp
  show ?thesis
    using 2 K(3) [unfolded sqlserver_writes_def, THEN conjunct2, THEN conjunct2, rule_format, OF bulk 2(3)] sent_rows_encoded [OF 2(1)]
    by (intro exI [of _ c']) auto
qed

lemma bulk_stage_Inr:
  assumes K: "sqlserver_bulks S V" "sqlserver_stages S V (stage_of w)" and mode: "sw_mode w = Merge"
    and o: "sv_open (V (sw_client w))" and r: "bulk_chunk E S b plan w = (Inr (), w')"
  shows "\<exists>c. w' = w\<lparr>sw_client := c\<rparr> \<and> is_ok (encoded E plan b) \<and> sv_open (V c)
    \<and> sv_committed (V c) = sv_committed (V (sw_client w)) \<and> sv_working (V c) = sv_working (V (sw_client w))
    \<and> sv_stage (V c) = add_rows (encoded_batch E plan b) (sv_stage (V (sw_client w)))"
  using r
proof (cases rule: bulk_chunk_Inr [OF K(1) r])
  case 1
  then show ?thesis using encoded_Nil [OF 1(3)] o by (intro exI [of _ "sw_client w"]) simp
next
  case (2 vs c c')
  have "bulk_name w = stage_of w" using mode by (simp add: bulk_name_def stage_of_def)
  then have bulk: "sv_bulk (V c) = Some (stage_of w, plan_column_names plan, vs)" "sv_open (V c)" using 2(4) o by simp_all
  show ?thesis
    using 2 o K(2) [unfolded sqlserver_stages_def, THEN conjunct2, THEN conjunct1, rule_format, OF bulk(1) 2(3) bulk(2)]
      sent_rows_encoded [OF 2(1)]
    by (intro exI [of _ c']) simp
qed

lemma bulk_stage_Inl:
  assumes K: "sqlserver_keeps S V" "sqlserver_bulks S V" "sqlserver_stages S V (stage_of w)" and mode: "sw_mode w = Merge"
    and o: "sv_open (V (sw_client w))" and r: "bulk_chunk E S b plan w = (Inl e, w')"
  shows "\<exists>c. w' = w\<lparr>sw_client := c\<rparr> \<and> sv_committed (V c) = sv_committed (V (sw_client w))"
  using r
proof (cases rule: bulk_chunk_Inl [OF K(1,2) r])
  case (1 c)
  then show ?thesis by (intro exI [of _ c]) simp
next
  case (2 vs c c' error)
  have "bulk_name w = stage_of w" using mode by (simp add: bulk_name_def stage_of_def)
  then have bulk: "sv_bulk (V c) = Some (stage_of w, plan_column_names plan, vs)" "sv_open (V c)" using 2(4) o by simp_all
  show ?thesis
    using 2 K(3) [unfolded sqlserver_stages_def, THEN conjunct2, THEN conjunct2, rule_format, OF bulk(1) 2(3) bulk(2)]
    by (intro exI [of _ c']) simp
qed

subsection \<open>Full refresh\<close>

lemma write_chunk_Inr:
  assumes "sql_write_chunk E S b w = (Inr (), w')"
  obtains w1 w2 where "(if sw_plan w = None then sql_prepare E S b w else (Inr (), w)) = (Inr (), w1)"
    "bulk_chunk E S b (the (sw_plan w1)) w1 = (Inr (), w2)"
    "w' = (if sw_mode w2 = Append then w2\<lparr>sw_committed_chunks := sw_committed_chunks w2 + 1,
             sw_written_records := sw_written_records w2 + rb_rows b\<rparr> else w2)"
  using assms by (auto simp: sql_write_chunk_def Let_def split: prod.splits sum.splits if_splits)

definition refreshing ::
  "('c \<Rightarrow> sql_view) \<Rightarrow> sql_env \<Rightarrow> sqlserver_config \<Rightarrow> sql_row multiset option \<Rightarrow> record_batch list \<Rightarrow> 'c sql_writer \<Rightarrow> bool" where
  "refreshing V E address old bs w \<longleftrightarrow> sw_mode w = Full_Refresh \<and> sw_address w = address
     \<and> sw_committed_chunks w = 0 \<and> sv_committed (V (sw_client w)) = old
     \<and> (case sw_plan w of
          None \<Rightarrow> bs = []
        | Some plan \<Rightarrow> sv_open (V (sw_client w)) \<and> loaded E plan bs
            \<and> sv_working (V (sw_client w)) = Some (encoded_batches E plan bs))"

lemma write_refreshing:
  assumes K: "sqlserver_keeps S V" "sqlserver_transacts S V" "sqlserver_bulks S V"
      "sqlserver_writes S V (qc_schema address, qc_dataset address)"
    and w: "refreshing V E address old bs w" and r: "sql_write_chunk E S b w = (Inr (), w')"
  shows "refreshing V E address old (bs @ [b]) w'"
proof -
  have m: "sw_mode w = Full_Refresh" "sw_address w = address" "sv_committed (V (sw_client w)) = old" "sw_committed_chunks w = 0"
    using w by (simp_all add: refreshing_def)
  obtain w1 w2 where w1: "(if sw_plan w = None then sql_prepare E S b w else (Inr (), w)) = (Inr (), w1)"
    and chunk: "bulk_chunk E S b (the (sw_plan w1)) w1 = (Inr (), w2)"
    and w': "w' = (if sw_mode w2 = Append then w2\<lparr>sw_committed_chunks := sw_committed_chunks w2 + 1,
             sw_written_records := sw_written_records w2 + rb_rows b\<rparr> else w2)"
    using write_chunk_Inr [OF r] by blast
  obtain plan where p: "sw_plan w1 = Some plan" "sw_mode w1 = Full_Refresh" "sw_address w1 = address" "sw_committed_chunks w1 = 0"
    "sv_committed (V (sw_client w1)) = old" "sv_open (V (sw_client w1))"
    "sv_working (V (sw_client w1)) = Some (encoded_batches E plan bs)" "is_ok (encoded E plan b) \<Longrightarrow> loaded E plan (bs @ [b])"
  proof (cases "sw_plan w")
    case None
    then have bs: "bs = []" using w by (simp add: refreshing_def)
    have K4: "sqlserver_writes S V (qc_schema (sw_address w), qc_dataset (sw_address w))" using K(4) m(2) by simp
    have prepared: "sql_prepare E S b w = (Inr (), w1)" using w1 None by simp
    obtain plan c where "covers E (rb_schema b) plan"
      "w1 = w\<lparr>sw_client := c, sw_shape := None, sw_transaction := True, sw_plan := Some plan\<rparr>"
      "V c = (V (sw_client w))\<lparr>sv_working := Some {#}, sv_open := True\<rparr>"
      using prepare_refresh_Inr [OF K(1,2) K4 m(1) prepared] by blast
    then show ?thesis using that [of plan] m bs loaded_one by simp
  next
    case (Some plan)
    then show ?thesis using that [of plan] w w1 m loaded_snoc by (simp add: refreshing_def)
  qed
  have t: "sqlserver_writes S V (target_of w1)" using K(4) p(3) by (simp add: target_of_def)
  have not_merge: "sw_mode w1 \<noteq> Merge" using p(2) by simp
  obtain c where c: "w2 = w1\<lparr>sw_client := c\<rparr>" "is_ok (encoded E plan b)" "sv_open (V c)"
    "sv_committed (V c) = sv_committed (V (sw_client w1))"
    "sv_working (V c) = add_rows (encoded_batch E plan b) (sv_working (V (sw_client w1)))"
    using bulk_target_Inr [OF K(3) t not_merge chunk [unfolded p(1) option.sel]] p(6) by auto
  have "w' = w2" using w' c(1) p(2) by simp
  then show ?thesis using p(1-5,7) c p(8) [OF c(2)] by (simp add: refreshing_def)
qed

lemma write_not_append_Inl:
  assumes "sql_write_chunk E S b w = (Inl fail, w')" "sw_mode w \<noteq> Append"
    and prep: "\<And>e w1. sql_prepare E S b w = (Inl e, w1) \<Longrightarrow>
      sw_mode w1 = sw_mode w \<and> sv_committed (V (sw_client w1)) = old"
    and bulk: "\<And>w1 e w2. (if sw_plan w = None then sql_prepare E S b w else (Inr (), w)) = (Inr (), w1) \<Longrightarrow>
      bulk_chunk E S b (the (sw_plan w1)) w1 = (Inl e, w2) \<Longrightarrow> sw_mode w2 = sw_mode w \<and> sv_committed (V (sw_client w2)) = old"
    and K: "sqlserver_keeps S V"
  shows "wx_committed_chunks fail = 0 \<and> sv_committed (V (sw_client w')) = old"
proof -
  obtain x w1 where x: "(if sw_plan w = None then sql_prepare E S b w else (Inr (), w)) = (x, w1)" by fastforce
  show ?thesis
  proof (cases x)
    case (Inl e)
    then have "sql_prepare E S b w = (Inl e, w1)" using x by (simp split: if_splits)
    from prep [OF this] show ?thesis
      using assms(1) x Inl rollback_keeps [OF K]
      by (auto simp: sql_write_chunk_def Let_def sql_merge_failure_def write_failure_from_def write_failure_atomic_def split: if_splits)
  next
    case (Inr u)
    obtain y w2 where y: "bulk_chunk E S b (the (sw_plan w1)) w1 = (y, w2)" by fastforce
    show ?thesis
    proof (cases y)
      case (Inl e)
      have x': "(if sw_plan w = None then sql_prepare E S b w else (Inr (), w)) = (Inr (), w1)" using x Inr by (cases u) simp
      show ?thesis
        using assms(1,2) x' y Inl bulk [OF x' y [unfolded Inl]] rollback_keeps [OF K]
        unfolding sql_write_chunk_def x'
        by (auto simp: sql_merge_failure_def write_failure_from_def write_failure_atomic_def split: if_splits)
    next
      case (Inr v)
      then show ?thesis using assms(1) x y \<open>x = Inr u\<close> unfolding sql_write_chunk_def x by (auto split: if_splits)
    qed
  qed
qed

lemma write_refreshing_failed:
  assumes K: "sqlserver_keeps S V" "sqlserver_transacts S V" "sqlserver_bulks S V"
      "sqlserver_writes S V (qc_schema address, qc_dataset address)"
    and w: "refreshing V E address old bs w" and r: "sql_write_chunk E S b w = (Inl fail, w')"
  shows "wx_committed_chunks fail = 0 \<and> sv_committed (V (sw_client w')) = old"
proof (rule write_not_append_Inl [OF r])
  have m: "sw_mode w = Full_Refresh" "sw_address w = address" "sv_committed (V (sw_client w)) = old"
    using w by (simp_all add: refreshing_def)
  have K4: "sqlserver_writes S V (qc_schema (sw_address w), qc_dataset (sw_address w))" using K(4) m(2) by simp
  show "sw_mode w \<noteq> Append" using m by simp
  show "sw_mode w1 = sw_mode w \<and> sv_committed (V (sw_client w1)) = old" if "sql_prepare E S b w = (Inl e, w1)" for e w1
    using prepare_Inl [OF K(1,2) K4 that] m by simp
  show "sw_mode w2 = sw_mode w \<and> sv_committed (V (sw_client w2)) = old"
    if x: "(if sw_plan w = None then sql_prepare E S b w else (Inr (), w)) = (Inr (), w1)"
      and y: "bulk_chunk E S b (the (sw_plan w1)) w1 = (Inl e, w2)" for w1 e w2
  proof -
    have p: "sw_mode w1 = Full_Refresh \<and> sw_address w1 = address \<and> sv_open (V (sw_client w1)) \<and> sv_committed (V (sw_client w1)) = old"
    proof (cases "sw_plan w")
      case None
      then have prepared: "sql_prepare E S b w = (Inr (), w1)" using x by simp
      obtain plan c where "w1 = w\<lparr>sw_client := c, sw_shape := None, sw_transaction := True, sw_plan := Some plan\<rparr>"
        "V c = (V (sw_client w))\<lparr>sv_working := Some {#}, sv_open := True\<rparr>"
        using prepare_refresh_Inr [OF K(1,2) K4 m(1) prepared] by blast
      then show ?thesis using m by simp
    next
      case (Some plan)
      then show ?thesis using x w m by (simp add: refreshing_def)
    qed
    then have t: "sqlserver_writes S V (target_of w1)" "sw_mode w1 \<noteq> Merge" using K(4) by (simp_all add: target_of_def)
    show ?thesis using bulk_target_Inl [OF K(1,3) t y] p m by auto
  qed
qed (rule K(1))

lemma commit_refreshing:
  assumes K: "sqlserver_keeps S V" "sqlserver_transacts S V"
    and w: "refreshing V E address old bs w" "bs \<noteq> []" and c: "sql_commit S w = (r, w')"
  shows "\<exists>plan. loaded E plan bs \<and> (case r of
      Inr dw \<Rightarrow> sv_committed (V (sw_client w')) = Some (encoded_batches E plan bs)
    | Inl fail \<Rightarrow> wx_committed_chunks fail = 0
        \<and> sv_committed (V (sw_client w')) \<in> {old, Some (encoded_batches E plan bs)})"
proof -
  obtain plan where p: "sw_plan w = Some plan" "sv_open (V (sw_client w))" "loaded E plan bs"
    "sv_working (V (sw_client w)) = Some (encoded_batches E plan bs)"
    using w by (auto simp: refreshing_def split: option.splits)
  have m: "sw_mode w = Full_Refresh" "sv_committed (V (sw_client w)) = old" using w by (simp_all add: refreshing_def)
  obtain x c1 where q: "ss_query S commit_sql (sw_client w) = (x, c1)" by fastforce
  show ?thesis
  proof (cases x)
    case (Inl e)
    have "sv_committed (V c1) \<in> {old, Some (encoded_batches E plan bs)}"
      using sql_transacts_calls(3) [OF K(2) q [unfolded Inl]] m p by auto
    then show ?thesis
      using c q Inl m(1) p(3) drop_keeps [OF K(1)] rollback_keeps [OF K(1)]
      by (auto simp: sql_commit_def commit_transaction_def op_bind_def op_lift_def execute_sql_def on_client_def
          write_failure_from_def intro!: exI [of _ plan])
  next
    case (Inr rs)
    have "V c1 = (V (sw_client w))\<lparr>sv_committed := sv_working (V (sw_client w)), sv_open := False\<rparr>"
      using sql_transacts_calls(2) [OF K(2)] q Inr p(2) by blast
    then show ?thesis
      using c q Inr m(1) p drop_keeps [OF K(1)]
      by (auto simp: sql_commit_def commit_transaction_def op_bind_def op_lift_def execute_sql_def on_client_def intro!: exI [of _ plan])
  qed
qed

lemma abandon_keeps:
  assumes "sqlserver_keeps S V"
  shows "sv_committed (V (sw_client (snd (sql_abandon S w)))) = sv_committed (V (sw_client w))"
    "aw_committed_chunks (fst (sql_abandon S w)) = sw_committed_chunks w"
  using rollback_keeps [OF assms] drop_keeps [OF assms] by (simp_all add: sql_abandon_def Let_def)

text \<open>The chunks of one plan, and what their rows become in the table.\<close>

definition committed_as :: "sql_env \<Rightarrow> record_batch list \<Rightarrow> sql_row multiset \<Rightarrow> bool" where
  "committed_as E bs rows \<longleftrightarrow> (\<exists>plan. loaded E plan bs \<and> rows = encoded_batches E plan bs)"

lemma loaded_schema: "loaded E plan bs \<Longrightarrow> b \<in> set bs \<Longrightarrow> rb_schema b = rb_schema (hd bs)"
  using encoded_Inr(1) by (fastforce simp: loaded_def covers_def is_ok_iff)

text \<open>They hold the rows of the batches, one for one.\<close>

lemma committed_as_holds:
  assumes "committed_as E bs rows" "\<forall>b\<in>set bs. rectangular b"
  shows "rel_mset (row_holds (batch_columns (hd bs))) rows (batches_rows bs)"
  using assms encoded_batches_hold [of E "rb_schema (hd bs)" _ bs]
  by (auto simp: committed_as_def loaded_def batch_columns_def)

lemma sqlserver_refresh_run:
  assumes K: "sqlserver_contract S V val (qc_schema (sw_address w)) (qc_dataset (sw_address w)) stage"
    and opened: "sql_begin S token Full_Refresh w = (Inr (), us_world st)"
    and run: "run_serial_write_phase policy (sqlserver_ops E S token) chunks st = (r, st')" and chunks: "chunks \<noteq> []"
  shows "let old = sv_committed (V (sw_client w)); new = sv_committed (V (sw_client (us_world st'))) in case r of
      Inr outcome \<Rightarrow> \<exists>bs rows. chunks = map Inr bs \<and> new = Some rows \<and> committed_as E bs rows
    | Inl (In_Session fail) \<Rightarrow> wx_committed_chunks fail = 0
        \<and> (new = old \<or> (\<exists>bs rows. chunks = map Inr bs \<and> new = Some rows \<and> committed_as E bs rows))
    | Inl (Before_Session fail) \<Rightarrow> False"
proof -
  let ?address = "sw_address w" and ?D = "sqlserver_ops E S token" and ?old = "sv_committed (V (sw_client w))"
  have K': "sqlserver_keeps S V" "sqlserver_transacts S V" "sqlserver_bulks S V"
    "sqlserver_writes S V (qc_schema ?address, qc_dataset ?address)"
    using K by (simp_all add: sqlserver_contract_def)
  define P where "P = refreshing V E ?address ?old"
  have start: "P [] (us_world st)" using begin_Inr [OF K'(1) opened] by (simp add: P_def refreshing_def)
  have step: "P (bs @ [b]) w''" if "P bs w'" "d_write_chunk ?D b w' = (Inr (), w'')" for bs b w' w''
    using that write_refreshing [OF K'] by (simp add: P_def sqlserver_ops_def)
  have terminal: "wx_transience fail = Terminal" if "fst (d_write_chunk ?D b w') = Inl fail" for b w' fail
    using that by (simp add: sqlserver_ops_def write_chunk_terminal)
  have run': "run_serial_from policy ?D 0 chunks st = (r, st')" using run by (simp add: run_serial_write_phase_def)
  from step terminal run' start show ?thesis
  proof (rule serial_run_cases)
    fix bs st''
    assume c: "chunks = map Inr bs" "P ([] @ bs) (us_world st'')" "(r, st') = commit_session ?D (0 + length chunks) st''"
    then have p: "refreshing V E ?address ?old bs (us_world st'')" "bs \<noteq> []" using chunks by (auto simp: P_def)
    obtain x w' where x: "sql_commit S (us_world st'') = (x, w')" by fastforce
    show ?thesis
      using commit_refreshing [OF K'(1,2) p x] c(1,3) x
      by (cases x) (auto simp: commit_session_def sqlserver_ops_def committed_as_def Let_def)
  next
    fix bs w' src
    assume c: "take (length bs + 1) chunks = map Inr bs @ [Inl src]" "P ([] @ bs) w'"
      "r = Inl (In_Session \<lparr>wx_failure = src, wx_facts = aw_facts (fst (d_abandon ?D w')),
         wx_written_records = aw_written_records (fst (d_abandon ?D w')),
         wx_committed_chunks = aw_committed_chunks (fst (d_abandon ?D w')), wx_transience = Terminal\<rparr>)"
      "us_world st' = snd (d_abandon ?D w')"
    then show ?thesis
      using abandon_keeps [OF K'(1)] by (simp add: sqlserver_ops_def P_def refreshing_def)
  next
    fix bs b w' w'' fail
    assume c: "take (length bs + 1) chunks = map Inr (bs @ [b])" "P ([] @ bs) w'" "d_write_chunk ?D b w' = (Inl fail, w'')"
      "r = Inl (In_Session fail)" "us_world st' = d_drop ?D w''"
    then show ?thesis
      using write_refreshing_failed [OF K', of E ?old bs w' b fail w''] drop_keeps [OF K'(1)]
      by (simp add: sqlserver_ops_def P_def)
  qed
qed

subsection \<open>Append\<close>

definition sql_appending ::
  "('c \<Rightarrow> sql_view) \<Rightarrow> sql_env \<Rightarrow> sqlserver_config \<Rightarrow> sql_row multiset option \<Rightarrow> record_batch list \<Rightarrow> 'c sql_writer \<Rightarrow> bool" where
  "sql_appending V E address old bs w \<longleftrightarrow> sw_mode w = Append \<and> sw_address w = address \<and> \<not> sw_transaction w
     \<and> \<not> sv_open (V (sw_client w)) \<and> sw_committed_chunks w = length bs \<and> sw_written_records w = sum_list (map rb_rows bs)
     \<and> (case sw_plan w of
          None \<Rightarrow> bs = [] \<and> sv_committed (V (sw_client w)) = old
        | Some plan \<Rightarrow> loaded E plan bs \<and> sv_committed (V (sw_client w)) = add_rows (encoded_batches E plan bs) old)"

lemma prepare_append_Inr:
  assumes K: "sqlserver_keeps S V" and mode: "sw_mode w = Append" and p: "sql_prepare E S b w = (Inr (), w')"
  shows "\<exists>plan c. covers E (rb_schema b) plan \<and> w' = w\<lparr>sw_client := c, sw_shape := None, sw_plan := Some plan\<rparr>
    \<and> V c = V (sw_client w)"
proof -
  obtain shape w1 plan where t: "take_shape S w = (Inr shape, w1)" "plan_load E (rb_schema b) w shape = Inr plan"
    "w' = w1\<lparr>sw_plan := Some plan\<rparr>"
    using p mode by (auto simp: sql_prepare_def Let_def op_bind_Inr_iff op_iffs)
  then show ?thesis using take_shape_Inr [OF K t(1)] plan_load_covers [OF t(2)] by auto
qed

text \<open>What one more chunk leaves, whether or not its plan was made before.\<close>

definition grown :: "sql_env \<Rightarrow> record_batch list \<Rightarrow> sql_row multiset option \<Rightarrow> sql_row multiset option \<Rightarrow> bool" where
  "grown E bs old new \<longleftrightarrow> (if bs = [] then new = old else \<exists>rows. committed_as E bs rows \<and> new = add_rows rows old)"

text \<open>A grown table in terms of the records: the rows that were there, and one for each record.\<close>

definition arrived :: "record_batch list \<Rightarrow> sql_row multiset option \<Rightarrow> sql_row multiset option \<Rightarrow> bool" where
  "arrived bs old new \<longleftrightarrow> (if bs = [] then new = old
     else \<exists>rows. rel_mset (row_holds (batch_columns (hd bs))) rows (batches_rows bs) \<and> new = add_rows rows old)"

lemma grown_arrived: "grown E bs old new \<Longrightarrow> \<forall>b\<in>set bs. rectangular b \<Longrightarrow> arrived bs old new"
  unfolding grown_def arrived_def by (metis committed_as_holds)

lemma appending_grown: "sql_appending V E address old bs w \<Longrightarrow> grown E bs old (sv_committed (V (sw_client w)))"
  by (auto simp: sql_appending_def grown_def committed_as_def loaded_def split: option.splits)

lemma add_rows_add_rows: "add_rows b (add_rows a x) = add_rows (a + b) x"
  by (cases x) (simp_all add: add_rows_def add.assoc)

lemma append_prepared:
  assumes K: "sqlserver_keeps S V" and w: "sql_appending V E address old bs w"
    and x: "(if sw_plan w = None then sql_prepare E S b w else (Inr (), w)) = (Inr (), w1)"
  obtains plan where "sw_plan w1 = Some plan" "sw_mode w1 = Append" "sw_address w1 = address" "\<not> sw_transaction w1"
    "\<not> sv_open (V (sw_client w1))" "sw_committed_chunks w1 = length bs" "sw_written_records w1 = sum_list (map rb_rows bs)"
    "sv_committed (V (sw_client w1)) = add_rows (encoded_batches E plan bs) old"
    "is_ok (encoded E plan b) \<Longrightarrow> loaded E plan (bs @ [b])" "bs \<noteq> [] \<Longrightarrow> loaded E plan bs"
proof (cases "sw_plan w")
  case None
  then have prepared: "sql_prepare E S b w = (Inr (), w1)" using x by simp
  have bs: "bs = []" "sw_mode w = Append" using w None by (simp_all add: sql_appending_def)
  obtain plan c where "covers E (rb_schema b) plan" "w1 = w\<lparr>sw_client := c, sw_shape := None, sw_plan := Some plan\<rparr>"
    "V c = V (sw_client w)"
    using prepare_append_Inr [OF K bs(2) prepared] by blast
  then show ?thesis using that [of plan] w None bs(1) loaded_one by (simp add: sql_appending_def)
next
  case (Some plan)
  then show ?thesis using that [of plan] w x loaded_snoc by (simp add: sql_appending_def)
qed

lemma write_appending:
  assumes K: "sqlserver_keeps S V" "sqlserver_bulks S V" "sqlserver_writes S V (qc_schema address, qc_dataset address)"
    and w: "sql_appending V E address old bs w" and r: "sql_write_chunk E S b w = (Inr (), w')"
  shows "sql_appending V E address old (bs @ [b]) w'"
proof -
  obtain w1 w2 where x: "(if sw_plan w = None then sql_prepare E S b w else (Inr (), w)) = (Inr (), w1)"
    and chunk: "bulk_chunk E S b (the (sw_plan w1)) w1 = (Inr (), w2)"
    and w': "w' = (if sw_mode w2 = Append then w2\<lparr>sw_committed_chunks := sw_committed_chunks w2 + 1,
             sw_written_records := sw_written_records w2 + rb_rows b\<rparr> else w2)"
    using write_chunk_Inr [OF r] by blast
  obtain plan where p: "sw_plan w1 = Some plan" "sw_mode w1 = Append" "sw_address w1 = address" "\<not> sw_transaction w1"
    "\<not> sv_open (V (sw_client w1))" "sw_committed_chunks w1 = length bs" "sw_written_records w1 = sum_list (map rb_rows bs)"
    "sv_committed (V (sw_client w1)) = add_rows (encoded_batches E plan bs) old"
    "is_ok (encoded E plan b) \<Longrightarrow> loaded E plan (bs @ [b])"
    using append_prepared [OF K(1) w x] by blast
  have t: "sqlserver_writes S V (target_of w1)" "sw_mode w1 \<noteq> Merge" using K(3) p(2,3) by (simp_all add: target_of_def)
  obtain c where c: "w2 = w1\<lparr>sw_client := c\<rparr>" "is_ok (encoded E plan b)" "\<not> sv_open (V c)"
    "sv_committed (V c) = add_rows (encoded_batch E plan b) (sv_committed (V (sw_client w1)))"
    using bulk_target_Inr [OF K(2) t chunk [unfolded p(1) option.sel]] p(5) by auto
  show ?thesis using p c w' by (simp add: sql_appending_def add_rows_add_rows)
qed

lemma write_appending_failed:
  assumes K: "sqlserver_keeps S V" "sqlserver_transacts S V" "sqlserver_bulks S V"
      "sqlserver_writes S V (qc_schema address, qc_dataset address)"
    and w: "sql_appending V E address old bs w" and r: "sql_write_chunk E S b w = (Inl fail, w')"
  shows "wx_committed_chunks fail = length bs
    \<and> (grown E bs old (sv_committed (V (sw_client w'))) \<or> grown E (bs @ [b]) old (sv_committed (V (sw_client w'))))"
proof -
  have m: "sw_mode w = Append" "sw_address w = address" "\<not> sw_transaction w" "sw_committed_chunks w = length bs"
    using w by (simp_all add: sql_appending_def)
  have K4: "sqlserver_writes S V (qc_schema (sw_address w), qc_dataset (sw_address w))" using K(4) m(2) by simp
  obtain x w1 where x: "(if sw_plan w = None then sql_prepare E S b w else (Inr (), w)) = (x, w1)" by fastforce
  show ?thesis
  proof (cases x)
    case (Inl e)
    then have none: "sw_plan w = None" "sql_prepare E S b w = (Inl e, w1)" using x by (simp_all split: if_splits)
    have "bs = []" "sv_committed (V (sw_client w)) = old" using w none by (simp_all add: sql_appending_def)
    then show ?thesis
      using prepare_Inl [OF K(1,2) K4 none(2)] r x Inl m rollback_keeps(1) [OF K(1), of w1]
      by (auto simp: sql_write_chunk_def Let_def write_failure_from_def grown_def)
  next
    case (Inr u)
    then have x': "(if sw_plan w = None then sql_prepare E S b w else (Inr (), w)) = (Inr (), w1)" using x by (cases u) simp
    obtain plan where p: "sw_plan w1 = Some plan" "sw_mode w1 = Append" "sw_address w1 = address"
      "\<not> sv_open (V (sw_client w1))" "sw_committed_chunks w1 = length bs"
      "sv_committed (V (sw_client w1)) = add_rows (encoded_batches E plan bs) old"
      "is_ok (encoded E plan b) \<Longrightarrow> loaded E plan (bs @ [b])" "bs \<noteq> [] \<Longrightarrow> loaded E plan bs"
      using append_prepared [OF K(1) w x'] by blast
    have t: "sqlserver_writes S V (target_of w1)" "sw_mode w1 \<noteq> Merge" using K(4) p(2,3) by (simp_all add: target_of_def)
    obtain y w2 where y: "bulk_chunk E S b plan w1 = (y, w2)" by fastforce
    obtain e where e: "y = Inl e" using r x' y p(1) unfolding sql_write_chunk_def x' by (cases y) (auto split: if_splits)
    obtain c where c: "w2 = w1\<lparr>sw_client := c\<rparr>" "sv_committed (V c) = sv_committed (V (sw_client w1))
      \<or> is_ok (encoded E plan b) \<and> sv_committed (V c) = add_rows (encoded_batch E plan b) (sv_committed (V (sw_client w1)))"
      using bulk_target_Inl [OF K(1,3) t y [unfolded e]] by blast
    have "sw_mode w2 = Append" using p(2) c(1) by simp
    then have "fail = sql_append_failure w2 e" "w' = w2"
      using r y e p(1) unfolding sql_write_chunk_def x' by auto
    moreover have "grown E bs old (sv_committed (V c)) \<or> grown E (bs @ [b]) old (sv_committed (V c))"
      using c(2)
    proof
      assume "sv_committed (V c) = sv_committed (V (sw_client w1))"
      then have "grown E bs old (sv_committed (V c))" using p(6,8) by (auto simp: grown_def committed_as_def)
      then show ?thesis by blast
    next
      assume "is_ok (encoded E plan b) \<and> sv_committed (V c) = add_rows (encoded_batch E plan b) (sv_committed (V (sw_client w1)))"
      then have "grown E (bs @ [b]) old (sv_committed (V c))"
        using p(6,7) by (auto simp: grown_def committed_as_def add_rows_add_rows intro!: exI [of _ plan])
      then show ?thesis by blast
    qed
    ultimately show ?thesis using c(1) p(5) by (simp add: sql_append_failure_def)
  qed
qed

lemma sqlserver_append_run:
  assumes K: "sqlserver_contract S V val (qc_schema (sw_address w)) (qc_dataset (sw_address w)) stage"
    and opened: "sql_begin S token Append w = (Inr (), us_world st)"
    and run: "run_serial_write_phase policy (sqlserver_ops E S token) chunks st = (r, st')"
  shows "let old = sv_committed (V (sw_client w)); new = sv_committed (V (sw_client (us_world st'))) in case r of
      Inr outcome \<Rightarrow> \<exists>bs. chunks = map Inr bs \<and> grown E bs old new
    | Inl (In_Session fail) \<Rightarrow> \<exists>bs rest. chunks = map Inr bs @ rest \<and> wx_committed_chunks fail = length bs
        \<and> (grown E bs old new \<or> (\<exists>b rest'. rest = Inr b # rest' \<and> grown E (bs @ [b]) old new))
    | Inl (Before_Session fail) \<Rightarrow> False"
proof -
  let ?address = "sw_address w" and ?D = "sqlserver_ops E S token" and ?old = "sv_committed (V (sw_client w))"
  have K': "sqlserver_keeps S V" "sqlserver_transacts S V" "sqlserver_bulks S V"
    "sqlserver_writes S V (qc_schema ?address, qc_dataset ?address)"
    using K by (simp_all add: sqlserver_contract_def)
  define P where "P = sql_appending V E ?address ?old"
  have start: "P [] (us_world st)" using begin_Inr [OF K'(1) opened] by (simp add: P_def sql_appending_def)
  have step: "P (bs @ [b]) w''" if "P bs w'" "d_write_chunk ?D b w' = (Inr (), w'')" for bs b w' w''
    using that write_appending [OF K'(1,3,4)] by (simp add: P_def sqlserver_ops_def)
  have terminal: "wx_transience fail = Terminal" if "fst (d_write_chunk ?D b w') = Inl fail" for b w' fail
    using that by (simp add: sqlserver_ops_def write_chunk_terminal)
  have split: "chunks = xs @ drop k chunks" if "take k chunks = xs" for k xs
    using append_take_drop_id [of k chunks] that by simp
  have run': "run_serial_from policy ?D 0 chunks st = (r, st')" using run by (simp add: run_serial_write_phase_def)
  from step terminal run' start show ?thesis
  proof (rule serial_run_cases)
    fix bs st''
    assume c: "chunks = map Inr bs" "P ([] @ bs) (us_world st'')" "(r, st') = commit_session ?D (0 + length chunks) st''"
    then have p: "sql_appending V E ?address ?old bs (us_world st'')" by (simp add: P_def)
    then have "sql_commit S (us_world st'')
        = (Inr \<lparr>dw_bytes_written = None, dw_facts = facts_best_effort ''bulk_insert''\<rparr>, sql_drop S (us_world st''))"
      by (simp add: sql_commit_def sql_appending_def)
    then show ?thesis
      using c(1,3) appending_grown [OF p] drop_keeps [OF K'(1)]
      by (auto simp: commit_session_def sqlserver_ops_def Let_def)
  next
    fix bs w' src
    assume c: "take (length bs + 1) chunks = map Inr bs @ [Inl src]" "P ([] @ bs) w'"
      "r = Inl (In_Session \<lparr>wx_failure = src, wx_facts = aw_facts (fst (d_abandon ?D w')),
         wx_written_records = aw_written_records (fst (d_abandon ?D w')),
         wx_committed_chunks = aw_committed_chunks (fst (d_abandon ?D w')), wx_transience = Terminal\<rparr>)"
      "us_world st' = snd (d_abandon ?D w')"
    have p: "sql_appending V E ?address ?old bs w'" using c(2) by (simp add: P_def)
    have "chunks = map Inr bs @ Inl src # drop (length bs + 1) chunks" using split [OF c(1)] by simp
    moreover have "sw_committed_chunks w' = length bs" using p by (simp add: sql_appending_def)
    ultimately show ?thesis
      using c(3,4) abandon_keeps [OF K'(1)] appending_grown [OF p]
      by (auto simp: sqlserver_ops_def Let_def intro!: exI [of _ bs])
  next
    fix bs b w' w'' fail
    assume c: "take (length bs + 1) chunks = map Inr (bs @ [b])" "P ([] @ bs) w'" "d_write_chunk ?D b w' = (Inl fail, w'')"
      "r = Inl (In_Session fail)" "us_world st' = d_drop ?D w''"
    have "chunks = map Inr bs @ Inr b # drop (length bs + 1) chunks" using split [OF c(1)] by simp
    moreover have "wx_committed_chunks fail = length bs
      \<and> (grown E bs ?old (sv_committed (V (sw_client w''))) \<or> grown E (bs @ [b]) ?old (sv_committed (V (sw_client w''))))"
      using write_appending_failed [OF K'] c(2,3) by (simp add: sqlserver_ops_def P_def)
    ultimately show ?thesis
      using c(4,5) drop_keeps [OF K'(1)] by (auto simp: sqlserver_ops_def Let_def intro!: exI [of _ bs])
  qed
qed

end
