(* ===== verification/Sqlserver_Merge.thy ===== *)
theory Sqlserver_Merge
  imports Sqlserver_Runs
begin

section \<open>Serial merges into a SQL Server table\<close>

text \<open>
  The merge mode of the session: the chunks go to a stage inside one transaction, which the commit
  gates on unique keys, counts, merges and drops.
\<close>

subsection \<open>The stage\<close>

lemma sql_stages_calls:
  assumes "sqlserver_stages S V (s, t)"
  shows "create_table_ddl E dataset s t = Inr sql \<Longrightarrow> ss_query S sql c = (Inr rs, c') \<Longrightarrow> sv_open (V c) \<Longrightarrow>
       V c' = (V c)\<lparr>sv_stage := Some {#}\<rparr>"
    "ss_query S (drop_table_sql (qualified_name s t)) c = (Inr rs, c') \<Longrightarrow> V c' = (V c)\<lparr>sv_stage := None\<rparr>"
proof -
  note w = assms [unfolded sqlserver_stages_def, THEN conjunct1, rule_format]
  show "create_table_ddl E dataset s t = Inr sql \<Longrightarrow> ss_query S sql c = (Inr rs, c') \<Longrightarrow> sv_open (V c) \<Longrightarrow>
       V c' = (V c)\<lparr>sv_stage := Some {#}\<rparr>" using w [OF read_create] by simp
  show "ss_query S (drop_table_sql (qualified_name s t)) c = (Inr rs, c') \<Longrightarrow> V c' = (V c)\<lparr>sv_stage := None\<rparr>"
    using w [OF read_drop] by simp
qed

lemma sql_merges_calls:
  assumes M: "sqlserver_merges S V val (s, t) (s, g)" and name: "g \<noteq> t"
  shows "ss_query S (duplicate_gate_sql (qualified_name s g) (map bracket_quote keys)) c = (Inr rs, c') \<Longrightarrow>
       \<exists>incoming. sv_stage (V c) = Some incoming \<and> (rs = [] \<longleftrightarrow> colliding_rows val keys incoming = {#})"
    "ss_counts S (merge_counts_sql (qualified_name s g) (qualified_name s t) (map bracket_quote keys)) c = (Inr (n, m), c') \<Longrightarrow>
       sv_open (V c) \<Longrightarrow> \<exists>old incoming. sv_working (V c) = Some old \<and> sv_stage (V c) = Some incoming
         \<and> n = size incoming \<and> m = size (matched_rows val keys old incoming)"
    "ss_query S (merge_into_sql (qualified_name s t) (qualified_name s g) (map bracket_quote keys) (map bracket_quote columns)
        (map bracket_quote (filter (\<lambda>name. name \<notin> set keys) columns))) c = (Inr rs', c') \<Longrightarrow> sv_open (V c) \<Longrightarrow>
       \<exists>old incoming. sv_working (V c) = Some (mset old) \<and> sv_stage (V c) = Some (mset incoming)
         \<and> V c' = (V c)\<lparr>sv_working := Some (mset (merge_rows val None ''target'' ''source'' (keys_equal ''target'' ''source'' keys)
             (upsert_clauses ''source'' columns (filter (\<lambda>n. n \<notin> set keys) columns)) old incoming))\<rparr>"
proof -
  note w = M [unfolded sqlserver_merges_def, rule_format]
  show "\<exists>incoming. sv_stage (V c) = Some incoming \<and> (rs = [] \<longleftrightarrow> colliding_rows val keys incoming = {#})"
    if q: "ss_query S (duplicate_gate_sql (qualified_name s g) (map bracket_quote keys)) c = (Inr rs, c')"
  proof -
    obtain rows where rows: "server_rows (s, t) (s, g) [s, g] (V c) = Some (mset rows)"
      "length rs = min 1 (group_count val keys Greater 1 rows)"
      using w [OF read_duplicate_gate, THEN conjunct1, rule_format, OF refl _ q] by auto
    have "rs = [] \<longleftrightarrow> group_count val keys Greater 1 rows = 0" using rows(2) by (cases rs) auto
    then show ?thesis using rows(1) name unfolding group_count_colliding by (simp add: server_rows_def)
  qed
  show "\<exists>old incoming. sv_working (V c) = Some old \<and> sv_stage (V c) = Some incoming
         \<and> n = size incoming \<and> m = size (matched_rows val keys old incoming)"
    if q: "ss_counts S (merge_counts_sql (qualified_name s g) (qualified_name s t) (map bracket_quote keys)) c = (Inr (n, m), c')"
      and o: "sv_open (V c)"
  proof -
    obtain rows others where rows: "server_rows (s, t) (s, g) [s, g] (V c) = Some (mset rows)"
      "server_rows (s, t) (s, g) [s, t] (V c) = Some (mset others)"
      "(n, m) = flagged_count val ''source'' ''target'' (keys_equal ''target'' ''source'' keys) 1 1 0 rows others"
      using w [OF read_merge_counts, THEN conjunct2, THEN conjunct1, rule_format, OF refl _ q] by auto
    have "(n, m) = (length rows, size (matched_rows val keys (mset others) (mset rows)))"
      unfolding rows(3) by (rule flagged_count_matched) simp
    then show ?thesis using rows(1,2) name o by (simp add: server_rows_def)
  qed
  show "\<exists>old incoming. sv_working (V c) = Some (mset old) \<and> sv_stage (V c) = Some (mset incoming)
         \<and> V c' = (V c)\<lparr>sv_working := Some (mset (merge_rows val None ''target'' ''source'' (keys_equal ''target'' ''source'' keys)
             (upsert_clauses ''source'' columns (filter (\<lambda>n. n \<notin> set keys) columns)) old incoming))\<rparr>"
    if q: "ss_query S (merge_into_sql (qualified_name s t) (qualified_name s g) (map bracket_quote keys) (map bracket_quote columns)
        (map bracket_quote (filter (\<lambda>name. name \<notin> set keys) columns))) c = (Inr rs', c')" and o: "sv_open (V c)"
    using w [OF read_merge_into [folded upsert_clauses_def], THEN conjunct2, THEN conjunct2, rule_format, OF _ o q] by simp
qed

text \<open>Where the staged rows hold nothing outside the columns, the merge is the one meant.\<close>

lemma server_merged:
  assumes "\<forall>r. r \<in># mset incoming \<longrightarrow> (\<forall>name. name \<notin> set columns \<longrightarrow> r name = None)"
  shows "merged_into val keys columns (mset old) (mset incoming)
    (mset (merge_rows val None ''target'' ''source'' (keys_equal ''target'' ''source'' keys)
       (upsert_clauses ''source'' columns (filter (\<lambda>n. n \<notin> set keys) columns)) old incoming))"
proof -
  have "merge_rows val None ''target'' ''source'' (keys_equal ''target'' ''source'' keys)
       (upsert_clauses ''source'' columns (filter (\<lambda>n. n \<notin> set keys) columns)) old incoming
     = merge_lists val keys columns old incoming"
    by (rule merge_rows_upsert) (use assms in auto)
  then show ?thesis using merge_lists_merged by metis
qed

lemma wire_row_outside: "name \<notin> set names \<Longrightarrow> wire_row names vs name = None"
proof -
  assume "name \<notin> set names"
  then have "name \<notin> fst ` set (zip names vs)" by (auto dest: set_zip_leftD)
  then show "wire_row names vs name = None" by (simp add: wire_row_def map_of_eq_None_iff)
qed

lemma encoded_outside:
  "r \<in># encoded_batches E plan bs \<Longrightarrow> name \<notin> set (plan_column_names plan) \<Longrightarrow> r name = None"
  by (induction bs) (auto simp: encoded_batches_def encoded_batch_def wire_row_outside split: sum.splits)

lemma prepare_merge_Inr:
  assumes K: "sqlserver_keeps S V" "sqlserver_transacts S V" "sqlserver_stages S V (stage_of w)"
    and mode: "sw_mode w = Merge" and p: "sql_prepare E S b w = (Inr (), w')"
  obtains plan c ident where "covers E (rb_schema b) plan" "plan_column_names plan = batch_columns b"
    "w' = w\<lparr>sw_client := c, sw_shape := None, sw_transaction := True, sw_identity_insert := ident, sw_plan := Some plan\<rparr>"
    "V c = (V (sw_client w))\<lparr>sv_working := sv_committed (V (sw_client w)), sv_open := True, sv_stage := Some {#}\<rparr>"
proof -
  obtain shape w1 plan w2 where t: "take_shape S w = (Inr shape, w1)" "plan_load E (rb_schema b) w shape = Inr plan"
    "stage_merge E S (rb_schema b) shape w1 = (Inr (), w2)" "w' = w2\<lparr>sw_plan := Some plan\<rparr>"
    using p mode by (auto simp: sql_prepare_def Let_def op_bind_Inr_iff op_iffs)
  obtain c1 where c1: "w1 = w\<lparr>sw_client := c1, sw_shape := None\<rparr>" "V c1 = V (sw_client w)"
    using take_shape_Inr [OF K(1) t(1)] by blast
  obtain w3 w4 ident where o: "begin_transaction S w1 = (Inr (), w3)"
    "create_table E S (rb_schema b) (qc_schema (sw_address w)) (sw_stage w) w3 = (Inr (), w4)"
    "w2 = w4\<lparr>sw_identity_insert := ident\<rparr>"
    using t(3) c1(1) by (auto simp: stage_merge_def op_bind_Inr_iff op_iffs)
  obtain c3 where c3: "w3 = w1\<lparr>sw_client := c3, sw_transaction := True\<rparr>"
    "V c3 = (V (sw_client w1))\<lparr>sv_working := sv_committed (V (sw_client w1)), sv_open := True\<rparr>"
    using begin_transaction_Inr [OF K(2) o(1)] by blast
  obtain sql rs c where ddl: "create_table_ddl E (rb_schema b) (qc_schema (sw_address w)) (sw_stage w) = Inr sql"
    and c: "ss_query S sql (sw_client w3) = (Inr rs, c)" "w4 = w3\<lparr>sw_client := c\<rparr>"
    using create_table_Inr [OF o(2)] by blast
  have open3: "sv_open (V (sw_client w3))" using c3 by simp
  have "V c = (V (sw_client w3))\<lparr>sv_stage := Some {#}\<rparr>"
    using sql_stages_calls(1) [OF K(3) [unfolded stage_of_def] ddl c(1) open3] .
  then show ?thesis
    using that [of plan ident c] plan_load_covers [OF t(2)] plan_load_merge [OF t(2) mode] t(4) o(3) c(2) c3 c1
    by (simp add: batch_columns_def)
qed

definition sql_merging ::
  "('c \<Rightarrow> sql_view) \<Rightarrow> sql_env \<Rightarrow> 'c sql_writer \<Rightarrow> sql_row multiset option \<Rightarrow> record_batch list \<Rightarrow> 'c sql_writer \<Rightarrow> bool" where
  "sql_merging V E w0 old bs w \<longleftrightarrow> sw_mode w = Merge \<and> sw_address w = sw_address w0 \<and> sw_stage w = sw_stage w0
     \<and> sw_merge_keys w = sw_merge_keys w0 \<and> sw_committed_chunks w = 0 \<and> sv_committed (V (sw_client w)) = old
     \<and> (case sw_plan w of
          None \<Rightarrow> bs = []
        | Some plan \<Rightarrow> sv_open (V (sw_client w)) \<and> loaded E plan bs \<and> plan_column_names plan = batch_columns (hd bs)
            \<and> sv_working (V (sw_client w)) = old \<and> sv_stage (V (sw_client w)) = Some (encoded_batches E plan bs))"

lemma merging_prepared:
  assumes K: "sqlserver_keeps S V" "sqlserver_transacts S V" "sqlserver_stages S V (stage_of w0)"
    and w: "sql_merging V E w0 old bs w"
    and x: "(if sw_plan w = None then sql_prepare E S b w else (Inr (), w)) = (Inr (), w1)"
  obtains plan where "sw_plan w1 = Some plan" "sw_mode w1 = Merge" "sw_address w1 = sw_address w0" "sw_stage w1 = sw_stage w0"
    "sw_merge_keys w1 = sw_merge_keys w0" "sw_committed_chunks w1 = 0" "sv_committed (V (sw_client w1)) = old"
    "sv_open (V (sw_client w1))" "sv_working (V (sw_client w1)) = old"
    "sv_stage (V (sw_client w1)) = Some (encoded_batches E plan bs)"
    "is_ok (encoded E plan b) \<Longrightarrow> loaded E plan (bs @ [b])" "plan_column_names plan = batch_columns (hd (bs @ [b]))"
proof (cases "sw_plan w")
  case None
  then have prepared: "sql_prepare E S b w = (Inr (), w1)" using x by simp
  have bs: "bs = []" "sw_mode w = Merge" using w None by (simp_all add: sql_merging_def)
  have s: "sqlserver_stages S V (stage_of w)" using K(3) w by (simp add: stage_of_def sql_merging_def)
  obtain plan c ident where "covers E (rb_schema b) plan" "plan_column_names plan = batch_columns b"
    "w1 = w\<lparr>sw_client := c, sw_shape := None, sw_transaction := True, sw_identity_insert := ident, sw_plan := Some plan\<rparr>"
    "V c = (V (sw_client w))\<lparr>sv_working := sv_committed (V (sw_client w)), sv_open := True, sv_stage := Some {#}\<rparr>"
    using prepare_merge_Inr [OF K(1,2) s bs(2) prepared] by blast
  then show ?thesis using that [of plan] w None bs(1) loaded_one by (simp add: sql_merging_def)
next
  case (Some plan)
  moreover have "bs \<noteq> []" using w Some by (simp add: sql_merging_def loaded_def)
  ultimately show ?thesis using that [of plan] w x loaded_snoc by (simp add: sql_merging_def)
qed

lemma write_merging:
  assumes K: "sqlserver_keeps S V" "sqlserver_transacts S V" "sqlserver_bulks S V" "sqlserver_stages S V (stage_of w0)"
    and w: "sql_merging V E w0 old bs w" and r: "sql_write_chunk E S b w = (Inr (), w')"
  shows "sql_merging V E w0 old (bs @ [b]) w'"
proof -
  obtain w1 w2 where x: "(if sw_plan w = None then sql_prepare E S b w else (Inr (), w)) = (Inr (), w1)"
    and chunk: "bulk_chunk E S b (the (sw_plan w1)) w1 = (Inr (), w2)"
    and w': "w' = (if sw_mode w2 = Append then w2\<lparr>sw_committed_chunks := sw_committed_chunks w2 + 1,
             sw_written_records := sw_written_records w2 + rb_rows b\<rparr> else w2)"
    using write_chunk_Inr [OF r] by blast
  obtain plan where p: "sw_plan w1 = Some plan" "sw_mode w1 = Merge" "sw_address w1 = sw_address w0" "sw_stage w1 = sw_stage w0"
    "sw_merge_keys w1 = sw_merge_keys w0" "sw_committed_chunks w1 = 0" "sv_committed (V (sw_client w1)) = old"
    "sv_open (V (sw_client w1))" "sv_working (V (sw_client w1)) = old"
    "sv_stage (V (sw_client w1)) = Some (encoded_batches E plan bs)"
    "is_ok (encoded E plan b) \<Longrightarrow> loaded E plan (bs @ [b])" "plan_column_names plan = batch_columns (hd (bs @ [b]))"
    using merging_prepared [OF K(1,2,4) w x] by blast
  have s: "sqlserver_stages S V (stage_of w1)" using K(4) p(3,4) by (simp add: stage_of_def)
  obtain c where c: "w2 = w1\<lparr>sw_client := c\<rparr>" "is_ok (encoded E plan b)" "sv_open (V c)"
    "sv_committed (V c) = sv_committed (V (sw_client w1))" "sv_working (V c) = sv_working (V (sw_client w1))"
    "sv_stage (V c) = add_rows (encoded_batch E plan b) (sv_stage (V (sw_client w1)))"
    using bulk_stage_Inr [OF K(3) s p(2,8) chunk [unfolded p(1) option.sel]] by blast
  have "w' = w2" using w' c(1) p(2) by simp
  then show ?thesis using p(1-7,9,10,12) c p(11) [OF c(2)] by (simp add: sql_merging_def)
qed

lemma write_merging_failed:
  assumes K: "sqlserver_keeps S V" "sqlserver_transacts S V" "sqlserver_bulks S V"
      "sqlserver_writes S V (qc_schema (sw_address w0), qc_dataset (sw_address w0))" "sqlserver_stages S V (stage_of w0)"
    and w: "sql_merging V E w0 old bs w" and r: "sql_write_chunk E S b w = (Inl fail, w')"
  shows "wx_committed_chunks fail = 0 \<and> sv_committed (V (sw_client w')) = old"
proof (rule write_not_append_Inl [OF r])
  have m: "sw_mode w = Merge" "sw_address w = sw_address w0" "sv_committed (V (sw_client w)) = old"
    using w by (simp_all add: sql_merging_def)
  have K4: "sqlserver_writes S V (qc_schema (sw_address w), qc_dataset (sw_address w))" using K(4) m(2) by simp
  show "sw_mode w \<noteq> Append" using m by simp
  show "sw_mode w1 = sw_mode w \<and> sv_committed (V (sw_client w1)) = old" if "sql_prepare E S b w = (Inl e, w1)" for e w1
    using prepare_Inl [OF K(1,2) K4 that] m by simp
  show "sw_mode w2 = sw_mode w \<and> sv_committed (V (sw_client w2)) = old"
    if x: "(if sw_plan w = None then sql_prepare E S b w else (Inr (), w)) = (Inr (), w1)"
      and y: "bulk_chunk E S b (the (sw_plan w1)) w1 = (Inl e, w2)" for w1 e w2
  proof -
    obtain plan where p: "sw_plan w1 = Some plan" "sw_mode w1 = Merge" "sw_address w1 = sw_address w0" "sw_stage w1 = sw_stage w0"
      "sv_committed (V (sw_client w1)) = old" "sv_open (V (sw_client w1))"
      using merging_prepared [OF K(1,2,5) w x] by blast
    have s: "sqlserver_stages S V (stage_of w1)" using K(5) p(3,4) by (simp add: stage_of_def)
    show ?thesis using bulk_stage_Inl [OF K(1,3) s p(2,6) y] p(2,5) m by auto
  qed
qed (rule K(1))

subsection \<open>The commit\<close>

text \<open>Calls in an open transaction that leave what is committed, and leave it open where they succeed.\<close>

definition guarded :: "('c \<Rightarrow> sql_view) \<Rightarrow> ('c sql_writer \<Rightarrow> (load_failure, 'a) result \<times> 'c sql_writer) \<Rightarrow> bool" where
  "guarded V m \<longleftrightarrow> (\<forall>w r w'. sv_open (V (sw_client w)) \<longrightarrow> m w = (r, w') \<longrightarrow> w' = w\<lparr>sw_client := sw_client w'\<rparr>
     \<and> sv_committed (V (sw_client w')) = sv_committed (V (sw_client w)) \<and> (is_ok r \<longrightarrow> sv_open (V (sw_client w'))))"

lemma guarded_bind: "guarded V m \<Longrightarrow> (\<And>x. guarded V (k x)) \<Longrightarrow> guarded V (op_bind m k)"
proof -
  assume m: "guarded V m" and k: "\<And>x. guarded V (k x)"
  show ?thesis
    unfolding guarded_def
  proof (intro allI impI)
    fix w r w'
    assume w: "sv_open (V (sw_client w))" and r: "op_bind m k w = (r, w')"
    obtain x w1 where x: "m w = (x, w1)" by fastforce
    have m1: "w1 = w\<lparr>sw_client := sw_client w1\<rparr>" "sv_committed (V (sw_client w1)) = sv_committed (V (sw_client w))"
      "is_ok x \<longrightarrow> sv_open (V (sw_client w1))"
      using m w x unfolding guarded_def by blast+
    show "w' = w\<lparr>sw_client := sw_client w'\<rparr>
     \<and> sv_committed (V (sw_client w')) = sv_committed (V (sw_client w)) \<and> (is_ok r \<longrightarrow> sv_open (V (sw_client w')))"
    proof (cases x)
      case (Inl e)
      then have "r = Inl e" "w' = w1" using r x by (simp_all add: op_bind_def)
      then show ?thesis using m1 by simp
    next
      case (Inr y)
      have open1: "sv_open (V (sw_client w1))" using m1(3) Inr by simp
      have "k y w1 = (r, w')" using r x Inr by (simp add: op_bind_def)
      then have k1: "w' = w1\<lparr>sw_client := sw_client w'\<rparr>" "sv_committed (V (sw_client w')) = sv_committed (V (sw_client w1))"
        "is_ok r \<longrightarrow> sv_open (V (sw_client w'))"
        using k [of y, unfolded guarded_def, rule_format, OF open1 \<open>k y w1 = (r, w')\<close>] by blast+
      have "w' = w\<lparr>sw_client := sw_client w'\<rparr>"
        using k1(1) arg_cong [OF m1(1), of "sw_client_update (\<lambda>_. sw_client w')"] by simp
      then show ?thesis using k1 m1(2) by simp
    qed
  qed
qed

lemma guarded_lift: "guarded V (op_lift r)"
  by (simp add: guarded_def op_iffs)

lemma guarded_when: "guarded V m \<Longrightarrow> guarded V (op_when b m)"
  by (cases b) (simp_all add: guarded_def op_when_def)

lemma guarded_client:
  assumes "\<And>c r c'. sv_open (V c) \<Longrightarrow> call c = (r, c') \<Longrightarrow>
    sv_committed (V c') = sv_committed (V c) \<and> (is_ok r \<longrightarrow> sv_open (V c'))"
  shows "guarded V (on_client name call)"
  unfolding guarded_def
proof (intro allI impI)
  fix w r w'
  assume w: "sv_open (V (sw_client w))" "on_client name call w = (r, w')"
  obtain x c where x: "call (sw_client w) = (x, c)" by fastforce
  then have "w' = w\<lparr>sw_client := c\<rparr>" "r = map_err (session_failure name) x" using w(2) by (auto simp: on_client_def)
  moreover from this have "is_ok r \<longleftrightarrow> is_ok x" by (cases x) simp_all
  ultimately show "w' = w\<lparr>sw_client := sw_client w'\<rparr>
     \<and> sv_committed (V (sw_client w')) = sv_committed (V (sw_client w)) \<and> (is_ok r \<longrightarrow> sv_open (V (sw_client w')))"
    using assms [OF w(1) x] by simp
qed

lemma guarded_statement:
  assumes K: "sqlserver_keeps S V" and c: "read_server sql = Some st" "st \<noteq> Commit_Transaction"
    and o: "\<And>c rs c'. ss_query S sql c = (Inr rs, c') \<Longrightarrow> sv_open (V c) \<Longrightarrow> sv_open (V c')"
  shows "guarded V (on_client name (ss_query S sql))" "guarded V (execute_sql S sql)"
proof -
  show 1: "guarded V (on_client n (ss_query S sql))" for n
  proof (rule guarded_client)
    fix c r c' assume "sv_open (V c)" "ss_query S sql c = (r, c')"
    then show "sv_committed (V c') = sv_committed (V c) \<and> (is_ok r \<longrightarrow> sv_open (V c'))"
      using sql_keeps_calls(1) [OF K _ c] o by (auto simp: is_ok_iff)
  qed
  show "guarded V (execute_sql S sql)"
    unfolding execute_sql_def by (intro guarded_bind guarded_lift 1)
qed

lemma sql_merge_guarded:
  assumes K: "sqlserver_keeps S V" "sqlserver_writes S V (target_of w)" "sqlserver_stages S V (stage_of w)"
      "sqlserver_merges S V val (target_of w) (stage_of w)" "sw_stage w \<noteq> qc_dataset (sw_address w)"
    and m: "sql_merge S w = (r, w')" and o: "sv_open (V (sw_client w))"
  shows "w' = w\<lparr>sw_client := sw_client w'\<rparr> \<and> sv_committed (V (sw_client w')) = sv_committed (V (sw_client w))"
proof -
  let ?t = "table_name w" and ?g = "stage_name w" and ?keys = "map bracket_quote (sw_merge_keys w)"
  note names = target_of_def stage_of_def table_name_def stage_name_def
  have gate: "guarded V (on_client n (ss_query S (duplicate_gate_sql ?g ?keys)))" for n
    using sql_keeps_calls(5) [OF K(1) _ read_duplicate_gate looking(4)]
    by (intro guarded_statement(1) [OF K(1) read_duplicate_gate [of "qc_schema (sw_address w)" "sw_stage w" "sw_merge_keys w", folded stage_name_def]])
      (auto simp: names)
  have counts: "guarded V (on_client n (ss_counts S (merge_counts_sql ?g ?t ?keys)))" for n
  proof (rule guarded_client)
    fix c r c' assume "sv_open (V c)" "ss_counts S (merge_counts_sql ?g ?t ?keys) c = (r, c')"
    then show "sv_committed (V c') = sv_committed (V c) \<and> (is_ok r \<longrightarrow> sv_open (V c'))"
      using sql_keeps_calls(6,7) [OF K(1) _ read_merge_counts looking(3)] by (auto simp: is_ok_iff names)
  qed
  have ident: "guarded V (execute_sql S (identity_insert_sql ?t ''ON''))" "guarded V (execute_sql S (identity_insert_sql ?t ''OFF''))"
    unfolding table_name_def
    using sql_writes_calls(3,4) [OF K(2) [unfolded target_of_def]]
    by (auto intro!: guarded_statement(2) [OF K(1) read_identity(1)] guarded_statement(2) [OF K(1) read_identity(2)])
  have merge: "guarded V (execute_sql S (merge_into_sql ?t ?g ?keys (map bracket_quote (plan_column_names (the (sw_plan w))))
      (map bracket_quote (filter (\<lambda>name. name \<notin> set (sw_merge_keys w)) (plan_column_names (the (sw_plan w)))))))"
    unfolding table_name_def stage_name_def
    using sql_merges_calls(3) [OF K(4) [unfolded target_of_def stage_of_def] K(5)]
    by (intro guarded_statement(2) [OF K(1) read_merge_into]) fastforce+
  have dropped: "guarded V (execute_sql S (drop_table_sql ?g))"
    unfolding stage_name_def
    using sql_stages_calls(2) [OF K(3) [unfolded stage_of_def]]
    by (intro guarded_statement(2) [OF K(1) read_drop]) auto
  have statements: "guarded V (merge_statements S w n m)" for n m
    unfolding merge_statements_def Let_def
    by (intro guarded_bind guarded_when guarded_lift ident merge dropped)
  have rest: "guarded V (\<lambda>w'. op_bind (on_client n (ss_counts S (merge_counts_sql ?g ?t ?keys))) (\<lambda>(a, b). merge_statements S w a b) w')" for n
    by (intro guarded_bind counts) (simp add: statements split: prod.split)
  define chain where "chain = op_bind (on_client ''duplicate-key gate'' (ss_query S (duplicate_gate_sql ?g ?keys))) (\<lambda>duplicates.
      if duplicates \<noteq> [] then op_lift (Inl duplicates_failure)
      else op_bind (on_client ''merge counts'' (ss_counts S (merge_counts_sql ?g ?t ?keys)))
        (\<lambda>(staged_count, updated). merge_statements S w staged_count updated))"
  have "guarded V chain"
    unfolding chain_def using rest by (intro guarded_bind gate) (simp add: guarded_lift)
  moreover have "sql_merge S w = chain w" by (simp add: sql_merge_def chain_def Let_def)
  ultimately show ?thesis using m o unfolding guarded_def by metis
qed

lemma merge_statements_Inr:
  assumes K: "sqlserver_keeps S V" "sqlserver_writes S V (target_of w)" "sqlserver_stages S V (stage_of w)"
      "sqlserver_merges S V val (target_of w) (stage_of w)" "sw_stage w \<noteq> qc_dataset (sw_address w)"
    and m: "merge_statements S w n m w1 = (Inr facts, w')" and o: "sv_open (V (sw_client w1))"
    and null: "\<forall>incoming r name. sv_stage (V (sw_client w1)) = Some incoming \<longrightarrow> r \<in># incoming \<longrightarrow>
      name \<notin> set (plan_column_names (the (sw_plan w))) \<longrightarrow> r name = None"
  shows "facts = with_merge_counts (facts_atomic ''transactional_merge'') m (n - m)
    \<and> (\<exists>old incoming new. sv_working (V (sw_client w1)) = Some old \<and> sv_stage (V (sw_client w1)) = Some incoming
         \<and> merged_into val (sw_merge_keys w) (plan_column_names (the (sw_plan w))) old incoming new
         \<and> sv_working (V (sw_client w')) = Some new \<and> sv_open (V (sw_client w')))"
proof -
  let ?t = "table_name w" and ?g = "stage_name w" and ?keys = "map bracket_quote (sw_merge_keys w)"
    and ?columns = "plan_column_names (the (sw_plan w))"
  note names = target_of_def stage_of_def table_name_def stage_name_def
  obtain w2 w3 w4 where s: "op_when (sw_identity_insert w) (execute_sql S (identity_insert_sql ?t ''ON'')) w1 = (Inr (), w2)"
    "execute_sql S (merge_into_sql ?t ?g ?keys (map bracket_quote ?columns)
       (map bracket_quote (filter (\<lambda>name. name \<notin> set (sw_merge_keys w)) ?columns))) w2 = (Inr (), w3)"
    "op_when (sw_identity_insert w) (execute_sql S (identity_insert_sql ?t ''OFF'')) w3 = (Inr (), w4)"
    "execute_sql S (drop_table_sql ?g) w4 = (Inr (), w')"
    "facts = with_merge_counts (facts_atomic ''transactional_merge'') m (n - m)"
    using m by (auto simp: merge_statements_def Let_def op_bind_Inr_iff op_iffs)
  have ident: "V (sw_client b) = V (sw_client a)"
    if "op_when (sw_identity_insert w) (execute_sql S (identity_insert_sql ?t state)) a = (Inr (), b)" "state \<in> {''ON'', ''OFF''}" for a b state
    using that sql_writes_calls(3,4) [OF K(2) [unfolded target_of_def]]
    by (cases "sw_identity_insert w") (auto simp: execute_sql_Inr_iff names)
  obtain rs c3 where c3: "ss_query S (merge_into_sql ?t ?g ?keys (map bracket_quote ?columns)
       (map bracket_quote (filter (\<lambda>name. name \<notin> set (sw_merge_keys w)) ?columns))) (sw_client w2) = (Inr rs, c3)" "w3 = w2\<lparr>sw_client := c3\<rparr>"
    using s(2) by (auto simp: execute_sql_Inr_iff)
  have on: "V (sw_client w2) = V (sw_client w1)" "V (sw_client w4) = V (sw_client w3)"
    using ident [OF s(1)] ident [OF s(3)] by simp_all
  have o2: "sv_open (V (sw_client w2))" using on(1) o by simp
  obtain old incoming where v: "sv_working (V (sw_client w2)) = Some (mset old)" "sv_stage (V (sw_client w2)) = Some (mset incoming)"
    "V c3 = (V (sw_client w2))\<lparr>sv_working := Some (mset (merge_rows val None ''target'' ''source'' (keys_equal ''target'' ''source'' (sw_merge_keys w))
       (upsert_clauses ''source'' ?columns (filter (\<lambda>n. n \<notin> set (sw_merge_keys w)) ?columns)) old incoming))\<rparr>"
    using sql_merges_calls(3) [OF K(4) [unfolded target_of_def stage_of_def] K(5) c3(1) [unfolded table_name_def stage_name_def] o2] by blast
  have outside: "\<forall>r. r \<in># mset incoming \<longrightarrow> (\<forall>name. name \<notin> set ?columns \<longrightarrow> r name = None)"
    using null v(2) on(1) by simp
  note merged = server_merged [OF outside, of val "sw_merge_keys w" old]
  obtain rs' c where c: "ss_query S (drop_table_sql ?g) (sw_client w4) = (Inr rs', c)" "w' = w4\<lparr>sw_client := c\<rparr>"
    using s(4) by (auto simp: execute_sql_Inr_iff)
  have "V c = (V (sw_client w4))\<lparr>sv_stage := None\<rparr>"
    using sql_stages_calls(2) [OF K(3) [unfolded stage_of_def] c(1) [unfolded stage_name_def]] .
  moreover have "V (sw_client w4) = V c3" using on(2) c3(2) by simp
  ultimately show ?thesis using s(5) v merged c(2) o2 on(1) by auto
qed

lemma sql_merge_Inr:
  assumes K: "sqlserver_keeps S V" "sqlserver_writes S V (target_of w)" "sqlserver_stages S V (stage_of w)"
      "sqlserver_merges S V val (target_of w) (stage_of w)" "sw_stage w \<noteq> qc_dataset (sw_address w)"
    and m: "sql_merge S w = (Inr facts, w')" and o: "sv_open (V (sw_client w))"
    and null: "\<forall>incoming r name. sv_stage (V (sw_client w)) = Some incoming \<longrightarrow> r \<in># incoming \<longrightarrow>
      name \<notin> set (plan_column_names (the (sw_plan w))) \<longrightarrow> r name = None"
  obtains old incoming new where "sv_working (V (sw_client w)) = Some old" "sv_stage (V (sw_client w)) = Some incoming"
    "colliding_rows val (sw_merge_keys w) incoming = {#}"
    "merged_into val (sw_merge_keys w) (plan_column_names (the (sw_plan w))) old incoming new"
    "sv_working (V (sw_client w')) = Some new" "sv_open (V (sw_client w'))"
    "facts = with_merge_counts (facts_atomic ''transactional_merge'') (size (matched_rows val (sw_merge_keys w) old incoming))
       (size incoming - size (matched_rows val (sw_merge_keys w) old incoming))"
proof -
  let ?t = "table_name w" and ?g = "stage_name w" and ?keys = "map bracket_quote (sw_merge_keys w)"
  obtain w1 w2 n u where s: "on_client ''duplicate-key gate'' (ss_query S (duplicate_gate_sql ?g ?keys)) w = (Inr [], w1)"
    "on_client ''merge counts'' (ss_counts S (merge_counts_sql ?g ?t ?keys)) w1 = (Inr (n, u), w2)"
    "merge_statements S w n u w2 = (Inr facts, w')"
    using m by (auto simp: sql_merge_def Let_def op_bind_Inr_iff op_iffs split: if_splits)
  obtain c1 where c1: "ss_query S (duplicate_gate_sql ?g ?keys) (sw_client w) = (Inr [], c1)" "w1 = w\<lparr>sw_client := c1\<rparr>"
    using s(1) by (auto simp: on_client_Inr_iff)
  obtain c2 where c2: "ss_counts S (merge_counts_sql ?g ?t ?keys) c1 = (Inr (n, u), c2)" "w2 = w1\<lparr>sw_client := c2\<rparr>"
    using s(2) c1(2) by (auto simp: on_client_Inr_iff)
  have v: "V c1 = V (sw_client w)" "V c2 = V (sw_client w)"
    using sql_keeps_calls(5) [OF K(1) c1(1) [unfolded stage_name_def] read_duplicate_gate looking(4)]
      sql_keeps_calls(7) [OF K(1) c2(1) [unfolded stage_name_def table_name_def] read_merge_counts looking(3)] by simp_all
  obtain incoming where i: "sv_stage (V (sw_client w)) = Some incoming" "colliding_rows val (sw_merge_keys w) incoming = {#}"
    using sql_merges_calls(1) [OF K(4) [unfolded target_of_def stage_of_def] K(5) c1(1) [unfolded stage_name_def]] by auto
  have o1: "sv_open (V c1)" "sv_open (V (sw_client w2))" using v o c2(2) by simp_all
  obtain old where old: "sv_working (V (sw_client w)) = Some old" "n = size incoming"
    "u = size (matched_rows val (sw_merge_keys w) old incoming)"
    using sql_merges_calls(2) [OF K(4) [unfolded target_of_def stage_of_def] K(5) c2(1) [unfolded stage_name_def table_name_def] o1(1)] v i by auto
  have null2: "\<forall>incoming r name. sv_stage (V (sw_client w2)) = Some incoming \<longrightarrow> r \<in># incoming \<longrightarrow>
      name \<notin> set (plan_column_names (the (sw_plan w))) \<longrightarrow> r name = None"
    using null v(2) c2(2) by simp
  obtain new where "merged_into val (sw_merge_keys w) (plan_column_names (the (sw_plan w))) old incoming new"
    "sv_working (V (sw_client w')) = Some new" "sv_open (V (sw_client w'))"
    "facts = with_merge_counts (facts_atomic ''transactional_merge'') u (n - u)"
    using merge_statements_Inr [OF K s(3) o1(2) null2] v(2) c2(2) i old(1) by auto
  then show ?thesis using that old i by simp
qed

lemma commit_merging:
  assumes K: "sqlserver_keeps S V" "sqlserver_transacts S V" "sqlserver_writes S V (target_of w0)"
      "sqlserver_stages S V (stage_of w0)" "sqlserver_merges S V val (target_of w0) (stage_of w0)"
      "sw_stage w0 \<noteq> qc_dataset (sw_address w0)"
    and w: "sql_merging V E w0 old bs w" "bs \<noteq> []" and c: "sql_commit S w = (r, w')"
  shows "\<exists>incoming. committed_as E bs incoming \<and> (case r of
      Inr dw \<Rightarrow> merge_done val (sw_merge_keys w0) (batch_columns (hd bs)) old incoming (sv_committed (V (sw_client w')))
        \<and> (\<exists>rows updated. old = Some rows \<and> updated = size (matched_rows val (sw_merge_keys w0) rows incoming)
             \<and> dw_facts dw = with_merge_counts (facts_atomic ''transactional_merge'') updated (size incoming - updated))
    | Inl fail \<Rightarrow> wx_committed_chunks fail = 0 \<and> (sv_committed (V (sw_client w')) = old
        \<or> merge_done val (sw_merge_keys w0) (batch_columns (hd bs)) old incoming (sv_committed (V (sw_client w')))))"
proof -
  obtain plan where p: "sw_plan w = Some plan" "sv_open (V (sw_client w))" "loaded E plan bs" "plan_column_names plan = batch_columns (hd bs)"
    "sv_working (V (sw_client w)) = old" "sv_stage (V (sw_client w)) = Some (encoded_batches E plan bs)"
    using w by (auto simp: sql_merging_def split: option.splits)
  have m: "sw_mode w = Merge" "sv_committed (V (sw_client w)) = old" "sw_merge_keys w = sw_merge_keys w0"
    "target_of w = target_of w0" "stage_of w = stage_of w0" "sw_stage w = sw_stage w0" "qc_dataset (sw_address w) = qc_dataset (sw_address w0)"
    using w by (simp_all add: sql_merging_def target_of_def stage_of_def)
  have columns: "plan_column_names (the (sw_plan w)) = batch_columns (hd bs)" using p(1,4) by simp
  note K' = K(1) K(3-6) [folded m(4-7)]
  have null: "\<forall>incoming r name. sv_stage (V (sw_client w)) = Some incoming \<longrightarrow> r \<in># incoming \<longrightarrow>
      name \<notin> set (plan_column_names (the (sw_plan w))) \<longrightarrow> r name = None"
    using encoded_outside p(1,6) by auto
  have as: "committed_as E bs (encoded_batches E plan bs)" using p(3) by (auto simp: committed_as_def)
  have failed: "wx_committed_chunks (sql_merge_failure e) = 0" for e
    by (simp add: sql_merge_failure_def write_failure_atomic_def)
  obtain x w1 where x: "sql_merge S w = (x, w1)" by fastforce
  note g = sql_merge_guarded [OF K' x p(2)]
  show ?thesis
  proof (cases x)
    case (Inl e)
    have "sw_mode w1 = Merge" using g m(1) by (metis sql_writer.select_convs(2) sql_writer.surjective sql_writer.update_convs(5))
    then have "r = Inl (sql_merge_failure e)" "sv_committed (V (sw_client w')) = old"
      using c x Inl m g drop_keeps [OF K(1)] rollback_keeps [OF K(1)]
      by (auto simp: sql_commit_def commit_transaction_def op_bind_def)
    then show ?thesis using as failed by (intro exI [of _ "encoded_batches E plan bs"]) simp
  next
    case (Inr facts)
    let ?incoming = "encoded_batches E plan bs"
    obtain rows new where mi: "old = Some rows" "colliding_rows val (sw_merge_keys w0) ?incoming = {#}"
      "merged_into val (sw_merge_keys w0) (batch_columns (hd bs)) rows ?incoming new"
      "sv_working (V (sw_client w1)) = Some new" "sv_open (V (sw_client w1))"
      "facts = with_merge_counts (facts_atomic ''transactional_merge'') (size (matched_rows val (sw_merge_keys w0) rows ?incoming))
         (size ?incoming - size (matched_rows val (sw_merge_keys w0) rows ?incoming))"
    proof (rule sql_merge_Inr [OF K' x [unfolded Inr] p(2) null], goal_cases)
      case (1 rows incoming new)
      have i: "incoming = ?incoming" "old = Some rows" using 1(2,3) p(5,6) by simp_all
      show ?case by (rule 1(1)) (use 1(4-) p(1,4) m(3) i in simp_all)
    qed
    have new: "merge_done val (sw_merge_keys w0) (batch_columns (hd bs)) old ?incoming (Some new)"
      using mi(1-3) by (simp add: merge_done_def)
    have mode1: "sw_mode w1 = Merge" using g m(1) by (metis sql_writer.select_convs(2) sql_writer.surjective sql_writer.update_convs(5))
    obtain y c2 where y: "ss_query S commit_sql (sw_client w1) = (y, c2)" by fastforce
    show ?thesis
    proof (cases y)
      case (Inl e)
      then have r: "r = Inl (sql_merge_failure (session_failure ''statement'' e))" "sv_committed (V (sw_client w')) = sv_committed (V c2)"
        using c x y \<open>x = Inr facts\<close> m(1) mode1 drop_keeps [OF K(1)] rollback_keeps [OF K(1)]
        by (auto simp: sql_commit_def commit_transaction_def op_bind_def op_lift_def execute_sql_def on_client_def)
      have "sv_committed (V c2) = old \<or> sv_committed (V c2) = Some new"
        using sql_transacts_calls(3) [OF K(2) y [unfolded Inl]] mi(4) g m(2) by auto
      then show ?thesis using as failed r new by (intro exI [of _ ?incoming]) auto
    next
      case (Inr rs)
      then have r: "r = Inr \<lparr>dw_bytes_written = None, dw_facts = facts\<rparr>" "sv_committed (V (sw_client w')) = sv_committed (V c2)"
        using c x y \<open>x = Inr facts\<close> m(1) mode1 drop_keeps [OF K(1)]
        by (auto simp: sql_commit_def commit_transaction_def op_bind_def op_lift_def execute_sql_def on_client_def)
      have "sv_committed (V c2) = Some new"
        using sql_transacts_calls(2) [OF K(2) y [unfolded Inr] mi(5)] mi(4) by simp
      then show ?thesis using as r new mi(1,6) by (intro exI [of _ ?incoming]) auto
    qed
  qed
qed

subsection \<open>The run\<close>

lemma sqlserver_merge_run:
  assumes K: "sqlserver_contract S V val (qc_schema (sw_address w)) (qc_dataset (sw_address w)) (merge_stage_name token)"
    and name: "merge_stage_name token \<noteq> qc_dataset (sw_address w)"
    and opened: "sql_begin S token Merge w = (Inr (), us_world st)"
    and run: "run_serial_write_phase policy (sqlserver_ops E S token) chunks st = (r, st')" and chunks: "chunks \<noteq> []"
  shows "let old = sv_committed (V (sw_client w)); new = sv_committed (V (sw_client (us_world st'))); keys = sw_merge_keys w in case r of
      Inr outcome \<Rightarrow> \<exists>bs incoming rows updated. chunks = map Inr bs \<and> committed_as E bs incoming
        \<and> merge_done val keys (batch_columns (hd bs)) old incoming new
        \<and> old = Some rows \<and> updated = size (matched_rows val keys rows incoming)
        \<and> wo_facts outcome = with_merge_counts (facts_atomic ''transactional_merge'') updated (size incoming - updated)
    | Inl (In_Session fail) \<Rightarrow> wx_committed_chunks fail = 0 \<and> (new = old
        \<or> (\<exists>bs incoming. chunks = map Inr bs \<and> committed_as E bs incoming
             \<and> merge_done val keys (batch_columns (hd bs)) old incoming new))
    | Inl (Before_Session fail) \<Rightarrow> False"
proof -
  let ?w0 = "us_world st" and ?D = "sqlserver_ops E S token" and ?old = "sv_committed (V (sw_client w))"
  have k: "sqlserver_keeps S V" using K by (simp add: sqlserver_contract_def)
  note b = begin_Inr [OF k opened]
  have t: "target_of ?w0 = (qc_schema (sw_address w), qc_dataset (sw_address w))"
    "stage_of ?w0 = (qc_schema (sw_address w), merge_stage_name token)" "sw_merge_keys ?w0 = sw_merge_keys w"
    using b by (simp_all add: target_of_def stage_of_def)
  have K': "sqlserver_keeps S V" "sqlserver_transacts S V" "sqlserver_bulks S V" "sqlserver_writes S V (target_of ?w0)"
    "sqlserver_stages S V (stage_of ?w0)" "sqlserver_merges S V val (target_of ?w0) (stage_of ?w0)"
    using K name unfolding t by (simp_all add: sqlserver_contract_def)
  have apart: "sw_stage ?w0 \<noteq> qc_dataset (sw_address ?w0)"
    using name t(1,2) by (simp add: target_of_def stage_of_def)
  define P where "P = sql_merging V E ?w0 ?old"
  have start: "P [] ?w0" using b by (simp add: P_def sql_merging_def)
  have step: "P (bs @ [b]) w''" if "P bs w'" "d_write_chunk ?D b w' = (Inr (), w'')" for bs b w' w''
    using that write_merging [OF K'(1-3,5)] by (simp add: P_def sqlserver_ops_def)
  have terminal: "wx_transience fail = Terminal" if "fst (d_write_chunk ?D b w') = Inl fail" for b w' fail
    using that by (simp add: sqlserver_ops_def write_chunk_terminal)
  have run': "run_serial_from policy ?D 0 chunks st = (r, st')" using run by (simp add: run_serial_write_phase_def)
  from step terminal run' start show ?thesis
  proof (rule serial_run_cases)
    fix bs st''
    assume c: "chunks = map Inr bs" "P ([] @ bs) (us_world st'')" "(r, st') = commit_session ?D (0 + length chunks) st''"
    then have p: "sql_merging V E ?w0 ?old bs (us_world st'')" "bs \<noteq> []" using chunks by (auto simp: P_def)
    obtain x w' where x: "sql_commit S (us_world st'') = (x, w')" by fastforce
    obtain incoming where i: "committed_as E bs incoming" "case x of
      Inr dw \<Rightarrow> merge_done val (sw_merge_keys w) (batch_columns (hd bs)) ?old incoming (sv_committed (V (sw_client w')))
        \<and> (\<exists>rows updated. ?old = Some rows \<and> updated = size (matched_rows val (sw_merge_keys w) rows incoming)
             \<and> dw_facts dw = with_merge_counts (facts_atomic ''transactional_merge'') updated (size incoming - updated))
    | Inl fail \<Rightarrow> wx_committed_chunks fail = 0 \<and> (sv_committed (V (sw_client w')) = ?old
        \<or> merge_done val (sw_merge_keys w) (batch_columns (hd bs)) ?old incoming (sv_committed (V (sw_client w'))))"
      using commit_merging [OF K'(1,2,4,5,6) apart p x] unfolding t(3) by blast
    show ?thesis
    proof (cases x)
      case (Inl fail)
      then have "r = Inl (In_Session fail)" "us_world st' = w'" using c(3) x by (auto simp: commit_session_def sqlserver_ops_def)
      then show ?thesis using i Inl c(1) by (auto simp: Let_def)
    next
      case (Inr dw)
      then obtain outcome where "r = Inr outcome" "wo_facts outcome = dw_facts dw" "us_world st' = w'"
        using c(3) x by (auto simp: commit_session_def sqlserver_ops_def)
      then show ?thesis using i Inr c(1) by (auto simp: Let_def)
    qed
  next
    fix bs w' src
    assume c: "take (length bs + 1) chunks = map Inr bs @ [Inl src]" "P ([] @ bs) w'"
      "r = Inl (In_Session \<lparr>wx_failure = src, wx_facts = aw_facts (fst (d_abandon ?D w')),
         wx_written_records = aw_written_records (fst (d_abandon ?D w')),
         wx_committed_chunks = aw_committed_chunks (fst (d_abandon ?D w')), wx_transience = Terminal\<rparr>)"
      "us_world st' = snd (d_abandon ?D w')"
    then show ?thesis
      using abandon_keeps [OF K'(1)] by (simp add: sqlserver_ops_def P_def sql_merging_def)
  next
    fix bs b w' w'' fail
    assume c: "take (length bs + 1) chunks = map Inr (bs @ [b])" "P ([] @ bs) w'" "d_write_chunk ?D b w' = (Inl fail, w'')"
      "r = Inl (In_Session fail)" "us_world st' = d_drop ?D w''"
    then show ?thesis
      using write_merging_failed [OF K'(1-3) K'(4) [unfolded target_of_def] K'(5), of E ?old bs w' b fail w''] drop_keeps [OF K'(1)]
      by (simp add: sqlserver_ops_def P_def)
  qed
qed

end
