(* ===== verification/Sqlserver_Reference.thy ===== *)
theory Sqlserver_Reference
  imports Sqlserver_Facts
begin

section \<open>A server that keeps the SQL Server contract\<close>

text \<open>
  One database with one table and one stage, as lists of rows: it reads every text it is given
  and runs what it reads on these two, by the meaning of the statements; a text or a statement it
  does not know it refuses. It keeps \<open>sqlserver_contract\<close>, so the contract can hold.
\<close>

record server_lists =
  sl_committed :: "sql_row list option"
  sl_working :: "sql_row list option"
  sl_stage :: "sql_row list option"
  sl_open :: bool
  sl_bulk :: "((string \<times> string) \<times> string list \<times> column_data list list) option"

definition server_view :: "server_lists \<Rightarrow> sql_view" where
  "server_view s = \<lparr>sv_committed = map_option mset (sl_committed s), sv_working = map_option mset (sl_working s),
     sv_stage = map_option mset (sl_stage s), sv_open = sl_open s, sv_bulk = sl_bulk s\<rparr>"

definition denied :: "'c \<Rightarrow> (string, 'a) result \<times> 'c" where
  "denied s = (Inl ''denied'', s)"

text \<open>The rows of a table named in a statement.\<close>

definition lists_of :: "string \<times> string \<Rightarrow> string \<times> string \<Rightarrow> sql_object \<Rightarrow> server_lists \<Rightarrow> sql_row list option" where
  "lists_of table stage ob s =
     (if ob = object_of table then (if sl_open s then sl_working s else sl_committed s)
      else if ob = object_of stage then sl_stage s else None)"

text \<open>The statements that change a table, in an open transaction.\<close>

definition ref_changes ::
  "(column_data option \<Rightarrow> 'v option) \<Rightarrow> string \<times> string \<Rightarrow> string \<times> string \<Rightarrow> sql_statement \<Rightarrow> server_lists
   \<Rightarrow> (string, column_data list list) result \<times> server_lists" where
  "ref_changes val table stage st s = (case st of
     Create_Columns ob \<Rightarrow>
       if ob = object_of table then (Inr [], s\<lparr>sl_working := Some []\<rparr>)
       else if ob = object_of stage then (Inr [], s\<lparr>sl_stage := Some []\<rparr>) else denied s
   | Delete_Rows ob \<Rightarrow> if ob = object_of table \<and> sl_working s \<noteq> None then (Inr [], s\<lparr>sl_working := Some []\<rparr>) else denied s
   | Drop_Table ob \<Rightarrow> if ob = object_of stage \<and> ob \<noteq> object_of table then (Inr [], s\<lparr>sl_stage := None\<rparr>) else denied s
   | Identity_Insert ob state \<Rightarrow> if ob = object_of table then (Inr [], s) else denied s
   | Merge_Rows ob a source b cond cs \<Rightarrow>
       if ob = object_of table \<and> source = object_of stage then
         (case (sl_working s, sl_stage s) of
            (Some old, Some incoming) \<Rightarrow> (Inr [], s\<lparr>sl_working := Some (merge_rows val None a b cond cs old incoming)\<rparr>)
          | _ \<Rightarrow> denied s)
       else denied s
   | _ \<Rightarrow> denied s)"

definition ref_answers ::
  "(column_data option \<Rightarrow> 'v option) \<Rightarrow> string \<times> string \<Rightarrow> string \<times> string \<Rightarrow> column_data list list \<Rightarrow> sql_statement \<Rightarrow> server_lists
   \<Rightarrow> (string, column_data list list) result \<times> server_lists" where
  "ref_answers val table stage catalog st s = (case st of
     Begin_Transaction \<Rightarrow> (Inr [], s\<lparr>sl_working := sl_committed s, sl_open := True\<rparr>)
   | Commit_Transaction \<Rightarrow>
       if sl_open s then (Inr [], s\<lparr>sl_committed := sl_working s, sl_open := False\<rparr>) else denied s
   | Rollback_Transaction \<Rightarrow> (Inr [], s\<lparr>sl_working := None, sl_open := False\<rparr>)
   | Other_Select \<Rightarrow> (Inr (if sl_committed s = None then [] else catalog), s)
   | Select_Groups m ob ns op k \<Rightarrow>
       (case lists_of table stage ob s of
          None \<Rightarrow> denied s
        | Some rows \<Rightarrow> (Inr (replicate (min m (group_count val ns op k rows)) []), s))
   | _ \<Rightarrow> if sl_open s then ref_changes val table stage st s else denied s)"

definition ref_query ::
  "(column_data option \<Rightarrow> 'v option) \<Rightarrow> string \<times> string \<Rightarrow> string \<times> string \<Rightarrow> column_data list list \<Rightarrow> string \<Rightarrow> server_lists
   \<Rightarrow> (string, column_data list list) result \<times> server_lists" where
  "ref_query val table stage catalog sql s = (case read_server sql of
     None \<Rightarrow> denied s | Some st \<Rightarrow> ref_answers val table stage catalog st s)"

definition ref_counts ::
  "(column_data option \<Rightarrow> 'v option) \<Rightarrow> string \<times> string \<Rightarrow> string \<times> string \<Rightarrow> string \<Rightarrow> server_lists
   \<Rightarrow> (string, nat \<times> nat) result \<times> server_lists" where
  "ref_counts val table stage sql s = (case read_server sql of
     Some (Count_Flagged ob a other b cond k x y) \<Rightarrow>
       (case (lists_of table stage ob s, lists_of table stage other s) of
          (Some rows, Some others) \<Rightarrow> (Inr (flagged_count val a b cond k x y rows others), s)
        | _ \<Rightarrow> denied s)
   | _ \<Rightarrow> denied s)"

definition ref_bulk :: "string \<Rightarrow> string list \<Rightarrow> server_lists \<Rightarrow> (string, unit) result \<times> server_lists" where
  "ref_bulk q columns s = (case read_object q of
     Some (name, []) \<Rightarrow> (Inr (), s\<lparr>sl_bulk := Some (name, columns, [])\<rparr>) | _ \<Rightarrow> denied s)"

definition ref_send :: "column_data list \<Rightarrow> server_lists \<Rightarrow> (string, unit) result \<times> server_lists" where
  "ref_send row s = (case sl_bulk s of
     None \<Rightarrow> denied s | Some (name, columns, vs) \<Rightarrow> (Inr (), s\<lparr>sl_bulk := Some (name, columns, vs @ [row])\<rparr>))"

definition ref_finalize ::
  "string \<times> string \<Rightarrow> string \<times> string \<Rightarrow> server_lists \<Rightarrow> (string, unit) result \<times> server_lists" where
  "ref_finalize table stage s = (case sl_bulk s of
     None \<Rightarrow> denied s
   | Some (name, columns, vs) \<Rightarrow>
       let rows = map (wire_row columns) vs in
       if name = table \<and> sl_open s then
         (case sl_working s of None \<Rightarrow> denied s
          | Some old \<Rightarrow> (Inr (), s\<lparr>sl_working := Some (old @ rows), sl_bulk := None\<rparr>))
       else if name = table then
         (case sl_committed s of None \<Rightarrow> denied s
          | Some old \<Rightarrow> (Inr (), s\<lparr>sl_committed := Some (old @ rows), sl_bulk := None\<rparr>))
       else if name = stage then
         (case sl_stage s of None \<Rightarrow> denied s
          | Some old \<Rightarrow> (Inr (), s\<lparr>sl_stage := Some (old @ rows), sl_bulk := None\<rparr>))
       else denied s)"

definition reference_sqlserver ::
  "(column_data option \<Rightarrow> 'v option) \<Rightarrow> string \<Rightarrow> string \<Rightarrow> string \<Rightarrow> column_data list list \<Rightarrow> server_lists sqlserver" where
  "reference_sqlserver val schema_name name stage catalog =
     \<lparr>ss_runtime = (\<lambda>s. (Inr (), s)), ss_variable = (\<lambda>_. Some ''secret''),
      ss_tcp_connect = (\<lambda>_ _ s. (Some (Inr ()), s)), ss_set_nodelay = (\<lambda>s. (Inr (), s)),
      ss_client_connect = (\<lambda>_ s. (Some (Inr ()), s\<lparr>sl_open := False\<rparr>)),
      ss_query = ref_query val (schema_name, name) (schema_name, stage) catalog,
      ss_counts = ref_counts val (schema_name, name) (schema_name, stage),
      ss_bulk_insert = ref_bulk, ss_send = ref_send, ss_finalize = ref_finalize (schema_name, name) (schema_name, stage),
      ss_drop = (\<lambda>s. s\<lparr>sl_working := None, sl_stage := None, sl_open := False, sl_bulk := None\<rparr>)\<rparr>"

subsection \<open>The contract\<close>

lemma server_view_sel [simp]:
  "sv_committed (server_view s) = map_option mset (sl_committed s)" "sv_working (server_view s) = map_option mset (sl_working s)"
  "sv_stage (server_view s) = map_option mset (sl_stage s)" "sv_open (server_view s) = sl_open s"
  "sv_bulk (server_view s) = sl_bulk s"
  by (simp_all add: server_view_def)

lemma server_view_updates:
  "server_view (s\<lparr>sl_committed := c\<rparr>) = (server_view s)\<lparr>sv_committed := map_option mset c\<rparr>"
  "server_view (s\<lparr>sl_working := c\<rparr>) = (server_view s)\<lparr>sv_working := map_option mset c\<rparr>"
  "server_view (s\<lparr>sl_stage := c\<rparr>) = (server_view s)\<lparr>sv_stage := map_option mset c\<rparr>"
  "server_view (s\<lparr>sl_open := o'\<rparr>) = (server_view s)\<lparr>sv_open := o'\<rparr>"
  "server_view (s\<lparr>sl_bulk := b\<rparr>) = (server_view s)\<lparr>sv_bulk := b\<rparr>"
  by (simp_all add: server_view_def)

lemma reference_server_sel [simp]:
  "ss_runtime (reference_sqlserver val a n g catalog) s = (Inr (), s)"
  "ss_tcp_connect (reference_sqlserver val a n g catalog) host port s = (Some (Inr ()), s)"
  "ss_set_nodelay (reference_sqlserver val a n g catalog) s = (Inr (), s)"
  "ss_client_connect (reference_sqlserver val a n g catalog) config s = (Some (Inr ()), s\<lparr>sl_open := False\<rparr>)"
  "ss_query (reference_sqlserver val a n g catalog) = ref_query val (a, n) (a, g) catalog"
  "ss_counts (reference_sqlserver val a n g catalog) = ref_counts val (a, n) (a, g)"
  "ss_bulk_insert (reference_sqlserver val a n g catalog) = ref_bulk"
  "ss_send (reference_sqlserver val a n g catalog) = ref_send"
  "ss_finalize (reference_sqlserver val a n g catalog) = ref_finalize (a, n) (a, g)"
  "ss_drop (reference_sqlserver val a n g catalog) s =
     s\<lparr>sl_working := None, sl_stage := None, sl_open := False, sl_bulk := None\<rparr>"
  by (simp_all add: reference_sqlserver_def)

lemma lists_of_rows: "server_rows table stage ob (server_view s) = map_option mset (lists_of table stage ob s)"
  by (simp add: server_rows_def lists_of_def)

lemma ref_changes_committed: "sl_committed (snd (ref_changes val table stage st s)) = sl_committed s"
  by (simp add: ref_changes_def denied_def split: sql_statement.split option.split)

lemma ref_answers_committed:
  "st \<noteq> Commit_Transaction \<Longrightarrow> sl_committed (snd (ref_answers val table stage catalog st s)) = sl_committed s"
  by (simp add: ref_answers_def denied_def ref_changes_committed split: sql_statement.split option.split)

lemma ref_answers_looks: "only_looks st \<Longrightarrow> snd (ref_answers val table stage catalog st s) = s"
  by (cases st) (simp_all add: ref_answers_def denied_def ref_changes_def split: option.split)

lemma ref_counts_looks: "snd (ref_counts val table stage sql s) = s"
  by (simp add: ref_counts_def denied_def split: sql_statement.split option.split)

lemma reference_server_keeps: "sqlserver_keeps (reference_sqlserver val a n g catalog) server_view"
  unfolding sqlserver_keeps_def
  by (simp add: ref_query_def ref_answers_committed ref_answers_looks ref_counts_looks ref_bulk_def ref_send_def denied_def
      split: option.splits list.splits)

lemma reference_server_transacts: "sqlserver_transacts (reference_sqlserver val a n g catalog) server_view"
  by (auto simp: sqlserver_transacts_def ref_query_def ref_answers_def server_view_updates denied_def split: if_splits)

lemma reference_server_bulks: "sqlserver_bulks (reference_sqlserver val a n g catalog) server_view"
  by (auto simp: sqlserver_bulks_def ref_bulk_def ref_send_def denied_def server_view_updates split: option.splits list.splits)

lemma reference_server_writes: "sqlserver_writes (reference_sqlserver val a n g catalog) server_view (a, n)"
  unfolding sqlserver_writes_def reference_server_sel
proof (intro conjI allI impI)
  fix sql st c rs c' assume q: "read_server sql = Some st" "ref_query val (a, n) (a, g) catalog sql c = (Inr rs, c')"
  note step = q(2) [unfolded ref_query_def q(1) option.case]
  show "server_view c' = (server_view c)\<lparr>sv_working := Some {#}\<rparr>"
    if "st = Create_Columns (object_of (a, n))"
    using step that by (auto simp: ref_answers_def ref_changes_def server_view_updates denied_def split: if_splits)
  show "sv_working (server_view c) \<noteq> None" "server_view c' = (server_view c)\<lparr>sv_working := Some {#}\<rparr>"
    if "st = Delete_Rows (object_of (a, n))"
    using step that by (auto simp: ref_answers_def ref_changes_def server_view_updates denied_def split: if_splits)
  show "server_view c' = server_view c" if "st = Identity_Insert (object_of (a, n)) state" for state
    using step that by (auto simp: ref_answers_def ref_changes_def denied_def split: if_splits)
next
  fix columns' vs c c'
  assume b: "sv_bulk (server_view c) = Some ((a, n), columns', vs)" "ref_finalize (a, n) (a, g) c = (Inr (), c')"
  show "if sv_open (server_view c) then sv_working (server_view c) \<noteq> None
      \<and> server_view c' = (server_view c)\<lparr>sv_working := add_rows (sent_rows columns' vs) (sv_working (server_view c)), sv_bulk := None\<rparr>
    else sv_committed (server_view c) \<noteq> None
      \<and> server_view c' = (server_view c)\<lparr>sv_committed := add_rows (sent_rows columns' vs) (sv_committed (server_view c)), sv_bulk := None\<rparr>"
    using b by (auto simp: ref_finalize_def denied_def server_view_updates add_rows_def sent_rows_def Let_def split: option.splits if_splits)
next
  fix columns' vs c e c'
  assume "sv_bulk (server_view c) = Some ((a, n), columns', vs)" "ref_finalize (a, n) (a, g) c = (Inl e, c')"
  then show "sv_committed (server_view c') = sv_committed (server_view c)
    \<or> \<not> sv_open (server_view c) \<and> sv_committed (server_view c') = add_rows (sent_rows columns' vs) (sv_committed (server_view c))"
    by (auto simp: ref_finalize_def denied_def Let_def split: option.splits if_splits)
qed

lemma reference_server_stages:
  assumes "g \<noteq> n"
  shows "sqlserver_stages (reference_sqlserver val a n g catalog) server_view (a, g)"
  unfolding sqlserver_stages_def reference_server_sel
proof (intro conjI allI impI)
  fix sql st c rs c' assume q: "read_server sql = Some st" "ref_query val (a, n) (a, g) catalog sql c = (Inr rs, c')"
  note step = q(2) [unfolded ref_query_def q(1) option.case]
  show "server_view c' = (server_view c)\<lparr>sv_stage := Some {#}\<rparr>" if "st = Create_Columns (object_of (a, g))"
    using step that assms by (auto simp: ref_answers_def ref_changes_def server_view_updates denied_def split: if_splits)
  show "server_view c' = (server_view c)\<lparr>sv_stage := None\<rparr>" if "st = Drop_Table (object_of (a, g))"
    using step that assms by (auto simp: ref_answers_def ref_changes_def server_view_updates denied_def split: if_splits)
next
  fix columns' vs c c'
  assume b: "sv_bulk (server_view c) = Some ((a, g), columns', vs)" "ref_finalize (a, n) (a, g) c = (Inr (), c')"
  show "sv_stage (server_view c) \<noteq> None"
    "server_view c' = (server_view c)\<lparr>sv_stage := add_rows (sent_rows columns' vs) (sv_stage (server_view c)), sv_bulk := None\<rparr>"
    using b assms by (auto simp: ref_finalize_def denied_def server_view_updates add_rows_def sent_rows_def Let_def split: option.splits if_splits)
next
  fix columns' vs c e c'
  assume "sv_bulk (server_view c) = Some ((a, g), columns', vs)" "ref_finalize (a, n) (a, g) c = (Inl e, c')"
  then show "sv_committed (server_view c') = sv_committed (server_view c)"
    by (auto simp: ref_finalize_def denied_def Let_def split: option.splits if_splits)
qed

lemma reference_server_merges:
  assumes "g \<noteq> n"
  shows "sqlserver_merges (reference_sqlserver val a n g catalog) server_view val (a, n) (a, g)"
  unfolding sqlserver_merges_def reference_server_sel
proof (intro conjI allI impI)
  fix sql st assume q: "read_server sql = Some st"
  fix m ob ns op k c rs c'
  assume "st = Select_Groups m ob ns op k" "ref_query val (a, n) (a, g) catalog sql c = (Inr rs, c')"
  then show "\<exists>rows. server_rows (a, n) (a, g) ob (server_view c) = Some (mset rows) \<and> length rs = min m (group_count val ns op k rows)"
    using q by (auto simp: ref_query_def ref_answers_def lists_of_rows denied_def split: option.splits)
next
  fix sql st assume q: "read_server sql = Some st"
  fix ob x other y cond k i j c counts c'
  assume "st = Count_Flagged ob x other y cond k i j" "ref_counts val (a, n) (a, g) sql c = (Inr counts, c')"
  then show "\<exists>rows others. server_rows (a, n) (a, g) ob (server_view c) = Some (mset rows)
      \<and> server_rows (a, n) (a, g) other (server_view c) = Some (mset others) \<and> counts = flagged_count val x y cond k i j rows others"
    using q by (auto simp: ref_counts_def lists_of_rows denied_def split: option.splits)
next
  fix sql st assume q: "read_server sql = Some st"
  fix x y cond cs c rs c'
  assume "st = Merge_Rows (object_of (a, n)) x (object_of (a, g)) y cond cs" "ref_query val (a, n) (a, g) catalog sql c = (Inr rs, c')"
  then obtain old incoming where "sl_working c = Some old" "sl_stage c = Some incoming"
    "c' = c\<lparr>sl_working := Some (merge_rows val None x y cond cs old incoming)\<rparr>"
    using q by (auto simp: ref_query_def ref_answers_def ref_changes_def denied_def split: option.splits if_splits)
  then show "\<exists>old incoming. sv_working (server_view c) = Some (mset old) \<and> sv_stage (server_view c) = Some (mset incoming)
      \<and> server_view c' = (server_view c)\<lparr>sv_working := Some (mset (merge_rows val None x y cond cs old incoming))\<rparr>"
    by (intro exI [of _ old] exI [of _ incoming]) (simp add: server_view_updates)
qed

lemma reference_sqlserver_contract:
  "sqlserver_contract (reference_sqlserver val a n g catalog) server_view val a n g"
  unfolding sqlserver_contract_def
  by (intro conjI impI reference_server_keeps reference_server_transacts reference_server_bulks reference_server_writes
      reference_server_stages reference_server_merges)

end
