(* ===== verification/Sqlserver_Created.thy ===== *)
theory Sqlserver_Created
  imports Sqlserver_Rows
begin

section \<open>The table a full refresh creates\<close>

text \<open>
  What SQL Server's catalog says of a table that \<open>CREATE TABLE\<close> made, for the column types that
  the source writes: the lower-case type name, precision, scale and size in bytes, no identity and
  no default. The shape that the catalog gives is accepted for the schema the table was created for.
\<close>

definition catalog_type :: "string \<Rightarrow> (string \<times> nat \<times> nat \<times> int) option" where
  "catalog_type t =
     (if t = ''BIGINT'' then Some (''bigint'', 19, 0, 8)
      else if t = ''FLOAT(53)'' then Some (''float'', 53, 0, 8)
      else if t = ''BIT'' then Some (''bit'', 1, 0, 1)
      else if t = ''NVARCHAR(MAX)'' then Some (''nvarchar'', 0, 0, - 1)
      else if t = ''DATETIME2(6)'' then Some (''datetime2'', 26, 6, 8)
      else case strip_prefix ''DECIMAL('' t of
        None \<Rightarrow> None
      | Some t \<Rightarrow> (case split_once (CHR '','') t of
          None \<Rightarrow> None
        | Some (p, t) \<Rightarrow> (case split_once (CHR '')'') t of
            None \<Rightarrow> None
          | Some (s, _) \<Rightarrow> let prec = digits_value p in
              Some (''decimal'', prec, digits_value s,
                if prec \<le> 9 then 5 else if prec \<le> 19 then 9 else if prec \<le> 28 then 13 else 17))))"

definition catalogued :: "string \<times> string \<times> bool \<Rightarrow> table_column option" where
  "catalogued c = (case c of (name, ctype, nullable) \<Rightarrow>
     map_option (\<lambda>(tname, prec, sc, bytes).
       \<lparr>tc_name = name, tc_type_name = tname, tc_precision = prec, tc_scale = sc, tc_max_length = bytes,
        tc_nullable = nullable, tc_identity = False, tc_has_default = False\<rparr>) (catalog_type ctype))"

definition created_shape :: "string \<Rightarrow> ((string \<times> string) \<times> table_shape) option" where
  "created_shape sql = (case read_create_table sql of
     None \<Rightarrow> None
   | Some (name, columns) \<Rightarrow>
       if list_all (\<lambda>c. catalogued c \<noteq> None) columns then Some (name, map (the \<circ> catalogued) columns) else None)"

text \<open>The catalog's row of a column.\<close>

definition catalog_cells :: "table_column \<Rightarrow> column_data list" where
  "catalog_cells column =
     [CD_String (Some (tc_name column)), CD_String (Some (tc_type_name column)), CD_U8 (Some (int (tc_precision column))),
      CD_U8 (Some (int (tc_scale column))), CD_I16 (Some (tc_max_length column)), CD_Bit (Some (tc_nullable column)),
      CD_Bit (Some (tc_identity column)), CD_Bit (Some (tc_has_default column))]"

lemma catalog_cells_read: "from_catalog_rows (map catalog_cells shape) = Inr shape"
  unfolding from_catalog_rows_def traverse_Inr_iff
  by (auto simp: list_all2_conv_all_nth catalog_column_def catalog_cells_def)

lemma catalog_type_ddl:
  "catalog_type (ddl ctype) = Some (case ctype of
     CT_BigInt \<Rightarrow> (''bigint'', 19, 0, 8)
   | CT_Float53 \<Rightarrow> (''float'', 53, 0, 8)
   | CT_Bit \<Rightarrow> (''bit'', 1, 0, 1)
   | CT_NvarcharMax \<Rightarrow> (''nvarchar'', 0, 0, - 1)
   | CT_DateTime2Micros \<Rightarrow> (''datetime2'', 26, 6, 8)
   | CT_Decimal prec sc \<Rightarrow> (''decimal'', prec, sc,
       if prec \<le> 9 then 5 else if prec \<le> 19 then 9 else if prec \<le> 28 then 13 else 17))"
proof (cases ctype)
  case (CT_Decimal prec sc)
  have "\<not> is_ascii_digit (CHR '','')" "\<not> is_ascii_digit (CHR '')'')" by code_simp+
  then have "split_once (CHR '','') (show_nat prec @ CHR '','' # show_nat sc @ '')'') = Some (show_nat prec, show_nat sc @ '')'')"
    "split_once (CHR '')'') (show_nat sc @ [CHR '')'']) = Some (show_nat sc, [])"
    by (simp_all add: split_once_append show_nat_no_sep)
  then show ?thesis using CT_Decimal by (simp add: catalog_type_def strip_prefix_def Let_def)
qed (simp_all add: catalog_type_def)

lemma created_shape_read:
  assumes "create_table_ddl E dataset schema_name name = Inr sql"
  obtains shape where "created_shape sql = Some ((schema_name, name), shape)"
    "list_all2 (\<lambda>field column. \<exists>ctype. from_arrow E field = Inr ctype
       \<and> catalogued (af_name field, ddl ctype, af_nullable field) = Some column) dataset shape"
proof -
  obtain types where t: "list_all2 (\<lambda>field ctype. from_arrow E field = Inr ctype) dataset types"
    and r: "read_create_table sql = Some ((schema_name, name),
        map2 (\<lambda>field ctype. (af_name field, ddl ctype, af_nullable field)) dataset types)"
    using create_table_ddl_reads_back [OF assms] by blast
  let ?columns = "map2 (\<lambda>field ctype. (af_name field, ddl ctype, af_nullable field)) dataset types"
  have all: "catalogued c \<noteq> None" if "c \<in> set ?columns" for c
    using that by (auto simp: catalogued_def catalog_type_ddl)
  have "created_shape sql = Some ((schema_name, name), map (the \<circ> catalogued) ?columns)"
    using r all by (simp add: created_shape_def list_all_iff del: map_map)
  moreover have "list_all2 (\<lambda>field column. \<exists>ctype. from_arrow E field = Inr ctype
      \<and> catalogued (af_name field, ddl ctype, af_nullable field) = Some column) dataset (map (the \<circ> catalogued) ?columns)"
    using t by (auto simp: list_all2_conv_all_nth catalogued_def catalog_type_ddl)
  ultimately show ?thesis using that by blast
qed

lemma catalogued_accepts:
  "from_arrow E field = Inr ctype \<Longrightarrow> catalogued (af_name field, ddl ctype, af_nullable field) = Some column \<Longrightarrow>
     accepts_field E mode keys rounding field column"
  by (auto simp: accepts_field_def accepted_type_def catalogued_def catalog_type_ddl split: sql_column_type.splits)

text \<open>Every later load of that schema finds the table valid, in every mode.\<close>

lemma created_accepts:
  assumes "list_all2 (\<lambda>field column. \<exists>ctype. from_arrow E field = Inr ctype
      \<and> catalogued (af_name field, ddl ctype, af_nullable field) = Some column) dataset shape"
    and "distinct (map af_name dataset)"
  shows "map tc_name shape = map af_name dataset" "validate_shape E shape dataset mode keys rounding = Inr ()"
proof -
  show names: "map tc_name shape = map af_name dataset"
    using assms(1) by (induction rule: list_all2_induct) (auto simp: catalogued_def)
  have accepts: "accepts_field E mode keys rounding (dataset ! i) (shape ! i)" if i: "i < length dataset" for i
    using assms(1) i catalogued_accepts by (auto simp: list_all2_conv_all_nth)
  have found: "List.find (\<lambda>column. tc_name column = af_name (dataset ! i)) shape = Some (shape ! i)" if i: "i < length dataset" for i
  proof -
    have d: "distinct (map tc_name shape)" "length shape = length dataset" using assms(2) names by (metis, metis length_map)
    have n: "tc_name (shape ! i) = af_name (dataset ! i)" using names d(2) i by (metis nth_map)
    have "tc_name (shape ! j) \<noteq> tc_name (shape ! i)" if "j < i" for j
      using d i that by (auto simp: distinct_conv_nth)
    then show ?thesis
      unfolding find_Some_iff using d i n by (intro exI [of _ i]) simp
  qed
  have "\<exists>column. List.find (\<lambda>column. tc_name column = af_name field) shape = Some column
      \<and> accepts_field E mode keys rounding field column" if "field \<in> set dataset" for field
    using that accepts found by (auto simp: in_set_conv_nth)
  moreover have "tc_name column \<in> af_name ` set dataset" if "column \<in> set shape" for column
    using that names by (metis image_eqI image_set)
  ultimately show "validate_shape E shape dataset mode keys rounding = Inr ()"
    by (simp add: validate_shape_Inr_iff)
qed

end
