(* ===== verification/Parquet_Append.thy ===== *)
theory Parquet_Append
  imports Table_Rows Serial_Runs Parquet_Full_Refresh
begin

section \<open>What a Parquet append leaves in its directory\<close>

text \<open>
  The parts a reader of the directory finds are its \<open>.parquet\<close> files. A run adds one for each
  chunk it wrote, with the chunk's rows in the columns of the existing parts, and touches no other.
\<close>

definition visible_parts :: "record_batch directory \<Rightarrow> record_batch directory" where
  "visible_parts files = (\<lambda>name. if is_parquet_name name then files name else None)"

text \<open>
  \<open>parts_added bs old new\<close>: the parts of \<open>new\<close> are those of \<open>old\<close> and one for each batch of \<open>bs\<close>,
  under names that were free.
\<close>

definition parts_added :: "record_batch list \<Rightarrow> record_batch directory \<Rightarrow> record_batch directory \<Rightarrow> bool" where
  "parts_added bs old new \<longleftrightarrow> (\<exists>names parts. distinct names \<and> length names = length parts
     \<and> set names \<inter> dom (visible_parts old) = {} \<and> list_all2 (\<lambda>b p. batch_rows p = batch_rows b) bs parts
     \<and> visible_parts new = (visible_parts old)(names [\<mapsto>] map Complete parts))"

lemma part_name_parquet [simp]: "is_parquet_name (part_name t)"
  by (simp add: is_parquet_name_def part_name_def)

lemma staging_name_hidden [simp]: "\<not> is_parquet_name (staging_name t)"
proof -
  have "staging_name t = (''.part-'' @ t @ ''.data-spark-sta'') @ ''ging.tmp''" by (simp add: staging_name_def)
  then have "drop (length (staging_name t) - 8) (staging_name t) = ''ging.tmp''" by (simp del: append_assoc)
  then show ?thesis by (simp add: is_parquet_name_def)
qed

lemma visible_parts_upd:
  "visible_parts (files(staging_name t := c)) = visible_parts files"
  "visible_parts (files(part_name t := c)) = (visible_parts files)(part_name t := c)"
  by (auto simp: visible_parts_def)

subsection \<open>The rows of a directory\<close>

definition parts_rows :: "record_batch directory \<Rightarrow> row multiset" where
  "parts_rows parts = (\<Sum>name\<in>dom parts. case parts name of Some (Complete b) \<Rightarrow> batch_rows b | _ \<Rightarrow> {#})"

text \<open>What a reader of all \<open>.parquet\<close> files of a directory finds.\<close>

definition directory_rows :: "record_batch directory \<Rightarrow> row multiset" where
  "directory_rows files = parts_rows (visible_parts files)"

lemma parts_rows_upd:
  assumes "finite (dom parts)" "name \<notin> dom parts"
  shows "parts_rows (parts(name \<mapsto> Complete b)) = parts_rows parts + batch_rows b"
proof -
  have "(\<Sum>n\<in>dom parts. case (parts(name \<mapsto> Complete b)) n of Some (Complete b) \<Rightarrow> batch_rows b | _ \<Rightarrow> {#})
      = (\<Sum>n\<in>dom parts. case parts n of Some (Complete b) \<Rightarrow> batch_rows b | _ \<Rightarrow> {#})"
    using assms(2) by (intro sum.cong) auto
  then show ?thesis using assms by (simp add: parts_rows_def add.commute)
qed

lemma parts_rows_upds:
  assumes "length names = length parts" "finite (dom m)" "distinct names" "set names \<inter> dom m = {}"
  shows "parts_rows (m(names [\<mapsto>] map Complete parts)) = parts_rows m + sum_list (map batch_rows parts)"
  using assms by (induction names parts arbitrary: m rule: list_induct2) (auto simp: parts_rows_upd ac_simps)

lemma parts_added_rows:
  assumes "parts_added bs old new" "finite (dom (visible_parts old))"
  shows "directory_rows new = directory_rows old + batches_rows bs"
proof -
  obtain names parts where p: "distinct names" "length names = length parts" "set names \<inter> dom (visible_parts old) = {}"
    "list_all2 (\<lambda>b p. batch_rows p = batch_rows b) bs parts" "visible_parts new = (visible_parts old)(names [\<mapsto>] map Complete parts)"
    using assms(1) by (auto simp: parts_added_def)
  have "map batch_rows parts = map batch_rows bs" using p(4) by (auto simp: list_all2_conv_all_nth intro: nth_equalityI)
  then show ?thesis
    using parts_rows_upds [OF p(2) assms(2) p(1,3)] by (simp add: directory_rows_def p(5) batches_rows_def)
qed

lemma part_file_parquet [simp]: "is_parquet_name (part_file n)"
  by (simp add: is_parquet_name_def part_file_def)

lemma visible_parts_of: "visible_parts (parts_of bs) = parts_of bs"
proof
  fix name
  have "parts_of bs name = None" if "\<not> is_parquet_name name"
    unfolding parts_of_def using that by (subst map_of_eq_None_iff) (auto dest!: set_zip_leftD)
  then show "visible_parts (parts_of bs) name = parts_of bs name" by (simp add: visible_parts_def)
qed

lemma parts_of_rows: "directory_rows (parts_of bs) = batches_rows bs"
proof (induction bs rule: rev_induct)
  case Nil
  then show ?case by (simp add: directory_rows_def visible_parts_of) (simp add: parts_of_def parts_rows_def)
next
  case (snoc b bs)
  have "finite (dom (parts_of bs))" "part_file (length bs) \<notin> dom (parts_of bs)"
    by (auto simp: parts_of_def finite_dom_map_of)
  then show ?case using snoc unfolding directory_rows_def visible_parts_of by (simp add: parts_of_snoc parts_rows_upd)
qed

subsection \<open>Opening\<close>

lemma common_schema_dirs: "fs_dirs (snd (common_schema path files schema names f)) = fs_dirs f"
  by (induction path files schema names f rule: common_schema.induct)
    (auto simp: tick_def split: option.splits file_content.splits)

lemma existing_schema_dirs: "existing_parquet_schema read_dir path f = (r, f') \<Longrightarrow> fs_dirs f' = fs_dirs f"
  using common_schema_dirs
  by (auto simp: existing_parquet_schema_def tick_def Let_def split: option.splits) (metis fs.select_convs(1) snd_conv fs.surjective fs.update_convs(4))+

lemma append_begin_files:
  assumes "append_begin read_dir w = (r, w')"
  shows "dest_files w' = dest_files w" "pa_token w' = pa_token w" "pa_next w' = pa_next w"
    "pa_destination_path w' = pa_destination_path w"
    "is_ok r \<Longrightarrow> fs_dirs (pa_fs w') (pa_destination_path w) \<noteq> None \<and> pa_committed_chunks w' = 0 \<and> pa_written_records w' = 0"
proof -
  obtain x f where x: "fs_create_dir_all (pa_destination_path w) (pa_fs w) = (x, f)" by fastforce
  obtain y f' where y: "existing_parquet_schema read_dir (pa_destination_path w) f = (y, f')" by fastforce
  have d: "(case fs_dirs f (pa_destination_path w) of Some files \<Rightarrow> files | None \<Rightarrow> Map.empty) = dest_files w"
    using x by (auto simp: dest_files_def fs_create_dir_all_def tick_def split: option.splits if_splits)
  note s = existing_schema_dirs [OF y] and c = create_dir_all_effect [OF x]
  show "dest_files w' = dest_files w" "pa_token w' = pa_token w" "pa_next w' = pa_next w"
    "pa_destination_path w' = pa_destination_path w"
    "is_ok r \<Longrightarrow> fs_dirs (pa_fs w') (pa_destination_path w) \<noteq> None \<and> pa_committed_chunks w' = 0 \<and> pa_written_records w' = 0"
    using assms x y d s c
    by (auto simp: append_begin_def dest_files_def [of w'] split: sum.splits)
qed

subsection \<open>Writing\<close>

lemma align_parquet_rows:
  assumes a: "align_batch_to_destination_schema A path b dest = Inr a" and d: "distinct (map af_name dest)"
    and b: "rectangular b"
  shows "batch_rows a = batch_rows b \<and> rb_rows a = rb_rows b"
proof -
  obtain columns where c: "length (rb_schema b) = length dest" "traverse (align_field path b) dest = Inr columns"
    "a = \<lparr>rb_schema = dest, rb_columns = columns\<rparr>"
    using a by (auto simp: align_batch_to_destination_schema_def rbind_eq_Inr_iff rmap_eq_Inr_iff split: if_splits)
  have l: "list_all2 (\<lambda>x y. align_field path b x = Inr y) dest columns" using c(2) by (simp add: traverse_Inr_iff)
  have "\<exists>i. index_of (rb_schema b) (af_name (dest ! j)) = Some i \<and> rb_columns a ! j = rb_columns b ! i" if "j < length dest" for j
  proof -
    have "align_field path b (dest ! j) = Inr (rb_columns a ! j)" using l c(3) that by (simp add: list_all2_conv_all_nth)
    then show ?thesis by (auto simp: align_field_def Let_def split: option.splits if_splits)
  qed
  then show ?thesis
    using by_name_keeps_rows [OF _ c(1) _ _ d b, of a] c(3) l by (simp add: list_all2_lengthD)
qed

definition appending_parts :: "append_world \<Rightarrow> record_batch list \<Rightarrow> append_world \<Rightarrow> bool" where
  "appending_parts w0 bs w \<longleftrightarrow> pa_destination_path w = pa_destination_path w0
     \<and> pa_destination_schema w = pa_destination_schema w0 \<and> pa_token w = pa_token w0
     \<and> pa_next w = pa_next w0 + length bs \<and> pa_committed_chunks w = length bs
     \<and> fs_dirs (pa_fs w) (pa_destination_path w0) \<noteq> None
     \<and> (\<exists>parts. list_all2 (\<lambda>b p. batch_rows p = batch_rows b) bs parts
          \<and> visible_parts (dest_files w) = (visible_parts (dest_files w0))
              (map (\<lambda>i. part_name (pa_token w0 i)) [pa_next w0..<pa_next w0 + length bs] [\<mapsto>] map Complete parts))"

text \<open>What one write does to the visible parts, on every path through it.\<close>

lemma dest_files_at: "fs_dirs (pa_fs w) (pa_destination_path w) = Some files \<Longrightarrow> dest_files w = files"
  by (simp add: dest_files_def)

lemma append_write_parts:
  assumes dir: "fs_dirs (pa_fs w) (pa_destination_path w) \<noteq> None" and step: "append_write_chunk A e b w = (r, w')"
  shows "pa_destination_path w' = pa_destination_path w \<and> pa_destination_schema w' = pa_destination_schema w
    \<and> pa_token w' = pa_token w \<and> fs_dirs (pa_fs w') (pa_destination_path w) \<noteq> None
    \<and> (case r of
        Inl fail \<Rightarrow> visible_parts (dest_files w') = visible_parts (dest_files w) \<and> wx_transience fail = Terminal
          \<and> pa_committed_chunks w' = pa_committed_chunks w
          \<and> wx_committed_chunks fail = pa_committed_chunks w
      | Inr _ \<Rightarrow> pa_next w' = pa_next w + 1 \<and> pa_committed_chunks w' = pa_committed_chunks w + 1
          \<and> (\<exists>a. append_batch A w b = Inr a \<and> visible_parts (dest_files w')
               = (visible_parts (dest_files w))(part_name (pa_token w (pa_next w)) \<mapsto> Complete a)))"
proof (cases "append_batch A w b")
  case (Inl fail)
  then show ?thesis
    using step dir by (auto simp: append_write_chunk_def chunk_failure_def write_failure_from_def)
next
  case (Inr aligned)
  let ?dir = "pa_destination_path w" and ?t = "pa_token w (pa_next w)"
  have some: "fs_dirs (pa_fs w) ?dir = Some (dest_files w)" using dir by (auto simp: dest_files_def)
  obtain wr f1 where wp: "write_parquet_batch e ?dir (staging_name ?t) aligned (pa_fs w) = (wr, f1)" by fastforce
  obtain c where c: "fs_dirs f1 ?dir = Some ((dest_files w)(staging_name ?t := c))"
    and cc: "is_ok wr \<longrightarrow> c = Some (Complete aligned)"
    using write_parquet_effect [OF some wp] by auto
  have cleared: "\<exists>c'. fs_dirs (snd (remove_file_if_exists ?dir (staging_name ?t) f)) ?dir = Some ((dest_files w)(staging_name ?t := c'))"
    if "fs_dirs f ?dir = Some ((dest_files w)(staging_name ?t := c))" for f
    using remove_file_effect [OF that, of "staging_name ?t"] by auto
  show ?thesis
  proof (cases wr)
    case (Inl fail)
    then show ?thesis
      using cleared [OF c] step \<open>append_batch A w b = Inr aligned\<close> wp
      by (auto simp: append_write_chunk_def chunk_failure_def write_failure_from_def Let_def dest_files_at visible_parts_upd)
  next
    case (Inr bytes)
    obtain rr f2 where rn: "fs_rename_file ?dir (staging_name ?t) (part_name ?t) f1 = (rr, f2)" by fastforce
    note effect = rename_file_effect [OF c rn]
    show ?thesis
    proof (cases rr)
      case (Inl error)
      then have f2: "fs_dirs f2 ?dir = Some ((dest_files w)(staging_name ?t := c))" using effect by simp
      show ?thesis
        using cleared [OF f2] step \<open>append_batch A w b = Inr aligned\<close> wp \<open>wr = Inr bytes\<close> rn Inl
        by (auto simp: append_write_chunk_def Let_def dest_files_at visible_parts_upd)
    next
      case (Inr u)
      then have "fs_dirs f2 ?dir = Some ((dest_files w)(staging_name ?t := None, part_name ?t := Some (Complete aligned)))"
        using effect cc \<open>wr = Inr bytes\<close> by simp
      then show ?thesis
        using step \<open>append_batch A w b = Inr aligned\<close> wp \<open>wr = Inr bytes\<close> rn Inr
        by (auto simp: append_write_chunk_def Let_def dest_files_at visible_parts_upd)
    qed
  qed
qed

lemma append_batch_rows:
  assumes "append_batch A w b = Inr a" "rectangular b"
    and "\<And>schema. pa_destination_schema w = Some schema \<Longrightarrow> distinct (map af_name schema)"
  shows "batch_rows a = batch_rows b"
  using assms align_parquet_rows [of A "pa_destination_path w" b _ a]
  by (auto simp: append_batch_def split: option.splits)

lemma append_write_adds:
  assumes p: "appending_parts w0 bs w" and step: "append_write_chunk A e b w = (Inr (), w')" and b: "rectangular b"
    and d: "\<And>schema. pa_destination_schema w0 = Some schema \<Longrightarrow> distinct (map af_name schema)"
  shows "appending_parts w0 (bs @ [b]) w'"
proof -
  let ?names = "\<lambda>n. map (\<lambda>i. part_name (pa_token w0 i)) [pa_next w0..<pa_next w0 + n]"
  obtain parts where parts: "list_all2 (\<lambda>b p. batch_rows p = batch_rows b) bs parts"
    "visible_parts (dest_files w) = (visible_parts (dest_files w0))(?names (length bs) [\<mapsto>] map Complete parts)"
    and w: "pa_destination_path w = pa_destination_path w0" "pa_destination_schema w = pa_destination_schema w0"
      "pa_token w = pa_token w0" "pa_next w = pa_next w0 + length bs" "pa_committed_chunks w = length bs"
      "fs_dirs (pa_fs w) (pa_destination_path w) \<noteq> None"
    using p by (auto simp: appending_parts_def)
  note s = append_write_parts [OF w(6) step]
  obtain a where a: "append_batch A w b = Inr a"
    "visible_parts (dest_files w') = (visible_parts (dest_files w))(part_name (pa_token w (pa_next w)) \<mapsto> Complete a)"
    using s by auto
  have rows: "batch_rows a = batch_rows b" using append_batch_rows [OF a(1) b] d w(2) by simp
  have len: "length parts = length bs" using parts(1) by (simp add: list_all2_lengthD)
  have "visible_parts (dest_files w') = (visible_parts (dest_files w0))
      (?names (length (bs @ [b])) [\<mapsto>] map Complete (parts @ [a]))"
    using a(2) parts(2) w(3,4) len by (simp add: map_upds_append1 nth_append)
  then show ?thesis using s w rows parts(1) by (auto simp: appending_parts_def intro!: exI [of _ "parts @ [a]"] list_all2_appendI)
qed

subsection \<open>A whole session\<close>

text \<open>Part names not drawn yet are not taken, and every existing part has distinct columns.\<close>

definition append_destination_ok :: "append_world \<Rightarrow> bool" where
  "append_destination_ok w \<longleftrightarrow> inj (pa_token w)
     \<and> (\<forall>i\<ge>pa_next w. dest_files w (part_name (pa_token w i)) = None)
     \<and> (\<forall>name b. is_parquet_name name \<longrightarrow> dest_files w name = Some (Complete b)
         \<longrightarrow> distinct (map af_name (rb_schema b)))"

lemma common_schema_distinct:
  assumes "common_schema path files schema names f = (Inr schema', f')" "\<forall>s. schema = Some s \<longrightarrow> distinct (map af_name s)"
    and "\<forall>name b. name \<in> set names \<longrightarrow> files name = Some (Complete b) \<longrightarrow> distinct (map af_name (rb_schema b))"
  shows "\<forall>s. schema' = Some s \<longrightarrow> distinct (map af_name s)"
  using assms
proof (induction names arbitrary: schema f)
  case (Cons name names)
  obtain f1 where t: "tick f = (None, f1)" using Cons.prems(1) by (cases "tick f") (auto split: option.splits)
  obtain b where b: "files name = Some (Complete b)"
    using Cons.prems(1) t by (auto split: option.splits file_content.splits)
  have "common_schema path files (Some (rb_schema b)) names f1 = (Inr schema', f')"
    using Cons.prems(1) t b by (auto split: option.splits if_splits)
  moreover have d: "distinct (map af_name (rb_schema b))" using Cons.prems(3) b by (meson list.set_intros(1))
  moreover from d have "\<forall>s. Some (rb_schema b) = Some s \<longrightarrow> distinct (map af_name s)" by blast
  moreover have "\<forall>name b. name \<in> set names \<longrightarrow> files name = Some (Complete b) \<longrightarrow> distinct (map af_name (rb_schema b))"
    using Cons.prems(3) by simp
  ultimately show ?case using Cons.IH by blast
qed simp

lemma append_begin_schema:
  assumes b: "append_begin read_dir w = (Inr (), w')" and ok: "append_destination_ok w"
  shows "pa_destination_schema w' = Some schema \<Longrightarrow> distinct (map af_name schema)"
proof -
  let ?path = "pa_destination_path w"
  obtain u f1 schema' f2 where c: "fs_create_dir_all ?path (pa_fs w) = (Inr u, f1)"
    and e: "existing_parquet_schema read_dir ?path f1 = (Inr schema', f2)" and w': "pa_destination_schema w' = schema'"
    using b by (auto simp: append_begin_def split: prod.splits sum.splits)
  obtain f1' where t: "tick f1 = (None, f1')" and f1': "fs_dirs f1' = fs_dirs f1"
    using e by (auto simp: existing_parquet_schema_def tick_def split: option.splits)
  have files: "(case fs_dirs f1' ?path of Some d \<Rightarrow> d | None \<Rightarrow> Map.empty) = dest_files w"
    using c f1' by (auto simp: dest_files_def fs_create_dir_all_def tick_def split: option.splits)
  have "\<forall>name b. name \<in> set (filter is_parquet_name (read_dir (dest_files w))) \<longrightarrow> dest_files w name = Some (Complete b)
      \<longrightarrow> distinct (map af_name (rb_schema b))"
    using ok unfolding append_destination_ok_def by fastforce
  then show "pa_destination_schema w' = Some schema \<Longrightarrow> distinct (map af_name schema)"
    using common_schema_distinct [of ?path "dest_files w" None "sort (filter is_parquet_name (read_dir (dest_files w)))" f1' schema' f2]
      e t files w'
    by (simp add: existing_parquet_schema_def Let_def)
qed

lemma appending_parts_added:
  assumes p: "appending_parts w0 bs w" and ok: "inj (pa_token w0)" "\<And>i. pa_next w0 \<le> i \<Longrightarrow> dest_files w0 (part_name (pa_token w0 i)) = None"
  shows "parts_added bs (dest_files w0) (dest_files w)"
proof -
  let ?names = "map (\<lambda>i. part_name (pa_token w0 i)) [pa_next w0..<pa_next w0 + length bs]"
  obtain parts where parts: "list_all2 (\<lambda>b p. batch_rows p = batch_rows b) bs parts"
    "visible_parts (dest_files w) = (visible_parts (dest_files w0))(?names [\<mapsto>] map Complete parts)"
    using p by (auto simp: appending_parts_def)
  have "distinct ?names" using ok(1) by (auto simp: distinct_map inj_on_def)
  moreover have "set ?names \<inter> dom (visible_parts (dest_files w0)) = {}" using ok(2) by (auto simp: visible_parts_def)
  ultimately show ?thesis
    unfolding parts_added_def using parts list_all2_lengthD [OF parts(1)] by (intro exI [of _ ?names] exI [of _ parts]) simp
qed

lemma parquet_append_terminal:
  "fst (append_write_chunk A e b w) = Inl fail \<Longrightarrow> wx_transience fail = Terminal"
  "fst (append_begin read_dir w) = Inl fail' \<Longrightarrow> wx_transience fail' = Terminal"
  by (auto simp: append_write_chunk_def append_begin_def chunk_failure_def write_failure_from_def Let_def
      split: prod.splits sum.splits)

text \<open>
  Whatever stops an append, its parts are those it found and one for each chunk before the
  failure, which states their number.
\<close>

lemma parquet_append_run:
  assumes ok: "append_destination_ok w" and opened: "append_begin read_dir w = (Inr (), us_world st)"
    and run: "run_serial_write_phase policy (parquet_append_ops A e read_dir) chunks st = (r, st')"
    and batches: "\<forall>b. Inr b \<in> set chunks \<longrightarrow> rectangular b"
  shows "\<exists>bs rest. chunks = map Inr bs @ rest \<and> parts_added bs (dest_files w) (dest_files (us_world st'))
    \<and> (case r of Inr outcome \<Rightarrow> rest = [] | Inl (In_Session fail) \<Rightarrow> wx_committed_chunks fail = length bs
       | Inl (Before_Session fail) \<Rightarrow> False)"
proof -
  let ?D = "parquet_append_ops A e read_dir" and ?w0 = "us_world st"
  note files = append_begin_files [OF opened]
  have start': "appending_parts ?w0 [] ?w0" using files(4,5) by (simp add: appending_parts_def)
  define P where "P bs w' \<longleftrightarrow> ((\<forall>b\<in>set bs. rectangular b) \<longrightarrow> appending_parts ?w0 bs w')" for bs w'
  have start: "P [] ?w0" using start' by (simp add: P_def)
  have step: "P (bs @ [b]) w''" if "P bs w'" "d_write_chunk ?D b w' = (Inr (), w'')" for bs b w' w''
    using that append_write_adds [of ?w0 bs w' A e b w''] append_begin_schema [OF opened ok]
    by (auto simp: P_def parquet_append_ops_def)
  have terminal: "wx_transience fail = Terminal" if "fst (d_write_chunk ?D b w') = Inl fail" for b w' fail
    using that by (simp add: parquet_append_ops_def parquet_append_terminal)
  have added: "parts_added bs (dest_files w) (dest_files w')" if "appending_parts ?w0 bs w'" for bs w'
    using appending_parts_added [OF that] ok files(1-3) by (simp add: append_destination_ok_def)
  have rect: "rectangular b" if "take k chunks = map Inr bs @ xs" "b \<in> set bs" for k bs xs b
  proof -
    have "Inr b \<in> set (take k chunks)" using that by simp
    from in_set_takeD [OF this] show ?thesis using batches by simp
  qed
  have split: "chunks = xs @ drop k chunks" if "take k chunks = xs" for k xs
    using append_take_drop_id [of k chunks] that by simp
  have run': "run_serial_from policy ?D 0 chunks st = (r, st')" using run by (simp add: run_serial_write_phase_def)
  from step terminal run' start show ?thesis
  proof (rule serial_run_cases)
    fix bs st''
    assume c: "chunks = map Inr bs" "P ([] @ bs) (us_world st'')" "(r, st') = commit_session ?D (0 + length chunks) st''"
    then have p: "appending_parts ?w0 bs (us_world st'')" using rect [of "length chunks" bs "[]"] by (auto simp: P_def)
    then show ?thesis
      using c(1,3) added [OF p]
      by (intro exI [of _ bs] exI [of _ "[]"]) (simp add: commit_session_def parquet_append_ops_def append_commit_def)
  next
    fix bs w' src
    assume c: "take (length bs + 1) chunks = map Inr bs @ [Inl src]" "P ([] @ bs) w'"
      "r = Inl (In_Session \<lparr>wx_failure = src, wx_facts = aw_facts (fst (d_abandon ?D w')),
         wx_written_records = aw_written_records (fst (d_abandon ?D w')),
         wx_committed_chunks = aw_committed_chunks (fst (d_abandon ?D w')), wx_transience = Terminal\<rparr>)"
      "us_world st' = snd (d_abandon ?D w')"
    have p: "appending_parts ?w0 bs w'" using c(2) rect [OF c(1)] by (simp add: P_def)
    then show ?thesis
      using split [OF c(1)] c(3,4) added [OF p]
      by (intro exI [of _ bs] exI [of _ "Inl src # drop (length bs + 1) chunks"])
        (simp add: parquet_append_ops_def append_abandon_def append_abandoned_def appending_parts_def)
  next
    fix bs b w' w'' fail
    assume c: "take (length bs + 1) chunks = map Inr (bs @ [b])" "P ([] @ bs) w'" "d_write_chunk ?D b w' = (Inl fail, w'')"
      "r = Inl (In_Session fail)" "us_world st' = d_drop ?D w''"
    have p: "appending_parts ?w0 bs w'" using c(1,2) rect [of "length bs + 1" bs "[Inr b]"] by (simp add: P_def)
    have dir: "fs_dirs (pa_fs w') (pa_destination_path w') \<noteq> None" using p by (auto simp: appending_parts_def)
    have f: "visible_parts (dest_files w'') = visible_parts (dest_files w')" "wx_committed_chunks fail = pa_committed_chunks w'"
      using append_write_parts [OF dir, of A e b "Inl fail" w''] c(3) by (simp_all add: parquet_append_ops_def)
    then show ?thesis
      using split [OF c(1)] c(3-5) added [OF p] p
      by (intro exI [of _ bs] exI [of _ "Inr b # drop (length bs + 1) chunks"])
        (simp add: parquet_append_ops_def appending_parts_def parts_added_def)
  qed
qed

end
