(* ===== verification/Load_Sessions.thy ===== *)
theory Load_Sessions
  imports Load_Run Serial_Runs Duckdb Sqlserver_Session
begin

section \<open>The session each destination opens\<close>

text \<open>
  The \<open>Destination::begin\<close> implementations of \<open>src/connector.rs\<close>, lines 745 to 773, 1294 to 1315 and
  2091 to 2118: which writer a destination opens in which load mode. The writers of the other
  theories each have a world of their own; here they act on one host, which holds the file system
  with its stream of tokens, the DuckDB database, the SQL Server connection and the open writer.
\<close>

subsection \<open>The host\<close>

datatype ('c, 'q) writer =
    No_Writer
  | Parquet_Refresh_Writer full_refresh_world
  | Parquet_Append_Writer append_world
  | Duckdb_Refresh_Writer "'c duckdb_full_refresh"
  | Duckdb_Append_Writer "'c duckdb_append"
  | Duckdb_Merge_Writer "'c duckdb_merge"
  | Sqlserver_Writer "'q sql_writer"

record ('c, 'q) load_host =
  ho_fs :: "record_batch fs"
  ho_token :: "nat \<Rightarrow> string"
  ho_next :: nat
  ho_duckdb :: 'c
  ho_sqlserver :: 'q
  ho_writer :: "('c, 'q) writer"

text \<open>The libraries the writers call, and the token of a merge stage's name.\<close>

record ('c, 'q) destination_calls =
  dc_arrow :: arrow
  dc_encoded_size :: "record_batch \<Rightarrow> nat"
  dc_read_dir :: "record_batch directory \<Rightarrow> string list"
  dc_duckdb :: "'c duckdb"
  dc_sqlserver :: "'q sqlserver"
  dc_sql_env :: sql_env
  dc_token :: string

subsection \<open>A session on the host\<close>

text \<open>
  \<open>start\<close> is the writer an opening starts from, \<open>get\<close> the open writer and \<open>put\<close> stores it back,
  with what it did to the host's part.
\<close>

definition hosted ::
  "('h \<Rightarrow> 's) \<Rightarrow> ('h \<Rightarrow> 's) \<Rightarrow> ('s \<Rightarrow> 'h \<Rightarrow> 'h) \<Rightarrow> 's destination_ops \<Rightarrow> 'h destination_ops" where
  "hosted start get put D =
     \<lparr>d_begin = (\<lambda>mode h. apsnd (\<lambda>w. put w h) (d_begin D mode (start h))),
      d_write_chunk = (\<lambda>b h. apsnd (\<lambda>w. put w h) (d_write_chunk D b (get h))),
      d_commit = (\<lambda>h. apsnd (\<lambda>w. put w h) (d_commit D (get h))),
      d_abandon = (\<lambda>h. apsnd (\<lambda>w. put w h) (d_abandon D (get h))),
      d_drop = (\<lambda>h. put (d_drop D (get h)) h)\<rparr>"

text \<open>A run on the host is the run of the session it hosts.\<close>

locale session_port =
  fixes start :: "'h \<Rightarrow> 's" and get :: "'h \<Rightarrow> 's" and put :: "'s \<Rightarrow> 'h \<Rightarrow> 'h"
  assumes get_put: "get (put w h) = w"
    and put_put: "put w' (put w h) = put w' h"
begin

definition on_host :: "'h \<Rightarrow> 's unit_state \<Rightarrow> 'h unit_state" where
  "on_host h st = \<lparr>us_world = put (us_world st) h, us_attempts = us_attempts st, us_sleeps = us_sleeps st\<rparr>"

lemma on_host_simps [simp]:
  "us_world (on_host h st) = put (us_world st) h" "us_attempts (on_host h st) = us_attempts st"
  "us_sleeps (on_host h st) = us_sleeps st"
  by (simp_all add: on_host_def)

lemma run_unit_hosted:
  "run_unit policy unt (\<lambda>h. apsnd (\<lambda>w. put w h) (f (get h))) (on_host h st) = apsnd (on_host h) (run_unit policy unt f st)"
proof -
  have "run_unit_from policy unt (\<lambda>h. apsnd (\<lambda>w. put w h) (f (get h))) n (on_host h st)
      = apsnd (on_host h) (run_unit_from policy unt f n st)" for n
  proof (induction policy unt f n st rule: run_unit_from.induct)
    case (1 policy unt f n st)
    show ?case
    proof (cases "f (us_world st)")
      case (Pair r w)
      then show ?thesis
        using 1 get_put put_put
        by (subst (1 2) run_unit_from.simps) (auto simp: on_host_def Let_def split: sum.split)
    qed
  qed
  then show ?thesis by (simp add: run_unit_def)
qed

lemma run_serial_hosted:
  "run_serial_from policy (hosted start get put D) n chunks (on_host h st)
     = apsnd (on_host h) (run_serial_from policy D n chunks st)"
proof (induction chunks arbitrary: n st)
  case Nil
  show ?case
    by (cases "d_commit D (us_world st)")
      (auto simp: commit_session_def hosted_def get_put put_put on_host_def split: sum.split)
next
  case (Cons c chunks)
  show ?case
  proof (cases c)
    case (Inl src)
    then show ?thesis
      by (cases "d_abandon D (us_world st)") (simp add: abandon_in_session_def hosted_def get_put put_put on_host_def)
  next
    case (Inr b)
    obtain r st1 where u: "run_unit policy (Unit_Write_Chunk n) (d_write_chunk D b) st = (r, st1)" by fastforce
    have "run_unit policy (Unit_Write_Chunk n) (d_write_chunk (hosted start get put D) b) (on_host h st) = (r, on_host h st1)"
      using run_unit_hosted [of policy "Unit_Write_Chunk n" "d_write_chunk D b" h st] u by (simp add: hosted_def)
    then show ?thesis
      using Inr u Cons.IH
      by (cases r) (simp_all add: drop_session_def, simp add: hosted_def get_put put_put on_host_def)
  qed
qed

lemma hosted_write_phase:
  assumes run: "write_phase policy (hosted start get put D) mode 1 chunks st r st'"
    and terminal: "\<And>w fail. fst (d_begin D mode w) = Inl fail \<Longrightarrow> wx_transience fail = Terminal"
  obtains (begin_failed) fail w where "d_begin D mode (start (us_world st)) = (Inl fail, w)"
      "r = Inl (Before_Session fail)" "us_world st' = put w (us_world st)"
  | (opened) w st1 where "d_begin D mode (start (us_world st)) = (Inr (), us_world w)"
      "run_serial_write_phase policy D chunks w = (r, st1)" "us_world st' = put (us_world st1) (us_world st)"
proof -
  let ?h = "us_world st"
  obtain x w where b: "d_begin D mode (start ?h) = (x, w)" by fastforce
  have u: "run_unit policy Unit_Begin (d_begin (hosted start get put D) mode) st = (x, st\<lparr>us_world := put w ?h\<rparr>)"
    using b terminal [of "start ?h"] by (subst terminal_unit_once) (auto simp: hosted_def)
  let ?st0 = "\<lparr>us_world = w, us_attempts = us_attempts st, us_sleeps = us_sleeps st\<rparr>"
  have host: "st\<lparr>us_world := put w ?h\<rparr> = on_host ?h ?st0" by (simp add: on_host_def)
  obtain r2 st2 where s: "run_serial_write_phase policy D chunks ?st0 = (r2, st2)" by fastforce
  have s': "run_serial_write_phase policy (hosted start get put D) chunks (on_host ?h ?st0) = (r2, on_host ?h st2)"
    using s run_serial_hosted [of policy D 0 chunks ?h ?st0] by (simp add: run_serial_write_phase_def)
  show ?thesis
    using run
    by (rule write_phaseE) (use u b host s s' begin_failed opened [of ?st0 st2] in auto)
qed

end

subsection \<open>Storing each writer\<close>

definition refresh_start :: "string \<Rightarrow> ('c, 'q) load_host \<Rightarrow> full_refresh_world" where
  "refresh_start path h =
     \<lparr>fr_destination_path = path, fr_staging_path = [], fr_parts = 0, fr_bytes_written = 0, fr_committed = False,
      fr_fs = ho_fs h, fr_token = ho_token h, fr_next = ho_next h\<rparr>"

definition refresh_get :: "string \<Rightarrow> ('c, 'q) load_host \<Rightarrow> full_refresh_world" where
  "refresh_get path h = (case ho_writer h of Parquet_Refresh_Writer w \<Rightarrow> w | _ \<Rightarrow> refresh_start path h)"

definition refresh_put :: "full_refresh_world \<Rightarrow> ('c, 'q) load_host \<Rightarrow> ('c, 'q) load_host" where
  "refresh_put w h = h\<lparr>ho_fs := fr_fs w, ho_next := fr_next w, ho_writer := Parquet_Refresh_Writer w\<rparr>"

definition append_start :: "string \<Rightarrow> ('c, 'q) load_host \<Rightarrow> append_world" where
  "append_start path h =
     \<lparr>pa_destination_path = path, pa_destination_schema = None, pa_committed_chunks = 0, pa_written_records = 0,
      pa_bytes_written = 0, pa_fs = ho_fs h, pa_token = ho_token h, pa_next = ho_next h\<rparr>"

definition append_get :: "string \<Rightarrow> ('c, 'q) load_host \<Rightarrow> append_world" where
  "append_get path h = (case ho_writer h of Parquet_Append_Writer w \<Rightarrow> w | _ \<Rightarrow> append_start path h)"

definition append_put :: "append_world \<Rightarrow> ('c, 'q) load_host \<Rightarrow> ('c, 'q) load_host" where
  "append_put w h = h\<lparr>ho_fs := pa_fs w, ho_next := pa_next w, ho_writer := Parquet_Append_Writer w\<rparr>"

definition duckdb_refresh_start :: "duckdb_table \<Rightarrow> ('c, 'q) load_host \<Rightarrow> 'c duckdb_full_refresh" where
  "duckdb_refresh_start table h = \<lparr>df_table = table, df_db = ho_duckdb h, df_written_chunks = 0, df_written_records = 0\<rparr>"

definition duckdb_refresh_get :: "duckdb_table \<Rightarrow> ('c, 'q) load_host \<Rightarrow> 'c duckdb_full_refresh" where
  "duckdb_refresh_get table h = (case ho_writer h of Duckdb_Refresh_Writer w \<Rightarrow> w | _ \<Rightarrow> duckdb_refresh_start table h)"

definition duckdb_refresh_put :: "'c duckdb_full_refresh \<Rightarrow> ('c, 'q) load_host \<Rightarrow> ('c, 'q) load_host" where
  "duckdb_refresh_put w h = h\<lparr>ho_duckdb := df_db w, ho_writer := Duckdb_Refresh_Writer w\<rparr>"

definition duckdb_append_start :: "duckdb_table \<Rightarrow> ('c, 'q) load_host \<Rightarrow> 'c duckdb_append" where
  "duckdb_append_start table h =
     \<lparr>da_table = table, da_db = ho_duckdb h, da_destination_schema = [], da_committed_chunks = 0, da_written_records = 0\<rparr>"

definition duckdb_append_get :: "duckdb_table \<Rightarrow> ('c, 'q) load_host \<Rightarrow> 'c duckdb_append" where
  "duckdb_append_get table h = (case ho_writer h of Duckdb_Append_Writer w \<Rightarrow> w | _ \<Rightarrow> duckdb_append_start table h)"

definition duckdb_append_put :: "'c duckdb_append \<Rightarrow> ('c, 'q) load_host \<Rightarrow> ('c, 'q) load_host" where
  "duckdb_append_put w h = h\<lparr>ho_duckdb := da_db w, ho_writer := Duckdb_Append_Writer w\<rparr>"

definition duckdb_merge_start :: "duckdb_table \<Rightarrow> string list \<Rightarrow> ('c, 'q) load_host \<Rightarrow> 'c duckdb_merge" where
  "duckdb_merge_start table keys h =
     \<lparr>dm_table = table, dm_merge_keys = keys, dm_db = ho_duckdb h, dm_destination_schema = [], dm_stage = [],
      dm_staged_chunks = 0, dm_staged_records = 0\<rparr>"

definition duckdb_merge_get :: "duckdb_table \<Rightarrow> string list \<Rightarrow> ('c, 'q) load_host \<Rightarrow> 'c duckdb_merge" where
  "duckdb_merge_get table keys h =
     (case ho_writer h of Duckdb_Merge_Writer w \<Rightarrow> w | _ \<Rightarrow> duckdb_merge_start table keys h)"

definition duckdb_merge_put :: "'c duckdb_merge \<Rightarrow> ('c, 'q) load_host \<Rightarrow> ('c, 'q) load_host" where
  "duckdb_merge_put w h = h\<lparr>ho_duckdb := dm_db w, ho_writer := Duckdb_Merge_Writer w\<rparr>"

definition sqlserver_start :: "sqlserver_config \<Rightarrow> string list \<Rightarrow> ('c, 'q) load_host \<Rightarrow> 'q sql_writer" where
  "sqlserver_start config keys h =
     \<lparr>sw_address = config, sw_mode = Full_Refresh, sw_merge_keys = keys, sw_stage = [], sw_client = ho_sqlserver h,
      sw_plan = None, sw_shape = None, sw_transaction = False, sw_identity_insert = False, sw_committed_chunks = 0,
      sw_written_records = 0\<rparr>"

definition sqlserver_get :: "sqlserver_config \<Rightarrow> string list \<Rightarrow> ('c, 'q) load_host \<Rightarrow> 'q sql_writer" where
  "sqlserver_get config keys h = (case ho_writer h of Sqlserver_Writer w \<Rightarrow> w | _ \<Rightarrow> sqlserver_start config keys h)"

definition sqlserver_put :: "'q sql_writer \<Rightarrow> ('c, 'q) load_host \<Rightarrow> ('c, 'q) load_host" where
  "sqlserver_put w h = h\<lparr>ho_sqlserver := sw_client w, ho_writer := Sqlserver_Writer w\<rparr>"

interpretation refresh_port: session_port "refresh_start path" "refresh_get path" refresh_put for path
  by unfold_locales (simp_all add: refresh_get_def refresh_put_def)

interpretation append_port: session_port "append_start path" "append_get path" append_put for path
  by unfold_locales (simp_all add: append_get_def append_put_def)

interpretation duckdb_refresh_port: session_port "duckdb_refresh_start table" "duckdb_refresh_get table" duckdb_refresh_put for table
  by unfold_locales (simp_all add: duckdb_refresh_get_def duckdb_refresh_put_def)

interpretation duckdb_append_port: session_port "duckdb_append_start table" "duckdb_append_get table" duckdb_append_put for table
  by unfold_locales (simp_all add: duckdb_append_get_def duckdb_append_put_def)

interpretation duckdb_merge_port: session_port "duckdb_merge_start table keys" "duckdb_merge_get table keys" duckdb_merge_put
  for table keys
  by unfold_locales (simp_all add: duckdb_merge_get_def duckdb_merge_put_def)

interpretation sqlserver_port: session_port "sqlserver_start config keys" "sqlserver_get config keys" sqlserver_put for config keys
  by unfold_locales (simp_all add: sqlserver_get_def sqlserver_put_def)

subsection \<open>Opening by load mode\<close>

text \<open>
  \<open>self.validate_mode(mode)?\<close> before a session opens. Parquet declines \<open>merge\<close> there, so the session
  that stands behind its check (the code has \<open>unreachable!\<close>) never opens.
\<close>

definition validated_begin :: "destination \<Rightarrow> 'h destination_ops \<Rightarrow> 'h destination_ops" where
  "validated_begin destination D = D\<lparr>d_begin := \<lambda>mode h. (case validate_destination_mode destination mode of
     Inl fail \<Rightarrow> (Inl (write_failure_from fail), h) | Inr _ \<Rightarrow> d_begin D mode h)\<rparr>"

definition parquet_append_session ::
  "('c, 'q) destination_calls \<Rightarrow> string \<Rightarrow> ('c, 'q) load_host destination_ops" where
  "parquet_append_session K path = hosted (append_start path) (append_get path) append_put
     (parquet_append_ops (dc_arrow K) (dc_encoded_size K) (dc_read_dir K))"

fun parquet_session ::
  "('c, 'q) destination_calls \<Rightarrow> string \<Rightarrow> load_mode \<Rightarrow> ('c, 'q) load_host destination_ops" where
  "parquet_session K path Full_Refresh =
     hosted (refresh_start path) (refresh_get path) refresh_put (full_refresh_ops (dc_encoded_size K))"
| "parquet_session K path Append = parquet_append_session K path"
| "parquet_session K path Merge = validated_begin (Parquet_Destination path) (parquet_append_session K path)"

fun duckdb_session ::
  "('c, 'q) destination_calls \<Rightarrow> duckdb_table \<Rightarrow> string list \<Rightarrow> load_mode \<Rightarrow> ('c, 'q) load_host destination_ops" where
  "duckdb_session K table keys Full_Refresh =
     hosted (duckdb_refresh_start table) (duckdb_refresh_get table) duckdb_refresh_put (duckdb_replace_ops (dc_duckdb K))"
| "duckdb_session K table keys Append =
     hosted (duckdb_append_start table) (duckdb_append_get table) duckdb_append_put
       (duckdb_append_ops (dc_arrow K) (dc_duckdb K))"
| "duckdb_session K table keys Merge =
     hosted (duckdb_merge_start table keys) (duckdb_merge_get table keys) duckdb_merge_put
       (duckdb_merge_ops (dc_arrow K) (dc_duckdb K) (dc_token K))"

definition sqlserver_session ::
  "('c, 'q) destination_calls \<Rightarrow> sqlserver_config \<Rightarrow> string list \<Rightarrow> ('c, 'q) load_host destination_ops" where
  "sqlserver_session K config keys = validated_begin (Sqlserver_Destination config keys)
     (hosted (sqlserver_start config keys) (sqlserver_get config keys) sqlserver_put
       (sqlserver_ops (dc_sql_env K) (dc_sqlserver K) (dc_token K)))"

fun destination_session ::
  "('c, 'q) destination_calls \<Rightarrow> destination \<Rightarrow> load_mode \<Rightarrow> ('c, 'q) load_host destination_ops" where
  "destination_session K (Parquet_Destination path) mode = parquet_session K path mode"
| "destination_session K (Duckdb_Destination table keys) mode = duckdb_session K table keys mode"
| "destination_session K (Sqlserver_Destination config keys) mode = sqlserver_session K config keys"

lemma sqlserver_session_hosted: "sqlserver_session K config keys
    = hosted (sqlserver_start config keys) (sqlserver_get config keys) sqlserver_put
        (sqlserver_ops (dc_sql_env K) (dc_sqlserver K) (dc_token K))"
proof -
  have "validate_destination_mode (Sqlserver_Destination config keys) mode = Inr ()" for mode
    by (simp add: validate_destination_mode_iff)
  then show ?thesis by (simp add: sqlserver_session_def validated_begin_def)
qed

end
