(* ===== verification/Load_Landing.thy ===== *)
theory Load_Landing
  imports Load_Sessions Load_Facts Parquet_Append Duckdb_Runs Sqlserver_Merge
begin

section \<open>What each destination holds after a write phase\<close>

text \<open>
  The three load modes as effects on what a destination holds, and the serial write phase of every
  shipped destination in every mode as one statement about them: what a success leaves, what
  a failure leaves and how many chunks it states.
\<close>

subsection \<open>The effect of a load mode\<close>

text \<open>
  \<open>mode_effect\<close> relates the rows a table held, the rows that came in and the rows it holds; of a
  merge it also says what the facts state, when there are any.
\<close>

definition merge_stated ::
  "('x \<Rightarrow> 'v option) \<Rightarrow> string list \<Rightarrow> write_facts option \<Rightarrow> 'x table_row multiset option \<Rightarrow> 'x table_row multiset \<Rightarrow> bool" where
  "merge_stated val keys facts old incoming \<longleftrightarrow> (\<forall>stated rows. facts = Some stated \<longrightarrow> old = Some rows \<longrightarrow>
     (let updated = size (matched_rows val keys rows incoming)
      in stated = with_merge_counts (facts_atomic ''transactional_merge'') updated (size incoming - updated)))"

definition mode_effect ::
  "('x \<Rightarrow> 'v option) \<Rightarrow> string list \<Rightarrow> string list \<Rightarrow> load_mode \<Rightarrow> write_facts option
   \<Rightarrow> 'x table_row multiset option \<Rightarrow> 'x table_row multiset \<Rightarrow> 'x table_row multiset option \<Rightarrow> bool" where
  "mode_effect val keys columns mode facts old incoming new = (case mode of
     Full_Refresh \<Rightarrow> new = Some incoming
   | Append \<Rightarrow> new = add_rows incoming old
   | Merge \<Rightarrow> merge_done val keys columns old incoming new \<and> merge_stated val keys facts old incoming)"

text \<open>How the rows of a database are read, and which cells its \<open>=\<close> takes as equal.\<close>

record ('c, 'q, 'v, 'u) destination_views =
  vw_table :: "'c \<Rightarrow> table_view"
  vw_cell :: "cell \<Rightarrow> 'v option"
  vw_server :: "'q \<Rightarrow> sql_view"
  vw_value :: "column_data option \<Rightarrow> 'u option"

definition host_files :: "string \<Rightarrow> ('c, 'q) load_host \<Rightarrow> record_batch directory" where
  "host_files path h = (case fs_dirs (ho_fs h) path of Some files \<Rightarrow> files | None \<Rightarrow> Map.empty)"

abbreviation duckdb_rows :: "('c, 'q, 'v, 'u) destination_views \<Rightarrow> ('c, 'q) load_host \<Rightarrow> row multiset option" where
  "duckdb_rows X h \<equiv> tv_committed (vw_table X (ho_duckdb h))"

abbreviation sqlserver_rows :: "('c, 'q, 'v, 'u) destination_views \<Rightarrow> ('c, 'q) load_host \<Rightarrow> sql_row multiset option" where
  "sqlserver_rows X h \<equiv> sv_committed (vw_server X (ho_sqlserver h))"

text \<open>The batches \<open>bs\<close> have arrived in the destination, as its load mode has it.\<close>

fun landed ::
  "('c, 'q, 'v, 'u) destination_views \<Rightarrow> destination \<Rightarrow> load_mode \<Rightarrow> string list \<Rightarrow> write_facts option
   \<Rightarrow> record_batch list \<Rightarrow> ('c, 'q) load_host \<Rightarrow> ('c, 'q) load_host \<Rightarrow> bool" where
  "landed X (Parquet_Destination path) mode columns facts bs h h' = (case mode of
     Full_Refresh \<Rightarrow> fs_dirs (ho_fs h') path = Some (parts_of bs)
   | Append \<Rightarrow> parts_added bs (host_files path h) (host_files path h')
   | Merge \<Rightarrow> False)"
| "landed X (Duckdb_Destination table keys) mode columns facts bs h h' =
     mode_effect (vw_cell X) keys columns mode facts (duckdb_rows X h) (batches_rows bs) (duckdb_rows X h')"
| "landed X (Sqlserver_Destination config keys) mode columns facts bs h h' =
     (\<exists>incoming. rel_mset (row_holds columns) incoming (batches_rows bs)
        \<and> mode_effect (vw_value X) keys columns mode facts (sqlserver_rows X h) incoming (sqlserver_rows X h'))"

fun unchanged ::
  "('c, 'q, 'v, 'u) destination_views \<Rightarrow> destination \<Rightarrow> ('c, 'q) load_host \<Rightarrow> ('c, 'q) load_host \<Rightarrow> bool" where
  "unchanged X (Parquet_Destination path) h h' \<longleftrightarrow>
     visible_parts (host_files path h') = visible_parts (host_files path h)"
| "unchanged X (Duckdb_Destination table keys) h h' \<longleftrightarrow> duckdb_rows X h' = duckdb_rows X h"
| "unchanged X (Sqlserver_Destination config keys) h h' \<longleftrightarrow> sqlserver_rows X h' = sqlserver_rows X h"

text \<open>
  A write phase that failed in its session and stated \<open>k\<close> chunks: an append keeps the chunks
  before the failure (SQL Server may hold the one more whose commit it did not confirm), and the
  other modes keep nothing, unless every chunk was delivered and only the end of the session
  failed.
\<close>

definition failed_write ::
  "('c, 'q, 'v, 'u) destination_views \<Rightarrow> destination \<Rightarrow> load_mode \<Rightarrow> string list
   \<Rightarrow> (load_failure, record_batch) result list \<Rightarrow> nat \<Rightarrow> ('c, 'q) load_host \<Rightarrow> ('c, 'q) load_host \<Rightarrow> bool" where
  "failed_write X destination mode columns chunks k h h' \<longleftrightarrow>
     (if mode = Append then
        \<exists>bs rest. chunks = map Inr bs @ rest \<and> k = length bs
          \<and> (landed X destination mode columns None bs h h'
             \<or> connector_name destination = ''sqlserver''
               \<and> (\<exists>b rest'. rest = Inr b # rest' \<and> landed X destination mode columns None (bs @ [b]) h h'))
      else k = 0 \<and> unchanged X destination h h'
        \<or> (\<exists>bs. chunks = map Inr bs
             \<and> (connector_name destination = ''parquet'' \<or> landed X destination mode columns None bs h h')))"

text \<open>What is relied on of the destination: see the contracts of the databases.\<close>

fun destination_contract ::
  "('c, 'q) destination_calls \<Rightarrow> ('c, 'q, 'v, 'u) destination_views \<Rightarrow> destination \<Rightarrow> load_mode
   \<Rightarrow> ('c, 'q) load_host \<Rightarrow> bool" where
  "destination_contract K X (Parquet_Destination path) mode h \<longleftrightarrow>
     path_file_name path \<noteq> [] \<and> (mode = Append \<longrightarrow> append_destination_ok (append_start path h))"
| "destination_contract K X (Duckdb_Destination table keys) mode h \<longleftrightarrow>
     duckdb_contract (dc_duckdb K) (vw_table X) (vw_cell X) (dt_dataset table) (merge_stage_name (dc_token K))
     \<and> merge_stage_name (dc_token K) \<noteq> dt_dataset table"
| "destination_contract K X (Sqlserver_Destination config keys) mode h \<longleftrightarrow>
     sqlserver_contract (dc_sqlserver K) (vw_server X) (vw_value X) (qc_schema config) (qc_dataset config)
       (merge_stage_name (dc_token K))
     \<and> merge_stage_name (dc_token K) \<noteq> qc_dataset config"

lemma failed_append:
  "chunks = map Inr bs @ rest \<Longrightarrow> landed X destination Append columns None bs h h' \<Longrightarrow>
   failed_write X destination Append columns chunks (length bs) h h'"
  by (auto simp: failed_write_def)

lemma all_ok_items: "list_all is_ok xs \<Longrightarrow> \<exists>bs. xs = map Inr bs"
  by (induction xs) (auto simp: is_ok_iff Cons_eq_map_conv)

subsection \<open>Parquet\<close>

lemma fr_path_kept:
  "fr_destination_path (snd (full_refresh_write_chunk e b w)) = fr_destination_path w"
  "fr_destination_path (snd (full_refresh_commit w)) = fr_destination_path w"
  "fr_destination_path (snd (full_refresh_abandon w)) = fr_destination_path w"
  "fr_destination_path (full_refresh_drop w) = fr_destination_path w"
  "fr_destination_path (snd (full_refresh_begin w)) = fr_destination_path w"
  by (simp_all add: full_refresh_write_chunk_def full_refresh_commit_def full_refresh_abandon_def full_refresh_drop_def
      full_refresh_begin_def Let_def split: prod.split sum.split)

lemma pa_path_kept:
  "pa_destination_path (snd (append_write_chunk A e b w)) = pa_destination_path w"
  "pa_destination_path (snd (append_begin read_dir w)) = pa_destination_path w"
  by (simp_all add: append_write_chunk_def append_begin_def Let_def split: prod.split sum.split)

lemma parquet_refresh_phase:
  assumes path: "path_file_name path \<noteq> []"
    and run: "write_phase policy (destination_session K (Parquet_Destination path) Full_Refresh) Full_Refresh 1 chunks st r st'"
  shows "case r of
      Inr outcome \<Rightarrow> \<exists>bs. chunks = map Inr bs \<and> landed X (Parquet_Destination path) Full_Refresh columns facts bs (us_world st) (us_world st')
    | Inl (Before_Session fail) \<Rightarrow> unchanged X (Parquet_Destination path) (us_world st) (us_world st')
    | Inl (In_Session fail) \<Rightarrow>
        failed_write X (Parquet_Destination path) Full_Refresh columns chunks (wx_committed_chunks fail) (us_world st) (us_world st')"
proof -
  let ?h = "us_world st" and ?D = "full_refresh_ops (dc_encoded_size K)"
  have start: "fr_destination_path (refresh_start path ?h) = path" "destination_dir (refresh_start path ?h) = fs_dirs (ho_fs ?h) path"
    by (simp_all add: refresh_start_def destination_dir_def)
  have dir: "fs_dirs (ho_fs (refresh_put w ?h)) path = destination_dir w" if "fr_destination_path w = path" for w
    using that by (simp add: refresh_put_def destination_dir_def)
  have terminal: "wx_transience fail = Terminal" if "fst (d_begin ?D Full_Refresh w) = Inl fail" for w fail
    using that by (rule full_refresh_begin_terminal)
  have keep: "fr_destination_path w' = path" if "d_begin ?D Full_Refresh (refresh_start path ?h) = (x, w')" for x w'
    using that fr_path_kept(5) [of "refresh_start path ?h"] start(1) by (simp add: full_refresh_ops_def)
  from run [unfolded destination_session.simps parquet_session.simps] terminal show ?thesis
  proof (rule refresh_port.hosted_write_phase)
    fix fail w
    assume b: "d_begin ?D Full_Refresh (refresh_start path ?h) = (Inl fail, w)" "r = Inl (Before_Session fail)"
      "us_world st' = refresh_put w ?h"
    then have "destination_dir w = fs_dirs (ho_fs ?h) path"
      using full_refresh_begin_staged [of "refresh_start path ?h" "Inl fail" w] start path by (simp add: full_refresh_ops_def)
    then show ?thesis using b dir [OF keep [OF b(1)]] by (simp add: host_files_def)
  next
    fix w st1
    assume b: "d_begin ?D Full_Refresh (refresh_start path ?h) = (Inr (), us_world w)"
      "run_serial_write_phase policy ?D chunks w = (r, st1)" "us_world st' = refresh_put (us_world st1) ?h"
    have "fr_destination_path (us_world st1) = path"
      using run_serial_keeps [of fr_destination_path ?D policy 0 chunks w] fr_path_kept keep [OF b(1)] b(2)
      by (simp add: full_refresh_ops_def run_serial_write_phase_def)
    note d = dir [OF this]
    have "full_refresh_begin (refresh_start path ?h) = (Inr (), us_world w)" using b(1) by (simp add: full_refresh_ops_def)
    from serial_full_refresh [OF this _ b(2)] show ?thesis
      using start path b(3) d all_ok_items [of chunks]
      by (auto simp: failed_write_def host_files_def split: sum.splits write_phase_failure.splits)
  qed
qed

lemma parquet_append_phase:
  assumes ok: "append_destination_ok (append_start path (us_world st))"
    and run: "write_phase policy (destination_session K (Parquet_Destination path) Append) Append 1 chunks st r st'"
    and batches: "\<forall>b. Inr b \<in> set chunks \<longrightarrow> rectangular b"
  shows "case r of
      Inr outcome \<Rightarrow> \<exists>bs. chunks = map Inr bs \<and> landed X (Parquet_Destination path) Append columns facts bs (us_world st) (us_world st')
    | Inl (Before_Session fail) \<Rightarrow> unchanged X (Parquet_Destination path) (us_world st) (us_world st')
    | Inl (In_Session fail) \<Rightarrow>
        failed_write X (Parquet_Destination path) Append columns chunks (wx_committed_chunks fail) (us_world st) (us_world st')"
proof -
  let ?h = "us_world st" and ?D = "parquet_append_ops (dc_arrow K) (dc_encoded_size K) (dc_read_dir K)"
  have start: "pa_destination_path (append_start path ?h) = path" "dest_files (append_start path ?h) = host_files path ?h"
    by (simp_all add: append_start_def dest_files_def host_files_def)
  have files: "host_files path (append_put w ?h) = dest_files w" if "pa_destination_path w = path" for w
    using that by (simp add: append_put_def dest_files_def host_files_def)
  have terminal: "wx_transience fail = Terminal" if "fst (d_begin ?D Append w) = Inl fail" for w fail
    using that parquet_append_terminal(2) by (simp add: parquet_append_ops_def)
  from run [unfolded destination_session.simps parquet_session.simps parquet_append_session_def] terminal show ?thesis
  proof (rule append_port.hosted_write_phase)
    fix fail w
    assume b: "d_begin ?D Append (append_start path ?h) = (Inl fail, w)" "r = Inl (Before_Session fail)" "us_world st' = append_put w ?h"
    then have "append_begin (dc_read_dir K) (append_start path ?h) = (Inl fail, w)" by (simp add: parquet_append_ops_def)
    note w = append_begin_files [OF this]
    show ?thesis using b w(1,4) files [of w] start by simp
  next
    fix w st1
    assume b: "d_begin ?D Append (append_start path ?h) = (Inr (), us_world w)"
      "run_serial_write_phase policy ?D chunks w = (r, st1)" "us_world st' = append_put (us_world st1) ?h"
    have opened: "append_begin (dc_read_dir K) (append_start path ?h) = (Inr (), us_world w)" using b(1) by (simp add: parquet_append_ops_def)
    have "pa_destination_path (us_world st1) = pa_destination_path (us_world w)"
      using run_serial_keeps [of pa_destination_path ?D policy 0 chunks w] pa_path_kept b(2)
      by (simp add: parquet_append_ops_def append_commit_def append_abandon_def run_serial_write_phase_def)
    then have "host_files path (us_world st') = dest_files (us_world st1)"
      using b(3) files append_begin_files(4) [OF opened] start(1) by simp
    then show ?thesis
      using parquet_append_run [OF ok opened b(2) batches] start(2) failed_append [of chunks _ _ X "Parquet_Destination path"]
      by (cases r) (auto split: write_phase_failure.splits)
  qed
qed

subsection \<open>DuckDB\<close>

lemma duckdb_begin_kept:
  assumes K: "duckdb_keeps Q V" "duckdb_understands Q V val dataset stage"
  shows "duckdb_replace_begin Q w = (Inl fail, w') \<Longrightarrow> tv_committed (V (df_db w')) = tv_committed (V (df_db w))"
    "duckdb_append_begin Q v = (Inl fail, v') \<Longrightarrow> tv_committed (V (da_db v')) = tv_committed (V (da_db v))"
    "duckdb_merge_begin Q token u = (Inl fail, u') \<Longrightarrow> tv_committed (V (dm_db u')) = tv_committed (V (dm_db u))"
  using open_arrow_connection_keeps [OF K(1)] keeps_calls(5) [OF K(1) _ read_inspect] keeps_calls(7) [OF K(1) _ read_transaction(1)]
    keeps_calls(7) [OF K(1) _ read_create_stage]
    keeps_calls(11) [OF K(1)] transacts_calls(1) [OF K(2)]
  by (auto simp: duckdb_replace_begin_def duckdb_append_begin_def duckdb_merge_begin_def inspect_schema_def
      Let_def apfst_def map_prod_def quoted_dataset_def split: prod.splits sum.splits)

lemma duckdb_begin_terminal:
  "fst (duckdb_replace_begin Q w) = Inl fail \<Longrightarrow> wx_transience fail = Terminal"
  "fst (duckdb_append_begin Q v) = Inl fail \<Longrightarrow> wx_transience fail = Terminal"
  "fst (duckdb_merge_begin Q token u) = Inl fail \<Longrightarrow> wx_transience fail = Terminal"
  by (auto simp: duckdb_replace_begin_def duckdb_append_begin_def duckdb_merge_begin_def inspect_schema_def
      write_failure_from_def Let_def apfst_def map_prod_def split: prod.splits sum.splits)

lemma duckdb_refresh_phase:
  assumes K: "destination_contract K X (Duckdb_Destination table keys) Full_Refresh (us_world st)"
    and run: "write_phase policy (destination_session K (Duckdb_Destination table keys) Full_Refresh) Full_Refresh 1 chunks st r st'"
    and batches: "\<forall>b. Inr b \<in> set chunks \<longrightarrow> batch_columns b = columns" and chunks: "chunks \<noteq> []"
  shows "case r of
      Inr outcome \<Rightarrow> \<exists>bs. chunks = map Inr bs
        \<and> landed X (Duckdb_Destination table keys) Full_Refresh columns facts bs (us_world st) (us_world st')
    | Inl (Before_Session fail) \<Rightarrow> unchanged X (Duckdb_Destination table keys) (us_world st) (us_world st')
    | Inl (In_Session fail) \<Rightarrow> failed_write X (Duckdb_Destination table keys) Full_Refresh columns chunks
        (wx_committed_chunks fail) (us_world st) (us_world st')"
proof -
  let ?h = "us_world st" and ?D = "duckdb_replace_ops (dc_duckdb K)" and ?V = "vw_table X"
  have C: "duckdb_contract (dc_duckdb K) ?V (vw_cell X) (dt_dataset (df_table (duckdb_refresh_start table ?h))) (merge_stage_name (dc_token K))"
    using K by (simp add: duckdb_refresh_start_def)
  note K' = C [unfolded duckdb_contract_def, THEN conjunct1] C [unfolded duckdb_contract_def, THEN conjunct2]
  have db: "df_db (duckdb_refresh_start table ?h) = ho_duckdb ?h" "ho_duckdb (duckdb_refresh_put w ?h) = df_db w" for w
    by (simp_all add: duckdb_refresh_start_def duckdb_refresh_put_def)
  have terminal: "wx_transience fail = Terminal" if "fst (d_begin ?D Full_Refresh w) = Inl fail" for w fail
    using that duckdb_begin_terminal(1) by (simp add: duckdb_replace_ops_def)
  from run [unfolded destination_session.simps duckdb_session.simps] terminal show ?thesis
  proof (rule duckdb_refresh_port.hosted_write_phase)
    fix fail w
    assume "d_begin ?D Full_Refresh (duckdb_refresh_start table ?h) = (Inl fail, w)" "r = Inl (Before_Session fail)"
      "us_world st' = duckdb_refresh_put w ?h"
    then show ?thesis using duckdb_begin_kept(1) [OF K', of "duckdb_refresh_start table ?h" fail w] db by (simp add: duckdb_replace_ops_def)
  next
    fix w st1
    assume b: "d_begin ?D Full_Refresh (duckdb_refresh_start table ?h) = (Inr (), us_world w)"
      "run_serial_write_phase policy ?D chunks w = (r, st1)" "us_world st' = duckdb_refresh_put (us_world st1) ?h"
    have "duckdb_replace_begin (dc_duckdb K) (duckdb_refresh_start table ?h) = (Inr (), us_world w)"
      using b(1) by (simp add: duckdb_replace_ops_def)
    from duckdb_replace_run [OF C this b(2) batches chunks] show ?thesis
      using b(3) db by (auto simp: failed_write_def mode_effect_def split: sum.splits write_phase_failure.splits)
  qed
qed

lemma duckdb_append_phase:
  assumes K: "destination_contract K X (Duckdb_Destination table keys) Append (us_world st)"
    and run: "write_phase policy (destination_session K (Duckdb_Destination table keys) Append) Append 1 chunks st r st'"
    and batches: "\<forall>b. Inr b \<in> set chunks \<longrightarrow> rectangular b"
  shows "case r of
      Inr outcome \<Rightarrow> \<exists>bs. chunks = map Inr bs
        \<and> landed X (Duckdb_Destination table keys) Append columns facts bs (us_world st) (us_world st')
    | Inl (Before_Session fail) \<Rightarrow> unchanged X (Duckdb_Destination table keys) (us_world st) (us_world st')
    | Inl (In_Session fail) \<Rightarrow> failed_write X (Duckdb_Destination table keys) Append columns chunks
        (wx_committed_chunks fail) (us_world st) (us_world st')"
proof -
  let ?h = "us_world st" and ?D = "duckdb_append_ops (dc_arrow K) (dc_duckdb K)" and ?V = "vw_table X"
  have C: "duckdb_contract (dc_duckdb K) ?V (vw_cell X) (dt_dataset (da_table (duckdb_append_start table ?h))) (merge_stage_name (dc_token K))"
    using K by (simp add: duckdb_append_start_def)
  note K' = C [unfolded duckdb_contract_def, THEN conjunct1] C [unfolded duckdb_contract_def, THEN conjunct2]
  have db: "da_db (duckdb_append_start table ?h) = ho_duckdb ?h" "ho_duckdb (duckdb_append_put w ?h) = da_db w" for w
    by (simp_all add: duckdb_append_start_def duckdb_append_put_def)
  have terminal: "wx_transience fail = Terminal" if "fst (d_begin ?D Append w) = Inl fail" for w fail
    using that duckdb_begin_terminal(2) by (simp add: duckdb_append_ops_def)
  have added: "appended old bs new \<Longrightarrow> new = add_rows (batches_rows bs) old" for old bs new
    by (cases old) (auto simp: appended_def add_rows_def split: if_splits)
  from run [unfolded destination_session.simps duckdb_session.simps] terminal show ?thesis
  proof (rule duckdb_append_port.hosted_write_phase)
    fix fail w
    assume "d_begin ?D Append (duckdb_append_start table ?h) = (Inl fail, w)" "r = Inl (Before_Session fail)"
      "us_world st' = duckdb_append_put w ?h"
    then show ?thesis using duckdb_begin_kept(2) [OF K', of "duckdb_append_start table ?h" fail w] db by (simp add: duckdb_append_ops_def)
  next
    fix w st1
    assume b: "d_begin ?D Append (duckdb_append_start table ?h) = (Inr (), us_world w)"
      "run_serial_write_phase policy ?D chunks w = (r, st1)" "us_world st' = duckdb_append_put (us_world st1) ?h"
    have "duckdb_append_begin (dc_duckdb K) (duckdb_append_start table ?h) = (Inr (), us_world w)"
      using b(1) by (simp add: duckdb_append_ops_def)
    from duckdb_append_run [OF C this b(2) batches] show ?thesis
      using b(3) db added failed_append [of chunks _ _ X "Duckdb_Destination table keys" columns ?h "us_world st'"]
      by (cases r) (auto simp: mode_effect_def split: write_phase_failure.splits)
  qed
qed

lemma duckdb_merge_phase:
  assumes K: "destination_contract K X (Duckdb_Destination table keys) Merge (us_world st)"
    and run: "write_phase policy (destination_session K (Duckdb_Destination table keys) Merge) Merge 1 chunks st r st'"
    and batches: "\<forall>b. Inr b \<in> set chunks \<longrightarrow> rectangular b" "\<forall>b. Inr b \<in> set chunks \<longrightarrow> batch_columns b = columns"
    and chunks: "chunks \<noteq> []"
  shows "case r of
      Inr outcome \<Rightarrow> \<exists>bs. chunks = map Inr bs
        \<and> landed X (Duckdb_Destination table keys) Merge columns (Some (wo_facts outcome)) bs (us_world st) (us_world st')
    | Inl (Before_Session fail) \<Rightarrow> unchanged X (Duckdb_Destination table keys) (us_world st) (us_world st')
    | Inl (In_Session fail) \<Rightarrow> failed_write X (Duckdb_Destination table keys) Merge columns chunks
        (wx_committed_chunks fail) (us_world st) (us_world st')"
proof -
  let ?h = "us_world st" and ?D = "duckdb_merge_ops (dc_arrow K) (dc_duckdb K) (dc_token K)" and ?V = "vw_table X"
  have C: "duckdb_contract (dc_duckdb K) ?V (vw_cell X) (dt_dataset (dm_table (duckdb_merge_start table keys ?h)))
      (merge_stage_name (dc_token K))"
    "merge_stage_name (dc_token K) \<noteq> dt_dataset (dm_table (duckdb_merge_start table keys ?h))"
    using K by (simp_all add: duckdb_merge_start_def)
  note K' = C(1) [unfolded duckdb_contract_def, THEN conjunct1] C(1) [unfolded duckdb_contract_def, THEN conjunct2]
  have db: "dm_db (duckdb_merge_start table keys ?h) = ho_duckdb ?h" "dm_merge_keys (duckdb_merge_start table keys ?h) = keys"
    "ho_duckdb (duckdb_merge_put w ?h) = dm_db w" for w
    by (simp_all add: duckdb_merge_start_def duckdb_merge_put_def)
  have terminal: "wx_transience fail = Terminal" if "fst (d_begin ?D Merge w) = Inl fail" for w fail
    using that duckdb_begin_terminal(3) by (simp add: duckdb_merge_ops_def)
  from run [unfolded destination_session.simps duckdb_session.simps] terminal show ?thesis
  proof (rule duckdb_merge_port.hosted_write_phase)
    fix fail w
    assume "d_begin ?D Merge (duckdb_merge_start table keys ?h) = (Inl fail, w)" "r = Inl (Before_Session fail)"
      "us_world st' = duckdb_merge_put w ?h"
    then show ?thesis
      using duckdb_begin_kept(3) [OF K', of "dc_token K" "duckdb_merge_start table keys ?h" fail w] db by (simp add: duckdb_merge_ops_def)
  next
    fix w st1
    assume b: "d_begin ?D Merge (duckdb_merge_start table keys ?h) = (Inr (), us_world w)"
      "run_serial_write_phase policy ?D chunks w = (r, st1)" "us_world st' = duckdb_merge_put (us_world st1) ?h"
    let ?columns = "map af_name (dm_destination_schema (us_world w))"
    have opened: "duckdb_merge_begin (dc_duckdb K) (dc_token K) (duckdb_merge_start table keys ?h) = (Inr (), us_world w)"
      using b(1) by (simp add: duckdb_merge_ops_def)
    have cols: "merge_done (vw_cell X) keys ?columns = merge_done (vw_cell X) keys columns"
      if e: "chunks = map Inr bs" "\<forall>b\<in>set bs. set (batch_columns b) = set ?columns" for bs
    proof (rule merge_done_columns)
      obtain c bs' where "bs = c # bs'" using e(1) chunks by (cases bs) auto
      then show "set ?columns = set columns" using e batches(2) by auto
    qed
    note ends = duckdb_merge_run [OF C opened b(2) batches(1), unfolded Let_def db]
    show ?thesis
    proof (cases r)
      case (Inr outcome)
      then obtain bs rows where e: "chunks = map Inr bs" "\<forall>b\<in>set bs. set (batch_columns b) = set ?columns"
        "merge_done (vw_cell X) keys ?columns (duckdb_rows X ?h) (batches_rows bs) (tv_committed (?V (dm_db (us_world st1))))"
        "duckdb_rows X ?h = Some rows"
        "wo_facts outcome = with_merge_counts (facts_atomic ''transactional_merge'') (size (matched_rows (vw_cell X) keys rows (batches_rows bs)))
           (size (batches_rows bs) - size (matched_rows (vw_cell X) keys rows (batches_rows bs)))"
        using ends by auto
      then show ?thesis using Inr b(3) db cols [OF e(1,2)] by (auto simp: mode_effect_def merge_stated_def Let_def)
    next
      case (Inl x)
      then show ?thesis
        using ends b(3) db cols by (auto simp: failed_write_def mode_effect_def merge_stated_def split: write_phase_failure.splits)
    qed
  qed
qed

subsection \<open>SQL Server\<close>

text \<open>Opening a session commits nothing, whether or not it succeeds.\<close>

definition commits_nothing :: "('c \<Rightarrow> sql_view) \<Rightarrow> ('c sql_writer \<Rightarrow> 'r \<times> 'c sql_writer) \<Rightarrow> bool" where
  "commits_nothing V m \<longleftrightarrow> (\<forall>w. sv_committed (V (sw_client (snd (m w)))) = sv_committed (V (sw_client w)))"

lemma commits_nothing_bind [intro]:
  "commits_nothing V m \<Longrightarrow> (\<And>x. commits_nothing V (k x)) \<Longrightarrow> commits_nothing V (op_bind m k)"
  unfolding commits_nothing_def op_bind_def by (auto split: prod.split sum.split) (metis snd_conv)+

lemma commits_nothing_lift [intro]: "commits_nothing V (op_lift r)"
  by (simp add: commits_nothing_def op_lift_def)

lemma commits_nothing_client:
  "(\<And>c. sv_committed (V (snd (call c))) = sv_committed (V c)) \<Longrightarrow> commits_nothing V (on_client name call)"
  by (auto simp: commits_nothing_def on_client_def split: prod.split) (metis snd_conv)

lemma commits_nothing_timed:
  "(\<And>c. sv_committed (V (snd (call c))) = sv_committed (V c)) \<Longrightarrow> commits_nothing V (timed call)"
  by (auto simp: commits_nothing_def timed_def split: prod.split option.split) (metis snd_conv)+

lemma connecting_commits_nothing:
  assumes "sqlserver_keeps S V"
  shows "sv_committed (V (sw_client (snd (connect_client S w)))) = sv_committed (V (sw_client w))"
proof -
  have K: "sv_committed (V (snd (ss_runtime S c))) = sv_committed (V c)"
    "sv_committed (V (snd (ss_tcp_connect S host port c))) = sv_committed (V c)"
    "sv_committed (V (snd (ss_set_nodelay S c))) = sv_committed (V c)"
    "sv_committed (V (snd (ss_client_connect S config c))) = sv_committed (V c)" for c host port config
    using assms by (simp_all add: sqlserver_keeps_def)
  have "commits_nothing V (op_bind (on_client ''runtime initialization'' (ss_runtime S)) (\<lambda>_.
     op_bind (op_lift (read_password S (sw_address w))) (\<lambda>password.
     op_bind (timed (ss_tcp_connect S (qc_host (sw_address w)) (qc_port (sw_address w)))) (\<lambda>_.
     op_bind (on_client ''connect'' (ss_set_nodelay S)) (\<lambda>_.
       timed (ss_client_connect S (client_config_of (sw_address w) password)))))))"
    using K by (intro commits_nothing_bind commits_nothing_lift commits_nothing_client commits_nothing_timed)
  then show ?thesis by (simp add: commits_nothing_def connect_client_def)
qed

lemma shape_commits_nothing:
  assumes "sqlserver_keeps S V"
  shows "sv_committed (V (sw_client (snd (existing_shape S w)))) = sv_committed (V (sw_client w))"
proof -
  have "commits_nothing V (inspect_table S)"
  proof -
    have q: "sv_committed (V (snd (ss_query S (introspection_query s t) c))) = sv_committed (V c)" for s t c
      using sql_keeps_calls(4) [OF assms _ read_introspection looking(5)] by (metis prod.collapse)
    have "commits_nothing V (op_bind (on_client ''introspection'' (ss_query S (introspection_query s t))) (\<lambda>rows. op_lift (from_catalog_rows rows)))" for s t
      using q by (intro commits_nothing_bind commits_nothing_lift commits_nothing_client)
    then show ?thesis by (simp add: commits_nothing_def inspect_table_def)
  qed
  then have "commits_nothing V (op_bind (inspect_table S) (\<lambda>shape. op_lift (k shape)))" for k
    by (intro commits_nothing_bind commits_nothing_lift)
  then have "commits_nothing V (op_bind (inspect_table S) (\<lambda>shape. if shape = [] then op_lift (Inl e) else op_lift (Inr (Some shape))))" for e
    by (simp flip: if_distrib [of op_lift])
  then show ?thesis by (simp add: commits_nothing_def existing_shape_def)
qed

lemma sql_begin_kept:
  assumes "sqlserver_keeps S V" "sql_begin S token mode w = (Inl fail, w')"
  shows "sv_committed (V (sw_client w')) = sv_committed (V (sw_client w))"
  using assms(2) connecting_commits_nothing [OF assms(1), of "w\<lparr>sw_mode := mode\<rparr>"] shape_commits_nothing [OF assms(1)]
    sql_keeps_calls(10) [OF assms(1)]
  by (auto simp: sql_begin_def drop_client_def split: prod.splits sum.splits) (metis snd_conv)+

lemma sql_begin_terminal: "fst (sql_begin S token mode w) = Inl fail \<Longrightarrow> wx_transience fail = Terminal"
  by (auto simp: sql_begin_def write_failure_from_def split: prod.splits sum.splits)

lemma sqlserver_phase:
  assumes K: "destination_contract K X (Sqlserver_Destination config keys) mode (us_world st)"
    and run: "write_phase policy (destination_session K (Sqlserver_Destination config keys) mode) mode 1 chunks st r st'"
    and batches: "\<forall>b. Inr b \<in> set chunks \<longrightarrow> rectangular b" "\<forall>b. Inr b \<in> set chunks \<longrightarrow> batch_columns b = columns"
    and chunks: "chunks \<noteq> []"
  shows "case r of
      Inr outcome \<Rightarrow> \<exists>bs. chunks = map Inr bs
        \<and> landed X (Sqlserver_Destination config keys) mode columns (Some (wo_facts outcome)) bs (us_world st) (us_world st')
    | Inl (Before_Session fail) \<Rightarrow> unchanged X (Sqlserver_Destination config keys) (us_world st) (us_world st')
    | Inl (In_Session fail) \<Rightarrow> failed_write X (Sqlserver_Destination config keys) mode columns chunks
        (wx_committed_chunks fail) (us_world st) (us_world st')"
proof -
  let ?h = "us_world st" and ?S = "dc_sqlserver K" and ?V = "vw_server X" and ?E = "dc_sql_env K"
    and ?D = "sqlserver_ops (dc_sql_env K) (dc_sqlserver K) (dc_token K)" and ?w = "sqlserver_start config keys (us_world st)"
    and ?t = "Sqlserver_Destination config keys"
  have C: "sqlserver_contract ?S ?V (vw_value X) (qc_schema (sw_address ?w)) (qc_dataset (sw_address ?w))
      (merge_stage_name (dc_token K))" "merge_stage_name (dc_token K) \<noteq> qc_dataset (sw_address ?w)"
    using K by (simp_all add: sqlserver_start_def)
  have keeps: "sqlserver_keeps ?S ?V" using C by (simp add: sqlserver_contract_def)
  have start: "sw_client ?w = ho_sqlserver ?h" "sw_merge_keys ?w = keys" "ho_sqlserver (sqlserver_put w ?h) = sw_client w" for w
    by (simp_all add: sqlserver_start_def sqlserver_put_def)
  have terminal: "wx_transience fail = Terminal" if "fst (d_begin ?D mode w) = Inl fail" for w fail
    using that sql_begin_terminal by (simp add: sqlserver_ops_def)
  from run [unfolded destination_session.simps sqlserver_session_hosted] terminal show ?thesis
  proof (rule sqlserver_port.hosted_write_phase)
    fix fail w
    assume "d_begin ?D mode ?w = (Inl fail, w)" "r = Inl (Before_Session fail)" "us_world st' = sqlserver_put w ?h"
    then show ?thesis using sql_begin_kept [OF keeps, of "dc_token K" mode ?w fail w] start by (simp add: sqlserver_ops_def)
  next
    fix w st1
    assume b: "d_begin ?D mode ?w = (Inr (), us_world w)" "run_serial_write_phase policy ?D chunks w = (r, st1)"
      "us_world st' = sqlserver_put (us_world st1) ?h"
    have opened: "sql_begin ?S (dc_token K) mode ?w = (Inr (), us_world w)" using b(1) by (simp add: sqlserver_ops_def)
    have new: "sqlserver_rows X (us_world st') = sv_committed (?V (sw_client (us_world st1)))"
      "sqlserver_rows X ?h = sv_committed (?V (sw_client ?w))" using b(3) start by simp_all
    have holds: "rel_mset (row_holds columns) rows (batches_rows bs)" "batch_columns (hd bs) = columns"
      if "chunks = map Inr bs" "committed_as ?E bs rows" for bs rows
    proof -
      show c: "batch_columns (hd bs) = columns" using that(1) chunks batches(2) by (cases bs) auto
      show "rel_mset (row_holds columns) rows (batches_rows bs)"
        using committed_as_holds [OF that(2)] batches(1) that(1) c by auto
    qed
    show ?thesis
    proof (cases mode)
      case Full_Refresh
      note ends = sqlserver_refresh_run [OF C(1) opened [unfolded Full_Refresh] b(2) chunks, unfolded Let_def]
      show ?thesis
        using ends holds new unfolding Full_Refresh
        by (auto simp: failed_write_def mode_effect_def split: sum.splits write_phase_failure.splits)
    next
      case Append
      have grown: "landed X ?t Append columns facts bs ?h (us_world st')"
        if "chunks = map Inr bs @ rest" "grown ?E bs (sv_committed (?V (sw_client ?w))) (sv_committed (?V (sw_client (us_world st1))))"
        for bs rest facts
      proof (cases bs)
        case Nil
        have "add_rows {#} old = old" for old :: "sql_row multiset option" by (cases old) (simp_all add: add_rows_def)
        then have "sqlserver_rows X (us_world st') = add_rows {#} (sqlserver_rows X ?h)"
          using that(2) new Nil by (simp add: grown_def)
        then show ?thesis using Nil by (auto simp: mode_effect_def intro!: exI [of _ "{#}"] simp: rel_mset_Zero)
      next
        case (Cons b' bs')
        then have "batch_columns (hd bs) = columns" using that(1) batches(2) by auto
        moreover have "arrived bs (sv_committed (?V (sw_client ?w))) (sv_committed (?V (sw_client (us_world st1))))"
          using grown_arrived [OF that(2)] that(1) batches(1) by auto
        ultimately show ?thesis using Cons new by (auto simp: arrived_def mode_effect_def)
      qed
      note ends = sqlserver_append_run [OF C(1) opened [unfolded Append] b(2), unfolded Let_def]
      show ?thesis
      proof (cases r)
        case (Inr outcome)
        then show ?thesis using ends grown [of _ "[]"] unfolding Append by auto
      next
        case (Inl x)
        then obtain fail bs rest where x: "x = In_Session fail" "chunks = map Inr bs @ rest" "wx_committed_chunks fail = length bs"
          "grown ?E bs (sv_committed (?V (sw_client ?w))) (sv_committed (?V (sw_client (us_world st1))))
           \<or> (\<exists>b rest'. rest = Inr b # rest' \<and> grown ?E (bs @ [b]) (sv_committed (?V (sw_client ?w))) (sv_committed (?V (sw_client (us_world st1)))))"
          using ends by (cases x) auto
        have "landed X ?t Append columns None bs ?h (us_world st')
            \<or> (\<exists>b rest'. rest = Inr b # rest' \<and> landed X ?t Append columns None (bs @ [b]) ?h (us_world st'))"
          using x(4)
        proof (elim disjE exE conjE)
          assume "grown ?E bs (sv_committed (?V (sw_client ?w))) (sv_committed (?V (sw_client (us_world st1))))"
          then show ?thesis using grown [OF x(2)] by blast
        next
          fix b rest'
          assume b: "rest = Inr b # rest'"
            "grown ?E (bs @ [b]) (sv_committed (?V (sw_client ?w))) (sv_committed (?V (sw_client (us_world st1))))"
          have "chunks = map Inr (bs @ [b]) @ rest'" using x(2) b(1) by simp
          then show ?thesis using grown [OF _ b(2)] b(1) by blast
        qed
        then show ?thesis
          using x(1-3) Inl unfolding Append failed_write_def
          by (simp del: landed.simps) blast
      qed
    next
      case Merge
      note ends = sqlserver_merge_run [OF C(1) C(2) opened [unfolded Merge] b(2) chunks, unfolded Let_def start]
      show ?thesis
      proof (cases r)
        case (Inr outcome)
        then obtain bs incoming rows where e: "chunks = map Inr bs" "committed_as ?E bs incoming"
          "merge_done (vw_value X) keys (batch_columns (hd bs)) (sqlserver_rows X ?h) incoming (sv_committed (?V (sw_client (us_world st1))))"
          "sqlserver_rows X ?h = Some rows"
          "wo_facts outcome = with_merge_counts (facts_atomic ''transactional_merge'') (size (matched_rows (vw_value X) keys rows incoming))
             (size incoming - size (matched_rows (vw_value X) keys rows incoming))"
          using ends by auto
        then show ?thesis
          using Inr new(1) holds [OF e(1,2)] unfolding Merge
          by (auto simp: mode_effect_def merge_stated_def Let_def intro!: exI [of _ incoming])
      next
        case (Inl x)
        then show ?thesis
          using ends new(1) holds unfolding Merge
          by (cases x) (auto simp: failed_write_def mode_effect_def merge_stated_def)
      qed
    qed
  qed
qed

subsection \<open>Every destination\<close>

lemma destination_phase:
  assumes K: "destination_contract K X destination mode (us_world st)"
    and mode: "validate_destination_mode destination mode = Inr ()"
    and run: "write_phase policy (destination_session K destination mode) mode 1 chunks st r st'"
    and batches: "\<forall>b. Inr b \<in> set chunks \<longrightarrow> rectangular b" "\<forall>b. Inr b \<in> set chunks \<longrightarrow> batch_columns b = columns"
    and chunks: "chunks \<noteq> []"
  shows "case r of
      Inr outcome \<Rightarrow> \<exists>bs. chunks = map Inr bs
        \<and> landed X destination mode columns (Some (wo_facts outcome)) bs (us_world st) (us_world st')
    | Inl (Before_Session fail) \<Rightarrow> unchanged X destination (us_world st) (us_world st')
    | Inl (In_Session fail) \<Rightarrow> failed_write X destination mode columns chunks (wx_committed_chunks fail) (us_world st) (us_world st')"
proof (cases destination)
  case (Parquet_Destination path)
  note K = K [unfolded this] and run = run [unfolded this]
  consider "mode = Full_Refresh" | "mode = Append"
    using mode Parquet_Destination by (cases mode) (simp_all add: validate_destination_mode_iff)
  then show ?thesis
  proof cases
    case 1
    show ?thesis
      using parquet_refresh_phase [OF _ run [unfolded 1], of X columns "Some (wo_facts (projr r))"] K
      unfolding Parquet_Destination 1 by (cases r) simp_all
  next
    case 2
    show ?thesis
      using parquet_append_phase [OF _ run [unfolded 2] batches(1), of X columns "Some (wo_facts (projr r))"] K
      unfolding Parquet_Destination 2 by (cases r) simp_all
  qed
next
  case (Duckdb_Destination table keys)
  note K = K [unfolded this] and run = run [unfolded this]
  show ?thesis
  proof (cases mode)
    case Full_Refresh
    show ?thesis
      using duckdb_refresh_phase [OF K [unfolded Full_Refresh] run [unfolded Full_Refresh] batches(2) chunks,
          where facts = "Some (wo_facts (projr r))"]
      unfolding Duckdb_Destination Full_Refresh by (cases r) simp_all
  next
    case Append
    show ?thesis
      using duckdb_append_phase [OF K [unfolded Append] run [unfolded Append] batches(1),
          where columns = columns and facts = "Some (wo_facts (projr r))"]
      unfolding Duckdb_Destination Append by (cases r) simp_all
  next
    case Merge
    show ?thesis
      using duckdb_merge_phase [OF K [unfolded Merge] run [unfolded Merge] batches chunks] unfolding Duckdb_Destination Merge .
  qed
next
  case (Sqlserver_Destination config keys)
  show ?thesis
    using sqlserver_phase [OF K [unfolded Sqlserver_Destination] run [unfolded Sqlserver_Destination] batches chunks]
    unfolding Sqlserver_Destination .
qed

end
