(* ===== verification/Load_Outcomes.thy ===== *)
theory Load_Outcomes
  imports Load_Landing
begin

section \<open>What a load leaves, whatever its destination\<close>

text \<open>
  \<open>execute_supported_load\<close> (\<open>src/lib.rs\<close>) with the destinations of \<open>Load_Sessions\<close>: the batches a source
  stream delivers, in terms of the plan of pass 1, and the end of every load in terms of what its
  destination holds.
\<close>

subsection \<open>Built batches\<close>

lemma traverse_length: "traverse f xs = Inr ys \<Longrightarrow> length ys = length xs"
  by (simp add: traverse_Inr_iff list_all2_lengthD)

lemma build_text_array_length: "build_text_array C A ft records i = Inr c \<Longrightarrow> length (column_nulls c) = length records"
  by (cases ft) (auto simp: build_text_array_def timestamp_array_def decimal_array_def rmap_eq_Inr_iff rbind_eq_Inr_iff
      map_err_eq_Inr_iff dest!: traverse_length)

lemma build_json_array_length: "build_json_array C A J ft records src i = Inr c \<Longrightarrow> length (column_nulls c) = length records"
  by (cases ft) (auto simp: build_json_array_def timestamp_array_def decimal_array_def rmap_eq_Inr_iff rbind_eq_Inr_iff
      map_err_eq_Inr_iff dest!: traverse_length)

definition plan_columns_match :: "chunk_plan \<Rightarrow> bool" where
  "plan_columns_match plan \<longleftrightarrow> length (cp_schema plan) = length (cp_fields plan)"

lemma assembled_rectangular:
  assumes "assemble A plan columns = Inr b" "length columns = length (cp_fields plan)" "plan_columns_match plan"
    and "\<forall>c\<in>set columns. length (column_nulls c) = n"
  shows "rectangular b \<and> batch_columns b = map af_name (cp_schema plan)"
proof -
  have b: "b = \<lparr>rb_schema = cp_schema plan, rb_columns = columns\<rparr>"
    using assms(1) by (auto simp: assemble_def map_err_eq_Inr_iff rmap_eq_Inr_iff)
  have "rb_rows b = n" if "columns \<noteq> []" using that assms(4) b by (cases columns) (simp_all add: rb_rows_def)
  then show ?thesis using b assms(2-4) by (cases columns) (auto simp: rectangular_def batch_columns_def plan_columns_match_def)
qed

lemma built_text_rectangular:
  assumes "build_text_chunk C A plan records = Inr b" "plan_columns_match plan"
  shows "rectangular b \<and> batch_columns b = map af_name (cp_schema plan)"
proof -
  obtain columns where t: "traverse (\<lambda>planned. build_text_array C A (pl_materialized_type planned) records
      (pl_observed_index planned)) (cp_fields plan) = Inr columns" "assemble A plan columns = Inr b"
    using assms(1) by (auto simp: build_text_chunk_def rbind_eq_Inr_iff)
  have "\<forall>c\<in>set columns. length (column_nulls c) = length records"
    using t(1) build_text_array_length by (fastforce simp: traverse_Inr_iff list_all2_conv_all_nth in_set_conv_nth)
  from assembled_rectangular [OF t(2) traverse_length [OF t(1)] assms(2) this] show ?thesis .
qed

lemma built_json_rectangular:
  assumes "build_json_chunk C A J plan records = Inr b" "plan_columns_match plan"
  shows "rectangular b \<and> batch_columns b = map af_name (cp_schema plan)"
proof -
  obtain columns where t: "traverse (\<lambda>(column_index, planned). build_json_array C A J (pl_materialized_type planned)
      records (pl_source planned) column_index) (zip [0..<length (cp_fields plan)] (cp_fields plan)) = Inr columns"
    "assemble A plan columns = Inr b"
    using assms(1) by (auto simp: build_json_chunk_def rbind_eq_Inr_iff)
  have "\<forall>c\<in>set columns. length (column_nulls c) = length records"
    using t(1) build_json_array_length by (fastforce simp: traverse_Inr_iff list_all2_conv_all_nth in_set_conv_nth)
  from assembled_rectangular [OF t(2) _ assms(2) this] show ?thesis using traverse_length [OF t(1)] by simp
qed

lemma resolved_columns_match: "resolve_plan Y d keys names ts us = Inr rs \<Longrightarrow> plan_columns_match (rs_plan rs)"
  by (cases d) (auto simp: resolve_plan_Inr_iff plan_steps_def directive_resolution_def inferred_resolution_def
      pinned_resolution_Inr_iff Let_def plan_columns_match_def chunk_plan_new_def)

subsection \<open>Delivered batches\<close>

lemma fill_checked_kept:
  "fill_checked n xs seen acc = (e, xs', seen') \<Longrightarrow> set (kept_records xs') \<subseteq> set (kept_records xs)
     \<and> (case e of Fill_Failed _ \<Rightarrow> True | Fill_Full chunk \<Rightarrow> set chunk \<subseteq> set acc \<union> set (kept_records xs)
        | Fill_Eof chunk \<Rightarrow> set chunk \<subseteq> set acc \<union> set (kept_records xs))"
proof (induction n xs seen acc rule: fill_checked.induct)
  case (2 n fail counts xs seen acc)
  then show ?case by (auto simp: kept_records_def)
next
  case (3 n kept counts xs seen acc)
  then show ?case by (fastforce simp: Let_def split: if_splits option.splits fill_end.splits)
qed auto

text \<open>A batch is built from records that were kept.\<close>

lemma checked_stream_items:
  "Inr b \<in> set (checked_stream build verify n xs seen yielded) \<Longrightarrow> \<exists>chunk. build chunk = Inr b \<and> set chunk \<subseteq> set (kept_records xs)"
proof (induction build verify n xs seen yielded rule: checked_stream.induct)
  case (1 build verify n xs seen yielded)
  obtain e xs' seen' where f: "fill_checked n xs seen [] = (e, xs', seen')" using prod_cases3 by blast
  note kept = fill_checked_kept [OF f] and item = 1(2) [unfolded checked_stream.simps [of build verify n xs seen yielded] f]
  show ?case
  proof (cases e)
    case (Fill_Full chunk)
    then consider "build chunk = Inr b" | b' where "build chunk = Inr b'" "Inr b \<in> set (checked_stream build verify n xs' seen' True)"
      using item by (auto split: sum.splits)
    then show ?thesis
    proof cases
      case 1
      then show ?thesis using kept Fill_Full by auto
    next
      case 2
      then obtain chunk' where "build chunk' = Inr b" "set chunk' \<subseteq> set (kept_records xs')"
        using "1.IH" [OF f [symmetric] Fill_Full refl] by blast
      then show ?thesis using kept by blast
    qed
  next
    case (Fill_Eof chunk)
    then show ?thesis using item kept by (auto simp: end_items_def split: sum.splits if_splits)
  qed (use item in simp)
qed

lemma checked_stream_delivers: "checked_stream build verify n xs seen False \<noteq> []"
  by (subst checked_stream.simps) (auto split: prod.split fill_end.split sum.split)

definition planned_columns :: "source_chunks \<Rightarrow> string list" where
  "planned_columns chunks = (case chunks of
     Csv_Chunks c \<Rightarrow> map af_name (cp_schema (cc_plan c)) | Jsonl_Chunks c \<Rightarrow> map af_name (cp_schema (jc_plan c)))"

lemma csv_items_shape:
  assumes "cc_phase c = Not_Started" "plan_columns_match (cc_plan c)"
  shows "csv_items C A L so c \<noteq> []"
    "Inr b \<in> set (csv_items C A L so c) \<Longrightarrow> rectangular b \<and> batch_columns b = planned_columns (Csv_Chunks c)"
proof -
  have "\<not> cg_yielded_any reading" if "csv_open L so c = Inr reading" for reading
    using that by (simp add: csv_open_Inr_iff)
  then show "csv_items C A L so c \<noteq> []"
    by (cases "csv_open L so c") (simp_all add: csv_items_start [OF assms(1)] checked_stream_delivers)
  assume "Inr b \<in> set (csv_items C A L so c)"
  then obtain chunk where "build_text_chunk C A (cc_plan c) chunk = Inr b"
    by (auto simp: csv_items_start [OF assms(1)] split: sum.splits dest!: checked_stream_items)
  then show "rectangular b \<and> batch_columns b = planned_columns (Csv_Chunks c)"
    using built_text_rectangular [OF _ assms(2)] by (simp add: planned_columns_def)
qed

lemma jsonl_items_shape:
  assumes "jc_phase c = Not_Started" "plan_columns_match (jc_plan c)"
  shows "jsonl_items C A T so c \<noteq> []"
    "Inr b \<in> set (jsonl_items C A T so c) \<Longrightarrow> rectangular b \<and> batch_columns b = planned_columns (Jsonl_Chunks c)"
proof -
  show "jsonl_items C A T so c \<noteq> []"
    by (cases "jsonl_open so c") (simp_all add: jsonl_items_start [OF assms(1)] checked_stream_delivers)
  assume "Inr b \<in> set (jsonl_items C A T so c)"
  then obtain chunk where "build_json_chunk C A (jt_print T) (jc_plan c) chunk = Inr b"
    by (auto simp: jsonl_items_start [OF assms(1)] split: sum.splits dest!: checked_stream_items)
  then show "rectangular b \<and> batch_columns b = planned_columns (Jsonl_Chunks c)"
    using built_json_rectangular [OF _ assms(2)] by (simp add: planned_columns_def)
qed

text \<open>Whatever pass 2 finds, every batch of a load has the columns its plan names.\<close>

lemma load_items_shape:
  assumes "prepare_load W def sink f = Some (Inr (p, sr), sink', f')"
  shows "source_items W (sr_chunks sr) \<noteq> []"
    "Inr b \<in> set (source_items W (sr_chunks sr)) \<Longrightarrow> rectangular b \<and> batch_columns b = planned_columns (sr_chunks sr)"
proof -
  obtain d f1 f2 where read: "read_load W def p d sink f1 = Some (Inr sr, sink', f2)" using assms by (rule prepare_load_Inr)
  consider (csv) c where "sr_chunks sr = Csv_Chunks c" "cc_phase c = Not_Started" "plan_columns_match (cc_plan c)"
    | (jsonl) c where "sr_chunks sr = Jsonl_Chunks c" "jc_phase c = Not_Started" "plan_columns_match (jc_plan c)"
    using read resolved_columns_match
    by (fastforce simp: read_load_def read_source_def read_csv_def read_jsonl_def text_finish_def json_finish_def Let_def
        source_read_of_def split: if_splits sum.splits prod.splits option.splits)
  then have "source_items W (sr_chunks sr) \<noteq> []
    \<and> (Inr b \<in> set (source_items W (sr_chunks sr)) \<longrightarrow> rectangular b \<and> batch_columns b = planned_columns (sr_chunks sr))"
  proof cases
    case (csv c)
    then show ?thesis
      by (auto simp: source_items_def csv_items_shape(1) [OF csv(2,3)] dest: csv_items_shape(2) [OF csv(2,3)])
  next
    case (jsonl c)
    then show ?thesis
      by (auto simp: source_items_def jsonl_items_shape(1) [OF jsonl(2,3)] dest: jsonl_items_shape(2) [OF jsonl(2,3)])
  qed
  then show "source_items W (sr_chunks sr) \<noteq> []"
    "Inr b \<in> set (source_items W (sr_chunks sr)) \<Longrightarrow> rectangular b \<and> batch_columns b = planned_columns (sr_chunks sr)"
    by simp_all
qed

subsection \<open>The end of a load\<close>

lemma load_ends:
  assumes W: "lw_destination W = destination_session K" and serial: "execution_ok (ld_execution def)"
    and contract: "\<forall>p sr s g. prepare_load W def sink f = Some (Inr (p, sr), s, g) \<longrightarrow>
      destination_contract K X (lp_destination p) (lp_mode p) h"
    and load: "execute_supported_load W def sink f h r sink' f' h'"
  obtains (stopped) fail where "prepare_load W def sink f = Some (Inl fail, sink', f')" "r = Inl fail" "h' = h"
  | (written) p sr attempts outcome bs where "prepare_load W def sink f = Some (Inr (p, sr), sink', f')"
      "r = Inr (success_details W def p sr attempts outcome)" "source_items W (sr_chunks sr) = map Inr bs"
      "landed X (lp_destination p) (lp_mode p) (planned_columns (sr_chunks sr)) (Some (wo_facts outcome)) bs h h'"
  | (not_begun) p sr attempts fail where "prepare_load W def sink f = Some (Inr (p, sr), sink', f')"
      "r = Inl (write_failure_report W def p sr attempts (Before_Session fail))" "unchanged X (lp_destination p) h h'"
  | (broken) p sr attempts fail where "prepare_load W def sink f = Some (Inr (p, sr), sink', f')"
      "r = Inl (write_failure_report W def p sr attempts (In_Session fail))"
      "failed_write X (lp_destination p) (lp_mode p) (planned_columns (sr_chunks sr)) (source_items W (sr_chunks sr))
         (wx_committed_chunks fail) h h'"
  using load
proof (rule execute_supported_loadE)
  fix fail
  assume "r = Inl fail" "h' = h" "prepare_load W def sink f = Some (Inl fail, sink', f')"
  then show ?thesis using stopped by blast
next
  fix p and sr :: source_read and r1 st
  let ?st = "\<lparr>us_world = h, us_attempts = [], us_sleeps = []\<rparr>" and ?items = "source_items W (sr_chunks sr)"
    and ?columns = "planned_columns (sr_chunks sr)"
  assume a: "r = finish_load W def p sr (us_attempts st) r1" "h' = us_world st"
    and prep: "prepare_load W def sink f = Some (Inr (p, sr), sink', f')"
    and phase: "write_phase (resolve_retry_policy (ld_execution def)) (lw_destination W (lp_destination p) (lp_mode p)) (lp_mode p)
      (load_parallelism def p) ?items ?st r1 st"
  obtain v: "validate_definition (lw_env W) def = Inr p" using prep by (rule prepare_load_Inr)
  note one = load_parallelism_serial [OF serial, of p] and shape = load_items_shape [OF prep]
  have "destination_contract K X (lp_destination p) (lp_mode p) (us_world ?st)" using contract prep by simp
  from destination_phase [OF this validate_definition_Inr(7) [OF v] phase [unfolded W one]] shape
  have out: "case r1 of
      Inr outcome \<Rightarrow> \<exists>bs. ?items = map Inr bs
        \<and> landed X (lp_destination p) (lp_mode p) ?columns (Some (wo_facts outcome)) bs h (us_world st)
    | Inl (Before_Session fail) \<Rightarrow> unchanged X (lp_destination p) h (us_world st)
    | Inl (In_Session fail) \<Rightarrow> failed_write X (lp_destination p) (lp_mode p) ?columns ?items (wx_committed_chunks fail) h (us_world st)"
    by (simp cong: sum.case_cong write_phase_failure.case_cong)
  show ?thesis
  proof (cases r1)
    case (Inr outcome)
    then show ?thesis using out a prep written [of p sr "us_attempts st" outcome] by (auto simp: finish_load_def)
  next
    case (Inl x)
    then show ?thesis
      using out a prep not_begun [of p sr "us_attempts st"] broken [of p sr "us_attempts st"] by (cases x) (simp_all add: finish_load_def)
  qed
qed

end
