(* ===== verification/Merge_Loads.thy ===== *)
theory Merge_Loads
  imports Load_Outcomes Pin_Facts
begin

section \<open>Loads that merge\<close>

text \<open>
  What the record checks of pass 1 and 2 (\<open>src/schema.rs\<close>) mean for the merge at the end: no batch
  of a merge load holds a null in a merge key, so every record of it is found in the table under
  its key.
\<close>

subsection \<open>A key's column in the plan\<close>

lemma map_of_zip_first:
  "map_of (zip xs [m..<m + length xs]) k = Some j \<Longrightarrow> m \<le> j \<and> j < m + length xs \<and> xs ! (j - m) = k \<and> k \<notin> set (take (j - m) xs)"
proof (induction xs arbitrary: m)
  case (Cons x xs)
  have upt: "[m..<m + Suc (length xs)] = m # [Suc m..<Suc m + length xs]" by (simp add: upt_conv_Cons del: upt_Suc)
  show ?case
  proof (cases "x = k")
    case True
    then have "j = m" using Cons.prems by (simp only: upt length_Cons zip_Cons_Cons map_of.simps fst_conv snd_conv fun_upd_apply) simp
    then show ?thesis using True by simp
  next
    case False
    then have "map_of (zip xs [Suc m..<Suc m + length xs]) k = Some j"
      using Cons.prems by (simp only: upt length_Cons zip_Cons_Cons map_of.simps fst_conv snd_conv fun_upd_apply) simp
    from Cons.IH [OF this] have j: "Suc m \<le> j" "j < Suc m + length xs" "xs ! (j - Suc m) = k" "k \<notin> set (take (j - Suc m) xs)"
      by simp_all
    then have "j - m = Suc (j - Suc m)" by simp
    then show ?thesis using j False by simp
  qed
qed simp

lemma index_of_first:
  assumes "index_of s name = Some j"
  shows "j < length s" "af_name (s ! j) = name" "i < j \<Longrightarrow> af_name (s ! i) \<noteq> name"
proof -
  have j: "j < length s" "map af_name s ! j = name" "name \<notin> set (take j (map af_name s))"
    using map_of_zip_first [of "map af_name s" 0 name j] assms by (simp_all add: index_of_def)
  then show "j < length s" "af_name (s ! j) = name" by simp_all
  have "map af_name s ! i \<in> set (take j (map af_name s))" if "i < j"
    using that j(1) by (auto simp: in_set_conv_nth intro!: exI [of _ i])
  then show "af_name (s ! i) \<noteq> name" if "i < j" using that j by auto
qed

lemma find_planned:
  "List.find (\<lambda>p. pl_name p = k) (map (inferred_field ovs types) columns) = map_option (inferred_field ovs types) (column_named columns k)"
  unfolding column_named_def by (induction columns) (simp_all add: inferred_field_def)

text \<open>The first field of a key's name reads the column that the key's check reads.\<close>

lemma resolved_key_field:
  assumes st: "plan_steps Y d keys names ts us columns rs0" and ok: "dir_ok d" and k: "column_named columns k = Some c"
  shows "\<exists>p. List.find (\<lambda>p. pl_name p = k) (cp_fields (rs_plan rs0)) = Some p
    \<and> pl_source p = dc_source c \<and> pl_observed_index p = dc_observed_index c"
proof -
  have inferred: ?thesis if "cp_fields (rs_plan rs0) = map (inferred_field ovs us) columns" for ovs
    using that k by (simp add: find_planned inferred_field_def)
  show ?thesis
  proof (cases d)
    case (Pinned path pin policy tr ovs)
    then obtain sm where sm: "check_override_conflicts path pin ovs = Inr ()" "match_shape path pin policy columns = Inr sm"
      "undeclared_fields (sm_matched sm) ovs = []"
      and rs0: "rs_plan rs0 = chunk_plan_new (fp_fields (assemble_pinned_plan Y path (sm_matched sm)
          (planned_added_fields (sm_added sm) us ovs)))"
      using st by (auto simp: plan_steps_def directive_resolution_def pinned_resolution_Inr_iff Let_def)
    let ?ps = "sm_matched sm @ planned_added_fields (sm_added sm) us ovs"
    have flds: "cp_fields (rs_plan rs0) = ?ps"
      unfolding rs0 by (simp add: assemble_pinned_plan_def chunk_plan_new_def Let_def)
    have p: "pinnable ovs columns ?ps"
      using extended_pinnable [OF sm] ok Pinned by (simp add: dir_ok_def)
    have dn: "distinct (map dc_dataset_name columns)" using sm(2) by (simp add: match_shape_Inr_iff)
    have "k \<in> dc_dataset_name ` set columns" using column_named_Some [OF k] by auto
    then obtain q where q: "q \<in> set ?ps" "pl_name q = k" using p unfolding pinnable_def by (metis imageE)
    then obtain c' where c': "c' \<in> set columns" "dc_dataset_name c' = k" "pl_source q = dc_source c'"
      "pl_observed_index q = dc_observed_index c'"
      using p unfolding pinnable_def named_by_def by metis
    have "c' = c" using column_named_distinct [OF dn c'(1)] c'(2) k by simp
    moreover have "List.find (\<lambda>p. pl_name p = k) ?ps = Some q"
      using find_distinct [of pl_name ?ps q] p q by (simp add: pinnable_def)
    ultimately show ?thesis using c' flds by auto
  qed (use st inferred in \<open>auto simp: plan_steps_def directive_resolution_def inferred_resolution_def
         inferred_plan_def Let_def chunk_plan_new_def\<close>)
qed

lemma planned_key:
  assumes rs: "resolve_plan Y d keys names ts us = Inr rs" and ok: "dir_ok d" and k: "k \<in> set keys"
  obtains j c where "index_of (cp_schema (rs_plan rs)) k = Some j" "j < length (cp_fields (rs_plan rs))"
    "merge_key_check c \<in> set (rs_checks rs)" "pl_observed_index (cp_fields (rs_plan rs) ! j) = dc_observed_index c"
    "pl_source (cp_fields (rs_plan rs) ! j) = dc_source c"
proof -
  let ?fs = "cp_fields (rs_plan rs)" and ?s = "cp_schema (rs_plan rs)"
  obtain columns rs0 where st: "plan_steps Y d keys names ts us columns rs0"
    and rs': "rs = rs0\<lparr>rs_checks := map (\<lambda>k. merge_key_check (the (column_named columns k))) keys @ rs_checks rs0,
        rs_decision := dir_stamp d (rs_decision rs0)\<rparr>"
    using rs by (auto simp: resolve_plan_Inr_iff)
  obtain c where c: "column_named columns k = Some c" using st k by (auto simp: plan_steps_def)
  have check: "merge_key_check c \<in> set (rs_checks rs)" using k c by (force simp: rs')
  obtain p where p: "List.find (\<lambda>p. pl_name p = k) ?fs = Some p" "pl_source p = dc_source c" "pl_observed_index p = dc_observed_index c"
    using resolved_key_field [OF st ok c] by (auto simp: rs')
  have "rs_plan rs = chunk_plan_new ?fs" using resolve_plan_guarded [OF rs ok] by (auto simp: plan_guarded_def)
  then have names: "map af_name ?s = map pl_name ?fs" by (metis (no_types, lifting) chunk_plan.select_convs(2) chunk_plan_new_def arrow_field.select_convs(1) list.map_comp map_eq_conv comp_apply)
  have "pl_name p = k" "p \<in> set ?fs" using find_Some_iff' [OF p(1)] by simp_all
  then have "k \<in> af_name ` set ?s" using names by (metis image_eqI set_map)
  then obtain j where j: "index_of ?s k = Some j" using index_of_None_iff by fastforce
  have len: "length ?s = length ?fs" using names by (metis length_map)
  have at: "af_name (?s ! i) = pl_name (?fs ! i)" if "i < length ?fs" for i using names that len by (metis nth_map)
  have "List.find (\<lambda>p. pl_name p = k) ?fs = Some (?fs ! j)"
    using index_of_first [OF j] at len by (auto simp: find_Some_iff intro!: exI [of _ j])
  then show ?thesis using that [OF j _ check] p index_of_first(1) [OF j] len by simp
qed

subsection \<open>The cells of a built batch\<close>

lemma column_cells_null:
  "i < length (column_nulls c) \<Longrightarrow> (column_cells c ! i = Cell_Null) = column_nulls c ! i"
  by (cases c) (auto simp: cell_of_def split: option.split)

lemma traverse_nulls:
  assumes "traverse f records = Inr vs" "\<And>r v. f r = Inr v \<Longrightarrow> (v = None) = absent r"
  shows "map (\<lambda>x. x = None) vs = map absent records"
  using assms by (auto simp: traverse_Inr_iff list_all2_conv_all_nth intro!: nth_equalityI)

lemma text_cell_null: "text_cell i tname parse r = Inr v \<Longrightarrow> (v = None) = (tx_cells r ! i = None)"
  by (auto simp: text_cell_def rmap_eq_Inr_iff split: option.splits)

lemma json_cell_null:
  "json_cell J raw i tname take_value src r = Inr v \<Longrightarrow> (v = None) = (present (json_value src (js_object r)) = None)"
  by (auto simp: json_cell_def rmap_eq_Inr_iff split: option.splits)

lemma build_text_array_nulls:
  "build_text_array C A ft records i = Inr c \<Longrightarrow> column_nulls c = map (\<lambda>r. tx_cells r ! i = None) records"
  by (cases ft) (auto simp: build_text_array_def timestamp_array_def decimal_array_def rmap_eq_Inr_iff rbind_eq_Inr_iff
      map_err_eq_Inr_iff dest!: traverse_nulls [OF _ text_cell_null])

lemma build_json_array_nulls:
  "build_json_array C A J ft records src i = Inr c \<Longrightarrow>
     column_nulls c = map (\<lambda>r. present (json_value src (js_object r)) = None) records"
  by (cases ft) (auto simp: build_json_array_def timestamp_array_def decimal_array_def rmap_eq_Inr_iff rbind_eq_Inr_iff
      map_err_eq_Inr_iff json_scalar_None_iff dest!: traverse_nulls [OF _ json_cell_null])

lemma batch_row_cell:
  assumes b: "rectangular b" "rb_schema b = schema" and j: "index_of schema k = Some j" and i: "i < rb_rows b"
  shows "(batch_row b i k = Cell_Null) = column_nulls (rb_columns b ! j) ! i" "i < length (column_nulls (rb_columns b ! j))"
proof -
  have "j < length (rb_columns b)" using b index_of_first(1) [OF j] by (simp add: rectangular_def)
  then have "length (column_nulls (rb_columns b ! j)) = rb_rows b" using b by (simp add: rectangular_def)
  then show "(batch_row b i k = Cell_Null) = column_nulls (rb_columns b ! j) ! i" "i < length (column_nulls (rb_columns b ! j))"
    using i b(2) j column_cells_null by (simp_all add: batch_row_def)
qed

lemma text_chunk_cell:
  assumes built: "build_text_chunk C A plan records = Inr b" "plan_columns_match plan"
    and j: "index_of (cp_schema plan) k = Some j" and i: "i < rb_rows b"
  shows "i < length records"
    "(batch_row b i k = Cell_Null) = (tx_cells (records ! i) ! pl_observed_index (cp_fields plan ! j) = None)"
proof -
  obtain columns where t: "traverse (\<lambda>planned. build_text_array C A (pl_materialized_type planned) records
      (pl_observed_index planned)) (cp_fields plan) = Inr columns" "assemble A plan columns = Inr b"
    using built(1) by (auto simp: build_text_chunk_def rbind_eq_Inr_iff)
  have b: "rb_schema b = cp_schema plan" "rb_columns b = columns"
    using t(2) by (auto simp: assemble_def map_err_eq_Inr_iff rmap_eq_Inr_iff)
  have "j < length (cp_fields plan)" using index_of_first(1) [OF j] built(2) by (simp add: plan_columns_match_def)
  then have "build_text_array C A (pl_materialized_type (cp_fields plan ! j)) records (pl_observed_index (cp_fields plan ! j))
      = Inr (columns ! j)"
    using t(1) by (simp add: traverse_Inr_iff list_all2_conv_all_nth)
  from build_text_array_nulls [OF this] show "i < length records"
    "(batch_row b i k = Cell_Null) = (tx_cells (records ! i) ! pl_observed_index (cp_fields plan ! j) = None)"
    using batch_row_cell [OF built_text_rectangular [OF built, THEN conjunct1] b(1) j i] b(2) by auto
qed

lemma json_chunk_cell:
  assumes built: "build_json_chunk C A J plan records = Inr b" "plan_columns_match plan"
    and j: "index_of (cp_schema plan) k = Some j" and i: "i < rb_rows b"
  shows "i < length records"
    "(batch_row b i k = Cell_Null) = (present (json_value (pl_source (cp_fields plan ! j)) (js_object (records ! i))) = None)"
proof -
  obtain columns where t: "traverse (\<lambda>(column_index, planned). build_json_array C A J (pl_materialized_type planned)
      records (pl_source planned) column_index) (zip [0..<length (cp_fields plan)] (cp_fields plan)) = Inr columns"
    "assemble A plan columns = Inr b"
    using built(1) by (auto simp: build_json_chunk_def rbind_eq_Inr_iff)
  have b: "rb_schema b = cp_schema plan" "rb_columns b = columns"
    using t(2) by (auto simp: assemble_def map_err_eq_Inr_iff rmap_eq_Inr_iff)
  have "j < length (cp_fields plan)" using index_of_first(1) [OF j] built(2) by (simp add: plan_columns_match_def)
  then have "build_json_array C A J (pl_materialized_type (cp_fields plan ! j)) records (pl_source (cp_fields plan ! j)) j
      = Inr (columns ! j)"
    using t(1) by (simp add: traverse_Inr_iff list_all2_conv_all_nth)
  from build_json_array_nulls [OF this] show "i < length records"
    "(batch_row b i k = Cell_Null) = (present (json_value (pl_source (cp_fields plan ! j)) (js_object (records ! i))) = None)"
    using batch_row_cell [OF built_json_rectangular [OF built, THEN conjunct1] b(1) j i] b(2) by auto
qed

subsection \<open>Kept records pass the checks\<close>

lemma kept_record: "r \<in> set (kept_records xs) \<Longrightarrow> \<exists>counts. (Inr (Some r), counts) \<in> set xs"
  by (induction xs) (auto simp: kept_records_def split: sum.splits option.splits)

lemma csv_record_kept:
  "csv_check_record C self rec = Inr (Some r) \<Longrightarrow> validate_text_record C r (cc_checks self) (cc_field_names self) = None"
  by (auto simp: csv_check_record_def cross_check_def rmap_eq_Inr_iff
      split: csv_item.splits record_disposition.splits bool.splits) (metis record_disposition.exhaust)+

lemma csv_kept_pass:
  "r \<in> set (kept_records (csv_checked C self recs)) \<Longrightarrow> validate_text_record C r (cc_checks self) (cc_field_names self) = None"
  by (drule kept_record) (auto simp: csv_checked_def intro: csv_record_kept sym)

lemma jsonl_line_kept:
  "jsonl_check_line C T self line n = (Inr (Some r), counts) \<Longrightarrow> \<not> json_record_violates C r (jc_checks self)"
  by (auto simp: jsonl_check_line_def cross_check_def rmap_eq_Inr_iff
      split: jsonl_line.splits option.splits record_disposition.splits bool.splits if_splits) (metis record_disposition.exhaust)+

lemma jsonl_kept_pass:
  "r \<in> set (kept_records (jsonl_checked C T self reader n)) \<Longrightarrow> \<not> json_record_violates C r (jc_checks self)"
proof (induction C T self reader n rule: jsonl_checked.induct)
  case (1 C T self reader n)
  obtain x reader' where x: "read_until_newline reader = (x, reader')" by fastforce
  show ?case
  proof (cases x)
    case (Inl e)
    then show ?thesis using 1(2) x by (subst (asm) jsonl_checked.simps) (simp add: kept_records_def)
  next
    case (Inr line)
    then consider "r \<in> set (kept_records (jsonl_checked C T self reader' (n + 1)))" "line \<noteq> []"
      | counts where "jsonl_check_line C T self line (n + 1) = (Inr (Some r), counts)"
      using 1(2) x by (subst (asm) jsonl_checked.simps)
        (cases "jsonl_check_line C T self line (n + 1)", auto simp: kept_records_def split: if_splits sum.splits option.splits)
    then show ?thesis
    proof cases
      case 1
      then show ?thesis using "1.IH" [OF x [symmetric] Inr] by simp
    next
      case 2
      then show ?thesis by (rule jsonl_line_kept)
    qed
  qed
qed

subsection \<open>No key of a batch is null\<close>

definition keys_filled :: "string list \<Rightarrow> record_batch \<Rightarrow> bool" where
  "keys_filled keys b \<longleftrightarrow> (\<forall>k\<in>set keys. \<forall>i<rb_rows b. batch_row b i k \<noteq> Cell_Null)"

lemma text_chunk_keys:
  assumes rs: "resolve_plan Y d keys names ts us = Inr rs" and ok: "dir_ok d"
    and built: "build_text_chunk C A (rs_plan rs) records = Inr b"
    and pass: "\<forall>r\<in>set records. validate_text_record C r (rs_checks rs) field_names = None"
  shows "keys_filled keys b"
  unfolding keys_filled_def
proof (intro ballI allI impI)
  fix k i assume k: "k \<in> set keys" and i: "i < rb_rows b"
  obtain j c where j: "index_of (cp_schema (rs_plan rs)) k = Some j" "merge_key_check c \<in> set (rs_checks rs)"
    "pl_observed_index (cp_fields (rs_plan rs) ! j) = dc_observed_index c"
    using rs ok k by (rule planned_key)
  note cell = text_chunk_cell [OF built resolved_columns_match [OF rs] j(1) i]
  have "text_survives C (rs_checks rs) field_names (records ! i)" using pass cell(1) by (simp add: text_survives_def)
  from text_survives_check [OF this j(2)] show "batch_row b i k \<noteq> Cell_Null"
    using cell(2) j(3) by (auto simp: text_check_violated_def merge_key_check_def)
qed

lemma json_chunk_keys:
  assumes rs: "resolve_plan Y d keys names ts us = Inr rs" and ok: "dir_ok d"
    and built: "build_json_chunk C A J (rs_plan rs) records = Inr b"
    and pass: "\<forall>r\<in>set records. \<not> json_record_violates C r (rs_checks rs)"
  shows "keys_filled keys b"
  unfolding keys_filled_def
proof (intro ballI allI impI)
  fix k i assume k: "k \<in> set keys" and i: "i < rb_rows b"
  obtain j c where j: "index_of (cp_schema (rs_plan rs)) k = Some j" "merge_key_check c \<in> set (rs_checks rs)"
    "pl_source (cp_fields (rs_plan rs) ! j) = dc_source c"
    using rs ok k by (rule planned_key)
  note cell = json_chunk_cell [OF built resolved_columns_match [OF rs] j(1) i]
  have "\<not> json_check_violated C (js_object (records ! i)) (merge_key_check c)"
    using pass cell(1) j(2) by (auto simp: json_record_violates_def list_ex_iff)
  then show "batch_row b i k \<noteq> Cell_Null"
    using cell(2) j(3) by (auto simp: json_check_violated_def merge_key_check_def)
qed

text \<open>What pass 1 hands to pass 2.\<close>

lemma load_items_keys:
  assumes prep: "prepare_load W def sink f = Some (Inr (p, sr), sink', f')" and wf: "rename_block_ok (ld_transform def)"
  shows "set (lp_merge_keys p) \<subseteq> set (planned_columns (sr_chunks sr))"
    "Inr b \<in> set (source_items W (sr_chunks sr)) \<Longrightarrow> keys_filled (lp_merge_keys p) b"
proof -
  obtain d f1 f2 where dir: "resolve_schema_directive (lw_yaml W) (ld_schema def) (ld_transform def) (load_format p) f = (Inr d, f1)"
    and read: "read_load W def p d sink f1 = Some (Inr sr, sink', f2)" using prep by (rule prepare_load_Inr)
  have ok: "dir_ok d" using resolve_schema_directive_ok [OF dir wf] by simp
  consider (csv) c rs names ts us where "sr_chunks sr = Csv_Chunks c" "cc_phase c = Not_Started"
      "cc_plan c = rs_plan rs" "cc_checks c = rs_checks rs" "resolve_plan (lw_yaml W) d (lp_merge_keys p) names ts us = Inr rs"
    | (jsonl) c rs names ts us where "sr_chunks sr = Jsonl_Chunks c" "jc_phase c = Not_Started"
      "jc_plan c = rs_plan rs" "jc_checks c = rs_checks rs" "resolve_plan (lw_yaml W) d (lp_merge_keys p) names ts us = Inr rs"
    using read
    by (fastforce simp: read_load_def read_source_def read_csv_def read_jsonl_def text_finish_def json_finish_def Let_def
        source_read_of_def split: if_splits sum.splits prod.splits option.splits)
  note parts = this
  have "k \<in> set (planned_columns (sr_chunks sr))" if key: "k \<in> set (lp_merge_keys p)" for k
    using parts
  proof cases
    case (csv c rs names ts us)
    obtain j where "index_of (cp_schema (rs_plan rs)) k = Some j" using csv(5) ok key by (rule planned_key)
    then show ?thesis using index_of_first(1,2) csv(1,3) by (fastforce simp: planned_columns_def)
  next
    case (jsonl c rs names ts us)
    obtain j where "index_of (cp_schema (rs_plan rs)) k = Some j" using jsonl(5) ok key by (rule planned_key)
    then show ?thesis using index_of_first(1,2) jsonl(1,3) by (fastforce simp: planned_columns_def)
  qed
  then show "set (lp_merge_keys p) \<subseteq> set (planned_columns (sr_chunks sr))" by blast
  assume item: "Inr b \<in> set (source_items W (sr_chunks sr))"
  show "keys_filled (lp_merge_keys p) b"
    using parts
  proof cases
    case (csv c rs names ts us)
    then have "Inr b \<in> set (csv_items (lw_chrono W) (lw_arrow W) (lw_csv W) (lw_source_again W (cc_path c)) c)"
      using item by (simp add: source_items_def)
    then obtain reading chunk where "build_text_chunk (lw_chrono W) (lw_arrow W) (rs_plan rs) chunk = Inr b"
      "set chunk \<subseteq> set (kept_records (csv_checked (lw_chrono W) c reading))"
      using csv(3) by (auto simp: csv_items_start [OF csv(2)] split: sum.splits dest!: checked_stream_items)
    note built = this
    have "\<forall>r\<in>set chunk. validate_text_record (lw_chrono W) r (rs_checks rs) (cc_field_names c) = None"
      using built(2) csv_kept_pass [of _ "lw_chrono W" c reading] csv(4) by auto
    from text_chunk_keys [OF csv(5) ok built(1) this] show ?thesis .
  next
    case (jsonl c rs names ts us)
    then have "Inr b \<in> set (jsonl_items (lw_chrono W) (lw_arrow W) (lw_text W) (lw_source_again W (jc_path c)) c)"
      using item by (simp add: source_items_def)
    then obtain reader n chunk where "build_json_chunk (lw_chrono W) (lw_arrow W) (jt_print (lw_text W)) (rs_plan rs) chunk = Inr b"
      "set chunk \<subseteq> set (kept_records (jsonl_checked (lw_chrono W) (lw_text W) c reader n))"
      using jsonl(3) by (auto simp: jsonl_items_start [OF jsonl(2)] split: sum.splits dest!: checked_stream_items)
    note built = this
    have "\<forall>r\<in>set chunk. \<not> json_record_violates (lw_chrono W) r (rs_checks rs)"
      using built(2) jsonl_kept_pass [of _ "lw_chrono W" "lw_text W" c reader n] jsonl(4) by auto
    from json_chunk_keys [OF jsonl(5) ok built(1) this] show ?thesis .
  qed
qed

lemma batches_rows_cell:
  assumes "\<forall>b\<in>set bs. keys_filled keys b" "r \<in># batches_rows bs" "k \<in> set keys"
  shows "r k \<noteq> Cell_Null"
proof -
  have "\<exists>b\<in>set bs. r \<in># batch_rows b" using assms(2) by (induction bs) (auto simp: batches_rows_def)
  then obtain b i where "b \<in> set bs" "i < rb_rows b" "r = batch_row b i" by (auto simp: batch_rows_def)
  then show ?thesis using assms(1,3) by (auto simp: keys_filled_def)
qed

subsection \<open>A merge of records with keys\<close>

text \<open>
  Every incoming record is in the table under its key with the values it brought, rows of other
  keys stay, and the stated counts are the records whose key the table held and the rest, which
  it gained.
\<close>

definition upserted ::
  "('x \<Rightarrow> 'v option) \<Rightarrow> string list \<Rightarrow> string list \<Rightarrow> write_facts \<Rightarrow> 'x table_row multiset option \<Rightarrow> 'x table_row multiset
   \<Rightarrow> 'x table_row multiset option \<Rightarrow> bool" where
  "upserted val keys columns stated old incoming new \<longleftrightarrow> (\<exists>rows rows' updated inserted. old = Some rows \<and> new = Some rows'
     \<and> stated = with_merge_counts (facts_atomic ''transactional_merge'') updated inserted
     \<and> updated = size (matched_rows val keys rows incoming) \<and> updated + inserted = size incoming
     \<and> size rows' = size rows + inserted
     \<and> colliding_rows val keys incoming = {#} \<and> (\<forall>s. s \<in># incoming \<longrightarrow> None \<notin> set (key_tuple val keys s))
     \<and> (\<forall>s. s \<in># incoming \<longrightarrow> (\<exists>r. r \<in># rows' \<and> key_tuple val keys r = key_tuple val keys s
          \<and> (\<forall>n\<in>set columns - set keys. r n = s n)))
     \<and> (\<forall>t. t \<in># rows \<longrightarrow> (\<forall>s. s \<in># incoming \<longrightarrow> key_tuple val keys s \<noteq> key_tuple val keys t) \<longrightarrow> t \<in># rows'))"

lemma merge_upserted:
  assumes e: "mode_effect val keys columns Merge (Some stated) old incoming new"
    and filled: "\<forall>s. s \<in># incoming \<longrightarrow> None \<notin> set (key_tuple val keys s)"
  shows "upserted val keys columns stated old incoming new"
proof -
  obtain rows rows' where r: "old = Some rows" "new = Some rows'" and m: "merge_done val keys columns (Some rows) incoming (Some rows')"
    using e by (auto simp: mode_effect_def merge_done_def)
  let ?updated = "size (matched_rows val keys rows incoming)"
  have stated: "stated = with_merge_counts (facts_atomic ''transactional_merge'') ?updated (size incoming - ?updated)"
    using e r by (simp add: mode_effect_def merge_stated_def Let_def)
  have unique: "colliding_rows val keys incoming = {#}" using m by (simp add: merge_done_def)
  have kept: "\<forall>t. t \<in># rows \<longrightarrow> (\<forall>s. s \<in># incoming \<longrightarrow> key_tuple val keys s \<noteq> key_tuple val keys t) \<longrightarrow> t \<in># rows'"
    using merge_done_rows(2) [OF m] by (metis same_key_def)
  show ?thesis
    unfolding upserted_def
    by (rule exI [of _ rows], rule exI [of _ rows'], rule exI [of _ ?updated], rule exI [of _ "size incoming - ?updated"],
        intro conjI r stated kept unique filled)
      (use merge_done_rows(1,3) [OF m] matched_size [of val keys rows incoming] filled in simp_all)
qed

text \<open>Only a null is a null to the database.\<close>

fun nulls_apart :: "('c, 'q, 'v, 'u) destination_views \<Rightarrow> destination \<Rightarrow> bool" where
  "nulls_apart X (Parquet_Destination path) \<longleftrightarrow> True"
| "nulls_apart X (Duckdb_Destination table keys) \<longleftrightarrow> (\<forall>c. vw_cell X c = None \<longrightarrow> c = Cell_Null)"
| "nulls_apart X (Sqlserver_Destination config keys) \<longleftrightarrow> (\<forall>v c. vw_value X (Some v) = None \<longrightarrow> holds v c \<longrightarrow> c = Cell_Null)"

fun merged ::
  "('c, 'q, 'v, 'u) destination_views \<Rightarrow> destination \<Rightarrow> string list \<Rightarrow> write_facts \<Rightarrow> record_batch list
   \<Rightarrow> ('c, 'q) load_host \<Rightarrow> ('c, 'q) load_host \<Rightarrow> bool" where
  "merged X (Parquet_Destination path) columns stated bs h h' \<longleftrightarrow> False"
| "merged X (Duckdb_Destination table keys) columns stated bs h h' \<longleftrightarrow>
     upserted (vw_cell X) keys columns stated (duckdb_rows X h) (batches_rows bs) (duckdb_rows X h')"
| "merged X (Sqlserver_Destination config keys) columns stated bs h h' \<longleftrightarrow>
     (\<exists>incoming. rel_mset (row_holds columns) incoming (batches_rows bs)
        \<and> upserted (vw_value X) keys columns stated (sqlserver_rows X h) incoming (sqlserver_rows X h'))"

lemma destination_keys:
  assumes "destination_connector env def dataset keys = Inr destination"
  shows "destination = Duckdb_Destination table keys' \<Longrightarrow> keys' = keys"
    "destination = Sqlserver_Destination config keys' \<Longrightarrow> keys' = keys"
  using assms
  by (cases def; auto simp: file_destination_connector_def rbind_eq_Inr_iff rmap_eq_Inr_iff split: if_splits option.splits)+

lemma landed_merged:
  assumes landed: "landed X destination Merge columns (Some stated) bs h h'" and nulls: "nulls_apart X destination"
    and filled: "\<forall>b\<in>set bs. keys_filled keys b" and sub: "set keys \<subseteq> set columns"
    and keys: "\<And>table keys'. destination = Duckdb_Destination table keys' \<Longrightarrow> keys' = keys"
      "\<And>config keys'. destination = Sqlserver_Destination config keys' \<Longrightarrow> keys' = keys"
  shows "merged X destination columns stated bs h h'"
proof (cases destination)
  case (Parquet_Destination path)
  then show ?thesis using landed by simp
next
  case (Duckdb_Destination table keys')
  then have k: "keys' = keys" by (rule keys(1))
  have "None \<notin> set (key_tuple (vw_cell X) keys s)" if "s \<in># batches_rows bs" for s
    using batches_rows_cell [OF filled that] nulls Duckdb_Destination by (auto simp: key_tuple_def) (metis option.exhaust)
  then show ?thesis using landed Duckdb_Destination k by (auto intro: merge_upserted)
next
  case (Sqlserver_Destination config keys')
  then have k: "keys' = keys" by (rule keys(2))
  obtain incoming where i: "rel_mset (row_holds columns) incoming (batches_rows bs)"
    "mode_effect (vw_value X) keys columns Merge (Some stated) (sqlserver_rows X h) incoming (sqlserver_rows X h')"
    using landed Sqlserver_Destination k by auto
  have "None \<notin> set (key_tuple (vw_value X) keys s)" if s: "s \<in># incoming" for s
  proof -
    obtain r where r: "r \<in># batches_rows bs" "row_holds columns s r"
      using i(1) s by (auto simp: rel_mset_def list_all2_conv_all_nth in_set_conv_nth) (metis nth_mem set_mset_mset)
    have "vw_value X (s k) \<noteq> None" if "k \<in> set keys" for k
    proof -
      have "k \<in> set columns" using that sub by blast
      then obtain v where "s k = Some v" "holds v (r k)" using r(2) by (auto simp: row_holds_def)
      then show ?thesis using nulls Sqlserver_Destination batches_rows_cell [OF filled r(1) that] by auto
    qed
    then show ?thesis by (force simp: key_tuple_def)
  qed
  then show ?thesis using i Sqlserver_Destination k by (auto intro!: exI [of _ incoming] merge_upserted)
qed

lemma merge_load_ends:
  assumes W: "lw_destination W = destination_session K" and serial: "execution_ok (ld_execution def)"
    and wf: "rename_block_ok (ld_transform def)"
    and contract: "\<forall>p sr s g. prepare_load W def sink f = Some (Inr (p, sr), s, g) \<longrightarrow>
      destination_contract K X (lp_destination p) (lp_mode p) h"
    and p: "validate_definition (lw_env W) def = Inr p" "lp_mode p = Merge" "nulls_apart X (lp_destination p)"
    and load: "execute_supported_load W def sink f h (Inr details) sink' f' h'"
  obtains sr bs where "prepare_load W def sink f = Some (Inr (p, sr), sink', f')" "source_items W (sr_chunks sr) = map Inr bs"
    "merged X (lp_destination p) (planned_columns (sr_chunks sr)) (xd_destination_write details) bs h h'"
  using W serial contract load
proof (cases rule: load_ends)
  case (written p' sr attempts outcome bs)
  obtain "validate_definition (lw_env W) def = Inr p'" using written(1) by (rule prepare_load_Inr)
  then have p': "p' = p" using p(1) by simp
  note keys = load_items_keys [OF written(1) wf]
  have "merged X (lp_destination p) (planned_columns (sr_chunks sr)) (wo_facts outcome) bs h h'"
  proof (rule landed_merged)
    show "landed X (lp_destination p) Merge (planned_columns (sr_chunks sr)) (Some (wo_facts outcome)) bs h h'"
      using written(4) p(2) p' by simp
    show "\<forall>b\<in>set bs. keys_filled (lp_merge_keys p) b" using keys(2) written(3) p' by auto
    show "set (lp_merge_keys p) \<subseteq> set (planned_columns (sr_chunks sr))" using keys(1) p' by simp
  qed (use p(3) destination_keys [OF validate_definition_Inr(6) [OF p(1)]] in auto)
  then show ?thesis using that [of sr bs] written p' by (simp add: success_details_def)
qed simp_all

end
