(* ===== verification/Spec2Isabelle.thy ===== *)
theory Spec2Isabelle
  imports Declared_Facts Observer_Facts Pin_Facts Dispatch_Window Parquet_Full_Refresh Pass_Csv Pass_Jsonl Duckdb_Runs Duckdb_Reference Load_Facts Sqlserver_Merge Sqlserver_Reference Sqlserver_Created Parquet_Append Merge_Loads
begin

text \<open>
  \<^bold>\<open>Data Spark: the load pipeline.\<close>

  Data Spark (\<open>src/src\<close>) is a command-line loader: a load definition names a source file
  (CSV or JSONL), a destination, a load mode and a schema posture; the program reads the source
  twice. Pass 1 observes and validates every record, resolves the schema, and rejects records;
  pass 2 reads the survivors again in chunks, builds Arrow record batches of the resolved plan
  and hands them to a destination session, one retry unit per chunk, serially or over a bounded
  window of workers. This library models that pipeline and proves what makes it correct.

  \<^bold>\<open>Theories.\<close> Every theory opens with the source lines it models.
  \<^item> \<open>Prelude\<close>, \<open>Std_Text\<close>, \<open>Std_Float\<close>, \<open>Json\<close>: what the source uses of Rust's standard library
    and of \<open>serde_json\<close>: \<open>Result\<close>, text and number parsing at the machine widths, decimal text to
    binary64, JSON values with \<open>i64\<close>/\<open>u64\<close>/float numbers as words and floats, and messages as
    lists of rendered pieces.
  \<^item> \<open>Schema_Types\<close>, \<open>Declared_Parse\<close>, \<open>Declared_Facts\<close>: the observation lattice (an instance of the
    library's semilattices), type names, and the parsers of declared decimals and timestamps
    (\<open>schema.rs\<close>).
  \<^item> \<open>Load_Types\<close>: failures, records and write facts shared by the parts.
  \<^item> \<open>Schema_Config\<close>: overrides, transforms, pinned schema files, drift policies and the schema
    directive; validation and its characterisation.
  \<^item> \<open>Schema_Checks\<close>, \<open>Schema_Plan\<close>, \<open>Schema_Resolve\<close>: record-level checks, the resolved
    transform, matching against a pin, and \<open>resolve_plan\<close>; \<open>Resolve_Facts\<close> characterises each
    step and shows that the checks known before the input is read are the resolved ones.
  \<^item> \<open>Schema_Chunks\<close>, \<open>Chunk_Facts\<close>: the columns and batches of pass 2, and that accepted records
    always build; \<open>Schema_Observers\<close>, \<open>Observer_Facts\<close>: the pass-1 observers and what their
    observations bound; \<open>Pin_Facts\<close>: a written pin is stable.
  \<^item> \<open>Retry\<close>: the retry engine (\<open>retry.rs\<close>); \<open>Destination_Port\<close>: load modes and the session
    contract, as locales; \<open>Dispatch\<close>, \<open>Dispatch_Window\<close>: the serial write phase and the bounded
    window as a step relation (\<open>dispatch.rs\<close>); \<open>File_System\<close>, \<open>Parquet\<close>, \<open>Parquet_Full_Refresh\<close>: the
    two Parquet sessions, which interpret the locales (\<open>connector.rs\<close>).
  \<^item> \<open>Utf8\<close>, \<open>Text_Files\<close>, \<open>Rejection\<close>, \<open>Rejection_Facts\<close>: UTF-8 decoding, text files under a fault
    oracle, and the rejected-record artifact with its spill and merge (\<open>rejection.rs\<close>); the
    facts relate the sink to the list of rejections it stands for.
  \<^item> \<open>Source_Bytes\<close>, \<open>Source_Reader\<close>, \<open>Source_Chunks\<close>: the source bytes with their FNV hash, records
    and lines, the two readers of pass 1, and the two chunk iterators of pass 2
    (\<open>connector.rs\<close>). \<open>Stream_Spec\<close> is the abstract stream both iterators refine
    (\<open>Stream_Csv\<close>, \<open>Stream_Jsonl\<close>); \<open>Pass_Csv\<close>, \<open>Pass_Jsonl\<close> say what a pass 1 hands over and when the
    stream it hands over ends without a failure.
  \<^item> \<open>Load_Definition\<close>, \<open>Destination_Factory\<close>: the blocks of a load definition, their validation and
    what they resolve to (\<open>lib.rs\<close>), and the destination they name (\<open>connector.rs\<close>).
  \<^item> \<open>Duckdb\<close>: the SQL text, the alignment and the three DuckDB sessions (\<open>connector.rs\<close>);
    \<open>Serial_Runs\<close> the serial write phase over sessions that are never transient, \<open>Duckdb_Facts\<close> the
    contract of a DuckDB connection over tables as multisets of rows, \<open>Duckdb_Runs\<close> what each
    session leaves in the table, and \<open>Duckdb_Reference\<close> a small database that keeps the contract.
  \<^item> \<open>Quoted_Text\<close>, \<open>Table_Rows\<close>: quoted names in SQL text, and tables as multisets of rows with what a
    merge on keys makes of them; both databases use them.
  \<^item> \<open>Sqlserver\<close>, \<open>Sqlserver_Table\<close>, \<open>Sqlserver_Session\<close>: column types and \<open>CREATE TABLE\<close>, row plans and
    wire values (\<open>sqlserver.rs\<close>), the validation of an existing table (\<open>sqlserver/table.rs\<close>), and
    the session in its three load modes (\<open>sqlserver/session.rs\<close>). \<open>Sqlserver_Text\<close> reads the SQL text
    back, \<open>Sqlserver_Values\<close> and \<open>Sqlserver_Rows\<close> say what the wire values hold and where they fit,
    \<open>Sqlserver_Created\<close> that a created table is accepted later; \<open>Sqlserver_Facts\<close> is the contract of the
    server and its driver, \<open>Sqlserver_Runs\<close> and \<open>Sqlserver_Merge\<close> what the three modes leave in the
    table, and \<open>Sqlserver_Reference\<close> a small server that keeps the contract.
  \<^item> \<open>Load_Run\<close>, \<open>Load_Report\<close>: a load from its definition to the end of the write phase, its report,
    and the run around it, as big-step relations (\<open>lib.rs\<close>); \<open>Load_Facts\<close> has the facts of the steps before
    the write phase and how the streams of the sources enter it.
  \<^item> \<open>Load_Sessions\<close>: which writer a destination opens in which load mode, all on one host that holds the
    file system, the DuckDB database and the SQL Server connection (\<open>connector.rs\<close>); the sessions of the
    other theories act on it through a locale with six interpretations. \<open>Parquet_Append\<close> is what an append
    leaves in a Parquet directory, \<open>Load_Landing\<close> the three load modes as effects on what a destination
    holds and the write phase of each destination in each mode as such an effect, and \<open>Load_Outcomes\<close> the
    ends of a whole load, whatever its source, its destination and its mode. \<open>Merge_Loads\<close> carries the
    checks on merge keys from the plan to the table: what a merge load does to it.

  \<^bold>\<open>Parameters.\<close> Code outside \<open>src/\<close> is an argument: \<open>chrono\<close>'s calendar functions, the YAML
  reader and writer, Arrow's array and batch constructors (with \<open>arrow_contract\<close>, their
  documented behaviour, as the one hypothesis on them, and \<open>reference_arrow\<close> as an instance),
  the Parquet writer's byte count, the directory listing, JSON's display form and the stream of
  UUIDs; for the readers the CSV library (bytes to a header and records with their positions),
  the printer and parser of JSON texts, and a source file as what its open, its metadata and
  its reads return; for DuckDB a record of the calls made on a connection, with \<open>duckdb_contract\<close>,
  the documented effect of each statement the source spells, as the hypothesis on them; for SQL
  Server the driver's calls in the same way, with \<open>sqlserver_contract\<close>, which speaks of tables whose
  columns take a staged value as it is (a merge into a coarser timestamp column rounds on the
  server); for a run the environment, the clock, the load id, the definition that a YAML text stands for, and the
  report's JSON text. A path is its bytes, and prints as them. The file system is a model of its own whose failures an oracle decides.

  \<^bold>\<open>Bounds.\<close> Machine integers are kept at their width where arithmetic on them can overflow:
  \<open>i64\<close>/\<open>i128\<close> values are integers with the checked operations written out, retry delays saturate
  at \<open>u64\<close>, JSON integers are 64-bit words. Column indexes and counts are naturals. The code's
  loops are structural or have a measure; only the reader of \<open>CREATE TABLE\<close> texts has fuel, the text's
  length, and a column takes at least one character of it.

  \<^bold>\<open>Not modelled.\<close> Argument parsing; the SQL Server driver's wire protocol and the 15 seconds that
  bound a connection attempt and a rollback, whose expiry is a value the driver's parameter returns.
\<close>

section \<open>Concrete inputs for the witnesses\<close>

definition demo_chrono :: "(nat \<times> nat \<times> nat, nat) chrono" where
  "demo_chrono =
     \<lparr>from_ymd_opt = (\<lambda>y m d. if 1 \<le> m \<and> m \<le> 12 \<and> 1 \<le> d \<and> d \<le> 28 then Some (y, m, d) else None),
      from_hms_micro_opt = (\<lambda>h m s f. if h < 24 \<and> m < 60 \<and> s < 60
        then Some ((h * 60 + m) * 60 + s + f) else None),
      timestamp_micros = (\<lambda>(y, m, d) t. int ((y * 12 + m) * 31 + d + t))\<rparr>"

definition demo_yaml :: yaml where
  "demo_yaml =
     \<lparr>yaml_parse = (\<lambda>text. if text = ''pin'' then Inr \<lparr>sf_version = Some 1, sf_fields = Some
          [\<lparr>ff_name = ''uid'', ff_field_type = ''utf8'', ff_nullable = Some True\<rparr>,
           \<lparr>ff_name = ''settled'', ff_field_type = ''boolean'', ff_nullable = Some True\<rparr>]\<rparr>
        else Inl ''not a pin''),
      yaml_emit = (\<lambda>_. ''pin'')\<rparr>"

definition demo_transform :: schema_transform where
  "demo_transform =
     \<lparr>tr_flatten = [\<lparr>fl_segments = [''user'', ''id''], fl_output = ''uid''\<rparr>],
      tr_select = Some [''uid'', ''paid''], tr_rename = [(''paid'', ''settled'')]\<rparr>"

definition demo_overrides :: schema_overrides where
  "demo_overrides = [\<lparr>ov_name = ''settled'', ov_field_type = Some Boolean, ov_nullable = None\<rparr>]"

definition demo_directive :: schema_directive where
  "demo_directive = Pinned ''pin.yaml''
     [\<lparr>pf_name = ''uid'', pf_field_type = Utf8, pf_nullable = False\<rparr>]
     Allow_Additive_Nullable demo_transform demo_overrides"

definition demo_bootstrap :: schema_directive where
  "demo_bootstrap = Pin_Inferred ''pin.yaml'' demo_transform demo_overrides"

definition demo_names :: "string list" where
  "demo_names = [''user'', ''paid'']"

definition demo_good :: json_record where
  "demo_good = \<lparr>js_line = 1, js_object = [(''user'', JObj [(''id'', JStr ''u7'')]), (''paid'', JBool True)]\<rparr>"

definition demo_bad :: json_record where
  "demo_bad = \<lparr>js_line = 2, js_object = [(''user'', JNull), (''paid'', JStr ''later'')]\<rparr>"

definition demo_resolution :: resolution where
  "demo_resolution = projr (json_finish demo_yaml demo_directive [''uid''] demo_names
     (fst (json_observe_all demo_chrono demo_directive (json_observer_new demo_directive [''uid''])
       [demo_good, demo_bad])))"

definition demo_csv_directive :: schema_directive where
  "demo_csv_directive = Pinned ''pin.yaml''
     [\<lparr>pf_name = ''id'', pf_field_type = Utf8, pf_nullable = False\<rparr>] Allow_Additive_Nullable
     \<lparr>tr_flatten = [], tr_select = None, tr_rename = [(''paid'', ''settled'')]\<rparr> demo_overrides"

definition demo_header :: "string list" where
  "demo_header = [''id'', ''paid'']"

definition demo_row :: text_record where
  "demo_row = \<lparr>tx_line = 2, tx_cells = [Some ''u7'', Some ''true'']\<rparr>"

definition demo_bad_row :: text_record where
  "demo_bad_row = \<lparr>tx_line = 3, tx_cells = [None, Some ''later'']\<rparr>"

definition demo_csv_resolution :: resolution where
  "demo_csv_resolution = projr (text_finish demo_yaml demo_csv_directive [''id''] demo_header
     (fst (text_observe_all demo_chrono demo_header
       (text_observer_new demo_yaml demo_csv_directive [''id''] demo_header) [demo_row, demo_bad_row])))"

lemma demo_json_finish:
  "json_finish demo_yaml demo_directive [''uid''] demo_names
     (fst (json_observe_all demo_chrono demo_directive (json_observer_new demo_directive [''uid''])
       [demo_good, demo_bad])) = Inr demo_resolution"
proof -
  have "is_ok (json_finish demo_yaml demo_directive [''uid''] demo_names
     (fst (json_observe_all demo_chrono demo_directive (json_observer_new demo_directive [''uid''])
       [demo_good, demo_bad])))" by code_simp
  then show ?thesis by (auto simp: demo_resolution_def is_ok_def split: sum.splits)
qed

lemma demo_text_finish:
  "text_finish demo_yaml demo_csv_directive [''id''] demo_header
     (fst (text_observe_all demo_chrono demo_header
       (text_observer_new demo_yaml demo_csv_directive [''id''] demo_header) [demo_row, demo_bad_row]))
   = Inr demo_csv_resolution"
proof -
  have "is_ok (text_finish demo_yaml demo_csv_directive [''id''] demo_header
     (fst (text_observe_all demo_chrono demo_header
       (text_observer_new demo_yaml demo_csv_directive [''id''] demo_header) [demo_row, demo_bad_row])))" by code_simp
  then show ?thesis by (auto simp: demo_csv_resolution_def is_ok_def split: sum.splits)
qed

lemma demo_verdicts:
  "rejection_for demo_chrono demo_resolution demo_good = None"
  "rejection_for demo_chrono demo_resolution demo_bad \<noteq> None"
  "validate_text_record demo_chrono demo_row (rs_checks demo_csv_resolution) demo_header = None"
  by code_simp+

lemma demo_dir_ok: "dir_ok demo_directive" "dir_ok demo_csv_directive" "dir_ok demo_bootstrap"
  by code_simp+

section \<open>Agreement of the two passes\<close>

text \<open>
  C8: after a JSONL pass 1 that resolves, every chunk of records the resolved checks accept
  builds a record batch with the planned columns and one row per record; pass 2 never meets a
  value it cannot coerce.
\<close>

theorem json_survivors_build:
  assumes A: "arrow_contract A" and ok: "dir_ok d" and ne: "names \<noteq> []"
    and fin: "json_finish Y d keys names (fst (json_observe_all C d (json_observer_new d keys) recs)) = Inr rs"
    and sub: "set chunk \<subseteq> set recs" and acc: "\<forall>r\<in>set chunk. rejection_for C rs r = None"
  shows "\<exists>b. build_json_chunk C A J (rs_plan rs) chunk = Inr b \<and> batch_of (rs_plan rs) (length chunk) b"
  by (rule json_chunk_builds [OF assms])

theorem json_survivors_build_witness:
  "\<exists>b. build_json_chunk demo_chrono reference_arrow (\<lambda>_. []) (rs_plan demo_resolution) [demo_good] = Inr b
     \<and> batch_of (rs_plan demo_resolution) 1 b"
  using json_survivors_build [OF reference_arrow_contract demo_dir_ok(1) _ demo_json_finish, of "[demo_good]" "\<lambda>_. []"]
    demo_verdicts(1) by (simp add: demo_names_def)

text \<open>
  C10: the outcomes a JSONL pass 1 gives, while it does not know the key union, are the verdicts
  of the resolved plan: the spilled records are the ones \<open>rejection_for\<close> rejects.
\<close>

theorem json_outcomes_match_resolution:
  assumes ok: "dir_ok d"
    and fin: "json_finish Y d keys names (fst (json_observe_all C d (json_observer_new d keys) recs)) = Inr rs"
  shows "snd (json_observe_all C d (json_observer_new d keys) recs) =
    map (\<lambda>r. if rejection_for C rs r = None then Survived else Rejected) recs"
  by (subst json_observe_all_outcomes [THEN conjunct1]) (auto simp: observer_verdict [OF ok fin])

theorem json_outcomes_match_resolution_witness:
  "snd (json_observe_all demo_chrono demo_directive (json_observer_new demo_directive [''uid''])
     [demo_good, demo_bad]) = [Survived, Rejected]"
  using json_outcomes_match_resolution [OF demo_dir_ok(1) demo_json_finish] demo_verdicts(1,2) by simp

text \<open>
  C9: after a CSV pass 1 that resolves, every chunk of records of the header's length that the
  resolved checks accept builds a record batch with the planned columns.
\<close>

theorem csv_survivors_build:
  assumes A: "arrow_contract A" and ok: "dir_ok d" and csv: "tr_flatten (dir_transform d) = []" and ne: "names \<noteq> []"
    and len: "\<forall>r\<in>set recs. length (tx_cells r) = length names"
    and fin: "text_finish Y d keys names (fst (text_observe_all C names (text_observer_new Y d keys names) recs)) = Inr rs"
    and sub: "set chunk \<subseteq> set recs" and acc: "\<forall>r\<in>set chunk. validate_text_record C r (rs_checks rs) names = None"
  shows "\<exists>b. build_text_chunk C A (rs_plan rs) chunk = Inr b \<and> batch_of (rs_plan rs) (length chunk) b"
  by (rule text_chunk_builds [OF assms])

theorem csv_survivors_build_witness:
  "\<exists>b. build_text_chunk demo_chrono reference_arrow (rs_plan demo_csv_resolution) [demo_row] = Inr b
     \<and> batch_of (rs_plan demo_csv_resolution) 1 b"
  using csv_survivors_build [OF reference_arrow_contract demo_dir_ok(2) _ _ _ demo_text_finish, of "[demo_row]"]
    demo_verdicts(3) by (simp add: demo_csv_directive_def demo_header_def demo_row_def demo_bad_row_def)

text \<open>
  C11: the records a CSV pass 1 rejects, and the reasons it writes, are those of the resolved
  checks, in the order of the input.
\<close>

theorem csv_rejections_match_resolution:
  assumes "text_finish Y d keys names (fst (text_observe_all C names (text_observer_new Y d keys names) recs)) = Inr rs"
  shows "snd (text_observe_all C names (text_observer_new Y d keys names) recs) =
    List.map_filter (\<lambda>r. validate_text_record C r (rs_checks rs) names) recs"
  using text_observe_all_rejections text_observer_new_checks [OF assms [unfolded text_finish_def]] by blast

theorem csv_rejections_match_resolution_witness:
  "snd (text_observe_all demo_chrono demo_header
     (text_observer_new demo_yaml demo_csv_directive [''id''] demo_header) [demo_row, demo_bad_row])
   = List.map_filter (\<lambda>r. validate_text_record demo_chrono r (rs_checks demo_csv_resolution) demo_header)
       [demo_row, demo_bad_row]"
  by (rule csv_rejections_match_resolution [OF demo_text_finish])

text \<open>
  C31: the plan a JSONL load resolves, or the failure it ends in, does not depend on the order
  of its records.
\<close>

theorem json_resolution_order_independent:
  assumes "mset recs = mset recs'"
  shows "json_finish Y d keys names (fst (json_observe_all C d (json_observer_new d keys) recs))
    = json_finish Y d keys names (fst (json_observe_all C d (json_observer_new d keys) recs'))"
proof -
  let ?P = "json_survives C (jo_checks (json_observer_new d keys))"
  have "mset (filter ?P recs) = mset (filter ?P recs')" using assms by (simp add: mset_filter)
  then show ?thesis
    using json_observe_all_types [of C d "json_observer_new d keys" recs]
      json_observe_all_types [of C d "json_observer_new d keys" recs']
      json_fold_order [OF assms] json_fold_order [of "filter ?P recs" "filter ?P recs'"]
    by (simp add: json_finish_def) (metis fst_conv snd_conv)
qed

theorem json_resolution_order_independent_witness:
  "json_finish demo_yaml demo_directive [''uid''] demo_names
     (fst (json_observe_all demo_chrono demo_directive (json_observer_new demo_directive [''uid''])
       [demo_bad, demo_good])) = Inr demo_resolution"
  by (rule json_resolution_order_independent [THEN trans, OF _ demo_json_finish]) simp

text \<open>The same of a CSV load.\<close>

theorem csv_resolution_order_independent:
  assumes "mset recs = mset recs'"
  shows "text_finish Y d keys names (fst (text_observe_all C names (text_observer_new Y d keys names) recs))
    = text_finish Y d keys names (fst (text_observe_all C names (text_observer_new Y d keys names) recs'))"
proof (cases "to_checks (text_observer_new Y d keys names)")
  case (Some checks)
  let ?P = "text_survives C checks names"
  have "mset (filter ?P recs) = mset (filter ?P recs')" using assms by (simp add: mset_filter)
  then show ?thesis
    using text_fold_order [OF assms] text_fold_order [of "filter ?P recs" "filter ?P recs'"]
    by (simp add: text_finish_def text_observe_all_types text_observe_survivor_types [OF Some])
next
  case None
  then show ?thesis
    using text_fold_order [OF assms]
    by (simp add: text_finish_def text_observe_all_types text_observe_unhealthy)
qed

theorem csv_resolution_order_independent_witness:
  "text_finish demo_yaml demo_csv_directive [''id''] demo_header
     (fst (text_observe_all demo_chrono demo_header
       (text_observer_new demo_yaml demo_csv_directive [''id''] demo_header) [demo_bad_row, demo_row]))
   = Inr demo_csv_resolution"
  by (rule csv_resolution_order_independent [THEN trans, OF _ demo_text_finish]) simp

section \<open>Resolution, pins and drift\<close>

text \<open>
  C32: a transform that resolves over distinct source fields gives distinct dataset names, reads
  every column at an observed slot, and addresses each column the way the record-level checks
  do before the columns are known.
\<close>

theorem resolved_columns:
  assumes "resolve_transform d names = Inr columns" "transform_wf (dir_transform d)" "distinct names"
  shows "distinct (map dc_dataset_name columns) \<and> (\<forall>c\<in>set columns.
      dc_observed_index c < length names + length (tr_flatten (dir_transform d))
      \<and> json_source_address (dir_transform d) (dc_dataset_name c) = dc_source c)"
  using transform_columns_distinct [OF assms] column_index_bound [OF assms(1)] column_address [OF assms(1,2)] by blast

theorem resolved_columns_witness:
  "distinct (map dc_dataset_name (projr (resolve_transform demo_directive demo_names)))"
proof -
  have "is_ok (resolve_transform demo_directive demo_names)" by code_simp
  then have "resolve_transform demo_directive demo_names = Inr (projr (resolve_transform demo_directive demo_names))"
    by (auto simp: is_ok_def split: sum.splits)
  moreover have "transform_wf (dir_transform demo_directive)" "distinct demo_names"
    using demo_dir_ok(1) by (simp_all add: dir_ok_def demo_names_def)
  ultimately show ?thesis using resolved_columns by blast
qed

text \<open>
  Matching columns against a pin succeeds exactly when the dataset names are distinct, every
  pinned field has a column, and either the policy admits additions or there is none; the
  matched fields are then the pin's, in pin order, with the pin's types and nullability.
\<close>

theorem match_shape_success:
  "match_shape path pin policy columns = Inr sm \<longleftrightarrow>
     distinct (map dc_dataset_name columns)
     \<and> pf_name ` set pin \<subseteq> dc_dataset_name ` set columns
     \<and> (policy = Allow_Additive_Nullable \<or> dc_dataset_name ` set columns \<subseteq> pf_name ` set pin)
     \<and> sm = \<lparr>sm_matched = map (\<lambda>f. pinned_planned f (the (column_named columns (pf_name f)))) pin,
            sm_added = added_columns pin columns\<rparr>"
  unfolding match_shape_Inr_iff by (cases policy) auto

text \<open>
  C33: a pinned load that resolves under the policy \<open>fail\<close> plans exactly the pinned fields and
  writes no pin.
\<close>

theorem fail_on_drift_plans_the_pin:
  assumes "resolve_plan Y (Pinned path pin Drift_Fail tr ovs) keys names all_types types = Inr rs"
  shows "map (\<lambda>p. (pl_name p, pl_materialized_type p, pl_nullable p)) (cp_fields (rs_plan rs))
      = map (\<lambda>f. (pf_name f, pf_field_type f, pf_nullable f)) pin \<and> rs_pinned_schema_write rs = None"
proof -
  have p: "pin_of_fields (cp_fields (rs_plan rs)) = pin" "rs_pinned_schema_write rs = None"
    using fail_policy_keeps_pin [OF assms] by blast+
  have e: "map (\<lambda>f. (pf_name f, pf_field_type f, pf_nullable f)) (pin_of_fields ps)
      = map (\<lambda>p. (pl_name p, pl_materialized_type p, pl_nullable p)) ps" for ps
    by (simp add: pin_of_fields_def comp_def)
  show ?thesis using e [of "cp_fields (rs_plan rs)"] p by simp
qed

theorem fail_on_drift_plans_the_pin_witness:
  "rs_pinned_schema_write (projr (resolve_plan demo_yaml (Pinned ''pin.yaml''
     [\<lparr>pf_name = ''settled'', pf_field_type = Boolean, pf_nullable = True\<rparr>,
      \<lparr>pf_name = ''uid'', pf_field_type = Utf8, pf_nullable = False\<rparr>]
     Drift_Fail demo_transform demo_overrides) [''uid''] demo_names [I_Utf8, I_Boolean, I_Utf8] [I_Utf8, I_Boolean, I_Utf8]))
   = None" (is "rs_pinned_schema_write (projr ?r) = None")
proof -
  have "is_ok ?r" by code_simp
  then have "?r = Inr (projr ?r)" by (auto simp: is_ok_def split: sum.splits)
  then show ?thesis using fail_on_drift_plans_the_pin by blast
qed

text \<open>
  C34: whatever the policy, a pinned load keeps the pinned fields first and unchanged; the fields
  it adds are new names, and it writes an extended pin exactly when it adds one.
\<close>

theorem pin_only_grows:
  assumes "resolve_plan Y (Pinned path pin policy tr ovs) keys names all_types types = Inr rs"
  shows "\<exists>added. pin_of_fields (cp_fields (rs_plan rs)) = pin @ added
    \<and> (\<forall>f\<in>set added. pf_name f \<notin> pf_name ` set pin)
    \<and> (rs_pinned_schema_write rs = None \<longleftrightarrow> added = [])"
  by (rule additive_policy_extends_pin [OF assms])

theorem pin_only_grows_witness:
  "\<exists>added. pin_of_fields (cp_fields (rs_plan demo_resolution)) =
      [\<lparr>pf_name = ''uid'', pf_field_type = Utf8, pf_nullable = False\<rparr>] @ added"
  using pin_only_grows [OF demo_json_finish [unfolded json_finish_def, unfolded demo_directive_def]] by blast

text \<open>
  C24: a load that writes a pin, at bootstrap or by extension, writes a text that reads back as
  the planned fields, and the next load of the same source fields under that pin plans the same
  columns, whatever it observes and under either policy, and writes no pin.
\<close>

theorem written_pin_is_stable:
  assumes rs: "resolve_plan Y d keys names all_types types = Inr rs" and ok: "dir_ok d"
    and names: "distinct names" "names \<noteq> []" and w: "rs_pinned_schema_write rs = Some pw"
    and yaml: "yaml_parse Y (yaml_emit Y (pin_file (pin_of_fields (cp_fields (rs_plan rs)))))
      = Inr (pin_file (pin_of_fields (cp_fields (rs_plan rs))))"
  shows "\<exists>pin. from_yaml Y (pw_yaml pw) = Inr pin \<and> pin = pin_of_fields (cp_fields (rs_plan rs))
    \<and> (\<forall>policy all_types' types'. \<exists>rs'.
        resolve_plan Y (repinned d pin policy) keys names all_types' types' = Inr rs'
        \<and> rs_plan rs' = rs_plan rs \<and> rs_pinned_schema_write rs' = None)"
proof -
  have "from_yaml Y (pw_yaml pw) = Inr (pin_of_fields (cp_fields (rs_plan rs)))"
    using from_yaml_to_yaml [OF planned_pin_ok [OF rs ok names(1) w names(2)] yaml]
      pin_write_fields [OF rs ok names(1) w] by simp
  then show ?thesis using repinned_stable [OF rs ok names(1) w] by blast
qed

theorem written_pin_is_stable_witness:
  "\<exists>pin rs'. from_yaml demo_yaml ''pin'' = Inr pin
    \<and> resolve_plan demo_yaml (repinned demo_bootstrap pin Drift_Fail) [''uid''] demo_names
        [I_Null, I_Null, I_Null] [I_Null, I_Null, I_Null] = Inr rs'
    \<and> rs_pinned_schema_write rs' = None"
proof -
  let ?types = "[I_Utf8, I_Boolean, I_Utf8]"
  let ?r = "resolve_plan demo_yaml demo_bootstrap [''uid''] demo_names ?types ?types"
  have "is_ok ?r" by code_simp
  then have r: "?r = Inr (projr ?r)" by (auto simp: is_ok_def split: sum.splits)
  have w: "rs_pinned_schema_write (projr ?r) = Some \<lparr>pw_pinned_path = ''pin.yaml'', pw_yaml = ''pin''\<rparr>" by code_simp
  have y: "yaml_parse demo_yaml (yaml_emit demo_yaml (pin_file (pin_of_fields (cp_fields (rs_plan (projr ?r))))))
      = Inr (pin_file (pin_of_fields (cp_fields (rs_plan (projr ?r)))))" by code_simp
  show ?thesis
    using written_pin_is_stable [OF r demo_dir_ok(3) _ _ w y] by (fastforce simp: demo_names_def)
qed

section \<open>Configuration\<close>

text \<open>
  A \<open>transform\<close> block is accepted exactly when it is the block of a valid transform of the
  source format, and it is read as that transform.
\<close>

theorem transform_block_accepted:
  "from_config config source_format = Inr tr \<longleftrightarrow> config = config_of tr \<and> transform_ok source_format tr"
  by (rule from_config_Inr_iff)

text \<open>
  Override entries are accepted exactly when they spell overrides with distinct names that
  each set a valid type or a nullability, and they are read in declaration order.
\<close>

theorem override_entries_accepted:
  "from_entries entries = Inr ovs \<longleftrightarrow> entries = map entry_of ovs \<and> overrides_ok ovs"
  by (rule from_entries_Inr_iff)

text \<open>
  C35: the names of the declared types are exactly the texts the parser reads, so a pin or an
  override names a type one way only.
\<close>

theorem type_names_roundtrip:
  "parse_type_name name = Some ft \<longleftrightarrow> name = type_name ft \<and> field_type_ok ft"
  using parse_type_nameD parse_type_name_type_name by blast

text \<open>
  C36: a pinned schema that is written reads back as itself, where the YAML library reads back
  what it wrote of it, and whatever is read is a pin that can be written: named fields, no name
  twice, valid types.
\<close>

theorem pin_text_roundtrip:
  assumes "pin_ok pin" "yaml_parse Y (yaml_emit Y (pin_file pin)) = Inr (pin_file pin)"
  shows "from_yaml Y (to_yaml Y pin) = Inr pin \<and> (\<forall>text pin'. from_yaml Y text = Inr pin' \<longrightarrow> pin_ok pin')"
  using from_yaml_to_yaml [OF assms] from_yaml_ok by blast

theorem pin_text_roundtrip_witness:
  "from_yaml demo_yaml (to_yaml demo_yaml
     [\<lparr>pf_name = ''uid'', pf_field_type = Utf8, pf_nullable = True\<rparr>,
      \<lparr>pf_name = ''settled'', pf_field_type = Boolean, pf_nullable = True\<rparr>])
   = Inr [\<lparr>pf_name = ''uid'', pf_field_type = Utf8, pf_nullable = True\<rparr>,
      \<lparr>pf_name = ''settled'', pf_field_type = Boolean, pf_nullable = True\<rparr>]" (is "from_yaml _ (to_yaml _ ?pin) = _")
proof -
  have "pin_ok ?pin" "yaml_parse demo_yaml (yaml_emit demo_yaml (pin_file ?pin)) = Inr (pin_file ?pin)"
    by code_simp+
  from pin_text_roundtrip [OF this] show ?thesis by blast
qed

section \<open>Declared values\<close>

text \<open>
  C37: a text is a declared decimal exactly when it is an optional sign, digits and at most
  \<open>scale\<close> fraction digits, and its value is the exact scaled integer, below ten to the
  precision; the 128-bit accumulator never loses a digit and never refuses one that fits.
\<close>

theorem decimal_text_exact:
  assumes "prec \<le> 38"
  shows "parse_decimal_scaled txt prec sc = Some v \<longleftrightarrow>
    (\<exists>sign i f. txt = decimal_text sign i f \<and> (sign = [] \<or> sign = ''+'' \<or> sign = ''-'')
       \<and> i \<noteq> [] \<and> all_digits i \<and> all_digits f \<and> length f \<le> sc
       \<and> v = (if sign = ''-'' then - 1 else 1) * int (digits_value (i @ f) * 10 ^ (sc - length f))
       \<and> \<bar>v\<bar> < 10 ^ prec)"
  by (rule parse_decimal_scaled_Some_iff [OF assms])

theorem decimal_text_exact_witness: "parse_decimal_scaled ''-12.5'' 5 2 = Some (- 1250)"
  by (subst decimal_text_exact, simp, rule exI [of _ "''-''"], rule exI [of _ "''12''"], rule exI [of _ "''5''"])
    (simp add: decimal_text_def all_digits_def is_ascii_digit_def byte_def digits_value_def digit_value_def)

text \<open>
  An integer rescaled to a decimal column is its exact scaled value, and is refused exactly
  when that does not fit the precision; the 128-bit multiplication decides nothing else.
\<close>

theorem decimal_rescale_exact:
  assumes "prec \<le> 38" "sc \<le> prec"
  shows "rescale_decimal_integer value prec sc =
    (if \<bar>value * 10 ^ sc\<bar> < 10 ^ prec then Some (value * 10 ^ sc) else None)"
  using bounded_decimal_Some_iff [of "value * 10 ^ sc" prec]
  by (cases "bounded_decimal (value * 10 ^ sc) prec") (auto simp: rescale_decimal_integer_eq [OF assms])

theorem decimal_rescale_exact_witness:
  "rescale_decimal_integer 12 5 2 = Some 1200 \<and> rescale_decimal_integer 1000 5 2 = None"
  using decimal_rescale_exact [of 5 2 12] decimal_rescale_exact [of 5 2 1000] by simp

text \<open>
  C38: a text is a declared timestamp exactly when it spells the fields of a date and a time the
  calendar has, with up to six fraction digits, and its value is that clock reading in
  microseconds.
\<close>

theorem timestamp_texts:
  "parse_timestamp_micros C txt = Some m \<longleftrightarrow>
     (\<exists>y mo d sep h mi s frac. txt = clock_text y mo d sep h mi s frac
        \<and> clock_fields_ok y mo d sep h mi s frac [] \<and> clock_value C y mo d h mi s frac = Some m)"
  by (rule parse_timestamp_micros_Some_iff)

text \<open>
  A text is a declared timestamptz exactly when it is such a clock reading and an offset;
  its value is the reading shifted to UTC, and is refused when the shift leaves 64 bits.
\<close>

theorem timestamptz_texts:
  "parse_timestamptz_micros C txt = Some m \<longleftrightarrow>
     (\<exists>y mo d sep h mi s frac offset l off. txt = clock_text y mo d sep h mi s frac @ offset
        \<and> clock_fields_ok y mo d sep h mi s frac offset \<and> clock_value C y mo d h mi s frac = Some l
        \<and> parse_offset_seconds offset = Some off \<and> m = l - off * 1000000 \<and> in_i64 m)"
  by (rule parse_timestamptz_micros_Some_iff)

section \<open>Retries\<close>

text \<open>
  C39: the delay before an attempt is the initial delay doubled once per attempt after the
  second, capped by the maximum; the saturating 64-bit arithmetic never changes that value.
\<close>

theorem backoff_delay:
  assumes "policy_ok policy"
  shows "delay_before_attempt_ms policy attempt =
    min (2 ^ (attempt - 2) * rp_initial_delay_ms policy) (rp_max_delay_ms policy)"
  by (rule delay_formula [OF assms])

theorem backoff_delay_witness:
  "delay_before_attempt_ms default_policy 4 = 800 \<and> delay_before_attempt_ms default_policy 90 = 5000"
proof -
  have p: "policy_ok default_policy" by (simp add: policy_ok_def default_policy_def u64_max_def)
  have "(5000::nat) \<le> 2 ^ 88 * 200" by simp
  then show ?thesis
    using backoff_delay [OF p, of 4] backoff_delay [OF p, of 90] by (simp add: default_policy_def)
qed

text \<open>
  C28: a retry unit calls its operation until a result that is not a transient failure, and at
  most as often as the policy allows; its result is the last call's, the world is what the
  calls made of it, the waits are the backoff of the attempts after the first, and the log is
  one entry per failed attempt of a unit that was retried.
\<close>

theorem run_unit_calls:
  assumes "run_unit policy unt operation st = (r, st')" "1 \<le> rp_max_attempts policy"
  shows "\<exists>calls. 1 \<le> calls \<and> calls \<le> rp_max_attempts policy
    \<and> (\<forall>i < calls - 1. is_transient (nth_result operation i (us_world st)))
    \<and> r = nth_result operation (calls - 1) (us_world st)
    \<and> (is_transient r \<longrightarrow> calls = rp_max_attempts policy)
    \<and> us_world st' = world_after operation calls (us_world st)
    \<and> us_sleeps st' = us_sleeps st @ map (delay_before_attempt_ms policy) [2..<calls + 1]
    \<and> us_attempts st' = us_attempts st @ unit_log policy unt operation 1 (us_world st) calls"
proof -
  obtain calls where c: "unit_run policy operation 1 (us_world st) calls" and
    run: "run_unit_from policy unt operation 1 st =
         (nth_result operation (calls - 1) (us_world st),
          st\<lparr>us_world := world_after operation calls (us_world st),
             us_attempts := us_attempts st @ unit_log policy unt operation 1 (us_world st) calls,
             us_sleeps := us_sleeps st @ map (delay_before_attempt_ms policy) [1 + 1..<1 + calls]\<rparr>)"
    using run_unit_from_spec by blast
  have "calls \<le> rp_max_attempts policy" using c assms(2) by (auto simp: unit_run_def)
  then show ?thesis
    using c run assms(1) by (intro exI [of _ calls]) (auto simp: run_unit_def unit_run_def numeral_2_eq_2)
qed

definition demo_flaky :: "(nat, unit) operation" where
  "demo_flaky n = (if n = 0 then (Inl \<lparr>wx_failure = failure ''deadlock'' [], wx_facts = facts_not_applicable,
       wx_written_records = 0, wx_committed_chunks = 0, wx_transience = Transient\<rparr>, 1) else (Inr (), n))"

theorem run_unit_calls_witness:
  "us_sleeps (snd (run_unit default_policy Unit_Begin demo_flaky \<lparr>us_world = 0, us_attempts = [], us_sleeps = []\<rparr>))
     \<noteq> []"
proof -
  obtain r st' where r: "run_unit default_policy Unit_Begin demo_flaky \<lparr>us_world = 0, us_attempts = [], us_sleeps = []\<rparr> = (r, st')"
    by fastforce
  have m: "1 \<le> rp_max_attempts default_policy" by (simp add: default_policy_def)
  from run_unit_calls [OF r m] obtain calls where c: "1 \<le> calls" "r = nth_result demo_flaky (calls - 1) 0"
    "is_transient r \<longrightarrow> calls = rp_max_attempts default_policy"
    "us_sleeps st' = [] @ map (delay_before_attempt_ms default_policy) [2..<calls + 1]"
    unfolding unit_state.select_convs by blast
  have t: "is_transient (nth_result demo_flaky 0 0)" by (simp add: nth_result_def demo_flaky_def)
  have m3: "rp_max_attempts default_policy \<noteq> 1" by (simp add: default_policy_def)
  have "calls \<noteq> 1"
  proof
    assume "calls = 1"
    then have "r = nth_result demo_flaky 0 0" using c(2) by simp
    then show False using t c(3) m3 \<open>calls = 1\<close> by simp
  qed
  then have "us_sleeps st' \<noteq> []" using c(1,4) by simp
  with r show ?thesis by simp
qed

text \<open>
  The retry report lists the attempts in the order of their units, whatever order the
  window's workers reported them in.
\<close>

theorem retry_report_order_independent:
  assumes "mset attempts = mset attempts'" "inj_on unit_order (set attempts)"
  shows "retry_report_value show_json policy attempts = retry_report_value show_json policy attempts'"
proof -
  have "sort_key unit_order attempts = sort_key unit_order attempts'"
    using assms by (intro sort_key_inj_key_eq) simp_all
  then show ?thesis by (simp add: retry_report_value_def)
qed

theorem retry_report_order_independent_witness:
  "let a = record_attempt Unit_Begin 1 (write_failure_from (failure ''x'' [])) None;
       b = record_attempt (Unit_Write_Chunk 4) 1 (write_failure_from (failure ''y'' [])) (Some 200)
   in retry_report_value (\<lambda>_. []) default_policy [b, a] = retry_report_value (\<lambda>_. []) default_policy [a, b]"
  unfolding Let_def
  by (rule retry_report_order_independent) (simp_all add: unit_order_def record_attempt_def)

section \<open>Write phases\<close>

text \<open>
  The chunks an append states are the parts of its own that a reader sees.
\<close>

theorem parquet_append_counts:
  assumes inv: "append_inv (us_world st)"
    and run: "run_serial_write_phase policy (parquet_append_ops A encoded_size read_dir) chunks st = (r, st')"
  shows "(\<exists>k fail. k < length chunks \<and> list_all is_ok (take k chunks) \<and> r = Inl (In_Session fail)
        \<and> wx_committed_chunks fail = append_visible (us_world st) + k
        \<and> append_visible (us_world st') = append_visible (us_world st) + k)
     \<or> (\<exists>outcome. list_all is_ok chunks \<and> r = Inr outcome \<and> wo_chunk_count outcome = length chunks
        \<and> append_visible (us_world st') = append_visible (us_world st) + length chunks)"
  using pq_append.serial_append [OF _ _ _ inv run [unfolded run_serial_write_phase_def], of A encoded_size]
  by (auto simp: run_serial_write_phase_def parquet_append_ops_def commit_session_def append_commit_def)

text \<open>
  C22: whatever stops a serial Parquet append, the \<open>.parquet\<close> files of the directory are those it
  found and one more for each chunk before the failure, with that chunk's rows in the columns of
  the existing parts; the failure states their number, and an append that does not stop wrote
  every chunk.
\<close>

theorem parquet_append_commits_prefix:
  assumes ok: "append_destination_ok w" and opened: "append_begin read_dir w = (Inr (), us_world st)"
    and run: "run_serial_write_phase policy (parquet_append_ops A encoded_size read_dir) chunks st = (r, st')"
    and batches: "\<forall>b. Inr b \<in> set chunks \<longrightarrow> rectangular b"
  shows "\<exists>bs rest. chunks = map Inr bs @ rest \<and> parts_added bs (dest_files w) (dest_files (us_world st'))
    \<and> (case r of Inr outcome \<Rightarrow> rest = [] | Inl (In_Session fail) \<Rightarrow> wx_committed_chunks fail = length bs
       | Inl (Before_Session fail) \<Rightarrow> False)"
  by (rule parquet_append_run [OF assms])

definition demo_batch :: record_batch where
  "demo_batch = \<lparr>rb_schema = [\<lparr>af_name = ''id'', af_type = Arrow_Utf8, af_nullable = True\<rparr>],
     rb_columns = [Col_Utf8 [Some ''u7'']]\<rparr>"

definition demo_fs :: "record_batch fs" where
  "demo_fs = \<lparr>fs_dirs = [''out/data'' \<mapsto> Map.empty], fs_fault = (\<lambda>_. None), fs_left = (\<lambda>_. []), fs_clock = 0\<rparr>"

definition demo_append :: append_world where
  "demo_append = \<lparr>pa_destination_path = ''out/data'', pa_destination_schema = None, pa_committed_chunks = 0,
     pa_written_records = 0, pa_bytes_written = 0, pa_fs = demo_fs,
     pa_token = (\<lambda>n. replicate n (CHR ''a'')), pa_next = 0\<rparr>"

definition demo_append_phase ::
  "(load_failure, record_batch) result list
   \<Rightarrow> (write_phase_failure, write_phase_outcome) result \<times> append_world unit_state" where
  "demo_append_phase chunks = run_serial_write_phase default_policy (parquet_append_ops reference_arrow (\<lambda>_. 9) (\<lambda>_. [])) chunks
     \<lparr>us_world = snd (append_begin (\<lambda>_. []) demo_append), us_attempts = [], us_sleeps = []\<rparr>"

theorem parquet_append_commits_prefix_witness:
  "directory_rows (dest_files (us_world (snd (demo_append_phase
       [Inr demo_batch, Inl (failure ''source_changed'' []), Inr demo_batch])))) = batch_rows demo_batch"
proof -
  let ?chunks = "[Inr demo_batch, Inl (failure ''source_changed'' []), Inr demo_batch]"
  let ?st = "\<lparr>us_world = snd (append_begin (\<lambda>_. []) demo_append), us_attempts = [], us_sleeps = []\<rparr>"
  have opened: "append_begin (\<lambda>_. []) demo_append = (Inr (), us_world ?st)"
  proof -
    have "is_ok (fst (append_begin (\<lambda>_. []) demo_append))" by code_simp
    then show ?thesis by (auto simp: is_ok_def prod_eq_iff split: sum.splits)
  qed
  have empty: "dest_files demo_append = Map.empty" by (simp add: dest_files_def demo_append_def demo_fs_def)
  have inj: "inj (pa_token demo_append)" by (auto simp: demo_append_def intro!: injI)
  have ok: "append_destination_ok demo_append" using inj empty by (simp add: append_destination_ok_def)
  have rect: "rectangular demo_batch" by (simp add: demo_batch_def rectangular_def rb_rows_def)
  have one: "case fst (demo_append_phase ?chunks) of Inl (In_Session fail) \<Rightarrow> wx_committed_chunks fail = 1 | _ \<Rightarrow> False"
    by code_simp
  obtain bs rest where "?chunks = map Inr bs @ rest" "length bs = 1"
    and added: "parts_added bs (dest_files demo_append) (dest_files (us_world (snd (demo_append_phase ?chunks))))"
    using parquet_append_commits_prefix [OF ok opened, of default_policy reference_arrow "\<lambda>_. 9" ?chunks
        "fst (demo_append_phase ?chunks)" "snd (demo_append_phase ?chunks)"] one rect
    by (auto simp: demo_append_phase_def split: sum.splits write_phase_failure.splits)
  then have "bs = [demo_batch]" by (auto simp: length_Suc_conv)
  then show ?thesis
    using parts_added_rows [OF added] by (simp add: empty directory_rows_def visible_parts_def parts_rows_def batches_rows_def)
qed

text \<open>
  C23: a serial Parquet full refresh is all or nothing up to its commit: a success leaves in the
  destination one part per chunk, holding the chunks in order, and nothing else; a failure
  reports no committed chunk, and leaves the destination as it was unless every chunk had been
  written and the final replacement failed.
\<close>

theorem parquet_full_refresh_replaces:
  assumes opened: "full_refresh_begin w = (Inr (), us_world st)" and name: "path_file_name (fr_destination_path w) \<noteq> []"
    and run: "run_serial_write_phase policy (full_refresh_ops encoded_size) chunks st = (r, st')"
  shows "case r of
      Inr outcome \<Rightarrow> \<exists>batches. chunks = map Inr batches \<and> destination_dir (us_world st') = Some (parts_of batches)
    | Inl (In_Session fail) \<Rightarrow> wx_committed_chunks fail = 0
        \<and> (destination_dir (us_world st') = destination_dir w \<or> list_all is_ok chunks)
    | Inl (Before_Session fail) \<Rightarrow> False"
  using assms by (rule serial_full_refresh)

definition demo_refresh :: full_refresh_world where
  "demo_refresh = \<lparr>fr_destination_path = ''out/data'', fr_staging_path = [], fr_parts = 0, fr_bytes_written = 0,
     fr_committed = False, fr_fs = demo_fs, fr_token = (\<lambda>n. replicate n (CHR ''a'')), fr_next = 0\<rparr>"

theorem parquet_full_refresh_replaces_witness:
  "destination_dir (us_world (snd (run_serial_write_phase default_policy (full_refresh_ops (\<lambda>_. 9))
     [Inr demo_batch, Inr demo_batch]
     \<lparr>us_world = snd (full_refresh_begin demo_refresh), us_attempts = [], us_sleeps = []\<rparr>)))
   = Some (parts_of [demo_batch, demo_batch])"
proof -
  let ?st = "\<lparr>us_world = snd (full_refresh_begin demo_refresh), us_attempts = [], us_sleeps = []\<rparr>"
  let ?run = "run_serial_write_phase default_policy (full_refresh_ops (\<lambda>_. 9)) [Inr demo_batch, Inr demo_batch] ?st"
  have "is_ok (fst (full_refresh_begin demo_refresh))" "is_ok (fst ?run)"
    "path_file_name (fr_destination_path demo_refresh) \<noteq> []" by code_simp+
  then have "full_refresh_begin demo_refresh = (Inr (), us_world ?st)" "?run = (Inr (projr (fst ?run)), snd ?run)"
    by (auto simp: is_ok_def prod_eq_iff split: sum.splits)
  from parquet_full_refresh_replaces [OF this(1) \<open>path_file_name (fr_destination_path demo_refresh) \<noteq> []\<close> this(2)]
  show ?thesis by (auto simp: map_eq_Cons_conv)
qed

section \<open>The bounded window\<close>

definition demo_ops :: "nat destination_ops" where
  "demo_ops = \<lparr>d_begin = (\<lambda>_ s. (Inr (), s)), d_write_chunk = (\<lambda>_ s. (Inr (), s + 1)),
     d_commit = (\<lambda>s. (Inr \<lparr>dw_bytes_written = Some s, dw_facts = facts_not_applicable\<rparr>, s)),
     d_abandon = (\<lambda>s. (\<lparr>aw_committed_chunks = 0, aw_written_records = 0, aw_facts = facts_not_applicable\<rparr>, s)),
     d_drop = (\<lambda>s. s)\<rparr>"

definition demo_state :: "nat unit_state" where
  "demo_state = \<lparr>us_world = 0, us_attempts = [], us_sleeps = []\<rparr>"

text \<open>A window of one over one chunk: pulled, written, received, and the source found empty.\<close>

definition demo_pulled :: "nat window_state" where
  "demo_pulled = pull (window_start [Inr demo_batch] demo_state)"

definition demo_done :: "nat window_state" where
  "demo_done = pull (receive \<lparr>sc_chunk_index = 0, sc_attempts = [], sc_outcome = Slot_Ok\<rparr> []
     (demo_pulled\<lparr>ws_running := [], ws_world := 1\<rparr>))"

lemma demo_pull_reach: "(window_step default_policy demo_ops 1)\<^sup>*\<^sup>* (window_start [Inr demo_batch] demo_state) demo_pulled"
  unfolding demo_pulled_def
  by (rule r_into_rtranclp, rule step_pull) (simp add: can_pull_def window_start_def)

lemma demo_done_reach: "(window_step default_policy demo_ops 1)\<^sup>*\<^sup>* (window_start [Inr demo_batch] demo_state) demo_done"
proof -
  let ?c = "\<lparr>sc_chunk_index = 0, sc_attempts = [], sc_outcome = Slot_Ok\<rparr>"
  let ?w = "demo_pulled\<lparr>ws_running := [] @ [], ws_channel := ws_channel demo_pulled @ [?c], ws_world := 1\<rparr>"
  have p: "ws_running demo_pulled = [] @ \<lparr>sl_chunk_index = 0, sl_batch = demo_batch, sl_attempt = 1, sl_attempts = []\<rparr> # []"
    "ws_world demo_pulled = 0" "ws_in_flight demo_pulled = 1" "ws_channel demo_pulled = []"
    by (simp_all add: demo_pulled_def pull_def window_start_def demo_state_def)
  have "window_step default_policy demo_ops 1 demo_pulled ?w"
    by (rule step_complete [OF p(1)]) (simp add: slot_call_def demo_ops_def p(2))
  moreover have "window_step default_policy demo_ops 1 ?w (receive ?c [] ?w)"
    by (rule step_receive) (simp_all add: can_pull_def p)
  moreover have "receive ?c [] ?w = receive ?c [] (demo_pulled\<lparr>ws_running := [], ws_world := 1\<rparr>)"
    by (simp add: receive_def Let_def p)
  moreover have "window_step default_policy demo_ops 1 (receive ?c [] ?w) (pull (receive ?c [] ?w))"
    by (rule step_pull) (simp add: can_pull_def receive_def Let_def demo_pulled_def pull_def window_start_def)
  ultimately show ?thesis
    using demo_pull_reach unfolding demo_done_def by (metis rtranclp.rtrancl_into_rtrancl)
qed

text \<open>
  C26: in every state a windowed write phase reaches, the units in flight are the running and
  the reported ones, at most as many as the window, no two for one chunk, and every slot writes
  the batch of its chunk.
\<close>

theorem window_bound:
  assumes "(window_step policy D window)\<^sup>*\<^sup>* (window_start chunks st) w"
  shows "ws_in_flight w = length (ws_running w) + length (ws_channel w) \<and> ws_in_flight w \<le> window
    \<and> distinct (map sl_chunk_index (ws_running w) @ map sc_chunk_index (ws_channel w))
    \<and> (\<forall>sl\<in>set (ws_running w). sl_chunk_index sl < length chunks \<and> chunks ! sl_chunk_index sl = Inr (sl_batch sl))"
proof -
  have inv: "window_inv window chunks w" by (rule window_inv_reach [OF assms window_inv_start])
  then obtain batches where b: "pulled_ok chunks batches w" by (auto simp: window_inv_def)
  then have "sl_chunk_index sl < length chunks \<and> chunks ! sl_chunk_index sl = Inr (sl_batch sl)"
    if "sl \<in> set (ws_running w)" for sl
    using that by (auto simp: pulled_ok_def nth_append)
  then show ?thesis using inv by (auto simp: window_inv_def accounts_ok_def slot_indexes_def)
qed

theorem window_bound_witness: "ws_in_flight demo_pulled = length (ws_running demo_pulled) + length (ws_channel demo_pulled)"
  using window_bound [OF demo_pull_reach] by blast

text \<open>
  C27: a windowed write phase always ends: no run of its steps is infinite, and a run that has
  not drained the window has a step left.
\<close>

theorem window_always_drains:
  assumes "(window_step policy D window)\<^sup>*\<^sup>* (window_start chunks st) w"
  shows "wfP (\<lambda>w' w. window_step policy D window w w')
    \<and> (window_drained window w \<or> (\<exists>w'. window_step policy D window w w'))"
  using window_terminates window_progress [OF window_inv_reach [OF assms window_inv_start]] by blast

theorem window_always_drains_witness: "window_drained 1 demo_pulled \<or> (\<exists>w'. window_step default_policy demo_ops 1 demo_pulled w')"
  using window_always_drains [OF demo_pull_reach] by blast

text \<open>
  C25: what a drained window returns: with no failure and no panic every chunk was dispatched
  and the session commits; a failed write surfaces as the failure of the lowest failed chunk
  index, ahead of a failed source, after the session was abandoned; a panic is raised again.
\<close>

theorem window_outcome:
  assumes reach: "(window_step policy D window)\<^sup>*\<^sup>* (window_start chunks st) w" and drained: "window_drained window w"
    and window: "0 < window"
  shows "case window_end D w of
      None \<Rightarrow> ws_writer_panic w
    | Some (r, st') \<Rightarrow>
        if ws_write_failures w = [] \<and> ws_source_failure w = None
        then list_all is_ok chunks \<and> (r, st') = commit_session D (length chunks)
          \<lparr>us_world = ws_world w, us_attempts = ws_retry_attempts w, us_sleeps = ws_sleeps w\<rparr>
        else \<exists>fail. r = Inl (In_Session fail) \<and> wx_committed_chunks fail = aw_committed_chunks (fst (d_abandon D (ws_world w)))
          \<and> (if ws_write_failures w = [] then ws_source_failure w = Some (wx_failure fail)
             else \<exists>i g. (i, g) \<in> set (ws_write_failures w) \<and> wx_failure fail = wx_failure g
               \<and> (\<forall>j\<in>fst ` set (ws_write_failures w). i \<le> j))"
proof -
  have inv: "window_inv window chunks w" by (rule window_inv_reach [OF reach window_inv_start])
  show ?thesis
  proof (cases "ws_writer_panic w")
    case True
    then show ?thesis by (simp add: window_end_def Let_def)
  next
    case False
    show ?thesis
    proof (cases "ws_write_failures w = [] \<and> ws_source_failure w = None")
      case True
      then obtain batches where "chunks = map Inr batches" "ws_dispatched w = length chunks"
        using drained_success [OF inv drained window] False by blast
      then show ?thesis
        using True False by (auto simp: window_end_def Let_def list_all_iff is_ok_def split: prod.split)
    next
      case fails: False
      show ?thesis
      proof (cases "min_failure (ws_write_failures w)")
        case None
        then show ?thesis
          using fails False
          by (auto simp: window_end_def Let_def min_failure_None_iff abandon_in_session_def case_prod_unfold)
      next
        case (Some f)
        have "f \<in> set (ws_write_failures w)" "\<forall>j\<in>fst ` set (ws_write_failures w). fst f \<le> j"
          using min_failure_least [OF Some] by auto
        then have "\<exists>i g. (i, g) \<in> set (ws_write_failures w) \<and> wx_failure (snd f) = wx_failure g
            \<and> (\<forall>j\<in>fst ` set (ws_write_failures w). i \<le> j)"
          by (metis prod.collapse)
        moreover have "ws_write_failures w \<noteq> []" using Some by auto
        ultimately show ?thesis
          using Some False
          by (simp add: window_end_def Let_def abandon_in_session_def case_prod_unfold)
      qed
    qed
  qed
qed


theorem window_outcome_witness:
  "\<exists>outcome st'. window_end demo_ops demo_done = Some (Inr outcome, st') \<and> wo_chunk_count outcome = 1"
proof -
  have d: "window_drained 1 demo_done" "ws_write_failures demo_done = []" "ws_source_failure demo_done = None"
    "\<not> ws_writer_panic demo_done"
    by (simp_all add: demo_done_def demo_pulled_def pull_def receive_def Let_def window_start_def window_drained_def can_pull_def)
  obtain r st' where "window_end demo_ops demo_done = Some (r, st')"
    using d(4) by (cases "window_end demo_ops demo_done") (auto simp: window_end_def Let_def case_prod_unfold split: if_splits)
  with window_outcome [OF demo_done_reach d(1)] d show ?thesis
    by (simp add: commit_session_def demo_ops_def)
qed

section \<open>Load modes\<close>

text \<open>
  The texts a load definition may name a load mode by are exactly the names the reports
  use, one per mode.
\<close>

theorem load_mode_names: "parse_load_mode text = Inr mode \<longleftrightarrow> text = load_mode_str mode"
  by (cases mode) (auto simp: parse_load_mode_def)

section \<open>The source and its two passes\<close>

subsection \<open>Concrete sources\<close>

definition demo_csv_library :: csv_library where
  "demo_csv_library = (\<lambda>bytes error. \<lparr>cv_headers = Inr demo_header,
     cv_records = if bytes = ''csv'' then
         [Inr \<lparr>cr_position = Some 2, cr_cells = [''u7'', ''true'']\<rparr>,
          Inr \<lparr>cr_position = Some 3, cr_cells = [[], ''later'']\<rparr>,
          Inr \<lparr>cr_position = Some 4, cr_cells = [''short'']\<rparr>]
       else []\<rparr>)"

definition demo_csv_source :: source_file where
  "demo_csv_source = \<lparr>so_open_error = None, so_inspect = Inr 3, so_bytes = ''csv'', so_failure = None\<rparr>"

definition demo_local :: local_file_source where
  "demo_local = \<lparr>ls_path = ''in.csv'', ls_format = None\<rparr>"

definition demo_text_files :: text_fs where
  "demo_text_files = \<lparr>tf_files = Map.empty, tf_fault = (\<lambda>_. None), tf_kept = (\<lambda>_. 0), tf_clock = 0\<rparr>"

text \<open>The texts of three lines: a good record, a bad one, and a number; the rest prints as \<open>o\<close>.\<close>

definition demo_malformed :: json where
  "demo_malformed = JObj [(''line'', json_nat 3), (''code'', JStr MALFORMED_JSONL_RECORD), (''field'', JNull),
     (''source_field'', JNull), (''message'', JStr ''each JSONL record must be a JSON object''), (''record'', JStr ''x'')]"

definition demo_spilled :: json where
  "demo_spilled = spill_value 2 (js_object demo_bad)"

definition demo_kept :: json where
  "demo_kept = spill_value 1 (js_object demo_good)"

definition demo_json_text :: json_text where
  "demo_json_text =
     \<lparr>jt_print = (\<lambda>v. if v = demo_spilled then ''s'' else if v = demo_kept then ''k'' else if v = demo_malformed then ''p'' else ''o''),
      jt_parse = (\<lambda>s. if s = ''g'' then Inr (JObj (js_object demo_good)) else if s = ''b'' then Inr (JObj (js_object demo_bad))
        else if s = ''s'' then Inr demo_spilled else if s = ''k'' then Inr demo_kept else if s = ''p'' then Inr demo_malformed else Inr (json_nat 7))\<rparr>"

definition demo_csv_read :: "(execution_failure, source_read) result \<times> rejection_sink \<times> text_fs" where
  "demo_csv_read = read_csv demo_chrono demo_json_text demo_yaml demo_csv_library demo_csv_source demo_local
     demo_csv_directive [''id''] 2 (sink_new ''artifacts'') demo_text_files"

definition demo_csv_chunks :: csv_chunks where
  "demo_csv_chunks = (case sr_chunks (projr (fst demo_csv_read)) of Csv_Chunks c \<Rightarrow> c)"

lemma demo_fresh: "tf_files demo_text_files p = None"
  by (simp add: demo_text_files_def)

lemma demo_csv_pass:
  "demo_csv_read = (Inr (projr (fst demo_csv_read)), fst (snd demo_csv_read), snd (snd demo_csv_read))"
  "sr_chunks (projr (fst demo_csv_read)) = Csv_Chunks demo_csv_chunks"
proof -
  have ok: "is_ok (fst demo_csv_read)" by code_simp
  have "case sr_chunks (projr (fst demo_csv_read)) of Csv_Chunks _ \<Rightarrow> True | Jsonl_Chunks _ \<Rightarrow> False" by code_simp
  then show "sr_chunks (projr (fst demo_csv_read)) = Csv_Chunks demo_csv_chunks"
    by (simp add: demo_csv_chunks_def split: source_chunks.splits)
  show "demo_csv_read = (Inr (projr (fst demo_csv_read)), fst (snd demo_csv_read), snd (snd demo_csv_read))"
    using ok by (metis is_ok_iff prod.collapse sum.sel(2))
qed

subsection \<open>CSV\<close>

text \<open>
  C12: over a CSV source that did not change, pass 2 ends without a failure exactly when no line
  number stands for an accepted and a rejected record; then it yields the survivors of pass 1 in
  order, cut into batches of the chunk size, and one empty batch when there are none.
\<close>

theorem csv_unchanged_source:
  assumes A: "arrow_contract A" and ok: "dir_ok d" and flat: "tr_flatten (dir_transform d) = []" and n: "0 < n"
    and fresh: "tf_files f (sk_artifact_path (sink_new dir)) = None"
    and pass: "read_csv C T Y L so self d keys n (sink_new dir) f = (Inr sr, sink', f')"
    and chunks: "sr_chunks sr = Csv_Chunks chunks"
  shows "let recs = cv_records (csv_source_reader L so);
      cut = stream_chunks n (csv_survivors C (cc_checks chunks) (cc_field_names chunks) recs)
    in if csv_lines_tell C chunks recs
       then \<exists>bs. csv_items C A L so chunks = map Inr bs
         \<and> traverse (build_text_chunk C A (cc_plan chunks)) cut = Inr bs \<and> map rb_rows bs = map length cut
       else \<not> list_all is_ok (csv_items C A L so chunks)"
proof -
  let ?recs = "cv_records (csv_source_reader L so)"
  let ?cut = "stream_chunks n (csv_survivors C (cc_checks chunks) (cc_field_names chunks) ?recs)"
  let ?build = "build_text_chunk C A (cc_plan chunks)"
  obtain rs where s: "csv_stream_of C Y L so d keys n rs chunks"
    by (rule csv_first_pass [OF pass sink_new_holds [OF fresh] chunks]) (rule that)
  then have c: "cc_phase chunks = Not_Started" "0 < cc_chunk_rows chunks" "cc_chunk_rows chunks = n"
    "length ?recs = po_records (cc_expectations chunks)" "csv_pass_hash so = po_hash (cc_expectations chunks)"
    and opened: "is_ok (csv_open L so chunks)"
    and lines: "set (po_rejected_lines (cc_expectations chunks)) = csv_record_line (cc_field_names chunks) `
       {r \<in> set ?recs. csv_rejection C (cc_checks chunks) (cc_field_names chunks) r \<noteq> None}"
    using n by (simp_all add: csv_stream_of_def)
  note agrees = csv_agrees_lines [OF lines]
  show ?thesis
  proof (cases "csv_lines_tell C chunks ?recs")
    case False
    then have "\<not> list_all is_ok (csv_items C A L so chunks)"
      using csv_stream_ok [of C A L so chunks] c(1,2) agrees by blast
    then show ?thesis using False by (simp add: Let_def)
  next
    case True
    obtain reading where "csv_open L so chunks = Inr reading" using opened by (auto simp: is_ok_iff)
    from csv_stream_agrees [OF this c(1,2), of C A] True agrees c(3-5)
    have items: "csv_items C A L so chunks = deliver ?build ?cut []" by simp
    have "\<exists>b. ?build chunk = Inr b \<and> rb_rows b = length chunk" if "chunk \<in> set ?cut" for chunk
      using csv_stream_builds [OF s A ok flat, of chunk] stream_chunks_bound [OF that] by (auto simp: batch_of_def)
    from deliver_chunks [of ?cut, OF this] items True show ?thesis by (simp add: Let_def)
  qed
qed

theorem csv_unchanged_source_witness:
  "\<exists>bs. csv_items demo_chrono reference_arrow demo_csv_library demo_csv_source demo_csv_chunks = map Inr bs
     \<and> map rb_rows bs = [1]"
proof -
  let ?recs = "cv_records (csv_source_reader demo_csv_library demo_csv_source)"
  have tell: "csv_lines_tell demo_chrono demo_csv_chunks ?recs" by code_simp
  have cut: "map length (stream_chunks 2 (csv_survivors demo_chrono (cc_checks demo_csv_chunks)
      (cc_field_names demo_csv_chunks) ?recs)) = [1]" by code_simp
  have flat: "tr_flatten (dir_transform demo_csv_directive) = []" "(0::nat) < 2" by code_simp+
  show ?thesis
    using csv_unchanged_source [OF reference_arrow_contract demo_dir_ok(2) flat demo_fresh
        demo_csv_pass(1) [unfolded demo_csv_read_def] demo_csv_pass(2) [unfolded demo_csv_read_def]] tell cut
    by (auto simp: Let_def)
qed

subsection \<open>JSONL\<close>

definition demo_jsonl_source :: source_file where
  "demo_jsonl_source = \<lparr>so_open_error = None, so_inspect = Inr 6,
     so_bytes = [CHR ''g'', newline, CHR ''b'', newline, CHR ''x'', newline], so_failure = None\<rparr>"

definition demo_jsonl_local :: local_file_source where
  "demo_jsonl_local = \<lparr>ls_path = ''in.jsonl'', ls_format = None\<rparr>"

definition demo_jsonl_read :: "((execution_failure, source_read) result \<times> rejection_sink \<times> text_fs) option" where
  "demo_jsonl_read = read_jsonl demo_chrono demo_json_text demo_yaml demo_jsonl_source demo_jsonl_local
     demo_directive [''uid''] 2 (sink_new ''artifacts'') demo_text_files"

definition demo_jsonl_result :: "(execution_failure, source_read) result \<times> rejection_sink \<times> text_fs" where
  "demo_jsonl_result = the demo_jsonl_read"

definition demo_jsonl_chunks :: jsonl_chunks where
  "demo_jsonl_chunks = (case sr_chunks (projr (fst demo_jsonl_result)) of Jsonl_Chunks c \<Rightarrow> c)"

lemma demo_texts: "texts_read_back demo_json_text (source_lines demo_jsonl_source)"
proof -
  let ?rj = "\<lparr>rj_line = 3, rj_code = MALFORMED_JSONL_RECORD, rj_field = None, rj_source_field = None,
         rj_message = [Txt ''each JSONL record must be a JSON object''], rj_record = JStr ''x''\<rparr>"
  have rejected: "parse_rejections demo_json_text (source_lines demo_jsonl_source) = [?rj]"
    and records: "line_records demo_json_text (source_lines demo_jsonl_source) = [demo_good, demo_bad]"
    and texts: "list_all (text_ok demo_json_text)
      [artifact_value demo_json_text ?rj, spill_value 1 (js_object demo_good), spill_value 2 (js_object demo_bad)]"
    by code_simp+
  then show ?thesis
    by (simp add: texts_read_back_def rejection_text_ok_def spill_text_ok_def) (simp add: demo_good_def demo_bad_def)
qed

lemma demo_jsonl_pass:
  "demo_jsonl_read = Some (Inr (projr (fst demo_jsonl_result)), fst (snd demo_jsonl_result), snd (snd demo_jsonl_result))"
  "sr_chunks (projr (fst demo_jsonl_result)) = Jsonl_Chunks demo_jsonl_chunks"
  "sk_io_error (fst (snd demo_jsonl_result)) = None"
proof -
  have ok: "is_ok (fst demo_jsonl_result)" by code_simp
  have some: "demo_jsonl_read \<noteq> None" by code_simp
  have "case sr_chunks (projr (fst demo_jsonl_result)) of Jsonl_Chunks _ \<Rightarrow> True | Csv_Chunks _ \<Rightarrow> False" by code_simp
  then show "sr_chunks (projr (fst demo_jsonl_result)) = Jsonl_Chunks demo_jsonl_chunks"
    by (simp add: demo_jsonl_chunks_def split: source_chunks.splits)
  show "demo_jsonl_read = Some (Inr (projr (fst demo_jsonl_result)), fst (snd demo_jsonl_result), snd (snd demo_jsonl_result))"
    using ok some by (metis demo_jsonl_result_def is_ok_iff option.exhaust_sel prod.collapse sum.sel(2))
  show "sk_io_error (fst (snd demo_jsonl_result)) = None" by code_simp
qed

text \<open>
  C13: over a JSONL source that did not change, pass 2 ends without a failure and yields the
  survivors of pass 1 in order, cut into batches of the chunk size; the source file, the keys
  and the line numbers tell every outcome, so no such source is reported as changed.
\<close>

theorem jsonl_unchanged_source:
  assumes A: "arrow_contract A" and ok: "dir_ok d" and n: "0 < n"
    and fresh: "tf_files f (sk_artifact_path (sink_new dir)) = None"
    and texts: "texts_read_back T (source_lines so)"
    and pass: "read_jsonl C T Y so self d keys n (sink_new dir) f = Some (Inr sr, sink', f')"
    and io: "sk_io_error sink' = None" and chunks: "sr_chunks sr = Jsonl_Chunks chunks"
  shows "let cut = stream_chunks n (jsonl_survivors C T (jc_checks chunks) (source_lines so))
    in \<exists>bs. jsonl_items C A T so chunks = map Inr bs
       \<and> traverse (build_json_chunk C A (jt_print T) (jc_plan chunks)) cut = Inr bs \<and> map rb_rows bs = map length cut"
proof -
  let ?cut = "stream_chunks n (jsonl_survivors C T (jc_checks chunks) (source_lines so))"
  let ?build = "build_json_chunk C A (jt_print T) (jc_plan chunks)"
  obtain rs where s: "jsonl_stream_of C T Y so d keys n rs chunks"
    by (rule jsonl_first_pass [OF pass fresh ok chunks io texts]) (rule that)
  have "jsonl_items C A T so chunks = deliver ?build ?cut []"
    using jsonl_stream_agrees [of so chunks C T A] jsonl_stream_self_agrees [OF s] s n
    by (simp add: jsonl_stream_of_def)
  moreover have "\<exists>b. ?build chunk = Inr b \<and> rb_rows b = length chunk" if "chunk \<in> set ?cut" for chunk
    using jsonl_stream_builds [OF s A ok, of chunk "jt_print T"] stream_chunks_bound [OF that] by (auto simp: batch_of_def)
  ultimately show ?thesis using deliver_chunks [of ?cut ?build] by (simp add: Let_def)
qed

theorem jsonl_unchanged_source_witness:
  "\<exists>bs. jsonl_items demo_chrono reference_arrow demo_json_text demo_jsonl_source demo_jsonl_chunks = map Inr bs
     \<and> map rb_rows bs = [1]"
proof -
  have cut: "map length (stream_chunks 2 (jsonl_survivors demo_chrono demo_json_text (jc_checks demo_jsonl_chunks)
      (source_lines demo_jsonl_source))) = [1]" by code_simp
  show ?thesis
    using jsonl_unchanged_source [OF reference_arrow_contract demo_dir_ok(1) _ demo_fresh demo_texts
        demo_jsonl_pass(1) [unfolded demo_jsonl_read_def] demo_jsonl_pass(3,2)] cut
    by (auto simp: Let_def)
qed

text \<open>
  C14: whatever the JSONL file holds when pass 2 reads it, a stream that ends without a failure
  met no read failure, as many records and the byte hash of pass 1, gave every line the outcome
  pass 1 gave it, and yielded exactly the records that pass 1 accepted by their line numbers.
\<close>

theorem jsonl_stream_detects_change:
  assumes ok: "dir_ok d" and n: "0 < n"
    and fresh: "tf_files f (sk_artifact_path (sink_new dir)) = None"
    and texts: "texts_read_back T (source_lines so)"
    and pass: "read_jsonl C T Y so self d keys n (sink_new dir) f = Some (Inr sr, sink', f')"
    and io: "sk_io_error sink' = None" and chunks: "sr_chunks sr = Jsonl_Chunks chunks"
    and complete: "list_all is_ok (jsonl_items C A T so2 chunks)"
  shows "source_end so2 = None \<and> jsonl_pass_hash so2 = jsonl_pass_hash so
    \<and> length (filter (line_counts T) (source_lines so2)) = length (filter (line_counts T) (source_lines so))
    \<and> (\<forall>l\<in>set (source_lines so2). line_item T l \<noteq> Blank_Line \<longrightarrow>
         (line_rejection C T (jc_checks chunks) l \<noteq> None)
           = (fst l \<in> rj_line ` set (jsonl_rejections C T (jc_checks chunks) (source_lines so))))
    \<and> (\<exists>bs. jsonl_items C A T so2 chunks = map Inr bs
         \<and> traverse (build_json_chunk C A (jt_print T) (jc_plan chunks))
             (stream_chunks n (jsonl_survivors C T (jc_checks chunks) (source_lines so2))) = Inr bs)"
proof -
  obtain rs where s: "jsonl_stream_of C T Y so d keys n rs chunks"
    by (rule jsonl_first_pass [OF pass fresh ok chunks io texts]) (rule that)
  have c: "jc_phase chunks = Not_Started" "0 < jc_chunk_rows chunks" "jc_chunk_rows chunks = n"
    using s n by (simp_all add: jsonl_stream_of_def)
  note stream = jsonl_stream_ok [OF complete c(1,2)]
  have "(line_rejection C T (jc_checks chunks) l \<noteq> None)
      = (fst l \<in> rj_line ` set (jsonl_rejections C T (jc_checks chunks) (source_lines so)))"
    if "l \<in> set (source_lines so2)" "line_item T l \<noteq> Blank_Line" for l
  proof -
    have "fst l \<in> set (po_rejected_lines (jc_expectations chunks)) \<longleftrightarrow> line_rejection C T (jc_checks chunks) l \<noteq> None"
      using stream that line_violates [of T l _ C "jc_checks chunks"]
      by (cases "line_item T l") (auto simp: jsonl_agrees_def list_all_iff line_agrees_def line_rejection_def)
    then show ?thesis using s unfolding jsonl_rejections_lines jsonl_stream_of_def by blast
  qed
  then show ?thesis using stream s c(3) by (auto simp: jsonl_stream_of_def)
qed

theorem jsonl_stream_detects_change_witness:
  "\<not> list_all is_ok (jsonl_items demo_chrono reference_arrow demo_json_text
     (demo_jsonl_source\<lparr>so_bytes := [CHR ''g'', newline, CHR ''b'', newline, CHR ''y'', newline]\<rparr>) demo_jsonl_chunks)
   \<and> jsonl_pass_hash demo_jsonl_source = jsonl_pass_hash demo_jsonl_source"
proof -
  have same: "list_all is_ok (jsonl_items demo_chrono reference_arrow demo_json_text demo_jsonl_source demo_jsonl_chunks)"
    by code_simp
  let ?so2 = "demo_jsonl_source\<lparr>so_bytes := [CHR ''g'', newline, CHR ''b'', newline, CHR ''y'', newline]\<rparr>"
  have "jsonl_pass_hash ?so2 \<noteq> jsonl_pass_hash demo_jsonl_source" by code_simp
  note detects = jsonl_stream_detects_change [OF demo_dir_ok(1) _ demo_fresh demo_texts
        demo_jsonl_pass(1) [unfolded demo_jsonl_read_def] demo_jsonl_pass(3,2)]
  show ?thesis
    using detects [OF _ same] detects [of reference_arrow ?so2] \<open>jsonl_pass_hash ?so2 \<noteq> _\<close> by auto
qed

text \<open>
  C15: a JSONL pass 1 that resolves and keeps no artifact error leaves in the artifact one line
  for each rejected line of the source, in the order of the source, and counts them.
\<close>

theorem jsonl_artifact_in_source_order:
  assumes ok: "dir_ok d" and fresh: "tf_files f (sk_artifact_path (sink_new dir)) = None"
    and texts: "texts_read_back T (source_lines so)"
    and pass: "read_jsonl C T Y so self d keys n (sink_new dir) f = Some (Inr sr, sink', f')"
    and io: "sk_io_error sink' = None" and chunks: "sr_chunks sr = Jsonl_Chunks chunks"
  shows "let rs = jsonl_rejections C T (jc_checks chunks) (source_lines so) in
      sk_count sink' = length rs \<and> sk_lines sink' = map rj_line rs \<and> sorted_wrt (<) (map rj_line rs)
    \<and> tf_files f' (sk_artifact_path sink') = (if rs = [] then None else Some (artifact_text T rs))"
proof -
  obtain rs where "sink_holds T sink' f' (jsonl_rejections C T (jc_checks chunks) (source_lines so))"
    by (rule jsonl_first_pass [OF pass fresh ok chunks io texts]) (rule that)
  then show ?thesis
    using io jsonl_rejections_sorted [of C T "jc_checks chunks" so] by (simp add: sink_holds_def Let_def)
qed

theorem jsonl_artifact_in_source_order_witness:
  "map (\<lambda>r. rj_line r) (jsonl_rejections demo_chrono demo_json_text (jc_checks demo_jsonl_chunks)
     (source_lines demo_jsonl_source)) = [2, 3]
   \<and> tf_files (snd (snd demo_jsonl_result)) (sk_artifact_path (fst (snd demo_jsonl_result))) \<noteq> None"
proof -
  have lines: "map rj_line (jsonl_rejections demo_chrono demo_json_text (jc_checks demo_jsonl_chunks)
     (source_lines demo_jsonl_source)) = [2, 3]" by code_simp
  then show ?thesis
    using jsonl_artifact_in_source_order [OF demo_dir_ok(1) demo_fresh demo_texts
        demo_jsonl_pass(1) [unfolded demo_jsonl_read_def] demo_jsonl_pass(3,2)]
    by (auto simp: Let_def)
qed

text \<open>
  A JSONL pass 1 always returns, with a read or a stated failure: the merge of its spill
  with the artifact never panics and every loop over the source ends.
\<close>

theorem jsonl_pass_returns:
  assumes "tf_files f (sk_artifact_path (sink_new dir)) = None" "texts_read_back T (source_lines so)"
  shows "\<exists>r sink' f'. read_jsonl C T Y so self d keys n (sink_new dir) f = Some (r, sink', f')"
  using read_jsonl_returns [OF sink_new_holds [OF assms(1)] sink_new_paths_ok assms(2)] by fastforce

theorem jsonl_pass_returns_witness:
  "\<exists>r sink' f'. demo_jsonl_read = Some (r, sink', f')"
  unfolding demo_jsonl_read_def by (rule jsonl_pass_returns [OF demo_fresh demo_texts])

section \<open>A changed source and the destination\<close>

text \<open>
  A serial Parquet full refresh fed by a CSV stream whose file changed between the passes
  leaves the destination directory as it was: the load fails, and commits no chunk.
\<close>

theorem changed_csv_source_keeps_destination:
  assumes n: "0 < n" and fresh: "tf_files f (sk_artifact_path (sink_new dir)) = None"
    and pass: "read_csv C T Y L so self d keys n (sink_new dir) f = (Inr sr, sink', f')"
    and chunks: "sr_chunks sr = Csv_Chunks chunks"
    and changed: "csv_pass_hash so2 \<noteq> csv_pass_hash so"
    and opened: "full_refresh_begin w = (Inr (), us_world st)" and name: "path_file_name (fr_destination_path w) \<noteq> []"
    and run: "run_serial_write_phase policy (full_refresh_ops encoded_size) (csv_items C A L so2 chunks) st = (r, st')"
  shows "\<exists>fail. r = Inl (In_Session fail) \<and> wx_committed_chunks fail = 0
    \<and> destination_dir (us_world st') = destination_dir w"
proof -
  obtain rs where s: "csv_stream_of C Y L so d keys n rs chunks"
    by (rule csv_first_pass [OF pass sink_new_holds [OF fresh] chunks]) (rule that)
  have "\<not> list_all is_ok (csv_items C A L so2 chunks)"
  proof
    assume "list_all is_ok (csv_items C A L so2 chunks)"
    from csv_stream_ok [OF this] s n changed show False by (simp add: csv_stream_of_def)
  qed
  moreover have "list_all is_ok (map Inr bs :: (load_failure, record_batch) result list)" for bs by (simp add: list_all_iff is_ok_def)
  ultimately show ?thesis
    using serial_full_refresh [OF opened name run] by (auto split: sum.splits write_phase_failure.splits)
qed

theorem changed_csv_source_keeps_destination_witness:
  "destination_dir (us_world (snd (run_serial_write_phase default_policy (full_refresh_ops (\<lambda>_. 9))
     (csv_items demo_chrono reference_arrow demo_csv_library (demo_csv_source\<lparr>so_bytes := ''CSV''\<rparr>) demo_csv_chunks)
     \<lparr>us_world = snd (full_refresh_begin demo_refresh), us_attempts = [], us_sleeps = []\<rparr>)))
   = destination_dir demo_refresh"
proof -
  let ?st = "\<lparr>us_world = snd (full_refresh_begin demo_refresh), us_attempts = [], us_sleeps = []\<rparr>"
  let ?so2 = "demo_csv_source\<lparr>so_bytes := ''CSV''\<rparr>"
  obtain r st' where run: "run_serial_write_phase default_policy (full_refresh_ops (\<lambda>_. 9))
     (csv_items demo_chrono reference_arrow demo_csv_library ?so2 demo_csv_chunks) ?st = (r, st')" by fastforce
  have w: "is_ok (fst (full_refresh_begin demo_refresh))" "path_file_name (fr_destination_path demo_refresh) \<noteq> []"
    "csv_pass_hash ?so2 \<noteq> csv_pass_hash demo_csv_source" "(0::nat) < 2" by code_simp+
  then have "full_refresh_begin demo_refresh = (Inr (), us_world ?st)"
    by (auto simp: is_ok_def prod_eq_iff split: sum.splits)
  from changed_csv_source_keeps_destination [OF w(4) demo_fresh demo_csv_pass(1) [unfolded demo_csv_read_def]
      demo_csv_pass(2) [unfolded demo_csv_read_def] w(3) this w(2) run] run
  show ?thesis by auto
qed

section \<open>The DuckDB sessions\<close>

subsection \<open>A database to run them on\<close>

definition demo_value :: "cell \<Rightarrow> cell option" where
  "demo_value c = (if c = Cell_Null then None else Some c)"

definition demo_table_schema :: "arrow_field list" where
  "demo_table_schema = [\<lparr>af_name = ''id'', af_type = Arrow_Utf8, af_nullable = True\<rparr>,
     \<lparr>af_name = ''paid'', af_type = Arrow_Boolean, af_nullable = True\<rparr>]"

definition demo_rows :: "string list \<Rightarrow> bool \<Rightarrow> record_batch" where
  "demo_rows ids paid = \<lparr>rb_schema = demo_table_schema,
     rb_columns = [Col_Utf8 (map Some ids), Col_Boolean (map (\<lambda>_. Some paid) ids)]\<rparr>"

definition demo_table :: duckdb_table where
  "demo_table = \<lparr>dt_path = ''out/db'', dt_dataset = ''sa\"les''\<rparr>"

definition demo_duckdb :: "table_lists duckdb" where
  "demo_duckdb = reference_duckdb demo_value ''sa\"les'' (merge_stage_name ''t'') demo_table_schema"

definition demo_tables :: table_lists where
  "demo_tables = \<lparr>tl_committed = Some (batch_row_list (demo_rows [''a'', ''b''] False)), tl_working = None,
     tl_columns = [], tl_stage = None, tl_open = False\<rparr>"

lemma demo_duckdb_contract:
  "duckdb_contract demo_duckdb lists_view demo_value ''sa\"les'' (merge_stage_name ''t'')"
  unfolding demo_duckdb_def by (rule reference_duckdb_contract) (simp add: demo_table_schema_def)

subsection \<open>What they leave in the table\<close>

text \<open>
  C16: a DuckDB full refresh is one transaction: a run that succeeds leaves in the table exactly the
  rows of the chunks, and one that fails leaves the table as it was and states that no chunk was
  committed, or failed in closing after the commit and then states that every chunk was.
\<close>

theorem duckdb_full_refresh_atomic:
  assumes K: "duckdb_contract Q V val (dt_dataset (df_table w)) stage"
    and opened: "duckdb_replace_begin Q w = (Inr (), us_world st)"
    and run: "run_serial_write_phase policy (duckdb_replace_ops Q) chunks st = (r, st')"
    and columns: "\<forall>b. Inr b \<in> set chunks \<longrightarrow> batch_columns b = columns" and chunks: "chunks \<noteq> []"
  shows "case r of
      Inr outcome \<Rightarrow> \<exists>bs. chunks = map Inr bs \<and> tv_committed (V (df_db (us_world st'))) = Some (batches_rows bs)
    | Inl (In_Session fail) \<Rightarrow>
        wx_committed_chunks fail = 0 \<and> tv_committed (V (df_db (us_world st'))) = tv_committed (V (df_db w))
        \<or> (\<exists>bs. chunks = map Inr bs \<and> wx_committed_chunks fail = length bs
             \<and> tv_committed (V (df_db (us_world st'))) = Some (batches_rows bs))
    | Inl (Before_Session fail) \<Rightarrow> False"
  by (rule duckdb_replace_run [OF assms])

definition demo_replace :: "table_lists duckdb_full_refresh" where
  "demo_replace = \<lparr>df_table = demo_table, df_db = demo_tables, df_written_chunks = 0, df_written_records = 0\<rparr>"

definition demo_replace_run ::
  "(load_failure, record_batch) result list
   \<Rightarrow> (write_phase_failure, write_phase_outcome) result \<times> table_lists duckdb_full_refresh unit_state" where
  "demo_replace_run chunks = run_serial_write_phase default_policy (duckdb_replace_ops demo_duckdb) chunks
     \<lparr>us_world = snd (duckdb_replace_begin demo_duckdb demo_replace), us_attempts = [], us_sleeps = []\<rparr>"

theorem duckdb_full_refresh_atomic_witness:
  "tv_committed (lists_view (df_db (us_world (snd (demo_replace_run [Inr (demo_rows [''c''] True), Inr (demo_rows [''d''] True)])))))
     = Some (batches_rows [demo_rows [''c''] True, demo_rows [''d''] True])
   \<and> tv_committed (lists_view (df_db (us_world (snd (demo_replace_run
       [Inr (demo_rows [''c''] True), Inl (failure ''source_changed'' [])])))))
     = tv_committed (lists_view (df_db demo_replace))"
proof -
  let ?st = "\<lparr>us_world = snd (duckdb_replace_begin demo_duckdb demo_replace), us_attempts = [], us_sleeps = []\<rparr>"
  have opened: "duckdb_replace_begin demo_duckdb demo_replace = (Inr (), us_world ?st)"
  proof -
    have "is_ok (fst (duckdb_replace_begin demo_duckdb demo_replace))" by code_simp
    then show ?thesis by (auto simp: is_ok_def prod_eq_iff split: sum.splits)
  qed
  have name: "dt_dataset (df_table demo_replace) = ''sa\"les''" by (simp add: demo_replace_def demo_table_def)
  note atomic = duckdb_full_refresh_atomic [OF demo_duckdb_contract [folded name] opened, of default_policy _ _ _ "[''id'', ''paid'']"]
  have cols: "batch_columns (demo_rows ids paid) = [''id'', ''paid'']" for ids paid
    by (simp add: demo_rows_def demo_table_schema_def batch_columns_def)
  let ?good = "[Inr (demo_rows [''c''] True), Inr (demo_rows [''d''] True)]" and
    ?bad = "[Inr (demo_rows [''c''] True), Inl (failure ''source_changed'' [])]"
  have ok: "is_ok (fst (demo_replace_run ?good))" by code_simp
  have "tv_committed (lists_view (df_db (us_world (snd (demo_replace_run ?good)))))
      = Some (batches_rows [demo_rows [''c''] True, demo_rows [''d''] True])"
    using atomic [of ?good "fst (demo_replace_run ?good)" "snd (demo_replace_run ?good)"] ok
    by (auto simp: demo_replace_run_def cols is_ok_def Cons_eq_map_conv split: sum.splits)
  moreover have "tv_committed (lists_view (df_db (us_world (snd (demo_replace_run ?bad)))))
      = tv_committed (lists_view (df_db demo_replace))"
    using atomic [of ?bad "fst (demo_replace_run ?bad)" "snd (demo_replace_run ?bad)"]
    by (auto simp: demo_replace_run_def cols is_ok_def Cons_eq_map_conv split: sum.splits write_phase_failure.splits)
  ultimately show ?thesis by simp
qed

text \<open>
  C17: a DuckDB append commits chunk by chunk: whatever stops it, the table has the rows it had and
  those of the chunks before the failure, whose number the failure states.
\<close>

theorem duckdb_append_commits_prefix:
  assumes K: "duckdb_contract Q V val (dt_dataset (da_table w)) stage"
    and opened: "duckdb_append_begin Q w = (Inr (), us_world st)"
    and run: "run_serial_write_phase policy (duckdb_append_ops A Q) chunks st = (r, st')"
    and batches: "\<forall>b. Inr b \<in> set chunks \<longrightarrow> rectangular b"
  shows "\<exists>bs rest. chunks = map Inr bs @ rest
    \<and> appended (tv_committed (V (da_db w))) bs (tv_committed (V (da_db (us_world st'))))
    \<and> (case r of Inr outcome \<Rightarrow> rest = [] | Inl (In_Session fail) \<Rightarrow> wx_committed_chunks fail = length bs
       | Inl (Before_Session fail) \<Rightarrow> False)"
  by (rule duckdb_append_run [OF assms])

definition demo_duckdb_append :: "table_lists duckdb_append" where
  "demo_duckdb_append = \<lparr>da_table = demo_table, da_db = demo_tables, da_destination_schema = [], da_committed_chunks = 0,
     da_written_records = 0\<rparr>"

definition demo_append_run ::
  "(load_failure, record_batch) result list
   \<Rightarrow> (write_phase_failure, write_phase_outcome) result \<times> table_lists duckdb_append unit_state" where
  "demo_append_run chunks = run_serial_write_phase default_policy (duckdb_append_ops reference_arrow demo_duckdb) chunks
     \<lparr>us_world = snd (duckdb_append_begin demo_duckdb demo_duckdb_append), us_attempts = [], us_sleeps = []\<rparr>"

theorem duckdb_append_commits_prefix_witness:
  "tv_committed (lists_view (da_db (us_world (snd (demo_append_run
       [Inr (demo_rows [''c''] True), Inl (failure ''source_changed'' []), Inr (demo_rows [''d''] True)])))))
     = Some (batch_rows (demo_rows [''a'', ''b''] False) + batch_rows (demo_rows [''c''] True))"
proof -
  let ?st = "\<lparr>us_world = snd (duckdb_append_begin demo_duckdb demo_duckdb_append), us_attempts = [], us_sleeps = []\<rparr>"
  have opened: "duckdb_append_begin demo_duckdb demo_duckdb_append = (Inr (), us_world ?st)"
  proof -
    have "is_ok (fst (duckdb_append_begin demo_duckdb demo_duckdb_append))" by code_simp
    then show ?thesis by (auto simp: is_ok_def prod_eq_iff split: sum.splits)
  qed
  have name: "dt_dataset (da_table demo_duckdb_append) = ''sa\"les''" by (simp add: demo_duckdb_append_def demo_table_def)
  let ?chunks = "[Inr (demo_rows [''c''] True), Inl (failure ''source_changed'' []), Inr (demo_rows [''d''] True)]"
  have rect: "rectangular (demo_rows ids paid)" for ids paid
    by (simp add: demo_rows_def demo_table_schema_def rectangular_def rb_rows_def)
  have one: "case fst (demo_append_run ?chunks) of Inl (In_Session fail) \<Rightarrow> wx_committed_chunks fail = 1 | _ \<Rightarrow> False"
    by code_simp
  have old: "tv_committed (lists_view (da_db demo_duckdb_append)) = Some (batch_rows (demo_rows [''a'', ''b''] False))"
    by (simp add: demo_duckdb_append_def demo_tables_def lists_view_def batch_row_list_def batch_rows_def)
  obtain bs rest where "?chunks = map Inr bs @ rest"
    "appended (tv_committed (lists_view (da_db demo_duckdb_append))) bs
       (tv_committed (lists_view (da_db (us_world (snd (demo_append_run ?chunks))))))" "length bs = 1"
    using duckdb_append_commits_prefix [OF demo_duckdb_contract [folded name] opened, of default_policy reference_arrow ?chunks
        "fst (demo_append_run ?chunks)" "snd (demo_append_run ?chunks)"] one rect
    by (auto simp: demo_append_run_def split: sum.splits write_phase_failure.splits)
  then show ?thesis
    using old by (auto simp: length_Suc_conv Cons_eq_append_conv appended_def batches_rows_def)
qed

text \<open>
  C5: a DuckDB merge is one transaction on keys that are unique among the incoming rows: a run
  that succeeds has replaced the rows whose key came in, kept the others and added the rest, and
  states how many of each; one that fails leaves the table as it was, or failed in closing after
  the commit and then states that every chunk was committed.
\<close>

theorem duckdb_merge_upserts:
  assumes K: "duckdb_contract Q V val (dt_dataset (dm_table w)) (merge_stage_name token)"
    and name: "merge_stage_name token \<noteq> dt_dataset (dm_table w)"
    and opened: "duckdb_merge_begin Q token w = (Inr (), us_world st)"
    and run: "run_serial_write_phase policy (duckdb_merge_ops A Q token) chunks st = (r, st')"
    and batches: "\<forall>b. Inr b \<in> set chunks \<longrightarrow> rectangular b"
  shows "let old = tv_committed (V (dm_db w)); new = tv_committed (V (dm_db (us_world st')));
      keys = dm_merge_keys w; columns = map af_name (dm_destination_schema (us_world st)) in case r of
      Inr outcome \<Rightarrow> \<exists>bs rows rows' updated. chunks = map Inr bs \<and> old = Some rows \<and> new = Some rows'
        \<and> colliding_rows val keys (batches_rows bs) = {#}
        \<and> (\<forall>s. s \<in># batches_rows bs \<longrightarrow> None \<notin> set (key_tuple val keys s) \<longrightarrow>
             (\<exists>r. r \<in># rows' \<and> key_tuple val keys r = key_tuple val keys s \<and> (\<forall>n\<in>set columns - set keys. r n = s n)))
        \<and> (\<forall>t. t \<in># rows \<longrightarrow> \<not> (\<exists>s. s \<in># batches_rows bs \<and> same_key val keys t s) \<longrightarrow> t \<in># rows')
        \<and> updated = size (matched_rows val keys rows (batches_rows bs))
        \<and> size rows' = size rows + (size (batches_rows bs) - updated)
        \<and> wo_facts outcome = with_merge_counts (facts_atomic ''transactional_merge'') updated (size (batches_rows bs) - updated)
    | Inl (In_Session fail) \<Rightarrow> wx_committed_chunks fail = 0 \<and> new = old
        \<or> (\<exists>bs. chunks = map Inr bs \<and> wx_committed_chunks fail = length bs
             \<and> merge_done val keys columns old (batches_rows bs) new)
    | Inl (Before_Session fail) \<Rightarrow> False"
proof (cases r)
  case (Inl fail)
  then show ?thesis
    using duckdb_merge_run [OF assms] by (cases fail) (auto simp: Let_def)
next
  case (Inr outcome)
  let ?keys = "dm_merge_keys w" and ?columns = "map af_name (dm_destination_schema (us_world st))"
  obtain bs rows updated where b: "chunks = map Inr bs" "tv_committed (V (dm_db w)) = Some rows"
    "merge_done val ?keys ?columns (tv_committed (V (dm_db w))) (batches_rows bs) (tv_committed (V (dm_db (us_world st'))))"
    "updated = size (matched_rows val ?keys rows (batches_rows bs))"
    "wo_facts outcome = with_merge_counts (facts_atomic ''transactional_merge'') updated (size (batches_rows bs) - updated)"
    using duckdb_merge_run [OF assms] Inr by (auto simp: Let_def)
  then obtain rows' where r': "tv_committed (V (dm_db (us_world st'))) = Some rows'"
    and none: "colliding_rows val ?keys (batches_rows bs) = {#}"
    by (auto simp: merge_done_def)
  note done_rows = merge_done_rows [OF b(3) [unfolded b(2) r']]
  show ?thesis
    unfolding Inr Let_def sum.case
    by (intro exI [of _ bs] exI [of _ rows] exI [of _ rows'] exI [of _ updated] conjI)
      (use b r' none done_rows in simp_all)
qed

definition demo_merge :: "table_lists duckdb_merge" where
  "demo_merge = \<lparr>dm_table = demo_table, dm_merge_keys = [''id''], dm_db = demo_tables, dm_destination_schema = [],
     dm_stage = [], dm_staged_chunks = 0, dm_staged_records = 0\<rparr>"

definition demo_merge_run ::
  "(load_failure, record_batch) result list
   \<Rightarrow> (write_phase_failure, write_phase_outcome) result \<times> table_lists duckdb_merge unit_state" where
  "demo_merge_run chunks = run_serial_write_phase default_policy (duckdb_merge_ops reference_arrow demo_duckdb ''t'') chunks
     \<lparr>us_world = snd (duckdb_merge_begin demo_duckdb ''t'' demo_merge), us_attempts = [], us_sleeps = []\<rparr>"

theorem duckdb_merge_upserts_witness:
  "(\<exists>rows'. tv_committed (lists_view (dm_db (us_world (snd (demo_merge_run [Inr (demo_rows [''b'', ''c''] True)]))))) = Some rows'
     \<and> size rows' = 3)
   \<and> tv_committed (lists_view (dm_db (us_world (snd (demo_merge_run [Inr (demo_rows [''b'', ''b''] True)])))))
       = tv_committed (lists_view (dm_db demo_merge))"
proof -
  let ?st = "\<lparr>us_world = snd (duckdb_merge_begin demo_duckdb ''t'' demo_merge), us_attempts = [], us_sleeps = []\<rparr>"
  let ?good = "[Inr (demo_rows [''b'', ''c''] True)]" and ?bad = "[Inr (demo_rows [''b'', ''b''] True)]"
  have opened: "duckdb_merge_begin demo_duckdb ''t'' demo_merge = (Inr (), us_world ?st)"
  proof -
    have "is_ok (fst (duckdb_merge_begin demo_duckdb ''t'' demo_merge))" by code_simp
    then show ?thesis by (auto simp: is_ok_def prod_eq_iff split: sum.splits)
  qed
  have name: "dt_dataset (dm_table demo_merge) = ''sa\"les''" "dm_merge_keys demo_merge = [''id'']"
    by (simp_all add: demo_merge_def demo_table_def)
  have other: "merge_stage_name ''t'' \<noteq> dt_dataset (dm_table demo_merge)" by code_simp
  have rect: "rectangular (demo_rows ids paid)" for ids paid
    by (simp add: demo_rows_def demo_table_schema_def rectangular_def rb_rows_def)
  note upserts = duckdb_merge_upserts [OF demo_duckdb_contract [folded name] other opened, of default_policy reference_arrow,
      unfolded demo_merge_run_def [symmetric]]
  have ok: "is_ok (fst (demo_merge_run ?good))"
    "case fst (demo_merge_run ?good) of Inr o1 \<Rightarrow> wo_facts o1 = with_merge_counts (facts_atomic ''transactional_merge'') 1 1 | _ \<Rightarrow> False"
    "case fst (demo_merge_run ?bad) of Inl (In_Session fail) \<Rightarrow> wx_committed_chunks fail = 0 | _ \<Rightarrow> False"
    by code_simp+
  have old: "tv_committed (lists_view (dm_db demo_merge)) = Some (batch_rows (demo_rows [''a'', ''b''] False))"
    by (simp add: demo_merge_def demo_tables_def lists_view_def batch_row_list_def batch_rows_def)
  have rows: "size (batches_rows [demo_rows [''b'', ''c''] True]) = 2" "size (batch_rows (demo_rows [''a'', ''b''] False)) = 2"
    by (simp_all add: batches_rows_def demo_rows_def rb_rows_def)
  have "\<exists>rows'. tv_committed (lists_view (dm_db (us_world (snd (demo_merge_run ?good))))) = Some rows' \<and> size rows' = 3"
  proof -
    obtain outcome where o: "fst (demo_merge_run ?good) = Inr outcome" using ok(1) by (auto simp: is_ok_def split: sum.splits)
    have run: "demo_merge_run ?good = (Inr outcome, snd (demo_merge_run ?good))" using o by (simp add: prod_eq_iff)
    have all: "\<forall>b. Inr b \<in> set ?good \<longrightarrow> rectangular b" using rect by simp
    show ?thesis
      using upserts [OF run all, unfolded sum.case Let_def old]
    proof (elim exE conjE)
      fix bs rows rows' updated
      assume a: "?good = map Inr bs" "Some (batch_rows (demo_rows [''a'', ''b''] False)) = Some rows"
        "tv_committed (lists_view (dm_db (us_world (snd (demo_merge_run ?good))))) = Some rows'"
        "size rows' = size rows + (size (batches_rows bs) - updated)"
        "wo_facts outcome = with_merge_counts (facts_atomic ''transactional_merge'') updated (size (batches_rows bs) - updated)"
      have "bs = [demo_rows [''b'', ''c''] True]" using a(1) by (simp add: Cons_eq_map_conv)
      then show ?thesis using a ok(2) o rows by (auto simp: with_merge_counts_def facts_atomic_def)
    qed
  qed
  moreover have "tv_committed (lists_view (dm_db (us_world (snd (demo_merge_run ?bad))))) = tv_committed (lists_view (dm_db demo_merge))"
  proof -
    obtain e where e: "fst (demo_merge_run ?bad) = Inl (In_Session e)" "wx_committed_chunks e = 0"
      using ok(3) by (auto split: sum.splits write_phase_failure.splits)
    have run: "demo_merge_run ?bad = (Inl (In_Session e), snd (demo_merge_run ?bad))" using e by (simp add: prod_eq_iff)
    have "\<forall>b. Inr b \<in> set ?bad \<longrightarrow> rectangular b" using rect by simp
    from upserts [OF run this, unfolded sum.case write_phase_failure.case Let_def] e(2)
    show ?thesis by (auto simp: Cons_eq_map_conv)
  qed
  ultimately show ?thesis by blast
qed

section \<open>A whole load\<close>

subsection \<open>Two definitions to load\<close>

definition demo_world :: "(nat \<times> nat \<times> nat, nat, full_refresh_world) load_world" where
  "demo_world = \<lparr>lw_chrono = demo_chrono, lw_text = demo_json_text, lw_yaml = demo_yaml, lw_csv = demo_csv_library,
     lw_arrow = reference_arrow, lw_env = (\<lambda>_. None),
     lw_source = (\<lambda>path. if path = ''in.csv'' then demo_csv_source else demo_jsonl_source),
     lw_source_again = (\<lambda>path. if path = ''in.csv'' then demo_csv_source else demo_jsonl_source),
     lw_destination = (\<lambda>_ _. full_refresh_ops (\<lambda>_. 9)), lw_definition = (\<lambda>_. Inl ''not a definition''),
     lw_binary_version = ''0.1.0''\<rparr>"

definition demo_definition :: "string \<Rightarrow> nat \<Rightarrow> load_definition" where
  "demo_definition path tolerated = \<lparr>ld_version = Some 1,
     ld_source = Some \<lparr>sd_connector = ''local_file'', sd_path = path, sd_format = None\<rparr>,
     ld_destination = Some (File_Destination \<lparr>fd_connector = ''parquet'', fd_path = ''out/data''\<rparr>),
     ld_dataset = None, ld_load_mode = None, ld_merge = None, ld_transform = None, ld_schema = None,
     ld_artifacts_dir = None, ld_execution = Some \<lparr>ec_chunk_rows = Some 1, ec_parallelism = None, ec_retry = None\<rparr>,
     ld_reject_threshold = Some tolerated\<rparr>"

lemma demo_definition_source:
  "ld_source (demo_definition path k) = Some \<lparr>sd_connector = ''local_file'', sd_path = path, sd_format = None\<rparr>"
  by (simp add: demo_definition_def)

lemma demo_world_sources:
  "lw_arrow demo_world = reference_arrow" "lw_text demo_world = demo_json_text" "lw_source_again demo_world = lw_source demo_world"
  "lw_source demo_world ''in.csv'' = demo_csv_source" "lw_source demo_world ''in.jsonl'' = demo_jsonl_source"
  by (simp_all add: demo_world_def)

text \<open>
  C7: no load writes when more records were rejected than its definition tolerates: a success
  stays within the threshold, and a failure above it left the destination untouched, states that
  nothing was written, and names the threshold with the two numbers it was held against; only
  where the schema decision had failed before any record was materialized, which the failure shows by
  stating no source rows, does it have the code of that failure.
\<close>

theorem threshold_gates_writes:
  assumes "execute_supported_load W def sink f world r sink' f' world'"
  shows "case r of
      Inr details \<Rightarrow> rw_rejected (xd_row_counts details) \<le> reject_threshold def
    | Inl fail \<Rightarrow> reject_threshold def < ef_rejected_count fail \<longrightarrow>
        world' = world \<and> unwritten fail
        \<and> (threshold_named (reject_threshold def) fail \<or> schema_failure fail)"
  using assms
proof (cases rule: execute_supported_load.cases)
  case (load_stopped fail)
  then show ?thesis using prepare_load_stopped by fastforce
next
  case (load_written p sr r1 st)
  have "sr_rejected_count sr \<le> reject_threshold def"
    by (rule prepare_load_Inr [OF load_written(3)]) (use gate_load_Inr(1) in fastforce)
  then show ?thesis
    using load_written(1)
    by (auto simp: finish_load_def success_details_def write_failure_report_def Let_def split: sum.splits write_phase_failure.splits)
qed

theorem threshold_gates_writes_witness:
  "\<exists>fail sink' f' world'. execute_supported_load demo_world (demo_definition ''in.jsonl'' 0) (sink_new ''artifacts'') demo_text_files
     demo_refresh (Inl fail) sink' f' world' \<and> ef_rejected_count fail = 1 \<and> world' = demo_refresh \<and> unwritten fail \<and> threshold_named 0 fail"
proof -
  let ?def = "demo_definition ''in.jsonl'' 0"
  let ?prep = "prepare_load demo_world ?def (sink_new ''artifacts'') demo_text_files"
  have "case ?prep of Some (Inl fail, _) \<Rightarrow> ef_rejected_count fail = 1 \<and> ef_source_rows fail \<noteq> None | _ \<Rightarrow> False" by code_simp
  then obtain fail sink' f' where prep: "?prep = Some (Inl fail, sink', f')" and one: "ef_rejected_count fail = 1" "ef_source_rows fail \<noteq> None"
    by (auto split: option.splits prod.splits sum.splits)
  note load = execute_supported_load.load_stopped [OF prep, of demo_refresh]
  have zero: "reject_threshold ?def = 0" by code_simp
  show ?thesis using threshold_gates_writes [OF load] load one zero by (auto simp: schema_failure_def)
qed

text \<open>
  C29: every run of a load has exactly one end, a report or an I/O error: no loop of the source,
  the spill merge, the retries or the write phase goes on for ever, the spill merge does not panic,
  and, as every shipped destination takes one unit at a time, nothing of the end depends on a
  scheduler. The calls of the libraries and of the databases return values here: a
  call that hangs, and the panics of the SQL Server session on an answer that is not of
  the documented form, are outside the model.
\<close>

theorem every_load_ends:
  assumes "\<And>yaml def. lw_definition W yaml = Inr def \<Longrightarrow> execution_ok (ld_execution def)"
    and "\<And>root. tf_files f (sk_artifact_path (sink_new (path_join root load_id))) = None"
    and "\<And>path. texts_read_back (lw_text W) (source_lines (lw_source W path))"
  shows "\<exists>!(result, f', world'). run_load W print load_id output_dir definition_path clock f world result f' world'"
  using run_load_ends [OF assms] run_load_once [OF assms(1)] by (fastforce intro!: ex_ex1I)

theorem every_load_ends_witness:
  "\<exists>!(result, f', world'). run_load (demo_world\<lparr>lw_source := \<lambda>_. demo_jsonl_source,
       lw_definition := \<lambda>_. Inr (demo_definition ''in.jsonl'' 2)\<rparr>) (\<lambda>_. ''report'') ''id'' None ''load.yaml''
     (timings_between 5 7) demo_text_files demo_refresh result f' world'"
  by (rule every_load_ends)
    (auto simp: demo_world_def demo_definition_def execution_ok_def demo_fresh demo_texts)

text \<open>
  C30: the report of a run and its exit status agree: the process exits with 0 exactly when the load
  succeeded, a failure has a code and a message, the report file holds the report, and the report
  names the rejected-record artifact exactly when it counts rejections.
\<close>

theorem report_states_the_outcome:
  assumes "run_load W print load_id output_dir definition_path clock f world (Inr report) f' world'"
  shows "(lr_exit_status report = ''succeeded'') = (lr_error_summary report = None)
    \<and> exit_code (Inr report) = (if lr_error_summary report = None then 0 else 1)
    \<and> tf_files f' (path_join (lr_artifact_dir report) LOAD_REPORT_FILENAME) = Some (print report)
    \<and> rj_count (lr_rejected_records report) = rw_rejected (lr_row_counts report)
    \<and> (rj_artifact (lr_rejected_records report) = None) = (rw_rejected (lr_row_counts report) = 0)
    \<and> (lr_error_summary report = None \<longrightarrow> rw_written (lr_row_counts report)
         = rw_source (lr_row_counts report) - rw_rejected (lr_row_counts report))"
  using assms
proof (cases rule: run_load.cases)
  case (load_concluded def f1 artifact_dir u f2 r sink f3)
  note c = conclude_load_Inr [OF load_concluded(5)]
  have "xd_rejected_count details = rw_rejected (xd_row_counts details)
      \<and> rw_written (xd_row_counts details) = rw_source (xd_row_counts details) - rw_rejected (xd_row_counts details)" if "r = Inr details" for details
    using load_concluded(4) load_or_failure_counts [of W def "sink_new artifact_dir" f2 world details sink f3 world'] that by simp
  then show ?thesis
    using c(1,2)
    by (cases r) (simp_all add: assemble_report_def report_from_success_def report_from_failure_def rejected_facts_def exit_code_def)
qed

theorem report_states_the_outcome_witness:
  "\<exists>report f'. run_load demo_world (\<lambda>_. ''report'') ''id'' None ''load.yaml'' (timings_between 5 7) demo_text_files
     demo_refresh (Inr report) f' demo_refresh \<and> lr_error_summary report \<noteq> None \<and> exit_code (Inr report) = 1"
proof -
  let ?read = "read_load_definition (lw_definition demo_world) ''load.yaml'' demo_text_files"
  let ?fail = "projl (fst ?read)" and ?dir = "path_join (artifact_root None (fst ?read)) ''id''"
  let ?made = "tf_create_dir_all ?dir (snd ?read)"
  let ?done = "conclude_load demo_world (\<lambda>_. ''report'') ''id'' ?dir (timings_between 5 7) (Inl ?fail) (sink_new ?dir) (snd ?made)"
  have ok: "\<not> is_ok (fst ?read)" "is_ok (fst ?made)" "is_ok (fst ?done)" by code_simp+
  have read: "?read = (Inl ?fail, snd ?read)" using ok(1) by (cases "fst ?read") (auto simp: prod_eq_iff)
  have made: "?made = (Inr (), snd ?made)" using ok(2) by (cases "fst ?made") (auto simp: prod_eq_iff)
  obtain report f' where concluded: "?done = (Inr report, f')" using ok(3) unfolding is_ok_iff by (metis prod.collapse)
  have dir: "?dir = path_join (artifact_root None (Inl ?fail)) ''id''" using read by (metis fst_conv)
  have run: "run_load demo_world (\<lambda>_. ''report'') ''id'' None ''load.yaml'' (timings_between 5 7) demo_text_files
      demo_refresh (Inr report) f' demo_refresh"
    by (rule load_concluded [OF read dir made definition_unread concluded])
  have "lr_error_summary report \<noteq> None"
    using conclude_load_Inr(1) [OF concluded] by (simp add: assemble_report_def report_from_failure_def)
  then show ?thesis using run report_states_the_outcome [OF run] by auto
qed

section \<open>The SQL Server session\<close>

subsection \<open>A server to run it on\<close>

definition demo_wire_key :: "column_data option \<Rightarrow> string option" where
  "demo_wire_key v = (case v of Some (CD_String s) \<Rightarrow> s | _ \<Rightarrow> None)"

definition demo_sql_env :: sql_env where
  "demo_sql_env = \<lparr>se_display = (\<lambda>_. ''type''), se_instant = (\<lambda>_. None)\<rparr>"

definition demo_address :: sqlserver_config where
  "demo_address = \<lparr>qc_host = ''db'', qc_port = 1433, qc_database = ''sales'', qc_schema = ''dbo'', qc_user = ''loader'',
     qc_password_env = ''SQL_PASSWORD'', qc_encryption = Encryption_Required, qc_trust_server_certificate = False,
     qc_accept_datetime_rounding = False, qc_dataset = ''sa]les''\<rparr>"

definition demo_catalog :: "column_data list list" where
  "demo_catalog = map (\<lambda>(name, tname). [CD_String (Some name), CD_String (Some tname), CD_U8 (Some 0), CD_U8 (Some 0),
       CD_I16 (Some (- 1)), CD_Bit (Some True), CD_Bit (Some False), CD_Bit (Some False)])
     [(''paid'', ''bit''), (''id'', ''nvarchar'')]"

definition demo_sqlserver :: "server_lists sqlserver" where
  "demo_sqlserver = reference_sqlserver demo_wire_key ''dbo'' ''sa]les'' (merge_stage_name ''t'') demo_catalog"

definition demo_wire :: "string \<Rightarrow> bool \<Rightarrow> sql_row" where
  "demo_wire ident paid = [''id'' \<mapsto> CD_String (Some ident), ''paid'' \<mapsto> CD_Bit (Some paid)]"

definition demo_sql_writer :: "server_lists sql_writer" where
  "demo_sql_writer = \<lparr>sw_address = demo_address, sw_mode = Append, sw_merge_keys = [''id''], sw_stage = [],
     sw_client = \<lparr>sl_committed = Some [demo_wire ''a'' False, demo_wire ''b'' False], sl_working = None, sl_stage = None,
       sl_open = False, sl_bulk = None\<rparr>,
     sw_plan = None, sw_shape = None, sw_transaction = False, sw_identity_insert = False, sw_committed_chunks = 0,
     sw_written_records = 0\<rparr>"

definition demo_sql_start :: "load_mode \<Rightarrow> server_lists sql_writer unit_state" where
  "demo_sql_start mode = \<lparr>us_world = snd (sql_begin demo_sqlserver ''t'' mode demo_sql_writer), us_attempts = [], us_sleeps = []\<rparr>"

definition demo_sql_run ::
  "load_mode \<Rightarrow> (load_failure, record_batch) result list
   \<Rightarrow> (write_phase_failure, write_phase_outcome) result \<times> server_lists sql_writer unit_state" where
  "demo_sql_run mode chunks =
     run_serial_write_phase default_policy (sqlserver_ops demo_sql_env demo_sqlserver ''t'') chunks (demo_sql_start mode)"

definition demo_sql_table :: "server_lists sql_writer \<Rightarrow> sql_row multiset option" where
  "demo_sql_table w = sv_committed (server_view (sw_client w))"

lemma demo_sql_contract:
  "sqlserver_contract demo_sqlserver server_view demo_wire_key (qc_schema (sw_address demo_sql_writer))
     (qc_dataset (sw_address demo_sql_writer)) (merge_stage_name ''t'')"
  using reference_sqlserver_contract
  by (simp add: demo_sqlserver_def demo_sql_writer_def demo_address_def)

lemma demo_sql_opened: "sql_begin demo_sqlserver ''t'' mode demo_sql_writer = (Inr (), us_world (demo_sql_start mode))"
proof -
  have opens: "is_ok (fst (sql_begin demo_sqlserver ''t'' Append demo_sql_writer))"
    "is_ok (fst (sql_begin demo_sqlserver ''t'' Full_Refresh demo_sql_writer))"
    "is_ok (fst (sql_begin demo_sqlserver ''t'' Merge demo_sql_writer))"
    by code_simp+
  have "is_ok (fst (sql_begin demo_sqlserver ''t'' mode demo_sql_writer))" using opens by (cases mode) simp_all
  then show ?thesis by (auto simp: demo_sql_start_def is_ok_def prod_eq_iff split: sum.splits)
qed

lemma demo_rows_shape:
  "rectangular (demo_rows ids paid)" "batch_columns (demo_rows ids paid) = [''id'', ''paid'']"
  "size (batch_rows (demo_rows ids paid)) = length ids"
  by (simp_all add: demo_rows_def demo_table_schema_def rectangular_def rb_rows_def batch_columns_def)

subsection \<open>What it leaves in the table\<close>

text \<open>
  C18: a SQL Server full refresh is one transaction: a run that succeeds leaves in the table one row
  for each record of the chunks, every column holding the record's value (a timestamp rounded to the
  column's unit), and one that fails states that no chunk was committed and leaves the table as it
  was, unless the server committed and the answer to \<open>COMMIT TRAN\<close> was lost.
\<close>

theorem sqlserver_full_refresh_atomic:
  assumes K: "sqlserver_contract S V val (qc_schema (sw_address w)) (qc_dataset (sw_address w)) stage"
    and opened: "sql_begin S token Full_Refresh w = (Inr (), us_world st)"
    and run: "run_serial_write_phase policy (sqlserver_ops E S token) chunks st = (r, st')" and chunks: "chunks \<noteq> []"
    and batches: "\<forall>b. Inr b \<in> set chunks \<longrightarrow> rectangular b"
  shows "let old = sv_committed (V (sw_client w)); new = sv_committed (V (sw_client (us_world st')));
      replaced = (\<exists>bs rows. chunks = map Inr bs \<and> new = Some rows
        \<and> rel_mset (row_holds (batch_columns (hd bs))) rows (batches_rows bs)) in case r of
      Inr outcome \<Rightarrow> replaced
    | Inl (In_Session fail) \<Rightarrow> wx_committed_chunks fail = 0 \<and> (new = old \<or> replaced)
    | Inl (Before_Session fail) \<Rightarrow> False"
proof -
  have holds: "rel_mset (row_holds (batch_columns (hd bs))) rows (batches_rows bs)"
    if "chunks = map Inr bs" "committed_as E bs rows" for bs rows
    using committed_as_holds [OF that(2)] batches that(1) by auto
  show ?thesis
    using sqlserver_refresh_run [OF K opened run chunks] holds
    by (auto simp: Let_def split: sum.splits write_phase_failure.splits)
qed

theorem sqlserver_full_refresh_atomic_witness:
  "(\<exists>rows. demo_sql_table (us_world (snd (demo_sql_run Full_Refresh [Inr (demo_rows [''c''] True), Inr (demo_rows [''d''] True)])))
      = Some rows
      \<and> rel_mset (row_holds [''id'', ''paid'']) rows (batches_rows [demo_rows [''c''] True, demo_rows [''d''] True]))
   \<and> demo_sql_table (us_world (snd (demo_sql_run Full_Refresh [Inr (demo_rows [''c''] True), Inl (failure ''source_changed'' [])])))
      = demo_sql_table demo_sql_writer"
proof -
  let ?good = "[Inr (demo_rows [''c''] True), Inr (demo_rows [''d''] True)]" and
    ?bad = "[Inr (demo_rows [''c''] True), Inl (failure ''source_changed'' [])]"
  note atomic = sqlserver_full_refresh_atomic [OF demo_sql_contract demo_sql_opened, of default_policy demo_sql_env,
      folded demo_sql_run_def, unfolded Let_def]
  obtain outcome where o: "fst (demo_sql_run Full_Refresh ?good) = Inr outcome"
  proof -
    have "is_ok (fst (demo_sql_run Full_Refresh ?good))" by code_simp
    then show ?thesis using that by (auto simp: is_ok_iff)
  qed
  have run: "demo_sql_run Full_Refresh ?good = (Inr outcome, snd (demo_sql_run Full_Refresh ?good))"
    using o by (simp add: prod_eq_iff)
  have bad: "demo_sql_run Full_Refresh ?bad
      = (fst (demo_sql_run Full_Refresh ?bad), snd (demo_sql_run Full_Refresh ?bad))" by simp
  have "is_ok (fst (demo_sql_run Full_Refresh ?bad)) = False" by code_simp
  then show ?thesis
    using atomic [OF run] atomic [OF bad]
    by (auto simp: demo_sql_table_def demo_rows_shape Cons_eq_map_conv split: sum.splits write_phase_failure.splits)
qed

text \<open>
  C19: a SQL Server append commits chunk by chunk: whatever stops it, the table has the rows it had
  and one for each record of the chunks that the failure counts, or also of the chunk whose bulk
  load failed after the server had taken it.
\<close>

theorem sqlserver_append_commits_prefix:
  assumes K: "sqlserver_contract S V val (qc_schema (sw_address w)) (qc_dataset (sw_address w)) stage"
    and opened: "sql_begin S token Append w = (Inr (), us_world st)"
    and run: "run_serial_write_phase policy (sqlserver_ops E S token) chunks st = (r, st')"
    and batches: "\<forall>b. Inr b \<in> set chunks \<longrightarrow> rectangular b"
  shows "let old = sv_committed (V (sw_client w)); new = sv_committed (V (sw_client (us_world st'))) in case r of
      Inr outcome \<Rightarrow> \<exists>bs. chunks = map Inr bs \<and> arrived bs old new
    | Inl (In_Session fail) \<Rightarrow> \<exists>bs rest. chunks = map Inr bs @ rest \<and> wx_committed_chunks fail = length bs
        \<and> (arrived bs old new \<or> (\<exists>b rest'. rest = Inr b # rest' \<and> arrived (bs @ [b]) old new))
    | Inl (Before_Session fail) \<Rightarrow> False"
proof -
  have holds: "arrived bs old new" if "chunks = map Inr bs @ rest" "grown E bs old new" for bs rest old new
    using grown_arrived [OF that(2)] batches that(1) by auto
  show ?thesis
  proof (cases r)
    case (Inr outcome)
    then show ?thesis using sqlserver_append_run [OF K opened run] holds [of _ "[]"] by (auto simp: Let_def)
  next
    case (Inl x)
    obtain fail where x: "x = In_Session fail"
      using sqlserver_append_run [OF K opened run] Inl by (cases x) (simp_all add: Let_def)
    obtain bs rest where b: "chunks = map Inr bs @ rest" "wx_committed_chunks fail = length bs"
      "grown E bs (sv_committed (V (sw_client w))) (sv_committed (V (sw_client (us_world st'))))
       \<or> (\<exists>b rest'. rest = Inr b # rest' \<and> grown E (bs @ [b]) (sv_committed (V (sw_client w))) (sv_committed (V (sw_client (us_world st')))))"
      using sqlserver_append_run [OF K opened run] Inl x by (auto simp: Let_def)
    then show ?thesis
      using holds [of bs rest] holds [of "bs @ [_]"] unfolding Inl x Let_def sum.case write_phase_failure.case
      by (intro exI [of _ bs] exI [of _ rest]) auto
  qed
qed

theorem sqlserver_append_commits_prefix_witness:
  "\<exists>rows. rel_mset (row_holds [''id'', ''paid'']) rows (batches_rows [demo_rows [''c''] True])
     \<and> demo_sql_table (us_world (snd (demo_sql_run Append
         [Inr (demo_rows [''c''] True), Inl (failure ''source_changed'' []), Inr (demo_rows [''d''] True)])))
       = add_rows rows (demo_sql_table demo_sql_writer)"
proof -
  let ?chunks = "[Inr (demo_rows [''c''] True), Inl (failure ''source_changed'' []), Inr (demo_rows [''d''] True)]"
  note prefix = sqlserver_append_commits_prefix [OF demo_sql_contract demo_sql_opened, of default_policy demo_sql_env,
      folded demo_sql_run_def, unfolded Let_def]
  have "case fst (demo_sql_run Append ?chunks) of Inl (In_Session fail) \<Rightarrow> wx_committed_chunks fail = 1 | _ \<Rightarrow> False"
    by code_simp
  then obtain fail where f: "fst (demo_sql_run Append ?chunks) = Inl (In_Session fail)" "wx_committed_chunks fail = 1"
    by (auto split: sum.splits write_phase_failure.splits)
  have run: "demo_sql_run Append ?chunks = (Inl (In_Session fail), snd (demo_sql_run Append ?chunks))"
    using f(1) by (simp add: prod_eq_iff)
  have "\<forall>b. Inr b \<in> set ?chunks \<longrightarrow> rectangular b" by (simp add: demo_rows_shape)
  from prefix [OF run this, unfolded sum.case write_phase_failure.case]
  obtain bs rest where b: "?chunks = map Inr bs @ rest" "wx_committed_chunks fail = length bs"
    "arrived bs (demo_sql_table demo_sql_writer) (demo_sql_table (us_world (snd (demo_sql_run Append ?chunks))))
     \<or> (\<exists>b rest'. rest = Inr b # rest' \<and> arrived (bs @ [b]) (demo_sql_table demo_sql_writer)
          (demo_sql_table (us_world (snd (demo_sql_run Append ?chunks)))))"
    unfolding demo_sql_table_def by blast
  moreover have "bs = [demo_rows [''c''] True]"
    using b(1,2) f(2) by (cases bs) auto
  ultimately show ?thesis by (auto simp: arrived_def demo_rows_shape)
qed

text \<open>
  C6: a SQL Server merge, into a table whose columns take the staged values as they are, is one
  transaction on keys that are unique among the incoming rows: a run that succeeds has staged
  one row for each record, replaced the rows whose key came in, kept the others and added the
  rest, and states how many of each; one that fails states that no chunk was committed and
  leaves the table as it was, unless the server committed and the answer to \<open>COMMIT
  TRAN\<close> was lost.
\<close>

theorem sqlserver_merge_upserts:
  assumes K: "sqlserver_contract S V val (qc_schema (sw_address w)) (qc_dataset (sw_address w)) (merge_stage_name token)"
    and columns: "\<forall>b. Inr b \<in> set chunks \<longrightarrow> batch_columns b = columns"
    and name: "merge_stage_name token \<noteq> qc_dataset (sw_address w)"
    and opened: "sql_begin S token Merge w = (Inr (), us_world st)"
    and run: "run_serial_write_phase policy (sqlserver_ops E S token) chunks st = (r, st')" and chunks: "chunks \<noteq> []"
    and batches: "\<forall>b. Inr b \<in> set chunks \<longrightarrow> rectangular b"
  shows "let old = sv_committed (V (sw_client w)); new = sv_committed (V (sw_client (us_world st'))); keys = sw_merge_keys w in case r of
      Inr outcome \<Rightarrow> \<exists>bs incoming rows rows' updated. chunks = map Inr bs \<and> old = Some rows \<and> new = Some rows'
        \<and> rel_mset (row_holds columns) incoming (batches_rows bs)
        \<and> colliding_rows val keys incoming = {#}
        \<and> (\<forall>s. s \<in># incoming \<longrightarrow> None \<notin> set (key_tuple val keys s) \<longrightarrow>
             (\<exists>r. r \<in># rows' \<and> key_tuple val keys r = key_tuple val keys s \<and> (\<forall>n\<in>set columns - set keys. r n = s n)))
        \<and> (\<forall>t. t \<in># rows \<longrightarrow> \<not> (\<exists>s. s \<in># incoming \<and> same_key val keys t s) \<longrightarrow> t \<in># rows')
        \<and> updated = size (matched_rows val keys rows incoming)
        \<and> size rows' = size rows + (size incoming - updated)
        \<and> wo_facts outcome = with_merge_counts (facts_atomic ''transactional_merge'') updated (size incoming - updated)
    | Inl (In_Session fail) \<Rightarrow> wx_committed_chunks fail = 0 \<and> (new = old
        \<or> (\<exists>bs incoming. chunks = map Inr bs \<and> rel_mset (row_holds columns) incoming (batches_rows bs)
             \<and> merge_done val keys columns old incoming new))
    | Inl (Before_Session fail) \<Rightarrow> False"
proof -
  have holds: "rel_mset (row_holds columns) incoming (batches_rows bs)" "batch_columns (hd bs) = columns"
    if "chunks = map Inr bs" "committed_as E bs incoming" for bs incoming
  proof -
    show c: "batch_columns (hd bs) = columns" using that chunks columns by (cases bs) auto
    show "rel_mset (row_holds columns) incoming (batches_rows bs)"
      using committed_as_holds [OF that(2)] batches that(1) c by auto
  qed
  note ends = sqlserver_merge_run [OF K name opened run chunks, unfolded Let_def]
  show ?thesis
  proof (cases r)
    case (Inl x)
    obtain fail where x: "x = In_Session fail" using ends Inl by (cases x) simp_all
    then show ?thesis using ends Inl holds by (auto simp: Let_def)
  next
    case (Inr outcome)
    obtain bs incoming rows updated where b: "chunks = map Inr bs" "committed_as E bs incoming"
      "merge_done val (sw_merge_keys w) (batch_columns (hd bs)) (sv_committed (V (sw_client w))) incoming
         (sv_committed (V (sw_client (us_world st'))))" "sv_committed (V (sw_client w)) = Some rows"
      "updated = size (matched_rows val (sw_merge_keys w) rows incoming)"
      "wo_facts outcome = with_merge_counts (facts_atomic ''transactional_merge'') updated (size incoming - updated)"
      using ends Inr by auto
    note h = holds [OF b(1,2)]
    obtain rows' where r': "sv_committed (V (sw_client (us_world st'))) = Some rows'"
      and none: "colliding_rows val (sw_merge_keys w) incoming = {#}"
      using b(3) by (auto simp: merge_done_def)
    note done_rows = merge_done_rows [OF b(3) [unfolded b(4) r' h(2)]]
    show ?thesis
      unfolding Inr Let_def sum.case
      by (intro exI [of _ bs] exI [of _ incoming] exI [of _ rows] exI [of _ rows'] exI [of _ updated] conjI)
        (use b r' none h done_rows in simp_all)
  qed
qed

theorem sqlserver_merge_upserts_witness:
  "(\<exists>rows'. demo_sql_table (us_world (snd (demo_sql_run Merge [Inr (demo_rows [''b'', ''c''] True)]))) = Some rows'
     \<and> size rows' = 3)
   \<and> demo_sql_table (us_world (snd (demo_sql_run Merge [Inr (demo_rows [''b''] True), Inl (failure ''source_changed'' [])])))
       = demo_sql_table demo_sql_writer"
proof -
  let ?good = "[Inr (demo_rows [''b'', ''c''] True)]" and ?bad = "[Inr (demo_rows [''b''] True), Inl (failure ''source_changed'' [])]"
  have other: "merge_stage_name ''t'' \<noteq> qc_dataset (sw_address demo_sql_writer)" by code_simp
  note upserts = sqlserver_merge_upserts [OF demo_sql_contract _ other demo_sql_opened, of _ _ default_policy demo_sql_env,
      folded demo_sql_run_def, unfolded Let_def]
  have "case fst (demo_sql_run Merge ?good) of
      Inr outcome \<Rightarrow> wo_facts outcome = with_merge_counts (facts_atomic ''transactional_merge'') 1 1 | _ \<Rightarrow> False"
    by code_simp
  then obtain outcome where o: "fst (demo_sql_run Merge ?good) = Inr outcome"
    "wo_facts outcome = with_merge_counts (facts_atomic ''transactional_merge'') 1 1"
    by (auto split: sum.splits)
  have "\<not> is_ok (fst (demo_sql_run Merge ?bad))" by code_simp
  then obtain x where x: "fst (demo_sql_run Merge ?bad) = Inl x" by (cases "fst (demo_sql_run Merge ?bad)") simp_all
  have runs: "demo_sql_run Merge ?good = (Inr outcome, snd (demo_sql_run Merge ?good))"
    "demo_sql_run Merge ?bad = (Inl x, snd (demo_sql_run Merge ?bad))"
    using o x by (simp_all add: prod_eq_iff)
  have old: "demo_sql_table demo_sql_writer = Some {#demo_wire ''a'' False, demo_wire ''b'' False#}"
    by (simp add: demo_sql_table_def demo_sql_writer_def)
  have "\<exists>rows'. demo_sql_table (us_world (snd (demo_sql_run Merge ?good))) = Some rows' \<and> size rows' = 3"
  proof -
    have shape: "\<forall>b. Inr b \<in> set ?good \<longrightarrow> batch_columns b = [''id'', ''paid'']" "?good \<noteq> []"
      "\<forall>b. Inr b \<in> set ?good \<longrightarrow> rectangular b"
      by (simp_all add: demo_rows_shape)
    show ?thesis
      using upserts [OF shape(1) runs(1) shape(2,3), unfolded sum.case]
    proof (elim exE conjE)
      fix bs incoming rows rows' updated
      assume a: "sv_committed (server_view (sw_client demo_sql_writer)) = Some rows"
        "sv_committed (server_view (sw_client (us_world (snd (demo_sql_run Merge ?good))))) = Some rows'"
        "size rows' = size rows + (size incoming - updated)"
        "wo_facts outcome = with_merge_counts (facts_atomic ''transactional_merge'') updated (size incoming - updated)"
      have "rows = {#demo_wire ''a'' False, demo_wire ''b'' False#}"
        using a(1) old unfolding demo_sql_table_def by (metis option.inject)
      moreover have "size incoming - updated = 1" using a(4) o(2) by (simp add: with_merge_counts_def facts_atomic_def)
      ultimately have "size rows' = 3" using a(3) by simp
      then show ?thesis using a(2) unfolding demo_sql_table_def by blast
    qed
  qed
  moreover have "demo_sql_table (us_world (snd (demo_sql_run Merge ?bad))) = demo_sql_table demo_sql_writer"
  proof -
    have shape: "\<forall>b. Inr b \<in> set ?bad \<longrightarrow> batch_columns b = [''id'', ''paid'']" "?bad \<noteq> []"
      "\<forall>b. Inr b \<in> set ?bad \<longrightarrow> rectangular b"
      by (simp_all add: demo_rows_shape)
    show ?thesis
      using upserts [OF shape(1) runs(2) shape(2,3)]
      by (auto simp: demo_sql_table_def Cons_eq_map_conv split: write_phase_failure.splits)
  qed
  ultimately show ?thesis by blast
qed

subsection \<open>The values it sends\<close>



definition demo_typed_schema :: "arrow_field list" where
  "demo_typed_schema = [\<lparr>af_name = ''price'', af_type = Arrow_Decimal128 5 2, af_nullable = True\<rparr>,
     \<lparr>af_name = ''amount'', af_type = Arrow_Int64, af_nullable = True\<rparr>]"



text \<open>
  C40: the source's timestamps are exactly those of the years 1 to 9999, and no other is sent;
  one of them is sent exactly to a column of six digits, to the nearest unit of a coarser column and
  to the nearest tick (a 300th of a second) of a \<open>DATETIME\<close>, refused only before the year 1753
  there or where rounding would leave the year 9999.
\<close>

theorem sqlserver_timestamps:
  assumes "sc < 6"
  shows "case datetime2_from_micros t of
      None \<Rightarrow> t < - 62135596800000000 \<or> 253402300800000000 \<le> t
    | Some d \<Rightarrow> - 62135596800000000 \<le> t \<and> t < 253402300800000000 \<and> micros_of d = t \<and> legal_datetime2 d \<and> d2_scale d = 6
        \<and> (case to_scale e sc d of
             Inr d' \<Rightarrow> legal_datetime2 d' \<and> d2_scale d' = sc \<and> 2 * \<bar>t - micros_of d'\<bar> \<le> 10 ^ (6 - sc)
           | Inl e' \<Rightarrow> e' = e \<and> 2 * (253402300800000000 - t) \<le> 10 ^ (6 - sc))
        \<and> (case to_datetime e d of
             Inr d' \<Rightarrow> legal_datetime d' \<and> \<bar>3 * t - thirds_of d'\<bar> \<le> 5000
           | Inl e' \<Rightarrow> e' = e \<and> (t < - 6847804800000000 \<or> 3 * (253402300800000000 - t) \<le> 5000))"
proof (cases "datetime2_from_micros t")
  case None
  then show ?thesis using datetime2_from_micros_None_iff [of t] by simp
next
  case (Some d)
  note d = datetime2_from_micros_Some [OF Some]
  have "\<not> (t < - 62135596800000000 \<or> 253402300800000000 \<le> t)" using Some datetime2_from_micros_None_iff [of t] by simp
  then show ?thesis
    using Some d to_scale_Inr [OF _ assms d(3)] to_scale_Inl [OF _ assms d(3,2)]
      to_datetime_Inr [OF _ d(3)] to_datetime_Inl [OF _ d(3,2)]
    by (auto split: sum.splits)
qed

theorem sqlserver_timestamps_witness:
  "\<exists>d d'. datetime2_from_micros 1700000 = Some d \<and> to_scale (failure ''x'' []) 0 d = Inr d' \<and> 2 * \<bar>1700000 - micros_of d'\<bar> \<le> 1000000"
proof -
  let ?d = "the (datetime2_from_micros 1700000)"
  have "datetime2_from_micros 1700000 \<noteq> None" "is_ok (to_scale (failure ''x'' []) 0 ?d)"
    by (simp_all add: datetime2_from_micros_def to_scale_def datetime2_consts Let_def)
  then show ?thesis
    using sqlserver_timestamps [of 0 1700000 "failure ''x'' []"] by (auto simp: is_ok_iff)
qed

text \<open>
  C21: a table that the source creates reads back: the server reads its name and its columns
  from the statement, whatever the names hold, the shape that the catalog then lists is read as it is,
  and every later load of the same schema accepts it, in every mode.
\<close>

theorem sqlserver_created_table_accepted:
  assumes ddl: "create_table_ddl E dataset schema_name name = Inr sql" and names: "distinct (map af_name dataset)"
  shows "\<exists>shape. created_shape sql = Some ((schema_name, name), shape) \<and> map tc_name shape = map af_name dataset
    \<and> from_catalog_rows (map catalog_cells shape) = Inr shape
    \<and> validate_shape E shape dataset mode keys rounding = Inr ()"
  by (rule created_shape_read [OF ddl])
    (use created_accepts [OF _ names] catalog_cells_read in blast)

theorem sqlserver_created_table_accepted_witness:
  "\<exists>shape. created_shape (projr (create_table_ddl demo_sql_env demo_typed_schema ''dbo'' ''sa]les'')) = Some ((''dbo'', ''sa]les''), shape)
     \<and> validate_shape demo_sql_env shape demo_typed_schema Merge [''price''] False = Inr ()"
proof -
  have "is_ok (create_table_ddl demo_sql_env demo_typed_schema ''dbo'' ''sa]les'')" by code_simp
  then have ddl: "create_table_ddl demo_sql_env demo_typed_schema ''dbo'' ''sa]les''
      = Inr (projr (create_table_ddl demo_sql_env demo_typed_schema ''dbo'' ''sa]les''))"
    by (auto simp: is_ok_iff)
  have "distinct (map af_name demo_typed_schema)" by (simp add: demo_typed_schema_def)
  from sqlserver_created_table_accepted [OF ddl this] show ?thesis by blast
qed

section \<open>A load into any destination\<close>

subsection \<open>What a success leaves\<close>

text \<open>
  C1: a load of a CSV source that does not change while it runs, into any of the destinations and in any
  load mode: when it succeeds, exactly the records that the resolved checks accept have arrived there
  as the mode has it (they replace what was there, or are added to it, or are merged on the keys
  with the counts that the report states); the report counts every record of the source once, as
  written or as rejected, and no more were rejected than tolerated.
\<close>

theorem csv_load_lands:
  assumes A: "arrow_contract (lw_arrow W)" and W: "lw_destination W = destination_session K"
    and wf: "execution_ok (ld_execution def)" "rename_block_ok (ld_transform def)"
    and contract: "\<forall>p sr s g. prepare_load W def (sink_new dir) f = Some (Inr (p, sr), s, g) \<longrightarrow>
      destination_contract K X (lp_destination p) (lp_mode p) h"
    and src: "ld_source def = Some src" and csv: "resolved_source_format (sd_path src) (sd_format src) = ''csv''"
    and fresh: "tf_files f (sk_artifact_path (sink_new dir)) = None"
    and unchanged: "lw_source_again W (sd_path src) = lw_source W (sd_path src)"
    and load: "execute_supported_load W def (sink_new dir) f h (Inr details) sink' f' h'"
  shows "let so = lw_source W (sd_path src); recs = cv_records (csv_source_reader (lw_csv W) so);
      n = resolve_chunk_rows (ld_execution def)
    in \<exists>p d rs chunks bs. validate_definition (lw_env W) def = Inr p
      \<and> csv_stream_of (lw_chrono W) (lw_yaml W) (lw_csv W) so d (lp_merge_keys p) n rs chunks
      \<and> traverse (build_text_chunk (lw_chrono W) (lw_arrow W) (cc_plan chunks)) (stream_chunks n
          (csv_survivors (lw_chrono W) (cc_checks chunks) (cc_field_names chunks) recs)) = Inr bs
      \<and> landed X (lp_destination p) (lp_mode p) (planned_columns (Csv_Chunks chunks)) (Some (xd_destination_write details)) bs h h'
      \<and> rw_source (xd_row_counts details) = length recs \<and> rw_written (xd_row_counts details) = sum_list (map rb_rows bs)
      \<and> rw_rejected (xd_row_counts details) = length (csv_rejections (lw_chrono W) (cc_checks chunks) (cc_field_names chunks) recs)
      \<and> rw_written (xd_row_counts details) + rw_rejected (xd_row_counts details) = length recs
      \<and> rw_rejected (xd_row_counts details) \<le> reject_threshold def"
  using W wf(1) contract load
proof (cases rule: load_ends)
  case (written p sr attempts outcome bs)
  note prep = written(1)
  have p: "validate_definition (lw_env W) def = Inr p" "sr_rejected_count sr \<le> reject_threshold def"
    by (rule prepare_load_Inr [OF prep], use gate_load_Inr(1) in fastforce)+
  have s1: "lp_source p = src" using validate_definition_Inr(1) [OF p(1)] src by simp
  note n0 = resolve_chunk_rows_pos [OF wf(1)]
  let ?so = "lw_source W (sd_path src)"
  let ?recs = "cv_records (csv_source_reader (lw_csv W) ?so)"
  obtain d rs chunks where d: "dir_ok d" "tr_flatten (dir_transform d) = []" and c: "sr_chunks sr = Csv_Chunks chunks"
    and s: "csv_stream_of (lw_chrono W) (lw_yaml W) (lw_csv W) ?so d (lp_merge_keys p) (resolve_chunk_rows (ld_execution def)) rs chunks"
    and counts: "cc_path chunks = sd_path src" "sr_source_rows sr = length ?recs"
      "sr_rejected_count sr = length (csv_rejections (lw_chrono W) (cc_checks chunks) (cc_field_names chunks) ?recs)"
    by (rule csv_load_stream [OF prep fresh wf(2)]) (use s1 csv in auto)
  have items: "csv_items (lw_chrono W) (lw_arrow W) (lw_csv W) ?so chunks = map Inr bs"
    using written(3) c counts(1) unchanged by (simp add: source_items_def)
  note w = csv_load_written [OF s n0 A d items]
  note n = csv_survivors_length [of "lw_chrono W" "cc_checks chunks" "cc_field_names chunks" ?recs]
  show ?thesis
    unfolding Let_def
    by (intro exI [of _ p] exI [of _ d] exI [of _ rs] exI [of _ chunks] exI [of _ bs] conjI s w(1) p(1))
      (use written(2,4) c counts w(2) n p(2) in \<open>simp_all add: success_details_def\<close>)
qed simp_all

text \<open>
  C2: the same of a JSONL source, when the rejected-record artifact could be written.
\<close>

theorem jsonl_load_lands:
  assumes A: "arrow_contract (lw_arrow W)" and W: "lw_destination W = destination_session K"
    and wf: "execution_ok (ld_execution def)" "rename_block_ok (ld_transform def)"
    and contract: "\<forall>p sr s g. prepare_load W def (sink_new dir) f = Some (Inr (p, sr), s, g) \<longrightarrow>
      destination_contract K X (lp_destination p) (lp_mode p) h"
    and src: "ld_source def = Some src" and jsonl: "resolved_source_format (sd_path src) (sd_format src) = ''jsonl''"
    and fresh: "tf_files f (sk_artifact_path (sink_new dir)) = None"
    and unchanged: "lw_source_again W (sd_path src) = lw_source W (sd_path src)"
    and texts: "texts_read_back (lw_text W) (source_lines (lw_source W (sd_path src)))"
    and load: "execute_supported_load W def (sink_new dir) f h (Inr details) sink' f' h'"
    and io: "sk_io_error sink' = None"
  shows "let so = lw_source W (sd_path src); T = lw_text W; n = resolve_chunk_rows (ld_execution def)
    in \<exists>p d rs chunks bs. validate_definition (lw_env W) def = Inr p
      \<and> jsonl_stream_of (lw_chrono W) T (lw_yaml W) so d (lp_merge_keys p) n rs chunks
      \<and> traverse (build_json_chunk (lw_chrono W) (lw_arrow W) (jt_print T) (jc_plan chunks)) (stream_chunks n
          (jsonl_survivors (lw_chrono W) T (jc_checks chunks) (source_lines so))) = Inr bs
      \<and> landed X (lp_destination p) (lp_mode p) (planned_columns (Jsonl_Chunks chunks)) (Some (xd_destination_write details)) bs h h'
      \<and> rw_source (xd_row_counts details) = length (filter (line_counts T) (source_lines so))
      \<and> rw_written (xd_row_counts details) = sum_list (map rb_rows bs)
      \<and> rw_rejected (xd_row_counts details) = length (jsonl_rejections (lw_chrono W) T (jc_checks chunks) (source_lines so))
      \<and> rw_written (xd_row_counts details) + rw_rejected (xd_row_counts details) = rw_source (xd_row_counts details)
      \<and> rw_rejected (xd_row_counts details) \<le> reject_threshold def"
  using W wf(1) contract load
proof (cases rule: load_ends)
  case (written p sr attempts outcome bs)
  note prep = written(1)
  have p: "validate_definition (lw_env W) def = Inr p" "sr_rejected_count sr \<le> reject_threshold def"
    by (rule prepare_load_Inr [OF prep], use gate_load_Inr(1) in fastforce)+
  have s1: "lp_source p = src" using validate_definition_Inr(1) [OF p(1)] src by simp
  note n0 = resolve_chunk_rows_pos [OF wf(1)]
  let ?so = "lw_source W (sd_path src)"
  let ?ls = "source_lines ?so"
  obtain d rs chunks where d: "dir_ok d" and c: "sr_chunks sr = Jsonl_Chunks chunks"
    and s: "jsonl_stream_of (lw_chrono W) (lw_text W) (lw_yaml W) ?so d (lp_merge_keys p) (resolve_chunk_rows (ld_execution def)) rs chunks"
    and counts: "jc_path chunks = sd_path src" "sr_source_rows sr = length (filter (line_counts (lw_text W)) ?ls)"
      "sr_rejected_count sr = length (jsonl_rejections (lw_chrono W) (lw_text W) (jc_checks chunks) ?ls)"
    by (rule jsonl_load_stream [OF prep fresh wf(2)]) (use s1 jsonl io texts in auto)
  have items: "jsonl_items (lw_chrono W) (lw_arrow W) (lw_text W) ?so chunks = map Inr bs"
    using written(3) c counts(1) unchanged by (simp add: source_items_def)
  note w = jsonl_load_written [OF s n0 A d items]
  note n = jsonl_survivors_length [of "lw_chrono W" "lw_text W" "jc_checks chunks" ?ls]
  show ?thesis
    unfolding Let_def
    by (intro exI [of _ p] exI [of _ d] exI [of _ rs] exI [of _ chunks] exI [of _ bs] conjI s w(1) p(1))
      (use written(2,4) c counts w(2) n p(2) in \<open>simp_all add: success_details_def\<close>)
qed simp_all

subsection \<open>Merge loads\<close>


subsection \<open>What a failure leaves\<close>

text \<open>
  C3: what a failed load leaves in its destination: nothing changed when it stopped before its session
  was open; after that the report states a number of committed chunks, and a full refresh or a
  merge has changed nothing and states none, an append holds exactly the chunks before the
  failure, in number those it states (SQL Server may hold the one whose commit it did not
  confirm), unless every chunk was delivered and only the end of the session failed.
\<close>

theorem failed_load_leaves:
  assumes W: "lw_destination W = destination_session K" and serial: "execution_ok (ld_execution def)"
    and contract: "\<forall>p sr s g. prepare_load W def sink f = Some (Inr (p, sr), s, g) \<longrightarrow>
      destination_contract K X (lp_destination p) (lp_mode p) h"
    and load: "execute_supported_load W def sink f h (Inl fail) sink' f' h'"
  shows "unwritten fail \<and> h' = h
    \<or> (\<exists>p sr s g. prepare_load W def sink f = Some (Inr (p, sr), s, g)
        \<and> (case ef_committed_execution fail of
             None \<Rightarrow> unchanged X (lp_destination p) h h'
           | Some stated \<Rightarrow> failed_write X (lp_destination p) (lp_mode p) (planned_columns (sr_chunks sr))
               (source_items W (sr_chunks sr)) (ce_committed_chunks stated) h h'))"
  using W serial contract load
proof (cases rule: load_ends)
  case (stopped failed)
  then show ?thesis using prepare_load_stopped [OF stopped(1)] by simp
next
  case (written p sr attempts outcome bs)
  then show ?thesis by simp
next
  case (not_begun p sr attempts failed)
  then have "ef_committed_execution fail = None" by (simp add: write_failure_report_def Let_def)
  then show ?thesis using not_begun(1,3) by (intro disjI2 exI conjI) simp_all
next
  case (broken p sr attempts failed)
  then obtain stated where "ef_committed_execution fail = Some stated" "ce_committed_chunks stated = wx_committed_chunks failed"
    by (simp add: write_failure_report_def Let_def)
  then show ?thesis using broken(1,3) by (intro disjI2 exI conjI) simp_all
qed

subsection \<open>Loads that run\<close>

text \<open>
  A DuckDB merge of the CSV source and a SQL Server append of the JSONL one, on a host that has both.
\<close>

definition demo_calls :: "(table_lists, server_lists) destination_calls" where
  "demo_calls = \<lparr>dc_arrow = reference_arrow, dc_encoded_size = (\<lambda>_. 9), dc_read_dir = (\<lambda>_. []),
     dc_duckdb = reference_duckdb demo_value ''sales'' (merge_stage_name ''t'') demo_table_schema,
     dc_sqlserver = reference_sqlserver demo_wire_key ''dbo'' ''sales'' (merge_stage_name ''t'')
       (map (\<lambda>name. [CD_String (Some name), CD_String (Some ''nvarchar''), CD_U8 (Some 0), CD_U8 (Some 0),
          CD_I16 (Some (- 1)), CD_Bit (Some True), CD_Bit (Some False), CD_Bit (Some False)]) [''paid'', ''user'']),
     dc_sql_env = demo_sql_env, dc_token = ''t''\<rparr>"

definition demo_views :: "(table_lists, server_lists, cell, string) destination_views" where
  "demo_views = \<lparr>vw_table = lists_view, vw_cell = demo_value, vw_server = server_view, vw_value = demo_wire_key\<rparr>"

definition demo_host :: "(table_lists, server_lists) load_host" where
  "demo_host = \<lparr>ho_fs = demo_fs, ho_token = (\<lambda>n. replicate n (CHR ''a'')), ho_next = 0,
     ho_duckdb = \<lparr>tl_committed = Some (batch_row_list (demo_rows [''u7'', ''u8''] False)), tl_working = None, tl_columns = [], tl_stage = None, tl_open = False\<rparr>,
     ho_sqlserver = \<lparr>sl_committed = Some [], sl_working = None, sl_stage = None, sl_open = False, sl_bulk = None\<rparr>,
     ho_writer = No_Writer\<rparr>"

definition demo_landing :: "source_file \<Rightarrow> (nat \<times> nat \<times> nat, nat, (table_lists, server_lists) load_host) load_world" where
  "demo_landing again = \<lparr>lw_chrono = demo_chrono, lw_text = demo_json_text, lw_yaml = demo_yaml, lw_csv = demo_csv_library,
     lw_arrow = reference_arrow, lw_env = (\<lambda>_. Some ''secret''),
     lw_source = (\<lambda>path. if path = ''in.csv'' then demo_csv_source else demo_jsonl_source),
     lw_source_again = (\<lambda>path. if path = ''in.csv'' then again else demo_jsonl_source),
     lw_destination = destination_session demo_calls, lw_definition = (\<lambda>_. Inl ''not a definition''),
     lw_binary_version = ''0.1.0''\<rparr>"

definition demo_merge_definition :: load_definition where
  "demo_merge_definition = (demo_definition ''in.csv'' 2)
     \<lparr>ld_destination := Some (File_Destination \<lparr>fd_connector = ''duckdb'', fd_path = ''out/db''\<rparr>),
      ld_dataset := Some ''sales'', ld_load_mode := Some ''merge'', ld_merge := Some \<lparr>mc_keys = [''id'']\<rparr>\<rparr>"

definition demo_append_definition :: load_definition where
  "demo_append_definition = (demo_definition ''in.jsonl'' 2)
     \<lparr>ld_destination := Some (Sql_Server_Definition \<lparr>qd_connector = ''sqlserver'', qd_host = Some ''db'', qd_port = None,
        qd_database = Some ''sales'', qd_schema = None, qd_user = Some ''loader'', qd_password_env = Some ''SQL_PASSWORD'',
        qd_encryption = None, qd_trust_server_certificate = None, qd_accept_datetime_rounding = None\<rparr>),
      ld_dataset := Some ''sales'', ld_load_mode := Some ''append''\<rparr>"

text \<open>The end of the write phase of a load, with what pass 1 read.\<close>

definition demo_end ::
  "('d, 't, 's) load_world \<Rightarrow> load_definition \<Rightarrow> 's
   \<Rightarrow> (load_plan \<times> source_read \<times> string option \<times> (write_phase_failure, write_phase_outcome) result) option" where
  "demo_end W def h = (case prepare_load W def (sink_new ''artifacts'') demo_text_files of
     Some (Inr (p, sr), sink', f') \<Rightarrow>
       (let policy = resolve_retry_policy (ld_execution def); D = lw_destination W (lp_destination p) (lp_mode p) in
        case run_unit policy Unit_Begin (d_begin D (lp_mode p)) \<lparr>us_world = h, us_attempts = [], us_sleeps = []\<rparr> of
          (Inr u, st) \<Rightarrow> Some (p, sr, sk_io_error sink', fst (run_serial_write_phase policy D (source_items W (sr_chunks sr)) st))
        | _ \<Rightarrow> None)
   | _ \<Rightarrow> None)"

lemma demo_end_runs:
  assumes "demo_end W def h = Some (p, sr, io, r)" "execution_ok (ld_execution def)"
  obtains attempts sink' f' h' where
    "prepare_load W def (sink_new ''artifacts'') demo_text_files = Some (Inr (p, sr), sink', f')" "sk_io_error sink' = io"
    "execute_supported_load W def (sink_new ''artifacts'') demo_text_files h (finish_load W def p sr attempts r) sink' f' h'"
proof -
  let ?policy = "resolve_retry_policy (ld_execution def)" and ?D = "lw_destination W (lp_destination p) (lp_mode p)"
  obtain sink' f' u st where prep: "prepare_load W def (sink_new ''artifacts'') demo_text_files = Some (Inr (p, sr), sink', f')"
    and begun: "run_unit ?policy Unit_Begin (d_begin ?D (lp_mode p)) \<lparr>us_world = h, us_attempts = [], us_sleeps = []\<rparr> = (Inr u, st)"
    and run: "r = fst (run_serial_write_phase ?policy ?D (source_items W (sr_chunks sr)) st)" and io: "io = sk_io_error sink'"
    using assms(1) by (auto simp: demo_end_def Let_def split: option.splits prod.splits sum.splits)
  obtain st2 where "run_serial_write_phase ?policy ?D (source_items W (sr_chunks sr)) st = (r, st2)" using run by (metis prod.collapse)
  from load_written [OF prep phase_serial [OF begun load_parallelism_serial [OF assms(2)] this]] show ?thesis
    using that prep io by blast
qed

lemma demo_landing_parts:
  "lw_arrow (demo_landing again) = reference_arrow" "lw_destination (demo_landing again) = destination_session demo_calls"
  "lw_text (demo_landing again) = demo_json_text" "lw_source (demo_landing again) ''in.csv'' = demo_csv_source"
  "lw_source_again (demo_landing again) ''in.csv'' = again" "lw_source (demo_landing again) ''in.jsonl'' = demo_jsonl_source"
  "lw_source_again (demo_landing again) ''in.jsonl'' = demo_jsonl_source"
  by (simp_all add: demo_landing_def)

lemma demo_definition_parts:
  "ld_source demo_merge_definition = Some \<lparr>sd_connector = ''local_file'', sd_path = ''in.csv'', sd_format = None\<rparr>"
  "ld_source demo_append_definition = Some \<lparr>sd_connector = ''local_file'', sd_path = ''in.jsonl'', sd_format = None\<rparr>"
  "execution_ok (ld_execution demo_merge_definition)" "execution_ok (ld_execution demo_append_definition)"
  "rename_block_ok (ld_transform demo_merge_definition)" "rename_block_ok (ld_transform demo_append_definition)"
  "resolved_source_format ''in.csv'' None = ''csv''" "resolved_source_format ''in.jsonl'' None = ''jsonl''"
  by (simp_all add: demo_merge_definition_def demo_append_definition_def demo_definition_def execution_ok_def rename_block_ok_def) code_simp+

definition demo_table_target :: destination where
  "demo_table_target = Duckdb_Destination \<lparr>dt_path = ''out/db'', dt_dataset = ''sales''\<rparr> [''id'']"

definition demo_server_target :: destination where
  "demo_server_target = Sqlserver_Destination (demo_address\<lparr>qc_dataset := ''sales''\<rparr>) []"

lemma demo_contracts:
  "destination_contract demo_calls demo_views demo_table_target mode h"
  "destination_contract demo_calls demo_views demo_server_target mode h"
proof -
  have "distinct (map af_name demo_table_schema)" by (simp add: demo_table_schema_def)
  from reference_duckdb_contract [OF this]
  show "destination_contract demo_calls demo_views demo_table_target mode h"
    by (simp add: demo_table_target_def demo_calls_def demo_views_def merge_stage_name_def)
  show "destination_contract demo_calls demo_views demo_server_target mode h"
    using reference_sqlserver_contract
    by (simp add: demo_server_target_def demo_calls_def demo_views_def demo_address_def merge_stage_name_def)
qed

lemma demo_merge_plan:
  assumes "prepare_load (demo_landing again) demo_merge_definition (sink_new ''artifacts'') demo_text_files = Some (Inr (p, sr), s, g)"
  shows "lp_destination p = demo_table_target \<and> lp_mode p = Merge"
proof -
  have "case validate_definition (\<lambda>_. Some ''secret'') demo_merge_definition of
    Inr p \<Rightarrow> lp_destination p = demo_table_target \<and> lp_mode p = Merge | _ \<Rightarrow> False" by code_simp
  moreover obtain "validate_definition (lw_env (demo_landing again)) demo_merge_definition = Inr p"
    using assms by (rule prepare_load_Inr)
  ultimately show ?thesis by (simp add: demo_landing_def)
qed

lemma demo_merge_contract:
  "\<forall>q sq s g. prepare_load (demo_landing again) demo_merge_definition (sink_new ''artifacts'') demo_text_files
       = Some (Inr (q, sq), s, g) \<longrightarrow>
     destination_contract demo_calls demo_views (lp_destination q) (lp_mode q) demo_host"
  using demo_merge_plan demo_contracts(1) by auto

lemma demo_merge_load:
  obtains p details sink' f' h' where
    "execute_supported_load (demo_landing demo_csv_source) demo_merge_definition (sink_new ''artifacts'') demo_text_files
       demo_host (Inr details) sink' f' h'"
    "xd_row_counts details = \<lparr>rw_source = 3, rw_written = 1, rw_rejected = 2\<rparr>"
    "validate_definition (lw_env (demo_landing demo_csv_source)) demo_merge_definition = Inr p"
    "lp_destination p = demo_table_target" "lp_mode p = Merge"
proof -
  let ?W = "demo_landing demo_csv_source" and ?d = demo_merge_definition
  have "case demo_end ?W ?d demo_host of Some (p, sr, io, r) \<Rightarrow> sr_source_rows sr = 3 \<and> sr_rejected_count sr = 2 \<and> is_ok r | _ \<Rightarrow> False"
    by code_simp
  then obtain p sr io outcome where run: "demo_end ?W ?d demo_host = Some (p, sr, io, Inr outcome)"
    and counts: "sr_source_rows sr = 3" "sr_rejected_count sr = 2" by (auto simp: is_ok_iff split: option.splits)
  obtain attempts sink' f' h' where prep: "prepare_load ?W ?d (sink_new ''artifacts'') demo_text_files = Some (Inr (p, sr), sink', f')"
    and load: "execute_supported_load ?W ?d (sink_new ''artifacts'') demo_text_files demo_host
      (finish_load ?W ?d p sr attempts (Inr outcome)) sink' f' h'"
    by (rule demo_end_runs [OF run demo_definition_parts(3)])
  let ?details = "success_details ?W ?d p sr attempts outcome"
  have load': "execute_supported_load ?W ?d (sink_new ''artifacts'') demo_text_files demo_host (Inr ?details) sink' f' h'"
    using load by (simp add: finish_load_def)
  obtain valid: "validate_definition (lw_env ?W) ?d = Inr p" using prep by (rule prepare_load_Inr)
  show ?thesis
    using that [OF load' _ valid] demo_merge_plan [OF prep] counts by (simp add: success_details_def)
qed

theorem csv_load_lands_witness:
  "\<exists>details sink' f' h' bs columns. execute_supported_load (demo_landing demo_csv_source) demo_merge_definition
       (sink_new ''artifacts'') demo_text_files demo_host (Inr details) sink' f' h'
     \<and> xd_row_counts details = \<lparr>rw_source = 3, rw_written = 1, rw_rejected = 2\<rparr>
     \<and> landed demo_views demo_table_target Merge columns (Some (xd_destination_write details)) bs demo_host h'
     \<and> sum_list (map rb_rows bs) = 1"
proof (rule demo_merge_load)
  let ?W = "demo_landing demo_csv_source" and ?d = demo_merge_definition
  fix p details sink' f' h'
  assume load: "execute_supported_load ?W ?d (sink_new ''artifacts'') demo_text_files demo_host (Inr details) sink' f' h'"
    and rows: "xd_row_counts details = \<lparr>rw_source = 3, rw_written = 1, rw_rejected = 2\<rparr>"
    and plan: "validate_definition (lw_env ?W) ?d = Inr p" "lp_destination p = demo_table_target" "lp_mode p = Merge"
  have "arrow_contract (lw_arrow ?W)" by (simp add: demo_landing_parts reference_arrow_contract)
  from csv_load_lands [OF this demo_landing_parts(2) demo_definition_parts(3,5) demo_merge_contract demo_definition_parts(1)
      _ demo_fresh _ load]
  obtain chunks bs where "landed demo_views (lp_destination p) (lp_mode p) (planned_columns (Csv_Chunks chunks))
        (Some (xd_destination_write details)) bs demo_host h'"
    and "rw_written (xd_row_counts details) = sum_list (map rb_rows bs)"
    using demo_definition_parts(7) plan(1) by (simp add: demo_landing_parts Let_def) blast
  then show ?thesis using load rows plan by (intro exI conjI) simp_all
qed


theorem jsonl_load_lands_witness:
  "\<exists>details sink' f' h' bs columns. execute_supported_load (demo_landing demo_csv_source) demo_append_definition
       (sink_new ''artifacts'') demo_text_files demo_host (Inr details) sink' f' h'
     \<and> xd_row_counts details = \<lparr>rw_source = 3, rw_written = 2, rw_rejected = 1\<rparr>
     \<and> landed demo_views demo_server_target Append columns (Some (xd_destination_write details)) bs demo_host h'
     \<and> sum_list (map rb_rows bs) = 2"
proof -
  let ?W = "demo_landing demo_csv_source" and ?d = demo_append_definition
  have "case demo_end ?W ?d demo_host of Some (p, sr, io, r) \<Rightarrow> lp_destination p = demo_server_target \<and> lp_mode p = Append
      \<and> sr_source_rows sr = 3 \<and> sr_rejected_count sr = 1 \<and> planned_columns (sr_chunks sr) = [''user'', ''paid'']
      \<and> io = None \<and> is_ok r | _ \<Rightarrow> False"
    by code_simp
  then obtain p sr outcome where run: "demo_end ?W ?d demo_host = Some (p, sr, None, Inr outcome)"
    and plan: "lp_destination p = demo_server_target" "lp_mode p = Append" "planned_columns (sr_chunks sr) = [''user'', ''paid'']"
    and counts: "sr_source_rows sr = 3" "sr_rejected_count sr = 1" by (auto simp: is_ok_iff split: option.splits)
  obtain attempts sink' f' h' where prep: "prepare_load ?W ?d (sink_new ''artifacts'') demo_text_files = Some (Inr (p, sr), sink', f')"
    and io: "sk_io_error sink' = None"
    and load: "execute_supported_load ?W ?d (sink_new ''artifacts'') demo_text_files demo_host
      (finish_load ?W ?d p sr attempts (Inr outcome)) sink' f' h'"
    by (rule demo_end_runs [OF run demo_definition_parts(4)])
  let ?details = "success_details ?W ?d p sr attempts outcome"
  have load': "execute_supported_load ?W ?d (sink_new ''artifacts'') demo_text_files demo_host (Inr ?details) sink' f' h'"
    using load by (simp add: finish_load_def)
  have rows: "xd_row_counts ?details = \<lparr>rw_source = 3, rw_written = 2, rw_rejected = 1\<rparr>"
    using counts by (simp add: success_details_def)
  have holds: "\<forall>q sq s g. prepare_load ?W ?d (sink_new ''artifacts'') demo_text_files = Some (Inr (q, sq), s, g) \<longrightarrow>
      destination_contract demo_calls demo_views (lp_destination q) (lp_mode q) demo_host"
    using prep plan demo_contracts(2) by auto
  obtain valid: "validate_definition (lw_env ?W) ?d = Inr p" using prep by (rule prepare_load_Inr)
  have A: "arrow_contract (lw_arrow ?W)" and T: "texts_read_back (lw_text ?W) (source_lines (lw_source ?W ''in.jsonl''))"
    by (simp_all add: demo_landing_parts reference_arrow_contract demo_texts)
  from jsonl_load_lands [OF A demo_landing_parts(2) demo_definition_parts(4,6) holds demo_definition_parts(2) _ demo_fresh _ _ load' io]
  obtain q chunks bs where q: "validate_definition (lw_env ?W) ?d = Inr q"
    and landed: "landed demo_views (lp_destination q) (lp_mode q) (planned_columns (Jsonl_Chunks chunks))
        (Some (xd_destination_write ?details)) bs demo_host h'"
    and written: "rw_written (xd_row_counts ?details) = sum_list (map rb_rows bs)"
    using demo_definition_parts(8) T by (simp add: demo_landing_parts Let_def) blast
  show ?thesis using load' rows landed written q valid plan by (intro exI conjI) simp_all
qed

theorem failed_load_leaves_witness:
  "\<exists>fail sink' f' h'. execute_supported_load (demo_landing (demo_csv_source\<lparr>so_bytes := ''CSV''\<rparr>)) demo_merge_definition
       (sink_new ''artifacts'') demo_text_files demo_host (Inl fail) sink' f' h'
     \<and> duckdb_rows demo_views h' = duckdb_rows demo_views demo_host"
proof -
  let ?W = "demo_landing (demo_csv_source\<lparr>so_bytes := ''CSV''\<rparr>)" and ?d = demo_merge_definition
  have "case demo_end ?W ?d demo_host of
      Some (p, sr, io, r) \<Rightarrow> \<not> list_all is_ok (source_items ?W (sr_chunks sr)) \<and> (case r of Inl _ \<Rightarrow> True | Inr _ \<Rightarrow> False) | _ \<Rightarrow> False"
    by code_simp
  then obtain p sr io x where run: "demo_end ?W ?d demo_host = Some (p, sr, io, Inl x)"
    and broken: "\<not> list_all is_ok (source_items ?W (sr_chunks sr))"
    by (auto split: option.splits sum.splits)
  obtain attempts sink' f' h' where prep: "prepare_load ?W ?d (sink_new ''artifacts'') demo_text_files = Some (Inr (p, sr), sink', f')"
    and load: "execute_supported_load ?W ?d (sink_new ''artifacts'') demo_text_files demo_host
      (finish_load ?W ?d p sr attempts (Inl x)) sink' f' h'"
    by (rule demo_end_runs [OF run demo_definition_parts(3)])
  let ?fail = "write_failure_report ?W ?d p sr attempts x"
  have load': "execute_supported_load ?W ?d (sink_new ''artifacts'') demo_text_files demo_host (Inl ?fail) sink' f' h'"
    using load by (simp add: finish_load_def)
  have "duckdb_rows demo_views h' = duckdb_rows demo_views demo_host"
    using failed_load_leaves [OF demo_landing_parts(2) demo_definition_parts(3) demo_merge_contract load'] prep demo_merge_plan [OF prep] broken
    by (auto simp: demo_table_target_def failed_write_def list_all_iff is_ok_def split: option.splits)
  then show ?thesis using load' by blast
qed

end
